(* ===== verification/Prelude.thy ===== *)
theory Prelude
  imports Main "HOL-Library.Word"
begin

text \<open>
  Shared vocabulary of the development: the machine types of the Rust sources, \<open>Result\<close> as a sum
  type with the combinators the sources use, panics as \<open>option\<close>, string literals and decimal
  rendering, and the generic facts on lists that the codecs share.

  Conventions.  A Rust \<open>u8\<close>, \<open>u16\<close>, \<open>u32\<close>, \<open>u64\<close> is a word of that width.  A \<open>usize\<close> (a length,
  an index) is a \<open>nat\<close>; the target is taken to be a 64-bit one, so that \<open>u64 as usize\<close> loses
  nothing and \<open>usize::try_from\<close> of a \<open>u64\<close> never fails.  Every Rust vector has at most
  \<open>isize::MAX\<close> elements; where a theorem needs that bound it says so with \<open>vec_ok\<close>.
  A \<open>str\<close> is the list of its UTF-8 bytes, as in Rust.
\<close>

unbundle bit_operations_syntax

type_synonym byte = "8 word"
type_synonym u16 = "16 word"
type_synonym u32 = "32 word"
type_synonym u64 = "64 word"
type_synonym bytes = "byte list"
type_synonym rstr = "byte list"

named_theorems codec \<open>what a reader returns on bytes a writer produced\<close>
named_theorems advance \<open>readers move forward and stay inside the input\<close>

section \<open>Results\<close>

abbreviation Ok :: "'a \<Rightarrow> 'e + 'a" where
  "Ok \<equiv> Inr"

abbreviation Err :: "'e \<Rightarrow> 'e + 'a" where
  "Err \<equiv> Inl"

definition and_then :: "'e + 'a \<Rightarrow> ('a \<Rightarrow> 'e + 'b) \<Rightarrow> 'e + 'b" where
  "and_then r f = (case r of Inl e \<Rightarrow> Inl e | Inr x \<Rightarrow> f x)"

definition map_err :: "('e \<Rightarrow> 'f) \<Rightarrow> 'e + 'a \<Rightarrow> 'f + 'a" where
  "map_err g r = (case r of Inl e \<Rightarrow> Inl (g e) | Inr x \<Rightarrow> Inr x)"

definition ok_or :: "'e \<Rightarrow> 'a option \<Rightarrow> 'e + 'a" where
  "ok_or e o' = (case o' of None \<Rightarrow> Inl e | Some x \<Rightarrow> Inr x)"

definition result_ok :: "'e + 'a \<Rightarrow> 'a option" where
  "result_ok r = (case r of Inl e \<Rightarrow> None | Inr x \<Rightarrow> Some x)"

lemma and_then_simps [simp]:
  "and_then (Inl e) f = Inl e"
  "and_then (Inr x) f = f x"
  by (simp_all add: and_then_def)

lemma and_then_eq_Inr: "and_then r f = Inr y \<longleftrightarrow> (\<exists>x. r = Inr x \<and> f x = Inr y)"
  by (cases r) auto

lemma and_then_cong [fundef_cong]:
  "r = r' \<Longrightarrow> (\<And>x. r' = Inr x \<Longrightarrow> f x = g x) \<Longrightarrow> and_then r f = and_then r' g"
  by (cases r') auto

lemma map_err_simps [simp]:
  "map_err g (Inl e) = Inl (g e)"
  "map_err g (Inr x) = Inr x"
  by (simp_all add: map_err_def)

lemma map_err_eq_Inr [simp]: "map_err g r = Inr x \<longleftrightarrow> r = Inr x"
  by (cases r) auto

lemma ok_or_simps [simp]:
  "ok_or e None = Inl e"
  "ok_or e (Some x) = Inr x"
  by (simp_all add: ok_or_def)

lemma ok_or_eq_Inr [simp]: "ok_or e m = Inr x \<longleftrightarrow> m = Some x"
  by (cases m) auto

lemma result_ok_simps [simp]:
  "result_ok (Inl e) = None"
  "result_ok (Inr x) = Some x"
  by (simp_all add: result_ok_def)

section \<open>Vectors, strings and decimal numbers\<close>

definition vec_ok :: "'a list \<Rightarrow> bool" where
  "vec_ok xs \<longleftrightarrow> length xs < 2 ^ 63"

lemma vec_ok_length: "vec_ok xs \<Longrightarrow> length xs < 2 ^ 64"
  by (simp add: vec_ok_def)

lemma unat_of_length [simp]: "vec_ok xs \<Longrightarrow> unat (of_nat (length xs) :: u64) = length xs"
  by (simp add: unat_of_nat vec_ok_def)

lemma unat_of_nat_small: "n < 2 ^ 64 \<Longrightarrow> unat (of_nat n :: u64) = n"
  by (simp add: unat_of_nat)

lemma vec_ok_Nil [simp]: "vec_ok []"
  by (simp add: vec_ok_def)

lemma vec_ok_append: "vec_ok (xs @ ys) \<Longrightarrow> vec_ok xs \<and> vec_ok ys"
  by (simp add: vec_ok_def)

text \<open>A wrapped sum that lands at or above one of its terms has not wrapped.\<close>

lemma wrap_add_exact:
  assumes "(a + b) mod m = l" and "a \<le> l" and "l < m" and "b < (m :: nat)"
  shows "a + b = l"
proof (cases "a + b < m")
  case False
  then have "(a + b) mod m = a + b - m"
    using assms by (simp add: le_mod_geq)
  then show ?thesis
    using assms False by simp
qed (use assms in simp)

text \<open>A string literal of the sources, as its bytes (all of them are ASCII).\<close>

definition lit :: "string \<Rightarrow> rstr" where
  "lit s = map of_char s"

lemma length_lit [simp]: "length (lit s) = length s"
  by (simp add: lit_def)

lemma lit_Nil [simp]: "lit [] = []"
  by (simp add: lit_def)

lemma lit_Cons: "lit (c # s) = of_char c # lit s"
  by (simp add: lit_def)

text \<open>\<open>Display\<close> of an unsigned integer.\<close>

fun show_nat :: "nat \<Rightarrow> rstr" where
  "show_nat n = (if n < 10 then [48 + of_nat n] else show_nat (n div 10) @ [48 + of_nat (n mod 10)])"

fun show_hex :: "nat \<Rightarrow> rstr" where
  "show_hex n = (if n < 16 then [if n < 10 then 48 + of_nat n else 87 + of_nat n]
     else show_hex (n div 16) @ [if n mod 16 < 10 then 48 + of_nat (n mod 16) else 87 + of_nat (n mod 16)])"

declare show_nat.simps [simp del] show_hex.simps [simp del]

section \<open>Bits of words\<close>

lemma unat_pos [simp]: "0 < unat w \<longleftrightarrow> w \<noteq> 0"
  using unsigned_eq_0_iff [of w] by (metis gr_zeroI less_irrefl)

lemma unat_and_7f: "8 \<le> LENGTH('a) \<Longrightarrow> unat ((w :: 'a::len word) AND 0x7f) = unat w mod 128"
proof -
  assume len: "8 \<le> LENGTH('a)"
  have "(0x7f :: 'a word) = mask 7"
    by (simp add: mask_eq_exp_minus_1)
  then have "w AND 0x7f = take_bit 7 w"
    by (simp add: take_bit_eq_mask)
  then show ?thesis using len
    by (simp add: unsigned_take_bit_eq) (simp add: take_bit_eq_mod)
qed

lemma unat_byte_less: "unat (b :: byte) < 256"
proof -
  have "unat b < 2 ^ LENGTH(8)"
    by (rule unsigned_less)
  then show ?thesis by simp
qed

lemma high_bit_iff: "(b :: byte) AND 0x80 = 0 \<longleftrightarrow> unat b < 128"
proof -
  have "b AND 0x80 = 0 \<longleftrightarrow> \<not> bit b 7"
    using and_exp_eq_0_iff_not_bit [of b 7] by simp
  also have "bit b 7 \<longleftrightarrow> bit (unat b) 7"
    by (simp add: bit_unsigned_iff)
  also have "bit (unat b) 7 \<longleftrightarrow> odd (unat b div 128)"
    by (simp add: bit_iff_odd)
  also have "unat b div 128 = (if unat b < 128 then 0 else 1)"
    using unat_byte_less [of b] by (simp; linarith)
  finally show ?thesis by auto
qed

lemma unat_or_80: "unat (b :: byte) < 128 \<Longrightarrow> unat (b OR 0x80) = unat b + 128"
proof -
  assume "unat b < 128"
  then have "b AND 0x80 = 0" by (simp add: high_bit_iff)
  then have "b OR 0x80 = b + 0x80" by (simp add: disjunctive_add_eq_or)
  then show ?thesis using \<open>unat b < 128\<close> by (simp add: unat_word_ariths)
qed

lemma unat_or_push_bit:
  assumes "unat (a :: u64) < 2 ^ s" and "unat b * 2 ^ s < 2 ^ 64"
  shows "unat (a OR push_bit s b) = unat a + unat b * 2 ^ s"
proof -
  have p: "unat (push_bit s b) = push_bit s (unat b)"
    using assms(2) by (simp add: unsigned_push_bit_eq) (simp add: take_bit_nat_eq_self push_bit_eq_mult)
  have bit_above: "\<not> bit (unat a) n" if "s \<le> n" for n
  proof -
    have "unat a < 2 ^ n"
      using assms(1) that by (meson less_le_trans one_le_numeral power_increasing)
    then show ?thesis
      by (simp add: bit_iff_odd)
  qed
  have "unat a AND push_bit s (unat b) = 0"
    by (rule bit_eqI) (use bit_above in \<open>auto simp: bit_simps\<close>)
  then show ?thesis
    using p by (simp add: unsigned_or_eq flip: disjunctive_add_eq_or) (simp add: push_bit_eq_mult)
qed

lemma unat_eq_of_nat: "unat w = n \<Longrightarrow> w = of_nat n"
  by auto

section \<open>Positions in a buffer\<close>

fun list_position :: "('a \<Rightarrow> bool) \<Rightarrow> 'a list \<Rightarrow> nat option" where
  "list_position p [] = None"
| "list_position p (x # xs) = (if p x then Some 0 else map_option Suc (list_position p xs))"

lemma list_position_distinct:
  "distinct xs \<Longrightarrow> i < length xs \<Longrightarrow> list_position (\<lambda>x. x = xs ! i) xs = Some i"
proof (induction xs arbitrary: i)
  case (Cons x xs)
  then show ?case
    by (cases i) auto
qed simp


text \<open>
  The decoders keep an index into a fixed input.  What they read is described by the rest of the
  input at that index.
\<close>

lemma drop_eq_append_length:
  assumes "drop i xs = ys @ zs" and "i \<le> length xs"
  shows "i + length ys \<le> length xs" "drop (i + length ys) xs = zs"
proof -
  have "length (drop i xs) = length ys + length zs"
    using assms(1) by simp
  then show "i + length ys \<le> length xs"
    using assms(2) by simp
  have "drop (length ys) (drop i xs) = zs"
    using assms(1) by simp
  then show "drop (i + length ys) xs = zs"
    by (simp add: add.commute)
qed

lemma drop_past: "drop i xs = ys @ zs \<Longrightarrow> drop (i + length ys) xs = zs"
  by (metis add.commute append_eq_conv_conj drop_drop)

lemma drop_past_Cons: "drop i xs = y # zs \<Longrightarrow> drop (Suc i) xs = zs"
  using drop_past [of i xs "[y]" zs] by simp

lemma drop_split: "drop c xs = take n (drop c xs) @ drop (c + n) xs"
  by (metis append_take_drop_id drop_drop add.commute)

text \<open>\<open>slice.get(i)\<close> and \<open>str.starts_with\<close>.\<close>

definition slice_get :: "'a list \<Rightarrow> nat \<Rightarrow> 'a option" where
  "slice_get xs i = (if i < length xs then Some (xs ! i) else None)"

definition starts_with :: "'a list \<Rightarrow> 'a list \<Rightarrow> bool" where
  "starts_with s p \<longleftrightarrow> take (length p) s = p"

lemma starts_with_append [simp]: "starts_with (p @ s) p"
  by (simp add: starts_with_def)

lemma slice_get_Cons_0 [simp]: "slice_get (x # xs) 0 = Some x"
  by (simp add: slice_get_def)

lemma slice_get_drop: "slice_get xs i = (case drop i xs of [] \<Rightarrow> None | x # _ \<Rightarrow> Some x)"
  by (auto simp: slice_get_def not_less hd_drop_conv_nth split: list.split dest: arg_cong [of _ _ hd]
    arg_cong [of _ _ length])

lemma drop_eq_Nil_iff: "i \<le> length xs \<Longrightarrow> drop i xs = [] \<longleftrightarrow> i = length xs"
  by auto

section \<open>Streams cut into pieces\<close>

text \<open>A buffer that has become longer than the frame consists of the frame and what follows it.\<close>

lemma pieces_cases:
  assumes "r @ concat (c # cs) = F @ tail" and "length r < length F"
  obtains (part) "r @ c = take (length (r @ c)) F" "length (r @ c) < length F" "(r @ c) @ concat cs = F @ tail"
  | (whole) t where "r @ c = F @ t" "tail = t @ concat cs"
proof (cases "length (r @ c) < length F")
  case True
  have "(r @ c) @ concat cs = F @ tail"
    using assms(1) by simp
  moreover from this have "r @ c = take (length (r @ c)) F"
    using True by (metis append_eq_append_conv_if less_imp_le)
  ultimately show ?thesis
    using True part by blast
next
  case False
  have "(r @ c) @ concat cs = F @ tail"
    using assms(1) by simp
  then have e: "take (length F) ((r @ c) @ concat cs) = F" "drop (length F) ((r @ c) @ concat cs) = tail"
    by (metis append_eq_conv_conj)+
  have "take (length F) (r @ c) = F" "drop (length F) (r @ c) @ concat cs = tail"
    using e False by (simp_all only: take_append drop_append) auto
  then have "r @ c = F @ drop (length F) (r @ c)" "tail = drop (length F) (r @ c) @ concat cs"
    by (metis append_take_drop_id)+
  then show ?thesis
    using whole by blast
qed

text \<open>\<open>splits cs payload\<close>: the chunks make up the payload and it ends only with the last one.\<close>

definition splits :: "bytes list \<Rightarrow> bytes \<Rightarrow> bool" where
  "splits cs payload \<longleftrightarrow> (\<exists>init c. cs = init @ [c] \<and> concat cs = payload \<and> c \<noteq> [])"

end
