(* ===== verification/OrderedMap.thy ===== *)
theory OrderedMap
  imports Prelude
begin

text \<open>
  The standard library's \<open>BTreeMap\<close> and \<open>BTreeSet\<close> as the sources use them: a map is the list of
  its entries in increasing key order, which is also the order in which \<open>iter_mut\<close> visits them; a
  set is the increasing list of its elements.  The locale \<open>ordered_map\<close> is the contract the
  protocol state machines rely on, together with what they derive from it (re-keying a peer's
  state); it is interpreted on the list implementation.
\<close>

type_synonym ('k, 'v) btree_map = "('k \<times> 'v) list"

fun bm_insert :: "'k::linorder \<Rightarrow> 'v \<Rightarrow> ('k, 'v) btree_map \<Rightarrow> ('k, 'v) btree_map" where
  "bm_insert k v [] = [(k, v)]"
| "bm_insert k v ((k', v') # m) =
     (if k < k' then (k, v) # (k', v') # m
      else if k = k' then (k, v) # m
      else (k', v') # bm_insert k v m)"

definition bm_get :: "('k, 'v) btree_map \<Rightarrow> 'k \<Rightarrow> 'v option" where
  "bm_get m = map_of m"

definition bm_remove :: "'k \<Rightarrow> ('k, 'v) btree_map \<Rightarrow> ('k, 'v) btree_map" where
  "bm_remove k m = filter (\<lambda>e. fst e \<noteq> k) m"

definition bm_keys :: "('k, 'v) btree_map \<Rightarrow> 'k list" where
  "bm_keys m = map fst m"

definition bm_ok :: "('k::linorder, 'v) btree_map \<Rightarrow> bool" where
  "bm_ok m \<longleftrightarrow> sorted_wrt (<) (bm_keys m)"

text \<open>\<open>entry(k).or_default()\<close> followed by an update of the entry.\<close>

definition bm_entry :: "'v \<Rightarrow> ('k, 'v) btree_map \<Rightarrow> 'k \<Rightarrow> 'v" where
  "bm_entry d m k = (case bm_get m k of None \<Rightarrow> d | Some v \<Rightarrow> v)"

text \<open>\<open>if let Some(state) = m.remove(old) { m.insert(new, state); }\<close>\<close>

definition bm_rekey :: "'k::linorder \<Rightarrow> 'k \<Rightarrow> ('k, 'v) btree_map \<Rightarrow> ('k, 'v) btree_map" where
  "bm_rekey old new m =
     (case bm_get m old of None \<Rightarrow> m | Some v \<Rightarrow> bm_insert new v (bm_remove old m))"

text \<open>\<open>for (k, v) in m.iter_mut()\<close>, where the body may replace the value.\<close>

definition bm_map :: "('k \<Rightarrow> 'v \<Rightarrow> 'v) \<Rightarrow> ('k, 'v) btree_map \<Rightarrow> ('k, 'v) btree_map" where
  "bm_map f m = map (\<lambda>(k, v). (k, f k v)) m"

section \<open>The contract\<close>

locale ordered_map =
  fixes get :: "'m \<Rightarrow> 'k::linorder \<Rightarrow> 'v option"
    and upd :: "'k \<Rightarrow> 'v \<Rightarrow> 'm \<Rightarrow> 'm"
    and del :: "'k \<Rightarrow> 'm \<Rightarrow> 'm"
    and keys :: "'m \<Rightarrow> 'k list"
    and invar :: "'m \<Rightarrow> bool"
  assumes get_upd: "get (upd k v m) = (get m)(k \<mapsto> v)"
    and get_del: "get (del k m) = (get m)(k := None)"
    and set_keys: "set (keys m) = dom (get m)"
    and invar_upd: "invar m \<Longrightarrow> invar (upd k v m)"
    and invar_del: "invar m \<Longrightarrow> invar (del k m)"
    and keys_sorted: "invar m \<Longrightarrow> sorted_wrt (<) (keys m)"
begin

lemma get_upd_same: "get (upd k v m) k = Some v"
  by (simp add: get_upd)

lemma get_upd_other: "k' \<noteq> k \<Longrightarrow> get (upd k v m) k' = get m k'"
  by (simp add: get_upd)

lemma del_upd_other: "k' \<noteq> k \<Longrightarrow> get (del k m) k' = get m k'"
  by (simp add: get_del)

text \<open>Moving an entry to another key: the new key has the old value, the old key has none.\<close>

lemma get_moved:
  assumes "get m old = Some v" and "old \<noteq> new"
  shows "get (upd new v (del old m)) k =
     (if k = new then Some v else if k = old then None else get m k)"
  using assms by (simp add: get_upd get_del)

lemma keys_distinct: "invar m \<Longrightarrow> distinct (keys m)"
  using keys_sorted strict_sorted_iff by (metis sorted_wrt_iff_nth_less linorder_neqE_nat
    distinct_conv_nth less_irrefl)

lemma finite_entries: "finite (dom (get m))"
  using set_keys by (metis List.finite_set)

end

lemma map_of_bm_insert: "map_of (bm_insert k v m) = (map_of m)(k \<mapsto> v)"
  by (induction k v m rule: bm_insert.induct) auto

lemma map_of_bm_remove: "map_of (bm_remove k m) = (map_of m)(k := None)"
  by (induction m) (auto simp: bm_remove_def fun_eq_iff)

lemma keys_bm_insert: "set (bm_keys (bm_insert k v m)) = insert k (set (bm_keys m))"
  by (induction k v m rule: bm_insert.induct) (auto simp: bm_keys_def)

lemma bm_ok_insert: "bm_ok m \<Longrightarrow> bm_ok (bm_insert k v m)"
proof (induction k v m rule: bm_insert.induct)
  case (2 k v k' v' m)
  have "set (map fst (bm_insert k v m)) = insert k (set (map fst m))"
    using keys_bm_insert [of k v m] by (simp add: bm_keys_def)
  then show ?case
    using 2 by (auto simp: bm_ok_def bm_keys_def)
qed (simp add: bm_ok_def bm_keys_def)

lemma bm_ok_remove: "bm_ok m \<Longrightarrow> bm_ok (bm_remove k m)"
  by (induction m) (auto simp: bm_ok_def bm_keys_def bm_remove_def)

interpretation bm: ordered_map bm_get bm_insert bm_remove bm_keys bm_ok
proof unfold_locales
  show "set (bm_keys m) = dom (bm_get m)" for m :: "('a, 'b) btree_map"
    by (simp add: bm_keys_def bm_get_def dom_map_of_conv_image_fst)
  show "sorted_wrt (<) (bm_keys m)" if "bm_ok m" for m :: "('a, 'b) btree_map"
    using that by (simp add: bm_ok_def)
qed (simp_all add: bm_get_def map_of_bm_insert map_of_bm_remove bm_ok_insert bm_ok_remove)

lemmas bm_get_simps [simp] = bm.get_upd bm.get_del

lemma bm_get_Nil [simp]: "bm_get [] k = None"
  by (simp add: bm_get_def)

lemma bm_get_Cons [simp]: "bm_get ((k', v) # m) k = (if k' = k then Some v else bm_get m k)"
  by (simp add: bm_get_def)

lemma bm_ok_Nil [simp]: "bm_ok []"
  by (simp add: bm_ok_def bm_keys_def)

lemma bm_get_rekey:
  "old \<noteq> new \<Longrightarrow> bm_get (bm_rekey old new m) k =
     (case bm_get m old of
        None \<Rightarrow> bm_get m k
      | Some v \<Rightarrow> if k = new then Some v else if k = old then None else bm_get m k)"
  by (auto simp: bm_rekey_def split: option.split)

lemma bm_ok_rekey: "bm_ok m \<Longrightarrow> bm_ok (bm_rekey old new m)"
  by (simp add: bm_rekey_def bm.invar_upd bm.invar_del split: option.split)

lemma bm_get_map [simp]: "bm_get (bm_map f m) k = map_option (f k) (bm_get m k)"
  by (induction m) (auto simp: bm_map_def bm_get_def)

lemma bm_keys_map [simp]: "bm_keys (bm_map f m) = bm_keys m"
  by (induction m) (auto simp: bm_map_def bm_keys_def)

lemma bm_ok_map [simp]: "bm_ok (bm_map f m) = bm_ok m"
  by (simp add: bm_ok_def)

lemma bm_insert_insert [simp]: "bm_insert k v (bm_insert k w m) = bm_insert k v m"
  by (induction k v m rule: bm_insert.induct) auto

lemma bm_remove_insert [simp]: "bm_remove k (bm_insert k v m) = bm_remove k m"
  by (induction k v m rule: bm_insert.induct) (auto simp: bm_remove_def)

lemma bm_remove_absent: "bm_get m k = None \<Longrightarrow> bm_remove k m = m"
  by (auto simp: bm_remove_def bm_get_def map_of_eq_None_iff intro!: filter_True)

lemma bm_entry_insert [simp]: "bm_entry d (bm_insert k v m) k = v"
  by (simp add: bm_entry_def)

lemma bm_entry_absent: "bm_get m k = None \<Longrightarrow> bm_entry d m k = d"
  by (simp add: bm_entry_def)

lemma bm_insert_same: "bm_ok m \<Longrightarrow> bm_get m k = Some v \<Longrightarrow> bm_insert k v m = m"
proof (induction k v m rule: bm_insert.induct)
  case (2 k v k' v' m)
  have "map_of m k = None" if "k < k'"
    using 2 that by (force simp: bm_ok_def bm_keys_def map_of_eq_None_iff)
  then show ?case
    using 2 by (auto simp: bm_get_def bm_ok_def bm_keys_def split: if_splits)
qed simp

text \<open>A property of every value.\<close>

definition bm_all :: "('v \<Rightarrow> bool) \<Rightarrow> ('k, 'v) btree_map \<Rightarrow> bool" where
  "bm_all P m \<longleftrightarrow> (\<forall>k v. bm_get m k = Some v \<longrightarrow> P v)"

lemma bm_allD: "bm_all P m \<Longrightarrow> bm_get m k = Some v \<Longrightarrow> P v"
  by (simp add: bm_all_def)

lemma bm_all_Nil [simp]: "bm_all P []"
  by (simp add: bm_all_def)

lemma bm_all_insert [intro]: "bm_all P m \<Longrightarrow> P v \<Longrightarrow> bm_all P (bm_insert k v m)"
  by (simp add: bm_all_def)

lemma bm_all_remove [intro]:
  "bm_all P m \<Longrightarrow> bm_all P (bm_remove k (m :: ('k::linorder, 'v) btree_map))"
  by (simp add: bm_all_def)

lemma bm_all_rekey [intro]: "bm_all P m \<Longrightarrow> bm_all P (bm_rekey old new m)"
  by (auto simp: bm_rekey_def bm_all_def split: option.split)

lemma bm_all_map: "(\<And>k v. P v \<Longrightarrow> P (f k v)) \<Longrightarrow> bm_all P m \<Longrightarrow> bm_all P (bm_map f m)"
  by (auto simp: bm_all_def)

lemma bm_all_entry: "bm_all P m \<Longrightarrow> P d \<Longrightarrow> P (bm_entry d m k)"
  by (simp add: bm_entry_def bm_all_def split: option.split)

text \<open>A sorted map is determined by its lookups.\<close>

lemma alist_from_keys: "distinct (map fst m) \<Longrightarrow> m = map (\<lambda>k. (k, the (map_of m k))) (map fst m)"
  by (simp add: comp_def) (rule sym, rule map_idI, auto)

lemma bm_eqI:
  assumes "bm_ok m" and "bm_ok m'" and "bm_get m = bm_get m'"
  shows "m = m'"
proof -
  have "bm_keys m = bm_keys m'"
    using assms bm.set_keys [of m] bm.set_keys [of m']
    by (intro strict_sorted_equal) (auto simp: bm_ok_def)
  moreover have "distinct (map fst m)"
    using bm.keys_distinct [OF assms(1)] by (simp add: bm_keys_def)
  ultimately show ?thesis
    using assms(3) alist_from_keys [of m] alist_from_keys [of m']
    by (metis bm_get_def bm_keys_def)
qed

text \<open>\<open>BTreeMap::retain\<close>\<close>

definition bm_retain :: "('k \<Rightarrow> 'v \<Rightarrow> bool) \<Rightarrow> ('k, 'v) btree_map \<Rightarrow> ('k, 'v) btree_map" where
  "bm_retain P m = filter (\<lambda>(k, v). P k v) m"

lemma bm_ok_retain [simp]: "bm_ok m \<Longrightarrow> bm_ok (bm_retain P m)"
  unfolding bm_ok_def bm_keys_def bm_retain_def sorted_wrt_map by (rule sorted_wrt_filter)

lemma bm_get_retain:
  "bm_ok m \<Longrightarrow> bm_get (bm_retain P m) k =
     (case bm_get m k of None \<Rightarrow> None | Some v \<Rightarrow> if P k v then Some v else None)"
proof -
  assume "bm_ok m"
  then have "distinct (map fst m)"
    using bm.keys_distinct by (simp add: bm_keys_def)
  then show ?thesis
    unfolding bm_get_def bm_retain_def
    by (induction m) (auto simp: map_of_eq_None_iff dest: map_of_SomeD split: option.split)
qed

lemma bm_get_retain_key [simp]:
  "bm_get (bm_retain (\<lambda>k _. P k) m) k = (if P k then bm_get m k else None)"
  unfolding bm_get_def bm_retain_def by (induction m) auto

lemma bm_all_retain [intro]: "bm_ok m \<Longrightarrow> bm_all P m \<Longrightarrow> bm_all P (bm_retain Q m)"
  by (auto simp: bm_all_def bm_get_retain split: option.splits if_splits)

section \<open>Sets\<close>

type_synonym 'k btree_set = "'k list"

definition bs_insert :: "'k::linorder \<Rightarrow> 'k btree_set \<Rightarrow> 'k btree_set" where
  "bs_insert x s = (if x \<in> set s then s else insort x s)"

definition bs_remove :: "'k \<Rightarrow> 'k btree_set \<Rightarrow> 'k btree_set" where
  "bs_remove x s = filter (\<lambda>y. y \<noteq> x) s"

definition bs_ok :: "'k::linorder btree_set \<Rightarrow> bool" where
  "bs_ok s \<longleftrightarrow> sorted_wrt (<) s"

lemma set_bs_insert [simp]: "set (bs_insert x s) = insert x (set s)"
  by (auto simp: bs_insert_def set_insort_key)

lemma set_bs_remove [simp]: "set (bs_remove x s) = set s - {x}"
  by (auto simp: bs_remove_def)

lemma bs_ok_Nil [simp]: "bs_ok []"
  by (simp add: bs_ok_def)

lemma bs_ok_insert [simp]: "bs_ok s \<Longrightarrow> bs_ok (bs_insert x s)"
  by (auto simp: bs_ok_def bs_insert_def strict_sorted_iff sorted_insort distinct_insort)

lemma bs_ok_remove [simp]: "bs_ok s \<Longrightarrow> bs_ok (bs_remove x s)"
  by (simp add: bs_ok_def bs_remove_def sorted_wrt_filter)

lemma length_bs_insert: "length (bs_insert x s) = (if x \<in> set s then length s else Suc (length s))"
  by (simp add: bs_insert_def)

lemma length_bs_remove_le: "length (bs_remove x s) \<le> length s"
  by (simp add: bs_remove_def)

end
