(* ===== verification/SansIo.thy ===== *)
theory SansIo
  imports Prelude
begin

text \<open>
  The interface of every protocol state machine, \<open>crates/core/src/sans_io.rs\<close>: \<open>handle_input\<close> feeds
  one input, \<open>poll_output\<close> yields the next pending output, \<open>is_idle\<close> tells that there is none.  The
  documentation of the trait asks drivers to call \<open>poll_output\<close> until it returns \<open>None\<close>; the locale
  states what makes that loop sound (an output is pending exactly when the machine is not idle, and
  each output uses up some of a finite supply) and proves that draining returns and leaves an idle
  machine.  Each protocol theory interprets the locale on its own operations.

  \<open>handle_input\<close> returns the state after the call even when the call fails, since the sources
  mutate in place before they return an error; \<open>None\<close> stands for a panic.
\<close>

text \<open>
  The driver's loop \<open>while let Some(o) = p.poll_output() { \<dots> }\<close>, with fuel; \<open>None\<close> says that the
  fuel ran out.
\<close>

fun drain :: "nat \<Rightarrow> ('s \<Rightarrow> 'o option \<times> 's) \<Rightarrow> 's \<Rightarrow> ('o list \<times> 's) option" where
  "drain 0 poll s = None"
| "drain (Suc fuel) poll s =
     (case poll s of
        (None, s') \<Rightarrow> Some ([], s')
      | (Some x, s') \<Rightarrow> map_option (\<lambda>(xs, t). (x # xs, t)) (drain fuel poll s'))"

locale sans_io_protocol =
  fixes handle_input :: "'i \<Rightarrow> 's \<Rightarrow> ('s \<times> ('e + unit)) option"
    and poll_output :: "'s \<Rightarrow> 'o option \<times> 's"
    and is_idle :: "'s \<Rightarrow> bool"
    and pending :: "'s \<Rightarrow> nat"
    and invar :: "'s \<Rightarrow> bool"
  assumes poll_None_iff: "invar s \<Longrightarrow> fst (poll_output s) = None \<longleftrightarrow> is_idle s"
    and poll_None_idle: "invar s \<Longrightarrow> poll_output s = (None, s') \<Longrightarrow> is_idle s'"
    and poll_Some: "invar s \<Longrightarrow> poll_output s = (Some x, s') \<Longrightarrow> pending s' < pending s"
    and invar_poll: "invar s \<Longrightarrow> invar (snd (poll_output s))"
    and invar_input: "invar s \<Longrightarrow> handle_input i s = Some (s', r) \<Longrightarrow> invar s'"
begin

lemma drain_returns:
  assumes "invar s" and "pending s < fuel"
  shows "\<exists>outs s'. drain fuel poll_output s = Some (outs, s') \<and> is_idle s' \<and> invar s' \<and>
     length outs \<le> pending s"
  using assms
proof (induction fuel arbitrary: s)
  case (Suc fuel)
  obtain r t where p: "poll_output s = (r, t)"
    by fastforce
  have t: "invar t"
    using invar_poll [OF Suc.prems(1)] p by simp
  show ?case
  proof (cases r)
    case None
    then show ?thesis
      using p t poll_None_idle [OF Suc.prems(1)] by simp
  next
    case (Some x)
    then have less: "pending t < pending s"
      using poll_Some [OF Suc.prems(1)] p by simp
    then obtain outs u where "drain fuel poll_output t = Some (outs, u)" "is_idle u" "invar u"
      "length outs \<le> pending t"
      using Suc.IH [OF t] Suc.prems(2) by auto
    then show ?thesis
      using p Some less by simp
  qed
qed simp

lemma drain_idle: "invar s \<Longrightarrow> is_idle s \<Longrightarrow> 0 < fuel \<Longrightarrow>
  \<exists>s'. drain fuel poll_output s = Some ([], s')"
  using poll_None_iff [of s] by (cases fuel; cases "poll_output s") auto

end

text \<open>
  A reader fed one chunk after the other: \<open>None\<close> when a chunk panics or is refused.  A reader that
  waits while a message is incomplete and acts on its last byte does not see how the stream was cut.
\<close>

fun feed :: "('c \<Rightarrow> 's \<Rightarrow> ('s \<times> ('e + unit)) option) \<Rightarrow> 'c list \<Rightarrow> 's \<Rightarrow> 's option" where
  "feed input [] s = Some s"
| "feed input (c # cs) s =
     (case input c s of
        Some (s', Inr _) \<Rightarrow> feed input cs s'
      | _ \<Rightarrow> None)"

lemma feed_append: "feed input (xs @ ys) s = Option.bind (feed input xs s) (feed input ys)"
  by (induction input xs s rule: feed.induct) (auto split: option.split sum.split)

lemma feed_prefix:
  assumes part: "\<And>b c rest. b @ c @ rest = w \<Longrightarrow> rest \<noteq> [] \<Longrightarrow> input c (wait b) = Some (wait (b @ c), Ok ())"
    and "rest \<noteq> []"
  shows "b @ concat cs @ rest = w \<Longrightarrow> feed input cs (wait b) = Some (wait (b @ concat cs))"
proof (induction cs arbitrary: b)
  case (Cons c cs)
  have "input c (wait b) = Some (wait (b @ c), Ok ())"
    by (rule part [of _ _ "concat cs @ rest"]) (use Cons.prems assms(2) in simp_all)
  then show ?case
    using Cons.IH [of "b @ c"] Cons.prems by simp
qed simp

lemma feed_splits:
  assumes "splits cs w"
    and part: "\<And>b c rest. b @ c @ rest = w \<Longrightarrow> rest \<noteq> [] \<Longrightarrow> input c (wait b) = Some (wait (b @ c), Ok ())"
    and whole: "\<And>b c. b @ c = w \<Longrightarrow> c \<noteq> [] \<Longrightarrow> input c (wait b) = Some (s', Ok ())"
  shows "feed input cs (wait []) = Some s'"
proof -
  obtain init c where cs: "cs = init @ [c]" "concat init @ c = w" "c \<noteq> []"
    using assms(1) by (auto simp: splits_def)
  have "feed input init (wait []) = Some (wait ([] @ concat init))"
    by (rule feed_prefix [where input = input and wait = wait, OF part cs(3)]) (use cs(2) in simp_all)
  then show ?thesis
    using whole [OF cs(2,3)] by (simp add: cs(1) feed_append)
qed

end
