(* ===== verification/Varint.thy ===== *)
theory Varint
  imports Prelude
begin

text \<open>
  Unsigned varints, \<open>crates/identity/src/peer_id.rs\<close>: \<open>uvarint_len\<close>, \<open>write_uvarint\<close> and the
  canonical reader \<open>read_uvarint\<close>, on which every codec of the program rests.  The theory shows that
  the reader inverts the writer with any continuation, that conversely whatever the reader accepts
  is exactly the writer's output (so each value has one encoding), and that a buffer cut short is
  reported as such and never misread.
\<close>

datatype varint_error = BufferTooShort | Overflow | NonCanonical

lemma unat_drop_bit_7: "unat (drop_bit 7 (v :: u64)) = unat v div 128"
  by (simp add: unat_drop_bit_eq) (simp add: drop_bit_eq_div)

function uvarint_len_loop :: "u64 \<Rightarrow> nat \<Rightarrow> nat" where
  "uvarint_len_loop v len =
     (if 0x80 \<le> v then uvarint_len_loop (drop_bit 7 v) (len + 1) else len)"
  by pat_completeness auto
termination
proof (relation "measure (\<lambda>(v, len). unat v)")
  fix v :: u64 and len :: nat
  assume "0x80 \<le> v"
  then have "128 \<le> unat v"
    by (simp add: word_le_nat_alt)
  then show "((drop_bit 7 v, len + 1), v, len) \<in> measure (\<lambda>(v, len). unat v)"
    by (simp add: unat_drop_bit_7)
qed simp

definition uvarint_len :: "u64 \<Rightarrow> nat" where
  "uvarint_len v = uvarint_len_loop v 1"

function write_uvarint :: "u64 \<Rightarrow> bytes \<Rightarrow> bytes" where
  "write_uvarint v out =
     (let byte = (ucast (v AND 0x7f) :: byte);
          v = drop_bit 7 v;
          byte = (if v \<noteq> 0 then byte OR 0x80 else byte);
          out = out @ [byte]
      in if v = 0 then out else write_uvarint v out)"
  by pat_completeness auto
termination
proof (relation "measure (\<lambda>(v, out). unat v)")
  fix v w :: u64 and out :: bytes and x xa xb
  assume w: "w = drop_bit 7 v" "\<not> w = 0"
  have "unat w = unat v div 128"
    by (simp add: w unat_drop_bit_7)
  moreover have "unat w \<noteq> 0"
    using w(2) unsigned_eq_0_iff by blast
  ultimately show "((w, xb), v, out) \<in> measure (\<lambda>(v, out). unat v)"
    by simp
qed simp

text \<open>
  The reader's loop over \<open>input.iter().copied().enumerate()\<close>: \<open>idx\<close> counts the bytes already read,
  \<open>shift\<close> and \<open>v\<close> are the accumulators.
\<close>

fun read_uvarint_loop :: "bytes \<Rightarrow> nat \<Rightarrow> nat \<Rightarrow> u64 \<Rightarrow> varint_error + (u64 \<times> nat)" where
  "read_uvarint_loop [] idx shift v = Err BufferTooShort"
| "read_uvarint_loop (byte # rest) idx shift v =
     (if 10 \<le> idx then Err Overflow
      else if idx = 9 \<and> (byte AND 0x80 \<noteq> 0 \<or> 1 < byte) then Err Overflow
      else
        let low = (ucast (byte AND 0x7f) :: u64);
            v = v OR push_bit shift low
        in if byte AND 0x80 = 0
           then (let used = idx + 1
                 in if used \<noteq> uvarint_len v then Err NonCanonical else Ok (v, used))
           else read_uvarint_loop rest (idx + 1) (shift + 7) v)"

definition read_uvarint :: "bytes \<Rightarrow> varint_error + (u64 \<times> nat)" where
  "read_uvarint input = read_uvarint_loop input 0 0 0"

declare uvarint_len_loop.simps [simp del] write_uvarint.simps [simp del]

section \<open>The writer and the length function\<close>

abbreviation uvarint :: "u64 \<Rightarrow> bytes" where
  "uvarint v \<equiv> write_uvarint v []"

lemma unat_drop_bit_7_less:
  assumes "\<not> v < 0x80"
  shows "unat (drop_bit 7 (v :: u64)) < unat v" "drop_bit 7 v \<noteq> 0"
proof -
  have *: "128 \<le> unat v"
    using assms by (simp add: word_less_nat_alt)
  show "unat (drop_bit 7 v) < unat v"
    using * by (simp add: unat_drop_bit_7)
  have "unat (drop_bit 7 v) \<noteq> 0"
    using * by (simp add: unat_drop_bit_7)
  then show "drop_bit 7 v \<noteq> 0"
    by (metis unsigned_0)
qed

lemma drop_bit_7_small: "v < 0x80 \<Longrightarrow> drop_bit 7 (v :: u64) = 0"
proof -
  assume "v < 0x80"
  then have "unat (drop_bit 7 v) = 0"
    by (simp add: unat_drop_bit_7 word_less_nat_alt)
  then show ?thesis
    by (metis unsigned_eq_0_iff)
qed

lemma u64_induct [case_names small big]:
  assumes "\<And>v. v < 0x80 \<Longrightarrow> P v"
    and "\<And>v. \<not> v < 0x80 \<Longrightarrow> P (drop_bit 7 v) \<Longrightarrow> P v"
  shows "P (v :: u64)"
proof (induction v rule: measure_induct_rule [where f = unat])
  case (less v)
  show ?case
  proof (cases "v < 0x80")
    case False
    then show ?thesis
      by (rule assms(2)) (rule less, rule unat_drop_bit_7_less(1) [OF False])
  qed (rule assms(1))
qed

lemma uvarint_len_loop_add: "uvarint_len_loop v (Suc len) = Suc (uvarint_len_loop v len)"
proof (induction v arbitrary: len rule: u64_induct)
  case (small v)
  then show ?case
    by (simp add: uvarint_len_loop.simps)
next
  case (big v)
  then show ?case
    by (simp add: uvarint_len_loop.simps [of v])
qed

lemma uvarint_len_rec:
  "uvarint_len v = (if v < 0x80 then 1 else Suc (uvarint_len (drop_bit 7 v)))"
  by (simp add: uvarint_len_def uvarint_len_loop.simps [of v] uvarint_len_loop_add not_less)

lemma write_uvarint_step:
  "write_uvarint v out =
     (if v < 0x80 then out @ [ucast (v AND 0x7f)]
      else write_uvarint (drop_bit 7 v) (out @ [ucast (v AND 0x7f) OR 0x80]))"
  by (simp add: write_uvarint.simps [of v] Let_def drop_bit_7_small unat_drop_bit_7_less(2))

lemma write_uvarint_out: "write_uvarint v out = out @ uvarint v"
proof (induction v arbitrary: out rule: u64_induct)
  case (small v)
  then show ?case
    by (simp add: write_uvarint_step)
next
  case (big v)
  note step = write_uvarint_step [of v, unfolded if_not_P [OF big.hyps]]
  show ?case
    by (simp add: step big.IH [of "out @ _"] big.IH [of "[_]"])
qed

lemma write_uvarint_app: "out \<noteq> [] \<Longrightarrow> write_uvarint v out = out @ uvarint v"
  by (rule write_uvarint_out)

lemma uvarint_rec:
  "uvarint v = (if v < 0x80 then [ucast v]
     else (ucast (v AND 0x7f) OR 0x80) # uvarint (drop_bit 7 v))"
proof (cases "v < 0x80")
  case True
  have "unat (v AND 0x7f) = unat v"
    using True by (simp add: unat_and_7f word_less_nat_alt)
  then have "v AND 0x7f = v"
    by (rule unsigned_word_eqI)
  then show ?thesis
    using True by (simp add: write_uvarint_step)
next
  case False
  then show ?thesis
    by (simp add: write_uvarint_step [of v]) (subst write_uvarint_out, simp)
qed

lemma length_uvarint [simp]: "length (uvarint v) = uvarint_len v"
proof (induction v rule: u64_induct)
  case (small v)
  then show ?case
    by (simp add: uvarint_rec uvarint_len_rec)
next
  case (big v)
  then show ?case
    by (simp add: uvarint_rec [of v] uvarint_len_rec [of v])
qed

text \<open>\<open>uvarint_len\<close> is the number of base-128 digits.\<close>

lemma uvarint_len_pos [simp]: "0 < uvarint_len v"
  by (simp add: uvarint_len_rec [of v])

lemma uvarint_len_le_iff: "0 < n \<Longrightarrow> uvarint_len v \<le> n \<longleftrightarrow> unat v < 128 ^ n"
proof (induction v arbitrary: n rule: u64_induct)
  case (small v)
  have "(128 :: nat) \<le> 128 ^ n"
    using small.prems by (cases n) simp_all
  then show ?case
    using small by (simp add: uvarint_len_rec word_less_nat_alt)
next
  case (big v)
  then have "128 \<le> unat v"
    by (simp add: word_less_nat_alt)
  obtain m where n: "n = Suc m"
    using big.prems by (cases n) auto
  show ?case
  proof (cases "m = 0")
    case True
    then show ?thesis
      using big.hyps \<open>128 \<le> unat v\<close> n by (simp add: uvarint_len_rec [of v])
  next
    case False
    have "unat v div 128 < 128 ^ m \<longleftrightarrow> unat v < 128 ^ n"
      by (simp add: n div_less_iff_less_mult mult.commute)
    then show ?thesis
      using big.IH [of m] False n big.hyps
      by (simp add: uvarint_len_rec [of v] unat_drop_bit_7)
  qed
qed

lemma pow_7: "(2 :: nat) ^ (7 * k) = 128 ^ k"
  by (simp add: power_mult)

lemma less_mult_add: "a < m \<Longrightarrow> a + b * m < c * m \<longleftrightarrow> b < (c :: nat)"
proof -
  assume a: "a < m"
  have "a + b * m < c * m \<longleftrightarrow> (a + b * m) div m < c"
    using a by (subst div_less_iff_less_mult) (auto simp: )
  also have "(a + b * m) div m = b"
    using a by simp
  finally show ?thesis .
qed

lemma uvarint_len_shift:
  assumes acc: "unat acc < 128 ^ idx" and w: "unat w = unat acc + unat v * 128 ^ idx"
    and "idx = 0 \<or> v \<noteq> 0"
  shows "uvarint_len w = idx + uvarint_len v"
proof (rule antisym)
  have "unat v < 128 ^ uvarint_len v"
    by (simp flip: uvarint_len_le_iff)
  then have "unat w < 128 ^ (idx + uvarint_len v)"
    using less_mult_add [OF acc, of "unat v" "128 ^ uvarint_len v"]
    by (simp add: w power_add mult.commute)
  then show "uvarint_len w \<le> idx + uvarint_len v"
    by (subst uvarint_len_le_iff) simp_all
next
  show "idx + uvarint_len v \<le> uvarint_len w"
  proof (rule ccontr)
    assume less: "\<not> idx + uvarint_len v \<le> uvarint_len w"
    obtain m where m: "uvarint_len v = Suc m"
      using uvarint_len_pos [of v] by (cases "uvarint_len v") auto
    have le: "uvarint_len w \<le> idx + m"
      using less m by simp
    then have "0 < idx + m"
      using uvarint_len_pos [of w] by linarith
    then have "unat w < 128 ^ m * 128 ^ idx"
      using le by (simp add: uvarint_len_le_iff power_add mult.commute)
    then have v: "unat v < 128 ^ m"
      using less_mult_add [OF acc] by (simp add: w)
    show False
    proof (cases m)
      case 0
      then have "v = 0"
        using v by (simp add: unsigned_eq_0_iff)
      then show False
        using assms(3) le 0 uvarint_len_pos [of w] by simp
    next
      case (Suc k)
      then show False
        using v m uvarint_len_le_iff [of m v] by simp
    qed
  qed
qed

section \<open>The reader\<close>

lemma unat_accumulate:
  assumes "unat acc < 128 ^ idx" and "idx < 9 \<or> idx = 9 \<and> unat b \<le> 1"
  shows "unat (acc OR push_bit (7 * idx) (ucast (b AND 0x7f :: byte) :: u64)) =
     unat acc + unat b mod 128 * 128 ^ idx"
proof -
  have low: "unat (ucast (b AND 0x7f) :: u64) = unat b mod 128"
    by (simp add: unsigned_ucast_eq unat_and_7f take_bit_nat_eq_self)
  have "unat b mod 128 * 2 ^ (7 * idx) < 2 ^ 64"
    using assms(2)
  proof
    assume "idx < 9"
    then have "(128 :: nat) ^ idx \<le> 128 ^ 8"
      by (intro power_increasing) auto
    then have "unat b mod 128 * 128 ^ idx \<le> 127 * 128 ^ 8"
      by (intro mult_mono) auto
    then show ?thesis
      by (simp add: pow_7)
  next
    assume "idx = 9 \<and> unat b \<le> 1"
    then show ?thesis
      by (cases "unat b") auto
  qed
  then show ?thesis
    using unat_or_push_bit [of acc "7 * idx" "ucast (b AND 0x7f)"] assms(1)
    by (simp add: low pow_7)
qed

lemma idx_bound:
  assumes "unat acc + unat v * 128 ^ idx < 2 ^ 64" and "v \<noteq> (0 :: u64)"
  shows "idx < 9 \<or> idx = 9 \<and> unat v \<le> 1"
proof -
  have "1 \<le> unat v"
    using assms(2) unsigned_eq_0_iff [of v] by (metis One_nat_def Suc_leI neq0_conv)
  then have "128 ^ idx \<le> unat v * 128 ^ idx"
    by simp
  then have "2 ^ (7 * idx) < (2 :: nat) ^ 64"
    using assms(1) unfolding pow_7 by linarith
  then have "idx \<le> 9"
    by (simp only: power_strict_increasing_iff)
  moreover have "unat v \<le> 1" if "idx = 9"
    using assms(1) that by simp
  ultimately show ?thesis
    by linarith
qed

lemma unat_byte_head:
  "unat (ucast ((v :: u64) AND 0x7f) OR 0x80 :: byte) = unat v mod 128 + 128"
proof -
  have "unat (ucast (v AND 0x7f) :: byte) = unat v mod 128"
    by (simp add: unsigned_ucast_eq unat_and_7f take_bit_eq_mod)
  then show ?thesis
    using unat_or_80 [of "ucast (v AND 0x7f)"] by simp
qed

lemma unat_byte_last: "v < 0x80 \<Longrightarrow> unat (ucast (v :: u64) :: byte) = unat v"
  by (simp add: unsigned_ucast_eq take_bit_nat_eq_self word_less_nat_alt)

lemma not_overflow_byte:
  "idx < 9 \<or> idx = (9 :: nat) \<and> unat (b :: byte) \<le> 1 \<Longrightarrow>
     \<not> 10 \<le> idx \<and> \<not> (idx = 9 \<and> (b AND 0x80 \<noteq> 0 \<or> 1 < b))"
  by (auto simp: high_bit_iff word_less_nat_alt)

lemma read_uvarint_loop_write:
  assumes "unat acc < 128 ^ idx" and "unat acc + unat v * 128 ^ idx < 2 ^ 64"
    and "idx = 0 \<or> v \<noteq> 0"
  shows "\<exists>w. unat w = unat acc + unat v * 128 ^ idx \<and>
     read_uvarint_loop (uvarint v @ rest) idx (7 * idx) acc = Ok (w, idx + uvarint_len v)"
  using assms
proof (induction v arbitrary: idx acc rule: u64_induct)
  case (small v)
  let ?b = "ucast v :: byte"
  let ?w = "acc OR push_bit (7 * idx) (ucast (?b AND 0x7f) :: u64)"
  have b: "unat ?b = unat v" "unat v < 128"
    using small.hyps by (simp_all add: unat_byte_last word_less_nat_alt)
  have idx: "idx < 9 \<or> idx = 9 \<and> unat ?b \<le> 1"
    using idx_bound [OF small.prems(2)] small.prems(3) b by auto
  have w: "unat ?w = unat acc + unat v * 128 ^ idx"
    using unat_accumulate [OF small.prems(1) idx] b by simp
  have "uvarint_len ?w = idx + 1"
    using uvarint_len_shift [OF small.prems(1) w small.prems(3)] small.hyps
    by (simp add: uvarint_len_rec [of v])
  moreover have "?b AND 0x80 = 0"
    using b by (simp add: high_bit_iff)
  ultimately have "read_uvarint_loop (uvarint v @ rest) idx (7 * idx) acc = Ok (?w, idx + uvarint_len v)"
    using not_overflow_byte [OF idx] small.hyps
    by (simp add: uvarint_rec [of v] uvarint_len_rec [of v] Let_def)
  then show ?case
    using w by blast
next
  case (big v)
  let ?b = "ucast (v AND 0x7f) OR 0x80 :: byte"
  let ?acc = "acc OR push_bit (7 * idx) (ucast (?b AND 0x7f) :: u64)"
  let ?v = "drop_bit 7 v"
  have "v \<noteq> 0" "?v \<noteq> 0"
    using big.hyps unat_drop_bit_7_less(2) [OF big.hyps] by auto
  have "\<not> unat v \<le> 1"
    using big.hyps by (simp add: word_less_nat_alt)
  then have idx: "idx < 9"
    using idx_bound [OF big.prems(2) \<open>v \<noteq> 0\<close>] by blast
  have acc: "unat ?acc = unat acc + unat v mod 128 * 128 ^ idx"
    using unat_accumulate [of acc idx ?b] big.prems(1) idx by (simp add: unat_byte_head)
  have split: "unat ?acc + unat ?v * 128 ^ Suc idx = unat acc + unat v * 128 ^ idx"
  proof -
    have "unat v * 128 ^ idx = (unat v div 128 * 128 + unat v mod 128) * 128 ^ idx"
      by simp
    then show ?thesis
      unfolding acc unat_drop_bit_7 power_Suc by (simp only: distrib_right mult.assoc)
  qed
  have "unat ?acc < 128 * 128 ^ idx"
    unfolding acc using less_mult_add [OF big.prems(1), of "unat v mod 128" 128] by simp
  then obtain w where w: "unat w = unat acc + unat v * 128 ^ idx"
    "read_uvarint_loop (uvarint ?v @ rest) (Suc idx) (7 * Suc idx) ?acc = Ok (w, Suc idx + uvarint_len ?v)"
    using big.IH [of ?acc "Suc idx"] big.prems(2) \<open>?v \<noteq> 0\<close> split by auto
  have "?b AND 0x80 \<noteq> 0"
    by (simp add: high_bit_iff unat_byte_head)
  then have "read_uvarint_loop (uvarint v @ rest) idx (7 * idx) acc = Ok (w, idx + uvarint_len v)"
    using w(2) idx big.hyps
    by (simp add: uvarint_rec [of v] uvarint_len_rec [of v] Let_def add.commute)
  then show ?case
    using w(1) by blast
qed

lemma read_uvarint_write [codec]:
  "read_uvarint (uvarint v @ rest) = Ok (v, uvarint_len v)"
proof -
  obtain w where "unat w = unat v" "read_uvarint (uvarint v @ rest) = Ok (w, uvarint_len v)"
    using read_uvarint_loop_write [of 0 0 v rest] unsigned_less [of v, where 'a = nat]
    by (auto simp: read_uvarint_def)
  then show ?thesis
    by (metis unsigned_word_eqI)
qed

text \<open>
  Conversely, whatever the reader accepts is the writer's output.  The canonicity check is what
  rules out a run of continuation bytes that ends in a zero digit.
\<close>

lemma read_uvarint_loop_Ok:
  assumes "read_uvarint_loop bs idx (7 * idx) acc = Ok (w, n)" and "unat acc < 128 ^ idx"
  shows "\<exists>v. unat w = unat acc + unat v * 128 ^ idx \<and> (idx = 0 \<or> v \<noteq> 0) \<and>
     n = idx + uvarint_len v \<and> (\<exists>rest. bs = uvarint v @ rest)"
  using assms
proof (induction bs arbitrary: idx acc)
  case (Cons b bs)
  let ?acc = "acc OR push_bit (7 * idx) (ucast (b AND 0x7f) :: u64)"
  have idx: "idx < 9 \<or> idx = 9 \<and> unat b \<le> 1"
    using Cons.prems(1) by (auto simp: word_less_nat_alt not_less split: if_splits)
  have acc: "unat ?acc = unat acc + unat b mod 128 * 128 ^ idx"
    by (rule unat_accumulate [OF Cons.prems(2) idx])
  show ?case
  proof (cases "b AND 0x80 = 0")
    case True
    then have b: "unat b < 128"
      by (simp add: high_bit_iff)
    define v :: u64 where "v = ucast b"
    have v: "unat v = unat b" "v < 0x80"
      using b by (simp_all add: v_def unsigned_ucast_eq take_bit_nat_eq_self word_less_nat_alt)
    then have "ucast v = b"
      by (intro unsigned_word_eqI [where 'a = nat]) (simp add: unat_byte_last)
    have w: "w = ?acc" "n = idx + 1" "n = uvarint_len w"
      using Cons.prems(1) True by (auto simp: Let_def split: if_splits)
    have sum: "unat w = unat acc + unat v * 128 ^ idx"
      using w(1) acc b v(1) by simp
    have "idx = 0 \<or> v \<noteq> 0"
    proof (rule ccontr)
      assume "\<not> ?thesis"
      then have "unat w < 128 ^ idx" "0 < idx"
        using sum Cons.prems(2) by auto
      then show False
        using w uvarint_len_le_iff [of idx w] by simp
    qed
    moreover have "\<exists>rest. b # bs = uvarint v @ rest" "uvarint_len v = 1"
      using v \<open>ucast v = b\<close> by (simp_all add: uvarint_rec uvarint_len_rec)
    ultimately show ?thesis
      using sum w(2) by (intro exI [of _ v]) simp
  next
    case False
    have "unat ?acc < 128 ^ Suc idx"
      unfolding acc using less_mult_add [OF Cons.prems(2), of "unat b mod 128" 128] by simp
    moreover have "read_uvarint_loop bs (Suc idx) (7 * Suc idx) ?acc = Ok (w, n)"
      using Cons.prems(1) False by (auto simp: Let_def add.commute split: if_splits)
    ultimately obtain v' rest where v': "unat w = unat ?acc + unat v' * 128 ^ Suc idx" "v' \<noteq> 0"
      "n = Suc idx + uvarint_len v'" "bs = uvarint v' @ rest"
      using Cons.IH by blast
    define d where "d = unat b mod 128 + unat v' * 128"
    define v :: u64 where "v = of_nat d"
    have sum: "unat acc + d * 128 ^ idx = unat w"
      using v'(1) acc by (simp add: d_def algebra_simps)
    have "d * 1 \<le> d * 128 ^ idx"
      by (intro mult_le_mono) auto
    then have "d < 2 ^ LENGTH(64)"
      using sum unsigned_less [of w, where 'a = nat] by linarith
    then have v: "unat v = d"
      by (simp add: v_def unsigned_of_nat take_bit_nat_eq_self)
    have "1 \<le> unat v'"
      using \<open>v' \<noteq> 0\<close> by (metis One_nat_def Suc_leI neq0_conv unsigned_eq_0_iff)
    then have big: "\<not> v < 0x80"
      using v d_def by (simp add: word_less_nat_alt)
    have "drop_bit 7 v = v'"
      by (rule unsigned_word_eqI [where 'a = nat]) (simp add: unat_drop_bit_7 v d_def)
    moreover have "ucast (v AND 0x7f) OR 0x80 = b"
    proof (rule unsigned_word_eqI [where 'a = nat])
      have "128 \<le> unat b" "unat b < 256"
        using False by (simp_all add: high_bit_iff unat_byte_less)
      then have "unat b mod 128 + 128 = unat b"
        by (simp add: le_mod_geq)
      then show "unat (ucast (v AND 0x7f) OR 0x80 :: byte) = unat b"
        by (simp add: unat_byte_head v d_def)
    qed
    ultimately have "b # bs = uvarint v @ rest" "n = idx + uvarint_len v"
      using v' big by (simp_all add: uvarint_rec [of v] uvarint_len_rec [of v])
    then show ?thesis
      using sum v big by (intro exI [of _ v]) auto
  qed
qed simp

lemma read_uvarint_Ok:
  assumes "read_uvarint bs = Ok (v, n)"
  shows "n = uvarint_len v" "take n bs = uvarint v" "n \<le> length bs" "0 < n"
proof -
  obtain v' rest where *: "unat v = unat v'" "n = uvarint_len v'" "bs = uvarint v' @ rest"
    using read_uvarint_loop_Ok [of bs 0 0 v n] assms by (auto simp: read_uvarint_def)
  then have "v' = v"
    by (metis unsigned_word_eqI)
  then show "n = uvarint_len v" "take n bs = uvarint v" "n \<le> length bs" "0 < n"
    using * by auto
qed

lemma read_uvarint_take: "read_uvarint bs = Ok (v, n) \<Longrightarrow> bs = uvarint v @ drop n bs"
  using read_uvarint_Ok(2) by (metis append_take_drop_id)

text \<open>More input never changes an answer other than ``too short''.\<close>

lemma read_uvarint_loop_append:
  "read_uvarint_loop bs idx s acc \<noteq> Err BufferTooShort \<Longrightarrow>
     read_uvarint_loop (bs @ more) idx s acc = read_uvarint_loop bs idx s acc"
  by (induction bs arbitrary: idx s acc) (auto simp: Let_def split: if_splits)

lemma read_uvarint_append:
  "read_uvarint bs \<noteq> Err BufferTooShort \<Longrightarrow> read_uvarint (bs @ more) = read_uvarint bs"
  by (simp add: read_uvarint_def read_uvarint_loop_append)

lemma read_uvarint_Nil [simp]: "read_uvarint [] = Err BufferTooShort"
  by (simp add: read_uvarint_def)

lemma read_uvarint_prefix:
  assumes "k < uvarint_len v"
  shows "read_uvarint (take k (uvarint v)) = Err BufferTooShort"
proof (rule ccontr)
  assume *: "read_uvarint (take k (uvarint v)) \<noteq> Err BufferTooShort"
  have "read_uvarint (take k (uvarint v)) = read_uvarint (take k (uvarint v) @ drop k (uvarint v))"
    by (rule read_uvarint_append [OF *, symmetric])
  also have "\<dots> = Ok (v, uvarint_len v)"
    using read_uvarint_write [of v "[]"] by simp
  finally show False
    using read_uvarint_Ok(3) assms by fastforce
qed

lemma uvarint_len_le_10: "uvarint_len v \<le> 10"
proof -
  have "unat v < 2 ^ LENGTH(64)"
    by (rule unsigned_less)
  then show ?thesis
    by (subst uvarint_len_le_iff) simp_all
qed

lemma uvarint_inject [simp]: "uvarint v = uvarint w \<longleftrightarrow> v = w"
  using read_uvarint_write [of v "[]"] read_uvarint_write [of w "[]"]
  by (metis Pair_inject sum.inject(2))

lemma uvarint_not_Nil [simp]: "uvarint v \<noteq> []"
  using length_uvarint [of v] uvarint_len_pos [of v] by (metis length_0_conv less_irrefl)

lemma read_uvarint_loop_short:
  "idx < 10 \<Longrightarrow> read_uvarint_loop bs idx s acc = Err BufferTooShort \<longleftrightarrow>
     idx + length bs < 10 \<and> list_all (\<lambda>b. 0x80 \<le> b) bs"
proof (induction bs arbitrary: idx s acc)
  case (Cons b bs)
  have high: "b AND 0x80 = 0 \<longleftrightarrow> \<not> 0x80 \<le> b"
    using high_bit_iff [of b] by (auto simp: word_le_nat_alt)
  show ?case
  proof (cases "idx = 9")
    case False
    then show ?thesis
      using Cons by (auto simp: Let_def high)
  qed (use Cons.prems in \<open>auto simp: Let_def high\<close>)
qed simp

section \<open>Properties\<close>

text \<open>
  The reader accepts a buffer exactly when it starts with the writer's encoding of the value it
  returns, and reports that encoding's length: each value has a single accepted encoding, whatever
  follows it in the buffer.
\<close>

theorem read_uvarint_exact:
  "read_uvarint bs = Ok (v, n) \<longleftrightarrow>
     n = uvarint_len v \<and> (\<exists>rest. bs = write_uvarint v [] @ rest)"
  using read_uvarint_Ok(1) read_uvarint_take read_uvarint_write by blast

text \<open>
  The reader asks for more input exactly on the at most nine continuation bytes of a varint that
  is still open; on every other buffer it returns a value or a definite error.
\<close>

theorem read_uvarint_too_short:
  "read_uvarint bs = Err BufferTooShort \<longleftrightarrow> length bs < 10 \<and> list_all (\<lambda>b. 0x80 \<le> b) bs"
  by (simp add: read_uvarint_def read_uvarint_loop_short)

end
