(* ===== verification/Utf8.thy ===== *)
theory Utf8
  imports Prelude
begin

text \<open>
  What the sources use of Rust's \<open>str\<close>: the validation done by \<open>core::str::from_utf8\<close>, and \<open>chars\<close>.
  A \<open>char\<close> is a Unicode scalar value, here a natural number.
\<close>

type_synonym rchar = nat

definition utf8_cont :: "byte \<Rightarrow> bool" where
  "utf8_cont b \<longleftrightarrow> 0x80 \<le> b \<and> b \<le> 0xBF"

definition utf8_second3 :: "byte \<Rightarrow> byte \<Rightarrow> bool" where
  "utf8_second3 a b \<longleftrightarrow>
     a = 0xE0 \<and> 0xA0 \<le> b \<and> b \<le> 0xBF \<or>
     0xE1 \<le> a \<and> a \<le> 0xEC \<and> utf8_cont b \<or>
     a = 0xED \<and> 0x80 \<le> b \<and> b \<le> 0x9F \<or>
     0xEE \<le> a \<and> a \<le> 0xEF \<and> utf8_cont b"

definition utf8_second4 :: "byte \<Rightarrow> byte \<Rightarrow> bool" where
  "utf8_second4 a b \<longleftrightarrow>
     a = 0xF0 \<and> 0x90 \<le> b \<and> b \<le> 0xBF \<or>
     0xF1 \<le> a \<and> a \<le> 0xF3 \<and> utf8_cont b \<or>
     a = 0xF4 \<and> 0x80 \<le> b \<and> b \<le> 0x8F"

fun utf8_ok :: "bytes \<Rightarrow> bool" where
  "utf8_ok [] \<longleftrightarrow> True"
| "utf8_ok (a # bs) \<longleftrightarrow>
     (if a < 0x80 then utf8_ok bs
      else case bs of
        [] \<Rightarrow> False
      | b # cs \<Rightarrow>
          if 0xC2 \<le> a \<and> a \<le> 0xDF then utf8_cont b \<and> utf8_ok cs
          else case cs of
            [] \<Rightarrow> False
          | c # ds \<Rightarrow>
              if 0xE0 \<le> a \<and> a \<le> 0xEF then utf8_second3 a b \<and> utf8_cont c \<and> utf8_ok ds
              else case ds of
                [] \<Rightarrow> False
              | d # es \<Rightarrow> utf8_second4 a b \<and> utf8_cont c \<and> utf8_cont d \<and> utf8_ok es)"

text \<open>
  \<open>core::str::from_utf8\<close>.  An error carries \<open>valid_up_to\<close> and \<open>error_len\<close> (\<open>None\<close> when the input
  ends inside a character).  \<open>idx\<close> is the index of the first byte of the list.
\<close>

datatype utf8_error = Utf8Error (valid_up_to: nat) (error_len: "nat option")

fun utf8_validate :: "nat \<Rightarrow> bytes \<Rightarrow> utf8_error + unit" where
  "utf8_validate idx [] = Ok ()"
| "utf8_validate idx (a # bs) =
     (if a < 0x80 then utf8_validate (idx + 1) bs
      else if \<not> (0xC2 \<le> a \<and> a \<le> 0xF4) then Err (Utf8Error idx (Some 1))
      else case bs of
        [] \<Rightarrow> Err (Utf8Error idx None)
      | b # cs \<Rightarrow>
          if a \<le> 0xDF
          then (if utf8_cont b then utf8_validate (idx + 2) cs else Err (Utf8Error idx (Some 1)))
          else if \<not> (if a \<le> 0xEF then utf8_second3 a b else utf8_second4 a b)
          then Err (Utf8Error idx (Some 1))
          else case cs of
            [] \<Rightarrow> Err (Utf8Error idx None)
          | c # ds \<Rightarrow>
              if \<not> utf8_cont c then Err (Utf8Error idx (Some 2))
              else if a \<le> 0xEF then utf8_validate (idx + 3) ds
              else case ds of
                [] \<Rightarrow> Err (Utf8Error idx None)
              | d # es \<Rightarrow>
                  if \<not> utf8_cont d then Err (Utf8Error idx (Some 3))
                  else utf8_validate (idx + 4) es)"

definition from_utf8 :: "bytes \<Rightarrow> utf8_error + rstr" where
  "from_utf8 bs = and_then (utf8_validate 0 bs) (\<lambda>_. Ok bs)"

definition show_utf8_error :: "utf8_error \<Rightarrow> rstr" where
  "show_utf8_error e =
     (case error_len e of
        Some n \<Rightarrow> lit ''invalid utf-8 sequence of '' @ show_nat n @ lit '' bytes from index '' @
          show_nat (valid_up_to e)
      | None \<Rightarrow> lit ''incomplete utf-8 byte sequence from index '' @ show_nat (valid_up_to e))"

text \<open>\<open>Display\<close> of a \<open>char\<close> is its UTF-8 encoding.\<close>

definition encode_utf8 :: "rchar \<Rightarrow> rstr" where
  "encode_utf8 c =
     (if c < 0x80 then [of_nat c]
      else if c < 0x800 then [0xC0 OR of_nat (c div 64), 0x80 OR of_nat (c mod 64)]
      else if c < 0x10000
      then [0xE0 OR of_nat (c div 4096), 0x80 OR of_nat (c div 64 mod 64), 0x80 OR of_nat (c mod 64)]
      else [0xF0 OR of_nat (c div 262144), 0x80 OR of_nat (c div 4096 mod 64),
        0x80 OR of_nat (c div 64 mod 64), 0x80 OR of_nat (c mod 64)])"

fun chars :: "rstr \<Rightarrow> rchar list" where
  "chars [] = []"
| "chars (a # bs) =
     (if a < 0x80 then unat a # chars bs
      else case bs of
        [] \<Rightarrow> []
      | b # cs \<Rightarrow>
          if a < 0xE0 then (unat (a AND 0x1f) * 64 + unat (b AND 0x3f)) # chars cs
          else case cs of
            [] \<Rightarrow> []
          | c # ds \<Rightarrow>
              if a < 0xF0
              then (unat (a AND 0x0f) * 4096 + unat (b AND 0x3f) * 64 + unat (c AND 0x3f)) # chars ds
              else case ds of
                [] \<Rightarrow> []
              | d # es \<Rightarrow>
                  (unat (a AND 0x07) * 262144 + unat (b AND 0x3f) * 4096 + unat (c AND 0x3f) * 64
                    + unat (d AND 0x3f)) # chars es)"

definition ascii :: "rstr \<Rightarrow> bool" where
  "ascii s \<longleftrightarrow> (\<forall>b \<in> set s. b < 0x80)"

lemma ascii_simps [simp]:
  "ascii []"
  "ascii (b # s) \<longleftrightarrow> b < 0x80 \<and> ascii s"
  "ascii (s @ t) \<longleftrightarrow> ascii s \<and> ascii t"
  by (auto simp: ascii_def)

lemma chars_ascii: "ascii s \<Longrightarrow> chars s = map unat s"
  by (induction s) simp_all

lemma utf8_ok_ascii: "ascii s \<Longrightarrow> utf8_ok s"
  by (induction s) simp_all

lemma utf8_second3_range: "utf8_second3 a b \<Longrightarrow> 0xE0 \<le> a \<and> a \<le> 0xEF"
  by (auto simp: utf8_second3_def word_le_nat_alt)

lemma utf8_second4_range: "utf8_second4 a b \<Longrightarrow> 0xF0 \<le> a \<and> a \<le> 0xF4"
  by (auto simp: utf8_second4_def word_le_nat_alt)

lemma utf8_validate_iff: "utf8_validate idx bs = Ok () \<longleftrightarrow> utf8_ok bs"
proof (induction bs arbitrary: idx rule: utf8_ok.induct)
  case (2 a bs)
  have "a < 0x80 \<or> \<not> a < 0x80 \<and> \<not> (0xC2 \<le> a \<and> a \<le> 0xF4) \<or>
      0xC2 \<le> a \<and> a \<le> 0xDF \<or> 0xE0 \<le> a \<and> a \<le> 0xEF \<or> 0xF0 \<le> a \<and> a \<le> 0xF4"
    by (simp add: word_le_nat_alt word_less_nat_alt) arith
  then consider "a < 0x80" | "\<not> a < 0x80" "\<not> (0xC2 \<le> a \<and> a \<le> 0xF4)"
    | "0xC2 \<le> a" "a \<le> 0xDF" | "0xE0 \<le> a" "a \<le> 0xEF" | "0xF0 \<le> a" "a \<le> 0xF4"
    by blast
  then show ?case
  proof cases
    case 2
    then have "\<not> (0xC2 \<le> a \<and> a \<le> 0xDF)" "\<not> (0xE0 \<le> a \<and> a \<le> 0xEF)" "\<not> utf8_second4 a b" for b
      using utf8_second4_range [of a b] by (auto simp: word_le_nat_alt word_less_nat_alt)
    then show ?thesis
      using 2 by (auto split: list.split)
  next
    case 3
    then have "\<not> a < 0x80" "a \<le> 0xF4"
      by (auto simp: word_le_nat_alt word_less_nat_alt)
    then show ?thesis
      using 3 "2.IH" by (auto split: list.split)
  next
    case 4
    then have "\<not> a < 0x80" "a \<le> 0xF4" "0xC2 \<le> a" "\<not> a \<le> 0xDF"
      by (auto simp: word_le_nat_alt word_less_nat_alt)
    then show ?thesis
      using 4 "2.IH" by (auto split: list.split)
  next
    case 5
    then have "\<not> a < 0x80" "0xC2 \<le> a" "\<not> a \<le> 0xDF" "\<not> a \<le> 0xEF"
      by (auto simp: word_le_nat_alt word_less_nat_alt)
    then show ?thesis
      using 5 "2.IH" by (auto split: list.split)
  qed (use "2.IH" in simp)
qed simp

lemma from_utf8_eq_Ok [simp]: "from_utf8 bs = Ok s \<longleftrightarrow> utf8_ok bs \<and> s = bs"
  by (auto simp: from_utf8_def and_then_eq_Inr utf8_validate_iff)

lemma from_utf8_ok: "utf8_ok bs \<Longrightarrow> from_utf8 bs = Ok bs"
  by simp

section \<open>Lossy decoding\<close>

lemma utf8_validate_Err: "utf8_validate idx bs = Err e \<Longrightarrow> error_len e \<noteq> Some 0"
proof (induction bs arbitrary: idx rule: length_induct)
  case (1 bs)
  have IH: "utf8_validate i cs = Err e \<Longrightarrow> error_len e \<noteq> Some 0" if "length cs < length bs" for i cs
    using 1 that by blast
  show ?case
  proof (cases bs)
    case (Cons a cs)
    have "utf8_validate i ds = Err e \<Longrightarrow> error_len e \<noteq> Some 0" if "length ds \<le> length cs" for i ds
      using IH [of ds i] that Cons by simp
    from this [of cs "idx + 1"] this [of "drop 1 cs" "idx + 2"] this [of "drop 2 cs" "idx + 3"]
      this [of "drop 3 cs" "idx + 4"]
    show ?thesis
      using "1.prems" unfolding Cons utf8_validate.simps
      by (auto simp only: list.case drop_Suc_Cons drop_0 length_drop diff_le_self order_refl numeral_2_eq_2
          numeral_3_eq_3 One_nat_def sum.inject utf8_error.sel option.inject simp_thms split: if_split_asm list.split_asm)
  qed (use "1.prems" in simp)
qed

text \<open>
  \<open>String::from_utf8_lossy\<close>: each invalid sequence becomes one U+FFFD, and an incomplete character at
  the end becomes one too.
\<close>

function from_utf8_lossy :: "bytes \<Rightarrow> rstr" where
  "from_utf8_lossy bs =
     (case utf8_validate 0 bs of
        Inr _ \<Rightarrow> bs
      | Inl e \<Rightarrow>
          take (valid_up_to e) bs @ [0xEF, 0xBF, 0xBD] @
          (case error_len e of
             None \<Rightarrow> []
           | Some n \<Rightarrow> from_utf8_lossy (drop (valid_up_to e + n) bs)))"
  by pat_completeness auto
termination
proof (relation "measure length")
  fix bs e n
  assume "utf8_validate 0 bs = Inl e" "error_len e = Some n"
  then show "(drop (valid_up_to e + n) bs, bs) \<in> measure length"
    using utf8_validate_Err [of 0 bs e] by (cases bs) auto
qed simp

declare from_utf8_lossy.simps [simp del]

lemma from_utf8_lossy_ok [simp]: "utf8_ok bs \<Longrightarrow> from_utf8_lossy bs = bs"
  by (simp add: from_utf8_lossy.simps utf8_validate_iff [THEN iffD2])

end
