(* ===== verification/BaseEnc.thy ===== *)
theory BaseEnc
  imports Varint Utf8
begin

text \<open>
  The base58btc and base32 codecs of \<open>crates/identity/src/peer_id.rs\<close> with their error type.  Digits
  and carries (\<open>u8\<close> and \<open>u32\<close> in the source) are natural numbers: the bounds lemmas show that no
  intermediate value leaves its Rust type.  The base32 bit buffers keep their widths.
\<close>

datatype peer_id_error =
    EmptyInput
  | UnsupportedMultibase rchar
  | UnsupportedCidVersion u64
  | UnsupportedMulticodec u64
  | InvalidSha256DigestLength nat
  | InvalidBase58Character rchar nat
  | InvalidBase32Character rchar nat
  | InvalidCidVersionVarint varint_error
  | InvalidCidMulticodecVarint varint_error
  | InvalidMultihash rstr

definition BASE58_ALPHABET :: bytes where
  "BASE58_ALPHABET = lit ''123456789ABCDEFGHJKLMNPQRSTUVWXYZabcdefghijkmnopqrstuvwxyz''"

definition BASE32_ALPHABET_LOWER :: bytes where
  "BASE32_ALPHABET_LOWER = lit ''abcdefghijklmnopqrstuvwxyz234567''"

section \<open>base58btc\<close>

text \<open>One pass over the digits (\<open>for digit in &mut digits\<close>), then the pushes of the final carry.\<close>

fun enc58_digits :: "nat list \<Rightarrow> nat \<Rightarrow> nat list \<times> nat" where
  "enc58_digits [] carry = ([], carry)"
| "enc58_digits (digit # digits) carry =
     (let value' = digit * 256 + carry;
          (digits', carry') = enc58_digits digits (value' div 58)
      in (value' mod 58 # digits', carry'))"

fun enc58_carry :: "nat \<Rightarrow> nat list" where
  "enc58_carry carry = (if 0 < carry then carry mod 58 # enc58_carry (carry div 58) else [])"

declare enc58_carry.simps [simp del]

definition enc58_byte :: "nat list \<Rightarrow> byte \<Rightarrow> nat list" where
  "enc58_byte digits byte =
     (let (digits', carry) = enc58_digits digits (unat byte);
          digits'' = digits' @ enc58_carry carry
      in if digits'' = [] then [0] else digits'')"

definition encode_base58 :: "bytes \<Rightarrow> rstr" where
  "encode_base58 input =
     (if input = [] then []
      else
        let leading_zeros = length (takeWhile (\<lambda>byte. byte = 0) input);
            digits = foldl enc58_byte [] (drop leading_zeros input);
            out = replicate leading_zeros (of_char CHR ''1'')
        in if digits = [] then out
           else out @ map (\<lambda>digit. BASE58_ALPHABET ! digit) (rev digits))"

text \<open>\<open>c as u8\<close> keeps the low eight bits of the character.\<close>

definition base58_value :: "rchar \<Rightarrow> nat option" where
  "base58_value c = list_position (\<lambda>v. v = (of_nat c :: byte)) BASE58_ALPHABET"

fun dec58_bytes :: "nat list \<Rightarrow> nat \<Rightarrow> nat list \<times> nat" where
  "dec58_bytes [] carry = ([], carry)"
| "dec58_bytes (byte # bs) carry =
     (let acc = byte * 58 + carry;
          (bs', carry') = dec58_bytes bs (drop_bit 8 acc)
      in ((acc AND 0xff) # bs', carry'))"

lemma drop_bit_8_less [termination_simp]: "0 < n \<Longrightarrow> drop_bit 8 (n :: nat) < n"
  by (simp add: drop_bit_eq_div)

fun dec58_carry :: "nat \<Rightarrow> nat list" where
  "dec58_carry carry = (if 0 < carry then (carry AND 0xff) # dec58_carry (drop_bit 8 carry) else [])"

declare dec58_carry.simps [simp del]

text \<open>The loop over \<open>input.chars().enumerate().skip(leading_zeros)\<close>.\<close>

fun dec58_loop :: "rchar list \<Rightarrow> nat \<Rightarrow> nat list \<Rightarrow> peer_id_error + nat list" where
  "dec58_loop [] index bs = Ok bs"
| "dec58_loop (ch # chs) index bs =
     and_then (ok_or (InvalidBase58Character ch index) (base58_value ch)) (\<lambda>v.
       let bs = (if bs = [] then [0] else bs);
           (bs', carry) = dec58_bytes bs v
       in dec58_loop chs (index + 1) (bs' @ dec58_carry carry))"

definition decode_base58 :: "rstr \<Rightarrow> peer_id_error + bytes" where
  "decode_base58 input =
     (if input = [] then Err EmptyInput
      else
        let cs = chars input;
            leading_zeros = length (takeWhile (\<lambda>c. c = unat (of_char CHR ''1'' :: byte)) cs)
        in and_then (dec58_loop (drop leading_zeros cs) leading_zeros []) (\<lambda>bs.
             Ok (replicate leading_zeros 0 @ map of_nat (rev bs))))"

section \<open>base32\<close>

fun enc32_emit :: "u16 \<Rightarrow> nat \<Rightarrow> rstr \<times> nat" where
  "enc32_emit buffer bits =
     (if 5 \<le> bits
      then let bits = bits - 5;
               idx = unat (drop_bit bits buffer AND 0x1f);
               (out, bits') = enc32_emit buffer bits
           in (BASE32_ALPHABET_LOWER ! idx # out, bits')
      else ([], bits))"

declare enc32_emit.simps [simp del]

fun enc32_loop :: "bytes \<Rightarrow> u16 \<Rightarrow> nat \<Rightarrow> rstr \<times> u16 \<times> nat" where
  "enc32_loop [] buffer bits = ([], buffer, bits)"
| "enc32_loop (byte # rest) buffer bits =
     (let buffer = push_bit 8 buffer OR ucast byte;
          (out, bits) = enc32_emit buffer (bits + 8);
          (out', r) = enc32_loop rest buffer bits
      in (out @ out', r))"

definition encode_base32_nopad_lower :: "bytes \<Rightarrow> rstr" where
  "encode_base32_nopad_lower input =
     (if input = [] then []
      else
        let (out, buffer, bits) = enc32_loop input 0 0
        in if 0 < bits
           then out @ [BASE32_ALPHABET_LOWER ! unat (push_bit (5 - bits) buffer AND 0x1f)]
           else out)"

text \<open>\<open>char::to_ascii_lowercase\<close>, then the two ranges.\<close>

definition to_ascii_lowercase :: "rchar \<Rightarrow> rchar" where
  "to_ascii_lowercase c = (if 65 \<le> c \<and> c \<le> 90 then c + 32 else c)"

definition base32_value :: "rchar \<Rightarrow> nat option" where
  "base32_value c =
     (let lower = to_ascii_lowercase c
      in if 97 \<le> lower \<and> lower \<le> 122 then Some (lower - 97)
         else if 50 \<le> lower \<and> lower \<le> 55 then Some (26 + (lower - 50))
         else None)"

fun dec32_emit :: "u32 \<Rightarrow> nat \<Rightarrow> bytes \<times> nat" where
  "dec32_emit buffer bits =
     (if 8 \<le> bits
      then let bits = bits - 8;
               byte = ucast (drop_bit bits buffer AND 0xff);
               (out, bits') = dec32_emit buffer bits
           in (byte # out, bits')
      else ([], bits))"

declare dec32_emit.simps [simp del]

fun dec32_loop :: "rchar list \<Rightarrow> nat \<Rightarrow> u32 \<Rightarrow> nat \<Rightarrow> peer_id_error + bytes" where
  "dec32_loop [] index buffer bits = Ok []"
| "dec32_loop (ch # chs) index buffer bits =
     and_then (ok_or (InvalidBase32Character ch index) (base32_value ch)) (\<lambda>v.
       let buffer = push_bit 5 buffer OR of_nat v;
           (out, bits) = dec32_emit buffer (bits + 5)
       in and_then (dec32_loop chs (index + 1) buffer bits) (\<lambda>out'. Ok (out @ out')))"

definition decode_base32_nopad :: "rstr \<Rightarrow> peer_id_error + bytes" where
  "decode_base32_nopad input =
     (if input = [] then Ok [] else dec32_loop (chars input) 0 0 0)"

section \<open>Positional numerals\<close>

text \<open>The digits of a number, least significant first, without a leading zero.\<close>

fun digs :: "nat \<Rightarrow> nat \<Rightarrow> nat list" where
  "digs b n = (if b < 2 \<or> n = 0 then [] else n mod b # digs b (n div b))"

declare digs.simps [simp del]

lemma digs_0 [simp]: "digs b 0 = []"
  by (simp add: digs.simps)

lemma digs_rec: "2 \<le> b \<Longrightarrow> 0 < n \<Longrightarrow> digs b n = n mod b # digs b (n div b)"
  by (simp add: digs.simps [of b n])

lemma digs_eq_Nil [simp]: "2 \<le> b \<Longrightarrow> digs b n = [] \<longleftrightarrow> n = 0"
  by (simp add: digs.simps [of b n])

lemma set_digs: "2 \<le> b \<Longrightarrow> d \<in> set (digs b n) \<Longrightarrow> d < b"
proof (induction b n rule: digs.induct)
  case (1 b n)
  then show ?case
    by (auto simp: digs.simps [of b n] split: if_splits)
qed

text \<open>
  A generic pass: multiply the number with base-\<open>b\<close> digits by \<open>m\<close> and add a carry.  Both codecs
  are instances of it.
\<close>

fun radix_pass :: "nat \<Rightarrow> nat \<Rightarrow> nat list \<Rightarrow> nat \<Rightarrow> nat list \<times> nat" where
  "radix_pass b m [] c = ([], c)"
| "radix_pass b m (d # ds) c =
     (let (ds', c') = radix_pass b m ds ((d * m + c) div b) in ((d * m + c) mod b # ds', c'))"

lemma radix_pass_digs:
  assumes "2 \<le> b" and "0 < m" and "radix_pass b m (digs b n) c = (ds, c')"
  shows "ds @ digs b c' = digs b (n * m + c)"
  using assms(3)
proof (induction n arbitrary: c ds rule: less_induct)
  case (less n)
  show ?case
  proof (cases "n = 0")
    case True
    then show ?thesis
      using less.prems by simp
  next
    case False
    let ?c = "(n mod b * m + c) div b"
    obtain ds1 where ds1: "radix_pass b m (digs b (n div b)) ?c = (ds1, c')"
      and ds: "ds = (n mod b * m + c) mod b # ds1"
      using less.prems False assms(1) by (auto simp: digs_rec split: prod.splits)
    have split: "n * m + c = (n mod b * m + c) + b * (n div b * m)"
    proof -
      have "n * m = (n div b * b + n mod b) * m"
        by simp
      then show ?thesis
        by (simp only: distrib_right) (simp add: ac_simps)
    qed
    have "(n * m + c) div b = n div b * m + ?c"
      using assms(1) by (simp add: split)
    moreover have "(n * m + c) mod b = (n mod b * m + c) mod b"
      by (simp add: split)
    moreover have "ds1 @ digs b c' = digs b (n div b * m + ?c)"
      using less.IH [OF _ ds1] False assms(1) by simp
    moreover have "0 < n * m + c"
      using False assms(2) by simp
    ultimately show ?thesis
      using ds assms(1) by (simp add: digs_rec)
  qed
qed

text \<open>The number a big-endian sequence of digits stands for.\<close>

definition be_value :: "nat \<Rightarrow> nat list \<Rightarrow> nat" where
  "be_value b ds = foldl (\<lambda>n d. n * b + d) 0 ds"

lemma be_value_snoc [simp]: "be_value b (ds @ [d]) = be_value b ds * b + d"
  by (simp add: be_value_def)

lemma be_value_Nil [simp]: "be_value b [] = 0"
  by (simp add: be_value_def)

lemma be_value_digs: "2 \<le> b \<Longrightarrow> be_value b (rev (digs b n)) = n"
proof (induction b n rule: digs.induct)
  case (1 b n)
  show ?case
  proof (cases "n = 0")
    case False
    then show ?thesis
      using 1 by (simp add: digs_rec)
  qed simp
qed

lemma be_value_pos: "2 \<le> b \<Longrightarrow> ds \<noteq> [] \<Longrightarrow> 0 < hd ds \<Longrightarrow> 0 < be_value b ds"
proof (induction ds rule: rev_induct)
  case (snoc d ds)
  then show ?case
    using be_value_snoc [of b "[]" d] by (cases "ds = []") auto
qed simp

lemma digs_be_value:
  assumes "2 \<le> b" and "\<forall>d \<in> set ds. d < b" and "ds \<noteq> [] \<longrightarrow> 0 < hd ds"
  shows "digs b (be_value b ds) = rev ds"
  using assms(2,3)
proof (induction ds rule: rev_induct)
  case (snoc d ds)
  have pos: "0 < be_value b (ds @ [d])"
    using be_value_pos [OF assms(1), of "ds @ [d]"] snoc.prems(2) by simp
  have "digs b (be_value b ds) = rev ds"
    using snoc by (cases "ds = []") auto
  then show ?case
    using pos snoc.prems(1) assms(1) by (simp add: digs_rec)
qed simp

lemma rev_digs_first: "2 \<le> b \<Longrightarrow> rev (digs b n) = [] \<or> 0 < hd (rev (digs b n))"
proof (induction b n rule: digs.induct)
  case (1 b n)
  show ?case
  proof (cases "n < b")
    case True
    then show ?thesis
      using "1.prems" by (cases "n = 0") (simp_all add: digs_rec)
  next
    case False
    then have "digs b (n div b) \<noteq> []"
      using "1.prems" by (simp add: div_eq_0_iff)
    moreover have "digs b n = n mod b # digs b (n div b)"
      using "1.prems" False by (intro digs_rec) auto
    moreover have "rev (digs b (n div b)) = [] \<or> 0 < hd (rev (digs b (n div b)))"
      using 1 False by simp
    ultimately show ?thesis
      by (simp add: hd_append)
  qed
qed

section \<open>base58 decodes what it encodes\<close>

lemma enc58_digits_eq: "enc58_digits = radix_pass 58 256"
proof (intro ext)
  show "enc58_digits ds c = radix_pass 58 256 ds c" for ds c
    by (induction ds arbitrary: c) (simp_all add: Let_def)
qed

lemma enc58_carry_eq: "enc58_carry c = digs 58 c"
  by (induction c rule: enc58_carry.induct) (simp add: enc58_carry.simps digs.simps [of 58])

lemma mask_8: "(a :: nat) AND 255 = a mod 256"
  using take_bit_eq_mask [of 8 a] by (simp add: take_bit_eq_mod mask_eq_exp_minus_1)

lemma dec58_bytes_eq: "dec58_bytes = radix_pass 256 58"
proof (intro ext)
  show "dec58_bytes ds c = radix_pass 256 58 ds c" for ds c
    by (induction ds arbitrary: c) (simp_all add: Let_def mask_8 drop_bit_eq_div)
qed

lemma dec58_carry_eq: "dec58_carry c = digs 256 c"
  by (induction c rule: dec58_carry.induct)
    (simp add: dec58_carry.simps digs.simps [of 256] mask_8 drop_bit_eq_div)

lemma enc58_byte_digs:
  assumes "0 < n * 256 + unat b"
  shows "enc58_byte (digs 58 n) b = digs 58 (n * 256 + unat b)"
proof -
  obtain ds c where p: "radix_pass 58 256 (digs 58 n) (unat b) = (ds, c)"
    by fastforce
  then have "ds @ digs 58 c = digs 58 (n * 256 + unat b)"
    using radix_pass_digs [of 58 256 n "unat b" ds c] by simp
  moreover have "digs 58 (n * 256 + unat b) \<noteq> []"
    using assms by (subst digs_eq_Nil) auto
  ultimately show ?thesis
    using p unfolding enc58_byte_def enc58_digits_eq enc58_carry_eq Let_def
    by (simp del: append_is_Nil_conv)
qed

lemma foldl_enc58:
  "bs \<noteq> [] \<longrightarrow> hd bs \<noteq> 0 \<Longrightarrow> foldl enc58_byte [] bs = digs 58 (be_value 256 (map unat bs))"
proof (induction bs rule: rev_induct)
  case (snoc b bs)
  have "0 < hd (map unat (bs @ [b]))"
    using snoc.prems by (cases bs) auto
  then have "0 < be_value 256 (map unat (bs @ [b]))"
    using be_value_pos [of 256 "map unat (bs @ [b])"] by simp
  moreover have "foldl enc58_byte [] bs = digs 58 (be_value 256 (map unat bs))"
    using snoc by (cases bs) auto
  ultimately show ?case
    by (simp add: enc58_byte_digs)
qed simp

text \<open>The alphabet: distinct ASCII characters in increasing order, each found at its position.\<close>

lemma BASE58_ALPHABET_eq:
  "BASE58_ALPHABET = [49, 50, 51, 52, 53, 54, 55, 56, 57, 65, 66, 67, 68, 69, 70, 71, 72, 74, 75,
     76, 77, 78, 80, 81, 82, 83, 84, 85, 86, 87, 88, 89, 90, 97, 98, 99, 100, 101, 102, 103, 104,
     105, 106, 107, 109, 110, 111, 112, 113, 114, 115, 116, 117, 118, 119, 120, 121, 122]"
  by (simp add: BASE58_ALPHABET_def lit_def)

lemma BASE58_ALPHABET_sorted: "sorted_wrt (<) BASE58_ALPHABET"
proof -
  have "successively (<) BASE58_ALPHABET"
    by (simp add: BASE58_ALPHABET_eq)
  then show ?thesis
    by (subst (asm) successively_iff_sorted_wrt_strong) auto
qed

lemma BASE58_ALPHABET_length: "length BASE58_ALPHABET = 58"
  by (simp add: BASE58_ALPHABET_eq)

lemma BASE58_ALPHABET_distinct: "distinct BASE58_ALPHABET"
  using BASE58_ALPHABET_sorted strict_sorted_iff by blast

lemma BASE58_ALPHABET_ascii: "ascii BASE58_ALPHABET"
  by (simp add: BASE58_ALPHABET_eq)

lemma base58_value_alphabet: "d < 58 \<Longrightarrow> base58_value (unat (BASE58_ALPHABET ! d)) = Some d"
  using list_position_distinct [OF BASE58_ALPHABET_distinct, of d]
  by (simp add: base58_value_def BASE58_ALPHABET_length)

lemma alphabet_first: "0 < d \<Longrightarrow> d < 58 \<Longrightarrow> BASE58_ALPHABET ! d \<noteq> of_char CHR ''1''"
proof -
  assume d: "0 < d" "d < 58"
  have "of_char CHR ''1'' = BASE58_ALPHABET ! 0"
    by (simp add: BASE58_ALPHABET_eq)
  then show ?thesis
    using nth_eq_iff_index_eq [OF BASE58_ALPHABET_distinct, of d 0] d
    by (simp add: BASE58_ALPHABET_length del: of_char_Char)
qed

lemma alphabet_first_unat: "0 < d \<Longrightarrow> d < 58 \<Longrightarrow> unat (BASE58_ALPHABET ! d) \<noteq> 49"
proof
  assume "0 < d" "d < 58" "unat (BASE58_ALPHABET ! d) = 49"
  moreover from this have "BASE58_ALPHABET ! d = 49"
    by (intro unsigned_word_eqI [where 'a = nat]) simp
  ultimately show False
    using alphabet_first [of d] by simp
qed

lemma dec58_step:
  assumes "v < 58" and "0 < n \<or> 0 < v"
    and "dec58_bytes (if digs 256 n = [] then [0] else digs 256 n) v = (bs, c)"
  shows "bs @ dec58_carry c = digs 256 (n * 58 + v)"
proof (cases "n = 0")
  case True
  then show ?thesis
    using assms by (auto simp: dec58_carry_eq mask_8 drop_bit_eq_div digs_rec)
next
  case False
  then have "radix_pass 256 58 (digs 256 n) v = (bs, c)"
    using assms(3) by (simp add: dec58_bytes_eq)
  then show ?thesis
    using radix_pass_digs [of 256 58 n v bs c] by (simp add: dec58_carry_eq)
qed

lemma dec58_loop_digits:
  "\<forall>d \<in> set ds. d < 58 \<Longrightarrow> 0 < n \<or> ds = [] \<or> 0 < hd ds \<Longrightarrow>
     dec58_loop (map (\<lambda>d. unat (BASE58_ALPHABET ! d)) ds) index (digs 256 n) =
       Ok (digs 256 (foldl (\<lambda>n d. n * 58 + d) n ds))"
proof (induction ds arbitrary: n index)
  case (Cons d ds)
  obtain bs c where p: "dec58_bytes (if digs 256 n = [] then [0] else digs 256 n) d = (bs, c)"
    by fastforce
  have "bs @ dec58_carry c = digs 256 (n * 58 + d)"
    using dec58_step [OF _ _ p] Cons.prems by auto
  moreover have "0 < n * 58 + d"
    using Cons.prems by auto
  ultimately show ?case
    using Cons.IH [of "n * 58 + d"] Cons.prems(1) p
    by (simp add: base58_value_alphabet Let_def)
qed simp

lemma rev_digs_bytes:
  assumes "bs = [] \<or> hd bs \<noteq> 0"
  shows "map of_nat (rev (digs 256 (be_value 256 (map unat bs)))) = (bs :: bytes)"
proof -
  have "digs 256 (be_value 256 (map unat bs)) = rev (map unat bs)"
  proof (rule digs_be_value)
    show "\<forall>d \<in> set (map unat bs). d < 256"
      by (auto simp: unat_byte_less)
    show "map unat bs \<noteq> [] \<longrightarrow> 0 < hd (map unat bs)"
      using assms by (cases bs) auto
  qed simp
  then show ?thesis
    by (simp add: comp_def)
qed

lemma takeWhile_replicate: "P x \<Longrightarrow> ys = [] \<or> \<not> P (hd ys) \<Longrightarrow>
  takeWhile P (replicate n x @ ys) = replicate n x"
  by (induction n) (cases ys; auto)+

lemma leading_zeros_split:
  fixes bs :: bytes
  defines "z \<equiv> length (takeWhile (\<lambda>b. b = 0) bs)"
  shows "bs = replicate z 0 @ drop z bs" "drop z bs = [] \<or> hd (drop z bs) \<noteq> 0"
proof -
  have "takeWhile (\<lambda>b. b = 0) bs = replicate z 0"
    unfolding z_def by (rule replicate_eqI) (auto dest: set_takeWhileD)
  moreover have "takeWhile (\<lambda>b. b = 0) bs @ drop z bs = bs"
    by (simp add: z_def flip: dropWhile_eq_drop)
  ultimately show "bs = replicate z 0 @ drop z bs"
    by simp
  show "drop z bs = [] \<or> hd (drop z bs) \<noteq> 0"
    using hd_dropWhile [of "\<lambda>b. b = 0" bs] by (auto simp: z_def simp flip: dropWhile_eq_drop)
qed

lemma encode_base58_digits:
  assumes "bs \<noteq> []"
  defines "z \<equiv> length (takeWhile (\<lambda>b. b = 0) bs)"
  shows "encode_base58 bs = replicate z (of_char CHR ''1'') @
     map (\<lambda>d. BASE58_ALPHABET ! d) (rev (digs 58 (be_value 256 (map unat (drop z bs)))))"
proof -
  have "drop z bs = [] \<or> hd (drop z bs) \<noteq> 0"
    unfolding z_def by (rule leading_zeros_split(2))
  then have "foldl enc58_byte [] (drop z bs) = digs 58 (be_value 256 (map unat (drop z bs)))"
    by (intro foldl_enc58) auto
  then show ?thesis
    using assms(1) by (simp add: encode_base58_def Let_def flip: z_def)
qed

lemma decode_encode_base58:
  assumes "bs \<noteq> []"
  shows "decode_base58 (encode_base58 bs) = Ok bs"
proof -
  let ?z = "length (takeWhile (\<lambda>b. b = 0) bs)"
  let ?n = "be_value 256 (map unat (drop ?z bs))"
  let ?one = "of_char CHR ''1'' :: byte"
  let ?cs = "map (\<lambda>d. unat (BASE58_ALPHABET ! d)) (rev (digs 58 ?n))"
  have digits: "\<forall>d \<in> set (rev (digs 58 ?n)). d < 58"
    using set_digs [of 58] by auto
  have first: "rev (digs 58 ?n) = [] \<or> 0 < hd (rev (digs 58 ?n))"
    by (rule rev_digs_first) simp
  have enc: "encode_base58 bs =
    replicate ?z ?one @ map (\<lambda>d. BASE58_ALPHABET ! d) (rev (digs 58 ?n))"
    by (rule encode_base58_digits [OF assms])
  have "ascii (encode_base58 bs)"
    unfolding enc using digits BASE58_ALPHABET_ascii BASE58_ALPHABET_length
    by (auto simp: ascii_def simp del: set_rev)
  then have chars: "chars (encode_base58 bs) = replicate ?z (unat ?one) @ ?cs"
    unfolding enc by (subst chars_ascii) (simp_all add: comp_def)
  have "?cs = [] \<or> hd ?cs \<noteq> unat ?one"
    using first digits alphabet_first_unat by (cases "rev (digs 58 ?n)") auto
  then have "takeWhile (\<lambda>c. c = unat ?one) (chars (encode_base58 bs)) = replicate ?z (unat ?one)"
    unfolding chars by (intro takeWhile_replicate) auto
  moreover have "dec58_loop ?cs ?z [] = Ok (digs 256 ?n)"
    using dec58_loop_digits [OF digits, of 0 ?z] first be_value_digs [of 58 ?n]
    by (simp add: be_value_def)
  moreover have "encode_base58 bs \<noteq> []"
    unfolding enc using leading_zeros_split [of bs] assms be_value_pos [of 256 "map unat bs"]
    by (cases "?z = 0") (auto simp: hd_map)
  moreover have "map of_nat (rev (digs 256 ?n)) = drop ?z bs"
    by (rule rev_digs_bytes [OF leading_zeros_split(2)])
  ultimately show ?thesis
    using leading_zeros_split(1) [of bs] by (simp add: decode_base58_def chars Let_def)
qed

section \<open>base32 decodes what it encodes\<close>

text \<open>The low \<open>n\<close> bits of a value, most significant first.\<close>

definition bits_be :: "nat \<Rightarrow> 'a::semiring_bits \<Rightarrow> bool list" where
  "bits_be n x = map (\<lambda>i. bit x (n - 1 - i)) [0..<n]"

lemma length_bits_be [simp]: "length (bits_be n x) = n"
  by (simp add: bits_be_def)

lemma nth_bits_be [simp]: "i < n \<Longrightarrow> bits_be n x ! i = bit x (n - 1 - i)"
  by (simp add: bits_be_def)

lemma bits_be_0 [simp]: "bits_be 0 x = []"
  by (simp add: bits_be_def)

lemma bits_be_cong: "(\<And>i. i < n \<Longrightarrow> bit x i = bit y i) \<Longrightarrow> bits_be n x = bits_be n y"
  by (simp add: bits_be_def)

lemma bits_be_add:
  "bits_be (m + n) (x :: 'a::len word) = bits_be m (drop_bit n x) @ bits_be n x"
proof (rule nth_equalityI)
  show "bits_be (m + n) x ! i = (bits_be m (drop_bit n x) @ bits_be n x) ! i"
    if "i < length (bits_be (m + n) x)" for i
    using that by (auto simp: nth_append bit_simps ac_simps intro!: arg_cong [of _ _ "bit x"])
qed simp

lemma bits_be_eq_iff: "bits_be n x = bits_be n y \<longleftrightarrow> (\<forall>i < n. bit x i = bit y i)"
proof
  assume eq: "bits_be n x = bits_be n y"
  show "\<forall>i < n. bit x i = bit y i"
  proof (intro allI impI)
    fix i assume "i < n"
    then show "bit x i = bit y i"
      using arg_cong [OF eq, of "\<lambda>l. l ! (n - 1 - i)"] by simp
  qed
qed (intro bits_be_cong, blast)

lemma bits_be_byte_eq_iff: "bits_be 8 x = bits_be 8 y \<longleftrightarrow> x = (y :: byte)"
  unfolding bits_be_eq_iff by (auto intro: bit_word_eqI)

abbreviation bytes_bits :: "bytes \<Rightarrow> bool list" where
  "bytes_bits bs \<equiv> concat (map (bits_be 8) bs)"

lemma length_bytes_bits [simp]: "length (bytes_bits bs) = 8 * length bs"
  by (induction bs) auto

lemma bytes_bits_inject: "length as = length bs \<Longrightarrow> bytes_bits as = bytes_bits bs \<Longrightarrow> as = bs"
proof (induction as bs rule: list_induct2)
  case (Cons a as b bs)
  then show ?case
    by (simp add: bits_be_byte_eq_iff)
qed simp

text \<open>The five bits a base32 character stands for.\<close>

definition sym_bits :: "byte \<Rightarrow> bool list" where
  "sym_bits c = bits_be 5 (the (base32_value (unat c)))"

abbreviation syms_bits :: "rstr \<Rightarrow> bool list" where
  "syms_bits cs \<equiv> concat (map sym_bits cs)"

definition b32_syms :: "rstr \<Rightarrow> bool" where
  "b32_syms cs \<longleftrightarrow> (\<forall>c \<in> set cs. c < 0x80 \<and> (\<exists>v < 32. base32_value (unat c) = Some v))"

lemma b32_syms_simps [simp]:
  "b32_syms []"
  "b32_syms (c # cs) \<longleftrightarrow> c < 0x80 \<and> (\<exists>v < 32. base32_value (unat c) = Some v) \<and> b32_syms cs"
  "b32_syms (as @ bs) \<longleftrightarrow> b32_syms as \<and> b32_syms bs"
  by (auto simp: b32_syms_def)

lemma BASE32_ALPHABET_eq:
  "BASE32_ALPHABET_LOWER = [97, 98, 99, 100, 101, 102, 103, 104, 105, 106, 107, 108, 109, 110, 111,
     112, 113, 114, 115, 116, 117, 118, 119, 120, 121, 122, 50, 51, 52, 53, 54, 55]"
  by (simp add: BASE32_ALPHABET_LOWER_def lit_def)

lemma base32_alphabet:
  assumes "v < 32"
  shows "base32_value (unat (BASE32_ALPHABET_LOWER ! v)) = Some v" "BASE32_ALPHABET_LOWER ! v < 0x80"
proof -
  have "\<forall>v \<in> set [0..<32]. base32_value (unat (BASE32_ALPHABET_LOWER ! v)) = Some v \<and>
     BASE32_ALPHABET_LOWER ! v < 0x80"
    unfolding BASE32_ALPHABET_eq by code_simp
  then show "base32_value (unat (BASE32_ALPHABET_LOWER ! v)) = Some v"
    "BASE32_ALPHABET_LOWER ! v < 0x80"
    using assms by auto
qed

lemma and_1f: "5 \<le> LENGTH('a) \<Longrightarrow> (w :: 'a::len word) AND 0x1f = take_bit 5 w"
  by (simp add: take_bit_eq_mask mask_eq_exp_minus_1)

lemma sym_of_word:
  fixes w :: u16
  defines "c \<equiv> BASE32_ALPHABET_LOWER ! unat (w AND 0x1f)"
  shows "b32_syms [c]" "sym_bits c = bits_be 5 w"
proof -
  have "unat (w AND 0x1f) < 2 ^ 5"
    by (simp only: and_1f [of w, simplified] unsigned_take_bit_eq take_bit_nat_less_exp)
  then have v: "unat (w AND 0x1f) < 32"
    by simp
  then show "b32_syms [c]"
    by (simp add: c_def base32_alphabet)
  have "sym_bits c = bits_be 5 (unat (w AND 0x1f))"
    using v by (simp add: sym_bits_def c_def base32_alphabet)
  also have "\<dots> = bits_be 5 w"
    by (auto simp: and_1f bits_be_def bit_simps)
  finally show "sym_bits c = bits_be 5 w" .
qed

lemma enc32_emit_bits:
  "enc32_emit buffer bits = (out, bits') \<Longrightarrow>
     syms_bits out @ bits_be bits' buffer = bits_be bits buffer \<and> bits' < 5 \<and> b32_syms out"
proof (induction buffer bits arbitrary: out rule: enc32_emit.induct)
  case (1 buffer bits)
  show ?case
  proof (cases "5 \<le> bits")
    case True
    let ?c = "BASE32_ALPHABET_LOWER ! unat (drop_bit (bits - 5) buffer AND 0x1f)"
    obtain out' where "enc32_emit buffer (bits - 5) = (out', bits')" and out: "out = ?c # out'"
      using "1.prems" True
      by (auto simp: enc32_emit.simps [of buffer bits] Let_def split: prod.splits)
    then have IH: "syms_bits out' @ bits_be bits' buffer = bits_be (bits - 5) buffer" "bits' < 5"
      "b32_syms out'"
      using "1.IH" [OF True] by auto
    have "bits_be bits buffer = bits_be 5 (drop_bit (bits - 5) buffer) @ bits_be (bits - 5) buffer"
      using bits_be_add [of 5 "bits - 5" buffer] True by simp
    then show ?thesis
      using IH out sym_of_word [of "drop_bit (bits - 5) buffer"] by simp
  qed (use "1.prems" in \<open>simp add: enc32_emit.simps\<close>)
qed

lemma bits_be_push_byte:
  assumes "bits \<le> 8"
  shows "bits_be (bits + 8) (push_bit 8 (buffer :: u16) OR ucast (byte :: byte)) =
     bits_be bits buffer @ bits_be 8 byte"
proof -
  have "bits_be bits (drop_bit 8 (push_bit 8 buffer OR ucast byte)) = bits_be bits buffer"
    using assms by (intro bits_be_cong) (auto simp: bit_simps dest: bit_imp_le_length)
  moreover have "bits_be 8 (push_bit 8 buffer OR ucast byte) = bits_be 8 byte"
    unfolding bits_be_def by (auto simp: bit_simps)
  ultimately show ?thesis
    by (simp add: bits_be_add)
qed

lemma enc32_loop_bits:
  "enc32_loop bs buffer bits = (out, buffer', bits') \<Longrightarrow> bits < 5 \<Longrightarrow>
     syms_bits out @ bits_be bits' buffer' = bits_be bits buffer @ bytes_bits bs \<and>
     bits' < 5 \<and> b32_syms out"
proof (induction bs arbitrary: buffer bits out)
  case (Cons b bs)
  let ?buffer = "push_bit 8 buffer OR ucast b"
  obtain o1 n1 where e: "enc32_emit ?buffer (bits + 8) = (o1, n1)"
    by fastforce
  obtain o2 where o2: "enc32_loop bs ?buffer n1 = (o2, buffer', bits')" "out = o1 @ o2"
    using Cons.prems(1) e by (auto simp: Let_def split: prod.splits)
  have "syms_bits o1 @ bits_be n1 ?buffer = bits_be bits buffer @ bits_be 8 b" "n1 < 5" "b32_syms o1"
    using enc32_emit_bits [OF e] bits_be_push_byte [of bits buffer b] Cons.prems(2) by auto
  moreover from Cons.IH [OF o2(1) this(2)]
  have "syms_bits o2 @ bits_be bits' buffer' = bits_be n1 ?buffer @ bytes_bits bs" "bits' < 5"
    "b32_syms o2"
    by auto
  ultimately show ?case
    using o2(2) by (simp del: append_assoc add: append_assoc [symmetric]) simp
qed simp

lemma encode_base32_bits:
  "\<exists>pad. length pad < 5 \<and> b32_syms (encode_base32_nopad_lower bs) \<and>
     syms_bits (encode_base32_nopad_lower bs) = bytes_bits bs @ pad"
proof (cases "bs = []")
  case False
  obtain out buffer bits where e: "enc32_loop bs 0 0 = (out, buffer, bits)"
    by (cases "enc32_loop bs 0 0") auto
  have *: "syms_bits out @ bits_be bits buffer = bytes_bits bs" "bits < 5" "b32_syms out"
    using enc32_loop_bits [OF e] by auto
  show ?thesis
  proof (cases "bits = 0")
    case True
    then show ?thesis
      using False e * by (simp add: encode_base32_nopad_lower_def)
  next
    case pos: False
    let ?w = "push_bit (5 - bits) buffer"
    have "bits_be bits (drop_bit (5 - bits) ?w) = bits_be bits buffer"
      using *(2) by (intro bits_be_cong) (auto simp: bit_simps dest: bit_imp_le_length)
    then have "bits_be 5 ?w = bits_be bits buffer @ bits_be (5 - bits) ?w"
      using bits_be_add [of bits "5 - bits" ?w] *(2) by simp
    then have "syms_bits (encode_base32_nopad_lower bs) = bytes_bits bs @ bits_be (5 - bits) ?w"
      using False pos e *(1) sym_of_word(2) [of ?w] by (simp add: encode_base32_nopad_lower_def)
    moreover have "b32_syms (encode_base32_nopad_lower bs)"
      using False pos e *(3) sym_of_word(1) [of ?w] by (simp add: encode_base32_nopad_lower_def)
    ultimately show ?thesis
      using pos *(2) by (intro exI [of _ "bits_be (5 - bits) ?w"]) simp
  qed
qed (simp add: encode_base32_nopad_lower_def)

lemma dec32_emit_bits:
  "dec32_emit buffer bits = (out, bits') \<Longrightarrow>
     bytes_bits out @ bits_be bits' buffer = bits_be bits buffer \<and> bits' < 8"
proof (induction buffer bits arbitrary: out rule: dec32_emit.induct)
  case (1 buffer bits)
  show ?case
  proof (cases "8 \<le> bits")
    case True
    let ?b = "ucast (drop_bit (bits - 8) buffer AND 0xff) :: byte"
    obtain out' where "dec32_emit buffer (bits - 8) = (out', bits')" and out: "out = ?b # out'"
      using "1.prems" True
      by (auto simp: dec32_emit.simps [of buffer bits] Let_def split: prod.splits)
    then have IH: "bytes_bits out' @ bits_be bits' buffer = bits_be (bits - 8) buffer" "bits' < 8"
      using "1.IH" [OF True] by auto
    have "drop_bit (bits - 8) buffer AND 0xff = take_bit 8 (drop_bit (bits - 8) buffer)"
      by (simp add: take_bit_eq_mask mask_eq_exp_minus_1)
    then have "bits_be 8 ?b = bits_be 8 (drop_bit (bits - 8) buffer)"
      by (auto simp: bits_be_def bit_simps)
    moreover have "bits_be bits buffer = bits_be 8 (drop_bit (bits - 8) buffer) @ bits_be (bits - 8) buffer"
      using bits_be_add [of 8 "bits - 8" buffer] True by simp
    ultimately show ?thesis
      using IH out by simp
  qed (use "1.prems" in \<open>simp add: dec32_emit.simps\<close>)
qed

lemma bits_be_push_sym:
  assumes "bits \<le> 8" and "v < 32"
  shows "bits_be (bits + 5) (push_bit 5 (buffer :: u32) OR of_nat v) = bits_be bits buffer @ bits_be 5 v"
proof -
  have high: "\<not> bit v n" if "5 \<le> n" for n
  proof -
    have "(32 :: nat) \<le> 2 ^ n"
      using power_increasing [OF that, of "2 :: nat"] by simp
    then have "v < 2 ^ n"
      using assms(2) by simp
    then show ?thesis
      by (simp add: bit_iff_odd)
  qed
  have "bits_be bits (drop_bit 5 (push_bit 5 buffer OR of_nat v)) = bits_be bits buffer"
    using assms(1) high by (intro bits_be_cong) (auto simp: bit_simps dest: bit_imp_le_length)
  moreover have "bits_be 5 (push_bit 5 buffer OR of_nat v) = bits_be 5 v"
    unfolding bits_be_def by (auto simp: bit_simps)
  ultimately show ?thesis
    by (simp add: bits_be_add)
qed

lemma dec32_loop_bits:
  "b32_syms cs \<Longrightarrow> bits < 8 \<Longrightarrow> \<exists>out left.
     dec32_loop (map unat cs) index buffer bits = Ok out \<and> length left < 8 \<and>
     bytes_bits out @ left = bits_be bits buffer @ syms_bits cs"
proof (induction cs arbitrary: index buffer bits)
  case (Cons c cs)
  then obtain v where v: "v < 32" "base32_value (unat c) = Some v"
    by auto
  let ?buffer = "push_bit 5 buffer OR of_nat v"
  obtain o1 n1 where e: "dec32_emit ?buffer (bits + 5) = (o1, n1)"
    by fastforce
  have o1: "bytes_bits o1 @ bits_be n1 ?buffer = bits_be bits buffer @ sym_bits c" "n1 < 8"
    using dec32_emit_bits [OF e] bits_be_push_sym [of bits v buffer] Cons.prems(2) v
    by (auto simp: sym_bits_def)
  obtain o2 left where o2: "dec32_loop (map unat cs) (index + 1) ?buffer n1 = Ok o2"
    "length left < 8" "bytes_bits o2 @ left = bits_be n1 ?buffer @ syms_bits cs"
    using Cons.IH [OF _ o1(2)] Cons.prems(1) by auto blast
  have "dec32_loop (map unat (c # cs)) index buffer bits = Ok (o1 @ o2)"
    using v e o2(1) by (simp add: Let_def)
  moreover have "bytes_bits (o1 @ o2) @ left = bits_be bits buffer @ syms_bits (c # cs)"
  proof -
    have "bytes_bits (o1 @ o2) @ left = bytes_bits o1 @ (bytes_bits o2 @ left)"
      by simp
    also have "\<dots> = (bytes_bits o1 @ bits_be n1 ?buffer) @ syms_bits cs"
      using o2(3) by simp
    finally show ?thesis
      using o1(1) by simp
  qed
  ultimately show ?case
    using o2(2) by blast
qed simp

lemma decode_encode_base32:
  "decode_base32_nopad (encode_base32_nopad_lower bs) = Ok bs"
proof -
  let ?cs = "encode_base32_nopad_lower bs"
  obtain pad where pad: "length pad < 5" "b32_syms ?cs" "syms_bits ?cs = bytes_bits bs @ pad"
    using encode_base32_bits by blast
  then have "chars ?cs = map unat ?cs"
    by (intro chars_ascii) (auto simp: b32_syms_def ascii_def)
  moreover obtain out left where out: "dec32_loop (map unat ?cs) 0 0 0 = Ok out" "length left < 8"
    "bytes_bits out @ left = bytes_bits bs @ pad"
    using dec32_loop_bits [OF pad(2), of 0 0 0] pad(3) by auto
  have "8 * length out + length left = 8 * length bs + length pad"
    using arg_cong [OF out(3), of length] by simp
  then have "length out = length bs"
    using out(2) pad(1) by linarith
  then have "out = bs"
    using out(3) by (intro bytes_bits_inject) auto
  ultimately show ?thesis
    using out(1) by (cases "?cs = []") (auto simp: decode_base32_nopad_def)
qed

section \<open>Properties\<close>

text \<open>
  Both textual encodings lose nothing: decoding the base-58 form of a non-empty byte string,
  leading zeros included, and the unpadded base-32 form of any byte string gives the bytes back.
\<close>

theorem base_encodings_roundtrip:
  "(bs \<noteq> [] \<longrightarrow> decode_base58 (encode_base58 bs) = Ok bs) \<and>
   decode_base32_nopad (encode_base32_nopad_lower bs) = Ok bs"
  by (simp add: decode_encode_base58 decode_encode_base32)

end
