(* ===== verification/PeerId.thy ===== *)
theory PeerId
  imports BaseEnc
begin

text \<open>
  Peer identity, \<open>crates/identity/src/peer_id.rs\<close> and \<open>key.rs\<close>: the public-key protobuf, peer ids
  derived from it, and their text forms (base58btc and CIDv1).

  The multihash container comes from the \<open>multihash\<close> crate and SHA-256 from \<open>sha2\<close>.  They are
  parameters: a record of the operations the code calls, and a hash function.  \<open>multihash_laws\<close>
  states the documented behaviour of \<open>Multihash<64>\<close> that the code relies on.
\<close>

section \<open>Public keys\<close>

datatype key_type = Rsa | Ed25519 | Secp256k1 | Ecdsa

datatype public_key_error =
    PkEmptyInput
  | InvalidFieldTag byte "byte option"
  | PkVarint varint_error
  | UnknownKeyType u64
  | LengthOverflow
  | InvalidLength nat nat

record public_key =
  key_type :: key_type
  key_data :: bytes

fun key_type_code :: "key_type \<Rightarrow> u64" where
  "key_type_code Rsa = 0"
| "key_type_code Ed25519 = 1"
| "key_type_code Secp256k1 = 2"
| "key_type_code Ecdsa = 3"

definition key_type_try_from :: "u64 \<Rightarrow> public_key_error + key_type" where
  "key_type_try_from v =
     (if v = 0 then Ok Rsa
      else if v = 1 then Ok Ed25519
      else if v = 2 then Ok Secp256k1
      else if v = 3 then Ok Ecdsa
      else Err (UnknownKeyType v))"

definition encode_protobuf :: "public_key \<Rightarrow> bytes" where
  "encode_protobuf k =
     (let out = [0x08];
          out = write_uvarint (key_type_code (key_type k)) out;
          out = out @ [0x12];
          out = write_uvarint (of_nat (length (key_data k))) out
      in out @ key_data k)"

text \<open>
  The comparison of the total length is done in \<open>usize\<close>; the sum wraps around as it does in a
  release build (a build with overflow checks panics there instead).
\<close>

definition decode_protobuf :: "bytes \<Rightarrow> public_key_error + public_key" where
  "decode_protobuf input =
     (if input = [] then Err PkEmptyInput
      else if slice_get input 0 \<noteq> Some 0x08
      then Err (InvalidFieldTag 0x08 (slice_get input 0))
      else
        and_then (map_err PkVarint (read_uvarint (drop 1 input))) (\<lambda>(key_type_raw, used).
        let idx = 1 + used
        in and_then (key_type_try_from key_type_raw) (\<lambda>kt.
           if slice_get input idx \<noteq> Some 0x12
           then Err (InvalidFieldTag 0x12 (slice_get input idx))
           else
             let idx = idx + 1
             in and_then (map_err PkVarint (read_uvarint (drop idx input))) (\<lambda>(data_len, used).
                let idx = idx + used;
                    total = (idx + unat data_len) mod 2 ^ 64
                in if total \<noteq> length input then Err (InvalidLength total (length input))
                   else Ok \<lparr>key_type = kt, key_data = drop idx input\<rparr>))))"

lemma key_type_try_from_code [simp]: "key_type_try_from (key_type_code t) = Ok t"
  by (cases t) (simp_all add: key_type_try_from_def)

lemma key_type_try_from_Ok: "key_type_try_from v = Ok t \<longleftrightarrow> v = key_type_code t"
  by (cases t) (auto simp: key_type_try_from_def split: if_splits)

lemma encode_protobuf_eq:
  "encode_protobuf k = 0x08 # uvarint (key_type_code (key_type k)) @ 0x12 #
     uvarint (of_nat (length (key_data k))) @ key_data k"
  by (simp add: encode_protobuf_def Let_def write_uvarint_app)

lemma decode_protobuf_fields:
  assumes "input = 0x08 # uvarint (key_type_code t) @ 0x12 # uvarint n @ d"
  shows "decode_protobuf input =
    (let total = (2 + uvarint_len (key_type_code t) + uvarint_len n + unat n) mod 2 ^ 64
     in if total \<noteq> length input then Err (InvalidLength total (length input))
        else Ok \<lparr>key_type = t, key_data = d\<rparr>)"
proof -
  let ?t = "uvarint_len (key_type_code t)"
  have in0: "input \<noteq> []" "slice_get input 0 = Some 0x08"
    using assms by simp_all
  have in1: "drop (Suc 0) input = uvarint (key_type_code t) @ 0x12 # uvarint n @ d"
    using assms by simp
  have in2: "drop (Suc ?t) input = 0x12 # uvarint n @ d"
    using drop_past [OF in1] by simp
  have in2': "slice_get input (Suc ?t) = Some 0x12"
    by (simp add: slice_get_drop in2)
  have in3: "drop (Suc (Suc ?t)) input = uvarint n @ d"
    by (rule drop_past_Cons [OF in2])
  have in4: "drop (Suc (Suc (?t + uvarint_len n))) input = d"
    using drop_past [OF in3] by simp
  show ?thesis
    by (simp add: decode_protobuf_def in0 in1 in2' in3 in4 read_uvarint_write Let_def)
qed

lemma decode_encode_protobuf:
  assumes "vec_ok (encode_protobuf k)"
  shows "decode_protobuf (encode_protobuf k) = Ok k"
proof -
  have "vec_ok (key_data k)"
    using assms by (simp add: encode_protobuf_eq vec_ok_def)
  moreover have "length (encode_protobuf k) < 2 ^ 63"
    using assms by (simp add: vec_ok_def)
  ultimately show ?thesis
    by (subst decode_protobuf_fields [OF encode_protobuf_eq])
      (simp add: encode_protobuf_eq Let_def)
qed

lemma slice_get_Some: "slice_get xs i = Some x \<Longrightarrow> drop i xs = x # drop (Suc i) xs"
  by (auto simp: slice_get_def Cons_nth_drop_Suc split: if_splits)

lemma decode_protobuf_Ok:
  assumes ok: "decode_protobuf input = Ok k" and vec: "vec_ok input"
  shows "input = encode_protobuf k"
proof -
  obtain kt used n used' where
      h: "slice_get input 0 = Some 0x08"
    and r1: "read_uvarint (drop 1 input) = Ok (key_type_code kt, used)"
    and h2: "slice_get input (1 + used) = Some 0x12"
    and r2: "read_uvarint (drop (1 + used + 1) input) = Ok (n, used')"
    and total: "(1 + used + 1 + used' + unat n) mod 2 ^ 64 = length input"
    and k: "k = \<lparr>key_type = kt, key_data = drop (1 + used + 1 + used') input\<rparr>"
    using ok unfolding decode_protobuf_def
    by (auto simp: and_then_eq_Inr Let_def key_type_try_from_Ok split: if_splits)
  let ?d = "drop (1 + used + 1 + used') input"
  have i3: "drop (1 + used + 1) input = uvarint n @ ?d"
    using read_uvarint_take [OF r2] by (simp add: ac_simps)
  have i2: "drop (1 + used) input = 0x12 # uvarint n @ ?d"
    using slice_get_Some [OF h2] i3 by simp
  have i1: "drop 1 input = uvarint (key_type_code kt) @ 0x12 # uvarint n @ ?d"
    using read_uvarint_take [OF r1] i2 by simp
  have i0: "input = 0x08 # uvarint (key_type_code kt) @ 0x12 # uvarint n @ ?d"
    using slice_get_Some [OF h] i1 by simp
  have len: "1 + used + 1 + used' \<le> length input"
    using arg_cong [OF i0, of length] read_uvarint_Ok(1) [OF r1] read_uvarint_Ok(1) [OF r2]
    by simp
  have "unat n < 2 ^ 64"
    using unsigned_less [of n, where 'a = nat] by simp
  then have "1 + used + 1 + used' + unat n = length input"
    using vec by (intro wrap_add_exact [OF total len]) (simp_all add: vec_ok_def)
  then have "unat n = length ?d"
    by simp
  then have "n = of_nat (length ?d)"
    by (rule unat_eq_of_nat)
  then show ?thesis
    using i0 by (simp add: k encode_protobuf_eq)
qed

section \<open>Peer ids\<close>

record 'mh multihash_api =
  mh_wrap :: "u64 \<Rightarrow> bytes \<Rightarrow> rstr + 'mh"
  mh_from_bytes :: "bytes \<Rightarrow> rstr + 'mh"
  mh_to_bytes :: "'mh \<Rightarrow> bytes"
  mh_code :: "'mh \<Rightarrow> u64"
  mh_digest :: "'mh \<Rightarrow> bytes"

text \<open>
  The documented behaviour of \<open>Multihash<64>\<close>: a value holds a code and at most 64 digest bytes,
  \<open>wrap\<close> accepts exactly such digests, the wire form is code, length and digest, and parsing the
  wire form gives the value back.
\<close>

definition PEER_ID_MULTIHASH_SIZE :: nat where
  "PEER_ID_MULTIHASH_SIZE = 64"

definition multihash_laws :: "'mh multihash_api \<Rightarrow> bool" where
  "multihash_laws M \<longleftrightarrow>
     (\<forall>m. length (mh_digest M m) \<le> PEER_ID_MULTIHASH_SIZE) \<and>
     (\<forall>code digest. length digest \<le> PEER_ID_MULTIHASH_SIZE \<longrightarrow>
        (\<exists>m. mh_wrap M code digest = Ok m \<and> mh_code M m = code \<and> mh_digest M m = digest)) \<and>
     (\<forall>m. mh_to_bytes M m =
        uvarint (mh_code M m) @ uvarint (of_nat (length (mh_digest M m))) @ mh_digest M m) \<and>
     (\<forall>m. mh_from_bytes M (mh_to_bytes M m) = Ok m)"

definition IDENTITY_MULTIHASH_CODE :: u64 where
  "IDENTITY_MULTIHASH_CODE = 0x00"

definition SHA256_MULTIHASH_CODE :: u64 where
  "SHA256_MULTIHASH_CODE = 0x12"

definition LIBP2P_KEY_MULTICODEC :: u64 where
  "LIBP2P_KEY_MULTICODEC = 0x72"

definition MAX_INLINE_KEY_LENGTH :: nat where
  "MAX_INLINE_KEY_LENGTH = 42"

datatype 'mh peer_id = PeerId (multihash: 'mh)

text \<open>\<open>None\<close> is the panic of the \<open>expect\<close>.\<close>

definition build_multihash :: "'mh multihash_api \<Rightarrow> u64 \<Rightarrow> bytes \<Rightarrow> 'mh option" where
  "build_multihash M code digest = result_ok (mh_wrap M code digest)"

definition from_public_key_protobuf ::
  "'mh multihash_api \<Rightarrow> (bytes \<Rightarrow> bytes) \<Rightarrow> bytes \<Rightarrow> 'mh peer_id option" where
  "from_public_key_protobuf M sha256 encoded =
     map_option PeerId
       (if length encoded \<le> MAX_INLINE_KEY_LENGTH
        then build_multihash M IDENTITY_MULTIHASH_CODE encoded
        else build_multihash M SHA256_MULTIHASH_CODE (sha256 encoded))"

definition from_public_key ::
  "'mh multihash_api \<Rightarrow> (bytes \<Rightarrow> bytes) \<Rightarrow> public_key \<Rightarrow> 'mh peer_id option" where
  "from_public_key M sha256 k = from_public_key_protobuf M sha256 (encode_protobuf k)"

definition validate_multihash :: "'mh multihash_api \<Rightarrow> 'mh \<Rightarrow> peer_id_error + unit" where
  "validate_multihash M m =
     (let digest_len = length (mh_digest M m)
      in if mh_code M m = SHA256_MULTIHASH_CODE \<and> digest_len \<noteq> 32
         then Err (InvalidSha256DigestLength digest_len)
         else Ok ())"

definition from_multihash :: "'mh multihash_api \<Rightarrow> 'mh \<Rightarrow> peer_id_error + 'mh peer_id" where
  "from_multihash M m = and_then (validate_multihash M m) (\<lambda>_. Ok (PeerId m))"

definition peer_id_from_bytes :: "'mh multihash_api \<Rightarrow> bytes \<Rightarrow> peer_id_error + 'mh peer_id" where
  "peer_id_from_bytes M bs =
     and_then (map_err InvalidMultihash (mh_from_bytes M bs)) (from_multihash M)"

definition peer_id_to_bytes :: "'mh multihash_api \<Rightarrow> 'mh peer_id \<Rightarrow> bytes" where
  "peer_id_to_bytes M p = mh_to_bytes M (multihash p)"

definition to_base58 :: "'mh multihash_api \<Rightarrow> 'mh peer_id \<Rightarrow> rstr" where
  "to_base58 M p = encode_base58 (peer_id_to_bytes M p)"

definition to_cid_base32 :: "'mh multihash_api \<Rightarrow> 'mh peer_id \<Rightarrow> rstr" where
  "to_cid_base32 M p =
     (let cid = write_uvarint 1 [];
          cid = write_uvarint LIBP2P_KEY_MULTICODEC cid;
          cid = cid @ peer_id_to_bytes M p
      in lit ''b'' @ encode_base32_nopad_lower cid)"

definition from_base58 :: "'mh multihash_api \<Rightarrow> rstr \<Rightarrow> peer_id_error + 'mh peer_id" where
  "from_base58 M input = and_then (decode_base58 input) (peer_id_from_bytes M)"

text \<open>
  The first character is the multibase prefix; \<open>chars.as_str()\<close> is the text after it.  A character
  takes as many bytes as its leading byte says.
\<close>

definition first_char_len :: "rstr \<Rightarrow> nat" where
  "first_char_len s = (case s of [] \<Rightarrow> 0 | a # _ \<Rightarrow>
     if a < 0x80 then 1 else if a < 0xE0 then 2 else if a < 0xF0 then 3 else 4)"

definition cid_payload :: "rchar \<Rightarrow> rstr \<Rightarrow> peer_id_error + bytes" where
  "cid_payload prefix payload =
     (if prefix = unat (of_char CHR ''b'' :: byte) \<or> prefix = unat (of_char CHR ''B'' :: byte)
      then decode_base32_nopad payload
      else if prefix = unat (of_char CHR ''z'' :: byte) then decode_base58 payload
      else Err (UnsupportedMultibase prefix))"

definition from_cid :: "'mh multihash_api \<Rightarrow> rstr \<Rightarrow> peer_id_error + 'mh peer_id" where
  "from_cid M input =
     (case chars input of
        [] \<Rightarrow> Err EmptyInput
      | prefix # _ \<Rightarrow>
          and_then (cid_payload prefix (drop (first_char_len input) input)) (\<lambda>cid.
          and_then (map_err InvalidCidVersionVarint (read_uvarint cid)) (\<lambda>(version, version_len).
          if version \<noteq> 1 then Err (UnsupportedCidVersion version)
          else
            and_then (map_err InvalidCidMulticodecVarint (read_uvarint (drop version_len cid)))
              (\<lambda>(codec, codec_len).
               if codec \<noteq> LIBP2P_KEY_MULTICODEC then Err (UnsupportedMulticodec codec)
               else peer_id_from_bytes M (drop (version_len + codec_len) cid)))))"

definition peer_id_from_str :: "'mh multihash_api \<Rightarrow> rstr \<Rightarrow> peer_id_error + 'mh peer_id" where
  "peer_id_from_str M s =
     (if starts_with s (lit ''1'') \<or> starts_with s (lit ''Qm'') then from_base58 M s
      else from_cid M s)"

text \<open>The error messages, which other components embed in their own.\<close>

fun show_varint_error :: "varint_error \<Rightarrow> rstr" where
  "show_varint_error BufferTooShort = lit ''buffer ended before varint terminated''"
| "show_varint_error Overflow = lit ''varint overflows u64''"
| "show_varint_error NonCanonical = lit ''varint is not minimally encoded''"

definition quote :: rstr where
  "quote = [0x27]"

fun show_peer_id_error :: "peer_id_error \<Rightarrow> rstr" where
  "show_peer_id_error EmptyInput = lit ''peer id input is empty''"
| "show_peer_id_error (UnsupportedMultibase c) =
     lit ''unsupported multibase prefix '' @ quote @ encode_utf8 c @ quote @
     lit '' (supported: b/B for base32, z for base58btc)''"
| "show_peer_id_error (UnsupportedCidVersion v) =
     lit ''unsupported cid version '' @ show_nat (unat v) @ lit ''; expected v1''"
| "show_peer_id_error (UnsupportedMulticodec v) =
     lit ''unsupported multicodec 0x'' @ show_hex (unat v) @ lit ''; expected libp2p-key (0x72)''"
| "show_peer_id_error (InvalidSha256DigestLength n) =
     lit ''invalid sha2-256 digest length: expected 32, got '' @ show_nat n"
| "show_peer_id_error (InvalidBase58Character c i) =
     lit ''invalid base58btc character '' @ quote @ encode_utf8 c @ quote @
     lit '' at index '' @ show_nat i"
| "show_peer_id_error (InvalidBase32Character c i) =
     lit ''invalid base32 character '' @ quote @ encode_utf8 c @ quote @
     lit '' at index '' @ show_nat i"
| "show_peer_id_error (InvalidCidVersionVarint e) =
     lit ''invalid cid version varint: '' @ show_varint_error e"
| "show_peer_id_error (InvalidCidMulticodecVarint e) =
     lit ''invalid cid multicodec varint: '' @ show_varint_error e"
| "show_peer_id_error (InvalidMultihash s) = lit ''invalid multihash: '' @ s"

text \<open>What every constructor of a peer id guarantees.\<close>

definition peer_id_ok :: "'mh multihash_api \<Rightarrow> 'mh peer_id \<Rightarrow> bool" where
  "peer_id_ok M p \<longleftrightarrow>
     (mh_code M (multihash p) = SHA256_MULTIHASH_CODE \<longrightarrow> length (mh_digest M (multihash p)) = 32)"

subsection \<open>Bytes\<close>

lemma from_multihash_Ok [simp]: "from_multihash M m = Ok p \<longleftrightarrow> p = PeerId m \<and> peer_id_ok M p"
  by (auto simp: from_multihash_def validate_multihash_def peer_id_ok_def Let_def)

lemma peer_id_from_bytes_ok: "peer_id_from_bytes M bs = Ok p \<Longrightarrow> peer_id_ok M p"
  by (auto simp: peer_id_from_bytes_def and_then_eq_Inr)

lemma multihash_to_bytes:
  "multihash_laws M \<Longrightarrow> peer_id_to_bytes M p =
     uvarint (mh_code M (multihash p)) @
     uvarint (of_nat (length (mh_digest M (multihash p)))) @ mh_digest M (multihash p)"
  by (simp add: multihash_laws_def peer_id_to_bytes_def)

lemma peer_id_to_bytes_not_Nil: "multihash_laws M \<Longrightarrow> peer_id_to_bytes M p \<noteq> []"
  by (simp add: multihash_to_bytes)

lemma from_bytes_to_bytes [codec]:
  assumes "multihash_laws M" and "peer_id_ok M p"
  shows "peer_id_from_bytes M (peer_id_to_bytes M p) = Ok p"
proof -
  have "mh_from_bytes M (peer_id_to_bytes M p) = Ok (multihash p)"
    using assms(1) unfolding multihash_laws_def peer_id_to_bytes_def by blast
  then show ?thesis
    using assms(2) by (simp add: peer_id_from_bytes_def)
qed

lemma from_base58_to_base58:
  "multihash_laws M \<Longrightarrow> peer_id_ok M p \<Longrightarrow> from_base58 M (to_base58 M p) = Ok p"
  by (simp add: from_base58_def to_base58_def decode_encode_base58 peer_id_to_bytes_not_Nil codec)

lemma from_cid_to_cid:
  assumes "multihash_laws M" and "peer_id_ok M p"
  shows "from_cid M (to_cid_base32 M p) = Ok p"
proof -
  let ?cid = "uvarint 1 @ uvarint LIBP2P_KEY_MULTICODEC @ peer_id_to_bytes M p"
  have tx: "to_cid_base32 M p = 0x62 # encode_base32_nopad_lower ?cid"
    by (simp add: to_cid_base32_def Let_def write_uvarint_app lit_def)
  have r1: "read_uvarint ?cid = Ok (1, uvarint_len 1)"
    by (rule read_uvarint_write)
  have r2: "read_uvarint (drop (uvarint_len 1) ?cid) =
      Ok (LIBP2P_KEY_MULTICODEC, uvarint_len LIBP2P_KEY_MULTICODEC)"
    using read_uvarint_write by simp
  show ?thesis
    unfolding tx from_cid_def
    using decode_encode_base32 [of ?cid] r1 r2 from_bytes_to_bytes [OF assms]
    by (simp add: first_char_len_def cid_payload_def)
qed

subsection \<open>\<open>Display\<close> and \<open>FromStr\<close>\<close>

lemma rev_digs_div:
  "2 \<le> b \<Longrightarrow> 0 < n div b ^ k \<Longrightarrow> \<exists>ds. rev (digs b n) = rev (digs b (n div b ^ k)) @ ds"
proof (induction k)
  case (Suc k)
  let ?m = "n div b ^ k"
  have q: "n div b ^ Suc k = ?m div b"
    by (simp add: div_mult2_eq power_Suc2 del: power_Suc)
  then have "0 < ?m"
    using Suc.prems by (metis div_0 gr0I less_irrefl)
  then obtain ds where "rev (digs b n) = rev (digs b ?m) @ ds"
    using Suc by blast
  moreover have "rev (digs b ?m) = rev (digs b (n div b ^ Suc k)) @ [?m mod b]"
    using \<open>0 < ?m\<close> Suc.prems(1) q by (subst digs_rec) simp_all
  ultimately show ?case
    by simp
qed simp

lemma be_value_Cons: "be_value b (d # ds) = d * b ^ length ds + be_value b ds"
proof (induction ds rule: rev_induct)
  case (snoc x ds)
  have "be_value b (d # ds @ [x]) = be_value b (d # ds) * b + x"
    using be_value_snoc [of b "d # ds" x] by simp
  then show ?case
    using snoc by (simp add: algebra_simps)
qed (simp add: be_value_def)

lemma be_value_less: "\<forall>d \<in> set ds. d < b \<Longrightarrow> be_value b ds < b ^ length ds"
proof (induction ds)
  case (Cons d ds)
  have "d * b ^ length ds + be_value b ds < Suc d * b ^ length ds"
    using Cons by simp
  also have "\<dots> \<le> b * b ^ length ds"
    using Cons.prems by (intro mult_right_mono) simp_all
  finally show ?case
    by (simp add: be_value_Cons)
qed simp

text \<open>The text form of a SHA-256 multihash starts with \<open>Qm\<close>, that of an identity one with \<open>1\<close>.\<close>

lemma base58_sha256_prefix:
  assumes "length d = 32"
  shows "starts_with (encode_base58 (0x12 # 0x20 # d)) (lit ''Qm'')"
proof -
  let ?n = "be_value 256 (map unat ((0x12 :: byte) # 0x20 # d))"
  have "be_value 256 (map unat d) < 256 ^ 32"
    using be_value_less [of "map unat d" 256] assms unat_byte_less by auto
  moreover have "?n = 0x1220 * 256 ^ 32 + be_value 256 (map unat d)"
    using assms by (simp add: be_value_Cons)
  ultimately have q: "?n div 58 ^ 44 = 1378"
    by (intro div_nat_eqI) simp_all
  have "digs 58 1378 = [44, 23]"
    by (simp add: digs.simps [of 58])
  then obtain ds where "rev (digs 58 ?n) = [23, 44] @ ds"
    using rev_digs_div [of 58 ?n 44] q by auto
  then have "encode_base58 (0x12 # 0x20 # d) = BASE58_ALPHABET ! 23 # BASE58_ALPHABET ! 44 #
      map (\<lambda>d. BASE58_ALPHABET ! d) ds"
    by (subst encode_base58_digits) simp_all
  then show ?thesis
    by (simp add: starts_with_def BASE58_ALPHABET_eq lit_def)
qed

lemma base58_identity_prefix: "starts_with (encode_base58 (0 # bs)) (lit ''1'')"
  by (subst encode_base58_digits) (simp_all add: starts_with_def lit_def)

lemma from_str_to_base58:
  assumes laws: "multihash_laws M" and ok: "peer_id_ok M p"
    and code: "mh_code M (multihash p) \<in> {IDENTITY_MULTIHASH_CODE, SHA256_MULTIHASH_CODE}"
  shows "peer_id_from_str M (to_base58 M p) = Ok p"
proof -
  let ?d = "mh_digest M (multihash p)"
  consider "mh_code M (multihash p) = 0" | "mh_code M (multihash p) = 0x12" "length ?d = 32"
    using code ok by (auto simp: peer_id_ok_def IDENTITY_MULTIHASH_CODE_def SHA256_MULTIHASH_CODE_def)
  then have "starts_with (to_base58 M p) (lit ''1'') \<or> starts_with (to_base58 M p) (lit ''Qm'')"
  proof cases
    case 1
    then show ?thesis
      by (simp add: to_base58_def multihash_to_bytes [OF laws] uvarint_rec [of 0] base58_identity_prefix)
  next
    case 2
    then show ?thesis
      using base58_sha256_prefix [of ?d]
      by (simp add: to_base58_def multihash_to_bytes [OF laws] uvarint_rec [of 18] uvarint_rec [of 32])
  qed
  then show ?thesis
    by (auto simp: peer_id_from_str_def from_base58_to_base58 [OF laws ok])
qed

lemma from_public_key_Some:
  assumes laws: "multihash_laws M" and sha: "\<And>x. length (sha256 x) = 32"
  obtains p where "from_public_key M sha256 k = Some p" "peer_id_ok M p"
    "mh_code M (multihash p) \<in> {IDENTITY_MULTIHASH_CODE, SHA256_MULTIHASH_CODE}"
    "mh_digest M (multihash p) =
       (if length (encode_protobuf k) \<le> 42 then encode_protobuf k else sha256 (encode_protobuf k))"
proof -
  have wrap: "\<exists>m. mh_wrap M code digest = Ok m \<and> mh_code M m = code \<and> mh_digest M m = digest"
    if "length digest \<le> 64" for code digest
    using laws that by (simp add: multihash_laws_def PEER_ID_MULTIHASH_SIZE_def)
  show ?thesis
  proof (cases "length (encode_protobuf k) \<le> 42")
    case True
    with wrap [of "encode_protobuf k" IDENTITY_MULTIHASH_CODE] obtain m where
      "mh_wrap M IDENTITY_MULTIHASH_CODE (encode_protobuf k) = Ok m"
      "mh_code M m = IDENTITY_MULTIHASH_CODE" "mh_digest M m = encode_protobuf k"
      by auto
    then show ?thesis
      using True by (intro that [of "PeerId m"])
        (simp_all add: from_public_key_def from_public_key_protobuf_def build_multihash_def
          MAX_INLINE_KEY_LENGTH_def peer_id_ok_def IDENTITY_MULTIHASH_CODE_def SHA256_MULTIHASH_CODE_def)
  next
    case False
    with wrap [of "sha256 (encode_protobuf k)" SHA256_MULTIHASH_CODE] obtain m where
      "mh_wrap M SHA256_MULTIHASH_CODE (sha256 (encode_protobuf k)) = Ok m"
      "mh_code M m = SHA256_MULTIHASH_CODE" "mh_digest M m = sha256 (encode_protobuf k)"
      by (auto simp: sha)
    then show ?thesis
      using False by (intro that [of "PeerId m"])
        (simp_all add: from_public_key_def from_public_key_protobuf_def build_multihash_def
          MAX_INLINE_KEY_LENGTH_def peer_id_ok_def sha)
  qed
qed

section \<open>A concrete multihash container\<close>

text \<open>The laws can hold: a code and at most 64 bytes, with the wire form read back by its fields.\<close>

typedef mh64 = "{(code :: u64, digest :: bytes). length digest \<le> 64}"
  by (rule exI [of _ "(0, [])"]) simp

definition mh64_wrap :: "u64 \<Rightarrow> bytes \<Rightarrow> rstr + mh64" where
  "mh64_wrap code digest =
     (if length digest \<le> 64 then Ok (Abs_mh64 (code, digest)) else Err (lit ''invalid size''))"

definition mh64_from_bytes :: "bytes \<Rightarrow> rstr + mh64" where
  "mh64_from_bytes bs =
     (case read_uvarint bs of
        Inl _ \<Rightarrow> Err (lit ''varint'')
      | Inr (code, used) \<Rightarrow>
          case read_uvarint (drop used bs) of
            Inl _ \<Rightarrow> Err (lit ''varint'')
          | Inr (size', used') \<Rightarrow>
              if length (drop (used + used') bs) = unat size'
              then mh64_wrap code (drop (used + used') bs)
              else Err (lit ''invalid size''))"

definition mh64_api :: "mh64 multihash_api" where
  "mh64_api = \<lparr>mh_wrap = mh64_wrap, mh_from_bytes = mh64_from_bytes,
     mh_to_bytes = (\<lambda>m. uvarint (fst (Rep_mh64 m)) @ uvarint (of_nat (length (snd (Rep_mh64 m)))) @
       snd (Rep_mh64 m)),
     mh_code = (\<lambda>m. fst (Rep_mh64 m)), mh_digest = (\<lambda>m. snd (Rep_mh64 m))\<rparr>"

lemma mh64_digest: "length (snd (Rep_mh64 m)) \<le> 64"
  using Rep_mh64 [of m] by auto

lemma mh64_rep: "length d \<le> 64 \<Longrightarrow> Rep_mh64 (Abs_mh64 (c, d)) = (c, d)"
  by (simp add: Abs_mh64_inverse)

lemma mh64_laws: "multihash_laws mh64_api"
proof -
  have "mh64_from_bytes (uvarint c @ uvarint (of_nat (length d)) @ d) = Ok m"
    if "Rep_mh64 m = (c, d)" for m c d
  proof -
    have d: "length d \<le> 64"
      using mh64_digest [of m] that by simp
    then have "unat (of_nat (length d) :: u64) = length d"
      by (intro unat_of_length) (simp add: vec_ok_def)
    moreover have "m = Abs_mh64 (c, d)"
      using that by (metis Rep_mh64_inverse)
    ultimately show ?thesis
      using d by (simp add: mh64_from_bytes_def mh64_wrap_def read_uvarint_write)
  qed
  then show ?thesis
    by (auto simp: multihash_laws_def mh64_api_def mh64_wrap_def mh64_digest mh64_rep
      PEER_ID_MULTIHASH_SIZE_def)
qed

section \<open>Properties\<close>

text \<open>
  C29. Key decoding is exact: on any buffer that can exist in memory, \<open>decode_protobuf\<close> returns a
  key exactly when the buffer is that key's protobuf encoding.  In particular the length
  comparison, whose sum may wrap, never lets a wrong length through.
\<close>

theorem decode_protobuf_exact:
  assumes "vec_ok input"
  shows "decode_protobuf input = Ok k \<longleftrightarrow> input = encode_protobuf k"
  using assms decode_encode_protobuf decode_protobuf_Ok by blast

theorem decode_protobuf_exact_witness:
  "decode_protobuf [0x08, 0x01, 0x12, 0x02, 0xaa, 0xbb] =
     Ok \<lparr>key_type = Ed25519, key_data = [0xaa, 0xbb]\<rparr>"
proof -
  have "encode_protobuf \<lparr>key_type = Ed25519, key_data = [0xaa, 0xbb]\<rparr> =
      [0x08, 0x01, 0x12, 0x02, 0xaa, 0xbb]"
    by (simp add: encode_protobuf_eq uvarint_rec [of 1] uvarint_rec [of 2])
  then show ?thesis
    by (subst decode_protobuf_exact) (simp_all add: vec_ok_def)
qed

text \<open>
  A peer id can be derived from every public key: the \<open>expect\<close> in \<open>build_multihash\<close> does not
  fail, keys of at most 42 encoded bytes are inlined and longer ones hashed, and the id survives
  both of its text forms: \<open>Display\<close> (base 58) and the base-32 CID parse back through \<open>FromStr\<close>
  and \<open>from_cid\<close>.
\<close>

theorem public_key_peer_id:
  assumes "multihash_laws M" and "\<forall>x. length (sha256 x) = 32"
  shows "\<exists>p. from_public_key M sha256 k = Some p \<and>
    mh_digest M (multihash p) =
      (if length (encode_protobuf k) \<le> MAX_INLINE_KEY_LENGTH then encode_protobuf k
       else sha256 (encode_protobuf k)) \<and>
    peer_id_from_str M (to_base58 M p) = Ok p \<and> from_cid M (to_cid_base32 M p) = Ok p"
proof -
  obtain p where "from_public_key M sha256 k = Some p" "peer_id_ok M p"
    "mh_code M (multihash p) \<in> {IDENTITY_MULTIHASH_CODE, SHA256_MULTIHASH_CODE}"
    "mh_digest M (multihash p) =
       (if length (encode_protobuf k) \<le> 42 then encode_protobuf k else sha256 (encode_protobuf k))"
    using from_public_key_Some [of M sha256 k] assms by blast
  then show ?thesis
    using from_str_to_base58 [OF assms(1), of p] from_cid_to_cid [OF assms(1), of p]
    by (intro exI [of _ p]) (simp add: MAX_INLINE_KEY_LENGTH_def)
qed

end
