(* ===== verification/Multiaddr.thy ===== *)
theory Multiaddr
  imports PeerId
begin

text \<open>
  Multiaddrs, \<open>crates/core/src/{protocol,multiaddr,peer_addr,candidates}.rs\<close>: address components and
  their binary multicodec form, sequences of components, validated peer addresses, and the choice of
  direct-connect candidates.  A fixed-size array is a list; \<open>protocol_ok\<close> is its length.
\<close>

section \<open>Components\<close>

datatype multiaddr_error =
    MaEmptyInput
  | MissingLeadingSlash
  | EmptyProtocol
  | MissingValue rstr
  | UnknownProtocol rstr
  | InvalidIp4 rstr
  | InvalidIp6 rstr
  | InvalidPort rstr
  | InvalidDnsName rstr
  | InvalidPeerId rstr peer_id_error
  | UnknownProtocolCode u64
  | TruncatedBinaryValue rstr
  | InvalidBinaryValue rstr rstr
  | MaVarint varint_error

datatype 'mh protocol =
    Ip4 bytes
  | Ip6 bytes
  | Dns rstr
  | Dns4 rstr
  | Dns6 rstr
  | Udp u16
  | QuicV1
  | P2p "'mh peer_id"

fun is_host :: "'mh protocol \<Rightarrow> bool" where
  "is_host (Ip4 _) = True"
| "is_host (Ip6 _) = True"
| "is_host (Dns _) = True"
| "is_host (Dns4 _) = True"
| "is_host (Dns6 _) = True"
| "is_host _ = False"

definition IP4_CODE :: u64 where "IP4_CODE = 0x04"
definition IP6_CODE :: u64 where "IP6_CODE = 0x29"
definition DNS_CODE :: u64 where "DNS_CODE = 0x35"
definition DNS4_CODE :: u64 where "DNS4_CODE = 0x36"
definition DNS6_CODE :: u64 where "DNS6_CODE = 0x37"
definition UDP_CODE :: u64 where "UDP_CODE = 0x0111"
definition QUIC_V1_CODE :: u64 where "QUIC_V1_CODE = 0x01cd"
definition P2P_CODE :: u64 where "P2P_CODE = 0x01a5"

lemmas protocol_codes = IP4_CODE_def IP6_CODE_def DNS_CODE_def DNS4_CODE_def DNS6_CODE_def UDP_CODE_def
  QUIC_V1_CODE_def P2P_CODE_def

fun protocol_code :: "'mh protocol \<Rightarrow> u64" where
  "protocol_code (Ip4 _) = IP4_CODE"
| "protocol_code (Ip6 _) = IP6_CODE"
| "protocol_code (Dns _) = DNS_CODE"
| "protocol_code (Dns4 _) = DNS4_CODE"
| "protocol_code (Dns6 _) = DNS6_CODE"
| "protocol_code (Udp _) = UDP_CODE"
| "protocol_code QuicV1 = QUIC_V1_CODE"
| "protocol_code (P2p _) = P2P_CODE"

definition u16_to_be_bytes :: "u16 \<Rightarrow> bytes" where
  "u16_to_be_bytes p = [ucast (drop_bit 8 p), ucast p]"

definition u16_from_be_bytes :: "bytes \<Rightarrow> u16" where
  "u16_from_be_bytes bs = push_bit 8 (ucast (bs ! 0)) OR ucast (bs ! 1)"

definition write_binary :: "'mh multihash_api \<Rightarrow> 'mh protocol \<Rightarrow> bytes \<Rightarrow> bytes" where
  "write_binary M p out =
     (let out = write_uvarint (protocol_code p) out
      in case p of
           Ip4 bs \<Rightarrow> out @ bs
         | Ip6 bs \<Rightarrow> out @ bs
         | Dns name \<Rightarrow> write_uvarint (of_nat (length name)) out @ name
         | Dns4 name \<Rightarrow> write_uvarint (of_nat (length name)) out @ name
         | Dns6 name \<Rightarrow> write_uvarint (of_nat (length name)) out @ name
         | Udp port \<Rightarrow> out @ u16_to_be_bytes port
         | QuicV1 \<Rightarrow> out
         | P2p peer_id \<Rightarrow>
             let body = peer_id_to_bytes M peer_id
             in write_uvarint (of_nat (length body)) out @ body)"

definition fixed :: "nat \<Rightarrow> bytes \<Rightarrow> rstr \<Rightarrow> multiaddr_error + bytes" where
  "fixed N bs protocol =
     (if length bs < N then Err (TruncatedBinaryValue protocol) else Ok (take N bs))"

definition length_prefixed :: "bytes \<Rightarrow> rstr \<Rightarrow> multiaddr_error + (bytes \<times> nat)" where
  "length_prefixed bs protocol =
     and_then (map_err MaVarint (read_uvarint bs)) (\<lambda>(len, consumed).
       let len = unat len;
           available = length bs - consumed
       in if available < len then Err (TruncatedBinaryValue protocol)
          else Ok (take len (drop consumed bs), consumed + len))"

definition read_binary_dns ::
  "rstr \<Rightarrow> (rstr \<Rightarrow> 'mh protocol) \<Rightarrow> bytes \<Rightarrow> nat \<Rightarrow> multiaddr_error + ('mh protocol \<times> nat)" where
  "read_binary_dns label mk rest consumed =
     and_then (length_prefixed rest label) (\<lambda>(body, used).
     and_then (map_err (\<lambda>e. InvalidBinaryValue label (show_utf8_error e)) (from_utf8 body)) (\<lambda>name.
     Ok (mk name, consumed + used)))"

definition read_binary :: "'mh multihash_api \<Rightarrow> bytes \<Rightarrow> multiaddr_error + ('mh protocol \<times> nat)" where
  "read_binary M bs =
     and_then (map_err MaVarint (read_uvarint bs)) (\<lambda>(code, consumed).
       let rest = drop consumed bs
       in if code = IP4_CODE
          then and_then (fixed 4 rest (lit ''ip4'')) (\<lambda>v. Ok (Ip4 v, consumed + 4))
          else if code = IP6_CODE
          then and_then (fixed 16 rest (lit ''ip6'')) (\<lambda>v. Ok (Ip6 v, consumed + 16))
          else if code = UDP_CODE
          then and_then (fixed 2 rest (lit ''udp'')) (\<lambda>v. Ok (Udp (u16_from_be_bytes v), consumed + 2))
          else if code = QUIC_V1_CODE then Ok (QuicV1, consumed)
          else if code = DNS_CODE then read_binary_dns (lit ''dns'') Dns rest consumed
          else if code = DNS4_CODE then read_binary_dns (lit ''dns4'') Dns4 rest consumed
          else if code = DNS6_CODE then read_binary_dns (lit ''dns6'') Dns6 rest consumed
          else if code = P2P_CODE
          then and_then (length_prefixed rest (lit ''p2p'')) (\<lambda>(body, used).
               and_then (map_err (\<lambda>e. InvalidBinaryValue (lit ''p2p'') (show_peer_id_error e))
                   (peer_id_from_bytes M body)) (\<lambda>peer_id.
               Ok (P2p peer_id, consumed + used)))
          else Err (UnknownProtocolCode code))"

section \<open>Addresses\<close>

datatype 'mh multiaddr = Multiaddr (protocols: "'mh protocol list")

definition has_quic_v1 :: "'mh multiaddr \<Rightarrow> bool" where
  "has_quic_v1 a = list_ex (\<lambda>p. p = QuicV1) (protocols a)"

fun find_peer_id :: "'mh protocol list \<Rightarrow> 'mh peer_id option" where
  "find_peer_id [] = None"
| "find_peer_id (P2p p # ps) = Some p"
| "find_peer_id (_ # ps) = find_peer_id ps"

definition multiaddr_peer_id :: "'mh multiaddr \<Rightarrow> 'mh peer_id option" where
  "multiaddr_peer_id a = find_peer_id (protocols a)"

definition encapsulate :: "'mh multiaddr \<Rightarrow> 'mh multiaddr \<Rightarrow> 'mh multiaddr" where
  "encapsulate a b = Multiaddr (protocols a @ protocols b)"

text \<open>The search over \<open>(0..=n).rev()\<close>.\<close>

fun decapsulate_loop :: "'mh protocol list \<Rightarrow> 'mh protocol list \<Rightarrow> nat \<Rightarrow> 'mh multiaddr option" where
  "decapsulate_loop ps suffix idx =
     (if take (length suffix) (drop idx ps) = suffix then Some (Multiaddr (take idx ps))
      else case idx of 0 \<Rightarrow> None | Suc idx' \<Rightarrow> decapsulate_loop ps suffix idx')"

declare decapsulate_loop.simps [simp del]

definition decapsulate :: "'mh multiaddr \<Rightarrow> 'mh multiaddr \<Rightarrow> 'mh multiaddr option" where
  "decapsulate a suffix =
     (if protocols suffix = [] then Some a
      else if length (protocols a) < length (protocols suffix) then None
      else decapsulate_loop (protocols a) (protocols suffix)
        (length (protocols a) - length (protocols suffix)))"

definition is_quic_transport_slice :: "'mh protocol list \<Rightarrow> bool" where
  "is_quic_transport_slice ps \<longleftrightarrow>
     length ps = 3 \<and> is_host (ps ! 0) \<and> (case ps ! 1 of Udp _ \<Rightarrow> True | _ \<Rightarrow> False) \<and>
     (case ps ! 2 of QuicV1 \<Rightarrow> True | _ \<Rightarrow> False)"

definition is_quic_transport :: "'mh multiaddr \<Rightarrow> bool" where
  "is_quic_transport a = is_quic_transport_slice (protocols a)"

definition multiaddr_to_bytes :: "'mh multihash_api \<Rightarrow> 'mh multiaddr \<Rightarrow> bytes" where
  "multiaddr_to_bytes M a = foldl (\<lambda>out p. write_binary M p out) [] (protocols a)"

lemma length_prefixed_Ok:
  assumes "length_prefixed bs l = Ok (body, used)"
  shows "0 < used" "used \<le> length bs"
    "bs = uvarint (of_nat (length body)) @ body @ drop used bs"
proof -
  obtain len c where r: "read_uvarint bs = Ok (len, c)" and le: "unat len \<le> length bs - c"
    and b: "body = take (unat len) (drop c bs)" "used = c + unat len"
    using assms by (auto simp: length_prefixed_def and_then_eq_Inr Let_def split: if_splits)
  note c = read_uvarint_Ok [OF r]
  show "0 < used" "used \<le> length bs"
    using c le b by simp_all
  have "unat len = length body"
    using le b by simp
  moreover have "drop c bs = body @ drop used bs"
    using drop_split [of c bs "unat len"] b by simp
  ultimately show "bs = uvarint (of_nat (length body)) @ body @ drop used bs"
    using read_uvarint_take [OF r] unat_eq_of_nat by metis
qed

lemma length_prefixed_write [codec]:
  "vec_ok body \<Longrightarrow> length_prefixed (uvarint (of_nat (length body)) @ body @ rest) l =
     Ok (body, uvarint_len (of_nat (length body)) + length body)"
  by (simp add: length_prefixed_def codec Let_def)

lemma read_binary_advance [advance]:
  assumes "read_binary M bs = Ok (p, n)"
  shows "0 < n" "n \<le> length bs"
proof -
  obtain code c where r: "read_uvarint bs = Ok (code, c)"
    using assms by (auto simp: read_binary_def and_then_eq_Inr)
  have "c \<le> n \<and> n \<le> length bs"
    using assms r read_uvarint_Ok(3) [OF r] unfolding read_binary_def read_binary_dns_def
    by (auto simp: and_then_eq_Inr fixed_def Let_def split: if_splits dest!: length_prefixed_Ok(2))
  then show "0 < n" "n \<le> length bs"
    using read_uvarint_Ok(4) [OF r] by simp_all
qed

text \<open>\<open>Multiaddr::from_bytes\<close>: the loop ends because every component takes at least one byte.\<close>

function multiaddr_from_bytes_loop ::
  "'mh multihash_api \<Rightarrow> bytes \<Rightarrow> nat \<Rightarrow> 'mh protocol list \<Rightarrow> multiaddr_error + 'mh multiaddr" where
  "multiaddr_from_bytes_loop M bs offset ps =
     (if offset < length bs
      then and_then (read_binary M (drop offset bs)) (\<lambda>(p, consumed).
             multiaddr_from_bytes_loop M bs (offset + consumed) (ps @ [p]))
      else Ok (Multiaddr ps))"
  by pat_completeness auto
termination
  by (relation "measure (\<lambda>(M, bs, offset, ps). length bs - offset)")
    (auto dest!: read_binary_advance(1))

declare multiaddr_from_bytes_loop.simps [simp del]

definition multiaddr_from_bytes :: "'mh multihash_api \<Rightarrow> bytes \<Rightarrow> multiaddr_error + 'mh multiaddr" where
  "multiaddr_from_bytes M bs = multiaddr_from_bytes_loop M bs 0 []"

section \<open>Peer addresses\<close>

datatype peer_addr_error =
    MultiaddrErr multiaddr_error
  | MissingPeerId
  | NonTerminalPeerId
  | TransportContainsPeerId
  | EmptyTransport

record 'mh peer_addr =
  pa_transport :: "'mh multiaddr"
  pa_peer_id :: "'mh peer_id"

fun is_p2p :: "'mh protocol \<Rightarrow> bool" where
  "is_p2p (P2p _) = True"
| "is_p2p _ = False"

definition peer_addr_new :: "'mh multiaddr \<Rightarrow> 'mh peer_id \<Rightarrow> peer_addr_error + 'mh peer_addr" where
  "peer_addr_new transport p =
     (if list_ex is_p2p (protocols transport) then Err TransportContainsPeerId
      else if protocols transport = [] then Err EmptyTransport
      else Ok \<lparr>pa_transport = transport, pa_peer_id = p\<rparr>)"

datatype ip_addr = V4 bytes | V6 bytes

definition peer_addr_quic_v1 :: "ip_addr \<Rightarrow> u16 \<Rightarrow> 'mh peer_id \<Rightarrow> 'mh peer_addr" where
  "peer_addr_quic_v1 ip udp_port p =
     (let host = (case ip of V4 octets \<Rightarrow> Ip4 octets | V6 octets \<Rightarrow> Ip6 octets)
      in \<lparr>pa_transport = Multiaddr [host, Udp udp_port, QuicV1], pa_peer_id = p\<rparr>)"

definition list_rposition :: "('a \<Rightarrow> bool) \<Rightarrow> 'a list \<Rightarrow> nat option" where
  "list_rposition P xs = map_option (\<lambda>i. length xs - 1 - i) (list_position P (rev xs))"

definition peer_addr_from_multiaddr :: "'mh multiaddr \<Rightarrow> peer_addr_error + 'mh peer_addr" where
  "peer_addr_from_multiaddr a =
     (let ps = protocols a
      in and_then (ok_or MissingPeerId (list_rposition is_p2p ps)) (\<lambda>last.
         if last \<noteq> length ps - 1 then Err NonTerminalPeerId
         else and_then (ok_or MissingPeerId (list_position is_p2p ps)) (\<lambda>first.
           if first \<noteq> last then Err NonTerminalPeerId
           else and_then (case ps ! last of P2p p \<Rightarrow> Ok p | _ \<Rightarrow> Err MissingPeerId) (\<lambda>p.
             let transport_slice = take last ps
             in if transport_slice = [] then Err EmptyTransport
                else Ok \<lparr>pa_transport = Multiaddr transport_slice, pa_peer_id = p\<rparr>))))"

definition peer_addr_to_multiaddr :: "'mh peer_addr \<Rightarrow> 'mh multiaddr" where
  "peer_addr_to_multiaddr pa = Multiaddr (protocols (pa_transport pa) @ [P2p (pa_peer_id pa)])"

section \<open>Direct-connect candidates\<close>

datatype direct_candidate_source = Manual | IdentifyObserved | Listen

datatype direct_candidate_reject_reason = WildcardBindAddress | NotQuicV1Transport | Duplicate

record 'mh direct_candidate =
  dc_source :: direct_candidate_source
  dc_addr :: "'mh multiaddr"

record 'mh direct_candidate_rejection =
  dr_source :: direct_candidate_source
  dr_addr :: "'mh multiaddr"
  dr_reason :: direct_candidate_reject_reason

record 'mh direct_candidate_selection =
  accepted :: "'mh direct_candidate list"
  rejected :: "'mh direct_candidate_rejection list"

definition into_addrs :: "'mh direct_candidate_selection \<Rightarrow> 'mh multiaddr list" where
  "into_addrs s = map dc_addr (accepted s)"

definition is_wildcard_addr :: "'mh multiaddr \<Rightarrow> bool" where
  "is_wildcard_addr a =
     (case protocols a of
        Ip4 bs # _ \<Rightarrow> bs = [0, 0, 0, 0]
      | Ip6 bs # _ \<Rightarrow> bs = replicate 16 0
      | _ \<Rightarrow> False)"

definition reject_candidate where
  "reject_candidate s src addr reason =
     s\<lparr>rejected := rejected s @ [\<lparr>dr_source = src, dr_addr = addr, dr_reason = reason\<rparr>]\<rparr>"

definition push_candidate ::
  "'mh direct_candidate_selection \<Rightarrow> direct_candidate_source \<Rightarrow> 'mh multiaddr \<Rightarrow>
     'mh direct_candidate_selection" where
  "push_candidate s src addr =
     (if is_wildcard_addr addr then reject_candidate s src addr WildcardBindAddress
      else if \<not> is_quic_transport addr then reject_candidate s src addr NotQuicV1Transport
      else if list_ex (\<lambda>c. dc_addr c = addr) (accepted s) then reject_candidate s src addr Duplicate
      else s\<lparr>accepted := accepted s @ [\<lparr>dc_source = src, dc_addr = addr\<rparr>]\<rparr>)"

definition select_direct_candidates ::
  "'mh multiaddr list \<Rightarrow> 'mh multiaddr option \<Rightarrow> 'mh multiaddr option \<Rightarrow>
     'mh direct_candidate_selection" where
  "select_direct_candidates manual identify_observed listen =
     (let s = \<lparr>accepted = [], rejected = []\<rparr>;
          s = foldl (\<lambda>s addr. push_candidate s Manual addr) s manual;
          s = (case identify_observed of None \<Rightarrow> s | Some a \<Rightarrow> push_candidate s IdentifyObserved a)
      in case listen of None \<Rightarrow> s | Some a \<Rightarrow> push_candidate s Listen a)"

section \<open>The binary form\<close>

text \<open>The values Rust's types admit: array lengths, UTF-8 strings, validated peer ids.\<close>

fun protocol_ok :: "'mh multihash_api \<Rightarrow> 'mh protocol \<Rightarrow> bool" where
  "protocol_ok M (Ip4 bs) \<longleftrightarrow> length bs = 4"
| "protocol_ok M (Ip6 bs) \<longleftrightarrow> length bs = 16"
| "protocol_ok M (Dns name) \<longleftrightarrow> utf8_ok name \<and> vec_ok name"
| "protocol_ok M (Dns4 name) \<longleftrightarrow> utf8_ok name \<and> vec_ok name"
| "protocol_ok M (Dns6 name) \<longleftrightarrow> utf8_ok name \<and> vec_ok name"
| "protocol_ok M (P2p p) \<longleftrightarrow> peer_id_ok M p"
| "protocol_ok M _ \<longleftrightarrow> True"

lemma write_binary_out: "write_binary M p out = out @ write_binary M p []"
proof -
  have w: "write_uvarint v out = out @ uvarint v" for v out
    by (rule write_uvarint_out)
  show ?thesis
    unfolding write_binary_def Let_def
    by (cases p) (simp_all add: w [of _ out] w [of _ "out @ _"] w [of _ "uvarint _"])
qed

lemma write_binary_append:
  "out \<noteq> [] \<Longrightarrow> write_binary M p out = out @ write_binary M p []"
  by (rule write_binary_out)

lemma u16_be_roundtrip [simp]: "u16_from_be_bytes (u16_to_be_bytes p) = p"
  unfolding u16_from_be_bytes_def u16_to_be_bytes_def
  by (rule bit_word_eqI) (auto simp: bit_simps)

lemma peer_id_bytes_vec_ok: "multihash_laws M \<Longrightarrow> vec_ok (peer_id_to_bytes M p)"
proof -
  assume laws: "multihash_laws M"
  then have "length (mh_digest M (multihash p)) \<le> 64"
    by (simp add: multihash_laws_def PEER_ID_MULTIHASH_SIZE_def)
  then show ?thesis
    using uvarint_len_le_10 [of "mh_code M (multihash p)"]
      uvarint_len_le_10 [of "of_nat (length (mh_digest M (multihash p)))"]
    by (simp add: multihash_to_bytes [OF laws] vec_ok_def)
qed

lemma write_binary_simps:
  "write_binary M (Ip4 bs) [] = uvarint IP4_CODE @ bs"
  "write_binary M (Ip6 bs) [] = uvarint IP6_CODE @ bs"
  "write_binary M (Dns name) [] = uvarint DNS_CODE @ uvarint (of_nat (length name)) @ name"
  "write_binary M (Dns4 name) [] = uvarint DNS4_CODE @ uvarint (of_nat (length name)) @ name"
  "write_binary M (Dns6 name) [] = uvarint DNS6_CODE @ uvarint (of_nat (length name)) @ name"
  "write_binary M (Udp port) [] = uvarint UDP_CODE @ u16_to_be_bytes port"
  "write_binary M QuicV1 [] = uvarint QUIC_V1_CODE"
  "write_binary M (P2p p) [] = uvarint P2P_CODE @
     uvarint (of_nat (length (peer_id_to_bytes M p))) @ peer_id_to_bytes M p"
  by (simp_all add: write_binary_def Let_def write_uvarint_app)

lemma length_u16_to_be_bytes [simp]: "length (u16_to_be_bytes p) = 2"
  by (simp add: u16_to_be_bytes_def)

lemma read_write_binary [codec]:
  assumes "multihash_laws M" and "protocol_ok M p"
  shows "read_binary M (write_binary M p [] @ rest) = Ok (p, length (write_binary M p []))"
proof -
  have code: "read_uvarint (write_binary M p [] @ rest) =
      Ok (protocol_code p, uvarint_len (protocol_code p))"
    by (cases p) (simp_all add: write_binary_simps codec)
  show ?thesis
    unfolding read_binary_def code
    using assms
    by (cases p) (simp_all add: write_binary_simps protocol_codes fixed_def read_binary_dns_def codec
        peer_id_bytes_vec_ok from_utf8_ok Let_def)
qed

lemma write_binary_not_Nil [simp]: "write_binary M p [] \<noteq> []"
  by (cases p) (simp_all add: write_binary_simps)

lemma multiaddr_to_bytes_eq:
  "multiaddr_to_bytes M a = concat (map (\<lambda>p. write_binary M p []) (protocols a))"
proof -
  have "foldl (\<lambda>out p. write_binary M p out) out ps = out @ concat (map (\<lambda>p. write_binary M p []) ps)"
    for out ps
  proof (induction ps arbitrary: out)
    case (Cons p ps)
    then show ?case
      by (simp add: write_binary_out [of M p out])
  qed simp
  then show ?thesis
    by (simp add: multiaddr_to_bytes_def)
qed

lemma from_bytes_loop_write:
  assumes "multihash_laws M" and "list_all (protocol_ok M) qs"
    and "drop offset bs = concat (map (\<lambda>p. write_binary M p []) qs)"
  shows "multiaddr_from_bytes_loop M bs offset ps = Ok (Multiaddr (ps @ qs))"
  using assms(2,3)
proof (induction qs arbitrary: offset ps)
  case Nil
  then show ?case
    by (simp add: multiaddr_from_bytes_loop.simps)
next
  case (Cons q qs)
  have off: "offset < length bs"
    using Cons.prems(2) by (rule contrapos_pp) simp
  have "drop (offset + length (write_binary M q [])) bs = concat (map (\<lambda>p. write_binary M p []) qs)"
    by (rule drop_past) (use Cons.prems(2) in simp)
  then show ?case
    using Cons.prems off
    by (subst multiaddr_from_bytes_loop.simps) (simp add: Cons.IH codec assms(1))
qed

lemma from_bytes_to_bytes_multiaddr [codec]:
  "multihash_laws M \<Longrightarrow> list_all (protocol_ok M) (protocols a) \<Longrightarrow>
     multiaddr_from_bytes M (multiaddr_to_bytes M a) = Ok a"
  by (simp add: multiaddr_from_bytes_def multiaddr_to_bytes_eq
      from_bytes_loop_write [where qs = "protocols a"])

section \<open>Encapsulation\<close>

lemma decapsulate_loop_Some:
  "decapsulate_loop ps suffix n = Some r \<longleftrightarrow>
     (\<exists>i \<le> n. r = Multiaddr (take i ps) \<and> take (length suffix) (drop i ps) = suffix \<and>
       (\<forall>j. i < j \<and> j \<le> n \<longrightarrow> take (length suffix) (drop j ps) \<noteq> suffix))"
proof (induction n)
  case 0
  show ?case
    by (subst decapsulate_loop.simps) auto
next
  case (Suc n)
  show ?case
  proof (cases "take (length suffix) (drop (Suc n) ps) = suffix")
    case True
    then show ?thesis
      by (subst decapsulate_loop.simps) (auto dest!: spec [of _ "Suc n"] intro!: exI [of _ "Suc n"] simp: le_Suc_eq)
  next
    case False
    then show ?thesis
      by (subst decapsulate_loop.simps) (auto simp: Suc le_Suc_eq)
  qed
qed

lemma decapsulate_loop_None:
  "decapsulate_loop ps suffix n = None \<longleftrightarrow> (\<forall>i \<le> n. take (length suffix) (drop i ps) \<noteq> suffix)"
proof (induction n)
  case (Suc n)
  then show ?case
    by (subst decapsulate_loop.simps) (auto simp: le_Suc_eq)
qed (subst decapsulate_loop.simps, simp)

lemma decapsulate_encapsulate: "decapsulate (encapsulate a b) b = Some a"
proof (cases "protocols b = []")
  case False
  then show ?thesis
    by (simp add: decapsulate_def encapsulate_def)
      (subst decapsulate_loop.simps, simp)
qed (simp add: decapsulate_def encapsulate_def)

text \<open>\<open>occurs_at s i a\<close>: the components of \<open>s\<close> stand in \<open>a\<close> from position \<open>i\<close>.\<close>

definition occurs_at :: "'mh multiaddr \<Rightarrow> nat \<Rightarrow> 'mh multiaddr \<Rightarrow> bool" where
  "occurs_at s i a \<longleftrightarrow> (\<exists>pre post. protocols a = pre @ protocols s @ post \<and> length pre = i)"

lemma occurs_at_iff: "protocols s \<noteq> [] \<Longrightarrow>
  occurs_at s i a \<longleftrightarrow> take (length (protocols s)) (drop i (protocols a)) = protocols s"
proof
  assume "occurs_at s i a"
  then show "take (length (protocols s)) (drop i (protocols a)) = protocols s"
    by (auto simp: occurs_at_def)
next
  assume ne: "protocols s \<noteq> []" and eq: "take (length (protocols s)) (drop i (protocols a)) = protocols s"
  then have "i < length (protocols a)"
    by (rule_tac ccontr) simp
  then show "occurs_at s i a"
    unfolding occurs_at_def using eq
    by (metis append_take_drop_id length_take min.absorb4)
qed

lemma occurs_at_le: "occurs_at s i a \<Longrightarrow> i + length (protocols s) \<le> length (protocols a)"
  by (auto simp: occurs_at_def)

lemma decapsulate_Some_iff:
  assumes "protocols s \<noteq> []"
  shows "decapsulate a s = Some r \<longleftrightarrow>
    (\<exists>i. occurs_at s i a \<and> (\<forall>j > i. \<not> occurs_at s j a) \<and> r = Multiaddr (take i (protocols a)))"
proof (cases "length (protocols a) < length (protocols s)")
  case True
  then show ?thesis
    using assms occurs_at_le [of s _ a] by (fastforce simp: decapsulate_def)
next
  case False
  let ?n = "length (protocols a) - length (protocols s)"
  have le: "occurs_at s i a \<Longrightarrow> i \<le> ?n" for i
    using occurs_at_le [of s i a] by simp
  show ?thesis
    using assms False le
    by (auto simp: decapsulate_def decapsulate_loop_Some simp flip: occurs_at_iff [OF assms])
qed

section \<open>Peer addresses: the terminal peer id\<close>

definition peer_addr_ok :: "'mh peer_addr \<Rightarrow> bool" where
  "peer_addr_ok pa \<longleftrightarrow> protocols (pa_transport pa) \<noteq> [] \<and> \<not> list_ex is_p2p (protocols (pa_transport pa))"

lemma list_position_Some:
  "list_position P xs = Some i \<longleftrightarrow> i < length xs \<and> P (xs ! i) \<and> (\<forall>j < i. \<not> P (xs ! j))"
proof (induction xs arbitrary: i)
  case (Cons x xs)
  then show ?case
    by (cases i) (auto simp: nth_Cons split: nat.split)
qed simp

lemma list_position_None: "list_position P xs = None \<longleftrightarrow> \<not> list_ex P xs"
  by (induction xs) auto

lemma list_position_snoc:
  "list_position P xs = None \<Longrightarrow>
     list_position P (xs @ [y]) = (if P y then Some (length xs) else None)"
  by (induction xs) (auto split: if_splits)

lemma from_multiaddr_to_multiaddr:
  "peer_addr_ok pa \<Longrightarrow> peer_addr_from_multiaddr (peer_addr_to_multiaddr pa) = Ok pa"
  by (simp add: peer_addr_from_multiaddr_def peer_addr_to_multiaddr_def list_rposition_def Let_def
      list_position_snoc peer_addr_ok_def flip: list_position_None)

lemma from_multiaddr_Ok:
  assumes "peer_addr_from_multiaddr a = Ok pa"
  shows "peer_addr_ok pa" "a = peer_addr_to_multiaddr pa"
proof -
  obtain last p where pos: "list_position is_p2p (protocols a) = Some last"
    and last: "last = length (protocols a) - 1" and p: "protocols a ! last = P2p p"
    and ne: "take last (protocols a) \<noteq> []"
    and pa: "pa = \<lparr>pa_transport = Multiaddr (take last (protocols a)), pa_peer_id = p\<rparr>"
    using assms
    by (auto simp: peer_addr_from_multiaddr_def and_then_eq_Inr Let_def split: if_splits protocol.splits)
  have "protocols a = take last (protocols a) @ [P2p p]"
    using ne last p by (metis Nil_is_append_conv append_butlast_last_id butlast_conv_take last_conv_nth
        take_eq_Nil)
  then show "a = peer_addr_to_multiaddr pa"
    by (metis pa peer_addr_to_multiaddr_def multiaddr.collapse multiaddr.sel peer_addr.select_convs)
  have "\<not> list_ex is_p2p (take last (protocols a))"
    using pos by (auto simp: list_position_Some list_ex_iff in_set_conv_nth)
  then show "peer_addr_ok pa"
    using ne by (simp add: pa peer_addr_ok_def)
qed

section \<open>Candidate selection\<close>

text \<open>The candidates in priority order; the dialable ones among them.\<close>

definition dialable :: "'mh multiaddr \<Rightarrow> bool" where
  "dialable a \<longleftrightarrow> \<not> is_wildcard_addr a \<and> is_quic_transport a"

definition candidate_inputs ::
  "'mh multiaddr list \<Rightarrow> 'mh multiaddr option \<Rightarrow> 'mh multiaddr option \<Rightarrow>
     (direct_candidate_source \<times> 'mh multiaddr) list" where
  "candidate_inputs manual observed listen =
     map (Pair Manual) manual @ map (Pair IdentifyObserved) (case observed of None \<Rightarrow> [] | Some a \<Rightarrow> [a]) @
     map (Pair Listen) (case listen of None \<Rightarrow> [] | Some a \<Rightarrow> [a])"

lemma select_foldl:
  "select_direct_candidates manual observed listen =
     foldl (\<lambda>s (src, a). push_candidate s src a) \<lparr>accepted = [], rejected = []\<rparr>
       (candidate_inputs manual observed listen)"
  by (auto simp: select_direct_candidates_def candidate_inputs_def Let_def foldl_map split: option.split)

lemma push_candidates_addrs:
  "into_addrs (foldl (\<lambda>s (src, a). push_candidate s src a) s cs) =
     into_addrs s @ filter (\<lambda>a. a \<notin> set (into_addrs s)) (rev (remdups (rev (filter dialable (map snd cs)))))"
proof (induction cs rule: rev_induct)
  case (snoc c cs)
  obtain src a where c: "c = (src, a)"
    by fastforce
  let ?t = "foldl (\<lambda>s (src, a). push_candidate s src a) s cs"
  have mem: "list_ex (\<lambda>c. dc_addr c = a) (accepted ?t) \<longleftrightarrow>
      a \<in> set (into_addrs s) \<or> dialable a \<and> a \<in> set (map snd cs)"
  proof -
    have "list_ex (\<lambda>c. dc_addr c = a) (accepted ?t) \<longleftrightarrow> a \<in> set (into_addrs ?t)"
      by (auto simp: into_addrs_def list_ex_iff)
    then show ?thesis
      by (auto simp: snoc.IH)
  qed
  then show ?case
    using snoc.IH
    by (auto simp: c into_addrs_def push_candidate_def reject_candidate_def dialable_def)
qed simp

section \<open>Properties\<close>

text \<open>
  The binary form of a multiaddr is lossless: a multiaddr of well-formed components (addresses
  of 4 and 16 bytes, UTF-8 names, validated peer ids) is read back from its bytes component by
  component.
\<close>

theorem multiaddr_binary_roundtrip:
  assumes "multihash_laws M" and "list_all (protocol_ok M) (protocols a)"
  shows "multiaddr_from_bytes M (multiaddr_to_bytes M a) = Ok a"
  using assms by (rule from_bytes_to_bytes_multiaddr)

text \<open>
  \<open>decapsulate\<close> cuts a multiaddr at the last occurrence of the given suffix and fails exactly
  when there is none; so it undoes \<open>encapsulate\<close>.
\<close>

theorem decapsulate_last_occurrence:
  assumes "protocols s \<noteq> []"
  shows "(decapsulate a s = Some r \<longleftrightarrow>
      (\<exists>i. occurs_at s i a \<and> (\<forall>j > i. \<not> occurs_at s j a) \<and> r = Multiaddr (take i (protocols a)))) \<and>
    decapsulate (encapsulate a s) s = Some a"
  using decapsulate_Some_iff [OF assms] decapsulate_encapsulate by blast

text \<open>
  A multiaddr converts to a peer address exactly when it is a non-empty transport without a
  peer id followed by one peer id; the conversion is then inverted by \<open>to_multiaddr\<close>.
\<close>

theorem peer_addr_conversion:
  "peer_addr_from_multiaddr a = Ok pa \<longleftrightarrow> peer_addr_ok pa \<and> a = peer_addr_to_multiaddr pa"
  using from_multiaddr_Ok from_multiaddr_to_multiaddr by blast

lemma push_candidates_accounted:
  "length (accepted (foldl (\<lambda>s (src, a). push_candidate s src a) s cs)) +
   length (rejected (foldl (\<lambda>s (src, a). push_candidate s src a) s cs)) =
     length (accepted s) + length (rejected s) + length cs"
  by (induction cs arbitrary: s) (auto simp: push_candidate_def reject_candidate_def)

text \<open>
  The dialled candidates are the direct QUIC addresses, wildcards excluded, in the order
  manual, observed, listen, each once at its first occurrence; every other input is reported as a
  rejection.
\<close>

theorem select_direct_candidates_addrs:
  "let sel = select_direct_candidates manual observed listen;
       inputs = candidate_inputs manual observed listen
   in into_addrs sel = rev (remdups (rev (filter dialable (map snd inputs)))) \<and>
      length (accepted sel) + length (rejected sel) = length inputs"
  unfolding Let_def select_foldl push_candidates_addrs push_candidates_accounted
  by (simp add: into_addrs_def)

end
