(* ===== verification/Ids.thy ===== *)
theory Ids
  imports PeerId OrderedMap
begin

text \<open>
  The identifiers that order the maps of the protocol state machines: stream and connection ids
  (\<open>crates/transport/src/{stream_id,connection_id}.rs\<close>) and peer ids.  Each derives its order from
  its only field, as \<open>#[derive(Ord)]\<close> does.
\<close>

datatype stream_id = StreamId (stream_u64: u64)

datatype connection_id = ConnectionId (connection_u64: u64)

instantiation stream_id :: linorder
begin

definition less_eq_stream_id :: "stream_id \<Rightarrow> stream_id \<Rightarrow> bool" where
  "less_eq_stream_id a b \<longleftrightarrow> stream_u64 a \<le> stream_u64 b"

definition less_stream_id :: "stream_id \<Rightarrow> stream_id \<Rightarrow> bool" where
  "less_stream_id a b \<longleftrightarrow> stream_u64 a < stream_u64 b"

instance
  by standard (auto simp: less_eq_stream_id_def less_stream_id_def stream_id.expand)

end

instantiation connection_id :: linorder
begin

definition less_eq_connection_id :: "connection_id \<Rightarrow> connection_id \<Rightarrow> bool" where
  "less_eq_connection_id a b \<longleftrightarrow> connection_u64 a \<le> connection_u64 b"

definition less_connection_id :: "connection_id \<Rightarrow> connection_id \<Rightarrow> bool" where
  "less_connection_id a b \<longleftrightarrow> connection_u64 a < connection_u64 b"

instance
  by standard (auto simp: less_eq_connection_id_def less_connection_id_def connection_id.expand)

end

instantiation peer_id :: (linorder) linorder
begin

definition less_eq_peer_id :: "'a peer_id \<Rightarrow> 'a peer_id \<Rightarrow> bool" where
  "less_eq_peer_id a b \<longleftrightarrow> multihash a \<le> multihash b"

definition less_peer_id :: "'a peer_id \<Rightarrow> 'a peer_id \<Rightarrow> bool" where
  "less_peer_id a b \<longleftrightarrow> multihash a < multihash b"

instance
  by standard (auto simp: less_eq_peer_id_def less_peer_id_def peer_id.expand)

end

text \<open>\<open>u64::saturating_sub\<close>\<close>

definition saturating_sub :: "u64 \<Rightarrow> u64 \<Rightarrow> u64" where
  "saturating_sub a b = (if b \<le> a then a - b else 0)"

lemma unat_saturating_sub: "unat (saturating_sub a b) = unat a - unat b"
  by (auto simp: saturating_sub_def unat_sub word_le_nat_alt)

end
