(* ===== verification/Multistream.thy ===== *)
theory Multistream
  imports Ids SansIo
begin

text \<open>
  Protocol negotiation, \<open>crates/multistream-select/src/lib.rs\<close>: the framing of protocol lines, the
  reaction to one line in each state, the receive loop, and the machine's \<open>SansIoProtocol\<close> face.
  \<open>None\<close> is the panic of the two \<open>expect("dialer must have desired protocol")\<close>.

  The theory shows that what the machine does depends only on the bytes received and not on how
  the network cuts them into chunks, that its panics are unreachable, and that the receive loop ends.
\<close>

section \<open>The state machine\<close>

definition MULTISTREAM_PROTOCOL_ID :: rstr where
  "MULTISTREAM_PROTOCOL_ID = lit ''/multistream/1.0.0''"

definition NOT_AVAILABLE :: rstr where
  "NOT_AVAILABLE = lit ''na''"

definition MAX_MESSAGE_LEN :: nat where
  "MAX_MESSAGE_LEN = 1024"

datatype multistream_output =
    MsOutboundData bytes
  | MsNegotiated rstr
  | MsNotAvailable
  | MsProtocolError rstr

datatype multistream_input = MsStart | MsData bytes

datatype multistream_error =
    MessageTooLong nat
  | InvalidVarint varint_error
  | NonUtf8
  | MissingNewline
  | MsEmptyProtocol
  | UnexpectedHeader rstr
  | UnexpectedProtocolResponse rstr

fun show_multistream_error :: "multistream_error \<Rightarrow> rstr" where
  "show_multistream_error (MessageTooLong len) =
     lit ''message exceeds maximum length ('' @ show_nat len @ lit '' > '' @
     show_nat MAX_MESSAGE_LEN @ lit '')''"
| "show_multistream_error (InvalidVarint e) =
     lit ''invalid varint in message frame: '' @ show_varint_error e"
| "show_multistream_error NonUtf8 = lit ''non-utf8 message payload''"
| "show_multistream_error MissingNewline = lit ''message missing trailing newline''"
| "show_multistream_error MsEmptyProtocol = lit ''empty protocol line''"
| "show_multistream_error (UnexpectedHeader actual) =
     lit ''unexpected multistream header: '' @ actual"
| "show_multistream_error (UnexpectedProtocolResponse actual) =
     lit ''unexpected protocol response: '' @ actual"

datatype ms_role = Dialer | Listener

datatype ms_state =
    WaitingForRemoteHeader
  | WaitingForProtocolRequest
  | WaitingForProtocolResponse
  | MsDone

record multistream_select =
  ms_role :: ms_role
  ms_state :: ms_state
  desired_protocol :: "rstr option"
  supported_protocols :: "rstr set"
  ms_recv_buf :: bytes
  ms_started :: bool
  ms_pending :: "multistream_output list"

definition ms_dialer :: "rstr \<Rightarrow> multistream_select" where
  "ms_dialer desired =
     \<lparr>ms_role = Dialer, ms_state = WaitingForRemoteHeader, desired_protocol = Some desired,
      supported_protocols = {}, ms_recv_buf = [], ms_started = False, ms_pending = []\<rparr>"

definition ms_listener :: "rstr list \<Rightarrow> multistream_select" where
  "ms_listener ps =
     \<lparr>ms_role = Listener, ms_state = WaitingForRemoteHeader, desired_protocol = None,
      supported_protocols = set ps, ms_recv_buf = [], ms_started = False, ms_pending = []\<rparr>"

definition encode_message :: "rstr \<Rightarrow> bytes" where
  "encode_message protocol =
     (let payload_len = length protocol + 1;
          out = write_uvarint (of_nat payload_len) []
      in out @ protocol @ lit ''\<newline>'')"

definition ms_start :: "multistream_select \<Rightarrow> multistream_select \<times> multistream_output list" where
  "ms_start s =
     (if ms_started s then (s, [])
      else (s\<lparr>ms_started := True\<rparr>, [MsOutboundData (encode_message MULTISTREAM_PROTOCOL_ID)]))"

definition ms_is_done :: "multistream_select \<Rightarrow> bool" where
  "ms_is_done s \<longleftrightarrow> ms_state s = MsDone"

definition take_remaining_buffer :: "multistream_select \<Rightarrow> bytes \<times> multistream_select" where
  "take_remaining_buffer s = (ms_recv_buf s, s\<lparr>ms_recv_buf := []\<rparr>)"

definition ms_protocol_error :: "multistream_error \<Rightarrow> ms_state \<times> multistream_output list" where
  "ms_protocol_error e = (MsDone, [MsProtocolError (show_multistream_error e)])"

definition handle_message ::
  "ms_role \<Rightarrow> ms_state \<Rightarrow> rstr option \<Rightarrow> rstr set \<Rightarrow> rstr \<Rightarrow>
     (ms_state \<times> multistream_output list) option" where
  "handle_message role state desired supported line =
     (case state of
        WaitingForRemoteHeader \<Rightarrow>
          if line \<noteq> MULTISTREAM_PROTOCOL_ID then Some (ms_protocol_error (UnexpectedHeader line))
          else (case role of
              Dialer \<Rightarrow>
                map_option (\<lambda>d. (WaitingForProtocolResponse, [MsOutboundData (encode_message d)])) desired
            | Listener \<Rightarrow> Some (WaitingForProtocolRequest, []))
      | WaitingForProtocolRequest \<Rightarrow>
          if line \<in> supported
          then Some (MsDone, [MsOutboundData (encode_message line), MsNegotiated line])
          else Some (MsDone, [MsOutboundData (encode_message NOT_AVAILABLE), MsNotAvailable])
      | WaitingForProtocolResponse \<Rightarrow>
          map_option (\<lambda>d.
            if line = d then (MsDone, [MsNegotiated d])
            else if line = NOT_AVAILABLE then (MsDone, [MsNotAvailable])
            else ms_protocol_error (UnexpectedProtocolResponse line)) desired
      | MsDone \<Rightarrow> Some (MsDone, []))"

datatype decode_result = Complete rstr nat | Incomplete | DecodeError multistream_error

definition decode_message :: "bytes \<Rightarrow> decode_result" where
  "decode_message buf =
     (if buf = [] then Incomplete
      else case read_uvarint buf of
        Inl BufferTooShort \<Rightarrow> Incomplete
      | Inl e \<Rightarrow> DecodeError (InvalidVarint e)
      | Inr (msg_len, varint_bytes) \<Rightarrow>
          let msg_len = unat msg_len
          in if MAX_MESSAGE_LEN < msg_len then DecodeError (MessageTooLong msg_len)
             else
               let total = varint_bytes + msg_len
               in if length buf < total then Incomplete
                  else
                    let msg_bytes = take msg_len (drop varint_bytes buf)
                    in if msg_bytes = [] \<or> last msg_bytes \<noteq> 0x0A then DecodeError MissingNewline
                       else (case from_utf8 (butlast msg_bytes) of
                           Inl _ \<Rightarrow> DecodeError NonUtf8
                         | Inr payload \<Rightarrow>
                             if payload = [] then DecodeError MsEmptyProtocol
                             else Complete payload total))"

lemma decode_message_Complete [advance]:
  assumes "decode_message buf = Complete payload n"
  shows "0 < n" "n \<le> length buf"
proof -
  obtain len c where "read_uvarint buf = Ok (len, c)" "n = c + unat len" "n \<le> length buf"
    using assms
    by (auto simp: decode_message_def Let_def split: if_splits sum.splits varint_error.splits)
  then show "0 < n" "n \<le> length buf"
    using read_uvarint_Ok(4) by auto
qed

lemma decode_message_less:
  "decode_message buf = Complete payload n \<Longrightarrow> length buf - n < length buf"
  using decode_message_Complete [of buf payload n] by simp

text \<open>The loop of \<open>receive\<close>; each turn but the last takes a message off the buffer.\<close>

function receive_loop ::
  "multistream_select \<Rightarrow> multistream_output list \<Rightarrow>
     (multistream_select \<times> multistream_output list) option" where
  "receive_loop s outputs =
     (if ms_state s = MsDone then Some (s, outputs)
      else case decode_message (ms_recv_buf s) of
        Incomplete \<Rightarrow> Some (s, outputs)
      | DecodeError e \<Rightarrow>
          Some (s\<lparr>ms_state := MsDone\<rparr>, outputs @ [MsProtocolError (show_multistream_error e)])
      | Complete payload consumed \<Rightarrow>
          (case handle_message (ms_role s) (ms_state s) (desired_protocol s) (supported_protocols s)
              payload of
             None \<Rightarrow> None
           | Some (next_state, produced) \<Rightarrow>
               receive_loop (s\<lparr>ms_state := next_state, ms_recv_buf := drop consumed (ms_recv_buf s)\<rparr>)
                 (outputs @ produced)))"
  by pat_completeness auto
termination
  by (relation "measure (\<lambda>(s, outputs). length (ms_recv_buf s))")
    (auto dest: decode_message_less)

declare receive_loop.simps [simp del]

definition ms_receive ::
  "multistream_select \<Rightarrow> bytes \<Rightarrow> (multistream_select \<times> multistream_output list) option" where
  "ms_receive s bs =
     (if ms_state s = MsDone then Some (s, [])
      else receive_loop (s\<lparr>ms_recv_buf := ms_recv_buf s @ bs\<rparr>) [])"

definition ms_handle_input ::
  "multistream_input \<Rightarrow> multistream_select \<Rightarrow> (multistream_select \<times> (multistream_error + unit)) option" where
  "ms_handle_input i s =
     map_option (\<lambda>(s, outputs). (s\<lparr>ms_pending := ms_pending s @ outputs\<rparr>, Ok ()))
       (case i of MsStart \<Rightarrow> Some (ms_start s) | MsData d \<Rightarrow> ms_receive s d)"

definition ms_poll_output :: "multistream_select \<Rightarrow> multistream_output option \<times> multistream_select" where
  "ms_poll_output s =
     (case ms_pending s of [] \<Rightarrow> (None, s) | x # xs \<Rightarrow> (Some x, s\<lparr>ms_pending := xs\<rparr>))"

definition ms_is_idle :: "multistream_select \<Rightarrow> bool" where
  "ms_is_idle s \<longleftrightarrow> ms_pending s = []"

section \<open>Framing\<close>

lemma encode_message_eq:
  "encode_message p = uvarint (of_nat (length p + 1)) @ p @ [0x0A]"
  by (simp add: encode_message_def lit_def Let_def)

lemma length_encode_message [simp]:
  "length (encode_message p) = uvarint_len (of_nat (length p + 1)) + length p + 1"
  by (simp add: encode_message_eq)

text \<open>A protocol name that fits a message.\<close>

definition protocol_name_ok :: "rstr \<Rightarrow> bool" where
  "protocol_name_ok p \<longleftrightarrow> utf8_ok p \<and> p \<noteq> [] \<and> length p < MAX_MESSAGE_LEN"

lemma decode_encode_message [codec]:
  assumes "protocol_name_ok p"
  shows "decode_message (encode_message p @ rest) = Complete p (length (encode_message p))"
proof -
  define n :: u64 where "n = of_nat (length p + 1)"
  have n: "unat n = Suc (length p)"
    using assms unat_of_nat_small [of "length p + 1"]
    by (simp add: n_def protocol_name_ok_def MAX_MESSAGE_LEN_def)
  then have "n \<noteq> 0"
    by auto
  have m: "encode_message p @ rest = uvarint n @ p @ 0x0A # rest"
    by (simp add: encode_message_eq n_def)
  have r: "read_uvarint (encode_message p @ rest) = Ok (n, uvarint_len n)"
    unfolding m by (rule read_uvarint_write)
  have "length (encode_message p) = uvarint_len n + Suc (length p)"
    by (simp add: n_def)
  then show ?thesis
    using assms \<open>n \<noteq> 0\<close> unfolding decode_message_def r
    by (simp add: m n protocol_name_ok_def from_utf8_ok Let_def butlast_append)
qed

lemma decode_message_append:
  assumes "decode_message buf \<noteq> Incomplete"
  shows "decode_message (buf @ rest) = decode_message buf"
proof -
  have "read_uvarint buf \<noteq> Err BufferTooShort"
    using assms by (auto simp: decode_message_def split: if_splits)
  then have r: "read_uvarint (buf @ rest) = read_uvarint buf"
    by (rule read_uvarint_append)
  show ?thesis
  proof (cases "read_uvarint buf")
    case (Inr x)
    then show ?thesis
      using assms r read_uvarint_Ok(3) [of buf "fst x" "snd x"]
      by (cases x) (auto simp: decode_message_def Let_def split: if_splits)
  qed (use assms r in \<open>auto simp: decode_message_def split: varint_error.split\<close>)
qed

text \<open>A message cut short is never misread.\<close>

lemma decode_message_prefix:
  assumes "protocol_name_ok p" and "k < length (encode_message p)"
  shows "decode_message (take k (encode_message p)) = Incomplete"
proof (rule ccontr)
  assume not: "decode_message (take k (encode_message p)) \<noteq> Incomplete"
  have "decode_message (take k (encode_message p)) = Complete p (length (encode_message p))"
    using decode_message_append [OF not, of "drop k (encode_message p)"]
      decode_encode_message [OF assms(1), of "[]"] by simp
  then show False
    using decode_message_Complete(2) assms(2) by fastforce
qed

section \<open>The receive loop\<close>

lemma receive_loop_outputs:
  "receive_loop s outputs =
     map_option (\<lambda>(t, produced). (t, outputs @ produced)) (receive_loop s [])"
proof (induction s arbitrary: outputs rule: measure_induct_rule [where f = "\<lambda>s. length (ms_recv_buf s)"])
  case (less s)
  show ?case
  proof (cases "decode_message (ms_recv_buf s)")
    case (Complete payload n)
    have IH: "receive_loop (s\<lparr>ms_state := st, ms_recv_buf := drop n (ms_recv_buf s)\<rparr>) outs =
        map_option (\<lambda>(t, produced). (t, outs @ produced))
          (receive_loop (s\<lparr>ms_state := st, ms_recv_buf := drop n (ms_recv_buf s)\<rparr>) [])" for st outs
      by (rule less.IH) (simp add: decode_message_less [OF Complete])
    show ?thesis
    proof (cases "handle_message (ms_role s) (ms_state s) (desired_protocol s)
        (supported_protocols s) payload")
      case (Some r)
      obtain st produced where "r = (st, produced)"
        by fastforce
      then show ?thesis
        using Complete Some IH [of st "outputs @ produced"] IH [of st produced]
        by (simp add: receive_loop.simps [of s] option.map_comp comp_def case_prod_unfold)
    qed (simp add: receive_loop.simps [of s] Complete)
  qed (simp_all add: receive_loop.simps [of s])
qed

definition ms_ok :: "multistream_select \<Rightarrow> bool" where
  "ms_ok s \<longleftrightarrow>
     (ms_role s = Dialer \<longrightarrow> desired_protocol s \<noteq> None) \<and>
     (ms_state s = WaitingForProtocolResponse \<longrightarrow> ms_role s = Dialer) \<and>
     (ms_state s = WaitingForProtocolRequest \<longrightarrow> ms_role s = Listener)"

lemma ms_ok_new [simp]: "ms_ok (ms_dialer p)" "ms_ok (ms_listener ps)"
  by (simp_all add: ms_ok_def ms_dialer_def ms_listener_def)

lemma handle_message_ok:
  assumes "ms_ok s"
  obtains st produced where
    "handle_message (ms_role s) (ms_state s) (desired_protocol s) (supported_protocols s) line =
       Some (st, produced)"
    "\<And>buf. ms_ok (s\<lparr>ms_state := st, ms_recv_buf := buf\<rparr>)"
proof (cases "handle_message (ms_role s) (ms_state s) (desired_protocol s) (supported_protocols s) line")
  case None
  then show ?thesis
    using assms by (auto simp: handle_message_def ms_ok_def split: ms_state.splits if_splits ms_role.splits)
next
  case (Some r)
  then show ?thesis
    using assms that [of "fst r" "snd r"]
    by (auto simp: handle_message_def ms_ok_def ms_protocol_error_def
        split: ms_state.splits if_splits ms_role.splits)
qed

lemma receive_loop_ok:
  "ms_ok s \<Longrightarrow> \<exists>t produced. receive_loop s outputs = Some (t, produced) \<and> ms_ok t \<and>
     (ms_state t = MsDone \<or> decode_message (ms_recv_buf t) = Incomplete)"
proof (induction s outputs rule: receive_loop.induct)
  case (1 s outputs)
  show ?case
  proof (cases "ms_state s = MsDone \<or> (\<forall>p n. decode_message (ms_recv_buf s) \<noteq> Complete p n)")
    case True
    then show ?thesis
      using "1.prems" by (cases "decode_message (ms_recv_buf s)")
        (auto simp: receive_loop.simps [of s] ms_ok_def)
  next
    case False
    then obtain payload n where d: "decode_message (ms_recv_buf s) = Complete payload n" "ms_state s \<noteq> MsDone"
      by auto
    obtain st out where "handle_message (ms_role s) (ms_state s) (desired_protocol s)
          (supported_protocols s) payload = Some (st, out)"
      "\<And>buf. ms_ok (s\<lparr>ms_state := st, ms_recv_buf := buf\<rparr>)"
      using handle_message_ok [OF "1.prems"] by metis
    then show ?thesis
      using d "1.IH" [OF d(2,1)] by (simp add: receive_loop.simps [of s])
  qed
qed

lemma receive_loop_fields:
  "receive_loop s outputs = Some (t, produced) \<Longrightarrow>
     ms_role t = ms_role s \<and> desired_protocol t = desired_protocol s \<and>
     supported_protocols t = supported_protocols s \<and> ms_started t = ms_started s \<and>
     ms_pending t = ms_pending s"
proof (induction s outputs rule: receive_loop.induct)
  case (1 s outputs)
  show ?case
    using "1.prems" "1.IH"
    by (subst (asm) receive_loop.simps) (auto split: if_splits decode_result.splits option.splits)
qed

text \<open>What the loop leaves unread is what it would have left of a longer buffer, plus the rest.\<close>

lemma receive_loop_append:
  assumes "receive_loop s outputs = Some (t, produced)"
  shows "receive_loop (s\<lparr>ms_recv_buf := ms_recv_buf s @ b\<rparr>) outputs =
    (if ms_state t = MsDone then Some (t\<lparr>ms_recv_buf := ms_recv_buf t @ b\<rparr>, produced)
     else receive_loop (t\<lparr>ms_recv_buf := ms_recv_buf t @ b\<rparr>) produced)"
  using assms
proof (induction s outputs rule: receive_loop.induct)
  case (1 s outputs)
  show ?case
  proof (cases "ms_state s = MsDone")
    case True
    then show ?thesis
      using "1.prems" by (simp add: receive_loop.simps)
  next
    case False
    show ?thesis
    proof (cases "decode_message (ms_recv_buf s)")
      case Incomplete
      then show ?thesis
        using "1.prems" False by (simp add: receive_loop.simps [of s])
    next
      case (DecodeError e)
      then show ?thesis
        using "1.prems" False decode_message_append [of "ms_recv_buf s" b]
        by (auto simp: receive_loop.simps)
    next
      case (Complete payload n)
      then obtain st out where h: "handle_message (ms_role s) (ms_state s) (desired_protocol s)
          (supported_protocols s) payload = Some (st, out)"
        using "1.prems" False
        by (auto simp: receive_loop.simps [of s] split: option.splits)
      let ?s = "s\<lparr>ms_state := st, ms_recv_buf := drop n (ms_recv_buf s)\<rparr>"
      have n: "n \<le> length (ms_recv_buf s)"
        using decode_message_Complete(2) [OF Complete] .
      have "decode_message (ms_recv_buf s @ b) = Complete payload n"
        using Complete decode_message_append [of "ms_recv_buf s" b] by simp
      then have "receive_loop (s\<lparr>ms_recv_buf := ms_recv_buf s @ b\<rparr>) outputs =
          receive_loop (?s\<lparr>ms_recv_buf := ms_recv_buf ?s @ b\<rparr>) (outputs @ out)"
        using False h n by (simp add: receive_loop.simps [of "s\<lparr>ms_recv_buf := ms_recv_buf s @ b\<rparr>"])
      moreover have "receive_loop ?s (outputs @ out) = Some (t, produced)"
        using "1.prems" False Complete h by (simp add: receive_loop.simps [of s])
      ultimately show ?thesis
        using "1.IH" [OF False Complete h refl] by simp
    qed
  qed
qed

lemma ms_receive_ok:
  assumes "ms_ok s"
  obtains t outs where "ms_receive s bs = Some (t, outs)" "ms_ok t"
    "ms_state t = MsDone \<or> decode_message (ms_recv_buf t) = Incomplete"
proof -
  have "ms_ok (s\<lparr>ms_recv_buf := ms_recv_buf s @ bs\<rparr>)"
    using assms by (simp add: ms_ok_def)
  then obtain t outs where "receive_loop (s\<lparr>ms_recv_buf := ms_recv_buf s @ bs\<rparr>) [] = Some (t, outs)"
    "ms_ok t" "ms_state t = MsDone \<or> decode_message (ms_recv_buf t) = Incomplete"
    using receive_loop_ok by blast
  then show ?thesis
    using assms that by (cases "ms_state s = MsDone") (simp_all add: ms_receive_def)
qed

lemma ms_receive_fields:
  "ms_receive s bs = Some (t, outs) \<Longrightarrow>
     ms_role t = ms_role s \<and> desired_protocol t = desired_protocol s \<and>
     supported_protocols t = supported_protocols s \<and> ms_started t = ms_started s \<and>
     ms_pending t = ms_pending s"
  using receive_loop_fields [of "s\<lparr>ms_recv_buf := ms_recv_buf s @ bs\<rparr>" "[]" t outs]
  by (auto simp: ms_receive_def split: if_splits)

text \<open>Feeding a buffer in two pieces or at once is the same, as long as the negotiation runs.\<close>

lemma ms_receive_append:
  assumes "ms_receive s a = Some (t, outs)" and "ms_receive t b = Some (u, outs')"
  shows "ms_receive s (a @ b) =
    Some (if ms_state t = MsDone \<and> ms_state s \<noteq> MsDone
          then t\<lparr>ms_recv_buf := ms_recv_buf t @ b\<rparr> else u, outs @ outs')"
proof (cases "ms_state s = MsDone")
  case True
  then show ?thesis
    using assms by (auto simp: ms_receive_def)
next
  case False
  note loop = receive_loop_append [of "s\<lparr>ms_recv_buf := ms_recv_buf s @ a\<rparr>" "[]" t outs b]
  have "receive_loop (t\<lparr>ms_recv_buf := ms_recv_buf t @ b\<rparr>) outs = Some (u, outs @ outs')"
    if "ms_state t \<noteq> MsDone"
    using assms(2) that receive_loop_outputs [of "t\<lparr>ms_recv_buf := ms_recv_buf t @ b\<rparr>" outs]
    by (simp add: ms_receive_def)
  then show ?thesis
    using loop assms False by (auto simp: ms_receive_def)
qed

section \<open>The \<open>SansIoProtocol\<close> interface\<close>

interpretation ms: sans_io_protocol ms_handle_input ms_poll_output ms_is_idle
  "\<lambda>s. length (ms_pending s)" ms_ok
proof unfold_locales
  fix s s' i and r :: "multistream_error + unit"
  assume s: "ms_ok s" and h: "ms_handle_input i s = Some (s', r)"
  show "ms_ok s'"
  proof (cases i)
    case MsStart
    then show ?thesis
      using s h by (auto simp: ms_handle_input_def ms_start_def ms_ok_def split: if_splits)
  next
    case (MsData d)
    obtain t outs where "ms_receive s d = Some (t, outs)" "ms_ok t"
      using ms_receive_ok [OF s] by metis
    then show ?thesis
      using h MsData by (auto simp: ms_handle_input_def ms_ok_def)
  qed
qed (auto simp: ms_poll_output_def ms_is_idle_def ms_ok_def split: list.splits)

lemma ms_handle_input_total: "ms_ok s \<Longrightarrow> \<exists>s'. ms_handle_input i s = Some (s', Ok ())"
proof (cases i)
  case (MsData d)
  assume "ms_ok s"
  then obtain t outs where "ms_receive s d = Some (t, outs)"
    using ms_receive_ok by metis
  then show ?thesis
    by (simp add: ms_handle_input_def MsData)
qed (simp add: ms_handle_input_def case_prod_unfold)

section \<open>Properties\<close>

text \<open>
  The line framing is exact on a stream: a framed protocol name is decoded from the front of
  any buffer that holds it, with the number of bytes it takes, and every proper prefix of it is
  reported as incomplete, never as a message or an error.
\<close>

theorem message_framing:
  assumes "protocol_name_ok p"
  shows "decode_message (encode_message p @ rest) = Complete p (length (encode_message p)) \<and>
    (\<forall>k < length (encode_message p). decode_message (take k (encode_message p)) = Incomplete)"
  using decode_encode_message [OF assms] decode_message_prefix [OF assms] by blast

text \<open>
  How the transport cuts the byte stream does not matter: receiving two chunks one after the
  other produces the outputs of receiving them at once, and ends in the same state, except that a
  machine that finishes within the first chunk is not given the second (its caller keeps it).
\<close>

theorem ms_receive_chunks:
  assumes "ms_ok s"
  shows "\<exists>t outs u outs'. ms_receive s a = Some (t, outs) \<and> ms_receive t b = Some (u, outs') \<and>
    ms_receive s (a @ b) =
      Some (if ms_is_done t \<and> \<not> ms_is_done s then t\<lparr>ms_recv_buf := ms_recv_buf t @ b\<rparr> else u,
        outs @ outs')"
proof -
  obtain t outs where t: "ms_receive s a = Some (t, outs)" "ms_ok t"
    using ms_receive_ok [OF assms] by metis
  moreover obtain u outs' where "ms_receive t b = Some (u, outs')"
    using ms_receive_ok [OF t(2)] by metis
  ultimately show ?thesis
    using ms_receive_append unfolding ms_is_done_def by blast
qed

text \<open>
  A negotiator never panics and never fails: fresh machines satisfy \<open>ms_ok\<close>, and from a
  machine that satisfies it every input is handled with \<open>Ok\<close>, keeps \<open>ms_ok\<close>, and leaves finitely
  many outputs, after which the machine is idle.  (The \<open>expect\<close> on the dialer's protocol and the
  \<open>unreachable\<close> branches are modelled as \<open>None\<close>.)
\<close>

theorem ms_handle_input_safe:
  "ms_ok (ms_dialer p) \<and> ms_ok (ms_listener ps) \<and>
   (ms_ok s \<longrightarrow>
     (\<exists>s' outs t. ms_handle_input i s = Some (s', Ok ()) \<and> ms_ok s' \<and>
        drain (Suc (length (ms_pending s'))) ms_poll_output s' = Some (outs, t) \<and>
        ms_is_idle t \<and> ms_ok t))"
proof -
  have "\<exists>s' outs t. ms_handle_input i s = Some (s', Ok ()) \<and> ms_ok s' \<and>
        drain (Suc (length (ms_pending s'))) ms_poll_output s' = Some (outs, t) \<and>
        ms_is_idle t \<and> ms_ok t" if ok: "ms_ok s"
  proof -
    obtain s' where s': "ms_handle_input i s = Some (s', Ok ())"
      using ms_handle_input_total [OF ok] by blast
    then have "ms_ok s'"
      using ms.invar_input [OF ok] by blast
    then show ?thesis
      using s' ms.drain_returns [of s' "Suc (length (ms_pending s'))"] by blast
  qed
  then show ?thesis
    by simp
qed

end
