(* ===== verification/Negotiation.thy ===== *)
theory Negotiation
  imports Multistream "HOL-Library.Sublist"
begin

text \<open>
  A dialer and a listener connected by a stream.  Each machine is polled for its outputs at any time;
  bytes it emits go into a channel, from which the other side is given non-empty chunks of any size.
  The theory shows that in every such run the two sides end with the same result, which is the
  proposed protocol exactly when the listener supports it, and that a run cannot stop earlier.
\<close>

record session =
  s_dialer :: multistream_select
  s_listener :: multistream_select
  to_listener :: bytes
  to_dialer :: bytes
  got_listener :: bytes
  got_dialer :: bytes
  result_dialer :: "multistream_output list"
  result_listener :: "multistream_output list"

definition started :: "multistream_select \<Rightarrow> multistream_select" where
  "started s = (let (s', outs) = ms_start s in s'\<lparr>ms_pending := ms_pending s' @ outs\<rparr>)"

definition session_init :: "rstr \<Rightarrow> rstr list \<Rightarrow> session" where
  "session_init p ps =
     \<lparr>s_dialer = started (ms_dialer p), s_listener = started (ms_listener ps),
      to_listener = [], to_dialer = [], got_listener = [], got_dialer = [],
      result_dialer = [], result_listener = []\<rparr>"

fun data_of :: "multistream_output \<Rightarrow> bytes" where
  "data_of (MsOutboundData bs) = bs"
| "data_of _ = []"

fun is_result :: "multistream_output \<Rightarrow> bool" where
  "is_result (MsOutboundData bs) = False"
| "is_result _ = True"

inductive session_step :: "session \<Rightarrow> session \<Rightarrow> bool" where
  poll_dialer: "ms_poll_output (s_dialer s) = (Some x, d) \<Longrightarrow>
    session_step s (s\<lparr>s_dialer := d, to_listener := to_listener s @ data_of x,
      result_dialer := result_dialer s @ filter is_result [x]\<rparr>)"
| poll_listener: "ms_poll_output (s_listener s) = (Some x, l) \<Longrightarrow>
    session_step s (s\<lparr>s_listener := l, to_dialer := to_dialer s @ data_of x,
      result_listener := result_listener s @ filter is_result [x]\<rparr>)"
| deliver_listener: "to_listener s = a @ b \<Longrightarrow> a \<noteq> [] \<Longrightarrow>
    ms_handle_input (MsData a) (s_listener s) = Some (l, r) \<Longrightarrow>
    session_step s (s\<lparr>s_listener := l, to_listener := b, got_listener := got_listener s @ a\<rparr>)"
| deliver_dialer: "to_dialer s = a @ b \<Longrightarrow> a \<noteq> [] \<Longrightarrow>
    ms_handle_input (MsData a) (s_dialer s) = Some (d, r) \<Longrightarrow>
    session_step s (s\<lparr>s_dialer := d, to_dialer := b, got_dialer := got_dialer s @ a\<rparr>)"

definition session_reachable :: "rstr \<Rightarrow> rstr list \<Rightarrow> session \<Rightarrow> bool" where
  "session_reachable p ps s \<longleftrightarrow> session_step\<^sup>*\<^sup>* (session_init p ps) s"

text \<open>The lines the two sides exchange, and the result they should reach.\<close>

abbreviation header_line :: bytes where
  "header_line \<equiv> encode_message MULTISTREAM_PROTOCOL_ID"

definition answer :: "rstr \<Rightarrow> rstr list \<Rightarrow> rstr" where
  "answer p ps = (if p \<in> set ps then p else NOT_AVAILABLE)"

definition outcome :: "rstr \<Rightarrow> rstr list \<Rightarrow> multistream_output" where
  "outcome p ps = (if p \<in> set ps then MsNegotiated p else MsNotAvailable)"

section \<open>One endpoint\<close>

text \<open>
  An endpoint that has been given the bytes \<open>got\<close> is the fresh machine run on \<open>got\<close>; what has been
  polled from it, together with what is pending, is the header followed by that run's outputs.
\<close>

definition endpoint ::
  "multistream_select \<Rightarrow> bytes \<Rightarrow> multistream_select \<Rightarrow> bytes \<Rightarrow> multistream_output list \<Rightarrow> bool" where
  "endpoint m0 got m sent results \<longleftrightarrow>
     (\<exists>t outs polled. ms_receive m0 got = Some (t, outs) \<and> m = t\<lparr>ms_pending := ms_pending m\<rparr> \<and>
        polled @ ms_pending m = MsOutboundData header_line # outs \<and>
        sent = concat (map data_of polled) \<and> results = filter is_result polled)"

lemma endpoint_poll:
  assumes "endpoint m0 got m sent results" and "ms_poll_output m = (Some x, m')"
  shows "endpoint m0 got m' (sent @ data_of x) (results @ filter is_result [x])"
proof -
  obtain t outs polled where e: "ms_receive m0 got = Some (t, outs)" "m = t\<lparr>ms_pending := ms_pending m\<rparr>"
    "polled @ ms_pending m = MsOutboundData header_line # outs"
    "sent = concat (map data_of polled)" "results = filter is_result polled"
    using assms(1) by (auto simp: endpoint_def)
  obtain xs where xs: "ms_pending m = x # xs" "m' = m\<lparr>ms_pending := xs\<rparr>"
    using assms(2) by (auto simp: ms_poll_output_def split: list.splits)
  have "m' = t\<lparr>ms_pending := ms_pending m'\<rparr>"
    using e(2) xs(2) by (metis multistream_select.surjective multistream_select.update_convs(7)
        multistream_select.select_convs(7))
  then show ?thesis
    unfolding endpoint_def using e xs
    by (intro exI [of _ t] exI [of _ outs] exI [of _ "polled @ [x]"]) simp
qed

lemma ms_pending_commute:
  "s\<lparr>ms_pending := ps, ms_recv_buf := b\<rparr> = s\<lparr>ms_recv_buf := b, ms_pending := ps\<rparr>"
  by simp

lemma ms_receive_pending:
  "ms_receive (s\<lparr>ms_pending := ps\<rparr>) a = map_option (\<lambda>(t, outs). (t\<lparr>ms_pending := ps\<rparr>, outs)) (ms_receive s a)"
proof -
  have "receive_loop (s\<lparr>ms_pending := ps\<rparr>) outs =
      map_option (\<lambda>(t, outs). (t\<lparr>ms_pending := ps\<rparr>, outs)) (receive_loop s outs)" for s outs
  proof (induction s outs rule: receive_loop.induct)
    case (1 s outs)
    have comm: "s\<lparr>ms_pending := ps, ms_state := a, ms_recv_buf := b\<rparr> =
        s\<lparr>ms_state := a, ms_recv_buf := b, ms_pending := ps\<rparr>" for a b
      by simp
    show ?case
      using "1.IH"
      by (subst (1 2) receive_loop.simps) (simp add: comm split: decode_result.split option.split)
  qed
  from this [of "s\<lparr>ms_recv_buf := ms_recv_buf s @ a\<rparr>" "[]"]
  have "receive_loop (s\<lparr>ms_pending := ps, ms_recv_buf := ms_recv_buf s @ a\<rparr>) [] =
      map_option (\<lambda>(t, outs). (t\<lparr>ms_pending := ps\<rparr>, outs))
        (receive_loop (s\<lparr>ms_recv_buf := ms_recv_buf s @ a\<rparr>) [])"
    by (simp add: ms_pending_commute)
  then show ?thesis
    by (simp add: ms_receive_def)
qed

lemma endpoint_deliver:
  assumes e: "endpoint m0 got m sent results" and h: "ms_handle_input (MsData a) m = Some (m', r)"
    and running: "ms_state m \<noteq> MsDone"
  shows "endpoint m0 (got @ a) m' sent results"
proof -
  obtain t outs polled where e: "ms_receive m0 got = Some (t, outs)" "m = t\<lparr>ms_pending := ms_pending m\<rparr>"
    "polled @ ms_pending m = MsOutboundData header_line # outs"
    "sent = concat (map data_of polled)" "results = filter is_result polled"
    using e by (auto simp: endpoint_def)
  have "ms_receive m a = map_option (\<lambda>(u, outs). (u\<lparr>ms_pending := ms_pending m\<rparr>, outs)) (ms_receive t a)"
    by (metis e(2) ms_receive_pending)
  then obtain u outs' where u: "ms_receive t a = Some (u, outs')"
    "m' = u\<lparr>ms_pending := ms_pending m @ outs'\<rparr>"
    using h by (auto simp: ms_handle_input_def)
  have "ms_state t \<noteq> MsDone"
    using running e(2) by (metis multistream_select.surjective multistream_select.update_convs(7)
        multistream_select.select_convs(2))
  then have "ms_receive m0 (got @ a) = Some (u, outs @ outs')"
    using ms_receive_append [OF e(1) u(1)] by simp
  then show ?thesis
    unfolding endpoint_def using e u
    by (intro exI [of _ u] exI [of _ "outs @ outs'"] exI [of _ polled]) simp
qed

section \<open>What each side does on the bytes of the other\<close>

lemma names_ok: "protocol_name_ok MULTISTREAM_PROTOCOL_ID" "protocol_name_ok NOT_AVAILABLE"
  by (simp_all add: protocol_name_ok_def MULTISTREAM_PROTOCOL_ID_def NOT_AVAILABLE_def lit_def
      MAX_MESSAGE_LEN_def)

lemma answer_ok: "protocol_name_ok p \<Longrightarrow> protocol_name_ok (answer p ps)"
  by (simp add: answer_def names_ok)

text \<open>A prefix of two messages stops inside the first, inside the second, or at the end.\<close>

lemma prefix_two_messages:
  assumes "prefix r (encode_message a @ encode_message b)"
  obtains (first) k where "r = take k (encode_message a)" "k < length (encode_message a)"
      "r \<noteq> encode_message a @ encode_message b"
  | (second) k where "r = encode_message a @ take k (encode_message b)" "k < length (encode_message b)"
      "r \<noteq> encode_message a @ encode_message b"
  | (both) "r = encode_message a @ encode_message b"
proof -
  have r: "r = take (length r) (encode_message a @ encode_message b)"
    using assms by (metis append_eq_conv_conj prefixE)
  consider "length r < length (encode_message a)"
    | "length (encode_message a) \<le> length r" "length r - length (encode_message a) < length (encode_message b)"
    | "length (encode_message a) + length (encode_message b) \<le> length r"
    by linarith
  then show ?thesis
  proof cases
    case 1
    then have "r \<noteq> encode_message a @ encode_message b"
      by (auto simp del: length_encode_message)
    then show ?thesis
      using 1 r first [of "length r"] by (simp add: take_append del: length_encode_message)
  next
    case 2
    then have "r \<noteq> encode_message a @ encode_message b"
      by (auto simp del: length_encode_message)
    then show ?thesis
      using 2 r second [of "length r - length (encode_message a)"]
      by (simp add: take_append del: length_encode_message)
  next
    case 3
    then show ?thesis
      using r both by (simp add: take_append del: length_encode_message)
  qed
qed

definition dialer_outputs :: "rstr \<Rightarrow> rstr list \<Rightarrow> bytes \<Rightarrow> multistream_output list" where
  "dialer_outputs p ps r =
     (if length header_line \<le> length r then [MsOutboundData (encode_message p)] else []) @
     (if r = header_line @ encode_message (answer p ps) then [outcome p ps] else [])"

definition listener_outputs :: "rstr \<Rightarrow> rstr list \<Rightarrow> bytes \<Rightarrow> multistream_output list" where
  "listener_outputs p ps r =
     (if r = header_line @ encode_message p
      then [MsOutboundData (encode_message (answer p ps)), outcome p ps] else [])"

lemma receive_loop_line:
  assumes "ms_state s \<noteq> MsDone" and "ms_recv_buf s = encode_message line @ rest" and "protocol_name_ok line"
    and "handle_message (ms_role s) (ms_state s) (desired_protocol s) (supported_protocols s) line =
      Some (st, produced)"
  shows "receive_loop s outs = receive_loop (s\<lparr>ms_state := st, ms_recv_buf := rest\<rparr>) (outs @ produced)"
  using assms by (subst receive_loop.simps) (simp add: codec)

lemma receive_loop_part:
  assumes "ms_recv_buf s = take k (encode_message line)" and "k < length (encode_message line)"
    and "protocol_name_ok line"
  shows "receive_loop s outs = Some (s, outs)"
  using assms by (subst receive_loop.simps) (simp add: decode_message_prefix)

lemma receive_loop_done: "ms_state s = MsDone \<Longrightarrow> receive_loop s outs = Some (s, outs)"
  by (simp add: receive_loop.simps)

lemma dialer_run:
  assumes p: "protocol_name_ok p" "p \<noteq> NOT_AVAILABLE \<or> p \<in> set ps"
    and r: "prefix r (header_line @ encode_message (answer p ps))"
  obtains t where "ms_receive ((ms_dialer p)\<lparr>ms_started := True\<rparr>) r = Some (t, dialer_outputs p ps r)"
    "ms_state t = MsDone \<longleftrightarrow> r = header_line @ encode_message (answer p ps)"
    "ms_state t = MsDone \<Longrightarrow> ms_recv_buf t = []"
proof -
  let ?m = "(ms_dialer p)\<lparr>ms_started := True, ms_recv_buf := r\<rparr>"
  let ?w = "?m\<lparr>ms_state := WaitingForProtocolResponse\<rparr>"
  have hdr: "receive_loop ?m [] =
      receive_loop (?w\<lparr>ms_recv_buf := rest\<rparr>) [MsOutboundData (encode_message p)]"
    if "r = header_line @ rest" for rest
    using receive_loop_line [of ?m MULTISTREAM_PROTOCOL_ID rest WaitingForProtocolResponse
        "[MsOutboundData (encode_message p)]" "[]"] that
    by (simp add: ms_dialer_def handle_message_def names_ok)
  from r show ?thesis
  proof (cases rule: prefix_two_messages)
    case (first k)
    then show ?thesis
      using first receive_loop_part [of ?m k MULTISTREAM_PROTOCOL_ID "[]"] names_ok
      by (intro that [of ?m]) (simp_all add: ms_receive_def dialer_outputs_def ms_dialer_def del: length_encode_message)
  next
    case (second k)
    then show ?thesis
      using second hdr [OF second(1)]
        receive_loop_part [of "?w\<lparr>ms_recv_buf := take k (encode_message (answer p ps))\<rparr>" k "answer p ps"
          "[MsOutboundData (encode_message p)]"] answer_ok [OF p(1)]
      by (intro that [of "?w\<lparr>ms_recv_buf := take k (encode_message (answer p ps))\<rparr>"])
        (simp_all add: ms_receive_def dialer_outputs_def ms_dialer_def del: length_encode_message)
  next
    case both
    have "handle_message Dialer WaitingForProtocolResponse (Some p) {} (answer p ps) =
        Some (MsDone, [outcome p ps])"
      using p(2) by (auto simp: handle_message_def answer_def outcome_def)
    then show ?thesis
      using both hdr [OF both] answer_ok [OF p(1)]
        receive_loop_line [of "?w\<lparr>ms_recv_buf := encode_message (answer p ps)\<rparr>" "answer p ps" "[]" MsDone
          "[outcome p ps]" "[MsOutboundData (encode_message p)]"]
      by (intro that [of "?w\<lparr>ms_state := MsDone, ms_recv_buf := []\<rparr>"])
        (simp_all add: ms_receive_def dialer_outputs_def ms_dialer_def receive_loop_done del: length_encode_message)
  qed
qed

lemma listener_run:
  assumes p: "protocol_name_ok p" and r: "prefix r (header_line @ encode_message p)"
  obtains t where "ms_receive ((ms_listener ps)\<lparr>ms_started := True\<rparr>) r = Some (t, listener_outputs p ps r)"
    "ms_state t = MsDone \<longleftrightarrow> r = header_line @ encode_message p"
    "ms_state t = MsDone \<Longrightarrow> ms_recv_buf t = []"
proof -
  let ?m = "(ms_listener ps)\<lparr>ms_started := True, ms_recv_buf := r\<rparr>"
  let ?w = "?m\<lparr>ms_state := WaitingForProtocolRequest\<rparr>"
  have hdr: "receive_loop ?m [] = receive_loop (?w\<lparr>ms_recv_buf := rest\<rparr>) []"
    if "r = header_line @ rest" for rest
    using receive_loop_line [of ?m MULTISTREAM_PROTOCOL_ID rest WaitingForProtocolRequest "[]" "[]"] that
    by (simp add: ms_listener_def handle_message_def names_ok)
  from r show ?thesis
  proof (cases rule: prefix_two_messages)
    case (first k)
    then show ?thesis
      using receive_loop_part [of ?m k MULTISTREAM_PROTOCOL_ID "[]"] names_ok
      by (intro that [of ?m]) (simp_all add: ms_receive_def listener_outputs_def ms_listener_def del: length_encode_message)
  next
    case (second k)
    then show ?thesis
      using hdr [OF second(1)] p
        receive_loop_part [of "?w\<lparr>ms_recv_buf := take k (encode_message p)\<rparr>" k p "[]"]
      by (intro that [of "?w\<lparr>ms_recv_buf := take k (encode_message p)\<rparr>"])
        (simp_all add: ms_receive_def listener_outputs_def ms_listener_def del: length_encode_message)
  next
    case both
    let ?outs = "[MsOutboundData (encode_message (answer p ps)), outcome p ps]"
    have "handle_message Listener WaitingForProtocolRequest None (set ps) p = Some (MsDone, ?outs)"
      by (auto simp: handle_message_def answer_def outcome_def)
    then show ?thesis
      using both hdr [OF both] p
        receive_loop_line [of "?w\<lparr>ms_recv_buf := encode_message p\<rparr>" p "[]" MsDone ?outs "[]"]
      by (intro that [of "?w\<lparr>ms_state := MsDone, ms_recv_buf := []\<rparr>"])
        (simp_all add: ms_receive_def listener_outputs_def ms_listener_def receive_loop_done del: length_encode_message)
  qed
qed

section \<open>Runs\<close>

definition session_ok :: "rstr \<Rightarrow> rstr list \<Rightarrow> session \<Rightarrow> bool" where
  "session_ok p ps s \<longleftrightarrow>
     endpoint ((ms_dialer p)\<lparr>ms_started := True\<rparr>) (got_dialer s) (s_dialer s)
       (got_listener s @ to_listener s) (result_dialer s) \<and>
     endpoint ((ms_listener ps)\<lparr>ms_started := True\<rparr>) (got_listener s) (s_listener s)
       (got_dialer s @ to_dialer s) (result_listener s) \<and>
     prefix (got_dialer s @ to_dialer s) (header_line @ encode_message (answer p ps)) \<and>
     prefix (got_listener s @ to_listener s) (header_line @ encode_message p)"

lemma session_ok_init: "session_ok p ps (session_init p ps)"
proof -
  have e: "endpoint (s\<lparr>ms_started := True\<rparr>) [] (started s) [] []"
    if "ms_pending s = []" "ms_recv_buf s = []" "\<not> ms_started s" for s
  proof -
    have "decode_message [] = Incomplete"
      by (simp add: decode_message_def)
    then have "ms_receive (s\<lparr>ms_started := True\<rparr>) [] = Some (s\<lparr>ms_started := True\<rparr>, [])"
      using that by (simp add: ms_receive_def receive_loop.simps)
    then show ?thesis
      unfolding endpoint_def started_def ms_start_def using that
      by (intro exI [of _ "s\<lparr>ms_started := True\<rparr>"] exI [of _ "[]"]) simp
  qed
  show ?thesis
    using e [of "ms_dialer p"] e [of "ms_listener ps"]
    by (simp add: session_ok_def session_init_def ms_dialer_def ms_listener_def)
qed

lemma endpoint_sent:
  assumes "endpoint m0 got m sent results" and "ms_receive m0 got = Some (t, outs)"
  shows "prefix sent (header_line @ concat (map data_of outs))"
    "prefix results (filter is_result outs)"
    "ms_state m = ms_state t"
    "ms_pending m = [] \<Longrightarrow> sent = header_line @ concat (map data_of outs) \<and> results = filter is_result outs"
proof -
  obtain polled where e: "m = t\<lparr>ms_pending := ms_pending m\<rparr>"
    "polled @ ms_pending m = MsOutboundData header_line # outs"
    "sent = concat (map data_of polled)" "results = filter is_result polled"
    using assms by (auto simp: endpoint_def)
  have d: "concat (map data_of polled) @ concat (map data_of (ms_pending m)) =
      header_line @ concat (map data_of outs)"
    using arg_cong [OF e(2), of "\<lambda>xs. concat (map data_of xs)"] by simp
  then show "prefix sent (header_line @ concat (map data_of outs))"
    using e(3) by (metis prefixI)
  have f: "filter is_result polled @ filter is_result (ms_pending m) = filter is_result outs"
    using arg_cong [OF e(2), of "filter is_result"] by simp
  then show "prefix results (filter is_result outs)"
    using e(4) by (metis prefixI)
  show "ms_state m = ms_state t"
    using e(1) by (metis multistream_select.surjective multistream_select.update_convs(7)
        multistream_select.select_convs(2))
  show "sent = header_line @ concat (map data_of outs) \<and> results = filter is_result outs"
    if "ms_pending m = []"
    using d f e that by simp
qed

lemma prefix_under: "prefix a (h @ b) \<Longrightarrow> prefix b c \<Longrightarrow> prefix a (h @ c)"
  using prefix_order.order_trans [of a "h @ b" "h @ c"] by simp

lemma dialer_data: "prefix (concat (map data_of (dialer_outputs p ps r))) (encode_message p)"
  by (simp add: dialer_outputs_def outcome_def)

lemma listener_data:
  "prefix (concat (map data_of (listener_outputs p ps r))) (encode_message (answer p ps))"
  by (simp add: listener_outputs_def outcome_def)

text \<open>The hypotheses of a meaningful run, and the two endpoints of a state that satisfies the invariant.\<close>

definition negotiable :: "rstr \<Rightarrow> rstr list \<Rightarrow> bool" where
  "negotiable p ps \<longleftrightarrow> protocol_name_ok p \<and> (p \<noteq> NOT_AVAILABLE \<or> p \<in> set ps)"

lemma session_dialer:
  assumes "negotiable p ps" and "session_ok p ps s"
  obtains t where
    "ms_receive ((ms_dialer p)\<lparr>ms_started := True\<rparr>) (got_dialer s) = Some (t, dialer_outputs p ps (got_dialer s))"
    "ms_state (s_dialer s) = MsDone \<longleftrightarrow> got_dialer s = header_line @ encode_message (answer p ps)"
proof -
  have "prefix (got_dialer s) (header_line @ encode_message (answer p ps))"
    using assms(2) by (auto simp: session_ok_def dest: append_prefixD)
  then obtain t where t:
    "ms_receive ((ms_dialer p)\<lparr>ms_started := True\<rparr>) (got_dialer s) = Some (t, dialer_outputs p ps (got_dialer s))"
    "ms_state t = MsDone \<longleftrightarrow> got_dialer s = header_line @ encode_message (answer p ps)"
    using dialer_run assms(1) by (metis negotiable_def)
  then show ?thesis
    using assms(2) endpoint_sent(3) that by (metis session_ok_def)
qed

lemma session_listener:
  assumes "negotiable p ps" and "session_ok p ps s"
  obtains t where
    "ms_receive ((ms_listener ps)\<lparr>ms_started := True\<rparr>) (got_listener s) =
       Some (t, listener_outputs p ps (got_listener s))"
    "ms_state (s_listener s) = MsDone \<longleftrightarrow> got_listener s = header_line @ encode_message p"
proof -
  have "prefix (got_listener s) (header_line @ encode_message p)"
    using assms(2) by (auto simp: session_ok_def dest: append_prefixD)
  then obtain t where t:
    "ms_receive ((ms_listener ps)\<lparr>ms_started := True\<rparr>) (got_listener s) =
       Some (t, listener_outputs p ps (got_listener s))"
    "ms_state t = MsDone \<longleftrightarrow> got_listener s = header_line @ encode_message p"
    using listener_run assms(1) by (metis negotiable_def)
  then show ?thesis
    using assms(2) endpoint_sent(3) that by (metis session_ok_def)
qed

lemma session_ok_step:
  assumes n: "negotiable p ps" and s: "session_ok p ps s" and step: "session_step s s'"
  shows "session_ok p ps s'"
  using step
proof cases
  case (poll_dialer x d)
  obtain t where t: "ms_receive ((ms_dialer p)\<lparr>ms_started := True\<rparr>) (got_dialer s) =
      Some (t, dialer_outputs p ps (got_dialer s))"
    using session_dialer [OF n s] .
  have e: "endpoint ((ms_dialer p)\<lparr>ms_started := True\<rparr>) (got_dialer s) d
      ((got_listener s @ to_listener s) @ data_of x) (result_dialer s @ filter is_result [x])"
    by (rule endpoint_poll) (use s poll_dialer in \<open>simp_all add: session_ok_def\<close>)
  have "prefix ((got_listener s @ to_listener s) @ data_of x) (header_line @ encode_message p)"
    by (rule prefix_under [OF endpoint_sent(1) [OF e t] dialer_data])
  then show ?thesis
    using e s poll_dialer by (simp add: session_ok_def)
next
  case (poll_listener x l)
  obtain t where t: "ms_receive ((ms_listener ps)\<lparr>ms_started := True\<rparr>) (got_listener s) =
      Some (t, listener_outputs p ps (got_listener s))"
    using session_listener [OF n s] .
  have e: "endpoint ((ms_listener ps)\<lparr>ms_started := True\<rparr>) (got_listener s) l
      ((got_dialer s @ to_dialer s) @ data_of x) (result_listener s @ filter is_result [x])"
    by (rule endpoint_poll) (use s poll_listener in \<open>simp_all add: session_ok_def\<close>)
  have "prefix ((got_dialer s @ to_dialer s) @ data_of x) (header_line @ encode_message (answer p ps))"
    by (rule prefix_under [OF endpoint_sent(1) [OF e t] listener_data])
  then show ?thesis
    using e s poll_listener by (simp add: session_ok_def)
next
  case (deliver_listener a b l r)
  have "got_listener s \<noteq> header_line @ encode_message p"
    using s deliver_listener by (auto simp: session_ok_def)
  then have "ms_state (s_listener s) \<noteq> MsDone"
    using session_listener [OF n s] by metis
  then have "endpoint ((ms_listener ps)\<lparr>ms_started := True\<rparr>) (got_listener s @ a) l
      (got_dialer s @ to_dialer s) (result_listener s)"
    using s deliver_listener by (intro endpoint_deliver) (auto simp: session_ok_def)
  then show ?thesis
    using s deliver_listener by (simp add: session_ok_def)
next
  case (deliver_dialer a b d r)
  have "got_dialer s \<noteq> header_line @ encode_message (answer p ps)"
    using s deliver_dialer by (auto simp: session_ok_def)
  then have "ms_state (s_dialer s) \<noteq> MsDone"
    using session_dialer [OF n s] by metis
  then have "endpoint ((ms_dialer p)\<lparr>ms_started := True\<rparr>) (got_dialer s @ a) d
      (got_listener s @ to_listener s) (result_dialer s)"
    using s deliver_dialer by (intro endpoint_deliver) (auto simp: session_ok_def)
  then show ?thesis
    using s deliver_dialer by (simp add: session_ok_def)
qed

lemma session_ok_reachable:
  assumes n: "negotiable p ps" and r: "session_reachable p ps s"
  shows "session_ok p ps s"
  using r unfolding session_reachable_def
proof (induction rule: rtranclp_induct)
  case base
  show ?case
    by (rule session_ok_init)
next
  case (step s s')
  then show ?case
    using session_ok_step [OF n] by blast
qed

definition quiescent :: "session \<Rightarrow> bool" where
  "quiescent s \<longleftrightarrow> ms_is_idle (s_dialer s) \<and> ms_is_idle (s_listener s) \<and>
     to_listener s = [] \<and> to_dialer s = []"

lemma session_results:
  assumes n: "negotiable p ps" and s: "session_ok p ps s"
  shows "prefix (result_dialer s) [outcome p ps]" "prefix (result_listener s) [outcome p ps]"
proof -
  obtain t where "ms_receive ((ms_dialer p)\<lparr>ms_started := True\<rparr>) (got_dialer s) =
      Some (t, dialer_outputs p ps (got_dialer s))"
    using session_dialer [OF n s] .
  then have "prefix (result_dialer s) (filter is_result (dialer_outputs p ps (got_dialer s)))"
    using s endpoint_sent(2) by (metis session_ok_def)
  moreover have "prefix (filter is_result (dialer_outputs p ps (got_dialer s))) [outcome p ps]"
    by (simp add: dialer_outputs_def outcome_def)
  ultimately show "prefix (result_dialer s) [outcome p ps]"
    by (rule prefix_order.order_trans)
  obtain u where "ms_receive ((ms_listener ps)\<lparr>ms_started := True\<rparr>) (got_listener s) =
      Some (u, listener_outputs p ps (got_listener s))"
    using session_listener [OF n s] .
  then have "prefix (result_listener s) (filter is_result (listener_outputs p ps (got_listener s)))"
    using s endpoint_sent(2) by (metis session_ok_def)
  moreover have "prefix (filter is_result (listener_outputs p ps (got_listener s))) [outcome p ps]"
    by (simp add: listener_outputs_def outcome_def)
  ultimately show "prefix (result_listener s) [outcome p ps]"
    by (rule prefix_order.order_trans)
qed

lemma session_quiescent:
  assumes n: "negotiable p ps" and s: "session_ok p ps s" and q: "quiescent s"
  shows "result_dialer s = [outcome p ps]" "result_listener s = [outcome p ps]"
    "ms_is_done (s_dialer s)" "ms_is_done (s_listener s)"
proof -
  have idle: "ms_pending (s_dialer s) = []" "ms_pending (s_listener s) = []"
    "to_listener s = []" "to_dialer s = []"
    using q by (simp_all add: quiescent_def ms_is_idle_def)
  have d: "endpoint ((ms_dialer p)\<lparr>ms_started := True\<rparr>) (got_dialer s) (s_dialer s)
       (got_listener s) (result_dialer s)"
    and l: "endpoint ((ms_listener ps)\<lparr>ms_started := True\<rparr>) (got_listener s) (s_listener s)
       (got_dialer s) (result_listener s)"
    using s idle by (simp_all add: session_ok_def)
  obtain t where t: "ms_receive ((ms_dialer p)\<lparr>ms_started := True\<rparr>) (got_dialer s) =
      Some (t, dialer_outputs p ps (got_dialer s))"
    and td: "ms_state (s_dialer s) = MsDone \<longleftrightarrow> got_dialer s = header_line @ encode_message (answer p ps)"
    using session_dialer [OF n s] .
  obtain u where u: "ms_receive ((ms_listener ps)\<lparr>ms_started := True\<rparr>) (got_listener s) =
      Some (u, listener_outputs p ps (got_listener s))"
    and ud: "ms_state (s_listener s) = MsDone \<longleftrightarrow> got_listener s = header_line @ encode_message p"
    using session_listener [OF n s] .
  note dl = endpoint_sent(4) [OF d t idle(1)]
  note ld = endpoint_sent(4) [OF l u idle(2)]
  have "length header_line \<le> length (got_dialer s)"
    using ld by simp
  then have gl: "got_listener s = header_line @ encode_message p"
    using dl by (simp add: dialer_outputs_def outcome_def split: if_splits)
  then have gd: "got_dialer s = header_line @ encode_message (answer p ps)"
    using ld by (simp add: listener_outputs_def outcome_def split: if_splits)
  show "result_dialer s = [outcome p ps]" "result_listener s = [outcome p ps]"
    using dl ld gl gd by (simp_all add: dialer_outputs_def listener_outputs_def outcome_def)
  show "ms_is_done (s_dialer s)" "ms_is_done (s_listener s)"
    using td ud gl gd by (simp_all add: ms_is_done_def)
qed

text \<open>A run goes on until it is quiescent, and it cannot go on forever.\<close>

lemma endpoint_ms_ok:
  assumes "endpoint m0 got m sent results" and "ms_ok m0"
  shows "ms_ok m"
proof -
  obtain t outs where t: "ms_receive m0 got = Some (t, outs)" "m = t\<lparr>ms_pending := ms_pending m\<rparr>"
    using assms(1) by (auto simp: endpoint_def)
  have "ms_ok t"
    using ms_receive_ok [OF assms(2), of got] t(1) by auto
  then have "ms_ok (t\<lparr>ms_pending := ms_pending m\<rparr>)"
    by (simp add: ms_ok_def)
  then show ?thesis
    using t(2) by simp
qed

lemma session_progress:
  assumes s: "session_ok p ps s" and q: "\<not> quiescent s"
  shows "\<exists>s'. session_step s s'"
proof -
  have ok: "ms_ok (s_dialer s)" "ms_ok (s_listener s)"
    using s endpoint_ms_ok [of "(ms_dialer p)\<lparr>ms_started := True\<rparr>"]
      endpoint_ms_ok [of "(ms_listener ps)\<lparr>ms_started := True\<rparr>"]
    by (auto simp: session_ok_def ms_ok_def ms_dialer_def ms_listener_def)
  consider "ms_pending (s_dialer s) \<noteq> []" | "ms_pending (s_listener s) \<noteq> []"
    | "to_listener s \<noteq> []" | "to_dialer s \<noteq> []"
    using q by (auto simp: quiescent_def ms_is_idle_def)
  then show ?thesis
  proof cases
    case 1
    then obtain x xs where "ms_poll_output (s_dialer s) = (Some x, (s_dialer s)\<lparr>ms_pending := xs\<rparr>)"
      by (auto simp: neq_Nil_conv ms_poll_output_def)
    then show ?thesis
      by (blast intro: session_step.poll_dialer)
  next
    case 2
    then obtain x xs where "ms_poll_output (s_listener s) = (Some x, (s_listener s)\<lparr>ms_pending := xs\<rparr>)"
      by (auto simp: neq_Nil_conv ms_poll_output_def)
    then show ?thesis
      by (blast intro: session_step.poll_listener)
  next
    case 3
    then show ?thesis
      using ms_handle_input_total [OF ok(2), of "MsData (to_listener s)"]
        session_step.deliver_listener [of s "to_listener s" "[]"] by auto
  next
    case 4
    then show ?thesis
      using ms_handle_input_total [OF ok(1), of "MsData (to_dialer s)"]
        session_step.deliver_dialer [of s "to_dialer s" "[]"] by auto
  qed
qed

definition session_work :: "rstr \<Rightarrow> rstr list \<Rightarrow> session \<Rightarrow> nat" where
  "session_work p ps s =
     4 * (length (header_line @ encode_message p) - length (got_listener s)) +
     4 * (length (header_line @ encode_message (answer p ps)) - length (got_dialer s)) +
     length (ms_pending (s_dialer s)) + length (ms_pending (s_listener s))"

lemma endpoint_pending:
  assumes "endpoint m0 got m sent results" and "ms_receive m0 got = Some (t, outs)"
  shows "length (ms_pending m) \<le> Suc (length outs)"
proof -
  obtain polled where "polled @ ms_pending m = MsOutboundData header_line # outs"
    using assms by (auto simp: endpoint_def)
  then have "length polled + length (ms_pending m) = Suc (length outs)"
    by (metis length_append length_Cons)
  then show ?thesis
    by simp
qed

lemma session_pending:
  assumes n: "negotiable p ps" and s: "session_ok p ps s"
  shows "length (ms_pending (s_dialer s)) \<le> 3" "length (ms_pending (s_listener s)) \<le> 3"
proof -
  obtain t where t: "ms_receive ((ms_dialer p)\<lparr>ms_started := True\<rparr>) (got_dialer s) =
      Some (t, dialer_outputs p ps (got_dialer s))"
    using session_dialer [OF n s] .
  have "length (dialer_outputs p ps (got_dialer s)) \<le> 2"
    by (simp add: dialer_outputs_def)
  then show "length (ms_pending (s_dialer s)) \<le> 3"
    using s endpoint_pending [OF _ t] by (fastforce simp: session_ok_def)
  obtain u where u: "ms_receive ((ms_listener ps)\<lparr>ms_started := True\<rparr>) (got_listener s) =
      Some (u, listener_outputs p ps (got_listener s))"
    using session_listener [OF n s] .
  have "length (listener_outputs p ps (got_listener s)) \<le> 2"
    by (simp add: listener_outputs_def)
  then show "length (ms_pending (s_listener s)) \<le> 3"
    using s endpoint_pending [OF _ u] by (fastforce simp: session_ok_def)
qed

lemma session_work_decreases:
  assumes n: "negotiable p ps" and s: "session_ok p ps s" and step: "session_step s s'"
  shows "session_work p ps s' < session_work p ps s"
proof -
  have s': "session_ok p ps s'"
    using session_ok_step [OF n s step] .
  note bound = session_pending [OF n s']
  have pre: "length (got_listener s') \<le> length (header_line @ encode_message p)"
    "length (got_dialer s') \<le> length (header_line @ encode_message (answer p ps))"
    using s' by (auto simp: session_ok_def simp del: length_encode_message
        dest!: append_prefixD prefix_length_le)
  from step show ?thesis
  proof cases
    case (poll_dialer x d)
    then show ?thesis
      by (auto simp: session_work_def ms_poll_output_def split: list.splits)
  next
    case (poll_listener x l)
    then show ?thesis
      by (auto simp: session_work_def ms_poll_output_def split: list.splits)
  next
    case (deliver_listener a b l r)
    have "0 < length a"
      using deliver_listener by simp
    then have "4 * (m - (k + length a)) + 3 < 4 * (m - k)" if "k + length a \<le> m" for k m
      using that by linarith
    then show ?thesis
      using deliver_listener bound pre
      by (fastforce simp: session_work_def simp del: length_encode_message)
  next
    case (deliver_dialer a b d r)
    have "0 < length a"
      using deliver_dialer by simp
    then have "4 * (m - (k + length a)) + 3 < 4 * (m - k)" if "k + length a \<le> m" for k m
      using that by linarith
    then show ?thesis
      using deliver_dialer bound pre
      by (fastforce simp: session_work_def simp del: length_encode_message)
  qed
qed

lemma session_quiesces:
  assumes n: "negotiable p ps"
  shows "session_ok p ps s \<Longrightarrow> \<exists>s'. session_step\<^sup>*\<^sup>* s s' \<and> quiescent s'"
proof (induction s rule: measure_induct_rule [where f = "session_work p ps"])
  case (less s)
  show ?case
  proof (cases "quiescent s")
    case False
    then obtain s1 where step: "session_step s s1"
      using session_progress [OF less.prems] by blast
    then obtain s' where "session_step\<^sup>*\<^sup>* s1 s'" "quiescent s'"
      using less.IH [of s1] session_work_decreases [OF n less.prems] session_ok_step [OF n less.prems]
      by blast
    then show ?thesis
      using step by (meson converse_rtranclp_into_rtranclp)
  qed blast
qed

lemma session_run_finite:
  assumes n: "negotiable p ps" and "f 0 = session_init p ps" and step: "\<And>i. session_step (f i) (f (Suc i))"
  shows False
proof -
  have ok: "session_ok p ps (f i)" for i
  proof (induction i)
    case 0
    then show ?case
      using session_ok_init assms(2) by simp
  next
    case (Suc i)
    then show ?case
      using session_ok_step [OF n] step by blast
  qed
  have "session_work p ps (f i) + i \<le> session_work p ps (f 0)" for i
  proof (induction i)
    case (Suc i)
    then show ?case
      using session_work_decreases [OF n ok step, of i] by linarith
  qed simp
  from this [of "Suc (session_work p ps (f 0))"] show False
    by simp
qed

section \<open>Properties\<close>



text \<open>
  C5. Negotiation completes: no run is infinite, and every reachable state leads to a quiescent one,
  so under any schedule that keeps polling and delivering both sides finish.
\<close>

theorem negotiation_completes:
  assumes "negotiable p ps"
  shows "\<not> (\<exists>f. f 0 = session_init p ps \<and> (\<forall>i. session_step (f i) (f (Suc i)))) \<and>
    (\<forall>s. session_reachable p ps s \<longrightarrow>
       (\<exists>s'. session_step\<^sup>*\<^sup>* s s' \<and> quiescent s') \<and> (quiescent s \<or> (\<exists>s'. session_step s s')))"
  using session_run_finite [OF assms] session_quiesces [OF assms] session_progress [of p ps]
    session_ok_reachable [OF assms] by blast

theorem negotiation_completes_witness:
  "\<exists>s'. session_step\<^sup>*\<^sup>* (session_init (lit ''/a/1'') []) s' \<and> quiescent s'"
proof -
  have "negotiable (lit ''/a/1'') []"
    by (simp add: negotiable_def protocol_name_ok_def MAX_MESSAGE_LEN_def NOT_AVAILABLE_def lit_def)
  from negotiation_completes [OF this] show ?thesis
    unfolding session_reachable_def by blast
qed

end
