(* ===== verification/Ping.thy ===== *)
theory Ping
  imports Ids SansIo
begin

text \<open>
  The ping protocol, \<open>crates/ping/src/lib.rs\<close>: one outbound stream and at most two inbound streams
  per peer, one ping in flight, receive buffers per stream.  Peer ids are compared and copied only,
  so they are an arbitrary linear order.  \<open>None\<close> is the panic of an \<open>expect("peer exists")\<close>.

  The theory shows that the machine's bookkeeping stays consistent and bounded, that no input makes
  it panic, that payloads are recognised however they are fragmented, and what a tick does.
\<close>

section \<open>The protocol\<close>

definition PING_PAYLOAD_LEN :: nat where
  "PING_PAYLOAD_LEN = 32"

record ping_config =
  request_timeout_ms :: u64

datatype 'p ping_action =
    PingSend 'p stream_id bytes
  | PingCloseStreamWrite 'p stream_id
  | PingResetStream 'p stream_id

datatype 'p ping_event =
    PingOutboundStreamRegistered 'p stream_id
  | PingInboundStreamAccepted 'p stream_id
  | PingRttMeasured 'p stream_id u64
  | PingTimeout 'p stream_id u64
  | PingOutboundStreamClosed 'p stream_id
  | PingStreamLimitExceeded 'p stream_id nat
  | PingProtocolViolation 'p stream_id rstr

datatype 'p ping_input =
    PingRegisterOutboundStream 'p stream_id
  | PingRegisterInboundStream 'p stream_id
  | PingSendPing 'p bytes u64
  | PingCloseOutboundStreamWrite 'p
  | PingStreamData 'p stream_id bytes u64
  | PingStreamRemoteWriteClosed 'p stream_id
  | PingStreamClosed 'p stream_id
  | PingRemovePeer 'p
  | PingMigratePeer 'p 'p
  | PingTick u64

datatype 'p ping_output = PingAction "'p ping_action" | PingEvent "'p ping_event"

datatype 'p ping_error =
    PingOutboundStreamExists 'p stream_id
  | PingOutboundStreamMissing 'p
  | PingAlreadyInFlight 'p stream_id
  | PingInvalidPayloadLength nat

record pending_ping =
  pend_payload :: bytes
  pend_sent_at :: u64

record peer_ping_state =
  outbound_stream :: "stream_id option"
  inbound_streams :: "stream_id btree_set"
  pending_ping :: "pending_ping option"
  recv_bufs :: "(stream_id, bytes) btree_map"

record 'p ping_protocol =
  ping_peers :: "('p, peer_ping_state) btree_map"
  ping_events :: "'p ping_event list"
  ping_actions :: "'p ping_action list"
  ping_cfg :: ping_config

definition peer_ping_default :: peer_ping_state where
  "peer_ping_default = \<lparr>outbound_stream = None, inbound_streams = [], pending_ping = None, recv_bufs = []\<rparr>"

definition ping_new :: "ping_config \<Rightarrow> 'p ping_protocol" where
  "ping_new config = \<lparr>ping_peers = [], ping_events = [], ping_actions = [], ping_cfg = config\<rparr>"

text \<open>\<open>get_mut\<close> followed by an update of the entry, and pushing an event.\<close>

definition set_peer :: "'p::linorder \<Rightarrow> peer_ping_state \<Rightarrow> 'p ping_protocol \<Rightarrow> 'p ping_protocol" where
  "set_peer p st s = s\<lparr>ping_peers := bm_insert p st (ping_peers s)\<rparr>"

definition push_event :: "'p ping_event \<Rightarrow> 'p ping_protocol \<Rightarrow> 'p ping_protocol" where
  "push_event e s = s\<lparr>ping_events := ping_events s @ [e]\<rparr>"

definition register_outbound_stream ::
  "'p::linorder \<Rightarrow> stream_id \<Rightarrow> 'p ping_protocol \<Rightarrow> 'p ping_protocol \<times> ('p ping_error + unit)" where
  "register_outbound_stream p sid s =
     (let peer = bm_entry peer_ping_default (ping_peers s) p;
          s = set_peer p peer s
      in case outbound_stream peer of
           Some existing \<Rightarrow>
             if existing \<noteq> sid then (s, Err (PingOutboundStreamExists p existing)) else (s, Ok ())
         | None \<Rightarrow>
             (push_event (PingOutboundStreamRegistered p sid)
                (set_peer p (peer\<lparr>outbound_stream := Some sid\<rparr>) s), Ok ()))"

definition register_inbound_stream ::
  "'p::linorder \<Rightarrow> stream_id \<Rightarrow> 'p ping_protocol \<Rightarrow> 'p ping_protocol \<times> 'p ping_action list" where
  "register_inbound_stream p sid s =
     (let peer = bm_entry peer_ping_default (ping_peers s) p;
          s = set_peer p peer s
      in if sid \<in> set (inbound_streams peer) then (s, [])
         else if 2 \<le> length (inbound_streams peer)
         then (push_event (PingStreamLimitExceeded p sid 2) s, [PingResetStream p sid])
         else (push_event (PingInboundStreamAccepted p sid)
                 (set_peer p (peer\<lparr>inbound_streams := bs_insert sid (inbound_streams peer)\<rparr>) s), []))"

definition send_ping ::
  "'p::linorder \<Rightarrow> bytes \<Rightarrow> u64 \<Rightarrow> 'p ping_protocol \<Rightarrow> 'p ping_protocol \<times> ('p ping_error + 'p ping_action)" where
  "send_ping p payload now_ms s =
     (if length payload \<noteq> PING_PAYLOAD_LEN then (s, Err (PingInvalidPayloadLength (length payload)))
      else case bm_get (ping_peers s) p of
        None \<Rightarrow> (s, Err (PingOutboundStreamMissing p))
      | Some peer \<Rightarrow>
          (case outbound_stream peer of
             None \<Rightarrow> (s, Err (PingOutboundStreamMissing p))
           | Some sid \<Rightarrow>
               if pending_ping peer \<noteq> None then (s, Err (PingAlreadyInFlight p sid))
               else (set_peer p (peer\<lparr>pending_ping := Some \<lparr>pend_payload = payload, pend_sent_at = now_ms\<rparr>\<rparr>) s,
                     Ok (PingSend p sid payload))))"

definition close_outbound_stream_write ::
  "'p::linorder \<Rightarrow> 'p ping_protocol \<Rightarrow> 'p ping_protocol \<times> ('p ping_error + 'p ping_action)" where
  "close_outbound_stream_write p s =
     (case bm_get (ping_peers s) p of
        None \<Rightarrow> (s, Err (PingOutboundStreamMissing p))
      | Some peer \<Rightarrow>
          (case outbound_stream peer of
             None \<Rightarrow> (s, Err (PingOutboundStreamMissing p))
           | Some sid \<Rightarrow>
               if pending_ping peer \<noteq> None then (s, Err (PingAlreadyInFlight p sid))
               else (s, Ok (PingCloseStreamWrite p sid))))"

definition protocol_violation ::
  "'p \<Rightarrow> stream_id \<Rightarrow> rstr \<Rightarrow> 'p ping_protocol \<Rightarrow> 'p ping_protocol \<times> 'p ping_action list" where
  "protocol_violation p sid reason s =
     (push_event (PingProtocolViolation p sid reason) s, [PingResetStream p sid])"

definition process_complete_payload ::
  "'p::linorder \<Rightarrow> stream_id \<Rightarrow> bytes \<Rightarrow> u64 \<Rightarrow> 'p ping_protocol \<Rightarrow>
     ('p ping_protocol \<times> 'p ping_action list) option" where
  "process_complete_payload p sid payload now_ms s =
     (case bm_get (ping_peers s) p of
        None \<Rightarrow> None
      | Some peer \<Rightarrow>
          Some (if outbound_stream peer = Some sid then
                  (case pending_ping peer of
                     None \<Rightarrow>
                       protocol_violation p sid (lit ''received ping response with no in-flight request'') s
                   | Some pending \<Rightarrow>
                       let s = set_peer p (peer\<lparr>pending_ping := None\<rparr>) s
                       in if pend_payload pending \<noteq> payload
                          then protocol_violation p sid (lit ''ping response payload mismatch'') s
                          else (push_event (PingRttMeasured p sid
                                  (saturating_sub now_ms (pend_sent_at pending))) s, []))
                else if sid \<in> set (inbound_streams peer) then (s, [PingSend p sid payload])
                else (s, [])))"

definition on_stream_data ::
  "'p::linorder \<Rightarrow> stream_id \<Rightarrow> bytes \<Rightarrow> u64 \<Rightarrow> 'p ping_protocol \<Rightarrow>
     ('p ping_protocol \<times> 'p ping_action list) option" where
  "on_stream_data p sid data now_ms s =
     (let is_known = (case bm_get (ping_peers s) p of
            None \<Rightarrow> False
          | Some peer \<Rightarrow> outbound_stream peer = Some sid \<or> sid \<in> set (inbound_streams peer))
      in if \<not> is_known then Some (protocol_violation p sid (lit ''ping data on unknown stream'') s)
         else case bm_get (ping_peers s) p of
           None \<Rightarrow> None
         | Some peer \<Rightarrow>
             let buf = bm_entry [] (recv_bufs peer) sid @ data;
                 peer = peer\<lparr>recv_bufs := bm_insert sid buf (recv_bufs peer)\<rparr>;
                 s = set_peer p peer s;
                 buf_len = length buf
             in if PING_PAYLOAD_LEN < buf_len
                then Some (protocol_violation p sid
                       (lit ''recv buffer '' @ show_nat buf_len @ lit '' bytes exceeds payload size '' @
                        show_nat PING_PAYLOAD_LEN)
                       (set_peer p (peer\<lparr>recv_bufs := bm_remove sid (recv_bufs peer)\<rparr>) s))
                else if buf_len < PING_PAYLOAD_LEN then Some (s, [])
                else process_complete_payload p sid buf now_ms
                       (set_peer p (peer\<lparr>recv_bufs := bm_remove sid (recv_bufs peer)\<rparr>) s))"

definition on_stream_remote_write_closed ::
  "'p::linorder \<Rightarrow> stream_id \<Rightarrow> 'p ping_protocol \<Rightarrow> 'p ping_protocol \<times> 'p ping_action list" where
  "on_stream_remote_write_closed p sid s =
     (case bm_get (ping_peers s) p of
        None \<Rightarrow> (s, [])
      | Some peer \<Rightarrow>
          if sid \<in> set (inbound_streams peer)
          then (set_peer p (peer\<lparr>inbound_streams := bs_remove sid (inbound_streams peer),
                  recv_bufs := bm_remove sid (recv_bufs peer)\<rparr>) s, [])
          else if outbound_stream peer = Some sid
          then (let s' = set_peer p (peer\<lparr>outbound_stream := None, pending_ping := None,
                    recv_bufs := bm_remove sid (recv_bufs peer)\<rparr>) s
                in if pending_ping peer \<noteq> None
                   then protocol_violation p sid (lit ''outbound stream closed before ping response'') s'
                   else (push_event (PingOutboundStreamClosed p sid) s', []))
          else (s, []))"

definition on_stream_closed ::
  "'p::linorder \<Rightarrow> stream_id \<Rightarrow> 'p ping_protocol \<Rightarrow> 'p ping_protocol" where
  "on_stream_closed p sid s =
     (case bm_get (ping_peers s) p of
        None \<Rightarrow> s
      | Some peer \<Rightarrow>
          let peer = peer\<lparr>inbound_streams := bs_remove sid (inbound_streams peer),
                recv_bufs := bm_remove sid (recv_bufs peer)\<rparr>
          in set_peer p (if outbound_stream peer = Some sid
               then peer\<lparr>outbound_stream := None, pending_ping := None\<rparr> else peer) s)"

definition remove_peer :: "'p::linorder \<Rightarrow> 'p ping_protocol \<Rightarrow> 'p ping_protocol" where
  "remove_peer p s = s\<lparr>ping_peers := bm_remove p (ping_peers s)\<rparr>"

fun rename_event :: "'p \<Rightarrow> 'p \<Rightarrow> 'p ping_event \<Rightarrow> 'p ping_event" where
  "rename_event old new (PingOutboundStreamRegistered p sid) =
     PingOutboundStreamRegistered (if p = old then new else p) sid"
| "rename_event old new (PingInboundStreamAccepted p sid) =
     PingInboundStreamAccepted (if p = old then new else p) sid"
| "rename_event old new (PingRttMeasured p sid rtt) =
     PingRttMeasured (if p = old then new else p) sid rtt"
| "rename_event old new (PingTimeout p sid t) = PingTimeout (if p = old then new else p) sid t"
| "rename_event old new (PingOutboundStreamClosed p sid) =
     PingOutboundStreamClosed (if p = old then new else p) sid"
| "rename_event old new (PingStreamLimitExceeded p sid l) =
     PingStreamLimitExceeded (if p = old then new else p) sid l"
| "rename_event old new (PingProtocolViolation p sid r) =
     PingProtocolViolation (if p = old then new else p) sid r"

definition migrate_peer :: "'p::linorder \<Rightarrow> 'p \<Rightarrow> 'p ping_protocol \<Rightarrow> 'p ping_protocol" where
  "migrate_peer old new s =
     (if old = new then s
      else s\<lparr>ping_peers := bm_rekey old new (ping_peers s),
             ping_events := map (rename_event old new) (ping_events s)\<rparr>)"

text \<open>The body of the loop over \<open>peers.iter_mut()\<close> for one entry: whether it fires, and its effects.\<close>

definition tick_expired :: "ping_config \<Rightarrow> u64 \<Rightarrow> peer_ping_state \<Rightarrow> stream_id option" where
  "tick_expired cfg now_ms peer =
     (case outbound_stream peer of
        None \<Rightarrow> None
      | Some sid \<Rightarrow>
          (case pending_ping peer of
             None \<Rightarrow> None
           | Some pending \<Rightarrow>
               if request_timeout_ms cfg < saturating_sub now_ms (pend_sent_at pending) then Some sid
               else None))"

fun tick_loop ::
  "ping_config \<Rightarrow> u64 \<Rightarrow> ('p \<times> peer_ping_state) list \<Rightarrow>
     ('p \<times> peer_ping_state) list \<times> 'p ping_event list \<times> 'p ping_action list" where
  "tick_loop cfg now_ms [] = ([], [], [])"
| "tick_loop cfg now_ms ((p, peer) # rest) =
     (let (rest', events, actions) = tick_loop cfg now_ms rest
      in case tick_expired cfg now_ms peer of
           None \<Rightarrow> ((p, peer) # rest', events, actions)
         | Some sid \<Rightarrow>
             ((p, peer\<lparr>outbound_stream := None, pending_ping := None,
                   recv_bufs := bm_remove sid (recv_bufs peer)\<rparr>) # rest',
              [PingTimeout p sid (request_timeout_ms cfg), PingOutboundStreamClosed p sid] @ events,
              PingResetStream p sid # actions))"

definition on_tick :: "u64 \<Rightarrow> 'p ping_protocol \<Rightarrow> 'p ping_protocol \<times> 'p ping_action list" where
  "on_tick now_ms s =
     (let (peers, events, actions) = tick_loop (ping_cfg s) now_ms (ping_peers s)
      in (s\<lparr>ping_peers := peers, ping_events := ping_events s @ events\<rparr>, actions))"

section \<open>The \<open>SansIoProtocol\<close> interface\<close>

definition extend_actions ::
  "'p ping_protocol \<times> 'p ping_action list \<Rightarrow> 'p ping_protocol \<times> ('p ping_error + unit)" where
  "extend_actions r = (case r of (s, actions) \<Rightarrow> (s\<lparr>ping_actions := ping_actions s @ actions\<rparr>, Ok ()))"

definition push_action ::
  "'p ping_protocol \<times> ('p ping_error + 'p ping_action) \<Rightarrow> 'p ping_protocol \<times> ('p ping_error + unit)" where
  "push_action r = (case r of
       (s, Inl e) \<Rightarrow> (s, Err e)
     | (s, Inr a) \<Rightarrow> (s\<lparr>ping_actions := ping_actions s @ [a]\<rparr>, Ok ()))"

fun ping_handle_input ::
  "'p::linorder ping_input \<Rightarrow> 'p ping_protocol \<Rightarrow> ('p ping_protocol \<times> ('p ping_error + unit)) option" where
  "ping_handle_input (PingRegisterOutboundStream p sid) s = Some (register_outbound_stream p sid s)"
| "ping_handle_input (PingRegisterInboundStream p sid) s =
     Some (extend_actions (register_inbound_stream p sid s))"
| "ping_handle_input (PingSendPing p payload now_ms) s = Some (push_action (send_ping p payload now_ms s))"
| "ping_handle_input (PingCloseOutboundStreamWrite p) s = Some (push_action (close_outbound_stream_write p s))"
| "ping_handle_input (PingStreamData p sid data now_ms) s =
     map_option extend_actions (on_stream_data p sid data now_ms s)"
| "ping_handle_input (PingStreamRemoteWriteClosed p sid) s =
     Some (extend_actions (on_stream_remote_write_closed p sid s))"
| "ping_handle_input (PingStreamClosed p sid) s = Some (on_stream_closed p sid s, Ok ())"
| "ping_handle_input (PingRemovePeer p) s = Some (remove_peer p s, Ok ())"
| "ping_handle_input (PingMigratePeer old new) s = Some (migrate_peer old new s, Ok ())"
| "ping_handle_input (PingTick now_ms) s = Some (extend_actions (on_tick now_ms s))"

definition ping_poll_output :: "'p ping_protocol \<Rightarrow> 'p ping_output option \<times> 'p ping_protocol" where
  "ping_poll_output s =
     (case ping_actions s of
        a # as \<Rightarrow> (Some (PingAction a), s\<lparr>ping_actions := as\<rparr>)
      | [] \<Rightarrow>
          (case ping_events s of
             [] \<Rightarrow> (None, s)
           | e # es \<Rightarrow> (Some (PingEvent e), s\<lparr>ping_events := es\<rparr>)))"

definition ping_is_idle :: "'p ping_protocol \<Rightarrow> bool" where
  "ping_is_idle s \<longleftrightarrow> ping_actions s = [] \<and> ping_events s = []"

section \<open>Consistency and bounds\<close>

definition peer_ping_ok :: "peer_ping_state \<Rightarrow> bool" where
  "peer_ping_ok st \<longleftrightarrow>
     bs_ok (inbound_streams st) \<and> length (inbound_streams st) \<le> 2 \<and>
     bm_ok (recv_bufs st) \<and> bm_all (\<lambda>buf. length buf < PING_PAYLOAD_LEN) (recv_bufs st) \<and>
     dom (bm_get (recv_bufs st)) \<subseteq> set_option (outbound_stream st) \<union> set (inbound_streams st) \<and>
     (pending_ping st \<noteq> None \<longrightarrow> outbound_stream st \<noteq> None)"

definition ping_ok :: "'p::linorder ping_protocol \<Rightarrow> bool" where
  "ping_ok s \<longleftrightarrow> bm_ok (ping_peers s) \<and> bm_all peer_ping_ok (ping_peers s)"

lemma peer_ping_ok_default [simp]: "peer_ping_ok peer_ping_default"
  by (simp add: peer_ping_ok_def peer_ping_default_def dom_def)

lemma ping_ok_new [simp]: "ping_ok (ping_new config)"
  by (simp add: ping_ok_def ping_new_def)

lemma ping_ok_set_peer [intro]: "ping_ok s \<Longrightarrow> peer_ping_ok st \<Longrightarrow> ping_ok (set_peer p st s)"
  by (auto simp: ping_ok_def set_peer_def bm.invar_upd)

lemma ping_ok_push_event [simp]: "ping_ok (push_event e s) = ping_ok s"
  by (simp add: ping_ok_def push_event_def)

lemma ping_ok_actions [simp]: "ping_ok (s\<lparr>ping_actions := as\<rparr>) = ping_ok s"
  by (simp add: ping_ok_def)

lemma ping_ok_get: "ping_ok s \<Longrightarrow> bm_get (ping_peers s) p = Some st \<Longrightarrow> peer_ping_ok st"
  by (auto simp: ping_ok_def dest: bm_allD)

lemma ping_ok_entry: "ping_ok s \<Longrightarrow> peer_ping_ok (bm_entry peer_ping_default (ping_peers s) p)"
  by (auto simp: bm_entry_def dest: ping_ok_get split: option.split)

lemma peer_ping_ok_close:
  assumes "peer_ping_ok st"
  shows "outbound_stream st = Some sid \<Longrightarrow> peer_ping_ok (st\<lparr>outbound_stream := None,
           pending_ping := None, recv_bufs := bm_remove sid (recv_bufs st)\<rparr>)"
    and "peer_ping_ok (st\<lparr>inbound_streams := bs_remove sid (inbound_streams st),
           recv_bufs := bm_remove sid (recv_bufs st)\<rparr>)"
    and "outbound_stream st = Some sid \<Longrightarrow> peer_ping_ok (st\<lparr>inbound_streams := bs_remove sid
           (inbound_streams st), recv_bufs := bm_remove sid (recv_bufs st), outbound_stream := None,
           pending_ping := None\<rparr>)"
    and "peer_ping_ok (st\<lparr>recv_bufs := bm_remove sid (recv_bufs st)\<rparr>)"
    and "peer_ping_ok (st\<lparr>pending_ping := None\<rparr>)"
  using assms length_bs_remove_le [of sid "inbound_streams st"]
  by (auto simp: peer_ping_ok_def bm.invar_del)

lemma get_set_peer [simp]: "bm_get (ping_peers (set_peer p st s)) q =
    (if q = p then Some st else bm_get (ping_peers s) q)"
  by (simp add: set_peer_def)

lemma set_peer_set_peer [simp]: "set_peer p st (set_peer p st' s) = set_peer p st s"
  by (simp add: set_peer_def)

lemma process_complete_payload_ok:
  assumes "ping_ok s" and "bm_get (ping_peers s) p = Some st"
  shows "\<exists>t actions. process_complete_payload p sid payload now_ms s = Some (t, actions) \<and> ping_ok t"
  using assms ping_ok_get [OF assms] peer_ping_ok_close(5)
  by (auto simp: process_complete_payload_def protocol_violation_def Let_def split: option.split
      intro!: ping_ok_set_peer)

lemma on_stream_data_ok:
  assumes "ping_ok s"
  shows "\<exists>t actions. on_stream_data p sid data now_ms s = Some (t, actions) \<and> ping_ok t"
proof (cases "\<exists>st. bm_get (ping_peers s) p = Some st \<and>
    (outbound_stream st = Some sid \<or> sid \<in> set (inbound_streams st))")
  case False
  then show ?thesis
    using assms by (auto simp: on_stream_data_def protocol_violation_def Let_def split: option.split)
next
  case True
  then obtain st where st: "bm_get (ping_peers s) p = Some st"
    and known: "outbound_stream st = Some sid \<or> sid \<in> set (inbound_streams st)"
    by blast
  let ?buf = "bm_entry [] (recv_bufs st) sid @ data"
  let ?st = "st\<lparr>recv_bufs := bm_insert sid ?buf (recv_bufs st)\<rparr>"
  let ?st' = "st\<lparr>recv_bufs := bm_remove sid (recv_bufs st)\<rparr>"
  have ok: "peer_ping_ok st"
    using ping_ok_get [OF assms st] .
  then have ok': "peer_ping_ok ?st'"
    by (auto simp: peer_ping_ok_def bm.invar_upd bm.invar_del bm_all_def)
  have keep: "peer_ping_ok ?st" if "length ?buf < PING_PAYLOAD_LEN"
    using ok known that by (auto simp: peer_ping_ok_def bm.invar_upd)
  obtain t actions where "process_complete_payload p sid ?buf now_ms (set_peer p ?st' s) = Some (t, actions)"
    "ping_ok t"
    using process_complete_payload_ok [of "set_peer p ?st' s" p ?st' sid ?buf now_ms] assms ok' by auto
  then show ?thesis
    using assms ok' keep st known
    by (auto simp: on_stream_data_def protocol_violation_def Let_def intro!: ping_ok_set_peer)
qed

lemma tick_loop_shape:
  assumes "tick_loop cfg now_ms m = (m', events, actions)"
  shows "map fst m' = map fst m"
    and "(\<And>p st. (p, st) \<in> set m \<Longrightarrow> peer_ping_ok st) \<Longrightarrow> (p, st) \<in> set m' \<Longrightarrow> peer_ping_ok st"
  using assms
proof (induction m arbitrary: m' events actions)
  case (Cons e m)
  { case 1
    then show ?case
      using Cons by (cases e) (auto split: prod.splits option.splits)
  next
    case 2
    then show ?case
      using Cons peer_ping_ok_close(1)
      by (cases e) (fastforce simp: tick_expired_def split: prod.splits option.splits if_splits)
  }
qed auto

definition expire_peer :: "ping_config \<Rightarrow> u64 \<Rightarrow> peer_ping_state \<Rightarrow> peer_ping_state" where
  "expire_peer cfg now_ms st =
     (case tick_expired cfg now_ms st of
        None \<Rightarrow> st
      | Some sid \<Rightarrow> st\<lparr>outbound_stream := None, pending_ping := None,
          recv_bufs := bm_remove sid (recv_bufs st)\<rparr>)"

lemma tick_expired_Some:
  "tick_expired cfg now_ms st = Some sid \<longleftrightarrow>
     outbound_stream st = Some sid \<and>
     (\<exists>pending. pending_ping st = Some pending \<and>
        unat (request_timeout_ms cfg) < unat now_ms - unat (pend_sent_at pending))"
  by (auto simp: tick_expired_def word_less_nat_alt unat_saturating_sub split: option.split)

lemma tick_loop_eq:
  "tick_loop cfg now_ms m =
     (bm_map (\<lambda>p. expire_peer cfg now_ms) m,
      concat (map (\<lambda>(p, st). case tick_expired cfg now_ms st of None \<Rightarrow> []
        | Some sid \<Rightarrow> [PingTimeout p sid (request_timeout_ms cfg), PingOutboundStreamClosed p sid]) m),
      concat (map (\<lambda>(p, st). case tick_expired cfg now_ms st of None \<Rightarrow> []
        | Some sid \<Rightarrow> [PingResetStream p sid]) m))"
  by (induction m) (auto simp: bm_map_def expire_peer_def split: option.split)

lemma peer_ping_ok_expire: "peer_ping_ok st \<Longrightarrow> peer_ping_ok (expire_peer cfg now_ms st)"
  by (auto simp: expire_peer_def tick_expired_Some peer_ping_ok_close(1) split: option.split)

lemma on_tick_peers:
  "ping_peers (fst (on_tick now_ms s)) = bm_map (\<lambda>p. expire_peer (ping_cfg s) now_ms) (ping_peers s)"
  by (simp add: on_tick_def tick_loop_eq)

lemma ping_ok_on_tick: "ping_ok s \<Longrightarrow> ping_ok (fst (on_tick now_ms s))"
  by (simp add: ping_ok_def on_tick_peers bm_all_map peer_ping_ok_expire)

lemma ping_handle_input_ok:
  assumes "ping_ok s"
  shows "\<exists>t r. ping_handle_input i s = Some (t, r) \<and> ping_ok t"
proof (cases i)
  case (PingRegisterOutboundStream p sid)
  have "peer_ping_ok (st\<lparr>outbound_stream := Some sid\<rparr>)" if "peer_ping_ok st" "outbound_stream st = None" for st
    using that by (auto simp: peer_ping_ok_def)
  then show ?thesis
    using assms PingRegisterOutboundStream ping_ok_entry [OF assms, of p]
    by (auto simp: register_outbound_stream_def Let_def split: option.split)
next
  case (PingRegisterInboundStream p sid)
  have "peer_ping_ok (st\<lparr>inbound_streams := bs_insert sid (inbound_streams st)\<rparr>)"
    if "peer_ping_ok st" "length (inbound_streams st) < 2" for st
    using that by (auto simp: peer_ping_ok_def length_bs_insert)
  then show ?thesis
    using assms PingRegisterInboundStream ping_ok_entry [OF assms, of p]
    by (auto simp: register_inbound_stream_def extend_actions_def Let_def not_le)
next
  case (PingSendPing p payload now_ms)
  have "peer_ping_ok (st\<lparr>pending_ping := Some x\<rparr>)" if "peer_ping_ok st" "outbound_stream st \<noteq> None" for st x
    using that by (auto simp: peer_ping_ok_def)
  then show ?thesis
    using assms PingSendPing
    by (auto simp: send_ping_def push_action_def dest: ping_ok_get split: option.split)
next
  case (PingCloseOutboundStreamWrite p)
  then show ?thesis
    using assms by (auto simp: close_outbound_stream_write_def push_action_def split: option.split)
next
  case (PingStreamData p sid data now_ms)
  then show ?thesis
    using on_stream_data_ok [OF assms, of p sid data now_ms] by (auto simp: extend_actions_def)
next
  case (PingStreamRemoteWriteClosed p sid)
  then show ?thesis
    using assms by (auto simp: on_stream_remote_write_closed_def extend_actions_def protocol_violation_def
        Let_def dest: ping_ok_get intro!: ping_ok_set_peer peer_ping_ok_close split: option.split)
next
  case (PingStreamClosed p sid)
  then show ?thesis
    using assms by (auto simp: on_stream_closed_def Let_def dest: ping_ok_get
        intro!: ping_ok_set_peer peer_ping_ok_close(2,3) split: option.split)
next
  case (PingRemovePeer p)
  then show ?thesis
    using assms by (auto simp: remove_peer_def ping_ok_def bm.invar_del)
next
  case (PingMigratePeer old new)
  then show ?thesis
    using assms by (auto simp: migrate_peer_def ping_ok_def bm_ok_rekey)
next
  case (PingTick now_ms)
  then show ?thesis
    using ping_ok_on_tick [OF assms, of now_ms] by (simp add: extend_actions_def case_prod_unfold)
qed

interpretation ping: sans_io_protocol ping_handle_input ping_poll_output ping_is_idle
  "\<lambda>s. length (ping_actions s) + length (ping_events s)" ping_ok
proof unfold_locales
  show "ping_ok s'" if "ping_ok s" "ping_handle_input i s = Some (s', r)"
    for s s' :: "'a ping_protocol" and i r
    using ping_handle_input_ok [OF that(1), of i] that(2) by auto
qed (auto simp: ping_poll_output_def ping_is_idle_def ping_ok_def split: list.splits)

section \<open>Payloads and fragments\<close>

fun ping_feed :: "'p::linorder \<Rightarrow> stream_id \<Rightarrow> u64 \<Rightarrow> bytes list \<Rightarrow> 'p ping_protocol \<Rightarrow> 'p ping_protocol option" where
  "ping_feed p sid now_ms [] s = Some s"
| "ping_feed p sid now_ms (c # cs) s =
     (case ping_handle_input (PingStreamData p sid c now_ms) s of
        None \<Rightarrow> None
      | Some (s', r) \<Rightarrow> ping_feed p sid now_ms cs s')"

definition known_stream :: "stream_id \<Rightarrow> peer_ping_state \<Rightarrow> bool" where
  "known_stream sid st \<longleftrightarrow> outbound_stream st = Some sid \<or> sid \<in> set (inbound_streams st)"

lemma on_stream_data_known:
  assumes "bm_get (ping_peers s) p = Some st" and "known_stream sid st"
    and "buf = bm_entry [] (recv_bufs st) sid @ data"
  shows "on_stream_data p sid data now_ms s =
    (if PING_PAYLOAD_LEN < length buf
     then Some (protocol_violation p sid
            (lit ''recv buffer '' @ show_nat (length buf) @ lit '' bytes exceeds payload size '' @
             show_nat PING_PAYLOAD_LEN)
            (set_peer p (st\<lparr>recv_bufs := bm_remove sid (recv_bufs st)\<rparr>) s))
     else if length buf < PING_PAYLOAD_LEN
     then Some (set_peer p (st\<lparr>recv_bufs := bm_insert sid buf (recv_bufs st)\<rparr>) s, [])
     else process_complete_payload p sid buf now_ms
            (set_peer p (st\<lparr>recv_bufs := bm_remove sid (recv_bufs st)\<rparr>) s))"
  using assms by (simp add: on_stream_data_def known_stream_def Let_def)

lemma ping_feed_two:
  assumes "bm_get (ping_peers s) p = Some st" and "known_stream sid st"
    and "length (bm_entry [] (recv_bufs st) sid @ a) < PING_PAYLOAD_LEN"
  shows "ping_feed p sid now_ms (a # b # cs) s = ping_feed p sid now_ms ((a @ b) # cs) s"
proof -
  let ?buf = "bm_entry [] (recv_bufs st) sid @ a"
  let ?st = "st\<lparr>recv_bufs := bm_insert sid ?buf (recv_bufs st)\<rparr>"
  have first: "on_stream_data p sid a now_ms s = Some (set_peer p ?st s, [])"
    using assms by (simp add: on_stream_data_known [OF assms(1,2) refl])
  have st: "bm_get (ping_peers (set_peer p ?st s)) p = Some ?st" "known_stream sid ?st"
    using assms(2) by (simp_all add: known_stream_def)
  have "on_stream_data p sid b now_ms (set_peer p ?st s) = on_stream_data p sid (a @ b) now_ms s"
    by (simp add: on_stream_data_known [OF st refl] on_stream_data_known [OF assms(1,2) refl])
  then have second: "ping_handle_input (PingStreamData p sid b now_ms) (set_peer p ?st s) =
      ping_handle_input (PingStreamData p sid (a @ b) now_ms) s"
    by simp
  have "ping_handle_input (PingStreamData p sid a now_ms) s = Some (set_peer p ?st s, Ok ())"
    by (simp add: first extend_actions_def set_peer_def)
  then show ?thesis
    by (simp only: ping_feed.simps second option.case prod.case)
qed

lemma ping_feed_fragments:
  assumes "bm_get (ping_peers s) p = Some st" and "known_stream sid st"
    and "length (bm_entry [] (recv_bufs st) sid @ concat cs) < PING_PAYLOAD_LEN"
  shows "ping_feed p sid now_ms (cs @ [c]) s = ping_feed p sid now_ms [concat cs @ c] s"
  using assms(3)
proof (induction cs arbitrary: c rule: rev_induct)
  case (snoc d cs)
  have "ping_feed p sid now_ms (cs @ [d] @ [c]) s = ping_feed p sid now_ms ([concat cs @ d] @ [c]) s"
  proof -
    have app: "ping_feed p sid now_ms (xs @ ys) s =
        Option.bind (ping_feed p sid now_ms xs s) (ping_feed p sid now_ms ys)" for xs ys s
      by (induction xs arbitrary: s) (auto split: option.split prod.split)
    have "ping_feed p sid now_ms (cs @ [d]) s = ping_feed p sid now_ms [concat cs @ d] s"
      using snoc by simp
    then show ?thesis
      by (metis app append.assoc)
  qed
  also have "\<dots> = ping_feed p sid now_ms [concat cs @ d @ c] s"
    using ping_feed_two [OF assms(1,2), of "concat cs @ d" now_ms c "[]"] snoc.prems by simp
  finally show ?case
    by simp
qed simp

lemma ping_feed_splits:
  assumes "bm_get (ping_peers s) p = Some st" and "known_stream sid st"
    and "bm_get (recv_bufs st) sid = None" and "splits cs payload" and "length payload = PING_PAYLOAD_LEN"
  shows "ping_feed p sid now_ms cs s = ping_feed p sid now_ms [payload] s"
proof -
  obtain init c where cs: "cs = init @ [c]" "concat init @ c = payload" "c \<noteq> []"
    using assms(4) by (auto simp: splits_def)
  have "length (bm_entry [] (recv_bufs st) sid @ concat init) < PING_PAYLOAD_LEN"
  proof -
    have "length (concat init) + length c = PING_PAYLOAD_LEN"
      using arg_cong [OF cs(2), of length] assms(5) by simp
    moreover have "0 < length c"
      using cs(3) by simp
    ultimately have "length (concat init) < PING_PAYLOAD_LEN"
      by linarith
    then show ?thesis
      using assms(3) by (simp add: bm_entry_absent)
  qed
  then show ?thesis
    using ping_feed_fragments [OF assms(1,2)] cs by simp
qed

lemma set_peer_same: "ping_ok s \<Longrightarrow> bm_get (ping_peers s) p = Some st \<Longrightarrow> set_peer p st s = s"
  by (simp add: set_peer_def ping_ok_def bm_insert_same)

lemma ping_feed_payload:
  assumes "ping_ok s" and "bm_get (ping_peers s) p = Some st" and "known_stream sid st"
    and "bm_get (recv_bufs st) sid = None" and "splits cs payload" and "length payload = PING_PAYLOAD_LEN"
  shows "ping_feed p sid now_ms cs s =
    map_option (\<lambda>(t, actions). t\<lparr>ping_actions := ping_actions t @ actions\<rparr>)
      (process_complete_payload p sid payload now_ms s)"
proof -
  have "st\<lparr>recv_bufs := bm_remove sid (recv_bufs st)\<rparr> = st"
    using assms(4) by (simp add: bm_remove_absent)
  then have "on_stream_data p sid payload now_ms s = process_complete_payload p sid payload now_ms s"
    using assms by (simp add: on_stream_data_known [OF assms(2,3) refl] bm_entry_absent set_peer_same)
  then show ?thesis
    unfolding ping_feed_splits [OF assms(2-6)]
    by (auto simp: extend_actions_def split: option.split)
qed

text \<open>An inbound payload is echoed, and nothing else changes.\<close>

lemma ping_echo:
  assumes "ping_ok s" and "bm_get (ping_peers s) p = Some st"
    and "sid \<in> set (inbound_streams st)" and "outbound_stream st \<noteq> Some sid"
    and "bm_get (recv_bufs st) sid = None" and "splits cs payload" and "length payload = PING_PAYLOAD_LEN"
  shows "ping_feed p sid now_ms cs s =
    Some (s\<lparr>ping_actions := ping_actions s @ [PingSend p sid payload]\<rparr>)"
  using assms by (subst ping_feed_payload [of s p st sid cs payload])
    (simp_all add: process_complete_payload_def known_stream_def)

text \<open>A ping that is answered with its own payload yields the round-trip time.\<close>

lemma ping_rtt:
  assumes "ping_ok s" and "bm_get (ping_peers s) p = Some st"
    and "outbound_stream st = Some sid" and "pending_ping st = None"
    and "bm_get (recv_bufs st) sid = None" and "splits cs payload" and "length payload = PING_PAYLOAD_LEN"
  shows "\<exists>s1. ping_handle_input (PingSendPing p payload t0) s = Some (s1, Ok ()) \<and>
    ping_actions s1 = ping_actions s @ [PingSend p sid payload] \<and>
    ping_feed p sid t1 cs s1 =
      Some (s\<lparr>ping_events := ping_events s @ [PingRttMeasured p sid (saturating_sub t1 t0)],
              ping_actions := ping_actions s @ [PingSend p sid payload]\<rparr>)"
proof -
  let ?st = "st\<lparr>pending_ping := Some \<lparr>pend_payload = payload, pend_sent_at = t0\<rparr>\<rparr>"
  let ?s1 = "(set_peer p ?st s)\<lparr>ping_actions := ping_actions s @ [PingSend p sid payload]\<rparr>"
  have h: "ping_handle_input (PingSendPing p payload t0) s = Some (?s1, Ok ())"
    using assms by (simp add: send_ping_def push_action_def set_peer_def)
  have ok: "ping_ok ?s1"
    using ping_handle_input_ok [OF assms(1), of "PingSendPing p payload t0"] h by simp
  have st: "bm_get (ping_peers ?s1) p = Some ?st"
    by (simp add: set_peer_def)
  have "st\<lparr>pending_ping := None\<rparr> = st"
    using assms(4) by simp
  then have "process_complete_payload p sid payload t1 ?s1 =
      Some (push_event (PingRttMeasured p sid (saturating_sub t1 t0)) (?s1\<lparr>ping_peers := ping_peers s\<rparr>), [])"
    using st assms(1-3) by (simp add: process_complete_payload_def set_peer_def bm_insert_same ping_ok_def)
  then have "ping_feed p sid t1 cs ?s1 =
      Some (push_event (PingRttMeasured p sid (saturating_sub t1 t0)) (?s1\<lparr>ping_peers := ping_peers s\<rparr>))"
    using assms by (subst ping_feed_payload [OF ok st]) (auto simp: known_stream_def push_event_def)
  also have "push_event (PingRttMeasured p sid (saturating_sub t1 t0)) (?s1\<lparr>ping_peers := ping_peers s\<rparr>) =
      s\<lparr>ping_events := ping_events s @ [PingRttMeasured p sid (saturating_sub t1 t0)],
        ping_actions := ping_actions s @ [PingSend p sid payload]\<rparr>"
    by (simp add: push_event_def set_peer_def)
  finally show ?thesis
    using h by auto
qed

section \<open>Timeouts\<close>

lemma on_tick_effects:
  assumes "on_tick now_ms s = (t, actions)" and "ping_ok s"
  shows "bm_get (ping_peers t) p = map_option (expire_peer (ping_cfg s) now_ms) (bm_get (ping_peers s) p)"
    and "PingResetStream p sid \<in> set actions \<longleftrightarrow>
      (\<exists>st. bm_get (ping_peers s) p = Some st \<and> tick_expired (ping_cfg s) now_ms st = Some sid)"
    and "\<exists>events. ping_events t = ping_events s @ events \<and>
      (PingTimeout p sid (request_timeout_ms (ping_cfg s)) \<in> set events \<longleftrightarrow>
      (\<exists>st. bm_get (ping_peers s) p = Some st \<and> tick_expired (ping_cfg s) now_ms st = Some sid))"
proof -
  have mem: "(p, st) \<in> set (ping_peers s) \<longleftrightarrow> bm_get (ping_peers s) p = Some st" for st
    using bm.keys_distinct [of "ping_peers s"] assms(2)
    by (simp add: ping_ok_def bm_keys_def bm_get_def)
  show "bm_get (ping_peers t) p = map_option (expire_peer (ping_cfg s) now_ms) (bm_get (ping_peers s) p)"
    using assms(1) on_tick_peers [of now_ms s] by simp
  show "PingResetStream p sid \<in> set actions \<longleftrightarrow>
      (\<exists>st. bm_get (ping_peers s) p = Some st \<and> tick_expired (ping_cfg s) now_ms st = Some sid)"
    using assms(1) mem by (auto simp: on_tick_def tick_loop_eq split: option.splits) force+
  show "\<exists>events. ping_events t = ping_events s @ events \<and>
      (PingTimeout p sid (request_timeout_ms (ping_cfg s)) \<in> set events \<longleftrightarrow>
      (\<exists>st. bm_get (ping_peers s) p = Some st \<and> tick_expired (ping_cfg s) now_ms st = Some sid))"
    using assms(1) mem by (auto simp: on_tick_def tick_loop_eq split: option.splits) force+
qed

text \<open>The peer's ping has been in flight for longer than the configured time.\<close>

definition ping_overdue :: "'p::linorder ping_protocol \<Rightarrow> u64 \<Rightarrow> 'p \<Rightarrow> stream_id \<Rightarrow> bool" where
  "ping_overdue s now_ms p sid \<longleftrightarrow>
     (\<exists>st pending. bm_get (ping_peers s) p = Some st \<and> outbound_stream st = Some sid \<and>
        pending_ping st = Some pending \<and>
        unat (request_timeout_ms (ping_cfg s)) < unat now_ms - unat (pend_sent_at pending))"

lemma ping_overdue_iff:
  "ping_overdue s now_ms p sid \<longleftrightarrow>
     (\<exists>st. bm_get (ping_peers s) p = Some st \<and> tick_expired (ping_cfg s) now_ms st = Some sid)"
  by (auto simp: ping_overdue_def tick_expired_Some)

text \<open>A fresh machine with one outbound, respectively one inbound stream to a peer.\<close>

definition ping_dialing :: "ping_config \<Rightarrow> 'p::linorder \<Rightarrow> stream_id \<Rightarrow> 'p ping_protocol" where
  "ping_dialing cfg p sid = fst (register_outbound_stream p sid (ping_new cfg))"

definition ping_serving :: "ping_config \<Rightarrow> 'p::linorder \<Rightarrow> stream_id \<Rightarrow> 'p ping_protocol" where
  "ping_serving cfg p sid = fst (register_inbound_stream p sid (ping_new cfg))"

lemma ping_dialing_ok: "ping_ok (ping_dialing cfg p sid)"
  using ping_handle_input_ok [of "ping_new cfg" "PingRegisterOutboundStream p sid"]
  by (auto simp: ping_dialing_def)

lemma ping_serving_ok: "ping_ok (ping_serving cfg p sid)"
  using ping_handle_input_ok [of "ping_new cfg" "PingRegisterInboundStream p sid"]
  by (auto simp: ping_serving_def extend_actions_def ping_ok_actions split: prod.splits)

lemma ping_dialing_peer:
  "bm_get (ping_peers (ping_dialing cfg p sid)) p = Some (peer_ping_default\<lparr>outbound_stream := Some sid\<rparr>)"
  by (simp add: ping_dialing_def register_outbound_stream_def ping_new_def bm_entry_absent
      peer_ping_default_def push_event_def set_peer_def Let_def)

lemma ping_serving_peer:
  "bm_get (ping_peers (ping_serving cfg p sid)) p = Some (peer_ping_default\<lparr>inbound_streams := bs_insert sid []\<rparr>)"
  by (simp add: ping_serving_def register_inbound_stream_def ping_new_def bm_entry_absent
      peer_ping_default_def push_event_def set_peer_def Let_def)

section \<open>Properties\<close>

text \<open>
  C24. The bookkeeping invariant: per peer at most two inbound streams, receive buffers shorter than
  a payload and only for streams of the peer, and a ping in flight only on an open outbound stream.
  It holds initially, every input keeps it, no input panics (the \<open>expect("peer exists")\<close> is
  unreachable), and draining the outputs ends with an idle machine.
\<close>

theorem ping_handle_input_safe:
  "ping_ok (ping_new cfg :: 'p::linorder ping_protocol) \<and>
   (ping_ok s \<longrightarrow>
     (\<exists>s' r outs t. ping_handle_input (i :: 'p ping_input) s = Some (s', r) \<and> ping_ok s' \<and>
        drain (Suc (length (ping_actions s') + length (ping_events s'))) ping_poll_output s' = Some (outs, t) \<and>
        ping_is_idle t \<and> ping_ok t))"
proof -
  have "\<exists>s' r outs t. ping_handle_input i s = Some (s', r) \<and> ping_ok s' \<and>
        drain (Suc (length (ping_actions s') + length (ping_events s'))) ping_poll_output s' = Some (outs, t) \<and>
        ping_is_idle t \<and> ping_ok t" if "ping_ok s"
    using ping_handle_input_ok [OF that, of i] ping.drain_returns by (metis lessI)
  then show ?thesis
    by simp
qed

theorem ping_handle_input_safe_witness:
  "\<exists>s' r. ping_handle_input (PingStreamData (3 :: nat) (StreamId 4) (replicate 40 0) 5)
     (ping_dialing \<lparr>request_timeout_ms = 1000\<rparr> 3 (StreamId 4)) = Some (s', r) \<and> ping_ok s'"
  using ping_handle_input_safe [where s = "ping_dialing \<lparr>request_timeout_ms = 1000\<rparr> (3 :: nat) (StreamId 4)"
      and i = "PingStreamData 3 (StreamId 4) (replicate 40 0) 5"] ping_dialing_ok by blast

text \<open>
  C23. A ping makes the round trip: the payload the dialling side sends is echoed by the other side
  however the transport fragments it, and the echo, again in any fragments, is reported as one
  round-trip time, after which the ping is no longer in flight and nothing else has changed.
\<close>

theorem ping_exchange:
  assumes "ping_ok a" and "bm_get (ping_peers a) b_id = Some sa"
    and "outbound_stream sa = Some sid" and "pending_ping sa = None" and "bm_get (recv_bufs sa) sid = None"
    and "ping_ok b" and "bm_get (ping_peers b) a_id = Some sb"
    and "sid' \<in> set (inbound_streams sb)" and "outbound_stream sb \<noteq> Some sid'"
    and "bm_get (recv_bufs sb) sid' = None"
    and "length payload = PING_PAYLOAD_LEN" and "splits cs payload" and "splits ds payload"
  shows "\<exists>a1. ping_handle_input (PingSendPing b_id payload t0) a = Some (a1, Ok ()) \<and>
    ping_actions a1 = ping_actions a @ [PingSend b_id sid payload] \<and>
    ping_feed a_id sid' t cs b = Some (b\<lparr>ping_actions := ping_actions b @ [PingSend a_id sid' payload]\<rparr>) \<and>
    ping_feed b_id sid t1 ds a1 =
      Some (a\<lparr>ping_events := ping_events a @ [PingRttMeasured b_id sid (saturating_sub t1 t0)],
              ping_actions := ping_actions a @ [PingSend b_id sid payload]\<rparr>)"
  using ping_rtt [OF assms(1-5) assms(13,11), of t0 t1] ping_echo [OF assms(6-10) assms(12,11), of t] by blast

theorem ping_exchange_witness:
  "let payload = replicate 32 7; a = ping_dialing \<lparr>request_timeout_ms = 1000\<rparr> (1 :: nat) (StreamId 4);
       b = ping_serving \<lparr>request_timeout_ms = 1000\<rparr> (2 :: nat) (StreamId 0)
   in \<exists>a1. ping_handle_input (PingSendPing 1 payload 10) a = Some (a1, Ok ()) \<and>
        ping_feed 2 (StreamId 0) 20 [replicate 30 7, replicate 2 7] b =
          Some (b\<lparr>ping_actions := ping_actions b @ [PingSend 2 (StreamId 0) payload]\<rparr>) \<and>
        ping_feed 1 (StreamId 4) 35 [[7], replicate 31 7] a1 =
          Some (a\<lparr>ping_events := ping_events a @ [PingRttMeasured 1 (StreamId 4) 25],
                  ping_actions := ping_actions a @ [PingSend 1 (StreamId 4) payload]\<rparr>)"
proof -
  have cut: "splits [replicate 30 7, replicate 2 7] (replicate 32 7)"
    "splits [[7], replicate 31 7] (replicate 32 (7 :: byte))"
    unfolding splits_def
    by (rule exI [of _ "[replicate 30 7]"], rule exI [of _ "replicate 2 7"], simp add: numeral_eq_Suc)
      (rule exI [of _ "[[7]]"], rule exI [of _ "replicate 31 7"], simp add: numeral_eq_Suc)
  have rtt: "saturating_sub 35 10 = (25 :: u64)"
    by (simp add: saturating_sub_def)
  show ?thesis
    unfolding Let_def rtt [symmetric]
    using ping_exchange [OF ping_dialing_ok ping_dialing_peer _ _ _ ping_serving_ok ping_serving_peer,
        where sid' = "StreamId 0" and payload = "replicate 32 7" and cs = "[replicate 30 7, replicate 2 7]"
          and ds = "[[7], replicate 31 7]" and ?t0.0 = 10 and ?t1.0 = 35 and t = 20] cut
    by (fastforce simp: peer_ping_default_def PING_PAYLOAD_LEN_def)
qed

text \<open>
  A tick times out exactly the overdue pings: for each of them, and for no other stream, it
  reports a timeout and asks for a reset; those peers lose their outbound stream, the ping in flight
  and the stream's buffer, and all other peer state is kept.
\<close>

theorem ping_tick:
  assumes "ping_ok s"
  shows "\<exists>t events actions. ping_handle_input (PingTick now_ms) s = Some (t, Ok ()) \<and>
    ping_events t = ping_events s @ events \<and> ping_actions t = ping_actions s @ actions \<and>
    (\<forall>p sid. PingResetStream p sid \<in> set actions \<longleftrightarrow> ping_overdue s now_ms p sid) \<and>
    (\<forall>p sid. PingTimeout p sid (request_timeout_ms (ping_cfg s)) \<in> set events \<longleftrightarrow>
       ping_overdue s now_ms p sid) \<and>
    (\<forall>p. bm_get (ping_peers t) p =
       map_option (expire_peer (ping_cfg s) now_ms) (bm_get (ping_peers s) p))"
proof -
  obtain t actions where t: "on_tick now_ms s = (t, actions)"
    by fastforce
  obtain events where events: "ping_events t = ping_events s @ events"
    using t by (auto simp: on_tick_def split: prod.splits)
  show ?thesis
    using on_tick_effects [OF t assms] events t
    by (intro exI [of _ "t\<lparr>ping_actions := ping_actions s @ actions\<rparr>"] exI [of _ events] exI [of _ actions])
      (auto simp: extend_actions_def ping_overdue_iff on_tick_def split: prod.splits)
qed

end
