(* ===== verification/Proto.thy ===== *)
theory Proto
  imports Varint Utf8
begin

text \<open>
  The protobuf wire format, as the four message modules read and write it
  (\<open>identify/src/message.rs\<close>, \<open>relay/src/message.rs\<close>, \<open>dcutr/src/message.rs\<close>, \<open>autonat/src/lib.rs\<close>).
  Each module has its own copy of the same helpers with its own error type; here the helpers are
  written once over a record of the three errors they raise, and each module instantiates them.
  Instead of advancing a \<open>&mut idx\<close> a reader returns how many bytes it took.

  The locale \<open>wire_message\<close> is the contract between the field loop and one module's
  \<open>match (field, wire_type)\<close>: what the match does with a field that a writer produced.  From it
  follows what the whole loop does with a written message.  The locale \<open>framing\<close> is the contract of
  the length-prefixed frames.
\<close>

section \<open>Readers and writers\<close>

record 'e wire_errors =
  we_varint :: "varint_error \<Rightarrow> 'e"
  we_overflow :: "nat \<Rightarrow> nat \<Rightarrow> nat \<Rightarrow> 'e"
  we_wire :: "byte \<Rightarrow> nat \<Rightarrow> 'e"

definition WIRE_VARINT :: byte where "WIRE_VARINT = 0"
definition WIRE_I64 :: byte where "WIRE_I64 = 1"
definition WIRE_LEN :: byte where "WIRE_LEN = 2"
definition WIRE_I32 :: byte where "WIRE_I32 = 5"

lemmas wire_types = WIRE_VARINT_def WIRE_I64_def WIRE_LEN_def WIRE_I32_def

lemma wire_types_distinct [simp]: "WIRE_VARINT \<noteq> WIRE_LEN" "WIRE_LEN \<noteq> WIRE_VARINT"
  by (simp_all add: wire_types)

definition tag_byte :: "byte \<Rightarrow> byte \<Rightarrow> byte" where
  "tag_byte field wire_type = push_bit 3 field OR wire_type"

lemma tag_bytes:
  "tag_byte 1 WIRE_VARINT = 0x08" "tag_byte 2 WIRE_VARINT = 0x10" "tag_byte 4 WIRE_VARINT = 0x20"
  "tag_byte 5 WIRE_VARINT = 0x28" "tag_byte 1 WIRE_LEN = 0x0A" "tag_byte 2 WIRE_LEN = 0x12"
  "tag_byte 3 WIRE_LEN = 0x1A" "tag_byte 4 WIRE_LEN = 0x22"
  by (simp_all add: tag_byte_def wire_types)

definition encode_varint_field :: "bytes \<Rightarrow> byte \<Rightarrow> u64 \<Rightarrow> bytes" where
  "encode_varint_field out tag v = write_uvarint v (out @ [tag])"

definition encode_bytes_field :: "bytes \<Rightarrow> byte \<Rightarrow> bytes \<Rightarrow> bytes" where
  "encode_bytes_field out tag data = write_uvarint (of_nat (length data)) (out @ [tag]) @ data"

definition read_varint_value :: "'e wire_errors \<Rightarrow> bytes \<Rightarrow> nat \<Rightarrow> 'e + (u64 \<times> nat)" where
  "read_varint_value E input idx = map_err (we_varint E) (read_uvarint (drop idx input))"

definition read_len_delimited :: "'e wire_errors \<Rightarrow> bytes \<Rightarrow> nat \<Rightarrow> 'e + (bytes \<times> nat)" where
  "read_len_delimited E input idx =
     and_then (map_err (we_varint E) (read_uvarint (drop idx input))) (\<lambda>(len, used).
       let idx = idx + used;
           len = unat len;
           remaining = length input - idx
       in if remaining < len then Err (we_overflow E idx len remaining)
          else Ok (take len (drop idx input), used + len))"

definition skip_fixed :: "'e wire_errors \<Rightarrow> nat \<Rightarrow> bytes \<Rightarrow> nat \<Rightarrow> 'e + nat" where
  "skip_fixed E n input idx =
     (if length input < idx + n then Err (we_overflow E idx n (length input - idx)) else Ok n)"

definition skip_unknown_field :: "'e wire_errors \<Rightarrow> bytes \<Rightarrow> nat \<Rightarrow> byte \<Rightarrow> 'e + nat" where
  "skip_unknown_field E input idx wire_type =
     (if wire_type = WIRE_VARINT then and_then (read_varint_value E input idx) (\<lambda>(_, n). Ok n)
      else if wire_type = WIRE_LEN then and_then (read_len_delimited E input idx) (\<lambda>(_, n). Ok n)
      else if wire_type = WIRE_I32 then skip_fixed E 4 input idx
      else if wire_type = WIRE_I64 then skip_fixed E 8 input idx
      else Err (we_wire E wire_type idx))"

text \<open>The three ways the matches read a field: a byte string, a varint, or nothing of interest.\<close>

definition len_field ::
  "'e wire_errors \<Rightarrow> bytes \<Rightarrow> nat \<Rightarrow> (bytes \<Rightarrow> 'e + 'm) \<Rightarrow> 'e + ('m \<times> nat)" where
  "len_field E input idx f =
     and_then (read_len_delimited E input idx) (\<lambda>(v, n). and_then (f v) (\<lambda>m. Ok (m, n)))"

definition varint_field ::
  "'e wire_errors \<Rightarrow> bytes \<Rightarrow> nat \<Rightarrow> (u64 \<Rightarrow> 'e + 'm) \<Rightarrow> 'e + ('m \<times> nat)" where
  "varint_field E input idx f =
     and_then (read_varint_value E input idx) (\<lambda>(v, n). and_then (f v) (\<lambda>m. Ok (m, n)))"

definition skip_field :: "'e wire_errors \<Rightarrow> bytes \<Rightarrow> nat \<Rightarrow> byte \<Rightarrow> 'm \<Rightarrow> 'e + ('m \<times> nat)" where
  "skip_field E input idx wire_type msg =
     and_then (skip_unknown_field E input idx wire_type) (\<lambda>n. Ok (msg, n))"

text \<open>Optional and repeated fields of the encoders.\<close>

definition opt_bytes :: "byte \<Rightarrow> bytes option \<Rightarrow> bytes \<Rightarrow> bytes" where
  "opt_bytes tag v out = (case v of None \<Rightarrow> out | Some d \<Rightarrow> encode_bytes_field out tag d)"

definition opt_varint :: "byte \<Rightarrow> u64 option \<Rightarrow> bytes \<Rightarrow> bytes" where
  "opt_varint tag v out = (case v of None \<Rightarrow> out | Some n \<Rightarrow> encode_varint_field out tag n)"

definition rep_bytes :: "byte \<Rightarrow> bytes list \<Rightarrow> bytes \<Rightarrow> bytes" where
  "rep_bytes tag vs out = foldl (\<lambda>out d. encode_bytes_field out tag d) out vs"

text \<open>
  The field loop: read a tag, hand field number and wire type to \<open>step\<close> (with the offset of the tag
  and the index after it), go on after the bytes the step took.  A tag takes at least one byte.
\<close>

function wire_loop ::
  "'e wire_errors \<Rightarrow> (bytes \<Rightarrow> nat \<Rightarrow> nat \<Rightarrow> u64 \<Rightarrow> byte \<Rightarrow> 'm \<Rightarrow> 'e + ('m \<times> nat)) \<Rightarrow>
     bytes \<Rightarrow> nat \<Rightarrow> 'm \<Rightarrow> 'e + 'm" where
  "wire_loop E step input idx msg =
     (if length input \<le> idx then Ok msg
      else
        and_then (map_err (we_varint E) (read_uvarint (drop idx input))) (\<lambda>(tag_value, used).
        and_then (step input idx (idx + used) (drop_bit 3 tag_value) (ucast (tag_value AND 0x07)) msg)
          (\<lambda>(msg, n). wire_loop E step input (idx + used + n) msg)))"
  by pat_completeness auto
termination
proof (relation "measure (\<lambda>(E, step, input, idx, msg). length input - idx)")
  fix E :: "'e wire_errors" and step :: "bytes \<Rightarrow> nat \<Rightarrow> nat \<Rightarrow> u64 \<Rightarrow> byte \<Rightarrow> 'm \<Rightarrow> 'e + ('m \<times> nat)"
    and input :: bytes and idx :: nat and msg :: 'm and x xa y xaa xb ya
  assume a: "\<not> length input \<le> idx"
    and r: "map_err (we_varint E) (read_uvarint (drop idx input)) = Ok x" "(xa, y) = x"
  then have "0 < y"
    using read_uvarint_Ok(4) [of "drop idx input" xa y] by auto
  then show "((E, step, input, idx + y + ya, xb), E, step, input, idx, msg)
      \<in> measure (\<lambda>(E, step, input, idx, msg). length input - idx)"
    using a by simp
qed simp

declare wire_loop.simps [simp del]

section \<open>Written fields\<close>

datatype wire_field = WVarint (field_tag: byte) u64 | WBytes (field_tag: byte) bytes

fun field_body :: "wire_field \<Rightarrow> bytes" where
  "field_body (WVarint t v) = uvarint v"
| "field_body (WBytes t d) = uvarint (of_nat (length d)) @ d"

definition field_bytes :: "wire_field \<Rightarrow> bytes" where
  "field_bytes f = field_tag f # field_body f"

definition fields_bytes :: "wire_field list \<Rightarrow> bytes" where
  "fields_bytes fs = concat (map field_bytes fs)"

text \<open>Single-byte tags, and payloads that fit a vector.\<close>

definition field_fits :: "wire_field \<Rightarrow> bool" where
  "field_fits f \<longleftrightarrow> field_tag f < 0x80 \<and> (case f of WVarint _ _ \<Rightarrow> True | WBytes _ d \<Rightarrow> vec_ok d)"

abbreviation field_number :: "wire_field \<Rightarrow> u64" where
  "field_number f \<equiv> drop_bit 3 (ucast (field_tag f))"

abbreviation field_wire_type :: "wire_field \<Rightarrow> byte" where
  "field_wire_type f \<equiv> ucast (ucast (field_tag f) AND (0x07 :: u64))"

lemma fields_bytes_simps [simp]:
  "fields_bytes [] = []"
  "fields_bytes (f # fs) = field_bytes f @ fields_bytes fs"
  "fields_bytes (fs @ gs) = fields_bytes fs @ fields_bytes gs"
  by (simp_all add: fields_bytes_def)

lemma length_field_bytes [simp]: "length (field_bytes f) = Suc (length (field_body f))"
  by (simp add: field_bytes_def)

lemma encode_varint_field_eq: "encode_varint_field out tag v = out @ field_bytes (WVarint tag v)"
  by (simp add: encode_varint_field_def field_bytes_def write_uvarint_app)

lemma encode_bytes_field_eq: "encode_bytes_field out tag d = out @ field_bytes (WBytes tag d)"
  by (simp add: encode_bytes_field_def field_bytes_def write_uvarint_app)

definition opt_fields :: "(bytes \<Rightarrow> wire_field) \<Rightarrow> bytes option \<Rightarrow> wire_field list" where
  "opt_fields mk v = (case v of None \<Rightarrow> [] | Some d \<Rightarrow> [mk d])"

definition opt_vfields :: "(u64 \<Rightarrow> wire_field) \<Rightarrow> u64 option \<Rightarrow> wire_field list" where
  "opt_vfields mk v = (case v of None \<Rightarrow> [] | Some n \<Rightarrow> [mk n])"

lemma opt_bytes_eq: "opt_bytes tag v out = out @ fields_bytes (opt_fields (WBytes tag) v)"
  by (simp add: opt_bytes_def opt_fields_def encode_bytes_field_eq split: option.split)

lemma opt_varint_eq: "opt_varint tag v out = out @ fields_bytes (opt_vfields (WVarint tag) v)"
  by (simp add: opt_varint_def opt_vfields_def encode_varint_field_eq split: option.split)

lemma rep_bytes_eq: "rep_bytes tag vs out = out @ fields_bytes (map (WBytes tag) vs)"
  unfolding rep_bytes_def by (induction vs arbitrary: out) (simp_all add: encode_bytes_field_eq)

lemmas encoded_fields = opt_bytes_eq opt_varint_eq rep_bytes_eq encode_bytes_field_eq encode_varint_field_eq

lemma uvarint_tag: "(t :: byte) < 0x80 \<Longrightarrow> uvarint (ucast t) = [t]"
proof -
  assume t: "t < 0x80"
  have "unat (ucast t :: u64) = unat t"
    using unat_byte_less [of t] by (simp add: unsigned_ucast_eq take_bit_nat_eq_self)
  then have "(ucast t :: u64) < 0x80"
    using t by (simp add: word_less_nat_alt)
  moreover have "ucast (ucast t :: u64) = t"
    by (rule bit_word_eqI) (simp add: bit_simps)
  ultimately show ?thesis
    by (simp add: uvarint_rec [of "ucast t"])
qed

lemma read_tag_write: "t < 0x80 \<Longrightarrow> read_uvarint (t # rest) = Ok (ucast (t :: byte), 1)"
  using read_uvarint_write [of "ucast t" rest] length_uvarint [of "ucast t :: u64"] uvarint_tag [of t]
  by simp

lemma read_varint_value_write:
  "drop idx input = field_body (WVarint t v) @ rest \<Longrightarrow>
     read_varint_value E input idx = Ok (v, length (field_body (WVarint t v)))"
  by (simp add: read_varint_value_def read_uvarint_write)

lemma read_len_delimited_write:
  assumes "drop idx input = field_body (WBytes t d) @ rest" and "vec_ok d"
  shows "read_len_delimited E input idx = Ok (d, length (field_body (WBytes t d)))"
proof -
  let ?l = "of_nat (length d) :: u64"
  have "drop (idx + length (uvarint ?l)) input = d @ rest"
    by (rule drop_past) (use assms in simp)
  then have d: "drop (idx + uvarint_len ?l) input = d @ rest"
    by simp
  then have "length input - (idx + uvarint_len ?l) = length d + length rest"
    by (metis length_append length_drop)
  then show ?thesis
    using assms d by (simp add: read_len_delimited_def read_uvarint_write Let_def)
qed

lemmas read_written = read_varint_value_write read_len_delimited_write

lemma field_wire_type_eq: "ucast (ucast (t :: byte) AND (0x07 :: u64)) = t AND 0x07"
proof -
  have "(0x07 :: u64) = mask 3" "(0x07 :: byte) = mask 3"
    by (simp_all add: mask_eq_exp_minus_1)
  then show ?thesis
    by (simp only:) (rule bit_word_eqI, auto simp: bit_simps)
qed

text \<open>A field whose tag carries the wire type of its body.\<close>

fun wire_type_ok :: "wire_field \<Rightarrow> bool" where
  "wire_type_ok (WVarint t v) \<longleftrightarrow> t AND 0x07 = WIRE_VARINT"
| "wire_type_ok (WBytes t d) \<longleftrightarrow> t AND 0x07 = WIRE_LEN"

definition field_ok :: "wire_field \<Rightarrow> bool" where
  "field_ok f \<longleftrightarrow> wire_type_ok f \<and> field_fits f"

definition written_at :: "wire_field \<Rightarrow> nat \<Rightarrow> bytes \<Rightarrow> bool" where
  "written_at f idx input \<longleftrightarrow> field_ok f \<and> (\<exists>rest. drop idx input = field_body f @ rest)"

lemma written_fields:
  "written_at (WVarint t v) idx input \<Longrightarrow>
     varint_field E input idx h = and_then (h v) (\<lambda>m. Ok (m, length (field_body (WVarint t v))))"
  "written_at (WBytes t d) idx input \<Longrightarrow>
     len_field E input idx h' = and_then (h' d) (\<lambda>m. Ok (m, length (field_body (WBytes t d))))"
  "written_at (WVarint t v) idx input \<Longrightarrow>
     skip_field E input idx WIRE_VARINT msg = Ok (msg, length (field_body (WVarint t v)))"
  "written_at (WBytes t d) idx input \<Longrightarrow>
     skip_field E input idx WIRE_LEN msg = Ok (msg, length (field_body (WBytes t d)))"
  by (auto simp: written_at_def field_ok_def field_fits_def varint_field_def len_field_def skip_field_def
      skip_unknown_field_def wire_types read_varint_value_write [of idx input t] read_len_delimited_write [of idx input t]
      simp del: field_body.simps)

lemma written_wire_type:
  "written_at (WVarint t v) idx input \<Longrightarrow> t AND 0x07 = WIRE_VARINT"
  "written_at (WBytes t d) idx input \<Longrightarrow> t AND 0x07 = WIRE_LEN"
  by (simp_all add: written_at_def field_ok_def)

lemmas decode_written = written_fields written_wire_type field_wire_type_eq

text \<open>The fields of an encoding that fits a vector fit too.\<close>

lemma length_field_le: "f \<in> set fs \<Longrightarrow> length (field_bytes f) \<le> length (fields_bytes fs)"
  by (induction fs) auto

lemma fields_fit:
  assumes "vec_ok (fields_bytes fs)" and "\<forall>f \<in> set fs. wire_type_ok f \<and> field_tag f < 0x80"
  shows "\<forall>f \<in> set fs. field_ok f"
proof
  fix f
  assume f: "f \<in> set fs"
  have "length (field_body f) < 2 ^ 63"
    using length_field_le [OF f] assms(1) by (simp add: vec_ok_def)
  then show "field_ok f"
    using assms(2) f by (cases f) (auto simp: field_ok_def field_fits_def vec_ok_def)
qed

section \<open>The contract of a message decoder\<close>

definition apply_fields ::
  "(wire_field \<Rightarrow> 'm \<Rightarrow> 'e + 'm) \<Rightarrow> wire_field list \<Rightarrow> 'm \<Rightarrow> 'e + 'm" where
  "apply_fields ap fs msg = foldl (\<lambda>r f. and_then r (ap f)) (Ok msg) fs"

lemma foldl_Err [simp]: "foldl (\<lambda>r f. and_then r (ap f)) (Inl e) fs = Inl e"
  by (induction fs) simp_all

lemma apply_fields_simps [simp]:
  "apply_fields ap [] msg = Ok msg"
  "apply_fields ap (f # fs) msg = and_then (ap f msg) (apply_fields ap fs)"
proof -
  show "apply_fields ap (f # fs) msg = and_then (ap f msg) (apply_fields ap fs)"
    by (cases "ap f msg") (simp_all add: apply_fields_def)
qed (simp add: apply_fields_def)

lemma apply_fields_append [simp]:
  "apply_fields ap (fs @ gs) msg = and_then (apply_fields ap fs msg) (apply_fields ap gs)"
proof (induction fs arbitrary: msg)
  case (Cons f fs)
  then show ?case
    by (cases "ap f msg") simp_all
qed simp

locale wire_message =
  fixes E :: "'e wire_errors"
    and step :: "bytes \<Rightarrow> nat \<Rightarrow> nat \<Rightarrow> u64 \<Rightarrow> byte \<Rightarrow> 'm \<Rightarrow> 'e + ('m \<times> nat)"
    and ok :: "wire_field \<Rightarrow> bool"
    and ap :: "wire_field \<Rightarrow> 'm \<Rightarrow> 'e + 'm"
  assumes step_ap: "ok f \<Longrightarrow> written_at f idx input \<Longrightarrow>
    step input off idx (field_number f) (field_wire_type f) msg =
      and_then (ap f msg) (\<lambda>m. Ok (m, length (field_body f)))"
begin

lemma loop_field:
  assumes "ok f" and "field_ok f" and "drop idx input = field_bytes f @ rest"
  shows "wire_loop E step input idx msg =
    and_then (ap f msg) (wire_loop E step input (idx + length (field_bytes f)))"
proof -
  have lt: "\<not> length input \<le> idx"
    using assms(3) by (auto simp: field_bytes_def)
  have tag: "read_uvarint (drop idx input) = Ok (ucast (field_tag f), 1)"
    using assms(2,3) by (simp add: field_bytes_def field_ok_def field_fits_def read_tag_write)
  have "drop (idx + 1) input = field_body f @ rest"
    using assms(3) drop_past_Cons [of idx input "field_tag f"] by (simp add: field_bytes_def)
  then have "written_at f (idx + 1) input"
    using assms(2) by (auto simp: written_at_def)
  then show ?thesis
    using lt tag step_ap [OF assms(1)] by (subst wire_loop.simps) (cases "ap f msg"; simp)
qed

lemma loop_fields:
  assumes "\<forall>f \<in> set fs. ok f \<and> field_ok f" and "drop idx input = fields_bytes fs"
  shows "wire_loop E step input idx msg = apply_fields ap fs msg"
  using assms
proof (induction fs arbitrary: idx msg)
  case Nil
  then show ?case
    by (simp add: wire_loop.simps)
next
  case (Cons f fs)
  have "drop (idx + length (field_bytes f)) input = fields_bytes fs"
    by (rule drop_past) (use Cons.prems(2) in simp)
  then show ?case
    using Cons loop_field [of f idx input "fields_bytes fs" msg] by (cases "ap f msg") simp_all
qed

lemma decode_fields:
  "\<forall>f \<in> set fs. ok f \<and> field_ok f \<Longrightarrow> wire_loop E step (fields_bytes fs) 0 msg = apply_fields ap fs msg"
  by (rule loop_fields) simp_all

end

section \<open>Length-prefixed frames\<close>

datatype frame_decode =
    FrameComplete bytes nat
  | FrameIncomplete
  | FrameTooLarge nat
  | FrameError varint_error

definition encode_frame :: "bytes \<Rightarrow> bytes" where
  "encode_frame payload = write_uvarint (of_nat (length payload)) [] @ payload"

text \<open>
  \<open>decode_frame\<close> of \<open>relay/src/message.rs\<close> and \<open>dcutr/src/message.rs\<close>.  The sum \<open>used + length\<close> is
  computed in \<open>usize\<close>: when it does not fit, a build with overflow checks panics there and a release
  build panics at the slice, whose end is then below its start.  Both are \<open>None\<close>.
\<close>

definition decode_frame :: "bytes \<Rightarrow> frame_decode option" where
  "decode_frame input =
     (if input = [] then Some FrameIncomplete
      else case read_uvarint input of
        Inl BufferTooShort \<Rightarrow> Some FrameIncomplete
      | Inl e \<Rightarrow> Some (FrameError e)
      | Inr (len, used) \<Rightarrow>
          let total = used + unat len
          in if 2 ^ 64 \<le> total then None
             else if length input < total then Some FrameIncomplete
             else Some (FrameComplete (take (unat len) (drop used input)) total))"

text \<open>
  The contract of a frame decoder: it inverts the encoder whatever follows, it consumes at least one
  byte and only bytes it has, and bytes that arrive later never change what it has already said.
\<close>

locale framing =
  fixes decode :: "bytes \<Rightarrow> frame_decode option"
    and encode :: "bytes \<Rightarrow> bytes"
    and fits :: "bytes \<Rightarrow> bool"
  assumes decode_encode: "fits p \<Longrightarrow> decode (encode p @ rest) = Some (FrameComplete p (length (encode p)))"
    and decode_advance: "decode buf = Some (FrameComplete p n) \<Longrightarrow> 0 < n \<and> n \<le> length buf"
    and decode_stable: "decode buf \<noteq> Some FrameIncomplete \<Longrightarrow> decode (buf @ rest) = decode buf"
begin

lemma decode_prefix:
  assumes "fits p" and "k < length (encode p)"
  shows "decode (take k (encode p)) = Some FrameIncomplete"
proof (rule ccontr)
  assume not: "decode (take k (encode p)) \<noteq> Some FrameIncomplete"
  have "decode (take k (encode p)) = Some (FrameComplete p (length (encode p)))"
    using decode_stable [OF not, of "drop k (encode p)"] decode_encode [OF assms(1), of "[]"] by simp
  then show False
    using decode_advance [of "take k (encode p)"] assms(2) by fastforce
qed

lemma decode_whole: "fits p \<Longrightarrow> decode (encode p) = Some (FrameComplete p (length (encode p)))"
  using decode_encode [of p "[]"] by simp

lemma encode_inject: "fits p \<Longrightarrow> fits q \<Longrightarrow> encode p = encode q \<Longrightarrow> p = q"
  by (metis decode_whole option.inject frame_decode.inject(1))

end

lemma length_encode_frame: "length (encode_frame p) = uvarint_len (of_nat (length p)) + length p"
  by (simp add: encode_frame_def)

lemma encode_frame_not_Nil [simp]: "encode_frame p \<noteq> []"
  by (simp add: encode_frame_def)

lemma decode_frame_total:
  "vec_ok d \<Longrightarrow> uvarint_len (of_nat (length d)) + length d < 2 ^ 64"
  using uvarint_len_le_10 [of "of_nat (length d)"] by (simp add: vec_ok_def)

lemma unat_u64_less: "unat (v :: u64) < 2 ^ 64"
  using unsigned_less [of v, where 'a = nat] by simp

interpretation frame: framing decode_frame encode_frame vec_ok
proof unfold_locales
  fix p rest
  assume p: "vec_ok (p :: bytes)"
  have r: "read_uvarint (encode_frame p @ rest) = Ok (of_nat (length p), uvarint_len (of_nat (length p)))"
    using read_uvarint_write [of "of_nat (length p)" "p @ rest"] by (simp add: encode_frame_def)
  show "decode_frame (encode_frame p @ rest) = Some (FrameComplete p (length (encode_frame p)))"
    using p decode_frame_total [OF p] unfolding decode_frame_def r
    by (simp add: Let_def length_encode_frame) (simp add: encode_frame_def)
next
  fix buf p n
  assume "decode_frame buf = Some (FrameComplete p n)"
  then show "0 < n \<and> n \<le> length buf"
    using read_uvarint_Ok(4) [of buf]
    by (auto simp: decode_frame_def Let_def split: if_splits sum.splits varint_error.splits)
next
  fix buf rest
  assume not: "decode_frame buf \<noteq> Some FrameIncomplete"
  have "read_uvarint buf \<noteq> Err BufferTooShort"
    using not by (auto simp: decode_frame_def split: if_splits)
  then have r: "read_uvarint (buf @ rest) = read_uvarint buf"
    by (rule read_uvarint_append)
  show "decode_frame (buf @ rest) = decode_frame buf"
  proof (cases "read_uvarint buf")
    case (Inr x)
    then show ?thesis
      using not r read_uvarint_Ok(3) [of buf "fst x" "snd x"]
      by (cases x) (auto simp: decode_frame_def Let_def split: if_splits)
  qed (use not r in \<open>auto simp: decode_frame_def split: varint_error.split if_splits\<close>)
qed

text \<open>The panic is reachable exactly with a length prefix at the top of the range.\<close>

lemma decode_frame_None_iff:
  "decode_frame input = None \<longleftrightarrow>
     (\<exists>len used. read_uvarint input = Ok (len, used) \<and> 2 ^ 64 \<le> used + unat len)"
  by (auto simp: decode_frame_def Let_def split: sum.splits varint_error.splits if_splits)

section \<open>Properties\<close>

text \<open>
  Frames are recognised on a byte stream: a framed payload is recovered from the front of any
  buffer that starts with it, with the exact number of bytes it takes, and a proper prefix of a
  frame is always reported as incomplete.
\<close>

theorem frame_roundtrip:
  assumes "vec_ok p"
  shows "decode_frame (encode_frame p @ rest) = Some (FrameComplete p (length (encode_frame p))) \<and>
    (\<forall>k < length (encode_frame p). decode_frame (take k (encode_frame p)) = Some FrameIncomplete)"
  using frame.decode_encode [OF assms] frame.decode_prefix [OF assms] by blast

text \<open>
  The only inputs on which the frame decoder panics are those whose length prefix is so close to
  \<open>u64::MAX\<close> that the prefix and the payload together cannot be addressed.
\<close>

theorem decode_frame_panics:
  "decode_frame input = None \<longleftrightarrow>
     (\<exists>len rest. input = write_uvarint len [] @ rest \<and> 2 ^ 64 \<le> uvarint_len len + unat len)"
  unfolding decode_frame_None_iff using read_uvarint_Ok(1) read_uvarint_take read_uvarint_write by metis

end
