(* ===== verification/Identify.thy ===== *)
theory Identify
  imports Multiaddr Ids SansIo Proto
begin

text \<open>
  The identify protocol, \<open>crates/identify/src/{message,lib}.rs\<close>: the protobuf message, its
  length-prefixed framing, and the state machine that sends our message on streams where we respond
  and collects the peer's message on streams where we initiate.  The multihash operations \<open>M\<close> are
  needed for the binary form of the addresses sent.
\<close>

section \<open>The message\<close>

record identify_message =
  im_public_key :: "bytes option"
  im_listen_addrs :: "bytes list"
  im_protocols :: "rstr list"
  im_observed_addr :: "bytes option"
  im_protocol_version :: "rstr option"
  im_agent_version :: "rstr option"

datatype identify_message_error =
    ImVarint varint_error
  | ImFieldOverflow nat nat nat
  | ImInvalidUtf8 u64
  | ImUnsupportedWireType byte nat

fun show_identify_message_error :: "identify_message_error \<Rightarrow> rstr" where
  "show_identify_message_error (ImVarint e) = lit ''varint error: '' @ show_varint_error e"
| "show_identify_message_error (ImFieldOverflow offset len remaining) =
     lit ''field at offset '' @ show_nat offset @ lit '' has length '' @ show_nat len @
     lit '' but only '' @ show_nat remaining @ lit '' bytes remain''"
| "show_identify_message_error (ImInvalidUtf8 n) = lit ''invalid UTF-8 in field '' @ show_nat (unat n)"
| "show_identify_message_error (ImUnsupportedWireType wt offset) =
     lit ''unsupported wire type '' @ show_nat (unat wt) @ lit '' at offset '' @ show_nat offset"

definition identify_errors :: "identify_message_error wire_errors" where
  "identify_errors = \<lparr>we_varint = ImVarint, we_overflow = ImFieldOverflow, we_wire = ImUnsupportedWireType\<rparr>"

definition identify_default :: identify_message where
  "identify_default = \<lparr>im_public_key = None, im_listen_addrs = [], im_protocols = [],
     im_observed_addr = None, im_protocol_version = None, im_agent_version = None\<rparr>"

definition TAG_PUBLIC_KEY :: byte where "TAG_PUBLIC_KEY = tag_byte 1 WIRE_LEN"
definition TAG_LISTEN_ADDRS :: byte where "TAG_LISTEN_ADDRS = tag_byte 2 WIRE_LEN"
definition TAG_PROTOCOLS :: byte where "TAG_PROTOCOLS = tag_byte 3 WIRE_LEN"
definition TAG_OBSERVED_ADDR :: byte where "TAG_OBSERVED_ADDR = tag_byte 4 WIRE_LEN"
definition TAG_PROTOCOL_VERSION :: byte where "TAG_PROTOCOL_VERSION = tag_byte 5 WIRE_LEN"
definition TAG_AGENT_VERSION :: byte where "TAG_AGENT_VERSION = tag_byte 6 WIRE_LEN"

lemmas identify_tags = TAG_PUBLIC_KEY_def TAG_LISTEN_ADDRS_def TAG_PROTOCOLS_def TAG_OBSERVED_ADDR_def
  TAG_PROTOCOL_VERSION_def TAG_AGENT_VERSION_def tag_byte_def wire_types

definition identify_encode :: "identify_message \<Rightarrow> bytes" where
  "identify_encode m =
     (let out = [];
          out = opt_bytes TAG_PUBLIC_KEY (im_public_key m) out;
          out = rep_bytes TAG_LISTEN_ADDRS (im_listen_addrs m) out;
          out = rep_bytes TAG_PROTOCOLS (im_protocols m) out;
          out = opt_bytes TAG_OBSERVED_ADDR (im_observed_addr m) out;
          out = opt_bytes TAG_PROTOCOL_VERSION (im_protocol_version m) out
      in opt_bytes TAG_AGENT_VERSION (im_agent_version m) out)"

definition utf8_field :: "u64 \<Rightarrow> bytes \<Rightarrow> identify_message_error + rstr" where
  "utf8_field field v = map_err (\<lambda>_. ImInvalidUtf8 field) (from_utf8 v)"

definition identify_len_field ::
  "u64 \<Rightarrow> bytes \<Rightarrow> identify_message \<Rightarrow> identify_message_error + identify_message" where
  "identify_len_field field v msg =
     (if field = 1 then Ok (msg\<lparr>im_public_key := Some v\<rparr>)
      else if field = 2 then Ok (msg\<lparr>im_listen_addrs := im_listen_addrs msg @ [v]\<rparr>)
      else if field = 3
      then and_then (utf8_field field v) (\<lambda>s. Ok (msg\<lparr>im_protocols := im_protocols msg @ [s]\<rparr>))
      else if field = 4 then Ok (msg\<lparr>im_observed_addr := Some v\<rparr>)
      else if field = 5
      then and_then (utf8_field field v) (\<lambda>s. Ok (msg\<lparr>im_protocol_version := Some s\<rparr>))
      else if field = 6
      then and_then (utf8_field field v) (\<lambda>s. Ok (msg\<lparr>im_agent_version := Some s\<rparr>))
      else Ok msg)"

definition identify_step ::
  "bytes \<Rightarrow> nat \<Rightarrow> nat \<Rightarrow> u64 \<Rightarrow> byte \<Rightarrow> identify_message \<Rightarrow>
     identify_message_error + (identify_message \<times> nat)" where
  "identify_step input off idx field wire_type msg =
     (if wire_type = WIRE_LEN
      then len_field identify_errors input idx (\<lambda>v. identify_len_field field v msg)
      else skip_field identify_errors input idx wire_type msg)"

definition identify_decode :: "bytes \<Rightarrow> identify_message_error + identify_message" where
  "identify_decode input = wire_loop identify_errors identify_step input 0 identify_default"

section \<open>The message round trip\<close>

definition identify_fields :: "identify_message \<Rightarrow> wire_field list" where
  "identify_fields m =
     opt_fields (WBytes TAG_PUBLIC_KEY) (im_public_key m) @
     map (WBytes TAG_LISTEN_ADDRS) (im_listen_addrs m) @
     map (WBytes TAG_PROTOCOLS) (im_protocols m) @
     opt_fields (WBytes TAG_OBSERVED_ADDR) (im_observed_addr m) @
     opt_fields (WBytes TAG_PROTOCOL_VERSION) (im_protocol_version m) @
     opt_fields (WBytes TAG_AGENT_VERSION) (im_agent_version m)"

lemma identify_encode_eq: "identify_encode m = fields_bytes (identify_fields m)"
  by (simp add: identify_encode_def identify_fields_def encoded_fields)

text \<open>What one field does to the message; fields of other numbers leave it alone.\<close>

fun identify_apply :: "wire_field \<Rightarrow> identify_message \<Rightarrow> identify_message_error + identify_message" where
  "identify_apply (WVarint t v) msg = Ok msg"
| "identify_apply (WBytes t d) msg = identify_len_field (field_number (WBytes t d)) d msg"

interpretation identify_msg: wire_message identify_errors identify_step "\<lambda>f. True" identify_apply
proof unfold_locales
  fix f idx input off msg
  assume "written_at f idx input"
  then show "identify_step input off idx (field_number f) (field_wire_type f) msg =
      and_then (identify_apply f msg) (\<lambda>m. Ok (m, length (field_body f)))"
    by (cases f) (simp_all add: identify_step_def decode_written)
qed

text \<open>What Rust's types guarantee of a message: UTF-8 strings, vectors within bounds.\<close>

definition identify_message_ok :: "identify_message \<Rightarrow> bool" where
  "identify_message_ok m \<longleftrightarrow>
     pred_option vec_ok (im_public_key m) \<and> list_all vec_ok (im_listen_addrs m) \<and>
     list_all (\<lambda>s. utf8_ok s \<and> vec_ok s) (im_protocols m) \<and> pred_option vec_ok (im_observed_addr m) \<and>
     pred_option (\<lambda>s. utf8_ok s \<and> vec_ok s) (im_protocol_version m) \<and>
     pred_option (\<lambda>s. utf8_ok s \<and> vec_ok s) (im_agent_version m)"

lemma identify_fields_ok: "identify_message_ok m \<Longrightarrow> f \<in> set (identify_fields m) \<Longrightarrow> field_ok f"
  by (cases m) (auto simp: identify_message_ok_def identify_fields_def opt_fields_def field_ok_def
      field_fits_def list_all_iff identify_tags split: option.splits)

lemma identify_apply_tags:
  "identify_apply (WBytes TAG_PUBLIC_KEY d) msg = Ok (msg\<lparr>im_public_key := Some d\<rparr>)"
  "identify_apply (WBytes TAG_LISTEN_ADDRS d) msg = Ok (msg\<lparr>im_listen_addrs := im_listen_addrs msg @ [d]\<rparr>)"
  "utf8_ok d \<Longrightarrow> identify_apply (WBytes TAG_PROTOCOLS d) msg = Ok (msg\<lparr>im_protocols := im_protocols msg @ [d]\<rparr>)"
  "identify_apply (WBytes TAG_OBSERVED_ADDR d) msg = Ok (msg\<lparr>im_observed_addr := Some d\<rparr>)"
  "utf8_ok d \<Longrightarrow> identify_apply (WBytes TAG_PROTOCOL_VERSION d) msg = Ok (msg\<lparr>im_protocol_version := Some d\<rparr>)"
  "utf8_ok d \<Longrightarrow> identify_apply (WBytes TAG_AGENT_VERSION d) msg = Ok (msg\<lparr>im_agent_version := Some d\<rparr>)"
  by (simp_all add: identify_len_field_def identify_tags utf8_field_def from_utf8_ok)

lemma identify_apply_rep:
  "apply_fields identify_apply (map (WBytes TAG_LISTEN_ADDRS) vs) msg =
     Ok (msg\<lparr>im_listen_addrs := im_listen_addrs msg @ vs\<rparr>)"
  "list_all utf8_ok vs \<Longrightarrow> apply_fields identify_apply (map (WBytes TAG_PROTOCOLS) vs) msg =
     Ok (msg\<lparr>im_protocols := im_protocols msg @ vs\<rparr>)"
  by (induction vs arbitrary: msg) (simp_all add: identify_apply_tags del: identify_apply.simps)

lemma identify_decode_encode [codec]:
  assumes "identify_message_ok m"
  shows "identify_decode (identify_encode m) = Ok m"
proof -
  have "apply_fields identify_apply (identify_fields m) identify_default = Ok m"
    using assms
    by (cases m) (auto simp: identify_message_ok_def identify_fields_def opt_fields_def identify_apply_rep
        identify_default_def identify_apply_tags list_all_iff simp del: identify_apply.simps
        split: option.splits)
  then show ?thesis
    using identify_msg.decode_fields [of "identify_fields m"] identify_fields_ok [OF assms]
    by (simp add: identify_decode_def identify_encode_eq)
qed

section \<open>The state machine\<close>

definition IDENTIFY_MAX_MESSAGE_SIZE :: nat where
  "IDENTIFY_MAX_MESSAGE_SIZE = 8192"

record identify_config =
  ic_protocol_version :: rstr
  ic_agent_version :: rstr
  ic_protocols :: "rstr list"
  ic_public_key :: bytes

datatype 'p identify_action =
    IdentifySend 'p stream_id bytes
  | IdentifyCloseStreamWrite 'p stream_id

datatype 'p identify_event =
    IdentifyReceived 'p identify_message
  | IdentifyErrorEvent 'p stream_id rstr

datatype ('p, 'mh) identify_input =
    IdRegisterOutboundStream 'p stream_id "'mh multiaddr option" "'mh multiaddr list"
  | IdRegisterInboundStream 'p stream_id
  | IdStreamData 'p stream_id bytes
  | IdStreamRemoteWriteClosed 'p stream_id
  | IdStreamClosed 'p stream_id
  | IdRemovePeer 'p
  | IdMigratePeer 'p 'p

datatype 'p identify_output = IdentifyAction "'p identify_action" | IdentifyEvent "'p identify_event"

datatype 'p identify_error = StreamAlreadyRegistered 'p | NoOutboundStream 'p

record peer_identify_state =
  id_outbound_stream :: "stream_id option"
  id_inbound_streams :: "(stream_id, bytes) btree_map"

record 'p identify_protocol =
  id_peers :: "('p, peer_identify_state) btree_map"
  id_events :: "'p identify_event list"
  id_actions :: "'p identify_action list"
  id_cfg :: identify_config

definition peer_identify_default :: peer_identify_state where
  "peer_identify_default = \<lparr>id_outbound_stream = None, id_inbound_streams = []\<rparr>"

definition identify_new :: "identify_config \<Rightarrow> 'p identify_protocol" where
  "identify_new config = \<lparr>id_peers = [], id_events = [], id_actions = [], id_cfg = config\<rparr>"

definition id_set_peer ::
  "'p::linorder \<Rightarrow> peer_identify_state \<Rightarrow> 'p identify_protocol \<Rightarrow> 'p identify_protocol" where
  "id_set_peer p st s = s\<lparr>id_peers := bm_insert p st (id_peers s)\<rparr>"

definition id_push_event :: "'p identify_event \<Rightarrow> 'p identify_protocol \<Rightarrow> 'p identify_protocol" where
  "id_push_event e s = s\<lparr>id_events := id_events s @ [e]\<rparr>"

definition add_protocol :: "rstr \<Rightarrow> 'p identify_protocol \<Rightarrow> 'p identify_protocol" where
  "add_protocol pid s =
     (let c = id_cfg s
      in if list_ex (\<lambda>q. q = pid) (ic_protocols c) then s
         else s\<lparr>id_cfg := c\<lparr>ic_protocols := ic_protocols c @ [pid]\<rparr>\<rparr>)"

definition encode_length_prefixed :: "bytes \<Rightarrow> bytes" where
  "encode_length_prefixed payload = write_uvarint (of_nat (length payload)) [] @ payload"

definition decode_length_prefixed :: "bytes \<Rightarrow> identify_message_error + bytes" where
  "decode_length_prefixed buf =
     and_then (map_err ImVarint (read_uvarint buf)) (\<lambda>(len, consumed).
       let len = unat len;
           remaining = length buf - consumed
       in if remaining < len then Err (ImFieldOverflow consumed len remaining)
          else Ok (take len (drop consumed buf)))"

definition local_identify_message ::
  "'mh multihash_api \<Rightarrow> identify_config \<Rightarrow> 'mh multiaddr option \<Rightarrow> 'mh multiaddr list \<Rightarrow>
     identify_message" where
  "local_identify_message M c observed listen =
     \<lparr>im_public_key = Some (ic_public_key c),
      im_listen_addrs = map (multiaddr_to_bytes M) listen,
      im_protocols = ic_protocols c,
      im_observed_addr = map_option (multiaddr_to_bytes M) observed,
      im_protocol_version = Some (ic_protocol_version c),
      im_agent_version = Some (ic_agent_version c)\<rparr>"

definition id_register_outbound_stream ::
  "'mh multihash_api \<Rightarrow> 'p::linorder \<Rightarrow> stream_id \<Rightarrow> 'mh multiaddr option \<Rightarrow> 'mh multiaddr list \<Rightarrow>
     'p identify_protocol \<Rightarrow> 'p identify_protocol \<times> ('p identify_error + 'p identify_action list)" where
  "id_register_outbound_stream M p sid observed listen s =
     (let state = bm_entry peer_identify_default (id_peers s) p;
          s = id_set_peer p state s
      in if id_outbound_stream state \<noteq> None then (s, Err (StreamAlreadyRegistered p))
         else
           let s = id_set_peer p (state\<lparr>id_outbound_stream := Some sid\<rparr>) s;
               data = encode_length_prefixed (identify_encode
                 (local_identify_message M (id_cfg s) observed listen))
           in (s, Ok [IdentifySend p sid data, IdentifyCloseStreamWrite p sid]))"

definition id_register_inbound_stream ::
  "'p::linorder \<Rightarrow> stream_id \<Rightarrow> 'p identify_protocol \<Rightarrow> 'p identify_protocol" where
  "id_register_inbound_stream p sid s =
     (let state = bm_entry peer_identify_default (id_peers s) p;
          buf = bm_entry [] (id_inbound_streams state) sid
      in id_set_peer p (state\<lparr>id_inbound_streams := bm_insert sid buf (id_inbound_streams state)\<rparr>) s)"

definition id_on_stream_data ::
  "'p::linorder \<Rightarrow> stream_id \<Rightarrow> bytes \<Rightarrow> 'p identify_protocol \<Rightarrow>
     'p identify_protocol \<times> 'p identify_action list" where
  "id_on_stream_data p sid data s =
     (case bm_get (id_peers s) p of
        None \<Rightarrow> (s, [])
      | Some state \<Rightarrow>
          (case bm_get (id_inbound_streams state) sid of
             None \<Rightarrow> (s, [])
           | Some buf \<Rightarrow>
               let buf = buf @ data
               in if IDENTIFY_MAX_MESSAGE_SIZE < length buf
                  then (id_set_peer p
                          (state\<lparr>id_inbound_streams := bm_remove sid (id_inbound_streams state)\<rparr>)
                          (id_push_event (IdentifyErrorEvent p sid
                            (lit ''identify message exceeds maximum size ('' @ show_nat (length buf) @
                             lit '' > '' @ show_nat IDENTIFY_MAX_MESSAGE_SIZE @ lit '')'')) s), [])
                  else (id_set_peer p
                          (state\<lparr>id_inbound_streams := bm_insert sid buf (id_inbound_streams state)\<rparr>) s, [])))"

definition id_on_stream_remote_write_closed ::
  "'p::linorder \<Rightarrow> stream_id \<Rightarrow> 'p identify_protocol \<Rightarrow> 'p identify_protocol \<times> 'p identify_action list" where
  "id_on_stream_remote_write_closed p sid s =
     (case bm_get (id_peers s) p of
        None \<Rightarrow> (s, [])
      | Some state \<Rightarrow>
          (case bm_get (id_inbound_streams state) sid of
             None \<Rightarrow> (s, [])
           | Some buf \<Rightarrow>
               let s = id_set_peer p
                     (state\<lparr>id_inbound_streams := bm_remove sid (id_inbound_streams state)\<rparr>) s;
                   s = (case and_then (decode_length_prefixed buf) identify_decode of
                       Inr info \<Rightarrow> id_push_event (IdentifyReceived p info) s
                     | Inl e \<Rightarrow> id_push_event (IdentifyErrorEvent p sid
                         (lit ''failed to decode identify message: '' @ show_identify_message_error e)) s)
               in (s, [IdentifyCloseStreamWrite p sid])))"

definition id_on_stream_closed ::
  "'p::linorder \<Rightarrow> stream_id \<Rightarrow> 'p identify_protocol \<Rightarrow> 'p identify_protocol" where
  "id_on_stream_closed p sid s =
     (case bm_get (id_peers s) p of
        None \<Rightarrow> s
      | Some state \<Rightarrow>
          let state = (if id_outbound_stream state = Some sid then state\<lparr>id_outbound_stream := None\<rparr> else state);
              state = state\<lparr>id_inbound_streams := bm_remove sid (id_inbound_streams state)\<rparr>
          in if id_outbound_stream state = None \<and> id_inbound_streams state = []
             then s\<lparr>id_peers := bm_remove p (id_peers s)\<rparr>
             else id_set_peer p state s)"

definition id_remove_peer :: "'p::linorder \<Rightarrow> 'p identify_protocol \<Rightarrow> 'p identify_protocol" where
  "id_remove_peer p s = s\<lparr>id_peers := bm_remove p (id_peers s)\<rparr>"

fun id_rename_event :: "'p \<Rightarrow> 'p \<Rightarrow> 'p identify_event \<Rightarrow> 'p identify_event" where
  "id_rename_event old new (IdentifyReceived p info) = IdentifyReceived (if p = old then new else p) info"
| "id_rename_event old new (IdentifyErrorEvent p sid e) =
     IdentifyErrorEvent (if p = old then new else p) sid e"

definition id_migrate_peer :: "'p::linorder \<Rightarrow> 'p \<Rightarrow> 'p identify_protocol \<Rightarrow> 'p identify_protocol" where
  "id_migrate_peer old new s =
     (if old = new then s
      else s\<lparr>id_peers := bm_rekey old new (id_peers s),
             id_events := map (id_rename_event old new) (id_events s)\<rparr>)"

definition id_extend_actions ::
  "'p identify_protocol \<times> 'p identify_action list \<Rightarrow> 'p identify_protocol \<times> ('p identify_error + unit)" where
  "id_extend_actions r = (case r of (s, actions) \<Rightarrow> (s\<lparr>id_actions := id_actions s @ actions\<rparr>, Ok ()))"

fun identify_handle_input ::
  "'mh multihash_api \<Rightarrow> ('p::linorder, 'mh) identify_input \<Rightarrow> 'p identify_protocol \<Rightarrow>
     ('p identify_protocol \<times> ('p identify_error + unit)) option" where
  "identify_handle_input M (IdRegisterOutboundStream p sid observed listen) s =
     Some (case id_register_outbound_stream M p sid observed listen s of
         (s, Inl e) \<Rightarrow> (s, Err e)
       | (s, Inr actions) \<Rightarrow> id_extend_actions (s, actions))"
| "identify_handle_input M (IdRegisterInboundStream p sid) s =
     Some (id_register_inbound_stream p sid s, Ok ())"
| "identify_handle_input M (IdStreamData p sid data) s =
     Some (id_extend_actions (id_on_stream_data p sid data s))"
| "identify_handle_input M (IdStreamRemoteWriteClosed p sid) s =
     Some (id_extend_actions (id_on_stream_remote_write_closed p sid s))"
| "identify_handle_input M (IdStreamClosed p sid) s = Some (id_on_stream_closed p sid s, Ok ())"
| "identify_handle_input M (IdRemovePeer p) s = Some (id_remove_peer p s, Ok ())"
| "identify_handle_input M (IdMigratePeer old new) s = Some (id_migrate_peer old new s, Ok ())"

definition identify_poll_output ::
  "'p identify_protocol \<Rightarrow> 'p identify_output option \<times> 'p identify_protocol" where
  "identify_poll_output s =
     (case id_actions s of
        a # as \<Rightarrow> (Some (IdentifyAction a), s\<lparr>id_actions := as\<rparr>)
      | [] \<Rightarrow>
          (case id_events s of
             [] \<Rightarrow> (None, s)
           | e # es \<Rightarrow> (Some (IdentifyEvent e), s\<lparr>id_events := es\<rparr>)))"

definition identify_is_idle :: "'p identify_protocol \<Rightarrow> bool" where
  "identify_is_idle s \<longleftrightarrow> id_actions s = [] \<and> id_events s = []"

section \<open>Consistency and bounds\<close>

definition peer_identify_ok :: "peer_identify_state \<Rightarrow> bool" where
  "peer_identify_ok st \<longleftrightarrow> bm_ok (id_inbound_streams st) \<and>
     bm_all (\<lambda>buf. length buf \<le> IDENTIFY_MAX_MESSAGE_SIZE) (id_inbound_streams st)"

definition identify_ok :: "'p::linorder identify_protocol \<Rightarrow> bool" where
  "identify_ok s \<longleftrightarrow> bm_ok (id_peers s) \<and> bm_all peer_identify_ok (id_peers s)"

lemma peer_identify_ok_default [simp]: "peer_identify_ok peer_identify_default"
  by (simp add: peer_identify_ok_def peer_identify_default_def)

lemma identify_ok_new [simp]: "identify_ok (identify_new config)"
  by (simp add: identify_ok_def identify_new_def)

lemma identify_ok_set_peer [intro]:
  "identify_ok s \<Longrightarrow> peer_identify_ok st \<Longrightarrow> identify_ok (id_set_peer p st s)"
  by (auto simp: identify_ok_def id_set_peer_def bm.invar_upd)

lemma identify_ok_push_event [simp]: "identify_ok (id_push_event e s) = identify_ok s"
  by (simp add: identify_ok_def id_push_event_def)

lemma identify_ok_fields [simp]:
  "identify_ok (s\<lparr>id_actions := as\<rparr>) = identify_ok s"
  "identify_ok (s\<lparr>id_events := es\<rparr>) = identify_ok s"
  by (simp_all add: identify_ok_def)

lemma identify_ok_get: "identify_ok s \<Longrightarrow> bm_get (id_peers s) p = Some st \<Longrightarrow> peer_identify_ok st"
  by (auto simp: identify_ok_def dest: bm_allD)

lemma identify_ok_entry:
  "identify_ok s \<Longrightarrow> peer_identify_ok (bm_entry peer_identify_default (id_peers s) p)"
  by (auto simp: bm_entry_def dest: identify_ok_get split: option.split)

lemma peer_identify_ok_outbound [simp]: "peer_identify_ok (st\<lparr>id_outbound_stream := x\<rparr>) = peer_identify_ok st"
  by (simp add: peer_identify_ok_def)

lemma peer_identify_ok_streams:
  assumes "peer_identify_ok st"
  shows "peer_identify_ok (st\<lparr>id_inbound_streams := bm_remove sid (id_inbound_streams st)\<rparr>)"
    and "length buf \<le> IDENTIFY_MAX_MESSAGE_SIZE \<Longrightarrow>
      peer_identify_ok (st\<lparr>id_inbound_streams := bm_insert sid buf (id_inbound_streams st)\<rparr>)"
    and "length (bm_entry [] (id_inbound_streams st) sid) \<le> IDENTIFY_MAX_MESSAGE_SIZE"
  using assms by (auto simp: peer_identify_ok_def bm.invar_del bm.invar_upd bm_entry_def
      dest: bm_allD split: option.split)

lemma identify_handle_input_ok:
  assumes "identify_ok s"
  shows "\<exists>t r. identify_handle_input M i s = Some (t, r) \<and> identify_ok t"
proof (cases i)
  case (IdRegisterOutboundStream p sid observed listen)
  then show ?thesis
    using assms identify_ok_entry [OF assms, of p]
    by (auto simp: id_register_outbound_stream_def id_extend_actions_def Let_def split: option.split)
next
  case (IdRegisterInboundStream p sid)
  then show ?thesis
    using assms identify_ok_entry [OF assms, of p]
    by (auto simp: id_register_inbound_stream_def Let_def peer_identify_ok_streams)
next
  case (IdStreamData p sid data)
  then show ?thesis
    using assms by (auto simp: id_on_stream_data_def id_extend_actions_def Let_def
        intro!: identify_ok_set_peer peer_identify_ok_streams(1,2) dest: identify_ok_get split: option.split)
next
  case (IdStreamRemoteWriteClosed p sid)
  then show ?thesis
    using assms by (auto simp: id_on_stream_remote_write_closed_def id_extend_actions_def Let_def
        intro!: identify_ok_set_peer peer_identify_ok_streams(1) dest: identify_ok_get
        split: option.split sum.split)
next
  case (IdStreamClosed p sid)
  have "identify_ok (id_on_stream_closed p sid s)"
  proof (cases "bm_get (id_peers s) p")
    case None
    then show ?thesis
      using assms by (simp add: id_on_stream_closed_def)
  next
    case (Some st)
    have "peer_identify_ok ((st\<lparr>id_outbound_stream := x\<rparr>)
        \<lparr>id_inbound_streams := bm_remove sid (id_inbound_streams (st\<lparr>id_outbound_stream := x\<rparr>))\<rparr>)" for x
      by (rule peer_identify_ok_streams(1)) (simp add: identify_ok_get [OF assms Some])
    moreover have "peer_identify_ok (st\<lparr>id_inbound_streams := bm_remove sid (id_inbound_streams st)\<rparr>)"
      by (rule peer_identify_ok_streams(1)) (rule identify_ok_get [OF assms Some])
    moreover have "identify_ok (s\<lparr>id_peers := bm_remove p (id_peers s)\<rparr>)"
      using assms by (auto simp: identify_ok_def bm.invar_del)
    ultimately show ?thesis
      using assms Some by (auto simp: id_on_stream_closed_def Let_def)
  qed
  then show ?thesis
    by (simp add: IdStreamClosed)
next
  case (IdRemovePeer p)
  then show ?thesis
    using assms by (auto simp: id_remove_peer_def identify_ok_def bm.invar_del)
next
  case (IdMigratePeer old new)
  then show ?thesis
    using assms by (auto simp: id_migrate_peer_def identify_ok_def bm_ok_rekey)
qed

interpretation identify: sans_io_protocol "identify_handle_input M" identify_poll_output identify_is_idle
  "\<lambda>s. length (id_actions s) + length (id_events s)" identify_ok for M
proof unfold_locales
  show "identify_ok s'" if "identify_ok s" "identify_handle_input M i s = Some (s', r)"
    for s s' :: "'b identify_protocol" and i r
    using identify_handle_input_ok [OF that(1), of M i] that(2) by auto
qed (auto simp: identify_poll_output_def identify_is_idle_def identify_ok_def split: list.splits)

section \<open>An exchange\<close>

lemma decode_length_prefixed_encode:
  "vec_ok d \<Longrightarrow> decode_length_prefixed (encode_length_prefixed d) = Ok d"
  by (simp add: decode_length_prefixed_def encode_length_prefixed_def read_uvarint_write Let_def)

fun identify_feed ::
  "'mh multihash_api \<Rightarrow> 'p::linorder \<Rightarrow> stream_id \<Rightarrow> bytes list \<Rightarrow> 'p identify_protocol \<Rightarrow> 'p identify_protocol option" where
  "identify_feed M p sid [] s = Some s"
| "identify_feed M p sid (c # cs) s =
     (case identify_handle_input M (IdStreamData p sid c) s of
        None \<Rightarrow> None
      | Some (s', r) \<Rightarrow> identify_feed M p sid cs s')"

lemma id_set_peer_simps [simp]:
  "id_set_peer p st (id_set_peer p st' s) = id_set_peer p st s"
  "bm_get (id_peers (id_set_peer p st s)) p = Some st"
  "id_actions (id_set_peer p st s) = id_actions s"
  by (simp_all add: id_set_peer_def)

text \<open>However the data is cut, the buffer holds all of it, as long as it fits.\<close>

lemma identify_feed_buffers:
  assumes "bm_get (id_peers s) p = Some st" and "bm_get (id_inbound_streams st) sid = Some buf"
    and "length (buf @ concat cs) \<le> IDENTIFY_MAX_MESSAGE_SIZE" and "identify_ok s"
  shows "identify_feed M p sid cs s =
    Some (id_set_peer p (st\<lparr>id_inbound_streams := bm_insert sid (buf @ concat cs) (id_inbound_streams st)\<rparr>) s)"
  using assms
proof (induction cs arbitrary: s st buf)
  case Nil
  have "bm_insert sid buf (id_inbound_streams st) = id_inbound_streams st"
    using identify_ok_get [OF Nil.prems(4,1)] Nil.prems(2) by (simp add: peer_identify_ok_def bm_insert_same)
  moreover have "bm_insert p st (id_peers s) = id_peers s"
    using Nil.prems by (simp add: identify_ok_def bm_insert_same)
  ultimately show ?case
    by (simp add: id_set_peer_def)
next
  case (Cons c cs)
  let ?st = "st\<lparr>id_inbound_streams := bm_insert sid (buf @ c) (id_inbound_streams st)\<rparr>"
  have h: "identify_handle_input M (IdStreamData p sid c) s = Some (id_set_peer p ?st s, Ok ())"
    using Cons.prems by (simp add: id_on_stream_data_def id_extend_actions_def id_set_peer_def)
  have "identify_ok (id_set_peer p ?st s)"
    using identify_handle_input_ok [OF Cons.prems(4), of M "IdStreamData p sid c"] h by simp
  then show ?case
    using Cons.prems Cons.IH [of "id_set_peer p ?st s" ?st "buf @ c"]
    by (simp only: identify_feed.simps h) simp
qed

lemma identify_receive:
  assumes "identify_ok s" and "bm_get (id_peers s) p = Some st" and "bm_get (id_inbound_streams st) sid = Some []"
    and "concat cs = encode_length_prefixed (identify_encode m)"
    and "length (concat cs) \<le> IDENTIFY_MAX_MESSAGE_SIZE" and "identify_message_ok m"
  shows "\<exists>s1 s2. identify_feed M p sid cs s = Some s1 \<and>
    identify_handle_input M (IdStreamRemoteWriteClosed p sid) s1 = Some (s2, Ok ()) \<and>
    id_events s2 = id_events s @ [IdentifyReceived p m] \<and>
    id_actions s2 = id_actions s @ [IdentifyCloseStreamWrite p sid]"
proof -
  let ?st = "st\<lparr>id_inbound_streams := bm_insert sid (concat cs) (id_inbound_streams st)\<rparr>"
  have feed: "identify_feed M p sid cs s = Some (id_set_peer p ?st s)"
    using identify_feed_buffers [OF assms(2,3), of cs M] assms(1,5) by simp
  have "vec_ok (identify_encode m)"
    using assms(4,5) by (auto simp: encode_length_prefixed_def vec_ok_def IDENTIFY_MAX_MESSAGE_SIZE_def)
  then have "and_then (decode_length_prefixed (concat cs)) identify_decode = Ok m"
    using assms(4,6) by (simp add: decode_length_prefixed_encode identify_decode_encode)
  then show ?thesis
    using feed by (auto simp: id_on_stream_remote_write_closed_def id_extend_actions_def
        id_push_event_def id_set_peer_def Let_def)
qed

lemma identify_send:
  assumes "bm_get (id_peers s) p = None \<or> (\<exists>st. bm_get (id_peers s) p = Some st \<and> id_outbound_stream st = None)"
  shows "\<exists>s'. identify_handle_input M (IdRegisterOutboundStream p sid observed listen) s = Some (s', Ok ()) \<and>
    id_actions s' = id_actions s @
      [IdentifySend p sid (encode_length_prefixed (identify_encode
         (local_identify_message M (id_cfg s) observed listen))),
       IdentifyCloseStreamWrite p sid] \<and>
    id_events s' = id_events s"
  using assms
  by (auto simp: id_register_outbound_stream_def id_extend_actions_def bm_entry_def
      peer_identify_default_def id_set_peer_def Let_def)

section \<open>Properties\<close>

text \<open>
  The identify message survives its protobuf encoding: every message Rust's types admit (UTF-8
  strings, any number of addresses and protocols, any absent fields) decodes to itself.
\<close>

theorem identify_message_roundtrip:
  assumes "identify_message_ok m"
  shows "identify_decode (identify_encode m) = Ok m"
  using assms by (rule identify_decode_encode)

text \<open>
  C25. An identify exchange: a responder that registers its stream sends exactly one length-prefixed
  message describing its configuration and the given addresses and then closes its side; an
  initiator that receives those bytes in any pieces reports exactly that message when the stream
  ends, and closes its side too.
\<close>

theorem identify_exchange:
  assumes "bm_get (id_peers a) b_id = None"
    and "identify_ok b" and "bm_get (id_peers b) a_id = Some st"
    and "bm_get (id_inbound_streams st) sid' = Some []"
    and "m = local_identify_message M (id_cfg a) observed listen" and "identify_message_ok m"
    and "concat cs = encode_length_prefixed (identify_encode m)"
    and "length (concat cs) \<le> IDENTIFY_MAX_MESSAGE_SIZE"
  shows "\<exists>a1 b1 b2.
    identify_handle_input M (IdRegisterOutboundStream b_id sid observed listen) a = Some (a1, Ok ()) \<and>
    id_actions a1 = id_actions a @ [IdentifySend b_id sid (concat cs), IdentifyCloseStreamWrite b_id sid] \<and>
    identify_feed M a_id sid' cs b = Some b1 \<and>
    identify_handle_input M (IdStreamRemoteWriteClosed a_id sid') b1 = Some (b2, Ok ()) \<and>
    id_events b2 = id_events b @ [IdentifyReceived a_id m] \<and>
    id_actions b2 = id_actions b @ [IdentifyCloseStreamWrite a_id sid']"
  using identify_send [of a b_id M sid observed listen] identify_receive [OF assms(2-4,7,8,6), of M]
    assms(1,5,7) by metis

theorem identify_exchange_witness:
  "let c = \<lparr>ic_protocol_version = lit ''v'', ic_agent_version = lit ''a'', ic_protocols = [lit ''/id''],
            ic_public_key = [8, 1]\<rparr>;
       m = local_identify_message mh64_api c (None :: mh64 multiaddr option) [];
       b = id_register_inbound_stream (3 :: nat) (StreamId 0) (identify_new c)
   in \<exists>a1 b1 b2. identify_handle_input mh64_api (IdRegisterOutboundStream (2 :: nat) (StreamId 4) None []) (identify_new c) =
          Some (a1, Ok ()) \<and>
        identify_feed mh64_api 3 (StreamId 0) [encode_length_prefixed (identify_encode m)] b = Some b1 \<and>
        identify_handle_input mh64_api (IdStreamRemoteWriteClosed 3 (StreamId 0)) b1 = Some (b2, Ok ()) \<and>
        id_events b2 = [IdentifyReceived 3 m]"
proof -
  let ?c = "\<lparr>ic_protocol_version = lit ''v'', ic_agent_version = lit ''a'', ic_protocols = [lit ''/id''],
            ic_public_key = [8, 1]\<rparr>"
  let ?m = "local_identify_message mh64_api ?c (None :: mh64 multiaddr option) []"
  let ?b = "id_register_inbound_stream (3 :: nat) (StreamId 0) (identify_new ?c)"
  have ok: "identify_message_ok ?m"
    by (simp add: identify_message_ok_def local_identify_message_def vec_ok_def lit_def)
  have b: "identify_ok ?b"
    using identify_handle_input_ok [of "identify_new ?c" mh64_api "IdRegisterInboundStream 3 (StreamId 0)"]
    by simp
  have st: "bm_get (id_peers ?b) 3 = Some (peer_identify_default\<lparr>id_inbound_streams := [(StreamId 0, [])]\<rparr>)"
    by (simp add: id_register_inbound_stream_def identify_new_def bm_entry_absent peer_identify_default_def Let_def)
  have "length (concat [encode_length_prefixed (identify_encode ?m)]) \<le> IDENTIFY_MAX_MESSAGE_SIZE"
    by (simp add: identify_encode_eq identify_fields_def opt_fields_def local_identify_message_def
        encode_length_prefixed_def field_bytes_def uvarint_len_rec lit_def IDENTIFY_MAX_MESSAGE_SIZE_def)
  from identify_exchange [OF _ b st _ refl, where a = "identify_new ?c" and M = mh64_api and sid' = "StreamId 0"
      and observed = None and listen = "[]" and cs = "[encode_length_prefixed (identify_encode ?m)]"
      and b_id = 2 and sid = "StreamId 4"] this ok
  show ?thesis
    by (auto simp: Let_def identify_new_def id_register_inbound_stream_def id_set_peer_def)
qed

text \<open>
  C26. Memory use is bounded and the machine never panics: every input keeps each peer's receive
  buffers within the maximum message size, and the queued outputs can be drained to an idle machine.
\<close>

theorem identify_handle_input_safe:
  "identify_ok (identify_new cfg :: 'p::linorder identify_protocol) \<and>
   (identify_ok s \<longrightarrow>
     (\<exists>s' r outs t. identify_handle_input M i (s :: 'p identify_protocol) = Some (s', r) \<and> identify_ok s' \<and>
        drain (Suc (length (id_actions s') + length (id_events s'))) identify_poll_output s' = Some (outs, t) \<and>
        identify_is_idle t \<and> identify_ok t))"
proof -
  have "\<exists>s' r outs t. identify_handle_input M i s = Some (s', r) \<and> identify_ok s' \<and>
        drain (Suc (length (id_actions s') + length (id_events s'))) identify_poll_output s' = Some (outs, t) \<and>
        identify_is_idle t \<and> identify_ok t" if "identify_ok s"
    using identify_handle_input_ok [OF that, of M i] identify.drain_returns by (metis lessI)
  then show ?thesis
    by simp
qed

theorem identify_handle_input_safe_witness:
  "\<exists>s' r. identify_handle_input mh64_api (IdStreamData (1 :: nat) (StreamId 0) (replicate 9000 0))
     (identify_new \<lparr>ic_protocol_version = [], ic_agent_version = [], ic_protocols = [], ic_public_key = []\<rparr>) =
     Some (s', r) \<and> identify_ok s'"
  using identify_handle_input_safe [where M = mh64_api and i = "IdStreamData (1 :: nat) (StreamId 0) (replicate 9000 0)"
      and s = "identify_new \<lparr>ic_protocol_version = [], ic_agent_version = [], ic_protocols = [], ic_public_key = []\<rparr>"]
    identify_ok_new by blast

end
