(* ===== verification/RelayMsg.thy ===== *)
theory RelayMsg
  imports Proto PeerId
begin

text \<open>
  Circuit Relay v2 messages, \<open>crates/relay/src/message.rs\<close>: the enumerations and their wire values,
  the nested messages, and the two top-level messages.  Each decoder is the field loop of \<open>Proto\<close>
  with the module's \<open>match (field, wire_type)\<close>; each is shown to invert its encoder.
\<close>

section \<open>Enumerations\<close>

datatype hop_message_type = HopReserve | HopConnectType | HopStatus

fun hop_type_code :: "hop_message_type \<Rightarrow> u64" where
  "hop_type_code HopReserve = 0"
| "hop_type_code HopConnectType = 1"
| "hop_type_code HopStatus = 2"

definition hop_type_from_u64 :: "u64 \<Rightarrow> hop_message_type option" where
  "hop_type_from_u64 v =
     (if v = 0 then Some HopReserve else if v = 1 then Some HopConnectType
      else if v = 2 then Some HopStatus else None)"

datatype stop_message_type = StopConnectType | StopStatus

fun stop_type_code :: "stop_message_type \<Rightarrow> u64" where
  "stop_type_code StopConnectType = 0"
| "stop_type_code StopStatus = 1"

definition stop_type_from_u64 :: "u64 \<Rightarrow> stop_message_type option" where
  "stop_type_from_u64 v = (if v = 0 then Some StopConnectType else if v = 1 then Some StopStatus else None)"

datatype relay_status =
    StUnused
  | StOk
  | StReservationRefused
  | StResourceLimitExceeded
  | StPermissionDenied
  | StConnectionFailed
  | StNoReservation
  | StMalformedMessage
  | StUnexpectedMessage

fun status_code :: "relay_status \<Rightarrow> u64" where
  "status_code StUnused = 0"
| "status_code StOk = 100"
| "status_code StReservationRefused = 200"
| "status_code StResourceLimitExceeded = 201"
| "status_code StPermissionDenied = 202"
| "status_code StConnectionFailed = 203"
| "status_code StNoReservation = 204"
| "status_code StMalformedMessage = 400"
| "status_code StUnexpectedMessage = 401"

definition status_from_u64 :: "u64 \<Rightarrow> relay_status" where
  "status_from_u64 v =
     (if v = 100 then StOk
      else if v = 200 then StReservationRefused
      else if v = 201 then StResourceLimitExceeded
      else if v = 202 then StPermissionDenied
      else if v = 203 then StConnectionFailed
      else if v = 204 then StNoReservation
      else if v = 400 then StMalformedMessage
      else if v = 401 then StUnexpectedMessage
      else StUnused)"

fun status_as_name :: "relay_status \<Rightarrow> rstr" where
  "status_as_name StUnused = lit ''UNUSED''"
| "status_as_name StOk = lit ''OK''"
| "status_as_name StReservationRefused = lit ''RESERVATION_REFUSED''"
| "status_as_name StResourceLimitExceeded = lit ''RESOURCE_LIMIT_EXCEEDED''"
| "status_as_name StPermissionDenied = lit ''PERMISSION_DENIED''"
| "status_as_name StConnectionFailed = lit ''CONNECTION_FAILED''"
| "status_as_name StNoReservation = lit ''NO_RESERVATION''"
| "status_as_name StMalformedMessage = lit ''MALFORMED_MESSAGE''"
| "status_as_name StUnexpectedMessage = lit ''UNEXPECTED_MESSAGE''"

definition describe_status :: "relay_status \<Rightarrow> rstr" where
  "describe_status st =
     (if st = StOk then lit ''OK''
      else status_as_name st @ lit '' ('' @ show_nat (unat (status_code st)) @ lit '')'')"

section \<open>Messages\<close>

record relay_peer =
  rp_id :: bytes
  rp_addrs :: "bytes list"

record reservation =
  rv_expire :: "u64 option"
  rv_addrs :: "bytes list"
  rv_voucher :: "bytes option"

record relay_limit =
  rl_duration :: "u32 option"
  rl_data :: "u64 option"

record hop_message =
  hm_kind :: hop_message_type
  hm_peer :: "relay_peer option"
  hm_reservation :: "reservation option"
  hm_limit :: "relay_limit option"
  hm_status :: "relay_status option"

record stop_message =
  sm_kind :: stop_message_type
  sm_peer :: "relay_peer option"
  sm_limit :: "relay_limit option"
  sm_status :: "relay_status option"

datatype relay_message_error =
    RmVarint varint_error
  | RmFieldOverflow nat nat nat
  | RmUnsupportedWireType byte nat
  | RmMissingType
  | RmInvalidMessageType u64

fun show_relay_message_error :: "relay_message_error \<Rightarrow> rstr" where
  "show_relay_message_error (RmVarint e) = lit ''varint error: '' @ show_varint_error e"
| "show_relay_message_error (RmFieldOverflow offset len remaining) =
     lit ''field at offset '' @ show_nat offset @ lit '' claims length '' @ show_nat len @
     lit '' but only '' @ show_nat remaining @ lit '' bytes remain''"
| "show_relay_message_error (RmUnsupportedWireType wt offset) =
     lit ''unsupported wire type '' @ show_nat (unat wt) @ lit '' at offset '' @ show_nat offset"
| "show_relay_message_error RmMissingType = lit ''required `type` field missing''"
| "show_relay_message_error (RmInvalidMessageType v) =
     lit ''invalid message type value: '' @ show_nat (unat v)"

definition relay_errors :: "relay_message_error wire_errors" where
  "relay_errors = \<lparr>we_varint = RmVarint, we_overflow = RmFieldOverflow, we_wire = RmUnsupportedWireType\<rparr>"

subsection \<open>\<open>Peer\<close>\<close>

definition relay_peer_encode :: "relay_peer \<Rightarrow> bytes" where
  "relay_peer_encode m =
     (let out = [];
          out = (if rp_id m \<noteq> [] then encode_bytes_field out (tag_byte 1 WIRE_LEN) (rp_id m) else out)
      in rep_bytes (tag_byte 2 WIRE_LEN) (rp_addrs m) out)"

definition relay_peer_step ::
  "bytes \<Rightarrow> nat \<Rightarrow> nat \<Rightarrow> u64 \<Rightarrow> byte \<Rightarrow> relay_peer \<Rightarrow> relay_message_error + (relay_peer \<times> nat)" where
  "relay_peer_step input off idx field wt msg =
     (if field = 1 \<and> wt = WIRE_LEN
      then len_field relay_errors input idx (\<lambda>v. Ok (msg\<lparr>rp_id := v\<rparr>))
      else if field = 2 \<and> wt = WIRE_LEN
      then len_field relay_errors input idx (\<lambda>v. Ok (msg\<lparr>rp_addrs := rp_addrs msg @ [v]\<rparr>))
      else skip_field relay_errors input idx wt msg)"

definition relay_peer_decode :: "bytes \<Rightarrow> relay_message_error + relay_peer" where
  "relay_peer_decode input = wire_loop relay_errors relay_peer_step input 0 \<lparr>rp_id = [], rp_addrs = []\<rparr>"

subsection \<open>\<open>Reservation\<close>\<close>

definition reservation_encode :: "reservation \<Rightarrow> bytes" where
  "reservation_encode m =
     (let out = [];
          out = opt_varint (tag_byte 1 WIRE_VARINT) (rv_expire m) out;
          out = rep_bytes (tag_byte 2 WIRE_LEN) (rv_addrs m) out
      in opt_bytes (tag_byte 3 WIRE_LEN) (rv_voucher m) out)"

definition reservation_step ::
  "bytes \<Rightarrow> nat \<Rightarrow> nat \<Rightarrow> u64 \<Rightarrow> byte \<Rightarrow> reservation \<Rightarrow> relay_message_error + (reservation \<times> nat)" where
  "reservation_step input off idx field wt msg =
     (if field = 1 \<and> wt = WIRE_VARINT
      then varint_field relay_errors input idx (\<lambda>v. Ok (msg\<lparr>rv_expire := Some v\<rparr>))
      else if field = 2 \<and> wt = WIRE_LEN
      then len_field relay_errors input idx (\<lambda>v. Ok (msg\<lparr>rv_addrs := rv_addrs msg @ [v]\<rparr>))
      else if field = 3 \<and> wt = WIRE_LEN
      then len_field relay_errors input idx (\<lambda>v. Ok (msg\<lparr>rv_voucher := Some v\<rparr>))
      else skip_field relay_errors input idx wt msg)"

definition reservation_decode :: "bytes \<Rightarrow> relay_message_error + reservation" where
  "reservation_decode input =
     wire_loop relay_errors reservation_step input 0 \<lparr>rv_expire = None, rv_addrs = [], rv_voucher = None\<rparr>"

subsection \<open>\<open>Limit\<close>\<close>

definition relay_limit_encode :: "relay_limit \<Rightarrow> bytes" where
  "relay_limit_encode m =
     (let out = [];
          out = opt_varint (tag_byte 1 WIRE_VARINT) (map_option ucast (rl_duration m)) out
      in opt_varint (tag_byte 2 WIRE_VARINT) (rl_data m) out)"

definition relay_limit_step ::
  "bytes \<Rightarrow> nat \<Rightarrow> nat \<Rightarrow> u64 \<Rightarrow> byte \<Rightarrow> relay_limit \<Rightarrow> relay_message_error + (relay_limit \<times> nat)" where
  "relay_limit_step input off idx field wt msg =
     (if field = 1 \<and> wt = WIRE_VARINT
      then varint_field relay_errors input idx (\<lambda>v. Ok (msg\<lparr>rl_duration := Some (ucast v)\<rparr>))
      else if field = 2 \<and> wt = WIRE_VARINT
      then varint_field relay_errors input idx (\<lambda>v. Ok (msg\<lparr>rl_data := Some v\<rparr>))
      else skip_field relay_errors input idx wt msg)"

definition relay_limit_decode :: "bytes \<Rightarrow> relay_message_error + relay_limit" where
  "relay_limit_decode input =
     wire_loop relay_errors relay_limit_step input 0 \<lparr>rl_duration = None, rl_data = None\<rparr>"

subsection \<open>\<open>HopMessage\<close>\<close>

definition hop_message_encode :: "hop_message \<Rightarrow> bytes" where
  "hop_message_encode m =
     (let out = [];
          out = encode_varint_field out (tag_byte 1 WIRE_VARINT) (hop_type_code (hm_kind m));
          out = opt_bytes (tag_byte 2 WIRE_LEN) (map_option relay_peer_encode (hm_peer m)) out;
          out = opt_bytes (tag_byte 3 WIRE_LEN) (map_option reservation_encode (hm_reservation m)) out;
          out = opt_bytes (tag_byte 4 WIRE_LEN) (map_option relay_limit_encode (hm_limit m)) out
      in opt_varint (tag_byte 5 WIRE_VARINT) (map_option status_code (hm_status m)) out)"

text \<open>The local variables of \<open>HopMessage::decode\<close>.\<close>

record hop_partial =
  hp_kind :: "hop_message_type option"
  hp_peer :: "relay_peer option"
  hp_reservation :: "reservation option"
  hp_limit :: "relay_limit option"
  hp_status :: "relay_status option"

definition hop_step ::
  "bytes \<Rightarrow> nat \<Rightarrow> nat \<Rightarrow> u64 \<Rightarrow> byte \<Rightarrow> hop_partial \<Rightarrow> relay_message_error + (hop_partial \<times> nat)" where
  "hop_step input off idx field wt msg =
     (if field = 1 \<and> wt = WIRE_VARINT
      then varint_field relay_errors input idx (\<lambda>v.
        and_then (ok_or (RmInvalidMessageType v) (hop_type_from_u64 v)) (\<lambda>k. Ok (msg\<lparr>hp_kind := Some k\<rparr>)))
      else if field = 2 \<and> wt = WIRE_LEN
      then len_field relay_errors input idx (\<lambda>v.
        and_then (relay_peer_decode v) (\<lambda>p. Ok (msg\<lparr>hp_peer := Some p\<rparr>)))
      else if field = 3 \<and> wt = WIRE_LEN
      then len_field relay_errors input idx (\<lambda>v.
        and_then (reservation_decode v) (\<lambda>r. Ok (msg\<lparr>hp_reservation := Some r\<rparr>)))
      else if field = 4 \<and> wt = WIRE_LEN
      then len_field relay_errors input idx (\<lambda>v.
        and_then (relay_limit_decode v) (\<lambda>l. Ok (msg\<lparr>hp_limit := Some l\<rparr>)))
      else if field = 5 \<and> wt = WIRE_VARINT
      then varint_field relay_errors input idx (\<lambda>v. Ok (msg\<lparr>hp_status := Some (status_from_u64 v)\<rparr>))
      else skip_field relay_errors input idx wt msg)"

definition hop_message_decode :: "bytes \<Rightarrow> relay_message_error + hop_message" where
  "hop_message_decode input =
     and_then (wire_loop relay_errors hop_step input 0
         \<lparr>hp_kind = None, hp_peer = None, hp_reservation = None, hp_limit = None, hp_status = None\<rparr>)
       (\<lambda>m. and_then (ok_or RmMissingType (hp_kind m)) (\<lambda>k.
         Ok \<lparr>hm_kind = k, hm_peer = hp_peer m, hm_reservation = hp_reservation m,
             hm_limit = hp_limit m, hm_status = hp_status m\<rparr>))"

subsection \<open>\<open>StopMessage\<close>\<close>

definition stop_message_encode :: "stop_message \<Rightarrow> bytes" where
  "stop_message_encode m =
     (let out = [];
          out = encode_varint_field out (tag_byte 1 WIRE_VARINT) (stop_type_code (sm_kind m));
          out = opt_bytes (tag_byte 2 WIRE_LEN) (map_option relay_peer_encode (sm_peer m)) out;
          out = opt_bytes (tag_byte 3 WIRE_LEN) (map_option relay_limit_encode (sm_limit m)) out
      in opt_varint (tag_byte 4 WIRE_VARINT) (map_option status_code (sm_status m)) out)"

record stop_partial =
  sp_kind :: "stop_message_type option"
  sp_peer :: "relay_peer option"
  sp_limit :: "relay_limit option"
  sp_status :: "relay_status option"

definition stop_step ::
  "bytes \<Rightarrow> nat \<Rightarrow> nat \<Rightarrow> u64 \<Rightarrow> byte \<Rightarrow> stop_partial \<Rightarrow> relay_message_error + (stop_partial \<times> nat)" where
  "stop_step input off idx field wt msg =
     (if field = 1 \<and> wt = WIRE_VARINT
      then varint_field relay_errors input idx (\<lambda>v.
        and_then (ok_or (RmInvalidMessageType v) (stop_type_from_u64 v)) (\<lambda>k. Ok (msg\<lparr>sp_kind := Some k\<rparr>)))
      else if field = 2 \<and> wt = WIRE_LEN
      then len_field relay_errors input idx (\<lambda>v.
        and_then (relay_peer_decode v) (\<lambda>p. Ok (msg\<lparr>sp_peer := Some p\<rparr>)))
      else if field = 3 \<and> wt = WIRE_LEN
      then len_field relay_errors input idx (\<lambda>v.
        and_then (relay_limit_decode v) (\<lambda>l. Ok (msg\<lparr>sp_limit := Some l\<rparr>)))
      else if field = 4 \<and> wt = WIRE_VARINT
      then varint_field relay_errors input idx (\<lambda>v. Ok (msg\<lparr>sp_status := Some (status_from_u64 v)\<rparr>))
      else skip_field relay_errors input idx wt msg)"

definition stop_message_decode :: "bytes \<Rightarrow> relay_message_error + stop_message" where
  "stop_message_decode input =
     and_then (wire_loop relay_errors stop_step input 0
         \<lparr>sp_kind = None, sp_peer = None, sp_limit = None, sp_status = None\<rparr>)
       (\<lambda>m. and_then (ok_or RmMissingType (sp_kind m)) (\<lambda>k.
         Ok \<lparr>sm_kind = k, sm_peer = sp_peer m, sm_limit = sp_limit m, sm_status = sp_status m\<rparr>))"

section \<open>The decoders invert the encoders\<close>

lemma hop_type_roundtrip [simp]: "hop_type_from_u64 (hop_type_code k) = Some k"
  by (cases k) (simp_all add: hop_type_from_u64_def)

lemma stop_type_roundtrip [simp]: "stop_type_from_u64 (stop_type_code k) = Some k"
  by (cases k) (simp_all add: stop_type_from_u64_def)

lemma status_roundtrip [simp]: "status_from_u64 (status_code st) = st"
  by (cases st) (simp_all add: status_from_u64_def)

text \<open>What one written field does to each partial message.\<close>

fun relay_peer_apply :: "wire_field \<Rightarrow> relay_peer \<Rightarrow> relay_message_error + relay_peer" where
  "relay_peer_apply (WVarint t v) msg = Ok msg"
| "relay_peer_apply (WBytes t d) msg =
     (let n = field_number (WBytes t d)
      in if n = 1 then Ok (msg\<lparr>rp_id := d\<rparr>)
         else if n = 2 then Ok (msg\<lparr>rp_addrs := rp_addrs msg @ [d]\<rparr>) else Ok msg)"

fun reservation_apply :: "wire_field \<Rightarrow> reservation \<Rightarrow> relay_message_error + reservation" where
  "reservation_apply (WVarint t v) msg =
     (if field_number (WVarint t v) = 1 then Ok (msg\<lparr>rv_expire := Some v\<rparr>) else Ok msg)"
| "reservation_apply (WBytes t d) msg =
     (let n = field_number (WBytes t d)
      in if n = 2 then Ok (msg\<lparr>rv_addrs := rv_addrs msg @ [d]\<rparr>)
         else if n = 3 then Ok (msg\<lparr>rv_voucher := Some d\<rparr>) else Ok msg)"

fun relay_limit_apply :: "wire_field \<Rightarrow> relay_limit \<Rightarrow> relay_message_error + relay_limit" where
  "relay_limit_apply (WVarint t v) msg =
     (let n = field_number (WVarint t v)
      in if n = 1 then Ok (msg\<lparr>rl_duration := Some (ucast v)\<rparr>)
         else if n = 2 then Ok (msg\<lparr>rl_data := Some v\<rparr>) else Ok msg)"
| "relay_limit_apply (WBytes t d) msg = Ok msg"

fun hop_apply :: "wire_field \<Rightarrow> hop_partial \<Rightarrow> relay_message_error + hop_partial" where
  "hop_apply (WVarint t v) msg =
     (let n = field_number (WVarint t v)
      in if n = 1 then and_then (ok_or (RmInvalidMessageType v) (hop_type_from_u64 v)) (\<lambda>k. Ok (msg\<lparr>hp_kind := Some k\<rparr>))
         else if n = 5 then Ok (msg\<lparr>hp_status := Some (status_from_u64 v)\<rparr>) else Ok msg)"
| "hop_apply (WBytes t d) msg =
     (let n = field_number (WBytes t d)
      in if n = 2 then and_then (relay_peer_decode d) (\<lambda>p. Ok (msg\<lparr>hp_peer := Some p\<rparr>))
         else if n = 3 then and_then (reservation_decode d) (\<lambda>r. Ok (msg\<lparr>hp_reservation := Some r\<rparr>))
         else if n = 4 then and_then (relay_limit_decode d) (\<lambda>l. Ok (msg\<lparr>hp_limit := Some l\<rparr>))
         else Ok msg)"

fun stop_apply :: "wire_field \<Rightarrow> stop_partial \<Rightarrow> relay_message_error + stop_partial" where
  "stop_apply (WVarint t v) msg =
     (let n = field_number (WVarint t v)
      in if n = 1 then and_then (ok_or (RmInvalidMessageType v) (stop_type_from_u64 v)) (\<lambda>k. Ok (msg\<lparr>sp_kind := Some k\<rparr>))
         else if n = 4 then Ok (msg\<lparr>sp_status := Some (status_from_u64 v)\<rparr>) else Ok msg)"
| "stop_apply (WBytes t d) msg =
     (let n = field_number (WBytes t d)
      in if n = 2 then and_then (relay_peer_decode d) (\<lambda>p. Ok (msg\<lparr>sp_peer := Some p\<rparr>))
         else if n = 3 then and_then (relay_limit_decode d) (\<lambda>l. Ok (msg\<lparr>sp_limit := Some l\<rparr>))
         else Ok msg)"

interpretation relay_peer_msg: wire_message relay_errors relay_peer_step "\<lambda>f. True" relay_peer_apply
proof unfold_locales
  show "relay_peer_step input off idx (field_number f) (field_wire_type f) msg =
      and_then (relay_peer_apply f msg) (\<lambda>m. Ok (m, length (field_body f)))"
    if "written_at f idx input" for f idx input off msg
    using that by (cases f) (simp_all add: relay_peer_step_def decode_written Let_def)
qed

interpretation reservation_msg: wire_message relay_errors reservation_step "\<lambda>f. True" reservation_apply
proof unfold_locales
  show "reservation_step input off idx (field_number f) (field_wire_type f) msg =
      and_then (reservation_apply f msg) (\<lambda>m. Ok (m, length (field_body f)))"
    if "written_at f idx input" for f idx input off msg
    using that by (cases f) (simp_all add: reservation_step_def decode_written Let_def)
qed

interpretation relay_limit_msg: wire_message relay_errors relay_limit_step "\<lambda>f. True" relay_limit_apply
proof unfold_locales
  show "relay_limit_step input off idx (field_number f) (field_wire_type f) msg =
      and_then (relay_limit_apply f msg) (\<lambda>m. Ok (m, length (field_body f)))"
    if "written_at f idx input" for f idx input off msg
    using that by (cases f) (simp_all add: relay_limit_step_def decode_written Let_def)
qed

interpretation hop_msg: wire_message relay_errors hop_step "\<lambda>f. True" hop_apply
proof unfold_locales
  show "hop_step input off idx (field_number f) (field_wire_type f) msg =
      and_then (hop_apply f msg) (\<lambda>m. Ok (m, length (field_body f)))"
    if "written_at f idx input" for f idx input off msg
    using that by (cases f) (simp_all add: hop_step_def decode_written Let_def)
qed

interpretation stop_msg: wire_message relay_errors stop_step "\<lambda>f. True" stop_apply
proof unfold_locales
  show "stop_step input off idx (field_number f) (field_wire_type f) msg =
      and_then (stop_apply f msg) (\<lambda>m. Ok (m, length (field_body f)))"
    if "written_at f idx input" for f idx input off msg
    using that by (cases f) (simp_all add: stop_step_def decode_written Let_def)
qed

text \<open>The fields each encoder writes.\<close>

definition relay_peer_fields :: "relay_peer \<Rightarrow> wire_field list" where
  "relay_peer_fields m =
     (if rp_id m \<noteq> [] then [WBytes (tag_byte 1 WIRE_LEN) (rp_id m)] else []) @
     map (WBytes (tag_byte 2 WIRE_LEN)) (rp_addrs m)"

definition reservation_fields :: "reservation \<Rightarrow> wire_field list" where
  "reservation_fields m =
     opt_vfields (WVarint (tag_byte 1 WIRE_VARINT)) (rv_expire m) @
     map (WBytes (tag_byte 2 WIRE_LEN)) (rv_addrs m) @
     opt_fields (WBytes (tag_byte 3 WIRE_LEN)) (rv_voucher m)"

definition relay_limit_fields :: "relay_limit \<Rightarrow> wire_field list" where
  "relay_limit_fields m =
     opt_vfields (WVarint (tag_byte 1 WIRE_VARINT)) (map_option ucast (rl_duration m)) @
     opt_vfields (WVarint (tag_byte 2 WIRE_VARINT)) (rl_data m)"

definition hop_fields :: "hop_message \<Rightarrow> wire_field list" where
  "hop_fields m =
     [WVarint (tag_byte 1 WIRE_VARINT) (hop_type_code (hm_kind m))] @
     opt_fields (WBytes (tag_byte 2 WIRE_LEN)) (map_option relay_peer_encode (hm_peer m)) @
     opt_fields (WBytes (tag_byte 3 WIRE_LEN)) (map_option reservation_encode (hm_reservation m)) @
     opt_fields (WBytes (tag_byte 4 WIRE_LEN)) (map_option relay_limit_encode (hm_limit m)) @
     opt_vfields (WVarint (tag_byte 5 WIRE_VARINT)) (map_option status_code (hm_status m))"

definition stop_fields :: "stop_message \<Rightarrow> wire_field list" where
  "stop_fields m =
     [WVarint (tag_byte 1 WIRE_VARINT) (stop_type_code (sm_kind m))] @
     opt_fields (WBytes (tag_byte 2 WIRE_LEN)) (map_option relay_peer_encode (sm_peer m)) @
     opt_fields (WBytes (tag_byte 3 WIRE_LEN)) (map_option relay_limit_encode (sm_limit m)) @
     opt_vfields (WVarint (tag_byte 4 WIRE_VARINT)) (map_option status_code (sm_status m))"

lemma relay_encode_fields:
  "relay_peer_encode p = fields_bytes (relay_peer_fields p)"
  "reservation_encode r = fields_bytes (reservation_fields r)"
  "relay_limit_encode l = fields_bytes (relay_limit_fields l)"
  "hop_message_encode h = fields_bytes (hop_fields h)"
  "stop_message_encode s = fields_bytes (stop_fields s)"
  by (simp_all add: relay_peer_encode_def relay_peer_fields_def reservation_encode_def reservation_fields_def
      relay_limit_encode_def relay_limit_fields_def hop_message_encode_def hop_fields_def
      stop_message_encode_def stop_fields_def encoded_fields Let_def)

declare tag_bytes [simp]

lemmas relay_fields_defs = relay_peer_fields_def reservation_fields_def relay_limit_fields_def
  hop_fields_def stop_fields_def opt_fields_def opt_vfields_def

lemma relay_field_tags:
  "f \<in> set (relay_peer_fields p) \<Longrightarrow> wire_type_ok f \<and> field_tag f < 0x80"
  "f \<in> set (reservation_fields r) \<Longrightarrow> wire_type_ok f \<and> field_tag f < 0x80"
  "f \<in> set (relay_limit_fields l) \<Longrightarrow> wire_type_ok f \<and> field_tag f < 0x80"
  "f \<in> set (hop_fields h) \<Longrightarrow> wire_type_ok f \<and> field_tag f < 0x80"
  "f \<in> set (stop_fields st) \<Longrightarrow> wire_type_ok f \<and> field_tag f < 0x80"
  by (auto simp: relay_fields_defs tag_byte_def wire_types simp del: tag_bytes split: option.splits if_splits)

lemma relay_fields_ok:
  "vec_ok (relay_peer_encode p) \<Longrightarrow> \<forall>f \<in> set (relay_peer_fields p). True \<and> field_ok f"
  "vec_ok (reservation_encode r) \<Longrightarrow> \<forall>f \<in> set (reservation_fields r). True \<and> field_ok f"
  "vec_ok (relay_limit_encode l) \<Longrightarrow> \<forall>f \<in> set (relay_limit_fields l). True \<and> field_ok f"
  "vec_ok (hop_message_encode h) \<Longrightarrow> \<forall>f \<in> set (hop_fields h). True \<and> field_ok f"
  "vec_ok (stop_message_encode st) \<Longrightarrow> \<forall>f \<in> set (stop_fields st). True \<and> field_ok f"
  using fields_fit relay_field_tags by (simp_all add: relay_encode_fields)

lemma relay_peer_decode_encode [codec]:
  assumes "vec_ok (relay_peer_encode p)"
  shows "relay_peer_decode (relay_peer_encode p) = Ok p"
proof -
  have "apply_fields relay_peer_apply (map (WBytes 0x12) vs) msg = Ok (msg\<lparr>rp_addrs := rp_addrs msg @ vs\<rparr>)"
    for vs msg
    by (induction vs arbitrary: msg) simp_all
  then have "apply_fields relay_peer_apply (relay_peer_fields p) \<lparr>rp_id = [], rp_addrs = []\<rparr> = Ok p"
    by (cases p) (simp add: relay_fields_defs)
  then show ?thesis
    using relay_peer_msg.decode_fields [OF relay_fields_ok(1) [OF assms]]
    by (simp add: relay_peer_decode_def relay_encode_fields)
qed

lemma reservation_decode_encode [codec]:
  assumes "vec_ok (reservation_encode r)"
  shows "reservation_decode (reservation_encode r) = Ok r"
proof -
  have "apply_fields reservation_apply (map (WBytes 0x12) vs) msg = Ok (msg\<lparr>rv_addrs := rv_addrs msg @ vs\<rparr>)"
    for vs msg
    by (induction vs arbitrary: msg) simp_all
  then have "apply_fields reservation_apply (reservation_fields r)
      \<lparr>rv_expire = None, rv_addrs = [], rv_voucher = None\<rparr> = Ok r"
    by (cases r) (auto simp: relay_fields_defs split: option.split)
  then show ?thesis
    using reservation_msg.decode_fields [OF relay_fields_ok(2) [OF assms]]
    by (simp add: reservation_decode_def relay_encode_fields)
qed

lemma ucast_u32_u64 [simp]: "ucast (ucast (d :: u32) :: u64) = d"
  by (rule bit_word_eqI) (simp add: bit_simps)

lemma relay_limit_vec_ok [simp]: "vec_ok (relay_limit_encode l)"
proof -
  have len: "length (fields_bytes (opt_vfields (WVarint t) x)) \<le> 11" for t x
    using uvarint_len_le_10 by (auto simp: opt_vfields_def split: option.split)
  have "length (relay_limit_encode l) \<le> 11 + 11"
    using add_mono [OF len len] by (simp add: relay_encode_fields relay_limit_fields_def)
  then show ?thesis
    by (simp add: vec_ok_def)
qed

lemma relay_limit_decode_encode [codec]: "relay_limit_decode (relay_limit_encode l) = Ok l"
proof -
  have "apply_fields relay_limit_apply (relay_limit_fields l) \<lparr>rl_duration = None, rl_data = None\<rparr> = Ok l"
    by (cases l) (auto simp: relay_fields_defs split: option.split)
  then show ?thesis
    using relay_limit_msg.decode_fields [OF relay_fields_ok(3) [OF relay_limit_vec_ok]]
    by (simp add: relay_limit_decode_def relay_encode_fields)
qed

text \<open>A nested message is part of the encoding it is nested in.\<close>

lemma nested_vec_ok:
  "vec_ok (hop_message_encode h) \<Longrightarrow> hm_peer h = Some p \<Longrightarrow> vec_ok (relay_peer_encode p)"
  "vec_ok (hop_message_encode h) \<Longrightarrow> hm_reservation h = Some r \<Longrightarrow> vec_ok (reservation_encode r)"
  "vec_ok (stop_message_encode st) \<Longrightarrow> sm_peer st = Some p \<Longrightarrow> vec_ok (relay_peer_encode p)"
  using relay_fields_ok(4,5)
  by (fastforce simp: hop_fields_def stop_fields_def opt_fields_def field_ok_def field_fits_def)+

lemma hop_message_decode_encode [codec]:
  assumes "vec_ok (hop_message_encode h)"
  shows "hop_message_decode (hop_message_encode h) = Ok h"
proof -
  let ?none = "\<lparr>hp_kind = None, hp_peer = None, hp_reservation = None, hp_limit = None, hp_status = None\<rparr>"
  have "apply_fields hop_apply (hop_fields h) ?none =
      Ok \<lparr>hp_kind = Some (hm_kind h), hp_peer = hm_peer h, hp_reservation = hm_reservation h,
          hp_limit = hm_limit h, hp_status = hm_status h\<rparr>"
    using nested_vec_ok(1,2) [OF assms]
    by (auto simp: hop_fields_def opt_fields_def opt_vfields_def codec split: option.split)
  then show ?thesis
    using hop_msg.decode_fields [OF relay_fields_ok(4) [OF assms]]
    by (simp add: hop_message_decode_def relay_encode_fields)
qed

lemma stop_message_decode_encode [codec]:
  assumes "vec_ok (stop_message_encode st)"
  shows "stop_message_decode (stop_message_encode st) = Ok st"
proof -
  let ?none = "\<lparr>sp_kind = None, sp_peer = None, sp_limit = None, sp_status = None\<rparr>"
  have "apply_fields stop_apply (stop_fields st) ?none =
      Ok \<lparr>sp_kind = Some (sm_kind st), sp_peer = sm_peer st, sp_limit = sm_limit st, sp_status = sm_status st\<rparr>"
    using nested_vec_ok(3) [OF assms]
    by (auto simp: stop_fields_def opt_fields_def opt_vfields_def codec split: option.split)
  then show ?thesis
    using stop_msg.decode_fields [OF relay_fields_ok(5) [OF assms]]
    by (simp add: stop_message_decode_def relay_encode_fields)
qed

section \<open>Properties\<close>

text \<open>
  The HOP and STOP messages survive their protobuf encoding, nested peers, reservations and
  limits included, whenever the encoding fits in memory.
\<close>

theorem relay_messages_roundtrip:
  "(vec_ok (hop_message_encode h) \<longrightarrow> hop_message_decode (hop_message_encode h) = Ok h) \<and>
   (vec_ok (stop_message_encode st) \<longrightarrow> stop_message_decode (stop_message_encode st) = Ok st)"
  by (simp add: hop_message_decode_encode stop_message_decode_encode)

end
