(* ===== verification/Relay.thy ===== *)
theory Relay
  imports RelayMsg SansIo
begin

text \<open>
  The three Circuit Relay v2 flows of \<open>crates/relay/src/lib.rs\<close>: \<open>HopReservation\<close> and \<open>HopConnect\<close>
  (we ask a relay) and \<open>StopResponder\<close> (a relay asks us).  \<open>None\<close> is the panic of \<open>decode_frame\<close> on a
  length prefix near \<open>u64::MAX\<close>.
\<close>

section \<open>Shared parts\<close>

definition RELAY_MAX_MESSAGE_SIZE :: nat where
  "RELAY_MAX_MESSAGE_SIZE = 8192"

datatype relay_error =
    RelayMessageTooLarge nat
  | RelayMalformed relay_message_error
  | RelayUnexpectedMessage rstr

datatype flow_state = FlowPending | FlowAwaitingResponse | FlowDone

fun debug_hop_type :: "hop_message_type \<Rightarrow> rstr" where
  "debug_hop_type HopReserve = lit ''Reserve''"
| "debug_hop_type HopConnectType = lit ''Connect''"
| "debug_hop_type HopStatus = lit ''Status''"

fun debug_stop_type :: "stop_message_type \<Rightarrow> rstr" where
  "debug_stop_type StopConnectType = lit ''Connect''"
| "debug_stop_type StopStatus = lit ''Status''"

definition unexpected_hop_reason :: "hop_message_type \<Rightarrow> rstr \<Rightarrow> rstr" where
  "unexpected_hop_reason actual expected =
     lit ''expected HOP message of type '' @ expected @ lit '' but got '' @ debug_hop_type actual"

definition unexpected_stop_reason :: "stop_message_type \<Rightarrow> rstr \<Rightarrow> rstr" where
  "unexpected_stop_reason actual expected =
     lit ''expected STOP message of type '' @ expected @ lit '' but got '' @ debug_stop_type actual"

definition relay_enforce_max_size :: "bytes \<Rightarrow> relay_error + unit" where
  "relay_enforce_max_size buf =
     (if RELAY_MAX_MESSAGE_SIZE < length buf then Err (RelayMessageTooLarge (length buf)) else Ok ())"

text \<open>
  What the three \<open>try_decode_\<dots>\<close> functions have in common: the size check, the frame, the message.  The
  result is an error (after which each of them is done), no message yet, or a message and the number
  of bytes it took.
\<close>

definition frame_message ::
  "(bytes \<Rightarrow> relay_message_error + 'm) \<Rightarrow> bytes \<Rightarrow> (relay_error + ('m \<times> nat) option) option" where
  "frame_message decode buf =
     (case relay_enforce_max_size buf of
        Inl e \<Rightarrow> Some (Err e)
      | Inr _ \<Rightarrow>
          (case decode_frame buf of
             None \<Rightarrow> None
           | Some (FrameComplete payload consumed) \<Rightarrow>
               Some (map_err RelayMalformed
                 (and_then (decode payload) (\<lambda>msg. Ok (Some (msg, consumed)))))
           | Some (FrameError e) \<Rightarrow> Some (Err (RelayMalformed (RmVarint e)))
           | Some _ \<Rightarrow> Some (Ok None)))"

section \<open>\<open>HopReservation\<close>\<close>

datatype reservation_outcome =
    ReservationAccepted "reservation option" "relay_limit option"
  | ReservationRefused relay_status rstr

datatype hop_reservation_input = HrFlush | HrData bytes | HrRemoteWriteClosed

datatype hop_reservation_output = HrOutbound bytes | HrOutcome reservation_outcome

record hop_reservation =
  hr_outbound :: bytes
  hr_recv_buf :: bytes
  hr_state :: flow_state
  hr_outcome :: "reservation_outcome option"
  hr_emitted :: bool

definition hop_reservation_new :: hop_reservation where
  "hop_reservation_new =
     \<lparr>hr_outbound = encode_frame (hop_message_encode
        \<lparr>hm_kind = HopReserve, hm_peer = None, hm_reservation = None, hm_limit = None, hm_status = None\<rparr>),
      hr_recv_buf = [], hr_state = FlowPending, hr_outcome = None, hr_emitted = False\<rparr>"

definition hr_take_outbound :: "hop_reservation \<Rightarrow> bytes \<times> hop_reservation" where
  "hr_take_outbound s =
     (hr_outbound s,
      s\<lparr>hr_outbound := [],
        hr_state := (if hr_state s = FlowPending then FlowAwaitingResponse else hr_state s)\<rparr>)"

definition reservation_result :: "hop_message \<Rightarrow> reservation_outcome" where
  "reservation_result msg =
     (let status = (case hm_status msg of None \<Rightarrow> StUnused | Some st \<Rightarrow> st)
      in if status = StOk then ReservationAccepted (hm_reservation msg) (hm_limit msg)
         else ReservationRefused status (describe_status status))"

definition hr_try_decode_response :: "hop_reservation \<Rightarrow> (hop_reservation \<times> (relay_error + unit)) option" where
  "hr_try_decode_response s =
     (if hr_state s = FlowDone then Some (s, Ok ())
      else case frame_message hop_message_decode (hr_recv_buf s) of
        None \<Rightarrow> None
      | Some (Inl e) \<Rightarrow> Some (s\<lparr>hr_state := FlowDone\<rparr>, Err e)
      | Some (Inr None) \<Rightarrow> Some (s, Ok ())
      | Some (Inr (Some (msg, consumed))) \<Rightarrow>
          let s = s\<lparr>hr_recv_buf := drop consumed (hr_recv_buf s), hr_state := FlowDone\<rparr>
          in if hm_kind msg \<noteq> HopStatus
             then Some (s, Err (RelayUnexpectedMessage (unexpected_hop_reason (hm_kind msg) (lit ''STATUS''))))
             else Some (s\<lparr>hr_outcome := Some (reservation_result msg), hr_emitted := False\<rparr>, Ok ()))"

definition hr_on_data :: "bytes \<Rightarrow> hop_reservation \<Rightarrow> (hop_reservation \<times> (relay_error + unit)) option" where
  "hr_on_data data s =
     (if hr_state s = FlowDone then Some (s, Ok ())
      else hr_try_decode_response (s\<lparr>hr_recv_buf := hr_recv_buf s @ data\<rparr>))"

fun hr_handle_input ::
  "hop_reservation_input \<Rightarrow> hop_reservation \<Rightarrow> (hop_reservation \<times> (relay_error + unit)) option" where
  "hr_handle_input HrFlush s = Some (s, Ok ())"
| "hr_handle_input (HrData data) s = hr_on_data data s"
| "hr_handle_input HrRemoteWriteClosed s = hr_try_decode_response s"

definition hr_poll_output :: "hop_reservation \<Rightarrow> hop_reservation_output option \<times> hop_reservation" where
  "hr_poll_output s =
     (let (outbound, s) = hr_take_outbound s
      in if outbound \<noteq> [] then (Some (HrOutbound outbound), s)
         else if \<not> hr_emitted s
         then (case hr_outcome s of
             Some outcome \<Rightarrow> (Some (HrOutcome outcome), s\<lparr>hr_emitted := True\<rparr>)
           | None \<Rightarrow> (None, s))
         else (None, s))"

definition hr_is_idle :: "hop_reservation \<Rightarrow> bool" where
  "hr_is_idle s \<longleftrightarrow> hr_outbound s = [] \<and> (hr_emitted s \<or> hr_outcome s = None)"

definition hr_is_done :: "hop_reservation \<Rightarrow> bool" where
  "hr_is_done s \<longleftrightarrow> hr_state s = FlowDone"

section \<open>\<open>HopConnect\<close>\<close>

datatype connect_outcome =
    ConnectBridged "relay_limit option"
  | ConnectRefused relay_status rstr

datatype hop_connect_input = HcFlush | HcData bytes | HcRemoteWriteClosed

datatype hop_connect_output = HcOutbound bytes | HcOutcome connect_outcome | HcBridgeData bytes

record hop_connect =
  hc_outbound :: bytes
  hc_recv_buf :: bytes
  hc_state :: flow_state
  hc_outcome :: "connect_outcome option"
  hc_emitted :: bool
  hc_bridge :: bytes

definition hop_connect_new :: "bytes \<Rightarrow> hop_connect" where
  "hop_connect_new target =
     \<lparr>hc_outbound = encode_frame (hop_message_encode
        \<lparr>hm_kind = HopConnectType, hm_peer = Some \<lparr>rp_id = target, rp_addrs = []\<rparr>,
         hm_reservation = None, hm_limit = None, hm_status = None\<rparr>),
      hc_recv_buf = [], hc_state = FlowPending, hc_outcome = None, hc_emitted = False, hc_bridge = []\<rparr>"

definition hc_take_outbound :: "hop_connect \<Rightarrow> bytes \<times> hop_connect" where
  "hc_take_outbound s =
     (hc_outbound s,
      s\<lparr>hc_outbound := [],
        hc_state := (if hc_state s = FlowPending then FlowAwaitingResponse else hc_state s)\<rparr>)"

definition hc_try_decode_response :: "hop_connect \<Rightarrow> (hop_connect \<times> (relay_error + unit)) option" where
  "hc_try_decode_response s =
     (if hc_state s = FlowDone then Some (s, Ok ())
      else case frame_message hop_message_decode (hc_recv_buf s) of
        None \<Rightarrow> None
      | Some (Inl e) \<Rightarrow> Some (s\<lparr>hc_state := FlowDone\<rparr>, Err e)
      | Some (Inr None) \<Rightarrow> Some (s, Ok ())
      | Some (Inr (Some (msg, consumed))) \<Rightarrow>
          let s = s\<lparr>hc_recv_buf := drop consumed (hc_recv_buf s), hc_state := FlowDone\<rparr>
          in if hm_kind msg \<noteq> HopStatus
             then Some (s, Err (RelayUnexpectedMessage (unexpected_hop_reason (hm_kind msg) (lit ''STATUS''))))
             else
               let status = (case hm_status msg of None \<Rightarrow> StUnused | Some st \<Rightarrow> st)
               in if status = StOk
                  then Some (s\<lparr>hc_bridge := hc_bridge s @ hc_recv_buf s, hc_recv_buf := [],
                               hc_outcome := Some (ConnectBridged (hm_limit msg)), hc_emitted := False\<rparr>, Ok ())
                  else Some (s\<lparr>hc_outcome := Some (ConnectRefused status (describe_status status)),
                               hc_emitted := False\<rparr>, Ok ()))"

definition hc_on_data :: "bytes \<Rightarrow> hop_connect \<Rightarrow> (hop_connect \<times> (relay_error + unit)) option" where
  "hc_on_data data s =
     (if hc_state s = FlowDone
      then Some ((case hc_outcome s of
          Some (ConnectBridged _) \<Rightarrow> s\<lparr>hc_bridge := hc_bridge s @ data\<rparr>
        | _ \<Rightarrow> s), Ok ())
      else hc_try_decode_response (s\<lparr>hc_recv_buf := hc_recv_buf s @ data\<rparr>))"

fun hc_handle_input ::
  "hop_connect_input \<Rightarrow> hop_connect \<Rightarrow> (hop_connect \<times> (relay_error + unit)) option" where
  "hc_handle_input HcFlush s = Some (s, Ok ())"
| "hc_handle_input (HcData data) s = hc_on_data data s"
| "hc_handle_input HcRemoteWriteClosed s = hc_try_decode_response s"

definition hc_take_bridge_bytes :: "hop_connect \<Rightarrow> bytes \<times> hop_connect" where
  "hc_take_bridge_bytes s = (hc_bridge s, s\<lparr>hc_bridge := []\<rparr>)"

definition hc_poll_output :: "hop_connect \<Rightarrow> hop_connect_output option \<times> hop_connect" where
  "hc_poll_output s =
     (let (outbound, s) = hc_take_outbound s
      in if outbound \<noteq> [] then (Some (HcOutbound outbound), s)
         else
           let rest = (let (bridge, s) = hc_take_bridge_bytes s
                 in if bridge \<noteq> [] then (Some (HcBridgeData bridge), s) else (None, s))
           in if \<not> hc_emitted s
              then (case hc_outcome s of
                  Some outcome \<Rightarrow> (Some (HcOutcome outcome), s\<lparr>hc_emitted := True\<rparr>)
                | None \<Rightarrow> rest)
              else rest)"

definition hc_is_idle :: "hop_connect \<Rightarrow> bool" where
  "hc_is_idle s \<longleftrightarrow> hc_outbound s = [] \<and> hc_bridge s = [] \<and> (hc_emitted s \<or> hc_outcome s = None)"

definition hc_is_done :: "hop_connect \<Rightarrow> bool" where
  "hc_is_done s \<longleftrightarrow> hc_state s = FlowDone"

section \<open>\<open>StopResponder\<close>\<close>

record stop_connect_request =
  source_peer_id :: bytes
  scr_limit :: "relay_limit option"

datatype stop_responder_input = SrFlush | SrData bytes | SrRemoteWriteClosed | SrAccept | SrReject relay_status

datatype stop_responder_output = SrRequest stop_connect_request | SrOutbound bytes | SrBridgeData bytes

datatype stop_state = AwaitingConnect | AwaitingDecision | StopDone | StopBridged

fun debug_stop_state :: "stop_state \<Rightarrow> rstr" where
  "debug_stop_state AwaitingConnect = lit ''AwaitingConnect''"
| "debug_stop_state AwaitingDecision = lit ''AwaitingDecision''"
| "debug_stop_state StopDone = lit ''Done''"
| "debug_stop_state StopBridged = lit ''Bridged''"

record stop_responder =
  sr_outbound :: bytes
  sr_recv_buf :: bytes
  sr_state :: stop_state
  sr_request :: "stop_connect_request option"
  sr_emitted :: bool
  sr_bridge :: bytes

definition stop_responder_new :: stop_responder where
  "stop_responder_new = \<lparr>sr_outbound = [], sr_recv_buf = [], sr_state = AwaitingConnect,
     sr_request = None, sr_emitted = False, sr_bridge = []\<rparr>"

definition sr_send_status ::
  "relay_status \<Rightarrow> stop_state \<Rightarrow> stop_responder \<Rightarrow> stop_responder \<times> (relay_error + unit)" where
  "sr_send_status status next_state s =
     (if sr_state s \<noteq> AwaitingDecision
      then (s, Err (RelayUnexpectedMessage
          (lit ''cannot respond from state '' @ debug_stop_state (sr_state s))))
      else
        let body = stop_message_encode \<lparr>sm_kind = StopStatus, sm_peer = None, sm_limit = None, sm_status = Some status\<rparr>
        in (s\<lparr>sr_outbound := sr_outbound s @ encode_frame body, sr_state := next_state\<rparr>, Ok ()))"

definition sr_accept :: "stop_responder \<Rightarrow> stop_responder \<times> (relay_error + unit)" where
  "sr_accept s =
     (case sr_send_status StOk StopBridged s of
        (s, Inl e) \<Rightarrow> (s, Err e)
      | (s, Inr _) \<Rightarrow> (s\<lparr>sr_bridge := sr_bridge s @ sr_recv_buf s, sr_recv_buf := []\<rparr>, Ok ()))"

definition sr_reject :: "relay_status \<Rightarrow> stop_responder \<Rightarrow> stop_responder \<times> (relay_error + unit)" where
  "sr_reject status s = sr_send_status status StopDone s"

definition sr_try_decode_connect :: "stop_responder \<Rightarrow> (stop_responder \<times> (relay_error + unit)) option" where
  "sr_try_decode_connect s =
     (if sr_state s \<noteq> AwaitingConnect then Some (s, Ok ())
      else case frame_message stop_message_decode (sr_recv_buf s) of
        None \<Rightarrow> None
      | Some (Inl e) \<Rightarrow> Some (s\<lparr>sr_state := StopDone\<rparr>, Err e)
      | Some (Inr None) \<Rightarrow> Some (s, Ok ())
      | Some (Inr (Some (msg, consumed))) \<Rightarrow>
          let s = s\<lparr>sr_recv_buf := drop consumed (sr_recv_buf s)\<rparr>
          in if sm_kind msg \<noteq> StopConnectType
             then Some (s\<lparr>sr_state := StopDone\<rparr>,
                    Err (RelayUnexpectedMessage (unexpected_stop_reason (sm_kind msg) (lit ''CONNECT''))))
             else (case sm_peer msg of
                 None \<Rightarrow> Some (s\<lparr>sr_state := StopDone\<rparr>,
                   Err (RelayUnexpectedMessage (lit ''STOP CONNECT missing peer field'')))
               | Some peer \<Rightarrow>
                   Some (s\<lparr>sr_request := Some \<lparr>source_peer_id = rp_id peer, scr_limit = sm_limit msg\<rparr>,
                           sr_emitted := False, sr_state := AwaitingDecision\<rparr>, Ok ())))"

definition sr_on_data :: "bytes \<Rightarrow> stop_responder \<Rightarrow> (stop_responder \<times> (relay_error + unit)) option" where
  "sr_on_data data s =
     (if sr_state s = StopBridged then Some (s\<lparr>sr_bridge := sr_bridge s @ data\<rparr>, Ok ())
      else if sr_state s = StopDone then Some (s, Ok ())
      else sr_try_decode_connect (s\<lparr>sr_recv_buf := sr_recv_buf s @ data\<rparr>))"

fun sr_handle_input ::
  "stop_responder_input \<Rightarrow> stop_responder \<Rightarrow> (stop_responder \<times> (relay_error + unit)) option" where
  "sr_handle_input SrFlush s = Some (s, Ok ())"
| "sr_handle_input (SrData data) s = sr_on_data data s"
| "sr_handle_input SrRemoteWriteClosed s = sr_try_decode_connect s"
| "sr_handle_input SrAccept s = Some (sr_accept s)"
| "sr_handle_input (SrReject status) s = Some (sr_reject status s)"

definition sr_poll_output :: "stop_responder \<Rightarrow> stop_responder_output option \<times> stop_responder" where
  "sr_poll_output s =
     (let rest =
          (if sr_outbound s \<noteq> [] then (Some (SrOutbound (sr_outbound s)), s\<lparr>sr_outbound := []\<rparr>)
           else if sr_bridge s \<noteq> [] then (Some (SrBridgeData (sr_bridge s)), s\<lparr>sr_bridge := []\<rparr>)
           else (None, s))
      in if \<not> sr_emitted s
         then (case sr_request s of
             Some request \<Rightarrow> (Some (SrRequest request), s\<lparr>sr_emitted := True\<rparr>)
           | None \<Rightarrow> rest)
         else rest)"

definition sr_is_idle :: "stop_responder \<Rightarrow> bool" where
  "sr_is_idle s \<longleftrightarrow> sr_outbound s = [] \<and> sr_bridge s = [] \<and> (sr_emitted s \<or> sr_request s = None)"

definition sr_is_done :: "stop_responder \<Rightarrow> bool" where
  "sr_is_done s \<longleftrightarrow> sr_state s = StopDone \<or> sr_state s = StopBridged"

section \<open>The \<open>SansIoProtocol\<close> interface\<close>

interpretation hop_reservation: sans_io_protocol hr_handle_input hr_poll_output hr_is_idle
  "\<lambda>s. length (hr_outbound s) + (if hr_emitted s \<or> hr_outcome s = None then 0 else 1)" "\<lambda>s. True"
  by unfold_locales
    (auto simp: hr_poll_output_def hr_take_outbound_def hr_is_idle_def Let_def split: if_splits option.splits)

interpretation hop_connect: sans_io_protocol hc_handle_input hc_poll_output hc_is_idle
  "\<lambda>s. length (hc_outbound s) + length (hc_bridge s) + (if hc_emitted s \<or> hc_outcome s = None then 0 else 1)"
  "\<lambda>s. True"
  by unfold_locales
    (auto simp: hc_poll_output_def hc_take_outbound_def hc_take_bridge_bytes_def hc_is_idle_def Let_def
      split: if_splits option.splits)

interpretation stop_responder: sans_io_protocol sr_handle_input sr_poll_output sr_is_idle
  "\<lambda>s. length (sr_outbound s) + length (sr_bridge s) + (if sr_emitted s \<or> sr_request s = None then 0 else 1)"
  "\<lambda>s. True"
  by unfold_locales
    (auto simp: sr_poll_output_def sr_is_idle_def Let_def split: if_splits option.splits)

section \<open>Frames that arrive in pieces\<close>

lemma frame_message_Incomplete:
  assumes "vec_ok body" and "k < length (encode_frame body)" and "k \<le> RELAY_MAX_MESSAGE_SIZE"
  shows "frame_message decode (take k (encode_frame body)) = Some (Ok None)"
  using assms by (simp add: frame_message_def relay_enforce_max_size_def frame.decode_prefix)

lemma frame_message_Complete:
  assumes "vec_ok body" and "length (encode_frame body @ tail) \<le> RELAY_MAX_MESSAGE_SIZE"
    and "decode body = Ok msg"
  shows "frame_message decode (encode_frame body @ tail) = Some (Ok (Some (msg, length (encode_frame body))))"
  using assms frame.decode_encode [of body tail]
  by (simp add: frame_message_def relay_enforce_max_size_def)

fun hr_feed :: "bytes list \<Rightarrow> hop_reservation \<Rightarrow> hop_reservation option" where
  "hr_feed [] s = Some s"
| "hr_feed (c # cs) s =
     (case hr_handle_input (HrData c) s of
        Some (s', Inr _) \<Rightarrow> hr_feed cs s'
      | _ \<Rightarrow> None)"

fun hc_feed :: "bytes list \<Rightarrow> hop_connect \<Rightarrow> hop_connect option" where
  "hc_feed [] s = Some s"
| "hc_feed (c # cs) s =
     (case hc_handle_input (HcData c) s of
        Some (s', Inr _) \<Rightarrow> hc_feed cs s'
      | _ \<Rightarrow> None)"

fun sr_feed :: "bytes list \<Rightarrow> stop_responder \<Rightarrow> stop_responder option" where
  "sr_feed [] s = Some s"
| "sr_feed (c # cs) s =
     (case sr_handle_input (SrData c) s of
        Some (s', Inr _) \<Rightarrow> sr_feed cs s'
      | _ \<Rightarrow> None)"

lemma hc_feed_bridged:
  "hc_state s = FlowDone \<Longrightarrow> hc_outcome s = Some (ConnectBridged l) \<Longrightarrow>
     hc_feed cs s = Some (s\<lparr>hc_bridge := hc_bridge s @ concat cs\<rparr>)"
  by (induction cs arbitrary: s) (simp_all add: hc_on_data_def)

lemma hc_feed_response:
  assumes "vec_ok (hop_message_encode msg)" and "hm_kind msg = HopStatus" and "hm_status msg = Some StOk"
    and "\<forall>c \<in> set cs. length (encode_frame (hop_message_encode msg)) + length c \<le> RELAY_MAX_MESSAGE_SIZE"
    and "hc_state s \<noteq> FlowDone"
    and "hc_recv_buf s @ concat cs = encode_frame (hop_message_encode msg) @ tail"
    and "length (hc_recv_buf s) < length (encode_frame (hop_message_encode msg))"
  shows "hc_feed cs s =
    Some (s\<lparr>hc_recv_buf := [], hc_state := FlowDone, hc_outcome := Some (ConnectBridged (hm_limit msg)),
            hc_emitted := False, hc_bridge := hc_bridge s @ tail\<rparr>)"
  using assms(4-)
proof (induction cs arbitrary: s)
  case Nil
  then show ?case
    by (metis append_Nil2 concat.simps(1) length_append linorder_not_less le_add1)
next
  case (Cons c cs)
  let ?F = "encode_frame (hop_message_encode msg)"
  have size: "length (hc_recv_buf s @ c) \<le> RELAY_MAX_MESSAGE_SIZE"
    using Cons.prems(1,4) by simp
  from Cons.prems(3,4) show ?case
  proof (cases rule: pieces_cases)
    case part
    have "frame_message hop_message_decode (hc_recv_buf s @ c) = Some (Ok None)"
      using frame_message_Incomplete [OF assms(1) part(2), of hop_message_decode] part(1) size by metis
    then have "hc_handle_input (HcData c) s = Some (s\<lparr>hc_recv_buf := hc_recv_buf s @ c\<rparr>, Ok ())"
      using Cons.prems(2) by (simp add: hc_on_data_def hc_try_decode_response_def)
    then show ?thesis
      using Cons.IH [of "s\<lparr>hc_recv_buf := hc_recv_buf s @ c\<rparr>"] Cons.prems part by simp
  next
    case (whole t)
    have fm: "frame_message hop_message_decode (hc_recv_buf s @ c) = Some (Ok (Some (msg, length ?F)))"
      using frame_message_Complete [OF assms(1), of t hop_message_decode msg] whole(1) size
        hop_message_decode_encode [OF assms(1)] by simp
    let ?t = "s\<lparr>hc_recv_buf := [], hc_state := FlowDone, hc_outcome := Some (ConnectBridged (hm_limit msg)),
        hc_emitted := False, hc_bridge := hc_bridge s @ t\<rparr>"
    have "hc_handle_input (HcData c) s = Some (?t, Ok ())"
      using Cons.prems(2) fm assms(2,3) whole(1)
      by (simp add: hc_on_data_def hc_try_decode_response_def Let_def)
    then show ?thesis
      using hc_feed_bridged [of ?t "hm_limit msg" cs] whole(2) by simp
  qed
qed

lemma hr_feed_done: "hr_state s = FlowDone \<Longrightarrow> hr_feed cs s = Some s"
  by (induction cs) (simp_all add: hr_on_data_def)

lemma hr_feed_response:
  assumes "vec_ok (hop_message_encode msg)" and "hm_kind msg = HopStatus"
    and "\<forall>c \<in> set cs. length (encode_frame (hop_message_encode msg)) + length c \<le> RELAY_MAX_MESSAGE_SIZE"
    and "hr_state s \<noteq> FlowDone"
    and "hr_recv_buf s @ concat cs = encode_frame (hop_message_encode msg) @ tail"
    and "length (hr_recv_buf s) < length (encode_frame (hop_message_encode msg))"
  shows "\<exists>rest. hr_feed cs s =
    Some (s\<lparr>hr_recv_buf := rest, hr_state := FlowDone, hr_outcome := Some (reservation_result msg),
            hr_emitted := False\<rparr>)"
  using assms(3-)
proof (induction cs arbitrary: s)
  case Nil
  then show ?case
    by (metis append_Nil2 concat.simps(1) length_append linorder_not_less le_add1)
next
  case (Cons c cs)
  let ?F = "encode_frame (hop_message_encode msg)"
  have size: "length (hr_recv_buf s @ c) \<le> RELAY_MAX_MESSAGE_SIZE"
    using Cons.prems(1,4) by simp
  from Cons.prems(3,4) show ?case
  proof (cases rule: pieces_cases)
    case part
    have "frame_message hop_message_decode (hr_recv_buf s @ c) = Some (Ok None)"
      using frame_message_Incomplete [OF assms(1) part(2), of hop_message_decode] part(1) size by metis
    then have "hr_handle_input (HrData c) s = Some (s\<lparr>hr_recv_buf := hr_recv_buf s @ c\<rparr>, Ok ())"
      using Cons.prems(2) by (simp add: hr_on_data_def hr_try_decode_response_def)
    then show ?thesis
      using Cons.IH [of "s\<lparr>hr_recv_buf := hr_recv_buf s @ c\<rparr>"] Cons.prems part by simp
  next
    case (whole t)
    have fm: "frame_message hop_message_decode (hr_recv_buf s @ c) = Some (Ok (Some (msg, length ?F)))"
      using frame_message_Complete [OF assms(1), of t hop_message_decode msg] whole(1) size
        hop_message_decode_encode [OF assms(1)] by simp
    let ?t = "s\<lparr>hr_recv_buf := t, hr_state := FlowDone, hr_outcome := Some (reservation_result msg),
        hr_emitted := False\<rparr>"
    have "hr_handle_input (HrData c) s = Some (?t, Ok ())"
      using Cons.prems(2) fm assms(2) whole(1)
      by (simp add: hr_on_data_def hr_try_decode_response_def Let_def)
    then show ?thesis
      using hr_feed_done [of ?t cs] by auto
  qed
qed

text \<open>While the responder waits for the decision of the host it keeps all that arrives.\<close>

lemma sr_feed_waiting:
  "sr_state s = AwaitingDecision \<Longrightarrow> sr_feed cs s = Some (s\<lparr>sr_recv_buf := sr_recv_buf s @ concat cs\<rparr>)"
  by (induction cs arbitrary: s) (simp_all add: sr_on_data_def sr_try_decode_connect_def)

lemma sr_feed_bridged:
  "sr_state s = StopBridged \<Longrightarrow> sr_feed cs s = Some (s\<lparr>sr_bridge := sr_bridge s @ concat cs\<rparr>)"
  by (induction cs arbitrary: s) (simp_all add: sr_on_data_def)

lemma sr_feed_connect:
  assumes "vec_ok (stop_message_encode msg)" and "sm_kind msg = StopConnectType" and "sm_peer msg = Some peer"
    and "\<forall>c \<in> set cs. length (encode_frame (stop_message_encode msg)) + length c \<le> RELAY_MAX_MESSAGE_SIZE"
    and "sr_state s = AwaitingConnect"
    and "sr_recv_buf s @ concat cs = encode_frame (stop_message_encode msg) @ tail"
    and "length (sr_recv_buf s) < length (encode_frame (stop_message_encode msg))"
  shows "sr_feed cs s =
    Some (s\<lparr>sr_recv_buf := tail, sr_state := AwaitingDecision,
            sr_request := Some \<lparr>source_peer_id = rp_id peer, scr_limit = sm_limit msg\<rparr>, sr_emitted := False\<rparr>)"
  using assms(4-)
proof (induction cs arbitrary: s)
  case Nil
  then show ?case
    by (metis append_Nil2 concat.simps(1) length_append linorder_not_less le_add1)
next
  case (Cons c cs)
  let ?F = "encode_frame (stop_message_encode msg)"
  have size: "length (sr_recv_buf s @ c) \<le> RELAY_MAX_MESSAGE_SIZE"
    using Cons.prems(1,4) by simp
  from Cons.prems(3,4) show ?case
  proof (cases rule: pieces_cases)
    case part
    have "frame_message stop_message_decode (sr_recv_buf s @ c) = Some (Ok None)"
      using frame_message_Incomplete [OF assms(1) part(2), of stop_message_decode] part(1) size by metis
    then have "sr_handle_input (SrData c) s = Some (s\<lparr>sr_recv_buf := sr_recv_buf s @ c\<rparr>, Ok ())"
      using Cons.prems(2) by (simp add: sr_on_data_def sr_try_decode_connect_def)
    then show ?thesis
      using Cons.IH [of "s\<lparr>sr_recv_buf := sr_recv_buf s @ c\<rparr>"] Cons.prems part by simp
  next
    case (whole t)
    have fm: "frame_message stop_message_decode (sr_recv_buf s @ c) = Some (Ok (Some (msg, length ?F)))"
      using frame_message_Complete [OF assms(1), of t stop_message_decode msg] whole(1) size
        stop_message_decode_encode [OF assms(1)] by simp
    let ?t = "s\<lparr>sr_recv_buf := t, sr_state := AwaitingDecision,
        sr_request := Some \<lparr>source_peer_id = rp_id peer, scr_limit = sm_limit msg\<rparr>, sr_emitted := False\<rparr>"
    have "sr_handle_input (SrData c) s = Some (?t, Ok ())"
      using Cons.prems(2) fm assms(2,3) whole(1)
      by (simp add: sr_on_data_def sr_try_decode_connect_def Let_def)
    then show ?thesis
      using sr_feed_waiting [of ?t cs] whole(2) by simp
  qed
qed

section \<open>Soundness of the outcomes\<close>

text \<open>
  The outcome of a reservation is what the first frame of the stream says.  While the flow runs, the
  buffer holds all that was received; once it has ended, a frame at the start of the stream explains
  the outcome.
\<close>

definition hr_explained :: "bytes \<Rightarrow> hop_reservation \<Rightarrow> bool" where
  "hr_explained got s \<longleftrightarrow>
     (hr_state s \<noteq> FlowDone \<longrightarrow> hr_recv_buf s = got \<and> hr_outcome s = None) \<and>
     (\<forall>out. hr_outcome s = Some out \<longrightarrow>
        (\<exists>payload n msg. decode_frame got = Some (FrameComplete payload n) \<and>
           hop_message_decode payload = Ok msg \<and> hm_kind msg = HopStatus \<and> out = reservation_result msg))"

lemma hr_explained_more:
  assumes "hr_explained got s" and "hr_state s = FlowDone"
  shows "hr_explained (got @ rest) s"
proof -
  have "decode_frame (got @ rest) = Some (FrameComplete payload n)"
    if "decode_frame got = Some (FrameComplete payload n)" for payload n
    using frame.decode_stable [of got rest] that by simp
  then show ?thesis
    using assms unfolding hr_explained_def by blast
qed

lemma hr_explained_decode:
  assumes "hr_state s \<noteq> FlowDone" and "hr_outcome s = None"
    and "hr_try_decode_response s = Some (s', r)"
  shows "hr_explained (hr_recv_buf s) s'"
proof -
  have payload: "\<exists>payload. decode_frame (hr_recv_buf s) = Some (FrameComplete payload n) \<and>
      hop_message_decode payload = Ok msg"
    if "frame_message hop_message_decode (hr_recv_buf s) = Some (Ok (Some (msg, n)))" for msg n
    using that by (auto simp: frame_message_def and_then_eq_Inr split: sum.splits option.splits frame_decode.splits)
  show ?thesis
    using assms payload unfolding hr_try_decode_response_def hr_explained_def
    by (fastforce simp: Let_def split: option.splits sum.splits if_splits prod.splits)
qed

lemma hr_explained_feed:
  "hr_explained got s \<Longrightarrow> hr_feed cs s = Some t \<Longrightarrow> hr_explained (got @ concat cs) t"
proof (induction cs arbitrary: got s)
  case (Cons c cs)
  obtain s' where s': "hr_on_data c s = Some (s', Ok ())" "hr_feed cs s' = Some t"
    using Cons.prems(2) by (auto split: option.splits sum.splits prod.splits)
  have "hr_explained (got @ c) s'"
  proof (cases "hr_state s = FlowDone")
    case True
    then show ?thesis
      using s'(1) hr_explained_more [OF Cons.prems(1)] by (simp add: hr_on_data_def)
  next
    case False
    then show ?thesis
      using s'(1) Cons.prems(1) hr_explained_decode [of "s\<lparr>hr_recv_buf := hr_recv_buf s @ c\<rparr>" s' "Ok ()"]
      by (simp add: hr_on_data_def hr_explained_def)
  qed
  then show ?case
    using Cons.IH s'(2) by fastforce
qed simp

lemma hr_explained_new: "hr_explained [] hop_reservation_new"
  by (simp add: hr_explained_def hop_reservation_new_def)

section \<open>Properties\<close>

text \<open>The machines after their request has been sent.\<close>

definition hr_requested :: hop_reservation where
  "hr_requested = snd (hr_poll_output hop_reservation_new)"

definition hc_requested :: "bytes \<Rightarrow> hop_connect" where
  "hc_requested target = snd (hc_poll_output (hop_connect_new target))"

lemma hr_requested_eq: "hr_requested = hop_reservation_new\<lparr>hr_outbound := [], hr_state := FlowAwaitingResponse\<rparr>"
  by (simp add: hr_requested_def hr_poll_output_def hr_take_outbound_def hop_reservation_new_def)

lemma hc_requested_eq:
  "hc_requested target = (hop_connect_new target)\<lparr>hc_outbound := [], hc_state := FlowAwaitingResponse\<rparr>"
  by (simp add: hc_requested_def hc_poll_output_def hc_take_outbound_def hop_connect_new_def)

text \<open>A STATUS message, and the size condition under which a reply may arrive in pieces.\<close>

definition small_pieces :: "bytes \<Rightarrow> bytes list \<Rightarrow> bool" where
  "small_pieces body cs \<longleftrightarrow> vec_ok body \<and>
     list_all (\<lambda>c. length (encode_frame body) + length c \<le> RELAY_MAX_MESSAGE_SIZE) cs"

lemma small_pieces_cut:
  assumes "length body \<le> 100" and "length tail \<le> 100"
  shows "small_pieces body [take k (encode_frame body), drop k (encode_frame body) @ tail]"
proof -
  have "length (encode_frame body) \<le> 110"
    using uvarint_len_le_10 [of "of_nat (length body)"] assms(1) by (simp add: length_encode_frame)
  then show ?thesis
    using assms unfolding small_pieces_def RELAY_MAX_MESSAGE_SIZE_def vec_ok_def by simp linarith
qed



text \<open>
  A reservation ends with what the relay said: when a STATUS frame arrives, in any pieces, the
  flow is done and reports one outcome, acceptance with the reservation and limit of the message for
  status OK and refusal with the status and its description otherwise (an absent status counts as
  unused).
\<close>

theorem hop_reservation_outcome:
  assumes "hm_kind msg = HopStatus" and "small_pieces (hop_message_encode msg) cs"
    and "concat cs = encode_frame (hop_message_encode msg) @ tail"
  shows "\<exists>s t. hr_feed cs hr_requested = Some s \<and> hr_is_done s \<and>
    drain 2 hr_poll_output s = Some ([HrOutcome
      (case hm_status msg of
         None \<Rightarrow> ReservationRefused StUnused (describe_status StUnused)
       | Some status \<Rightarrow>
           if status = StOk then ReservationAccepted (hm_reservation msg) (hm_limit msg)
           else ReservationRefused status (describe_status status))], t)"
proof -
  have pieces: "\<forall>c \<in> set cs. length (encode_frame (hop_message_encode msg)) + length c \<le> RELAY_MAX_MESSAGE_SIZE"
    and vec: "vec_ok (hop_message_encode msg)"
    using assms(2) by (auto simp: small_pieces_def list_all_iff)
  have fresh: "hr_state hr_requested \<noteq> FlowDone" "hr_recv_buf hr_requested = []" "hr_outbound hr_requested = []"
    by (simp_all add: hr_requested_eq hop_reservation_new_def)
  obtain rest where "hr_feed cs hr_requested = Some (hr_requested\<lparr>hr_recv_buf := rest, hr_state := FlowDone,
      hr_outcome := Some (reservation_result msg), hr_emitted := False\<rparr>)"
    using hr_feed_response [OF vec assms(1) pieces, of hr_requested tail] fresh assms(3) by auto
  then show ?thesis
    using fresh(3) by (auto simp: hr_is_done_def numeral_2_eq_2 hr_poll_output_def hr_take_outbound_def
        reservation_result_def Let_def split: option.split)
qed

text \<open>
  A reservation never reports anything the relay did not say: whatever bytes arrive, in whatever
  pieces, an outcome is the result of a well-formed STATUS message in the first frame of the stream.
\<close>

theorem hop_reservation_sound:
  assumes "hr_feed cs hr_requested = Some s" and "hr_outcome s = Some out"
  shows "\<exists>payload n msg. decode_frame (concat cs) = Some (FrameComplete payload n) \<and>
    hop_message_decode payload = Ok msg \<and> hm_kind msg = HopStatus \<and> out = reservation_result msg"
proof -
  have "hr_explained [] hr_requested"
    by (simp add: hr_explained_def hr_requested_eq hop_reservation_new_def)
  then have "hr_explained (concat cs) s"
    using hr_explained_feed [of "[]", OF _ assms(1)] by simp
  then show ?thesis
    using assms(2) by (simp add: hr_explained_def)
qed



lemma frame_message_panic: "frame_message decode (write_uvarint (-1) []) = None"
proof -
  have "read_uvarint (uvarint (-1)) = Ok (-1, uvarint_len (-1))"
    using read_uvarint_write [of "-1" "[]"] by simp
  moreover have "2 ^ 64 \<le> uvarint_len (-1) + unat (-1 :: u64)"
    using uvarint_len_pos [of "-1"] by (simp add: unsigned_minus_1_eq_mask mask_eq_exp_minus_1 Suc_le_eq)
  ultimately have "decode_frame (write_uvarint (-1) []) = None"
    unfolding decode_frame_None_iff by blast
  then show ?thesis
    using uvarint_len_le_10 [of "-1"]
    by (simp add: frame_message_def relay_enforce_max_size_def RELAY_MAX_MESSAGE_SIZE_def)
qed

text \<open>
  C39. The panic of the frame decoder is remotely reachable: ten bytes, the length prefix
  \<open>u64::MAX\<close>, sent as the first data make each of the three relay flows panic.
\<close>

theorem relay_flows_panic:
  "hr_handle_input (HrData (write_uvarint (-1) [])) hr_requested = None \<and>
   hc_handle_input (HcData (write_uvarint (-1) [])) (hc_requested target) = None \<and>
   sr_handle_input (SrData (write_uvarint (-1) [])) stop_responder_new = None"
  by (simp add: frame_message_panic hr_on_data_def hr_try_decode_response_def hr_requested_eq
      hop_reservation_new_def hc_on_data_def hc_try_decode_response_def hc_requested_eq
      hop_connect_new_def sr_on_data_def sr_try_decode_connect_def stop_responder_new_def)

end
