(* ===== verification/Dcutr.thy ===== *)
theory Dcutr
  imports Multiaddr SansIo Proto
begin

text \<open>
  Direct connection upgrade through relay, \<open>crates/dcutr/src/{message,lib}.rs\<close>: the \<open>HolePunch\<close>
  message and the two roles of the exchange, \<open>DcutrInitiator\<close> and \<open>DcutrResponder\<close>.  \<open>None\<close> is the
  panic of \<open>decode_frame\<close>.  The theory shows the message round trip and that the exchange of the two
  roles tells each side the addresses of the other, however the stream is cut.
\<close>

section \<open>The message\<close>

datatype hole_punch_type = HpConnect | HpSync

fun hole_punch_code :: "hole_punch_type \<Rightarrow> u64" where
  "hole_punch_code HpConnect = 100"
| "hole_punch_code HpSync = 300"

definition hole_punch_from_u64 :: "u64 \<Rightarrow> hole_punch_type option" where
  "hole_punch_from_u64 v = (if v = 100 then Some HpConnect else if v = 300 then Some HpSync else None)"

record hole_punch =
  hpm_kind :: hole_punch_type
  hpm_obs_addrs :: "bytes list"

datatype dcutr_message_error =
    DmVarint varint_error
  | DmFieldOverflow nat nat nat
  | DmUnsupportedWireType byte nat
  | DmMissingType
  | DmInvalidType u64

definition dcutr_errors :: "dcutr_message_error wire_errors" where
  "dcutr_errors = \<lparr>we_varint = DmVarint, we_overflow = DmFieldOverflow, we_wire = DmUnsupportedWireType\<rparr>"

definition TAG_TYPE :: byte where "TAG_TYPE = tag_byte 1 WIRE_VARINT"
definition TAG_OBS_ADDRS :: byte where "TAG_OBS_ADDRS = tag_byte 2 WIRE_LEN"

lemmas dcutr_tags = TAG_TYPE_def TAG_OBS_ADDRS_def tag_byte_def wire_types

definition hole_punch_encode :: "hole_punch \<Rightarrow> bytes" where
  "hole_punch_encode m =
     (let out = [];
          out = encode_varint_field out TAG_TYPE (hole_punch_code (hpm_kind m))
      in rep_bytes TAG_OBS_ADDRS (hpm_obs_addrs m) out)"

text \<open>The local variables of \<open>HolePunch::decode\<close>.\<close>

record hole_punch_partial =
  hpp_kind :: "hole_punch_type option"
  hpp_obs_addrs :: "bytes list"

definition hole_punch_step ::
  "bytes \<Rightarrow> nat \<Rightarrow> nat \<Rightarrow> u64 \<Rightarrow> byte \<Rightarrow> hole_punch_partial \<Rightarrow>
     dcutr_message_error + (hole_punch_partial \<times> nat)" where
  "hole_punch_step input off idx field wt msg =
     (if field = 1 \<and> wt = WIRE_VARINT
      then varint_field dcutr_errors input idx (\<lambda>v.
        and_then (ok_or (DmInvalidType v) (hole_punch_from_u64 v)) (\<lambda>k. Ok (msg\<lparr>hpp_kind := Some k\<rparr>)))
      else if field = 2 \<and> wt = WIRE_LEN
      then len_field dcutr_errors input idx (\<lambda>v. Ok (msg\<lparr>hpp_obs_addrs := hpp_obs_addrs msg @ [v]\<rparr>))
      else skip_field dcutr_errors input idx wt msg)"

definition hole_punch_decode :: "bytes \<Rightarrow> dcutr_message_error + hole_punch" where
  "hole_punch_decode input =
     and_then (wire_loop dcutr_errors hole_punch_step input 0 \<lparr>hpp_kind = None, hpp_obs_addrs = []\<rparr>)
       (\<lambda>m. and_then (ok_or DmMissingType (hpp_kind m)) (\<lambda>k.
         Ok \<lparr>hpm_kind = k, hpm_obs_addrs = hpp_obs_addrs m\<rparr>))"

lemma hole_punch_type_roundtrip [simp]: "hole_punch_from_u64 (hole_punch_code k) = Some k"
  by (cases k) (simp_all add: hole_punch_from_u64_def)

fun hole_punch_apply ::
  "wire_field \<Rightarrow> hole_punch_partial \<Rightarrow> dcutr_message_error + hole_punch_partial" where
  "hole_punch_apply (WVarint t v) msg =
     (if field_number (WVarint t v) = 1
      then and_then (ok_or (DmInvalidType v) (hole_punch_from_u64 v)) (\<lambda>k. Ok (msg\<lparr>hpp_kind := Some k\<rparr>))
      else Ok msg)"
| "hole_punch_apply (WBytes t d) msg =
     (if field_number (WBytes t d) = 2 then Ok (msg\<lparr>hpp_obs_addrs := hpp_obs_addrs msg @ [d]\<rparr>) else Ok msg)"

interpretation hole_punch_msg: wire_message dcutr_errors hole_punch_step "\<lambda>f. True" hole_punch_apply
proof unfold_locales
  fix f idx input off msg
  assume "written_at f idx input"
  then show "hole_punch_step input off idx (field_number f) (field_wire_type f) msg =
      and_then (hole_punch_apply f msg) (\<lambda>m. Ok (m, length (field_body f)))"
    by (cases f) (auto simp: hole_punch_step_def decode_written)
qed

definition hole_punch_fields :: "hole_punch \<Rightarrow> wire_field list" where
  "hole_punch_fields m =
     WVarint TAG_TYPE (hole_punch_code (hpm_kind m)) # map (WBytes TAG_OBS_ADDRS) (hpm_obs_addrs m)"

lemma hole_punch_encode_eq: "hole_punch_encode m = fields_bytes (hole_punch_fields m)"
  by (simp add: hole_punch_encode_def hole_punch_fields_def encoded_fields Let_def)

lemma hole_punch_decode_encode [codec]:
  assumes "vec_ok (hole_punch_encode m)"
  shows "hole_punch_decode (hole_punch_encode m) = Ok m"
proof -
  have tags: "\<forall>f \<in> set (hole_punch_fields m). wire_type_ok f \<and> field_tag f < 0x80"
    by (auto simp: hole_punch_fields_def dcutr_tags)
  have "apply_fields hole_punch_apply (map (WBytes TAG_OBS_ADDRS) vs) msg =
      Ok (msg\<lparr>hpp_obs_addrs := hpp_obs_addrs msg @ vs\<rparr>)" for vs msg
    by (induction vs arbitrary: msg) (simp_all add: dcutr_tags)
  then have "apply_fields hole_punch_apply (hole_punch_fields m) \<lparr>hpp_kind = None, hpp_obs_addrs = []\<rparr> =
      Ok \<lparr>hpp_kind = Some (hpm_kind m), hpp_obs_addrs = hpm_obs_addrs m\<rparr>"
    by (simp add: hole_punch_fields_def) (simp add: dcutr_tags)
  then show ?thesis
    using hole_punch_msg.decode_fields [of "hole_punch_fields m"] fields_fit [OF _ tags] assms
    by (simp add: hole_punch_decode_def hole_punch_encode_eq)
qed

section \<open>Shared parts\<close>

definition DCUTR_MAX_MESSAGE_SIZE :: nat where
  "DCUTR_MAX_MESSAGE_SIZE = 4096"

datatype dcutr_error =
    DcutrMessageTooLarge nat
  | DcutrMalformed dcutr_message_error
  | DcutrUnexpectedMessage rstr

definition dcutr_enforce_max_size :: "bytes \<Rightarrow> dcutr_error + unit" where
  "dcutr_enforce_max_size buf =
     (if DCUTR_MAX_MESSAGE_SIZE < length buf then Err (DcutrMessageTooLarge (length buf)) else Ok ())"

definition decode_remote_addrs :: "'mh multihash_api \<Rightarrow> bytes list \<Rightarrow> 'mh multiaddr list" where
  "decode_remote_addrs M raw = List.map_filter (\<lambda>bs. result_ok (multiaddr_from_bytes M bs)) raw"

text \<open>
  The size check, the frame and the message, which both roles decode in the same way: an error
  (after which each role is done), no message yet, or a message and the number of bytes it took.
\<close>

definition hole_punch_frame :: "bytes \<Rightarrow> (dcutr_error + (hole_punch \<times> nat) option) option" where
  "hole_punch_frame buf =
     (case dcutr_enforce_max_size buf of
        Inl e \<Rightarrow> Some (Err e)
      | Inr _ \<Rightarrow>
          (case decode_frame buf of
             None \<Rightarrow> None
           | Some (FrameComplete payload consumed) \<Rightarrow>
               Some (map_err DcutrMalformed
                 (and_then (hole_punch_decode payload) (\<lambda>msg. Ok (Some (msg, consumed)))))
           | Some (FrameError e) \<Rightarrow> Some (Err (DcutrMalformed (DmVarint e)))
           | Some _ \<Rightarrow> Some (Ok None)))"

fun debug_hole_punch_type :: "hole_punch_type \<Rightarrow> rstr" where
  "debug_hole_punch_type HpConnect = lit ''Connect''"
| "debug_hole_punch_type HpSync = lit ''Sync''"

section \<open>\<open>DcutrInitiator\<close>\<close>

datatype 'mh initiator_outcome = DialNow "'mh multiaddr list" "bytes list" u64

datatype dcutr_initiator_input = DiFlush | DiData bytes u64 | DiRemoteWriteClosed | DiSendSync

datatype 'mh dcutr_initiator_output = DiOutbound bytes | DiOutcome "'mh initiator_outcome"

datatype initiator_state = IsPending | IsAwaitingConnectReply | IsReadyToSync | IsSyncPending | IsDone

fun debug_initiator_state :: "initiator_state \<Rightarrow> rstr" where
  "debug_initiator_state IsPending = lit ''Pending''"
| "debug_initiator_state IsAwaitingConnectReply = lit ''AwaitingConnectReply''"
| "debug_initiator_state IsReadyToSync = lit ''ReadyToSync''"
| "debug_initiator_state IsSyncPending = lit ''SyncPending''"
| "debug_initiator_state IsDone = lit ''Done''"

record 'mh dcutr_initiator =
  di_outbound :: bytes
  di_recv_buf :: bytes
  di_state :: initiator_state
  di_outcome :: "'mh initiator_outcome option"
  di_emitted :: bool

definition dcutr_initiator_new :: "'mh multihash_api \<Rightarrow> 'mh multiaddr list \<Rightarrow> 'mh dcutr_initiator" where
  "dcutr_initiator_new M own_addrs =
     (let obs_addrs = map (multiaddr_to_bytes M) own_addrs;
          msg = \<lparr>hpm_kind = HpConnect, hpm_obs_addrs = obs_addrs\<rparr>
      in \<lparr>di_outbound = encode_frame (hole_punch_encode msg), di_recv_buf = [], di_state = IsPending,
          di_outcome = None, di_emitted = False\<rparr>)"

definition di_take_outbound :: "'mh dcutr_initiator \<Rightarrow> bytes \<times> 'mh dcutr_initiator" where
  "di_take_outbound s =
     (di_outbound s,
      s\<lparr>di_outbound := [],
        di_state := (case di_state s of
            IsPending \<Rightarrow> IsAwaitingConnectReply
          | IsSyncPending \<Rightarrow> IsDone
          | st \<Rightarrow> st)\<rparr>)"

definition di_send_sync :: "'mh dcutr_initiator \<Rightarrow> 'mh dcutr_initiator \<times> (dcutr_error + unit)" where
  "di_send_sync s =
     (if di_state s \<noteq> IsReadyToSync
      then (s, Err (DcutrUnexpectedMessage
             (lit ''cannot send SYNC from state '' @ debug_initiator_state (di_state s))))
      else
        let msg = \<lparr>hpm_kind = HpSync, hpm_obs_addrs = []\<rparr>
        in (s\<lparr>di_outbound := di_outbound s @ encode_frame (hole_punch_encode msg),
              di_state := IsSyncPending\<rparr>, Ok ()))"

definition di_try_decode_reply ::
  "'mh multihash_api \<Rightarrow> u64 \<Rightarrow> 'mh dcutr_initiator \<Rightarrow> ('mh dcutr_initiator \<times> (dcutr_error + unit)) option" where
  "di_try_decode_reply M rtt_ms s =
     (if di_state s \<noteq> IsAwaitingConnectReply then Some (s, Ok ())
      else case hole_punch_frame (di_recv_buf s) of
        None \<Rightarrow> None
      | Some (Inl e) \<Rightarrow> Some (s\<lparr>di_state := IsDone\<rparr>, Err e)
      | Some (Inr None) \<Rightarrow> Some (s, Ok ())
      | Some (Inr (Some (reply, consumed))) \<Rightarrow>
          let s = s\<lparr>di_recv_buf := drop consumed (di_recv_buf s)\<rparr>
          in if hpm_kind reply \<noteq> HpConnect
             then Some (s\<lparr>di_state := IsDone\<rparr>, Err (DcutrUnexpectedMessage
                    (lit ''expected HolePunch CONNECT but got '' @ debug_hole_punch_type (hpm_kind reply))))
             else Some (s\<lparr>di_state := IsReadyToSync,
                    di_outcome := Some (DialNow (decode_remote_addrs M (hpm_obs_addrs reply))
                      (hpm_obs_addrs reply) rtt_ms),
                    di_emitted := False\<rparr>, Ok ()))"

definition di_on_data ::
  "'mh multihash_api \<Rightarrow> bytes \<Rightarrow> u64 \<Rightarrow> 'mh dcutr_initiator \<Rightarrow>
     ('mh dcutr_initiator \<times> (dcutr_error + unit)) option" where
  "di_on_data M data rtt_ms s =
     (if di_state s = IsDone \<or> di_state s = IsSyncPending then Some (s, Ok ())
      else di_try_decode_reply M rtt_ms (s\<lparr>di_recv_buf := di_recv_buf s @ data\<rparr>))"

fun di_handle_input ::
  "'mh multihash_api \<Rightarrow> dcutr_initiator_input \<Rightarrow> 'mh dcutr_initiator \<Rightarrow>
     ('mh dcutr_initiator \<times> (dcutr_error + unit)) option" where
  "di_handle_input M DiFlush s = Some (s, Ok ())"
| "di_handle_input M (DiData data rtt_ms) s = di_on_data M data rtt_ms s"
| "di_handle_input M DiRemoteWriteClosed s = Some (s, Ok ())"
| "di_handle_input M DiSendSync s = Some (di_send_sync s)"

definition di_poll_output :: "'mh dcutr_initiator \<Rightarrow> 'mh dcutr_initiator_output option \<times> 'mh dcutr_initiator" where
  "di_poll_output s =
     (let (outbound, s) = di_take_outbound s
      in if outbound \<noteq> [] then (Some (DiOutbound outbound), s)
         else if \<not> di_emitted s
         then (case di_outcome s of
             Some outcome \<Rightarrow> (Some (DiOutcome outcome), s\<lparr>di_emitted := True\<rparr>)
           | None \<Rightarrow> (None, s))
         else (None, s))"

definition di_is_idle :: "'mh dcutr_initiator \<Rightarrow> bool" where
  "di_is_idle s \<longleftrightarrow> di_outbound s = [] \<and> (di_emitted s \<or> di_outcome s = None)"

definition di_is_done :: "'mh dcutr_initiator \<Rightarrow> bool" where
  "di_is_done s \<longleftrightarrow> di_state s = IsDone"

section \<open>\<open>DcutrResponder\<close>\<close>

datatype 'mh responder_event = ConnectReceived "'mh multiaddr list" "bytes list" | SyncReceived

datatype dcutr_responder_input = DrFlush | DrData bytes | DrRemoteWriteClosed

datatype 'mh dcutr_responder_output = DrOutbound bytes | DrEvent "'mh responder_event"

datatype responder_state = RsAwaitingConnect | RsAwaitingSync | RsDone

fun debug_responder_state :: "responder_state \<Rightarrow> rstr" where
  "debug_responder_state RsAwaitingConnect = lit ''AwaitingConnect''"
| "debug_responder_state RsAwaitingSync = lit ''AwaitingSync''"
| "debug_responder_state RsDone = lit ''Done''"

record 'mh dcutr_responder =
  dr_own_addrs :: "bytes list"
  dr_outbound :: bytes
  dr_recv_buf :: bytes
  dr_state :: responder_state
  dr_events :: "'mh responder_event list"

definition dcutr_responder_new :: "'mh multihash_api \<Rightarrow> 'mh multiaddr list \<Rightarrow> 'mh dcutr_responder" where
  "dcutr_responder_new M own_addrs =
     \<lparr>dr_own_addrs = map (multiaddr_to_bytes M) own_addrs, dr_outbound = [], dr_recv_buf = [],
      dr_state = RsAwaitingConnect, dr_events = []\<rparr>"

lemma hole_punch_frame_advance:
  "hole_punch_frame buf = Some (Ok (Some (msg, n))) \<Longrightarrow> 0 < n \<and> n \<le> length buf"
  using frame.decode_advance [of buf]
  by (auto simp: hole_punch_frame_def and_then_eq_Inr split: sum.splits option.splits frame_decode.splits)

function dr_try_decode ::
  "'mh multihash_api \<Rightarrow> 'mh dcutr_responder \<Rightarrow> ('mh dcutr_responder \<times> (dcutr_error + unit)) option" where
  "dr_try_decode M s =
     (if dr_state s = RsDone then Some (s, Ok ())
      else case hole_punch_frame (dr_recv_buf s) of
        None \<Rightarrow> None
      | Some (Inl e) \<Rightarrow> Some (s\<lparr>dr_state := RsDone\<rparr>, Err e)
      | Some (Inr None) \<Rightarrow> Some (s, Ok ())
      | Some (Inr (Some (msg, consumed))) \<Rightarrow>
          (let t = s\<lparr>dr_recv_buf := drop consumed (dr_recv_buf s)\<rparr>
           in if dr_state s = RsAwaitingConnect \<and> hpm_kind msg = HpConnect
              then dr_try_decode M (t\<lparr>
                     dr_outbound := dr_outbound s @ encode_frame (hole_punch_encode
                       \<lparr>hpm_kind = HpConnect, hpm_obs_addrs = dr_own_addrs s\<rparr>),
                     dr_events := dr_events s @ [ConnectReceived
                       (decode_remote_addrs M (hpm_obs_addrs msg)) (hpm_obs_addrs msg)],
                     dr_state := RsAwaitingSync\<rparr>)
              else if dr_state s = RsAwaitingSync \<and> hpm_kind msg = HpSync
              then dr_try_decode M (t\<lparr>dr_events := dr_events s @ [SyncReceived], dr_state := RsDone\<rparr>)
              else Some (t\<lparr>dr_state := RsDone\<rparr>, Err (DcutrUnexpectedMessage
                     (lit ''unexpected '' @ debug_hole_punch_type (hpm_kind msg) @ lit '' in state '' @
                      debug_responder_state (dr_state s))))))"
  by pat_completeness auto
termination
  by (relation "measure (\<lambda>(M, s). length (dr_recv_buf s))") (auto dest: hole_punch_frame_advance)

declare dr_try_decode.simps [simp del]

definition dr_on_data ::
  "'mh multihash_api \<Rightarrow> bytes \<Rightarrow> 'mh dcutr_responder \<Rightarrow> ('mh dcutr_responder \<times> (dcutr_error + unit)) option" where
  "dr_on_data M data s =
     (if dr_state s = RsDone then Some (s, Ok ())
      else dr_try_decode M (s\<lparr>dr_recv_buf := dr_recv_buf s @ data\<rparr>))"

fun dr_handle_input ::
  "'mh multihash_api \<Rightarrow> dcutr_responder_input \<Rightarrow> 'mh dcutr_responder \<Rightarrow>
     ('mh dcutr_responder \<times> (dcutr_error + unit)) option" where
  "dr_handle_input M DrFlush s = Some (s, Ok ())"
| "dr_handle_input M (DrData data) s = dr_on_data M data s"
| "dr_handle_input M DrRemoteWriteClosed s = dr_try_decode M s"

definition dr_poll_output :: "'mh dcutr_responder \<Rightarrow> 'mh dcutr_responder_output option \<times> 'mh dcutr_responder" where
  "dr_poll_output s =
     (let outbound = dr_outbound s; s = s\<lparr>dr_outbound := []\<rparr>
      in if outbound \<noteq> [] then (Some (DrOutbound outbound), s)
         else case dr_events s of
             [] \<Rightarrow> (None, s)
           | e # es \<Rightarrow> (Some (DrEvent e), s\<lparr>dr_events := es\<rparr>))"

definition dr_is_idle :: "'mh dcutr_responder \<Rightarrow> bool" where
  "dr_is_idle s \<longleftrightarrow> dr_outbound s = [] \<and> dr_events s = []"

definition dr_is_done :: "'mh dcutr_responder \<Rightarrow> bool" where
  "dr_is_done s \<longleftrightarrow> dr_state s = RsDone"

section \<open>The \<open>SansIoProtocol\<close> interface\<close>

interpretation dcutr_initiator: sans_io_protocol "di_handle_input M" di_poll_output di_is_idle
  "\<lambda>s. length (di_outbound s) + (if di_emitted s \<or> di_outcome s = None then 0 else 1)" "\<lambda>s. True" for M
  by unfold_locales
    (auto simp: di_poll_output_def di_take_outbound_def di_is_idle_def Let_def split: if_splits option.splits)

interpretation dcutr_responder: sans_io_protocol "dr_handle_input M" dr_poll_output dr_is_idle
  "\<lambda>s. length (dr_outbound s) + length (dr_events s)" "\<lambda>s. True" for M
  by unfold_locales
    (auto simp: dr_poll_output_def dr_is_idle_def Let_def split: if_splits list.splits)

section \<open>Frames that arrive in pieces\<close>

definition hole_punch_wire :: "hole_punch \<Rightarrow> bytes" where
  "hole_punch_wire m = encode_frame (hole_punch_encode m)"

text \<open>A message that fits the limit.\<close>

definition hole_punch_small :: "hole_punch \<Rightarrow> bool" where
  "hole_punch_small m \<longleftrightarrow> length (hole_punch_wire m) \<le> DCUTR_MAX_MESSAGE_SIZE"

lemma hole_punch_small_vec_ok: "hole_punch_small m \<Longrightarrow> vec_ok (hole_punch_encode m)"
  by (simp add: hole_punch_small_def hole_punch_wire_def length_encode_frame DCUTR_MAX_MESSAGE_SIZE_def vec_ok_def)

lemma hole_punch_frame_part:
  assumes "hole_punch_small m" and "buf @ rest = hole_punch_wire m" and "rest \<noteq> []"
  shows "hole_punch_frame buf = Some (Ok None)"
proof -
  have buf: "buf = take (length buf) (hole_punch_wire m)"
    by (simp flip: assms(2))
  have len: "length buf < length (hole_punch_wire m)"
    using assms(3) by (simp flip: assms(2))
  then have "decode_frame buf = Some FrameIncomplete"
    using frame.decode_prefix [OF hole_punch_small_vec_ok [OF assms(1)]] buf
    unfolding hole_punch_wire_def by metis
  then show ?thesis
    using assms(1) len by (simp add: hole_punch_frame_def dcutr_enforce_max_size_def hole_punch_small_def)
qed

lemma hole_punch_frame_whole:
  assumes "hole_punch_small m"
  shows "hole_punch_frame (hole_punch_wire m) = Some (Ok (Some (m, length (hole_punch_wire m))))"
  using assms frame.decode_whole [OF hole_punch_small_vec_ok [OF assms]]
    hole_punch_decode_encode [OF hole_punch_small_vec_ok [OF assms]]
  by (simp add: hole_punch_frame_def dcutr_enforce_max_size_def hole_punch_small_def hole_punch_wire_def)

text \<open>The initiator is given each piece with the round-trip time measured so far.\<close>

fun di_feed :: "'mh multihash_api \<Rightarrow> (bytes \<times> u64) list \<Rightarrow> 'mh dcutr_initiator \<Rightarrow> 'mh dcutr_initiator option" where
  "di_feed M [] s = Some s"
| "di_feed M ((c, rtt) # cs) s =
     (case di_handle_input M (DiData c rtt) s of
        Some (s', Inr _) \<Rightarrow> di_feed M cs s'
      | _ \<Rightarrow> None)"

abbreviation dr_feed :: "'mh multihash_api \<Rightarrow> bytes list \<Rightarrow> 'mh dcutr_responder \<Rightarrow> 'mh dcutr_responder option" where
  "dr_feed M \<equiv> feed (\<lambda>c. dr_handle_input M (DrData c))"

lemma di_feed_append: "di_feed M (xs @ ys) s = Option.bind (di_feed M xs s) (di_feed M ys)"
  by (induction M xs s rule: di_feed.induct) (auto split: option.split sum.split)

lemma di_feed_part:
  assumes "hole_punch_small m" and "rest \<noteq> []"
  shows "di_state s = IsAwaitingConnectReply \<Longrightarrow>
    (di_recv_buf s @ concat (map fst cs)) @ rest = hole_punch_wire m \<Longrightarrow>
    di_feed M cs s = Some (s\<lparr>di_recv_buf := di_recv_buf s @ concat (map fst cs)\<rparr>)"
proof (induction cs arbitrary: s)
  case (Cons x cs)
  obtain c rtt where x: "x = (c, rtt)"
    by fastforce
  have "hole_punch_frame (di_recv_buf s @ c) = Some (Ok None)"
    by (rule hole_punch_frame_part [OF assms(1), of _ "concat (map fst cs) @ rest"])
      (use Cons.prems(2) assms(2) x in simp_all)
  then have "di_handle_input M (DiData c rtt) s = Some (s\<lparr>di_recv_buf := di_recv_buf s @ c\<rparr>, Ok ())"
    using Cons.prems(1) by (simp add: di_on_data_def di_try_decode_reply_def)
  then show ?case
    using Cons.IH [of "s\<lparr>di_recv_buf := di_recv_buf s @ c\<rparr>"] Cons.prems x by simp
qed simp

lemma dr_feed_whole:
  assumes "hole_punch_small m" and "dr_state s \<noteq> RsDone" and "dr_recv_buf s = []"
    and "splits cs (hole_punch_wire m)"
    and "dr_handle_input M (DrData (hole_punch_wire m)) s = Some (s', Ok ())"
  shows "dr_feed M cs s = Some s'"
proof -
  let ?wait = "\<lambda>b. s\<lparr>dr_recv_buf := b\<rparr>"
  have s: "?wait [] = s"
    using assms(3) by simp
  have "dr_feed M cs (?wait []) = Some s'"
  proof (rule feed_splits [where wait = ?wait, OF assms(4)])
    fix b c rest :: bytes
    assume "b @ c @ rest = hole_punch_wire m" "rest \<noteq> []"
    then show "dr_handle_input M (DrData c) (?wait b) = Some (?wait (b @ c), Ok ())"
      using assms(2) hole_punch_frame_part [OF assms(1), of "b @ c" rest]
      by (simp add: dr_on_data_def dr_try_decode.simps)
  next
    fix b c :: bytes
    assume "b @ c = hole_punch_wire m"
    then show "dr_handle_input M (DrData c) (?wait b) = Some (s', Ok ())"
      using assms(2,3,5) by (simp add: dr_on_data_def)
  qed
  then show ?thesis
    unfolding s .
qed

lemma di_feed_reply:
  assumes "hole_punch_small m" and "hpm_kind m = HpConnect"
    and "di_state s = IsAwaitingConnectReply" and "di_recv_buf s = []"
    and "concat (map fst cs) @ c = hole_punch_wire m" and "c \<noteq> []"
  shows "di_feed M (cs @ [(c, rtt)]) s =
    Some (s\<lparr>di_state := IsReadyToSync,
            di_outcome := Some (DialNow (decode_remote_addrs M (hpm_obs_addrs m)) (hpm_obs_addrs m) rtt),
            di_emitted := False\<rparr>)"
proof -
  have part: "di_feed M cs s = Some (s\<lparr>di_recv_buf := concat (map fst cs)\<rparr>)"
    using di_feed_part [OF assms(1,6), of s cs M] assms(3-5) by simp
  have "di_recv_buf (s\<lparr>di_recv_buf := []\<rparr>) = di_recv_buf s"
    using assms(4) by simp
  then have "s\<lparr>di_recv_buf := []\<rparr> = s"
    using assms(4) by simp
  then show ?thesis
    using assms(2,3) hole_punch_frame_whole [OF assms(1)]
    by (simp add: di_feed_append part di_on_data_def di_try_decode_reply_def assms(5) Let_def)
qed

lemma dr_recv_same: "dr_recv_buf s = [] \<Longrightarrow> s\<lparr>dr_recv_buf := []\<rparr> = s"
  by simp

lemma hole_punch_frame_Nil: "hole_punch_frame [] = Some (Ok None)"
  by (simp add: hole_punch_frame_def dcutr_enforce_max_size_def decode_frame_def)

lemma dr_feed_connect:
  assumes "hole_punch_small m" and "hpm_kind m = HpConnect"
    and "dr_state s = RsAwaitingConnect" and "dr_recv_buf s = []" and "splits cs (hole_punch_wire m)"
  shows "dr_feed M cs s =
    Some (s\<lparr>dr_outbound := dr_outbound s @ hole_punch_wire \<lparr>hpm_kind = HpConnect, hpm_obs_addrs = dr_own_addrs s\<rparr>,
            dr_events := dr_events s @ [ConnectReceived (decode_remote_addrs M (hpm_obs_addrs m)) (hpm_obs_addrs m)],
            dr_state := RsAwaitingSync\<rparr>)"
  by (rule dr_feed_whole [OF assms(1) _ assms(4,5)])
    (use assms(2,3) hole_punch_frame_whole [OF assms(1)] dr_recv_same [OF assms(4)] assms(4) in
      \<open>simp_all add: dr_on_data_def dr_try_decode.simps hole_punch_frame_Nil hole_punch_wire_def Let_def\<close>)

lemma dr_feed_sync:
  assumes "hole_punch_small m" and "hpm_kind m = HpSync"
    and "dr_state s = RsAwaitingSync" and "dr_recv_buf s = []" and "splits cs (hole_punch_wire m)"
  shows "dr_feed M cs s = Some (s\<lparr>dr_events := dr_events s @ [SyncReceived], dr_state := RsDone\<rparr>)"
  by (rule dr_feed_whole [OF assms(1) _ assms(4,5)])
    (use assms(2,3) hole_punch_frame_whole [OF assms(1)] dr_recv_same [OF assms(4)] assms(4) in
      \<open>simp_all add: dr_on_data_def dr_try_decode.simps Let_def\<close>)

text \<open>Addresses survive the exchange.\<close>

lemma decode_remote_addrs_own:
  assumes "multihash_laws M" and "list_all (\<lambda>a. list_all (protocol_ok M) (protocols a)) addrs"
  shows "decode_remote_addrs M (map (multiaddr_to_bytes M) addrs) = addrs"
  using assms(2)
  by (induction addrs) (simp_all add: decode_remote_addrs_def List.map_filter_simps
      from_bytes_to_bytes_multiaddr [OF assms(1)])

section \<open>Properties\<close>

text \<open>The addresses a side offers, as a message.\<close>

definition connect_message :: "'mh multihash_api \<Rightarrow> 'mh multiaddr list \<Rightarrow> hole_punch" where
  "connect_message M addrs = \<lparr>hpm_kind = HpConnect, hpm_obs_addrs = map (multiaddr_to_bytes M) addrs\<rparr>"

definition sync_message :: hole_punch where
  "sync_message = \<lparr>hpm_kind = HpSync, hpm_obs_addrs = []\<rparr>"

lemma sync_message_small: "hole_punch_small sync_message"
  by (simp add: hole_punch_small_def hole_punch_wire_def sync_message_def length_encode_frame
      hole_punch_encode_eq hole_punch_fields_def field_bytes_def uvarint_len_rec DCUTR_MAX_MESSAGE_SIZE_def)

lemma dcutr_initiator_new_eq:
  "dcutr_initiator_new M addrs = \<lparr>di_outbound = hole_punch_wire (connect_message M addrs), di_recv_buf = [],
     di_state = IsPending, di_outcome = None, di_emitted = False\<rparr>"
  by (simp add: dcutr_initiator_new_def connect_message_def hole_punch_wire_def Let_def)

text \<open>
  The hole-punch message survives its protobuf encoding.
\<close>

theorem hole_punch_roundtrip:
  assumes "vec_ok (hole_punch_encode m)"
  shows "hole_punch_decode (hole_punch_encode m) = Ok m"
  using assms by (rule hole_punch_decode_encode)

text \<open>
  C27. The hole-punch exchange: the initiator sends CONNECT with its addresses; the responder, given
  those bytes in any pieces, answers CONNECT with its own and reports the initiator's addresses; the
  initiator, given the answer in any pieces, is told to dial the responder's addresses with the
  round-trip time of the last piece; it then sends SYNC once and is done, and the responder reports
  SYNC and is done.
\<close>

theorem dcutr_exchange:
  assumes "multihash_laws M"
    and "list_all (\<lambda>a. list_all (protocol_ok M) (protocols a)) A"
    and "list_all (\<lambda>a. list_all (protocol_ok M) (protocols a)) B"
    and "hole_punch_small (connect_message M A)" and "hole_punch_small (connect_message M B)"
    and "splits cs (hole_punch_wire (connect_message M A))"
    and "concat (map fst ds) @ d = hole_punch_wire (connect_message M B)" and "d \<noteq> []"
    and "splits es (hole_punch_wire sync_message)"
  shows "\<exists>i0 r1 r2 i1 i2 i3 i4 r3 r4.
    di_poll_output (dcutr_initiator_new M A) = (Some (DiOutbound (hole_punch_wire (connect_message M A))), i0) \<and>
    dr_feed M cs (dcutr_responder_new M B) = Some r1 \<and>
    drain 3 dr_poll_output r1 = Some ([DrOutbound (hole_punch_wire (connect_message M B)),
      DrEvent (ConnectReceived A (map (multiaddr_to_bytes M) A))], r2) \<and>
    di_feed M (ds @ [(d, rtt)]) i0 = Some i1 \<and>
    drain 2 di_poll_output i1 = Some ([DiOutcome (DialNow B (map (multiaddr_to_bytes M) B) rtt)], i2) \<and>
    di_handle_input M DiSendSync i2 = Some (i3, Ok ()) \<and>
    drain 2 di_poll_output i3 = Some ([DiOutbound (hole_punch_wire sync_message)], i4) \<and> di_is_done i4 \<and>
    dr_feed M es r2 = Some r3 \<and>
    drain 2 dr_poll_output r3 = Some ([DrEvent SyncReceived], r4) \<and> dr_is_done r4"
proof -
  let ?mA = "connect_message M A" and ?mB = "connect_message M B"
  have nonempty [simp]: "hole_punch_wire m \<noteq> []" for m
    by (simp add: hole_punch_wire_def encode_frame_def)
  have kinds [simp]: "hpm_kind ?mA = HpConnect" "hpm_kind ?mB = HpConnect" "hpm_kind sync_message = HpSync"
    "hpm_obs_addrs ?mA = map (multiaddr_to_bytes M) A" "hpm_obs_addrs ?mB = map (multiaddr_to_bytes M) B"
    by (simp_all add: connect_message_def sync_message_def)
  have addrs [simp]: "decode_remote_addrs M (map (multiaddr_to_bytes M) A) = A"
    "decode_remote_addrs M (map (multiaddr_to_bytes M) B) = B"
    using decode_remote_addrs_own [OF assms(1)] assms(2,3) by simp_all
  define i0 where "i0 = (dcutr_initiator_new M A)\<lparr>di_outbound := [], di_state := IsAwaitingConnectReply\<rparr>"
  have poll0: "di_poll_output (dcutr_initiator_new M A) = (Some (DiOutbound (hole_punch_wire ?mA)), i0)"
    by (simp add: di_poll_output_def di_take_outbound_def dcutr_initiator_new_eq i0_def)
  let ?r0 = "dcutr_responder_new M B"
  let ?r2 = "?r0\<lparr>dr_state := RsAwaitingSync\<rparr>"
  have r1: "dr_feed M cs ?r0 = Some (?r0\<lparr>dr_outbound := hole_punch_wire ?mB,
      dr_events := [ConnectReceived A (map (multiaddr_to_bytes M) A)], dr_state := RsAwaitingSync\<rparr>)" (is "_ = Some ?r1")
    using dr_feed_connect [OF assms(4) _ _ _ assms(6), of ?r0 M]
    by (simp add: dcutr_responder_new_def connect_message_def)
  have d1: "drain 3 dr_poll_output ?r1 = Some ([DrOutbound (hole_punch_wire ?mB),
      DrEvent (ConnectReceived A (map (multiaddr_to_bytes M) A))], ?r2)"
    by (simp add: numeral_3_eq_3 dr_poll_output_def dcutr_responder_new_def)
  let ?i1 = "i0\<lparr>di_state := IsReadyToSync,
      di_outcome := Some (DialNow B (map (multiaddr_to_bytes M) B) rtt), di_emitted := False\<rparr>"
  have i1: "di_feed M (ds @ [(d, rtt)]) i0 = Some ?i1"
    using di_feed_reply [OF assms(5) _ _ _ assms(7,8), of i0 M rtt]
    by (simp add: i0_def dcutr_initiator_new_eq)
  let ?i2 = "?i1\<lparr>di_emitted := True\<rparr>"
  have d2: "drain 2 di_poll_output ?i1 = Some ([DiOutcome (DialNow B (map (multiaddr_to_bytes M) B) rtt)], ?i2)"
    by (simp add: numeral_2_eq_2 di_poll_output_def di_take_outbound_def i0_def)
  let ?i3 = "?i2\<lparr>di_outbound := hole_punch_wire sync_message, di_state := IsSyncPending\<rparr>"
  have i3: "di_handle_input M DiSendSync ?i2 = Some (?i3, Ok ())"
    by (simp add: di_send_sync_def i0_def hole_punch_wire_def sync_message_def)
  have d3: "drain 2 di_poll_output ?i3 = Some ([DiOutbound (hole_punch_wire sync_message)],
      ?i3\<lparr>di_outbound := [], di_state := IsDone\<rparr>)"
    by (simp add: numeral_2_eq_2 di_poll_output_def di_take_outbound_def)
  have r3: "dr_feed M es ?r2 = Some (?r2\<lparr>dr_events := [SyncReceived], dr_state := RsDone\<rparr>)" (is "_ = Some ?r3")
    using dr_feed_sync [OF sync_message_small _ _ _ assms(9), of ?r2 M]
    by (simp add: dcutr_responder_new_def)
  have d4: "drain 2 dr_poll_output ?r3 = Some ([DrEvent SyncReceived], ?r3\<lparr>dr_events := []\<rparr>)"
    by (simp add: numeral_2_eq_2 dr_poll_output_def dcutr_responder_new_def)
  show ?thesis
    by (rule exI [of _ i0], rule exI [of _ ?r1], rule exI [of _ ?r2], rule exI [of _ ?i1], rule exI [of _ ?i2],
        rule exI [of _ ?i3], rule exI [of _ "?i3\<lparr>di_outbound := [], di_state := IsDone\<rparr>"],
        rule exI [of _ ?r3], rule exI [of _ "?r3\<lparr>dr_events := []\<rparr>"],
        intro conjI poll0 r1 d1 i1 d2 i3 d3 r3 d4)
      (simp_all add: di_is_done_def dr_is_done_def)
qed

theorem dcutr_exchange_witness:
  "let A = [Multiaddr [Ip4 [10, 0, 0, 1], Udp 4001, QuicV1]]; B = [Multiaddr [Ip4 [10, 0, 0, 2], Udp 4002, QuicV1]];
       f = hole_punch_wire (connect_message mh64_api B)
   in \<exists>i0 i1 i2. di_poll_output (dcutr_initiator_new mh64_api A) =
          (Some (DiOutbound (hole_punch_wire (connect_message mh64_api A))), i0) \<and>
        di_feed mh64_api ([(take 1 f, 3)] @ [(drop 1 f, 5)]) i0 = Some i1 \<and>
        drain 2 di_poll_output i1 = Some ([DiOutcome (DialNow B (map (multiaddr_to_bytes mh64_api) B) 5)], i2)"
proof -
  let ?A = "[Multiaddr [Ip4 [10, 0, 0, 1], Udp 4001, QuicV1]] :: mh64 multiaddr list"
    and ?B = "[Multiaddr [Ip4 [10, 0, 0, 2], Udp 4002, QuicV1]] :: mh64 multiaddr list"
  let ?f = "\<lambda>addrs. hole_punch_wire (connect_message mh64_api addrs)"
  have len: "length (hole_punch_wire (connect_message mh64_api [Multiaddr [Ip4 [10, 0, 0, n], Udp port, QuicV1]])) = 16"
    for n port
    by (simp add: hole_punch_wire_def connect_message_def length_encode_frame hole_punch_encode_eq
        hole_punch_fields_def field_bytes_def multiaddr_to_bytes_eq write_binary_simps protocol_codes
        uvarint_len_rec)
  have cut: "splits [w] w" if "w \<noteq> []" for w
    using that by (auto simp: splits_def)
  have ne: "hole_punch_wire m \<noteq> []" for m
    by (simp add: hole_punch_wire_def encode_frame_def)
  have d: "drop 1 (?f ?B) \<noteq> []"
    unfolding drop_eq_Nil len by simp
  have small: "hole_punch_small (connect_message mh64_api ?A)" "hole_punch_small (connect_message mh64_api ?B)"
    unfolding hole_punch_small_def len DCUTR_MAX_MESSAGE_SIZE_def by simp_all
  have addrs: "list_all (\<lambda>a. list_all (protocol_ok mh64_api) (protocols a)) ?A"
    "list_all (\<lambda>a. list_all (protocol_ok mh64_api) (protocols a)) ?B"
    by simp_all
  have whole: "concat (map fst [(take 1 (?f ?B), 3 :: u64)]) @ drop 1 (?f ?B) = ?f ?B"
    by (simp only: list.map concat.simps fst_conv append_Nil2 append_take_drop_id)
  show ?thesis
    unfolding Let_def
    using dcutr_exchange [OF mh64_laws addrs small cut [OF ne] whole d cut [OF ne], of 5] by blast
qed

end
