(* ===== verification/AutoNat.thy ===== *)
theory AutoNat
  imports Multiaddr SansIo Proto
begin

text \<open>
  AutoNAT v1, \<open>crates/autonat/src/lib.rs\<close>: the messages, the frame codec with its size limit, and the
  client and server flows.  Nothing in this crate can panic, so the flows return plain results; the
  interface wraps them.  The theory shows the message round trip, the frame contract, and that a probe
  tells the client exactly what the server answered, however the stream is cut.
\<close>

section \<open>Messages\<close>

definition AUTONAT_MAX_MESSAGE_SIZE :: nat where
  "AUTONAT_MAX_MESSAGE_SIZE = 8192"

datatype autonat_message_type = AnDial | AnDialResponse

fun autonat_type_code :: "autonat_message_type \<Rightarrow> u64" where
  "autonat_type_code AnDial = 0"
| "autonat_type_code AnDialResponse = 1"

definition autonat_type_from_u64 :: "u64 \<Rightarrow> autonat_message_type option" where
  "autonat_type_from_u64 v = (if v = 0 then Some AnDial else if v = 1 then Some AnDialResponse else None)"

datatype response_status = RsOk | RsDialError | RsDialRefused | RsBadRequest | RsInternalError

fun response_status_code :: "response_status \<Rightarrow> u64" where
  "response_status_code RsOk = 0"
| "response_status_code RsDialError = 100"
| "response_status_code RsDialRefused = 101"
| "response_status_code RsBadRequest = 200"
| "response_status_code RsInternalError = 300"

definition response_status_from_u64 :: "u64 \<Rightarrow> response_status" where
  "response_status_from_u64 v =
     (if v = 0 then RsOk
      else if v = 100 then RsDialError
      else if v = 101 then RsDialRefused
      else if v = 200 then RsBadRequest
      else RsInternalError)"

record peer_info =
  pi_id :: bytes
  pi_addrs :: "bytes list"

record dial =
  dl_peer :: "peer_info option"

record dial_response =
  ds_status :: response_status
  ds_status_text :: "rstr option"
  ds_addrs :: "bytes list"

record autonat_message =
  am_kind :: autonat_message_type
  am_dial :: "dial option"
  am_dial_response :: "dial_response option"

datatype autonat_error =
    AnMessageTooLarge nat
  | AnFrameTooLarge nat
  | AnVarint varint_error
  | AnFieldOverflow nat nat nat
  | AnUnsupportedWireType byte nat
  | AnMissingType
  | AnInvalidMessageType u64
  | AnMissingField rstr
  | AnUnexpectedMessage rstr
  | AnInvalidPeerId rstr

definition autonat_errors :: "autonat_error wire_errors" where
  "autonat_errors = \<lparr>we_varint = AnVarint, we_overflow = AnFieldOverflow, we_wire = AnUnsupportedWireType\<rparr>"

text \<open>
  \<open>read_tag\<close> rejects field number 0 at the offset of the tag; the last three arms of each \<open>match\<close> skip
  unknown byte strings and varints and reject every other wire type.
\<close>

definition autonat_tag ::
  "nat \<Rightarrow> u64 \<Rightarrow> byte \<Rightarrow> autonat_error + ('m \<times> nat) \<Rightarrow> autonat_error + ('m \<times> nat)" where
  "autonat_tag off field wt r = (if field = 0 then Err (AnUnsupportedWireType wt off) else r)"

definition autonat_skip :: "bytes \<Rightarrow> nat \<Rightarrow> byte \<Rightarrow> 'm \<Rightarrow> autonat_error + ('m \<times> nat)" where
  "autonat_skip input idx wt msg =
     (if wt = WIRE_LEN then len_field autonat_errors input idx (\<lambda>_. Ok msg)
      else if wt = WIRE_VARINT then varint_field autonat_errors input idx (\<lambda>_. Ok msg)
      else Err (AnUnsupportedWireType wt idx))"

definition peer_info_encode :: "peer_info \<Rightarrow> bytes" where
  "peer_info_encode m =
     rep_bytes (tag_byte 2 WIRE_LEN) (pi_addrs m) (encode_bytes_field [] (tag_byte 1 WIRE_LEN) (pi_id m))"

definition peer_info_step ::
  "bytes \<Rightarrow> nat \<Rightarrow> nat \<Rightarrow> u64 \<Rightarrow> byte \<Rightarrow> peer_info \<Rightarrow> autonat_error + (peer_info \<times> nat)" where
  "peer_info_step input off idx field wt msg = autonat_tag off field wt
     (if field = 1 \<and> wt = WIRE_LEN
      then len_field autonat_errors input idx (\<lambda>v. Ok (msg\<lparr>pi_id := v\<rparr>))
      else if field = 2 \<and> wt = WIRE_LEN
      then len_field autonat_errors input idx (\<lambda>v. Ok (msg\<lparr>pi_addrs := pi_addrs msg @ [v]\<rparr>))
      else autonat_skip input idx wt msg)"

definition peer_info_decode :: "bytes \<Rightarrow> autonat_error + peer_info" where
  "peer_info_decode input = wire_loop autonat_errors peer_info_step input 0 \<lparr>pi_id = [], pi_addrs = []\<rparr>"

definition dial_encode :: "dial \<Rightarrow> bytes" where
  "dial_encode m = opt_bytes (tag_byte 1 WIRE_LEN) (map_option peer_info_encode (dl_peer m)) []"

definition dial_step ::
  "bytes \<Rightarrow> nat \<Rightarrow> nat \<Rightarrow> u64 \<Rightarrow> byte \<Rightarrow> dial \<Rightarrow> autonat_error + (dial \<times> nat)" where
  "dial_step input off idx field wt msg = autonat_tag off field wt
     (if field = 1 \<and> wt = WIRE_LEN
      then len_field autonat_errors input idx (\<lambda>v.
        and_then (peer_info_decode v) (\<lambda>p. Ok (msg\<lparr>dl_peer := Some p\<rparr>)))
      else autonat_skip input idx wt msg)"

definition dial_decode :: "bytes \<Rightarrow> autonat_error + dial" where
  "dial_decode input = wire_loop autonat_errors dial_step input 0 \<lparr>dl_peer = None\<rparr>"

definition dial_response_encode :: "dial_response \<Rightarrow> bytes" where
  "dial_response_encode m =
     (let out = encode_varint_field [] (tag_byte 1 WIRE_VARINT) (response_status_code (ds_status m));
          out = opt_bytes (tag_byte 2 WIRE_LEN) (ds_status_text m) out
      in rep_bytes (tag_byte 3 WIRE_LEN) (ds_addrs m) out)"

definition dial_response_step ::
  "bytes \<Rightarrow> nat \<Rightarrow> nat \<Rightarrow> u64 \<Rightarrow> byte \<Rightarrow> dial_response \<Rightarrow> autonat_error + (dial_response \<times> nat)" where
  "dial_response_step input off idx field wt msg = autonat_tag off field wt
     (if field = 1 \<and> wt = WIRE_VARINT
      then varint_field autonat_errors input idx (\<lambda>v. Ok (msg\<lparr>ds_status := response_status_from_u64 v\<rparr>))
      else if field = 2 \<and> wt = WIRE_LEN
      then len_field autonat_errors input idx (\<lambda>v. Ok (msg\<lparr>ds_status_text := Some (from_utf8_lossy v)\<rparr>))
      else if field = 3 \<and> wt = WIRE_LEN
      then len_field autonat_errors input idx (\<lambda>v. Ok (msg\<lparr>ds_addrs := ds_addrs msg @ [v]\<rparr>))
      else autonat_skip input idx wt msg)"

definition dial_response_decode :: "bytes \<Rightarrow> autonat_error + dial_response" where
  "dial_response_decode input =
     wire_loop autonat_errors dial_response_step input 0
       \<lparr>ds_status = RsInternalError, ds_status_text = None, ds_addrs = []\<rparr>"

definition autonat_message_encode :: "autonat_message \<Rightarrow> bytes" where
  "autonat_message_encode m =
     (let out = encode_varint_field [] (tag_byte 1 WIRE_VARINT) (autonat_type_code (am_kind m));
          out = opt_bytes (tag_byte 2 WIRE_LEN) (map_option dial_encode (am_dial m)) out
      in opt_bytes (tag_byte 3 WIRE_LEN) (map_option dial_response_encode (am_dial_response m)) out)"

record autonat_partial =
  ap_kind :: "autonat_message_type option"
  ap_dial :: "dial option"
  ap_dial_response :: "dial_response option"

definition autonat_message_step ::
  "bytes \<Rightarrow> nat \<Rightarrow> nat \<Rightarrow> u64 \<Rightarrow> byte \<Rightarrow> autonat_partial \<Rightarrow> autonat_error + (autonat_partial \<times> nat)" where
  "autonat_message_step input off idx field wt msg = autonat_tag off field wt
     (if field = 1 \<and> wt = WIRE_VARINT
      then varint_field autonat_errors input idx (\<lambda>v.
        and_then (ok_or (AnInvalidMessageType v) (autonat_type_from_u64 v)) (\<lambda>k. Ok (msg\<lparr>ap_kind := Some k\<rparr>)))
      else if field = 2 \<and> wt = WIRE_LEN
      then len_field autonat_errors input idx (\<lambda>v.
        and_then (dial_decode v) (\<lambda>d. Ok (msg\<lparr>ap_dial := Some d\<rparr>)))
      else if field = 3 \<and> wt = WIRE_LEN
      then len_field autonat_errors input idx (\<lambda>v.
        and_then (dial_response_decode v) (\<lambda>d. Ok (msg\<lparr>ap_dial_response := Some d\<rparr>)))
      else autonat_skip input idx wt msg)"

definition autonat_message_decode :: "bytes \<Rightarrow> autonat_error + autonat_message" where
  "autonat_message_decode input =
     and_then (wire_loop autonat_errors autonat_message_step input 0
         \<lparr>ap_kind = None, ap_dial = None, ap_dial_response = None\<rparr>)
       (\<lambda>m. and_then (ok_or AnMissingType (ap_kind m)) (\<lambda>k.
         Ok \<lparr>am_kind = k, am_dial = ap_dial m, am_dial_response = ap_dial_response m\<rparr>))"

section \<open>The decoders invert the encoders\<close>

lemma autonat_type_roundtrip [simp]: "autonat_type_from_u64 (autonat_type_code k) = Some k"
  by (cases k) (simp_all add: autonat_type_from_u64_def)

lemma response_status_roundtrip [simp]: "response_status_from_u64 (response_status_code st) = st"
  by (cases st) (simp_all add: response_status_from_u64_def)

fun peer_info_apply :: "wire_field \<Rightarrow> peer_info \<Rightarrow> autonat_error + peer_info" where
  "peer_info_apply (WVarint t v) msg = Ok msg"
| "peer_info_apply (WBytes t d) msg =
     (let n = field_number (WBytes t d)
      in if n = 1 then Ok (msg\<lparr>pi_id := d\<rparr>)
         else if n = 2 then Ok (msg\<lparr>pi_addrs := pi_addrs msg @ [d]\<rparr>) else Ok msg)"

fun dial_apply :: "wire_field \<Rightarrow> dial \<Rightarrow> autonat_error + dial" where
  "dial_apply (WVarint t v) msg = Ok msg"
| "dial_apply (WBytes t d) msg =
     (if field_number (WBytes t d) = 1
      then and_then (peer_info_decode d) (\<lambda>p. Ok (msg\<lparr>dl_peer := Some p\<rparr>)) else Ok msg)"

fun dial_response_apply :: "wire_field \<Rightarrow> dial_response \<Rightarrow> autonat_error + dial_response" where
  "dial_response_apply (WVarint t v) msg =
     (if field_number (WVarint t v) = 1 then Ok (msg\<lparr>ds_status := response_status_from_u64 v\<rparr>) else Ok msg)"
| "dial_response_apply (WBytes t d) msg =
     (let n = field_number (WBytes t d)
      in if n = 2 then Ok (msg\<lparr>ds_status_text := Some (from_utf8_lossy d)\<rparr>)
         else if n = 3 then Ok (msg\<lparr>ds_addrs := ds_addrs msg @ [d]\<rparr>) else Ok msg)"

fun autonat_message_apply :: "wire_field \<Rightarrow> autonat_partial \<Rightarrow> autonat_error + autonat_partial" where
  "autonat_message_apply (WVarint t v) msg =
     (if field_number (WVarint t v) = 1
      then and_then (ok_or (AnInvalidMessageType v) (autonat_type_from_u64 v)) (\<lambda>k. Ok (msg\<lparr>ap_kind := Some k\<rparr>))
      else Ok msg)"
| "autonat_message_apply (WBytes t d) msg =
     (let n = field_number (WBytes t d)
      in if n = 2 then and_then (dial_decode d) (\<lambda>x. Ok (msg\<lparr>ap_dial := Some x\<rparr>))
         else if n = 3 then and_then (dial_response_decode d) (\<lambda>x. Ok (msg\<lparr>ap_dial_response := Some x\<rparr>))
         else Ok msg)"

lemmas autonat_step_defs = autonat_tag_def autonat_skip_def decode_written Let_def

interpretation peer_info_msg: wire_message autonat_errors peer_info_step "\<lambda>f. field_number f \<noteq> 0" peer_info_apply
proof unfold_locales
  show "peer_info_step input off idx (field_number f) (field_wire_type f) msg =
      and_then (peer_info_apply f msg) (\<lambda>m. Ok (m, length (field_body f)))"
    if "written_at f idx input" "field_number f \<noteq> 0" for f idx input off msg
    using that by (cases f) (simp_all add: peer_info_step_def autonat_step_defs)
qed

interpretation dial_msg: wire_message autonat_errors dial_step "\<lambda>f. field_number f \<noteq> 0" dial_apply
proof unfold_locales
  show "dial_step input off idx (field_number f) (field_wire_type f) msg =
      and_then (dial_apply f msg) (\<lambda>m. Ok (m, length (field_body f)))"
    if "written_at f idx input" "field_number f \<noteq> 0" for f idx input off msg
    using that by (cases f) (simp_all add: dial_step_def autonat_step_defs)
qed

interpretation dial_response_msg:
  wire_message autonat_errors dial_response_step "\<lambda>f. field_number f \<noteq> 0" dial_response_apply
proof unfold_locales
  show "dial_response_step input off idx (field_number f) (field_wire_type f) msg =
      and_then (dial_response_apply f msg) (\<lambda>m. Ok (m, length (field_body f)))"
    if "written_at f idx input" "field_number f \<noteq> 0" for f idx input off msg
    using that by (cases f) (simp_all add: dial_response_step_def autonat_step_defs)
qed

interpretation autonat_msg:
  wire_message autonat_errors autonat_message_step "\<lambda>f. field_number f \<noteq> 0" autonat_message_apply
proof unfold_locales
  show "autonat_message_step input off idx (field_number f) (field_wire_type f) msg =
      and_then (autonat_message_apply f msg) (\<lambda>m. Ok (m, length (field_body f)))"
    if "written_at f idx input" "field_number f \<noteq> 0" for f idx input off msg
    using that by (cases f) (simp_all add: autonat_message_step_def autonat_step_defs)
qed

text \<open>The fields each encoder writes.\<close>

definition peer_info_fields :: "peer_info \<Rightarrow> wire_field list" where
  "peer_info_fields m = WBytes (tag_byte 1 WIRE_LEN) (pi_id m) # map (WBytes (tag_byte 2 WIRE_LEN)) (pi_addrs m)"

definition dial_fields :: "dial \<Rightarrow> wire_field list" where
  "dial_fields m = opt_fields (WBytes (tag_byte 1 WIRE_LEN)) (map_option peer_info_encode (dl_peer m))"

definition dial_response_fields :: "dial_response \<Rightarrow> wire_field list" where
  "dial_response_fields m =
     WVarint (tag_byte 1 WIRE_VARINT) (response_status_code (ds_status m)) #
     opt_fields (WBytes (tag_byte 2 WIRE_LEN)) (ds_status_text m) @
     map (WBytes (tag_byte 3 WIRE_LEN)) (ds_addrs m)"

definition autonat_fields :: "autonat_message \<Rightarrow> wire_field list" where
  "autonat_fields m =
     WVarint (tag_byte 1 WIRE_VARINT) (autonat_type_code (am_kind m)) #
     opt_fields (WBytes (tag_byte 2 WIRE_LEN)) (map_option dial_encode (am_dial m)) @
     opt_fields (WBytes (tag_byte 3 WIRE_LEN)) (map_option dial_response_encode (am_dial_response m))"

lemmas autonat_fields_defs = peer_info_fields_def dial_fields_def dial_response_fields_def autonat_fields_def
  opt_fields_def

lemma autonat_encode_fields:
  "peer_info_encode p = fields_bytes (peer_info_fields p)"
  "dial_encode d = fields_bytes (dial_fields d)"
  "dial_response_encode r = fields_bytes (dial_response_fields r)"
  "autonat_message_encode m = fields_bytes (autonat_fields m)"
  by (simp_all add: peer_info_encode_def peer_info_fields_def dial_encode_def dial_fields_def
      dial_response_encode_def dial_response_fields_def autonat_message_encode_def autonat_fields_def
      encoded_fields Let_def)

declare tag_bytes [simp]

lemma autonat_field_tags:
  "f \<in> set (peer_info_fields p) \<Longrightarrow> wire_type_ok f \<and> field_tag f < 0x80 \<and> field_number f \<noteq> 0"
  "f \<in> set (dial_fields d) \<Longrightarrow> wire_type_ok f \<and> field_tag f < 0x80 \<and> field_number f \<noteq> 0"
  "f \<in> set (dial_response_fields r) \<Longrightarrow> wire_type_ok f \<and> field_tag f < 0x80 \<and> field_number f \<noteq> 0"
  "f \<in> set (autonat_fields m) \<Longrightarrow> wire_type_ok f \<and> field_tag f < 0x80 \<and> field_number f \<noteq> 0"
  by (auto simp: autonat_fields_defs tag_byte_def wire_types simp del: tag_bytes split: option.splits)

lemma autonat_fields_ok:
  "vec_ok (peer_info_encode p) \<Longrightarrow> \<forall>f \<in> set (peer_info_fields p). field_number f \<noteq> 0 \<and> field_ok f"
  "vec_ok (dial_encode d) \<Longrightarrow> \<forall>f \<in> set (dial_fields d). field_number f \<noteq> 0 \<and> field_ok f"
  "vec_ok (dial_response_encode r) \<Longrightarrow> \<forall>f \<in> set (dial_response_fields r). field_number f \<noteq> 0 \<and> field_ok f"
  "vec_ok (autonat_message_encode m) \<Longrightarrow> \<forall>f \<in> set (autonat_fields m). field_number f \<noteq> 0 \<and> field_ok f"
  using fields_fit autonat_field_tags by (simp_all add: autonat_encode_fields)

lemma peer_info_decode_encode [codec]:
  assumes "vec_ok (peer_info_encode p)"
  shows "peer_info_decode (peer_info_encode p) = Ok p"
proof -
  have "apply_fields peer_info_apply (map (WBytes 0x12) vs) msg = Ok (msg\<lparr>pi_addrs := pi_addrs msg @ vs\<rparr>)" for vs msg
    by (induction vs arbitrary: msg) simp_all
  then have "apply_fields peer_info_apply (peer_info_fields p) \<lparr>pi_id = [], pi_addrs = []\<rparr> = Ok p"
    by (cases p) (simp add: autonat_fields_defs)
  then show ?thesis
    using peer_info_msg.decode_fields [OF autonat_fields_ok(1) [OF assms]]
    by (simp add: peer_info_decode_def autonat_encode_fields)
qed

lemma dial_decode_encode [codec]:
  assumes "vec_ok (dial_encode d)"
  shows "dial_decode (dial_encode d) = Ok d"
proof -
  have "vec_ok (peer_info_encode p)" if "dl_peer d = Some p" for p
    using autonat_fields_ok(2) [OF assms] that
    by (simp add: autonat_fields_defs field_ok_def field_fits_def)
  then have "apply_fields dial_apply (dial_fields d) \<lparr>dl_peer = None\<rparr> = Ok d"
    by (cases d) (auto simp: dial_fields_def opt_fields_def peer_info_decode_encode split: option.split)
  then show ?thesis
    using dial_msg.decode_fields [OF autonat_fields_ok(2) [OF assms]]
    by (simp add: dial_decode_def autonat_encode_fields)
qed

lemma dial_response_decode_encode [codec]:
  assumes "vec_ok (dial_response_encode r)" and "pred_option utf8_ok (ds_status_text r)"
  shows "dial_response_decode (dial_response_encode r) = Ok r"
proof -
  have "apply_fields dial_response_apply (map (WBytes 0x1A) vs) msg = Ok (msg\<lparr>ds_addrs := ds_addrs msg @ vs\<rparr>)" for vs msg
    by (induction vs arbitrary: msg) simp_all
  then have "apply_fields dial_response_apply (dial_response_fields r)
      \<lparr>ds_status = RsInternalError, ds_status_text = None, ds_addrs = []\<rparr> = Ok r"
    using assms(2) by (cases r) (auto simp: autonat_fields_defs split: option.split)
  then show ?thesis
    using dial_response_msg.decode_fields [OF autonat_fields_ok(3) [OF assms(1)]]
    by (simp add: dial_response_decode_def autonat_encode_fields)
qed

text \<open>What Rust's types guarantee: the encoding fits in memory and the reason is a string.\<close>

definition autonat_message_ok :: "autonat_message \<Rightarrow> bool" where
  "autonat_message_ok m \<longleftrightarrow> vec_ok (autonat_message_encode m) \<and>
     pred_option (\<lambda>r. pred_option utf8_ok (ds_status_text r)) (am_dial_response m)"

lemma autonat_decode_encode [codec]:
  assumes "autonat_message_ok m"
  shows "autonat_message_decode (autonat_message_encode m) = Ok m"
proof -
  have vec: "vec_ok (autonat_message_encode m)"
    using assms by (simp add: autonat_message_ok_def)
  have nested: "am_dial m = Some d \<Longrightarrow> vec_ok (dial_encode d)"
    "am_dial_response m = Some r \<Longrightarrow> vec_ok (dial_response_encode r)" for d r
    using autonat_fields_ok(4) [OF vec]
    by (auto simp: autonat_fields_def opt_fields_def field_ok_def field_fits_def)
  have "apply_fields autonat_message_apply (autonat_fields m)
      \<lparr>ap_kind = None, ap_dial = None, ap_dial_response = None\<rparr> =
      Ok \<lparr>ap_kind = Some (am_kind m), ap_dial = am_dial m, ap_dial_response = am_dial_response m\<rparr>"
    using nested assms
    by (auto simp: autonat_fields_def opt_fields_def autonat_message_ok_def dial_decode_encode
        dial_response_decode_encode split: option.split)
  then show ?thesis
    using autonat_msg.decode_fields [OF autonat_fields_ok(4) [OF vec]]
    by (simp add: autonat_message_decode_def autonat_encode_fields)
qed

section \<open>Frames with a size limit\<close>

definition autonat_decode_frame :: "bytes \<Rightarrow> frame_decode" where
  "autonat_decode_frame input =
     (case read_uvarint input of
        Inl BufferTooShort \<Rightarrow> FrameIncomplete
      | Inl e \<Rightarrow> FrameError e
      | Inr (len, used) \<Rightarrow>
          let len = unat len
          in if AUTONAT_MAX_MESSAGE_SIZE < len then FrameTooLarge len
             else
               let fin = min (2 ^ 64 - 1) (used + len)
               in if length input < fin then FrameIncomplete
                  else FrameComplete (take (fin - used) (drop used input)) fin)"

lemma autonat_frame_fin:
  assumes "read_uvarint input = Ok (len, used)" and "\<not> AUTONAT_MAX_MESSAGE_SIZE < unat len"
  shows "min (2 ^ 64 - 1) (used + unat len) = used + unat len"
  using assms read_uvarint_Ok(1) [OF assms(1)] uvarint_len_le_10 [of len]
  by (simp add: AUTONAT_MAX_MESSAGE_SIZE_def)

lemma autonat_decode_frame_Ok:
  assumes "read_uvarint input = Ok (len, used)"
  shows "autonat_decode_frame input =
    (if AUTONAT_MAX_MESSAGE_SIZE < unat len then FrameTooLarge (unat len)
     else if length input < used + unat len then FrameIncomplete
     else FrameComplete (take (unat len) (drop used input)) (used + unat len))"
  using autonat_frame_fin [OF assms] by (simp add: autonat_decode_frame_def assms Let_def)

interpretation autonat_frame: framing "\<lambda>buf. Some (autonat_decode_frame buf)" encode_frame
  "\<lambda>p. length p \<le> AUTONAT_MAX_MESSAGE_SIZE"
proof unfold_locales
  fix p rest
  assume p: "length (p :: bytes) \<le> AUTONAT_MAX_MESSAGE_SIZE"
  then have n: "unat (of_nat (length p) :: u64) = length p"
    by (intro unat_of_length) (simp add: vec_ok_def AUTONAT_MAX_MESSAGE_SIZE_def)
  have r: "read_uvarint (encode_frame p @ rest) = Ok (of_nat (length p), uvarint_len (of_nat (length p)))"
    using read_uvarint_write [of "of_nat (length p)" "p @ rest"] by (simp add: encode_frame_def)
  show "Some (autonat_decode_frame (encode_frame p @ rest)) = Some (FrameComplete p (length (encode_frame p)))"
    using p n unfolding autonat_decode_frame_Ok [OF r]
    by (simp add: length_encode_frame) (simp add: encode_frame_def)
next
  fix buf p n
  assume "Some (autonat_decode_frame buf) = Some (FrameComplete p n)"
  then show "0 < n \<and> n \<le> length buf"
    using read_uvarint_Ok(4) [of buf] autonat_decode_frame_Ok [of buf]
    by (cases "read_uvarint buf")
      (auto simp: autonat_decode_frame_def [of buf] simp del: Let_def split: if_splits varint_error.splits)
next
  fix buf rest
  assume not: "Some (autonat_decode_frame buf) \<noteq> Some FrameIncomplete"
  have "read_uvarint buf \<noteq> Err BufferTooShort"
    using not by (auto simp: autonat_decode_frame_def)
  then have r: "read_uvarint (buf @ rest) = read_uvarint buf"
    by (rule read_uvarint_append)
  show "Some (autonat_decode_frame (buf @ rest)) = Some (autonat_decode_frame buf)"
  proof (cases "read_uvarint buf")
    case (Inr x)
    then show ?thesis
      using not r read_uvarint_Ok(3) [of buf "fst x" "snd x"]
      by (cases x) (auto simp: autonat_decode_frame_Ok split: if_splits)
  qed (use not r in \<open>auto simp: autonat_decode_frame_def split: varint_error.split\<close>)
qed

section \<open>The flows\<close>

datatype 'mh reachability =
    RcPublic "'mh multiaddr list" "bytes list"
  | RcPrivate response_status rstr
  | RcUnknown response_status rstr

record 'mh autonat_request =
  aq_peer_id :: "'mh peer_id"
  aq_addrs :: "'mh multiaddr list"
  aq_raw_addrs :: "bytes list"

datatype autonat_client_input = AcFlush | AcData bytes

datatype 'mh autonat_client_output = AcOutbound bytes | AcOutcome "'mh reachability"

datatype 'mh autonat_server_input =
    AsData bytes
  | AsRespondPublic "'mh multiaddr list"
  | AsRespondError response_status rstr
  | AsFlush

datatype 'mh autonat_server_output = AsRequest "'mh autonat_request" | AsOutbound bytes

datatype autonat_flow_state = AfPending | AfAwaitingResponse | AfDone

datatype autonat_server_state = AvAwaitingRequest | AvRequestReady | AvDone

record 'mh autonat_client =
  ac_outbound :: bytes
  ac_recv_buf :: bytes
  ac_state :: autonat_flow_state
  ac_outcome :: "'mh reachability option"
  ac_emitted :: bool

record 'mh autonat_server =
  av_outbound :: bytes
  av_recv_buf :: bytes
  av_request :: "'mh autonat_request option"
  av_emitted :: bool
  av_state :: autonat_server_state

definition autonat_enforce_max_size :: "bytes \<Rightarrow> autonat_error + unit" where
  "autonat_enforce_max_size buf =
     (if AUTONAT_MAX_MESSAGE_SIZE < length buf then Err (AnMessageTooLarge (length buf)) else Ok ())"

definition decode_addrs :: "'mh multihash_api \<Rightarrow> bytes list \<Rightarrow> 'mh multiaddr list" where
  "decode_addrs M raw = List.map_filter (\<lambda>bs. result_ok (multiaddr_from_bytes M bs)) raw"

text \<open>
  The first half of both \<open>try_decode_\<dots>\<close> functions: the size check and the frame.  The payload is decoded
  afterwards, when the frame has already been removed from the buffer.
\<close>

definition autonat_next_frame :: "bytes \<Rightarrow> autonat_error + (bytes \<times> nat) option" where
  "autonat_next_frame buf =
     and_then (autonat_enforce_max_size buf) (\<lambda>_.
       case autonat_decode_frame buf of
         FrameComplete payload consumed \<Rightarrow> Ok (Some (payload, consumed))
       | FrameIncomplete \<Rightarrow> Ok None
       | FrameTooLarge len \<Rightarrow> Err (AnFrameTooLarge len)
       | FrameError e \<Rightarrow> Err (AnVarint e))"

subsection \<open>\<open>AutoNatClient\<close>\<close>

definition autonat_client_new ::
  "'mh multihash_api \<Rightarrow> 'mh peer_id \<Rightarrow> 'mh multiaddr list \<Rightarrow> 'mh autonat_client" where
  "autonat_client_new M peer addrs =
     (let info = \<lparr>pi_id = peer_id_to_bytes M peer, pi_addrs = map (multiaddr_to_bytes M) addrs\<rparr>;
          msg = \<lparr>am_kind = AnDial, am_dial = Some \<lparr>dl_peer = Some info\<rparr>, am_dial_response = None\<rparr>
      in \<lparr>ac_outbound = encode_frame (autonat_message_encode msg), ac_recv_buf = [], ac_state = AfPending,
          ac_outcome = None, ac_emitted = False\<rparr>)"

definition ac_take_outbound :: "'mh autonat_client \<Rightarrow> bytes \<times> 'mh autonat_client" where
  "ac_take_outbound s =
     (ac_outbound s,
      s\<lparr>ac_outbound := [],
        ac_state := (if ac_state s = AfPending then AfAwaitingResponse else ac_state s)\<rparr>)"

definition autonat_reachability :: "'mh multihash_api \<Rightarrow> dial_response \<Rightarrow> 'mh reachability" where
  "autonat_reachability M response =
     (let reason = (case ds_status_text response of None \<Rightarrow> [] | Some t \<Rightarrow> t);
          raw_addrs = ds_addrs response
      in case ds_status response of
           RsOk \<Rightarrow> RcPublic (decode_addrs M raw_addrs) raw_addrs
         | RsDialError \<Rightarrow> RcPrivate RsDialError reason
         | RsDialRefused \<Rightarrow> RcPrivate RsDialRefused reason
         | RsBadRequest \<Rightarrow> RcUnknown RsBadRequest reason
         | RsInternalError \<Rightarrow> RcUnknown RsInternalError reason)"

definition ac_try_decode_response ::
  "'mh multihash_api \<Rightarrow> 'mh autonat_client \<Rightarrow> 'mh autonat_client \<times> (autonat_error + unit)" where
  "ac_try_decode_response M s =
     (case autonat_next_frame (ac_recv_buf s) of
        Inl e \<Rightarrow> (s, Err e)
      | Inr None \<Rightarrow> (s, Ok ())
      | Inr (Some (payload, consumed)) \<Rightarrow>
          let s = s\<lparr>ac_recv_buf := drop consumed (ac_recv_buf s)\<rparr>
          in case autonat_message_decode payload of
               Inl e \<Rightarrow> (s, Err e)
             | Inr msg \<Rightarrow>
                 if am_kind msg \<noteq> AnDialResponse
                 then (s\<lparr>ac_state := AfDone\<rparr>, Err (AnUnexpectedMessage (lit ''expected DIAL_RESPONSE'')))
                 else (case am_dial_response msg of
                     None \<Rightarrow> (s, Err (AnMissingField (lit ''dial_response'')))
                   | Some response \<Rightarrow>
                       (s\<lparr>ac_state := AfDone, ac_outcome := Some (autonat_reachability M response)\<rparr>, Ok ())))"

definition ac_on_data ::
  "'mh multihash_api \<Rightarrow> bytes \<Rightarrow> 'mh autonat_client \<Rightarrow> 'mh autonat_client \<times> (autonat_error + unit)" where
  "ac_on_data M data s =
     (if ac_state s = AfDone then (s, Ok ())
      else ac_try_decode_response M (s\<lparr>ac_recv_buf := ac_recv_buf s @ data\<rparr>))"

fun ac_handle_input ::
  "'mh multihash_api \<Rightarrow> autonat_client_input \<Rightarrow> 'mh autonat_client \<Rightarrow>
     ('mh autonat_client \<times> (autonat_error + unit)) option" where
  "ac_handle_input M AcFlush s = Some (s, Ok ())"
| "ac_handle_input M (AcData data) s = Some (ac_on_data M data s)"

definition ac_poll_output :: "'mh autonat_client \<Rightarrow> 'mh autonat_client_output option \<times> 'mh autonat_client" where
  "ac_poll_output s =
     (let (outbound, s) = ac_take_outbound s
      in if outbound \<noteq> [] then (Some (AcOutbound outbound), s)
         else if \<not> ac_emitted s
         then (case ac_outcome s of
             Some outcome \<Rightarrow> (Some (AcOutcome outcome), s\<lparr>ac_emitted := True\<rparr>)
           | None \<Rightarrow> (None, s))
         else (None, s))"

definition ac_is_idle :: "'mh autonat_client \<Rightarrow> bool" where
  "ac_is_idle s \<longleftrightarrow> ac_outbound s = [] \<and> (ac_emitted s \<or> ac_outcome s = None)"

subsection \<open>\<open>AutoNatServer\<close>\<close>

definition autonat_server_new :: "'mh autonat_server" where
  "autonat_server_new = \<lparr>av_outbound = [], av_recv_buf = [], av_request = None, av_emitted = False,
     av_state = AvAwaitingRequest\<rparr>"

definition av_respond ::
  "'mh multihash_api \<Rightarrow> response_status \<Rightarrow> rstr option \<Rightarrow> 'mh multiaddr list \<Rightarrow>
     'mh autonat_server \<Rightarrow> 'mh autonat_server" where
  "av_respond M status status_text addrs s =
     (let msg = \<lparr>am_kind = AnDialResponse, am_dial = None, am_dial_response =
            Some \<lparr>ds_status = status, ds_status_text = status_text, ds_addrs = map (multiaddr_to_bytes M) addrs\<rparr>\<rparr>
      in s\<lparr>av_outbound := encode_frame (autonat_message_encode msg), av_state := AvDone\<rparr>)"

definition av_respond_public ::
  "'mh multihash_api \<Rightarrow> 'mh multiaddr list \<Rightarrow> 'mh autonat_server \<Rightarrow> 'mh autonat_server" where
  "av_respond_public M addrs s = av_respond M RsOk None addrs s"

definition av_respond_error ::
  "'mh multihash_api \<Rightarrow> response_status \<Rightarrow> rstr \<Rightarrow> 'mh autonat_server \<Rightarrow> 'mh autonat_server" where
  "av_respond_error M status reason s = av_respond M status (Some reason) [] s"

definition av_try_decode_request ::
  "'mh multihash_api \<Rightarrow> 'mh autonat_server \<Rightarrow> 'mh autonat_server \<times> (autonat_error + unit)" where
  "av_try_decode_request M s =
     (case autonat_next_frame (av_recv_buf s) of
        Inl e \<Rightarrow> (s, Err e)
      | Inr None \<Rightarrow> (s, Ok ())
      | Inr (Some (payload, consumed)) \<Rightarrow>
          let s = s\<lparr>av_recv_buf := drop consumed (av_recv_buf s)\<rparr>
          in case autonat_message_decode payload of
               Inl e \<Rightarrow> (s, Err e)
             | Inr msg \<Rightarrow>
                 if am_kind msg \<noteq> AnDial
                 then (s\<lparr>av_state := AvDone\<rparr>, Err (AnUnexpectedMessage (lit ''expected DIAL'')))
                 else
                   (case
                      and_then (ok_or (AnMissingField (lit ''dial'')) (am_dial msg)) (\<lambda>dial.
                      and_then (ok_or (AnMissingField (lit ''dial.peer'')) (dl_peer dial)) (\<lambda>peer.
                      and_then (map_err (\<lambda>e. AnInvalidPeerId (show_peer_id_error e))
                          (peer_id_from_bytes M (pi_id peer))) (\<lambda>peer_id.
                      Ok \<lparr>aq_peer_id = peer_id, aq_addrs = decode_addrs M (pi_addrs peer),
                          aq_raw_addrs = pi_addrs peer\<rparr>)))
                    of Inl e \<Rightarrow> (s, Err e)
                     | Inr request \<Rightarrow>
                         (s\<lparr>av_request := Some request, av_emitted := False, av_state := AvRequestReady\<rparr>, Ok ())))"

definition av_on_data ::
  "'mh multihash_api \<Rightarrow> bytes \<Rightarrow> 'mh autonat_server \<Rightarrow> 'mh autonat_server \<times> (autonat_error + unit)" where
  "av_on_data M data s =
     (if av_state s \<noteq> AvAwaitingRequest then (s, Ok ())
      else av_try_decode_request M (s\<lparr>av_recv_buf := av_recv_buf s @ data\<rparr>))"

fun av_handle_input ::
  "'mh multihash_api \<Rightarrow> 'mh autonat_server_input \<Rightarrow> 'mh autonat_server \<Rightarrow>
     ('mh autonat_server \<times> (autonat_error + unit)) option" where
  "av_handle_input M (AsData data) s = Some (av_on_data M data s)"
| "av_handle_input M (AsRespondPublic addrs) s = Some (av_respond_public M addrs s, Ok ())"
| "av_handle_input M (AsRespondError status reason) s = Some (av_respond_error M status reason s, Ok ())"
| "av_handle_input M AsFlush s = Some (s, Ok ())"

definition av_poll_output :: "'mh autonat_server \<Rightarrow> 'mh autonat_server_output option \<times> 'mh autonat_server" where
  "av_poll_output s =
     (let rest =
          (if av_outbound s \<noteq> [] then (Some (AsOutbound (av_outbound s)), s\<lparr>av_outbound := []\<rparr>)
           else (None, s\<lparr>av_outbound := []\<rparr>))
      in if \<not> av_emitted s
         then (case av_request s of
             Some request \<Rightarrow> (Some (AsRequest request), s\<lparr>av_emitted := True\<rparr>)
           | None \<Rightarrow> rest)
         else rest)"

definition av_is_idle :: "'mh autonat_server \<Rightarrow> bool" where
  "av_is_idle s \<longleftrightarrow> av_outbound s = [] \<and> (av_emitted s \<or> av_request s = None)"

interpretation autonat_client: sans_io_protocol "ac_handle_input M" ac_poll_output ac_is_idle
  "\<lambda>s. length (ac_outbound s) + (if ac_emitted s \<or> ac_outcome s = None then 0 else 1)" "\<lambda>s. True" for M
  by unfold_locales
    (auto simp: ac_poll_output_def ac_take_outbound_def ac_is_idle_def Let_def split: if_splits option.splits)

interpretation autonat_server: sans_io_protocol "av_handle_input M" av_poll_output av_is_idle
  "\<lambda>s. length (av_outbound s) + (if av_emitted s \<or> av_request s = None then 0 else 1)" "\<lambda>s. True" for M
  by unfold_locales
    (auto simp: av_poll_output_def av_is_idle_def Let_def split: if_splits option.splits)

section \<open>A probe, from the client's request to its outcome\<close>

definition autonat_wire :: "autonat_message \<Rightarrow> bytes" where
  "autonat_wire m = encode_frame (autonat_message_encode m)"

definition autonat_small :: "autonat_message \<Rightarrow> bool" where
  "autonat_small m \<longleftrightarrow> autonat_message_ok m \<and> length (autonat_wire m) \<le> AUTONAT_MAX_MESSAGE_SIZE"

lemma autonat_small_fits: "autonat_small m \<Longrightarrow> length (autonat_message_encode m) \<le> AUTONAT_MAX_MESSAGE_SIZE"
  by (simp add: autonat_small_def autonat_wire_def length_encode_frame)

lemma autonat_next_frame_part:
  assumes "autonat_small m" and "buf @ rest = autonat_wire m" and "rest \<noteq> []"
  shows "autonat_next_frame buf = Ok None"
proof -
  have buf: "buf = take (length buf) (autonat_wire m)" and len: "length buf < length (autonat_wire m)"
    using assms(3) by (simp_all flip: assms(2))
  then have "autonat_decode_frame buf = FrameIncomplete"
    using autonat_frame.decode_prefix [OF autonat_small_fits [OF assms(1)]]
    unfolding autonat_wire_def by (metis option.inject)
  then show ?thesis
    using assms(1) len by (simp add: autonat_next_frame_def autonat_enforce_max_size_def autonat_small_def)
qed

lemma autonat_next_frame_whole:
  assumes "autonat_small m"
  shows "autonat_next_frame (autonat_wire m) = Ok (Some (autonat_message_encode m, length (autonat_wire m)))"
  using assms autonat_frame.decode_whole [OF autonat_small_fits [OF assms]]
  by (simp add: autonat_next_frame_def autonat_enforce_max_size_def autonat_small_def autonat_wire_def)

lemma autonat_small_decode: "autonat_small m \<Longrightarrow> autonat_message_decode (autonat_message_encode m) = Ok m"
  by (simp add: autonat_small_def autonat_decode_encode)

lemma ac_feed_response:
  assumes "autonat_small m" and "am_kind m = AnDialResponse" and "am_dial_response m = Some r"
    and "ac_state s \<noteq> AfDone" and "ac_recv_buf s = []" and "splits cs (autonat_wire m)"
  shows "feed (\<lambda>c. ac_handle_input M (AcData c)) cs s =
    Some (s\<lparr>ac_state := AfDone, ac_outcome := Some (autonat_reachability M r)\<rparr>)"
proof -
  let ?wait = "\<lambda>b. s\<lparr>ac_recv_buf := b\<rparr>"
  have s: "?wait [] = s"
    using assms(5) by simp
  have "feed (\<lambda>c. ac_handle_input M (AcData c)) cs (?wait []) =
    Some (s\<lparr>ac_state := AfDone, ac_outcome := Some (autonat_reachability M r)\<rparr>)"
  proof (rule feed_splits [where wait = ?wait, OF assms(6)])
    fix b c rest :: bytes
    assume "b @ c @ rest = autonat_wire m" "rest \<noteq> []"
    then show "ac_handle_input M (AcData c) (?wait b) = Some (?wait (b @ c), Ok ())"
      using assms(4) autonat_next_frame_part [OF assms(1), of "b @ c" rest]
      by (simp add: ac_on_data_def ac_try_decode_response_def)
  next
    fix b c :: bytes
    assume "b @ c = autonat_wire m"
    then show "ac_handle_input M (AcData c) (?wait b) =
        Some (s\<lparr>ac_state := AfDone, ac_outcome := Some (autonat_reachability M r)\<rparr>, Ok ())"
      using assms(2-4) autonat_next_frame_whole [OF assms(1)] autonat_small_decode [OF assms(1)] s
      by (simp add: ac_on_data_def ac_try_decode_response_def Let_def)
  qed
  then show ?thesis
    unfolding s .
qed

lemma av_feed_request:
  assumes "autonat_small m" and "am_kind m = AnDial" and "am_dial m = Some \<lparr>dl_peer = Some p\<rparr>"
    and "peer_id_from_bytes M (pi_id p) = Ok peer"
    and "av_state s = AvAwaitingRequest" and "av_recv_buf s = []" and "splits cs (autonat_wire m)"
  shows "feed (\<lambda>c. av_handle_input M (AsData c)) cs s =
    Some (s\<lparr>av_request := Some \<lparr>aq_peer_id = peer, aq_addrs = decode_addrs M (pi_addrs p),
              aq_raw_addrs = pi_addrs p\<rparr>, av_emitted := False, av_state := AvRequestReady\<rparr>)" (is "_ = Some ?s'")
proof -
  let ?wait = "\<lambda>b. s\<lparr>av_recv_buf := b\<rparr>"
  have s: "?wait [] = s"
    using assms(6) by simp
  have "feed (\<lambda>c. av_handle_input M (AsData c)) cs (?wait []) = Some ?s'"
  proof (rule feed_splits [where wait = ?wait, OF assms(7)])
    fix b c rest :: bytes
    assume "b @ c @ rest = autonat_wire m" "rest \<noteq> []"
    then show "av_handle_input M (AsData c) (?wait b) = Some (?wait (b @ c), Ok ())"
      using assms(5) autonat_next_frame_part [OF assms(1), of "b @ c" rest]
      by (simp add: av_on_data_def av_try_decode_request_def)
  next
    fix b c :: bytes
    assume "b @ c = autonat_wire m"
    then show "av_handle_input M (AsData c) (?wait b) = Some (?s', Ok ())"
      using assms(2-5) autonat_next_frame_whole [OF assms(1)] autonat_small_decode [OF assms(1)] s
      by (simp add: av_on_data_def av_try_decode_request_def Let_def)
  qed
  then show ?thesis
    unfolding s .
qed

lemma decode_addrs_own:
  assumes "multihash_laws M" and "list_all (\<lambda>a. list_all (protocol_ok M) (protocols a)) addrs"
  shows "decode_addrs M (map (multiaddr_to_bytes M) addrs) = addrs"
  using assms(2)
  by (induction addrs) (simp_all add: decode_addrs_def List.map_filter_simps
      from_bytes_to_bytes_multiaddr [OF assms(1)])

lemma decode_addrs_Nil: "decode_addrs M [] = []"
  by (simp add: decode_addrs_def List.map_filter_simps)

section \<open>Properties\<close>

text \<open>The messages of a probe.\<close>

definition dial_request :: "'mh multihash_api \<Rightarrow> 'mh peer_id \<Rightarrow> 'mh multiaddr list \<Rightarrow> autonat_message" where
  "dial_request M peer addrs = \<lparr>am_kind = AnDial, am_dial = Some \<lparr>dl_peer =
     Some \<lparr>pi_id = peer_id_to_bytes M peer, pi_addrs = map (multiaddr_to_bytes M) addrs\<rparr>\<rparr>, am_dial_response = None\<rparr>"

definition dial_answer ::
  "'mh multihash_api \<Rightarrow> response_status \<Rightarrow> rstr option \<Rightarrow> 'mh multiaddr list \<Rightarrow> autonat_message" where
  "dial_answer M status reason addrs = \<lparr>am_kind = AnDialResponse, am_dial = None, am_dial_response =
     Some \<lparr>ds_status = status, ds_status_text = reason, ds_addrs = map (multiaddr_to_bytes M) addrs\<rparr>\<rparr>"

text \<open>What the client is to conclude from each answer of the server's host.\<close>

fun probe_answer ::
  "'mh multihash_api \<Rightarrow> 'mh autonat_server_input \<Rightarrow> (autonat_message \<times> 'mh reachability) option" where
  "probe_answer M (AsRespondPublic B) =
     Some (dial_answer M RsOk None B, RcPublic B (map (multiaddr_to_bytes M) B))"
| "probe_answer M (AsRespondError st reason) =
     Some (dial_answer M st (Some reason) [],
       if st = RsOk then RcPublic [] []
       else if st \<in> {RsDialError, RsDialRefused} then RcPrivate st reason else RcUnknown st reason)"
| "probe_answer M _ = None"

lemma probe_answer_reachability:
  assumes "multihash_laws M" and "probe_answer M i = Some (m, out)"
    and "\<And>B. i = AsRespondPublic B \<Longrightarrow> list_all (\<lambda>a. list_all (protocol_ok M) (protocols a)) B"
  shows "\<exists>r. am_kind m = AnDialResponse \<and> am_dial_response m = Some r \<and> autonat_reachability M r = out"
  using assms(2,3)
  by (cases i) (auto simp: dial_answer_def autonat_reachability_def decode_addrs_own [OF assms(1)]
      decode_addrs_Nil Let_def split: response_status.split)

lemma av_answer:
  assumes "probe_answer M i = Some (m, out)" and "av_emitted s"
  shows "\<exists>s'. av_handle_input M i s = Some (s', Ok ()) \<and>
    av_poll_output s' = (Some (AsOutbound (autonat_wire m)), s'\<lparr>av_outbound := []\<rparr>) \<and>
    av_state s' = AvDone"
  using assms
  by (cases i) (auto simp: av_respond_public_def av_respond_error_def av_respond_def dial_answer_def
      autonat_wire_def av_poll_output_def Let_def)

text \<open>
  An AutoNAT message, with the nested dial request or response, survives its protobuf encoding.
\<close>

theorem autonat_message_roundtrip:
  assumes "autonat_message_ok m"
  shows "autonat_message_decode (autonat_message_encode m) = Ok m"
  using assms by (rule autonat_decode_encode)

text \<open>
  C28. A reachability probe.  The client sends one DIAL frame; the server, given it in any pieces,
  reports exactly the client's peer id and addresses; when the server's host answers, the server
  sends one frame, and the client, given it in any pieces, reports once what the answer says:
  public with the server's addresses, private for a failed or refused dial, unknown otherwise.
\<close>

theorem autonat_probe:
  assumes "multihash_laws M" and "peer_id_ok M peer"
    and "list_all (\<lambda>a. list_all (protocol_ok M) (protocols a)) A"
    and "\<And>B. i = AsRespondPublic B \<Longrightarrow> list_all (\<lambda>a. list_all (protocol_ok M) (protocols a)) B"
    and "autonat_small (dial_request M peer A)"
    and "probe_answer M i = Some (answer, out)" and "autonat_small answer"
    and "splits cs (autonat_wire (dial_request M peer A))" and "splits ds (autonat_wire answer)"
  shows "\<exists>c0 v1 v2 v3 v4 c1 c2.
    ac_poll_output (autonat_client_new M peer A) =
      (Some (AcOutbound (autonat_wire (dial_request M peer A))), c0) \<and>
    feed (\<lambda>c. av_handle_input M (AsData c)) cs autonat_server_new = Some v1 \<and>
    drain 2 av_poll_output v1 = Some ([AsRequest \<lparr>aq_peer_id = peer, aq_addrs = A,
      aq_raw_addrs = map (multiaddr_to_bytes M) A\<rparr>], v2) \<and>
    av_handle_input M i v2 = Some (v3, Ok ()) \<and>
    drain 2 av_poll_output v3 = Some ([AsOutbound (autonat_wire answer)], v4) \<and>
    feed (\<lambda>c. ac_handle_input M (AcData c)) ds c0 = Some c1 \<and>
    drain 2 ac_poll_output c1 = Some ([AcOutcome out], c2) \<and> ac_is_idle c2"
proof -
  let ?req = "dial_request M peer A"
  have nonempty [simp]: "autonat_wire m \<noteq> []" for m
    by (simp add: autonat_wire_def)
  define c0 where "c0 = (autonat_client_new M peer A)\<lparr>ac_outbound := [], ac_state := AfAwaitingResponse\<rparr>"
  have poll0: "ac_poll_output (autonat_client_new M peer A) = (Some (AcOutbound (autonat_wire ?req)), c0)"
    by (simp add: ac_poll_output_def ac_take_outbound_def autonat_client_new_def c0_def dial_request_def
        autonat_wire_def Let_def)
  define v1 :: "'a autonat_server" where "v1 = autonat_server_new\<lparr>av_request := Some \<lparr>aq_peer_id = peer,
      aq_addrs = A, aq_raw_addrs = map (multiaddr_to_bytes M) A\<rparr>, av_emitted := False, av_state := AvRequestReady\<rparr>"
  have v1: "feed (\<lambda>c. av_handle_input M (AsData c)) cs autonat_server_new = Some v1"
    using av_feed_request [OF assms(5) _ _ _ _ _ assms(8), of _ M peer autonat_server_new] assms(2,3)
    by (simp add: dial_request_def autonat_server_new_def v1_def from_bytes_to_bytes [OF assms(1)]
        decode_addrs_own [OF assms(1)])
  let ?v2 = "v1\<lparr>av_outbound := [], av_emitted := True\<rparr>"
  have d1: "drain 2 av_poll_output v1 = Some ([AsRequest \<lparr>aq_peer_id = peer, aq_addrs = A,
      aq_raw_addrs = map (multiaddr_to_bytes M) A\<rparr>], ?v2)"
    by (simp add: numeral_2_eq_2 av_poll_output_def v1_def autonat_server_new_def)
  obtain v3 where v3: "av_handle_input M i ?v2 = Some (v3, Ok ())"
    "av_poll_output v3 = (Some (AsOutbound (autonat_wire answer)), v3\<lparr>av_outbound := []\<rparr>)"
    using av_answer [OF assms(6), of ?v2] by auto
  have "av_emitted v3"
    using v3(1) assms(6) by (cases i) (auto simp: av_respond_public_def av_respond_error_def av_respond_def Let_def)
  then have d2: "drain 2 av_poll_output v3 = Some ([AsOutbound (autonat_wire answer)], v3\<lparr>av_outbound := []\<rparr>)"
    using v3(2) by (simp add: numeral_2_eq_2 av_poll_output_def)
  obtain r where r: "am_kind answer = AnDialResponse" "am_dial_response answer = Some r"
    "autonat_reachability M r = out"
    using probe_answer_reachability [OF assms(1,6,4)] by blast
  define c1 where "c1 = c0\<lparr>ac_state := AfDone, ac_outcome := Some out\<rparr>"
  have c1: "feed (\<lambda>c. ac_handle_input M (AcData c)) ds c0 = Some c1"
    using ac_feed_response [OF assms(7) r(1,2) _ _ assms(9), of c0 M]
    by (simp add: r(3) c0_def c1_def autonat_client_new_def Let_def)
  let ?c2 = "c1\<lparr>ac_emitted := True\<rparr>"
  have d3: "drain 2 ac_poll_output c1 = Some ([AcOutcome out], ?c2)"
    by (simp add: numeral_2_eq_2 ac_poll_output_def ac_take_outbound_def c0_def c1_def autonat_client_new_def Let_def)
  have "ac_is_idle ?c2"
    by (simp add: ac_is_idle_def c0_def c1_def)
  then show ?thesis
    using poll0 v1 d1 v3(1) d2 c1 d3 by blast
qed

theorem autonat_probe_witness:
  "\<exists>c0 v1 v2 v3 v4 c1 c2.
    ac_poll_output (autonat_client_new mh64_api (PeerId (Abs_mh64 (0, [8, 1, 18, 0])))
        [Multiaddr [Ip4 [10, 0, 0, 1], Udp 4001, QuicV1]]) = (Some (AcOutbound (autonat_wire
          (dial_request mh64_api (PeerId (Abs_mh64 (0, [8, 1, 18, 0]))) [Multiaddr [Ip4 [10, 0, 0, 1], Udp 4001, QuicV1]]))), c0) \<and>
    feed (\<lambda>c. av_handle_input mh64_api (AsData c)) [autonat_wire
      (dial_request mh64_api (PeerId (Abs_mh64 (0, [8, 1, 18, 0]))) [Multiaddr [Ip4 [10, 0, 0, 1], Udp 4001, QuicV1]])]
      autonat_server_new = Some v1 \<and>
    drain 2 av_poll_output v1 = Some (v2, v3) \<and>
    av_handle_input mh64_api (AsRespondError RsDialRefused (lit ''no'')) v3 = Some (v4, Ok ()) \<and>
    feed (\<lambda>c. ac_handle_input mh64_api (AcData c))
      [autonat_wire (dial_answer mh64_api RsDialRefused (Some (lit ''no'')) [])] c0 = Some c1 \<and>
    drain 2 ac_poll_output c1 = Some ([AcOutcome (RcPrivate RsDialRefused (lit ''no''))], c2)"
proof -
  let ?p = "PeerId (Abs_mh64 (0, [8, 1, 18, 0]))" and ?A = "[Multiaddr [Ip4 [10, 0, 0, 1], Udp 4001, QuicV1]]"
  have cut: "splits [w] w" if "w \<noteq> []" for w
    using that by (auto simp: splits_def)
  have ne: "autonat_wire m \<noteq> []" for m
    by (simp add: autonat_wire_def)
  have ok: "peer_id_ok mh64_api ?p"
    by (simp add: peer_id_ok_def mh64_api_def mh64_rep SHA256_MULTIHASH_CODE_def)
  have A: "list_all (\<lambda>a. list_all (protocol_ok mh64_api) (protocols a)) ?A"
    by simp
  have B: "list_all (\<lambda>a. list_all (protocol_ok mh64_api) (protocols a)) B"
    if "AsRespondError RsDialRefused (lit ''no'') = AsRespondPublic B" for B
    using that by simp
  have i: "probe_answer mh64_api (AsRespondError RsDialRefused (lit ''no'')) =
      Some (dial_answer mh64_api RsDialRefused (Some (lit ''no'')) [], RcPrivate RsDialRefused (lit ''no''))"
    by simp
  have small: "autonat_small (dial_request mh64_api ?p ?A)"
    "autonat_small (dial_answer mh64_api RsDialRefused (Some (lit ''no'')) [])"
    by (simp_all add: autonat_small_def autonat_message_ok_def autonat_wire_def length_encode_frame
        dial_request_def dial_answer_def autonat_encode_fields autonat_fields_defs field_bytes_def peer_id_to_bytes_def
        mh64_api_def mh64_rep multiaddr_to_bytes_eq write_binary_simps protocol_codes
        uvarint_len_rec vec_ok_def lit_def AUTONAT_MAX_MESSAGE_SIZE_def)
  show ?thesis
    using autonat_probe [OF mh64_laws ok A B small(1) i small(2) cut [OF ne] cut [OF ne]] by blast
qed

end
