(* ===== verification/Transport.thy ===== *)
theory Transport
  imports Multiaddr Ids
begin

text \<open>
  The interface between a transport and its host, \<open>crates/transport/src\<close>: connection endpoints, the
  events, errors and actions, the methods of the \<open>Transport\<close> trait, and the text form of identifiers and
  errors.
\<close>

definition show_stream_id :: "stream_id \<Rightarrow> rstr" where
  "show_stream_id sid = show_nat (unat (stream_u64 sid))"

definition show_connection_id :: "connection_id \<Rightarrow> rstr" where
  "show_connection_id c = show_nat (unat (connection_u64 c))"

record 'mh connection_endpoint =
  ep_transport :: "'mh multiaddr"
  ep_peer_id :: "'mh peer_id option"

definition endpoint_new :: "'mh multiaddr \<Rightarrow> 'mh connection_endpoint" where
  "endpoint_new a = \<lparr>ep_transport = a, ep_peer_id = None\<rparr>"

definition endpoint_with_peer_id :: "'mh multiaddr \<Rightarrow> 'mh peer_id \<Rightarrow> 'mh connection_endpoint" where
  "endpoint_with_peer_id a p = \<lparr>ep_transport = a, ep_peer_id = Some p\<rparr>"

definition endpoint_from_peer_addr :: "'mh peer_addr \<Rightarrow> 'mh connection_endpoint" where
  "endpoint_from_peer_addr pa = endpoint_with_peer_id (pa_transport pa) (pa_peer_id pa)"

definition endpoint_set_peer_id :: "'mh peer_id \<Rightarrow> 'mh connection_endpoint \<Rightarrow> 'mh connection_endpoint" where
  "endpoint_set_peer_id p e = e\<lparr>ep_peer_id := Some p\<rparr>"

definition endpoint_clear_peer_id :: "'mh connection_endpoint \<Rightarrow> 'mh connection_endpoint" where
  "endpoint_clear_peer_id e = e\<lparr>ep_peer_id := None\<rparr>"

definition endpoint_to_peer_addr :: "'mh connection_endpoint \<Rightarrow> 'mh peer_addr option" where
  "endpoint_to_peer_addr e =
     (case ep_peer_id e of
        None \<Rightarrow> None
      | Some p \<Rightarrow> result_ok (peer_addr_new (ep_transport e) p))"

definition endpoint_into_parts :: "'mh connection_endpoint \<Rightarrow> 'mh multiaddr \<times> 'mh peer_id option" where
  "endpoint_into_parts e = (ep_transport e, ep_peer_id e)"

datatype 'mh transport_event =
    TeConnected connection_id "'mh connection_endpoint"
  | TeStreamOpened connection_id stream_id
  | TeIncomingStream connection_id stream_id
  | TeStreamData connection_id stream_id bytes
  | TeStreamRemoteWriteClosed connection_id stream_id
  | TeStreamClosed connection_id stream_id
  | TeClosed connection_id
  | TeError connection_id rstr
  | TeIncomingConnection connection_id "'mh connection_endpoint"
  | TePeerIdentityVerified connection_id "'mh connection_endpoint" "'mh peer_id option"
  | TeListening "'mh multiaddr"

section \<open>Errors and commands\<close>

datatype connection_state = CsConnecting | CsConnected | CsClosing | CsClosed

fun show_connection_state :: "connection_state \<Rightarrow> rstr" where
  "show_connection_state CsConnecting = lit ''connecting''"
| "show_connection_state CsConnected = lit ''connected''"
| "show_connection_state CsClosing = lit ''closing''"
| "show_connection_state CsClosed = lit ''closed''"

datatype transport_error =
    TrInvalidAddress rstr rstr
  | TrInvalidConfig rstr
  | TrResourceExhausted rstr
  | TrConnectionNotFound connection_id
  | TrInvalidState connection_id connection_state connection_state
  | TrNotListening
  | TrListenFailed rstr
  | TrDialFailed connection_id rstr
  | TrStreamNotFound connection_id stream_id
  | TrStreamExists connection_id stream_id
  | TrOpenStreamFailed connection_id rstr
  | TrStreamSendFailed connection_id stream_id rstr
  | TrStreamCloseWriteFailed connection_id stream_id rstr
  | TrStreamResetFailed connection_id stream_id rstr
  | TrCloseFailed connection_id rstr
  | TrPollError rstr

fun show_transport_error :: "transport_error \<Rightarrow> rstr" where
  "show_transport_error (TrInvalidAddress ctxt reason) = lit ''invalid address for '' @ ctxt @ lit '': '' @ reason"
| "show_transport_error (TrInvalidConfig reason) = lit ''invalid transport configuration: '' @ reason"
| "show_transport_error (TrResourceExhausted resource) = lit ''resource exhausted: '' @ resource"
| "show_transport_error (TrConnectionNotFound c) = lit ''connection '' @ show_connection_id c @ lit '' not found''"
| "show_transport_error (TrInvalidState c state expected) =
     lit ''connection '' @ show_connection_id c @ lit '' is '' @ show_connection_state state @
     lit '', expected '' @ show_connection_state expected"
| "show_transport_error TrNotListening = lit ''not listening on any address''"
| "show_transport_error (TrListenFailed reason) = lit ''listen failed: '' @ reason"
| "show_transport_error (TrDialFailed c reason) = lit ''dial failed for '' @ show_connection_id c @ lit '': '' @ reason"
| "show_transport_error (TrStreamNotFound c sid) =
     lit ''stream '' @ show_stream_id sid @ lit '' not found on connection '' @ show_connection_id c"
| "show_transport_error (TrStreamExists c sid) =
     lit ''stream '' @ show_stream_id sid @ lit '' already exists on connection '' @ show_connection_id c"
| "show_transport_error (TrOpenStreamFailed c reason) =
     lit ''failed to open stream on '' @ show_connection_id c @ lit '': '' @ reason"
| "show_transport_error (TrStreamSendFailed c sid reason) =
     lit ''stream send failed for '' @ show_connection_id c @ lit ''/'' @ show_stream_id sid @ lit '': '' @ reason"
| "show_transport_error (TrStreamCloseWriteFailed c sid reason) =
     lit ''stream close write failed for '' @ show_connection_id c @ lit ''/'' @ show_stream_id sid @ lit '': '' @ reason"
| "show_transport_error (TrStreamResetFailed c sid reason) =
     lit ''stream reset failed for '' @ show_connection_id c @ lit ''/'' @ show_stream_id sid @ lit '': '' @ reason"
| "show_transport_error (TrCloseFailed c reason) = lit ''close failed for '' @ show_connection_id c @ lit '': '' @ reason"
| "show_transport_error (TrPollError reason) = lit ''poll error: '' @ reason"

datatype 'mh transport_action =
    TaDial connection_id "'mh peer_addr"
  | TaListen "'mh multiaddr"
  | TaOpenStream connection_id
  | TaSendStream connection_id stream_id bytes
  | TaCloseStreamWrite connection_id stream_id
  | TaResetStream connection_id stream_id
  | TaClose connection_id

section \<open>The trait\<close>

text \<open>
  The methods of a transport; \<open>'t\<close> is the state of the transport.  An implementation is a value of this
  type, with the defaults of the trait for the last four methods in \<open>transport_defaults\<close>.
\<close>

record ('t, 'mh) transport =
  tr_dial :: "'mh peer_addr \<Rightarrow> 't \<Rightarrow> 't \<times> (transport_error + connection_id)"
  tr_listen :: "'mh multiaddr \<Rightarrow> 't \<Rightarrow> 't \<times> (transport_error + 'mh multiaddr)"
  tr_open_stream :: "connection_id \<Rightarrow> 't \<Rightarrow> 't \<times> (transport_error + stream_id)"
  tr_send_stream :: "connection_id \<Rightarrow> stream_id \<Rightarrow> bytes \<Rightarrow> 't \<Rightarrow> 't \<times> (transport_error + unit)"
  tr_close_stream_write :: "connection_id \<Rightarrow> stream_id \<Rightarrow> 't \<Rightarrow> 't \<times> (transport_error + unit)"
  tr_reset_stream :: "connection_id \<Rightarrow> stream_id \<Rightarrow> 't \<Rightarrow> 't \<times> (transport_error + unit)"
  tr_close :: "connection_id \<Rightarrow> 't \<Rightarrow> 't \<times> (transport_error + unit)"
  tr_poll :: "'t \<Rightarrow> 't \<times> (transport_error + 'mh transport_event list)"
  tr_local_addresses :: "'t \<Rightarrow> 'mh multiaddr list"
  tr_active_connection_count :: "'t \<Rightarrow> nat"
  tr_active_connection_sources :: "'t \<Rightarrow> 'mh multiaddr list"
  tr_active_inbound_connection_sources :: "'t \<Rightarrow> 'mh multiaddr list"

definition transport_defaults :: "('t, 'mh) transport \<Rightarrow> ('t, 'mh) transport" where
  "transport_defaults T =
     T\<lparr>tr_local_addresses := \<lambda>_. [], tr_active_connection_count := \<lambda>_. 0,
       tr_active_connection_sources := \<lambda>_. [], tr_active_inbound_connection_sources := \<lambda>_. []\<rparr>"

end
