(* ===== verification/Swarm.thy ===== *)
theory Swarm
  imports Ping Identify Multistream Transport "HOL-Library.Product_Lexorder" "HOL-Library.Monad_Syntax"
begin

text \<open>
  The core of the swarm, \<open>crates/swarm/src/{events,core}.rs\<close>: the state machine between a transport
  and the protocols.  It tracks connections and the peers behind them, negotiates the protocol of
  every stream with multistream-select, hands the bytes of negotiated streams to ping, identify or
  the application, and turns the outputs of the protocols into actions for the driver and events for
  the application.

  An operation returns \<open>None\<close> when it panics: the \<open>debug_assert_eq!\<close> of
  \<open>queue_open_protocol_stream\<close>, the \<open>expect\<close>s inside the protocols, and the \<open>expect\<close> of the multihash
  constructor behind synthetic peer ids.  \<open>M\<close> is the multihash container and \<open>H\<close> is SHA-256.
\<close>

section \<open>Events, actions and errors\<close>

datatype swarm_error_kind =
    SkTransport
  | SkMultistream
  | SkIdentify
  | SkPing
  | SkUserProtocol rstr
  | SkIdentifyStreamRejected
  | SkOpenStreamFailed
  | SkUnsupportedProtocol
  | SkDriver

record 'mh swarm_runtime_error =
  se_kind :: swarm_error_kind
  se_peer_id :: "'mh peer_id option"
  se_conn_id :: "connection_id option"
  se_detail :: rstr

datatype 'mh swarm_event =
    SwConnectionEstablished "'mh peer_id"
  | SwConnectionClosed "'mh peer_id"
  | SwIdentifyReceived "'mh peer_id" identify_message
  | SwPeerReady "'mh peer_id" "rstr list"
  | SwPingRttMeasured "'mh peer_id" u64
  | SwPingTimeout "'mh peer_id"
  | SwUserStreamReady "'mh peer_id" stream_id rstr bool
  | SwUserStreamData "'mh peer_id" stream_id bytes
  | SwUserStreamRemoteWriteClosed "'mh peer_id" stream_id
  | SwUserStreamClosed "'mh peer_id" stream_id
  | SwError "'mh swarm_runtime_error"

datatype open_stream_token = OpenStreamToken (token_u64: u64)

instantiation open_stream_token :: linorder
begin

definition less_eq_open_stream_token :: "open_stream_token \<Rightarrow> open_stream_token \<Rightarrow> bool" where
  "less_eq_open_stream_token a b \<longleftrightarrow> token_u64 a \<le> token_u64 b"

definition less_open_stream_token :: "open_stream_token \<Rightarrow> open_stream_token \<Rightarrow> bool" where
  "less_open_stream_token a b \<longleftrightarrow> token_u64 a < token_u64 b"

instance
  by standard (auto simp: less_eq_open_stream_token_def less_open_stream_token_def open_stream_token.expand)

end

datatype 'mh swarm_input =
    SiTransport "'mh transport_event" u64
  | SiTick u64
  | SiStreamOpened connection_id stream_id open_stream_token u64
  | SiOpenStreamFailed open_stream_token rstr u64
  | SiRuntimeError "'mh swarm_runtime_error"

datatype swarm_action =
    SaOpenStream connection_id open_stream_token
  | SaSendStream connection_id stream_id bytes
  | SaCloseStreamWrite connection_id stream_id
  | SaResetStream connection_id stream_id
  | SaCloseConnection connection_id

datatype 'mh swarm_output = SwarmAction swarm_action | SwarmEvent "'mh swarm_event"

datatype 'mh swarm_error =
    SwNotConnected "'mh peer_id"
  | SwProtocolNotRegistered rstr
  | SwRemoteDoesNotSupport "'mh peer_id" rstr
  | SwUserStreamNotFound "'mh peer_id" stream_id
  | SwPingError rstr
  | SwIdentifyError rstr

fun show_swarm_error :: "'mh multihash_api \<Rightarrow> 'mh swarm_error \<Rightarrow> rstr" where
  "show_swarm_error M (SwNotConnected p) = lit ''peer '' @ to_base58 M p @ lit '' is not connected''"
| "show_swarm_error M (SwProtocolNotRegistered pid) =
     lit ''user protocol '' @ [39] @ pid @ [39] @ lit '' is not registered''"
| "show_swarm_error M (SwRemoteDoesNotSupport p pid) =
     lit ''peer '' @ to_base58 M p @ lit '' does not support user protocol '' @ [39] @ pid @ [39]"
| "show_swarm_error M (SwUserStreamNotFound p sid) =
     lit ''user stream '' @ show_stream_id sid @ lit '' for peer '' @ to_base58 M p @ lit '' is not active''"
| "show_swarm_error M (SwPingError reason) = lit ''ping error: '' @ reason"
| "show_swarm_error M (SwIdentifyError reason) = lit ''identify error: '' @ reason"

fun show_ping_error :: "'mh multihash_api \<Rightarrow> 'mh peer_id ping_error \<Rightarrow> rstr" where
  "show_ping_error M (PingOutboundStreamExists p sid) =
     lit ''peer '' @ to_base58 M p @ lit '' already has outbound ping stream '' @ show_stream_id sid"
| "show_ping_error M (PingOutboundStreamMissing p) =
     lit ''peer '' @ to_base58 M p @ lit '' has no outbound ping stream''"
| "show_ping_error M (PingAlreadyInFlight p sid) =
     lit ''peer '' @ to_base58 M p @ lit '' already has ping request in flight on stream '' @ show_stream_id sid"
| "show_ping_error M (PingInvalidPayloadLength n) =
     lit ''invalid ping payload length '' @ show_nat n @ lit ''; expected '' @ show_nat PING_PAYLOAD_LEN"

fun show_identify_error :: "'mh multihash_api \<Rightarrow> 'mh peer_id identify_error \<Rightarrow> rstr" where
  "show_identify_error M (StreamAlreadyRegistered p) =
     lit ''identify stream already registered for peer '' @ to_base58 M p"
| "show_identify_error M (NoOutboundStream p) =
     lit ''no outbound identify stream for peer '' @ to_base58 M p"

section \<open>The state\<close>

definition PING_PROTOCOL_ID :: rstr where
  "PING_PROTOCOL_ID = lit ''/ipfs/ping/1.0.0''"

definition IDENTIFY_PROTOCOL_ID :: rstr where
  "IDENTIFY_PROTOCOL_ID = lit ''/ipfs/id/1.0.0''"

datatype protocol_kind = PkPing | PkIdentifyResponder | PkIdentifyInitiator | PkUser rstr

record pending_outbound =
  po_negotiator :: multistream_select
  po_target :: protocol_kind

record pending_open =
  pn_conn_id :: connection_id
  pn_protocol :: rstr
  pn_target :: protocol_kind

type_synonym stream_key = "connection_id \<times> stream_id"

record 'mh swarm_core =
  sw_ping :: "'mh peer_id ping_protocol"
  sw_identify :: "'mh peer_id identify_protocol"
  conn_to_peer :: "(connection_id, 'mh peer_id) btree_map"
  peer_to_conn :: "('mh peer_id, connection_id) btree_map"
  active_connections :: "(connection_id, bool) btree_map"
  conn_to_remote_addr :: "(connection_id, 'mh multiaddr) btree_map"
  inbound_negotiators :: "(stream_key, multistream_select) btree_map"
  outbound_negotiators :: "(stream_key, pending_outbound) btree_map"
  stream_owner :: "(stream_key, protocol_kind) btree_map"
  pending_opens :: "(open_stream_token, pending_open) btree_map"
  next_token :: u64
  sw_supported :: "rstr list"
  user_protocols :: "rstr list"
  pending_pings :: "('mh peer_id, bytes) btree_map"
  local_addresses :: "'mh multiaddr list"
  sw_peer_info :: "('mh peer_id, identify_message) btree_map"
  ready_peers :: "'mh peer_id btree_set"
  established_peers :: "'mh peer_id btree_set"
  sw_events :: "'mh swarm_event list"
  sw_actions :: "swarm_action list"

definition swarm_new :: "identify_config \<Rightarrow> ping_config \<Rightarrow> 'mh swarm_core" where
  "swarm_new identify_config ping_config =
     \<lparr>sw_ping = ping_new ping_config, sw_identify = identify_new identify_config,
      conn_to_peer = [], peer_to_conn = [], active_connections = [], conn_to_remote_addr = [],
      inbound_negotiators = [], outbound_negotiators = [], stream_owner = [], pending_opens = [],
      next_token = 1, sw_supported = [IDENTIFY_PROTOCOL_ID, PING_PROTOCOL_ID], user_protocols = [],
      pending_pings = [], local_addresses = [], sw_peer_info = [], ready_peers = [],
      established_peers = [], sw_events = [], sw_actions = []\<rparr>"

definition set_local_addresses :: "'mh multiaddr list \<Rightarrow> 'mh swarm_core \<Rightarrow> 'mh swarm_core" where
  "set_local_addresses addrs s = s\<lparr>local_addresses := addrs\<rparr>"

definition add_user_protocol :: "rstr \<Rightarrow> 'mh swarm_core \<Rightarrow> 'mh swarm_core" where
  "add_user_protocol pid s =
     (let s = (if list_ex (\<lambda>p. p = pid) (user_protocols s) then s
               else s\<lparr>user_protocols := user_protocols s @ [pid]\<rparr>);
          s = (if list_ex (\<lambda>p. p = pid) (sw_supported s) then s
               else s\<lparr>sw_supported := sw_supported s @ [pid]\<rparr>)
      in s\<lparr>sw_identify := add_protocol pid (sw_identify s)\<rparr>)"

definition swarm_poll_output :: "'mh swarm_core \<Rightarrow> 'mh swarm_output option \<times> 'mh swarm_core" where
  "swarm_poll_output s =
     (case sw_actions s of
        a # as \<Rightarrow> (Some (SwarmAction a), s\<lparr>sw_actions := as\<rparr>)
      | [] \<Rightarrow>
          (case sw_events s of
             e # es \<Rightarrow> (Some (SwarmEvent e), s\<lparr>sw_events := es\<rparr>)
           | [] \<Rightarrow> (None, s)))"

definition swarm_is_idle :: "'mh swarm_core \<Rightarrow> bool" where
  "swarm_is_idle s \<longleftrightarrow> sw_actions s = [] \<and> sw_events s = []"

definition sw_push_event :: "'mh swarm_event \<Rightarrow> 'mh swarm_core \<Rightarrow> 'mh swarm_core" where
  "sw_push_event e s = s\<lparr>sw_events := sw_events s @ [e]\<rparr>"

definition sw_push_action :: "swarm_action \<Rightarrow> 'mh swarm_core \<Rightarrow> 'mh swarm_core" where
  "sw_push_action a s = s\<lparr>sw_actions := sw_actions s @ [a]\<rparr>"

section \<open>Lookups\<close>

definition conn_for :: "'mh peer_id \<Rightarrow> 'mh swarm_core \<Rightarrow> connection_id option" where
  "conn_for p s = bm_get (peer_to_conn s) p"

definition connected_peers :: "'mh swarm_core \<Rightarrow> 'mh peer_id list" where
  "connected_peers s = established_peers s"

definition swarm_peer_info :: "'mh peer_id \<Rightarrow> 'mh swarm_core \<Rightarrow> identify_message option" where
  "swarm_peer_info p s = bm_get (sw_peer_info s) p"

definition is_peer_ready :: "'mh peer_id \<Rightarrow> 'mh swarm_core \<Rightarrow> bool" where
  "is_peer_ready p s \<longleftrightarrow> p \<in> set (ready_peers s)"

definition peer_for :: "connection_id \<Rightarrow> 'mh swarm_core \<Rightarrow> 'mh peer_id option" where
  "peer_for c s = bm_get (conn_to_peer s) c"

definition require_conn :: "'mh peer_id \<Rightarrow> 'mh swarm_core \<Rightarrow> 'mh swarm_error + connection_id" where
  "require_conn p s = ok_or (SwNotConnected p) (bm_get (peer_to_conn s) p)"

fun is_user_protocol :: "protocol_kind \<Rightarrow> bool" where
  "is_user_protocol (PkUser _) = True"
| "is_user_protocol _ = False"

text \<open>The first stream of the ordered map with this stream id, an owner as wanted, and this peer.\<close>

definition find_owned_stream ::
  "(protocol_kind \<Rightarrow> bool) \<Rightarrow> 'mh peer_id \<Rightarrow> stream_id \<Rightarrow> 'mh swarm_core \<Rightarrow> connection_id option" where
  "find_owned_stream owner p sid s =
     map_option (\<lambda>((c, _), _). c)
       (List.find (\<lambda>((c, sid'), k). sid' = sid \<and> owner k \<and> bm_get (conn_to_peer s) c = Some p)
         (stream_owner s))"

definition require_user_stream_conn ::
  "'mh peer_id \<Rightarrow> stream_id \<Rightarrow> 'mh swarm_core \<Rightarrow> 'mh swarm_error + connection_id" where
  "require_user_stream_conn p sid s =
     ok_or (SwUserStreamNotFound p sid) (find_owned_stream is_user_protocol p sid s)"

definition conn_for_owned_stream ::
  "'mh peer_id \<Rightarrow> stream_id \<Rightarrow> protocol_kind \<Rightarrow> 'mh swarm_core \<Rightarrow> connection_id option" where
  "conn_for_owned_stream p sid expected s = find_owned_stream (\<lambda>k. k = expected) p sid s"

definition established_peer_for_conn :: "connection_id \<Rightarrow> 'mh swarm_core \<Rightarrow> 'mh peer_id option" where
  "established_peer_for_conn c s =
     (case bm_get (conn_to_peer s) c of
        None \<Rightarrow> None
      | Some p \<Rightarrow> if p \<in> set (established_peers s) then Some p else None)"

definition find_negotiated_ping_stream :: "'mh peer_id \<Rightarrow> 'mh swarm_core \<Rightarrow> stream_id option" where
  "find_negotiated_ping_stream p s = Option.bind (bm_get (ping_peers (sw_ping s)) p) outbound_stream"

definition has_pending_ping_stream :: "'mh peer_id \<Rightarrow> 'mh swarm_core \<Rightarrow> bool" where
  "has_pending_ping_stream p s =
     (case bm_get (peer_to_conn s) p of
        None \<Rightarrow> False
      | Some conn \<Rightarrow>
          list_ex (\<lambda>((c, _), po). c = conn \<and> po_target po = PkPing) (outbound_negotiators s) \<or>
          list_ex (\<lambda>(_, open). pn_conn_id open = conn \<and> pn_target open = PkPing) (pending_opens s))"

definition emit_error ::
  "swarm_error_kind \<Rightarrow> 'mh peer_id option \<Rightarrow> connection_id option \<Rightarrow> rstr \<Rightarrow> 'mh swarm_core \<Rightarrow> 'mh swarm_core" where
  "emit_error kind p c detail s =
     sw_push_event (SwError \<lparr>se_kind = kind, se_peer_id = p, se_conn_id = c, se_detail = detail\<rparr>) s"

section \<open>Protocol outputs\<close>

definition try_emit_peer_ready :: "'mh::linorder peer_id \<Rightarrow> 'mh swarm_core \<Rightarrow> 'mh swarm_core" where
  "try_emit_peer_ready p s =
     (if p \<in> set (ready_peers s) then s
      else case bm_get (sw_peer_info s) p of
        None \<Rightarrow> s
      | Some info \<Rightarrow>
          if bm_get (peer_to_conn s) p = None then s
          else sw_push_event (SwPeerReady p (im_protocols info))
                 (s\<lparr>ready_peers := bs_insert p (ready_peers s)\<rparr>))"

fun execute_ping_action :: "'mh peer_id ping_action \<Rightarrow> 'mh swarm_core \<Rightarrow> 'mh swarm_core" where
  "execute_ping_action (PingSend p sid data) s =
     (case conn_for_owned_stream p sid PkPing s of
        Some c \<Rightarrow> sw_push_action (SaSendStream c sid data) s
      | None \<Rightarrow> s)"
| "execute_ping_action (PingCloseStreamWrite p sid) s =
     (case conn_for_owned_stream p sid PkPing s of
        Some c \<Rightarrow> sw_push_action (SaCloseStreamWrite c sid) s
      | None \<Rightarrow> s)"
| "execute_ping_action (PingResetStream p sid) s =
     (case conn_for_owned_stream p sid PkPing s of
        Some c \<Rightarrow> sw_push_action (SaResetStream c sid) s
      | None \<Rightarrow> s)"

fun handle_ping_event :: "'mh multihash_api \<Rightarrow> 'mh peer_id ping_event \<Rightarrow> 'mh swarm_core \<Rightarrow> 'mh swarm_core" where
  "handle_ping_event M (PingRttMeasured p _ rtt_ms) s = sw_push_event (SwPingRttMeasured p rtt_ms) s"
| "handle_ping_event M (PingTimeout p _ _) s = sw_push_event (SwPingTimeout p) s"
| "handle_ping_event M (PingProtocolViolation p _ reason) s =
     emit_error SkPing (Some p) (conn_for p s)
       (lit ''ping protocol violation from '' @ to_base58 M p @ lit '': '' @ reason) s"
| "handle_ping_event M _ s = s"

fun execute_identify_action :: "'mh peer_id identify_action \<Rightarrow> 'mh swarm_core \<Rightarrow> 'mh swarm_core" where
  "execute_identify_action (IdentifySend p sid data) s =
     (case bm_get (peer_to_conn s) p of
        Some c \<Rightarrow> sw_push_action (SaSendStream c sid data) s
      | None \<Rightarrow> s)"
| "execute_identify_action (IdentifyCloseStreamWrite p sid) s =
     (case bm_get (peer_to_conn s) p of
        Some c \<Rightarrow> sw_push_action (SaCloseStreamWrite c sid) s
      | None \<Rightarrow> s)"

fun handle_identify_event :: "'mh::linorder peer_id identify_event \<Rightarrow> 'mh swarm_core \<Rightarrow> 'mh swarm_core" where
  "handle_identify_event (IdentifyReceived p info) s =
     try_emit_peer_ready p
       (sw_push_event (SwIdentifyReceived p info)
          (s\<lparr>sw_peer_info := bm_insert p info (sw_peer_info s)\<rparr>))"
| "handle_identify_event (IdentifyErrorEvent _ _ error) s =
     emit_error SkIdentify None None (lit ''identify error: '' @ error) s"

text \<open>The loops that drain a protocol; nothing in their bodies gives the protocol new outputs.\<close>

lemmas sw_push_defs = sw_push_event_def sw_push_action_def emit_error_def

lemma sw_ping_handlers [simp]:
  "sw_ping (execute_ping_action a s) = sw_ping s"
  "sw_ping (handle_ping_event M e s) = sw_ping s"
  by (cases a; simp add: sw_push_defs split: option.split) (cases e; simp add: sw_push_defs)

lemma sw_identify_handlers [simp]:
  "sw_identify (execute_identify_action a s) = sw_identify s"
  "sw_identify (handle_identify_event e s) = sw_identify s"
  by (cases a; simp add: sw_push_defs split: option.split)
    (cases e; simp add: sw_push_defs try_emit_peer_ready_def split: option.split)

function drain_ping_outputs :: "'mh multihash_api \<Rightarrow> 'mh swarm_core \<Rightarrow> 'mh swarm_core" where
  "drain_ping_outputs M s =
     (case ping_poll_output (sw_ping s) of
        (None, _) \<Rightarrow> s
      | (Some (PingAction a), ping) \<Rightarrow>
          drain_ping_outputs M (execute_ping_action a (s\<lparr>sw_ping := ping\<rparr>))
      | (Some (PingEvent e), ping) \<Rightarrow>
          drain_ping_outputs M (handle_ping_event M e (s\<lparr>sw_ping := ping\<rparr>)))"
  by pat_completeness auto
termination
  by (relation "measure (\<lambda>(M, s). length (ping_actions (sw_ping s)) + length (ping_events (sw_ping s)))")
    (auto simp: ping_poll_output_def split: list.splits)

function drain_identify_outputs :: "'mh::linorder swarm_core \<Rightarrow> 'mh swarm_core" where
  "drain_identify_outputs s =
     (case identify_poll_output (sw_identify s) of
        (None, _) \<Rightarrow> s
      | (Some (IdentifyAction a), identify) \<Rightarrow>
          drain_identify_outputs (execute_identify_action a (s\<lparr>sw_identify := identify\<rparr>))
      | (Some (IdentifyEvent e), identify) \<Rightarrow>
          drain_identify_outputs (handle_identify_event e (s\<lparr>sw_identify := identify\<rparr>)))"
  by pat_completeness auto
termination
  by (relation "measure (\<lambda>s. length (id_actions (sw_identify s)) + length (id_events (sw_identify s)))")
    (auto simp: identify_poll_output_def split: list.splits)

declare drain_ping_outputs.simps [simp del] drain_identify_outputs.simps [simp del]

definition collect_protocol_events :: "'mh::linorder multihash_api \<Rightarrow> 'mh swarm_core \<Rightarrow> 'mh swarm_core" where
  "collect_protocol_events M s = drain_identify_outputs (drain_ping_outputs M s)"

text \<open>Feeding an input to a protocol.\<close>

definition to_ping ::
  "'mh::linorder peer_id ping_input \<Rightarrow> 'mh swarm_core \<Rightarrow> ('mh swarm_core \<times> ('mh peer_id ping_error + unit)) option" where
  "to_ping i s = map_option (\<lambda>(ping, r). (s\<lparr>sw_ping := ping\<rparr>, r)) (ping_handle_input i (sw_ping s))"

definition to_identify ::
  "'mh multihash_api \<Rightarrow> ('mh::linorder peer_id, 'mh) identify_input \<Rightarrow> 'mh swarm_core \<Rightarrow>
     ('mh swarm_core \<times> ('mh peer_id identify_error + unit)) option" where
  "to_identify M i s =
     map_option (\<lambda>(identify, r). (s\<lparr>sw_identify := identify\<rparr>, r)) (identify_handle_input M i (sw_identify s))"

section \<open>Opening streams\<close>

function next_open_token :: "'mh swarm_core \<Rightarrow> open_stream_token \<times> 'mh swarm_core" where
  "next_open_token s =
     (let raw = next_token s;
          s = s\<lparr>next_token := next_token s + 1\<rparr>
      in if raw \<noteq> 0 then (OpenStreamToken raw, s) else next_open_token s)"
  by pat_completeness auto
termination
  by (relation "measure (\<lambda>s. if next_token s = 0 then 1 else 0)") auto

declare next_open_token.simps [simp del]

definition queue_open_protocol_stream ::
  "'mh::linorder peer_id \<Rightarrow> rstr \<Rightarrow> protocol_kind \<Rightarrow> 'mh swarm_core \<Rightarrow>
     ('mh swarm_core \<times> ('mh swarm_error + unit)) option" where
  "queue_open_protocol_stream p pid target s =
     (case require_conn p s of
        Inl e \<Rightarrow> Some (s, Err e)
      | Inr c \<Rightarrow>
          if bm_get (conn_to_peer s) c \<noteq> Some p then None
          else
            let (token, s) = next_open_token s;
                s = s\<lparr>pending_opens := bm_insert token
                      \<lparr>pn_conn_id = c, pn_protocol = pid, pn_target = target\<rparr> (pending_opens s)\<rparr>
            in Some (sw_push_action (SaOpenStream c token) s, Ok ()))"

section \<open>Connections and peers\<close>

definition synthetic_key :: "connection_id \<Rightarrow> bytes" where
  "synthetic_key c = lit ''minip2p-synthetic-conn-'' @ show_nat (unat (connection_u64 c))"

definition ensure_peer_id_for_conn ::
  "'mh::linorder multihash_api \<Rightarrow> (bytes \<Rightarrow> bytes) \<Rightarrow> connection_id \<Rightarrow> 'mh swarm_core \<Rightarrow>
     ('mh peer_id \<times> 'mh swarm_core) option" where
  "ensure_peer_id_for_conn M H c s =
     (case bm_get (conn_to_peer s) c of
        Some p \<Rightarrow> Some (p, s)
      | None \<Rightarrow> do {
          p \<leftarrow> from_public_key_protobuf M H (synthetic_key c);
          Some (p, s\<lparr>conn_to_peer := bm_insert c p (conn_to_peer s),
                     peer_to_conn := bm_insert p c (peer_to_conn s)\<rparr>)
        })"

text \<open>The end of both \<open>supersede_connection\<close> and \<open>handle_connection_closed\<close>.\<close>

definition forget_streams :: "connection_id \<Rightarrow> 'mh swarm_core \<Rightarrow> 'mh swarm_core" where
  "forget_streams c s =
     s\<lparr>stream_owner := bm_retain (\<lambda>(cid, _) _. cid \<noteq> c) (stream_owner s),
       inbound_negotiators := bm_retain (\<lambda>(cid, _) _. cid \<noteq> c) (inbound_negotiators s),
       outbound_negotiators := bm_retain (\<lambda>(cid, _) _. cid \<noteq> c) (outbound_negotiators s),
       pending_opens := bm_retain (\<lambda>_ po. pn_conn_id po \<noteq> c) (pending_opens s)\<rparr>"

definition supersede_connection ::
  "'mh::linorder multihash_api \<Rightarrow> connection_id \<Rightarrow> 'mh swarm_core \<Rightarrow> 'mh swarm_core option" where
  "supersede_connection M old_id s = do {
     s \<leftarrow> (case bm_get (conn_to_peer s) old_id of
         None \<Rightarrow> Some s
       | Some p \<Rightarrow> do {
           let pending = bm_get (pending_pings s) p;
           let s = s\<lparr>conn_to_peer := bm_remove old_id (conn_to_peer s),
                     pending_pings := bm_remove p (pending_pings s)\<rparr>;
           (s, _) \<leftarrow> to_ping (PingRemovePeer p) s;
           (s, _) \<leftarrow> to_identify M (IdRemovePeer p) s;
           let s = drain_identify_outputs (drain_ping_outputs M s);
           let s = (case pending of
               Some payload \<Rightarrow> s\<lparr>pending_pings := bm_insert p payload (pending_pings s)\<rparr>
             | None \<Rightarrow> s);
           Some (s\<lparr>sw_peer_info := bm_remove p (sw_peer_info s),
                   ready_peers := bs_remove p (ready_peers s),
                   established_peers := bs_remove p (established_peers s)\<rparr>)
         });
     let s = s\<lparr>active_connections := bm_remove old_id (active_connections s),
               conn_to_remote_addr := bm_remove old_id (conn_to_remote_addr s)\<rparr>;
     Some (sw_push_action (SaCloseConnection old_id) (forget_streams old_id s))
   }"

definition register_connection ::
  "'mh::linorder multihash_api \<Rightarrow> connection_id \<Rightarrow> 'mh peer_id \<Rightarrow> 'mh swarm_core \<Rightarrow> 'mh swarm_core option" where
  "register_connection M c p s = do {
     let is_new = (bm_get (conn_to_peer s) c = None);
     s \<leftarrow> (case bm_get (peer_to_conn s) p of
         Some existing \<Rightarrow> if existing \<noteq> c then supersede_connection M existing s else Some s
       | None \<Rightarrow> Some s);
     let s = s\<lparr>conn_to_peer := bm_insert c p (conn_to_peer s),
               peer_to_conn := bm_insert p c (peer_to_conn s)\<rparr>;
     if \<not> is_new then Some s
     else do {
       let s = sw_push_event (SwConnectionEstablished p)
             (s\<lparr>established_peers := bs_insert p (established_peers s)\<rparr>);
       (s, r) \<leftarrow> queue_open_protocol_stream p IDENTIFY_PROTOCOL_ID PkIdentifyInitiator s;
       let s = (case r of
           Inl e \<Rightarrow> emit_error SkIdentify (Some p) (Some c)
             (lit ''failed to queue identify stream to '' @ to_base58 M p @ lit '': '' @ show_swarm_error M e) s
         | Inr _ \<Rightarrow> s);
       if bm_get (pending_pings s) p \<noteq> None \<and> find_negotiated_ping_stream p s = None \<and>
          \<not> has_pending_ping_stream p s
       then do {
         (s, r) \<leftarrow> queue_open_protocol_stream p PING_PROTOCOL_ID PkPing s;
         Some (case r of
             Inl e \<Rightarrow> emit_error SkPing (Some p) (Some c)
               (lit ''failed to requeue pending ping stream to '' @ to_base58 M p @ lit '': '' @
                show_swarm_error M e) s
           | Inr _ \<Rightarrow> s)
       }
       else Some s
     }
   }"

definition rename_error ::
  "'mh peer_id \<Rightarrow> 'mh peer_id \<Rightarrow> 'mh swarm_runtime_error \<Rightarrow> 'mh swarm_runtime_error" where
  "rename_error old new error = (if se_peer_id error = Some old then error\<lparr>se_peer_id := Some new\<rparr> else error)"

fun rename_swarm_event :: "'mh peer_id \<Rightarrow> 'mh peer_id \<Rightarrow> 'mh swarm_event \<Rightarrow> 'mh swarm_event" where
  "rename_swarm_event old new (SwConnectionEstablished p) = SwConnectionEstablished (if p = old then new else p)"
| "rename_swarm_event old new (SwConnectionClosed p) = SwConnectionClosed (if p = old then new else p)"
| "rename_swarm_event old new (SwPingTimeout p) = SwPingTimeout (if p = old then new else p)"
| "rename_swarm_event old new (SwIdentifyReceived p info) = SwIdentifyReceived (if p = old then new else p) info"
| "rename_swarm_event old new (SwPingRttMeasured p rtt) = SwPingRttMeasured (if p = old then new else p) rtt"
| "rename_swarm_event old new (SwUserStreamReady p sid pid b) =
     SwUserStreamReady (if p = old then new else p) sid pid b"
| "rename_swarm_event old new (SwUserStreamData p sid data) = SwUserStreamData (if p = old then new else p) sid data"
| "rename_swarm_event old new (SwUserStreamRemoteWriteClosed p sid) =
     SwUserStreamRemoteWriteClosed (if p = old then new else p) sid"
| "rename_swarm_event old new (SwUserStreamClosed p sid) = SwUserStreamClosed (if p = old then new else p) sid"
| "rename_swarm_event old new (SwPeerReady p ps) = SwPeerReady (if p = old then new else p) ps"
| "rename_swarm_event old new (SwError error) = SwError (rename_error old new error)"

definition migrate_buffered_events :: "'mh peer_id \<Rightarrow> 'mh peer_id \<Rightarrow> 'mh swarm_core \<Rightarrow> 'mh swarm_core" where
  "migrate_buffered_events old new s = s\<lparr>sw_events := map (rename_swarm_event old new) (sw_events s)\<rparr>"

definition bs_rekey :: "'k::linorder \<Rightarrow> 'k \<Rightarrow> 'k btree_set \<Rightarrow> 'k btree_set" where
  "bs_rekey old new m = (if old \<in> set m then bs_insert new (bs_remove old m) else m)"

text \<open>The arm of \<open>upgrade_connection_identity\<close> for a connection that had another peer id.\<close>

definition migrate_swarm_peer ::
  "'mh::linorder multihash_api \<Rightarrow> 'mh peer_id \<Rightarrow> 'mh peer_id \<Rightarrow> 'mh swarm_core \<Rightarrow> 'mh swarm_core option" where
  "migrate_swarm_peer M stale new s = do {
     let s = s\<lparr>peer_to_conn := bm_remove stale (peer_to_conn s)\<rparr>;
     (s, _) \<leftarrow> to_ping (PingMigratePeer stale new) s;
     (s, _) \<leftarrow> to_identify M (IdMigratePeer stale new) s;
     let s = drain_identify_outputs (drain_ping_outputs M s);
     let s = s\<lparr>pending_pings := bm_rekey stale new (pending_pings s),
               sw_peer_info := bm_rekey stale new (sw_peer_info s),
               ready_peers := bs_rekey stale new (ready_peers s),
               established_peers := bs_rekey stale new (established_peers s)\<rparr>;
     Some (migrate_buffered_events stale new s)
   }"

definition upgrade_connection_identity ::
  "'mh::linorder multihash_api \<Rightarrow> connection_id \<Rightarrow> 'mh peer_id \<Rightarrow> 'mh swarm_core \<Rightarrow> 'mh swarm_core option" where
  "upgrade_connection_identity M c new s =
     (if bm_get (conn_to_peer s) c = Some new then Some s
      else do {
        s \<leftarrow> (case bm_get (conn_to_peer s) c of
            Some stale \<Rightarrow> migrate_swarm_peer M stale new s
          | None \<Rightarrow> Some s);
        let s = s\<lparr>conn_to_peer := bm_insert c new (conn_to_peer s),
                  peer_to_conn := bm_insert new c (peer_to_conn s),
                  established_peers := bs_insert new (established_peers s)\<rparr>;
        let s = try_emit_peer_ready new (sw_push_event (SwConnectionEstablished new) s);
        (s, r) \<leftarrow> queue_open_protocol_stream new IDENTIFY_PROTOCOL_ID PkIdentifyInitiator s;
        Some (case r of
            Inl e \<Rightarrow> emit_error SkIdentify (Some new) (Some c)
              (lit ''failed to queue identify stream to '' @ to_base58 M new @
               lit '' after identity upgrade: '' @ show_swarm_error M e) s
          | Inr _ \<Rightarrow> s)
      })"

definition handle_connection_closed ::
  "'mh::linorder multihash_api \<Rightarrow> connection_id \<Rightarrow> 'mh swarm_core \<Rightarrow> 'mh swarm_core option" where
  "handle_connection_closed M c s = do {
     let s = s\<lparr>active_connections := bm_remove c (active_connections s),
               conn_to_remote_addr := bm_remove c (conn_to_remote_addr s)\<rparr>;
     s \<leftarrow> (case bm_get (conn_to_peer s) c of
         None \<Rightarrow> Some s
       | Some p \<Rightarrow> do {
           let s = s\<lparr>conn_to_peer := bm_remove c (conn_to_peer s)\<rparr>;
           if bm_get (peer_to_conn s) p = Some c
           then do {
             let s = s\<lparr>peer_to_conn := bm_remove p (peer_to_conn s)\<rparr>;
             (s, _) \<leftarrow> to_ping (PingRemovePeer p) s;
             (s, _) \<leftarrow> to_identify M (IdRemovePeer p) s;
             let s = drain_identify_outputs (drain_ping_outputs M s);
             let s = s\<lparr>pending_pings := bm_remove p (pending_pings s),
                       sw_peer_info := bm_remove p (sw_peer_info s),
                       ready_peers := bs_remove p (ready_peers s),
                       established_peers := bs_remove p (established_peers s)\<rparr>;
             Some (sw_push_event (SwConnectionClosed p) s)
           }
           else Some s
         });
     Some (forget_streams c s)
   }"

section \<open>Negotiating and dispatching streams\<close>

text \<open>The result is the state, the negotiated protocol so far, and whether negotiation failed.\<close>

fun handle_multistream_output ::
  "connection_id \<Rightarrow> stream_id \<Rightarrow> multistream_output \<Rightarrow> rstr option \<Rightarrow> 'mh swarm_core \<Rightarrow>
     'mh swarm_core \<times> rstr option \<times> bool" where
  "handle_multistream_output c sid (MsOutboundData bs) neg s =
     (sw_push_action (SaSendStream c sid bs) s, neg, False)"
| "handle_multistream_output c sid (MsNegotiated pid) neg s = (s, Some pid, False)"
| "handle_multistream_output c sid MsNotAvailable neg s = (s, neg, True)"
| "handle_multistream_output c sid (MsProtocolError reason) neg s =
     (emit_error SkMultistream (established_peer_for_conn c s) (Some c)
        (lit ''multistream error on stream '' @ show_stream_id sid @ lit '': '' @ reason) s, neg, True)"

lemma handle_multistream_output_negotiators [simp]:
  "inbound_negotiators (fst (handle_multistream_output c sid out neg s)) = inbound_negotiators s"
  "outbound_negotiators (fst (handle_multistream_output c sid out neg s)) = outbound_negotiators s"
  by (cases out; simp add: sw_push_defs)+

text \<open>The next output of the negotiator that the map holds for a stream.\<close>

definition poll_inbound :: "stream_key \<Rightarrow> 'mh swarm_core \<Rightarrow> (multistream_output \<times> 'mh swarm_core) option" where
  "poll_inbound key s =
     (case bm_get (inbound_negotiators s) key of
        None \<Rightarrow> None
      | Some n \<Rightarrow>
          (case ms_poll_output n of
             (None, _) \<Rightarrow> None
           | (Some out, n) \<Rightarrow> Some (out, s\<lparr>inbound_negotiators := bm_insert key n (inbound_negotiators s)\<rparr>)))"

definition poll_outbound :: "stream_key \<Rightarrow> 'mh swarm_core \<Rightarrow> (multistream_output \<times> 'mh swarm_core) option" where
  "poll_outbound key s =
     (case bm_get (outbound_negotiators s) key of
        None \<Rightarrow> None
      | Some po \<Rightarrow>
          (case ms_poll_output (po_negotiator po) of
             (None, _) \<Rightarrow> None
           | (Some out, n) \<Rightarrow> Some (out,
               s\<lparr>outbound_negotiators := bm_insert key (po\<lparr>po_negotiator := n\<rparr>) (outbound_negotiators s)\<rparr>)))"

definition inbound_pending :: "stream_key \<Rightarrow> 'mh swarm_core \<Rightarrow> nat" where
  "inbound_pending key s =
     (case bm_get (inbound_negotiators s) key of None \<Rightarrow> 0 | Some n \<Rightarrow> length (ms_pending n))"

definition outbound_pending :: "stream_key \<Rightarrow> 'mh swarm_core \<Rightarrow> nat" where
  "outbound_pending key s =
     (case bm_get (outbound_negotiators s) key of None \<Rightarrow> 0 | Some po \<Rightarrow> length (ms_pending (po_negotiator po)))"

lemma poll_inbound_less: "poll_inbound key s = Some (out, s') \<Longrightarrow> inbound_pending key s' < inbound_pending key s"
  by (auto simp: poll_inbound_def inbound_pending_def ms_poll_output_def split: option.splits list.splits)

lemma poll_outbound_less: "poll_outbound key s = Some (out, s') \<Longrightarrow> outbound_pending key s' < outbound_pending key s"
  by (auto simp: poll_outbound_def outbound_pending_def ms_poll_output_def split: option.splits list.splits)

lemma pending_push_action [simp]:
  "inbound_pending key (sw_push_action a s) = inbound_pending key s"
  "outbound_pending key (sw_push_action a s) = outbound_pending key s"
  by (simp_all add: inbound_pending_def outbound_pending_def sw_push_defs)

lemma pending_handle_multistream_output [simp]:
  "inbound_pending key (fst (handle_multistream_output c sid out neg s)) = inbound_pending key s"
  "outbound_pending key (fst (handle_multistream_output c sid out neg s)) = outbound_pending key s"
  by (simp_all add: inbound_pending_def outbound_pending_def)

function incoming_loop :: "stream_key \<Rightarrow> 'mh swarm_core \<Rightarrow> 'mh swarm_core" where
  "incoming_loop key s =
     (case poll_inbound key s of
        None \<Rightarrow> s
      | Some (out, s) \<Rightarrow> incoming_loop key (fst (handle_multistream_output (fst key) (snd key) out None s)))"
  by pat_completeness auto
termination
  by (relation "measure (\<lambda>(key, s). inbound_pending key s)")
    (auto dest: poll_inbound_less)

definition handle_incoming_stream ::
  "connection_id \<Rightarrow> stream_id \<Rightarrow> 'mh swarm_core \<Rightarrow> 'mh swarm_core option" where
  "handle_incoming_stream c sid s = do {
     (listener, r) \<leftarrow> ms_handle_input MsStart (ms_listener (sw_supported s));
     let s = (case r of
         Inl e \<Rightarrow> emit_error SkMultistream (established_peer_for_conn c s) (Some c)
           (lit ''multistream start failed on inbound stream '' @ show_stream_id sid @ lit '': '' @
            show_multistream_error e) s
       | Inr _ \<Rightarrow> s);
     Some (incoming_loop (c, sid) (s\<lparr>inbound_negotiators := bm_insert (c, sid) listener (inbound_negotiators s)\<rparr>))
   }"

text \<open>The loop over the outputs of the dialer that \<open>handle_stream_opened\<close> holds.\<close>

function dialer_loop :: "connection_id \<Rightarrow> stream_id \<Rightarrow> multistream_select \<Rightarrow> 'mh swarm_core \<Rightarrow>
     multistream_select \<times> 'mh swarm_core" where
  "dialer_loop c sid n s =
     (case ms_poll_output n of
        (None, n) \<Rightarrow> (n, s)
      | (Some out, n) \<Rightarrow> dialer_loop c sid n (fst (handle_multistream_output c sid out None s)))"
  by pat_completeness auto
termination
  by (relation "measure (\<lambda>(c, sid, n, s). length (ms_pending n))")
    (auto simp: ms_poll_output_def split: list.splits)

declare incoming_loop.simps [simp del] dialer_loop.simps [simp del]

definition handle_stream_opened ::
  "connection_id \<Rightarrow> stream_id \<Rightarrow> open_stream_token \<Rightarrow> 'mh swarm_core \<Rightarrow> 'mh swarm_core option" where
  "handle_stream_opened c sid token s =
     (case bm_get (pending_opens s) token of
        None \<Rightarrow> Some (emit_error SkDriver None None
          (lit ''unknown OpenStream token '' @ show_nat (unat (token_u64 token)) @ lit '' reported by driver'') s)
      | Some pending \<Rightarrow>
          let s = s\<lparr>pending_opens := bm_remove token (pending_opens s)\<rparr>
          in if pn_conn_id pending \<noteq> c
             then Some (emit_error SkDriver (established_peer_for_conn c s) (Some c)
                    (lit ''driver opened stream on connection '' @ show_connection_id c @
                     lit '' but core requested '' @ show_connection_id (pn_conn_id pending)) s)
             else do {
               (n, r) \<leftarrow> ms_handle_input MsStart (ms_dialer (pn_protocol pending));
               let s = (case r of
                   Inl e \<Rightarrow> emit_error SkMultistream (established_peer_for_conn c s) (Some c)
                     (lit ''multistream start failed on outbound stream '' @ show_stream_id sid @ lit '': '' @
                      show_multistream_error e) s
                 | Inr _ \<Rightarrow> s);
               let (n, s) = dialer_loop c sid n s;
               Some (s\<lparr>outbound_negotiators := bm_insert (c, sid)
                     \<lparr>po_negotiator = n, po_target = pn_target pending\<rparr> (outbound_negotiators s)\<rparr>)
             })"

definition handle_open_stream_failed ::
  "open_stream_token \<Rightarrow> rstr \<Rightarrow> 'mh swarm_core \<Rightarrow> 'mh swarm_core" where
  "handle_open_stream_failed token reason s =
     (let pending = bm_get (pending_opens s) token;
          s = s\<lparr>pending_opens := bm_remove token (pending_opens s)\<rparr>
      in case pending of
           Some po \<Rightarrow> emit_error SkOpenStreamFailed (established_peer_for_conn (pn_conn_id po) s)
             (Some (pn_conn_id po))
             (lit ''open_stream for protocol '' @ [39] @ pn_protocol po @ [39] @ lit '' on connection '' @
              show_connection_id (pn_conn_id po) @ lit '' failed: '' @ reason) s
         | None \<Rightarrow> emit_error SkOpenStreamFailed None None
             (lit ''open_stream failed (unknown token): '' @ reason) s)"

definition dispatch_protocol_data ::
  "'mh::linorder multihash_api \<Rightarrow> (bytes \<Rightarrow> bytes) \<Rightarrow> connection_id \<Rightarrow> stream_id \<Rightarrow> bytes \<Rightarrow> u64 \<Rightarrow>
     'mh swarm_core \<Rightarrow> 'mh swarm_core option" where
  "dispatch_protocol_data M H c sid data now_ms s =
     (case bm_get (stream_owner s) (c, sid) of
        None \<Rightarrow> Some s
      | Some protocol \<Rightarrow> do {
          (p, s) \<leftarrow> ensure_peer_id_for_conn M H c s;
          case protocol of
            PkPing \<Rightarrow> do {
              (s, _) \<leftarrow> to_ping (PingStreamData p sid data now_ms) s;
              Some (drain_ping_outputs M s)
            }
          | PkIdentifyInitiator \<Rightarrow> do {
              (s, _) \<leftarrow> to_identify M (IdStreamData p sid data) s;
              Some (drain_identify_outputs s)
            }
          | PkIdentifyResponder \<Rightarrow> Some s
          | PkUser _ \<Rightarrow> Some (sw_push_event (SwUserStreamData p sid data) s)
        })"

definition handle_stream_remote_write_closed ::
  "'mh::linorder multihash_api \<Rightarrow> (bytes \<Rightarrow> bytes) \<Rightarrow> connection_id \<Rightarrow> stream_id \<Rightarrow>
     'mh swarm_core \<Rightarrow> 'mh swarm_core option" where
  "handle_stream_remote_write_closed M H c sid s =
     (case bm_get (stream_owner s) (c, sid) of
        None \<Rightarrow> Some s
      | Some protocol \<Rightarrow> do {
          (p, s) \<leftarrow> ensure_peer_id_for_conn M H c s;
          case protocol of
            PkPing \<Rightarrow> do {
              (s, _) \<leftarrow> to_ping (PingStreamRemoteWriteClosed p sid) s;
              Some (drain_ping_outputs M s)
            }
          | PkIdentifyInitiator \<Rightarrow> do {
              (s, _) \<leftarrow> to_identify M (IdStreamRemoteWriteClosed p sid) s;
              Some (drain_identify_outputs s)
            }
          | PkIdentifyResponder \<Rightarrow> Some s
          | PkUser _ \<Rightarrow> Some (sw_push_event (SwUserStreamRemoteWriteClosed p sid) s)
        })"

definition handle_stream_closed ::
  "'mh::linorder multihash_api \<Rightarrow> connection_id \<Rightarrow> stream_id \<Rightarrow> 'mh swarm_core \<Rightarrow> 'mh swarm_core option" where
  "handle_stream_closed M c sid s = do {
     let owner = bm_get (stream_owner s) (c, sid);
     let s = s\<lparr>stream_owner := bm_remove (c, sid) (stream_owner s)\<rparr>;
     s \<leftarrow> (case (owner, bm_get (conn_to_peer s) c) of
         (Some PkPing, Some p) \<Rightarrow> do {
           (s, _) \<leftarrow> to_ping (PingStreamClosed p sid) s;
           Some (drain_ping_outputs M s)
         }
       | (Some PkIdentifyInitiator, Some p) \<Rightarrow> do {
           (s, _) \<leftarrow> to_identify M (IdStreamClosed p sid) s;
           Some (drain_identify_outputs s)
         }
       | (Some PkIdentifyResponder, Some p) \<Rightarrow> do {
           (s, _) \<leftarrow> to_identify M (IdStreamClosed p sid) s;
           Some (drain_identify_outputs s)
         }
       | (Some (PkUser _), Some p) \<Rightarrow> Some (sw_push_event (SwUserStreamClosed p sid) s)
       | _ \<Rightarrow> Some s);
     Some (s\<lparr>inbound_negotiators := bm_remove (c, sid) (inbound_negotiators s),
             outbound_negotiators := bm_remove (c, sid) (outbound_negotiators s)\<rparr>)
   }"

definition on_inbound_negotiated ::
  "'mh::linorder multihash_api \<Rightarrow> (bytes \<Rightarrow> bytes) \<Rightarrow> connection_id \<Rightarrow> stream_id \<Rightarrow> rstr \<Rightarrow>
     'mh swarm_core \<Rightarrow> 'mh swarm_core option" where
  "on_inbound_negotiated M H c sid protocol s = do {
     (p, s) \<leftarrow> ensure_peer_id_for_conn M H c s;
     if protocol = PING_PROTOCOL_ID then do {
       let s = s\<lparr>stream_owner := bm_insert (c, sid) PkPing (stream_owner s)\<rparr>;
       (s, _) \<leftarrow> to_ping (PingRegisterInboundStream p sid) s;
       Some (drain_ping_outputs M s)
     }
     else if protocol = IDENTIFY_PROTOCOL_ID then do {
       let observed = bm_get (conn_to_remote_addr s) c;
       let listen = local_addresses s;
       (s, r) \<leftarrow> to_identify M (IdRegisterOutboundStream p sid observed listen) s;
       Some (case r of
           Inr _ \<Rightarrow> drain_identify_outputs
             (s\<lparr>stream_owner := bm_insert (c, sid) PkIdentifyResponder (stream_owner s)\<rparr>)
         | Inl e \<Rightarrow> sw_push_action (SaResetStream c sid)
             (emit_error SkIdentifyStreamRejected (Some p) (Some c)
               (lit ''identify responder error: '' @ show_identify_error M e) s))
     }
     else if list_ex (\<lambda>q. q = protocol) (user_protocols s)
     then Some (sw_push_event (SwUserStreamReady p sid protocol False)
            (s\<lparr>stream_owner := bm_insert (c, sid) (PkUser protocol) (stream_owner s)\<rparr>))
     else Some s
   }"

definition on_outbound_negotiated ::
  "'mh::linorder multihash_api \<Rightarrow> (bytes \<Rightarrow> bytes) \<Rightarrow> connection_id \<Rightarrow> stream_id \<Rightarrow> protocol_kind \<Rightarrow> u64 \<Rightarrow>
     'mh swarm_core \<Rightarrow> 'mh swarm_core option" where
  "on_outbound_negotiated M H c sid target now_ms s = do {
     (p, s) \<leftarrow> ensure_peer_id_for_conn M H c s;
     let s = s\<lparr>stream_owner := bm_insert (c, sid) target (stream_owner s)\<rparr>;
     case target of
       PkPing \<Rightarrow> do {
         (s, r) \<leftarrow> to_ping (PingRegisterOutboundStream p sid) s;
         case r of
           Inl e \<Rightarrow>
             let s = emit_error SkPing (Some p) (Some c) (lit ''ping register error: '' @ show_ping_error M e) s
             in Some (sw_push_action (SaResetStream c sid)
                  (s\<lparr>stream_owner := bm_remove (c, sid) (stream_owner s)\<rparr>))
         | Inr _ \<Rightarrow>
             let s = drain_ping_outputs M s
             in (case bm_get (pending_pings s) p of
                   None \<Rightarrow> Some s
                 | Some payload \<Rightarrow> do {
                     let s = s\<lparr>pending_pings := bm_remove p (pending_pings s)\<rparr>;
                     (s, r) \<leftarrow> to_ping (PingSendPing p payload now_ms) s;
                     Some (case r of
                         Inr _ \<Rightarrow> drain_ping_outputs M s
                       | Inl e \<Rightarrow> emit_error SkPing (Some p) (Some c)
                           (lit ''deferred ping send failed: '' @ show_ping_error M e) s)
                   })
       }
     | PkIdentifyInitiator \<Rightarrow> do {
         (s, _) \<leftarrow> to_identify M (IdRegisterInboundStream p sid) s;
         Some (drain_identify_outputs s)
       }
     | PkIdentifyResponder \<Rightarrow> Some s
     | PkUser pid \<Rightarrow> Some (sw_push_event (SwUserStreamReady p sid pid True) s)
   }"

text \<open>
  The loop of \<open>feed_inbound_negotiator\<close>: \<open>None\<close> for the protocol when an output ended the negotiation
  with an error, in which case the stream was reset.
\<close>

definition drop_inbound :: "connection_id \<Rightarrow> stream_id \<Rightarrow> 'mh swarm_core \<Rightarrow> 'mh swarm_core" where
  "drop_inbound c sid s =
     sw_push_action (SaResetStream c sid)
       (s\<lparr>inbound_negotiators := bm_remove (c, sid) (inbound_negotiators s)\<rparr>)"

definition drop_outbound :: "connection_id \<Rightarrow> stream_id \<Rightarrow> 'mh swarm_core \<Rightarrow> 'mh swarm_core" where
  "drop_outbound c sid s =
     sw_push_action (SaResetStream c sid)
       (s\<lparr>outbound_negotiators := bm_remove (c, sid) (outbound_negotiators s)\<rparr>)"

function inbound_loop ::
  "connection_id \<Rightarrow> stream_id \<Rightarrow> rstr option \<Rightarrow> 'mh swarm_core \<Rightarrow> 'mh swarm_core \<times> rstr option option" where
  "inbound_loop c sid neg s =
     (case poll_inbound (c, sid) s of
        None \<Rightarrow> (s, Some neg)
      | Some (out, s) \<Rightarrow>
          (let r = handle_multistream_output c sid out neg s
           in if snd (snd r) then (drop_inbound c sid (fst r), None)
              else inbound_loop c sid (fst (snd r)) (fst r)))"
  by pat_completeness auto
termination
  by (relation "measure (\<lambda>(c, sid, neg, s). inbound_pending (c, sid) s)") (auto dest: poll_inbound_less)

definition feed_inbound_negotiator ::
  "'mh::linorder multihash_api \<Rightarrow> (bytes \<Rightarrow> bytes) \<Rightarrow> connection_id \<Rightarrow> stream_id \<Rightarrow> bytes \<Rightarrow> u64 \<Rightarrow>
     'mh swarm_core \<Rightarrow> 'mh swarm_core option" where
  "feed_inbound_negotiator M H c sid data now_ms s =
     (case bm_get (inbound_negotiators s) (c, sid) of
        None \<Rightarrow> Some s
      | Some n \<Rightarrow> do {
          (n, r) \<leftarrow> ms_handle_input (MsData data) n;
          let s = s\<lparr>inbound_negotiators := bm_insert (c, sid) n (inbound_negotiators s)\<rparr>;
          case r of
            Inl e \<Rightarrow> Some (drop_inbound c sid
              (emit_error SkMultistream (established_peer_for_conn c s) (Some c)
                (lit ''multistream input failed on inbound stream '' @ show_stream_id sid @ lit '': '' @
                 show_multistream_error e) s))
          | Inr _ \<Rightarrow>
              (case inbound_loop c sid None s of
                 (s, None) \<Rightarrow> Some s
               | (s, Some None) \<Rightarrow> Some s
               | (s, Some (Some protocol)) \<Rightarrow> do {
                   let remaining = (case bm_get (inbound_negotiators s) (c, sid) of
                       None \<Rightarrow> [] | Some n \<Rightarrow> fst (take_remaining_buffer n));
                   s \<leftarrow> on_inbound_negotiated M H c sid protocol
                     (s\<lparr>inbound_negotiators := bm_remove (c, sid) (inbound_negotiators s)\<rparr>);
                   if remaining \<noteq> [] then dispatch_protocol_data M H c sid remaining now_ms s else Some s
                 })
        })"

function outbound_loop ::
  "connection_id \<Rightarrow> stream_id \<Rightarrow> bool \<Rightarrow> 'mh swarm_core \<Rightarrow> 'mh swarm_core \<times> bool option" where
  "outbound_loop c sid negotiated s =
     (case poll_outbound (c, sid) s of
        None \<Rightarrow> (s, Some negotiated)
      | Some (out, s) \<Rightarrow>
          (case out of
             MsNegotiated _ \<Rightarrow> outbound_loop c sid True s
           | MsNotAvailable \<Rightarrow>
               (drop_outbound c sid
                  (emit_error SkUnsupportedProtocol (established_peer_for_conn c s) (Some c)
                    (lit ''remote peer does not support protocol for stream '' @ show_stream_id sid) s), None)
           | _ \<Rightarrow>
               (let r = handle_multistream_output c sid out None s
                in if snd (snd r) then (drop_outbound c sid (fst r), None)
                   else outbound_loop c sid negotiated (fst r))))"
  by pat_completeness auto
termination
  by (relation "measure (\<lambda>(c, sid, negotiated, s). outbound_pending (c, sid) s)") (auto dest: poll_outbound_less)

declare inbound_loop.simps [simp del] outbound_loop.simps [simp del]

definition feed_outbound_negotiator ::
  "'mh::linorder multihash_api \<Rightarrow> (bytes \<Rightarrow> bytes) \<Rightarrow> connection_id \<Rightarrow> stream_id \<Rightarrow> bytes \<Rightarrow> u64 \<Rightarrow>
     'mh swarm_core \<Rightarrow> 'mh swarm_core option" where
  "feed_outbound_negotiator M H c sid data now_ms s =
     (case bm_get (outbound_negotiators s) (c, sid) of
        None \<Rightarrow> Some s
      | Some po \<Rightarrow> do {
          (n, r) \<leftarrow> ms_handle_input (MsData data) (po_negotiator po);
          let s = s\<lparr>outbound_negotiators := bm_insert (c, sid) (po\<lparr>po_negotiator := n\<rparr>) (outbound_negotiators s)\<rparr>;
          case r of
            Inl e \<Rightarrow> Some (drop_outbound c sid
              (emit_error SkMultistream (established_peer_for_conn c s) (Some c)
                (lit ''multistream input failed on outbound stream '' @ show_stream_id sid @ lit '': '' @
                 show_multistream_error e) s))
          | Inr _ \<Rightarrow>
              (case outbound_loop c sid False s of
                 (s, None) \<Rightarrow> Some s
               | (s, Some False) \<Rightarrow> Some s
               | (s, Some True) \<Rightarrow> do {
                   let remaining = (case bm_get (outbound_negotiators s) (c, sid) of
                       None \<Rightarrow> [] | Some po \<Rightarrow> fst (take_remaining_buffer (po_negotiator po)));
                   s \<leftarrow> on_outbound_negotiated M H c sid (po_target po) now_ms
                     (s\<lparr>outbound_negotiators := bm_remove (c, sid) (outbound_negotiators s)\<rparr>);
                   if remaining \<noteq> [] then dispatch_protocol_data M H c sid remaining now_ms s else Some s
                 })
        })"

definition handle_stream_data ::
  "'mh::linorder multihash_api \<Rightarrow> (bytes \<Rightarrow> bytes) \<Rightarrow> connection_id \<Rightarrow> stream_id \<Rightarrow> bytes \<Rightarrow> u64 \<Rightarrow>
     'mh swarm_core \<Rightarrow> 'mh swarm_core option" where
  "handle_stream_data M H c sid data now_ms s =
     (if bm_get (inbound_negotiators s) (c, sid) \<noteq> None
      then feed_inbound_negotiator M H c sid data now_ms s
      else if bm_get (outbound_negotiators s) (c, sid) \<noteq> None
      then feed_outbound_negotiator M H c sid data now_ms s
      else dispatch_protocol_data M H c sid data now_ms s)"

section \<open>Ingress\<close>

definition record_runtime_error :: "'mh swarm_runtime_error \<Rightarrow> 'mh swarm_core \<Rightarrow> 'mh swarm_core" where
  "record_runtime_error error s = sw_push_event (SwError error) s"

fun handle_transport_event ::
  "'mh::linorder multihash_api \<Rightarrow> (bytes \<Rightarrow> bytes) \<Rightarrow> 'mh transport_event \<Rightarrow> u64 \<Rightarrow>
     'mh swarm_core \<Rightarrow> 'mh swarm_core option" where
  "handle_transport_event M H (TeConnected c endpoint) now_ms s =
     (let s = s\<lparr>active_connections := bm_insert c True (active_connections s),
                conn_to_remote_addr := bm_insert c (ep_transport endpoint) (conn_to_remote_addr s)\<rparr>
      in case ep_peer_id endpoint of
           Some p \<Rightarrow> register_connection M c p s
         | None \<Rightarrow> map_option snd (ensure_peer_id_for_conn M H c s))"
| "handle_transport_event M H (TePeerIdentityVerified c endpoint _) now_ms s =
     (let s = s\<lparr>conn_to_remote_addr := bm_insert c (ep_transport endpoint) (conn_to_remote_addr s)\<rparr>
      in case ep_peer_id endpoint of
           Some p \<Rightarrow> upgrade_connection_identity M c p s
         | None \<Rightarrow> Some s)"
| "handle_transport_event M H (TeIncomingConnection c endpoint) now_ms s =
     Some (s\<lparr>active_connections := bm_insert c False (active_connections s),
             conn_to_remote_addr := bm_insert c (ep_transport endpoint) (conn_to_remote_addr s)\<rparr>)"
| "handle_transport_event M H (TeIncomingStream c sid) now_ms s = handle_incoming_stream c sid s"
| "handle_transport_event M H (TeStreamOpened c sid) now_ms s = Some s"
| "handle_transport_event M H (TeStreamData c sid data) now_ms s = handle_stream_data M H c sid data now_ms s"
| "handle_transport_event M H (TeStreamRemoteWriteClosed c sid) now_ms s =
     handle_stream_remote_write_closed M H c sid s"
| "handle_transport_event M H (TeStreamClosed c sid) now_ms s = handle_stream_closed M c sid s"
| "handle_transport_event M H (TeClosed c) now_ms s = handle_connection_closed M c s"
| "handle_transport_event M H (TeListening addr) now_ms s = Some s"
| "handle_transport_event M H (TeError c message) now_ms s =
     Some (emit_error SkTransport (established_peer_for_conn c s) (Some c)
       (lit ''transport error on connection '' @ show_connection_id c @ lit '': '' @ message) s)"

definition handle_tick :: "'mh::linorder multihash_api \<Rightarrow> u64 \<Rightarrow> 'mh swarm_core \<Rightarrow> 'mh swarm_core option" where
  "handle_tick M now_ms s = do {
     (s, _) \<leftarrow> to_ping (PingTick now_ms) s;
     Some (collect_protocol_events M s)
   }"

fun swarm_handle_input ::
  "'mh::linorder multihash_api \<Rightarrow> (bytes \<Rightarrow> bytes) \<Rightarrow> 'mh swarm_input \<Rightarrow> 'mh swarm_core \<Rightarrow> 'mh swarm_core option" where
  "swarm_handle_input M H (SiTransport event now_ms) s = handle_transport_event M H event now_ms s"
| "swarm_handle_input M H (SiTick now_ms) s = handle_tick M now_ms s"
| "swarm_handle_input M H (SiStreamOpened c sid token now_ms) s = handle_stream_opened c sid token s"
| "swarm_handle_input M H (SiOpenStreamFailed token reason now_ms) s =
     Some (handle_open_stream_failed token reason s)"
| "swarm_handle_input M H (SiRuntimeError error) s = Some (record_runtime_error error s)"

section \<open>Requests of the application\<close>

definition swarm_ping ::
  "'mh::linorder multihash_api \<Rightarrow> 'mh peer_id \<Rightarrow> bytes \<Rightarrow> u64 \<Rightarrow> 'mh swarm_core \<Rightarrow>
     ('mh swarm_core \<times> ('mh swarm_error + unit)) option" where
  "swarm_ping M p payload now_ms s =
     (if bm_get (peer_to_conn s) p = None then Some (s, Err (SwNotConnected p))
      else if find_negotiated_ping_stream p s \<noteq> None then do {
        (s, r) \<leftarrow> to_ping (PingSendPing p payload now_ms) s;
        Some (case r of
            Inl e \<Rightarrow> (s, Err (SwPingError (show_ping_error M e)))
          | Inr _ \<Rightarrow> (drain_ping_outputs M s, Ok ()))
      }
      else if has_pending_ping_stream p s
      then Some (s\<lparr>pending_pings := bm_insert p payload (pending_pings s)\<rparr>, Ok ())
      else queue_open_protocol_stream p PING_PROTOCOL_ID PkPing
             (s\<lparr>pending_pings := bm_insert p payload (pending_pings s)\<rparr>))"

definition open_user_stream ::
  "'mh::linorder peer_id \<Rightarrow> rstr \<Rightarrow> 'mh swarm_core \<Rightarrow> ('mh swarm_core \<times> ('mh swarm_error + unit)) option" where
  "open_user_stream p pid s =
     (if \<not> list_ex (\<lambda>q. q = pid) (user_protocols s) then Some (s, Err (SwProtocolNotRegistered pid))
      else if bm_get (peer_to_conn s) p = None then Some (s, Err (SwNotConnected p))
      else if p \<in> set (ready_peers s) \<and>
           \<not> (case bm_get (sw_peer_info s) p of
                None \<Rightarrow> False
              | Some info \<Rightarrow> list_ex (\<lambda>q. q = pid) (im_protocols info))
      then Some (s, Err (SwRemoteDoesNotSupport p pid))
      else queue_open_protocol_stream p pid (PkUser pid) s)"

definition on_user_stream ::
  "(connection_id \<Rightarrow> swarm_action) \<Rightarrow> 'mh peer_id \<Rightarrow> stream_id \<Rightarrow> 'mh swarm_core \<Rightarrow>
     'mh swarm_core \<times> ('mh swarm_error + unit)" where
  "on_user_stream action p sid s =
     (case require_user_stream_conn p sid s of
        Inl e \<Rightarrow> (s, Err e)
      | Inr c \<Rightarrow> (sw_push_action (action c) s, Ok ()))"

definition send_user_stream ::
  "'mh peer_id \<Rightarrow> stream_id \<Rightarrow> bytes \<Rightarrow> 'mh swarm_core \<Rightarrow> 'mh swarm_core \<times> ('mh swarm_error + unit)" where
  "send_user_stream p sid data s = on_user_stream (\<lambda>c. SaSendStream c sid data) p sid s"

definition close_user_stream_write ::
  "'mh peer_id \<Rightarrow> stream_id \<Rightarrow> 'mh swarm_core \<Rightarrow> 'mh swarm_core \<times> ('mh swarm_error + unit)" where
  "close_user_stream_write p sid s = on_user_stream (\<lambda>c. SaCloseStreamWrite c sid) p sid s"

definition reset_user_stream ::
  "'mh peer_id \<Rightarrow> stream_id \<Rightarrow> 'mh swarm_core \<Rightarrow> 'mh swarm_core \<times> ('mh swarm_error + unit)" where
  "reset_user_stream p sid s = on_user_stream (\<lambda>c. SaResetStream c sid) p sid s"

definition disconnect ::
  "'mh peer_id \<Rightarrow> 'mh swarm_core \<Rightarrow> 'mh swarm_core \<times> ('mh swarm_error + unit)" where
  "disconnect p s =
     (case require_conn p s of
        Inl e \<Rightarrow> (s, Err e)
      | Inr c \<Rightarrow> (sw_push_action (SaCloseConnection c) s, Ok ()))"

definition on_dialed :: "connection_id \<Rightarrow> 'mh swarm_core \<Rightarrow> 'mh swarm_core" where
  "on_dialed c s = s"

end
