(* ===== verification/SwarmInv.thy ===== *)
theory SwarmInv
  imports Swarm
begin

text \<open>
  The bookkeeping invariant of the swarm: the maps are ordered, the protocols and negotiators are
  consistent, their queues are drained between inputs, and the tables of connections and peers agree:
  the primary connection of a peer is mapped to that peer, and every peer the application knows as
  connected or ready has a primary connection.  Every input and every request of the application
  keeps the invariant and does not panic, as long as the transport keeps its documented contract.
\<close>

section \<open>The invariant\<close>

definition protocols_ok :: "'mh::linorder swarm_core \<Rightarrow> bool" where
  "protocols_ok s \<longleftrightarrow> ping_ok (sw_ping s) \<and> identify_ok (sw_identify s)"

definition maps_ok :: "'mh::linorder swarm_core \<Rightarrow> bool" where
  "maps_ok s \<longleftrightarrow> bm_ok (conn_to_peer s) \<and> bm_ok (peer_to_conn s) \<and> bm_ok (active_connections s) \<and>
     bm_ok (conn_to_remote_addr s) \<and> bm_ok (inbound_negotiators s) \<and> bm_ok (outbound_negotiators s) \<and>
     bm_ok (stream_owner s) \<and> bm_ok (pending_opens s) \<and> bm_ok (pending_pings s) \<and>
     bm_ok (sw_peer_info s) \<and> bs_ok (ready_peers s) \<and> bs_ok (established_peers s)"

text \<open>A negotiator at rest: its outputs were taken, and it has not reached a verdict.\<close>

definition negotiating :: "multistream_select \<Rightarrow> bool" where
  "negotiating n \<longleftrightarrow> ms_ok n \<and> ms_pending n = [] \<and> ms_state n \<noteq> MsDone"

definition negotiators_ok :: "'mh::linorder swarm_core \<Rightarrow> bool" where
  "negotiators_ok s \<longleftrightarrow> bm_all negotiating (inbound_negotiators s) \<and>
     bm_all (\<lambda>po. negotiating (po_negotiator po)) (outbound_negotiators s) \<and>
     bm_all (\<lambda>payload. length payload = PING_PAYLOAD_LEN) (pending_pings s)"

definition table_ok :: "'mh::linorder swarm_core \<Rightarrow> bool" where
  "table_ok s \<longleftrightarrow>
     (\<forall>p c. bm_get (peer_to_conn s) p = Some c \<longrightarrow> bm_get (conn_to_peer s) c = Some p) \<and>
     set (established_peers s) \<subseteq> dom (bm_get (peer_to_conn s)) \<and>
     set (ready_peers s) \<subseteq> dom (bm_get (peer_to_conn s)) \<and>
     set (ready_peers s) \<subseteq> dom (bm_get (sw_peer_info s))"

definition swarm_wf :: "'mh::linorder swarm_core \<Rightarrow> bool" where
  "swarm_wf s \<longleftrightarrow> protocols_ok s \<and> maps_ok s \<and> negotiators_ok s \<and> table_ok s"

definition protocols_idle :: "'mh swarm_core \<Rightarrow> bool" where
  "protocols_idle s \<longleftrightarrow> ping_is_idle (sw_ping s) \<and> identify_is_idle (sw_identify s)"

definition swarm_ok :: "'mh::linorder swarm_core \<Rightarrow> bool" where
  "swarm_ok s \<longleftrightarrow> swarm_wf s \<and> protocols_idle s"

lemmas swarm_wf_defs = swarm_wf_def protocols_ok_def maps_ok_def negotiators_ok_def table_ok_def

lemma swarm_ok_new [simp]: "swarm_ok (swarm_new ic pc)"
  by (simp add: swarm_ok_def swarm_wf_defs swarm_new_def protocols_idle_def ping_is_idle_def
      identify_is_idle_def ping_new_def identify_new_def ping_ok_def identify_ok_def)

lemma table_okD:
  "table_ok s \<Longrightarrow> bm_get (peer_to_conn s) p = Some c \<Longrightarrow> bm_get (conn_to_peer s) c = Some p"
  by (simp add: table_ok_def)

lemma primary_unique:
  assumes "table_ok s" and "bm_get (peer_to_conn s) p = Some c" and "bm_get (peer_to_conn s) q = Some c"
  shows "q = p"
  using table_okD [OF assms(1,2)] table_okD [OF assms(1,3)] by simp

section \<open>Pushing events and draining protocols\<close>

lemma swarm_wf_push [simp]:
  "swarm_wf (sw_push_event e s) = swarm_wf s"
  "swarm_wf (sw_push_action a s) = swarm_wf s"
  "swarm_wf (emit_error k p c d s) = swarm_wf s"
  by (simp_all add: swarm_wf_defs sw_push_defs)

lemma protocols_idle_push [simp]:
  "protocols_idle (sw_push_event e s) = protocols_idle s"
  "protocols_idle (sw_push_action a s) = protocols_idle s"
  "protocols_idle (emit_error k p c d s) = protocols_idle s"
  by (simp_all add: protocols_idle_def sw_push_defs)

lemma swarm_ok_push [simp]:
  "swarm_ok (sw_push_event e s) = swarm_ok s"
  "swarm_ok (sw_push_action a s) = swarm_ok s"
  "swarm_ok (emit_error k p c d s) = swarm_ok s"
  by (simp_all add: swarm_ok_def)

lemma swarm_wf_sw_ping: "swarm_wf s \<Longrightarrow> ping_ok q \<Longrightarrow> swarm_wf (s\<lparr>sw_ping := q\<rparr>)"
  by (simp add: swarm_wf_defs)

lemma swarm_wf_sw_identify: "swarm_wf s \<Longrightarrow> identify_ok q \<Longrightarrow> swarm_wf (s\<lparr>sw_identify := q\<rparr>)"
  by (simp add: swarm_wf_defs)

lemma swarm_wf_ping_ok: "swarm_wf s \<Longrightarrow> ping_ok (sw_ping s)"
  by (simp add: swarm_wf_defs)

lemma swarm_wf_identify_ok: "swarm_wf s \<Longrightarrow> identify_ok (sw_identify s)"
  by (simp add: swarm_wf_defs)

lemma swarm_wf_execute_ping_action [simp]: "swarm_wf (execute_ping_action a s) = swarm_wf s"
  by (cases a) (simp_all split: option.split)

lemma swarm_wf_handle_ping_event [simp]: "swarm_wf (handle_ping_event M e s) = swarm_wf s"
  by (cases e) simp_all

lemma swarm_wf_execute_identify_action [simp]: "swarm_wf (execute_identify_action a s) = swarm_wf s"
  by (cases a) (simp_all split: option.split)

lemma swarm_wf_peer_info: "swarm_wf s \<Longrightarrow> swarm_wf (s\<lparr>sw_peer_info := bm_insert p info (sw_peer_info s)\<rparr>)"
  by (auto simp: swarm_wf_defs bm.invar_upd split: if_splits)

lemma swarm_wf_try_emit_peer_ready: "swarm_wf s \<Longrightarrow> swarm_wf (try_emit_peer_ready p s)"
  by (auto simp: try_emit_peer_ready_def swarm_wf_defs sw_push_event_def split: option.split)

lemma swarm_ok_try_emit_peer_ready: "swarm_ok s \<Longrightarrow> swarm_ok (try_emit_peer_ready p s)"
  using swarm_wf_try_emit_peer_ready [of s p]
  by (auto simp: swarm_ok_def protocols_idle_def try_emit_peer_ready_def sw_push_event_def split: option.split)

lemma swarm_wf_handle_identify_event: "swarm_wf s \<Longrightarrow> swarm_wf (handle_identify_event e s)"
  by (cases e) (simp_all add: swarm_wf_try_emit_peer_ready swarm_wf_peer_info)

text \<open>Which parts of the state a drain leaves alone.\<close>

lemma drain_ping_ok:
  "swarm_wf s \<Longrightarrow> swarm_wf (drain_ping_outputs M s)"
  "ping_is_idle (sw_ping (drain_ping_outputs M s))"
  "sw_identify (drain_ping_outputs M s) = sw_identify s"
proof (induction M s rule: drain_ping_outputs.induct)
  case (1 M s)
  note IH = 1
  have poll: "ping_ok (snd (ping_poll_output q))" if "ping_ok q" for q :: "'a peer_id ping_protocol"
    using that by (rule ping.invar_poll)
  have frame: "sw_identify (execute_ping_action a t) = sw_identify t"
    "sw_identify (handle_ping_event M e t) = sw_identify t" for a e and t :: "'a swarm_core"
    by (cases a; simp add: sw_push_defs split: option.split) (cases e; simp add: sw_push_defs)
  { case 1
    then show ?case
      using IH(1,4) poll [OF swarm_wf_ping_ok [OF 1]]
      by (subst drain_ping_outputs.simps)
        (auto simp: swarm_wf_sw_ping split: prod.split option.split ping_output.split)
  next
    case 2
    then show ?case
      using IH(2,5)
      by (subst drain_ping_outputs.simps)
        (auto simp: ping_poll_output_def ping_is_idle_def split: list.splits)
  next
    case 3
    then show ?case
      using IH(3,6)
      by (subst drain_ping_outputs.simps) (auto simp: frame split: prod.split option.split ping_output.split)
  }
qed

lemma drain_identify_ok:
  "swarm_wf s \<Longrightarrow> swarm_wf (drain_identify_outputs s)"
  "identify_is_idle (sw_identify (drain_identify_outputs s))"
  "sw_ping (drain_identify_outputs s) = sw_ping s"
proof (induction s rule: drain_identify_outputs.induct)
  case (1 s)
  note IH = 1
  have poll: "identify_ok (snd (identify_poll_output q))" if "identify_ok q" for q :: "'a peer_id identify_protocol"
    using that by (rule identify.invar_poll)
  have frame: "sw_ping (execute_identify_action a t) = sw_ping t"
    "sw_ping (handle_identify_event e t) = sw_ping t" for a e and t :: "'a swarm_core"
    by (cases a; simp add: sw_push_defs split: option.split)
      (cases e; simp add: sw_push_defs try_emit_peer_ready_def split: option.split)
  { case 1
    then show ?case
      using IH(1,4) poll [OF swarm_wf_identify_ok [OF 1]]
      by (subst drain_identify_outputs.simps)
        (auto simp: swarm_wf_sw_identify swarm_wf_handle_identify_event
          split: prod.split option.split identify_output.split)
  next
    case 2
    then show ?case
      using IH(2,5)
      by (subst drain_identify_outputs.simps)
        (auto simp: identify_poll_output_def identify_is_idle_def split: list.splits)
  next
    case 3
    then show ?case
      using IH(3,6)
      by (subst drain_identify_outputs.simps) (auto simp: frame split: prod.split option.split identify_output.split)
  }
qed

lemma drained_idle [simp]:
  "ping_is_idle (sw_ping s) \<Longrightarrow> drain_ping_outputs M s = s"
  "identify_is_idle (sw_identify s) \<Longrightarrow> drain_identify_outputs s = s"
  by (subst drain_ping_outputs.simps; simp add: ping_poll_output_def ping_is_idle_def)
    (subst drain_identify_outputs.simps; simp add: identify_poll_output_def identify_is_idle_def)

text \<open>Feeding a protocol and draining it.\<close>

lemma swarm_ok_drain_ping: "swarm_wf s \<Longrightarrow> identify_is_idle (sw_identify s) \<Longrightarrow> swarm_ok (drain_ping_outputs M s)"
  by (simp add: swarm_ok_def protocols_idle_def drain_ping_ok)

lemma swarm_ok_drain_identify: "swarm_wf s \<Longrightarrow> ping_is_idle (sw_ping s) \<Longrightarrow> swarm_ok (drain_identify_outputs s)"
  by (simp add: swarm_ok_def protocols_idle_def drain_identify_ok)

lemma swarm_ok_collect: "swarm_wf s \<Longrightarrow> swarm_ok (drain_identify_outputs (drain_ping_outputs M s))"
  by (simp add: swarm_ok_drain_identify drain_ping_ok)

lemma ping_error_idle:
  assumes "ping_handle_input i q = Some (q', Inl e)"
  shows "ping_is_idle q' = ping_is_idle q"
  using assms
  by (cases i) (auto simp: register_outbound_stream_def extend_actions_def push_action_def send_ping_def
      close_outbound_stream_write_def set_peer_def push_event_def ping_is_idle_def Let_def
      split: option.splits if_splits prod.splits sum.splits)

lemma identify_error_idle:
  assumes "identify_handle_input M i q = Some (q', Inl e)"
  shows "identify_is_idle q' = identify_is_idle q"
  using assms
  by (cases i) (auto simp: id_register_outbound_stream_def id_extend_actions_def id_set_peer_def
      identify_is_idle_def Let_def split: option.splits if_splits prod.splits sum.splits)

lemma to_ping_ok:
  assumes "swarm_ok s"
  obtains q r where "to_ping i s = Some (s\<lparr>sw_ping := q\<rparr>, r)"
    "swarm_wf (s\<lparr>sw_ping := q\<rparr>)" "identify_is_idle (sw_identify s)" "r \<noteq> Ok () \<Longrightarrow> swarm_ok (s\<lparr>sw_ping := q\<rparr>)"
proof -
  have wf: "swarm_wf s" and idle: "protocols_idle s"
    using assms by (simp_all add: swarm_ok_def)
  obtain q r where q: "ping_handle_input i (sw_ping s) = Some (q, r)" "ping_ok q"
    using ping_handle_input_ok [OF swarm_wf_ping_ok [OF wf]] by blast
  show thesis
  proof (rule that [of q r])
    show "to_ping i s = Some (s\<lparr>sw_ping := q\<rparr>, r)"
      by (simp add: to_ping_def q)
    show wf': "swarm_wf (s\<lparr>sw_ping := q\<rparr>)"
      using wf q(2) by (rule swarm_wf_sw_ping)
    show "identify_is_idle (sw_identify s)"
      using idle by (simp add: protocols_idle_def)
    show "swarm_ok (s\<lparr>sw_ping := q\<rparr>)" if "r \<noteq> Ok ()"
      using that wf' idle ping_error_idle [of i "sw_ping s" q] q(1)
      by (cases r) (simp_all add: swarm_ok_def protocols_idle_def)
  qed
qed

lemma to_identify_ok:
  assumes "swarm_ok s"
  obtains q r where "to_identify M i s = Some (s\<lparr>sw_identify := q\<rparr>, r)"
    "swarm_wf (s\<lparr>sw_identify := q\<rparr>)" "ping_is_idle (sw_ping s)" "r \<noteq> Ok () \<Longrightarrow> swarm_ok (s\<lparr>sw_identify := q\<rparr>)"
proof -
  have wf: "swarm_wf s" and idle: "protocols_idle s"
    using assms by (simp_all add: swarm_ok_def)
  obtain q r where q: "identify_handle_input M i (sw_identify s) = Some (q, r)" "identify_ok q"
    using identify_handle_input_ok [OF swarm_wf_identify_ok [OF wf]] by blast
  show thesis
  proof (rule that [of q r])
    show "to_identify M i s = Some (s\<lparr>sw_identify := q\<rparr>, r)"
      by (simp add: to_identify_def q)
    show wf': "swarm_wf (s\<lparr>sw_identify := q\<rparr>)"
      using wf q(2) by (rule swarm_wf_sw_identify)
    show "ping_is_idle (sw_ping s)"
      using idle by (simp add: protocols_idle_def)
    show "swarm_ok (s\<lparr>sw_identify := q\<rparr>)" if "r \<noteq> Ok ()"
      using that wf' idle identify_error_idle [of M i "sw_identify s" q] q(1)
      by (cases r) (simp_all add: swarm_ok_def protocols_idle_def)
  qed
qed

lemma ping_then_drain:
  assumes "swarm_ok s"
  obtains q r where "to_ping i s = Some (s\<lparr>sw_ping := q\<rparr>, r)" "swarm_ok (drain_ping_outputs M (s\<lparr>sw_ping := q\<rparr>))"
    "r \<noteq> Ok () \<Longrightarrow> swarm_ok (s\<lparr>sw_ping := q\<rparr>)"
  using to_ping_ok [OF assms, of i] by (metis swarm_ok_drain_ping swarm_core.select_convs(2) swarm_core.surjective swarm_core.update_convs(1))

lemma identify_then_drain:
  assumes "swarm_ok s"
  obtains q r where "to_identify M i s = Some (s\<lparr>sw_identify := q\<rparr>, r)"
    "swarm_ok (drain_identify_outputs (s\<lparr>sw_identify := q\<rparr>))" "r \<noteq> Ok () \<Longrightarrow> swarm_ok (s\<lparr>sw_identify := q\<rparr>)"
  using to_identify_ok [OF assms, of M i] by (metis swarm_ok_drain_identify swarm_core.select_convs(1) swarm_core.surjective swarm_core.update_convs(2))

section \<open>Opening streams\<close>

lemma next_open_token_eq:
  "next_open_token s =
     (if next_token s = 0 then (OpenStreamToken 1, s\<lparr>next_token := 2\<rparr>)
      else (OpenStreamToken (next_token s), s\<lparr>next_token := next_token s + 1\<rparr>))"
  by (subst next_open_token.simps, subst next_open_token.simps) (simp add: Let_def)

text \<open>The state after a stream was requested on a connection.\<close>

definition request_stream :: "connection_id \<Rightarrow> rstr \<Rightarrow> protocol_kind \<Rightarrow> 'mh swarm_core \<Rightarrow> 'mh swarm_core" where
  "request_stream c pid target s =
     (let (token, s) = next_open_token s
      in sw_push_action (SaOpenStream c token)
           (s\<lparr>pending_opens := bm_insert token \<lparr>pn_conn_id = c, pn_protocol = pid, pn_target = target\<rparr>
                (pending_opens s)\<rparr>))"

lemma swarm_wf_request_stream [simp]: "swarm_wf s \<Longrightarrow> swarm_wf (request_stream c pid target s)"
  by (auto simp: request_stream_def next_open_token_eq swarm_wf_defs bm.invar_upd sw_push_defs)

lemma request_stream_fields [simp]:
  "sw_ping (request_stream c pid target s) = sw_ping s"
  "sw_identify (request_stream c pid target s) = sw_identify s"
  "conn_to_peer (request_stream c pid target s) = conn_to_peer s"
  "peer_to_conn (request_stream c pid target s) = peer_to_conn s"
  "established_peers (request_stream c pid target s) = established_peers s"
  "ready_peers (request_stream c pid target s) = ready_peers s"
  "sw_peer_info (request_stream c pid target s) = sw_peer_info s"
  "pending_pings (request_stream c pid target s) = pending_pings s"
  "stream_owner (request_stream c pid target s) = stream_owner s"
  "inbound_negotiators (request_stream c pid target s) = inbound_negotiators s"
  "outbound_negotiators (request_stream c pid target s) = outbound_negotiators s"
  "active_connections (request_stream c pid target s) = active_connections s"
  "conn_to_remote_addr (request_stream c pid target s) = conn_to_remote_addr s"
  "sw_events (request_stream c pid target s) = sw_events s"
  by (simp_all add: request_stream_def next_open_token_eq sw_push_defs)

lemma swarm_ok_request_stream [simp]: "swarm_ok s \<Longrightarrow> swarm_ok (request_stream c pid target s)"
  by (simp add: swarm_ok_def protocols_idle_def)

lemma queue_open_eq:
  "queue_open_protocol_stream p pid target s =
     (case bm_get (peer_to_conn s) p of
        None \<Rightarrow> Some (s, Err (SwNotConnected p))
      | Some c \<Rightarrow> if bm_get (conn_to_peer s) c = Some p then Some (request_stream c pid target s, Ok ()) else None)"
  by (auto simp: queue_open_protocol_stream_def require_conn_def request_stream_def ok_or_def Let_def
      split: option.split prod.split)

lemma queue_open_connected:
  assumes "table_ok s" and "bm_get (peer_to_conn s) p = Some c"
  shows "queue_open_protocol_stream p pid target s = Some (request_stream c pid target s, Ok ())"
  using assms by (simp add: queue_open_eq table_okD)

lemma queue_open_ok:
  assumes "swarm_ok s"
  obtains t r where "queue_open_protocol_stream p pid target s = Some (t, r)" "swarm_ok t"
proof (cases "bm_get (peer_to_conn s) p")
  case (Some c)
  then show thesis
    using assms that [OF queue_open_connected swarm_ok_request_stream] by (simp add: swarm_ok_def swarm_wf_def)
qed (use assms that in \<open>simp add: queue_open_eq\<close>)

section \<open>Connections\<close>

lemma bm_reinsert:
  assumes "bm_ok m"
  shows "(case bm_get m k of Some v \<Rightarrow> bm_insert k v (bm_remove k m) | None \<Rightarrow> bm_remove k m) = m"
  using assms by (intro bm_eqI) (auto simp: bm.invar_upd bm.invar_del split: option.split)

lemma remove_peer_idle [simp]:
  "ping_is_idle (remove_peer p q) = ping_is_idle q"
  "identify_is_idle (id_remove_peer p r) = identify_is_idle r"
  by (simp_all add: ping_is_idle_def identify_is_idle_def remove_peer_def id_remove_peer_def)

lemma remove_peer_ok:
  "ping_ok q \<Longrightarrow> ping_ok (remove_peer p q)"
  "identify_ok r \<Longrightarrow> identify_ok (id_remove_peer p r)"
  by (auto simp: ping_ok_def identify_ok_def remove_peer_def id_remove_peer_def bm.invar_del)

lemma supersede_connection_eq:
  assumes "swarm_ok s" and "bm_get (conn_to_peer s) c = Some p"
  shows "supersede_connection M c s = Some (sw_push_action (SaCloseConnection c) (forget_streams c
    (s\<lparr>conn_to_peer := bm_remove c (conn_to_peer s),
       sw_ping := remove_peer p (sw_ping s), sw_identify := id_remove_peer p (sw_identify s),
       sw_peer_info := bm_remove p (sw_peer_info s), ready_peers := bs_remove p (ready_peers s),
       established_peers := bs_remove p (established_peers s),
       active_connections := bm_remove c (active_connections s),
       conn_to_remote_addr := bm_remove c (conn_to_remote_addr s)\<rparr>)))"
proof -
  have idle: "ping_is_idle (sw_ping s)" "identify_is_idle (sw_identify s)" and "bm_ok (pending_pings s)"
    using assms(1) by (simp_all add: swarm_ok_def protocols_idle_def swarm_wf_defs)
  then have "bm_get (pending_pings s) p = None \<Longrightarrow> bm_remove p (pending_pings s) = pending_pings s"
    "bm_get (pending_pings s) p = Some v \<Longrightarrow> bm_insert p v (bm_remove p (pending_pings s)) = pending_pings s" for v
    using bm_reinsert [of "pending_pings s" p] by simp_all
  then show ?thesis
    using idle assms(2)
    by (cases "bm_get (pending_pings s) p")
      (simp_all add: supersede_connection_def to_ping_def to_identify_def Let_def)
qed

lemma swarm_wf_forget_streams:
  "swarm_wf s \<Longrightarrow> swarm_wf (forget_streams c s)"
  by (auto simp: swarm_wf_defs forget_streams_def)

lemma forget_streams_fields [simp]:
  "sw_ping (forget_streams c s) = sw_ping s"
  "sw_identify (forget_streams c s) = sw_identify s"
  "conn_to_peer (forget_streams c s) = conn_to_peer s"
  "peer_to_conn (forget_streams c s) = peer_to_conn s"
  "established_peers (forget_streams c s) = established_peers s"
  "ready_peers (forget_streams c s) = ready_peers s"
  "sw_peer_info (forget_streams c s) = sw_peer_info s"
  "pending_pings (forget_streams c s) = pending_pings s"
  "active_connections (forget_streams c s) = active_connections s"
  "conn_to_remote_addr (forget_streams c s) = conn_to_remote_addr s"
  "sw_events (forget_streams c s) = sw_events s"
  "sw_actions (forget_streams c s) = sw_actions s"
  by (simp_all add: forget_streams_def)

lemma swarm_ok_forget_streams [simp]: "swarm_ok s \<Longrightarrow> swarm_ok (forget_streams c s)"
  by (simp add: swarm_ok_def swarm_wf_forget_streams protocols_idle_def)

text \<open>The tables after the old connection of a peer was given up and the new one entered.\<close>

definition assign_connection ::
  "connection_id \<Rightarrow> 'mh::linorder peer_id \<Rightarrow> 'mh swarm_core \<Rightarrow> 'mh swarm_core" where
  "assign_connection c p s =
     s\<lparr>conn_to_peer := bm_insert c p (conn_to_peer s), peer_to_conn := bm_insert p c (peer_to_conn s)\<rparr>"

lemma assign_connection_parts [simp]:
  "protocols_ok (assign_connection c p s) = protocols_ok s"
  "maps_ok s \<Longrightarrow> maps_ok (assign_connection c p s)"
  "negotiators_ok (assign_connection c p s) = negotiators_ok s"
  "protocols_idle (assign_connection c p s) = protocols_idle s"
  by (simp_all add: assign_connection_def protocols_ok_def maps_ok_def negotiators_ok_def protocols_idle_def
      bm.invar_upd)

lemma assign_connection_commute [simp]:
  "assign_connection c p (sw_push_action a s) = sw_push_action a (assign_connection c p s)"
  "assign_connection c p (forget_streams d s) = forget_streams d (assign_connection c p s)"
  by (simp_all add: assign_connection_def sw_push_action_def forget_streams_def)

lemma table_ok_assign:
  assumes "table_ok s" and "bm_get (conn_to_peer s) c = None \<or> bm_get (conn_to_peer s) c = Some p"
  shows "table_ok (assign_connection c p s)"
proof -
  have "q = p" if "bm_get (peer_to_conn s) q = Some c" for q
    using assms(2) table_okD [OF assms(1) that] by auto
  then show ?thesis
    using assms(1) unfolding table_ok_def by (auto simp: assign_connection_def)
qed

lemma swarm_ok_assign:
  assumes "swarm_ok s" and "bm_get (conn_to_peer s) c = None \<or> bm_get (conn_to_peer s) c = Some p"
  shows "swarm_ok (assign_connection c p s)"
  using assms by (simp add: swarm_ok_def swarm_wf_def table_ok_assign)

lemma swarm_ok_supersede_assign:
  assumes "swarm_ok s" and "bm_get (conn_to_peer s) c = None \<or> bm_get (conn_to_peer s) c = Some p"
    and "bm_get (peer_to_conn s) p = Some old" and "old \<noteq> c" and "supersede_connection M old s = Some t"
  shows "swarm_ok (assign_connection c p t)"
proof -
  have old: "bm_get (conn_to_peer s) old = Some p"
    using assms(1,3) by (simp add: swarm_ok_def swarm_wf_def table_okD)
  let ?u = "s\<lparr>conn_to_peer := bm_remove old (conn_to_peer s),
       sw_ping := remove_peer p (sw_ping s), sw_identify := id_remove_peer p (sw_identify s),
       sw_peer_info := bm_remove p (sw_peer_info s), ready_peers := bs_remove p (ready_peers s),
       established_peers := bs_remove p (established_peers s),
       active_connections := bm_remove old (active_connections s),
       conn_to_remote_addr := bm_remove old (conn_to_remote_addr s)\<rparr>"
  have t: "t = sw_push_action (SaCloseConnection old) (forget_streams old ?u)"
    using assms(5) supersede_connection_eq [OF assms(1) old, of M] by simp
  have other: "q = p" if "bm_get (peer_to_conn s) q = Some c \<or> bm_get (peer_to_conn s) q = Some old" for q
    using assms(1,2) that old by (auto simp: swarm_ok_def swarm_wf_def dest: table_okD)
  have "table_ok (assign_connection c p ?u)"
    using assms(1-4) other unfolding swarm_ok_def swarm_wf_def table_ok_def by (auto simp: assign_connection_def)
  moreover have "protocols_ok ?u" "maps_ok ?u" "negotiators_ok ?u" "protocols_idle ?u"
    using assms(1) by (simp_all add: swarm_ok_def swarm_wf_defs protocols_idle_def bm.invar_del remove_peer_ok)
  ultimately have "swarm_ok (assign_connection c p ?u)"
    by (simp add: swarm_ok_def swarm_wf_def)
  then show ?thesis
    unfolding t by simp
qed

lemma swarm_ok_established:
  assumes "swarm_ok s" and "bm_get (peer_to_conn s) p \<noteq> None"
  shows "swarm_ok (s\<lparr>established_peers := bs_insert p (established_peers s)\<rparr>)"
  using assms by (auto simp: swarm_ok_def swarm_wf_defs protocols_idle_def)

text \<open>The end of \<open>register_connection\<close> for a connection that was not known before.\<close>

definition announce_connection :: "connection_id \<Rightarrow> 'mh::linorder peer_id \<Rightarrow> 'mh swarm_core \<Rightarrow> 'mh swarm_core" where
  "announce_connection c p s =
     (let s = request_stream c IDENTIFY_PROTOCOL_ID PkIdentifyInitiator
            (sw_push_event (SwConnectionEstablished p)
              (s\<lparr>established_peers := bs_insert p (established_peers s)\<rparr>))
      in if bm_get (pending_pings s) p \<noteq> None \<and> find_negotiated_ping_stream p s = None \<and>
            \<not> has_pending_ping_stream p s
         then request_stream c PING_PROTOCOL_ID PkPing s else s)"

lemma swarm_ok_announce:
  assumes "swarm_ok s" and "bm_get (peer_to_conn s) p \<noteq> None"
  shows "swarm_ok (announce_connection c p s)"
  using swarm_ok_established [OF assms] by (simp add: announce_connection_def Let_def)

lemma register_connection_eq:
  assumes "(case bm_get (peer_to_conn s) p of
         Some existing \<Rightarrow> if existing \<noteq> c then supersede_connection M existing s else Some s
       | None \<Rightarrow> Some s) = Some t"
  shows "register_connection M c p s =
    Some (if bm_get (conn_to_peer s) c = None then announce_connection c p (assign_connection c p t)
          else assign_connection c p t)"
proof -
  let ?u = "assign_connection c p t"
  let ?v = "sw_push_event (SwConnectionEstablished p) (?u\<lparr>established_peers := bs_insert p (established_peers ?u)\<rparr>)"
  have q: "queue_open_protocol_stream p pid target w = Some (request_stream c pid target w, Ok ())"
    if "peer_to_conn w = peer_to_conn ?u" "conn_to_peer w = conn_to_peer ?u" for pid target w
    using that by (simp add: queue_open_eq assign_connection_def)
  have v: "peer_to_conn ?v = peer_to_conn ?u" "conn_to_peer ?v = conn_to_peer ?u"
    by (simp_all add: sw_push_event_def)
  show ?thesis
    unfolding register_connection_def assms
    unfolding bind.bind_lunit Let_def assign_connection_def [symmetric]
    by (cases "bm_get (conn_to_peer s) c") (simp_all add: q v announce_connection_def Let_def)
qed

lemma register_connection_ok:
  assumes "swarm_ok s" and "bm_get (conn_to_peer s) c = None \<or> bm_get (conn_to_peer s) c = Some p"
  shows "\<exists>t. register_connection M c p s = Some t \<and> swarm_ok t"
proof -
  obtain t where t: "(case bm_get (peer_to_conn s) p of
         Some existing \<Rightarrow> if existing \<noteq> c then supersede_connection M existing s else Some s
       | None \<Rightarrow> Some s) = Some t" "swarm_ok (assign_connection c p t)"
  proof (cases "bm_get (peer_to_conn s) p")
    case None
    then show ?thesis
      using that [of s] swarm_ok_assign [OF assms] by simp
  next
    case (Some old)
    have "bm_get (conn_to_peer s) old = Some p"
      using assms(1) Some by (simp add: swarm_ok_def swarm_wf_def table_okD)
    then obtain t where "supersede_connection M old s = Some t"
      using supersede_connection_eq [OF assms(1)] by blast
    then show ?thesis
      using that [of s] that [of t] swarm_ok_assign [OF assms] swarm_ok_supersede_assign [OF assms Some] Some
      by (cases "old = c") simp_all
  qed
  have "bm_get (peer_to_conn (assign_connection c p t)) p \<noteq> None"
    by (simp add: assign_connection_def)
  then show ?thesis
    using swarm_ok_announce [OF t(2)] t(2) by (simp add: register_connection_eq [OF t(1)])
qed

text \<open>Synthetic peer ids: the multihash container accepts them, so they never panic.\<close>

definition crypto_laws :: "'mh multihash_api \<Rightarrow> (bytes \<Rightarrow> bytes) \<Rightarrow> bool" where
  "crypto_laws M H \<longleftrightarrow> multihash_laws M \<and> (\<forall>x. length (H x) = 32)"

lemma synthetic_peer_id:
  assumes "crypto_laws M H"
  obtains p where "from_public_key_protobuf M H (synthetic_key c) = Some p"
proof -
  have wrap: "\<exists>m. mh_wrap M code d = Ok m" if "length d \<le> 64" for code d
    using assms that unfolding crypto_laws_def multihash_laws_def PEER_ID_MULTIHASH_SIZE_def by blast
  show thesis
  proof (cases "length (synthetic_key c) \<le> 42")
    case True
    then show thesis
      using that wrap [of "synthetic_key c" IDENTITY_MULTIHASH_CODE]
      by (auto simp: from_public_key_protobuf_def build_multihash_def MAX_INLINE_KEY_LENGTH_def)
  next
    case False
    then show thesis
      using that wrap [of "H (synthetic_key c)" SHA256_MULTIHASH_CODE] assms
      by (auto simp: from_public_key_protobuf_def build_multihash_def MAX_INLINE_KEY_LENGTH_def crypto_laws_def)
  qed
qed

lemma ensure_peer_id_ok:
  assumes "crypto_laws M H" and "swarm_ok s"
  obtains p t where "ensure_peer_id_for_conn M H c s = Some (p, t)" "swarm_ok t"
    "bm_get (conn_to_peer t) c = Some p" "t = s \<or> bm_get (conn_to_peer s) c = None \<and> t = assign_connection c p s"
proof (cases "bm_get (conn_to_peer s) c")
  case None
  obtain p where "from_public_key_protobuf M H (synthetic_key c) = Some p"
    using synthetic_peer_id [OF assms(1)] by blast
  then have "ensure_peer_id_for_conn M H c s = Some (p, assign_connection c p s)"
    using None by (simp add: ensure_peer_id_for_conn_def assign_connection_def)
  then show thesis
    using that [of p "assign_connection c p s"] swarm_ok_assign [OF assms(2), of c p] None
    by (simp add: assign_connection_def)
qed (use that assms(2) in \<open>simp add: ensure_peer_id_for_conn_def\<close>)

subsection \<open>A connection closes\<close>

text \<open>The state of a peer is dropped from every table.\<close>

definition forget_peer :: "'mh::linorder peer_id \<Rightarrow> 'mh swarm_core \<Rightarrow> 'mh swarm_core" where
  "forget_peer p s =
     s\<lparr>peer_to_conn := bm_remove p (peer_to_conn s),
       sw_ping := remove_peer p (sw_ping s), sw_identify := id_remove_peer p (sw_identify s),
       pending_pings := bm_remove p (pending_pings s),
       sw_peer_info := bm_remove p (sw_peer_info s), ready_peers := bs_remove p (ready_peers s),
       established_peers := bs_remove p (established_peers s)\<rparr>"

definition forget_connection :: "connection_id \<Rightarrow> 'mh swarm_core \<Rightarrow> 'mh swarm_core" where
  "forget_connection c s =
     s\<lparr>active_connections := bm_remove c (active_connections s),
       conn_to_remote_addr := bm_remove c (conn_to_remote_addr s),
       conn_to_peer := bm_remove c (conn_to_peer s)\<rparr>"

lemma bm_ok_remove_absent [simp]: "bm_get m k = None \<Longrightarrow> bm_remove k m = m"
  by (rule bm_remove_absent)

lemma handle_connection_closed_eq:
  assumes "protocols_idle s"
  shows "handle_connection_closed M c s = Some (forget_streams c
    (case bm_get (conn_to_peer s) c of
       None \<Rightarrow> forget_connection c s
     | Some p \<Rightarrow>
         if bm_get (peer_to_conn s) p = Some c
         then sw_push_event (SwConnectionClosed p) (forget_peer p (forget_connection c s))
         else forget_connection c s))"
  using assms
  by (cases "bm_get (conn_to_peer s) c")
    (simp_all add: handle_connection_closed_def forget_connection_def forget_peer_def to_ping_def to_identify_def
      protocols_idle_def Let_def)

lemma swarm_ok_forget_connection:
  assumes "swarm_ok s" and "\<And>p. bm_get (peer_to_conn s) p \<noteq> Some c"
  shows "swarm_ok (forget_connection c s)"
proof -
  have "table_ok (forget_connection c s)"
    using assms unfolding swarm_ok_def swarm_wf_def table_ok_def by (auto simp: forget_connection_def)
  then show ?thesis
    using assms(1) by (simp add: swarm_ok_def swarm_wf_defs forget_connection_def protocols_idle_def bm.invar_del)
qed

lemma swarm_ok_forget_peer:
  assumes "swarm_ok s" and "bm_get (peer_to_conn s) p = Some c"
  shows "swarm_ok (forget_peer p (forget_connection c s))"
proof -
  let ?t = "forget_peer p (forget_connection c s)"
  have tab: "table_ok s"
    using assms(1) by (simp add: swarm_ok_def swarm_wf_def)
  have fields: "peer_to_conn ?t = bm_remove p (peer_to_conn s)" "conn_to_peer ?t = bm_remove c (conn_to_peer s)"
    "established_peers ?t = bs_remove p (established_peers s)" "ready_peers ?t = bs_remove p (ready_peers s)"
    "sw_peer_info ?t = bm_remove p (sw_peer_info s)"
    by (simp_all add: forget_peer_def forget_connection_def)
  have "bm_get (conn_to_peer ?t) d = Some q" if "bm_get (peer_to_conn ?t) q = Some d" for q d
    using that table_okD [OF tab, of q d] primary_unique [OF tab assms(2), of q] by (auto simp: fields split: if_splits)
  moreover have "set (established_peers ?t) \<subseteq> dom (bm_get (peer_to_conn ?t))"
    "set (ready_peers ?t) \<subseteq> dom (bm_get (peer_to_conn ?t))" "set (ready_peers ?t) \<subseteq> dom (bm_get (sw_peer_info ?t))"
    using tab unfolding table_ok_def fields set_bs_remove by auto
  ultimately have "table_ok ?t"
    unfolding table_ok_def by blast
  moreover have "bm_all (\<lambda>payload. length payload = PING_PAYLOAD_LEN) (bm_remove p (pending_pings s))"
    using assms(1) by (intro bm_all_remove) (simp add: swarm_ok_def swarm_wf_defs)
  ultimately show ?thesis
    using assms(1) by (simp add: swarm_ok_def swarm_wf_defs forget_connection_def forget_peer_def
        protocols_idle_def bm.invar_del remove_peer_ok)
qed

lemma handle_connection_closed_ok:
  assumes "swarm_ok s"
  shows "\<exists>t. handle_connection_closed M c s = Some t \<and> swarm_ok t"
proof -
  have other: "bm_get (peer_to_conn s) q = Some c \<Longrightarrow> bm_get (conn_to_peer s) c = Some q" for q
    using assms by (simp add: swarm_ok_def swarm_wf_def table_okD)
  have ok: "swarm_ok (forget_connection c s)" if "\<And>p. bm_get (conn_to_peer s) c = Some p \<Longrightarrow> bm_get (peer_to_conn s) p \<noteq> Some c"
    using other that by (intro swarm_ok_forget_connection [OF assms]) blast
  show ?thesis
    using assms ok swarm_ok_forget_peer [OF assms]
    by (auto simp: handle_connection_closed_eq swarm_ok_def [of s] split: option.split)
qed

subsection \<open>A connection learns who its peer is\<close>

lemma set_bs_rekey: "set (bs_rekey old new m) = (if old \<in> set m then insert new (set m - {old}) else set m)"
  by (simp add: bs_rekey_def)

lemma bs_ok_rekey [simp]: "bs_ok m \<Longrightarrow> bs_ok (bs_rekey old new m)"
  by (simp add: bs_rekey_def)

lemma migrate_peer_idle [simp]:
  "ping_is_idle (migrate_peer old new q) = ping_is_idle q"
  "identify_is_idle (id_migrate_peer old new r) = identify_is_idle r"
  by (auto simp: ping_is_idle_def identify_is_idle_def migrate_peer_def id_migrate_peer_def)

lemma migrate_peer_ok:
  "ping_ok q \<Longrightarrow> ping_ok (migrate_peer old new q)"
  "identify_ok r \<Longrightarrow> identify_ok (id_migrate_peer old new r)"
  using ping_handle_input_ok [of q "PingMigratePeer old new"] identify_handle_input_ok [of r _ "IdMigratePeer old new"]
  by auto

text \<open>Everything that was kept for the old peer id is kept for the new one.\<close>

definition rename_peer :: "'mh::linorder peer_id \<Rightarrow> 'mh peer_id \<Rightarrow> 'mh swarm_core \<Rightarrow> 'mh swarm_core" where
  "rename_peer old new s =
     s\<lparr>peer_to_conn := bm_remove old (peer_to_conn s),
       sw_ping := migrate_peer old new (sw_ping s), sw_identify := id_migrate_peer old new (sw_identify s),
       pending_pings := bm_rekey old new (pending_pings s),
       sw_peer_info := bm_rekey old new (sw_peer_info s),
       ready_peers := bs_rekey old new (ready_peers s),
       established_peers := bs_rekey old new (established_peers s),
       sw_events := map (rename_swarm_event old new) (sw_events s)\<rparr>"

lemma migrate_swarm_peer_eq: "protocols_idle s \<Longrightarrow> migrate_swarm_peer M old new s = Some (rename_peer old new s)"
  by (simp add: migrate_swarm_peer_def rename_peer_def to_ping_def to_identify_def protocols_idle_def
      migrate_buffered_events_def Let_def)

definition adopt_connection :: "connection_id \<Rightarrow> 'mh::linorder peer_id \<Rightarrow> 'mh swarm_core \<Rightarrow> 'mh swarm_core" where
  "adopt_connection c p s =
     (let s = assign_connection c p s
      in s\<lparr>established_peers := bs_insert p (established_peers s)\<rparr>)"

lemma swarm_ok_adopt:
  assumes "swarm_ok s" and "bm_get (conn_to_peer s) c = None"
  shows "swarm_ok (adopt_connection c p s)"
  using swarm_ok_established [OF swarm_ok_assign [OF assms(1)], of c p] assms(2)
  by (simp add: adopt_connection_def assign_connection_def Let_def)

lemma swarm_ok_adopt_renamed:
  assumes "swarm_ok s" and "bm_get (conn_to_peer s) c = Some old" and "old \<noteq> new"
  shows "swarm_ok (adopt_connection c new (rename_peer old new s))"
proof -
  have tab: "table_ok s"
    using assms(1) by (simp add: swarm_ok_def swarm_wf_def)
  let ?t = "adopt_connection c new (rename_peer old new s)"
  have fields: "peer_to_conn ?t = bm_insert new c (bm_remove old (peer_to_conn s))"
    "conn_to_peer ?t = bm_insert c new (conn_to_peer s)"
    "established_peers ?t = bs_insert new (bs_rekey old new (established_peers s))"
    "ready_peers ?t = bs_rekey old new (ready_peers s)"
    "sw_peer_info ?t = bm_rekey old new (sw_peer_info s)"
    by (simp_all add: adopt_connection_def assign_connection_def rename_peer_def Let_def)
  have "q = old" if "bm_get (peer_to_conn s) q = Some c" for q
    using table_okD [OF tab that] assms(2) by simp
  then have "bm_get (conn_to_peer ?t) d = Some q" if "bm_get (peer_to_conn ?t) q = Some d" for q d
    using that table_okD [OF tab, of q d] by (auto simp: fields split: if_splits)
  moreover have "set (established_peers ?t) \<subseteq> dom (bm_get (peer_to_conn ?t))"
    "set (ready_peers ?t) \<subseteq> dom (bm_get (peer_to_conn ?t))"
    using tab unfolding table_ok_def fields set_bs_insert set_bs_rekey by (auto split: if_splits)
  moreover have "set (ready_peers ?t) \<subseteq> dom (bm_get (sw_peer_info ?t))"
    using tab assms(3) unfolding table_ok_def fields set_bs_rekey
    by (auto simp: bm_get_rekey split: if_splits option.splits)
  ultimately have "table_ok ?t"
    unfolding table_ok_def by blast
  moreover have "bm_all (\<lambda>payload. length payload = PING_PAYLOAD_LEN) (bm_rekey old new (pending_pings s))"
    using assms(1) by (intro bm_all_rekey) (simp add: swarm_ok_def swarm_wf_defs)
  ultimately show ?thesis
    using assms(1) by (simp add: swarm_ok_def swarm_wf_defs adopt_connection_def assign_connection_def rename_peer_def
        protocols_idle_def bm.invar_del bm.invar_upd bm_ok_rekey migrate_peer_ok Let_def)
qed

lemma upgrade_connection_identity_eq:
  assumes "protocols_idle s" and "bm_get (conn_to_peer s) c \<noteq> Some new"
  shows "upgrade_connection_identity M c new s =
    Some (request_stream c IDENTIFY_PROTOCOL_ID PkIdentifyInitiator
      (try_emit_peer_ready new (sw_push_event (SwConnectionEstablished new)
        (adopt_connection c new
          (case bm_get (conn_to_peer s) c of Some old \<Rightarrow> rename_peer old new s | None \<Rightarrow> s)))))"
proof -
  let ?s = "case bm_get (conn_to_peer s) c of Some old \<Rightarrow> rename_peer old new s | None \<Rightarrow> s"
  let ?u = "try_emit_peer_ready new (sw_push_event (SwConnectionEstablished new) (adopt_connection c new ?s))"
  have mig: "(case bm_get (conn_to_peer s) c of Some stale \<Rightarrow> migrate_swarm_peer M stale new s | None \<Rightarrow> Some s) = Some ?s"
    using assms(1) by (simp add: migrate_swarm_peer_eq split: option.split)
  have maps: "peer_to_conn ?u = bm_insert new c (peer_to_conn ?s)" "conn_to_peer ?u = bm_insert c new (conn_to_peer ?s)"
    by (simp_all add: try_emit_peer_ready_def sw_push_event_def adopt_connection_def assign_connection_def Let_def
        split: option.split)
  have q: "queue_open_protocol_stream new pid target ?u = Some (request_stream c pid target ?u, Ok ())" for pid target
    by (simp add: queue_open_eq maps)
  have adopt: "t\<lparr>conn_to_peer := bm_insert c new (conn_to_peer t), peer_to_conn := bm_insert new c (peer_to_conn t),
      established_peers := bs_insert new (established_peers t)\<rparr> = adopt_connection c new t" for t :: "'a swarm_core"
    by (simp add: adopt_connection_def assign_connection_def)
  show ?thesis
    unfolding upgrade_connection_identity_def mig
    unfolding bind.bind_lunit Let_def adopt q
    using assms(2) by simp
qed

lemma upgrade_connection_identity_ok:
  assumes "swarm_ok s"
  shows "\<exists>t. upgrade_connection_identity M c new s = Some t \<and> swarm_ok t"
proof (cases "bm_get (conn_to_peer s) c = Some new")
  case True
  then show ?thesis
    using assms by (simp add: upgrade_connection_identity_def)
next
  case False
  let ?s = "case bm_get (conn_to_peer s) c of Some old \<Rightarrow> rename_peer old new s | None \<Rightarrow> s"
  have "swarm_ok (adopt_connection c new ?s)"
    using False swarm_ok_adopt [OF assms, of c new] swarm_ok_adopt_renamed [OF assms, of c _ new]
    by (auto split: option.split)
  then have "swarm_ok (try_emit_peer_ready new (sw_push_event (SwConnectionEstablished new) (adopt_connection c new ?s)))"
    by (simp add: swarm_ok_try_emit_peer_ready)
  then show ?thesis
    using upgrade_connection_identity_eq [OF _ False, of M] assms by (simp add: swarm_ok_def [of s])
qed

end
