(* ===== verification/SwarmStreams.thy ===== *)
theory SwarmStreams
  imports SwarmInv
begin

text \<open>
  The streams of the swarm: what a negotiator hands out for a chunk of bytes, what the swarm makes of
  it, and that every input and request keeps the invariant of \<open>SwarmInv\<close> without a panic.
\<close>

section \<open>What a negotiator hands out\<close>

fun verdict :: "multistream_output \<Rightarrow> bool" where
  "verdict (MsOutboundData _) = False"
| "verdict _ = True"

text \<open>Bytes to send, and a verdict exactly when the negotiation ends.\<close>

definition handed_out :: "ms_state \<Rightarrow> multistream_output list \<Rightarrow> bool" where
  "handed_out st outs \<longleftrightarrow> (\<exists>ds vs. outs = map MsOutboundData ds @ vs \<and>
     (if st = MsDone then \<exists>v. vs = [v] \<and> verdict v else vs = []))"

lemma handed_out_prepend: "handed_out st outs \<Longrightarrow> handed_out st (map MsOutboundData ds @ outs)"
  unfolding handed_out_def by (metis append.assoc map_append)

lemma handed_out_verdict: "verdict v \<Longrightarrow> handed_out MsDone [v]"
  unfolding handed_out_def by (rule exI [of _ "[]"]) auto

lemma handle_message_handed_out:
  assumes "handle_message role state desired supported line = Some (st, outs)" and "state \<noteq> MsDone"
  shows "handed_out st outs"
proof -
  have "handed_out MsDone [MsOutboundData d, v]" if "verdict v" for d v
    unfolding handed_out_def by (rule exI [of _ "[d]"]) (use that in auto)
  moreover have "handed_out WaitingForProtocolResponse [MsOutboundData d]" "handed_out WaitingForProtocolRequest []" for d
    unfolding handed_out_def by (rule exI [of _ "[d]"], simp) (rule exI [of _ "[]"], simp)
  ultimately show ?thesis
    using assms handed_out_verdict by (auto simp: handle_message_def ms_protocol_error_def
        split: ms_state.splits if_splits ms_role.splits option.splits)
qed

lemma receive_loop_handed_out:
  "receive_loop s [] = Some (t, outs) \<Longrightarrow> ms_state s \<noteq> MsDone \<Longrightarrow> handed_out (ms_state t) outs"
proof (induction s arbitrary: t outs rule: measure_induct_rule [where f = "\<lambda>s. length (ms_recv_buf s)"])
  case (less s)
  show ?case
  proof (cases "decode_message (ms_recv_buf s)")
    case (Complete payload n)
    then obtain st produced where h: "handle_message (ms_role s) (ms_state s) (desired_protocol s)
        (supported_protocols s) payload = Some (st, produced)"
      using less.prems by (auto simp: receive_loop.simps [of s] split: option.splits)
    let ?s = "s\<lparr>ms_state := st, ms_recv_buf := drop n (ms_recv_buf s)\<rparr>"
    have p: "handed_out st produced"
      using handle_message_handed_out [OF h less.prems(2)] .
    have "receive_loop ?s produced = Some (t, outs)"
      using less.prems Complete h by (simp add: receive_loop.simps [of s])
    then obtain outs' where outs': "receive_loop ?s [] = Some (t, outs')" "outs = produced @ outs'"
      using receive_loop_outputs [of ?s produced] by auto
    show ?thesis
    proof (cases "st = MsDone")
      case True
      then show ?thesis
        using outs' p by (auto simp: receive_loop.simps)
    next
      case False
      then obtain ds where "produced = map MsOutboundData ds"
        using p by (auto simp: handed_out_def)
      then show ?thesis
        using less.IH [OF _ outs'(1)] False outs'(2) decode_message_less [OF Complete]
        by (simp add: handed_out_prepend)
    qed
  next
    case (DecodeError e)
    then show ?thesis
      using less.prems by (auto simp: receive_loop.simps [of s] handed_out_verdict)
  next
    case Incomplete
    then show ?thesis
      using less.prems by (auto simp: receive_loop.simps [of s] handed_out_def)
  qed
qed

lemma ms_data_handed_out:
  assumes "negotiating n"
  obtains n' outs where "ms_handle_input (MsData data) n = Some (n'\<lparr>ms_pending := outs\<rparr>, Ok ())"
    "ms_receive n data = Some (n', outs)" "ms_ok n'" "ms_pending n' = []" "handed_out (ms_state n') outs"
proof -
  obtain n' outs where r: "ms_receive n data = Some (n', outs)" "ms_ok n'"
    using assms ms_receive_ok [of n] by (metis negotiating_def)
  have "receive_loop (n\<lparr>ms_recv_buf := ms_recv_buf n @ data\<rparr>) [] = Some (n', outs)"
    using r(1) assms by (simp add: ms_receive_def negotiating_def)
  then have "handed_out (ms_state n') outs"
    using receive_loop_handed_out assms by (simp add: negotiating_def)
  moreover have "ms_pending n' = []"
    using ms_receive_fields [OF r(1)] assms by (simp add: negotiating_def)
  moreover from this have "ms_handle_input (MsData data) n = Some (n'\<lparr>ms_pending := outs\<rparr>, Ok ())"
    using r(1) by (simp add: ms_handle_input_def)
  ultimately show thesis
    using that r by blast
qed

section \<open>The loops over a negotiator's outputs\<close>

definition put_inbound :: "stream_key \<Rightarrow> multistream_select \<Rightarrow> 'mh swarm_core \<Rightarrow> 'mh swarm_core" where
  "put_inbound key n s = s\<lparr>inbound_negotiators := bm_insert key n (inbound_negotiators s)\<rparr>"

definition put_outbound :: "stream_key \<Rightarrow> multistream_select \<Rightarrow> protocol_kind \<Rightarrow> 'mh swarm_core \<Rightarrow> 'mh swarm_core" where
  "put_outbound key n target s =
     s\<lparr>outbound_negotiators := bm_insert key \<lparr>po_negotiator = n, po_target = target\<rparr> (outbound_negotiators s)\<rparr>"

definition send_all :: "connection_id \<Rightarrow> stream_id \<Rightarrow> bytes list \<Rightarrow> 'mh swarm_core \<Rightarrow> 'mh swarm_core" where
  "send_all c sid ds s = s\<lparr>sw_actions := sw_actions s @ map (SaSendStream c sid) ds\<rparr>"

lemma send_all_simps [simp]:
  "send_all c sid [] s = s"
  "send_all c sid ds (sw_push_action (SaSendStream c sid d) s) = send_all c sid (d # ds) s"
  "send_all c sid ds (put_inbound key n s) = put_inbound key n (send_all c sid ds s)"
  "send_all c sid ds (put_outbound key n tg s) = put_outbound key n tg (send_all c sid ds s)"
  by (simp_all add: send_all_def sw_push_action_def put_inbound_def put_outbound_def)

lemma push_put [simp]:
  "sw_push_action a (put_inbound key n s) = put_inbound key n (sw_push_action a s)"
  "sw_push_action a (put_outbound key n tg s) = put_outbound key n tg (sw_push_action a s)"
  by (simp_all add: sw_push_action_def put_inbound_def put_outbound_def)

lemma established_put [simp]:
  "established_peer_for_conn c (put_inbound key n s) = established_peer_for_conn c s"
  "established_peer_for_conn c (put_outbound key n tg s) = established_peer_for_conn c s"
  "established_peer_for_conn c (send_all d sid ds s) = established_peer_for_conn c s"
  by (simp_all add: established_peer_for_conn_def put_inbound_def put_outbound_def send_all_def split: option.split)

lemma poll_inbound_put:
  "poll_inbound key (put_inbound key n s) =
     (case ms_pending n of [] \<Rightarrow> None | x # xs \<Rightarrow> Some (x, put_inbound key (n\<lparr>ms_pending := xs\<rparr>) s))"
  by (simp add: poll_inbound_def put_inbound_def ms_poll_output_def split: list.split)

lemma poll_outbound_put:
  "poll_outbound key (put_outbound key n tg s) =
     (case ms_pending n of [] \<Rightarrow> None | x # xs \<Rightarrow> Some (x, put_outbound key (n\<lparr>ms_pending := xs\<rparr>) tg s))"
  by (simp add: poll_outbound_def put_outbound_def ms_poll_output_def split: list.split)

lemma inbound_loop_sends:
  "inbound_loop c sid neg (put_inbound (c, sid) (n\<lparr>ms_pending := map MsOutboundData ds @ vs\<rparr>) s) =
     inbound_loop c sid neg (put_inbound (c, sid) (n\<lparr>ms_pending := vs\<rparr>) (send_all c sid ds s))"
proof (induction ds arbitrary: s)
  case (Cons d ds)
  show ?case
    by (subst inbound_loop.simps) (simp add: poll_inbound_put Let_def Cons.IH)
qed simp

lemma outbound_loop_sends:
  "outbound_loop c sid neg (put_outbound (c, sid) (n\<lparr>ms_pending := map MsOutboundData ds @ vs\<rparr>) tg s) =
     outbound_loop c sid neg (put_outbound (c, sid) (n\<lparr>ms_pending := vs\<rparr>) tg (send_all c sid ds s))"
proof (induction ds arbitrary: s)
  case (Cons d ds)
  show ?case
    by (subst outbound_loop.simps) (simp add: poll_outbound_put Let_def Cons.IH)
qed simp

lemma incoming_loop_sends:
  "incoming_loop (c, sid) (put_inbound (c, sid) (n\<lparr>ms_pending := map MsOutboundData ds\<rparr>) s) =
     put_inbound (c, sid) (n\<lparr>ms_pending := []\<rparr>) (send_all c sid ds s)"
proof (induction ds arbitrary: s)
  case Nil
  show ?case
    by (subst incoming_loop.simps) (simp add: poll_inbound_put)
next
  case (Cons d ds)
  show ?case
    by (subst incoming_loop.simps) (simp add: poll_inbound_put Cons.IH)
qed

lemma dialer_loop_sends:
  "dialer_loop c sid (n\<lparr>ms_pending := map MsOutboundData ds\<rparr>) s = (n\<lparr>ms_pending := []\<rparr>, send_all c sid ds s)"
proof (induction ds arbitrary: s)
  case Nil
  show ?case
    by (subst dialer_loop.simps) (simp add: ms_poll_output_def)
next
  case (Cons d ds)
  show ?case
    by (subst dialer_loop.simps) (simp add: ms_poll_output_def Cons.IH)
qed

lemmas inbound_loop_sends_only = inbound_loop_sends [where vs = "[]", simplified]
lemmas outbound_loop_sends_only = outbound_loop_sends [where vs = "[]", simplified]

lemma get_put [simp]:
  "bm_get (inbound_negotiators (put_inbound key n s)) key = Some n"
  "bm_get (outbound_negotiators (put_outbound key n tg s)) key = Some \<lparr>po_negotiator = n, po_target = tg\<rparr>"
  by (simp_all add: put_inbound_def put_outbound_def)

text \<open>What the loops do with a verdict.\<close>

lemma inbound_loop_end:
  "ms_pending n = [] \<Longrightarrow> inbound_loop c sid neg (put_inbound (c, sid) n s) = (put_inbound (c, sid) n s, Some neg)"
  "inbound_loop c sid neg (put_inbound (c, sid) (n\<lparr>ms_pending := [MsNegotiated pid]\<rparr>) s) =
     (put_inbound (c, sid) (n\<lparr>ms_pending := []\<rparr>) s, Some (Some pid))"
  "inbound_loop c sid neg (put_inbound (c, sid) (n\<lparr>ms_pending := [MsNotAvailable]\<rparr>) s) =
     (drop_inbound c sid (put_inbound (c, sid) (n\<lparr>ms_pending := []\<rparr>) s), None)"
  "inbound_loop c sid neg (put_inbound (c, sid) (n\<lparr>ms_pending := [MsProtocolError r]\<rparr>) s) =
     (drop_inbound c sid (emit_error SkMultistream (established_peer_for_conn c s) (Some c)
        (lit ''multistream error on stream '' @ show_stream_id sid @ lit '': '' @ r)
        (put_inbound (c, sid) (n\<lparr>ms_pending := []\<rparr>) s)), None)"
  by (simp_all add: inbound_loop.simps [of c sid _ "put_inbound key m t" for key m t] poll_inbound_put)

lemma outbound_loop_end:
  "ms_pending n = [] \<Longrightarrow> outbound_loop c sid b (put_outbound (c, sid) n tg s) = (put_outbound (c, sid) n tg s, Some b)"
  "outbound_loop c sid b (put_outbound (c, sid) (n\<lparr>ms_pending := [MsNegotiated pid]\<rparr>) tg s) =
     (put_outbound (c, sid) (n\<lparr>ms_pending := []\<rparr>) tg s, Some True)"
  "outbound_loop c sid b (put_outbound (c, sid) (n\<lparr>ms_pending := [MsNotAvailable]\<rparr>) tg s) =
     (drop_outbound c sid (emit_error SkUnsupportedProtocol (established_peer_for_conn c s) (Some c)
        (lit ''remote peer does not support protocol for stream '' @ show_stream_id sid)
        (put_outbound (c, sid) (n\<lparr>ms_pending := []\<rparr>) tg s)), None)"
  "outbound_loop c sid b (put_outbound (c, sid) (n\<lparr>ms_pending := [MsProtocolError r]\<rparr>) tg s) =
     (drop_outbound c sid (emit_error SkMultistream (established_peer_for_conn c s) (Some c)
        (lit ''multistream error on stream '' @ show_stream_id sid @ lit '': '' @ r)
        (put_outbound (c, sid) (n\<lparr>ms_pending := []\<rparr>) tg s)), None)"
  by (simp_all add: outbound_loop.simps [of c sid _ "put_outbound key m tg t" for key m tg t] poll_outbound_put)

section \<open>Feeding negotiators\<close>

definition forget_inbound :: "stream_key \<Rightarrow> 'mh swarm_core \<Rightarrow> 'mh swarm_core" where
  "forget_inbound key s = s\<lparr>inbound_negotiators := bm_remove key (inbound_negotiators s)\<rparr>"

definition forget_outbound :: "stream_key \<Rightarrow> 'mh swarm_core \<Rightarrow> 'mh swarm_core" where
  "forget_outbound key s = s\<lparr>outbound_negotiators := bm_remove key (outbound_negotiators s)\<rparr>"

lemma forget_put [simp]:
  "(put_inbound key n s)\<lparr>inbound_negotiators := bm_remove key (inbound_negotiators (put_inbound key n s))\<rparr> =
     forget_inbound key s"
  "(put_outbound key n tg s)\<lparr>outbound_negotiators := bm_remove key (outbound_negotiators (put_outbound key n tg s))\<rparr> =
     forget_outbound key s"
  by (simp_all add: put_inbound_def put_outbound_def forget_inbound_def forget_outbound_def)

lemma drop_put [simp]:
  "drop_inbound c sid (put_inbound (c, sid) n s) = sw_push_action (SaResetStream c sid) (forget_inbound (c, sid) s)"
  "drop_outbound c sid (put_outbound (c, sid) n tg s) = sw_push_action (SaResetStream c sid) (forget_outbound (c, sid) s)"
  "drop_inbound c sid (emit_error k p d t (put_inbound (c, sid) n s)) =
     sw_push_action (SaResetStream c sid) (forget_inbound (c, sid) (emit_error k p d t s))"
  "drop_outbound c sid (emit_error k p d t (put_outbound (c, sid) n tg s)) =
     sw_push_action (SaResetStream c sid) (forget_outbound (c, sid) (emit_error k p d t s))"
  by (simp_all add: drop_inbound_def drop_outbound_def forget_inbound_def forget_outbound_def put_inbound_def
      put_outbound_def emit_error_def sw_push_event_def)

text \<open>How a negotiation goes on after a chunk: it waits for more, it fails, or it hands the stream over.\<close>

datatype negotiation = NegWaiting multistream_select | NegFailed | NegAgreed rstr bytes

definition negotiation_of :: "multistream_select \<Rightarrow> multistream_output list \<Rightarrow> negotiation" where
  "negotiation_of n outs =
     (if ms_state n \<noteq> MsDone then NegWaiting n
      else case last outs of MsNegotiated pid \<Rightarrow> NegAgreed pid (ms_recv_buf n) | _ \<Rightarrow> NegFailed)"

definition sent_bytes :: "multistream_output list \<Rightarrow> bytes list" where
  "sent_bytes outs = List.map_filter (\<lambda>out. case out of MsOutboundData d \<Rightarrow> Some d | _ \<Rightarrow> None) outs"

lemma sent_bytes_simps [simp]:
  "sent_bytes (map MsOutboundData ds @ vs) = ds @ sent_bytes vs"
  "sent_bytes [] = []" "verdict v \<Longrightarrow> sent_bytes [v] = []"
  by (induction ds; simp add: sent_bytes_def List.map_filter_simps) 
    (cases v; simp add: sent_bytes_def List.map_filter_simps)+

lemmas sent_bytes_only = sent_bytes_simps(1) [where vs = "[]", simplified]

lemma feed_inbound_waiting:
  assumes "bm_get (inbound_negotiators s) (c, sid) = Some n" and "negotiating n"
    and "ms_receive n data = Some (n', outs)" and "negotiation_of n' outs = NegWaiting m"
  shows "feed_inbound_negotiator M H c sid data now_ms s = Some (put_inbound (c, sid) n' (send_all c sid (sent_bytes outs) s))"
proof -
  obtain h: "ms_handle_input (MsData data) n = Some (n'\<lparr>ms_pending := outs\<rparr>, Ok ())" and idle: "ms_pending n' = []"
    and "handed_out (ms_state n') outs"
    using ms_data_handed_out [OF assms(2), of data] assms(3) by auto
  then obtain ds where ds: "outs = map MsOutboundData ds @ []" "n'\<lparr>ms_pending := []\<rparr> = n'"
    using assms(4) by (auto simp: handed_out_def negotiation_of_def split: if_splits multistream_output.splits)
  show ?thesis
    by (simp add: feed_inbound_negotiator_def assms(1) h ds inbound_loop_sends_only inbound_loop_end(1) [OF idle]
        sent_bytes_only flip: put_inbound_def)
qed

lemma feed_inbound_agreed:
  assumes "bm_get (inbound_negotiators s) (c, sid) = Some n" and "negotiating n"
    and "ms_receive n data = Some (n', outs)" and "negotiation_of n' outs = NegAgreed pid rest"
  shows "feed_inbound_negotiator M H c sid data now_ms s =
    Option.bind (on_inbound_negotiated M H c sid pid (forget_inbound (c, sid) (send_all c sid (sent_bytes outs) s)))
      (\<lambda>s. if rest \<noteq> [] then dispatch_protocol_data M H c sid rest now_ms s else Some s)"
proof -
  obtain h: "ms_handle_input (MsData data) n = Some (n'\<lparr>ms_pending := outs\<rparr>, Ok ())" and "handed_out (ms_state n') outs"
    using ms_data_handed_out [OF assms(2), of data] assms(3) by auto
  then obtain ds where ds: "outs = map MsOutboundData ds @ [MsNegotiated pid]" and rest: "rest = ms_recv_buf n'"
    using assms(4) by (auto simp: handed_out_def negotiation_of_def split: if_splits multistream_output.splits)
  have "fst (take_remaining_buffer (n'\<lparr>ms_pending := []\<rparr>)) = rest"
    by (simp add: take_remaining_buffer_def rest)
  then show ?thesis
    by (simp add: feed_inbound_negotiator_def assms(1) h ds inbound_loop_sends inbound_loop_end flip: put_inbound_def)
qed

lemma feed_inbound_failed:
  assumes "bm_get (inbound_negotiators s) (c, sid) = Some n" and "negotiating n"
    and "ms_receive n data = Some (n', outs)" and "negotiation_of n' outs = NegFailed"
  shows "\<exists>es. feed_inbound_negotiator M H c sid data now_ms s =
    Some (sw_push_action (SaResetStream c sid) (forget_inbound (c, sid)
      ((send_all c sid (sent_bytes outs) s)\<lparr>sw_events := sw_events s @ es\<rparr>)))"
proof -
  obtain h: "ms_handle_input (MsData data) n = Some (n'\<lparr>ms_pending := outs\<rparr>, Ok ())" and "handed_out (ms_state n') outs"
    using ms_data_handed_out [OF assms(2), of data] assms(3) by auto
  then obtain ds v where ds: "outs = map MsOutboundData ds @ [v]" and v: "verdict v" "\<And>pid. v \<noteq> MsNegotiated pid"
    using assms(4) by (auto simp: handed_out_def negotiation_of_def split: if_splits multistream_output.splits)
  show ?thesis
  proof (cases v)
    case MsNotAvailable
    then show ?thesis
      by (intro exI [of _ "[]"])
        (simp add: feed_inbound_negotiator_def assms(1) h ds inbound_loop_sends inbound_loop_end flip: put_inbound_def,
         simp add: send_all_def)
  next
    case (MsProtocolError r)
    then show ?thesis
      by (intro exI)
        (simp add: feed_inbound_negotiator_def assms(1) h ds inbound_loop_sends inbound_loop_end flip: put_inbound_def,
         simp add: send_all_def emit_error_def sw_push_event_def)
  qed (use v in simp_all)
qed

lemma put_outbound_fold:
  "s\<lparr>outbound_negotiators := bm_insert key (po\<lparr>po_negotiator := n\<rparr>) (outbound_negotiators s)\<rparr> =
     put_outbound key n (po_target po) s"
  by (cases po) (simp add: put_outbound_def)

lemma feed_outbound_waiting:
  assumes "bm_get (outbound_negotiators s) (c, sid) = Some po" and "negotiating (po_negotiator po)"
    and "ms_receive (po_negotiator po) data = Some (n', outs)" and "negotiation_of n' outs = NegWaiting m"
  shows "feed_outbound_negotiator M H c sid data now_ms s =
    Some (put_outbound (c, sid) n' (po_target po) (send_all c sid (sent_bytes outs) s))"
proof -
  obtain h: "ms_handle_input (MsData data) (po_negotiator po) = Some (n'\<lparr>ms_pending := outs\<rparr>, Ok ())"
    and idle: "ms_pending n' = []" and "handed_out (ms_state n') outs"
    using ms_data_handed_out [OF assms(2), of data] assms(3) by auto
  then obtain ds where ds: "outs = map MsOutboundData ds @ []" "n'\<lparr>ms_pending := []\<rparr> = n'"
    using assms(4) by (auto simp: handed_out_def negotiation_of_def split: if_splits multistream_output.splits)
  show ?thesis
    by (simp add: feed_outbound_negotiator_def assms(1) h ds outbound_loop_sends_only outbound_loop_end(1) [OF idle]
        sent_bytes_only put_outbound_fold)
qed

lemma feed_outbound_agreed:
  assumes "bm_get (outbound_negotiators s) (c, sid) = Some po" and "negotiating (po_negotiator po)"
    and "ms_receive (po_negotiator po) data = Some (n', outs)" and "negotiation_of n' outs = NegAgreed pid rest"
  shows "feed_outbound_negotiator M H c sid data now_ms s =
    Option.bind (on_outbound_negotiated M H c sid (po_target po) now_ms
        (forget_outbound (c, sid) (send_all c sid (sent_bytes outs) s)))
      (\<lambda>s. if rest \<noteq> [] then dispatch_protocol_data M H c sid rest now_ms s else Some s)"
proof -
  obtain h: "ms_handle_input (MsData data) (po_negotiator po) = Some (n'\<lparr>ms_pending := outs\<rparr>, Ok ())"
    and "handed_out (ms_state n') outs"
    using ms_data_handed_out [OF assms(2), of data] assms(3) by auto
  then obtain ds where ds: "outs = map MsOutboundData ds @ [MsNegotiated pid]" and rest: "rest = ms_recv_buf n'"
    using assms(4) by (auto simp: handed_out_def negotiation_of_def split: if_splits multistream_output.splits)
  have "fst (take_remaining_buffer (n'\<lparr>ms_pending := []\<rparr>)) = rest"
    by (simp add: take_remaining_buffer_def rest)
  then show ?thesis
    by (simp add: feed_outbound_negotiator_def assms(1) h ds outbound_loop_sends outbound_loop_end put_outbound_fold)
qed

lemma feed_outbound_failed:
  assumes "bm_get (outbound_negotiators s) (c, sid) = Some po" and "negotiating (po_negotiator po)"
    and "ms_receive (po_negotiator po) data = Some (n', outs)" and "negotiation_of n' outs = NegFailed"
  shows "\<exists>es. feed_outbound_negotiator M H c sid data now_ms s =
    Some (sw_push_action (SaResetStream c sid) (forget_outbound (c, sid)
      ((send_all c sid (sent_bytes outs) s)\<lparr>sw_events := sw_events s @ es\<rparr>)))"
proof -
  obtain h: "ms_handle_input (MsData data) (po_negotiator po) = Some (n'\<lparr>ms_pending := outs\<rparr>, Ok ())"
    and "handed_out (ms_state n') outs"
    using ms_data_handed_out [OF assms(2), of data] assms(3) by auto
  then obtain ds v where ds: "outs = map MsOutboundData ds @ [v]" and v: "verdict v" "\<And>pid. v \<noteq> MsNegotiated pid"
    using assms(4) by (auto simp: handed_out_def negotiation_of_def split: if_splits multistream_output.splits)
  then have "v = MsNotAvailable \<or> (\<exists>r. v = MsProtocolError r)"
    by (cases v) auto
  then show ?thesis
    by (elim disjE exE; intro exI)
      (simp add: feed_outbound_negotiator_def assms(1) h ds outbound_loop_sends outbound_loop_end put_outbound_fold,
       simp add: send_all_def emit_error_def sw_push_event_def)+
qed

section \<open>The invariant, stream by stream\<close>

lemma swarm_ok_send_all [simp]: "swarm_ok (send_all c sid ds s) = swarm_ok s"
  by (simp add: swarm_ok_def swarm_wf_defs protocols_idle_def send_all_def)

lemma swarm_ok_events [simp]: "swarm_ok (s\<lparr>sw_events := es\<rparr>) = swarm_ok s"
  by (simp add: swarm_ok_def swarm_wf_defs protocols_idle_def)

lemma swarm_ok_put_inbound: "swarm_ok s \<Longrightarrow> negotiating n \<Longrightarrow> swarm_ok (put_inbound key n s)"
  by (auto simp: swarm_ok_def swarm_wf_defs protocols_idle_def put_inbound_def bm.invar_upd)

lemma swarm_ok_put_outbound: "swarm_ok s \<Longrightarrow> negotiating n \<Longrightarrow> swarm_ok (put_outbound key n tg s)"
  by (auto simp: swarm_ok_def swarm_wf_defs protocols_idle_def put_outbound_def bm.invar_upd)

lemma swarm_ok_forget_negotiator [simp]:
  "swarm_ok s \<Longrightarrow> swarm_ok (forget_inbound key s)"
  "swarm_ok s \<Longrightarrow> swarm_ok (forget_outbound key s)"
  by (auto simp: swarm_ok_def swarm_wf_defs protocols_idle_def forget_inbound_def forget_outbound_def bm.invar_del)

lemma swarm_ok_owner:
  "swarm_ok s \<Longrightarrow> swarm_ok (s\<lparr>stream_owner := bm_insert key k (stream_owner s)\<rparr>)"
  "swarm_ok s \<Longrightarrow> swarm_ok (s\<lparr>stream_owner := bm_remove key (stream_owner s)\<rparr>)"
  by (simp_all add: swarm_ok_def swarm_wf_defs protocols_idle_def bm.invar_upd bm.invar_del)

lemma swarm_ok_pending_opens:
  "swarm_ok s \<Longrightarrow> swarm_ok (s\<lparr>pending_opens := bm_remove token (pending_opens s)\<rparr>)"
  by (simp add: swarm_ok_def swarm_wf_defs protocols_idle_def bm.invar_del)

lemma swarm_ok_pending_pings:
  "swarm_ok s \<Longrightarrow> swarm_ok (s\<lparr>pending_pings := bm_remove p (pending_pings s)\<rparr>)"
  "swarm_ok s \<Longrightarrow> length payload = PING_PAYLOAD_LEN \<Longrightarrow>
     swarm_ok (s\<lparr>pending_pings := bm_insert p payload (pending_pings s)\<rparr>)"
  by (auto simp: swarm_ok_def swarm_wf_defs protocols_idle_def bm.invar_upd bm.invar_del)

lemma swarm_ok_address:
  "swarm_ok s \<Longrightarrow> swarm_ok (s\<lparr>conn_to_remote_addr := bm_insert c a (conn_to_remote_addr s)\<rparr>)"
  "swarm_ok s \<Longrightarrow> swarm_ok (s\<lparr>active_connections := bm_insert c b (active_connections s),
     conn_to_remote_addr := bm_insert c a (conn_to_remote_addr s)\<rparr>)"
  by (simp_all add: swarm_ok_def swarm_wf_defs protocols_idle_def bm.invar_upd)

lemma negotiating_receive:
  assumes "negotiating n" and "ms_receive n data = Some (n', outs)" and "ms_state n' \<noteq> MsDone"
  shows "negotiating n'"
  using ms_data_handed_out [OF assms(1), of data] assms(2,3) by (auto simp: negotiating_def)

lemma swarm_ok_negotiating:
  "swarm_ok s \<Longrightarrow> bm_get (inbound_negotiators s) key = Some n \<Longrightarrow> negotiating n"
  "swarm_ok s \<Longrightarrow> bm_get (outbound_negotiators s) key = Some po \<Longrightarrow> negotiating (po_negotiator po)"
  unfolding swarm_ok_def swarm_wf_defs by (blast dest: bm_allD)+

section \<open>Every handler keeps the invariant\<close>

lemma dispatch_protocol_data_ok:
  assumes "crypto_laws M H" and "swarm_ok s"
  shows "\<exists>t. dispatch_protocol_data M H c sid data now_ms s = Some t \<and> swarm_ok t"
proof (cases "bm_get (stream_owner s) (c, sid)")
  case (Some k)
  obtain p u where u: "ensure_peer_id_for_conn M H c s = Some (p, u)" "swarm_ok u"
    using ensure_peer_id_ok [OF assms] by metis
  show ?thesis
    using Some u ping_then_drain [OF u(2), of "PingStreamData p sid data now_ms" M]
      identify_then_drain [OF u(2), of M "IdStreamData p sid data"]
    by (cases k) (simp_all add: dispatch_protocol_data_def, (metis bind.bind_lunit case_prod_conv)+)
qed (use assms(2) in \<open>simp add: dispatch_protocol_data_def\<close>)

lemma handle_stream_remote_write_closed_ok:
  assumes "crypto_laws M H" and "swarm_ok s"
  shows "\<exists>t. handle_stream_remote_write_closed M H c sid s = Some t \<and> swarm_ok t"
proof (cases "bm_get (stream_owner s) (c, sid)")
  case (Some k)
  obtain p u where u: "ensure_peer_id_for_conn M H c s = Some (p, u)" "swarm_ok u"
    using ensure_peer_id_ok [OF assms] by metis
  show ?thesis
    using Some u ping_then_drain [OF u(2), of "PingStreamRemoteWriteClosed p sid" M]
      identify_then_drain [OF u(2), of M "IdStreamRemoteWriteClosed p sid"]
    by (cases k) (simp_all add: handle_stream_remote_write_closed_def, (metis bind.bind_lunit case_prod_conv)+)
qed (use assms(2) in \<open>simp add: handle_stream_remote_write_closed_def\<close>)

lemma handle_stream_closed_ok:
  assumes "swarm_ok s"
  shows "\<exists>t. handle_stream_closed M c sid s = Some t \<and> swarm_ok t"
proof -
  let ?s = "s\<lparr>stream_owner := bm_remove (c, sid) (stream_owner s)\<rparr>"
  have ok: "swarm_ok ?s"
    using assms by (rule swarm_ok_owner(2))
  have forget: "swarm_ok (t\<lparr>inbound_negotiators := bm_remove (c, sid) (inbound_negotiators t),
      outbound_negotiators := bm_remove (c, sid) (outbound_negotiators t)\<rparr>)" if "swarm_ok t" for t :: "'a swarm_core"
    using swarm_ok_forget_negotiator(2) [OF swarm_ok_forget_negotiator(1) [OF that], of "(c, sid)" "(c, sid)"]
    by (simp add: forget_inbound_def forget_outbound_def)
  show ?thesis
  proof (cases "bm_get (stream_owner s) (c, sid)")
    case None
    then show ?thesis
      using forget [OF ok] by (simp add: handle_stream_closed_def)
  next
    case (Some k)
    show ?thesis
    proof (cases "bm_get (conn_to_peer s) c")
      case None
      then show ?thesis
        using Some forget [OF ok] by (cases k) (simp_all add: handle_stream_closed_def)
    next
      case (Some p)
      obtain t r where t: "to_ping (PingStreamClosed p sid) ?s = Some (t, r)" "swarm_ok (drain_ping_outputs M t)"
        using ping_then_drain [OF ok] by metis
      obtain t' r' where t': "to_identify M (IdStreamClosed p sid) ?s = Some (t', r')" "swarm_ok (drain_identify_outputs t')"
        using identify_then_drain [OF ok] by metis
      show ?thesis
        using Some \<open>bm_get (stream_owner s) (c, sid) = Some k\<close> ok t t'
        by (cases k) (simp_all add: handle_stream_closed_def forget Let_def)
    qed
  qed
qed

lemma on_inbound_negotiated_ok:
  assumes "crypto_laws M H" and "swarm_ok s"
  shows "\<exists>t. on_inbound_negotiated M H c sid pid s = Some t \<and> swarm_ok t"
proof -
  obtain p u where u: "ensure_peer_id_for_conn M H c s = Some (p, u)" "swarm_ok u"
    using ensure_peer_id_ok [OF assms] by metis
  let ?u = "u\<lparr>stream_owner := bm_insert (c, sid) PkPing (stream_owner u)\<rparr>"
  have ok: "swarm_ok ?u"
    using u(2) by (rule swarm_ok_owner(1))
  show ?thesis
  proof (cases "pid = PING_PROTOCOL_ID")
    case True
    then show ?thesis
      using u ping_then_drain [OF ok, of "PingRegisterInboundStream p sid" M]
      by (simp add: on_inbound_negotiated_def) (metis bind.bind_lunit case_prod_conv)
  next
    case False
    let ?i = "IdRegisterOutboundStream p sid (bm_get (conn_to_remote_addr u) c) (local_addresses u)"
    obtain q r where q: "to_identify M ?i u = Some (u\<lparr>sw_identify := q\<rparr>, r)" "swarm_wf (u\<lparr>sw_identify := q\<rparr>)"
      "ping_is_idle (sw_ping u)" "r \<noteq> Ok () \<Longrightarrow> swarm_ok (u\<lparr>sw_identify := q\<rparr>)"
      using to_identify_ok [OF u(2)] by metis
    let ?v = "u\<lparr>sw_identify := q, stream_owner := bm_insert (c, sid) PkIdentifyResponder (stream_owner u)\<rparr>"
    have "swarm_ok (drain_identify_outputs ?v)"
      using q(2,3) by (intro swarm_ok_drain_identify) (simp_all add: swarm_wf_defs bm.invar_upd)
    then have "\<exists>t. on_inbound_negotiated M H c sid IDENTIFY_PROTOCOL_ID s = Some t \<and> swarm_ok t"
      using u q by (cases r) (auto simp: on_inbound_negotiated_def PING_PROTOCOL_ID_def IDENTIFY_PROTOCOL_ID_def lit_def)
    then show ?thesis
      using False u swarm_ok_owner(1) [OF u(2), of "(c, sid)" "PkUser pid"]
      by (cases "pid = IDENTIFY_PROTOCOL_ID") (simp_all add: on_inbound_negotiated_def)
  qed
qed

lemma on_outbound_negotiated_ok:
  assumes "crypto_laws M H" and "swarm_ok s"
  shows "\<exists>t. on_outbound_negotiated M H c sid target now_ms s = Some t \<and> swarm_ok t"
proof -
  obtain p u where u: "ensure_peer_id_for_conn M H c s = Some (p, u)" "swarm_ok u"
    using ensure_peer_id_ok [OF assms] by metis
  let ?u = "u\<lparr>stream_owner := bm_insert (c, sid) target (stream_owner u)\<rparr>"
  have ok: "swarm_ok ?u"
    using u(2) by (rule swarm_ok_owner(1))
  show ?thesis
  proof (cases target)
    case PkPing
    obtain q r where q: "to_ping (PingRegisterOutboundStream p sid) ?u = Some (?u\<lparr>sw_ping := q\<rparr>, r)"
      "swarm_ok (drain_ping_outputs M (?u\<lparr>sw_ping := q\<rparr>))" "r \<noteq> Ok () \<Longrightarrow> swarm_ok (?u\<lparr>sw_ping := q\<rparr>)"
      using ping_then_drain [OF ok] by metis
    let ?v = "drain_ping_outputs M (?u\<lparr>sw_ping := q\<rparr>)"
    have send: "\<exists>t. Option.bind (to_ping (PingSendPing p payload now_ms)
          (?v\<lparr>pending_pings := bm_remove p (pending_pings ?v)\<rparr>)) (\<lambda>(s, r). Some (case r of
            Inr _ \<Rightarrow> drain_ping_outputs M s
          | Inl e \<Rightarrow> emit_error SkPing (Some p) (Some c)
              (lit ''deferred ping send failed: '' @ show_ping_error M e) s)) = Some t \<and> swarm_ok t" for payload
    proof -
      obtain w r where "to_ping (PingSendPing p payload now_ms) (?v\<lparr>pending_pings := bm_remove p (pending_pings ?v)\<rparr>) =
          Some (w, r)" "swarm_ok (drain_ping_outputs M w)" "r \<noteq> Ok () \<Longrightarrow> swarm_ok w"
        using ping_then_drain [OF swarm_ok_pending_pings(1) [OF q(2)]] by metis
      then show ?thesis
        by (cases r) simp_all
    qed
    show ?thesis
    proof (cases r)
      case (Inl e)
      then show ?thesis
        using PkPing u q(1,3) swarm_ok_owner(2) [OF swarm_ok_push(3) [THEN iffD2, OF q(3)]]
        by (simp add: on_outbound_negotiated_def Let_def)
    next
      case (Inr x)
      then show ?thesis
        using PkPing u q(1,2) send
        by (cases "bm_get (pending_pings ?v) p") (simp_all add: on_outbound_negotiated_def Let_def)
    qed
  next
    case PkIdentifyInitiator
    then show ?thesis
      using u identify_then_drain [OF ok, of M "IdRegisterInboundStream p sid"]
      by (simp add: on_outbound_negotiated_def) (metis bind.bind_lunit case_prod_conv)
  qed (use u ok in \<open>simp_all add: on_outbound_negotiated_def\<close>)
qed

lemma ms_start_new:
  "ms_handle_input MsStart (ms_listener ps) =
     Some ((ms_listener ps)\<lparr>ms_started := True, ms_pending := [MsOutboundData (encode_message MULTISTREAM_PROTOCOL_ID)]\<rparr>, Ok ())"
  "ms_handle_input MsStart (ms_dialer p) =
     Some ((ms_dialer p)\<lparr>ms_started := True, ms_pending := [MsOutboundData (encode_message MULTISTREAM_PROTOCOL_ID)]\<rparr>, Ok ())"
  by (simp_all add: ms_handle_input_def ms_start_def ms_listener_def ms_dialer_def)

lemma handle_incoming_stream_eq:
  "handle_incoming_stream c sid s =
     Some (put_inbound (c, sid) ((ms_listener (sw_supported s))\<lparr>ms_started := True\<rparr>)
       (sw_push_action (SaSendStream c sid (encode_message MULTISTREAM_PROTOCOL_ID)) s))"
  using incoming_loop_sends [where n = "(ms_listener (sw_supported s))\<lparr>ms_started := True\<rparr>"
      and ds = "[encode_message MULTISTREAM_PROTOCOL_ID]" and s = s]
  by (simp add: handle_incoming_stream_def ms_start_new send_all_def sw_push_action_def flip: put_inbound_def)
    (simp add: ms_listener_def)

lemma handle_stream_opened_eq:
  assumes "bm_get (pending_opens s) token = Some \<lparr>pn_conn_id = c, pn_protocol = pid, pn_target = target\<rparr>"
  shows "handle_stream_opened c sid token s =
    Some (put_outbound (c, sid) ((ms_dialer pid)\<lparr>ms_started := True\<rparr>) target
      (sw_push_action (SaSendStream c sid (encode_message MULTISTREAM_PROTOCOL_ID))
        (s\<lparr>pending_opens := bm_remove token (pending_opens s)\<rparr>)))"
  using assms dialer_loop_sends [where n = "(ms_dialer pid)\<lparr>ms_started := True\<rparr>"
      and ds = "[encode_message MULTISTREAM_PROTOCOL_ID]" and s = "s\<lparr>pending_opens := bm_remove token (pending_opens s)\<rparr>"]
  by (simp add: handle_stream_opened_def ms_start_new send_all_def sw_push_action_def put_outbound_def)
    (simp add: ms_dialer_def)

lemma negotiating_new:
  "negotiating ((ms_listener ps)\<lparr>ms_started := True\<rparr>)" "negotiating ((ms_dialer p)\<lparr>ms_started := True\<rparr>)"
  by (simp_all add: negotiating_def ms_ok_def ms_listener_def ms_dialer_def)

lemma handle_stream_opened_ok:
  assumes "swarm_ok s"
  shows "\<exists>t. handle_stream_opened c sid token s = Some t \<and> swarm_ok t"
proof (cases "\<exists>pid target. bm_get (pending_opens s) token = Some \<lparr>pn_conn_id = c, pn_protocol = pid, pn_target = target\<rparr>")
  case True
  then show ?thesis
    using swarm_ok_pending_opens [OF assms, of token] negotiating_new
    by (auto simp: handle_stream_opened_eq swarm_ok_put_outbound)
next
  case False
  then show ?thesis
  proof (cases "bm_get (pending_opens s) token")
    case (Some po)
    then have "pn_conn_id po \<noteq> c"
      using False by (cases po) auto
    then show ?thesis
      using Some swarm_ok_pending_opens [OF assms, of token] by (simp add: handle_stream_opened_def Let_def)
  qed (use assms in \<open>simp add: handle_stream_opened_def\<close>)
qed

lemma feed_inbound_negotiator_ok:
  assumes "crypto_laws M H" and "swarm_ok s"
  shows "\<exists>t. feed_inbound_negotiator M H c sid data now_ms s = Some t \<and> swarm_ok t"
proof (cases "bm_get (inbound_negotiators s) (c, sid)")
  case (Some n)
  have n: "negotiating n"
    using swarm_ok_negotiating(1) [OF assms(2) Some] .
  obtain n' outs where r: "ms_receive n data = Some (n', outs)"
    using ms_data_handed_out [OF n] by metis
  show ?thesis
  proof (cases "negotiation_of n' outs")
    case (NegWaiting m)
    then have "negotiating n'"
      using negotiating_receive [OF n r] by (auto simp: negotiation_of_def split: if_splits multistream_output.splits)
    then show ?thesis
      using feed_inbound_waiting [OF Some n r NegWaiting] assms(2) by (simp add: swarm_ok_put_inbound)
  next
    case NegFailed
    then show ?thesis
      using feed_inbound_failed [OF Some n r NegFailed, of M H now_ms] assms(2) by auto
  next
    case (NegAgreed pid rest)
    have "swarm_ok (forget_inbound (c, sid) (send_all c sid (sent_bytes outs) s))"
      using assms(2) by simp
    then obtain t where "on_inbound_negotiated M H c sid pid
        (forget_inbound (c, sid) (send_all c sid (sent_bytes outs) s)) = Some t" "swarm_ok t"
      using on_inbound_negotiated_ok [OF assms(1)] by blast
    then show ?thesis
      using feed_inbound_agreed [OF Some n r NegAgreed, of M H now_ms] dispatch_protocol_data_ok [OF assms(1)] by simp
  qed
qed (use assms(2) in \<open>simp add: feed_inbound_negotiator_def\<close>)

lemma feed_outbound_negotiator_ok:
  assumes "crypto_laws M H" and "swarm_ok s"
  shows "\<exists>t. feed_outbound_negotiator M H c sid data now_ms s = Some t \<and> swarm_ok t"
proof (cases "bm_get (outbound_negotiators s) (c, sid)")
  case (Some po)
  have n: "negotiating (po_negotiator po)"
    using swarm_ok_negotiating(2) [OF assms(2) Some] .
  obtain n' outs where r: "ms_receive (po_negotiator po) data = Some (n', outs)"
    using ms_data_handed_out [OF n] by metis
  show ?thesis
  proof (cases "negotiation_of n' outs")
    case (NegWaiting m)
    then have "negotiating n'"
      using negotiating_receive [OF n r] by (auto simp: negotiation_of_def split: if_splits multistream_output.splits)
    then show ?thesis
      using feed_outbound_waiting [OF Some n r NegWaiting] assms(2) by (simp add: swarm_ok_put_outbound)
  next
    case NegFailed
    then show ?thesis
      using feed_outbound_failed [OF Some n r NegFailed, of M H now_ms] assms(2) by auto
  next
    case (NegAgreed pid rest)
    have "swarm_ok (forget_outbound (c, sid) (send_all c sid (sent_bytes outs) s))"
      using assms(2) by simp
    then obtain t where "on_outbound_negotiated M H c sid (po_target po) now_ms
        (forget_outbound (c, sid) (send_all c sid (sent_bytes outs) s)) = Some t" "swarm_ok t"
      using on_outbound_negotiated_ok [OF assms(1)] by blast
    then show ?thesis
      using feed_outbound_agreed [OF Some n r NegAgreed, of M H now_ms] dispatch_protocol_data_ok [OF assms(1)] by simp
  qed
qed (use assms(2) in \<open>simp add: feed_outbound_negotiator_def\<close>)

section \<open>Inputs and requests\<close>

text \<open>
  The contract of the transport, as its documentation states it: the handshake of a connection
  completes once, so a connection that is already bound to a peer is not announced as connected to
  another one; a later change of identity comes as \<open>PeerIdentityVerified\<close>.
\<close>

fun input_ok :: "'mh swarm_input \<Rightarrow> 'mh swarm_core \<Rightarrow> bool" where
  "input_ok (SiTransport (TeConnected c endpoint) _) s \<longleftrightarrow>
     (case (ep_peer_id endpoint, bm_get (conn_to_peer s) c) of (Some p, Some q) \<Rightarrow> p = q | _ \<Rightarrow> True)"
| "input_ok _ s \<longleftrightarrow> True"

lemma handle_transport_event_ok:
  assumes "crypto_laws M H" and "swarm_ok s" and "input_ok (SiTransport event now_ms) s"
  shows "\<exists>t. handle_transport_event M H event now_ms s = Some t \<and> swarm_ok t"
proof (cases event)
  case (TeConnected c endpoint)
  let ?s = "s\<lparr>active_connections := bm_insert c True (active_connections s),
    conn_to_remote_addr := bm_insert c (ep_transport endpoint) (conn_to_remote_addr s)\<rparr>"
  have ok: "swarm_ok ?s"
    using assms(2) by (rule swarm_ok_address(2))
  have reg: "\<exists>t. register_connection M c p ?s = Some t \<and> swarm_ok t" if "ep_peer_id endpoint = Some p" for p
    using assms(3) TeConnected that by (intro register_connection_ok ok) (auto split: option.splits)
  obtain p t where "ensure_peer_id_for_conn M H c ?s = Some (p, t)" "swarm_ok t"
    using ensure_peer_id_ok [OF assms(1) ok] by metis
  then show ?thesis
    using TeConnected reg by (cases "ep_peer_id endpoint") simp_all
next
  case (TePeerIdentityVerified c endpoint prev)
  then show ?thesis
    using swarm_ok_address(1) [OF assms(2), of c "ep_transport endpoint"] upgrade_connection_identity_ok
    by (cases "ep_peer_id endpoint") (simp_all add: Let_def)
next
  case (TeStreamData c sid data)
  then show ?thesis
    using feed_inbound_negotiator_ok [OF assms(1,2), of c sid data now_ms]
      feed_outbound_negotiator_ok [OF assms(1,2), of c sid data now_ms]
      dispatch_protocol_data_ok [OF assms(1,2), of c sid data now_ms]
    by (simp add: handle_stream_data_def)
next
  case (TeIncomingStream c sid)
  then show ?thesis
    using assms(2) negotiating_new by (simp add: handle_incoming_stream_eq swarm_ok_put_inbound)
qed (use assms in \<open>simp_all add: swarm_ok_address handle_stream_remote_write_closed_ok handle_stream_closed_ok
    handle_connection_closed_ok\<close>)

lemma swarm_handle_input_ok:
  assumes "crypto_laws M H" and "swarm_ok s" and "input_ok i s"
  shows "\<exists>t. swarm_handle_input M H i s = Some t \<and> swarm_ok t"
proof (cases i)
  case (SiTransport event now_ms)
  then show ?thesis
    using handle_transport_event_ok [OF assms(1,2)] assms(3) by simp
next
  case (SiTick now_ms)
  obtain q r where "to_ping (PingTick now_ms) s = Some (s\<lparr>sw_ping := q\<rparr>, r)" "swarm_wf (s\<lparr>sw_ping := q\<rparr>)"
    using to_ping_ok [OF assms(2)] by metis
  then show ?thesis
    using SiTick by (simp add: handle_tick_def collect_protocol_events_def swarm_ok_collect)
next
  case (SiStreamOpened c sid token now_ms)
  then show ?thesis
    using handle_stream_opened_ok [OF assms(2)] by simp
qed (use assms(2) swarm_ok_pending_opens [OF assms(2)] in
  \<open>simp_all add: handle_open_stream_failed_def record_runtime_error_def Let_def split: option.split\<close>)

text \<open>What the application may ask for, as one type.\<close>

datatype 'mh swarm_request =
    RqPing "'mh peer_id" bytes u64
  | RqOpenUserStream "'mh peer_id" rstr
  | RqSendUserStream "'mh peer_id" stream_id bytes
  | RqCloseUserStreamWrite "'mh peer_id" stream_id
  | RqResetUserStream "'mh peer_id" stream_id
  | RqDisconnect "'mh peer_id"
  | RqAddUserProtocol rstr
  | RqSetLocalAddresses "'mh multiaddr list"

fun serve_request :: "'mh::linorder multihash_api \<Rightarrow> 'mh swarm_request \<Rightarrow> 'mh swarm_core \<Rightarrow>
    ('mh swarm_core \<times> ('mh swarm_error + unit)) option" where
  "serve_request M (RqPing p payload now_ms) s = swarm_ping M p payload now_ms s"
| "serve_request M (RqOpenUserStream p pid) s = open_user_stream p pid s"
| "serve_request M (RqSendUserStream p sid data) s = Some (send_user_stream p sid data s)"
| "serve_request M (RqCloseUserStreamWrite p sid) s = Some (close_user_stream_write p sid s)"
| "serve_request M (RqResetUserStream p sid) s = Some (reset_user_stream p sid s)"
| "serve_request M (RqDisconnect p) s = Some (disconnect p s)"
| "serve_request M (RqAddUserProtocol pid) s = Some (add_user_protocol pid s, Ok ())"
| "serve_request M (RqSetLocalAddresses addrs) s = Some (set_local_addresses addrs s, Ok ())"

text \<open>A ping payload is an array of 32 bytes.\<close>

fun request_ok :: "'mh swarm_request \<Rightarrow> bool" where
  "request_ok (RqPing p payload now_ms) \<longleftrightarrow> length payload = PING_PAYLOAD_LEN"
| "request_ok _ \<longleftrightarrow> True"

lemma swarm_ping_ok:
  assumes "swarm_ok s" and "length payload = PING_PAYLOAD_LEN"
  shows "\<exists>t r. swarm_ping M p payload now_ms s = Some (t, r) \<and> swarm_ok t"
proof -
  obtain t r where t: "to_ping (PingSendPing p payload now_ms) s = Some (t, r)"
    "swarm_ok (drain_ping_outputs M t)" "r \<noteq> Ok () \<Longrightarrow> swarm_ok t"
    using ping_then_drain [OF assms(1)] by metis
  have ok: "swarm_ok (s\<lparr>pending_pings := bm_insert p payload (pending_pings s)\<rparr>)"
    using swarm_ok_pending_pings(2) [OF assms] .
  obtain u r' where u: "queue_open_protocol_stream p PING_PROTOCOL_ID PkPing
      (s\<lparr>pending_pings := bm_insert p payload (pending_pings s)\<rparr>) = Some (u, r')" "swarm_ok u"
    using queue_open_ok [OF ok] by metis
  show ?thesis
    using assms(1) t ok u by (cases r) (auto simp: swarm_ping_def)
qed

lemma serve_request_ok:
  assumes "swarm_ok s" and "request_ok r"
  shows "\<exists>t res. serve_request M r s = Some (t, res) \<and> swarm_ok t"
proof (cases r)
  case (RqPing p payload now_ms)
  then show ?thesis
    using swarm_ping_ok [OF assms(1)] assms(2) by simp
next
  case (RqOpenUserStream p pid)
  obtain t res where "queue_open_protocol_stream p pid (PkUser pid) s = Some (t, res)" "swarm_ok t"
    using queue_open_ok [OF assms(1)] by metis
  then show ?thesis
    using assms(1) RqOpenUserStream by (simp add: open_user_stream_def)
next
  case (RqAddUserProtocol pid)
  then show ?thesis
    using assms(1) by (auto simp: add_user_protocol_def add_protocol_def swarm_ok_def swarm_wf_defs protocols_idle_def
        identify_ok_def identify_is_idle_def Let_def)
next
  case (RqSetLocalAddresses addrs)
  then show ?thesis
    using assms(1) by (simp add: set_local_addresses_def swarm_ok_def swarm_wf_defs protocols_idle_def)
qed (use assms(1) in \<open>auto simp: send_user_stream_def close_user_stream_write_def reset_user_stream_def disconnect_def
    on_user_stream_def require_conn_def require_user_stream_conn_def ok_or_def split: option.split\<close>)

lemma swarm_ok_poll: "swarm_ok s \<Longrightarrow> swarm_ok (snd (swarm_poll_output s))"
  by (auto simp: swarm_poll_output_def swarm_ok_def swarm_wf_defs protocols_idle_def split: list.split)

section \<open>Runs of the swarm\<close>

text \<open>The states a driver can bring the core to.\<close>

inductive swarm_reachable ::
  "'mh::linorder multihash_api \<Rightarrow> (bytes \<Rightarrow> bytes) \<Rightarrow> identify_config \<Rightarrow> ping_config \<Rightarrow> 'mh swarm_core \<Rightarrow> bool"
  for M H ic pc where
    new: "swarm_reachable M H ic pc (swarm_new ic pc)"
  | input: "swarm_reachable M H ic pc s \<Longrightarrow> input_ok i s \<Longrightarrow> swarm_handle_input M H i s = Some t \<Longrightarrow>
      swarm_reachable M H ic pc t"
  | poll: "swarm_reachable M H ic pc s \<Longrightarrow> swarm_reachable M H ic pc (snd (swarm_poll_output s))"
  | request: "swarm_reachable M H ic pc s \<Longrightarrow> request_ok r \<Longrightarrow> serve_request M r s = Some (t, res) \<Longrightarrow>
      swarm_reachable M H ic pc t"

lemma swarm_reachable_ok:
  assumes "crypto_laws M H" and "swarm_reachable M H ic pc s"
  shows "swarm_ok s"
  using assms(2)
proof (induction rule: swarm_reachable.induct)
  case (input s i t)
  then show ?case
    using swarm_handle_input_ok [OF assms(1)] by fastforce
next
  case (request s r t res)
  then show ?case
    using serve_request_ok [of s r M] by simp
qed (simp_all add: swarm_ok_poll)

interpretation swarm: sans_io_protocol
  "\<lambda>i s. map_option (\<lambda>t. (t, Ok () :: unit + unit)) (swarm_handle_input M H i s)" swarm_poll_output swarm_is_idle
  "\<lambda>s. length (sw_actions s) + length (sw_events s)" "\<lambda>s. True" for M H
  by unfold_locales (auto simp: swarm_poll_output_def swarm_is_idle_def split: list.splits)

end
