(* ===== verification/SwarmTable.thy ===== *)
theory SwarmTable
  imports SwarmStreams "HOL-Library.List_Lexorder"
begin

text \<open>
  The connection table of the swarm, abstractly: which peer is behind a connection, which connection
  is the primary one of a peer, and which peers the application knows as connected.  Every input
  changes the table as the abstract operations say, and only connection events change it otherwise
  than by giving an unknown connection a placeholder id.
\<close>

section \<open>Multihashes in order\<close>

text \<open>The concrete container gets the derived order, so that the properties have concrete instances.\<close>

instantiation mh64 :: linorder
begin

definition less_eq_mh64 :: "mh64 \<Rightarrow> mh64 \<Rightarrow> bool" where
  "less_eq_mh64 a b \<longleftrightarrow> Rep_mh64 a \<le> Rep_mh64 b"

definition less_mh64 :: "mh64 \<Rightarrow> mh64 \<Rightarrow> bool" where
  "less_mh64 a b \<longleftrightarrow> Rep_mh64 a < Rep_mh64 b"

instance
  by (standard; unfold less_eq_mh64_def less_mh64_def) (auto simp flip: Rep_mh64_inject)

end

definition demo_crypto :: "bytes \<Rightarrow> bytes" where
  "demo_crypto x = replicate 32 (of_nat (length x))"

lemma demo_crypto_laws: "crypto_laws mh64_api demo_crypto"
  by (simp add: crypto_laws_def mh64_laws demo_crypto_def)

section \<open>The connection table, abstractly\<close>

record 'mh conn_table =
  ct_peer :: "connection_id \<rightharpoonup> 'mh peer_id"
  ct_primary :: "'mh peer_id \<rightharpoonup> connection_id"
  ct_known :: "'mh peer_id set"

definition table_of :: "'mh swarm_core \<Rightarrow> 'mh conn_table" where
  "table_of s = \<lparr>ct_peer = bm_get (conn_to_peer s), ct_primary = bm_get (peer_to_conn s),
     ct_known = set (established_peers s)\<rparr>"

text \<open>A completed handshake: the last connection of a peer wins, and a new one makes the peer known.\<close>

definition table_connect :: "connection_id \<Rightarrow> 'mh peer_id \<Rightarrow> 'mh conn_table \<Rightarrow> 'mh conn_table" where
  "table_connect c p t =
     (let peers = (case ct_primary t p of Some old \<Rightarrow> if old \<noteq> c then (ct_peer t)(old := None) else ct_peer t
                                        | None \<Rightarrow> ct_peer t)
      in t\<lparr>ct_peer := peers(c \<mapsto> p), ct_primary := (ct_primary t)(p \<mapsto> c),
           ct_known := (if ct_peer t c = None then insert p (ct_known t)
                        else if \<exists>old. ct_primary t p = Some old \<and> old \<noteq> c then ct_known t - {p} else ct_known t)\<rparr>)"

text \<open>A verified identity replaces the peer id the connection had before.\<close>

definition table_verify :: "connection_id \<Rightarrow> 'mh peer_id \<Rightarrow> 'mh conn_table \<Rightarrow> 'mh conn_table" where
  "table_verify c p t =
     (if ct_peer t c = Some p then t
      else \<lparr>ct_peer = (ct_peer t)(c \<mapsto> p),
            ct_primary = (case ct_peer t c of Some old \<Rightarrow> (ct_primary t)(old := None) | None \<Rightarrow> ct_primary t)(p \<mapsto> c),
            ct_known = insert p (ct_known t - set_option (ct_peer t c))\<rparr>)"

definition table_close :: "connection_id \<Rightarrow> 'mh conn_table \<Rightarrow> 'mh conn_table" where
  "table_close c t =
     (case ct_peer t c of
        None \<Rightarrow> t
      | Some p \<Rightarrow>
          if ct_primary t p = Some c
          then \<lparr>ct_peer = (ct_peer t)(c := None), ct_primary = (ct_primary t)(p := None), ct_known = ct_known t - {p}\<rparr>
          else t\<lparr>ct_peer := (ct_peer t)(c := None)\<rparr>)"

text \<open>A connection without a known peer gets a placeholder id when something has to be kept for it.\<close>

definition table_placeholder :: "connection_id \<Rightarrow> 'mh peer_id \<Rightarrow> 'mh conn_table \<Rightarrow> 'mh conn_table" where
  "table_placeholder c p t =
     (if ct_peer t c = None then t\<lparr>ct_peer := (ct_peer t)(c \<mapsto> p), ct_primary := (ct_primary t)(p \<mapsto> c)\<rparr> else t)"

fun table_input :: "'mh swarm_input \<Rightarrow> 'mh conn_table \<Rightarrow> 'mh conn_table" where
  "table_input (SiTransport (TeConnected c ep) _) t =
     (case ep_peer_id ep of Some p \<Rightarrow> table_connect c p t | None \<Rightarrow> t)"
| "table_input (SiTransport (TePeerIdentityVerified c ep _) _) t =
     (case ep_peer_id ep of Some p \<Rightarrow> table_verify c p t | None \<Rightarrow> t)"
| "table_input (SiTransport (TeClosed c) _) t = table_close c t"
| "table_input _ t = t"

text \<open>The connection on which an input may make a placeholder necessary.\<close>

fun placeholder_conn :: "'mh swarm_input \<Rightarrow> connection_id option" where
  "placeholder_conn (SiTransport (TeConnected c ep) _) = (if ep_peer_id ep = None then Some c else None)"
| "placeholder_conn (SiTransport (TeStreamData c _ _) _) = Some c"
| "placeholder_conn (SiTransport (TeStreamRemoteWriteClosed c _) _) = Some c"
| "placeholder_conn _ = None"

subsection \<open>Nothing else touches the table\<close>

lemma table_of_frame [simp]:
  "table_of (sw_push_event e s) = table_of s"
  "table_of (sw_push_action a s) = table_of s"
  "table_of (emit_error k q d msg s) = table_of s"
  "table_of (s\<lparr>sw_ping := ping\<rparr>) = table_of s"
  "table_of (s\<lparr>sw_identify := ident\<rparr>) = table_of s"
  "table_of (s\<lparr>stream_owner := owner\<rparr>) = table_of s"
  "table_of (s\<lparr>pending_opens := opens\<rparr>) = table_of s"
  "table_of (s\<lparr>pending_pings := pings\<rparr>) = table_of s"
  "table_of (s\<lparr>inbound_negotiators := ins\<rparr>) = table_of s"
  "table_of (s\<lparr>outbound_negotiators := outs\<rparr>) = table_of s"
  "table_of (s\<lparr>active_connections := act\<rparr>) = table_of s"
  "table_of (s\<lparr>conn_to_remote_addr := addr\<rparr>) = table_of s"
  "table_of (s\<lparr>sw_events := es\<rparr>) = table_of s"
  "table_of (s\<lparr>sw_peer_info := infos\<rparr>) = table_of s"
  "table_of (send_all c sid ds s) = table_of s"
  "table_of (put_inbound key n s) = table_of s"
  "table_of (put_outbound key n tg s) = table_of s"
  "table_of (forget_inbound key s) = table_of s"
  "table_of (forget_outbound key s) = table_of s"
  "table_of (forget_streams c s) = table_of s"
  "table_of (request_stream c pid tg s) = table_of s"
  by (simp_all add: table_of_def sw_push_defs send_all_def put_inbound_def put_outbound_def forget_inbound_def
      forget_outbound_def)

lemma table_of_try_emit [simp]: "table_of (try_emit_peer_ready p s) = table_of s"
  by (simp add: table_of_def try_emit_peer_ready_def sw_push_event_def split: option.split)

lemma table_of_drain_ping [simp]: "table_of (drain_ping_outputs M s) = table_of s"
proof (induction M s rule: drain_ping_outputs.induct)
  case (1 M s)
  have "table_of (execute_ping_action a t) = table_of t" "table_of (handle_ping_event M e t) = table_of t"
    for a e and t :: "'a swarm_core"
    by (cases a; simp split: option.split) (cases e; simp)
  then show ?case
    using 1 by (subst drain_ping_outputs.simps) (auto split: prod.split option.split ping_output.split)
qed

lemma table_of_drain_identify [simp]: "table_of (drain_identify_outputs s) = table_of s"
proof (induction s rule: drain_identify_outputs.induct)
  case (1 s)
  have "table_of (execute_identify_action a t) = table_of t" "table_of (handle_identify_event e t) = table_of t"
    for a e and t :: "'a swarm_core"
    by (cases a; simp split: option.split) (cases e; simp)
  then show ?case
    using 1 by (subst drain_identify_outputs.simps) (auto split: prod.split option.split identify_output.split)
qed

lemma table_of_to_protocol:
  "to_ping i s = Some (t, r) \<Longrightarrow> table_of t = table_of s"
  "to_identify M j s = Some (t, r') \<Longrightarrow> table_of t = table_of s"
  by (auto simp: to_ping_def to_identify_def)

lemma table_of_assign:
  "table_of (assign_connection c p s) = (table_of s)\<lparr>ct_peer := (ct_peer (table_of s))(c \<mapsto> p),
     ct_primary := (ct_primary (table_of s))(p \<mapsto> c)\<rparr>"
  by (auto simp: table_of_def assign_connection_def)

definition placeholder :: "'mh multihash_api \<Rightarrow> (bytes \<Rightarrow> bytes) \<Rightarrow> connection_id \<Rightarrow> 'mh peer_id" where
  "placeholder M H c = the (from_public_key_protobuf M H (synthetic_key c))"

lemma table_of_ensure:
  assumes "ensure_peer_id_for_conn M H c s = Some (p, t)"
  shows "table_of t = table_placeholder c (placeholder M H c) (table_of s)"
  using assms by (auto simp: ensure_peer_id_for_conn_def table_placeholder_def placeholder_def table_of_def
      bind_eq_Some_conv split: option.splits)

lemma placeholder_idem: "table_placeholder c p (table_placeholder c p t) = table_placeholder c p t"
  by (simp add: table_placeholder_def)

text \<open>The stream handlers change the table at most by a placeholder.\<close>

definition keeps_table :: "'mh multihash_api \<Rightarrow> (bytes \<Rightarrow> bytes) \<Rightarrow> connection_id \<Rightarrow> 'mh swarm_core \<Rightarrow> 'mh swarm_core \<Rightarrow> bool" where
  "keeps_table M H c s t \<longleftrightarrow>
     table_of t = table_of s \<or> table_of t = table_placeholder c (placeholder M H c) (table_of s)"

lemma keeps_table_trans: "keeps_table M H c s t \<Longrightarrow> keeps_table M H c t u \<Longrightarrow> keeps_table M H c s u"
  by (auto simp: keeps_table_def placeholder_idem)

lemma keeps_table_eq: "table_of t = table_of s \<Longrightarrow> keeps_table M H c s t"
  by (simp add: keeps_table_def)

lemma dispatch_keeps_table:
  assumes "dispatch_protocol_data M H c sid data now_ms s = Some t"
  shows "keeps_table M H c s t"
proof (cases "bm_get (stream_owner s) (c, sid)")
  case (Some k)
  then show ?thesis
    using assms by (cases k) (auto simp: dispatch_protocol_data_def keeps_table_def bind_eq_Some_conv
        table_of_to_protocol dest!: table_of_ensure)
qed (use assms in \<open>simp add: dispatch_protocol_data_def keeps_table_def\<close>)

lemma write_closed_keeps_table:
  assumes "handle_stream_remote_write_closed M H c sid s = Some t"
  shows "keeps_table M H c s t"
proof (cases "bm_get (stream_owner s) (c, sid)")
  case (Some k)
  then show ?thesis
    using assms by (cases k) (auto simp: handle_stream_remote_write_closed_def keeps_table_def bind_eq_Some_conv
        table_of_to_protocol dest!: table_of_ensure)
qed (use assms in \<open>simp add: handle_stream_remote_write_closed_def keeps_table_def\<close>)

lemma stream_closed_keeps_table:
  assumes "handle_stream_closed M c sid s = Some t"
  shows "table_of t = table_of s"
proof (cases "bm_get (stream_owner s) (c, sid)")
  case None
  then show ?thesis
    using assms by (auto simp: handle_stream_closed_def Let_def)
next
  case (Some k)
  then show ?thesis
    using assms by (cases k; cases "bm_get (conn_to_peer s) c")
      (auto simp: handle_stream_closed_def bind_eq_Some_conv table_of_to_protocol Let_def)
qed

lemma not_Ok_unit: "r \<noteq> Ok () \<Longrightarrow> \<exists>e. r = Inl e"
  by (cases r) simp_all

lemma inbound_negotiated_keeps_table:
  assumes "on_inbound_negotiated M H c sid pid s = Some t"
  shows "keeps_table M H c s t"
  using assms by (auto simp: on_inbound_negotiated_def keeps_table_def bind_eq_Some_conv table_of_to_protocol Let_def
      dest!: table_of_ensure not_Ok_unit split: if_split_asm sum.split_asm)

lemma outbound_negotiated_keeps_table:
  assumes "on_outbound_negotiated M H c sid tg now_ms s = Some t"
  shows "keeps_table M H c s t"
  using assms by (cases tg) (auto simp: on_outbound_negotiated_def keeps_table_def bind_eq_Some_conv
      table_of_to_protocol Let_def dest!: table_of_ensure not_Ok_unit split: sum.split_asm option.split_asm)

lemma stream_data_keeps_table:
  assumes "swarm_ok s" and "handle_stream_data M H c sid data now_ms s = Some t"
  shows "keeps_table M H c s t"
proof -
  have rest: "keeps_table M H c s t" if "keeps_table M H c s u"
    "(if rest \<noteq> [] then dispatch_protocol_data M H c sid rest now_ms u else Some u) = Some t" for rest u
    using that dispatch_keeps_table keeps_table_trans by (metis option.inject)
  show ?thesis
  proof (cases "bm_get (inbound_negotiators s) (c, sid)")
    case (Some n)
    have n: "negotiating n"
      using swarm_ok_negotiating(1) [OF assms(1) Some] .
    obtain n' outs where r: "ms_receive n data = Some (n', outs)"
      using ms_data_handed_out [OF n] by metis
    have feed: "feed_inbound_negotiator M H c sid data now_ms s = Some t"
      using assms(2) Some by (simp add: handle_stream_data_def)
    show ?thesis
    proof (cases "negotiation_of n' outs")
      case (NegWaiting m)
      then show ?thesis
        using feed feed_inbound_waiting [OF Some n r NegWaiting] by (auto intro: keeps_table_eq)
    next
      case NegFailed
      then show ?thesis
        using feed feed_inbound_failed [OF Some n r NegFailed, of M H now_ms] by (auto intro: keeps_table_eq)
    next
      case (NegAgreed pid rest')
      then obtain u where u: "on_inbound_negotiated M H c sid pid
          (forget_inbound (c, sid) (send_all c sid (sent_bytes outs) s)) = Some u"
        "(if rest' \<noteq> [] then dispatch_protocol_data M H c sid rest' now_ms u else Some u) = Some t"
        using feed feed_inbound_agreed [OF Some n r NegAgreed, of M H now_ms] by (auto simp: bind_eq_Some_conv)
      then show ?thesis
        using inbound_negotiated_keeps_table [OF u(1)] by (intro rest [OF _ u(2)]) (simp add: keeps_table_def)
    qed
  next
    case None
    show ?thesis
    proof (cases "bm_get (outbound_negotiators s) (c, sid)")
      case (Some po)
      have n: "negotiating (po_negotiator po)"
        using swarm_ok_negotiating(2) [OF assms(1) Some] .
      obtain n' outs where r: "ms_receive (po_negotiator po) data = Some (n', outs)"
        using ms_data_handed_out [OF n] by metis
      have feed: "feed_outbound_negotiator M H c sid data now_ms s = Some t"
        using assms(2) Some None by (simp add: handle_stream_data_def)
      show ?thesis
      proof (cases "negotiation_of n' outs")
        case (NegWaiting m)
        then show ?thesis
          using feed feed_outbound_waiting [OF Some n r NegWaiting] by (auto intro: keeps_table_eq)
      next
        case NegFailed
        then show ?thesis
          using feed feed_outbound_failed [OF Some n r NegFailed, of M H now_ms] by (auto intro: keeps_table_eq)
      next
        case (NegAgreed pid rest')
        then obtain u where u: "on_outbound_negotiated M H c sid (po_target po) now_ms
            (forget_outbound (c, sid) (send_all c sid (sent_bytes outs) s)) = Some u"
          "(if rest' \<noteq> [] then dispatch_protocol_data M H c sid rest' now_ms u else Some u) = Some t"
          using feed feed_outbound_agreed [OF Some n r NegAgreed, of M H now_ms] by (auto simp: bind_eq_Some_conv)
        then show ?thesis
          using outbound_negotiated_keeps_table [OF u(1)] by (intro rest [OF _ u(2)]) (simp add: keeps_table_def)
      qed
    next
      case None
      then show ?thesis
        using assms(2) \<open>bm_get (inbound_negotiators s) (c, sid) = None\<close> dispatch_keeps_table
        by (simp add: handle_stream_data_def)
    qed
  qed
qed

subsection \<open>What the connection events do to the table\<close>

lemma table_of_supersede:
  assumes "swarm_ok s" and "bm_get (conn_to_peer s) c = Some p" and "supersede_connection M c s = Some t"
  shows "table_of t = (table_of s)\<lparr>ct_peer := (ct_peer (table_of s))(c := None), ct_known := ct_known (table_of s) - {p}\<rparr>"
  using assms(3) supersede_connection_eq [OF assms(1,2), of M] by (auto simp: table_of_def sw_push_action_def)

lemma table_of_announce:
  "table_of (announce_connection c p s) = (table_of s)\<lparr>ct_known := insert p (ct_known (table_of s))\<rparr>"
proof -
  have "table_of (s\<lparr>established_peers := bs_insert p (established_peers s)\<rparr>) =
      (table_of s)\<lparr>ct_known := insert p (ct_known (table_of s))\<rparr>"
    by (simp add: table_of_def)
  then show ?thesis
    by (simp add: announce_connection_def Let_def)
qed

lemma table_of_register:
  assumes "swarm_ok s" and "register_connection M c p s = Some t"
  shows "table_of t = table_connect c p (table_of s)"
proof -
  have old: "bm_get (conn_to_peer s) old = Some p" if "bm_get (peer_to_conn s) p = Some old" for old
    using assms(1) that by (simp add: swarm_ok_def swarm_wf_def table_okD)
  let ?sup = "case bm_get (peer_to_conn s) p of
      Some existing \<Rightarrow> if existing \<noteq> c then supersede_connection M existing s else Some s
    | None \<Rightarrow> Some s"
  have "\<exists>u. ?sup = Some u"
    using supersede_connection_eq [OF assms(1) old, of _ M] by (cases "bm_get (peer_to_conn s) p") auto
  then obtain u where u: "?sup = Some u"
    by blast
  have tu: "table_of u = (case bm_get (peer_to_conn s) p of
      Some old \<Rightarrow> if old \<noteq> c then (table_of s)\<lparr>ct_peer := (ct_peer (table_of s))(old := None),
        ct_known := ct_known (table_of s) - {p}\<rparr> else table_of s
    | None \<Rightarrow> table_of s)"
    using u table_of_supersede [OF assms(1) old] by (cases "bm_get (peer_to_conn s) p") (auto split: if_splits)
  have "t = (if bm_get (conn_to_peer s) c = None then announce_connection c p (assign_connection c p u)
      else assign_connection c p u)"
    using assms(2) register_connection_eq [OF u] by simp
  moreover have "ct_primary (table_of s) = bm_get (peer_to_conn s)" "ct_peer (table_of s) = bm_get (conn_to_peer s)"
    by (simp_all add: table_of_def)
  ultimately show ?thesis
    by (cases "bm_get (peer_to_conn s) p")
      (simp_all add: table_of_announce table_of_assign table_connect_def tu Let_def)
qed

lemma table_of_upgrade:
  assumes "swarm_ok s" and "upgrade_connection_identity M c p s = Some t"
  shows "table_of t = table_verify c p (table_of s)"
proof (cases "bm_get (conn_to_peer s) c = Some p")
  case True
  then show ?thesis
    using assms(2) by (simp add: upgrade_connection_identity_def table_verify_def table_of_def)
next
  case False
  have idle: "protocols_idle s"
    using assms(1) by (simp add: swarm_ok_def)
  have adopt: "table_of (adopt_connection c p u) = (table_of u)\<lparr>ct_peer := (ct_peer (table_of u))(c \<mapsto> p),
      ct_primary := (ct_primary (table_of u))(p \<mapsto> c), ct_known := insert p (ct_known (table_of u))\<rparr>" for u :: "'a swarm_core"
    by (auto simp: table_of_def adopt_connection_def assign_connection_def Let_def)
  have rename: "table_of (rename_peer old p s) = (table_of s)\<lparr>ct_primary := (ct_primary (table_of s))(old := None),
      ct_known := (if old \<in> ct_known (table_of s) then insert p (ct_known (table_of s) - {old}) else ct_known (table_of s))\<rparr>"
    for old
    by (auto simp: table_of_def rename_peer_def set_bs_rekey)
  show ?thesis
    using assms(2) upgrade_connection_identity_eq [OF idle False, of M] False
    by (cases "bm_get (conn_to_peer s) c")
      (auto simp: adopt rename table_verify_def, auto simp: table_of_def)
qed

lemma table_of_closed:
  assumes "swarm_ok s" and "handle_connection_closed M c s = Some t"
  shows "table_of t = table_close c (table_of s)"
proof -
  have idle: "protocols_idle s"
    using assms(1) by (simp add: swarm_ok_def)
  show ?thesis
    using assms(2) handle_connection_closed_eq [OF idle, of M c]
    by (cases "bm_get (conn_to_peer s) c")
      (auto simp: table_close_def table_of_def forget_connection_def forget_peer_def sw_push_event_def)
qed

lemma swarm_refines_table:
  assumes "swarm_ok s" and "swarm_handle_input M H i s = Some t"
  shows "table_of t = table_input i (table_of s) \<or>
    (\<exists>c. placeholder_conn i = Some c \<and> table_of t = table_placeholder c (placeholder M H c) (table_of s))"
proof (cases i)
  case (SiTransport event now_ms)
  show ?thesis
  proof (cases event)
    case (TeConnected c ep)
    let ?s = "s\<lparr>active_connections := bm_insert c True (active_connections s),
      conn_to_remote_addr := bm_insert c (ep_transport ep) (conn_to_remote_addr s)\<rparr>"
    have "swarm_ok ?s" "table_of ?s = table_of s"
      using swarm_ok_address(2) [OF assms(1)] by simp_all
    then show ?thesis
      using assms(2) SiTransport TeConnected table_of_register [of ?s M c] table_of_ensure [of M H c ?s]
      by (cases "ep_peer_id ep") (auto simp: Let_def)
  next
    case (TePeerIdentityVerified c ep prev)
    let ?s = "s\<lparr>conn_to_remote_addr := bm_insert c (ep_transport ep) (conn_to_remote_addr s)\<rparr>"
    have "swarm_ok ?s" "table_of ?s = table_of s"
      using swarm_ok_address(1) [OF assms(1)] by simp_all
    then show ?thesis
      using assms(2) SiTransport TePeerIdentityVerified table_of_upgrade [of ?s M c]
      by (cases "ep_peer_id ep") (auto simp: Let_def)
  next
    case (TeStreamData c sid data)
    then show ?thesis
      using assms(2) SiTransport stream_data_keeps_table [OF assms(1)] by (auto simp: keeps_table_def)
  next
    case (TeStreamRemoteWriteClosed c sid)
    then show ?thesis
      using assms(2) SiTransport write_closed_keeps_table by (fastforce simp: keeps_table_def)
  next
    case (TeStreamClosed c sid)
    then show ?thesis
      using assms(2) SiTransport stream_closed_keeps_table by simp
  next
    case (TeClosed c)
    then show ?thesis
      using assms(2) SiTransport table_of_closed [OF assms(1)] by simp
  qed (use assms(2) SiTransport in \<open>auto simp: handle_incoming_stream_eq\<close>)
next
  case (SiStreamOpened c sid token now_ms)
  then show ?thesis
    using assms(2)
  proof (cases "bm_get (pending_opens s) token")
    case (Some po)
    then show ?thesis
      using assms(2) SiStreamOpened handle_stream_opened_eq [of s token c "pn_protocol po" "pn_target po" sid]
      by (cases "pn_conn_id po = c"; cases po) (auto simp: handle_stream_opened_def Let_def)
  qed (auto simp: handle_stream_opened_def)
next
  case (SiTick now_ms)
  then show ?thesis
    using assms(2) by (auto simp: handle_tick_def bind_eq_Some_conv collect_protocol_events_def table_of_to_protocol)
qed (use assms(2) in \<open>auto simp: handle_open_stream_failed_def record_runtime_error_def Let_def split: option.splits\<close>)

end
