(* ===== verification/SwarmUser.thy ===== *)
theory SwarmUser
  imports SwarmTable Negotiation
begin

text \<open>
  The data of a stream as the swarm core sees it: chunk by chunk, first the negotiation of the
  protocol and then, in the same bytes, the payload of the application.
\<close>

section \<open>Streams of the application\<close>

text \<open>The data of a stream, delivered in chunks.\<close>

fun stream_chunks ::
  "'mh::linorder multihash_api \<Rightarrow> (bytes \<Rightarrow> bytes) \<Rightarrow> connection_id \<Rightarrow> stream_id \<Rightarrow> u64 \<Rightarrow> bytes list \<Rightarrow>
     'mh swarm_core \<Rightarrow> 'mh swarm_core option" where
  "stream_chunks M H c sid now_ms [] s = Some s"
| "stream_chunks M H c sid now_ms (d # ds) s =
     Option.bind (swarm_handle_input M H (SiTransport (TeStreamData c sid d) now_ms) s)
       (stream_chunks M H c sid now_ms ds)"

definition deliver :: "'mh peer_id \<Rightarrow> stream_id \<Rightarrow> bytes list \<Rightarrow> 'mh swarm_core \<Rightarrow> 'mh swarm_core" where
  "deliver p sid ds s = s\<lparr>sw_events := sw_events s @ map (SwUserStreamData p sid) ds\<rparr>"

text \<open>A stream that belongs to the application.\<close>

definition user_stream :: "stream_key \<Rightarrow> 'mh peer_id \<Rightarrow> rstr \<Rightarrow> 'mh swarm_core \<Rightarrow> bool" where
  "user_stream key p pid s \<longleftrightarrow>
     bm_get (inbound_negotiators s) key = None \<and> bm_get (outbound_negotiators s) key = None \<and>
     bm_get (stream_owner s) key = Some (PkUser pid) \<and> bm_get (conn_to_peer s) (fst key) = Some p"

lemma user_stream_dispatch:
  assumes "user_stream (c, sid) p pid s"
  shows "dispatch_protocol_data M H c sid d now_ms s = Some (deliver p sid [d] s)"
  using assms by (simp add: user_stream_def dispatch_protocol_data_def ensure_peer_id_for_conn_def deliver_def
      sw_push_event_def)

lemma user_stream_chunks:
  "user_stream (c, sid) p pid s \<Longrightarrow> stream_chunks M H c sid now_ms ds s = Some (deliver p sid ds s)"
proof (induction ds arbitrary: s)
  case (Cons d ds)
  have "user_stream (c, sid) p pid (deliver p sid [d] s)"
    using Cons.prems by (simp add: user_stream_def deliver_def)
  moreover have "handle_stream_data M H c sid d now_ms s = Some (deliver p sid [d] s)"
    using user_stream_dispatch [OF Cons.prems] Cons.prems by (simp add: handle_stream_data_def user_stream_def)
  ultimately show ?case
    using Cons.IH by (simp add: deliver_def)
qed (simp add: deliver_def)

text \<open>How a negotiator takes the bytes \<open>w\<close> of a successful negotiation, and what it answers with.\<close>

definition negotiates :: "multistream_select \<Rightarrow> bytes \<Rightarrow> rstr \<Rightarrow> bytes list \<Rightarrow> bool" where
  "negotiates n w pid replies \<longleftrightarrow> negotiating n \<and> ms_recv_buf n = [] \<and> w \<noteq> [] \<and>
     (\<forall>r. strict_prefix r w \<longrightarrow> (\<exists>n' outs. ms_receive n r = Some (n', outs) \<and> ms_state n' \<noteq> MsDone)) \<and>
     (\<exists>n' outs. ms_receive n w = Some (n', outs) \<and> ms_state n' = MsDone \<and> ms_recv_buf n' = [] \<and>
        last outs = MsNegotiated pid \<and> sent_bytes outs = replies)"

lemma sent_bytes_append: "sent_bytes (xs @ ys) = sent_bytes xs @ sent_bytes ys"
  by (induction xs) (auto simp: sent_bytes_def List.map_filter_simps split: option.split)

text \<open>
  A chunk that leaves the negotiation open, and the chunk that completes it, from any point of the
  stream: \<open>got\<close> was received before, in whatever pieces.
\<close>

lemma negotiates_step:
  assumes "negotiates n w pid replies" and "strict_prefix got w"
    and "ms_receive n got = Some (m, outs)" and "prefix (got @ d) w \<or> prefix w (got @ d)"
  obtains (waiting) m' outs' where "strict_prefix (got @ d) w" "ms_receive m d = Some (m', outs')"
      "negotiation_of m' outs' = NegWaiting m'" "ms_receive n (got @ d) = Some (m', outs @ outs')" "negotiating m"
  | (agreed) m' outs' rest where "got @ d = w @ rest" "ms_receive m d = Some (m', outs')"
      "negotiation_of m' outs' = NegAgreed pid rest" "sent_bytes (outs @ outs') = replies" "negotiating m"
proof -
  have n: "negotiating n" "ms_state n \<noteq> MsDone"
    using assms(1) by (simp_all add: negotiates_def negotiating_def)
  have m: "ms_state m \<noteq> MsDone"
    using assms(1-3) unfolding negotiates_def by fastforce
  have neg_m: "negotiating m"
    using negotiating_receive [OF n(1) assms(3) m] .
  obtain m' outs' where d: "ms_receive m d = Some (m', outs')" "handed_out (ms_state m') outs'"
    using ms_data_handed_out [OF neg_m, of d] by metis
  have all: "ms_receive n (got @ d) = Some (m', outs @ outs')"
    using ms_receive_append [OF assms(3) d(1)] m by simp
  show thesis
  proof (cases "strict_prefix (got @ d) w")
    case True
    then have "ms_state m' \<noteq> MsDone"
      using assms(1) all unfolding negotiates_def by fastforce
    then show thesis
      using waiting [OF True d(1) _ all neg_m] by (simp add: negotiation_of_def)
  next
    case False
    then obtain rest where rest: "got @ d = w @ rest"
      using assms(4) by (metis prefixE prefix_order.le_less append_Nil2)
    obtain k wouts where w: "ms_receive n w = Some (k, wouts)" "ms_state k = MsDone" "ms_recv_buf k = []"
      "last wouts = MsNegotiated pid" "sent_bytes wouts = replies"
      using assms(1) unfolding negotiates_def by blast
    have k: "ms_receive k rest = Some (k, [])"
      using w(2) by (simp add: ms_receive_def)
    have "m' = k\<lparr>ms_recv_buf := rest\<rparr>" "outs @ outs' = wouts"
      using ms_receive_append [OF w(1) k] all n(2) w(2,3) by (simp_all add: rest)
    moreover from this have "outs' \<noteq> []"
      using d(2) w(2) by (auto simp: handed_out_def)
    ultimately show thesis
      using agreed [OF rest d(1) _ _ neg_m] w by (auto simp: negotiation_of_def)
  qed
qed

lemma negotiated_chunks:
  fixes wait :: "multistream_select \<Rightarrow> bytes list \<Rightarrow> 'mh::linorder swarm_core"
  assumes neg: "negotiates n w pid replies"
    and waiting: "\<And>m sent d m' outs. negotiating m \<Longrightarrow> ms_receive m d = Some (m', outs) \<Longrightarrow>
      negotiation_of m' outs = NegWaiting m' \<Longrightarrow>
      handle_stream_data M H c sid d now_ms (wait m sent) = Some (wait m' (sent @ sent_bytes outs))"
    and agreed: "\<And>m sent d m' outs rest. negotiating m \<Longrightarrow> ms_receive m d = Some (m', outs) \<Longrightarrow>
      negotiation_of m' outs = NegAgreed pid rest \<Longrightarrow> sent @ sent_bytes outs = replies \<Longrightarrow>
      handle_stream_data M H c sid d now_ms (wait m sent) = Some (if rest = [] then ready else deliver p sid [rest] ready)"
    and ready: "user_stream (c, sid) p uid ready"
  shows "strict_prefix got w \<Longrightarrow> ms_receive n got = Some (m, outs) \<Longrightarrow> got @ concat cs = w @ payload \<Longrightarrow>
    \<exists>ds. stream_chunks M H c sid now_ms cs (wait m (sent_bytes outs)) = Some (deliver p sid ds ready) \<and>
      concat ds = payload"
proof (induction cs arbitrary: got m outs)
  case Nil
  then have "prefix w got"
    by simp
  then show ?case
    using Nil.prems(1) by (metis prefix_order.less_le_not_le)
next
  case (Cons d cs)
  have "prefix (got @ d) w \<or> prefix w (got @ d)"
    using Cons.prems(3) by (metis prefixI prefix_same_cases append.assoc concat.simps(2))
  with neg Cons.prems(1,2) show ?case
  proof (cases rule: negotiates_step)
    case (waiting m' outs')
    then show ?thesis
      using Cons.IH [OF waiting(1,4)] Cons.prems(3) assms(2) [OF waiting(5,2,3), of "sent_bytes outs"]
      by (simp add: sent_bytes_append)
  next
    case (agreed m' outs' rest)
    have "sent_bytes outs @ sent_bytes outs' = replies"
      using agreed(4) by (simp add: sent_bytes_append)
    then have step: "handle_stream_data M H c sid d now_ms (wait m (sent_bytes outs)) =
        Some (if rest = [] then ready else deliver p sid [rest] ready)"
      using assms(3) [OF agreed(5,2,3)] by simp
    have "(got @ d) @ concat cs = w @ payload"
      using Cons.prems(3) by simp
    then have payload: "payload = rest @ concat cs"
      unfolding agreed(1) by simp
    have "user_stream (c, sid) p uid (deliver p sid [rest] ready)"
      using ready by (simp add: user_stream_def deliver_def)
    then have "stream_chunks M H c sid now_ms cs (deliver p sid [rest] ready) = Some (deliver p sid (rest # cs) ready)"
      using user_stream_chunks [of c sid p uid "deliver p sid [rest] ready" M H now_ms cs] by (simp add: deliver_def)
    moreover have "stream_chunks M H c sid now_ms cs ready = Some (deliver p sid cs ready)"
      using user_stream_chunks [OF ready] .
    ultimately show ?thesis
      using step payload by (cases "rest = []") (auto intro: exI [of _ "rest # cs"])
  qed
qed

lemma sent_bytes_listener: "sent_bytes [MsOutboundData d, MsNegotiated pid] = [d]"
  using sent_bytes_simps(1) [of "[d]" "[MsNegotiated pid]"] by simp

lemma negotiates_listener:
  assumes "protocol_name_ok pid" and "pid \<in> set ps"
  shows "negotiates ((ms_listener ps)\<lparr>ms_started := True\<rparr>) (header_line @ encode_message pid) pid [encode_message pid]"
proof -
  let ?n = "(ms_listener ps)\<lparr>ms_started := True\<rparr>" and ?w = "header_line @ encode_message pid"
  have part: "\<exists>n' outs. ms_receive ?n r = Some (n', outs) \<and> ms_state n' \<noteq> MsDone" if "strict_prefix r ?w" for r
    using listener_run [OF assms(1), of r ps] that by (metis prefix_order.less_le)
  have "listener_outputs pid ps ?w = [MsOutboundData (encode_message pid), MsNegotiated pid]"
    using assms(2) by (simp add: listener_outputs_def answer_def outcome_def)
  then have "\<exists>n' outs. ms_receive ?n ?w = Some (n', outs) \<and> ms_state n' = MsDone \<and> ms_recv_buf n' = [] \<and>
      last outs = MsNegotiated pid \<and> sent_bytes outs = [encode_message pid]"
    using listener_run [OF assms(1), of ?w ps]
    by (metis prefix_order.refl last.simps list.distinct(1) sent_bytes_listener)
  then show ?thesis
    unfolding negotiates_def using part negotiating_new(1) by (auto simp: ms_listener_def encode_message_eq)
qed

lemma negotiates_dialer:
  assumes "protocol_name_ok pid"
  shows "negotiates ((ms_dialer pid)\<lparr>ms_started := True\<rparr>) (header_line @ encode_message pid) pid [encode_message pid]"
proof -
  let ?n = "(ms_dialer pid)\<lparr>ms_started := True\<rparr>" and ?w = "header_line @ encode_message pid"
  have ans: "answer pid [pid] = pid"
    by (simp add: answer_def)
  have part: "\<exists>n' outs. ms_receive ?n r = Some (n', outs) \<and> ms_state n' \<noteq> MsDone" if "strict_prefix r ?w" for r
    using dialer_run [OF assms, of "[pid]" r] that ans by (metis prefix_order.less_le list.set_intros(1))
  have "dialer_outputs pid [pid] ?w = [MsOutboundData (encode_message pid), MsNegotiated pid]"
    by (simp add: dialer_outputs_def ans outcome_def)
  then have "\<exists>n' outs. ms_receive ?n ?w = Some (n', outs) \<and> ms_state n' = MsDone \<and> ms_recv_buf n' = [] \<and>
      last outs = MsNegotiated pid \<and> sent_bytes outs = [encode_message pid]"
    using dialer_run [OF assms, of "[pid]" ?w] ans
    by (metis prefix_order.refl last.simps list.distinct(1) sent_bytes_listener list.set_intros(1))
  then show ?thesis
    unfolding negotiates_def using part negotiating_new(2) by (auto simp: ms_dialer_def encode_message_eq)
qed

subsection \<open>A whole stream, from its opening\<close>

lemma put_twice [simp]:
  "put_inbound key n (put_inbound key m s) = put_inbound key n s"
  "put_outbound key n tg (put_outbound key m tg' s) = put_outbound key n tg s"
  "forget_inbound key (put_inbound key m s) = forget_inbound key s"
  "forget_outbound key (put_outbound key m tg s) = forget_outbound key s"
  by (simp_all add: put_inbound_def put_outbound_def forget_inbound_def forget_outbound_def)

lemma send_all_append [simp]: "send_all c sid ds (send_all c sid es s) = send_all c sid (es @ ds) s"
  by (simp add: send_all_def)

lemma negotiation_start:
  "strict_prefix [] (header_line @ encode_message pid)"
  "ms_receive ((ms_listener ps)\<lparr>ms_started := True\<rparr>) [] = Some ((ms_listener ps)\<lparr>ms_started := True\<rparr>, [])"
  "ms_receive ((ms_dialer pid)\<lparr>ms_started := True\<rparr>) [] = Some ((ms_dialer pid)\<lparr>ms_started := True\<rparr>, [])"
  by (auto simp: strict_prefix_def encode_message_eq ms_receive_def receive_loop.simps decode_message_def
      ms_listener_def ms_dialer_def)

text \<open>The stream after the application's protocol was agreed on.\<close>

definition user_ready ::
  "connection_id \<Rightarrow> stream_id \<Rightarrow> rstr \<Rightarrow> 'mh peer_id \<Rightarrow> bool \<Rightarrow> 'mh swarm_core \<Rightarrow> 'mh swarm_core" where
  "user_ready c sid pid p initiated s = sw_push_event (SwUserStreamReady p sid pid initiated)
     (s\<lparr>stream_owner := bm_insert (c, sid) (PkUser pid) (stream_owner s)\<rparr>)"

lemma on_negotiated_user:
  assumes "bm_get (conn_to_peer s) c = Some p"
  shows "on_outbound_negotiated M H c sid (PkUser pid) now_ms s = Some (user_ready c sid pid p True s)"
    and "pid \<in> set (user_protocols s) \<Longrightarrow> pid \<noteq> PING_PROTOCOL_ID \<Longrightarrow> pid \<noteq> IDENTIFY_PROTOCOL_ID \<Longrightarrow>
      on_inbound_negotiated M H c sid pid s = Some (user_ready c sid pid p False s)"
  using assms by (simp_all add: on_outbound_negotiated_def on_inbound_negotiated_def ensure_peer_id_for_conn_def
      user_ready_def list_ex_iff)

lemma inbound_chunks:
  assumes "pid \<in> set (user_protocols s)" and "pid \<in> set ps" and "protocol_name_ok pid"
    and "pid \<noteq> PING_PROTOCOL_ID" and "pid \<noteq> IDENTIFY_PROTOCOL_ID"
    and "bm_get (conn_to_peer s) c = Some p" and "bm_get (outbound_negotiators s) (c, sid) = None"
    and "concat cs = header_line @ encode_message pid @ payload"
  shows "\<exists>ds. stream_chunks M H c sid now_ms cs (put_inbound (c, sid) ((ms_listener ps)\<lparr>ms_started := True\<rparr>) s) =
      Some (deliver p sid ds (user_ready c sid pid p False (forget_inbound (c, sid) (send_all c sid [encode_message pid] s)))) \<and>
    concat ds = payload"
proof -
  let ?n = "(ms_listener ps)\<lparr>ms_started := True\<rparr>"
  let ?wait = "\<lambda>m sent. put_inbound (c, sid) m (send_all c sid sent s)"
  let ?ready = "user_ready c sid pid p False (forget_inbound (c, sid) (send_all c sid [encode_message pid] s))"
  have waiting: "handle_stream_data M H c sid d now_ms (?wait m sent) = Some (?wait m' (sent @ sent_bytes outs))"
    if "negotiating m" "ms_receive m d = Some (m', outs)" "negotiation_of m' outs = NegWaiting m'" for m sent d m' outs
    using feed_inbound_waiting [OF _ that, of "?wait m sent" c sid] by (simp add: handle_stream_data_def)
  have user: "on_inbound_negotiated M H c sid pid (forget_inbound (c, sid) (send_all c sid [encode_message pid] s)) = Some ?ready"
    by (rule on_negotiated_user(2)) (use assms(1,4-6) in \<open>simp_all add: forget_inbound_def send_all_def\<close>)
  have ready: "user_stream (c, sid) p pid ?ready"
    using assms(6,7) by (simp add: user_stream_def user_ready_def forget_inbound_def send_all_def sw_push_event_def)
  have agreed: "handle_stream_data M H c sid d now_ms (?wait m sent) = Some (if rest = [] then ?ready else deliver p sid [rest] ?ready)"
    if "negotiating m" "ms_receive m d = Some (m', outs)" "negotiation_of m' outs = NegAgreed pid rest"
      "sent @ sent_bytes outs = [encode_message pid]" for m sent d m' outs rest
    using feed_inbound_agreed [OF _ that(1-3), of "?wait m sent" c sid] that(4) user user_stream_dispatch [OF ready]
    by (simp add: handle_stream_data_def)
  have "[] @ concat cs = (header_line @ encode_message pid) @ payload"
    using assms(8) by simp
  from negotiated_chunks [where wait = ?wait, OF negotiates_listener [OF assms(3,2)] waiting agreed ready negotiation_start(1,2) this]
  show ?thesis
    unfolding sent_bytes_simps(2) send_all_simps(1) .
qed

lemma outbound_chunks:
  assumes "protocol_name_ok pid"
    and "bm_get (conn_to_peer s) c = Some p" and "bm_get (inbound_negotiators s) (c, sid) = None"
    and "concat cs = header_line @ encode_message pid @ payload"
  shows "\<exists>ds. stream_chunks M H c sid now_ms cs (put_outbound (c, sid) ((ms_dialer pid)\<lparr>ms_started := True\<rparr>) (PkUser pid) s) =
      Some (deliver p sid ds (user_ready c sid pid p True (forget_outbound (c, sid) (send_all c sid [encode_message pid] s)))) \<and>
    concat ds = payload"
proof -
  let ?n = "(ms_dialer pid)\<lparr>ms_started := True\<rparr>"
  let ?wait = "\<lambda>m sent. put_outbound (c, sid) m (PkUser pid) (send_all c sid sent s)"
  let ?ready = "user_ready c sid pid p True (forget_outbound (c, sid) (send_all c sid [encode_message pid] s))"
  have wait: "bm_get (inbound_negotiators (?wait m sent)) (c, sid) = None"
    "bm_get (outbound_negotiators (?wait m sent)) (c, sid) = Some \<lparr>po_negotiator = m, po_target = PkUser pid\<rparr>" for m sent
    using assms(3) by (simp_all add: put_outbound_def send_all_def)
  have waiting: "handle_stream_data M H c sid d now_ms (?wait m sent) = Some (?wait m' (sent @ sent_bytes outs))"
    if "negotiating m" "ms_receive m d = Some (m', outs)" "negotiation_of m' outs = NegWaiting m'" for m sent d m' outs
    using feed_outbound_waiting [OF wait(2) [of m sent]] that wait [of m sent] by (simp add: handle_stream_data_def)
  have user: "on_outbound_negotiated M H c sid (PkUser pid) now_ms
      (forget_outbound (c, sid) (send_all c sid [encode_message pid] s)) = Some ?ready"
    by (rule on_negotiated_user(1)) (use assms(2) in \<open>simp add: forget_outbound_def send_all_def\<close>)
  have ready: "user_stream (c, sid) p pid ?ready"
    using assms(2,3) by (simp add: user_stream_def user_ready_def forget_outbound_def send_all_def sw_push_event_def)
  have agreed: "handle_stream_data M H c sid d now_ms (?wait m sent) = Some (if rest = [] then ?ready else deliver p sid [rest] ?ready)"
    if "negotiating m" "ms_receive m d = Some (m', outs)" "negotiation_of m' outs = NegAgreed pid rest"
      "sent @ sent_bytes outs = [encode_message pid]" for m sent d m' outs rest
    using feed_outbound_agreed [OF wait(2) [of m sent]] that wait [of m sent] user user_stream_dispatch [OF ready]
    by (simp add: handle_stream_data_def)
  have "[] @ concat cs = (header_line @ encode_message pid) @ payload"
    using assms(4) by simp
  from negotiated_chunks [where wait = ?wait, OF negotiates_dialer [OF assms(1)] waiting agreed ready negotiation_start(1,3) this]
  show ?thesis
    unfolding sent_bytes_simps(2) send_all_simps(1) .
qed

end
