(* ===== verification/SwarmProps.thy ===== *)
theory SwarmProps
  imports SwarmUser
begin

text \<open>
  What the swarm core promises to its driver and to the application: it never panics, its tables
  agree, a closed or superseded connection leaves nothing behind, the bytes of a stream reach the
  application in order, and its connection table refines a small abstract one.
\<close>

section \<open>What the swarm promises\<close>

definition demo_peer :: "mh64 peer_id" where
  "demo_peer = PeerId (Abs_mh64 (0, [8, 1]))"

definition demo_identify :: identify_config where
  "demo_identify = \<lparr>ic_protocol_version = lit ''ipfs/0.1.0'', ic_agent_version = lit ''minip2p'', ic_protocols = [], ic_public_key = []\<rparr>"

definition demo_connect :: "connection_id \<Rightarrow> mh64 swarm_input" where
  "demo_connect c = SiTransport (TeConnected c (endpoint_with_peer_id (Multiaddr [QuicV1]) demo_peer)) 0"

definition demo_swarm :: "mh64 swarm_core" where
  "demo_swarm = the (swarm_handle_input mh64_api demo_crypto (demo_connect (ConnectionId 1))
     (swarm_new demo_identify \<lparr>request_timeout_ms = 1000\<rparr>))"

lemma demo_swarm_eq:
  "swarm_handle_input mh64_api demo_crypto (demo_connect (ConnectionId 1)) (swarm_new demo_identify \<lparr>request_timeout_ms = 1000\<rparr>) =
     Some demo_swarm"
  "demo_swarm = (swarm_new demo_identify \<lparr>request_timeout_ms = 1000\<rparr>)
     \<lparr>active_connections := [(ConnectionId 1, True)], conn_to_remote_addr := [(ConnectionId 1, Multiaddr [QuicV1])],
      conn_to_peer := [(ConnectionId 1, demo_peer)], peer_to_conn := [(demo_peer, ConnectionId 1)],
      established_peers := [demo_peer], sw_events := [SwConnectionEstablished demo_peer],
      pending_opens := [(OpenStreamToken 1, \<lparr>pn_conn_id = ConnectionId 1, pn_protocol = IDENTIFY_PROTOCOL_ID,
        pn_target = PkIdentifyInitiator\<rparr>)],
      next_token := 2, sw_actions := [SaOpenStream (ConnectionId 1) (OpenStreamToken 1)]\<rparr>"
  by (simp_all add: demo_swarm_def demo_connect_def swarm_new_def endpoint_with_peer_id_def register_connection_eq
      announce_connection_def assign_connection_def request_stream_def next_open_token_eq sw_push_defs bs_insert_def)

lemma demo_fields [simp]:
  "conn_to_peer demo_swarm = [(ConnectionId 1, demo_peer)]" "peer_to_conn demo_swarm = [(demo_peer, ConnectionId 1)]"
  "established_peers demo_swarm = [demo_peer]" "inbound_negotiators demo_swarm = []"
  "outbound_negotiators demo_swarm = []" "stream_owner demo_swarm = []"
  "sw_supported demo_swarm = [IDENTIFY_PROTOCOL_ID, PING_PROTOCOL_ID]"
  by (simp_all add: demo_swarm_eq(2) swarm_new_def)

lemma demo_connect_ok [simp]: "input_ok (demo_connect c) demo_swarm" "input_ok (demo_connect c) (swarm_new ic pc)"
  by (simp_all add: demo_connect_def endpoint_with_peer_id_def swarm_new_def)

lemma demo_swarm_reachable:
  "swarm_reachable mh64_api demo_crypto demo_identify \<lparr>request_timeout_ms = 1000\<rparr> demo_swarm"
  by (rule swarm_reachable.input [OF swarm_reachable.new demo_connect_ok(2) demo_swarm_eq(1)])

text \<open>
  C6. Whatever a driver does - transport events within the contract of the transport, ticks, stream
  results, requests of the application, polling - the swarm core is in a consistent state, no further
  input or request makes it panic, every peer the application was told about has a connection that
  maps back to it, and polling the outputs ends with an idle core.
\<close>

theorem swarm_never_panics:
  assumes "crypto_laws M H" and "swarm_reachable M H ic pc s"
  shows "swarm_ok s \<and>
    (input_ok i s \<longrightarrow> swarm_handle_input M H i s \<noteq> None) \<and>
    (request_ok r \<longrightarrow> serve_request M r s \<noteq> None) \<and>
    (p \<in> set (connected_peers s) \<or> is_peer_ready p s \<longrightarrow> (\<exists>c. conn_for p s = Some c \<and> peer_for c s = Some p)) \<and>
    (is_peer_ready p s \<longrightarrow> swarm_peer_info p s \<noteq> None) \<and>
    (\<exists>outs t. drain (Suc (length (sw_actions s) + length (sw_events s))) swarm_poll_output s = Some (outs, t) \<and>
       swarm_is_idle t)"
proof -
  have ok: "swarm_ok s"
    by (rule swarm_reachable_ok [OF assms])
  then have tab: "table_ok s"
    by (simp add: swarm_ok_def swarm_wf_def)
  then have "p \<in> set (connected_peers s) \<or> is_peer_ready p s \<longrightarrow> (\<exists>c. conn_for p s = Some c \<and> peer_for c s = Some p)"
    "is_peer_ready p s \<longrightarrow> swarm_peer_info p s \<noteq> None"
    using table_okD [OF tab, of p]
    by (auto simp: table_ok_def connected_peers_def is_peer_ready_def conn_for_def peer_for_def swarm_peer_info_def)
  moreover have "input_ok i s \<longrightarrow> swarm_handle_input M H i s \<noteq> None" "request_ok r \<longrightarrow> serve_request M r s \<noteq> None"
    using swarm_handle_input_ok [OF assms(1) ok, of i] serve_request_ok [OF ok, of r M] by auto
  moreover have "\<exists>outs t. drain (Suc (length (sw_actions s) + length (sw_events s))) swarm_poll_output s = Some (outs, t) \<and>
      swarm_is_idle t"
    using swarm.drain_returns [of s "Suc (length (sw_actions s) + length (sw_events s))"] by blast
  ultimately show ?thesis
    using ok by blast
qed

theorem swarm_never_panics_witness:
  "conn_for demo_peer demo_swarm = Some (ConnectionId 1) \<and>
   swarm_handle_input mh64_api demo_crypto (demo_connect (ConnectionId 2)) demo_swarm \<noteq> None \<and>
   serve_request mh64_api (RqPing demo_peer (replicate 32 0) 5) demo_swarm \<noteq> None"
  using swarm_never_panics [OF demo_crypto_laws demo_swarm_reachable, of "demo_connect (ConnectionId 2)"
      "RqPing demo_peer (replicate 32 0) 5" demo_peer]
  by (simp add: connected_peers_def PING_PAYLOAD_LEN_def conn_for_def)

subsection \<open>The connection table\<close>

lemma table_of_queue_open:
  "queue_open_protocol_stream p pid tg s = Some (t, res) \<Longrightarrow> table_of t = table_of s"
  by (auto simp: queue_open_eq split: option.splits if_splits)

lemma table_of_request:
  assumes "serve_request M r s = Some (t, res)"
  shows "table_of t = table_of s"
proof (cases r)
  case (RqPing p payload now_ms)
  then show ?thesis
    using assms table_of_queue_open [of p PING_PROTOCOL_ID PkPing "s\<lparr>pending_pings := bm_insert p payload (pending_pings s)\<rparr>"]
    by (auto simp: swarm_ping_def bind_eq_Some_conv table_of_to_protocol dest!: not_Ok_unit split: if_splits sum.splits)
next
  case (RqOpenUserStream p pid)
  then show ?thesis
    using assms table_of_queue_open [of p pid "PkUser pid" s] by (auto simp: open_user_stream_def split: if_splits)
qed (use assms in \<open>auto simp: send_user_stream_def close_user_stream_write_def reset_user_stream_def disconnect_def
    on_user_stream_def add_user_protocol_def set_local_addresses_def table_of_def sw_push_action_def Let_def
    split: sum.splits if_splits\<close>)

text \<open>
  C8. The swarm's bookkeeping of connections refines a small abstract table: a completed handshake
  makes its connection the primary one of the peer and displaces the previous one, a verified identity
  replaces the peer id of its connection, a closed connection takes its peer along only if it was the
  primary one, and no other input, no request and no poll changes the table, except that a connection
  with no known peer may be given its placeholder id.
\<close>

theorem swarm_table_refinement:
  assumes "crypto_laws M H" and "swarm_reachable M H ic pc s"
  shows "(input_ok i s \<longrightarrow> (\<exists>t. swarm_handle_input M H i s = Some t \<and>
      (table_of t = table_input i (table_of s) \<or>
       (\<exists>c. placeholder_conn i = Some c \<and> table_of t = table_placeholder c (placeholder M H c) (table_of s))))) \<and>
    (request_ok r \<longrightarrow> (\<exists>t res. serve_request M r s = Some (t, res) \<and> table_of t = table_of s)) \<and>
    table_of (snd (swarm_poll_output s)) = table_of s"
proof -
  have ok: "swarm_ok s"
    by (rule swarm_reachable_ok [OF assms])
  have "table_of (snd (swarm_poll_output s)) = table_of s"
    by (simp add: swarm_poll_output_def table_of_def split: list.split)
  moreover have "request_ok r \<longrightarrow> (\<exists>t res. serve_request M r s = Some (t, res) \<and> table_of t = table_of s)"
    using serve_request_ok [OF ok] table_of_request by metis
  ultimately show ?thesis
    using swarm_handle_input_ok [OF assms(1) ok] swarm_refines_table [OF ok] by metis
qed

theorem swarm_table_refinement_witness:
  "\<exists>t. swarm_handle_input mh64_api demo_crypto (SiTransport (TeClosed (ConnectionId 1)) 9) demo_swarm = Some t \<and>
     ct_peer (table_of t) = Map.empty \<and> ct_primary (table_of t) = Map.empty \<and> ct_known (table_of t) = {}"
proof -
  obtain t where "swarm_handle_input mh64_api demo_crypto (SiTransport (TeClosed (ConnectionId 1)) 9) demo_swarm = Some t"
    "table_of t = table_close (ConnectionId 1) (table_of demo_swarm)"
    using swarm_table_refinement [OF demo_crypto_laws demo_swarm_reachable,
        of "SiTransport (TeClosed (ConnectionId 1)) 9" "RqDisconnect demo_peer"] by auto
  then show ?thesis
    by (auto simp: table_close_def table_of_def fun_eq_iff)
qed

subsection \<open>Connections that end\<close>

text \<open>Nothing in the tables refers to the connection.\<close>

definition forgotten :: "connection_id \<Rightarrow> 'mh swarm_core \<Rightarrow> bool" where
  "forgotten c s \<longleftrightarrow> peer_for c s = None \<and> (\<forall>p. conn_for p s \<noteq> Some c) \<and>
     bm_get (active_connections s) c = None \<and> bm_get (conn_to_remote_addr s) c = None \<and>
     (\<forall>sid. bm_get (stream_owner s) (c, sid) = None \<and> bm_get (inbound_negotiators s) (c, sid) = None \<and>
        bm_get (outbound_negotiators s) (c, sid) = None) \<and>
     (\<forall>token po. bm_get (pending_opens s) token = Some po \<longrightarrow> pn_conn_id po \<noteq> c)"

text \<open>A connection and its streams are as they were.\<close>

definition same_connection :: "connection_id \<Rightarrow> 'mh swarm_core \<Rightarrow> 'mh swarm_core \<Rightarrow> bool" where
  "same_connection d s t \<longleftrightarrow> peer_for d t = peer_for d s \<and>
     bm_get (active_connections t) d = bm_get (active_connections s) d \<and>
     bm_get (conn_to_remote_addr t) d = bm_get (conn_to_remote_addr s) d \<and>
     (\<forall>sid. bm_get (stream_owner t) (d, sid) = bm_get (stream_owner s) (d, sid) \<and>
        bm_get (inbound_negotiators t) (d, sid) = bm_get (inbound_negotiators s) (d, sid) \<and>
        bm_get (outbound_negotiators t) (d, sid) = bm_get (outbound_negotiators s) (d, sid))"

lemma get_forget_streams [simp]:
  "bm_get (stream_owner (forget_streams c s)) (d, sid) = (if d = c then None else bm_get (stream_owner s) (d, sid))"
  "bm_get (inbound_negotiators (forget_streams c s)) (d, sid) =
     (if d = c then None else bm_get (inbound_negotiators s) (d, sid))"
  "bm_get (outbound_negotiators (forget_streams c s)) (d, sid) =
     (if d = c then None else bm_get (outbound_negotiators s) (d, sid))"
  using bm_get_retain_key [where P = "\<lambda>(cid, _). cid \<noteq> c" and k = "(d, sid)"]
  by (simp_all add: forget_streams_def split_def)

lemma pending_opens_forgotten:
  assumes "bm_ok (pending_opens s)" and "bm_get (pending_opens (forget_streams c s)) token = Some po"
  shows "pn_conn_id po \<noteq> c"
  using assms by (auto simp: forget_streams_def bm_get_retain split: option.splits if_splits)

lemma forgotten_forget_streams:
  assumes "bm_ok (pending_opens s)" and "bm_get (conn_to_peer s) c = None" and "\<And>p. bm_get (peer_to_conn s) p \<noteq> Some c"
    and "bm_get (active_connections s) c = None" and "bm_get (conn_to_remote_addr s) c = None"
  shows "forgotten c (forget_streams c s)"
  unfolding forgotten_def using assms(2-) pending_opens_forgotten [OF assms(1)]
  by (simp add: peer_for_def conn_for_def)

lemmas closing_defs = same_connection_def peer_for_def conn_for_def connected_peers_def is_peer_ready_def
  swarm_peer_info_def find_negotiated_ping_stream_def forget_connection_def forget_peer_def sw_push_event_def remove_peer_def

lemma primary_closed:
  assumes "swarm_ok s" and p: "bm_get (conn_to_peer s) c = Some p" "bm_get (peer_to_conn s) p = Some c"
  shows "\<exists>t. handle_connection_closed M c s = Some t \<and> forgotten c t \<and> (\<forall>d. d \<noteq> c \<longrightarrow> same_connection d s t) \<and>
    sw_actions t = sw_actions s \<and> sw_events t = sw_events s @ [SwConnectionClosed p] \<and>
    conn_for p t = None \<and> p \<notin> set (connected_peers t) \<and> \<not> is_peer_ready p t \<and> swarm_peer_info p t = None \<and>
    find_negotiated_ping_stream p t = None \<and>
    (\<forall>q. q \<noteq> p \<longrightarrow> conn_for q t = conn_for q s \<and> is_peer_ready q t = is_peer_ready q s \<and>
       (q \<in> set (connected_peers t) \<longleftrightarrow> q \<in> set (connected_peers s)) \<and> swarm_peer_info q t = swarm_peer_info q s)"
proof -
  let ?t = "forget_streams c (sw_push_event (SwConnectionClosed p) (forget_peer p (forget_connection c s)))"
  have idle: "protocols_idle s" and tab: "table_ok s" and opens: "bm_ok (pending_opens s)"
    using assms(1) by (simp_all add: swarm_ok_def swarm_wf_def maps_ok_def)
  have t: "handle_connection_closed M c s = Some ?t"
    using handle_connection_closed_eq [OF idle, of M c] p by simp
  have "bm_get (peer_to_conn s) q \<noteq> Some c" if "q \<noteq> p" for q
    using table_okD [OF tab, of q c] p(1) that by auto
  then have "forgotten c ?t"
    by (intro forgotten_forget_streams) (use opens in \<open>simp_all add: closing_defs\<close>)
  moreover have "same_connection d s ?t" if "d \<noteq> c" for d
    using that by (simp add: closing_defs)
  moreover have "conn_for q ?t = conn_for q s \<and> is_peer_ready q ?t = is_peer_ready q s \<and>
      (q \<in> set (connected_peers ?t) \<longleftrightarrow> q \<in> set (connected_peers s)) \<and> swarm_peer_info q ?t = swarm_peer_info q s"
    if "q \<noteq> p" for q
    using that by (simp add: closing_defs)
  moreover have "sw_actions ?t = sw_actions s \<and> sw_events ?t = sw_events s @ [SwConnectionClosed p] \<and>
      conn_for p ?t = None \<and> p \<notin> set (connected_peers ?t) \<and> \<not> is_peer_ready p ?t \<and> swarm_peer_info p ?t = None \<and>
      find_negotiated_ping_stream p ?t = None"
    by (simp add: closing_defs)
  ultimately show ?thesis
    using t by simp
qed

lemma other_closed:
  assumes "swarm_ok s" and other: "\<And>p. bm_get (conn_to_peer s) c = Some p \<Longrightarrow> bm_get (peer_to_conn s) p \<noteq> Some c"
  shows "\<exists>t. handle_connection_closed M c s = Some t \<and> forgotten c t \<and> (\<forall>d. d \<noteq> c \<longrightarrow> same_connection d s t) \<and>
    sw_actions t = sw_actions s \<and> sw_events t = sw_events s \<and> connected_peers t = connected_peers s \<and>
    (\<forall>q. conn_for q t = conn_for q s \<and> is_peer_ready q t = is_peer_ready q s \<and> swarm_peer_info q t = swarm_peer_info q s)"
proof -
  let ?t = "forget_streams c (forget_connection c s)"
  have idle: "protocols_idle s" and tab: "table_ok s" and opens: "bm_ok (pending_opens s)"
    using assms(1) by (simp_all add: swarm_ok_def swarm_wf_def maps_ok_def)
  have t: "handle_connection_closed M c s = Some ?t"
    using handle_connection_closed_eq [OF idle, of M c] other by (auto split: option.split)
  have "bm_get (peer_to_conn s) q \<noteq> Some c" for q
    using table_okD [OF tab, of q c] other by auto
  then have "forgotten c ?t"
    by (intro forgotten_forget_streams) (use opens in \<open>simp_all add: closing_defs\<close>)
  then show ?thesis
    using t by (simp add: closing_defs)
qed



subsection \<open>The last connection of a peer wins\<close>

lemma forgotten_push [simp]:
  "forgotten d (sw_push_event e s) = forgotten d s" "forgotten d (sw_push_action a s) = forgotten d s"
  "forgotten d (s\<lparr>established_peers := es\<rparr>) = forgotten d s"
  by (simp_all add: forgotten_def peer_for_def conn_for_def sw_push_defs)

lemma forgotten_request_stream [simp]:
  "d \<noteq> c \<Longrightarrow> forgotten d s \<Longrightarrow> forgotten d (request_stream c pid tg s)"
  by (auto simp: forgotten_def peer_for_def conn_for_def request_stream_def next_open_token_eq sw_push_defs)

lemma same_connection_push [simp]:
  "same_connection d s (sw_push_event e t) = same_connection d s t"
  "same_connection d s (sw_push_action a t) = same_connection d s t"
  "same_connection d s (request_stream c pid tg t) = same_connection d s t"
  "same_connection d s (t\<lparr>established_peers := es\<rparr>) = same_connection d s t"
  "d \<noteq> c \<Longrightarrow> same_connection d s (forget_streams c t) = same_connection d s t"
  by (simp_all add: same_connection_def peer_for_def sw_push_defs)

text \<open>What announcing a connection asks of the driver.\<close>

lemma announce_connection_requests:
  obtains token acts where
    "sw_actions (announce_connection c p s) = sw_actions s @ SaOpenStream c token # acts"
    "bm_get (pending_opens (announce_connection c p s)) token =
       Some \<lparr>pn_conn_id = c, pn_protocol = IDENTIFY_PROTOCOL_ID, pn_target = PkIdentifyInitiator\<rparr>"
    "bm_get (pending_pings s) p = None \<longrightarrow> acts = []"
  by (rule that [of "if next_token s = 0 then OpenStreamToken 1 else OpenStreamToken (next_token s)"
        "drop (Suc (length (sw_actions s))) (sw_actions (announce_connection c p s))"])
    (auto simp: announce_connection_def request_stream_def next_open_token_eq sw_push_defs Let_def)

lemma announce_connection_fields [simp]:
  "sw_events (announce_connection c p s) = sw_events s @ [SwConnectionEstablished p]"
  "pending_pings (announce_connection c p s) = pending_pings s"
  "established_peers (announce_connection c p s) = bs_insert p (established_peers s)"
  "ready_peers (announce_connection c p s) = ready_peers s"
  "conn_to_peer (announce_connection c p s) = conn_to_peer s"
  "peer_to_conn (announce_connection c p s) = peer_to_conn s"
  "d \<noteq> c \<Longrightarrow> forgotten d s \<Longrightarrow> forgotten d (announce_connection c p s)"
  "same_connection e r (announce_connection c p s) = same_connection e r s"
  by (simp_all add: announce_connection_def Let_def) (simp_all add: sw_push_event_def)

text \<open>The tables after the connection \<open>c\<close> took the place of \<open>old\<close>, streams aside.\<close>

definition replace_connection ::
  "connection_id \<Rightarrow> connection_id \<Rightarrow> 'mh::linorder peer_id \<Rightarrow> 'mh swarm_core \<Rightarrow> 'mh swarm_core" where
  "replace_connection old c p s = assign_connection c p (s\<lparr>conn_to_peer := bm_remove old (conn_to_peer s),
     sw_ping := remove_peer p (sw_ping s), sw_identify := id_remove_peer p (sw_identify s),
     sw_peer_info := bm_remove p (sw_peer_info s), ready_peers := bs_remove p (ready_peers s),
     established_peers := bs_remove p (established_peers s),
     active_connections := bm_remove old (active_connections s),
     conn_to_remote_addr := bm_remove old (conn_to_remote_addr s)\<rparr>)"

lemma replace_connection_fields [simp]:
  "conn_to_peer (replace_connection old c p s) = bm_insert c p (bm_remove old (conn_to_peer s))"
  "peer_to_conn (replace_connection old c p s) = bm_insert p c (peer_to_conn s)"
  "active_connections (replace_connection old c p s) = bm_remove old (active_connections s)"
  "conn_to_remote_addr (replace_connection old c p s) = bm_remove old (conn_to_remote_addr s)"
  "ready_peers (replace_connection old c p s) = bs_remove p (ready_peers s)"
  "established_peers (replace_connection old c p s) = bs_remove p (established_peers s)"
  "pending_pings (replace_connection old c p s) = pending_pings s"
  "pending_opens (replace_connection old c p s) = pending_opens s"
  "stream_owner (replace_connection old c p s) = stream_owner s"
  "inbound_negotiators (replace_connection old c p s) = inbound_negotiators s"
  "outbound_negotiators (replace_connection old c p s) = outbound_negotiators s"
  "sw_events (replace_connection old c p s) = sw_events s" "sw_actions (replace_connection old c p s) = sw_actions s"
  by (simp_all add: replace_connection_def assign_connection_def)

lemma register_replaces:
  assumes "swarm_ok s" and "bm_get (peer_to_conn s) p = Some old" and "old \<noteq> c" and "bm_get (conn_to_peer s) c = None"
  shows "register_connection M c p s = Some (announce_connection c p
      (sw_push_action (SaCloseConnection old) (forget_streams old (replace_connection old c p s))))"
    and "forgotten old (forget_streams old (replace_connection old c p s))"
proof -
  have tab: "table_ok s" and opens: "bm_ok (pending_opens s)"
    using assms(1) by (simp_all add: swarm_ok_def swarm_wf_defs)
  have oldp: "bm_get (conn_to_peer s) old = Some p"
    using table_okD [OF tab assms(2)] .
  show "register_connection M c p s = Some (announce_connection c p
      (sw_push_action (SaCloseConnection old) (forget_streams old (replace_connection old c p s))))"
    using register_connection_eq [where s = s and c = c and p = p and M = M] supersede_connection_eq [OF assms(1) oldp, of M]
      assms(2-4) by (simp add: replace_connection_def)
  have "bm_get (peer_to_conn s) q \<noteq> Some old" if "q \<noteq> p" for q
    using table_okD [OF tab, of q old] oldp that by auto
  then show "forgotten old (forget_streams old (replace_connection old c p s))"
    by (intro forgotten_forget_streams) (use opens assms(3) in simp_all)
qed

text \<open>
  C10. When a second connection to a peer completes its handshake, the new connection replaces the old
  one: the driver is told to close the old connection and to open an identify stream on the new one,
  nothing of the old connection and none of its streams remains, requests for the peer now go to the
  new connection, a ping the application is waiting for is kept, and other connections are untouched.
\<close>

theorem swarm_last_connection_wins:
  assumes "crypto_laws M H" and "swarm_reachable M H ic pc s"
    and "conn_for p s = Some old" and "old \<noteq> c" and "peer_for c s = None" and "ep_peer_id ep = Some p"
  shows "\<exists>t token acts. swarm_handle_input M H (SiTransport (TeConnected c ep) now_ms) s = Some t \<and>
    forgotten old t \<and> conn_for p t = Some c \<and> peer_for c t = Some p \<and>
    p \<in> set (connected_peers t) \<and> \<not> is_peer_ready p t \<and>
    (\<forall>d. d \<noteq> c \<and> d \<noteq> old \<longrightarrow> same_connection d s t) \<and> (\<forall>q. q \<noteq> p \<longrightarrow> conn_for q t = conn_for q s) \<and>
    sw_events t = sw_events s @ [SwConnectionEstablished p] \<and>
    sw_actions t = sw_actions s @ SaCloseConnection old # SaOpenStream c token # acts \<and>
    bm_get (pending_opens t) token =
      Some \<lparr>pn_conn_id = c, pn_protocol = IDENTIFY_PROTOCOL_ID, pn_target = PkIdentifyInitiator\<rparr> \<and>
    bm_get (pending_pings t) p = bm_get (pending_pings s) p \<and> (bm_get (pending_pings s) p = None \<longrightarrow> acts = [])"
proof -
  let ?s = "s\<lparr>active_connections := bm_insert c True (active_connections s),
    conn_to_remote_addr := bm_insert c (ep_transport ep) (conn_to_remote_addr s)\<rparr>"
  let ?u = "replace_connection old c p ?s"
  let ?v = "sw_push_action (SaCloseConnection old) (forget_streams old ?u)"
  let ?t = "announce_connection c p ?v"
  have "swarm_ok ?s"
    using swarm_ok_address(2) [OF swarm_reachable_ok [OF assms(1,2)]] .
  then have reg: "register_connection M c p ?s = Some ?t" "forgotten old (forget_streams old ?u)"
    using register_replaces [of ?s p old c] assms(3-5) by (simp_all add: conn_for_def peer_for_def)
  have t: "swarm_handle_input M H (SiTransport (TeConnected c ep) now_ms) s = Some ?t" "forgotten old ?t"
    using reg assms(4,6) by simp_all
  have "same_connection d s ?u" if "d \<noteq> c" "d \<noteq> old" for d
    using that by (simp add: same_connection_def peer_for_def)
  then have same: "same_connection d s ?t" if "d \<noteq> c" "d \<noteq> old" for d
    using that by simp
  have maps: "conn_for p ?t = Some c" "peer_for c ?t = Some p" "p \<in> set (connected_peers ?t)" "\<not> is_peer_ready p ?t"
    "q \<noteq> p \<Longrightarrow> conn_for q ?t = conn_for q s" "bm_get (pending_pings ?t) p = bm_get (pending_pings s) p"
    "sw_events ?t = sw_events s @ [SwConnectionEstablished p]" for q
    by (simp_all add: conn_for_def peer_for_def connected_peers_def is_peer_ready_def sw_push_action_def)
  have v: "sw_actions ?v = sw_actions s @ [SaCloseConnection old]" "pending_pings ?v = pending_pings s"
    by (simp_all add: sw_push_action_def)
  obtain token acts where "sw_actions ?t = sw_actions ?v @ SaOpenStream c token # acts"
    "bm_get (pending_opens ?t) token =
       Some \<lparr>pn_conn_id = c, pn_protocol = IDENTIFY_PROTOCOL_ID, pn_target = PkIdentifyInitiator\<rparr>"
    "bm_get (pending_pings ?v) p = None \<longrightarrow> acts = []"
    using announce_connection_requests .
  then show ?thesis
    using t same maps unfolding v by (intro exI [of _ ?t] exI [of _ token] exI [of _ acts]) simp
qed

theorem swarm_last_connection_wins_witness:
  "\<exists>t token. swarm_handle_input mh64_api demo_crypto (demo_connect (ConnectionId 2)) demo_swarm = Some t \<and>
     forgotten (ConnectionId 1) t \<and> conn_for demo_peer t = Some (ConnectionId 2) \<and>
     sw_actions t = sw_actions demo_swarm @ [SaCloseConnection (ConnectionId 1), SaOpenStream (ConnectionId 2) token]"
proof -
  have "conn_for demo_peer demo_swarm = Some (ConnectionId 1)" "peer_for (ConnectionId 2) demo_swarm = None"
    "pending_pings demo_swarm = []"
    by (simp_all add: conn_for_def peer_for_def demo_swarm_eq(2) swarm_new_def)
  then show ?thesis
    using swarm_last_connection_wins [OF demo_crypto_laws demo_swarm_reachable, of demo_peer "ConnectionId 1" "ConnectionId 2"
        "endpoint_with_peer_id (Multiaddr [QuicV1]) demo_peer" 0]
    by (auto simp: demo_connect_def endpoint_with_peer_id_def)
qed

subsection \<open>A verified identity\<close>

fun event_peer :: "'mh swarm_event \<Rightarrow> 'mh peer_id option" where
  "event_peer (SwConnectionEstablished p) = Some p"
| "event_peer (SwConnectionClosed p) = Some p"
| "event_peer (SwIdentifyReceived p _) = Some p"
| "event_peer (SwPeerReady p _) = Some p"
| "event_peer (SwPingRttMeasured p _) = Some p"
| "event_peer (SwPingTimeout p) = Some p"
| "event_peer (SwUserStreamReady p _ _ _) = Some p"
| "event_peer (SwUserStreamData p _ _) = Some p"
| "event_peer (SwUserStreamRemoteWriteClosed p _) = Some p"
| "event_peer (SwUserStreamClosed p _) = Some p"
| "event_peer (SwError error) = se_peer_id error"

lemma event_peer_rename:
  "event_peer (rename_swarm_event old new e) = (if event_peer e = Some old then Some new else event_peer e)"
  by (cases e) (auto simp: rename_error_def)

lemma try_emit_fields [simp]:
  "conn_to_peer (try_emit_peer_ready p s) = conn_to_peer s" "peer_to_conn (try_emit_peer_ready p s) = peer_to_conn s"
  "established_peers (try_emit_peer_ready p s) = established_peers s"
  "sw_peer_info (try_emit_peer_ready p s) = sw_peer_info s" "pending_pings (try_emit_peer_ready p s) = pending_pings s"
  "stream_owner (try_emit_peer_ready p s) = stream_owner s" "sw_ping (try_emit_peer_ready p s) = sw_ping s"
  "inbound_negotiators (try_emit_peer_ready p s) = inbound_negotiators s"
  "outbound_negotiators (try_emit_peer_ready p s) = outbound_negotiators s"
  "sw_actions (try_emit_peer_ready p s) = sw_actions s"
  by (simp_all add: try_emit_peer_ready_def sw_push_event_def split: option.split)

lemma try_emit_ready:
  assumes "bm_get (peer_to_conn s) p \<noteq> None"
  shows "set (ready_peers (try_emit_peer_ready p s)) =
      (if bm_get (sw_peer_info s) p = None then set (ready_peers s) else insert p (set (ready_peers s)))"
    and "sw_events (try_emit_peer_ready p s) = sw_events s @
      (case bm_get (sw_peer_info s) p of
         Some info \<Rightarrow> if p \<in> set (ready_peers s) then [] else [SwPeerReady p (im_protocols info)]
       | None \<Rightarrow> [])"
  using assms by (auto simp: try_emit_peer_ready_def sw_push_event_def split: option.split)

lemma adopt_renamed_fields:
  "peer_to_conn (adopt_connection c new (rename_peer old new s)) = bm_insert new c (bm_remove old (peer_to_conn s))"
  "conn_to_peer (adopt_connection c new (rename_peer old new s)) = bm_insert c new (conn_to_peer s)"
  "established_peers (adopt_connection c new (rename_peer old new s)) = bs_insert new (bs_rekey old new (established_peers s))"
  "ready_peers (adopt_connection c new (rename_peer old new s)) = bs_rekey old new (ready_peers s)"
  "sw_peer_info (adopt_connection c new (rename_peer old new s)) = bm_rekey old new (sw_peer_info s)"
  "pending_pings (adopt_connection c new (rename_peer old new s)) = bm_rekey old new (pending_pings s)"
  "sw_ping (adopt_connection c new (rename_peer old new s)) = migrate_peer old new (sw_ping s)"
  "sw_events (adopt_connection c new (rename_peer old new s)) = map (rename_swarm_event old new) (sw_events s)"
  "stream_owner (adopt_connection c new (rename_peer old new s)) = stream_owner s"
  "inbound_negotiators (adopt_connection c new (rename_peer old new s)) = inbound_negotiators s"
  "outbound_negotiators (adopt_connection c new (rename_peer old new s)) = outbound_negotiators s"
  "sw_actions (adopt_connection c new (rename_peer old new s)) = sw_actions s"
  by (simp_all add: adopt_connection_def assign_connection_def rename_peer_def Let_def)

lemma request_stream_token:
  obtains token where "sw_actions (request_stream c pid tg s) = sw_actions s @ [SaOpenStream c token]"
    "bm_get (pending_opens (request_stream c pid tg s)) token = Some \<lparr>pn_conn_id = c, pn_protocol = pid, pn_target = tg\<rparr>"
  by (rule that [of "if next_token s = 0 then OpenStreamToken 1 else OpenStreamToken (next_token s)"])
    (auto simp: request_stream_def next_open_token_eq sw_push_defs)



subsection \<open>Streams of the application, end to end\<close>

text \<open>Opening a stream, as the application sees it.\<close>

lemma open_user_stream_request:
  assumes "table_ok s" and "pid \<in> set (user_protocols s)" and "conn_for p s = Some c"
    and "\<not> is_peer_ready p s \<or> (\<exists>info. swarm_peer_info p s = Some info \<and> pid \<in> set (im_protocols info))"
  shows "open_user_stream p pid s = Some (request_stream c pid (PkUser pid) s, Ok ())"
  using assms queue_open_connected [OF assms(1), of p c pid "PkUser pid"]
  by (auto simp: open_user_stream_def conn_for_def is_peer_ready_def swarm_peer_info_def list_ex_iff)

lemma opened_stream_chunks:
  assumes "bm_get (pending_opens s) token = Some \<lparr>pn_conn_id = c, pn_protocol = pid, pn_target = PkUser pid\<rparr>"
    and "peer_for c s = Some p" and "bm_get (inbound_negotiators s) (c, sid) = None" and "protocol_name_ok pid"
    and "concat cs = header_line @ encode_message pid @ payload"
  obtains t ds where
    "Option.bind (swarm_handle_input M H (SiStreamOpened c sid token now_ms) s) (stream_chunks M H c sid now_ms cs) = Some t"
    "sw_actions t = sw_actions s @ [SaSendStream c sid header_line, SaSendStream c sid (encode_message pid)]"
    "sw_events t = sw_events s @ SwUserStreamReady p sid pid True # map (SwUserStreamData p sid) ds"
    "concat ds = payload" "bm_get (stream_owner t) (c, sid) = Some (PkUser pid)"
proof -
  let ?s = "sw_push_action (SaSendStream c sid header_line) (s\<lparr>pending_opens := bm_remove token (pending_opens s)\<rparr>)"
  have "bm_get (conn_to_peer ?s) c = Some p" "bm_get (inbound_negotiators ?s) (c, sid) = None"
    using assms(2,3) by (simp_all add: peer_for_def sw_push_action_def)
  then obtain ds where "stream_chunks M H c sid now_ms cs (put_outbound (c, sid) ((ms_dialer pid)\<lparr>ms_started := True\<rparr>) (PkUser pid) ?s) =
      Some (deliver p sid ds (user_ready c sid pid p True (forget_outbound (c, sid) (send_all c sid [encode_message pid] ?s))))"
    "concat ds = payload"
    using outbound_chunks [OF assms(4) _ _ assms(5)] by blast
  then show thesis
    using handle_stream_opened_eq [OF assms(1), of sid]
    by (intro that) (auto simp: deliver_def user_ready_def sw_push_defs forget_outbound_def send_all_def)
qed

lemma incoming_stream_chunks:
  assumes "pid \<in> set (user_protocols s)" and "pid \<in> set (sw_supported s)" and "protocol_name_ok pid"
    and "pid \<noteq> PING_PROTOCOL_ID" and "pid \<noteq> IDENTIFY_PROTOCOL_ID"
    and "peer_for c s = Some p" and "bm_get (outbound_negotiators s) (c, sid) = None"
    and "concat cs = header_line @ encode_message pid @ payload"
  obtains t ds where
    "Option.bind (swarm_handle_input M H (SiTransport (TeIncomingStream c sid) now_ms) s) (stream_chunks M H c sid now_ms cs) = Some t"
    "sw_actions t = sw_actions s @ [SaSendStream c sid header_line, SaSendStream c sid (encode_message pid)]"
    "sw_events t = sw_events s @ SwUserStreamReady p sid pid False # map (SwUserStreamData p sid) ds"
    "concat ds = payload" "bm_get (stream_owner t) (c, sid) = Some (PkUser pid)"
proof -
  let ?s = "sw_push_action (SaSendStream c sid header_line) s"
  have "pid \<in> set (user_protocols ?s)" "bm_get (conn_to_peer ?s) c = Some p" "bm_get (outbound_negotiators ?s) (c, sid) = None"
    using assms(1,6,7) by (simp_all add: peer_for_def sw_push_action_def)
  then obtain ds where "stream_chunks M H c sid now_ms cs (put_inbound (c, sid) ((ms_listener (sw_supported s))\<lparr>ms_started := True\<rparr>) ?s) =
      Some (deliver p sid ds (user_ready c sid pid p False (forget_inbound (c, sid) (send_all c sid [encode_message pid] ?s))))"
    "concat ds = payload"
    using inbound_chunks [OF _ assms(2-5) _ _ assms(8)] by blast
  then show thesis
    using handle_incoming_stream_eq [of c sid s]
    by (intro that) (auto simp: deliver_def user_ready_def sw_push_defs forget_inbound_def send_all_def)
qed


definition demo_echo :: "mh64 swarm_core" where
  "demo_echo = add_user_protocol (lit ''/echo'') demo_swarm"

lemma demo_echo_facts:
  "swarm_reachable mh64_api demo_crypto demo_identify \<lparr>request_timeout_ms = 1000\<rparr> demo_echo"
  "user_protocols demo_echo = [lit ''/echo'']" "lit ''/echo'' \<in> set (sw_supported demo_echo)"
  "conn_for demo_peer demo_echo = Some (ConnectionId 1)" "peer_for (ConnectionId 1) demo_echo = Some demo_peer"
  "\<not> is_peer_ready demo_peer demo_echo" "inbound_negotiators demo_echo = []" "outbound_negotiators demo_echo = []"
proof -
  show "swarm_reachable mh64_api demo_crypto demo_identify \<lparr>request_timeout_ms = 1000\<rparr> demo_echo"
    by (rule swarm_reachable.request [OF demo_swarm_reachable, where r = "RqAddUserProtocol (lit ''/echo'')"])
      (simp_all add: demo_echo_def)
qed (simp_all add: demo_echo_def add_user_protocol_def demo_swarm_eq(2) swarm_new_def conn_for_def peer_for_def
    is_peer_ready_def Let_def)


end
