(* ===== verification/IpText.thy ===== *)
theory IpText
  imports Multiaddr "HOL-Library.Sublist" "HOL-Library.Monad_Syntax"
begin

text \<open>
  What the text form of multiaddrs uses of Rust's standard library: \<open>parse::<u8>\<close> and \<open>parse::<u16>\<close>,
  and the \<open>Display\<close> and \<open>FromStr\<close> of \<open>core::net::Ipv6Addr\<close>.  The parser of the library works on
  bytes and backtracks; here a reader takes the remaining input and returns a value with the input
  behind it, and \<open>None\<close> leaves the input as it was.
\<close>

section \<open>Numbers\<close>

text \<open>\<open>char::to_digit\<close>, for the characters that are one byte.\<close>

definition to_digit :: "nat \<Rightarrow> byte \<Rightarrow> nat option" where
  "to_digit radix c =
     (let v = (if 48 \<le> c \<and> c \<le> 57 then unat c - 48
               else if 97 \<le> c \<and> c \<le> 122 then unat c - 87
               else if 65 \<le> c \<and> c \<le> 90 then unat c - 55
               else radix)
      in if v < radix then Some v else None)"

text \<open>\<open>parse\<close> of an unsigned type with the given maximum: a sign \<open>+\<close> is accepted, so are leading zeros.\<close>

fun parse_digits :: "nat \<Rightarrow> nat \<Rightarrow> rstr \<Rightarrow> nat option" where
  "parse_digits maxv acc [] = Some acc"
| "parse_digits maxv acc (c # cs) =
     (case to_digit 10 c of
        None \<Rightarrow> None
      | Some d \<Rightarrow> if maxv < acc * 10 + d then None else parse_digits maxv (acc * 10 + d) cs)"

definition parse_uint :: "nat \<Rightarrow> rstr \<Rightarrow> nat option" where
  "parse_uint maxv s =
     (case s of
        [] \<Rightarrow> None
      | c # cs \<Rightarrow>
          if (c = 43 \<or> c = 45) \<and> cs = [] then None
          else if c = 43 then parse_digits maxv 0 cs
          else parse_digits maxv 0 s)"

section \<open>Readers\<close>

fun read_given_char :: "byte \<Rightarrow> bytes \<Rightarrow> bytes option" where
  "read_given_char target [] = None"
| "read_given_char target (c # cs) = (if c = target then Some cs else None)"

definition read_separator :: "byte \<Rightarrow> nat \<Rightarrow> (bytes \<Rightarrow> ('a \<times> bytes) option) \<Rightarrow> bytes \<Rightarrow> ('a \<times> bytes) option" where
  "read_separator sep i inner s = (if 0 < i then Option.bind (read_given_char sep s) inner else inner s)"

text \<open>The loop of \<open>read_number\<close>: the value, the number of digits, and the rest.\<close>

fun read_digits :: "nat \<Rightarrow> nat \<Rightarrow> nat \<Rightarrow> nat \<Rightarrow> bytes \<Rightarrow> (nat \<times> nat \<times> bytes) option" where
  "read_digits radix max_digits n acc [] = Some (acc, n, [])"
| "read_digits radix max_digits n acc (c # cs) =
     (case to_digit radix c of
        None \<Rightarrow> Some (acc, n, c # cs)
      | Some d \<Rightarrow> if max_digits < n + 1 then None else read_digits radix max_digits (n + 1) (acc * radix + d) cs)"

definition read_number :: "nat \<Rightarrow> nat \<Rightarrow> bool \<Rightarrow> nat \<Rightarrow> bytes \<Rightarrow> (nat \<times> bytes) option" where
  "read_number radix max_digits allow_zero_prefix maxv s =
     (let has_leading_zero = (case s of c # _ \<Rightarrow> c = 48 | [] \<Rightarrow> False)
      in case read_digits radix max_digits 0 0 s of
           None \<Rightarrow> None
         | Some (v, n, rest) \<Rightarrow>
             if n = 0 then None
             else if \<not> allow_zero_prefix \<and> has_leading_zero \<and> 1 < n then None
             else if v \<le> maxv then Some (v, rest) else None)"

text \<open>The slots \<open>i\<close>, \<open>i + 1\<close>, \<dots> of an IPv4 address.\<close>

fun read_octets :: "nat \<Rightarrow> nat \<Rightarrow> bytes \<Rightarrow> (bytes \<times> bytes) option" where
  "read_octets i 0 s = Some ([], s)"
| "read_octets i (Suc k) s = do {
     (v, s) \<leftarrow> read_separator 46 i (read_number 10 3 False 255) s;
     (vs, s) \<leftarrow> read_octets (Suc i) k s;
     Some (of_nat v # vs, s)
   }"

definition read_ipv4_addr :: "bytes \<Rightarrow> (bytes \<times> bytes) option" where
  "read_ipv4_addr s = read_octets 0 4 s"

text \<open>
  \<open>read_groups\<close> from slot \<open>i\<close> on: the groups read, whether the last two were written as an IPv4
  address, and the rest.
\<close>

function read_groups :: "nat \<Rightarrow> nat \<Rightarrow> bytes \<Rightarrow> u16 list \<times> bool \<times> bytes" where
  "read_groups i limit s =
     (if limit \<le> i then ([], False, s)
      else case (if i < limit - 1 then read_separator 58 i read_ipv4_addr s else None) of
        Some (v4, s) \<Rightarrow> ([u16_from_be_bytes (take 2 v4), u16_from_be_bytes (drop 2 v4)], True, s)
      | None \<Rightarrow>
          (case read_separator 58 i (read_number 16 4 True 65535) s of
             None \<Rightarrow> ([], False, s)
           | Some (g, s) \<Rightarrow>
               let (gs, v4, s) = read_groups (Suc i) limit s in (of_nat g # gs, v4, s)))"
  by pat_completeness auto
termination
  by (relation "measure (\<lambda>(i, limit, s). limit - i)") auto

declare read_groups.simps [simp del]

definition read_ipv6_addr :: "bytes \<Rightarrow> (u16 list \<times> bytes) option" where
  "read_ipv6_addr s =
     (let (head, head_ipv4, s) = read_groups 0 8 s
      in if length head = 8 then Some (head, s)
         else if head_ipv4 then None
         else do {
           s \<leftarrow> read_given_char 58 s;
           s \<leftarrow> read_given_char 58 s;
           let (tail, _, s) = read_groups 0 (8 - (length head + 1)) s;
           Some (head @ replicate (8 - length head - length tail) 0 @ tail, s)
         })"

definition parse_ipv6 :: "rstr \<Rightarrow> bytes option" where
  "parse_ipv6 s =
     (case read_ipv6_addr s of
        Some (groups, []) \<Rightarrow> Some (concat (map u16_to_be_bytes groups))
      | _ \<Rightarrow> None)"

section \<open>Display\<close>

definition show_ip4 :: "bytes \<Rightarrow> rstr" where
  "show_ip4 bs = show_nat (unat (bs ! 0)) @ [46] @ show_nat (unat (bs ! 1)) @ [46] @
     show_nat (unat (bs ! 2)) @ [46] @ show_nat (unat (bs ! 3))"

fun segments :: "bytes \<Rightarrow> u16 list" where
  "segments (a # b # bs) = u16_from_be_bytes [a, b] # segments bs"
| "segments _ = []"

text \<open>The first longest run of zero groups, as start and length; \<open>(cs, cl)\<close> is the current run.\<close>

fun zero_span :: "nat \<Rightarrow> nat \<times> nat \<Rightarrow> nat \<times> nat \<Rightarrow> u16 list \<Rightarrow> nat \<times> nat" where
  "zero_span i (cs, cl) longest [] = longest"
| "zero_span i (cs, cl) (ls, ll) (g # gs) =
     (if g = 0
      then let cs = (if cl = 0 then i else cs); cl = cl + 1
           in zero_span (Suc i) (cs, cl) (if ll < cl then (cs, cl) else (ls, ll)) gs
      else zero_span (Suc i) (0, 0) (ls, ll) gs)"

fun fmt_subslice :: "u16 list \<Rightarrow> rstr" where
  "fmt_subslice [] = []"
| "fmt_subslice (first # tail) = show_hex (unat first) @ concat (map (\<lambda>g. 58 # show_hex (unat g)) tail)"

definition show_ipv6 :: "bytes \<Rightarrow> rstr" where
  "show_ipv6 bs =
     (if take 12 bs = replicate 10 0 @ [0xff, 0xff] then lit ''::ffff:'' @ show_ip4 (drop 12 bs)
      else
        let gs = segments bs;
            (start, len) = zero_span 0 (0, 0) (0, 0) gs
        in if 1 < len then fmt_subslice (take start gs) @ lit ''::'' @ fmt_subslice (drop (start + len) gs)
           else fmt_subslice gs)"

section \<open>Digits\<close>

definition digit_char :: "nat \<Rightarrow> byte" where
  "digit_char d = (if d < 10 then 48 + of_nat d else 87 + of_nat d)"

lemma unat_digit_char: "d < 16 \<Longrightarrow> unat (digit_char d) = (if d < 10 then 48 + d else 87 + d)"
  by (simp add: digit_char_def unat_word_ariths unat_of_nat)

lemma digit_char_cases:
  assumes "d < 16"
  shows "d < 10 \<Longrightarrow> 48 \<le> digit_char d \<and> digit_char d \<le> 57" "\<not> d < 10 \<Longrightarrow> 97 \<le> digit_char d \<and> digit_char d \<le> 102"
  using unat_digit_char [OF assms] assms by (simp_all add: word_le_nat_alt)

lemma to_digit_char [simp]: "d < radix \<Longrightarrow> radix \<le> 16 \<Longrightarrow> to_digit radix (digit_char d) = Some d"
  using unat_digit_char [of d] digit_char_cases [of d]
  by (cases "d < 10") (auto simp: to_digit_def Let_def word_le_nat_alt)

lemma show_radix_rec:
  "show_nat n = (if n < 10 then [digit_char n] else show_nat (n div 10) @ [digit_char (n mod 10)])"
  "show_hex n = (if n < 16 then [digit_char n] else show_hex (n div 16) @ [digit_char (n mod 16)])"
  by (subst show_nat.simps, simp add: digit_char_def) (subst show_hex.simps, auto simp: digit_char_def)

text \<open>A number in text: its value, its digits, its length.\<close>

definition digits_value :: "nat \<Rightarrow> rstr \<Rightarrow> nat" where
  "digits_value radix s = foldl (\<lambda>acc c. acc * radix + the (to_digit radix c)) 0 s"

lemma show_number:
  shows "digits_value 10 (show_nat n) = n" "digits_value 16 (show_hex n) = n"
    and "set (show_nat n) \<subseteq> digit_char ` {..<10}" "set (show_hex n) \<subseteq> digit_char ` {..<16}"
    and "show_nat n \<noteq> []" "show_hex n \<noteq> []"
proof -
  show "digits_value 10 (show_nat n) = n"
    by (induction n rule: less_induct) (subst show_radix_rec, auto simp: digits_value_def)
  show "digits_value 16 (show_hex n) = n"
    by (induction n rule: less_induct) (subst show_radix_rec, auto simp: digits_value_def)
  show "set (show_nat n) \<subseteq> digit_char ` {..<10}"
    by (induction n rule: less_induct) (subst show_radix_rec, auto)
  show "set (show_hex n) \<subseteq> digit_char ` {..<16}"
    by (induction n rule: less_induct) (subst show_radix_rec, auto)
  show "show_nat n \<noteq> []" "show_hex n \<noteq> []"
    by (subst show_radix_rec; simp)+
qed

lemma length_show_nat: "n < 10 ^ Suc k \<Longrightarrow> length (show_nat n) \<le> Suc k"
proof (induction k arbitrary: n)
  case (Suc k)
  then show ?case
    using Suc.IH [of "n div 10"] by (subst show_radix_rec) auto
qed (subst show_radix_rec, simp)

lemma length_show_hex: "n < 16 ^ Suc k \<Longrightarrow> length (show_hex n) \<le> Suc k"
proof (induction k arbitrary: n)
  case (Suc k)
  then show ?case
    using Suc.IH [of "n div 16"] by (subst show_radix_rec) auto
qed (subst show_radix_rec, simp)

lemma show_zero_prefix: "hd (show_nat n) = 48 \<Longrightarrow> length (show_nat n) = 1"
proof (induction n rule: less_induct)
  case (less n)
  show ?case
  proof (cases "n < 10")
    case False
    then have "hd (show_nat (n div 10)) = 48"
      using less.prems show_number(5) [of "n div 10"] by (subst (asm) show_radix_rec) simp
    then have "length (show_nat (n div 10)) = 1"
      using less.IH [of "n div 10"] False by simp
    then have "n div 10 < 10"
      using show_number(5) [of "n div 10 div 10"] by (subst (asm) show_radix_rec) (auto split: if_splits)
    moreover from this have "digit_char (n div 10) = 48"
      using \<open>hd (show_nat (n div 10)) = 48\<close> by (subst (asm) show_radix_rec) simp
    ultimately have "n div 10 = 0"
      using unat_digit_char [of "n div 10"] by simp
    then show ?thesis
      using False by simp
  qed (subst show_radix_rec, simp)
qed

section \<open>Reading what was written\<close>

lemma parse_digits_snoc:
  "parse_digits maxv acc (xs @ [c]) =
     Option.bind (parse_digits maxv acc xs) (\<lambda>v. parse_digits maxv v [c])"
  by (induction xs arbitrary: acc) (auto split: option.split)

lemma parse_digits_show: "n \<le> maxv \<Longrightarrow> parse_digits maxv 0 (show_nat n) = Some n"
proof (induction n rule: less_induct)
  case (less n)
  show ?case
  proof (cases "n < 10")
    case True
    then show ?thesis
      using less.prems by (subst show_radix_rec) simp
  next
    case False
    then have "parse_digits maxv 0 (show_nat (n div 10)) = Some (n div 10)"
      using less.IH [of "n div 10"] less.prems by simp
    then show ?thesis
      using False less.prems by (subst show_radix_rec) (simp add: parse_digits_snoc)
  qed
qed

lemma digit_char_not: "d < 16 \<Longrightarrow> digit_char d \<notin> {43, 45, 46, 47, 58}"
proof
  assume d: "d < 16" and "digit_char d \<in> {43, 45, 46, 47, 58}"
  then have "unat (digit_char d) \<in> {43, 45, 46, 47, 58}"
    by auto
  then show False
    using unat_digit_char [OF d] by (simp split: if_splits)
qed

lemma parse_uint_show: "n \<le> maxv \<Longrightarrow> parse_uint maxv (show_nat n) = Some n"
proof -
  assume n: "n \<le> maxv"
  obtain c cs where cs: "show_nat n = c # cs"
    using show_number(5) [of n] by (cases "show_nat n") auto
  then have "c \<notin> {43, 45}"
    using show_number(3) [of n] digit_char_not by auto
  then show ?thesis
    using parse_digits_show [OF n] by (simp add: parse_uint_def cs)
qed

lemma text_chars:
  "c \<in> set (show_nat n) \<or> c \<in> set (show_hex n) \<Longrightarrow> c \<notin> {46, 47, 58}"
proof -
  assume "c \<in> set (show_nat n) \<or> c \<in> set (show_hex n)"
  then have "c \<in> digit_char ` {..<16}"
    using show_number(3,4) [of n] by auto
  then show ?thesis
    using digit_char_not by auto
qed

text \<open>Digits are read up to the first character that is none.\<close>

definition stops :: "nat \<Rightarrow> bytes \<Rightarrow> bool" where
  "stops radix rest \<longleftrightarrow> rest = [] \<or> to_digit radix (hd rest) = None"

lemma stops_simps [simp]: "stops radix []" "stops 16 (46 # s)" "stops 16 (58 # s)" "stops 10 (46 # s)" "stops 10 (58 # s)"
  by (simp_all add: stops_def to_digit_def)

lemma read_digits_stop: "stops radix rest \<Longrightarrow> read_digits radix k n acc rest = Some (acc, n, rest)"
  by (cases rest) (auto simp: stops_def)

lemma read_digits_text:
  "set s \<subseteq> digit_char ` {..<radix} \<Longrightarrow> radix \<le> 16 \<Longrightarrow> n + length s \<le> k \<Longrightarrow> stops radix rest \<Longrightarrow>
     read_digits radix k n acc (s @ rest) =
       Some (foldl (\<lambda>acc c. acc * radix + the (to_digit radix c)) acc s, n + length s, rest)"
  by (induction s arbitrary: n acc) (auto simp: read_digits_stop)

lemma read_number_hex:
  assumes "stops 16 rest"
  shows "read_number 16 4 True 65535 (show_hex (unat (g :: u16)) @ rest) = Some (unat g, rest)"
proof -
  have "unat g < 2 ^ 16"
    using unsigned_less [of g] by simp
  then have "length (show_hex (unat g)) \<le> 4" "unat g \<le> 65535"
    using length_show_hex [of "unat g" 3] by simp_all
  then show ?thesis
    using read_digits_text [OF show_number(4), where n = 0 and acc = 0 and k = 4 and rest = rest and n = "unat g"]
      show_number(2,6) [of "unat g"] assms
    by (simp add: read_number_def digits_value_def Let_def)
qed

lemma read_number_dec:
  assumes "stops 10 rest"
  shows "read_number 10 3 False 255 (show_nat (unat (b :: byte)) @ rest) = Some (unat b, rest)"
proof -
  have "unat b < 2 ^ 8"
    using unsigned_less [of b] by simp
  then have "length (show_nat (unat b)) \<le> 3" "unat b \<le> 255"
    using length_show_nat [of "unat b" 2] by simp_all
  moreover obtain c cs where "show_nat (unat b) = c # cs"
    using show_number(5) [of "unat b"] by (cases "show_nat (unat b)") auto
  ultimately show ?thesis
    using read_digits_text [OF show_number(3) [of "unat b"], of 0 3 rest 0] show_zero_prefix [of "unat b"]
      show_number(1) [of "unat b"] assms
    by (auto simp: read_number_def digits_value_def Let_def)
qed

lemma read_ipv4_show:
  assumes "length bs = 4" and "stops 10 rest"
  shows "read_ipv4_addr (show_ip4 bs @ rest) = Some (bs, rest)"
proof -
  obtain a b c d where bs: "bs = [a, b, c, d]"
    using assms(1) by (auto simp: length_Suc_conv eval_nat_numeral)
  have four: "read_ipv4_addr s = read_octets 0 (Suc (Suc (Suc (Suc 0)))) s" for s
    by (simp add: read_ipv4_addr_def eval_nat_numeral)
  show ?thesis
    using assms(2) by (simp add: four show_ip4_def bs read_separator_def read_number_dec)
qed

section \<open>IPv6\<close>

lemma read_digits_suffix: "read_digits radix k n acc s = Some (v, m, rest) \<Longrightarrow> suffix rest s"
  by (induction radix k n acc s rule: read_digits.induct)
    (auto split: option.splits if_splits intro: suffix_ConsI)

lemma read_number_suffix: "read_number radix k z maxv s = Some (v, rest) \<Longrightarrow> suffix rest s"
  by (auto simp: read_number_def Let_def split: option.splits if_splits dest: read_digits_suffix)

text \<open>Without a dot there is no IPv4 address.\<close>

lemma read_ipv4_dot: "read_ipv4_addr s = Some (bs, rest) \<Longrightarrow> 46 \<in> set s"
proof -
  assume "read_ipv4_addr s = Some (bs, rest)"
  then obtain v t where "read_number 10 3 False 255 s = Some (v, t)" "read_octets (Suc 0) 3 t \<noteq> None"
    by (auto simp: read_ipv4_addr_def numeral_eq_Suc read_separator_def bind_eq_Some_conv)
  then have "suffix t s" "46 \<in> set t"
    using read_number_suffix by (blast, cases t) (auto simp: numeral_eq_Suc read_separator_def split: if_splits)
  then show ?thesis
    using set_mono_suffix by blast
qed

lemma no_ipv4: "46 \<notin> set s \<Longrightarrow> read_separator 58 i read_ipv4_addr s = None"
proof -
  assume s: "46 \<notin> set s"
  have "read_ipv4_addr t = None" if "set t \<subseteq> set s" for t
    using read_ipv4_dot [of t] s that by (cases "read_ipv4_addr t") auto
  then show ?thesis
    by (cases s) (auto simp: read_separator_def)
qed

text \<open>The groups of an address as they stand in its text from position \<open>i\<close> on.\<close>

fun groups_text :: "nat \<Rightarrow> u16 list \<Rightarrow> rstr" where
  "groups_text i [] = []"
| "groups_text i (g # gs) = (if 0 < i then [58] else []) @ show_hex (unat g) @ groups_text (Suc i) gs"

lemma groups_text_later: "0 < i \<Longrightarrow> groups_text i gs = concat (map (\<lambda>g. 58 # show_hex (unat g)) gs)"
  by (induction gs arbitrary: i) auto

lemma fmt_subslice_text: "fmt_subslice gs = groups_text 0 gs"
  by (cases gs) (simp_all add: groups_text_later)

lemma no_dot_groups: "46 \<notin> set (groups_text i gs)"
  using text_chars [of 46] by (induction i gs rule: groups_text.induct) auto

lemma stops_groups: "0 < i \<Longrightarrow> stops 16 rest \<Longrightarrow> stops 16 (groups_text i gs @ rest)"
  by (cases gs) auto

lemma read_groups_text:
  assumes "i + length gs \<le> limit" and "46 \<notin> set rest" and "stops 16 rest"
    and "i + length gs < limit \<Longrightarrow> read_separator 58 (i + length gs) (read_number 16 4 True 65535) rest = None"
  shows "read_groups i limit (groups_text i gs @ rest) = (gs, False, rest)"
  using assms(1,4)
proof (induction gs arbitrary: i)
  case Nil
  show ?case
    using Nil no_ipv4 [OF assms(2)] by (subst read_groups.simps) auto
next
  case (Cons g gs)
  let ?s = "groups_text (Suc i) gs @ rest"
  have v4: "read_separator 58 i read_ipv4_addr (groups_text i (g # gs) @ rest) = None"
    using no_ipv4 assms(2) no_dot_groups [of i "g # gs"] by simp
  have g: "read_separator 58 i (read_number 16 4 True 65535) (groups_text i (g # gs) @ rest) = Some (unat g, ?s)"
    using read_number_hex [OF stops_groups [OF _ assms(3)], of "Suc i" g gs] by (auto simp: read_separator_def)
  have "read_groups (Suc i) limit ?s = (gs, False, rest)"
    using Cons by simp
  then show ?case
    using Cons.prems(1) v4 g by (subst read_groups.simps) simp
qed

text \<open>The run that is left out consists of zeros.\<close>

definition zeros :: "u16 list \<Rightarrow> nat \<Rightarrow> nat \<Rightarrow> bool" where
  "zeros gs start len \<longleftrightarrow> start + len \<le> length gs \<and> take len (drop start gs) = replicate len 0"

lemma zeros_extend: "zeros gs start len \<Longrightarrow> start + len < length gs \<Longrightarrow> gs ! (start + len) = 0 \<Longrightarrow> zeros gs start (Suc len)"
  by (simp add: zeros_def take_Suc_conv_app_nth replicate_append_same)

lemma zero_span_zeros:
  assumes "gs = pre @ rest" and "i = length pre" and "cl = 0 \<or> cs + cl = i \<and> zeros gs cs cl" and "zeros gs ls ll"
    and "zero_span i (cs, cl) (ls, ll) rest = (start, len)"
  shows "zeros gs start len"
  using assms
proof (induction rest arbitrary: pre i cs cl ls ll)
  case (Cons g rest)
  have i: "i < length gs" "gs ! i = g"
    using Cons.prems(1,2) by simp_all
  have pre: "gs = (pre @ [g]) @ rest" "Suc i = length (pre @ [g])"
    using Cons.prems(1,2) by simp_all
  show ?case
  proof (cases "g = 0")
    case True
    let ?cs = "if cl = 0 then i else cs"
    have cur: "zeros gs ?cs (Suc cl)" "?cs + Suc cl = Suc i"
      using Cons.prems(3) zeros_extend [of gs cs cl] zeros_extend [of gs i 0] i True
      by (cases "cl = 0"; simp add: zeros_def)+
    have "zeros gs ls' ll'" if "(if ll < Suc cl then (?cs, Suc cl) else (ls, ll)) = (ls', ll')" for ls' ll'
      using that cur(1) Cons.prems(4) by (auto split: if_splits)
    then show ?thesis
      using Cons.IH [OF pre, of "Suc cl" ?cs] cur Cons.prems(5) True
      by (cases "if ll < Suc cl then (?cs, Suc cl) else (ls, ll)") (simp add: Let_def)
  next
    case False
    then show ?thesis
      using Cons.IH [OF pre, of 0 0 ls ll] Cons.prems(4,5) by simp
  qed
qed simp

lemma length_segments [simp]: "length (segments bs) = length bs div 2"
  by (induction bs rule: segments.induct) auto

lemma u16_octets [simp]: "u16_to_be_bytes (u16_from_be_bytes [a, b]) = [a, b]"
proof -
  have "ucast (drop_bit 8 (push_bit 8 (ucast a) OR ucast b :: u16)) = a" "ucast (push_bit 8 (ucast a) OR ucast b :: u16) = b"
    by (rule bit_word_eqI; auto simp: bit_simps dest: bit_imp_le_length)+
  then show ?thesis
    by (simp add: u16_to_be_bytes_def u16_from_be_bytes_def)
qed

lemma segments_octets: "even (length bs) \<Longrightarrow> concat (map u16_to_be_bytes (segments bs)) = bs"
  by (induction bs rule: segments.induct) auto

lemma read_number_none: "stops radix s \<Longrightarrow> read_number radix k z maxv s = None"
  by (simp add: read_number_def read_digits_stop Let_def)

lemma read_ipv4_none: "stops 10 s \<Longrightarrow> read_ipv4_addr s = None"
  by (simp add: read_ipv4_addr_def numeral_eq_Suc read_separator_def read_number_none [unfolded numeral_eq_Suc])

lemma parse_show_mapped:
  assumes "length v4 = 4"
  shows "parse_ipv6 (lit ''::ffff:'' @ show_ip4 v4) = Some (replicate 10 0 @ [0xff, 0xff] @ v4)"
proof -
  obtain a b c d where v4: "v4 = [a, b, c, d]"
    using assms by (auto simp: length_Suc_conv eval_nat_numeral)
  let ?s = "lit ''ffff'' @ 58 # show_ip4 v4"
  have mapped: "lit ''::ffff:'' @ show_ip4 v4 = 58 # 58 # ?s"
    by (simp add: lit_def)
  have head: "read_groups 0 8 (58 # 58 # ?s) = ([], False, 58 # 58 # ?s)"
    by (subst read_groups.simps) (simp add: read_separator_def read_ipv4_none read_number_none)
  have "show_hex 65535 = lit ''ffff''"
    by (simp add: show_hex.simps lit_def)
  then have hex: "read_number 16 4 True 65535 ?s = Some (65535, 58 # show_ip4 v4)"
    using read_number_hex [of "58 # show_ip4 v4" 65535] by simp
  have "stops 10 ?s"
    by (simp add: stops_def to_digit_def lit_def)
  moreover have "read_groups (Suc 0) 7 (58 # show_ip4 v4) = ([u16_from_be_bytes [a, b], u16_from_be_bytes [c, d]], True, [])"
    using read_ipv4_show [OF assms, of "[]"] by (subst read_groups.simps) (simp add: read_separator_def v4)
  ultimately have tail: "read_groups 0 7 ?s = ([0xffff, u16_from_be_bytes [a, b], u16_from_be_bytes [c, d]], True, [])"
    using hex by (subst read_groups.simps) (simp add: read_separator_def read_ipv4_none)
  have "read_ipv6_addr (58 # 58 # ?s) =
      Some (replicate 5 0 @ [0xffff, u16_from_be_bytes [a, b], u16_from_be_bytes [c, d]], [])"
    by (simp add: read_ipv6_addr_def head tail)
  moreover have "u16_to_be_bytes 0 = [0, 0]" "u16_to_be_bytes 0xffff = [0xff, 0xff]"
    by (simp_all add: u16_to_be_bytes_def drop_bit_eq_div)
  ultimately show ?thesis
    unfolding mapped parse_ipv6_def by (simp add: v4 numeral_eq_Suc)
qed

lemma parse_show_groups:
  assumes "length gs = 8"
  shows "read_ipv6_addr (fmt_subslice gs) = Some (gs, [])"
  using read_groups_text [of 0 gs 8 "[]"] assms by (simp add: read_ipv6_addr_def fmt_subslice_text)

lemma parse_show_compressed:
  assumes "length gs = 8" and "zeros gs start len" and "0 < len"
  shows "read_ipv6_addr (fmt_subslice (take start gs) @ lit ''::'' @ fmt_subslice (drop (start + len) gs)) = Some (gs, [])"
proof -
  let ?h = "take start gs" and ?t = "drop (start + len) gs"
  have sizes: "start + len \<le> 8" "length ?h = start" "length ?t = 8 - (start + len)"
    using assms by (simp_all add: zeros_def)
  have lit: "lit ''::'' = [58, 58]"
    by (simp add: lit_def)
  have head: "read_groups 0 8 (groups_text 0 ?h @ 58 # 58 # groups_text 0 ?t) = (?h, False, 58 # 58 # groups_text 0 ?t)"
    by (rule read_groups_text) (use sizes no_dot_groups in \<open>simp_all add: read_separator_def read_number_none\<close>)
  have tail: "read_groups 0 (7 - start) (groups_text 0 ?t) = (?t, False, [])"
    using read_groups_text [of 0 ?t "7 - start" "[]"] sizes assms(3) by (simp add: read_separator_def read_number_none)
  have "take len (drop start gs) = replicate len 0"
    using assms(2) by (simp add: zeros_def)
  then have "?h @ replicate len 0 @ ?t = gs"
    using append_take_drop_id [of len "drop start gs"] append_take_drop_id [of start gs] by (metis add.commute drop_drop)
  then show ?thesis
    using sizes assms(3) unfolding lit fmt_subslice_text read_ipv6_addr_def by (simp add: head tail)
qed

lemma parse_show_ipv6:
  assumes "length bs = 16"
  shows "parse_ipv6 (show_ipv6 bs) = Some bs"
proof (cases "take 12 bs = replicate 10 0 @ [0xff, 0xff]")
  case True
  then have "bs = replicate 10 0 @ [0xff, 0xff] @ drop 12 bs"
    using append_take_drop_id [of 12 bs] by (metis append.assoc)
  then show ?thesis
    using parse_show_mapped [of "drop 12 bs"] True assms by (simp add: show_ipv6_def)
next
  case False
  obtain start len where span: "zero_span 0 (0, 0) (0, 0) (segments bs) = (start, len)"
    by fastforce
  then have "zeros (segments bs) start len"
    using zero_span_zeros [of "segments bs" "[]" "segments bs" 0 0 0 0 0] by (simp add: zeros_def)
  then have "read_ipv6_addr (show_ipv6 bs) = Some (segments bs, [])"
    using False span assms parse_show_compressed [of "segments bs" start len] parse_show_groups [of "segments bs"]
    by (simp add: show_ipv6_def Let_def)
  then show ?thesis
    using segments_octets [of bs] assms by (simp add: parse_ipv6_def)
qed

end
