(* ===== verification/QuicConn.thy ===== *)
theory QuicConn
  imports Transport IpText
begin

text \<open>
  A connection of the QUIC transport, \<open>transports/quic/src/connection.rs\<close>: the life cycle of the
  connection, its streams with their half-closed states, and the queue of writes that QUIC has not yet
  taken.

  The QUIC library (\<open>quiche\<close>: \<open>q_header\<close> tells of a packet whether it is an Initial one, and its
  destination id), the operating system (UDP socket, random source, name resolution; its state is \<open>'s\<close>),
  the check of a certificate and the order in which a hash map lists its keys are parameters, fields of
  \<open>quic_env\<close>.  An operation is a function on the connection, the operating system and the list of events
  it appends to; \<open>None\<close> stands for a loop that never ends.
\<close>

section \<open>What the transport is built on\<close>

datatype socket_addr = SockV4 bytes u16 | SockV6 bytes u16 u32 u32

fun show_socket_addr :: "socket_addr \<Rightarrow> rstr" where
  "show_socket_addr (SockV4 ip port) = show_ip4 ip @ lit '':'' @ show_nat (unat port)"
| "show_socket_addr (SockV6 ip port flowinfo scope) =
     lit ''['' @ show_ipv6 ip @ (if scope = 0 then [] else lit ''%'' @ show_nat (unat scope)) @ lit '']:'' @
     show_nat (unat port)"

text \<open>An error of \<open>quiche\<close> is \<open>Done\<close> or has a text; a UDP read may have nothing to give.\<close>

datatype quiche_error = QDone | QError rstr

datatype io_error = WouldBlock | IoError rstr

datatype shutdown = ShutdownRead | ShutdownWrite

record ('q, 's, 'mh) quic_env =
  q_is_server :: "'q \<Rightarrow> bool"
  q_is_established :: "'q \<Rightarrow> bool"
  q_is_closed :: "'q \<Rightarrow> bool"
  q_source_id :: "'q \<Rightarrow> bytes"
  q_peer_cert :: "'q \<Rightarrow> bytes option"
  q_readable :: "'q \<Rightarrow> u64 list"
  q_recv :: "bytes \<Rightarrow> socket_addr \<Rightarrow> socket_addr \<Rightarrow> 'q \<Rightarrow> 'q \<times> (quiche_error + nat)"
  q_send :: "nat \<Rightarrow> 'q \<Rightarrow> 'q \<times> (quiche_error + bytes \<times> socket_addr)"
  q_close :: "bool \<Rightarrow> u64 \<Rightarrow> bytes \<Rightarrow> 'q \<Rightarrow> 'q \<times> (quiche_error + unit)"
  q_stream_send :: "u64 \<Rightarrow> bytes \<Rightarrow> bool \<Rightarrow> 'q \<Rightarrow> 'q \<times> (quiche_error + nat)"
  q_stream_recv :: "u64 \<Rightarrow> nat \<Rightarrow> 'q \<Rightarrow> 'q \<times> (quiche_error + bytes \<times> bool)"
  q_done_text :: rstr
  q_stream_shutdown :: "u64 \<Rightarrow> shutdown \<Rightarrow> u64 \<Rightarrow> 'q \<Rightarrow> 'q \<times> (quiche_error + unit)"
  udp_send_to :: "bytes \<Rightarrow> socket_addr \<Rightarrow> 's \<Rightarrow> 's \<times> (rstr + nat)"
  udp_recv_from :: "nat \<Rightarrow> 's \<Rightarrow> 's \<times> (io_error + bytes \<times> socket_addr)"
  udp_local_addr :: "'s \<Rightarrow> rstr + socket_addr"
  verify_certificate :: "bytes \<Rightarrow> rstr + 'mh peer_id"
  q_header :: "bytes \<Rightarrow> (bool \<times> bytes) option"
  q_connect :: "bytes \<Rightarrow> socket_addr \<Rightarrow> socket_addr \<Rightarrow> rstr + 'q"
  q_accept :: "bytes \<Rightarrow> socket_addr \<Rightarrow> socket_addr \<Rightarrow> rstr + 'q"
  os_random :: "nat \<Rightarrow> 's \<Rightarrow> 's \<times> (rstr + bytes)"
  os_resolve :: "rstr \<Rightarrow> 's \<Rightarrow> rstr + socket_addr list"
  stream_order :: "u64 list \<Rightarrow> u64 list"
  conn_order :: "connection_id list \<Rightarrow> connection_id list"

section \<open>Operations that may fail or not return\<close>

type_synonym ('st, 'a) io = "'st \<Rightarrow> ('st \<times> (transport_error + 'a)) option"

definition io_ok :: "'a \<Rightarrow> ('st, 'a) io" where
  "io_ok a st = Some (st, Ok a)"

definition io_err :: "transport_error \<Rightarrow> ('st, 'a) io" where
  "io_err e st = Some (st, Err e)"

definition io_bind :: "('st, 'a) io \<Rightarrow> ('a \<Rightarrow> ('st, 'b) io) \<Rightarrow> ('st, 'b) io" where
  "io_bind m f st =
     (case m st of
        None \<Rightarrow> None
      | Some (st', Inl e) \<Rightarrow> Some (st', Err e)
      | Some (st', Inr a) \<Rightarrow> f a st')"

definition io_step :: "('st \<Rightarrow> 'st) \<Rightarrow> ('st, unit) io" where
  "io_step f st = Some (f st, Ok ())"

lemma io_simps [simp]:
  "io_ok a st = Some (st, Ok a)" "io_err e st = Some (st, Err e)" "io_step step st = Some (step st, Ok ())"
  "io_bind (io_ok a) f = f a" "io_bind (io_err e) f = io_err e"
  by (auto simp: io_ok_def io_err_def io_step_def io_bind_def fun_eq_iff)

lemma io_bind_Some:
  "io_bind m f st = Some (st'', r) \<longleftrightarrow>
     (\<exists>st' a. m st = Some (st', Ok a) \<and> f a st' = Some (st'', r)) \<or>
     (\<exists>e. m st = Some (st'', Err e) \<and> r = Err e)"
  by (auto simp: io_bind_def split: option.splits sum.splits prod.splits)

section \<open>Data\<close>

definition SEND_BUF_SIZE :: nat where
  "SEND_BUF_SIZE = 1350"

record pending_stream_write =
  pw_bytes :: bytes
  pw_offset :: nat
  pw_fin :: bool

definition write_data :: "bytes \<Rightarrow> pending_stream_write" where
  "write_data bs = \<lparr>pw_bytes = bs, pw_offset = 0, pw_fin = False\<rparr>"

definition write_fin :: pending_stream_write where
  "write_fin = \<lparr>pw_bytes = [], pw_offset = 0, pw_fin = True\<rparr>"

record stream_runtime_state =
  pending_writes :: "pending_stream_write list"
  local_write_closed :: bool
  remote_write_closed :: bool
  incoming_notified :: bool
  closed_notified :: bool

definition stream_default :: stream_runtime_state where
  "stream_default =
     \<lparr>pending_writes = [], local_write_closed = False, remote_write_closed = False,
      incoming_notified = False, closed_notified = False\<rparr>"

definition on_local_write_closed :: "stream_runtime_state \<Rightarrow> stream_runtime_state" where
  "on_local_write_closed st = st\<lparr>local_write_closed := True\<rparr>"

definition on_remote_write_closed :: "stream_runtime_state \<Rightarrow> stream_runtime_state" where
  "on_remote_write_closed st = st\<lparr>remote_write_closed := True\<rparr>"

definition is_fully_closed :: "stream_runtime_state \<Rightarrow> bool" where
  "is_fully_closed st \<longleftrightarrow> local_write_closed st \<and> remote_write_closed st"

record ('q, 'mh) quic_connection =
  qc_id :: connection_id
  qc_conn :: 'q
  qc_peer_addr :: socket_addr
  qc_endpoint :: "'mh connection_endpoint"
  qc_state :: connection_state
  qc_streams :: "(u64, stream_runtime_state) btree_map"
  qc_next_stream :: u64

definition quic_connection_new ::
  "('q, 's, 'mh) quic_env \<Rightarrow> connection_id \<Rightarrow> 'q \<Rightarrow> socket_addr \<Rightarrow> 'mh connection_endpoint \<Rightarrow> ('q, 'mh) quic_connection" where
  "quic_connection_new E c q addr endpoint =
     \<lparr>qc_id = c, qc_conn = q, qc_peer_addr = addr, qc_endpoint = endpoint, qc_state = CsConnecting, qc_streams = [],
      qc_next_stream = (if q_is_server E q then 1 else 0)\<rparr>"

text \<open>The connection, the socket, and the events emitted so far.\<close>

type_synonym ('q, 's, 'mh) conn_io = "('q, 'mh) quic_connection \<times> 's \<times> 'mh transport_event list"

definition update_conn :: "(('q, 'mh) quic_connection \<Rightarrow> ('q, 'mh) quic_connection) \<Rightarrow> (('q, 's, 'mh) conn_io, unit) io" where
  "update_conn f = io_step (\<lambda>(c, k, events). (f c, k, events))"

section \<open>Sending\<close>

text \<open>The loop that hands the packets of a QUIC connection to the socket.\<close>

partial_function (option) send_packets ::
  "('q, 's, 'mh) quic_env \<Rightarrow> (rstr \<Rightarrow> transport_error) \<Rightarrow> (rstr \<Rightarrow> transport_error) \<Rightarrow> 'q \<Rightarrow> 's \<Rightarrow>
     ('q \<times> 's \<times> (transport_error + unit)) option" where
  "send_packets E quiche_err udp_err q k =
     (case q_send E SEND_BUF_SIZE q of
        (q, Inl err) \<Rightarrow>
          (case err of
             QDone \<Rightarrow> Some (q, k, Ok ())
           | QError e \<Rightarrow> Some (q, k, Err (quiche_err e)))
      | (q, Inr packet) \<Rightarrow>
          (case udp_send_to E (fst packet) (snd packet) k of
             (k, Inl e) \<Rightarrow> Some (q, k, Err (udp_err e))
           | (k, Inr _) \<Rightarrow> send_packets E quiche_err udp_err q k))"

definition qc_flush :: "('q, 's, 'mh) quic_env \<Rightarrow> (('q, 's, 'mh) conn_io, unit) io" where
  "qc_flush E = (\<lambda>(c, k, events).
     map_option (\<lambda>(q, k, res). ((c\<lparr>qc_conn := q\<rparr>, k, events), res))
       (send_packets E (\<lambda>e. TrCloseFailed (qc_id c) (lit ''quiche send error: '' @ e))
          (\<lambda>e. TrCloseFailed (qc_id c) (lit ''udp send error: '' @ e)) (qc_conn c) k))"

definition note_closed ::
  "connection_id \<Rightarrow> stream_id \<Rightarrow> stream_runtime_state \<times> 'mh transport_event list \<Rightarrow>
     stream_runtime_state \<times> 'mh transport_event list" where
  "note_closed c sid x =
     (case x of (st, events) \<Rightarrow>
        if is_fully_closed st \<and> \<not> closed_notified st
        then (st\<lparr>closed_notified := True\<rparr>, events @ [TeStreamClosed c sid])
        else (st, events))"

text \<open>What an accepted write leaves of the queue: nothing of a FIN, the rest of the bytes otherwise.\<close>

definition write_done :: "nat \<Rightarrow> pending_stream_write \<Rightarrow> pending_stream_write list \<Rightarrow> pending_stream_write list" where
  "write_done written w ws =
     (if pw_fin w \<and> pw_bytes w = [] then ws
      else let w = w\<lparr>pw_offset := pw_offset w + written\<rparr>
           in if length (pw_bytes w) \<le> pw_offset w then ws else w # ws)"

definition queue_weight :: "pending_stream_write list \<Rightarrow> nat" where
  "queue_weight ws = (\<Sum>w \<leftarrow> ws. Suc (length (pw_bytes w) - pw_offset w))"

lemma queue_weight_done:
  "(pw_fin w \<and> pw_bytes w = []) \<or> written \<noteq> 0 \<Longrightarrow> queue_weight (write_done written w ws) < queue_weight (w # ws)"
  by (auto simp: queue_weight_def write_done_def Let_def)

lemma pending_note_closed [simp]: "pending_writes (fst (note_closed c sid x)) = pending_writes (fst x)"
  by (auto simp: note_closed_def split: prod.split)

text \<open>The writes of one stream, as far as QUIC takes them.\<close>

function drain_stream ::
  "('q, 's, 'mh) quic_env \<Rightarrow> connection_id \<Rightarrow> u64 \<Rightarrow> 'q \<Rightarrow> stream_runtime_state \<times> 'mh transport_event list \<Rightarrow>
     'q \<times> (stream_runtime_state \<times> 'mh transport_event list) \<times> (transport_error + unit)" where
  "drain_stream E c raw q x =
     (case pending_writes (fst x) of
        [] \<Rightarrow> (q, x, Ok ())
      | w # ws \<Rightarrow>
          let payload = drop (pw_offset w) (pw_bytes w);
              fin = (pw_fin w \<and> payload = [])
          in case q_stream_send E raw payload fin q of
               (q, Inl QDone) \<Rightarrow> (q, x, Ok ())
             | (q, Inl (QError e)) \<Rightarrow>
                 (q, x, Err (TrStreamSendFailed c (StreamId raw) (lit ''stream_send error: '' @ e)))
             | (q, Inr written) \<Rightarrow>
                 if \<not> (pw_fin w \<and> pw_bytes w = []) \<and> written = 0 then (q, x, Ok ())
                 else drain_stream E c raw q
                        (note_closed c (StreamId raw)
                           ((fst x)\<lparr>pending_writes := write_done written w ws\<rparr>, snd x)))"
  by pat_completeness auto
termination
  by (relation "measure (\<lambda>(E, c, raw, q, x). queue_weight (pending_writes (fst x)))") (auto intro!: queue_weight_done)

declare drain_stream.simps [simp del]

fun drain_streams ::
  "('q, 's, 'mh) quic_env \<Rightarrow> u64 list \<Rightarrow> (('q, 's, 'mh) conn_io, unit) io" where
  "drain_streams E [] (c, k, events) = Some ((c, k, events), Ok ())"
| "drain_streams E (raw # raws) (c, k, events) =
     (case bm_get (qc_streams c) raw of
        None \<Rightarrow> drain_streams E raws (c, k, events)
      | Some st \<Rightarrow>
          (case drain_stream E (qc_id c) raw (qc_conn c) (st, events) of
             (q, (st, events), res) \<Rightarrow>
               let c = c\<lparr>qc_conn := q, qc_streams := bm_insert raw st (qc_streams c)\<rparr>
               in case res of
                    Inl e \<Rightarrow> Some ((c, k, events), Err e)
                  | Inr _ \<Rightarrow> drain_streams E raws (c, k, events)))"

definition drain_send_queue :: "('q, 's, 'mh) quic_env \<Rightarrow> (('q, 's, 'mh) conn_io, unit) io" where
  "drain_send_queue E = (\<lambda>(c, k, events). drain_streams E (stream_order E (bm_keys (qc_streams c))) (c, k, events))"

definition drain_and_flush :: "('q, 's, 'mh) quic_env \<Rightarrow> (('q, 's, 'mh) conn_io, unit) io" where
  "drain_and_flush E = io_bind (drain_send_queue E) (\<lambda>_. qc_flush E)"

section \<open>Streams\<close>

definition is_local_initiated_stream :: "('q, 's, 'mh) quic_env \<Rightarrow> ('q, 'mh) quic_connection \<Rightarrow> u64 \<Rightarrow> bool" where
  "is_local_initiated_stream E c raw \<longleftrightarrow> and raw 1 = (if q_is_server E (qc_conn c) then 1 else 0)"

definition is_remote_initiated_stream :: "('q, 's, 'mh) quic_env \<Rightarrow> ('q, 'mh) quic_connection \<Rightarrow> u64 \<Rightarrow> bool" where
  "is_remote_initiated_stream E c raw \<longleftrightarrow> \<not> is_local_initiated_stream E c raw"

definition put_stream :: "u64 \<Rightarrow> stream_runtime_state \<Rightarrow> ('q, 'mh) quic_connection \<Rightarrow> ('q, 'mh) quic_connection" where
  "put_stream raw st c = c\<lparr>qc_streams := bm_insert raw st (qc_streams c)\<rparr>"

definition qc_open_stream ::
  "('q, 'mh) quic_connection \<Rightarrow> ('q, 'mh) quic_connection \<times> (transport_error + stream_id)" where
  "qc_open_stream c =
     (if qc_state c \<noteq> CsConnected then (c, Err (TrInvalidState (qc_id c) (qc_state c) CsConnected))
      else
        let raw = qc_next_stream c;
            c = c\<lparr>qc_next_stream := qc_next_stream c + 4\<rparr>
        in if bm_get (qc_streams c) raw \<noteq> None then (c, Err (TrStreamExists (qc_id c) (StreamId raw)))
           else (put_stream raw stream_default c, Ok (StreamId raw)))"

text \<open>The state of a stream to write to, which a stream of our own gets on first use.\<close>

definition get_or_create_local_stream_state ::
  "('q, 's, 'mh) quic_env \<Rightarrow> stream_id \<Rightarrow> ('q, 'mh) quic_connection \<Rightarrow> transport_error + stream_runtime_state" where
  "get_or_create_local_stream_state E sid c =
     (case bm_get (qc_streams c) (stream_u64 sid) of
        Some st \<Rightarrow> Ok st
      | None \<Rightarrow>
          if \<not> is_local_initiated_stream E c (stream_u64 sid) then Err (TrStreamNotFound (qc_id c) sid)
          else Ok stream_default)"

definition write_closed_text :: rstr where
  "write_closed_text = lit ''local stream write side is already closed''"

definition qc_send_stream ::
  "('q, 's, 'mh) quic_env \<Rightarrow> stream_id \<Rightarrow> bytes \<Rightarrow> (('q, 's, 'mh) conn_io, unit) io" where
  "qc_send_stream E sid data = (\<lambda>(c, k, events).
     if data = [] then Some ((c, k, events), Ok ())
     else case get_or_create_local_stream_state E sid c of
         Inl e \<Rightarrow> Some ((c, k, events), Err e)
       | Inr st \<Rightarrow>
           if local_write_closed st
           then Some ((c, k, events),
                  Err (TrStreamSendFailed (qc_id c) sid write_closed_text))
           else drain_and_flush E
                  (put_stream (stream_u64 sid) (st\<lparr>pending_writes := pending_writes st @ [write_data data]\<rparr>) c, k, events))"

definition qc_close_stream_write ::
  "('q, 's, 'mh) quic_env \<Rightarrow> stream_id \<Rightarrow> (('q, 's, 'mh) conn_io, unit) io" where
  "qc_close_stream_write E sid = (\<lambda>(c, k, events).
     case get_or_create_local_stream_state E sid c of
       Inl e \<Rightarrow> Some ((c, k, events), Err e)
     | Inr st \<Rightarrow>
         if local_write_closed st
         then Some ((c, k, events),
                Err (TrStreamCloseWriteFailed (qc_id c) sid write_closed_text))
         else let st = on_local_write_closed st
              in drain_and_flush E
                   (put_stream (stream_u64 sid) (st\<lparr>pending_writes := pending_writes st @ [write_fin]\<rparr>) c, k, events))"

fun quiche_error_text :: "('q, 's, 'mh) quic_env \<Rightarrow> quiche_error \<Rightarrow> rstr" where
  "quiche_error_text E QDone = q_done_text E"
| "quiche_error_text E (QError e) = e"

definition qc_reset_stream :: "('q, 's, 'mh) quic_env \<Rightarrow> stream_id \<Rightarrow> (('q, 's, 'mh) conn_io, unit) io" where
  "qc_reset_stream E sid = (\<lambda>(c, k, events).
     case bm_get (qc_streams c) (stream_u64 sid) of
       None \<Rightarrow> Some ((c, k, events), Err (TrStreamNotFound (qc_id c) sid))
     | Some st \<Rightarrow>
         (case q_stream_shutdown E (stream_u64 sid) ShutdownWrite 0 (qc_conn c) of
            (q, Inl e) \<Rightarrow> Some ((c\<lparr>qc_conn := q\<rparr>, k, events), Err (TrStreamResetFailed (qc_id c) sid
              (lit ''failed to shutdown stream write side: '' @ quiche_error_text E e)))
          | (q, Inr _) \<Rightarrow>
              (case q_stream_shutdown E (stream_u64 sid) ShutdownRead 0 q of
                 (q, Inl e) \<Rightarrow> Some ((c\<lparr>qc_conn := q\<rparr>, k, events), Err (TrStreamResetFailed (qc_id c) sid
                   (lit ''failed to shutdown stream read side: '' @ quiche_error_text E e)))
               | (q, Inr _) \<Rightarrow>
                   (case note_closed (qc_id c) sid
                       (st\<lparr>local_write_closed := True, remote_write_closed := True\<rparr>, events) of
                      (st, events) \<Rightarrow> Some ((put_stream (stream_u64 sid) st (c\<lparr>qc_conn := q\<rparr>), k, events), Ok ())))))"

definition qc_close :: "('q, 's, 'mh) quic_env \<Rightarrow> (('q, 's, 'mh) conn_io, unit) io" where
  "qc_close E = (\<lambda>(c, k, events).
     case q_close E True 0 (lit ''bye'') (qc_conn c) of
       (q, Inl (QError e)) \<Rightarrow>
         Some ((c\<lparr>qc_conn := q\<rparr>, k, events), Err (TrCloseFailed (qc_id c) (lit ''close error: '' @ e)))
     | (q, _) \<Rightarrow>
         map_option (\<lambda>((c, k, drained), res). ((c, k, events), res))
           (drain_and_flush E (c\<lparr>qc_conn := q, qc_state := CsClosing\<rparr>, k, [])))"

section \<open>Receiving\<close>

definition ensure_stream_discovered ::
  "('q, 's, 'mh) quic_env \<Rightarrow> stream_id \<Rightarrow> ('q, 'mh) quic_connection \<times> 'mh transport_event list \<Rightarrow>
     ('q, 'mh) quic_connection \<times> 'mh transport_event list" where
  "ensure_stream_discovered E sid x =
     (case x of (c, events) \<Rightarrow>
        let st = bm_entry stream_default (qc_streams c) (stream_u64 sid)
        in if is_remote_initiated_stream E c (stream_u64 sid) \<and> \<not> incoming_notified st
           then (put_stream (stream_u64 sid) (st\<lparr>incoming_notified := True\<rparr>) c, events @ [TeIncomingStream (qc_id c) sid])
           else (put_stream (stream_u64 sid) st c, events))"

definition note_stream_closed_if_finished ::
  "stream_id \<Rightarrow> ('q, 'mh) quic_connection \<times> 'mh transport_event list \<Rightarrow> ('q, 'mh) quic_connection \<times> 'mh transport_event list" where
  "note_stream_closed_if_finished sid x =
     (case x of (c, events) \<Rightarrow>
        case bm_get (qc_streams c) (stream_u64 sid) of
          None \<Rightarrow> (c, events)
        | Some st \<Rightarrow> (case note_closed (qc_id c) sid (st, events) of (st, events) \<Rightarrow> (put_stream (stream_u64 sid) st c, events)))"

definition mark_remote_closed :: "u64 \<Rightarrow> ('q, 'mh) quic_connection \<Rightarrow> ('q, 'mh) quic_connection" where
  "mark_remote_closed raw c =
     (case bm_get (qc_streams c) raw of None \<Rightarrow> c | Some st \<Rightarrow> put_stream raw (on_remote_write_closed st) c)"

definition RECV_BUF_SIZE :: nat where
  "RECV_BUF_SIZE = 65535"

text \<open>Reading one stream until QUIC has nothing more of it.\<close>

partial_function (option) read_stream ::
  "('q, 's, 'mh) quic_env \<Rightarrow> stream_id \<Rightarrow> ('q, 'mh) quic_connection \<Rightarrow> 'mh transport_event list \<Rightarrow>
     (('q, 'mh) quic_connection \<times> 'mh transport_event list) option" where
  "read_stream E sid c events =
     (case q_stream_recv E (stream_u64 sid) RECV_BUF_SIZE (qc_conn c) of
        (q, Inl err) \<Rightarrow>
          (case err of
             QDone \<Rightarrow> Some (c\<lparr>qc_conn := q\<rparr>, events)
           | QError e \<Rightarrow> Some (c\<lparr>qc_conn := q\<rparr>,
               events @ [TeError (qc_id c) (lit ''stream_recv error on '' @ show_stream_id sid @ lit '': '' @ e)]))
      | (q, Inr got) \<Rightarrow>
          let c = c\<lparr>qc_conn := q\<rparr>;
              events = (if fst got \<noteq> [] then events @ [TeStreamData (qc_id c) sid (fst got)] else events)
          in if snd got
             then Some (note_stream_closed_if_finished sid
                    (mark_remote_closed (stream_u64 sid) c, events @ [TeStreamRemoteWriteClosed (qc_id c) sid]))
             else read_stream E sid c events)"

fun read_streams ::
  "('q, 's, 'mh) quic_env \<Rightarrow> u64 list \<Rightarrow> ('q, 'mh) quic_connection \<times> 'mh transport_event list \<Rightarrow>
     (('q, 'mh) quic_connection \<times> 'mh transport_event list) option" where
  "read_streams E [] x = Some x"
| "read_streams E (raw # raws) x =
     (case ensure_stream_discovered E (StreamId raw) x of
        (c, events) \<Rightarrow> Option.bind (read_stream E (StreamId raw) c events) (read_streams E raws))"

definition gc_closed_streams :: "('q, 'mh) quic_connection \<Rightarrow> ('q, 'mh) quic_connection" where
  "gc_closed_streams c =
     c\<lparr>qc_streams := bm_retain (\<lambda>_ st. \<not> (closed_notified st \<and> pending_writes st = [])) (qc_streams c)\<rparr>"

definition poll_streams :: "('q, 's, 'mh) quic_env \<Rightarrow> (('q, 's, 'mh) conn_io, unit) io" where
  "poll_streams E = (\<lambda>(c, k, events).
     if \<not> q_is_established E (qc_conn c) then Some ((c, k, events), Ok ())
     else Option.bind (read_streams E (q_readable E (qc_conn c)) (c, events)) (\<lambda>(c, events).
       io_bind (drain_and_flush E) (\<lambda>_. update_conn gc_closed_streams) (c, k, events)))"

text \<open>Refusing a connection after its handshake.\<close>

definition reject_connection ::
  "('q, 's, 'mh) quic_env \<Rightarrow> rstr \<Rightarrow> u64 \<Rightarrow> rstr \<Rightarrow> (('q, 's, 'mh) conn_io, unit) io" where
  "reject_connection E message code reason = (\<lambda>(c, k, events).
     qc_flush E (c\<lparr>qc_conn := fst (q_close E True code reason (qc_conn c)), qc_state := CsClosing\<rparr>, k,
       events @ [TeError (qc_id c) message]))"

text \<open>The certificate of the remote, checked once the handshake is complete.\<close>

definition verify_remote :: "'mh multihash_api \<Rightarrow> ('q, 's, 'mh) quic_env \<Rightarrow> (('q, 's, 'mh) conn_io, unit) io" where
  "verify_remote M E = (\<lambda>(c, k, events).
     case q_peer_cert E (qc_conn c) of
       None \<Rightarrow> reject_connection E (lit ''peer TLS certificate missing'') 3 (lit ''peer certificate missing'') (c, k, events)
     | Some cert \<Rightarrow>
         (case verify_certificate E cert of
            Inl e \<Rightarrow> reject_connection E (lit ''peer TLS certificate verification failed: '' @ e) 2
              (lit ''certificate verification failed'') (c, k, events)
          | Inr verified \<Rightarrow>
              (case ep_peer_id (qc_endpoint c) of
                 Some expected \<Rightarrow>
                   if expected \<noteq> verified
                   then reject_connection E (lit ''peer id mismatch: dialed '' @ to_base58 M expected @
                          lit '' but server certificate proves '' @ to_base58 M verified) 1 (lit ''peer id mismatch'')
                          (c, k, events)
                   else let endpoint = endpoint_set_peer_id verified (qc_endpoint c)
                        in Some ((c\<lparr>qc_endpoint := endpoint\<rparr>, k, events @ [TeConnected (qc_id c) endpoint]), Ok ())
               | None \<Rightarrow>
                   let endpoint = endpoint_set_peer_id verified (qc_endpoint c)
                   in Some ((c\<lparr>qc_endpoint := endpoint\<rparr>, k, events @ [TeConnected (qc_id c) endpoint]), Ok ()))))"

definition recv_packet ::
  "'mh multihash_api \<Rightarrow> ('q, 's, 'mh) quic_env \<Rightarrow> bytes \<Rightarrow> socket_addr \<Rightarrow> socket_addr \<Rightarrow> (('q, 's, 'mh) conn_io, unit) io" where
  "recv_packet M E buf from local_addr = (\<lambda>(c, k, events).
     case q_recv E buf from local_addr (qc_conn c) of
       (q, Inl (QError e)) \<Rightarrow>
         Some ((c\<lparr>qc_conn := q\<rparr>, k, events @ [TeError (qc_id c) (lit ''recv error: '' @ e)]), Ok ())
     | (q, _) \<Rightarrow>
         let c = c\<lparr>qc_conn := q\<rparr>
         in if qc_state c = CsConnecting \<and> q_is_established E q
            then io_bind (drain_and_flush E) (\<lambda>_. verify_remote M E) (c\<lparr>qc_state := CsConnected\<rparr>, k, events)
            else drain_and_flush E (c, k, events))"

definition matches_peer :: "socket_addr \<Rightarrow> ('q, 'mh) quic_connection \<Rightarrow> bool" where
  "matches_peer addr c \<longleftrightarrow> qc_peer_addr c = addr"

end
