(* ===== verification/MultiaddrText.thy ===== *)
theory MultiaddrText
  imports IpText
begin

text \<open>
  The text form of multiaddrs and peer addresses: \<open>parse_multiaddr\<close> and the \<open>Display\<close> and \<open>FromStr\<close>
  implementations of \<open>crates/core/src/{multiaddr,peer_addr}.rs\<close>.
\<close>

section \<open>Display\<close>

fun show_protocol :: "'mh multihash_api \<Rightarrow> 'mh protocol \<Rightarrow> rstr" where
  "show_protocol M (Ip4 bs) = lit ''/ip4/'' @ show_ip4 bs"
| "show_protocol M (Ip6 bs) = lit ''/ip6/'' @ show_ipv6 bs"
| "show_protocol M (Dns value) = lit ''/dns/'' @ value"
| "show_protocol M (Dns4 value) = lit ''/dns4/'' @ value"
| "show_protocol M (Dns6 value) = lit ''/dns6/'' @ value"
| "show_protocol M (Udp port) = lit ''/udp/'' @ show_nat (unat port)"
| "show_protocol M QuicV1 = lit ''/quic-v1''"
| "show_protocol M (P2p p) = lit ''/p2p/'' @ to_base58 M p"

definition show_multiaddr :: "'mh multihash_api \<Rightarrow> 'mh multiaddr \<Rightarrow> rstr" where
  "show_multiaddr M a = concat (map (show_protocol M) (protocols a))"

definition show_peer_addr :: "'mh multihash_api \<Rightarrow> 'mh peer_addr \<Rightarrow> rstr" where
  "show_peer_addr M a = show_multiaddr M (peer_addr_to_multiaddr a)"

definition quoted :: "rstr \<Rightarrow> rstr" where
  "quoted x = quote @ x @ quote"

fun show_multiaddr_error :: "multiaddr_error \<Rightarrow> rstr" where
  "show_multiaddr_error MaEmptyInput = lit ''multiaddr input is empty''"
| "show_multiaddr_error MissingLeadingSlash =
     lit ''multiaddr must start with '' @ quoted (lit ''/'') @ lit '' (example: /ip4/127.0.0.1/udp/4001/quic-v1)''"
| "show_multiaddr_error EmptyProtocol = lit ''empty protocol segment in multiaddr''"
| "show_multiaddr_error (MissingValue proto) = lit ''missing value for protocol '' @ quoted proto"
| "show_multiaddr_error (UnknownProtocol proto) = lit ''unknown protocol '' @ quoted proto"
| "show_multiaddr_error (InvalidIp4 v) = lit ''invalid ip4 value '' @ quoted v"
| "show_multiaddr_error (InvalidIp6 v) = lit ''invalid ip6 value '' @ quoted v"
| "show_multiaddr_error (InvalidPort v) = lit ''invalid udp port '' @ quoted v"
| "show_multiaddr_error (InvalidDnsName v) = lit ''invalid dns value '' @ quoted v"
| "show_multiaddr_error (InvalidPeerId v e) =
     lit ''invalid peer id '' @ quoted v @ lit '': '' @ show_peer_id_error e"
| "show_multiaddr_error (UnknownProtocolCode code) =
     lit ''unknown multicodec protocol code 0x'' @ show_hex (unat code)"
| "show_multiaddr_error (TruncatedBinaryValue proto) =
     lit ''truncated binary value for protocol '' @ quoted proto"
| "show_multiaddr_error (InvalidBinaryValue proto reason) =
     lit ''invalid binary value for protocol '' @ quoted proto @ lit '': '' @ reason"
| "show_multiaddr_error (MaVarint e) = lit ''invalid varint in binary multiaddr: '' @ show_varint_error e"

fun show_peer_addr_error :: "peer_addr_error \<Rightarrow> rstr" where
  "show_peer_addr_error (MultiaddrErr e) = lit ''multiaddr parse error: '' @ show_multiaddr_error e"
| "show_peer_addr_error MissingPeerId = lit ''peer address must end with /p2p/<peer-id>''"
| "show_peer_addr_error NonTerminalPeerId = lit ''peer id protocol must be terminal''"
| "show_peer_addr_error TransportContainsPeerId = lit ''transport address must not already contain /p2p''"
| "show_peer_addr_error EmptyTransport =
     lit ''transport address must contain at least one protocol before /p2p/<peer-id>''"

section \<open>Parsing\<close>

text \<open>\<open>str::split\<close> at an ASCII character.\<close>

fun split_on :: "byte \<Rightarrow> rstr \<Rightarrow> rstr list" where
  "split_on d [] = [[]]"
| "split_on d (c # cs) =
     (if c = d then [] # split_on d cs
      else case split_on d cs of [] \<Rightarrow> [[c]] | x # xs \<Rightarrow> (c # x) # xs)"

definition require_value :: "rstr list \<Rightarrow> nat \<Rightarrow> rstr \<Rightarrow> multiaddr_error + rstr" where
  "require_value segs idx protocol =
     (if idx + 1 < length segs \<and> segs ! (idx + 1) \<noteq> [] then Ok (segs ! (idx + 1)) else Err (MissingValue protocol))"

text \<open>\<open>char::is_whitespace\<close> (the property \<open>White_Space\<close>) and \<open>char::is_control\<close> (the category \<open>Cc\<close>).\<close>

definition is_whitespace :: "rchar \<Rightarrow> bool" where
  "is_whitespace c \<longleftrightarrow> 9 \<le> c \<and> c \<le> 13 \<or> c = 0x20 \<or> c = 0x85 \<or> c = 0xA0 \<or> c = 0x1680 \<or>
     0x2000 \<le> c \<and> c \<le> 0x200A \<or> c = 0x2028 \<or> c = 0x2029 \<or> c = 0x202F \<or> c = 0x205F \<or> c = 0x3000"

definition is_control :: "rchar \<Rightarrow> bool" where
  "is_control c \<longleftrightarrow> c \<le> 0x1F \<or> 0x7F \<le> c \<and> c \<le> 0x9F"

definition is_valid_dns :: "rstr \<Rightarrow> bool" where
  "is_valid_dns value \<longleftrightarrow> value \<noteq> [] \<and> \<not> list_ex (\<lambda>c. c = 47) value \<and>
     \<not> list_ex (\<lambda>ch. is_whitespace ch \<or> is_control ch) (chars value)"

fun parse_slots :: "nat \<Rightarrow> rstr list \<Rightarrow> (bytes \<times> rstr list) option" where
  "parse_slots 0 parts = Some ([], parts)"
| "parse_slots (Suc k) [] = None"
| "parse_slots (Suc k) (part # parts) = do {
     v \<leftarrow> parse_uint 255 part;
     (vs, parts) \<leftarrow> parse_slots k parts;
     Some (of_nat v # vs, parts)
   }"

definition parse_ip4 :: "rstr \<Rightarrow> bytes option" where
  "parse_ip4 value = do {
     (out, parts) \<leftarrow> parse_slots 4 (split_on 46 value);
     if parts \<noteq> [] then None else Some out
   }"

text \<open>One turn of the loop: the component at \<open>idx\<close> and the number of segments it takes.\<close>

definition parse_component ::
  "'mh multihash_api \<Rightarrow> rstr list \<Rightarrow> nat \<Rightarrow> multiaddr_error + ('mh protocol \<times> nat)" where
  "parse_component M segs idx =
     (let protocol = segs ! idx
      in if protocol = [] then Err EmptyProtocol
         else if protocol = lit ''ip4''
         then and_then (require_value segs idx (lit ''ip4'')) (\<lambda>value.
                and_then (ok_or (InvalidIp4 value) (parse_ip4 value)) (\<lambda>parsed. Ok (Ip4 parsed, 2)))
         else if protocol = lit ''ip6''
         then and_then (require_value segs idx (lit ''ip6'')) (\<lambda>value.
                and_then (ok_or (InvalidIp6 value) (parse_ipv6 value)) (\<lambda>parsed. Ok (Ip6 parsed, 2)))
         else if protocol = lit ''dns'' \<or> protocol = lit ''dns4'' \<or> protocol = lit ''dns6''
         then and_then (require_value segs idx protocol) (\<lambda>value.
                if \<not> is_valid_dns value then Err (InvalidDnsName value)
                else Ok (if protocol = lit ''dns'' then Dns value
                         else if protocol = lit ''dns4'' then Dns4 value else Dns6 value, 2))
         else if protocol = lit ''udp''
         then and_then (require_value segs idx (lit ''udp'')) (\<lambda>value.
                and_then (ok_or (InvalidPort value) (parse_uint 65535 value)) (\<lambda>parsed. Ok (Udp (of_nat parsed), 2)))
         else if protocol = lit ''quic-v1'' then Ok (QuicV1, 1)
         else if protocol = lit ''p2p''
         then and_then (require_value segs idx (lit ''p2p'')) (\<lambda>value.
                and_then (map_err (InvalidPeerId value) (peer_id_from_str M value)) (\<lambda>parsed. Ok (P2p parsed, 2)))
         else Err (UnknownProtocol protocol))"

lemma parse_component_advance [advance]: "parse_component M segs idx = Ok (p, step) \<Longrightarrow> 0 < step"
  by (auto simp: parse_component_def Let_def and_then_eq_Inr split: if_splits)

function parse_loop ::
  "'mh multihash_api \<Rightarrow> rstr list \<Rightarrow> nat \<Rightarrow> 'mh protocol list \<Rightarrow> multiaddr_error + 'mh multiaddr" where
  "parse_loop M segs idx ps =
     (if idx < length segs
      then and_then (parse_component M segs idx) (\<lambda>r. parse_loop M segs (idx + snd r) (ps @ [fst r]))
      else Ok (Multiaddr ps))"
  by pat_completeness auto
termination
  by (relation "measure (\<lambda>(M, segs, idx, ps). length segs - idx)") (auto dest: parse_component_advance)

declare parse_loop.simps [simp del]

definition parse_multiaddr :: "'mh multihash_api \<Rightarrow> rstr \<Rightarrow> multiaddr_error + 'mh multiaddr" where
  "parse_multiaddr M input =
     (if input = [] then Err MaEmptyInput
      else if \<not> starts_with input (lit ''/'') then Err MissingLeadingSlash
      else parse_loop M (split_on 47 input) 1 [])"

definition parse_peer_addr :: "'mh multihash_api \<Rightarrow> rstr \<Rightarrow> peer_addr_error + 'mh peer_addr" where
  "parse_peer_addr M s = and_then (map_err MultiaddrErr (parse_multiaddr M s)) peer_addr_from_multiaddr"

section \<open>Splitting\<close>

lemma split_on_not_Nil [simp]: "split_on d s \<noteq> []"
  by (cases s) (auto split: list.split)

lemma split_on_clean: "d \<notin> set s \<Longrightarrow> split_on d s = [s]"
  by (induction s) auto

lemma split_on_sep: "d \<notin> set s \<Longrightarrow> split_on d (s @ d # t) = s # split_on d t"
  by (induction s) auto

lemma split_on_segments:
  "\<forall>x \<in> set xs. d \<notin> set x \<Longrightarrow> d \<notin> set s \<Longrightarrow> split_on d (s @ concat (map (\<lambda>x. d # x) xs)) = s # xs"
  by (induction xs arbitrary: s) (auto simp: split_on_clean split_on_sep)

text \<open>The pieces of a string at a separator below 128 are strings again.\<close>

lemma split_on_prepend: "d \<notin> set ch \<Longrightarrow> split_on d (ch @ s) = (ch @ hd (split_on d s)) # tl (split_on d s)"
  by (induction ch) auto

lemma utf8_high:
  "utf8_cont b \<Longrightarrow> 0x80 \<le> b" "utf8_second3 a b \<Longrightarrow> 0x80 \<le> a \<and> 0x80 \<le> b" "utf8_second4 a b \<Longrightarrow> 0x80 \<le> a \<and> 0x80 \<le> b"
  by (auto simp: utf8_cont_def utf8_second3_def utf8_second4_def word_le_nat_alt)

lemma utf8_first_char:
  assumes "utf8_ok s" and "s \<noteq> []"
  obtains ch rest where "s = ch @ rest" "ch \<noteq> []" "utf8_ok rest" "\<And>t. utf8_ok t \<Longrightarrow> utf8_ok (ch @ t)"
    "(\<exists>a. ch = [a] \<and> a < 0x80) \<or> (\<forall>b \<in> set ch. 0x80 \<le> b)"
proof (cases s)
  case (Cons a bs)
  show thesis
  proof (cases "a < 0x80")
    case True
    then show thesis
      using that [of "[a]" bs] assms Cons by simp
  next
    case a: False
    then obtain b cs where bs: "bs = b # cs"
      using assms Cons by (cases bs) simp_all
    show thesis
    proof (cases "0xC2 \<le> a \<and> a \<le> 0xDF")
      case True
      then show thesis
        using that [of "[a, b]" cs] assms Cons a bs utf8_high(1) [of b] by (simp add: not_less)
    next
      case two: False
      then obtain c ds where cs: "cs = c # ds"
        using assms Cons a bs by (cases cs) auto
      show thesis
      proof (cases "0xE0 \<le> a \<and> a \<le> 0xEF")
        case True
        then show thesis
          using that [of "[a, b, c]" ds] assms(1) two a utf8_high(1) [of c] utf8_high(2) [of a b]
          by (auto simp: Cons bs cs)
      next
        case False
        then show thesis
          using that [of "[a, b, c, hd ds]" "tl ds"] assms(1) two a utf8_high(1) [of c] utf8_high(1) [of "hd ds"]
            utf8_high(3) [of a b]
          by (cases ds) (auto simp: Cons bs cs)
      qed
    qed
  qed
qed (use assms in simp)

lemma utf8_ok_split: "d < 0x80 \<Longrightarrow> utf8_ok s \<Longrightarrow> list_all utf8_ok (split_on d s)"
proof (induction s rule: length_induct)
  case (1 s)
  show ?case
  proof (cases "s = []")
    case False
    then obtain ch rest where ch: "s = ch @ rest" "ch \<noteq> []" "utf8_ok rest" "\<And>t. utf8_ok t \<Longrightarrow> utf8_ok (ch @ t)"
      "(\<exists>a. ch = [a] \<and> a < 0x80) \<or> (\<forall>b \<in> set ch. 0x80 \<le> b)"
      using utf8_first_char [OF 1(3)] by metis
    then have rest: "list_all utf8_ok (split_on d rest)"
      using 1 by simp
    show ?thesis
    proof (cases "ch = [d]")
      case True
      then show ?thesis
        using ch(1) rest by simp
    next
      case False
      then have "d \<notin> set ch"
        using ch(5) 1(2) by (auto simp: not_le [symmetric])
      then show ?thesis
        using ch(1,4) rest by (cases "split_on d rest") (auto simp: split_on_prepend)
    qed
  qed simp
qed

section \<open>Values\<close>

text \<open>
  The value of a component in text: it reads back, and it is a single segment.  Each kind of value is an
  instance.
\<close>

locale text_value =
  fixes shw :: "'a \<Rightarrow> rstr" and prs :: "rstr \<Rightarrow> 'a option" and ok :: "'a \<Rightarrow> bool"
  assumes prs_shw: "ok x \<Longrightarrow> prs (shw x) = Some x"
    and shw_segment: "ok x \<Longrightarrow> shw x \<noteq> [] \<and> 47 \<notin> set (shw x)"
begin

lemma require_shw:
  "ok x \<Longrightarrow> segs ! Suc idx = shw x \<Longrightarrow> Suc idx < length segs \<Longrightarrow> require_value segs idx name = Ok (shw x)"
  using shw_segment by (simp add: require_value_def)

end

lemma show_ip4_segment: "length bs = 4 \<Longrightarrow> show_ip4 bs \<noteq> [] \<and> 47 \<notin> set (show_ip4 bs)"
  using text_chars [of 47] by (auto simp: show_ip4_def)

lemma parse_show_ip4: "length bs = 4 \<Longrightarrow> parse_ip4 (show_ip4 bs) = Some bs"
proof -
  assume "length bs = 4"
  then obtain a b c d where bs: "bs = [a, b, c, d]"
    by (auto simp: length_Suc_conv eval_nat_numeral)
  have dot: "46 \<notin> set (show_nat n)" for n
    using text_chars [of 46 n] by blast
  have byte: "parse_uint 255 (show_nat (unat x)) = Some (unat x)" for x :: byte
    using unat_byte_less [of x] by (intro parse_uint_show) simp
  have "split_on 46 (show_ip4 bs) = map (\<lambda>x. show_nat (unat x)) bs"
    using dot by (simp add: show_ip4_def bs split_on_sep split_on_clean)
  moreover have "parse_slots (Suc (Suc (Suc (Suc 0)))) (map (\<lambda>x. show_nat (unat x)) bs) = Some (bs, [])"
    by (simp add: bs byte)
  ultimately show ?thesis
    by (simp add: parse_ip4_def eval_nat_numeral)
qed

interpretation ip4_text: text_value show_ip4 parse_ip4 "\<lambda>bs. length bs = 4"
  by unfold_locales (simp_all add: parse_show_ip4 show_ip4_segment)

lemma groups_text_segment: "47 \<notin> set (groups_text i gs)"
  using text_chars [of 47] by (induction i gs rule: groups_text.induct) auto

lemma show_ipv6_segment: "length bs = 16 \<Longrightarrow> show_ipv6 bs \<noteq> [] \<and> 47 \<notin> set (show_ipv6 bs)"
proof
  assume len: "length bs = 16"
  have "read_groups 0 8 [] = ([], False, [])"
    by (subst read_groups.simps) (simp add: read_separator_def read_ipv4_none read_number_none)
  then have "parse_ipv6 [] = None"
    by (simp add: parse_ipv6_def read_ipv6_addr_def)
  then show "show_ipv6 bs \<noteq> []"
    using parse_show_ipv6 [OF len] by auto
  show "47 \<notin> set (show_ipv6 bs)"
    using len show_ip4_segment [of "drop 12 bs"] groups_text_segment [of 0]
    by (auto simp: show_ipv6_def fmt_subslice_text lit_def Let_def split: prod.splits if_splits)
qed

interpretation ip6_text: text_value show_ipv6 parse_ipv6 "\<lambda>bs. length bs = 16"
  by unfold_locales (simp_all add: parse_show_ipv6 show_ipv6_segment)

interpretation dns_text: text_value "\<lambda>name. name" "\<lambda>value. if is_valid_dns value then Some value else None" is_valid_dns
  by unfold_locales (auto simp: is_valid_dns_def list_ex_iff)

interpretation port_text: text_value "\<lambda>port :: u16. show_nat (unat port)" "\<lambda>value. map_option of_nat (parse_uint 65535 value)" "\<lambda>_. True"
proof unfold_locales
  fix port :: u16
  have "unat port < 2 ^ 16"
    using unsigned_less [of port] by simp
  then show "map_option of_nat (parse_uint 65535 (show_nat (unat port))) = Some port"
    using parse_uint_show [of "unat port" 65535] by simp
qed (use show_number(5) text_chars [of 47] in auto)

text \<open>The peer ids whose text form \<open>from_str\<close> takes for base-58.\<close>

definition peer_id_text_ok :: "'mh multihash_api \<Rightarrow> 'mh peer_id \<Rightarrow> bool" where
  "peer_id_text_ok M p \<longleftrightarrow> peer_id_ok M p \<and>
     mh_code M (multihash p) \<in> {IDENTITY_MULTIHASH_CODE, SHA256_MULTIHASH_CODE}"

lemma encode_base58_segment:
  assumes "bs \<noteq> []"
  shows "encode_base58 bs \<noteq> [] \<and> 47 \<notin> set (encode_base58 bs)"
proof
  have "BASE58_ALPHABET ! d \<in> set BASE58_ALPHABET" if "d \<in> set (digs 58 n)" for d n
    using that set_digs [of 58] by (simp add: BASE58_ALPHABET_length)
  moreover have "of_char CHR ''1'' \<in> set BASE58_ALPHABET"
    by (simp add: BASE58_ALPHABET_eq)
  ultimately have "set (encode_base58 bs) \<subseteq> set BASE58_ALPHABET"
    unfolding encode_base58_digits [OF assms] by auto
  moreover have "47 \<notin> set BASE58_ALPHABET"
    by (simp add: BASE58_ALPHABET_eq)
  ultimately show "47 \<notin> set (encode_base58 bs)"
    by blast
  show "encode_base58 bs \<noteq> []"
    using decode_encode_base58 [OF assms] by (auto simp: decode_base58_def)
qed

interpretation peer_text: text_value "to_base58 M" "\<lambda>value. result_ok (peer_id_from_str M value)"
    "\<lambda>p. multihash_laws M \<and> peer_id_text_ok M p" for M
proof unfold_locales
  fix p assume p: "multihash_laws M \<and> peer_id_text_ok M p"
  show "result_ok (peer_id_from_str M (to_base58 M p)) = Some p"
    using p from_str_to_base58 [of M p] by (simp add: peer_id_text_ok_def)
  show "to_base58 M p \<noteq> [] \<and> 47 \<notin> set (to_base58 M p)"
    using p encode_base58_segment [OF peer_id_to_bytes_not_Nil [of M p]] by (simp add: to_base58_def)
qed

section \<open>Components\<close>

text \<open>The components whose text form reads back: besides the types, names without separators or blanks.\<close>

fun protocol_text_ok :: "'mh multihash_api \<Rightarrow> 'mh protocol \<Rightarrow> bool" where
  "protocol_text_ok M (Ip4 bs) \<longleftrightarrow> length bs = 4"
| "protocol_text_ok M (Ip6 bs) \<longleftrightarrow> length bs = 16"
| "protocol_text_ok M (Dns name) \<longleftrightarrow> is_valid_dns name"
| "protocol_text_ok M (Dns4 name) \<longleftrightarrow> is_valid_dns name"
| "protocol_text_ok M (Dns6 name) \<longleftrightarrow> is_valid_dns name"
| "protocol_text_ok M (P2p p) \<longleftrightarrow> peer_id_text_ok M p"
| "protocol_text_ok M _ \<longleftrightarrow> True"

text \<open>The segments of a component.\<close>

fun segments_of :: "'mh multihash_api \<Rightarrow> 'mh protocol \<Rightarrow> rstr list" where
  "segments_of M (Ip4 bs) = [lit ''ip4'', show_ip4 bs]"
| "segments_of M (Ip6 bs) = [lit ''ip6'', show_ipv6 bs]"
| "segments_of M (Dns value) = [lit ''dns'', value]"
| "segments_of M (Dns4 value) = [lit ''dns4'', value]"
| "segments_of M (Dns6 value) = [lit ''dns6'', value]"
| "segments_of M (Udp port) = [lit ''udp'', show_nat (unat port)]"
| "segments_of M QuicV1 = [lit ''quic-v1'']"
| "segments_of M (P2p p) = [lit ''p2p'', to_base58 M p]"

lemma show_protocol_segments: "show_protocol M p = concat (map (\<lambda>x. 47 # x) (segments_of M p))"
  by (cases p) (simp_all add: lit_def)

lemma segments_of_not_Nil: "segments_of M p \<noteq> []"
  by (cases p) simp_all

lemma segments_of_clean:
  assumes "multihash_laws M" and "protocol_text_ok M p" and "x \<in> set (segments_of M p)"
  shows "47 \<notin> set x"
  using assms ip4_text.shw_segment ip6_text.shw_segment dns_text.shw_segment port_text.shw_segment
    peer_text.shw_segment [of M]
  by (cases p) (auto simp: lit_def)

lemma parse_component_segments:
  assumes "multihash_laws M" and "protocol_text_ok M p" and "segs = pre @ segments_of M p @ post"
  shows "parse_component M segs (length pre) = Ok (p, length (segments_of M p))"
proof -
  let ?i = "length pre"
  have names: "segs ! ?i = hd (segments_of M p)"
    using assms(3) by (cases p) (simp_all add: nth_append)
  have val: "Suc ?i < length segs" "segs ! Suc ?i = segments_of M p ! 1" if "p \<noteq> QuicV1"
    using assms(3) that by (cases p; simp add: nth_append)+
  show ?thesis
  proof (cases p)
    case (Udp port)
    then show ?thesis
      using names val port_text.require_shw [where x = port and segs = segs and idx = ?i] port_text.prs_shw [of port]
      by (auto simp: parse_component_def lit_def)
  next
    case (P2p q)
    then show ?thesis
      using names val assms(1,2) peer_text.require_shw [of M q segs ?i] from_str_to_base58 [of M q]
      by (auto simp: parse_component_def lit_def peer_id_text_ok_def)
  next
    case (Ip4 bs)
    then show ?thesis
      using names val assms(2) ip4_text.require_shw [of bs segs ?i] ip4_text.prs_shw [of bs]
      by (auto simp: parse_component_def lit_def)
  next
    case (Ip6 bs)
    then show ?thesis
      using names val assms(2) ip6_text.require_shw [of bs segs ?i] ip6_text.prs_shw [of bs]
      by (auto simp: parse_component_def lit_def)
  qed (use names val assms(2) dns_text.require_shw [of _ segs ?i] in \<open>auto simp: parse_component_def lit_def\<close>)
qed

lemma parse_loop_segments:
  assumes "multihash_laws M" and "segs = pre @ concat (map (segments_of M) rest)" and "list_all (protocol_text_ok M) rest"
  shows "parse_loop M segs (length pre) ps = Ok (Multiaddr (ps @ rest))"
  using assms(2,3)
proof (induction rest arbitrary: pre ps)
  case Nil
  then show ?case
    by (subst parse_loop.simps) simp
next
  case (Cons p rest)
  have "length pre < length segs"
    using Cons.prems(1) by (cases p) simp_all
  moreover have "parse_component M segs (length pre) = Ok (p, length (segments_of M p))"
    using parse_component_segments [OF assms(1), of p segs pre] Cons.prems by simp
  moreover have "parse_loop M segs (length (pre @ segments_of M p)) (ps @ [p]) = Ok (Multiaddr ((ps @ [p]) @ rest))"
    using Cons.prems by (intro Cons.IH) simp_all
  ultimately show ?case
    by (subst parse_loop.simps) simp
qed

lemma parse_show_multiaddr:
  assumes "multihash_laws M" and "ps \<noteq> []" and "list_all (protocol_text_ok M) ps"
  shows "parse_multiaddr M (show_multiaddr M (Multiaddr ps)) = Ok (Multiaddr ps)"
proof -
  let ?segs = "concat (map (segments_of M) ps)"
  have shown: "show_multiaddr M (Multiaddr ps) = concat (map (\<lambda>x. 47 # x) ?segs)"
    by (induction ps) (simp_all add: show_multiaddr_def show_protocol_segments)
  have clean: "\<forall>x \<in> set ?segs. 47 \<notin> set x"
    using segments_of_clean [OF assms(1)] assms(3) by (auto simp: list_all_iff)
  have split: "split_on 47 (show_multiaddr M (Multiaddr ps)) = [] # ?segs"
    unfolding shown using split_on_segments [OF clean, of "[]"] by simp
  have "\<exists>t. show_multiaddr M (Multiaddr ps) = 47 # t"
    unfolding shown using assms(2) segments_of_not_Nil [of M "hd ps"] by (cases ps; cases "segments_of M (hd ps)") simp_all
  then show ?thesis
    using parse_loop_segments [OF assms(1), of "[] # ?segs" "[[]]" ps "[]"] split assms(3)
    by (auto simp: parse_multiaddr_def starts_with_def lit_def)
qed

section \<open>What the parser accepts\<close>

lemma length_parse_slots: "parse_slots k parts = Some (bs, rest) \<Longrightarrow> length bs = k"
  by (induction k parts arbitrary: bs rest rule: parse_slots.induct) (auto simp: bind_eq_Some_conv)

lemma length_parse_ip4: "parse_ip4 value = Some bs \<Longrightarrow> length bs = 4"
  by (auto simp: parse_ip4_def bind_eq_Some_conv dest: length_parse_slots split: if_splits)

lemma length_read_groups: "read_groups i limit s = (gs, v4, rest) \<Longrightarrow> length gs \<le> limit - i"
proof (induction i limit s arbitrary: gs v4 rest rule: read_groups.induct)
  case (1 i limit s)
  show ?case
  proof (cases "limit \<le> i \<or> (if i < limit - 1 then read_separator 58 i read_ipv4_addr s else None) \<noteq> None")
    case True
    then show ?thesis
      using 1(2) by (subst (asm) read_groups.simps) (auto split: if_splits)
  next
    case False
    then show ?thesis
      using 1 by (subst (asm) (2) read_groups.simps)
        (fastforce split: option.splits prod.splits if_splits)
  qed
qed

lemma length_read_ipv6: "read_ipv6_addr s = Some (gs, rest) \<Longrightarrow> length gs = 8"
proof -
  assume read: "read_ipv6_addr s = Some (gs, rest)"
  obtain hd_groups v4 t where front: "read_groups 0 8 s = (hd_groups, v4, t)"
    by (metis prod_cases3)
  then have "length hd_groups \<le> 8"
    using length_read_groups by fastforce
  then show ?thesis
  proof (cases "length hd_groups = 8")
    case False
    then obtain t' u where "read_given_char 58 t = Some t'" "read_given_char 58 t' = Some u"
      using read front by (auto simp: read_ipv6_addr_def bind_eq_Some_conv split: if_splits)
    moreover obtain tl_groups v w where rear: "read_groups 0 (7 - length hd_groups) u = (tl_groups, v, w)"
      by (metis prod_cases3)
    ultimately have "gs = hd_groups @ replicate (8 - length hd_groups - length tl_groups) 0 @ tl_groups"
      using read front False by (auto simp: read_ipv6_addr_def split: if_splits)
    then show ?thesis
      using length_read_groups [OF rear] \<open>length hd_groups \<le> 8\<close> False by simp
  qed (use read front in \<open>simp add: read_ipv6_addr_def\<close>)
qed

lemma length_parse_ipv6: "parse_ipv6 value = Some bs \<Longrightarrow> length bs = 16"
proof -
  assume "parse_ipv6 value = Some bs"
  then obtain gs where gs: "read_ipv6_addr value = Some (gs, [])" "bs = concat (map u16_to_be_bytes gs)"
    by (auto simp: parse_ipv6_def split: option.splits list.splits)
  then show ?thesis
    using length_read_ipv6 [OF gs(1)] by (simp add: length_concat comp_def sum_list_triv)
qed

lemma peer_id_from_str_ok: "peer_id_from_str M value = Ok p \<Longrightarrow> peer_id_ok M p"
  by (auto simp: peer_id_from_str_def from_base58_def from_cid_def and_then_eq_Inr Let_def
      dest: peer_id_from_bytes_ok split: if_splits list.splits)

text \<open>The values the parser can produce.\<close>

fun parsed_ok :: "'mh multihash_api \<Rightarrow> 'mh protocol \<Rightarrow> bool" where
  "parsed_ok M (Dns name) \<longleftrightarrow> is_valid_dns name \<and> utf8_ok name \<and> vec_ok name"
| "parsed_ok M (Dns4 name) \<longleftrightarrow> is_valid_dns name \<and> utf8_ok name \<and> vec_ok name"
| "parsed_ok M (Dns6 name) \<longleftrightarrow> is_valid_dns name \<and> utf8_ok name \<and> vec_ok name"
| "parsed_ok M p \<longleftrightarrow> protocol_ok M p"

lemma parsed_protocol_ok: "parsed_ok M p \<Longrightarrow> protocol_ok M p"
  by (cases p) simp_all

lemma require_value_Ok:
  "require_value segs idx name = Ok v \<Longrightarrow> v \<in> set segs"
  by (auto simp: require_value_def split: if_splits)

lemma parse_component_ok:
  assumes "\<forall>x \<in> set segs. utf8_ok x \<and> vec_ok x" and "parse_component M segs idx = Ok (p, step)"
  shows "parsed_ok M p"
proof -
  have val: "utf8_ok v \<and> vec_ok v" if "require_value segs idx name = Ok v" for name v
    using assms(1) require_value_Ok [OF that] by blast
  show ?thesis
    using assms(2)
    by (auto simp: parse_component_def Let_def and_then_eq_Inr
        dest: length_parse_ip4 length_parse_ipv6 peer_id_from_str_ok val split: if_splits)
qed

lemma parse_loop_ok:
  assumes "\<forall>x \<in> set segs. utf8_ok x \<and> vec_ok x"
  shows "parse_loop M segs idx ps = Ok a \<Longrightarrow> list_all (parsed_ok M) ps \<Longrightarrow>
    list_all (parsed_ok M) (protocols a) \<and> length ps \<le> length (protocols a) \<and>
    (idx < length segs \<longrightarrow> length ps < length (protocols a))"
  using assms
proof (induction M segs idx ps rule: parse_loop.induct)
  case (1 M segs idx ps)
  show ?case
  proof (cases "idx < length segs")
    case True
    then obtain p step where c: "parse_component M segs idx = Ok (p, step)"
      "parse_loop M segs (idx + step) (ps @ [p]) = Ok a"
      using 1(2) by (subst (asm) parse_loop.simps) (auto simp: and_then_eq_Inr)
    then show ?thesis
      using 1(1) [OF True c(1)] 1(3,4) parse_component_ok [OF 1(4) c(1)] by simp
  next
    case False
    then show ?thesis
      using 1(2,3) by (subst (asm) parse_loop.simps) auto
  qed
qed

lemma length_split_on: "x \<in> set (split_on d s) \<Longrightarrow> length x \<le> length s"
proof (induction s arbitrary: x)
  case (Cons c s)
  then show ?case
    by (cases "split_on d s") (fastforce split: if_splits)+
qed simp

lemma parse_show_peer_addr:
  assumes "multihash_laws M" and "protocols (pa_transport pa) \<noteq> []" and "list_all (protocol_text_ok M) (protocols (pa_transport pa))"
    and "\<not> list_ex is_p2p (protocols (pa_transport pa))" and "peer_id_text_ok M (pa_peer_id pa)"
  shows "parse_peer_addr M (show_peer_addr M pa) = Ok pa"
proof -
  obtain ps p where pa: "pa = \<lparr>pa_transport = Multiaddr ps, pa_peer_id = p\<rparr>"
    by (cases pa, cases "pa_transport pa") simp
  have "peer_addr_to_multiaddr pa = Multiaddr (ps @ [P2p p])"
    by (simp add: peer_addr_to_multiaddr_def pa)
  moreover have "parse_multiaddr M (show_multiaddr M (Multiaddr (ps @ [P2p p]))) = Ok (Multiaddr (ps @ [P2p p]))"
    using assms by (intro parse_show_multiaddr) (simp_all add: pa)
  moreover have "peer_addr_from_multiaddr (peer_addr_to_multiaddr pa) = Ok pa"
    using assms by (intro from_multiaddr_to_multiaddr) (simp add: peer_addr_ok_def list_ex_iff pa)
  ultimately show ?thesis
    by (simp add: parse_peer_addr_def show_peer_addr_def)
qed

section \<open>Properties\<close>

text \<open>
  C30. The text form reads back: a multiaddr whose components are well formed (addresses of the right
  length, names without separators and blanks, peer ids of the kinds \<open>from_str\<close> knows) parses from its
  \<open>Display\<close> to itself, IPv6 addresses in their compressed and IPv4-mapped forms included, and so does a
  peer address.
\<close>

theorem multiaddr_text_roundtrip:
  assumes "multihash_laws M" and "ps \<noteq> []" and "list_all (protocol_text_ok M) ps"
  shows "parse_multiaddr M (show_multiaddr M (Multiaddr ps)) = Ok (Multiaddr ps) \<and>
    (\<not> list_ex is_p2p ps \<and> peer_id_text_ok M p \<longrightarrow>
       (let pa = \<lparr>pa_transport = Multiaddr ps, pa_peer_id = p\<rparr>
        in parse_peer_addr M (show_peer_addr M pa) = Ok pa))"
proof (intro conjI impI)
  show "parse_multiaddr M (show_multiaddr M (Multiaddr ps)) = Ok (Multiaddr ps)"
    by (rule parse_show_multiaddr [OF assms])
  assume p: "\<not> list_ex is_p2p ps \<and> peer_id_text_ok M p"
  then show "let pa = \<lparr>pa_transport = Multiaddr ps, pa_peer_id = p\<rparr> in parse_peer_addr M (show_peer_addr M pa) = Ok pa"
    unfolding Let_def using assms by (intro parse_show_peer_addr) simp_all
qed

theorem multiaddr_text_roundtrip_witness:
  "let a = Multiaddr [Ip6 [0, 0, 0, 0, 0, 0, 0, 0, 0, 0, 0, 0, 0, 0, 0, 1], Udp 4001, QuicV1]
   in show_multiaddr mh64_api a = lit ''/ip6/::1/udp/4001/quic-v1'' \<and>
      parse_multiaddr mh64_api (lit ''/ip6/::1/udp/4001/quic-v1'') = Ok a"
proof -
  let ?a = "[Ip6 [0, 0, 0, 0, 0, 0, 0, 0, 0, 0, 0, 0, 0, 0, 0, 1], Udp 4001, QuicV1] :: mh64 protocol list"
  have "show_multiaddr mh64_api (Multiaddr ?a) = lit ''/ip6/::1/udp/4001/quic-v1''"
    by (simp add: show_multiaddr_def show_ipv6_def u16_from_be_bytes_def Let_def show_hex.simps show_nat.simps lit_def)
  then show ?thesis
    using multiaddr_text_roundtrip [OF mh64_laws, of ?a] unfolding Let_def by simp
qed

text \<open>
  C31. What the parser accepts is well typed: the result has at least one component, its addresses have
  their lengths, its names are valid and its peer ids pass the multihash check; so its binary form reads
  back, and if its peer ids have the kinds \<open>from_str\<close> knows, so does its text form.
\<close>

theorem parse_multiaddr_typed:
  assumes "multihash_laws M" and "utf8_ok s" and "vec_ok s" and "parse_multiaddr M s = Ok a"
  shows "protocols a \<noteq> [] \<and> list_all (parsed_ok M) (protocols a) \<and>
    multiaddr_from_bytes M (multiaddr_to_bytes M a) = Ok a \<and>
    ((\<forall>p. P2p p \<in> set (protocols a) \<longrightarrow> peer_id_text_ok M p) \<longrightarrow> parse_multiaddr M (show_multiaddr M a) = Ok a)"
proof -
  have loop: "parse_loop M (split_on 47 s) 1 [] = Ok a" "starts_with s [47]" "s \<noteq> []"
    using assms(4) by (auto simp: parse_multiaddr_def lit_def split: if_splits)
  then obtain t where "s = 47 # t"
    by (cases s) (auto simp: starts_with_def)
  then have two: "1 < length (split_on 47 s)"
    by (cases "split_on 47 t") simp_all
  have "utf8_ok x \<and> vec_ok x" if "x \<in> set (split_on 47 s)" for x
    using utf8_ok_split [of 47 s] assms(2,3) length_split_on [OF that] that by (simp add: list_all_iff vec_ok_def)
  then have ok: "list_all (parsed_ok M) (protocols a)" "protocols a \<noteq> []"
    using parse_loop_ok [OF _ loop(1)] two by simp_all
  moreover have "multiaddr_from_bytes M (multiaddr_to_bytes M a) = Ok a"
    using ok(1) parsed_protocol_ok by (intro from_bytes_to_bytes_multiaddr [OF assms(1)]) (auto simp: list_all_iff)
  moreover have "parse_multiaddr M (show_multiaddr M a) = Ok a"
    if "\<forall>p. P2p p \<in> set (protocols a) \<longrightarrow> peer_id_text_ok M p"
  proof -
    have "protocol_text_ok M q" if "q \<in> set (protocols a)" for q
      using ok(1) that \<open>\<forall>p. P2p p \<in> set (protocols a) \<longrightarrow> peer_id_text_ok M p\<close> by (cases q) (auto simp: list_all_iff)
    then show ?thesis
      using parse_show_multiaddr [OF assms(1) ok(2)] by (cases a) (simp add: list_all_iff)
  qed
  ultimately show ?thesis
    by blast
qed

theorem parse_multiaddr_typed_witness:
  "let a = Multiaddr [Dns (lit ''example.com''), Udp 443]
   in multiaddr_from_bytes mh64_api (multiaddr_to_bytes mh64_api a) = Ok a \<and>
      parse_multiaddr mh64_api (lit ''/dns/example.com/udp/443'') = Ok a"
proof -
  let ?a = "[Dns (lit ''example.com''), Udp 443] :: mh64 protocol list"
  have "is_valid_dns (lit ''example.com'')"
    by (simp add: is_valid_dns_def lit_def is_whitespace_def is_control_def)
  moreover have "show_multiaddr mh64_api (Multiaddr ?a) = lit ''/dns/example.com/udp/443''"
    by (simp add: show_multiaddr_def show_nat.simps lit_def)
  ultimately have p: "parse_multiaddr mh64_api (lit ''/dns/example.com/udp/443'') = Ok (Multiaddr ?a)"
    using parse_show_multiaddr [OF mh64_laws, of ?a] by simp
  have "utf8_ok (lit ''/dns/example.com/udp/443'')" "vec_ok (lit ''/dns/example.com/udp/443'')"
    by (simp_all add: lit_def vec_ok_def)
  then show ?thesis
    using parse_multiaddr_typed [OF mh64_laws _ _ p] p unfolding Let_def by simp
qed

end
