(* ===== verification/QuicAddr.thy ===== *)
theory QuicAddr
  imports QuicConn MultiaddrText
begin

text \<open>
  From multiaddrs to socket addresses and back, the first part of \<open>transports/quic/src/lib.rs\<close>, and the
  connection ids of a dual-stack endpoint.
\<close>

section \<open>Addresses\<close>

definition invalid_address :: "rstr \<Rightarrow> string \<Rightarrow> transport_error" where
  "invalid_address ctxt reason = TrInvalidAddress ctxt (lit reason)"

definition extract_quic_host_and_port :: "'mh multiaddr \<Rightarrow> rstr \<Rightarrow> transport_error + 'mh protocol \<times> u16" where
  "extract_quic_host_and_port addr ctxt =
     (if \<not> is_quic_transport addr then Err (invalid_address ctxt ''expected /<host>/udp/<port>/quic-v1'')
      else case protocols addr of
          [] \<Rightarrow> Err (invalid_address ctxt ''missing host component'')
        | host # rest \<Rightarrow>
            (case rest of
               Udp port # _ \<Rightarrow> Ok (host, port)
             | _ \<Rightarrow> Err (invalid_address ctxt ''missing udp port'')))"

text \<open>\<open>SocketAddr::new\<close>, with no flow label and no scope.\<close>

fun socket_addr_new :: "ip_addr \<Rightarrow> u16 \<Rightarrow> socket_addr" where
  "socket_addr_new (V4 octets) port = SockV4 octets port"
| "socket_addr_new (V6 octets) port = SockV6 octets port 0 0"

definition extract_listen_socket_addr :: "'mh multiaddr \<Rightarrow> rstr \<Rightarrow> transport_error + socket_addr" where
  "extract_listen_socket_addr addr ctxt =
     and_then (extract_quic_host_and_port addr ctxt) (\<lambda>(host, port).
       case host of
         Ip4 octets \<Rightarrow> Ok (socket_addr_new (V4 octets) port)
       | Ip6 octets \<Rightarrow> Ok (socket_addr_new (V6 octets) port)
       | Dns _ \<Rightarrow> Err (invalid_address ctxt ''listen requires /ip4 or /ip6 host (dns names are dial-only)'')
       | Dns4 _ \<Rightarrow> Err (invalid_address ctxt ''listen requires /ip4 or /ip6 host (dns names are dial-only)'')
       | Dns6 _ \<Rightarrow> Err (invalid_address ctxt ''listen requires /ip4 or /ip6 host (dns names are dial-only)'')
       | _ \<Rightarrow> Err (invalid_address ctxt ''missing host component''))"

fun is_ipv6 :: "socket_addr \<Rightarrow> bool" where
  "is_ipv6 (SockV4 _ _) = False"
| "is_ipv6 (SockV6 _ _ _ _) = True"

definition resolve_host ::
  "('q, 's, 'mh) quic_env \<Rightarrow> rstr \<Rightarrow> u16 \<Rightarrow> (socket_addr \<Rightarrow> bool) \<Rightarrow> string \<Rightarrow> rstr \<Rightarrow> 's \<Rightarrow> transport_error + socket_addr list" where
  "resolve_host E host port usable kind ctxt k =
     (let query = host @ lit '':'' @ show_nat (unat port)
      in case os_resolve E query k of
           Inl e \<Rightarrow> Err (TrInvalidAddress ctxt (lit ''dns resolution failed for '' @ query @ lit '': '' @ e))
         | Inr addrs \<Rightarrow>
             let resolved = filter usable addrs
             in if resolved = []
                then Err (TrInvalidAddress ctxt (lit ''dns resolution returned no '' @ lit kind @ lit '' address for '' @ query))
                else Ok resolved)"

definition resolve_dial_socket_addrs ::
  "('q, 's, 'mh) quic_env \<Rightarrow> 'mh multiaddr \<Rightarrow> rstr \<Rightarrow> 's \<Rightarrow> transport_error + socket_addr list" where
  "resolve_dial_socket_addrs E addr ctxt k =
     and_then (extract_quic_host_and_port addr ctxt) (\<lambda>(host, port).
       case host of
         Ip4 octets \<Rightarrow> Ok [socket_addr_new (V4 octets) port]
       | Ip6 octets \<Rightarrow> Ok [socket_addr_new (V6 octets) port]
       | Dns host \<Rightarrow> resolve_host E host port (\<lambda>_. True) ''usable'' ctxt k
       | Dns4 host \<Rightarrow> resolve_host E host port (\<lambda>a. \<not> is_ipv6 a) ''ipv4'' ctxt k
       | Dns6 host \<Rightarrow> resolve_host E host port is_ipv6 ''ipv6'' ctxt k
       | _ \<Rightarrow> Err (invalid_address ctxt ''missing host component''))"

definition resolve_dial_socket_addr ::
  "('q, 's, 'mh) quic_env \<Rightarrow> 'mh multiaddr \<Rightarrow> rstr \<Rightarrow> 's \<Rightarrow> transport_error + socket_addr" where
  "resolve_dial_socket_addr E addr ctxt k =
     and_then (resolve_dial_socket_addrs E addr ctxt k) (\<lambda>addrs.
       case addrs of
         [] \<Rightarrow> Err (invalid_address ctxt ''dial target resolved to no usable addresses'')
       | a # _ \<Rightarrow> Ok a)"

definition ensure_listen_matches_bound_socket :: "socket_addr \<Rightarrow> socket_addr \<Rightarrow> transport_error + unit" where
  "ensure_listen_matches_bound_socket requested bound =
     (if requested = bound then Ok ()
      else Err (TrInvalidAddress (lit ''listen address'')
             (lit ''listen address '' @ show_socket_addr requested @ lit '' does not match bound socket '' @
              show_socket_addr bound @ lit ''; use the bound local_addr()'')))"

fun socket_addr_to_multiaddr :: "socket_addr \<Rightarrow> 'mh multiaddr" where
  "socket_addr_to_multiaddr (SockV4 ip port) = Multiaddr [Ip4 ip, Udp port, QuicV1]"
| "socket_addr_to_multiaddr (SockV6 ip port _ _) = Multiaddr [Ip6 ip, Udp port, QuicV1]"

section \<open>Address families\<close>

datatype address_family = Ipv4 | Ipv6

fun family_name :: "address_family \<Rightarrow> rstr" where
  "family_name Ipv4 = lit ''ipv4''"
| "family_name Ipv6 = lit ''ipv6''"

definition family_for_socket_addr :: "socket_addr \<Rightarrow> address_family" where
  "family_for_socket_addr a = (if is_ipv6 a then Ipv6 else Ipv4)"

definition resolved_peer_addr :: "socket_addr \<Rightarrow> 'mh peer_addr \<Rightarrow> transport_error + 'mh peer_addr" where
  "resolved_peer_addr a addr =
     map_err (\<lambda>e. TrInvalidAddress (lit ''dial target'') (lit ''resolved address was not a peer addr: '' @ show_peer_addr_error e))
       (peer_addr_new (socket_addr_to_multiaddr a) (pa_peer_id addr))"

definition peer_addr_for_family ::
  "('q, 's, 'mh) quic_env \<Rightarrow> 'mh peer_addr \<Rightarrow> address_family \<Rightarrow> 's \<Rightarrow> transport_error + 'mh peer_addr" where
  "peer_addr_for_family E addr family k =
     and_then (resolve_dial_socket_addrs E (pa_transport addr) (lit ''dial target'') k) (\<lambda>addrs.
       case find (\<lambda>a. family_for_socket_addr a = family) addrs of
         None \<Rightarrow> Err (TrInvalidAddress (lit ''dial target'') (lit ''no '' @ family_name family @ lit '' target resolved''))
       | Some a \<Rightarrow> resolved_peer_addr a addr)"

definition family_for_addr :: "'mh multiaddr \<Rightarrow> address_family" where
  "family_for_addr addr =
     (case protocols addr of
        Ip6 _ # _ \<Rightarrow> Ipv6
      | Dns6 _ # _ \<Rightarrow> Ipv6
      | _ \<Rightarrow> Ipv4)"

text \<open>
  A dual-stack endpoint numbers the connections of its IPv4 half with odd and those of its IPv6 half with
  even ids.
\<close>

definition saturating_double :: "u64 \<Rightarrow> u64" where
  "saturating_double x = (if 2 * unat x < 2 ^ 64 then 2 * x else - 1)"

fun external_id :: "address_family \<Rightarrow> connection_id \<Rightarrow> connection_id" where
  "external_id Ipv4 c = ConnectionId (saturating_sub (saturating_double (connection_u64 c)) 1)"
| "external_id Ipv6 c = ConnectionId (saturating_double (connection_u64 c))"

text \<open>\<open>u64::div_ceil\<close> by two.\<close>

definition half_up :: "u64 \<Rightarrow> u64" where
  "half_up x = x div 2 + (if x mod 2 > 0 then 1 else 0)"

definition internal_id :: "connection_id \<Rightarrow> address_family \<times> connection_id" where
  "internal_id c =
     (let raw = connection_u64 c
      in if raw mod 2 = 0 then (Ipv6, ConnectionId (raw div 2)) else (Ipv4, ConnectionId (half_up raw)))"

fun map_event :: "address_family \<Rightarrow> 'mh transport_event \<Rightarrow> 'mh transport_event" where
  "map_event f (TeConnected c endpoint) = TeConnected (external_id f c) endpoint"
| "map_event f (TeStreamOpened c sid) = TeStreamOpened (external_id f c) sid"
| "map_event f (TeIncomingStream c sid) = TeIncomingStream (external_id f c) sid"
| "map_event f (TeStreamData c sid data) = TeStreamData (external_id f c) sid data"
| "map_event f (TeStreamRemoteWriteClosed c sid) = TeStreamRemoteWriteClosed (external_id f c) sid"
| "map_event f (TeStreamClosed c sid) = TeStreamClosed (external_id f c) sid"
| "map_event f (TeClosed c) = TeClosed (external_id f c)"
| "map_event f (TeError c message) = TeError (external_id f c) message"
| "map_event f (TeIncomingConnection c endpoint) = TeIncomingConnection (external_id f c) endpoint"
| "map_event f (TePeerIdentityVerified c endpoint previous) = TePeerIdentityVerified (external_id f c) endpoint previous"
| "map_event f (TeListening addr) = TeListening addr"

end
