(* ===== verification/Quic.thy ===== *)
theory Quic
  imports QuicAddr
begin

text \<open>
  The QUIC transport, \<open>transports/quic/src/lib.rs\<close>: many connections over one UDP socket, with the
  indices by connection id, by QUIC connection id and by peer, and its implementation of the trait
  \<open>Transport\<close>.
\<close>

section \<open>State\<close>

record ('q, 's, 'mh) quic_transport =
  qt_socket :: 's
  qt_connections :: "(connection_id, ('q, 'mh) quic_connection) btree_map"
  qt_cids :: "bytes \<rightharpoonup> connection_id"
  qt_peers :: "'mh peer_id \<rightharpoonup> connection_id btree_set"
  qt_pending :: "'mh transport_event list"
  qt_listen_addr :: "socket_addr option"
  qt_next_id :: u64
  qt_local_peer_id :: "'mh peer_id"

text \<open>A transport over a bound socket.\<close>

definition quic_transport_new :: "'s \<Rightarrow> 'mh peer_id \<Rightarrow> ('q, 's, 'mh) quic_transport" where
  "quic_transport_new k p =
     \<lparr>qt_socket = k, qt_connections = [], qt_cids = Map.empty, qt_peers = Map.empty, qt_pending = [],
      qt_listen_addr = None, qt_next_id = 1, qt_local_peer_id = p\<rparr>"

definition qt_local_addr ::
  "('q, 's, 'mh) quic_env \<Rightarrow> ('q, 's, 'mh) quic_transport \<Rightarrow> transport_error + socket_addr" where
  "qt_local_addr E t =
     map_err (\<lambda>e. TrPollError (lit ''failed to get local addr: '' @ e)) (udp_local_addr E (qt_socket t))"

definition local_multiaddr ::
  "('q, 's, 'mh) quic_env \<Rightarrow> ('q, 's, 'mh) quic_transport \<Rightarrow> transport_error + 'mh multiaddr" where
  "local_multiaddr E t = and_then (qt_local_addr E t) (\<lambda>a. Ok (socket_addr_to_multiaddr a))"

definition qt_local_peer_addr ::
  "('q, 's, 'mh) quic_env \<Rightarrow> ('q, 's, 'mh) quic_transport \<Rightarrow> transport_error + 'mh peer_addr" where
  "qt_local_peer_addr E t =
     and_then (qt_local_addr E t) (\<lambda>a.
       map_err (\<lambda>e. TrInvalidConfig (lit ''failed to build local PeerAddr: '' @ show_peer_addr_error e))
         (peer_addr_new (socket_addr_to_multiaddr a) (qt_local_peer_id t)))"

definition send_raw_udp ::
  "('q, 's, 'mh) quic_env \<Rightarrow> 'mh multiaddr \<Rightarrow> bytes \<Rightarrow> ('q, 's, 'mh) quic_transport \<Rightarrow>
     ('q, 's, 'mh) quic_transport \<times> (transport_error + unit)" where
  "send_raw_udp E target payload t =
     (case resolve_dial_socket_addr E target (lit ''raw udp target'') (qt_socket t) of
        Inl e \<Rightarrow> (t, Err e)
      | Inr addr \<Rightarrow>
          (case udp_send_to E payload addr (qt_socket t) of
             (k, Inl e) \<Rightarrow> (t\<lparr>qt_socket := k\<rparr>,
               Err (TrPollError (lit ''raw udp send to '' @ show_socket_addr addr @ lit '' failed: '' @ e)))
           | (k, Inr _) \<Rightarrow> (t\<lparr>qt_socket := k\<rparr>, Ok ())))"

section \<open>Indices\<close>

definition connection_ids_for_peer :: "'mh peer_id \<Rightarrow> ('q, 's, 'mh) quic_transport \<Rightarrow> connection_id list" where
  "connection_ids_for_peer p t = (case qt_peers t p of None \<Rightarrow> [] | Some ids \<Rightarrow> ids)"

definition index_peer_connection ::
  "'mh peer_id \<Rightarrow> connection_id \<Rightarrow> ('q, 's, 'mh) quic_transport \<Rightarrow> ('q, 's, 'mh) quic_transport" where
  "index_peer_connection p c t =
     t\<lparr>qt_peers := (qt_peers t)(p \<mapsto> bs_insert c (case qt_peers t p of None \<Rightarrow> [] | Some ids \<Rightarrow> ids))\<rparr>"

definition remove_peer_connection ::
  "'mh peer_id \<Rightarrow> connection_id \<Rightarrow> ('q, 's, 'mh) quic_transport \<Rightarrow> ('q, 's, 'mh) quic_transport" where
  "remove_peer_connection p c t =
     (case qt_peers t p of
        None \<Rightarrow> t
      | Some ids \<Rightarrow>
          let ids = bs_remove c ids
          in if ids = [] then t\<lparr>qt_peers := (qt_peers t)(p := None)\<rparr> else t\<lparr>qt_peers := (qt_peers t)(p \<mapsto> ids)\<rparr>)"

definition unindex_connection ::
  "connection_id \<Rightarrow> 'mh peer_id option \<Rightarrow> ('q, 's, 'mh) quic_transport \<Rightarrow> ('q, 's, 'mh) quic_transport" where
  "unindex_connection c p t =
     (let t = t\<lparr>qt_cids := (\<lambda>cid. if qt_cids t cid = Some c then None else qt_cids t cid)\<rparr>
      in case p of None \<Rightarrow> t | Some p \<Rightarrow> remove_peer_connection p c t)"

definition verify_connection_peer_id ::
  "connection_id \<Rightarrow> 'mh peer_id \<Rightarrow> ('q, 's, 'mh) quic_transport \<Rightarrow>
     ('q, 's, 'mh) quic_transport \<times> (transport_error + unit)" where
  "verify_connection_peer_id c p t =
     (case bm_get (qt_connections t) c of
        None \<Rightarrow> (t, Err (TrConnectionNotFound c))
      | Some conn \<Rightarrow>
          let previous = ep_peer_id (qc_endpoint conn)
          in if previous = Some p then (t, Ok ())
             else
               let conn = conn\<lparr>qc_endpoint := endpoint_set_peer_id p (qc_endpoint conn)\<rparr>;
                   t = t\<lparr>qt_connections := bm_insert c conn (qt_connections t)\<rparr>;
                   t = (case previous of None \<Rightarrow> t | Some old \<Rightarrow> remove_peer_connection old c t);
                   t = index_peer_connection p c t
               in (t\<lparr>qt_pending := qt_pending t @ [TePeerIdentityVerified c (qc_endpoint conn) previous]\<rparr>, Ok ()))"

section \<open>Connection ids\<close>

text \<open>
  The search for a free id; it gives up when it is back at the number it started with.
\<close>

function allocate_loop :: "(connection_id \<Rightarrow> bool) \<Rightarrow> u64 \<Rightarrow> u64 \<Rightarrow> u64 \<times> connection_id option" where
  "allocate_loop used start raw =
     (let following = raw + 1
      in if raw \<noteq> 0 \<and> \<not> used (ConnectionId raw) then (following, Some (ConnectionId raw))
         else if following = start then (following, None)
         else allocate_loop used start following)"
  by pat_completeness auto
termination
proof (relation "measure (\<lambda>(used, start, raw). unat (start - raw - 1))", goal_cases)
  case (2 used start raw following)
  let ?left = "start - raw - 1"
  have "?left \<noteq> 0" using 2 by (auto simp: algebra_simps)
  then have "unat (?left - 1) < unat ?left"
    using unat_minus_one [of ?left] unat_eq_zero [of ?left] by arith
  moreover have "start - following - 1 = ?left - 1" using 2 by (simp add: algebra_simps)
  ultimately show ?case by (simp only: in_measure prod.case)
qed simp

declare allocate_loop.simps [simp del]

definition allocate_connection_id ::
  "('q, 's, 'mh) quic_transport \<Rightarrow> ('q, 's, 'mh) quic_transport \<times> (transport_error + connection_id)" where
  "allocate_connection_id t =
     (case allocate_loop (\<lambda>c. bm_get (qt_connections t) c \<noteq> None) (qt_next_id t) (qt_next_id t) of
        (following, r) \<Rightarrow>
          (t\<lparr>qt_next_id := following\<rparr>, ok_or (TrResourceExhausted (lit ''connection ids'')) r))"

section \<open>Dialing and listening\<close>

definition MAX_CONN_ID_LEN :: nat where
  "MAX_CONN_ID_LEN = 20"

definition generate_scid :: "('q, 's, 'mh) quic_env \<Rightarrow> 's \<Rightarrow> 's \<times> (rstr + bytes)" where
  "generate_scid E k = os_random E MAX_CONN_ID_LEN k"

text \<open>A new connection enters the tables.\<close>

definition add_connection ::
  "('q, 's, 'mh) quic_env \<Rightarrow> ('q, 'mh) quic_connection \<Rightarrow> ('q, 's, 'mh) quic_transport \<Rightarrow> ('q, 's, 'mh) quic_transport" where
  "add_connection E conn t =
     t\<lparr>qt_connections := bm_insert (qc_id conn) conn (qt_connections t),
       qt_cids := (qt_cids t)(q_source_id E (qc_conn conn) \<mapsto> qc_id conn)\<rparr>"

definition connect_to ::
  "('q, 's, 'mh) quic_env \<Rightarrow> connection_id \<Rightarrow> 'mh peer_addr \<Rightarrow> socket_addr \<Rightarrow> socket_addr \<Rightarrow>
     (('q, 's, 'mh) quic_transport, connection_id) io" where
  "connect_to E c addr peer_socket local_socket t =
     (case generate_scid E (qt_socket t) of
        (k, Inl e) \<Rightarrow> Some (t\<lparr>qt_socket := k\<rparr>, Err (TrDialFailed c (lit ''failed to generate connection id: '' @ e)))
      | (k, Inr scid) \<Rightarrow>
          (case q_connect E scid local_socket peer_socket of
             Inl e \<Rightarrow> Some (t\<lparr>qt_socket := k\<rparr>, Err (TrDialFailed c (lit ''quiche connect error: '' @ e)))
           | Inr q \<Rightarrow>
               map_option (\<lambda>(q, k, res).
                   case res of
                     Inl e \<Rightarrow> (t\<lparr>qt_socket := k\<rparr>, Err e)
                   | Inr _ \<Rightarrow>
                       (index_peer_connection (pa_peer_id addr) c
                          (add_connection E (quic_connection_new E c q peer_socket (endpoint_from_peer_addr addr))
                             (t\<lparr>qt_socket := k\<rparr>)), Ok c))
                 (send_packets E (\<lambda>e. TrDialFailed c (lit ''initial send error: '' @ e))
                    (\<lambda>e. TrDialFailed c (lit ''udp send error: '' @ e)) q k)))"

definition qt_dial ::
  "('q, 's, 'mh) quic_env \<Rightarrow> 'mh peer_addr \<Rightarrow> (('q, 's, 'mh) quic_transport, connection_id) io" where
  "qt_dial E addr t =
     (case allocate_connection_id t of
        (t, Inl e) \<Rightarrow> Some (t, Err e)
      | (t, Inr c) \<Rightarrow>
          (case resolve_dial_socket_addr E (pa_transport addr) (lit ''dial target'') (qt_socket t) of
             Inl e \<Rightarrow> Some (t, Err e)
           | Inr peer_socket \<Rightarrow>
               (case qt_local_addr E t of
                  Inl e \<Rightarrow> Some (t, Err e)
                | Inr local_socket \<Rightarrow> connect_to E c addr peer_socket local_socket t)))"

definition qt_listen ::
  "('q, 's, 'mh) quic_env \<Rightarrow> 'mh multiaddr \<Rightarrow> ('q, 's, 'mh) quic_transport \<Rightarrow>
     ('q, 's, 'mh) quic_transport \<times> (transport_error + 'mh multiaddr)" where
  "qt_listen E addr t =
     (case (and_then (extract_listen_socket_addr addr (lit ''listen address'')) (\<lambda>requested.
              and_then (qt_local_addr E t) (\<lambda>local_addr.
                and_then (ensure_listen_matches_bound_socket requested local_addr) (\<lambda>_. Ok local_addr)))) of
        Inl e \<Rightarrow> (t, Err e)
      | Inr local_addr \<Rightarrow>
          let listen_addr = socket_addr_to_multiaddr local_addr
          in (t\<lparr>qt_listen_addr := Some local_addr, qt_pending := qt_pending t @ [TeListening listen_addr]\<rparr>, Ok listen_addr))"

definition qt_listen_on_bound_addr ::
  "('q, 's, 'mh) quic_env \<Rightarrow> ('q, 's, 'mh) quic_transport \<Rightarrow>
     ('q, 's, 'mh) quic_transport \<times> (transport_error + 'mh multiaddr)" where
  "qt_listen_on_bound_addr E t =
     (case qt_local_addr E t of
        Inl e \<Rightarrow> (t, Err e)
      | Inr a \<Rightarrow> qt_listen E (socket_addr_to_multiaddr a) t)"

section \<open>Operations on a connection\<close>

definition on_connection ::
  "connection_id \<Rightarrow> (('q, 's, 'mh) conn_io, 'a) io \<Rightarrow> (('q, 's, 'mh) quic_transport, 'a) io" where
  "on_connection c m t =
     (case bm_get (qt_connections t) c of
        None \<Rightarrow> Some (t, Err (TrConnectionNotFound c))
      | Some conn \<Rightarrow>
          map_option (\<lambda>((conn, k, events), res).
              (t\<lparr>qt_connections := bm_insert c conn (qt_connections t), qt_socket := k, qt_pending := events\<rparr>, res))
            (m (conn, qt_socket t, qt_pending t)))"

definition qt_open_stream ::
  "connection_id \<Rightarrow> ('q, 's, 'mh) quic_transport \<Rightarrow> ('q, 's, 'mh) quic_transport \<times> (transport_error + stream_id)" where
  "qt_open_stream c t =
     (case bm_get (qt_connections t) c of
        None \<Rightarrow> (t, Err (TrConnectionNotFound c))
      | Some conn \<Rightarrow>
          (case qc_open_stream conn of
             (conn, res) \<Rightarrow>
               let t = t\<lparr>qt_connections := bm_insert c conn (qt_connections t)\<rparr>
               in case res of
                    Inl e \<Rightarrow> (t, Err e)
                  | Inr sid \<Rightarrow> (t\<lparr>qt_pending := qt_pending t @ [TeStreamOpened c sid]\<rparr>, Ok sid)))"

definition qt_send_stream ::
  "('q, 's, 'mh) quic_env \<Rightarrow> connection_id \<Rightarrow> stream_id \<Rightarrow> bytes \<Rightarrow> (('q, 's, 'mh) quic_transport, unit) io" where
  "qt_send_stream E c sid data = on_connection c (qc_send_stream E sid data)"

definition qt_close_stream_write ::
  "('q, 's, 'mh) quic_env \<Rightarrow> connection_id \<Rightarrow> stream_id \<Rightarrow> (('q, 's, 'mh) quic_transport, unit) io" where
  "qt_close_stream_write E c sid = on_connection c (qc_close_stream_write E sid)"

definition qt_reset_stream ::
  "('q, 's, 'mh) quic_env \<Rightarrow> connection_id \<Rightarrow> stream_id \<Rightarrow> (('q, 's, 'mh) quic_transport, unit) io" where
  "qt_reset_stream E c sid = on_connection c (qc_reset_stream E sid)"

definition qt_close :: "('q, 's, 'mh) quic_env \<Rightarrow> connection_id \<Rightarrow> (('q, 's, 'mh) quic_transport, unit) io" where
  "qt_close E c = on_connection c (qc_close E)"

definition qt_local_addresses :: "('q, 's, 'mh) quic_env \<Rightarrow> ('q, 's, 'mh) quic_transport \<Rightarrow> 'mh multiaddr list" where
  "qt_local_addresses E t = (case local_multiaddr E t of Inl _ \<Rightarrow> [] | Inr addr \<Rightarrow> [addr])"

definition qt_active_connection_count :: "('q, 's, 'mh) quic_transport \<Rightarrow> nat" where
  "qt_active_connection_count t = length (qt_connections t)"

definition listed_connections ::
  "('q, 's, 'mh) quic_env \<Rightarrow> ('q, 's, 'mh) quic_transport \<Rightarrow> ('q, 'mh) quic_connection list" where
  "listed_connections E t = List.map_filter (bm_get (qt_connections t)) (conn_order E (bm_keys (qt_connections t)))"

definition qt_active_connection_sources ::
  "('q, 's, 'mh) quic_env \<Rightarrow> ('q, 's, 'mh) quic_transport \<Rightarrow> 'mh multiaddr list" where
  "qt_active_connection_sources E t = map (\<lambda>conn. ep_transport (qc_endpoint conn)) (listed_connections E t)"

definition qt_active_inbound_connection_sources ::
  "('q, 's, 'mh) quic_env \<Rightarrow> ('q, 's, 'mh) quic_transport \<Rightarrow> 'mh multiaddr list" where
  "qt_active_inbound_connection_sources E t =
     map (\<lambda>conn. ep_transport (qc_endpoint conn)) (filter (\<lambda>conn. q_is_server E (qc_conn conn)) (listed_connections E t))"

section \<open>Polling\<close>

text \<open>A poll works on the transport and the events it will return.\<close>

type_synonym ('q, 's, 'mh) poll_io = "('q, 's, 'mh) quic_transport \<times> 'mh transport_event list"

definition accept_connection ::
  "('q, 's, 'mh) quic_env \<Rightarrow> socket_addr \<Rightarrow> socket_addr \<Rightarrow> (('q, 's, 'mh) poll_io, connection_id) io" where
  "accept_connection E local_addr from = (\<lambda>(t, events).
     case generate_scid E (qt_socket t) of
       (k, Inl e) \<Rightarrow> Some ((t\<lparr>qt_socket := k\<rparr>, events), Err (TrPollError (lit ''failed to generate server connection id: '' @ e)))
     | (k, Inr scid) \<Rightarrow>
         (case q_accept E scid local_addr from of
            Inl e \<Rightarrow> Some ((t\<lparr>qt_socket := k\<rparr>, events), Err (TrPollError (lit ''quiche accept error: '' @ e)))
          | Inr q \<Rightarrow>
              map_option (\<lambda>(q, k, res).
                  case res of
                    Inl e \<Rightarrow> ((t\<lparr>qt_socket := k\<rparr>, events), Err e)
                  | Inr _ \<Rightarrow>
                      (case allocate_connection_id (t\<lparr>qt_socket := k\<rparr>) of
                         (t, Inl e) \<Rightarrow> ((t, events), Err e)
                       | (t, Inr c) \<Rightarrow>
                           let endpoint = endpoint_new (socket_addr_to_multiaddr from);
                               conn = quic_connection_new E c q from endpoint
                           in if bm_get (qt_connections t) c \<noteq> None
                              then ((t\<lparr>qt_connections := bm_insert c conn (qt_connections t)\<rparr>, events),
                                Err (TrPollError (lit ''connection id collision for incoming connection '' @ show_connection_id c)))
                              else ((add_connection E conn t, events @ [TeIncomingConnection c endpoint]), Ok c)))
                (send_packets E (\<lambda>e. TrPollError (lit ''accept send error: '' @ e))
                   (\<lambda>e. TrPollError (lit ''udp send error: '' @ e)) q k)))"

definition deliver_packet ::
  "'mh multihash_api \<Rightarrow> ('q, 's, 'mh) quic_env \<Rightarrow> bytes \<Rightarrow> socket_addr \<Rightarrow> socket_addr \<Rightarrow> connection_id \<Rightarrow>
     (('q, 's, 'mh) poll_io, unit) io" where
  "deliver_packet M E packet from local_addr c = (\<lambda>(t, events).
     case bm_get (qt_connections t) c of
       None \<Rightarrow> Some ((t, events), Ok ())
     | Some conn \<Rightarrow>
         map_option (\<lambda>((conn', k, events), res).
             let t = t\<lparr>qt_connections := bm_insert c conn' (qt_connections t), qt_socket := k\<rparr>
             in case res of
                  Inl e \<Rightarrow> ((t, events), Err e)
                | Inr _ \<Rightarrow>
                    let t = t\<lparr>qt_cids := (qt_cids t)(q_source_id E (qc_conn conn') \<mapsto> c)\<rparr>;
                        previous = ep_peer_id (qc_endpoint conn);
                        endpoint = qc_endpoint conn'
                    in if ep_peer_id endpoint = previous then ((t, events), Ok ())
                       else
                         let t = (case previous of None \<Rightarrow> t | Some p \<Rightarrow> remove_peer_connection p c t);
                             t = (case ep_peer_id endpoint of None \<Rightarrow> t | Some p \<Rightarrow> index_peer_connection p c t)
                         in ((t, events @ [TePeerIdentityVerified c endpoint previous]), Ok ()))
           (recv_packet M E packet from local_addr (conn, qt_socket t, events)))"

definition find_by_address :: "('q, 's, 'mh) quic_env \<Rightarrow> socket_addr \<Rightarrow> ('q, 's, 'mh) quic_transport \<Rightarrow> connection_id option" where
  "find_by_address E from t =
     find (\<lambda>c. case bm_get (qt_connections t) c of None \<Rightarrow> False | Some conn \<Rightarrow> matches_peer from conn)
       (conn_order E (bm_keys (qt_connections t)))"

definition handle_datagram ::
  "'mh multihash_api \<Rightarrow> ('q, 's, 'mh) quic_env \<Rightarrow> bytes \<Rightarrow> socket_addr \<Rightarrow> (('q, 's, 'mh) poll_io, unit) io" where
  "handle_datagram M E packet from = (\<lambda>(t, events).
     case qt_local_addr E t of
       Inl e \<Rightarrow> Some ((t, events), Err e)
     | Inr local_addr \<Rightarrow>
         let header = q_header E packet;
             target = Option.bind header (\<lambda>(_, dcid). qt_cids t dcid);
             deliver = deliver_packet M E packet from local_addr
         in if target = None \<and> qt_listen_addr t \<noteq> None \<and> (case header of None \<Rightarrow> False | Some (initial, _) \<Rightarrow> initial)
            then io_bind (accept_connection E local_addr from) deliver (t, events)
            else case (case target of None \<Rightarrow> find_by_address E from t | Some c \<Rightarrow> Some c) of
                None \<Rightarrow> Some ((t, events), Ok ())
              | Some c \<Rightarrow> deliver c (t, events))"

partial_function (option) receive_datagrams ::
  "'mh multihash_api \<Rightarrow> ('q, 's, 'mh) quic_env \<Rightarrow> (('q, 's, 'mh) poll_io, unit) io" where
  "receive_datagrams M E st =
     (case udp_recv_from E RECV_BUF_SIZE (qt_socket (fst st)) of
        (k, Inl err) \<Rightarrow>
          (case err of
             WouldBlock \<Rightarrow> Some (((fst st)\<lparr>qt_socket := k\<rparr>, snd st), Ok ())
           | IoError e \<Rightarrow> Some (((fst st)\<lparr>qt_socket := k\<rparr>, snd st), Err (TrPollError (lit ''udp recv error: '' @ e))))
      | (k, Inr datagram) \<Rightarrow>
          Option.bind (handle_datagram M E (fst datagram) (snd datagram) ((fst st)\<lparr>qt_socket := k\<rparr>, snd st)) (\<lambda>(st, res).
            case res of
              Inl e \<Rightarrow> Some (st, Err e)
            | Inr _ \<Rightarrow> receive_datagrams M E st))"

text \<open>The streams of every connection, until one of them fails.\<close>

fun poll_connections ::
  "('q, 's, 'mh) quic_env \<Rightarrow> connection_id list \<Rightarrow> (('q, 's, 'mh) poll_io, unit) io" where
  "poll_connections E [] st = Some (st, Ok ())"
| "poll_connections E (c # cs) st =
     (case bm_get (qt_connections (fst st)) c of
        None \<Rightarrow> poll_connections E cs st
      | Some conn \<Rightarrow>
          Option.bind (poll_streams E (conn, qt_socket (fst st), snd st)) (\<lambda>((conn, k, events), res).
            let t = (fst st)\<lparr>qt_connections := bm_insert c conn (qt_connections (fst st)), qt_socket := k\<rparr>
            in case res of
                 Inl e \<Rightarrow> Some ((t, events), Err e)
               | Inr _ \<Rightarrow> poll_connections E cs (t, events)))"

definition update_cids ::
  "('q, 's, 'mh) quic_env \<Rightarrow> connection_id list \<Rightarrow> ('q, 's, 'mh) quic_transport \<Rightarrow> ('q, 's, 'mh) quic_transport" where
  "update_cids E cs t =
     fold (\<lambda>c t. case bm_get (qt_connections t) c of
                    None \<Rightarrow> t
                  | Some conn \<Rightarrow> t\<lparr>qt_cids := (qt_cids t)(q_source_id E (qc_conn conn) \<mapsto> c)\<rparr>) cs t"

definition remove_closed ::
  "connection_id \<Rightarrow> ('q, 's, 'mh) poll_io \<Rightarrow> ('q, 's, 'mh) poll_io" where
  "remove_closed c st =
     (case bm_get (qt_connections (fst st)) c of
        None \<Rightarrow> (fst st, snd st @ [TeClosed c])
      | Some conn \<Rightarrow>
          (unindex_connection c (ep_peer_id (qc_endpoint conn))
             ((fst st)\<lparr>qt_connections := bm_remove c (qt_connections (fst st))\<rparr>), snd st @ [TeClosed c]))"

definition qt_poll ::
  "'mh multihash_api \<Rightarrow> ('q, 's, 'mh) quic_env \<Rightarrow> (('q, 's, 'mh) quic_transport, 'mh transport_event list) io" where
  "qt_poll M E t =
     Option.bind (receive_datagrams M E (t\<lparr>qt_pending := []\<rparr>, qt_pending t)) (\<lambda>(st, res).
       case res of
         Inl e \<Rightarrow> Some (fst st, Err e)
       | Inr _ \<Rightarrow>
           let cs = conn_order E (bm_keys (qt_connections (fst st)))
           in Option.bind (poll_connections E cs st) (\<lambda>(st, res).
             case res of
               Inl e \<Rightarrow> Some (fst st, Err e)
             | Inr _ \<Rightarrow>
                 let t = update_cids E cs (fst st);
                     closed = filter (\<lambda>c. case bm_get (qt_connections t) c of
                                            None \<Rightarrow> False | Some conn \<Rightarrow> q_is_closed E (qc_conn conn)) cs;
                     st = fold remove_closed closed (t, snd st)
                 in Some (fst st, Ok (snd st))))"

end
