(* ===== verification/QuicDual.thy ===== *)
theory QuicDual
  imports Quic
begin

text \<open>
  The QUIC endpoint of \<open>transports/quic/src/lib.rs\<close>, \<open>QuicEndpoint\<close>: one transport, or a pair of transports
  for IPv4 and IPv6 (\<open>DualQuicTransport\<close>), and its implementation of the trait \<open>Transport\<close>.  A name is
  resolved by the operating system under the IPv4 half; it is the same system for both.
\<close>

section \<open>Two transports\<close>

record ('q, 's, 'mh) dual_quic_transport =
  dq_ipv4 :: "('q, 's, 'mh) quic_transport"
  dq_ipv6 :: "('q, 's, 'mh) quic_transport"

fun half :: "address_family \<Rightarrow> ('q, 's, 'mh) dual_quic_transport \<Rightarrow> ('q, 's, 'mh) quic_transport" where
  "half Ipv4 d = dq_ipv4 d"
| "half Ipv6 d = dq_ipv6 d"

fun set_half ::
  "address_family \<Rightarrow> ('q, 's, 'mh) quic_transport \<Rightarrow> ('q, 's, 'mh) dual_quic_transport \<Rightarrow> ('q, 's, 'mh) dual_quic_transport" where
  "set_half Ipv4 t d = d\<lparr>dq_ipv4 := t\<rparr>"
| "set_half Ipv6 t d = d\<lparr>dq_ipv6 := t\<rparr>"

text \<open>A call of one half, which may not return or is one that always does.\<close>

definition on_half ::
  "address_family \<Rightarrow> (('q, 's, 'mh) quic_transport, 'a) io \<Rightarrow> (('q, 's, 'mh) dual_quic_transport, 'a) io" where
  "on_half f m d = map_option (\<lambda>(t, res). (set_half f t d, res)) (m (half f d))"

definition io_of :: "('st \<Rightarrow> 'st \<times> (transport_error + 'a)) \<Rightarrow> ('st, 'a) io" where
  "io_of m st = Some (m st)"

section \<open>Dialing\<close>

text \<open>The first address of each family that the target resolves to.\<close>

fun target_loop ::
  "'mh peer_addr \<Rightarrow> address_family list \<Rightarrow> socket_addr list \<Rightarrow> transport_error + (address_family \<times> 'mh peer_addr) list" where
  "target_loop addr seen [] = Ok []"
| "target_loop addr seen (a # rest) =
     (let family = family_for_socket_addr a
      in if family \<in> set seen then target_loop addr seen rest
         else and_then (resolved_peer_addr a addr) (\<lambda>pa.
                and_then (target_loop addr (family # seen) rest) (\<lambda>targets. Ok ((family, pa) # targets))))"

definition dial_targets ::
  "('q, 's, 'mh) quic_env \<Rightarrow> 'mh peer_addr \<Rightarrow> 's \<Rightarrow> transport_error + (address_family \<times> 'mh peer_addr) list" where
  "dial_targets E addr k =
     and_then (resolve_dial_socket_addrs E (pa_transport addr) (lit ''dial target'') k) (target_loop addr [])"

definition no_target :: transport_error where
  "no_target = TrInvalidAddress (lit ''dial target'') (lit ''no usable ipv4 or ipv6 dial target'')"

fun dial_each ::
  "('q, 's, 'mh) quic_env \<Rightarrow> (address_family \<times> 'mh peer_addr) list \<Rightarrow> connection_id list \<Rightarrow> transport_error option \<Rightarrow>
     (('q, 's, 'mh) dual_quic_transport, connection_id list) io" where
  "dial_each E [] ids last_err d =
     Some (d, if ids = [] then Err (case last_err of None \<Rightarrow> no_target | Some e \<Rightarrow> e) else Ok ids)"
| "dial_each E ((family, addr) # targets) ids last_err d =
     Option.bind (on_half family (qt_dial E addr) d) (\<lambda>(d, res).
       case res of
         Inl e \<Rightarrow> dial_each E targets ids (Some e) d
       | Inr c \<Rightarrow> dial_each E targets (ids @ [external_id family c]) last_err d)"

definition dual_dial_all ::
  "('q, 's, 'mh) quic_env \<Rightarrow> 'mh peer_addr \<Rightarrow> (('q, 's, 'mh) dual_quic_transport, connection_id list) io" where
  "dual_dial_all E addr d =
     (case dial_targets E addr (qt_socket (dq_ipv4 d)) of
        Inl e \<Rightarrow> Some (d, Err e)
      | Inr targets \<Rightarrow> dial_each E targets [] None d)"

text \<open>A dial of one half, whose connection id is made external.\<close>

definition dial_half ::
  "('q, 's, 'mh) quic_env \<Rightarrow> address_family \<Rightarrow> 'mh peer_addr \<Rightarrow> (('q, 's, 'mh) dual_quic_transport, connection_id) io" where
  "dial_half E family addr = io_bind (on_half family (qt_dial E addr)) (\<lambda>c. io_ok (external_id family c))"

definition dual_dial_family ::
  "('q, 's, 'mh) quic_env \<Rightarrow> 'mh peer_addr \<Rightarrow> address_family \<Rightarrow> (('q, 's, 'mh) dual_quic_transport, connection_id) io" where
  "dual_dial_family E addr family d =
     (case dial_targets E addr (qt_socket (dq_ipv4 d)) of
        Inl e \<Rightarrow> Some (d, Err e)
      | Inr targets \<Rightarrow>
          (case find (\<lambda>(f, _). f = family) targets of
             None \<Rightarrow> Some (d, Err (TrInvalidAddress (lit ''dial target'') (lit ''no '' @ family_name family @ lit '' target resolved'')))
           | Some (_, pa) \<Rightarrow> dial_half E family pa d))"

definition dual_dial ::
  "('q, 's, 'mh) quic_env \<Rightarrow> 'mh peer_addr \<Rightarrow> (('q, 's, 'mh) dual_quic_transport, connection_id) io" where
  "dual_dial E addr d =
     (case dial_targets E addr (qt_socket (dq_ipv4 d)) of
        Inl e \<Rightarrow> Some (d, Err e)
      | Inr [] \<Rightarrow> Some (d, Err no_target)
      | Inr ((family, pa) # _) \<Rightarrow> dial_half E family pa d)"

section \<open>The trait\<close>

definition dual_send_raw_udp ::
  "('q, 's, 'mh) quic_env \<Rightarrow> 'mh multiaddr \<Rightarrow> bytes \<Rightarrow> (('q, 's, 'mh) dual_quic_transport, unit) io" where
  "dual_send_raw_udp E target payload d =
     (case resolve_dial_socket_addr E target (lit ''raw udp target'') (qt_socket (dq_ipv4 d)) of
        Inl e \<Rightarrow> Some (d, Err e)
      | Inr a \<Rightarrow> on_half (family_for_socket_addr a) (io_of (send_raw_udp E (socket_addr_to_multiaddr a) payload)) d)"

definition dual_listen ::
  "('q, 's, 'mh) quic_env \<Rightarrow> 'mh multiaddr \<Rightarrow> (('q, 's, 'mh) dual_quic_transport, 'mh multiaddr) io" where
  "dual_listen E addr = on_half (family_for_addr addr) (io_of (qt_listen E addr))"

definition dual_open_stream :: "connection_id \<Rightarrow> (('q, 's, 'mh) dual_quic_transport, stream_id) io" where
  "dual_open_stream c = (case internal_id c of (family, c) \<Rightarrow> on_half family (io_of (qt_open_stream c)))"

definition dual_send_stream ::
  "('q, 's, 'mh) quic_env \<Rightarrow> connection_id \<Rightarrow> stream_id \<Rightarrow> bytes \<Rightarrow> (('q, 's, 'mh) dual_quic_transport, unit) io" where
  "dual_send_stream E c sid data = (case internal_id c of (family, c) \<Rightarrow> on_half family (qt_send_stream E c sid data))"

definition dual_close_stream_write ::
  "('q, 's, 'mh) quic_env \<Rightarrow> connection_id \<Rightarrow> stream_id \<Rightarrow> (('q, 's, 'mh) dual_quic_transport, unit) io" where
  "dual_close_stream_write E c sid = (case internal_id c of (family, c) \<Rightarrow> on_half family (qt_close_stream_write E c sid))"

definition dual_reset_stream ::
  "('q, 's, 'mh) quic_env \<Rightarrow> connection_id \<Rightarrow> stream_id \<Rightarrow> (('q, 's, 'mh) dual_quic_transport, unit) io" where
  "dual_reset_stream E c sid = (case internal_id c of (family, c) \<Rightarrow> on_half family (qt_reset_stream E c sid))"

definition dual_close :: "('q, 's, 'mh) quic_env \<Rightarrow> connection_id \<Rightarrow> (('q, 's, 'mh) dual_quic_transport, unit) io" where
  "dual_close E c = (case internal_id c of (family, c) \<Rightarrow> on_half family (qt_close E c))"

text \<open>The IPv4 half is polled first; an error of either poll is the result.\<close>

definition dual_poll ::
  "'mh multihash_api \<Rightarrow> ('q, 's, 'mh) quic_env \<Rightarrow> (('q, 's, 'mh) dual_quic_transport, 'mh transport_event list) io" where
  "dual_poll M E =
     io_bind (on_half Ipv4 (qt_poll M E)) (\<lambda>events4.
     io_bind (on_half Ipv6 (qt_poll M E)) (\<lambda>events6.
       io_ok (map (map_event Ipv4) events4 @ map (map_event Ipv6) events6)))"

definition dual_local_addresses ::
  "('q, 's, 'mh) quic_env \<Rightarrow> ('q, 's, 'mh) dual_quic_transport \<Rightarrow> 'mh multiaddr list" where
  "dual_local_addresses E d = qt_local_addresses E (dq_ipv4 d) @ qt_local_addresses E (dq_ipv6 d)"

definition dual_active_connection_count :: "('q, 's, 'mh) dual_quic_transport \<Rightarrow> nat" where
  "dual_active_connection_count d = qt_active_connection_count (dq_ipv4 d) + qt_active_connection_count (dq_ipv6 d)"

definition dual_active_connection_sources ::
  "('q, 's, 'mh) quic_env \<Rightarrow> ('q, 's, 'mh) dual_quic_transport \<Rightarrow> 'mh multiaddr list" where
  "dual_active_connection_sources E d = qt_active_connection_sources E (dq_ipv4 d) @ qt_active_connection_sources E (dq_ipv6 d)"

definition dual_active_inbound_connection_sources ::
  "('q, 's, 'mh) quic_env \<Rightarrow> ('q, 's, 'mh) dual_quic_transport \<Rightarrow> 'mh multiaddr list" where
  "dual_active_inbound_connection_sources E d =
     qt_active_inbound_connection_sources E (dq_ipv4 d) @ qt_active_inbound_connection_sources E (dq_ipv6 d)"

section \<open>One socket or two\<close>

datatype ('q, 's, 'mh) quic_endpoint =
    Single "('q, 's, 'mh) quic_transport"
  | Dual "('q, 's, 'mh) dual_quic_transport"

text \<open>Each method calls the method of the transport it holds.\<close>

fun by_endpoint ::
  "(('q, 's, 'mh) quic_transport, 'a) io \<Rightarrow> (('q, 's, 'mh) dual_quic_transport, 'a) io \<Rightarrow> (('q, 's, 'mh) quic_endpoint, 'a) io" where
  "by_endpoint single dual (Single t) = map_option (\<lambda>(t, res). (Single t, res)) (single t)"
| "by_endpoint single dual (Dual d) = map_option (\<lambda>(d, res). (Dual d, res)) (dual d)"

definition single_dial_family ::
  "('q, 's, 'mh) quic_env \<Rightarrow> 'mh peer_addr \<Rightarrow> address_family \<Rightarrow> (('q, 's, 'mh) quic_transport, connection_id) io" where
  "single_dial_family E addr family t =
     (case qt_local_addr E t of
        Inl e \<Rightarrow> Some (t, Err e)
      | Inr a \<Rightarrow>
          if family_for_socket_addr a \<noteq> family
          then Some (t, Err (TrInvalidAddress (lit ''dial target'')
                 (lit ''endpoint is bound to '' @ family_name (family_for_socket_addr a) @ lit '', cannot dial '' @
                  family_name family @ lit '' target'')))
          else case peer_addr_for_family E addr family (qt_socket t) of
              Inl e \<Rightarrow> Some (t, Err e)
            | Inr pa \<Rightarrow> qt_dial E pa t)"

definition qe_dial_all ::
  "('q, 's, 'mh) quic_env \<Rightarrow> 'mh peer_addr \<Rightarrow> (('q, 's, 'mh) quic_endpoint, connection_id list) io" where
  "qe_dial_all E addr = by_endpoint (io_bind (qt_dial E addr) (\<lambda>c. io_ok [c])) (dual_dial_all E addr)"

definition qe_dial_ip4 ::
  "('q, 's, 'mh) quic_env \<Rightarrow> 'mh peer_addr \<Rightarrow> (('q, 's, 'mh) quic_endpoint, connection_id) io" where
  "qe_dial_ip4 E addr = by_endpoint (single_dial_family E addr Ipv4) (dual_dial_family E addr Ipv4)"

definition qe_dial_ip6 ::
  "('q, 's, 'mh) quic_env \<Rightarrow> 'mh peer_addr \<Rightarrow> (('q, 's, 'mh) quic_endpoint, connection_id) io" where
  "qe_dial_ip6 E addr = by_endpoint (single_dial_family E addr Ipv6) (dual_dial_family E addr Ipv6)"

definition qe_send_raw_udp ::
  "('q, 's, 'mh) quic_env \<Rightarrow> 'mh multiaddr \<Rightarrow> bytes \<Rightarrow> (('q, 's, 'mh) quic_endpoint, unit) io" where
  "qe_send_raw_udp E target payload = by_endpoint (io_of (send_raw_udp E target payload)) (dual_send_raw_udp E target payload)"

definition qe_dial :: "('q, 's, 'mh) quic_env \<Rightarrow> 'mh peer_addr \<Rightarrow> (('q, 's, 'mh) quic_endpoint, connection_id) io" where
  "qe_dial E addr = by_endpoint (qt_dial E addr) (dual_dial E addr)"

definition qe_listen :: "('q, 's, 'mh) quic_env \<Rightarrow> 'mh multiaddr \<Rightarrow> (('q, 's, 'mh) quic_endpoint, 'mh multiaddr) io" where
  "qe_listen E addr = by_endpoint (io_of (qt_listen E addr)) (dual_listen E addr)"

definition qe_open_stream :: "connection_id \<Rightarrow> (('q, 's, 'mh) quic_endpoint, stream_id) io" where
  "qe_open_stream c = by_endpoint (io_of (qt_open_stream c)) (dual_open_stream c)"

definition qe_send_stream ::
  "('q, 's, 'mh) quic_env \<Rightarrow> connection_id \<Rightarrow> stream_id \<Rightarrow> bytes \<Rightarrow> (('q, 's, 'mh) quic_endpoint, unit) io" where
  "qe_send_stream E c sid data = by_endpoint (qt_send_stream E c sid data) (dual_send_stream E c sid data)"

definition qe_close_stream_write ::
  "('q, 's, 'mh) quic_env \<Rightarrow> connection_id \<Rightarrow> stream_id \<Rightarrow> (('q, 's, 'mh) quic_endpoint, unit) io" where
  "qe_close_stream_write E c sid = by_endpoint (qt_close_stream_write E c sid) (dual_close_stream_write E c sid)"

definition qe_reset_stream ::
  "('q, 's, 'mh) quic_env \<Rightarrow> connection_id \<Rightarrow> stream_id \<Rightarrow> (('q, 's, 'mh) quic_endpoint, unit) io" where
  "qe_reset_stream E c sid = by_endpoint (qt_reset_stream E c sid) (dual_reset_stream E c sid)"

definition qe_close :: "('q, 's, 'mh) quic_env \<Rightarrow> connection_id \<Rightarrow> (('q, 's, 'mh) quic_endpoint, unit) io" where
  "qe_close E c = by_endpoint (qt_close E c) (dual_close E c)"

definition qe_poll ::
  "'mh multihash_api \<Rightarrow> ('q, 's, 'mh) quic_env \<Rightarrow> (('q, 's, 'mh) quic_endpoint, 'mh transport_event list) io" where
  "qe_poll M E = by_endpoint (qt_poll M E) (dual_poll M E)"

fun qe_local_addresses :: "('q, 's, 'mh) quic_env \<Rightarrow> ('q, 's, 'mh) quic_endpoint \<Rightarrow> 'mh multiaddr list" where
  "qe_local_addresses E (Single t) = qt_local_addresses E t"
| "qe_local_addresses E (Dual d) = dual_local_addresses E d"

fun qe_active_connection_count :: "('q, 's, 'mh) quic_endpoint \<Rightarrow> nat" where
  "qe_active_connection_count (Single t) = qt_active_connection_count t"
| "qe_active_connection_count (Dual d) = dual_active_connection_count d"

fun qe_active_connection_sources :: "('q, 's, 'mh) quic_env \<Rightarrow> ('q, 's, 'mh) quic_endpoint \<Rightarrow> 'mh multiaddr list" where
  "qe_active_connection_sources E (Single t) = qt_active_connection_sources E t"
| "qe_active_connection_sources E (Dual d) = dual_active_connection_sources E d"

fun qe_active_inbound_connection_sources :: "('q, 's, 'mh) quic_env \<Rightarrow> ('q, 's, 'mh) quic_endpoint \<Rightarrow> 'mh multiaddr list" where
  "qe_active_inbound_connection_sources E (Single t) = qt_active_inbound_connection_sources E t"
| "qe_active_inbound_connection_sources E (Dual d) = dual_active_inbound_connection_sources E d"

text \<open>
  The endpoint as a value of the trait.  A call gives what it returns; that it returns is shown from what
  \<open>quiche\<close> and the socket promise.
\<close>

definition returned :: "('st, 'a) io \<Rightarrow> 'st \<Rightarrow> 'st \<times> (transport_error + 'a)" where
  "returned m st = the (m st)"

definition quic_endpoint_transport ::
  "'mh multihash_api \<Rightarrow> ('q, 's, 'mh) quic_env \<Rightarrow> (('q, 's, 'mh) quic_endpoint, 'mh) transport" where
  "quic_endpoint_transport M E =
     \<lparr>tr_dial = (\<lambda>addr. returned (qe_dial E addr)), tr_listen = (\<lambda>addr. returned (qe_listen E addr)),
      tr_open_stream = (\<lambda>c. returned (qe_open_stream c)),
      tr_send_stream = (\<lambda>c sid data. returned (qe_send_stream E c sid data)),
      tr_close_stream_write = (\<lambda>c sid. returned (qe_close_stream_write E c sid)),
      tr_reset_stream = (\<lambda>c sid. returned (qe_reset_stream E c sid)), tr_close = (\<lambda>c. returned (qe_close E c)),
      tr_poll = returned (qe_poll M E), tr_local_addresses = qe_local_addresses E,
      tr_active_connection_count = qe_active_connection_count,
      tr_active_connection_sources = qe_active_connection_sources E,
      tr_active_inbound_connection_sources = qe_active_inbound_connection_sources E\<rparr>"

end
