(* ===== verification/Keys.thy ===== *)
theory Keys
  imports PeerId
begin

text \<open>
  Ed25519 key pairs, signature checks and signed payloads, \<open>crates/identity/src/{ed25519,signed}.rs\<close> and
  the rest of \<open>key.rs\<close>.  The arithmetic of the signature scheme is \<open>ed25519-dalek\<close>; the operations called
  are the fields of \<open>ed25519_api\<close>, and \<open>ed25519_laws\<close> states what the code relies on.
\<close>

section \<open>The signature scheme\<close>

definition ED25519_SECRET_KEY_LENGTH :: nat where
  "ED25519_SECRET_KEY_LENGTH = 32"

definition ED25519_PUBLIC_KEY_LENGTH :: nat where
  "ED25519_PUBLIC_KEY_LENGTH = 32"

definition ED25519_SIGNATURE_LENGTH :: nat where
  "ED25519_SIGNATURE_LENGTH = 64"

record 'r ed25519_api =
  ed_verifying_key :: "bytes \<Rightarrow> bytes"
  ed_generate :: "'r \<Rightarrow> 'r \<times> bytes"
  ed_sign :: "bytes \<Rightarrow> bytes \<Rightarrow> bytes"
  ed_key_from_bytes :: "bytes \<Rightarrow> bool"
  ed_verify_strict :: "bytes \<Rightarrow> bytes \<Rightarrow> bytes \<Rightarrow> bool"

text \<open>Keys and signatures have their sizes, the key of a secret key is one, and what it signs verifies.\<close>

definition ed25519_laws :: "'r ed25519_api \<Rightarrow> bool" where
  "ed25519_laws D \<longleftrightarrow>
     (\<forall>secret. length secret = ED25519_SECRET_KEY_LENGTH \<longrightarrow>
        length (ed_verifying_key D secret) = ED25519_PUBLIC_KEY_LENGTH \<and> ed_key_from_bytes D (ed_verifying_key D secret)) \<and>
     (\<forall>secret msg. length secret = ED25519_SECRET_KEY_LENGTH \<longrightarrow>
        length (ed_sign D secret msg) = ED25519_SIGNATURE_LENGTH \<and>
        ed_verify_strict D (ed_verifying_key D secret) msg (ed_sign D secret msg)) \<and>
     (\<forall>r. length (snd (ed_generate D r)) = ED25519_SECRET_KEY_LENGTH)"

section \<open>Key pairs\<close>

record ed25519_keypair =
  secret_key :: bytes
  public_key_raw :: bytes

definition from_secret_key_bytes :: "'r ed25519_api \<Rightarrow> bytes \<Rightarrow> ed25519_keypair" where
  "from_secret_key_bytes D secret = \<lparr>secret_key = secret, public_key_raw = ed_verifying_key D secret\<rparr>"

definition generate_with_rng :: "'r ed25519_api \<Rightarrow> 'r \<Rightarrow> 'r \<times> ed25519_keypair" where
  "generate_with_rng D rng =
     (case ed_generate D rng of
        (rng, secret) \<Rightarrow> (rng, \<lparr>secret_key = secret, public_key_raw = ed_verifying_key D secret\<rparr>))"

definition keypair_public_key :: "ed25519_keypair \<Rightarrow> public_key" where
  "keypair_public_key kp = \<lparr>key_type = Ed25519, key_data = public_key_raw kp\<rparr>"

definition keypair_peer_id :: "'mh multihash_api \<Rightarrow> (bytes \<Rightarrow> bytes) \<Rightarrow> ed25519_keypair \<Rightarrow> 'mh peer_id option" where
  "keypair_peer_id M sha256 kp = from_public_key M sha256 (keypair_public_key kp)"

definition keypair_sign :: "'r ed25519_api \<Rightarrow> ed25519_keypair \<Rightarrow> bytes \<Rightarrow> bytes" where
  "keypair_sign D kp msg = ed_sign D (secret_key kp) msg"

section \<open>Verification\<close>

datatype verify_error =
    UnsupportedKeyType key_type
  | InvalidEd25519PublicKeyLength nat
  | InvalidEd25519PublicKey
  | InvalidSignature

definition pk_verify :: "'r ed25519_api \<Rightarrow> public_key \<Rightarrow> bytes \<Rightarrow> bytes \<Rightarrow> verify_error + unit" where
  "pk_verify D k message signature =
     (case key_type k of
        Ed25519 \<Rightarrow>
          if length (key_data k) \<noteq> 32 then Err (InvalidEd25519PublicKeyLength (length (key_data k)))
          else if \<not> ed_key_from_bytes D (key_data k) then Err InvalidEd25519PublicKey
          else if ed_verify_strict D (key_data k) message signature then Ok ()
          else Err InvalidSignature
      | other \<Rightarrow> Err (UnsupportedKeyType other))"

section \<open>Texts\<close>

fun debug_key_type :: "key_type \<Rightarrow> rstr" where
  "debug_key_type Rsa = lit ''Rsa''"
| "debug_key_type Ed25519 = lit ''Ed25519''"
| "debug_key_type Secp256k1 = lit ''Secp256k1''"
| "debug_key_type Ecdsa = lit ''Ecdsa''"

definition hex2 :: "byte \<Rightarrow> rstr" where
  "hex2 b = (if unat b < 16 then lit ''0'' else []) @ show_hex (unat b)"

definition lower_hex_public_key :: "public_key \<Rightarrow> rstr" where
  "lower_hex_public_key k = concat (map hex2 (key_data k))"

definition show_public_key :: "public_key \<Rightarrow> rstr" where
  "show_public_key k = debug_key_type (key_type k) @ lit '':'' @ concat (map hex2 (key_data k))"

fun show_public_key_error :: "public_key_error \<Rightarrow> rstr" where
  "show_public_key_error PkEmptyInput = lit ''public key protobuf input is empty''"
| "show_public_key_error (InvalidFieldTag expected found) =
     lit ''invalid protobuf field tag: expected 0x'' @ hex2 expected @ lit '', found '' @
     (case found of None \<Rightarrow> lit ''None'' | Some b \<Rightarrow> lit ''Some('' @ show_nat (unat b) @ lit '')'')"
| "show_public_key_error (PkVarint e) = lit ''invalid protobuf varint: '' @ show_varint_error e"
| "show_public_key_error (UnknownKeyType v) = lit ''unknown key type value: '' @ show_nat (unat v)"
| "show_public_key_error LengthOverflow = lit ''protobuf length does not fit in usize''"
| "show_public_key_error (InvalidLength expected actual) =
     lit ''invalid protobuf length: expected total '' @ show_nat expected @ lit '' bytes, got '' @ show_nat actual"

fun show_verify_error :: "verify_error \<Rightarrow> rstr" where
  "show_verify_error (UnsupportedKeyType t) = lit ''signature verification is unsupported for key type '' @ debug_key_type t"
| "show_verify_error (InvalidEd25519PublicKeyLength n) =
     lit ''invalid ed25519 public key length: expected 32, got '' @ show_nat n"
| "show_verify_error InvalidEd25519PublicKey = lit ''invalid ed25519 public key bytes''"
| "show_verify_error InvalidSignature = lit ''signature verification failed''"

section \<open>Signed payloads\<close>

record signed_bytes =
  sgn_public_key :: public_key
  sgn_payload :: bytes
  sgn_signature :: bytes

definition sign_ed25519 :: "'r ed25519_api \<Rightarrow> ed25519_keypair \<Rightarrow> bytes \<Rightarrow> signed_bytes" where
  "sign_ed25519 D kp payload =
     \<lparr>sgn_public_key = keypair_public_key kp, sgn_payload = payload, sgn_signature = keypair_sign D kp payload\<rparr>"

definition signed_from_parts :: "public_key \<Rightarrow> bytes \<Rightarrow> bytes \<Rightarrow> signed_bytes" where
  "signed_from_parts k payload signature = \<lparr>sgn_public_key = k, sgn_payload = payload, sgn_signature = signature\<rparr>"

definition signed_into_parts :: "signed_bytes \<Rightarrow> public_key \<times> bytes \<times> bytes" where
  "signed_into_parts s = (sgn_public_key s, sgn_payload s, sgn_signature s)"

definition signed_verify :: "'r ed25519_api \<Rightarrow> signed_bytes \<Rightarrow> verify_error + unit" where
  "signed_verify D s = pk_verify D (sgn_public_key s) (sgn_payload s) (sgn_signature s)"

section \<open>Properties\<close>

text \<open>Key pairs as the constructors make them.\<close>

definition keypair_ok :: "'r ed25519_api \<Rightarrow> ed25519_keypair \<Rightarrow> bool" where
  "keypair_ok D kp \<longleftrightarrow>
     length (secret_key kp) = ED25519_SECRET_KEY_LENGTH \<and> public_key_raw kp = ed_verifying_key D (secret_key kp)"

lemma keypair_ok_from_secret: "length secret = ED25519_SECRET_KEY_LENGTH \<Longrightarrow> keypair_ok D (from_secret_key_bytes D secret)"
  by (simp add: keypair_ok_def from_secret_key_bytes_def)

lemma keypair_ok_generate: "ed25519_laws D \<Longrightarrow> keypair_ok D (snd (generate_with_rng D rng))"
  by (auto simp: keypair_ok_def generate_with_rng_def ed25519_laws_def split: prod.split) (metis snd_conv)

lemma pk_verify_Ok:
  "pk_verify D k message signature = Ok () \<longleftrightarrow>
     key_type k = Ed25519 \<and> length (key_data k) = 32 \<and> ed_key_from_bytes D (key_data k) \<and>
     ed_verify_strict D (key_data k) message signature"
  by (auto simp: pk_verify_def split: key_type.splits)

lemma keypair_sign_verifies:
  assumes "ed25519_laws D" and "keypair_ok D kp"
  shows "pk_verify D (keypair_public_key kp) msg (keypair_sign D kp msg) = Ok ()"
    and "length (keypair_sign D kp msg) = 64" and "length (public_key_raw kp) = 32"
  using assms
  by (simp_all add: pk_verify_Ok ed25519_laws_def keypair_ok_def keypair_public_key_def keypair_sign_def
      ED25519_SECRET_KEY_LENGTH_def ED25519_PUBLIC_KEY_LENGTH_def ED25519_SIGNATURE_LENGTH_def)

end
