(* ===== verification/Tls.thy ===== *)
theory Tls
  imports Keys
begin

text \<open>
  Certificates of libp2p, \<open>crates/tls/src\<close>: making one that carries the host key, verifying one, and the
  PEM text form.  What the code calls of the crates \<open>der\<close>, \<open>x509-cert\<close> and \<open>p256\<close> are the fields of
  \<open>der_api\<close> and \<open>x509_api\<close>; a reader of \<open>der\<close> is the bytes that remain to be read.
\<close>

unbundle bit_operations_syntax

section \<open>Constants and errors\<close>

definition LIBP2P_EXTENSION_OID :: rstr where
  "LIBP2P_EXTENSION_OID = lit ''1.3.6.1.4.1.53594.1.1''"

definition SIGNATURE_PREFIX :: bytes where
  "SIGNATURE_PREFIX = lit ''libp2p-tls-handshake:''"

datatype tls_error =
    TlsMissingExtension
  | TlsInvalidExtension rstr
  | TlsSignatureVerification rstr
  | TlsInvalidPublicKey rstr
  | TlsInvalidSelfSignature
  | TlsUnsupportedSignatureAlgorithm rstr
  | TlsDer rstr
  | TlsPeerIdMismatch rstr rstr
  | TlsCertificateGeneration rstr

fun show_tls_error :: "tls_error \<Rightarrow> rstr" where
  "show_tls_error TlsMissingExtension = lit ''missing libp2p TLS extension (OID 1.3.6.1.4.1.53594.1.1)''"
| "show_tls_error (TlsInvalidExtension e) = lit ''invalid libp2p TLS extension: '' @ e"
| "show_tls_error (TlsSignatureVerification e) = lit ''extension signature verification failed: '' @ e"
| "show_tls_error (TlsInvalidPublicKey e) = lit ''invalid public key in certificate extension: '' @ e"
| "show_tls_error TlsInvalidSelfSignature = lit ''certificate self-signature verification failed''"
| "show_tls_error (TlsUnsupportedSignatureAlgorithm e) = lit ''unsupported certificate signature algorithm: '' @ e"
| "show_tls_error (TlsDer e) = lit ''DER encoding/decoding error: '' @ e"
| "show_tls_error (TlsPeerIdMismatch expected actual) =
     lit ''peer id mismatch: expected '' @ expected @ lit '', got '' @ actual"
| "show_tls_error (TlsCertificateGeneration e) = lit ''certificate generation failed: '' @ e"

section \<open>Libraries\<close>

record der_api =
  dr_new :: "bytes \<Rightarrow> rstr + unit"
  dr_header :: "bytes \<Rightarrow> rstr + nat \<times> bytes"
  dr_sequence :: "bytes \<Rightarrow> rstr + bytes \<times> bytes"
  dr_octets :: "bytes \<Rightarrow> rstr + bytes \<times> bytes"
  dr_finish :: "bytes \<Rightarrow> rstr + unit"
  dr_octet_new :: "bytes \<Rightarrow> rstr + unit"
  dr_octet_len :: "bytes \<Rightarrow> rstr + nat"
  dr_len_add :: "nat \<Rightarrow> nat \<Rightarrow> rstr + nat"
  dr_octet_encode :: "bytes \<Rightarrow> bytes"
  dr_overlength :: rstr

text \<open>\<open>'sk\<close> is a P-256 signing key, \<open>'b\<close> a certificate builder, \<open>'cert\<close> a parsed certificate, \<open>'v\<close> a
  validity period, \<open>'r\<close> the state of the random source.\<close>

record ('sk, 'b, 'cert, 'v, 'r) x509_api =
  x5_parse :: "bytes \<Rightarrow> rstr + 'cert"
  x5_sig_alg :: "'cert \<Rightarrow> rstr"
  x5_tbs_sig_alg :: "'cert \<Rightarrow> rstr"
  x5_extensions :: "'cert \<Rightarrow> (rstr \<times> bytes) list option"
  x5_spki :: "'cert \<Rightarrow> rstr + bytes"
  x5_key :: "'cert \<Rightarrow> bytes"
  x5_signature :: "'cert \<Rightarrow> bytes"
  p256_key :: "bytes \<Rightarrow> bool"
  p256_sig :: "bytes \<Rightarrow> bool"
  p256_verify :: "bytes \<Rightarrow> bytes \<Rightarrow> bytes \<Rightarrow> bool"
  p256_generate :: "'r \<Rightarrow> 'r \<times> 'sk"
  p256_public_key_der :: "'sk \<Rightarrow> rstr + bytes"
  p256_spki_owned :: "'sk \<Rightarrow> rstr + bytes"
  p256_pkcs8 :: "'sk \<Rightarrow> rstr + bytes"
  x5_serial :: "bytes \<Rightarrow> rstr + bytes"
  x5_builder_new :: "rstr \<Rightarrow> bytes \<Rightarrow> 'v \<Rightarrow> bytes \<Rightarrow> rstr + 'b"
  x5_add_extension :: "rstr \<Rightarrow> bool \<Rightarrow> bytes \<Rightarrow> 'b \<Rightarrow> rstr + 'b"
  x5_build :: "'sk \<Rightarrow> 'b \<Rightarrow> rstr + 'cert"
  x5_to_der :: "'cert \<Rightarrow> rstr + bytes"
  x5_to_pem :: "'cert \<Rightarrow> rstr + rstr"
  x5_validity_from_now :: "nat \<Rightarrow> rstr + 'v"

section \<open>The signed key\<close>

text \<open>The header of the SEQUENCE, for contents of \<open>n\<close> bytes.\<close>

definition sequence_header :: "nat \<Rightarrow> bytes" where
  "sequence_header n =
     0x30 # (if n < 128 then [of_nat n]
             else if n < 256 then [0x81, of_nat n]
             else [0x82, of_nat (n div 256), of_nat (n mod 256)])"

text \<open>The two strings are written into \<open>n\<close> bytes that were zero.\<close>

definition encode_signed_key :: "der_api \<Rightarrow> bytes \<Rightarrow> bytes \<Rightarrow> rstr + bytes" where
  "encode_signed_key R public_key signature =
     and_then (dr_octet_new R public_key) (\<lambda>_.
     and_then (dr_octet_new R signature) (\<lambda>_.
     and_then (dr_octet_len R public_key) (\<lambda>pk_len.
     and_then (dr_octet_len R signature) (\<lambda>sig_len.
     and_then (dr_len_add R pk_len sig_len) (\<lambda>n.
       let contents = dr_octet_encode R public_key @ dr_octet_encode R signature
       in if n < length contents then Err (dr_overlength R)
          else Ok (sequence_header n @ contents @ replicate (n - length contents) 0))))))"

definition decode_signed_key :: "der_api \<Rightarrow> bytes \<Rightarrow> rstr + bytes \<times> bytes" where
  "decode_signed_key R input =
     and_then (dr_new R input) (\<lambda>_.
     and_then (dr_sequence R input) (\<lambda>(contents, rest).
     and_then (dr_octets R contents) (\<lambda>(public_key, contents).
     and_then (dr_octets R contents) (\<lambda>(signature, contents).
     and_then (dr_finish R contents) (\<lambda>_.
     and_then (dr_finish R rest) (\<lambda>_. Ok (public_key, signature)))))))"

section \<open>Verification\<close>

definition extract_tbs_der :: "der_api \<Rightarrow> bytes \<Rightarrow> tls_error + bytes" where
  "extract_tbs_der R cert_der =
     and_then (map_err TlsDer (dr_new R cert_der)) (\<lambda>_.
     and_then (map_err TlsDer (dr_header R cert_der)) (\<lambda>(_, before).
       let tbs_start = length cert_der - length before
       in and_then (map_err TlsDer (dr_header R before)) (\<lambda>(value_len, after).
            let header_len = length before - length after;
                tbs_end = tbs_start + header_len + value_len
            in if length cert_der < tbs_end then Err (TlsDer (lit ''TBS extends beyond certificate''))
               else Ok (drop tbs_start (take tbs_end cert_der)))))"

definition ECDSA_SHA256_OID :: rstr where
  "ECDSA_SHA256_OID = lit ''1.2.840.10045.4.3.2''"

definition verify_self_signature ::
  "der_api \<Rightarrow> ('sk, 'b, 'cert, 'v, 'r) x509_api \<Rightarrow> bytes \<Rightarrow> 'cert \<Rightarrow> tls_error + unit" where
  "verify_self_signature R X cert_der cert =
     (if x5_sig_alg X cert \<noteq> ECDSA_SHA256_OID then Err (TlsUnsupportedSignatureAlgorithm (x5_sig_alg X cert))
      else if x5_tbs_sig_alg X cert \<noteq> x5_sig_alg X cert then Err TlsInvalidSelfSignature
      else and_then (extract_tbs_der R cert_der) (\<lambda>tbs.
        if \<not> p256_key X (x5_key X cert) then Err TlsInvalidSelfSignature
        else if \<not> p256_sig X (x5_signature X cert) then Err TlsInvalidSelfSignature
        else if p256_verify X (x5_key X cert) tbs (x5_signature X cert) then Ok ()
        else Err TlsInvalidSelfSignature))"

definition verify_host_signature :: "'d ed25519_api \<Rightarrow> public_key \<Rightarrow> bytes \<Rightarrow> bytes \<Rightarrow> tls_error + unit" where
  "verify_host_signature D k message signature =
     (case key_type k of
        Ed25519 \<Rightarrow>
          if length signature \<noteq> 64
          then Err (TlsSignatureVerification
                 (lit ''invalid Ed25519 signature length: expected 64, got '' @ show_nat (length signature)))
          else map_err (\<lambda>e. TlsSignatureVerification (show_verify_error e)) (pk_verify D k message signature)
      | other \<Rightarrow> Err (TlsSignatureVerification
          (lit ''unsupported host key type for verification: '' @ debug_key_type other)))"

text \<open>The key that a certificate proves.\<close>

definition verified_key ::
  "'d ed25519_api \<Rightarrow> der_api \<Rightarrow> ('sk, 'b, 'cert, 'v, 'r) x509_api \<Rightarrow> bytes \<Rightarrow> tls_error + public_key" where
  "verified_key D R X cert_der =
     and_then (map_err TlsDer (x5_parse X cert_der)) (\<lambda>cert.
     and_then (verify_self_signature R X cert_der cert) (\<lambda>_.
     and_then (ok_or TlsMissingExtension (x5_extensions X cert)) (\<lambda>extensions.
     and_then (ok_or TlsMissingExtension (find (\<lambda>(oid, _). oid = LIBP2P_EXTENSION_OID) extensions)) (\<lambda>(_, value).
     and_then (map_err TlsInvalidExtension (decode_signed_key R value)) (\<lambda>(key_bytes, signature).
     and_then (map_err (\<lambda>e. TlsInvalidPublicKey (show_public_key_error e)) (decode_protobuf key_bytes)) (\<lambda>k.
     and_then (map_err TlsDer (x5_spki X cert)) (\<lambda>spki.
     and_then (verify_host_signature D k (SIGNATURE_PREFIX @ spki) signature) (\<lambda>_. Ok k))))))))"

text \<open>\<open>None\<close> is the panic of \<open>PeerId::from_public_key\<close>, which does not happen.\<close>

definition verify_libp2p_certificate ::
  "'mh multihash_api \<Rightarrow> (bytes \<Rightarrow> bytes) \<Rightarrow> 'd ed25519_api \<Rightarrow> der_api \<Rightarrow> ('sk, 'b, 'cert, 'v, 'r) x509_api \<Rightarrow> bytes \<Rightarrow>
     (tls_error + 'mh peer_id) option" where
  "verify_libp2p_certificate M sha256 D R X cert_der =
     (case verified_key D R X cert_der of
        Inl e \<Rightarrow> Some (Err e)
      | Inr k \<Rightarrow> map_option Ok (from_public_key M sha256 k))"

section \<open>Generation\<close>

definition SERIAL_NUMBER :: bytes where
  "SERIAL_NUMBER = [0x49, 0x96, 0x02, 0xd2]"

definition SUBJECT :: rstr where
  "SUBJECT = lit ''O=libp2p.io,serialNumber=1''"

definition generate_certificate_with_rng ::
  "'d ed25519_api \<Rightarrow> der_api \<Rightarrow> ('sk, 'b, 'cert, 'v, 'r) x509_api \<Rightarrow> ed25519_keypair \<Rightarrow> 'v \<Rightarrow> 'r \<Rightarrow>
     'r \<times> (tls_error + bytes \<times> bytes)" where
  "generate_certificate_with_rng D R X keypair validity rng =
     (case p256_generate X rng of
        (rng, sk) \<Rightarrow>
          (rng, map_err TlsCertificateGeneration
            (and_then (p256_public_key_der X sk) (\<lambda>spki.
             let host_signature = keypair_sign D keypair (SIGNATURE_PREFIX @ spki)
             in and_then (encode_signed_key R (encode_protobuf (keypair_public_key keypair)) host_signature) (\<lambda>signed_key.
             and_then (x5_serial X SERIAL_NUMBER) (\<lambda>serial.
             and_then (p256_spki_owned X sk) (\<lambda>spki_owned.
             and_then (x5_builder_new X SUBJECT serial validity spki_owned) (\<lambda>builder.
             and_then (x5_add_extension X LIBP2P_EXTENSION_OID False signed_key builder) (\<lambda>builder.
             and_then (x5_build X sk builder) (\<lambda>cert.
             and_then (x5_to_der X cert) (\<lambda>cert_der.
             and_then (p256_pkcs8 X sk) (\<lambda>key_der. Ok (cert_der, key_der)))))))))))))"

definition generate_certificate ::
  "'d ed25519_api \<Rightarrow> der_api \<Rightarrow> ('sk, 'b, 'cert, 'v, 'r) x509_api \<Rightarrow> ed25519_keypair \<Rightarrow> 'r \<Rightarrow>
     'r \<times> (tls_error + bytes \<times> bytes)" where
  "generate_certificate D R X keypair rng =
     (case x5_validity_from_now X (100 * 365 * 24 * 60 * 60) of
        Inl e \<Rightarrow> (rng, Err (TlsCertificateGeneration e))
      | Inr validity \<Rightarrow> generate_certificate_with_rng D R X keypair validity rng)"

section \<open>PEM\<close>

definition BASE64_ALPHABET :: bytes where
  "BASE64_ALPHABET = lit ''ABCDEFGHIJKLMNOPQRSTUVWXYZabcdefghijklmnopqrstuvwxyz0123456789+/''"

definition base64_digit :: "u32 \<Rightarrow> nat \<Rightarrow> byte" where
  "base64_digit triple shift = BASE64_ALPHABET ! unat (drop_bit shift triple AND 0x3f)"

text \<open>One to three bytes become four characters.\<close>

definition base64_chunk :: "byte \<Rightarrow> byte option \<Rightarrow> byte option \<Rightarrow> rstr" where
  "base64_chunk b0 b1 b2 =
     (let second = (case b1 of None \<Rightarrow> 0 | Some b \<Rightarrow> ucast b);
          third = (case b2 of None \<Rightarrow> 0 | Some b \<Rightarrow> ucast b);
          triple = push_bit 16 (ucast b0) OR push_bit 8 second OR third
      in [base64_digit triple 18, base64_digit triple 12,
          (if b1 \<noteq> None then base64_digit triple 6 else 0x3d),
          (if b2 \<noteq> None then base64_digit triple 0 else 0x3d)])"

fun base64_encode :: "bytes \<Rightarrow> rstr" where
  "base64_encode [] = []"
| "base64_encode [b0] = base64_chunk b0 None None"
| "base64_encode [b0, b1] = base64_chunk b0 (Some b1) None"
| "base64_encode (b0 # b1 # b2 # rest) = base64_chunk b0 (Some b1) (Some b2) @ base64_encode rest"

function pem_lines :: "rstr \<Rightarrow> rstr" where
  "pem_lines s =
     (if s = [] then []
      else (case from_utf8 (take 64 s) of Inl _ \<Rightarrow> [] | Inr line \<Rightarrow> line) @ [0x0a] @ pem_lines (drop 64 s))"
  by pat_completeness auto
termination by (relation "measure length") auto

declare pem_lines.simps [simp del]

definition manual_pem :: "string \<Rightarrow> bytes \<Rightarrow> rstr" where
  "manual_pem label der =
     lit ''-----BEGIN '' @ lit label @ lit ''-----'' @ [0x0a] @ pem_lines (base64_encode der) @
     lit ''-----END '' @ lit label @ lit ''-----'' @ [0x0a]"

definition cert_to_pem :: "('sk, 'b, 'cert, 'v, 'r) x509_api \<Rightarrow> bytes \<Rightarrow> rstr" where
  "cert_to_pem X cert_der =
     (case x5_parse X cert_der of
        Inl _ \<Rightarrow> manual_pem ''CERTIFICATE'' cert_der
      | Inr cert \<Rightarrow> (case x5_to_pem X cert of Inl _ \<Rightarrow> manual_pem ''CERTIFICATE'' cert_der | Inr pem \<Rightarrow> pem))"

definition private_key_to_pem :: "bytes \<Rightarrow> rstr" where
  "private_key_to_pem key_der = manual_pem ''PRIVATE KEY'' key_der"

end
