(* ===== verification/QuicNew.thy ===== *)
theory QuicNew
  imports QuicDual Tls
begin

text \<open>
  Making a QUIC endpoint, \<open>transports/quic/src/config.rs\<close> and the constructors of \<open>lib.rs\<close>: the sockets are
  bound and the TLS context gets a certificate made for the key pair of the node.  The socket calls, the TLS
  context of BoringSSL and the configuration of \<open>quiche\<close> are fields of \<open>bind_env\<close>.
\<close>

section \<open>What construction calls\<close>

record quic_limits =
  ql_max_data :: nat
  ql_max_stream_data_bidi_local :: nat
  ql_max_stream_data_bidi_remote :: nat
  ql_max_streams_bidi :: nat
  ql_max_recv_udp_payload :: nat
  ql_max_send_udp_payload :: nat

text \<open>\<open>'c\<close> is a TLS context, \<open>'x\<close> a certificate and \<open>'p\<close> a private key in it, \<open>'k\<close> a configuration of \<open>quiche\<close>.\<close>

record ('s, 'c, 'x, 'p, 'k) bind_env =
  os_bind :: "rstr \<Rightarrow> rstr + 's"
  os_set_nonblocking :: "'s \<Rightarrow> rstr + 's"
  ssl_context :: "rstr + 'c"
  ssl_accept_any_peer_cert :: "'c \<Rightarrow> 'c"
  ssl_x509 :: "bytes \<Rightarrow> rstr + 'x"
  ssl_set_certificate :: "'x \<Rightarrow> 'c \<Rightarrow> rstr + 'c"
  ssl_private_key :: "bytes \<Rightarrow> rstr + 'p"
  ssl_set_private_key :: "'p \<Rightarrow> 'c \<Rightarrow> rstr + 'c"
  ssl_check_private_key :: "'c \<Rightarrow> rstr + unit"
  q_config :: "'c \<Rightarrow> rstr + 'k"
  q_set_application_protos :: "bytes list \<Rightarrow> 'k \<Rightarrow> rstr + 'k"
  q_set_limits :: "quic_limits \<Rightarrow> 'k \<Rightarrow> 'k"

section \<open>Configuration\<close>

record quic_node_config =
  nc_keypair :: ed25519_keypair

definition node_config_new :: "ed25519_keypair \<Rightarrow> quic_node_config" where
  "node_config_new keypair = \<lparr>nc_keypair = keypair\<rparr>"

definition node_config_generate :: "'d ed25519_api \<Rightarrow> 'd \<Rightarrow> 'd \<times> quic_node_config" where
  "node_config_generate D rng = (case generate_with_rng D rng of (rng, keypair) \<Rightarrow> (rng, node_config_new keypair))"

definition node_config_peer_id :: "'mh multihash_api \<Rightarrow> (bytes \<Rightarrow> bytes) \<Rightarrow> quic_node_config \<Rightarrow> 'mh peer_id option" where
  "node_config_peer_id M H config = keypair_peer_id M H (nc_keypair config)"

definition quic_limits_used :: quic_limits where
  "quic_limits_used =
     \<lparr>ql_max_data = 10000000, ql_max_stream_data_bidi_local = 1000000, ql_max_stream_data_bidi_remote = 1000000,
      ql_max_streams_bidi = 100, ql_max_recv_udp_payload = 1350, ql_max_send_udp_payload = 1350\<rparr>"

definition listen_failed :: "string \<Rightarrow> rstr \<Rightarrow> transport_error" where
  "listen_failed what e = TrListenFailed (lit what @ e)"

definition invalid_config :: "string \<Rightarrow> rstr \<Rightarrow> transport_error" where
  "invalid_config what e = TrInvalidConfig (lit what @ e)"

text \<open>The certificate and key enter the context.\<close>

definition load_certificate ::
  "('s, 'c, 'x, 'p, 'k) bind_env \<Rightarrow> bytes \<Rightarrow> bytes \<Rightarrow> 'c \<Rightarrow> transport_error + 'c" where
  "load_certificate B cert_der key_der context =
     and_then (map_err (invalid_config ''failed to parse generated TLS certificate: '') (ssl_x509 B cert_der)) (\<lambda>cert.
     and_then (map_err (invalid_config ''failed to load generated cert into BoringSSL: '') (ssl_set_certificate B cert context)) (\<lambda>context.
     and_then (map_err (invalid_config ''failed to parse generated TLS private key: '') (ssl_private_key B key_der)) (\<lambda>key.
     and_then (map_err (invalid_config ''failed to load generated key into BoringSSL: '') (ssl_set_private_key B key context)) (\<lambda>context.
     and_then (map_err (invalid_config ''generated TLS private key does not match certificate: '') (ssl_check_private_key B context)) (\<lambda>_.
       Ok context)))))"

definition build_quiche_config ::
  "'d ed25519_api \<Rightarrow> der_api \<Rightarrow> ('sk, 'b, 'cert, 'v, 'r) x509_api \<Rightarrow> ('s, 'c, 'x, 'p, 'k) bind_env \<Rightarrow>
     quic_node_config \<Rightarrow> 'r \<Rightarrow> 'r \<times> (transport_error + 'k)" where
  "build_quiche_config D R X B config rng =
     (case map_err (listen_failed ''failed to create BoringSSL context: '') (ssl_context B) of
        Inl e \<Rightarrow> (rng, Err e)
      | Inr context \<Rightarrow>
          (case generate_certificate D R X (nc_keypair config) rng of
             (rng, Inl e) \<Rightarrow> (rng, Err (invalid_config ''failed to generate libp2p TLS certificate: '' (show_tls_error e)))
           | (rng, Inr (cert_der, key_der)) \<Rightarrow>
               (rng,
                and_then (load_certificate B cert_der key_der (ssl_accept_any_peer_cert B context)) (\<lambda>context.
                and_then (map_err (listen_failed ''failed to create quiche config: '') (q_config B context)) (\<lambda>qc.
                and_then (map_err (listen_failed ''failed to set alpn: '') (q_set_application_protos B [lit ''libp2p''] qc)) (\<lambda>qc.
                  Ok (q_set_limits B quic_limits_used qc)))))))"

section \<open>Constructors\<close>

text \<open>
  A new transport comes with its configuration of \<open>quiche\<close>, which the later calls of \<open>quiche\<close> use; \<open>None\<close> is
  the panic of deriving the peer id.
\<close>

definition quic_new ::
  "'mh multihash_api \<Rightarrow> (bytes \<Rightarrow> bytes) \<Rightarrow> 'd ed25519_api \<Rightarrow> der_api \<Rightarrow> ('sk, 'b, 'cert, 'v, 'r) x509_api \<Rightarrow>
     ('s, 'c, 'x, 'p, 'k) bind_env \<Rightarrow> quic_node_config \<Rightarrow> rstr \<Rightarrow> 'r \<Rightarrow>
     ('r \<times> (transport_error + 'k \<times> ('q, 's, 'mh) quic_transport)) option" where
  "quic_new M H D R X B config bind_addr rng =
     (case and_then (map_err (listen_failed ''failed to bind udp socket: '') (os_bind B bind_addr))
             (\<lambda>socket. map_err (listen_failed ''failed to set nonblocking: '') (os_set_nonblocking B socket)) of
        Inl e \<Rightarrow> Some (rng, Err e)
      | Inr socket \<Rightarrow>
          (case build_quiche_config D R X B config rng of
             (rng, Inl e) \<Rightarrow> Some (rng, Err e)
           | (rng, Inr qc) \<Rightarrow>
               map_option (\<lambda>p. (rng, Ok (qc, quic_transport_new socket p))) (node_config_peer_id M H config)))"

definition DEFAULT_IPV4_BIND :: rstr where
  "DEFAULT_IPV4_BIND = lit ''0.0.0.0:0''"

definition DEFAULT_IPV6_BIND :: rstr where
  "DEFAULT_IPV6_BIND = lit ''[::]:0''"

definition qe_bind ::
  "'mh multihash_api \<Rightarrow> (bytes \<Rightarrow> bytes) \<Rightarrow> 'd ed25519_api \<Rightarrow> der_api \<Rightarrow> ('sk, 'b, 'cert, 'v, 'r) x509_api \<Rightarrow>
     ('s, 'c, 'x, 'p, 'k) bind_env \<Rightarrow> quic_node_config \<Rightarrow> rstr \<Rightarrow> 'r \<Rightarrow>
     ('r \<times> (transport_error + ('q, 's, 'mh) quic_endpoint)) option" where
  "qe_bind M H D R X B config bind_addr rng =
     map_option (\<lambda>(rng, res). (rng, and_then res (\<lambda>(_, t). Ok (Single t)))) (quic_new M H D R X B config bind_addr rng)"

definition qe_bind_multiaddr ::
  "'mh multihash_api \<Rightarrow> (bytes \<Rightarrow> bytes) \<Rightarrow> 'd ed25519_api \<Rightarrow> der_api \<Rightarrow> ('sk, 'b, 'cert, 'v, 'r) x509_api \<Rightarrow>
     ('s, 'c, 'x, 'p, 'k) bind_env \<Rightarrow> quic_node_config \<Rightarrow> 'mh multiaddr \<Rightarrow> 'r \<Rightarrow>
     ('r \<times> (transport_error + ('q, 's, 'mh) quic_endpoint)) option" where
  "qe_bind_multiaddr M H D R X B config addr rng =
     (case extract_listen_socket_addr addr (lit ''bind address'') of
        Inl e \<Rightarrow> Some (rng, Err e)
      | Inr sa \<Rightarrow> qe_bind M H D R X B config (show_socket_addr sa) rng)"

definition dual_new ::
  "'mh multihash_api \<Rightarrow> (bytes \<Rightarrow> bytes) \<Rightarrow> 'd ed25519_api \<Rightarrow> der_api \<Rightarrow> ('sk, 'b, 'cert, 'v, 'r) x509_api \<Rightarrow>
     ('s, 'c, 'x, 'p, 'k) bind_env \<Rightarrow> quic_node_config \<Rightarrow> 'r \<Rightarrow>
     ('r \<times> (transport_error + ('q, 's, 'mh) dual_quic_transport)) option" where
  "dual_new M H D R X B config rng =
     Option.bind (quic_new M H D R X B config DEFAULT_IPV4_BIND rng) (\<lambda>(rng, res).
       case res of
         Inl e \<Rightarrow> Some (rng, Err e)
       | Inr (_, ipv4) \<Rightarrow>
           map_option (\<lambda>(rng, res). (rng, and_then res (\<lambda>(_, ipv6). Ok \<lparr>dq_ipv4 = ipv4, dq_ipv6 = ipv6\<rparr>)))
             (quic_new M H D R X B config DEFAULT_IPV6_BIND rng))"

definition qe_dual_stack ::
  "'mh multihash_api \<Rightarrow> (bytes \<Rightarrow> bytes) \<Rightarrow> 'd ed25519_api \<Rightarrow> der_api \<Rightarrow> ('sk, 'b, 'cert, 'v, 'r) x509_api \<Rightarrow>
     ('s, 'c, 'x, 'p, 'k) bind_env \<Rightarrow> quic_node_config \<Rightarrow> 'r \<Rightarrow>
     ('r \<times> (transport_error + ('q, 's, 'mh) quic_endpoint)) option" where
  "qe_dual_stack M H D R X B config rng =
     map_option (\<lambda>(rng, res). (rng, and_then res (\<lambda>d. Ok (Dual d)))) (dual_new M H D R X B config rng)"

end
