(* ===== verification/Driver.thy ===== *)
theory Driver
  imports SwarmProps MultiaddrText
begin

text \<open>
  The driver of the swarm, \<open>crates/swarm/src/driver.rs\<close>, and its builder, \<open>builder.rs\<close>: it owns a
  transport, feeds what the transport reports to the core, executes the actions of the core on the
  transport, and hands the events to the application.

  The transport is a parameter \<open>T\<close> (an implementation of the trait), and so is the clock: \<open>clk n\<close> is
  what the \<open>n\<close>-th reading gives.  An operation returns \<open>None\<close> when the core panics.
\<close>

record ('t, 'mh) swarm_driver =
  dv_transport :: 't
  dv_core :: "'mh swarm_core"
  dv_local_peer_id :: "'mh peer_id"
  dv_event_buffer :: "'mh swarm_event list"
  dv_readings :: nat

definition driver_new :: "'t \<Rightarrow> identify_config \<Rightarrow> ping_config \<Rightarrow> 'mh peer_id \<Rightarrow> ('t, 'mh) swarm_driver" where
  "driver_new t ic pc p =
     \<lparr>dv_transport = t, dv_core = swarm_new ic pc, dv_local_peer_id = p, dv_event_buffer = [], dv_readings = 0\<rparr>"

definition driver_now :: "(nat \<Rightarrow> u64) \<Rightarrow> ('t, 'mh) swarm_driver \<Rightarrow> u64 \<times> ('t, 'mh) swarm_driver" where
  "driver_now clk d = (clk (dv_readings d), d\<lparr>dv_readings := dv_readings d + 1\<rparr>)"

text \<open>Feeding an input to the core.\<close>

definition to_core ::
  "'mh::linorder multihash_api \<Rightarrow> (bytes \<Rightarrow> bytes) \<Rightarrow> 'mh swarm_input \<Rightarrow> ('t, 'mh) swarm_driver \<Rightarrow>
     ('t, 'mh) swarm_driver option" where
  "to_core M H i d = map_option (\<lambda>s. d\<lparr>dv_core := s\<rparr>) (swarm_handle_input M H i (dv_core d))"

definition runtime_error :: "swarm_error_kind \<Rightarrow> connection_id option \<Rightarrow> rstr \<Rightarrow> 'mh swarm_runtime_error" where
  "runtime_error kind c detail = \<lparr>se_kind = kind, se_peer_id = None, se_conn_id = c, se_detail = detail\<rparr>"

fun swarm_to_transport_error :: "'mh multihash_api \<Rightarrow> 'mh swarm_error \<Rightarrow> transport_error" where
  "swarm_to_transport_error M (SwNotConnected p) =
     TrPollError (lit ''peer '' @ to_base58 M p @ lit '' is not connected'')"
| "swarm_to_transport_error M (SwProtocolNotRegistered pid) =
     TrInvalidConfig (lit ''protocol '' @ quoted pid @ lit '' is not registered; call add_user_protocol first'')"
| "swarm_to_transport_error M (SwRemoteDoesNotSupport p pid) =
     TrPollError (lit ''peer '' @ to_base58 M p @ lit '' does not support protocol '' @ quoted pid)"
| "swarm_to_transport_error M (SwUserStreamNotFound p sid) =
     TrPollError (lit ''user stream '' @ show_stream_id sid @ lit '' for peer '' @ to_base58 M p @ lit '' is not active'')"
| "swarm_to_transport_error M (SwPingError reason) = TrPollError (lit ''ping error: '' @ reason)"
| "swarm_to_transport_error M (SwIdentifyError reason) = TrPollError (lit ''identify error: '' @ reason)"

section \<open>Executing actions\<close>

text \<open>What a failed call of the transport, other than opening a stream, is reported as.\<close>

definition report_failure ::
  "'mh::linorder multihash_api \<Rightarrow> (bytes \<Rightarrow> bytes) \<Rightarrow> connection_id \<Rightarrow> rstr \<Rightarrow> 't \<times> (transport_error + unit) \<Rightarrow>
     ('t, 'mh) swarm_driver \<Rightarrow> ('t, 'mh) swarm_driver option" where
  "report_failure M H c what r d =
     (let d = d\<lparr>dv_transport := fst r\<rparr>
      in case snd r of
           Inl e \<Rightarrow> to_core M H (SiRuntimeError (runtime_error SkTransport (Some c)
             (what @ lit '' failed: '' @ show_transport_error e))) d
         | Inr _ \<Rightarrow> Some d)"

text \<open>The result carries the stream id that \<open>captured_stream_id\<close> holds afterwards.\<close>

fun dispatch_action ::
  "'mh::linorder multihash_api \<Rightarrow> (bytes \<Rightarrow> bytes) \<Rightarrow> ('t, 'mh) transport \<Rightarrow> (nat \<Rightarrow> u64) \<Rightarrow> swarm_action \<Rightarrow>
     stream_id option \<Rightarrow> ('t, 'mh) swarm_driver \<Rightarrow> (('t, 'mh) swarm_driver \<times> stream_id option) option" where
  "dispatch_action M H T clk (SaOpenStream c token) captured d =
     (case tr_open_stream T c (dv_transport d) of
        (t, Inr sid) \<Rightarrow>
          let (now_ms, d) = driver_now clk (d\<lparr>dv_transport := t\<rparr>)
          in map_option (\<lambda>d. (d, Some sid)) (to_core M H (SiStreamOpened c sid token now_ms) d)
      | (t, Inl e) \<Rightarrow>
          let (now_ms, d) = driver_now clk (d\<lparr>dv_transport := t\<rparr>)
          in map_option (\<lambda>d. (d, captured)) (to_core M H (SiOpenStreamFailed token (show_transport_error e) now_ms) d))"
| "dispatch_action M H T clk (SaSendStream c sid data) captured d =
     map_option (\<lambda>d. (d, captured))
       (report_failure M H c (lit ''send_stream to connection '' @ show_connection_id c @ lit '' stream '' @
          show_stream_id sid) (tr_send_stream T c sid data (dv_transport d)) d)"
| "dispatch_action M H T clk (SaCloseStreamWrite c sid) captured d =
     map_option (\<lambda>d. (d, captured))
       (report_failure M H c (lit ''close_stream_write on connection '' @ show_connection_id c @ lit '' stream '' @
          show_stream_id sid) (tr_close_stream_write T c sid (dv_transport d)) d)"
| "dispatch_action M H T clk (SaResetStream c sid) captured d =
     map_option (\<lambda>d. (d, captured))
       (report_failure M H c (lit ''reset_stream on connection '' @ show_connection_id c @ lit '' stream '' @
          show_stream_id sid) (tr_reset_stream T c sid (dv_transport d)) d)"
| "dispatch_action M H T clk (SaCloseConnection c) captured d =
     map_option (\<lambda>d. (d, captured))
       (report_failure M H c (lit ''close on connection '' @ show_connection_id c) (tr_close T c (dv_transport d)) d)"

text \<open>
  The loop over the outputs of the core, which executing an action may add to.  Each output takes more
  from the supply than it can add: a stream that is opened makes the core send one header, a call that
  fails makes it report one error.
\<close>

fun action_weight :: "swarm_action \<Rightarrow> nat" where
  "action_weight (SaOpenStream _ _) = 4"
| "action_weight _ = 2"

definition core_weight :: "'mh swarm_core \<Rightarrow> nat" where
  "core_weight s = (\<Sum>a \<leftarrow> sw_actions s. action_weight a) + length (sw_events s)"

lemma core_weight_push [simp]:
  "core_weight (sw_push_event e s) = core_weight s + 1" "core_weight (sw_push_action a s) = core_weight s + action_weight a"
  "core_weight (emit_error k p c m s) = core_weight s + 1"
  by (simp_all add: core_weight_def sw_push_defs)

lemma core_weight_frame [simp]:
  "core_weight (s\<lparr>pending_opens := po\<rparr>) = core_weight s" "core_weight (put_outbound key n tg s) = core_weight s"
  by (simp_all add: core_weight_def put_outbound_def)

lemma core_weight_feedback:
  "swarm_handle_input M H (SiStreamOpened c sid token now_ms) s = Some t \<Longrightarrow> core_weight t \<le> core_weight s + 2"
  "swarm_handle_input M H (SiOpenStreamFailed token reason now_ms) s = Some t \<Longrightarrow> core_weight t = core_weight s + 1"
  "swarm_handle_input M H (SiRuntimeError error) s = Some t \<Longrightarrow> core_weight t = core_weight s + 1"
proof -
  assume h: "swarm_handle_input M H (SiStreamOpened c sid token now_ms) s = Some t"
  show "core_weight t \<le> core_weight s + 2"
  proof (cases "bm_get (pending_opens s) token")
    case (Some po)
    then show ?thesis
      using h handle_stream_opened_eq [of s token c "pn_protocol po" "pn_target po" sid]
      by (cases "pn_conn_id po = c"; cases po) (auto simp: handle_stream_opened_def Let_def)
  qed (use h in \<open>auto simp: handle_stream_opened_def\<close>)
qed (auto simp: handle_open_stream_failed_def record_runtime_error_def Let_def split: option.splits)

lemma dispatch_action_weight:
  assumes "dispatch_action M H T clk a captured d = Some (d', captured')"
  shows "core_weight (dv_core d') < core_weight (dv_core d) + action_weight a"
proof (cases a)
  case (SaOpenStream c token)
  then show ?thesis
    using assms core_weight_feedback(1) [of M H c _ token _ "dv_core d"]
      core_weight_feedback(2) [of M H token _ _ "dv_core d"]
    by (fastforce simp: driver_now_def to_core_def Let_def split: prod.splits sum.splits)
qed (use assms core_weight_feedback(3) [of M H _ "dv_core d"] in
  \<open>fastforce simp: report_failure_def to_core_def Let_def split: sum.splits\<close>)+

lemma swarm_poll_output_weight:
  "swarm_poll_output s = (Some (SwarmAction a), s') \<Longrightarrow> core_weight s = core_weight s' + action_weight a"
  "swarm_poll_output s = (Some (SwarmEvent e), s') \<Longrightarrow> core_weight s = core_weight s' + 1"
  by (auto simp: swarm_poll_output_def core_weight_def split: list.splits)

function driver_loop ::
  "'mh::linorder multihash_api \<Rightarrow> (bytes \<Rightarrow> bytes) \<Rightarrow> ('t, 'mh) transport \<Rightarrow> (nat \<Rightarrow> u64) \<Rightarrow> stream_id option \<Rightarrow>
     'mh swarm_event list \<Rightarrow> ('t, 'mh) swarm_driver \<Rightarrow>
     (('t, 'mh) swarm_driver \<times> stream_id option \<times> 'mh swarm_event list) option" where
  "driver_loop M H T clk captured events d =
     (case swarm_poll_output (dv_core d) of
        (None, s) \<Rightarrow> Some (d\<lparr>dv_core := s\<rparr>, captured, events)
      | (Some (SwarmAction a), s) \<Rightarrow>
          Option.bind (dispatch_action M H T clk a captured (d\<lparr>dv_core := s\<rparr>))
            (\<lambda>r. driver_loop M H T clk (snd r) events (fst r))
      | (Some (SwarmEvent e), s) \<Rightarrow> driver_loop M H T clk captured (events @ [e]) (d\<lparr>dv_core := s\<rparr>))"
  by pat_completeness auto
termination
proof (relation "measure (\<lambda>(M, H, T, clk, captured, events, d). core_weight (dv_core d))", goal_cases)
  case (2 M H T clk captured events d x s a b r)
  obtain d' cap where r: "r = (d', cap)" by (cases r)
  have "swarm_poll_output (dv_core d) = (Some (SwarmAction b), s)" using 2 by simp
  from swarm_poll_output_weight(1) [OF this] show ?case
    using 2 r dispatch_action_weight [of M H T clk b captured "d\<lparr>dv_core := s\<rparr>" d' cap] by simp
next
  case (3 M H T clk captured events d x s a b)
  have "swarm_poll_output (dv_core d) = (Some (SwarmEvent b), s)" using 3 by simp
  from swarm_poll_output_weight(2) [OF this] show ?case by simp
qed simp

declare driver_loop.simps [simp del]

text \<open>Events met while flushing wait in the buffer of the driver.\<close>

definition flush_actions ::
  "'mh::linorder multihash_api \<Rightarrow> (bytes \<Rightarrow> bytes) \<Rightarrow> ('t, 'mh) transport \<Rightarrow> (nat \<Rightarrow> u64) \<Rightarrow>
     ('t, 'mh) swarm_driver \<Rightarrow> ('t, 'mh) swarm_driver option" where
  "flush_actions M H T clk d = do {
     (d, _, events) \<leftarrow> driver_loop M H T clk None [] d;
     Some (d\<lparr>dv_event_buffer := dv_event_buffer d @ events\<rparr>)
   }"

section \<open>Requests of the application\<close>

definition driver_request ::
  "'mh::linorder multihash_api \<Rightarrow> (bytes \<Rightarrow> bytes) \<Rightarrow> ('t, 'mh) transport \<Rightarrow> (nat \<Rightarrow> u64) \<Rightarrow> 'mh swarm_request \<Rightarrow>
     ('t, 'mh) swarm_driver \<Rightarrow> (('t, 'mh) swarm_driver \<times> (transport_error + unit)) option" where
  "driver_request M H T clk req d = do {
     (s, res) \<leftarrow> serve_request M req (dv_core d);
     (case res of
        Inl e \<Rightarrow> Some (d\<lparr>dv_core := s\<rparr>, Err (swarm_to_transport_error M e))
      | Inr _ \<Rightarrow> map_option (\<lambda>d. (d, Ok ())) (flush_actions M H T clk (d\<lparr>dv_core := s\<rparr>)))
   }"

text \<open>
  The payload of a ping: \<open>entropy\<close> is what the random source of the system filled in, \<open>None\<close> when it is
  not available, and \<open>seed\<close> the time in nanoseconds.
\<close>

definition rand_ping_payload :: "bytes option \<Rightarrow> u64 \<Rightarrow> bytes" where
  "rand_ping_payload entropy seed =
     (case entropy of
        Some payload \<Rightarrow> payload
      | None \<Rightarrow> map (\<lambda>i. xor (ucast (drop_bit (i mod 8) seed)) (of_nat i)) [0..<PING_PAYLOAD_LEN])"

definition driver_ping ::
  "'mh::linorder multihash_api \<Rightarrow> (bytes \<Rightarrow> bytes) \<Rightarrow> ('t, 'mh) transport \<Rightarrow> (nat \<Rightarrow> u64) \<Rightarrow> bytes option \<Rightarrow> u64 \<Rightarrow>
     'mh peer_id \<Rightarrow> ('t, 'mh) swarm_driver \<Rightarrow> (('t, 'mh) swarm_driver \<times> (transport_error + unit)) option" where
  "driver_ping M H T clk entropy seed p d =
     (let (now_ms, d) = driver_now clk d
      in driver_request M H T clk (RqPing p (rand_ping_payload entropy seed) now_ms) d)"

definition driver_disconnect ::
  "'mh::linorder multihash_api \<Rightarrow> (bytes \<Rightarrow> bytes) \<Rightarrow> ('t, 'mh) transport \<Rightarrow> (nat \<Rightarrow> u64) \<Rightarrow> 'mh peer_id \<Rightarrow>
     ('t, 'mh) swarm_driver \<Rightarrow> (('t, 'mh) swarm_driver \<times> (transport_error + unit)) option" where
  "driver_disconnect M H T clk p = driver_request M H T clk (RqDisconnect p)"

definition driver_send_user_stream ::
  "'mh::linorder multihash_api \<Rightarrow> (bytes \<Rightarrow> bytes) \<Rightarrow> ('t, 'mh) transport \<Rightarrow> (nat \<Rightarrow> u64) \<Rightarrow> 'mh peer_id \<Rightarrow> stream_id \<Rightarrow>
     bytes \<Rightarrow> ('t, 'mh) swarm_driver \<Rightarrow> (('t, 'mh) swarm_driver \<times> (transport_error + unit)) option" where
  "driver_send_user_stream M H T clk p sid data = driver_request M H T clk (RqSendUserStream p sid data)"

definition driver_close_user_stream_write ::
  "'mh::linorder multihash_api \<Rightarrow> (bytes \<Rightarrow> bytes) \<Rightarrow> ('t, 'mh) transport \<Rightarrow> (nat \<Rightarrow> u64) \<Rightarrow> 'mh peer_id \<Rightarrow> stream_id \<Rightarrow>
     ('t, 'mh) swarm_driver \<Rightarrow> (('t, 'mh) swarm_driver \<times> (transport_error + unit)) option" where
  "driver_close_user_stream_write M H T clk p sid = driver_request M H T clk (RqCloseUserStreamWrite p sid)"

definition driver_reset_user_stream ::
  "'mh::linorder multihash_api \<Rightarrow> (bytes \<Rightarrow> bytes) \<Rightarrow> ('t, 'mh) transport \<Rightarrow> (nat \<Rightarrow> u64) \<Rightarrow> 'mh peer_id \<Rightarrow> stream_id \<Rightarrow>
     ('t, 'mh) swarm_driver \<Rightarrow> (('t, 'mh) swarm_driver \<times> (transport_error + unit)) option" where
  "driver_reset_user_stream M H T clk p sid = driver_request M H T clk (RqResetUserStream p sid)"

definition driver_open_user_stream ::
  "'mh::linorder multihash_api \<Rightarrow> (bytes \<Rightarrow> bytes) \<Rightarrow> ('t, 'mh) transport \<Rightarrow> (nat \<Rightarrow> u64) \<Rightarrow> 'mh peer_id \<Rightarrow> rstr \<Rightarrow>
     ('t, 'mh) swarm_driver \<Rightarrow> (('t, 'mh) swarm_driver \<times> (transport_error + stream_id)) option" where
  "driver_open_user_stream M H T clk p pid d = do {
     (s, res) \<leftarrow> open_user_stream p pid (dv_core d);
     (case res of
        Inl e \<Rightarrow> Some (d\<lparr>dv_core := s\<rparr>, Err (swarm_to_transport_error M e))
      | Inr _ \<Rightarrow> do {
          (d, allocated_stream, events) \<leftarrow> driver_loop M H T clk None [] (d\<lparr>dv_core := s\<rparr>);
          d \<leftarrow> flush_actions M H T clk (d\<lparr>dv_event_buffer := dv_event_buffer d @ events\<rparr>);
          Some (d, ok_or (TrPollError (lit ''core did not allocate a stream id for open_user_stream'')) allocated_stream)
        })
   }"

definition driver_add_user_protocol :: "rstr \<Rightarrow> ('t, 'mh) swarm_driver \<Rightarrow> ('t, 'mh) swarm_driver" where
  "driver_add_user_protocol pid d = d\<lparr>dv_core := add_user_protocol pid (dv_core d)\<rparr>"

definition driver_connected_peers :: "('t, 'mh) swarm_driver \<Rightarrow> 'mh peer_id list" where
  "driver_connected_peers d = connected_peers (dv_core d)"

definition driver_peer_info :: "'mh peer_id \<Rightarrow> ('t, 'mh) swarm_driver \<Rightarrow> identify_message option" where
  "driver_peer_info p d = swarm_peer_info p (dv_core d)"

definition driver_is_peer_ready :: "'mh peer_id \<Rightarrow> ('t, 'mh) swarm_driver \<Rightarrow> bool" where
  "driver_is_peer_ready p d = is_peer_ready p (dv_core d)"

section \<open>Listening and dialing\<close>

definition driver_listen ::
  "('t, 'mh) transport \<Rightarrow> 'mh multiaddr \<Rightarrow> ('t, 'mh) swarm_driver \<Rightarrow>
     ('t, 'mh) swarm_driver \<times> (transport_error + 'mh multiaddr)" where
  "driver_listen T addr d =
     (let (t, res) = tr_listen T addr (dv_transport d) in (d\<lparr>dv_transport := t\<rparr>, res))"

definition local_peer_addr :: "'mh multiaddr \<Rightarrow> ('t, 'mh) swarm_driver \<Rightarrow> transport_error + 'mh peer_addr" where
  "local_peer_addr addr d =
     map_err (\<lambda>e. TrInvalidConfig (lit ''failed to build local PeerAddr: '' @ show_peer_addr_error e))
       (peer_addr_new addr (dv_local_peer_id d))"

fun listen_addrs_loop ::
  "('t, 'mh) transport \<Rightarrow> 'mh multiaddr list \<Rightarrow> 'mh peer_addr list \<Rightarrow> ('t, 'mh) swarm_driver \<Rightarrow>
     ('t, 'mh) swarm_driver \<times> (transport_error + 'mh peer_addr list)" where
  "listen_addrs_loop T [] resolved d = (d, Ok resolved)"
| "listen_addrs_loop T (addr # addrs) resolved d =
     (case driver_listen T addr d of
        (d, Inl e) \<Rightarrow> (d, Err e)
      | (d, Inr addr) \<Rightarrow>
          (case local_peer_addr addr d of
             Inl e \<Rightarrow> (d, Err e)
           | Inr peer_addr \<Rightarrow> listen_addrs_loop T addrs (resolved @ [peer_addr]) d))"

definition no_bound_address :: transport_error where
  "no_bound_address = TrInvalidConfig (lit ''transport does not expose a bound local address'')"

definition listen_on_bound_addrs ::
  "('t, 'mh) transport \<Rightarrow> ('t, 'mh) swarm_driver \<Rightarrow> ('t, 'mh) swarm_driver \<times> (transport_error + 'mh peer_addr list)" where
  "listen_on_bound_addrs T d =
     (let addrs = tr_local_addresses T (dv_transport d)
      in if addrs = [] then (d, Err no_bound_address) else listen_addrs_loop T addrs [] d)"

definition listen_on_bound_addr ::
  "('t, 'mh) transport \<Rightarrow> ('t, 'mh) swarm_driver \<Rightarrow> ('t, 'mh) swarm_driver \<times> (transport_error + 'mh peer_addr)" where
  "listen_on_bound_addr T d =
     (case tr_local_addresses T (dv_transport d) of
        [] \<Rightarrow> (d, Err no_bound_address)
      | addr # _ \<Rightarrow>
          (case driver_listen T addr d of
             (d, Inl e) \<Rightarrow> (d, Err e)
           | (d, Inr addr) \<Rightarrow> (d, local_peer_addr addr d)))"

definition driver_dial ::
  "('t, 'mh) transport \<Rightarrow> 'mh peer_addr \<Rightarrow> ('t, 'mh) swarm_driver \<Rightarrow>
     ('t, 'mh) swarm_driver \<times> (transport_error + connection_id)" where
  "driver_dial T addr d =
     (case tr_dial T addr (dv_transport d) of
        (t, Inl e) \<Rightarrow> (d\<lparr>dv_transport := t\<rparr>, Err e)
      | (t, Inr c) \<Rightarrow> (d\<lparr>dv_transport := t, dv_core := on_dialed c (dv_core d)\<rparr>, Ok c))"

section \<open>Polling\<close>

fun feed_events ::
  "'mh::linorder multihash_api \<Rightarrow> (bytes \<Rightarrow> bytes) \<Rightarrow> u64 \<Rightarrow> 'mh transport_event list \<Rightarrow> ('t, 'mh) swarm_driver \<Rightarrow>
     ('t, 'mh) swarm_driver option" where
  "feed_events M H now_ms [] d = Some d"
| "feed_events M H now_ms (event # events) d =
     Option.bind (to_core M H (SiTransport event now_ms) d) (feed_events M H now_ms events)"

definition driver_poll ::
  "'mh::linorder multihash_api \<Rightarrow> (bytes \<Rightarrow> bytes) \<Rightarrow> ('t, 'mh) transport \<Rightarrow> (nat \<Rightarrow> u64) \<Rightarrow> ('t, 'mh) swarm_driver \<Rightarrow>
     (('t, 'mh) swarm_driver \<times> (transport_error + 'mh swarm_event list)) option" where
  "driver_poll M H T clk d =
     (let (now_ms, d) = driver_now clk d;
          d = d\<lparr>dv_core := set_local_addresses (tr_local_addresses T (dv_transport d)) (dv_core d)\<rparr>
      in case tr_poll T (dv_transport d) of
           (t, Inl e) \<Rightarrow> Some (d\<lparr>dv_transport := t\<rparr>, Err e)
         | (t, Inr events) \<Rightarrow> do {
             d \<leftarrow> feed_events M H now_ms events (d\<lparr>dv_transport := t\<rparr>);
             d \<leftarrow> to_core M H (SiTick now_ms) d;
             d \<leftarrow> flush_actions M H T clk d;
             (d, _, events) \<leftarrow> driver_loop M H T clk None (dv_event_buffer d) (d\<lparr>dv_event_buffer := []\<rparr>);
             Some (d, Ok events)
           })"

text \<open>
  \<open>late n\<close> tells whether the \<open>n\<close>-th reading of the time is at or after the deadline.  A loop that does
  not end has the value \<open>None\<close>.
\<close>

partial_function (option) poll_next ::
  "'mh::linorder multihash_api \<Rightarrow> (bytes \<Rightarrow> bytes) \<Rightarrow> ('t, 'mh) transport \<Rightarrow> (nat \<Rightarrow> u64) \<Rightarrow> (nat \<Rightarrow> bool) \<Rightarrow>
     ('t, 'mh) swarm_driver \<Rightarrow> (('t, 'mh) swarm_driver \<times> (transport_error + 'mh swarm_event option)) option" where
  "poll_next M H T clk late d =
     (case dv_event_buffer d of
        ev # evs \<Rightarrow> Some (d\<lparr>dv_event_buffer := evs\<rparr>, Ok (Some ev))
      | [] \<Rightarrow>
          Option.bind (driver_poll M H T clk d) (\<lambda>(d, res).
            case res of
              Inl e \<Rightarrow> Some (d, Err e)
            | Inr events \<Rightarrow>
                (case dv_event_buffer d @ events of
                   ev # evs \<Rightarrow> Some (d\<lparr>dv_event_buffer := evs\<rparr>, Ok (Some ev))
                 | [] \<Rightarrow>
                     let expired = late (dv_readings d);
                         d = d\<lparr>dv_readings := dv_readings d + 1\<rparr>
                     in if expired then Some (d, Ok None) else poll_next M H T clk late d)))"

text \<open>The predicate is a closure: it may change its own state \<open>st\<close>.\<close>

partial_function (option) run_until ::
  "'mh::linorder multihash_api \<Rightarrow> (bytes \<Rightarrow> bytes) \<Rightarrow> ('t, 'mh) transport \<Rightarrow> (nat \<Rightarrow> u64) \<Rightarrow> (nat \<Rightarrow> bool) \<Rightarrow>
     ('mh swarm_event \<Rightarrow> 'st \<Rightarrow> bool \<times> 'st) \<Rightarrow> 'st \<Rightarrow> ('t, 'mh) swarm_driver \<Rightarrow>
     (('t, 'mh) swarm_driver \<times> 'st \<times> (transport_error + 'mh swarm_event option)) option" where
  "run_until M H T clk late predicate st d =
     Option.bind (poll_next M H T clk late d) (\<lambda>(d, res).
       case res of
         Inl e \<Rightarrow> Some (d, st, Err e)
       | Inr None \<Rightarrow> Some (d, st, Ok None)
       | Inr (Some ev) \<Rightarrow>
           (case predicate ev st of
              (stop, st) \<Rightarrow>
                if stop then Some (d, st, Ok (Some ev)) else run_until M H T clk late predicate st d))"

section \<open>The builder\<close>

record 'mh swarm_builder =
  sb_protocol_version :: rstr
  sb_agent_version :: rstr
  sb_protocols :: "rstr list"
  sb_public_key :: bytes
  sb_local_peer_id :: "'mh peer_id"
  sb_ping_config :: ping_config

definition DEFAULT_PROTOCOL_VERSION :: rstr where
  "DEFAULT_PROTOCOL_VERSION = lit ''minip2p/0.1.0''"

definition DEFAULT_AGENT_VERSION :: rstr where
  "DEFAULT_AGENT_VERSION = lit ''minip2p/0.1.0''"

text \<open>A keypair contributes its public key, and the peer id derived from it.\<close>

definition builder_new :: "'mh multihash_api \<Rightarrow> (bytes \<Rightarrow> bytes) \<Rightarrow> bytes \<Rightarrow> 'mh swarm_builder option" where
  "builder_new M H public_key_bytes =
     (let key = \<lparr>key_type = Ed25519, key_data = public_key_bytes\<rparr>
      in map_option (\<lambda>p.
           \<lparr>sb_protocol_version = DEFAULT_PROTOCOL_VERSION, sb_agent_version = DEFAULT_AGENT_VERSION,
            sb_protocols = [IDENTIFY_PROTOCOL_ID, PING_PROTOCOL_ID], sb_public_key = encode_protobuf key,
            sb_local_peer_id = p, sb_ping_config = \<lparr>request_timeout_ms = 10000\<rparr>\<rparr>) (from_public_key M H key))"

definition builder_protocol_version :: "rstr \<Rightarrow> 'mh swarm_builder \<Rightarrow> 'mh swarm_builder" where
  "builder_protocol_version v b = b\<lparr>sb_protocol_version := v\<rparr>"

definition builder_agent_version :: "rstr \<Rightarrow> 'mh swarm_builder \<Rightarrow> 'mh swarm_builder" where
  "builder_agent_version v b = b\<lparr>sb_agent_version := v\<rparr>"

definition advertise_protocol :: "rstr \<Rightarrow> 'mh swarm_builder \<Rightarrow> 'mh swarm_builder" where
  "advertise_protocol pid b =
     (if \<not> list_ex (\<lambda>p. p = pid) (sb_protocols b) then b\<lparr>sb_protocols := sb_protocols b @ [pid]\<rparr> else b)"

definition builder_ping_config :: "ping_config \<Rightarrow> 'mh swarm_builder \<Rightarrow> 'mh swarm_builder" where
  "builder_ping_config config b = b\<lparr>sb_ping_config := config\<rparr>"

definition into_identify_config :: "'mh swarm_builder \<Rightarrow> identify_config" where
  "into_identify_config b =
     \<lparr>ic_protocol_version = sb_protocol_version b, ic_agent_version = sb_agent_version b,
      ic_protocols = sb_protocols b, ic_public_key = sb_public_key b\<rparr>"

definition builder_build :: "'t \<Rightarrow> 'mh swarm_builder \<Rightarrow> ('t, 'mh) swarm_driver" where
  "builder_build t b = driver_new t (into_identify_config b) (sb_ping_config b) (sb_local_peer_id b)"

end
