(* ===== verification/Facade.thy ===== *)
theory Facade
  imports QuicNew Driver
begin

text \<open>
  The facade \<open>crates/minip2p/src/lib.rs\<close>: an \<open>Endpoint\<close> is the driver of the swarm over a QUIC endpoint, whose
  peers are verified as \<open>tls\<close> does.
\<close>

type_synonym ('q, 's, 'mh) endpoint = "(('q, 's, 'mh) quic_endpoint, 'mh) swarm_driver"

text \<open>The QUIC transport calls the verification of certificates of \<open>tls\<close>.\<close>

definition tls_env ::
  "'mh multihash_api \<Rightarrow> (bytes \<Rightarrow> bytes) \<Rightarrow> 'd ed25519_api \<Rightarrow> der_api \<Rightarrow> ('sk, 'b, 'cert, 'v, 'r) x509_api \<Rightarrow>
     ('q, 's, 'mh) quic_env \<Rightarrow> ('q, 's, 'mh) quic_env" where
  "tls_env M H D R X E =
     E\<lparr>verify_certificate := (\<lambda>cert. map_err show_tls_error (the (verify_libp2p_certificate M H D R X cert)))\<rparr>"

section \<open>Operations\<close>

definition facade_peer_id :: "('q, 's, 'mh) endpoint \<Rightarrow> 'mh peer_id" where
  "facade_peer_id d = dv_local_peer_id d"

definition facade_listen ::
  "'mh multihash_api \<Rightarrow> ('q, 's, 'mh) quic_env \<Rightarrow> ('q, 's, 'mh) endpoint \<Rightarrow>
     ('q, 's, 'mh) endpoint \<times> (transport_error + 'mh peer_addr)" where
  "facade_listen M E d = listen_on_bound_addr (quic_endpoint_transport M E) d"

definition facade_listen_all ::
  "'mh multihash_api \<Rightarrow> ('q, 's, 'mh) quic_env \<Rightarrow> ('q, 's, 'mh) endpoint \<Rightarrow>
     ('q, 's, 'mh) endpoint \<times> (transport_error + 'mh peer_addr list)" where
  "facade_listen_all M E d = listen_on_bound_addrs (quic_endpoint_transport M E) d"

text \<open>Dialing goes to the QUIC endpoint; the swarm learns the connection ids.\<close>

definition facade_dial ::
  "('q, 's, 'mh) quic_env \<Rightarrow> 'mh peer_addr \<Rightarrow> ('q, 's, 'mh) endpoint \<Rightarrow>
     ('q, 's, 'mh) endpoint \<times> (transport_error + connection_id list)" where
  "facade_dial E addr d =
     (case returned (qe_dial_all E addr) (dv_transport d) of
        (t, Inl e) \<Rightarrow> (d\<lparr>dv_transport := t\<rparr>, Err e)
      | (t, Inr ids) \<Rightarrow> (d\<lparr>dv_transport := t, dv_core := fold on_dialed ids (dv_core d)\<rparr>, Ok ids))"

definition facade_dial_one ::
  "(('q, 's, 'mh) quic_endpoint, connection_id) io \<Rightarrow> ('q, 's, 'mh) endpoint \<Rightarrow>
     ('q, 's, 'mh) endpoint \<times> (transport_error + connection_id)" where
  "facade_dial_one m d =
     (case returned m (dv_transport d) of
        (t, Inl e) \<Rightarrow> (d\<lparr>dv_transport := t\<rparr>, Err e)
      | (t, Inr c) \<Rightarrow> (d\<lparr>dv_transport := t, dv_core := on_dialed c (dv_core d)\<rparr>, Ok c))"

definition facade_dial_ip4 ::
  "('q, 's, 'mh) quic_env \<Rightarrow> 'mh peer_addr \<Rightarrow> ('q, 's, 'mh) endpoint \<Rightarrow>
     ('q, 's, 'mh) endpoint \<times> (transport_error + connection_id)" where
  "facade_dial_ip4 E addr = facade_dial_one (qe_dial_ip4 E addr)"

definition facade_dial_ip6 ::
  "('q, 's, 'mh) quic_env \<Rightarrow> 'mh peer_addr \<Rightarrow> ('q, 's, 'mh) endpoint \<Rightarrow>
     ('q, 's, 'mh) endpoint \<times> (transport_error + connection_id)" where
  "facade_dial_ip6 E addr = facade_dial_one (qe_dial_ip6 E addr)"

definition facade_ping ::
  "'mh::linorder multihash_api \<Rightarrow> (bytes \<Rightarrow> bytes) \<Rightarrow> ('q, 's, 'mh) quic_env \<Rightarrow> (nat \<Rightarrow> u64) \<Rightarrow> bytes option \<Rightarrow> u64 \<Rightarrow>
     'mh peer_id \<Rightarrow> ('q, 's, 'mh) endpoint \<Rightarrow> (('q, 's, 'mh) endpoint \<times> (transport_error + unit)) option" where
  "facade_ping M H E clk entropy seed p = driver_ping M H (quic_endpoint_transport M E) clk entropy seed p"

definition facade_poll ::
  "'mh::linorder multihash_api \<Rightarrow> (bytes \<Rightarrow> bytes) \<Rightarrow> ('q, 's, 'mh) quic_env \<Rightarrow> (nat \<Rightarrow> u64) \<Rightarrow>
     ('q, 's, 'mh) endpoint \<Rightarrow> (('q, 's, 'mh) endpoint \<times> (transport_error + 'mh swarm_event list)) option" where
  "facade_poll M H E clk = driver_poll M H (quic_endpoint_transport M E) clk"

definition next_event ::
  "'mh::linorder multihash_api \<Rightarrow> (bytes \<Rightarrow> bytes) \<Rightarrow> ('q, 's, 'mh) quic_env \<Rightarrow> (nat \<Rightarrow> u64) \<Rightarrow> (nat \<Rightarrow> bool) \<Rightarrow>
     ('q, 's, 'mh) endpoint \<Rightarrow> (('q, 's, 'mh) endpoint \<times> (transport_error + 'mh swarm_event option)) option" where
  "next_event M H E clk late = poll_next M H (quic_endpoint_transport M E) clk late"

text \<open>Waiting for one kind of event of a peer; the predicate has no state.\<close>

definition wait_for ::
  "'mh::linorder multihash_api \<Rightarrow> (bytes \<Rightarrow> bytes) \<Rightarrow> ('q, 's, 'mh) quic_env \<Rightarrow> (nat \<Rightarrow> u64) \<Rightarrow> (nat \<Rightarrow> bool) \<Rightarrow>
     ('mh swarm_event \<Rightarrow> bool) \<Rightarrow> ('q, 's, 'mh) endpoint \<Rightarrow>
     (('q, 's, 'mh) endpoint \<times> (transport_error + 'mh swarm_event option)) option" where
  "wait_for M H E clk late wanted d =
     map_option (\<lambda>(d, _, res). (d, res))
       (run_until M H (quic_endpoint_transport M E) clk late (\<lambda>event st. (wanted event, st)) () d)"

fun is_ready_event :: "'mh peer_id \<Rightarrow> 'mh swarm_event \<Rightarrow> bool" where
  "is_ready_event p (SwPeerReady q _) = (q = p)"
| "is_ready_event p _ = False"

definition wait_peer_ready ::
  "'mh::linorder multihash_api \<Rightarrow> (bytes \<Rightarrow> bytes) \<Rightarrow> ('q, 's, 'mh) quic_env \<Rightarrow> (nat \<Rightarrow> u64) \<Rightarrow> (nat \<Rightarrow> bool) \<Rightarrow>
     'mh peer_id \<Rightarrow> ('q, 's, 'mh) endpoint \<Rightarrow>
     (('q, 's, 'mh) endpoint \<times> (transport_error + 'mh swarm_event option)) option" where
  "wait_peer_ready M H E clk late p = wait_for M H E clk late (is_ready_event p)"

fun is_rtt_event :: "'mh peer_id \<Rightarrow> 'mh swarm_event \<Rightarrow> bool" where
  "is_rtt_event p (SwPingRttMeasured q _) = (q = p)"
| "is_rtt_event p _ = False"

fun rtt_of_event :: "'mh swarm_event option \<Rightarrow> u64 option" where
  "rtt_of_event (Some (SwPingRttMeasured _ rtt_ms)) = Some rtt_ms"
| "rtt_of_event _ = None"

definition wait_ping_rtt ::
  "'mh::linorder multihash_api \<Rightarrow> (bytes \<Rightarrow> bytes) \<Rightarrow> ('q, 's, 'mh) quic_env \<Rightarrow> (nat \<Rightarrow> u64) \<Rightarrow> (nat \<Rightarrow> bool) \<Rightarrow>
     'mh peer_id \<Rightarrow> ('q, 's, 'mh) endpoint \<Rightarrow>
     (('q, 's, 'mh) endpoint \<times> (transport_error + u64 option)) option" where
  "wait_ping_rtt M H E clk late p d =
     map_option (\<lambda>(d, res). (d, and_then res (\<lambda>event. Ok (rtt_of_event event))))
       (wait_for M H E clk late (is_rtt_event p) d)"

section \<open>Building an endpoint\<close>

record endpoint_builder =
  eb_keypair :: "ed25519_keypair option"
  eb_agent_version :: rstr

definition FACADE_AGENT_VERSION :: rstr where
  "FACADE_AGENT_VERSION = lit ''minip2p/0.1.0''"

definition endpoint_builder_default :: endpoint_builder where
  "endpoint_builder_default = \<lparr>eb_keypair = None, eb_agent_version = FACADE_AGENT_VERSION\<rparr>"

definition eb_identity :: "ed25519_keypair \<Rightarrow> endpoint_builder \<Rightarrow> endpoint_builder" where
  "eb_identity keypair b = b\<lparr>eb_keypair := Some keypair\<rparr>"

definition eb_set_agent_version :: "rstr \<Rightarrow> endpoint_builder \<Rightarrow> endpoint_builder" where
  "eb_set_agent_version v b = b\<lparr>eb_agent_version := v\<rparr>"

text \<open>A key pair is generated only when the builder was given none.\<close>

definition into_parts :: "'d ed25519_api \<Rightarrow> 'd \<Rightarrow> endpoint_builder \<Rightarrow> 'd \<times> ed25519_keypair \<times> rstr" where
  "into_parts D rng b =
     (case eb_keypair b of
        Some keypair \<Rightarrow> (rng, keypair, eb_agent_version b)
      | None \<Rightarrow> (case generate_with_rng D rng of (rng, keypair) \<Rightarrow> (rng, keypair, eb_agent_version b)))"

definition build_endpoint ::
  "'mh multihash_api \<Rightarrow> (bytes \<Rightarrow> bytes) \<Rightarrow> ed25519_keypair \<Rightarrow> rstr \<Rightarrow> ('q, 's, 'mh) quic_endpoint \<Rightarrow>
     ('q, 's, 'mh) endpoint option" where
  "build_endpoint M H keypair agent_version t =
     map_option (\<lambda>b. builder_build t (builder_agent_version agent_version b)) (builder_new M H (public_key_raw keypair))"

text \<open>
  The three ways to bind differ in the call that makes the transport, \<open>mk\<close>; it gets the key pair and the random
  numbers for the certificate.
\<close>

definition bind_with ::
  "'mh multihash_api \<Rightarrow> (bytes \<Rightarrow> bytes) \<Rightarrow> 'd ed25519_api \<Rightarrow>
     (quic_node_config \<Rightarrow> 'r \<Rightarrow> ('r \<times> (transport_error + ('q, 's, 'mh) quic_endpoint)) option) \<Rightarrow>
     endpoint_builder \<Rightarrow> 'd \<times> 'r \<Rightarrow> (('d \<times> 'r) \<times> (transport_error + ('q, 's, 'mh) endpoint)) option" where
  "bind_with M H D mk b rngs =
     (case into_parts D (fst rngs) b of
        (rng, keypair, agent_version) \<Rightarrow>
          Option.bind (mk (node_config_new keypair) (snd rngs)) (\<lambda>(rng', res).
            case res of
              Inl e \<Rightarrow> Some ((rng, rng'), Err e)
            | Inr t \<Rightarrow> map_option (\<lambda>d. ((rng, rng'), Ok d)) (build_endpoint M H keypair agent_version t)))"

definition bind_quic ::
  "'mh multihash_api \<Rightarrow> (bytes \<Rightarrow> bytes) \<Rightarrow> 'd ed25519_api \<Rightarrow> der_api \<Rightarrow> ('sk, 'b, 'cert, 'v, 'r) x509_api \<Rightarrow>
     ('s, 'c, 'x, 'p, 'k) bind_env \<Rightarrow> rstr \<Rightarrow> endpoint_builder \<Rightarrow> 'd \<times> 'r \<Rightarrow>
     (('d \<times> 'r) \<times> (transport_error + ('q, 's, 'mh) endpoint)) option" where
  "bind_quic M H D R X B bind_addr = bind_with M H D (\<lambda>config. qe_bind M H D R X B config bind_addr)"

definition bind_quic_multiaddr ::
  "'mh multihash_api \<Rightarrow> (bytes \<Rightarrow> bytes) \<Rightarrow> 'd ed25519_api \<Rightarrow> der_api \<Rightarrow> ('sk, 'b, 'cert, 'v, 'r) x509_api \<Rightarrow>
     ('s, 'c, 'x, 'p, 'k) bind_env \<Rightarrow> 'mh multiaddr \<Rightarrow> endpoint_builder \<Rightarrow> 'd \<times> 'r \<Rightarrow>
     (('d \<times> 'r) \<times> (transport_error + ('q, 's, 'mh) endpoint)) option" where
  "bind_quic_multiaddr M H D R X B addr = bind_with M H D (\<lambda>config. qe_bind_multiaddr M H D R X B config addr)"

definition bind_quic_dual_stack ::
  "'mh multihash_api \<Rightarrow> (bytes \<Rightarrow> bytes) \<Rightarrow> 'd ed25519_api \<Rightarrow> der_api \<Rightarrow> ('sk, 'b, 'cert, 'v, 'r) x509_api \<Rightarrow>
     ('s, 'c, 'x, 'p, 'k) bind_env \<Rightarrow> endpoint_builder \<Rightarrow> 'd \<times> 'r \<Rightarrow>
     (('d \<times> 'r) \<times> (transport_error + ('q, 's, 'mh) endpoint)) option" where
  "bind_quic_dual_stack M H D R X B = bind_with M H D (qe_dual_stack M H D R X B)"

end
