(* ===== verification/QuicConnProps.thy ===== *)
theory QuicConnProps
  imports QuicConn
begin

text \<open>
  What one connection of the QUIC transport promises, given what \<open>quiche\<close> and the socket document: its
  operations return, nothing that was written to a stream is lost, repeated or reordered, and a connection
  is announced only after its certificate proved the peer.
\<close>

section \<open>Hypotheses on the libraries\<close>

text \<open>
  The loops over \<open>quiche\<close> and the socket end: a connection has only so many packets to send, a stream
  only so many bytes to read, a socket only so many datagrams waiting.
\<close>

definition loop_laws :: "('q, 's, 'mh) quic_env \<Rightarrow> ('q \<Rightarrow> nat) \<Rightarrow> ('q \<Rightarrow> nat) \<Rightarrow> ('s \<Rightarrow> nat) \<Rightarrow> bool" where
  "loop_laws E packets unread backlog \<longleftrightarrow>
     (\<forall>n q q' p. q_send E n q = (q', Ok p) \<longrightarrow> packets q' < packets q) \<and>
     (\<forall>raw n q q' data. q_stream_recv E raw n q = (q', Ok (data, False)) \<longrightarrow> unread q' < unread q) \<and>
     (\<forall>n k k' d. udp_recv_from E n k = (k', Ok d) \<longrightarrow> backlog k' < backlog k) \<and>
     (\<forall>n k. backlog (fst (udp_recv_from E n k)) \<le> backlog k) \<and>
     (\<forall>bs a k. backlog (fst (udp_send_to E bs a k)) \<le> backlog k) \<and>
     (\<forall>n k. backlog (fst (os_random E n k)) \<le> backlog k)"

text \<open>
  \<open>sent q raw\<close> are the bytes \<open>quiche\<close> has taken for a stream: what it accepts of a write is appended, and
  nothing else changes it.
\<close>

definition send_laws :: "('q, 's, 'mh) quic_env \<Rightarrow> ('q \<Rightarrow> u64 \<Rightarrow> bytes) \<Rightarrow> bool" where
  "send_laws E sent \<longleftrightarrow>
     (\<forall>raw bs fin q q' r. q_stream_send E raw bs fin q = (q', r) \<longrightarrow>
        (case r of
           Inl _ \<Rightarrow> sent q' = sent q
         | Inr n \<Rightarrow> n \<le> length bs \<and> sent q' = (sent q)(raw := sent q raw @ take n bs))) \<and>
     (\<forall>n q. sent (fst (q_send E n q)) = sent q) \<and>
     (\<forall>bs a b q. sent (fst (q_recv E bs a b q)) = sent q) \<and>
     (\<forall>b code reason q. sent (fst (q_close E b code reason q)) = sent q) \<and>
     (\<forall>raw n q. sent (fst (q_stream_recv E raw n q)) = sent q) \<and>
     (\<forall>raw s code q. sent (fst (q_stream_shutdown E raw s code q)) = sent q)"

text \<open>A hash map lists each of its keys once.\<close>

definition order_laws :: "('q, 's, 'mh) quic_env \<Rightarrow> bool" where
  "order_laws E \<longleftrightarrow>
     (\<forall>ks. distinct ks \<longrightarrow> distinct (stream_order E ks) \<and> set (stream_order E ks) = set ks) \<and>
     (\<forall>ks. distinct ks \<longrightarrow> distinct (conn_order E ks) \<and> set (conn_order E ks) = set ks)"

lemma send_lawsD:
  assumes "send_laws E sent"
  shows "q_stream_send E raw bs fin q = (q', Err e) \<Longrightarrow> sent q' = sent q"
    and "q_stream_send E raw bs fin q = (q', Ok n) \<Longrightarrow> n \<le> length bs \<and> sent q' = (sent q)(raw := sent q raw @ take n bs)"
    and "q_send E n q = (q', r) \<Longrightarrow> sent q' = sent q"
    and "q_recv E bs a b q = (q', r1) \<Longrightarrow> sent q' = sent q"
    and "q_close E b1 code reason q = (q', r2) \<Longrightarrow> sent q' = sent q"
    and "q_stream_recv E raw n q = (q', r3) \<Longrightarrow> sent q' = sent q"
    and "q_stream_shutdown E raw s code q = (q', r4) \<Longrightarrow> sent q' = sent q"
proof -
  note laws = assms [unfolded send_laws_def]
  show "sent q' = sent q" if "q_stream_send E raw bs fin q = (q', Err e)"
    using laws that by (fastforce split: sum.splits)
  show "n \<le> length bs \<and> sent q' = (sent q)(raw := sent q raw @ take n bs)" if "q_stream_send E raw bs fin q = (q', Ok n)"
    using laws that by (fastforce split: sum.splits)
  show "sent q' = sent q" if "q_send E n q = (q', r)"
    using laws that by (metis fst_conv)
  show "sent q' = sent q" if "q_recv E bs a b q = (q', r1)"
    using laws that by (metis fst_conv)
  show "sent q' = sent q" if "q_close E b1 code reason q = (q', r2)"
    using laws that by (metis fst_conv)
  show "sent q' = sent q" if "q_stream_recv E raw n q = (q', r3)"
    using laws that by (metis fst_conv)
  show "sent q' = sent q" if "q_stream_shutdown E raw s code q = (q', r4)"
    using laws that by (metis fst_conv)
qed

section \<open>One connection\<close>

definition queued :: "stream_runtime_state \<Rightarrow> bytes" where
  "queued st = concat (map (\<lambda>w. drop (pw_offset w) (pw_bytes w)) (pending_writes st))"

text \<open>Everything the application has written to a stream: what \<open>quiche\<close> has taken, then what waits.\<close>

definition written :: "('q \<Rightarrow> u64 \<Rightarrow> bytes) \<Rightarrow> ('q, 'mh) quic_connection \<Rightarrow> u64 \<Rightarrow> bytes" where
  "written sent c raw = sent (qc_conn c) raw @ (case bm_get (qc_streams c) raw of None \<Rightarrow> [] | Some st \<Rightarrow> queued st)"

fun stream_event :: "connection_id \<Rightarrow> 'mh transport_event \<Rightarrow> bool" where
  "stream_event c (TeIncomingStream d _) = (d = c)"
| "stream_event c (TeStreamData d _ _) = (d = c)"
| "stream_event c (TeStreamRemoteWriteClosed d _) = (d = c)"
| "stream_event c (TeStreamClosed d _) = (d = c)"
| "stream_event c (TeError d _) = (d = c)"
| "stream_event c _ = False"

text \<open>
  What the work on streams keeps: everything but the state of \<open>quiche\<close> and of the streams, what was
  written, and the events emitted before.
\<close>

definition conn_keeps ::
  "('q \<Rightarrow> u64 \<Rightarrow> bytes) \<Rightarrow> ('s \<Rightarrow> nat) \<Rightarrow> ('q, 's, 'mh) conn_io \<Rightarrow> ('q, 's, 'mh) conn_io \<Rightarrow> bool" where
  "conn_keeps sent backlog st st' \<longleftrightarrow>
     (case (st, st') of ((c, k, events), (c', k', events')) \<Rightarrow>
        backlog k' \<le> backlog k \<and> qc_id c' = qc_id c \<and> qc_peer_addr c' = qc_peer_addr c \<and> qc_endpoint c' = qc_endpoint c \<and>
        qc_state c' = qc_state c \<and> qc_next_stream c' = qc_next_stream c \<and>
        (bm_ok (qc_streams c) \<longrightarrow> bm_ok (qc_streams c') \<and> (\<forall>raw. written sent c' raw = written sent c raw)) \<and>
        (\<exists>new. events' = events @ new \<and> list_all (stream_event (qc_id c)) new))"

lemma conn_keeps_refl [simp]: "conn_keeps sent backlog st st"
  by (simp add: conn_keeps_def split: prod.split)

lemma conn_keeps_trans [trans]: "conn_keeps sent backlog st st' \<Longrightarrow> conn_keeps sent backlog st' st'' \<Longrightarrow> conn_keeps sent backlog st st''"
  by (auto simp: conn_keeps_def split: prod.splits)

text \<open>An operation returns and keeps that, whatever its result.\<close>

definition returns_keeping :: "('q \<Rightarrow> u64 \<Rightarrow> bytes) \<Rightarrow> ('s \<Rightarrow> nat) \<Rightarrow> (('q, 's, 'mh) conn_io, 'a) io \<Rightarrow> bool" where
  "returns_keeping sent backlog m \<longleftrightarrow> (\<forall>st. \<exists>st' r. m st = Some (st', r) \<and> conn_keeps sent backlog st st')"

lemma returns_keeping_bind:
  "returns_keeping sent backlog m \<Longrightarrow> (\<And>a. returns_keeping sent backlog (f a)) \<Longrightarrow> returns_keeping sent backlog (io_bind m f)"
proof (unfold returns_keeping_def, intro allI)
  fix st
  assume m: "\<forall>st. \<exists>st' r. m st = Some (st', r) \<and> conn_keeps sent backlog st st'"
    and f: "\<And>a. \<forall>st. \<exists>st' r. f a st = Some (st', r) \<and> conn_keeps sent backlog st st'"
  obtain st1 r where st1: "m st = Some (st1, r)" "conn_keeps sent backlog st st1" using m by blast
  show "\<exists>st' r. io_bind m f st = Some (st', r) \<and> conn_keeps sent backlog st st'"
  proof (cases r)
    case (Inr a)
    obtain st2 r2 where "f a st1 = Some (st2, r2)" "conn_keeps sent backlog st1 st2" using f by blast
    then show ?thesis using st1 Inr by (auto simp: io_bind_def intro: conn_keeps_trans)
  qed (use st1 in \<open>simp add: io_bind_def\<close>)
qed

lemma send_packets_returns:
  assumes "loop_laws E packets unread backlog" and "send_laws E sent"
  shows "\<exists>q' k' r. send_packets E qe ue q k = Some (q', k', r) \<and> sent q' = sent q \<and> backlog k' \<le> backlog k"
proof (induction "packets q" arbitrary: q k rule: less_induct)
  case less
  obtain q1 r where q1: "q_send E SEND_BUF_SIZE q = (q1, r)" by force
  note sent1 = send_lawsD(3) [OF assms(2) q1]
  show ?case
  proof (cases r)
    case (Inl err)
    then show ?thesis
      using q1 sent1 by (subst send_packets.simps) (auto split: quiche_error.split)
  next
    case (Inr p)
    obtain k1 r1 where k1: "udp_send_to E (fst p) (snd p) k = (k1, r1)" by force
    have fewer: "packets q1 < packets q"
      using assms(1) q1 Inr unfolding loop_laws_def by blast
    have shorter: "backlog k1 \<le> backlog k"
      using assms(1) k1 unfolding loop_laws_def by (metis fst_conv)
    from less.hyps [OF fewer, of k1] shorter show ?thesis
      using q1 Inr k1 sent1 by (subst send_packets.simps) (fastforce split: sum.split)
  qed
qed

lemma qc_flush_returns:
  fixes E :: "('q, 's, 'mh) quic_env"
  assumes "loop_laws E packets unread backlog" and "send_laws E sent"
  shows "returns_keeping sent backlog (qc_flush E)"
proof (unfold returns_keeping_def, intro allI)
  fix st :: "('q, 's, 'mh) conn_io"
  obtain c k events where st: "st = (c, k, events)" by (cases st)
  obtain q k' r where "send_packets E (\<lambda>e. TrCloseFailed (qc_id c) (lit ''quiche send error: '' @ e))
      (\<lambda>e. TrCloseFailed (qc_id c) (lit ''udp send error: '' @ e)) (qc_conn c) k = Some (q, k', r)"
    "sent q = sent (qc_conn c)" "backlog k' \<le> backlog k"
    using send_packets_returns [OF assms] by blast
  then show "\<exists>st' r. qc_flush E st = Some (st', r) \<and> conn_keeps sent backlog st st'"
    by (simp add: st qc_flush_def conn_keeps_def written_def)
qed

subsection \<open>Writing\<close>

lemma queued_note_closed [simp]: "queued (fst (note_closed c sid x)) = queued (fst x)"
  by (simp add: queued_def)

lemma events_note_closed:
  "\<exists>new. snd (note_closed c sid x) = snd x @ new \<and> list_all (stream_event c) new"
  by (auto simp: note_closed_def split: prod.split)

text \<open>What an accepted write takes off the queue is what it took of the payload.\<close>

lemma queued_write_done:
  assumes "pending_writes st = w # ws" and "n \<le> length (drop (pw_offset w) (pw_bytes w))"
  shows "take n (drop (pw_offset w) (pw_bytes w)) @ queued (st\<lparr>pending_writes := write_done n w ws\<rparr>) = queued st"
proof -
  let ?payload = "drop (pw_offset w) (pw_bytes w)"
  have rest: "drop (pw_offset w + n) (pw_bytes w) = drop n ?payload"
    by (simp add: add.commute)
  consider "pw_fin w \<and> pw_bytes w = []" | "\<not> (pw_fin w \<and> pw_bytes w = [])" "length (pw_bytes w) \<le> pw_offset w + n"
    | "\<not> (pw_fin w \<and> pw_bytes w = [])" "\<not> length (pw_bytes w) \<le> pw_offset w + n" by blast
  then show ?thesis
  proof cases
    case 2
    then have "take n ?payload = ?payload" by simp
    with 2 show ?thesis using assms(1) by (auto simp: queued_def write_done_def)
  next
    case 3
    then have "write_done n w ws = w\<lparr>pw_offset := pw_offset w + n\<rparr> # ws"
      by (auto simp: write_done_def)
    then show ?thesis
      using assms(1) append_take_drop_id [of n ?payload] by (simp add: queued_def rest flip: append_assoc)
  qed (use assms in \<open>simp add: queued_def write_done_def\<close>)
qed

lemma drain_stream_keeps:
  assumes "send_laws E sent" and "drain_stream E c raw q x = (q', x', r)"
  shows "(\<forall>other. other \<noteq> raw \<longrightarrow> sent q' other = sent q other) \<and> sent q' raw @ queued (fst x') = sent q raw @ queued (fst x) \<and>
    (\<exists>new. snd x' = snd x @ new \<and> list_all (stream_event c) new)"
  using assms
proof (induction E c raw q x rule: drain_stream.induct)
  case (1 E c raw q x)
  note laws = send_lawsD [OF "1.prems"(1)]
  show ?case
  proof (cases "pending_writes (fst x)")
    case Nil
    then show ?thesis
      using "1.prems"(2) by (subst (asm) drain_stream.simps) auto
  next
    case (Cons w ws)
    let ?payload = "drop (pw_offset w) (pw_bytes w)"
    obtain q1 r1 where q1: "q_stream_send E raw ?payload (pw_fin w \<and> ?payload = []) q = (q1, r1)" by force
    note step = "1.prems"(2) [unfolded drain_stream.simps [of E c raw q x] Cons list.case Let_def q1 prod.case]
    show ?thesis
    proof (cases r1)
      case (Inl err)
      then show ?thesis
        using step laws(1) [OF q1 [unfolded Inl]] by (cases err) auto
    next
      case (Inr n)
      note taken = laws(2) [OF q1 [unfolded Inr]]
      show ?thesis
      proof (cases "\<not> (pw_fin w \<and> pw_bytes w = []) \<and> n = 0")
        case True
        then show ?thesis
          using step Inr taken by auto
      next
        case False
        let ?x = "note_closed c (StreamId raw) ((fst x)\<lparr>pending_writes := write_done n w ws\<rparr>, snd x)"
        have "drain_stream E c raw q1 ?x = (q', x', r)"
          using step Inr False by auto
        with "1.IH" [OF Cons refl refl q1 [symmetric] _ False] Inr "1.prems"(1)
        have ih: "\<forall>other. other \<noteq> raw \<longrightarrow> sent q' other = sent q1 other" "sent q' raw @ queued (fst x') = sent q1 raw @ queued (fst ?x)"
          "\<exists>new. snd x' = snd ?x @ new \<and> list_all (stream_event c) new" by auto
        have "sent q1 raw @ queued (fst ?x) = sent q raw @ queued (fst x)"
          using taken queued_write_done [OF Cons, of n] by simp
        moreover obtain new1 where "snd ?x = snd x @ new1" "list_all (stream_event c) new1"
          using events_note_closed [of c "StreamId raw" "((fst x)\<lparr>pending_writes := write_done n w ws\<rparr>, snd x)"] by auto
        ultimately show ?thesis
          using ih taken by auto
      qed
    qed
  qed
qed

lemma drain_streams_returns:
  assumes "send_laws E sent"
  shows "\<exists>st' r. drain_streams E raws st = Some (st', r) \<and> conn_keeps sent backlog st st'"
proof (induction raws arbitrary: st)
  case Nil
  then show ?case by (cases st) simp
next
  case (Cons raw raws)
  obtain c k events where st: "st = (c, k, events)" by (cases st)
  show ?case
  proof (cases "bm_get (qc_streams c) raw")
    case None
    then show ?thesis using Cons [of st] by (simp add: st)
  next
    case (Some ss)
    obtain q x r where q: "drain_stream E (qc_id c) raw (qc_conn c) (ss, events) = (q, x, r)" by (metis prod_cases3)
    let ?st = "(c\<lparr>qc_conn := q, qc_streams := bm_insert raw (fst x) (qc_streams c)\<rparr>, k, snd x)"
    have "conn_keeps sent backlog st ?st"
      using drain_stream_keeps [OF assms q] Some by (auto simp: st conn_keeps_def written_def bm.invar_upd split: option.split)
    moreover have "drain_streams E (raw # raws) st = (case r of Inl e \<Rightarrow> Some (?st, Err e) | Inr _ \<Rightarrow> drain_streams E raws ?st)"
      using Some q by (cases x; cases r) (simp_all add: st Let_def)
    ultimately show ?thesis
      using Cons [of ?st] by (cases r) (auto intro: conn_keeps_trans)
  qed
qed

lemma drain_and_flush_returns:
  assumes "loop_laws E packets unread backlog" and "send_laws E sent"
  shows "returns_keeping sent backlog (drain_and_flush E)"
  unfolding drain_and_flush_def
proof (rule returns_keeping_bind)
  show "returns_keeping sent backlog (drain_send_queue E)"
    using drain_streams_returns [OF assms(2)] by (auto simp: returns_keeping_def drain_send_queue_def)
qed (rule qc_flush_returns [OF assms])

subsection \<open>Reading\<close>

text \<open>Replacing the state of a stream by one with the same writes changes nothing that was written.\<close>

lemma written_put_stream:
  "queued st = (case bm_get (qc_streams c) raw of None \<Rightarrow> [] | Some st \<Rightarrow> queued st) \<Longrightarrow>
    written sent (put_stream raw st c) other = written sent c other"
  by (auto simp: written_def put_stream_def split: option.splits)

lemma queued_simps [simp]:
  "queued stream_default = []" "queued (st\<lparr>incoming_notified := b\<rparr>) = queued st"
  "queued (st\<lparr>local_write_closed := b1\<rparr>) = queued st" "queued (st\<lparr>remote_write_closed := b2\<rparr>) = queued st"
  "queued (st\<lparr>closed_notified := b3\<rparr>) = queued st" "queued (on_remote_write_closed st) = queued st"
  "queued (on_local_write_closed st) = queued st"
  by (simp_all add: queued_def stream_default_def on_remote_write_closed_def on_local_write_closed_def)

lemma put_stream_fields [simp]:
  "qc_id (put_stream raw st c) = qc_id c" "qc_conn (put_stream raw st c) = qc_conn c"
  "qc_peer_addr (put_stream raw st c) = qc_peer_addr c" "qc_endpoint (put_stream raw st c) = qc_endpoint c"
  "qc_state (put_stream raw st c) = qc_state c" "qc_next_stream (put_stream raw st c) = qc_next_stream c"
  "bm_get (qc_streams (put_stream raw st c)) raw' = (if raw' = raw then Some st else bm_get (qc_streams c) raw')"
  "bm_ok (qc_streams c) \<Longrightarrow> bm_ok (qc_streams (put_stream raw st c))"
  by (simp_all add: put_stream_def bm.invar_upd)

lemma put_stream_keeps:
  assumes "queued st = (case bm_get (qc_streams c) raw of None \<Rightarrow> [] | Some st \<Rightarrow> queued st)"
    and "list_all (stream_event (qc_id c)) new"
  shows "conn_keeps sent backlog (c, k, events) (put_stream raw st c, k, events @ new)"
  using assms written_put_stream [OF assms(1)] by (simp add: conn_keeps_def)

lemma discovered_keeps:
  assumes "ensure_stream_discovered E sid (c, events) = (c', events')"
  shows "conn_keeps sent backlog (c, k, events) (c', k, events')"
proof -
  let ?st = "bm_entry stream_default (qc_streams c) (stream_u64 sid)"
  have q: "queued ?st = (case bm_get (qc_streams c) (stream_u64 sid) of None \<Rightarrow> [] | Some st \<Rightarrow> queued st)"
    by (simp add: bm_entry_def split: option.split)
  show ?thesis
    using assms put_stream_keeps [OF q, of "[]" sent backlog k events]
      put_stream_keeps [of "?st\<lparr>incoming_notified := True\<rparr>" c "stream_u64 sid" "[TeIncomingStream (qc_id c) sid]" sent backlog k events] q
    by (auto simp: ensure_stream_discovered_def Let_def split: if_splits)
qed

lemma mark_remote_closed_keeps: "conn_keeps sent backlog (c, k, events) (mark_remote_closed raw c, k, events)"
  using put_stream_keeps [of _ c raw "[]" sent backlog k events]
  by (auto simp: mark_remote_closed_def split: option.split)

lemma note_finished_keeps:
  assumes "note_stream_closed_if_finished sid (c, events) = (c', events')"
  shows "conn_keeps sent backlog (c, k, events) (c', k, events')"
proof (cases "bm_get (qc_streams c) (stream_u64 sid)")
  case (Some st)
  obtain st' evs where n: "note_closed (qc_id c) sid (st, events) = (st', evs)" by force
  obtain new where "evs = events @ new" "list_all (stream_event (qc_id c)) new"
    using events_note_closed [of "qc_id c" sid "(st, events)"] n by auto
  moreover have "queued st' = queued st"
    using queued_note_closed [of "qc_id c" sid "(st, events)"] n by simp
  ultimately show ?thesis
    using assms Some n put_stream_keeps [of st' c "stream_u64 sid" new] by (auto simp: note_stream_closed_if_finished_def)
qed (use assms in \<open>simp add: note_stream_closed_if_finished_def\<close>)

lemma set_conn_keeps: "sent q = sent (qc_conn c) \<Longrightarrow> conn_keeps sent backlog (c, k, events) (c\<lparr>qc_conn := q\<rparr>, k, events)"
  by (simp add: conn_keeps_def written_def)

lemma emit_keeps: "list_all (stream_event (qc_id c)) new \<Longrightarrow> conn_keeps sent backlog (c, k, events) (c, k, events @ new)"
  by (simp add: conn_keeps_def)

lemma read_stream_returns:
  assumes "loop_laws E packets unread backlog" and "send_laws E sent"
  shows "\<exists>c' events'. read_stream E sid c events = Some (c', events') \<and> conn_keeps sent backlog (c, k, events) (c', k, events')"
proof (induction "unread (qc_conn c)" arbitrary: c events rule: less_induct)
  case less
  obtain q r where q: "q_stream_recv E (stream_u64 sid) RECV_BUF_SIZE (qc_conn c) = (q, r)" by force
  let ?c = "c\<lparr>qc_conn := q\<rparr>"
  have c: "conn_keeps sent backlog (c, k, events) (?c, k, events)"
    using send_lawsD(6) [OF assms(2) q] by (rule set_conn_keeps)
  show ?case
  proof (cases r)
    case (Inl err)
    then show ?thesis
      using q c conn_keeps_trans [OF c emit_keeps [of ?c "[TeError (qc_id c) _]"]]
      by (subst read_stream.simps) (cases err; simp)
  next
    case (Inr got)
    let ?new = "if fst got \<noteq> [] then [TeStreamData (qc_id c) sid (fst got)] else []"
    have step: "conn_keeps sent backlog (c, k, events) (?c, k, events @ ?new)"
      using conn_keeps_trans [OF c emit_keeps [of ?c ?new]] by simp
    show ?thesis
    proof (cases "snd got")
      case True
      let ?d = "mark_remote_closed (stream_u64 sid) ?c"
      let ?ev = "(events @ ?new) @ [TeStreamRemoteWriteClosed (qc_id c) sid]"
      obtain c' events' where n: "note_stream_closed_if_finished sid (?d, ?ev) = (c', events')" by force
      have "qc_id ?d = qc_id c"
        by (simp add: mark_remote_closed_def split: option.split)
      then have "conn_keeps sent backlog (?d, k, events @ ?new) (?d, k, ?ev)"
        by (intro emit_keeps) simp
      from conn_keeps_trans [OF conn_keeps_trans [OF step mark_remote_closed_keeps] conn_keeps_trans [OF this note_finished_keeps [OF n]]]
      show ?thesis
        using q Inr True n by (subst read_stream.simps) (cases "fst got = []"; simp add: Let_def)
    next
      case False
      then have "unread q < unread (qc_conn c)"
        using assms(1) q Inr unfolding loop_laws_def by (metis prod.collapse)
      from less.hyps [of ?c "events @ ?new"] this obtain c' events' where
        "read_stream E sid ?c (events @ ?new) = Some (c', events')" "conn_keeps sent backlog (?c, k, events @ ?new) (c', k, events')"
        by auto
      then show ?thesis
        using q Inr False conn_keeps_trans [OF step] by (subst read_stream.simps) (auto simp: Let_def)
    qed
  qed
qed

lemma read_streams_returns:
  assumes "loop_laws E packets unread backlog" and "send_laws E sent"
  shows "\<exists>c' events'. read_streams E raws (c, events) = Some (c', events') \<and> conn_keeps sent backlog (c, k, events) (c', k, events')"
proof (induction raws arbitrary: c events)
  case (Cons raw raws)
  obtain c1 ev1 where d: "ensure_stream_discovered E (StreamId raw) (c, events) = (c1, ev1)" by force
  obtain c2 ev2 where r: "read_stream E (StreamId raw) c1 ev1 = Some (c2, ev2)" "conn_keeps sent backlog (c1, k, ev1) (c2, k, ev2)"
    using read_stream_returns [OF assms] by blast
  obtain c3 ev3 where "read_streams E raws (c2, ev2) = Some (c3, ev3)" "conn_keeps sent backlog (c2, k, ev2) (c3, k, ev3)"
    using Cons.IH by blast
  then show ?case
    using d r conn_keeps_trans [OF discovered_keeps [OF d] conn_keeps_trans] by auto
qed simp

text \<open>Only streams with nothing left to write are collected.\<close>

lemma gc_keeps: "conn_keeps sent backlog (c, k, events) (gc_closed_streams c, k, events)"
proof -
  have "written sent (gc_closed_streams c) raw = written sent c raw" if "bm_ok (qc_streams c)" for raw
    using that by (auto simp: written_def gc_closed_streams_def bm_get_retain queued_def split: option.split)
  then show ?thesis
    by (simp add: conn_keeps_def gc_closed_streams_def bm_ok_retain)
qed

lemma poll_streams_returns:
  fixes E :: "('q, 's, 'mh) quic_env"
  assumes "loop_laws E packets unread backlog" and "send_laws E sent"
  shows "returns_keeping sent backlog (poll_streams E)"
proof (unfold returns_keeping_def, intro allI)
  fix st :: "('q, 's, 'mh) conn_io"
  obtain c k events where st: "st = (c, k, events)" by (cases st)
  have gc: "returns_keeping sent backlog (update_conn gc_closed_streams)"
    using gc_keeps by (fastforce simp: returns_keeping_def update_conn_def io_step_def)
  note tail = returns_keeping_bind [OF drain_and_flush_returns [OF assms] gc]
  obtain c1 ev1 where r: "read_streams E (q_readable E (qc_conn c)) (c, events) = Some (c1, ev1)"
    "conn_keeps sent backlog (c, k, events) (c1, k, ev1)"
    using read_streams_returns [OF assms] by blast
  obtain st' r' where "io_bind (drain_and_flush E) (\<lambda>_. update_conn gc_closed_streams) (c1, k, ev1) = Some (st', r')"
    "conn_keeps sent backlog (c1, k, ev1) st'"
    using tail unfolding returns_keeping_def by blast
  then show "\<exists>st' r. poll_streams E st = Some (st', r) \<and> conn_keeps sent backlog st st'"
    using r conn_keeps_trans [OF r(2)] by (cases st') (auto simp: st poll_streams_def)
qed

subsection \<open>Packets and identity\<close>

text \<open>What every operation on a connection keeps: its id and address, and what was written.\<close>

definition conn_writes_kept ::
  "('q \<Rightarrow> u64 \<Rightarrow> bytes) \<Rightarrow> ('s \<Rightarrow> nat) \<Rightarrow> ('q, 's, 'mh) conn_io \<Rightarrow> ('q, 's, 'mh) conn_io \<Rightarrow> bool" where
  "conn_writes_kept sent backlog st st' \<longleftrightarrow>
     (case (st, st') of ((c, k, events), (c', k', events')) \<Rightarrow>
        backlog k' \<le> backlog k \<and> qc_id c' = qc_id c \<and> qc_peer_addr c' = qc_peer_addr c \<and>
        (bm_ok (qc_streams c) \<longrightarrow> bm_ok (qc_streams c') \<and> (\<forall>raw. written sent c' raw = written sent c raw)) \<and>
        (\<exists>new. events' = events @ new))"

lemma conn_keeps_writes: "conn_keeps sent backlog st st' \<Longrightarrow> conn_writes_kept sent backlog st st'"
  by (auto simp: conn_keeps_def conn_writes_kept_def split: prod.splits)

lemma conn_writes_kept_trans [trans]:
  "conn_writes_kept sent backlog st st' \<Longrightarrow> conn_writes_kept sent backlog st' st'' \<Longrightarrow> conn_writes_kept sent backlog st st''"
  by (auto simp: conn_writes_kept_def split: prod.splits)

text \<open>The endpoint that the certificate \<open>quiche\<close> has of the remote proves, which a dialed peer id must agree with.\<close>

definition proves :: "('q, 's, 'mh) quic_env \<Rightarrow> 'mh connection_endpoint \<Rightarrow> 'mh connection_endpoint \<Rightarrow> bool" where
  "proves E endpoint endpoint' \<longleftrightarrow>
     (\<exists>q cert p. q_peer_cert E q = Some cert \<and> verify_certificate E cert = Ok p \<and> (ep_peer_id endpoint = None \<or> ep_peer_id endpoint = Some p) \<and>
        endpoint' = endpoint_set_peer_id p endpoint)"

lemma reject_connection_returns:
  assumes "loop_laws E packets unread backlog" and "send_laws E sent"
  shows "\<exists>c' k' r. reject_connection E message code reason (c, k, events) = Some ((c', k', events @ [TeError (qc_id c) message]), r) \<and>
    conn_writes_kept sent backlog (c, k, events) (c', k', events @ [TeError (qc_id c) message]) \<and>
    qc_endpoint c' = qc_endpoint c \<and> qc_state c' = CsClosing \<and> qc_next_stream c' = qc_next_stream c"
proof -
  let ?c = "c\<lparr>qc_conn := fst (q_close E True code reason (qc_conn c)), qc_state := CsClosing\<rparr>"
  have "sent (fst (q_close E True code reason (qc_conn c))) = sent (qc_conn c)"
    using send_lawsD(5) [OF assms(2)] by (metis prod.collapse)
  then have "conn_writes_kept sent backlog (c, k, events) (?c, k, events @ [TeError (qc_id c) message])"
    by (simp add: conn_writes_kept_def written_def)
  moreover obtain q k' r where "send_packets E (\<lambda>e. TrCloseFailed (qc_id ?c) (lit ''quiche send error: '' @ e))
      (\<lambda>e. TrCloseFailed (qc_id ?c) (lit ''udp send error: '' @ e)) (qc_conn ?c) k = Some (q, k', r)"
    "sent q = sent (qc_conn ?c)" "backlog k' \<le> backlog k"
    using send_packets_returns [OF assms] by blast
  ultimately show ?thesis
    by (simp add: reject_connection_def qc_flush_def conn_writes_kept_def written_def)
qed

lemma verify_remote_returns:
  assumes "loop_laws E packets unread backlog" and "send_laws E sent"
  shows "\<exists>c' k' new r. verify_remote M E (c, k, events) = Some ((c', k', events @ new), r) \<and>
    conn_writes_kept sent backlog (c, k, events) (c', k', events @ new) \<and> qc_next_stream c' = qc_next_stream c \<and>
    (qc_state c' = CsClosing \<and> qc_endpoint c' = qc_endpoint c \<and> (\<exists>m. new = [TeError (qc_id c) m]) \<or>
     qc_state c' = qc_state c \<and> r = Ok () \<and> proves E (qc_endpoint c) (qc_endpoint c') \<and>
     new = [TeConnected (qc_id c) (qc_endpoint c')])"
proof -
  have rej: "\<exists>c' k' new r. reject_connection E m code reason (c, k, events) = Some ((c', k', events @ new), r) \<and>
    conn_writes_kept sent backlog (c, k, events) (c', k', events @ new) \<and> qc_next_stream c' = qc_next_stream c \<and>
    (qc_state c' = CsClosing \<and> qc_endpoint c' = qc_endpoint c \<and> (\<exists>m. new = [TeError (qc_id c) m]) \<or> P c' new r)"
    for m code reason P
    using reject_connection_returns [OF assms, of m code reason c k events] by blast
  have acc: "\<exists>c' k' new r. Some ((c\<lparr>qc_endpoint := e\<rparr>, k, events @ [TeConnected (qc_id c) e]), Ok () :: transport_error + unit) =
      Some ((c', k', events @ new), r) \<and>
    conn_writes_kept sent backlog (c, k, events) (c', k', events @ new) \<and> qc_next_stream c' = qc_next_stream c \<and>
    (Q c' new \<or> qc_state c' = qc_state c \<and> r = Ok () \<and> proves E (qc_endpoint c) (qc_endpoint c') \<and>
     new = [TeConnected (qc_id c) (qc_endpoint c')])" if "proves E (qc_endpoint c) e" for e Q
    using that by (auto simp: conn_writes_kept_def written_def)
  show ?thesis
  proof (cases "q_peer_cert E (qc_conn c)")
    case None
    then show ?thesis using rej by (simp add: verify_remote_def)
  next
    case (Some cert)
    show ?thesis
    proof (cases "verify_certificate E cert")
      case (Inl e)
      then show ?thesis using rej Some by (simp add: verify_remote_def)
    next
      case (Inr p)
      then have "ep_peer_id (qc_endpoint c) = None \<or> ep_peer_id (qc_endpoint c) = Some p \<Longrightarrow>
          proves E (qc_endpoint c) (endpoint_set_peer_id p (qc_endpoint c))"
        using Some by (auto simp: proves_def)
      then show ?thesis
        using rej acc Some Inr by (cases "ep_peer_id (qc_endpoint c)") (auto simp: verify_remote_def Let_def)
    qed
  qed
qed

text \<open>
  A packet either leaves the endpoint and emits events about streams and errors only, or completes a
  handshake: then the last event announces the endpoint that the certificate proves.
\<close>

definition packet_outcome ::
  "('q, 's, 'mh) quic_env \<Rightarrow> ('q, 'mh) quic_connection \<Rightarrow> ('q, 'mh) quic_connection \<Rightarrow> 'mh transport_event list \<Rightarrow>
     transport_error + unit \<Rightarrow> bool" where
  "packet_outcome E c c' new r \<longleftrightarrow>
     (qc_state c \<noteq> CsConnecting \<longrightarrow> qc_state c' = qc_state c) \<and>
     (qc_endpoint c' = qc_endpoint c \<and> list_all (stream_event (qc_id c)) new \<or>
      qc_state c = CsConnecting \<and> qc_state c' = CsConnected \<and> r = Ok () \<and> proves E (qc_endpoint c) (qc_endpoint c') \<and>
      (\<exists>before. new = before @ [TeConnected (qc_id c) (qc_endpoint c')] \<and> list_all (stream_event (qc_id c)) before))"

lemma drain_and_flush_outcome:
  assumes "loop_laws E packets unread backlog" and "send_laws E sent"
  obtains c' k' new r where "drain_and_flush E (c, k, events) = Some ((c', k', events @ new), r)"
    "conn_keeps sent backlog (c, k, events) (c', k', events @ new)" "list_all (stream_event (qc_id c)) new"
proof -
  obtain st' r where st': "drain_and_flush E (c, k, events) = Some (st', r)" "conn_keeps sent backlog (c, k, events) st'"
    using drain_and_flush_returns [OF assms] unfolding returns_keeping_def by blast
  then show thesis
    using that by (cases st') (auto simp: conn_keeps_def)
qed

lemma recv_packet_returns:
  assumes "loop_laws E packets unread backlog" and "send_laws E sent"
  shows "\<exists>c' k' new r. recv_packet M E buf from local_addr (c, k, events) = Some ((c', k', events @ new), r) \<and>
    conn_writes_kept sent backlog (c, k, events) (c', k', events @ new) \<and> qc_next_stream c' = qc_next_stream c \<and>
    packet_outcome E c c' new r"
proof -
  obtain q res where q: "q_recv E buf from local_addr (qc_conn c) = (q, res)" by force
  let ?c = "c\<lparr>qc_conn := q\<rparr>"
  have c: "conn_writes_kept sent backlog (c, k, events) (?c, k, events)"
    using send_lawsD(4) [OF assms(2) q] by (simp add: conn_writes_kept_def written_def)
  show ?thesis
  proof (cases "\<exists>e. res = Err (QError e)")
    case True
    then obtain e where "res = Err (QError e)" ..
    then show ?thesis
      using q c by (simp add: recv_packet_def packet_outcome_def conn_writes_kept_def)
  next
    case False
    have run: "recv_packet M E buf from local_addr (c, k, events) =
      (if qc_state c = CsConnecting \<and> q_is_established E q
       then io_bind (drain_and_flush E) (\<lambda>_. verify_remote M E) (?c\<lparr>qc_state := CsConnected\<rparr>, k, events)
       else drain_and_flush E (?c, k, events))"
      using q False by (cases res; cases "projl res") (auto simp: recv_packet_def Let_def)
    show ?thesis
    proof (cases "qc_state c = CsConnecting \<and> q_is_established E q")
      case False
      obtain c1 k1 new r where "drain_and_flush E (?c, k, events) = Some ((c1, k1, events @ new), r)"
        "conn_keeps sent backlog (?c, k, events) (c1, k1, events @ new)" "list_all (stream_event (qc_id ?c)) new"
        by (rule drain_and_flush_outcome [OF assms])
      then show ?thesis
        unfolding run if_not_P [OF False]
        using conn_writes_kept_trans [OF c conn_keeps_writes] by (fastforce simp: conn_keeps_def packet_outcome_def)
    next
      case True
      let ?d = "?c\<lparr>qc_state := CsConnected\<rparr>"
      obtain c1 k1 new r where d: "drain_and_flush E (?d, k, events) = Some ((c1, k1, events @ new), r)"
        "conn_keeps sent backlog (?d, k, events) (c1, k1, events @ new)" "list_all (stream_event (qc_id ?d)) new"
        by (rule drain_and_flush_outcome [OF assms])
      have "conn_writes_kept sent backlog (c, k, events) (?d, k, events)"
        using c by (simp add: conn_writes_kept_def written_def)
      note kept = conn_writes_kept_trans [OF this conn_keeps_writes [OF d(2)]]
      have eqs: "qc_id c1 = qc_id c" "qc_endpoint c1 = qc_endpoint c" "qc_state c1 = CsConnected" "qc_next_stream c1 = qc_next_stream c"
        using d(2) by (simp_all add: conn_keeps_def)
      show ?thesis
      proof (cases r)
        case (Inl e)
        then show ?thesis
          using kept eqs d True by (auto simp: run io_bind_def packet_outcome_def)
      next
        case (Inr u)
        obtain c2 k2 new2 r2 where v: "verify_remote M E (c1, k1, events @ new) = Some ((c2, k2, (events @ new) @ new2), r2)"
          "conn_writes_kept sent backlog (c1, k1, events @ new) (c2, k2, (events @ new) @ new2)"
          "qc_next_stream c2 = qc_next_stream c1"
          "qc_state c2 = CsClosing \<and> qc_endpoint c2 = qc_endpoint c1 \<and> (\<exists>m. new2 = [TeError (qc_id c1) m]) \<or>
           qc_state c2 = qc_state c1 \<and> r2 = Ok () \<and> proves E (qc_endpoint c1) (qc_endpoint c2) \<and>
           new2 = [TeConnected (qc_id c1) (qc_endpoint c2)]"
          using verify_remote_returns [OF assms, of M c1 k1 "events @ new"] by blast
        have "packet_outcome E c c2 (new @ new2) r2"
          using v(4) eqs d(3) True by (auto simp: packet_outcome_def)
        moreover have "recv_packet M E buf from local_addr (c, k, events) = Some ((c2, k2, events @ new @ new2), r2)"
          using True d(1) v(1) Inr by (simp add: run io_bind_def)
        moreover have "conn_writes_kept sent backlog (c, k, events) (c2, k2, events @ new @ new2)"
          using conn_writes_kept_trans [OF kept v(2)] by simp
        ultimately show ?thesis
          using v(3) eqs(4) by auto
      qed
    qed
  qed
qed

subsection \<open>Operations of the host\<close>

definition accepts_writes :: "('q, 's, 'mh) quic_env \<Rightarrow> stream_id \<Rightarrow> ('q, 'mh) quic_connection \<Rightarrow> bool" where
  "accepts_writes E sid c \<longleftrightarrow>
     (case get_or_create_local_stream_state E sid c of Inl _ \<Rightarrow> False | Inr st \<Rightarrow> \<not> local_write_closed st)"

text \<open>
  An operation of the host on a connection: it returns, it keeps the endpoint, it emits events about
  streams only, and it adds \<open>extra\<close> to what was written.
\<close>

definition host_op ::
  "('q \<Rightarrow> u64 \<Rightarrow> bytes) \<Rightarrow> ('s \<Rightarrow> nat) \<Rightarrow> (('q, 'mh) quic_connection \<Rightarrow> u64 \<Rightarrow> bytes) \<Rightarrow> (('q, 's, 'mh) conn_io, unit) io \<Rightarrow> bool" where
  "host_op sent backlog extra m \<longleftrightarrow>
     (\<forall>c k events. \<exists>c' k' new r. m (c, k, events) = Some ((c', k', events @ new), r) \<and> backlog k' \<le> backlog k \<and>
        qc_id c' = qc_id c \<and> qc_peer_addr c' = qc_peer_addr c \<and> qc_endpoint c' = qc_endpoint c \<and>
        (qc_state c' = qc_state c \<or> qc_state c' = CsClosing) \<and> list_all (stream_event (qc_id c)) new \<and>
        (bm_ok (qc_streams c) \<longrightarrow> bm_ok (qc_streams c') \<and> (\<forall>raw. written sent c' raw = written sent c raw @ extra c raw)))"

lemma written_enqueue:
  assumes "get_or_create_local_stream_state E sid c = Ok st"
  shows "written sent (put_stream (stream_u64 sid) (st\<lparr>pending_writes := pending_writes st @ [w]\<rparr>) c) raw =
    written sent c raw @ (if raw = stream_u64 sid then drop (pw_offset w) (pw_bytes w) else [])"
  using assms by (auto simp: written_def get_or_create_local_stream_state_def queued_def stream_default_def
      split: option.splits if_splits)

text \<open>Queueing a write and then working off the queue.\<close>

lemma enqueue_then_drain:
  assumes "loop_laws E packets unread backlog" and "send_laws E sent"
    and "\<And>raw. bm_ok (qc_streams c) \<Longrightarrow> written sent d raw = written sent c raw @ extra raw"
    and "bm_ok (qc_streams c) \<Longrightarrow> bm_ok (qc_streams d)" and "qc_id d = qc_id c" "qc_peer_addr d = qc_peer_addr c"
      "qc_endpoint d = qc_endpoint c" "qc_state d = qc_state c \<or> qc_state d = CsClosing"
  shows "\<exists>c' k' new r. drain_and_flush E (d, k, events) = Some ((c', k', events @ new), r) \<and> backlog k' \<le> backlog k \<and>
    qc_id c' = qc_id c \<and> qc_peer_addr c' = qc_peer_addr c \<and> qc_endpoint c' = qc_endpoint c \<and>
    (qc_state c' = qc_state c \<or> qc_state c' = CsClosing) \<and> list_all (stream_event (qc_id c)) new \<and>
    (bm_ok (qc_streams c) \<longrightarrow> bm_ok (qc_streams c') \<and> (\<forall>raw. written sent c' raw = written sent c raw @ extra raw))"
proof -
  obtain c' k' new r where "drain_and_flush E (d, k, events) = Some ((c', k', events @ new), r)"
    "conn_keeps sent backlog (d, k, events) (c', k', events @ new)" "list_all (stream_event (qc_id d)) new"
    by (rule drain_and_flush_outcome [OF assms(1,2)])
  then show ?thesis
    using assms(3-8) by (auto simp: conn_keeps_def)
qed

lemma host_op_send:
  assumes "loop_laws E packets unread backlog" and "send_laws E sent"
  shows "host_op sent backlog (\<lambda>c raw. if raw = stream_u64 sid \<and> accepts_writes E sid c then data else []) (qc_send_stream E sid data)"
proof (unfold host_op_def, intro allI, goal_cases)
  case (1 c k events)
  show ?case
  proof (cases "data \<noteq> [] \<and> accepts_writes E sid c")
    case False
    then show ?thesis
      by (auto simp: qc_send_stream_def accepts_writes_def split: sum.splits)
  next
    case True
    then obtain st where st: "get_or_create_local_stream_state E sid c = Ok st" "\<not> local_write_closed st"
      by (auto simp: accepts_writes_def split: sum.splits)
    let ?d = "put_stream (stream_u64 sid) (st\<lparr>pending_writes := pending_writes st @ [write_data data]\<rparr>) c"
    have "qc_send_stream E sid data (c, k, events) = drain_and_flush E (?d, k, events)"
      using True st by (simp add: qc_send_stream_def)
    then show ?thesis
      using enqueue_then_drain [OF assms, of c ?d "\<lambda>raw. if raw = stream_u64 sid \<and> accepts_writes E sid c then data else []" k events]
        written_enqueue [OF st(1), of sent "write_data data"] True by (simp add: write_data_def)
  qed
qed

lemma host_op_close_write:
  assumes "loop_laws E packets unread backlog" and "send_laws E sent"
  shows "host_op sent backlog (\<lambda>_ _. []) (qc_close_stream_write E sid)"
proof (unfold host_op_def, intro allI, goal_cases)
  case (1 c k events)
  show ?case
  proof (cases "accepts_writes E sid c")
    case False
    then show ?thesis
      by (auto simp: qc_close_stream_write_def accepts_writes_def split: sum.splits)
  next
    case True
    then obtain st where st: "get_or_create_local_stream_state E sid c = Ok st" "\<not> local_write_closed st"
      by (auto simp: accepts_writes_def split: sum.splits)
    let ?st = "on_local_write_closed st"
    let ?d = "put_stream (stream_u64 sid) (?st\<lparr>pending_writes := pending_writes ?st @ [write_fin]\<rparr>) c"
    have "queued (?st\<lparr>pending_writes := pending_writes ?st @ [write_fin]\<rparr>) = queued (st\<lparr>pending_writes := pending_writes st @ [write_fin]\<rparr>)"
      by (simp add: queued_def on_local_write_closed_def)
    then have "written sent ?d raw = written sent c raw" for raw
      using written_enqueue [OF st(1), of sent write_fin raw] by (simp add: write_fin_def written_def split: if_splits)
    moreover have "qc_close_stream_write E sid (c, k, events) = drain_and_flush E (?d, k, events)"
      using st by (simp add: qc_close_stream_write_def Let_def)
    ultimately show ?thesis
      using enqueue_then_drain [OF assms, of c ?d "\<lambda>_. []" k events] by simp
  qed
qed

lemma host_op_reset:
  fixes E :: "('q, 's, 'mh) quic_env"
  assumes "send_laws E sent"
  shows "host_op sent backlog (\<lambda>_ _. []) (qc_reset_stream E sid)"
proof (unfold host_op_def, intro allI, goal_cases)
  case (1 c k events)
  show ?case
  proof (cases "bm_get (qc_streams c) (stream_u64 sid)")
    case None
    then show ?thesis by (simp add: qc_reset_stream_def)
  next
    case (Some st)
    obtain q1 r1 where q1: "q_stream_shutdown E (stream_u64 sid) ShutdownWrite 0 (qc_conn c) = (q1, r1)" by force
    obtain q2 r2 where q2: "q_stream_shutdown E (stream_u64 sid) ShutdownRead 0 q1 = (q2, r2)" by force
    note s1 = send_lawsD(7) [OF assms q1] and s2 = send_lawsD(7) [OF assms q2]
    let ?st = "st\<lparr>local_write_closed := True, remote_write_closed := True\<rparr>"
    obtain st' evs where n: "note_closed (qc_id c) sid (?st, events) = (st', evs)" by force
    obtain new where new: "evs = events @ new" "list_all (stream_event (qc_id c)) new"
      using events_note_closed [of "qc_id c" sid "(?st, events)"] n by auto
    have st': "queued st' = queued st"
      using queued_note_closed [of "qc_id c" sid "(?st, events)"] n by simp
    let ?d = "put_stream (stream_u64 sid) st' (c\<lparr>qc_conn := q2\<rparr>)"
    have "written sent ?d raw = written sent c raw" for raw
      using Some st' s1 s2 by (simp add: written_def)
    then show ?thesis
      using Some q1 q2 n new s1 s2
      by (cases r1; cases r2) (auto simp: qc_reset_stream_def written_def)
  qed
qed

lemma host_op_close:
  assumes "loop_laws E packets unread backlog" and "send_laws E sent"
  shows "host_op sent backlog (\<lambda>_ _. []) (qc_close E)"
proof (unfold host_op_def, intro allI, goal_cases)
  case (1 c k events)
  obtain q r where q: "q_close E True 0 (lit ''bye'') (qc_conn c) = (q, r)" by force
  note sent_q = send_lawsD(5) [OF assms(2) q]
  show ?case
  proof (cases "\<exists>e. r = Err (QError e)")
    case True
    then show ?thesis
      using q sent_q by (auto simp: qc_close_def written_def)
  next
    case False
    let ?d = "c\<lparr>qc_conn := q, qc_state := CsClosing\<rparr>"
    have "qc_close E (c, k, events) = map_option (\<lambda>((c, k, drained), res). ((c, k, events), res)) (drain_and_flush E (?d, k, []))"
      using q False by (cases r; cases "projl r") (auto simp: qc_close_def)
    moreover have "written sent ?d raw = written sent c raw @ []" for raw
      using sent_q by (simp add: written_def)
    ultimately show ?thesis
      using enqueue_then_drain [OF assms, of c ?d "\<lambda>_. []" k "[]"] by fastforce
  qed
qed

end
