(* ===== verification/QuicProps.thy ===== *)
theory QuicProps
  imports Quic QuicConnProps
begin

text \<open>
  What the QUIC transport promises: its tables by connection id, QUIC connection id and peer agree whatever
  is called and whatever arrives, and its polls return.
\<close>

section \<open>The tables of the transport\<close>

definition peer_of :: "('q, 's, 'mh) quic_transport \<Rightarrow> connection_id \<Rightarrow> 'mh peer_id option" where
  "peer_of t c = Option.bind (bm_get (qt_connections t) c) (\<lambda>conn. ep_peer_id (qc_endpoint conn))"

text \<open>The index by peer lists exactly the connections whose endpoint names the peer.\<close>

definition peers_ok :: "('q, 's, 'mh) quic_transport \<Rightarrow> bool" where
  "peers_ok t \<longleftrightarrow>
     (\<forall>p. set (connection_ids_for_peer p t) = {c. peer_of t c = Some p} \<and> bs_ok (connection_ids_for_peer p t) \<and>
        qt_peers t p \<noteq> Some [])"

definition conns_ok :: "('q, 's, 'mh) quic_transport \<Rightarrow> bool" where
  "conns_ok t \<longleftrightarrow> bm_ok (qt_connections t) \<and>
     (\<forall>c conn. bm_get (qt_connections t) c = Some conn \<longrightarrow> qc_id conn = c \<and> bm_ok (qc_streams conn))"

definition cids_ok :: "('q, 's, 'mh) quic_transport \<Rightarrow> bool" where
  "cids_ok t \<longleftrightarrow> (\<forall>cid c. qt_cids t cid = Some c \<longrightarrow> bm_get (qt_connections t) c \<noteq> None)"

definition quic_ok :: "('q, 's, 'mh) quic_transport \<Rightarrow> bool" where
  "quic_ok t \<longleftrightarrow> conns_ok t \<and> peers_ok t \<and> cids_ok t"

lemma quic_ok_new: "quic_ok (quic_transport_new k p)"
  by (simp add: quic_ok_def conns_ok_def peers_ok_def cids_ok_def quic_transport_new_def connection_ids_for_peer_def peer_of_def)

lemma quic_ok_frame [simp]:
  "quic_ok (t\<lparr>qt_socket := k\<rparr>) = quic_ok t" "quic_ok (t\<lparr>qt_pending := evs\<rparr>) = quic_ok t"
  "quic_ok (t\<lparr>qt_next_id := n\<rparr>) = quic_ok t" "quic_ok (t\<lparr>qt_listen_addr := a\<rparr>) = quic_ok t"
  by (simp_all add: quic_ok_def conns_ok_def peers_ok_def cids_ok_def connection_ids_for_peer_def peer_of_def)

lemma ids_index:
  "connection_ids_for_peer q (index_peer_connection p c t) =
     (if q = p then bs_insert c (connection_ids_for_peer p t) else connection_ids_for_peer q t)"
  by (simp add: connection_ids_for_peer_def index_peer_connection_def)

lemma ids_remove:
  "connection_ids_for_peer q (remove_peer_connection p c t) =
     (if q = p then bs_remove c (connection_ids_for_peer p t) else connection_ids_for_peer q t)"
  by (auto simp: connection_ids_for_peer_def remove_peer_connection_def bs_remove_def Let_def split: option.split)

lemma index_fields [simp]:
  "qt_connections (index_peer_connection p c t) = qt_connections t" "qt_cids (index_peer_connection p c t) = qt_cids t"
  "qt_pending (index_peer_connection p c t) = qt_pending t" "qt_socket (index_peer_connection p c t) = qt_socket t"
  "qt_connections (remove_peer_connection p c t) = qt_connections t" "qt_cids (remove_peer_connection p c t) = qt_cids t"
  "qt_pending (remove_peer_connection p c t) = qt_pending t" "qt_socket (remove_peer_connection p c t) = qt_socket t"
  by (auto simp: index_peer_connection_def remove_peer_connection_def Let_def split: option.split)

lemma index_socket [simp]: "index_peer_connection p c (t\<lparr>qt_socket := k\<rparr>) = (index_peer_connection p c t)\<lparr>qt_socket := k\<rparr>"
  by (simp add: index_peer_connection_def)

lemma peer_entry_nonempty:
  "\<forall>p. qt_peers t p \<noteq> Some [] \<Longrightarrow> qt_peers (index_peer_connection q c t) p \<noteq> Some []"
  "\<forall>p. qt_peers t p \<noteq> Some [] \<Longrightarrow> qt_peers (remove_peer_connection q c t) p \<noteq> Some []"
  by (auto simp: index_peer_connection_def remove_peer_connection_def bs_insert_def Let_def split: option.splits if_splits)

text \<open>Moving a connection in the index from the peer it had to the peer it has.\<close>

definition reindex ::
  "connection_id \<Rightarrow> 'mh peer_id option \<Rightarrow> 'mh peer_id option \<Rightarrow> ('q, 's, 'mh) quic_transport \<Rightarrow> ('q, 's, 'mh) quic_transport" where
  "reindex c old new t =
     (let t = (case old of None \<Rightarrow> t | Some p \<Rightarrow> remove_peer_connection p c t)
      in case new of None \<Rightarrow> t | Some p \<Rightarrow> index_peer_connection p c t)"

lemma reindex_fields [simp]:
  "qt_connections (reindex c old new t) = qt_connections t" "qt_cids (reindex c old new t) = qt_cids t"
  "qt_pending (reindex c old new t) = qt_pending t" "qt_socket (reindex c old new t) = qt_socket t"
  by (auto simp: reindex_def split: option.split)

lemma peers_ok_reindex:
  assumes "peers_ok t" and "\<And>d. d \<noteq> c \<Longrightarrow> peer_of t' d = peer_of t d" and "qt_peers t' = qt_peers t"
  shows "peers_ok (reindex c (peer_of t c) (peer_of t' c) t')"
proof -
  have ids: "connection_ids_for_peer p t' = connection_ids_for_peer p t" for p
    using assms(3) by (simp add: connection_ids_for_peer_def)
  have same: "peer_of (reindex c old new t') = peer_of t'" for old new
    by (simp add: peer_of_def fun_eq_iff)
  have t: "set (connection_ids_for_peer p t) = {c. peer_of t c = Some p}" "bs_ok (connection_ids_for_peer p t)"
    "qt_peers t' p \<noteq> Some []" for p
    using assms(1,3) by (simp_all add: peers_ok_def)
  have "connection_ids_for_peer p (reindex c (peer_of t c) (peer_of t' c) t') =
      (let ids = (if peer_of t c = Some p then bs_remove c (connection_ids_for_peer p t) else connection_ids_for_peer p t)
       in if peer_of t' c = Some p then bs_insert c ids else ids)" for p
    by (auto simp: reindex_def ids_index ids_remove ids Let_def split: option.split)
  then have "set (connection_ids_for_peer p (reindex c (peer_of t c) (peer_of t' c) t')) = {d. peer_of t' d = Some p} \<and>
      bs_ok (connection_ids_for_peer p (reindex c (peer_of t c) (peer_of t' c) t'))" for p
    using t [of p] assms(2) by (auto simp: Let_def) (metis)+
  moreover have "qt_peers (reindex c old new t') p \<noteq> Some []" for old new p
    using t(3) peer_entry_nonempty [of t'] peer_entry_nonempty(1) [of "remove_peer_connection (the old) c t'"]
      peer_entry_nonempty(2) [of t']
    by (auto simp: reindex_def Let_def split: option.split)
  ultimately show ?thesis
    by (simp add: peers_ok_def same)
qed

lemma peer_of_put [simp]:
  "peer_of (t\<lparr>qt_connections := bm_insert c conn (qt_connections t)\<rparr>) d =
     (if d = c then ep_peer_id (qc_endpoint conn) else peer_of t d)"
  by (simp add: peer_of_def)

text \<open>A connection is added or replaced, with its place in the index.\<close>

lemma quic_ok_put:
  assumes "quic_ok t" and "qc_id conn = c" and "bm_ok (qc_streams conn)"
  shows "quic_ok (reindex c (peer_of t c) (ep_peer_id (qc_endpoint conn)) (t\<lparr>qt_connections := bm_insert c conn (qt_connections t)\<rparr>))"
proof -
  let ?t = "t\<lparr>qt_connections := bm_insert c conn (qt_connections t)\<rparr>"
  have "peers_ok (reindex c (peer_of t c) (peer_of ?t c) ?t)"
    using assms(1) by (intro peers_ok_reindex) (auto simp: quic_ok_def)
  moreover have "conns_ok (reindex c (peer_of t c) (peer_of ?t c) ?t)" "cids_ok (reindex c (peer_of t c) (peer_of ?t c) ?t)"
    using assms by (auto simp: quic_ok_def conns_ok_def cids_ok_def bm.invar_upd)
  ultimately show ?thesis
    by (simp add: quic_ok_def)
qed

lemma bs_reinsert: "c \<in> set ids \<Longrightarrow> bs_ok ids \<Longrightarrow> bs_insert c (bs_remove c ids) = ids"
proof -
  assume c: "c \<in> set ids" and ok: "bs_ok ids"
  have "bs_ok (bs_insert c (bs_remove c ids))" "set (bs_insert c (bs_remove c ids)) = set ids"
    using c ok by auto
  then show ?thesis
    using ok unfolding bs_ok_def by (metis strict_sorted_equal)
qed

text \<open>Replacing a connection by one with the same peer.\<close>

lemma quic_ok_replace:
  assumes "quic_ok t" and "bm_get (qt_connections t) c = Some conn" and "qc_id conn' = c" and "bm_ok (qc_streams conn')"
    and "ep_peer_id (qc_endpoint conn') = ep_peer_id (qc_endpoint conn)"
  shows "quic_ok (t\<lparr>qt_connections := bm_insert c conn' (qt_connections t)\<rparr>)"
proof -
  let ?t = "t\<lparr>qt_connections := bm_insert c conn' (qt_connections t)\<rparr>"
  have "peer_of ?t = peer_of t"
    using assms(2,5) by (auto simp: peer_of_def fun_eq_iff)
  then have "peers_ok ?t"
    using assms(1) by (simp add: quic_ok_def peers_ok_def connection_ids_for_peer_def)
  then show ?thesis
    using assms(1,3,4) by (auto simp: quic_ok_def conns_ok_def cids_ok_def bm.invar_upd)
qed

lemma quic_ok_cid:
  "quic_ok t \<Longrightarrow> bm_get (qt_connections t) c \<noteq> None \<Longrightarrow> quic_ok (t\<lparr>qt_cids := (qt_cids t)(cid \<mapsto> c)\<rparr>)"
  by (auto simp: quic_ok_def conns_ok_def cids_ok_def peers_ok_def connection_ids_for_peer_def peer_of_def)

text \<open>A connection leaves the tables.\<close>

lemma quic_ok_remove:
  assumes "quic_ok t" and "bm_get (qt_connections t) c = Some conn"
  shows "quic_ok (unindex_connection c (ep_peer_id (qc_endpoint conn)) (t\<lparr>qt_connections := bm_remove c (qt_connections t)\<rparr>))"
proof -
  let ?t = "t\<lparr>qt_connections := bm_remove c (qt_connections t), qt_cids := (\<lambda>cid. if qt_cids t cid = Some c then None else qt_cids t cid)\<rparr>"
  have peer: "peer_of ?t d = (if d = c then None else peer_of t d)" for d
    by (simp add: peer_of_def)
  have "peers_ok (reindex c (peer_of t c) (peer_of ?t c) ?t)"
    using assms(1) peer by (intro peers_ok_reindex) (auto simp: quic_ok_def)
  moreover have "unindex_connection c (ep_peer_id (qc_endpoint conn)) (t\<lparr>qt_connections := bm_remove c (qt_connections t)\<rparr>) =
      reindex c (peer_of t c) (peer_of ?t c) ?t"
    using assms(2) peer by (cases "ep_peer_id (qc_endpoint conn)") (simp_all add: unindex_connection_def reindex_def peer_of_def Let_def cong: if_cong)
  moreover have "conns_ok (reindex c (peer_of t c) (peer_of ?t c) ?t)" "cids_ok (reindex c (peer_of t c) (peer_of ?t c) ?t)"
    using assms by (auto simp: quic_ok_def conns_ok_def cids_ok_def bm.invar_del)
  ultimately show ?thesis
    by (simp add: quic_ok_def)
qed

section \<open>Operations of the host\<close>

text \<open>The allocator: what it returns is free and not zero.\<close>

lemma allocate_loop_free:
  "allocate_loop used start raw = (following, Some c) \<Longrightarrow> \<not> used c \<and> connection_u64 c \<noteq> 0 \<and> following = connection_u64 c + 1"
proof (induction used start raw rule: allocate_loop.induct)
  case (1 used start raw)
  then show ?case
    by (subst (asm) (2) allocate_loop.simps) (auto simp: Let_def split: if_splits)
qed

text \<open>It gives up only when every number from where it stands up to where it started is taken.\<close>

lemma allocate_loop_full:
  assumes "allocate_loop used start raw = (following, None)" and "i < 2 ^ 64 - unat (raw - start)"
  shows "raw + of_nat i = 0 \<or> used (ConnectionId (raw + of_nat i))"
  using assms
proof (induction used start raw arbitrary: i rule: allocate_loop.induct)
  case (1 used start raw)
  have taken: "raw = 0 \<or> used (ConnectionId raw)"
    using "1.prems"(1) by (subst (asm) allocate_loop.simps) (auto simp: Let_def split: if_splits)
  show ?case
  proof (cases i)
    case 0
    then show ?thesis using taken by simp
  next
    case (Suc j)
    have "unat (raw - start) + unat (1 :: u64) < 2 ^ LENGTH(64)"
      using "1.prems"(2) Suc by simp
    then have "unat (raw - start + 1) = unat (raw - start) + 1"
      using unat_add_lem [of "raw - start" 1] by simp
    then have next_off: "unat (raw + 1 - start) = unat (raw - start) + 1"
      by (simp add: algebra_simps)
    then have "raw + 1 \<noteq> start" using Suc by auto
    then have rest: "allocate_loop used start (raw + 1) = (following, None)"
      using "1.prems"(1) taken by (subst (asm) allocate_loop.simps) (auto simp: Let_def split: if_splits)
    have "raw + 1 + of_nat j = 0 \<or> used (ConnectionId (raw + 1 + of_nat j))"
      using "1.IH" [of "raw + 1" j] rest taken \<open>raw + 1 \<noteq> start\<close> "1.prems"(2) Suc next_off by auto
    then show ?thesis using Suc by (simp add: add.assoc)
  qed
qed

text \<open>An operation that returns and keeps the tables in order.\<close>

definition tables_op :: "('s \<Rightarrow> nat) \<Rightarrow> (('q, 's, 'mh) quic_transport, 'a) io \<Rightarrow> bool" where
  "tables_op backlog m \<longleftrightarrow>
     (\<forall>t. quic_ok t \<longrightarrow> (\<exists>t' r. m t = Some (t', r) \<and> quic_ok t' \<and> backlog (qt_socket t') \<le> backlog (qt_socket t)))"

lemma quic_okD:
  assumes "quic_ok t" and "bm_get (qt_connections t) c = Some conn"
  shows "qc_id conn = c" and "bm_ok (qc_streams conn)"
  using assms by (auto simp: quic_ok_def conns_ok_def)

lemma on_connection_tables:
  assumes "host_op sent backlog extra m"
  shows "tables_op backlog (on_connection c m)"
proof (unfold tables_op_def, intro allI impI)
  fix t :: "('a, 'b, 'c) quic_transport"
  assume ok: "quic_ok t"
  show "\<exists>t' r. on_connection c m t = Some (t', r) \<and> quic_ok t' \<and> backlog (qt_socket t') \<le> backlog (qt_socket t)"
  proof (cases "bm_get (qt_connections t) c")
    case None
    then show ?thesis using ok by (simp add: on_connection_def)
  next
    case (Some conn)
    obtain conn' k' new r where m: "m (conn, qt_socket t, qt_pending t) = Some ((conn', k', qt_pending t @ new), r)"
      "backlog k' \<le> backlog (qt_socket t)" "qc_id conn' = qc_id conn" "qc_endpoint conn' = qc_endpoint conn"
      "bm_ok (qc_streams conn) \<longrightarrow> bm_ok (qc_streams conn')"
      using assms [unfolded host_op_def, rule_format, of conn "qt_socket t" "qt_pending t"] by auto
    have "quic_ok (t\<lparr>qt_connections := bm_insert c conn' (qt_connections t)\<rparr>)"
      using quic_okD [OF ok Some] m by (intro quic_ok_replace [OF ok Some]) simp_all
    then show ?thesis using m Some by (simp add: on_connection_def)
  qed
qed

lemma quic_ok_open: "quic_ok t \<Longrightarrow> quic_ok (fst (qt_open_stream c t))"
proof (cases "bm_get (qt_connections t) c")
  case (Some conn)
  assume ok: "quic_ok t"
  obtain conn' r where conn': "qc_open_stream conn = (conn', r)" by force
  have "qc_id conn' = qc_id conn" "qc_endpoint conn' = qc_endpoint conn" "bm_ok (qc_streams conn) \<longrightarrow> bm_ok (qc_streams conn')"
    using conn' by (auto simp: qc_open_stream_def put_stream_def Let_def bm.invar_upd split: if_splits)
  then have "quic_ok (t\<lparr>qt_connections := bm_insert c conn' (qt_connections t)\<rparr>)"
    using quic_okD [OF ok Some] by (intro quic_ok_replace [OF ok Some]) simp_all
  then show ?thesis using Some conn' by (cases r) (simp_all add: qt_open_stream_def)
qed (simp add: qt_open_stream_def)

lemma quic_ok_allocate: "quic_ok (fst (allocate_connection_id t)) = quic_ok t"
  by (simp add: allocate_connection_id_def split: prod.split)

lemma allocate_fresh:
  "allocate_connection_id t = (t', Ok c) \<Longrightarrow>
     bm_get (qt_connections t) c = None \<and> qt_connections t' = qt_connections t \<and> qt_socket t' = qt_socket t \<and>
     peer_of t' = peer_of t"
  by (auto simp: allocate_connection_id_def ok_or_def peer_of_def fun_eq_iff dest: allocate_loop_free split: prod.splits option.splits)

text \<open>A new connection with its place in the tables.\<close>

lemma quic_ok_add:
  assumes "quic_ok t" and "bm_get (qt_connections t) (qc_id conn) = None" and "bm_ok (qc_streams conn)"
  shows "quic_ok (reindex (qc_id conn) None (ep_peer_id (qc_endpoint conn)) (add_connection E conn t))"
proof -
  let ?c = "qc_id conn"
  let ?t = "reindex ?c None (ep_peer_id (qc_endpoint conn)) (t\<lparr>qt_connections := bm_insert ?c conn (qt_connections t)\<rparr>)"
  have "quic_ok ?t"
    using quic_ok_put [OF assms(1) refl assms(3)] assms(2) by (simp add: peer_of_def)
  then have "quic_ok (?t\<lparr>qt_cids := (qt_cids ?t)(q_source_id E (qc_conn conn) \<mapsto> ?c)\<rparr>)"
    by (rule quic_ok_cid) simp
  moreover have "?t\<lparr>qt_cids := (qt_cids ?t)(q_source_id E (qc_conn conn) \<mapsto> ?c)\<rparr> =
      reindex ?c None (ep_peer_id (qc_endpoint conn)) (add_connection E conn t)"
    by (cases "ep_peer_id (qc_endpoint conn)") (simp_all add: reindex_def add_connection_def index_peer_connection_def)
  ultimately show ?thesis by simp
qed

lemma quic_new_fields [simp]:
  "qc_id (quic_connection_new E c q addr endpoint) = c" "qc_streams (quic_connection_new E c q addr endpoint) = []"
  "qc_endpoint (quic_connection_new E c q addr endpoint) = endpoint" "qc_conn (quic_connection_new E c q addr endpoint) = q"
  "qc_state (quic_connection_new E c q addr endpoint) = CsConnecting"
  by (simp_all add: quic_connection_new_def)

lemma loop_laws_random: "loop_laws E packets unread backlog \<Longrightarrow> os_random E n k = (k', r) \<Longrightarrow> backlog k' \<le> backlog k"
  unfolding loop_laws_def by (metis fst_conv)

lemma connect_to_returns:
  assumes "loop_laws E packets unread backlog" and "send_laws E sent" and "quic_ok t" and "bm_get (qt_connections t) c = None"
  shows "\<exists>t' r. connect_to E c addr peer_socket local_socket t = Some (t', r) \<and> quic_ok t' \<and>
    backlog (qt_socket t') \<le> backlog (qt_socket t) \<and> qt_pending t' = qt_pending t \<and>
    (\<forall>d. d \<noteq> c \<longrightarrow> bm_get (qt_connections t') d = bm_get (qt_connections t) d) \<and>
    peer_of t' c = (if r = Ok c then Some (pa_peer_id addr) else None) \<and> (r = Ok c \<or> (\<exists>why. r = Err why))"
proof -
  obtain k1 r1 where k1: "os_random E MAX_CONN_ID_LEN (qt_socket t) = (k1, r1)" by force
  note less = loop_laws_random [OF assms(1) k1]
  show ?thesis
  proof (cases "\<exists>scid q. r1 = Ok scid \<and> q_connect E scid local_socket peer_socket = Ok q")
    case False
    then obtain why where "connect_to E c addr peer_socket local_socket t = Some (t\<lparr>qt_socket := k1\<rparr>, Err why)"
      using k1 by (cases r1; cases "q_connect E (projr r1) local_socket peer_socket")
        (auto simp: connect_to_def generate_scid_def)
    then show ?thesis
      using less assms(3,4) by (simp add: peer_of_def)
  next
    case True
    then obtain scid q where q: "r1 = Ok scid" "q_connect E scid local_socket peer_socket = Ok q" by blast
    let ?t = "\<lambda>k. t\<lparr>qt_socket := k\<rparr>"
    let ?conn = "\<lambda>q. quic_connection_new E c q peer_socket (endpoint_from_peer_addr addr)"
    obtain q' k' r where s: "send_packets E (\<lambda>e. TrDialFailed c (lit ''initial send error: '' @ e))
        (\<lambda>e. TrDialFailed c (lit ''udp send error: '' @ e)) q k1 = Some (q', k', r)" "backlog k' \<le> backlog k1"
      using send_packets_returns [OF assms(1,2)] by blast
    have "quic_ok (reindex c None (Some (pa_peer_id addr)) (add_connection E (?conn q') (?t k')))"
      using quic_ok_add [of "?t k'" "?conn q'" E] assms(3,4) by (simp add: endpoint_from_peer_addr_def endpoint_with_peer_id_def)
    then have "quic_ok (index_peer_connection (pa_peer_id addr) c (add_connection E (?conn q') (?t k')))"
      by (simp add: reindex_def)
    then show ?thesis
      using s less k1 q assms(3,4)
      by (cases r) (simp_all add: connect_to_def generate_scid_def peer_of_def add_connection_def
          endpoint_from_peer_addr_def endpoint_with_peer_id_def)
  qed
qed

lemma dial_tables:
  assumes "loop_laws E packets unread backlog" and "send_laws E sent"
  shows "tables_op backlog (qt_dial E addr)"
proof (unfold tables_op_def, intro allI impI)
  fix t :: "('a, 'b, 'c) quic_transport"
  assume ok: "quic_ok t"
  obtain t1 r where t1: "allocate_connection_id t = (t1, r)" by force
  have "quic_ok t1"
    using ok quic_ok_allocate [of t] t1 by simp
  moreover have "qt_socket t1 = qt_socket t"
    using t1 by (auto simp: allocate_connection_id_def split: prod.splits)
  moreover have "bm_get (qt_connections t1) c = None" if "r = Ok c" for c
    using allocate_fresh [of t t1 c] t1 that by simp
  ultimately show "\<exists>t' r. qt_dial E addr t = Some (t', r) \<and> quic_ok t' \<and> backlog (qt_socket t') \<le> backlog (qt_socket t)"
    using t1 connect_to_returns [OF assms, of t1] by (auto simp: qt_dial_def split: sum.split) metis
qed

lemma quic_ok_listen: "quic_ok t \<Longrightarrow> quic_ok (fst (qt_listen E addr t))"
  by (auto simp: qt_listen_def Let_def split: sum.split)

lemma quic_ok_listen_on_bound: "quic_ok t \<Longrightarrow> quic_ok (fst (qt_listen_on_bound_addr E t))"
  by (auto simp: qt_listen_on_bound_addr_def quic_ok_listen split: sum.split)

lemma quic_ok_raw_udp: "quic_ok t \<Longrightarrow> quic_ok (fst (send_raw_udp E target payload t))"
  by (auto simp: send_raw_udp_def split: sum.split prod.split)

lemma quic_ok_verify_peer: "quic_ok t \<Longrightarrow> quic_ok (fst (verify_connection_peer_id c p t))"
proof (cases "bm_get (qt_connections t) c")
  case (Some conn)
  assume ok: "quic_ok t"
  let ?conn = "conn\<lparr>qc_endpoint := endpoint_set_peer_id p (qc_endpoint conn)\<rparr>"
  have "quic_ok (reindex c (ep_peer_id (qc_endpoint conn)) (Some p) (t\<lparr>qt_connections := bm_insert c ?conn (qt_connections t)\<rparr>))"
    using quic_ok_put [OF ok, of ?conn c] quic_okD [OF ok Some] Some by (simp add: peer_of_def endpoint_set_peer_id_def)
  then show ?thesis
    using ok Some by (simp add: verify_connection_peer_id_def reindex_def Let_def)
qed (simp add: verify_connection_peer_id_def)

section \<open>Polling\<close>

text \<open>An endpoint whose peer a certificate proved that a QUIC connection has of its remote.\<close>

definition certified :: "('q, 's, 'mh) quic_env \<Rightarrow> 'mh connection_endpoint \<Rightarrow> bool" where
  "certified E endpoint \<longleftrightarrow>
     (\<exists>q cert p. q_peer_cert E q = Some cert \<and> verify_certificate E cert = Ok p \<and> ep_peer_id endpoint = Some p)"

text \<open>
  The events of a poll: a connection is announced only with a certified endpoint, which names the peer the
  connection had already, if it had one; and an identity is reported as verified only if it is certified.
\<close>

fun announced :: "('q, 's, 'mh) quic_env \<Rightarrow> (connection_id \<Rightarrow> 'mh peer_id option) \<Rightarrow> 'mh transport_event \<Rightarrow> bool" where
  "announced E peers (TeConnected c endpoint) \<longleftrightarrow> certified E endpoint \<and> (peers c = None \<or> peers c = ep_peer_id endpoint)"
| "announced E peers (TePeerIdentityVerified c endpoint _) \<longleftrightarrow> certified E endpoint"
| "announced E peers _ \<longleftrightarrow> True"

definition announces :: "('q, 's, 'mh) quic_env \<Rightarrow> (connection_id \<Rightarrow> 'mh peer_id option) \<Rightarrow> 'mh transport_event list \<Rightarrow> bool" where
  "announces E peers events \<longleftrightarrow> list_all (announced E peers) events"

definition poll_keeps ::
  "('q, 's, 'mh) quic_env \<Rightarrow> ('s \<Rightarrow> nat) \<Rightarrow> ('q, 's, 'mh) poll_io \<Rightarrow> ('q, 's, 'mh) poll_io \<Rightarrow> bool" where
  "poll_keeps E backlog st st' \<longleftrightarrow>
     (quic_ok (fst st) \<longrightarrow>
        quic_ok (fst st') \<and> backlog (qt_socket (fst st')) \<le> backlog (qt_socket (fst st)) \<and>
        qt_pending (fst st') = qt_pending (fst st) \<and>
        (\<forall>c p. peer_of (fst st) c = Some p \<longrightarrow> peer_of (fst st') c = Some p) \<and>
        (\<exists>new. snd st' = snd st @ new \<and> announces E (peer_of (fst st)) new))"

lemma poll_keeps_refl [simp]: "poll_keeps E backlog st st"
  by (simp add: poll_keeps_def announces_def)

lemma announces_append [simp]: "announces E peers (as @ bs) \<longleftrightarrow> announces E peers as \<and> announces E peers bs"
  by (simp add: announces_def)

lemma announced_mono:
  assumes "announced E peers' e" and "\<forall>c p. peers c = Some p \<longrightarrow> peers' c = Some p"
  shows "announced E peers e"
proof (cases e)
  case (TeConnected c endpoint)
  then show ?thesis using assms by (cases "peers c") auto
qed (use assms(1) in auto)

lemma poll_keeps_trans [trans]:
  assumes "poll_keeps E backlog st st'" and "poll_keeps E backlog st' st''"
  shows "poll_keeps E backlog st st''"
proof -
  have "announces E (peer_of (fst st)) new"
    if "announces E (peer_of (fst st')) new" "\<forall>c p. peer_of (fst st) c = Some p \<longrightarrow> peer_of (fst st') c = Some p" for new
    using that(1) announced_mono [OF _ that(2)] by (auto simp: announces_def elim!: list.pred_mono_strong)
  then show ?thesis
    using assms by (auto simp: poll_keeps_def)
qed

lemma stream_events_announce: "list_all (stream_event c) new \<Longrightarrow> announces E peers new"
proof -
  have "announced E peers e" if "stream_event c e" for e using that by (cases e) simp_all
  then show "list_all (stream_event c) new \<Longrightarrow> announces E peers new" by (auto simp: announces_def list_all_iff)
qed

text \<open>A connection is replaced during a poll: it keeps its peer, or has none yet and its certificate proves one.\<close>

lemma poll_keeps_replace:
  fixes t :: "('q, 's, 'mh) quic_transport"
  assumes "bm_get (qt_connections t) c = Some conn" and "qc_id conn' = qc_id conn"
    and "bm_ok (qc_streams conn) \<longrightarrow> bm_ok (qc_streams conn')" and "ep_peer_id (qc_endpoint conn') = ep_peer_id (qc_endpoint conn)"
    and "backlog k \<le> backlog (qt_socket t)" and "announces E (peer_of t) new"
  shows "poll_keeps E backlog (t, events) (t\<lparr>qt_connections := bm_insert c conn' (qt_connections t), qt_socket := k\<rparr>, events @ new)"
proof -
  have "quic_ok (t\<lparr>qt_connections := bm_insert c conn' (qt_connections t)\<rparr>)" if ok: "quic_ok t"
    using quic_okD [OF ok assms(1)] assms(2-4) by (intro quic_ok_replace [OF ok assms(1)]) auto
  then show ?thesis
    using assms by (auto simp: poll_keeps_def peer_of_def)
qed

lemma poll_keeps_cid:
  "bm_get (qt_connections t) c \<noteq> None \<Longrightarrow> poll_keeps E backlog (t, events) (t\<lparr>qt_cids := (qt_cids t)(cid \<mapsto> c)\<rparr>, events)"
  using quic_ok_cid [of t c cid] by (auto simp: poll_keeps_def announces_def peer_of_def)

text \<open>The peer of a connection that had none becomes known.\<close>

lemma poll_keeps_identify:
  fixes t :: "('q, 's, 'mh) quic_transport"
  assumes "bm_get (qt_connections t) c = Some conn" and "qc_id conn' = qc_id conn"
    and "bm_ok (qc_streams conn) \<longrightarrow> bm_ok (qc_streams conn')" and "ep_peer_id (qc_endpoint conn) = None"
    and "ep_peer_id (qc_endpoint conn') = Some p" and "backlog k \<le> backlog (qt_socket t)" and "announces E (peer_of t) new"
  shows "poll_keeps E backlog (t, events)
    (index_peer_connection p c (t\<lparr>qt_connections := bm_insert c conn' (qt_connections t), qt_socket := k\<rparr>), events @ new)"
proof -
  have "quic_ok (index_peer_connection p c (t\<lparr>qt_connections := bm_insert c conn' (qt_connections t)\<rparr>))" if ok: "quic_ok t"
    using quic_ok_put [of t conn' c] quic_okD [OF ok assms(1)] ok assms(1-5) by (simp add: reindex_def peer_of_def)
  then show ?thesis
    using assms by (auto simp: poll_keeps_def peer_of_def)
qed

lemma poll_keepsI: "(quic_ok (fst st) \<Longrightarrow> poll_keeps E backlog st st') \<Longrightarrow> poll_keeps E backlog st st'"
  by (auto simp: poll_keeps_def)

lemma packet_announces:
  assumes "packet_outcome E conn conn' new r" and "peers (qc_id conn) = ep_peer_id (qc_endpoint conn)"
  shows "announces E peers new"
proof (cases "list_all (stream_event (qc_id conn)) new")
  case True
  then show ?thesis by (rule stream_events_announce)
next
  case False
  then obtain before where new: "new = before @ [TeConnected (qc_id conn) (qc_endpoint conn')]"
    "list_all (stream_event (qc_id conn)) before" "proves E (qc_endpoint conn) (qc_endpoint conn')"
    using assms(1) by (auto simp: packet_outcome_def)
  have "announces E peers [TeConnected (qc_id conn) (qc_endpoint conn')]"
    using new(3) assms(2) by (auto simp: announces_def certified_def proves_def endpoint_set_peer_id_def) blast+
  then show ?thesis
    using new stream_events_announce by auto
qed

lemma packet_certified:
  assumes "packet_outcome E conn conn' new r" and "ep_peer_id (qc_endpoint conn') \<noteq> ep_peer_id (qc_endpoint conn)"
  shows "certified E (qc_endpoint conn')"
  using assms by (auto simp: packet_outcome_def certified_def proves_def endpoint_set_peer_id_def)

lemma deliver_packet_returns:
  assumes "loop_laws E packets unread backlog" and "send_laws E sent"
  shows "\<exists>st' r. deliver_packet M E packet from local_addr c st = Some (st', r) \<and> poll_keeps E backlog st st'"
proof (cases st)
  case (Pair t events)
  show ?thesis
  proof (cases "bm_get (qt_connections t) c")
    case None
    then show ?thesis by (simp add: deliver_packet_def Pair)
  next
    case (Some conn)
    obtain conn' k new r where m: "recv_packet M E packet from local_addr (conn, qt_socket t, events) = Some ((conn', k, events @ new), r)"
      "conn_writes_kept sent backlog (conn, qt_socket t, events) (conn', k, events @ new)" "packet_outcome E conn conn' new r"
      using recv_packet_returns [OF assms] by blast
    have "deliver_packet M E packet from local_addr c st \<noteq> None"
      using Some m(1) by (simp add: deliver_packet_def Pair)
    then obtain st' r' where run: "deliver_packet M E packet from local_addr c st = Some (st', r')"
      by fast
    have kept: "qc_id conn' = qc_id conn" "bm_ok (qc_streams conn) \<longrightarrow> bm_ok (qc_streams conn')" "backlog k \<le> backlog (qt_socket t)"
      using m(2) by (auto simp: conn_writes_kept_def)
    let ?t = "t\<lparr>qt_connections := bm_insert c conn' (qt_connections t), qt_socket := k\<rparr>"
    let ?cid = "\<lambda>t. t\<lparr>qt_cids := (qt_cids t)(q_source_id E (qc_conn conn') \<mapsto> c)\<rparr>"
    have "poll_keeps E backlog st st'" if "quic_ok t"
    proof (cases "ep_peer_id (qc_endpoint conn') = ep_peer_id (qc_endpoint conn)")
      case True
      have new: "announces E (peer_of t) new"
        using packet_announces [OF m(3)] Some quic_okD [OF that Some] by (simp add: peer_of_def)
      have "poll_keeps E backlog (t, events) (?t, events @ new)"
        by (rule poll_keeps_replace [OF Some kept(1,2) True kept(3) new])
      moreover have "poll_keeps E backlog (?t, events @ new) (?cid ?t, events @ new)"
        by (rule poll_keeps_cid) simp
      moreover have "st' = (?t, events @ new) \<or> st' = (?cid ?t, events @ new)"
        using run m(1) Some True by (cases r) (auto simp: deliver_packet_def Pair Let_def)
      ultimately show ?thesis
        unfolding Pair using poll_keeps_trans by blast
    next
      case False
      then obtain p where p: "ep_peer_id (qc_endpoint conn) = None" "ep_peer_id (qc_endpoint conn') = Some p" "r = Ok ()"
        using m(3) by (auto simp: packet_outcome_def proves_def endpoint_set_peer_id_def)
      let ?new = "new @ [TePeerIdentityVerified c (qc_endpoint conn') None]"
      let ?v = "index_peer_connection p c ?t"
      have new: "announces E (peer_of t) ?new"
        using packet_announces [OF m(3)] Some quic_okD [OF that Some] packet_certified [OF m(3)] False
        by (simp add: peer_of_def) (simp add: announces_def)
      have "poll_keeps E backlog (t, events) (?v, events @ ?new)"
        by (rule poll_keeps_identify [OF Some kept(1,2) p(1,2) kept(3) new])
      moreover have "poll_keeps E backlog (?v, events @ ?new) (?cid ?v, events @ ?new)"
        by (rule poll_keeps_cid) simp
      moreover have "st' = (?cid ?v, events @ ?new)"
        using run m(1) Some p by (auto simp: deliver_packet_def Pair Let_def index_peer_connection_def)
      ultimately show ?thesis
        unfolding Pair using poll_keeps_trans by blast
    qed
    then show ?thesis
      using run Pair poll_keepsI [of st E backlog st'] by simp
  qed
qed

text \<open>A step of a poll returns and keeps all that.\<close>

definition poll_op :: "('q, 's, 'mh) quic_env \<Rightarrow> ('s \<Rightarrow> nat) \<Rightarrow> (('q, 's, 'mh) poll_io, 'a) io \<Rightarrow> bool" where
  "poll_op E backlog m \<longleftrightarrow> (\<forall>st. quic_ok (fst st) \<longrightarrow> (\<exists>st' r. m st = Some (st', r) \<and> poll_keeps E backlog st st'))"

lemma poll_opD:
  assumes "poll_op E backlog m" and "quic_ok (fst st)"
  obtains st' r where "m st = Some (st', r)" "poll_keeps E backlog st st'" "quic_ok (fst st')"
proof -
  obtain st' r where st': "m st = Some (st', r)" "poll_keeps E backlog st st'"
    using assms unfolding poll_op_def by blast
  moreover have "quic_ok (fst st')" using st'(2) assms(2) by (simp add: poll_keeps_def)
  ultimately show thesis using that by blast
qed

lemma poll_op_bind:
  fixes E :: "('q, 's, 'mh) quic_env"
  assumes "poll_op E backlog m" and "\<And>a. poll_op E backlog (f a)"
  shows "poll_op E backlog (io_bind m f)"
proof (unfold poll_op_def, intro allI impI)
  fix st :: "('q, 's, 'mh) poll_io"
  assume "quic_ok (fst st)"
  with assms(1) obtain st1 r where st1: "m st = Some (st1, r)" "poll_keeps E backlog st st1" "quic_ok (fst st1)"
    by (rule poll_opD)
  show "\<exists>st' r. io_bind m f st = Some (st', r) \<and> poll_keeps E backlog st st'"
  proof (cases r)
    case (Inr a)
    obtain st2 r2 where "f a st1 = Some (st2, r2)" "poll_keeps E backlog st1 st2"
      using poll_opD [OF assms(2) st1(3)] by metis
    then show ?thesis using st1 Inr poll_keeps_trans [OF st1(2)] by (auto simp: io_bind_def)
  qed (use st1 in \<open>simp add: io_bind_def\<close>)
qed

lemma poll_keeps_socket: "backlog k \<le> backlog (qt_socket t) \<Longrightarrow> poll_keeps E backlog (t, events) (t\<lparr>qt_socket := k\<rparr>, events)"
  by (simp add: poll_keeps_def announces_def peer_of_def)

lemma poll_keeps_accept:
  assumes "allocate_connection_id t = (t', Ok c)" and "qc_id conn = c" and "bm_ok (qc_streams conn)" and "ep_peer_id (qc_endpoint conn) = None"
  shows "poll_keeps E backlog (t, events) (add_connection E conn t', events @ [TeIncomingConnection c endpoint])"
proof -
  note fresh = allocate_fresh [OF assms(1)]
  have "quic_ok (add_connection E conn t')" if "quic_ok t"
    using quic_ok_add [of t' conn E] quic_ok_allocate [of t] that assms fresh by (simp add: reindex_def)
  moreover have "qt_pending t' = qt_pending t"
    using assms(1) by (auto simp: allocate_connection_id_def split: prod.splits)
  ultimately show ?thesis
    using fresh assms by (auto simp: poll_keeps_def announces_def add_connection_def peer_of_def)
qed

lemma accept_connection_op:
  fixes E :: "('q, 's, 'mh) quic_env"
  assumes "loop_laws E packets unread backlog" and "send_laws E sent"
  shows "poll_op E backlog (accept_connection E local_addr from)"
proof (unfold poll_op_def, intro allI impI)
  fix st :: "('q, 's, 'mh) poll_io"
  obtain t events where st: "st = (t, events)" by force
  obtain k1 r1 where k1: "os_random E MAX_CONN_ID_LEN (qt_socket t) = (k1, r1)" by force
  note less = loop_laws_random [OF assms(1) k1]
  show "\<exists>st' r. accept_connection E local_addr from st = Some (st', r) \<and> poll_keeps E backlog st st'"
  proof (cases "\<exists>scid q. r1 = Ok scid \<and> q_accept E scid local_addr from = Ok q")
    case False
    then obtain why where "accept_connection E local_addr from st = Some ((t\<lparr>qt_socket := k1\<rparr>, events), Err why)"
      using k1 by (cases r1; cases "q_accept E (projr r1) local_addr from") (auto simp: accept_connection_def generate_scid_def st)
    then show ?thesis using less poll_keeps_socket by (auto simp: st)
  next
    case True
    then obtain scid q where q: "r1 = Ok scid" "q_accept E scid local_addr from = Ok q" by blast
    obtain q' k' r where s: "send_packets E (\<lambda>e. TrPollError (lit ''accept send error: '' @ e))
        (\<lambda>e. TrPollError (lit ''udp send error: '' @ e)) q k1 = Some (q', k', r)" "backlog k' \<le> backlog k1"
      using send_packets_returns [OF assms] by blast
    let ?t = "t\<lparr>qt_socket := k'\<rparr>"
    have sock: "poll_keeps E backlog (t, events) (?t, events)"
      using less s(2) by (intro poll_keeps_socket) simp
    obtain t2 r2 where t2: "allocate_connection_id ?t = (t2, r2)" by force
    show ?thesis
    proof (cases "\<exists>u c. r = Ok u \<and> r2 = Ok c")
      case False
      have "poll_keeps E backlog (?t, events) (t2, events)"
        using t2 by (auto simp: allocate_connection_id_def poll_keeps_def announces_def peer_of_def split: prod.splits)
      then have "poll_keeps E backlog (t, events) (t2, events)"
        by (rule poll_keeps_trans [OF sock])
      then show ?thesis
        using sock False s k1 q t2 by (cases r; cases r2) (auto simp: accept_connection_def generate_scid_def st)
    next
      case True
      then obtain c where c: "r = Ok ()" "r2 = Ok c" by auto
      let ?endpoint = "endpoint_new (socket_addr_to_multiaddr from)"
      let ?conn = "quic_connection_new E c q' from ?endpoint"
      have "accept_connection E local_addr from st =
          Some ((add_connection E ?conn t2, events @ [TeIncomingConnection c ?endpoint]), Ok c)"
        using allocate_fresh [OF t2 [unfolded c]] s k1 q t2 c by (simp add: accept_connection_def generate_scid_def st Let_def)
      moreover have "poll_keeps E backlog (?t, events) (add_connection E ?conn t2, events @ [TeIncomingConnection c ?endpoint])"
        using t2 c by (intro poll_keeps_accept) (simp_all add: endpoint_new_def)
      ultimately show ?thesis
        using poll_keeps_trans [OF sock] by (simp add: st)
    qed
  qed
qed

lemma deliver_packet_op:
  "loop_laws E packets unread backlog \<Longrightarrow> send_laws E sent \<Longrightarrow> poll_op E backlog (deliver_packet M E packet from local_addr c)"
  unfolding poll_op_def using deliver_packet_returns by blast

lemma handle_datagram_op:
  fixes E :: "('q, 's, 'mh) quic_env"
  assumes "loop_laws E packets unread backlog" and "send_laws E sent"
  shows "poll_op E backlog (handle_datagram M E packet from)"
proof (unfold poll_op_def, intro allI impI)
  fix st :: "('q, 's, 'mh) poll_io"
  assume ok: "quic_ok (fst st)"
  obtain t events where st: "st = (t, events)" by force
  note deliver = deliver_packet_op [OF assms, of M packet "from"]
  have "poll_op E backlog (io_bind (accept_connection E a from) (deliver_packet M E packet from a))" for a
    by (rule poll_op_bind [OF accept_connection_op [OF assms] deliver])
  then have "\<exists>st' r. io_bind (accept_connection E a from) (deliver_packet M E packet from a) st = Some (st', r) \<and> poll_keeps E backlog st st'"
    "\<exists>st' r. deliver_packet M E packet from a c st = Some (st', r) \<and> poll_keeps E backlog st st'" for a c
    using deliver ok unfolding poll_op_def by blast+
  then show "\<exists>st' r. handle_datagram M E packet from st = Some (st', r) \<and> poll_keeps E backlog st st'"
    by (simp add: handle_datagram_def st Let_def split: sum.split option.split)
qed

lemma receive_datagrams_op:
  fixes E :: "('q, 's, 'mh) quic_env"
  assumes "loop_laws E packets unread backlog" and "send_laws E sent"
  shows "poll_op E backlog (receive_datagrams M E)"
proof (unfold poll_op_def, intro allI impI)
  fix st :: "('q, 's, 'mh) poll_io"
  assume "quic_ok (fst st)"
  then show "\<exists>st' r. receive_datagrams M E st = Some (st', r) \<and> poll_keeps E backlog st st'"
  proof (induction "backlog (qt_socket (fst st))" arbitrary: st rule: less_induct)
    case less
    obtain t events where st: "st = (t, events)" by force
    obtain k res where k: "udp_recv_from E RECV_BUF_SIZE (qt_socket t) = (k, res)" by force
    show ?case
    proof (cases res)
      case (Inl err)
      have "backlog k \<le> backlog (qt_socket t)" using assms(1) k unfolding loop_laws_def by (metis fst_conv)
      then show ?thesis
        using k Inl poll_keeps_socket [of backlog k t E events] by (subst receive_datagrams.simps) (auto simp: st split: io_error.split)
    next
      case (Inr d)
      have fewer: "backlog k < backlog (qt_socket t)"
        using assms(1) k Inr unfolding loop_laws_def by blast
      have sock: "poll_keeps E backlog st (t\<lparr>qt_socket := k\<rparr>, events)"
        using fewer by (simp add: st poll_keeps_socket)
      have "quic_ok (fst (t\<lparr>qt_socket := k\<rparr>, events))" using less.prems by (simp add: st)
      with handle_datagram_op [OF assms, of M "fst d" "snd d"]
      obtain st1 r1 where h: "handle_datagram M E (fst d) (snd d) (t\<lparr>qt_socket := k\<rparr>, events) = Some (st1, r1)"
        "poll_keeps E backlog (t\<lparr>qt_socket := k\<rparr>, events) st1" "quic_ok (fst st1)" by (rule poll_opD)
      note kept = poll_keeps_trans [OF sock h(2)]
      show ?thesis
      proof (cases r1)
        case (Inl e)
        then show ?thesis
          using kept k Inr h(1) by (subst receive_datagrams.simps) (simp add: st)
      next
        case u: (Inr u)
        have "backlog (qt_socket (fst st1)) < backlog (qt_socket (fst st))"
          using h(2) fewer less.prems by (simp add: poll_keeps_def st)
        from less.hyps [OF this h(3)] obtain st2 r2 where
          "receive_datagrams M E st1 = Some (st2, r2)" "poll_keeps E backlog st1 st2" by blast
        then show ?thesis
          using k Inr u h(1) poll_keeps_trans [OF kept] by (subst receive_datagrams.simps) (auto simp: st)
      qed
    qed
  qed
qed

lemma poll_connections_op:
  fixes E :: "('q, 's, 'mh) quic_env"
  assumes "loop_laws E packets unread backlog" and "send_laws E sent"
  shows "poll_op E backlog (poll_connections E cs)"
proof (unfold poll_op_def, intro allI impI)
  fix st :: "('q, 's, 'mh) poll_io"
  assume "quic_ok (fst st)"
  then show "\<exists>st' r. poll_connections E cs st = Some (st', r) \<and> poll_keeps E backlog st st'"
  proof (induction cs arbitrary: st)
    case (Cons c cs)
    obtain t events where st: "st = (t, events)" by force
    show ?case
    proof (cases "bm_get (qt_connections t) c")
      case None
      then show ?thesis using Cons by (simp add: st)
    next
      case (Some conn)
      obtain conn' k events' r where s: "poll_streams E (conn, qt_socket t, events) = Some ((conn', k, events'), r)"
        "conn_keeps sent backlog (conn, qt_socket t, events) (conn', k, events')"
        using poll_streams_returns [OF assms] unfolding returns_keeping_def by (metis prod_cases3)
      then obtain new where new: "events' = events @ new" "list_all (stream_event (qc_id conn)) new"
        by (auto simp: conn_keeps_def)
      let ?t = "t\<lparr>qt_connections := bm_insert c conn' (qt_connections t), qt_socket := k\<rparr>"
      have step: "poll_keeps E backlog st (?t, events')"
        unfolding st new(1) using s(2) stream_events_announce [OF new(2)]
        by (intro poll_keeps_replace [OF Some]) (auto simp: conn_keeps_def)
      moreover have "quic_ok (fst (?t, events'))"
        using step Cons.prems by (simp add: poll_keeps_def st)
      from Cons.IH [OF this] obtain st2 r2 where "poll_connections E cs (?t, events') = Some (st2, r2)"
        "poll_keeps E backlog (?t, events') st2" by blast
      ultimately show ?thesis
        using Some s(1) poll_keeps_trans [OF step] by (cases r) (auto simp: st Let_def)
    qed
  qed simp
qed

lemma poll_connections_dom:
  "poll_connections E cs st = Some (st', r) \<Longrightarrow> dom (bm_get (qt_connections (fst st'))) = dom (bm_get (qt_connections (fst st)))"
proof (induction cs arbitrary: st)
  case (Cons c cs)
  show ?case
  proof (cases "bm_get (qt_connections (fst st)) c")
    case None
    then show ?thesis using Cons by simp
  next
    case (Some conn)
    then obtain conn' k events res where s: "poll_streams E (conn, qt_socket (fst st), snd st) = Some ((conn', k, events), res)"
      using Cons.prems by (auto simp: bind_eq_Some_conv)
    show ?thesis
      using Cons.prems Some s Cons.IH [of "((fst st)\<lparr>qt_connections := bm_insert c conn' (qt_connections (fst st)), qt_socket := k\<rparr>, events)"]
      by (cases res) (auto simp: Let_def dom_def split: if_splits)
  qed
qed simp

text \<open>The QUIC ids are entered again, and the closed connections leave.\<close>

lemma update_cids_step:
  "quic_ok t \<Longrightarrow>
     quic_ok (update_cids E cs t) \<and> qt_connections (update_cids E cs t) = qt_connections t \<and>
     qt_pending (update_cids E cs t) = qt_pending t \<and> qt_socket (update_cids E cs t) = qt_socket t"
proof (induction cs arbitrary: t)
  case (Cons c cs)
  show ?case
  proof (cases "bm_get (qt_connections t) c")
    case (Some conn)
    let ?t = "t\<lparr>qt_cids := (qt_cids t)(q_source_id E (qc_conn conn) \<mapsto> c)\<rparr>"
    have "quic_ok ?t" using Cons.prems Some by (intro quic_ok_cid) simp_all
    then show ?thesis using Cons.IH [of ?t] Some by (simp add: update_cids_def)
  qed (use Cons in \<open>simp add: update_cids_def\<close>)
qed (simp add: update_cids_def)

lemma unindex_fields [simp]:
  "qt_connections (unindex_connection c p t) = qt_connections t" "qt_pending (unindex_connection c p t) = qt_pending t"
  "qt_socket (unindex_connection c p t) = qt_socket t"
  by (simp_all add: unindex_connection_def Let_def split: option.split)

lemma remove_closed_fold:
  assumes "quic_ok t"
  shows "quic_ok (fst (fold remove_closed closed (t, events))) \<and>
    snd (fold remove_closed closed (t, events)) = events @ map TeClosed closed \<and>
    qt_pending (fst (fold remove_closed closed (t, events))) = qt_pending t \<and>
    qt_socket (fst (fold remove_closed closed (t, events))) = qt_socket t \<and>
    (\<forall>c. bm_get (qt_connections (fst (fold remove_closed closed (t, events)))) c =
       (if c \<in> set closed then None else bm_get (qt_connections t) c))"
  using assms
proof (induction closed arbitrary: t events)
  case (Cons c closed)
  obtain u events' where u: "remove_closed c (t, events) = (u, events')" by force
  have "quic_ok u" "qt_pending u = qt_pending t" "qt_socket u = qt_socket t" "events' = events @ [TeClosed c]"
    "\<forall>d. bm_get (qt_connections u) d = (if d = c then None else bm_get (qt_connections t) d)"
    using u Cons.prems quic_ok_remove [of t c] by (auto simp: remove_closed_def split: option.splits)
  then show ?case
    using Cons.IH [of u events'] u by auto
qed simp

text \<open>What a successful poll returns, and what it leaves.\<close>

definition poll_outcome ::
  "('q, 's, 'mh) quic_env \<Rightarrow> ('q, 's, 'mh) quic_transport \<Rightarrow> 'mh transport_event list \<Rightarrow> ('q, 's, 'mh) quic_transport \<Rightarrow> bool" where
  "poll_outcome E t events t' \<longleftrightarrow>
     (\<exists>new closed. events = qt_pending t @ new @ map TeClosed closed \<and> announces E (peer_of t) new \<and> distinct closed \<and>
        qt_pending t' = [] \<and>
        (\<forall>c p. peer_of t c = Some p \<longrightarrow> (if c \<in> set closed then bm_get (qt_connections t') c = None else peer_of t' c = Some p)) \<and>
        (\<forall>c conn. bm_get (qt_connections t') c = Some conn \<longrightarrow> \<not> q_is_closed E (qc_conn conn)))"

lemma poll_returns:
  assumes "loop_laws E packets unread backlog" and "send_laws E sent" and "order_laws E" and "quic_ok t"
  shows "\<exists>t' r. qt_poll M E t = Some (t', r) \<and> quic_ok t' \<and> backlog (qt_socket t') \<le> backlog (qt_socket t) \<and>
    (\<forall>events. r = Ok events \<longrightarrow> poll_outcome E t events t')"
proof -
  let ?st = "(t\<lparr>qt_pending := []\<rparr>, qt_pending t)"
  have same: "peer_of (fst ?st) = peer_of t" by (simp add: peer_of_def fun_eq_iff)
  have "quic_ok (fst ?st)" using assms(4) by simp
  with receive_datagrams_op [OF assms(1,2)] obtain st1 r1 where
    st1: "receive_datagrams M E ?st = Some (st1, r1)" "poll_keeps E backlog ?st st1" "quic_ok (fst st1)" by (rule poll_opD)
  show ?thesis
  proof (cases r1)
    case (Inl e)
    then show ?thesis using st1 by (simp add: qt_poll_def poll_keeps_def assms(4))
  next
    case ok1: (Inr u1)
    let ?cs = "conn_order E (bm_keys (qt_connections (fst st1)))"
    obtain st2 r2 where st2: "poll_connections E ?cs st1 = Some (st2, r2)" "poll_keeps E backlog st1 st2" "quic_ok (fst st2)"
      by (rule poll_opD [OF poll_connections_op [OF assms(1,2)] st1(3)])
    note kept = poll_keeps_trans [OF st1(2) st2(2)]
    show ?thesis
    proof (cases r2)
      case (Inl e)
      then show ?thesis using st1 st2 ok1 kept by (simp add: qt_poll_def poll_keeps_def assms(4))
    next
      case ok2: (Inr u2)
      define u where "u = update_cids E ?cs (fst st2)"
      define closed where "closed = filter (\<lambda>c. case bm_get (qt_connections u) c of None \<Rightarrow> False | Some conn \<Rightarrow> q_is_closed E (qc_conn conn)) ?cs"
      define out where "out = fold remove_closed closed (u, snd st2)"
      note upd = update_cids_step [OF st2(3), of E ?cs, folded u_def]
      note rem = remove_closed_fold [OF conjunct1 [OF upd], of closed "snd st2", folded out_def]
      have "distinct (bm_keys (qt_connections (fst st1)))"
        using st1(3) by (intro bm.keys_distinct) (simp add: quic_ok_def conns_ok_def)
      then have cs: "distinct ?cs" "set ?cs = dom (bm_get (qt_connections (fst st2)))"
        using assms(3) poll_connections_dom [OF st2(1)] by (simp_all add: order_laws_def bm.set_keys)
      have run: "qt_poll M E t = Some (fst out, Ok (snd out))"
        using st1(1) st2(1) ok1 ok2 by (simp add: qt_poll_def Let_def out_def closed_def u_def)
      obtain new where new: "snd st2 = qt_pending t @ new" "announces E (peer_of t) new"
        using kept assms(4) same by (auto simp: poll_keeps_def)
      have alive: "\<not> q_is_closed E (qc_conn conn)" if "bm_get (qt_connections (fst out)) c = Some conn" for c conn
        using that rem upd cs(2) by (auto simp: domI closed_def split: if_splits)
      have peers: "if c \<in> set closed then bm_get (qt_connections (fst out)) c = None else peer_of (fst out) c = Some p"
        if "peer_of t c = Some p" for c p
        using that rem upd kept assms(4) same by (simp add: poll_keeps_def peer_of_def)
      have "distinct closed" using cs(1) by (simp add: closed_def)
      moreover have "qt_pending (fst out) = []" "snd out = qt_pending t @ new @ map TeClosed closed"
        using rem upd kept assms(4) new(1) by (simp_all add: poll_keeps_def)
      ultimately have "poll_outcome E t (snd out) (fst out)"
        unfolding poll_outcome_def using new(2) alive peers by blast
      moreover have "backlog (qt_socket (fst out)) \<le> backlog (qt_socket t)"
        using rem upd kept assms(4) by (simp add: poll_keeps_def)
      ultimately show ?thesis
        using run rem by blast
    qed
  qed
qed

section \<open>Properties of a connection\<close>

text \<open>
  A small QUIC to compute with: every write is taken in pieces of two bytes and makes a packet, every
  packet that arrives completes the handshake, a certificate proves what \<open>verify\<close> says, and the socket has
  an inbox and may be broken.
\<close>

record mini_quic =
  mq_sent :: "u64 \<Rightarrow> bytes"
  mq_packets :: nat
  mq_up :: bool

record mini_os =
  mo_inbox :: "(bytes \<times> socket_addr) list"
  mo_broken :: bool

definition mini_addr :: socket_addr where
  "mini_addr = SockV4 [127, 0, 0, 1] 4001"

definition mini_start :: mini_quic where
  "mini_start = \<lparr>mq_sent = (\<lambda>_. []), mq_packets = 1, mq_up = False\<rparr>"

definition mini_quic_env :: "(bytes \<Rightarrow> rstr + 'mh peer_id) \<Rightarrow> (mini_quic, mini_os, 'mh) quic_env" where
  "mini_quic_env verify =
     \<lparr>q_is_server = (\<lambda>_. False), q_is_established = mq_up, q_is_closed = (\<lambda>_. False), q_source_id = (\<lambda>_. [7]),
      q_peer_cert = (\<lambda>_. Some [1]), q_readable = (\<lambda>_. []),
      q_recv = (\<lambda>bs _ _ q. (q\<lparr>mq_up := True, mq_packets := Suc (mq_packets q)\<rparr>, Ok (length bs))),
      q_send = (\<lambda>_ q. case mq_packets q of 0 \<Rightarrow> (q, Err QDone) | Suc n \<Rightarrow> (q\<lparr>mq_packets := n\<rparr>, Ok ([0], mini_addr))),
      q_close = (\<lambda>_ _ _ q. (q, Ok ())),
      q_stream_send = (\<lambda>raw bs _ q.
        (q\<lparr>mq_sent := (mq_sent q)(raw := mq_sent q raw @ take 2 bs), mq_packets := Suc (mq_packets q)\<rparr>, Ok (min 2 (length bs)))),
      q_stream_recv = (\<lambda>_ _ q. (q, Err QDone)), q_done_text = [], q_stream_shutdown = (\<lambda>_ _ _ q. (q, Ok ())),
      udp_send_to = (\<lambda>bs _ k. (k, if mo_broken k then Err [] else Ok (length bs))),
      udp_recv_from = (\<lambda>_ k. case mo_inbox k of [] \<Rightarrow> (k, Err WouldBlock) | d # ds \<Rightarrow> (k\<lparr>mo_inbox := ds\<rparr>, Ok d)),
      udp_local_addr = (\<lambda>_. Ok mini_addr), verify_certificate = verify,
      q_header = (\<lambda>_. Some (True, [])), q_connect = (\<lambda>_ _ _. Ok mini_start), q_accept = (\<lambda>_ _ _. Ok mini_start),
      os_random = (\<lambda>n k. (k, Ok (replicate n 0))), os_resolve = (\<lambda>_ _. Err []), stream_order = (\<lambda>ks. ks), conn_order = (\<lambda>ks. ks)\<rparr>"

abbreviation mini_env :: "(mini_quic, mini_os, bytes) quic_env" where
  "mini_env \<equiv> mini_quic_env (\<lambda>cert. Ok (PeerId cert))"

lemma mini_quic_laws:
  "loop_laws (mini_quic_env verify) mq_packets (\<lambda>_. 0) (\<lambda>k. length (mo_inbox k))"
  "send_laws (mini_quic_env verify) mq_sent" "order_laws (mini_quic_env verify)"
proof -
  show "loop_laws (mini_quic_env verify) mq_packets (\<lambda>_. 0) (\<lambda>k. length (mo_inbox k))"
    by (auto simp: loop_laws_def mini_quic_env_def split: nat.splits list.splits)
  show "send_laws (mini_quic_env verify) mq_sent"
    by (auto simp: send_laws_def mini_quic_env_def min_def fun_eq_iff split: nat.split sum.split)
  show "order_laws (mini_quic_env verify)"
    by (simp add: order_laws_def mini_quic_env_def)
qed

lemmas mini_laws = mini_quic_laws [where verify = "\<lambda>cert. Ok (PeerId cert)"]

lemma mini_order: "stream_order mini_env ks = ks"
  by (simp add: mini_quic_env_def)

definition mini_conn :: "connection_state \<Rightarrow> bool \<Rightarrow> (mini_quic, bytes) quic_connection" where
  "mini_conn state up =
     (quic_connection_new mini_env (ConnectionId 1) (mini_start\<lparr>mq_up := up\<rparr>) mini_addr
        (endpoint_with_peer_id (Multiaddr []) (PeerId [9])))\<lparr>qc_state := state\<rparr>"

text \<open>
  C19. Nothing written to a stream is lost, repeated or reordered.  For every stream, the bytes QUIC has
  taken followed by the bytes still queued are what they were, and a \<open>send_stream\<close> on a stream that is open
  for writing appends exactly its data, whether QUIC takes all of it, a part or nothing, and whether the call
  ends with an error; closing a write side, resetting, closing, polling and receiving packets append
  nothing.  Each of these calls returns, given that QUIC appends what it accepts of a write and that only
  finitely many packets and bytes wait.
\<close>

theorem quic_writes_conserved:
  assumes "loop_laws E packets unread backlog" and "send_laws E sent"
  shows "host_op sent backlog (\<lambda>c raw. if raw = stream_u64 sid \<and> accepts_writes E sid c then data else []) (qc_send_stream E sid data) \<and>
    host_op sent backlog (\<lambda>_ _. []) (qc_close_stream_write E sid) \<and> host_op sent backlog (\<lambda>_ _. []) (qc_reset_stream E sid) \<and>
    host_op sent backlog (\<lambda>_ _. []) (qc_close E) \<and> returns_keeping sent backlog (poll_streams E) \<and>
    (\<exists>st' r. recv_packet M E packet from local_addr st = Some (st', r) \<and> conn_writes_kept sent backlog st st')"
proof -
  have "\<exists>st' r. recv_packet M E packet from local_addr st = Some (st', r) \<and> conn_writes_kept sent backlog st st'"
    using recv_packet_returns [OF assms] by (cases st) fast
  then show ?thesis
    using host_op_send [OF assms] host_op_close_write [OF assms] host_op_reset [OF assms(2)] host_op_close [OF assms]
      poll_streams_returns [OF assms] by blast
qed

theorem quic_writes_conserved_witness:
  "host_op mq_sent (\<lambda>k. length (mo_inbox k))
     (\<lambda>c raw. if raw = 0 \<and> accepts_writes mini_env (StreamId 0) c then [1, 2, 3] else []) (qc_send_stream mini_env (StreamId 0) [1, 2, 3]) \<and>
   accepts_writes mini_env (StreamId 0) (mini_conn CsConnected True)"
  using quic_writes_conserved [OF mini_laws(1,2), of "StreamId 0" "[1, 2, 3]"]
  by (simp add: accepts_writes_def get_or_create_local_stream_state_def mini_conn_def quic_connection_new_def
      is_local_initiated_stream_def mini_quic_env_def stream_default_def)

text \<open>
  C40. A connection can be in use without its peer having been verified.  The packet that completes the
  handshake sets the state to \<open>Connected\<close> before what is queued is sent and before the certificate is looked
  at.  If sending fails, the call returns that error: the state stays \<open>Connected\<close>, the endpoint has no more
  proof than before and no \<open>Connected\<close> event was emitted.  No later packet verifies the connection or emits
  the event, while streams can be opened on it.
\<close>

theorem quic_unverified_connection:
  assumes "loop_laws E packets unread backlog" and "send_laws E sent"
    and "qc_state c = CsConnecting" and "q_recv E packet from local_addr (qc_conn c) = (q, Ok n)" and "q_is_established E q"
    and "drain_and_flush E (c\<lparr>qc_conn := q, qc_state := CsConnected\<rparr>, k, events) = Some ((c', k', events'), Err e)"
  shows "recv_packet M E packet from local_addr (c, k, events) = Some ((c', k', events'), Err e) \<and>
    qc_state c' = CsConnected \<and> qc_endpoint c' = qc_endpoint c \<and>
    (\<exists>new. events' = events @ new \<and> list_all (stream_event (qc_id c)) new) \<and>
    (\<forall>packet' from' d evs. \<exists>c'' k'' new r.
       recv_packet M E packet' from' local_addr (c', d, evs) = Some ((c'', k'', evs @ new), r) \<and>
       qc_state c'' = CsConnected \<and> qc_endpoint c'' = qc_endpoint c' \<and> list_all (stream_event (qc_id c)) new) \<and>
    (bm_get (qc_streams c') (qc_next_stream c') = None \<longrightarrow> snd (qc_open_stream c') = Ok (StreamId (qc_next_stream c')))"
proof -
  have "conn_keeps sent backlog (c\<lparr>qc_conn := q, qc_state := CsConnected\<rparr>, k, events) (c', k', events')"
    using drain_and_flush_returns [OF assms(1,2)] assms(6) unfolding returns_keeping_def by (metis option.inject prod.inject)
  then have kept: "qc_state c' = CsConnected" "qc_endpoint c' = qc_endpoint c" "qc_id c' = qc_id c"
    "\<exists>new. events' = events @ new \<and> list_all (stream_event (qc_id c)) new"
    by (auto simp: conn_keeps_def)
  moreover have "recv_packet M E packet from local_addr (c, k, events) = Some ((c', k', events'), Err e)"
    using assms(3-6) by (simp add: recv_packet_def io_bind_def Let_def)
  moreover have "\<exists>c'' k'' new r. recv_packet M E packet' from' local_addr (c', d, evs) = Some ((c'', k'', evs @ new), r) \<and>
      qc_state c'' = CsConnected \<and> qc_endpoint c'' = qc_endpoint c' \<and> list_all (stream_event (qc_id c)) new" for packet' from' d evs
    using recv_packet_returns [OF assms(1,2), of M packet' from' local_addr c' d evs] kept by (fastforce simp: packet_outcome_def)
  ultimately show ?thesis
    by (auto simp: qc_open_stream_def Let_def)
qed

lemma mini_flush_broken:
  "mq_packets q \<noteq> 0 \<Longrightarrow> mo_broken k \<Longrightarrow> send_packets mini_env qe ue q k = Some (q\<lparr>mq_packets := mq_packets q - 1\<rparr>, k, Err (ue []))"
  by (subst send_packets.simps) (simp add: mini_quic_env_def split: nat.split)

theorem quic_unverified_connection_witness:
  "\<forall>M. \<exists>c' k' events' e.
     recv_packet M mini_env [0] mini_addr mini_addr (mini_conn CsConnecting False, \<lparr>mo_inbox = [], mo_broken = True\<rparr>, []) =
       Some ((c', k', events'), Err e) \<and> qc_state c' = CsConnected \<and> events' = []"
proof
  fix M
  let ?c = "mini_conn CsConnecting False"
  let ?q = "(qc_conn ?c)\<lparr>mq_up := True, mq_packets := Suc (mq_packets (qc_conn ?c))\<rparr>"
  let ?k = "\<lparr>mo_inbox = [], mo_broken = True\<rparr> :: mini_os"
  have recv: "q_recv mini_env [0] mini_addr mini_addr (qc_conn ?c) = (?q, Ok 1)" "q_is_established mini_env ?q"
    by (simp_all add: mini_quic_env_def)
  have "drain_and_flush mini_env (?c\<lparr>qc_conn := ?q, qc_state := CsConnected\<rparr>, ?k, []) =
      Some ((?c\<lparr>qc_conn := ?q\<lparr>mq_packets := 1\<rparr>, qc_state := CsConnected\<rparr>, ?k, []), Err (TrCloseFailed (ConnectionId 1) (lit ''udp send error: '' @ [])))"
    by (simp add: drain_and_flush_def drain_send_queue_def io_bind_def qc_flush_def mini_flush_broken mini_conn_def mini_start_def
        quic_connection_new_def bm_keys_def mini_order)
  from quic_unverified_connection [OF mini_laws(1,2) _ recv this, of M]
  show "\<exists>c' k' events' e.
     recv_packet M mini_env [0] mini_addr mini_addr (?c, ?k, []) = Some ((c', k', events'), Err e) \<and> qc_state c' = CsConnected \<and> events' = []"
    by (auto simp: mini_conn_def)
qed

end
