(* ===== verification/QuicEndpointProps.thy ===== *)
theory QuicEndpointProps
  imports QuicDual QuicProps
begin

text \<open>
  What the QUIC endpoint promises, whether it has one socket or two: every call returns and keeps the
  tables, a poll reports only what the transports saw, and the connection ids of the two halves of a
  dual-stack endpoint do not mix.
\<close>

section \<open>Connection ids of a dual-stack endpoint\<close>

lemma unat_saturating_double: "unat (saturating_double x) = min (2 * unat x) (2 ^ 64 - 1)"
proof (cases "2 * unat x < 2 ^ 64")
  case True
  then have "unat (2 * x) = 2 * unat x"
    using unat_mult_lem [of 2 x] by simp
  then show ?thesis using True by (simp add: saturating_double_def)
next
  case False
  then show ?thesis by (simp add: saturating_double_def unsigned_minus_1_eq_mask mask_eq_exp_minus_1)
qed

lemma word_even: "(x :: u64) mod 2 = 0 \<longleftrightarrow> even (unat x)"
  by (simp add: word_unat_eq_iff unat_mod_distrib even_iff_mod_2_eq_zero)

lemma unat_half_up: "unat (half_up x) = (unat x + 1) div 2"
proof -
  have half: "unat (x div 2) = unat x div 2"
    by (simp add: unat_div_distrib)
  have bound: "unat x < 2 ^ LENGTH(64)"
    by (rule unsigned_less)
  have "unat (x div 2) + unat (1 :: u64) < 2 ^ LENGTH(64)"
    using bound unfolding half by simp
  then have "unat (x div 2 + 1) = unat x div 2 + 1"
    using unat_add_lem [of "x div 2" 1] half by simp
  moreover have "x mod 2 > 0 \<longleftrightarrow> odd (unat x)"
    using word_even [of x] by (simp add: word_gt_0)
  ultimately show ?thesis
    using half by (auto simp: half_up_def elim: oddE)
qed

text \<open>
  A dual-stack endpoint gives the connections of its two halves different ids and finds the half and the
  connection again from such an id: always for the ids the allocator returns below \<open>2^63\<close>, and never above,
  where the multiplication saturates.  (The allocator does not return 0.)
\<close>

theorem dual_connection_ids:
  "internal_id (external_id f c) = (f, c) \<longleftrightarrow>
     unat (connection_u64 c) < 2 ^ 63 \<and> (f = Ipv6 \<or> 0 < connection_u64 c)"
proof -
  let ?n = "unat (connection_u64 c)"
  have "?n < 2 ^ LENGTH(64)" by (rule unsigned_less)
  then have n: "?n < 2 ^ 64" by simp
  have eq: "ConnectionId w = c \<longleftrightarrow> unat w = ?n" for w
    by (cases c) (simp add: word_unat_eq_iff)
  have div: "unat (w div 2) = unat w div 2" for w :: u64
    by (simp add: unat_div_distrib)
  show ?thesis
  proof (cases f)
    case Ipv4
    have "unat (saturating_sub (saturating_double (connection_u64 c)) 1) = min (2 * ?n) (2 ^ 64 - 1) - 1"
      by (simp add: unat_saturating_sub unat_saturating_double)
    then show ?thesis
      using n Ipv4 by (auto simp: word_gt_0 unat_0_iff internal_id_def Let_def word_even eq unat_half_up div min_def)
  next
    case Ipv6
    then show ?thesis
      using n by (auto simp: internal_id_def Let_def word_even eq unat_half_up div unat_saturating_double min_def)
  qed
qed

section \<open>The tables\<close>

fun endpoint_ok :: "('q, 's, 'mh) quic_endpoint \<Rightarrow> bool" where
  "endpoint_ok (Single t) = quic_ok t"
| "endpoint_ok (Dual d) = (quic_ok (dq_ipv4 d) \<and> quic_ok (dq_ipv6 d))"

text \<open>A call that returns and keeps the tables, of a half and of the endpoint.\<close>

definition keeps_tables :: "('st \<Rightarrow> bool) \<Rightarrow> ('st, 'a) io \<Rightarrow> bool" where
  "keeps_tables ok m \<longleftrightarrow> (\<forall>st. ok st \<longrightarrow> (\<exists>st' r. m st = Some (st', r) \<and> ok st'))"

abbreviation dual_ok :: "('q, 's, 'mh) dual_quic_transport \<Rightarrow> bool" where
  "dual_ok d \<equiv> quic_ok (dq_ipv4 d) \<and> quic_ok (dq_ipv6 d)"

lemma keeps_tables_bind:
  assumes "keeps_tables ok m" and "\<And>a. keeps_tables ok (f a)"
  shows "keeps_tables ok (io_bind m f)"
proof (unfold keeps_tables_def, intro allI impI)
  fix st assume "ok st"
  then obtain st1 r where st1: "m st = Some (st1, r)" "ok st1"
    using assms(1) unfolding keeps_tables_def by blast
  show "\<exists>st' r. io_bind m f st = Some (st', r) \<and> ok st'"
    using st1 assms(2) by (cases r) (auto simp: io_bind_def keeps_tables_def)
qed

lemma keeps_tables_ok [simp]: "keeps_tables ok (io_ok a)"
  by (simp add: keeps_tables_def)

lemma keeps_tables_op: "tables_op backlog m \<Longrightarrow> keeps_tables quic_ok m"
  unfolding tables_op_def keeps_tables_def by blast

lemma keeps_tables_of: "(\<And>t. ok t \<Longrightarrow> ok (fst (m t))) \<Longrightarrow> keeps_tables ok (io_of m)"
  unfolding keeps_tables_def io_of_def by (metis prod.collapse)

lemma keeps_tables_half:
  fixes m :: "(('q, 's, 'mh) quic_transport, 'a) io"
  assumes "keeps_tables quic_ok m"
  shows "keeps_tables dual_ok (on_half f m)"
proof (unfold keeps_tables_def, intro allI impI)
  fix d :: "('q, 's, 'mh) dual_quic_transport"
  assume ok: "dual_ok d"
  then have "quic_ok (half f d)" by (cases f) simp_all
  then obtain t r where "m (half f d) = Some (t, r)" "quic_ok t"
    using assms unfolding keeps_tables_def by blast
  then show "\<exists>d' r. on_half f m d = Some (d', r) \<and> dual_ok d'"
    using ok by (cases f) (auto simp: on_half_def)
qed

lemma keeps_tables_endpoint:
  fixes single :: "(('q, 's, 'mh) quic_transport, 'a) io"
  assumes "keeps_tables quic_ok single" and "keeps_tables dual_ok dual"
  shows "keeps_tables endpoint_ok (by_endpoint single dual)"
proof (unfold keeps_tables_def, intro allI impI)
  fix e :: "('q, 's, 'mh) quic_endpoint"
  assume "endpoint_ok e"
  then show "\<exists>e' r. by_endpoint single dual e = Some (e', r) \<and> endpoint_ok e'"
    using assms by (cases e) (fastforce simp: keeps_tables_def)+
qed

lemma transport_calls_keep:
  assumes "loop_laws E packets unread backlog" and "send_laws E sent" and "order_laws E"
  shows "keeps_tables quic_ok (qt_dial E addr)" and "keeps_tables quic_ok (qt_send_stream E c sid data)"
    and "keeps_tables quic_ok (qt_close_stream_write E c sid)" and "keeps_tables quic_ok (qt_reset_stream E c sid)"
    and "keeps_tables quic_ok (qt_close E c)" and "keeps_tables quic_ok (qt_poll M E)"
    and "keeps_tables quic_ok (io_of (qt_listen E a))" and "keeps_tables quic_ok (io_of (qt_open_stream c))"
    and "keeps_tables quic_ok (io_of (send_raw_udp E a data))"
proof -
  note laws = assms(1,2)
  show "keeps_tables quic_ok (qt_dial E addr)"
    by (rule keeps_tables_op [OF dial_tables [OF laws]])
  show "keeps_tables quic_ok (qt_send_stream E c sid data)" "keeps_tables quic_ok (qt_close_stream_write E c sid)"
    "keeps_tables quic_ok (qt_reset_stream E c sid)" "keeps_tables quic_ok (qt_close E c)"
    unfolding qt_send_stream_def qt_close_stream_write_def qt_reset_stream_def qt_close_def
    by (rule keeps_tables_op [OF on_connection_tables],
        rule host_op_send [OF laws] host_op_close_write [OF laws] host_op_reset [OF assms(2)] host_op_close [OF laws])+
  show "keeps_tables quic_ok (qt_poll M E)"
    unfolding keeps_tables_def using poll_returns [OF assms] by blast
  show "keeps_tables quic_ok (io_of (qt_listen E a))" "keeps_tables quic_ok (io_of (qt_open_stream c))"
    "keeps_tables quic_ok (io_of (send_raw_udp E a data))"
    by (auto intro!: keeps_tables_of simp: quic_ok_listen quic_ok_open quic_ok_raw_udp)
qed

lemma dial_each_keeps:
  fixes E :: "('q, 's, 'mh) quic_env"
  assumes "loop_laws E packets unread backlog" and "send_laws E sent" and "order_laws E"
  shows "keeps_tables dual_ok (dial_each E targets ids last_err)"
proof (unfold keeps_tables_def, intro allI impI)
  fix d :: "('q, 's, 'mh) dual_quic_transport"
  assume "dual_ok d"
  then show "\<exists>d' r. dial_each E targets ids last_err d = Some (d', r) \<and> dual_ok d'"
  proof (induction targets arbitrary: ids last_err d)
    case (Cons target targets)
    obtain family addr where target: "target = (family, addr)" by force
    obtain d1 r where "on_half family (qt_dial E addr) d = Some (d1, r)" "dual_ok d1"
      using keeps_tables_half [OF transport_calls_keep(1) [OF assms]] Cons.prems unfolding keeps_tables_def by blast
    then show ?case using Cons.IH by (cases r) (auto simp: target)
  qed simp
qed

lemma dual_calls_keep:
  assumes "loop_laws E packets unread backlog" and "send_laws E sent" and "order_laws E"
  shows "keeps_tables dual_ok (dual_dial_all E addr)" and "keeps_tables dual_ok (dual_dial_family E addr f)"
    and "keeps_tables dual_ok (dual_dial E addr)" and "keeps_tables dual_ok (dual_send_raw_udp E a data)"
    and "keeps_tables dual_ok (dual_listen E a)" and "keeps_tables dual_ok (dual_open_stream c)"
    and "keeps_tables dual_ok (dual_send_stream E c sid data)" and "keeps_tables dual_ok (dual_close_stream_write E c sid)"
    and "keeps_tables dual_ok (dual_reset_stream E c sid)" and "keeps_tables dual_ok (dual_close E c)"
    and "keeps_tables dual_ok (dual_poll M E)"
proof -
  note calls = transport_calls_keep [OF assms]
  have half: "keeps_tables dual_ok (dial_half E f pa)" for f pa
    unfolding dial_half_def by (intro keeps_tables_bind keeps_tables_half calls) simp
  show "keeps_tables dual_ok (dual_dial_all E addr)" "keeps_tables dual_ok (dual_dial_family E addr f)"
    "keeps_tables dual_ok (dual_dial E addr)"
    using dial_each_keeps [OF assms] half
    by (auto simp: keeps_tables_def dual_dial_all_def dual_dial_family_def dual_dial_def
        split: sum.split option.split list.split prod.split)
  show "keeps_tables dual_ok (dual_send_raw_udp E a data)"
    using keeps_tables_half [OF calls(9)]
    by (auto simp: keeps_tables_def dual_send_raw_udp_def split: sum.split)
  show "keeps_tables dual_ok (dual_listen E a)" "keeps_tables dual_ok (dual_open_stream c)"
    "keeps_tables dual_ok (dual_send_stream E c sid data)" "keeps_tables dual_ok (dual_close_stream_write E c sid)"
    "keeps_tables dual_ok (dual_reset_stream E c sid)" "keeps_tables dual_ok (dual_close E c)"
    unfolding dual_listen_def dual_open_stream_def dual_send_stream_def dual_close_stream_write_def dual_reset_stream_def dual_close_def
    by (auto split: prod.split intro: keeps_tables_half calls)
  show "keeps_tables dual_ok (dual_poll M E)"
    unfolding dual_poll_def by (intro keeps_tables_bind keeps_tables_half calls) simp
qed

text \<open>
  C17. The tables of a QUIC endpoint stay consistent whatever the application calls and whatever arrives,
  with one socket and with two, and every call returns.  The index by peer lists, in order and for no peer
  an empty list, exactly the connections whose endpoint names the peer; every connection is stored under its
  own id; every QUIC connection id maps to a connection that exists.  This holds of a new transport and is
  kept by dialing, listening, opening, writing, closing and resetting streams, closing connections, sending
  raw packets and polling, on success and on error.
\<close>

theorem quic_endpoint_invariant:
  fixes E :: "('q, 's, 'mh) quic_env" and t :: "('q, 's, 'mh) quic_transport"
  assumes "loop_laws E packets unread backlog" and "send_laws E sent" and "order_laws E"
  shows "endpoint_ok (Single (quic_transport_new k p) :: ('q, 's, 'mh) quic_endpoint) \<and>
    endpoint_ok (Dual \<lparr>dq_ipv4 = quic_transport_new k p, dq_ipv6 = quic_transport_new k' p\<rparr> :: ('q, 's, 'mh) quic_endpoint) \<and>
    keeps_tables endpoint_ok (qe_dial E addr) \<and> keeps_tables endpoint_ok (qe_dial_all E addr) \<and>
    keeps_tables endpoint_ok (qe_dial_ip4 E addr) \<and> keeps_tables endpoint_ok (qe_dial_ip6 E addr) \<and>
    keeps_tables endpoint_ok (qe_listen E a) \<and> keeps_tables (endpoint_ok :: ('q, 's, 'mh) quic_endpoint \<Rightarrow> bool) (qe_open_stream c) \<and>
    keeps_tables endpoint_ok (qe_send_stream E c sid data) \<and> keeps_tables endpoint_ok (qe_close_stream_write E c sid) \<and>
    keeps_tables endpoint_ok (qe_reset_stream E c sid) \<and> keeps_tables endpoint_ok (qe_close E c) \<and>
    keeps_tables endpoint_ok (qe_send_raw_udp E a data) \<and> keeps_tables endpoint_ok (qe_poll M E) \<and>
    (quic_ok t \<longrightarrow> quic_ok (fst (verify_connection_peer_id c p t)))"
proof -
  note single = transport_calls_keep [OF assms] and dual = dual_calls_keep [OF assms]
  have family: "keeps_tables quic_ok (single_dial_family E addr f)" for f
    using single(1) by (auto simp: keeps_tables_def single_dial_family_def split: sum.split)
  have all: "keeps_tables quic_ok (io_bind (qt_dial E addr) (\<lambda>c. io_ok [c]))"
    by (intro keeps_tables_bind single) simp
  show ?thesis
    unfolding qe_dial_def qe_dial_all_def qe_dial_ip4_def qe_dial_ip6_def qe_listen_def qe_open_stream_def qe_send_stream_def
      qe_close_stream_write_def qe_reset_stream_def qe_close_def qe_send_raw_udp_def qe_poll_def
    by (intro conjI keeps_tables_endpoint single dual family all) (simp_all add: quic_ok_new quic_ok_verify_peer)
qed

theorem quic_endpoint_invariant_witness:
  "\<forall>M. (\<exists>e events. qe_poll M mini_env (Single (quic_transport_new \<lparr>mo_inbox = [([0], mini_addr)], mo_broken = False\<rparr> (PeerId [1]))) =
     Some (e, events) \<and> endpoint_ok e)"
proof
  fix M
  let ?e = "Single (quic_transport_new \<lparr>mo_inbox = [([0], mini_addr)], mo_broken = False\<rparr> (PeerId [1])) ::
    (mini_quic, mini_os, bytes) quic_endpoint"
  have "endpoint_ok ?e \<and> keeps_tables endpoint_ok (qe_poll M mini_env)"
    using quic_endpoint_invariant [OF mini_laws] by blast
  then show "\<exists>e events. qe_poll M mini_env ?e = Some (e, events) \<and> endpoint_ok e"
    unfolding keeps_tables_def by blast
qed

section \<open>Identity\<close>

lemma dial_identity:
  assumes "loop_laws E packets unread backlog" and "send_laws E sent" and "quic_ok t" and "qt_dial E addr t = Some (t', Ok c)"
  shows "bm_get (qt_connections t) c = None \<and> peer_of t' c = Some (pa_peer_id addr) \<and> quic_ok t' \<and>
    (\<forall>d. d \<noteq> c \<longrightarrow> bm_get (qt_connections t') d = bm_get (qt_connections t) d)"
proof -
  obtain t1 r where t1: "allocate_connection_id t = (t1, r)" by force
  obtain c1 peer_socket local_socket where run: "r = Ok c1" "connect_to E c1 addr peer_socket local_socket t1 = Some (t', Ok c)"
    using assms(4) t1 by (auto simp: qt_dial_def split: sum.splits)
  note fresh = allocate_fresh [OF t1 [unfolded run(1)]]
  have ok: "quic_ok t1" using assms(3) quic_ok_allocate [of t] t1 by simp
  have absent: "bm_get (qt_connections t1) c1 = None" using fresh by simp
  show ?thesis
    using connect_to_returns [OF assms(1,2) ok absent, of addr peer_socket local_socket] run fresh by auto
qed


text \<open>A transport that has dialed the peer whose certificate the answers carry.\<close>

definition mini_dialed :: "(mini_quic, mini_os, bytes) quic_transport" where
  "mini_dialed =
     add_connection mini_env
       (quic_connection_new mini_env (ConnectionId 1) mini_start mini_addr (endpoint_with_peer_id (Multiaddr []) (PeerId [1])))
       ((quic_transport_new \<lparr>mo_inbox = [([0], mini_addr)], mo_broken = False\<rparr> (PeerId [2]))\<lparr>qt_peers := [PeerId [1] \<mapsto> [ConnectionId 1]]\<rparr>)"

lemma mini_dialed_ok: "quic_ok mini_dialed"
proof -
  let ?t = "quic_transport_new \<lparr>mo_inbox = [([0], mini_addr)], mo_broken = False\<rparr> (PeerId [2]) :: (mini_quic, mini_os, bytes) quic_transport"
  have "quic_ok (reindex (ConnectionId 1) None (Some (PeerId [1])) (add_connection mini_env
       (quic_connection_new mini_env (ConnectionId 1) mini_start mini_addr (endpoint_with_peer_id (Multiaddr []) (PeerId [1]))) ?t))"
    using quic_ok_add [OF quic_ok_new, where conn = "quic_connection_new mini_env (ConnectionId 1) mini_start mini_addr
        (endpoint_with_peer_id (Multiaddr []) (PeerId [1]))" and E = mini_env]
    by (simp add: quic_transport_new_def endpoint_with_peer_id_def)
  then show ?thesis
    by (simp add: mini_dialed_def reindex_def index_peer_connection_def add_connection_def quic_transport_new_def bs_insert_def)
qed


section \<open>The allocator\<close>

text \<open>
  The allocator of connection ids always returns.  It returns an id that is not zero and that no
  connection has, and starts behind it the next time; it fails exactly when all \<open>2^64 - 1\<close> ids other than zero
  are taken, wherever the search starts and although it wraps around.
\<close>

theorem allocate_connection_id_exact:
  "(case allocate_connection_id t of
      (t', Inr c) \<Rightarrow> t' = t\<lparr>qt_next_id := connection_u64 c + 1\<rparr> \<and> 0 < connection_u64 c \<and> bm_get (qt_connections t) c = None
    | (t', Inl e) \<Rightarrow> e = TrResourceExhausted (lit ''connection ids'') \<and>
        (\<forall>raw. raw = 0 \<or> ConnectionId raw \<in> set (bm_keys (qt_connections t))))"
proof -
  let ?used = "\<lambda>c. bm_get (qt_connections t) c \<noteq> None"
  obtain following r where loop: "allocate_loop ?used (qt_next_id t) (qt_next_id t) = (following, r)" by force
  show ?thesis
  proof (cases r)
    case (Some c)
    then show ?thesis
      using loop allocate_loop_free [of ?used "qt_next_id t" "qt_next_id t" following c]
      by (auto simp: allocate_connection_id_def ok_or_def word_gt_0)
  next
    case None
    have "raw = 0 \<or> ?used (ConnectionId raw)" for raw
    proof -
      have "unat (raw - qt_next_id t) < 2 ^ LENGTH(64)" by (rule unsigned_less)
      then show ?thesis
        using allocate_loop_full [OF loop [unfolded None], of "unat (raw - qt_next_id t)"] by simp
    qed
    then show ?thesis
      using loop None by (auto simp: allocate_connection_id_def ok_or_def bm.set_keys)
  qed
qed

end
