(* ===== verification/DriverProps.thy ===== *)
theory DriverProps
  imports Driver
begin

text \<open>
  What the driver promises: the loop over the outputs of the core ends, no operation panics while the
  transport keeps its contract, between operations the core has nothing left to say, and events reach
  the application once and in order.
\<close>

section \<open>Executing the outputs of the core\<close>

definition is_error_event :: "'mh swarm_event \<Rightarrow> bool" where
  "is_error_event e \<longleftrightarrow> (\<exists>err. e = SwError err)"

lemma is_error_event_simps [simp]: "is_error_event (SwError err)"
  by (simp add: is_error_event_def)

text \<open>The events of the core only grow, by reports of errors.\<close>

definition reports_errors :: "'mh swarm_core \<Rightarrow> 'mh swarm_core \<Rightarrow> bool" where
  "reports_errors s t \<longleftrightarrow> (\<exists>new. sw_events t = sw_events s @ new \<and> list_all is_error_event new)"

lemma reports_errors_emit [simp]:
  "reports_errors s (emit_error k p c m s)" "reports_errors s s" "reports_errors s (sw_push_event (SwError err) s)"
  "reports_errors s t \<Longrightarrow> reports_errors (s\<lparr>pending_opens := po\<rparr>) t"
  by (auto simp: reports_errors_def sw_push_defs)

lemma emit_error_frame: "reports_errors s (emit_error k p c m (s\<lparr>pending_opens := po\<rparr>))"
  by (simp add: reports_errors_def sw_push_defs)

lemma feedback_reports_errors:
  "swarm_handle_input M H (SiStreamOpened c sid token now_ms) s = Some t \<Longrightarrow> reports_errors s t"
  "swarm_handle_input M H (SiOpenStreamFailed token reason now_ms) s = Some t \<Longrightarrow> reports_errors s t"
  "swarm_handle_input M H (SiRuntimeError error) s = Some t \<Longrightarrow> reports_errors s t"
proof -
  assume h: "swarm_handle_input M H (SiStreamOpened c sid token now_ms) s = Some t"
  show "reports_errors s t"
  proof (cases "bm_get (pending_opens s) token")
    case (Some po)
    then show ?thesis
      using h handle_stream_opened_eq [of s token c "pn_protocol po" "pn_target po" sid]
      by (cases "pn_conn_id po = c"; cases po)
        (auto simp: handle_stream_opened_def emit_error_frame reports_errors_def put_outbound_def sw_push_defs Let_def)
  qed (use h in \<open>auto simp: handle_stream_opened_def\<close>)
qed (auto simp: handle_open_stream_failed_def record_runtime_error_def emit_error_frame Let_def split: option.splits)

definition core_ready ::
  "'mh::linorder multihash_api \<Rightarrow> (bytes \<Rightarrow> bytes) \<Rightarrow> identify_config \<Rightarrow> ping_config \<Rightarrow> ('t, 'mh) swarm_driver \<Rightarrow> bool" where
  "core_ready M H ic pc d \<longleftrightarrow> crypto_laws M H \<and> swarm_reachable M H ic pc (dv_core d)"

lemma core_ready_frame [simp]:
  "core_ready M H ic pc (d\<lparr>dv_transport := t\<rparr>) = core_ready M H ic pc d"
  "core_ready M H ic pc (d\<lparr>dv_event_buffer := es\<rparr>) = core_ready M H ic pc d"
  "core_ready M H ic pc (d\<lparr>dv_readings := n\<rparr>) = core_ready M H ic pc d"
  by (simp_all add: core_ready_def)

lemma to_core_returns:
  assumes "core_ready M H ic pc d" and "input_ok i (dv_core d)"
  obtains s where "to_core M H i d = Some (d\<lparr>dv_core := s\<rparr>)" "swarm_handle_input M H i (dv_core d) = Some s"
    "core_ready M H ic pc (d\<lparr>dv_core := s\<rparr>)"
proof -
  obtain s where s: "swarm_handle_input M H i (dv_core d) = Some s"
    using swarm_handle_input_ok [OF _ _ assms(2)] swarm_reachable_ok assms(1) unfolding core_ready_def by metis
  then show thesis
    using assms swarm_reachable.input [OF _ assms(2) s] that by (simp add: to_core_def core_ready_def)
qed

text \<open>What executing an action feeds back into the core.\<close>

fun is_feedback :: "'mh swarm_input \<Rightarrow> bool" where
  "is_feedback (SiTransport _ _) = False"
| "is_feedback (SiTick _) = False"
| "is_feedback _ = True"

lemma to_core_feedback:
  assumes "core_ready M H ic pc d" and "is_feedback i"
  shows "\<exists>s. to_core M H i d = Some (d\<lparr>dv_core := s\<rparr>) \<and> core_ready M H ic pc (d\<lparr>dv_core := s\<rparr>) \<and> reports_errors (dv_core d) s"
proof -
  have "input_ok i (dv_core d)"
    using assms(2) by (cases i) simp_all
  with assms(1) obtain s where "to_core M H i d = Some (d\<lparr>dv_core := s\<rparr>)" "core_ready M H ic pc (d\<lparr>dv_core := s\<rparr>)"
    "swarm_handle_input M H i (dv_core d) = Some s"
    by (rule to_core_returns)
  then show ?thesis
    using assms(2) feedback_reports_errors [of M H] by (cases i) (auto simp del: swarm_handle_input.simps)
qed

text \<open>An operation returned \<open>d'\<close> from \<open>d\<close>, and added nothing but reports of errors to the core's events.\<close>

definition keeps_driver ::
  "'mh::linorder multihash_api \<Rightarrow> (bytes \<Rightarrow> bytes) \<Rightarrow> identify_config \<Rightarrow> ping_config \<Rightarrow> ('t, 'mh) swarm_driver \<Rightarrow>
     ('t, 'mh) swarm_driver \<Rightarrow> bool" where
  "keeps_driver M H ic pc d d' \<longleftrightarrow> core_ready M H ic pc d' \<and> reports_errors (dv_core d) (dv_core d') \<and>
     dv_event_buffer d' = dv_event_buffer d \<and> dv_local_peer_id d' = dv_local_peer_id d \<and>
     dv_readings d \<le> dv_readings d'"

lemma to_core_keeps:
  assumes "core_ready M H ic pc d" and "is_feedback i" and "dv_core e = dv_core d"
    and "dv_event_buffer e = dv_event_buffer d" and "dv_local_peer_id e = dv_local_peer_id d"
    and "dv_readings d \<le> dv_readings e"
  shows "\<exists>d'. to_core M H i e = Some d' \<and> keeps_driver M H ic pc d d'"
proof -
  have "core_ready M H ic pc e"
    using assms(1,3) by (simp add: core_ready_def)
  from to_core_feedback [OF this assms(2)] show ?thesis
    using assms(3-6) by (auto simp: keeps_driver_def)
qed

lemma report_failure_returns:
  assumes "core_ready M H ic pc d"
  shows "\<exists>d'. report_failure M H c what r d = Some d' \<and> keeps_driver M H ic pc d d'"
  using assms to_core_keeps [OF assms, of _ "d\<lparr>dv_transport := fst r\<rparr>"]
  by (cases "snd r") (simp_all add: report_failure_def keeps_driver_def Let_def)

lemma dispatch_action_returns:
  assumes "core_ready M H ic pc d"
  shows "\<exists>d' cap. dispatch_action M H T clk a captured d = Some (d', cap) \<and> keeps_driver M H ic pc d d'"
proof (cases a)
  case (SaOpenStream c token)
  obtain t r where t: "tr_open_stream T c (dv_transport d) = (t, r)" by force
  let ?d = "d\<lparr>dv_transport := t, dv_readings := dv_readings d + 1\<rparr>"
  have "\<exists>d'. to_core M H i ?d = Some d' \<and> keeps_driver M H ic pc d d'" if "is_feedback i" for i
    using to_core_keeps [OF assms that, of ?d] by simp
  then show ?thesis
    using SaOpenStream t by (cases r) (fastforce simp: driver_now_def)+
qed (use report_failure_returns [OF assms] in \<open>fastforce\<close>)+

lemma driver_loop_action:
  assumes "sw_actions (dv_core d) = a # as"
  shows "driver_loop M H T clk captured events d =
    Option.bind (dispatch_action M H T clk a captured (d\<lparr>dv_core := (dv_core d)\<lparr>sw_actions := as\<rparr>\<rparr>))
      (\<lambda>r. driver_loop M H T clk (snd r) events (fst r))"
  by (subst driver_loop.simps) (simp add: assms swarm_poll_output_def)

lemma driver_loop_event:
  assumes "sw_actions (dv_core d) = []" and "sw_events (dv_core d) = e # es"
  shows "driver_loop M H T clk captured events d =
    driver_loop M H T clk captured (events @ [e]) (d\<lparr>dv_core := (dv_core d)\<lparr>sw_events := es\<rparr>\<rparr>)"
  by (subst driver_loop.simps) (simp add: assms swarm_poll_output_def)

lemma driver_loop_idle:
  assumes "swarm_is_idle (dv_core d)"
  shows "driver_loop M H T clk captured events d = Some (d, captured, events)"
  using assms by (subst driver_loop.simps) (simp add: swarm_poll_output_def swarm_is_idle_def)

lemma core_ready_poll:
  assumes "core_ready M H ic pc d"
  shows "sw_actions (dv_core d) = a # as \<Longrightarrow> core_ready M H ic pc (d\<lparr>dv_core := (dv_core d)\<lparr>sw_actions := as\<rparr>\<rparr>)"
    and "sw_actions (dv_core d) = [] \<Longrightarrow> sw_events (dv_core d) = e # es \<Longrightarrow>
      core_ready M H ic pc (d\<lparr>dv_core := (dv_core d)\<lparr>sw_events := es\<rparr>\<rparr>)"
  using assms swarm_reachable.poll [of M H ic pc "dv_core d"] by (simp_all add: core_ready_def swarm_poll_output_def)

text \<open>The loop ends with an idle core, and hands on the events of the core in order.\<close>

lemma driver_loop_returns:
  assumes "core_ready M H ic pc d"
  shows "\<exists>d' cap new. driver_loop M H T clk captured events d = Some (d', cap, events @ sw_events (dv_core d) @ new) \<and>
    core_ready M H ic pc d' \<and> swarm_is_idle (dv_core d') \<and> list_all is_error_event new \<and>
    dv_event_buffer d' = dv_event_buffer d \<and> dv_local_peer_id d' = dv_local_peer_id d \<and>
    dv_readings d \<le> dv_readings d'"
  using assms
proof (induction "core_weight (dv_core d)" arbitrary: captured events d rule: less_induct)
  case less
  show ?case
  proof (cases "sw_actions (dv_core d)")
    case (Cons a as)
    let ?e = "d\<lparr>dv_core := (dv_core d)\<lparr>sw_actions := as\<rparr>\<rparr>"
    obtain d1 cap1 where d1: "dispatch_action M H T clk a captured ?e = Some (d1, cap1)"
      "core_ready M H ic pc d1" "reports_errors (dv_core ?e) (dv_core d1)" "dv_event_buffer d1 = dv_event_buffer d"
      "dv_local_peer_id d1 = dv_local_peer_id d" "dv_readings d \<le> dv_readings d1"
      using dispatch_action_returns [OF core_ready_poll(1) [OF less.prems Cons]] by (fastforce simp: keeps_driver_def)
    have "core_weight (dv_core d1) < core_weight (dv_core d)"
      using dispatch_action_weight [OF d1(1)] Cons by (simp add: core_weight_def)
    from less.hyps [OF this d1(2), of cap1 events] show ?thesis
      using d1 by (fastforce simp: driver_loop_action [OF Cons] reports_errors_def)
  next
    case Nil
    show ?thesis
    proof (cases "sw_events (dv_core d)")
      case (Cons e es)
      let ?e = "d\<lparr>dv_core := (dv_core d)\<lparr>sw_events := es\<rparr>\<rparr>"
      have "core_weight (dv_core ?e) < core_weight (dv_core d)"
        using Cons by (simp add: core_weight_def)
      from less.hyps [OF this core_ready_poll(2) [OF less.prems Nil Cons], of captured "events @ [e]"] show ?thesis
        using Cons by (simp add: driver_loop_event [OF Nil Cons])
    next
      case Nil
      then show ?thesis
        using \<open>sw_actions (dv_core d) = []\<close> less.prems
        by (intro exI [of _ d] exI [of _ captured] exI [of _ "[]"]) (simp add: swarm_is_idle_def driver_loop_idle)
    qed
  qed
qed

text \<open>Between operations the core is idle and has only gone through steps it allows.\<close>

definition driver_ok ::
  "'mh::linorder multihash_api \<Rightarrow> (bytes \<Rightarrow> bytes) \<Rightarrow> identify_config \<Rightarrow> ping_config \<Rightarrow> ('t, 'mh) swarm_driver \<Rightarrow> bool" where
  "driver_ok M H ic pc d \<longleftrightarrow> core_ready M H ic pc d \<and> swarm_is_idle (dv_core d)"

lemma flush_actions_returns:
  assumes "core_ready M H ic pc d"
  shows "\<exists>d' new. flush_actions M H T clk d = Some d' \<and> driver_ok M H ic pc d' \<and>
    dv_event_buffer d' = dv_event_buffer d @ sw_events (dv_core d) @ new \<and> list_all is_error_event new \<and>
    dv_local_peer_id d' = dv_local_peer_id d \<and> dv_readings d \<le> dv_readings d'"
  using driver_loop_returns [OF assms, of T clk None "[]"] by (auto simp: flush_actions_def driver_ok_def)

lemma swarm_new_idle: "swarm_is_idle (swarm_new ic pc)"
  by (simp add: swarm_is_idle_def swarm_new_def)

lemma driver_ok_new: "crypto_laws M H \<Longrightarrow> driver_ok M H ic pc (driver_new t ic pc p)"
  by (simp add: driver_ok_def core_ready_def driver_new_def swarm_reachable.new swarm_new_idle)

section \<open>Operations\<close>

lemma to_ping_outputs:
  "to_ping i s = Some (t, r) \<Longrightarrow> sw_actions t = sw_actions s \<and> sw_events t = sw_events s"
  by (auto simp: to_ping_def split: option.splits prod.splits)

text \<open>A request the core refuses leaves its outputs as they are.\<close>

lemma refused_request_outputs:
  assumes "serve_request M req s = Some (t, Err e)"
  shows "sw_actions t = sw_actions s \<and> sw_events t = sw_events s"
  using assms
  by (cases req) (auto simp: swarm_ping_def open_user_stream_def queue_open_eq send_user_stream_def disconnect_def
      close_user_stream_write_def reset_user_stream_def on_user_stream_def bind_eq_Some_conv dest!: not_Ok_unit dest: to_ping_outputs
      split: if_splits option.splits sum.splits)

lemma core_ready_request:
  assumes "core_ready M H ic pc d" and "request_ok req"
  obtains s res where "serve_request M req (dv_core d) = Some (s, res)" "core_ready M H ic pc (d\<lparr>dv_core := s\<rparr>)"
proof -
  have ok: "swarm_ok (dv_core d)"
    using assms(1) swarm_reachable_ok by (auto simp: core_ready_def)
  obtain s res where s: "serve_request M req (dv_core d) = Some (s, res)"
    using serve_request_ok [OF ok assms(2), of M] by metis
  then show thesis
    using assms swarm_reachable.request [OF _ assms(2) s] that by (simp add: core_ready_def)
qed

lemma driver_request_returns:
  assumes "driver_ok M H ic pc d" and "request_ok req"
  shows "\<exists>d' res. driver_request M H T clk req d = Some (d', res) \<and> driver_ok M H ic pc d' \<and>
    (\<exists>new. dv_event_buffer d' = dv_event_buffer d @ new)"
proof -
  have ready: "core_ready M H ic pc d" and idle: "swarm_is_idle (dv_core d)"
    using assms(1) by (simp_all add: driver_ok_def)
  obtain s res where s: "serve_request M req (dv_core d) = Some (s, res)" "core_ready M H ic pc (d\<lparr>dv_core := s\<rparr>)"
    by (rule core_ready_request [OF ready assms(2)])
  show ?thesis
  proof (cases res)
    case (Inl e)
    then show ?thesis
      using s idle refused_request_outputs [of M req "dv_core d" s e]
      by (simp add: driver_request_def driver_ok_def swarm_is_idle_def)
  next
    case (Inr u)
    then show ?thesis
      using s flush_actions_returns [OF s(2), of T clk] by (auto simp: driver_request_def)
  qed
qed

lemma driver_open_user_stream_returns:
  assumes "driver_ok M H ic pc d"
  shows "\<exists>d' res. driver_open_user_stream M H T clk p pid d = Some (d', res) \<and> driver_ok M H ic pc d' \<and>
    (\<exists>new. dv_event_buffer d' = dv_event_buffer d @ new)"
proof -
  have ready: "core_ready M H ic pc d" and idle: "swarm_is_idle (dv_core d)"
    using assms(1) by (simp_all add: driver_ok_def)
  obtain s res where "serve_request M (RqOpenUserStream p pid) (dv_core d) = Some (s, res)"
    and ready': "core_ready M H ic pc (d\<lparr>dv_core := s\<rparr>)"
    using core_ready_request [OF ready, of "RqOpenUserStream p pid"] by auto
  note s = this(1) [unfolded serve_request.simps]
  show ?thesis
  proof (cases res)
    case (Inl e)
    then show ?thesis
      using s ready' idle refused_request_outputs [of M "RqOpenUserStream p pid" "dv_core d" s e]
      by (simp add: driver_open_user_stream_def driver_ok_def swarm_is_idle_def)
  next
    case (Inr u)
    obtain d1 cap evs where loop: "driver_loop M H T clk None [] (d\<lparr>dv_core := s\<rparr>) = Some (d1, cap, evs)"
      "core_ready M H ic pc d1" "dv_event_buffer d1 = dv_event_buffer d"
      using driver_loop_returns [OF ready', of T clk None "[]"] by auto
    then show ?thesis
      using s Inr flush_actions_returns [of M H ic pc "d1\<lparr>dv_event_buffer := dv_event_buffer d1 @ evs\<rparr>" T clk]
      by (auto simp: driver_open_user_stream_def)
  qed
qed

text \<open>The events of one poll of the transport are within its contract, each in the state it meets.\<close>

fun events_ok ::
  "'mh::linorder multihash_api \<Rightarrow> (bytes \<Rightarrow> bytes) \<Rightarrow> u64 \<Rightarrow> 'mh transport_event list \<Rightarrow> 'mh swarm_core \<Rightarrow> bool" where
  "events_ok M H now_ms [] s \<longleftrightarrow> True"
| "events_ok M H now_ms (event # events) s \<longleftrightarrow>
     input_ok (SiTransport event now_ms) s \<and>
     (case swarm_handle_input M H (SiTransport event now_ms) s of None \<Rightarrow> True | Some t \<Rightarrow> events_ok M H now_ms events t)"

definition poll_ok ::
  "'mh::linorder multihash_api \<Rightarrow> (bytes \<Rightarrow> bytes) \<Rightarrow> ('t, 'mh) transport \<Rightarrow> (nat \<Rightarrow> u64) \<Rightarrow> ('t, 'mh) swarm_driver \<Rightarrow> bool" where
  "poll_ok M H T clk d \<longleftrightarrow>
     (case snd (tr_poll T (dv_transport d)) of
        Inl e \<Rightarrow> True
      | Inr events \<Rightarrow> events_ok M H (clk (dv_readings d)) events
          (set_local_addresses (tr_local_addresses T (dv_transport d)) (dv_core d)))"

text \<open>The core on a sequence of inputs.\<close>

fun core_inputs ::
  "'mh::linorder multihash_api \<Rightarrow> (bytes \<Rightarrow> bytes) \<Rightarrow> 'mh swarm_input list \<Rightarrow> 'mh swarm_core \<Rightarrow> 'mh swarm_core option" where
  "core_inputs M H [] s = Some s"
| "core_inputs M H (i # is) s = Option.bind (swarm_handle_input M H i s) (core_inputs M H is)"

definition poll_inputs :: "u64 \<Rightarrow> 'mh transport_event list \<Rightarrow> 'mh swarm_input list" where
  "poll_inputs now_ms events = map (\<lambda>event. SiTransport event now_ms) events @ [SiTick now_ms]"

lemma feed_and_tick:
  assumes "core_ready M H ic pc d" and "events_ok M H now_ms events (dv_core d)"
  shows "\<exists>s1 s. feed_events M H now_ms events d = Some (d\<lparr>dv_core := s1\<rparr>) \<and>
    to_core M H (SiTick now_ms) (d\<lparr>dv_core := s1\<rparr>) = Some (d\<lparr>dv_core := s\<rparr>) \<and>
    core_inputs M H (poll_inputs now_ms events) (dv_core d) = Some s \<and> core_ready M H ic pc (d\<lparr>dv_core := s\<rparr>)"
  using assms
proof (induction events arbitrary: d)
  case Nil
  have "input_ok (SiTick now_ms) (dv_core d)" by simp
  with Nil.prems(1) obtain s where "to_core M H (SiTick now_ms) d = Some (d\<lparr>dv_core := s\<rparr>)"
    "swarm_handle_input M H (SiTick now_ms) (dv_core d) = Some s" "core_ready M H ic pc (d\<lparr>dv_core := s\<rparr>)"
    by (rule to_core_returns)
  then show ?case
    by (intro exI [of _ "dv_core d"] exI [of _ s]) (simp add: poll_inputs_def del: swarm_handle_input.simps)
next
  case (Cons event events)
  have "input_ok (SiTransport event now_ms) (dv_core d)"
    using Cons.prems(2) by simp
  with Cons.prems(1) obtain s where s: "to_core M H (SiTransport event now_ms) d = Some (d\<lparr>dv_core := s\<rparr>)"
    "swarm_handle_input M H (SiTransport event now_ms) (dv_core d) = Some s" "core_ready M H ic pc (d\<lparr>dv_core := s\<rparr>)"
    by (rule to_core_returns)
  then show ?case
    using Cons.IH [OF s(3)] Cons.prems(2) by (simp add: poll_inputs_def del: swarm_handle_input.simps)
qed

lemma driver_poll_returns:
  assumes "driver_ok M H ic pc d" and "poll_ok M H T clk d"
  shows "\<exists>d' res. driver_poll M H T clk d = Some (d', res) \<and> driver_ok M H ic pc d' \<and> dv_readings d < dv_readings d' \<and>
    (case snd (tr_poll T (dv_transport d)) of
       Inl e \<Rightarrow> res = Err e \<and> dv_event_buffer d' = dv_event_buffer d
     | Inr events \<Rightarrow> dv_event_buffer d' = [] \<and>
         (\<exists>s new. core_inputs M H (poll_inputs (clk (dv_readings d)) events)
              (set_local_addresses (tr_local_addresses T (dv_transport d)) (dv_core d)) = Some s \<and>
            res = Ok (dv_event_buffer d @ sw_events s @ new) \<and> list_all is_error_event new))"
proof -
  let ?now = "clk (dv_readings d)" and ?addrs = "tr_local_addresses T (dv_transport d)"
  obtain t r where t: "tr_poll T (dv_transport d) = (t, r)" by force
  let ?e = "d\<lparr>dv_readings := dv_readings d + 1, dv_core := set_local_addresses ?addrs (dv_core d), dv_transport := t\<rparr>"
  have ready: "core_ready M H ic pc ?e"
    using assms(1) swarm_reachable.request [of M H ic pc "dv_core d" "RqSetLocalAddresses ?addrs"]
    by (simp add: driver_ok_def core_ready_def)
  show ?thesis
  proof (cases r)
    case (Inl e)
    then show ?thesis
      using t ready assms(1)
      by (simp add: driver_poll_def driver_now_def driver_ok_def swarm_is_idle_def set_local_addresses_def)
  next
    case (Inr events)
    then have "events_ok M H ?now events (dv_core ?e)"
      using assms(2) t by (simp add: poll_ok_def)
    from feed_and_tick [OF ready this] obtain s1 s where
      s: "feed_events M H ?now events ?e = Some (?e\<lparr>dv_core := s1\<rparr>)"
      "to_core M H (SiTick ?now) (?e\<lparr>dv_core := s1\<rparr>) = Some (?e\<lparr>dv_core := s\<rparr>)"
      "core_inputs M H (poll_inputs ?now events) (dv_core ?e) = Some s" "core_ready M H ic pc (?e\<lparr>dv_core := s\<rparr>)"
      by blast
    obtain d3 new where d3: "flush_actions M H T clk (?e\<lparr>dv_core := s\<rparr>) = Some d3" "driver_ok M H ic pc d3"
      "dv_event_buffer d3 = dv_event_buffer d @ sw_events s @ new" "list_all is_error_event new"
      "dv_readings d < dv_readings d3"
      using flush_actions_returns [OF s(4), of T clk] by auto
    have "driver_loop M H T clk None (dv_event_buffer d3) (d3\<lparr>dv_event_buffer := []\<rparr>) =
        Some (d3\<lparr>dv_event_buffer := []\<rparr>, None, dv_event_buffer d3)"
      using d3(2) by (intro driver_loop_idle) (simp add: driver_ok_def)
    then show ?thesis
      using s(1-3) t Inr d3 by (simp add: driver_poll_def driver_now_def driver_ok_def)
  qed
qed

section \<open>What the driver promises\<close>

text \<open>
  C13. The loop that executes the outputs of the core ends, whatever the transport answers and however
  many outputs that adds: flushing returns, the core is idle afterwards, and the application finds the
  events of the core behind the ones it had not fetched yet, followed only by reports of failed calls.
\<close>

theorem driver_flush_terminates:
  assumes "crypto_laws M H" and "swarm_reachable M H ic pc (dv_core d)"
  shows "\<exists>d' new. flush_actions M H T clk d = Some d' \<and> swarm_is_idle (dv_core d') \<and>
    swarm_reachable M H ic pc (dv_core d') \<and>
    dv_event_buffer d' = dv_event_buffer d @ sw_events (dv_core d) @ new \<and>
    (\<forall>e \<in> set new. \<exists>err. e = SwError err)"
  using flush_actions_returns [of M H ic pc d T clk] assms
  by (auto simp: core_ready_def driver_ok_def list_all_iff is_error_event_def)

text \<open>A transport on which every call fails, for the witnesses.\<close>

definition failing_transport :: "(unit, mh64) transport" where
  "failing_transport =
     \<lparr>tr_dial = \<lambda>_ t. (t, Err TrNotListening), tr_listen = \<lambda>_ t. (t, Err TrNotListening),
      tr_open_stream = \<lambda>_ t. (t, Err TrNotListening), tr_send_stream = \<lambda>_ _ _ t. (t, Err TrNotListening),
      tr_close_stream_write = \<lambda>_ _ t. (t, Err TrNotListening), tr_reset_stream = \<lambda>_ _ t. (t, Err TrNotListening),
      tr_close = \<lambda>_ t. (t, Err TrNotListening), tr_poll = \<lambda>t. (t, Ok []), tr_local_addresses = \<lambda>_. [],
      tr_active_connection_count = \<lambda>_. 0, tr_active_connection_sources = \<lambda>_. [],
      tr_active_inbound_connection_sources = \<lambda>_. []\<rparr>"

definition demo_driver :: "'t \<Rightarrow> ('t, mh64) swarm_driver" where
  "demo_driver t = \<lparr>dv_transport = t, dv_core = demo_swarm, dv_local_peer_id = demo_peer, dv_event_buffer = [], dv_readings = 0\<rparr>"

lemma demo_swarm_outputs [simp]:
  "sw_events demo_swarm = [SwConnectionEstablished demo_peer]"
  "sw_actions demo_swarm = [SaOpenStream (ConnectionId 1) (OpenStreamToken 1)]"
  by (simp_all add: demo_swarm_eq(2))

theorem driver_flush_terminates_witness:
  "\<exists>d' new. flush_actions mh64_api demo_crypto failing_transport (\<lambda>_. 0) (demo_driver ()) = Some d' \<and>
    dv_event_buffer d' = SwConnectionEstablished demo_peer # new \<and> (\<forall>e \<in> set new. \<exists>err. e = SwError err)"
  using driver_flush_terminates [OF demo_crypto_laws, of demo_identify "\<lparr>request_timeout_ms = 1000\<rparr>" "demo_driver ()"
      failing_transport "\<lambda>_. 0"] demo_swarm_reachable
  by (auto simp: demo_driver_def)

text \<open>
  C12. No operation of the driver panics.  From a driver whose core is idle and in a state the core allows,
  each request of the application, opening a stream, and polling a transport that keeps its contract
  return, whatever the transport answers; they lead to such a driver again, and no event that waits for
  the application is lost: the waiting events stay in front of the new ones, in the buffer or in the
  result of the poll.
\<close>

theorem driver_operations_safe:
  assumes "crypto_laws M H"
  shows "driver_ok M H ic pc (driver_new t ic pc p) \<and>
    (driver_ok M H ic pc d \<longrightarrow>
      (request_ok req \<longrightarrow>
        (\<exists>d' res. driver_request M H T clk req d = Some (d', res) \<and> driver_ok M H ic pc d' \<and>
          prefix (dv_event_buffer d) (dv_event_buffer d'))) \<and>
      (\<exists>d' res. driver_open_user_stream M H T clk p pid d = Some (d', res) \<and> driver_ok M H ic pc d' \<and>
        prefix (dv_event_buffer d) (dv_event_buffer d')) \<and>
      (poll_ok M H T clk d \<longrightarrow>
        (\<exists>d' res. driver_poll M H T clk d = Some (d', res) \<and> driver_ok M H ic pc d' \<and>
          (case res of Inl _ \<Rightarrow> dv_event_buffer d' = dv_event_buffer d | Inr events \<Rightarrow> prefix (dv_event_buffer d) events))))"
proof (intro conjI impI)
  assume ok: "driver_ok M H ic pc d"
  show "\<exists>d' res. driver_request M H T clk req d = Some (d', res) \<and> driver_ok M H ic pc d' \<and>
      prefix (dv_event_buffer d) (dv_event_buffer d')" if "request_ok req"
    using driver_request_returns [OF ok that] by (auto simp: prefix_def)
  show "\<exists>d' res. driver_open_user_stream M H T clk p pid d = Some (d', res) \<and> driver_ok M H ic pc d' \<and>
      prefix (dv_event_buffer d) (dv_event_buffer d')"
    using driver_open_user_stream_returns [OF ok] by (auto simp: prefix_def)
  show "\<exists>d' res. driver_poll M H T clk d = Some (d', res) \<and> driver_ok M H ic pc d' \<and>
      (case res of Inl _ \<Rightarrow> dv_event_buffer d' = dv_event_buffer d | Inr events \<Rightarrow> prefix (dv_event_buffer d) events)"
    if "poll_ok M H T clk d"
    using driver_poll_returns [OF ok that] by (fastforce simp: prefix_def split: sum.splits)
qed (rule driver_ok_new [OF assms])

theorem driver_operations_safe_witness:
  "\<exists>d res d' res'. driver_poll mh64_api demo_crypto failing_transport (\<lambda>_. 0)
      (driver_new () demo_identify \<lparr>request_timeout_ms = 1000\<rparr> demo_peer) = Some (d, res) \<and>
    driver_request mh64_api demo_crypto failing_transport (\<lambda>_. 0) (RqDisconnect demo_peer) d = Some (d', res')"
proof -
  let ?d = "driver_new () demo_identify \<lparr>request_timeout_ms = 1000\<rparr> demo_peer"
  note safe = driver_operations_safe [OF demo_crypto_laws, where T = failing_transport and clk = "\<lambda>_. 0"
      and ic = demo_identify and pc = "\<lparr>request_timeout_ms = 1000\<rparr>" and p = demo_peer and t = "()" and pid = "[]"]
  have "poll_ok mh64_api demo_crypto failing_transport (\<lambda>_. 0) ?d"
    by (simp add: poll_ok_def failing_transport_def)
  with safe [where d = ?d] obtain d res where
    d: "driver_poll mh64_api demo_crypto failing_transport (\<lambda>_. 0) ?d = Some (d, res)"
    "driver_ok mh64_api demo_crypto demo_identify \<lparr>request_timeout_ms = 1000\<rparr> d" by blast
  from safe [where d = d and req = "RqDisconnect demo_peer"] d show ?thesis by auto
qed

text \<open>
  C15. A poll hands the application what waited for it, then exactly what the core emits for the events of
  the transport in their order and the tick that follows them, then only reports of calls that failed; a
  failing transport poll is passed on and loses nothing that waited.
\<close>

theorem driver_poll_events:
  assumes "driver_ok M H ic pc d" and "poll_ok M H T clk d" and "driver_poll M H T clk d = Some (d', res)"
  shows "case snd (tr_poll T (dv_transport d)) of
      Inl e \<Rightarrow> res = Err e \<and> dv_event_buffer d' = dv_event_buffer d
    | Inr events \<Rightarrow> swarm_is_idle (dv_core d') \<and> dv_event_buffer d' = [] \<and>
        (\<exists>s new. core_inputs M H
             (map (\<lambda>event. SiTransport event (clk (dv_readings d))) events @ [SiTick (clk (dv_readings d))])
             (set_local_addresses (tr_local_addresses T (dv_transport d)) (dv_core d)) = Some s \<and>
           res = Ok (dv_event_buffer d @ sw_events s @ new) \<and> (\<forall>e \<in> set new. \<exists>err. e = SwError err))"
  using driver_poll_returns [OF assms(1,2)] assms(3)
  by (auto simp: poll_inputs_def driver_ok_def list_all_iff is_error_event_def split: sum.splits)

text \<open>A transport that reports the given events at every poll and answers every call with success.\<close>

definition scripted_transport :: "mh64 transport_event list \<Rightarrow> (unit, mh64) transport" where
  "scripted_transport events = failing_transport
     \<lparr>tr_open_stream := \<lambda>_ t. (t, Ok (StreamId 0)), tr_send_stream := \<lambda>_ _ _ t. (t, Ok ()),
      tr_poll := \<lambda>t. (t, Ok events)\<rparr>"

definition demo_new_driver :: "(unit, mh64) swarm_driver" where
  "demo_new_driver = driver_new () demo_identify \<lparr>request_timeout_ms = 1000\<rparr> demo_peer"

lemma demo_new_driver_ok:
  "driver_ok mh64_api demo_crypto demo_identify \<lparr>request_timeout_ms = 1000\<rparr> demo_new_driver"
  by (simp add: demo_new_driver_def driver_ok_new demo_crypto_laws)

theorem driver_poll_events_witness:
  "\<exists>d' events. driver_poll mh64_api demo_crypto
      (scripted_transport [TeConnected (ConnectionId 1) (endpoint_with_peer_id (Multiaddr [QuicV1]) demo_peer)])
      (\<lambda>_. 0) demo_new_driver = Some (d', Ok events) \<and> swarm_is_idle (dv_core d')"
proof -
  let ?T = "scripted_transport [TeConnected (ConnectionId 1) (endpoint_with_peer_id (Multiaddr [QuicV1]) demo_peer)]"
  have ok: "poll_ok mh64_api demo_crypto ?T (\<lambda>_. 0) demo_new_driver"
    by (simp add: poll_ok_def scripted_transport_def endpoint_with_peer_id_def demo_new_driver_def driver_new_def swarm_new_def
        set_local_addresses_def split: option.split)
  obtain d' res where "driver_poll mh64_api demo_crypto ?T (\<lambda>_. 0) demo_new_driver = Some (d', res)"
    using driver_poll_returns [OF demo_new_driver_ok ok] by blast
  with driver_poll_events [OF demo_new_driver_ok ok this] show ?thesis
    by (auto simp: scripted_transport_def)
qed

text \<open>The driver after \<open>n\<close> rounds of \<open>poll_next\<close> in which nothing happened.\<close>

fun idle_rounds ::
  "'mh::linorder multihash_api \<Rightarrow> (bytes \<Rightarrow> bytes) \<Rightarrow> ('t, 'mh) transport \<Rightarrow> (nat \<Rightarrow> u64) \<Rightarrow> nat \<Rightarrow> ('t, 'mh) swarm_driver \<Rightarrow>
     ('t, 'mh) swarm_driver option" where
  "idle_rounds M H T clk 0 d = Some d"
| "idle_rounds M H T clk (Suc n) d =
     (case driver_poll M H T clk d of
        Some (d', Inr []) \<Rightarrow> idle_rounds M H T clk n (d'\<lparr>dv_readings := dv_readings d' + 1\<rparr>)
      | _ \<Rightarrow> None)"

lemma poll_next_buffered:
  "dv_event_buffer d = ev # evs \<Longrightarrow> poll_next M H T clk late d = Some (d\<lparr>dv_event_buffer := evs\<rparr>, Ok (Some ev))"
  by (subst poll_next.simps) simp

lemma poll_next_polls:
  assumes "dv_event_buffer d = []" and "driver_poll M H T clk d = Some (d', res)"
  shows "res = Err e \<Longrightarrow> poll_next M H T clk late d = Some (d', Err e)"
    and "res = Ok (ev # evs) \<Longrightarrow> dv_event_buffer d' = [] \<Longrightarrow>
      poll_next M H T clk late d = Some (d'\<lparr>dv_event_buffer := evs\<rparr>, Ok (Some ev))"
    and "res = Ok [] \<Longrightarrow> dv_event_buffer d' = [] \<Longrightarrow>
      poll_next M H T clk late d =
        (if late (dv_readings d') then Some (d'\<lparr>dv_readings := dv_readings d' + 1\<rparr>, Ok None)
         else poll_next M H T clk late (d'\<lparr>dv_readings := dv_readings d' + 1\<rparr>))"
  using assms by (simp_all add: poll_next.simps [of M H T clk late d] Let_def)

lemma driver_ok_frame [simp]:
  "driver_ok M H ic pc (d\<lparr>dv_event_buffer := es\<rparr>) = driver_ok M H ic pc d"
  "driver_ok M H ic pc (d\<lparr>dv_readings := n\<rparr>) = driver_ok M H ic pc d"
  "driver_ok M H ic pc (d\<lparr>dv_transport := t\<rparr>) = driver_ok M H ic pc d"
  by (simp_all add: driver_ok_def)

lemma poll_next_returns_aux:
  assumes "driver_ok M H ic pc d" and "\<forall>n d'. idle_rounds M H T clk n d = Some d' \<longrightarrow> poll_ok M H T clk d'"
    and "\<And>m. m \<ge> N \<Longrightarrow> late m"
  shows "\<exists>d' res. poll_next M H T clk late d = Some (d', res) \<and> driver_ok M H ic pc d' \<and>
    (res = Ok None \<longrightarrow> (\<exists>m. late m \<and> dv_readings d \<le> m \<and> m < dv_readings d') \<and> dv_event_buffer d' = [])"
  using assms(1,2)
proof (induction "N - dv_readings d" arbitrary: d rule: less_induct)
  case less
  show ?case
  proof (cases "dv_event_buffer d")
    case (Cons ev evs)
    then show ?thesis
      using less.prems(1) by (simp add: poll_next_buffered)
  next
    case Nil
    obtain d1 res where d1: "driver_poll M H T clk d = Some (d1, res)" "driver_ok M H ic pc d1"
      "dv_readings d < dv_readings d1" "dv_event_buffer d1 = []"
      using driver_poll_returns [OF less.prems(1), of T clk] less.prems(2) [rule_format, of 0 d] Nil
      by (cases "snd (tr_poll T (dv_transport d))") auto
    show ?thesis
    proof (cases "res = Ok []")
      case False
      then obtain e ev evs where "res = Err e \<or> res = Ok (ev # evs)"
        by (cases res; metis neq_Nil_conv)
      then show ?thesis
        using d1 poll_next_polls(1,2) [OF Nil d1(1)] by fastforce
    next
      case True
      let ?d = "d1\<lparr>dv_readings := dv_readings d1 + 1\<rparr>"
      note round = poll_next_polls(3) [OF Nil d1(1) True, of late]
      show ?thesis
      proof (cases "late (dv_readings d1)")
        case True
        then show ?thesis
          using round d1 \<open>res = Ok []\<close> by (intro exI [of _ ?d] exI [of _ "Ok None"]) auto
      next
        case False
        then have "N - dv_readings ?d < N - dv_readings d"
          using d1(3) assms(3) [of "dv_readings d1"] by fastforce
        moreover have "poll_ok M H T clk d'" if "idle_rounds M H T clk n ?d = Some d'" for n d'
          using less.prems(2) [rule_format, of "Suc n" d'] that d1(1) \<open>res = Ok []\<close> by simp
        ultimately obtain d' res' where "poll_next M H T clk late ?d = Some (d', res')" "driver_ok M H ic pc d'"
          "res' = Ok None \<longrightarrow> (\<exists>m. late m \<and> dv_readings ?d \<le> m \<and> m < dv_readings d') \<and> dv_event_buffer d' = []"
          using less.hyps [of ?d] d1(2) by auto
        then show ?thesis
          using False round d1(3,4) \<open>res = Ok []\<close> by fastforce
      qed
    qed
  qed
qed

text \<open>
  C14. Waiting for the next event returns: once the deadline has passed for good, whatever the transport
  does within its contract and however long it stays silent, \<open>poll_next\<close> returns an event, an error of the
  transport, or, only after it has seen that the deadline passed and with no event left behind, nothing.
\<close>

theorem poll_next_returns:
  assumes "driver_ok M H ic pc d"
    and "\<forall>n d'. idle_rounds M H T clk n d = Some d' \<longrightarrow> poll_ok M H T clk d'"
    and "\<exists>N. \<forall>m \<ge> N. late m"
  shows "\<exists>d' res. poll_next M H T clk late d = Some (d', res) \<and> driver_ok M H ic pc d' \<and>
    (res = Ok None \<longrightarrow> (\<exists>m. late m \<and> dv_readings d \<le> m \<and> m < dv_readings d') \<and> dv_event_buffer d' = [])"
  using poll_next_returns_aux [OF assms(1,2)] assms(3) by blast

theorem poll_next_returns_witness:
  "\<exists>d' res. poll_next mh64_api demo_crypto failing_transport (\<lambda>_. 0) (\<lambda>n. 7 \<le> n) demo_new_driver = Some (d', res)"
proof -
  have "poll_ok mh64_api demo_crypto failing_transport (\<lambda>_. 0) d'" for d'
    by (simp add: poll_ok_def failing_transport_def)
  then show ?thesis
    using poll_next_returns [OF demo_new_driver_ok, of failing_transport "\<lambda>_. 0" "\<lambda>n. 7 \<le> n"] by blast
qed

lemma flush_actions_idle: "swarm_is_idle (dv_core d) \<Longrightarrow> flush_actions M H T clk d = Some d"
  by (simp add: flush_actions_def driver_loop_idle)

lemma request_stream_outputs:
  assumes "swarm_is_idle s"
  obtains token where "sw_actions (request_stream c pid target s) = [SaOpenStream c token]"
    "sw_events (request_stream c pid target s) = []"
    "bm_get (pending_opens (request_stream c pid target s)) token =
      Some \<lparr>pn_conn_id = c, pn_protocol = pid, pn_target = target\<rparr>"
  using assms that by (cases "next_token s = 0")
    (auto simp: request_stream_def next_open_token_eq sw_push_action_def swarm_is_idle_def)

text \<open>The loop on a single request to open a stream.\<close>

lemma driver_loop_open_stream:
  assumes "sw_actions (dv_core d) = [SaOpenStream c token]" and "sw_events (dv_core d) = []"
    and "bm_get (pending_opens (dv_core d)) token = Some \<lparr>pn_conn_id = c, pn_protocol = pid, pn_target = target\<rparr>"
  shows "tr_open_stream T c (dv_transport d) = (t1, Ok sid) \<Longrightarrow>
      tr_send_stream T c sid (encode_message MULTISTREAM_PROTOCOL_ID) t1 = (t2, Ok ()) \<Longrightarrow>
      \<exists>d'. driver_loop M H T clk None [] d = Some (d', Some sid, []) \<and> dv_transport d' = t2 \<and>
        swarm_is_idle (dv_core d') \<and> dv_event_buffer d' = dv_event_buffer d \<and>
        bm_get (outbound_negotiators (dv_core d')) (c, sid) =
          Some \<lparr>po_negotiator = (ms_dialer pid)\<lparr>ms_started := True\<rparr>, po_target = target\<rparr>"
    and "tr_open_stream T c (dv_transport d) = (t1, Err e) \<Longrightarrow>
      \<exists>d' err. driver_loop M H T clk None [] d = Some (d', None, [SwError err]) \<and> dv_transport d' = t1 \<and>
        swarm_is_idle (dv_core d') \<and> dv_event_buffer d' = dv_event_buffer d \<and> se_conn_id err = Some c"
proof -
  let ?s = "(dv_core d)\<lparr>sw_actions := []\<rparr>"
  let ?n = "(ms_dialer pid)\<lparr>ms_started := True\<rparr>"
  have pend: "bm_get (pending_opens ?s) token = Some \<lparr>pn_conn_id = c, pn_protocol = pid, pn_target = target\<rparr>"
    using assms(3) by simp
  {
    assume t: "tr_open_stream T c (dv_transport d) = (t1, Ok sid)"
      "tr_send_stream T c sid (encode_message MULTISTREAM_PROTOCOL_ID) t1 = (t2, Ok ())"
    let ?s1 = "put_outbound (c, sid) ?n target (sw_push_action (SaSendStream c sid (encode_message MULTISTREAM_PROTOCOL_ID))
      (?s\<lparr>pending_opens := bm_remove token (pending_opens ?s)\<rparr>))"
    let ?d1 = "d\<lparr>dv_transport := t1, dv_readings := dv_readings d + 1, dv_core := ?s1\<rparr>"
    have "driver_loop M H T clk None [] d = driver_loop M H T clk (Some sid) [] ?d1"
      using t(1) handle_stream_opened_eq [OF pend] by (simp add: driver_loop_action [OF assms(1)] driver_now_def to_core_def)
    also have "\<dots> = driver_loop M H T clk (Some sid) [] (?d1\<lparr>dv_core := ?s1\<lparr>sw_actions := []\<rparr>, dv_transport := t2\<rparr>)"
      using t(2) by (subst driver_loop_action [where a = "SaSendStream c sid (encode_message MULTISTREAM_PROTOCOL_ID)" and as = "[]"]) (simp_all add: put_outbound_def sw_push_action_def report_failure_def)
    finally show "\<exists>d'. driver_loop M H T clk None [] d = Some (d', Some sid, []) \<and> dv_transport d' = t2 \<and>
        swarm_is_idle (dv_core d') \<and> dv_event_buffer d' = dv_event_buffer d \<and>
        bm_get (outbound_negotiators (dv_core d')) (c, sid) = Some \<lparr>po_negotiator = ?n, po_target = target\<rparr>"
      using assms(2) by (simp add: driver_loop_idle swarm_is_idle_def put_outbound_def sw_push_action_def)
  next
    assume t: "tr_open_stream T c (dv_transport d) = (t1, Err e)"
    obtain s1 err where s1: "handle_open_stream_failed token (show_transport_error e) ?s = s1" "sw_actions s1 = []"
      "sw_events s1 = [SwError err]" "se_conn_id err = Some c"
      using pend assms(2) by (simp add: handle_open_stream_failed_def sw_push_defs Let_def)
    let ?d1 = "d\<lparr>dv_transport := t1, dv_readings := dv_readings d + 1, dv_core := s1\<rparr>"
    have "driver_loop M H T clk None [] d = driver_loop M H T clk None [] ?d1"
      using t s1(1) by (simp add: driver_loop_action [OF assms(1)] driver_now_def to_core_def)
    also have "\<dots> = driver_loop M H T clk None [SwError err] (?d1\<lparr>dv_core := s1\<lparr>sw_events := []\<rparr>\<rparr>)"
      using s1(2,3) by (subst driver_loop_event [where e = "SwError err" and es = "[]"]) simp_all
    finally show "\<exists>d' err. driver_loop M H T clk None [] d = Some (d', None, [SwError err]) \<and> dv_transport d' = t1 \<and>
        swarm_is_idle (dv_core d') \<and> dv_event_buffer d' = dv_event_buffer d \<and> se_conn_id err = Some c"
      using s1 by (simp add: driver_loop_idle swarm_is_idle_def)
  }
qed

text \<open>
  C16. Opening a stream for the application.  If the core accepts the request and the transport opens the
  stream and takes the header, the driver returns the id the transport allocated, has sent the
  negotiation header on that stream and nothing else, and the negotiation of the protocol runs under
  that id; if the transport refuses, the driver returns an error and one report waits for the
  application.
\<close>

theorem driver_open_user_stream_allocates:
  assumes "driver_ok M H ic pc d" and "open_user_stream p pid (dv_core d) = Some (s, Ok ())"
    and "conn_for p (dv_core d) = Some c"
  shows "(tr_open_stream T c (dv_transport d) = (t1, Ok sid) \<longrightarrow>
       tr_send_stream T c sid (encode_message MULTISTREAM_PROTOCOL_ID) t1 = (t2, Ok ()) \<longrightarrow>
       (\<exists>d'. driver_open_user_stream M H T clk p pid d = Some (d', Ok sid) \<and> dv_transport d' = t2 \<and>
         dv_event_buffer d' = dv_event_buffer d \<and>
         bm_get (outbound_negotiators (dv_core d')) (c, sid) =
           Some \<lparr>po_negotiator = (ms_dialer pid)\<lparr>ms_started := True\<rparr>, po_target = PkUser pid\<rparr>)) \<and>
    (tr_open_stream T c (dv_transport d) = (t1, Err e) \<longrightarrow>
       (\<exists>d' e' err. driver_open_user_stream M H T clk p pid d = Some (d', Err e') \<and> dv_transport d' = t1 \<and>
         dv_event_buffer d' = dv_event_buffer d @ [SwError err] \<and> se_conn_id err = Some c))"
proof -
  have idle: "swarm_is_idle (dv_core d)" using assms(1) by (simp add: driver_ok_def)
  have s: "s = request_stream c pid (PkUser pid) (dv_core d)"
    using assms(2,3) by (auto simp: open_user_stream_def queue_open_eq conn_for_def split: if_splits)
  obtain token where tok: "sw_actions s = [SaOpenStream c token]" "sw_events s = []"
    "bm_get (pending_opens s) token = Some \<lparr>pn_conn_id = c, pn_protocol = pid, pn_target = PkUser pid\<rparr>"
    unfolding s by (rule request_stream_outputs [OF idle])
  note loop = driver_loop_open_stream [of "d\<lparr>dv_core := s\<rparr>" c token pid "PkUser pid" T t1, simplified, OF tok]
  show ?thesis
  proof (intro conjI impI)
    assume t: "tr_open_stream T c (dv_transport d) = (t1, Ok sid)"
      "tr_send_stream T c sid (encode_message MULTISTREAM_PROTOCOL_ID) t1 = (t2, Ok ())"
    from loop(1) [OF t, of M H clk] show "\<exists>d'. driver_open_user_stream M H T clk p pid d = Some (d', Ok sid) \<and>
        dv_transport d' = t2 \<and> dv_event_buffer d' = dv_event_buffer d \<and>
        bm_get (outbound_negotiators (dv_core d')) (c, sid) =
          Some \<lparr>po_negotiator = (ms_dialer pid)\<lparr>ms_started := True\<rparr>, po_target = PkUser pid\<rparr>"
      using assms(2) by (auto simp: driver_open_user_stream_def flush_actions_idle ok_or_def)
  next
    assume t: "tr_open_stream T c (dv_transport d) = (t1, Err e)"
    from loop(2) [OF t, of M H clk] show "\<exists>d' e' err. driver_open_user_stream M H T clk p pid d = Some (d', Err e') \<and>
        dv_transport d' = t1 \<and> dv_event_buffer d' = dv_event_buffer d @ [SwError err] \<and> se_conn_id err = Some c"
      using assms(2) by (auto simp: driver_open_user_stream_def flush_actions_idle ok_or_def)
  qed
qed

definition demo_idle_driver :: "(unit, mh64) swarm_driver" where
  "demo_idle_driver = demo_driver ()
     \<lparr>dv_core := snd (swarm_poll_output (snd (swarm_poll_output (add_user_protocol (lit ''/x'') demo_swarm))))\<rparr>"

lemma demo_idle_driver_ok:
  "driver_ok mh64_api demo_crypto demo_identify \<lparr>request_timeout_ms = 1000\<rparr> demo_idle_driver"
proof -
  have "swarm_reachable mh64_api demo_crypto demo_identify \<lparr>request_timeout_ms = 1000\<rparr> (add_user_protocol (lit ''/x'') demo_swarm)"
    using swarm_reachable.request [OF demo_swarm_reachable, of "RqAddUserProtocol (lit ''/x'')"] by simp
  then have "swarm_reachable mh64_api demo_crypto demo_identify \<lparr>request_timeout_ms = 1000\<rparr> (dv_core demo_idle_driver)"
    by (simp add: demo_idle_driver_def swarm_reachable.poll)
  then show ?thesis
    using demo_crypto_laws
    by (simp add: driver_ok_def core_ready_def demo_idle_driver_def swarm_is_idle_def swarm_poll_output_def add_user_protocol_def
        demo_swarm_eq(2) Let_def)
qed

lemma demo_idle_driver_buffer: "dv_event_buffer demo_idle_driver = []" "dv_transport demo_idle_driver = ()"
  by (simp_all add: demo_idle_driver_def demo_driver_def)

lemma demo_idle_core:
  "user_protocols (dv_core demo_idle_driver) = [lit ''/x'']" "ready_peers (dv_core demo_idle_driver) = []"
  "bm_get (peer_to_conn (dv_core demo_idle_driver)) demo_peer = Some (ConnectionId 1)"
  "bm_get (conn_to_peer (dv_core demo_idle_driver)) (ConnectionId 1) = Some demo_peer"
  by (simp_all add: demo_idle_driver_def swarm_poll_output_def add_user_protocol_def Let_def)
    (simp_all add: demo_swarm_eq(2) swarm_new_def)

theorem driver_open_user_stream_allocates_witness:
  "\<exists>d'. driver_open_user_stream mh64_api demo_crypto (scripted_transport []) (\<lambda>_. 0) demo_peer (lit ''/x'') demo_idle_driver =
      Some (d', Ok (StreamId 0)) \<and> dv_event_buffer d' = []"
proof -
  have "conn_for demo_peer (dv_core demo_idle_driver) = Some (ConnectionId 1)"
    "open_user_stream demo_peer (lit ''/x'') (dv_core demo_idle_driver) =
      Some (request_stream (ConnectionId 1) (lit ''/x'') (PkUser (lit ''/x'')) (dv_core demo_idle_driver), Ok ())"
    by (simp_all add: conn_for_def open_user_stream_def queue_open_eq demo_idle_core)
  note open_ok = driver_open_user_stream_allocates [OF demo_idle_driver_ok this(2,1), of "scripted_transport []" "()"
      "StreamId 0" "()" "\<lambda>_. 0" TrNotListening, THEN conjunct1, rule_format]
  have "tr_open_stream (scripted_transport []) c t = (t, Ok (StreamId 0))"
    "tr_send_stream (scripted_transport []) c sid data t = (t, Ok ())" for c t sid data
    by (simp_all add: scripted_transport_def)
  from open_ok this show ?thesis
    by (metis demo_idle_driver_buffer)
qed

section \<open>The deadline of \<open>run_until\<close>\<close>

text \<open>Collecting the outputs of the protocols only adds events.\<close>

lemma handlers_add_events:
  "sw_events (execute_ping_action a s) = sw_events s" "prefix (sw_events s) (sw_events (handle_ping_event M e s))"
  "sw_events (execute_identify_action b s) = sw_events s" "prefix (sw_events s) (sw_events (handle_identify_event i s))"
proof -
  show "sw_events (execute_ping_action a s) = sw_events s"
    by (cases a) (simp_all add: sw_push_defs split: option.split)
  show "prefix (sw_events s) (sw_events (handle_ping_event M e s))"
    by (cases e) (simp_all add: sw_push_defs)
  show "sw_events (execute_identify_action b s) = sw_events s"
    by (cases b) (simp_all add: sw_push_defs split: option.split)
  show "prefix (sw_events s) (sw_events (handle_identify_event i s))"
    by (cases i) (simp_all add: sw_push_defs try_emit_peer_ready_def split: option.split)
qed

lemma drain_ping_adds_events:
  fixes s :: "'mh::linorder swarm_core"
  shows "prefix (sw_events s) (sw_events (drain_ping_outputs M s))"
proof (induction M s rule: drain_ping_outputs.induct)
  case (1 M s)
  obtain out q where q: "ping_poll_output (sw_ping s) = (out, q)" by force
  consider "out = None" | a where "out = Some (PingAction a)" | e where "out = Some (PingEvent e)"
    by (metis ping_output.exhaust option.exhaust)
  then show ?case
  proof cases
    case 2
    then show ?thesis
      using "1.IH"(1) [of out q] q handlers_add_events(1) [of _ "s\<lparr>sw_ping := q\<rparr>"] by (subst drain_ping_outputs.simps) simp
  next
    case 3
    then show ?thesis
      using "1.IH"(2) [of out q] q handlers_add_events(2) [of "s\<lparr>sw_ping := q\<rparr>"]
      by (subst drain_ping_outputs.simps) (auto intro: prefix_order.trans)
  qed (subst drain_ping_outputs.simps, simp add: q)
qed

lemma drain_identify_adds_events: "prefix (sw_events s) (sw_events (drain_identify_outputs s))"
proof (induction s rule: drain_identify_outputs.induct)
  case (1 s)
  obtain out q where q: "identify_poll_output (sw_identify s) = (out, q)" by force
  consider "out = None" | a where "out = Some (IdentifyAction a)" | e where "out = Some (IdentifyEvent e)"
    by (metis identify_output.exhaust option.exhaust)
  then show ?case
  proof cases
    case 2
    then show ?thesis
      using "1.IH"(1) [of out q] q handlers_add_events(3) [of _ "s\<lparr>sw_identify := q\<rparr>"]
      by (subst drain_identify_outputs.simps) simp
  next
    case 3
    then show ?thesis
      using "1.IH"(2) [of out q] q handlers_add_events(4) [of "s\<lparr>sw_identify := q\<rparr>"]
      by (subst drain_identify_outputs.simps) (auto intro: prefix_order.trans)
  qed (subst drain_identify_outputs.simps, simp add: q)
qed

lemma tick_adds_events:
  assumes "swarm_handle_input M H (SiTick now_ms) s = Some t"
  shows "prefix (sw_events s) (sw_events t)"
proof -
  obtain u r where u: "to_ping (PingTick now_ms) s = Some (u, r)" "t = drain_identify_outputs (drain_ping_outputs M u)"
    using assms by (auto simp: handle_tick_def collect_protocol_events_def bind_eq_Some_conv)
  then show ?thesis
    using prefix_order.trans [OF drain_ping_adds_events drain_identify_adds_events, of u M] to_ping_outputs [OF u(1)] by simp
qed

text \<open>Every poll of the transport reports an error of some connection.\<close>

definition noisy :: "('t, 'mh) transport \<Rightarrow> bool" where
  "noisy T \<longleftrightarrow> (\<forall>t. \<exists>t' c message. tr_poll T t = (t', Ok [TeError c message]))"

lemma noisy_poll_next:
  assumes "driver_ok M H ic pc d" and "noisy T"
  obtains d' ev where "poll_next M H T clk late d = Some (d', Ok (Some ev))" "driver_ok M H ic pc d'"
proof (cases "dv_event_buffer d")
  case (Cons ev evs)
  then show ?thesis
    using assms(1) that by (simp add: poll_next_buffered)
next
  case Nil
  obtain t c message where t: "tr_poll T (dv_transport d) = (t, Ok [TeError c message])"
    using assms(2) unfolding noisy_def by blast
  then have "poll_ok M H T clk d"
    by (simp add: poll_ok_def)
  from driver_poll_returns [OF assms(1) this] obtain d1 s new where d1: "driver_ok M H ic pc d1" "dv_event_buffer d1 = []"
    and s: "core_inputs M H (poll_inputs (clk (dv_readings d)) [TeError c message])
      (set_local_addresses (tr_local_addresses T (dv_transport d)) (dv_core d)) = Some s"
    and poll: "driver_poll M H T clk d = Some (d1, Ok (sw_events s @ new))"
    using t Nil by auto
  have "sw_events s \<noteq> []"
    using s by (auto simp: poll_inputs_def sw_push_defs bind_eq_Some_conv simp del: swarm_handle_input.simps(2)
        dest!: tick_adds_events)
  then obtain ev evs where "sw_events s @ new = ev # evs"
    by (cases "sw_events s") auto
  with poll_next_polls(2) [OF Nil poll, of ev evs late] d1 show ?thesis
    by (intro that [of "d1\<lparr>dv_event_buffer := evs\<rparr>" ev]) auto
qed

lemma noisy_run_until:
  assumes "run_until M H T clk late predicate st d = Some r"
  shows "noisy T \<longrightarrow> (\<forall>ev st. \<not> fst (predicate ev st)) \<longrightarrow> \<not> driver_ok M H ic pc d"
proof (rule run_until.raw_induct [OF _ assms], intro impI notI)
  fix f M H T clk late predicate st d r
  assume hyp: "\<And>M H T clk late predicate st d r. f M H T clk late predicate st d = Some r \<Longrightarrow>
      noisy T \<longrightarrow> (\<forall>ev st. \<not> fst (predicate ev st)) \<longrightarrow> \<not> driver_ok M H ic pc d"
    and step: "poll_next M H T clk late d \<bind> (\<lambda>(d, res). case res of
        Inl e \<Rightarrow> Some (d, st, Err e) | Inr None \<Rightarrow> Some (d, st, Ok None)
      | Inr (Some ev) \<Rightarrow> (case predicate ev st of (stop, st) \<Rightarrow>
          if stop then Some (d, st, Ok (Some ev)) else f M H T clk late predicate st d)) = Some r"
    and loud: "noisy T" and never: "\<forall>ev st. \<not> fst (predicate ev st)" and ok: "driver_ok M H ic pc d"
  obtain d' ev where next_ev: "poll_next M H T clk late d = Some (d', Ok (Some ev))" "driver_ok M H ic pc d'"
    by (rule noisy_poll_next [OF ok loud])
  obtain st' where "predicate ev st = (False, st')"
    using never [rule_format, of ev st] by (cases "predicate ev st") auto
  with step next_ev(1) have "f M H T clk late predicate st' d' = Some r" by simp
  from hyp [OF this] loud never next_ev(2) show False by simp
qed


lemma scripted_noisy: "noisy (scripted_transport [TeError c message])"
  by (simp add: noisy_def scripted_transport_def)


end
