(* ===== verification/TransportContract.thy ===== *)
theory TransportContract
  imports DriverProps
begin

text \<open>
  The interface between the driver and a transport as a contract.  A transport knows which connections are
  \<^emph>\<open>fresh\<close>: absent, or in a handshake that has not completed.  It announces only fresh connections, and reports
  data of and identities for the others only.  The core binds a peer to a connection only on these events, so
  the connections it has bound and the fresh ones stay apart; this is what the core needs of a transport to
  never panic.
\<close>

section \<open>Traces of transport events\<close>

text \<open>The state of the fresh connections in which an event may come, and what the event makes of it.\<close>

fun may_come :: "'mh transport_event \<Rightarrow> connection_id set \<Rightarrow> bool" where
  "may_come (TeConnected c _) U \<longleftrightarrow> c \<in> U"
| "may_come (TePeerIdentityVerified c _ _) U \<longleftrightarrow> c \<notin> U"
| "may_come (TeStreamData c _ _) U \<longleftrightarrow> c \<notin> U"
| "may_come (TeStreamRemoteWriteClosed c _) U \<longleftrightarrow> c \<notin> U"
| "may_come _ U \<longleftrightarrow> True"

fun after_event :: "'mh transport_event \<Rightarrow> connection_id set \<Rightarrow> connection_id set" where
  "after_event (TeConnected c _) U = U - {c}"
| "after_event (TeClosed c) U = insert c U"
| "after_event _ U = U"

text \<open>A sequence of events; a handshake may end without an event (the connection is refused).\<close>

inductive trace :: "connection_id set \<Rightarrow> 'mh transport_event list \<Rightarrow> connection_id set \<Rightarrow> bool" where
  nil: "U' \<subseteq> U \<Longrightarrow> trace U [] U'"
| event: "may_come e U \<Longrightarrow> trace (after_event e U) es U' \<Longrightarrow> trace U (e # es) U'"
| shrink: "V \<subseteq> U \<Longrightarrow> trace V es U' \<Longrightarrow> trace U es U'"

lemma trace_refl [simp, intro]: "trace U [] U"
  by (simp add: trace.nil)

lemma trace_append: "trace U xs V \<Longrightarrow> trace V ys W \<Longrightarrow> trace U (xs @ ys) W"
  by (induction rule: trace.induct) (auto intro: trace.intros)

lemma trace_shrink_end: "trace U xs V \<Longrightarrow> W \<subseteq> V \<Longrightarrow> trace U xs W"
  by (induction rule: trace.induct) (auto intro: trace.intros)

text \<open>Events that come in every state and change nothing; events of one connection.\<close>

fun quiet :: "'mh transport_event \<Rightarrow> bool" where
  "quiet (TeConnected _ _) = False"
| "quiet (TePeerIdentityVerified _ _ _) = False"
| "quiet (TeStreamData _ _ _) = False"
| "quiet (TeStreamRemoteWriteClosed _ _) = False"
| "quiet (TeClosed _) = False"
| "quiet _ = True"

lemma quietD: "quiet e \<Longrightarrow> may_come e U \<and> after_event e U = U"
  by (cases e) simp_all

lemma trace_quiet: "list_all quiet es \<Longrightarrow> trace U es U"
  by (induction es) (auto intro!: trace.event dest: quietD [of _ U])

lemma trace_closed: "trace U (map TeClosed cs) (U \<union> set cs)"
proof (induction cs arbitrary: U)
  case (Cons c cs)
  then show ?case
    using Cons.IH [of "insert c U"] by (simp add: trace.event)
qed simp

text \<open>The peers that an event names, for a property of peers: that they have proved their identity.\<close>

fun names :: "('mh peer_id \<Rightarrow> bool) \<Rightarrow> 'mh transport_event \<Rightarrow> bool" where
  "names good (TeConnected _ ep) = pred_option good (ep_peer_id ep)"
| "names good (TePeerIdentityVerified _ ep _) = pred_option good (ep_peer_id ep)"
| "names good _ = True"

section \<open>The core under a trace\<close>

lemma disjoint_mono: "A \<inter> B = {} \<Longrightarrow> C \<subseteq> B \<Longrightarrow> A \<inter> C = {}"
  by blast

definition bound :: "'mh swarm_core \<Rightarrow> connection_id set" where
  "bound s = dom (bm_get (conn_to_peer s))"

lemma bound_table: "bound s = dom (ct_peer (table_of s))"
  by (simp add: bound_def table_of_def)

lemma bound_eqI: "table_of t = table_of s \<Longrightarrow> bound t = bound s"
  by (simp add: bound_table)

lemma bound_frame [simp]: "bound (set_local_addresses as s) = bound s" "bound (on_dialed c s) = bound s"
  by (simp_all add: bound_def set_local_addresses_def on_dialed_def)

lemma apart_table: "bound s \<inter> U = {} \<longleftrightarrow> (\<forall>x \<in> U. ct_peer (table_of s) x = None)"
  by (auto simp: bound_table disjoint_iff)

lemma unbound_table:
  "x \<noteq> c \<Longrightarrow> ct_peer t x = None \<Longrightarrow> ct_peer (table_connect c p t) x = None"
  "x \<noteq> c \<Longrightarrow> ct_peer t x = None \<Longrightarrow> ct_peer (table_verify c p t) x = None"
  "x \<noteq> c \<Longrightarrow> ct_peer t x = None \<Longrightarrow> ct_peer (table_placeholder c p t) x = None"
  by (auto simp: table_connect_def table_verify_def table_placeholder_def Let_def split: option.split)

lemma unbound_table_close [simp]: "ct_peer (table_close c t) x = None \<longleftrightarrow> x = c \<or> ct_peer t x = None"
  by (auto simp: table_close_def split: option.split)

text \<open>A step of the core keeps the bound and the fresh connections apart.\<close>

lemma bound_event:
  assumes "swarm_ok s" and "swarm_handle_input M H (SiTransport e now_ms) s = Some t"
    and "may_come e U" and "bound s \<inter> U = {}"
  shows "bound t \<inter> after_event e U = {}"
  unfolding apart_table
proof
  fix x assume "x \<in> after_event e U"
  then show "ct_peer (table_of t) x = None"
    using swarm_refines_table [OF assms(1,2)] assms(3,4) [unfolded apart_table]
    by (cases e) (auto split: option.splits if_splits intro!: unbound_table)
qed

lemma table_feedback:
  assumes "swarm_ok s" and "swarm_handle_input M H i s = Some t" and "\<And>e now_ms. i \<noteq> SiTransport e now_ms"
  shows "table_of t = table_of s"
  using swarm_refines_table [OF assms(1,2)] assms(3) by (cases i) auto

lemma may_come_input_ok: "may_come e U \<Longrightarrow> bound s \<inter> U = {} \<Longrightarrow> input_ok (SiTransport e now_ms) s"
  by (cases e) (auto simp: bound_def split: option.splits)

text \<open>
  The peers of the core: those reported to the application have the property, and the peer of a connection
  has it too unless it is the placeholder of the connection.
\<close>

definition peers_known :: "'mh multihash_api \<Rightarrow> (bytes \<Rightarrow> bytes) \<Rightarrow> ('mh peer_id \<Rightarrow> bool) \<Rightarrow> 'mh swarm_core \<Rightarrow> bool" where
  "peers_known M H good s \<longleftrightarrow>
     (\<forall>p \<in> set (established_peers s). good p) \<and>
     (\<forall>c p. bm_get (conn_to_peer s) c = Some p \<longrightarrow> good p \<or> p = placeholder M H c)"

lemma peers_known_table:
  "peers_known M H good s \<longleftrightarrow>
     (\<forall>p \<in> ct_known (table_of s). good p) \<and> (\<forall>c p. ct_peer (table_of s) c = Some p \<longrightarrow> good p \<or> p = placeholder M H c)"
  by (simp add: peers_known_def table_of_def)

lemma peers_known_eqI: "table_of t = table_of s \<Longrightarrow> peers_known M H good t = peers_known M H good s"
  by (simp add: peers_known_table)

lemma peers_known_frame [simp]:
  "peers_known M H good (set_local_addresses as s) = peers_known M H good s"
  "peers_known M H good (on_dialed c s) = peers_known M H good s"
  by (simp_all add: peers_known_def set_local_addresses_def on_dialed_def)

lemma peers_known_event:
  assumes "swarm_ok s" and "swarm_handle_input M H (SiTransport e now_ms) s = Some t" and "names good e"
    and "peers_known M H good s"
  shows "peers_known M H good t"
  using swarm_refines_table [OF assms(1,2)] assms(3,4) unfolding peers_known_table
  by (cases e)
    (force simp: table_connect_def table_verify_def table_close_def table_placeholder_def Let_def
      split: option.splits if_splits)+

text \<open>A trace of the fresh connections is within what the core accepts.\<close>

lemma trace_accepted:
  assumes "trace U es U'" and "crypto_laws M H" and "swarm_reachable M H ic pc s" and "bound s \<inter> U = {}"
  shows "events_ok M H now_ms es s \<and>
    (\<forall>t. core_inputs M H (map (\<lambda>e. SiTransport e now_ms) es) s = Some t \<longrightarrow>
       bound t \<inter> U' = {} \<and> swarm_reachable M H ic pc t \<and>
       (list_all (names good) es \<and> peers_known M H good s \<longrightarrow> peers_known M H good t))"
  using assms(1,3,4)
proof (induction arbitrary: s rule: trace.induct)
  case (event e U es U')
  have ok: "input_ok (SiTransport e now_ms) s"
    by (rule may_come_input_ok [OF event.hyps(1) event.prems(2)])
  have "swarm_ok s" by (rule swarm_reachable_ok [OF assms(2) event.prems(1)])
  then obtain t where t: "swarm_handle_input M H (SiTransport e now_ms) s = Some t" "bound t \<inter> after_event e U = {}"
    using swarm_handle_input_ok [OF assms(2) _ ok] bound_event [of s M H e now_ms _ U] event by metis
  have "swarm_reachable M H ic pc t"
    by (rule swarm_reachable.input [OF event.prems(1) ok t(1)])
  moreover have "peers_known M H good t" if "names good e" "peers_known M H good s"
    by (rule peers_known_event [OF \<open>swarm_ok s\<close> t(1) that])
  ultimately show ?case
    using event.IH [OF _ t(2)] ok t(1) by (simp del: swarm_handle_input.simps input_ok.simps)
next
  case (shrink V U es U')
  then show ?case by blast
qed auto

section \<open>The contract\<close>

text \<open>A call that makes no connection fresh, and the joint state of a driver and such a transport.\<close>

definition calm :: "('t \<Rightarrow> bool) \<Rightarrow> ('t \<Rightarrow> connection_id set) \<Rightarrow> ('t \<Rightarrow> 't \<times> 'r) \<Rightarrow> bool" where
  "calm ok fresh f \<longleftrightarrow> (\<forall>t. ok t \<longrightarrow> ok (fst (f t)) \<and> fresh (fst (f t)) \<subseteq> fresh t)"

definition joined ::
  "'mh::linorder multihash_api \<Rightarrow> (bytes \<Rightarrow> bytes) \<Rightarrow> identify_config \<Rightarrow> ping_config \<Rightarrow> ('t \<Rightarrow> bool) \<Rightarrow>
     ('t \<Rightarrow> connection_id set) \<Rightarrow> ('mh peer_id \<Rightarrow> bool) \<Rightarrow> ('t, 'mh) swarm_driver \<Rightarrow> bool" where
  "joined M H ic pc ok fresh good d \<longleftrightarrow>
     core_ready M H ic pc d \<and> ok (dv_transport d) \<and> bound (dv_core d) \<inter> fresh (dv_transport d) = {} \<and>
     peers_known M H good (dv_core d)"

lemma joined_frame [simp]:
  "joined M H ic pc ok fresh good (d\<lparr>dv_event_buffer := es\<rparr>) = joined M H ic pc ok fresh good d"
  "joined M H ic pc ok fresh good (d\<lparr>dv_readings := n\<rparr>) = joined M H ic pc ok fresh good d"
  by (simp_all add: joined_def)

lemma joined_swarm_ok: "joined M H ic pc ok fresh good d \<Longrightarrow> swarm_ok (dv_core d)"
  unfolding joined_def core_ready_def using swarm_reachable_ok by blast

lemma joined_call:
  assumes "joined M H ic pc ok fresh good d" and "calm ok fresh f"
  shows "joined M H ic pc ok fresh good (d\<lparr>dv_transport := fst (f (dv_transport d))\<rparr>)"
  using assms unfolding joined_def calm_def core_ready_def by auto

lemma joined_core:
  assumes "joined M H ic pc ok fresh good d" and "swarm_reachable M H ic pc s" and "table_of s = table_of (dv_core d)"
  shows "joined M H ic pc ok fresh good (d\<lparr>dv_core := s\<rparr>)"
  using assms bound_eqI [OF assms(3)] peers_known_eqI [OF assms(3)] unfolding joined_def core_ready_def by simp

text \<open>Inputs other than events of the transport, outputs and requests keep the joint state.\<close>

lemma joined_input:
  assumes "joined M H ic pc ok fresh good d" and "to_core M H i d = Some d'" and "\<And>e now_ms. i \<noteq> SiTransport e now_ms"
  shows "joined M H ic pc ok fresh good d'"
proof -
  obtain s where s: "swarm_handle_input M H i (dv_core d) = Some s" "d' = d\<lparr>dv_core := s\<rparr>"
    using assms(2) by (auto simp: to_core_def)
  have "input_ok i (dv_core d)" using assms(3) by (cases i) auto
  then have "swarm_reachable M H ic pc s"
    using assms(1) s(1) swarm_reachable.input unfolding joined_def core_ready_def by blast
  then show ?thesis
    using joined_core [OF assms(1)] table_feedback [OF joined_swarm_ok [OF assms(1)] s(1)] assms(3) s(2) by blast
qed

lemma joined_poll_output:
  assumes "joined M H ic pc ok fresh good d" and "swarm_poll_output (dv_core d) = (out, s)"
  shows "joined M H ic pc ok fresh good (d\<lparr>dv_core := s\<rparr>)"
proof (rule joined_core [OF assms(1)])
  have s: "s = snd (swarm_poll_output (dv_core d))" using assms(2) by simp
  show "swarm_reachable M H ic pc s"
    using assms(1) unfolding s joined_def core_ready_def by (blast intro: swarm_reachable.poll)
  show "table_of s = table_of (dv_core d)"
    unfolding s by (simp add: swarm_poll_output_def table_of_def split: list.split)
qed

lemma joined_request:
  assumes "joined M H ic pc ok fresh good d" and "request_ok req" and "serve_request M req (dv_core d) = Some (s, res)"
  shows "joined M H ic pc ok fresh good (d\<lparr>dv_core := s\<rparr>)"
proof (rule joined_core [OF assms(1)])
  show "swarm_reachable M H ic pc s"
    using assms swarm_reachable.request unfolding joined_def core_ready_def by blast
  show "table_of s = table_of (dv_core d)"
    by (rule table_of_request [OF assms(3)])
qed

definition safe_driver ::
  "'mh::linorder multihash_api \<Rightarrow> (bytes \<Rightarrow> bytes) \<Rightarrow> identify_config \<Rightarrow> ping_config \<Rightarrow> ('t \<Rightarrow> bool) \<Rightarrow>
     ('t \<Rightarrow> connection_id set) \<Rightarrow> ('mh peer_id \<Rightarrow> bool) \<Rightarrow> ('t, 'mh) swarm_driver \<Rightarrow> bool" where
  "safe_driver M H ic pc ok fresh good d \<longleftrightarrow> driver_ok M H ic pc d \<and> joined M H ic pc ok fresh good d"

lemma safe_driver_frame [simp]:
  "safe_driver M H ic pc ok fresh good (d\<lparr>dv_event_buffer := es\<rparr>) = safe_driver M H ic pc ok fresh good d"
  "safe_driver M H ic pc ok fresh good (d\<lparr>dv_readings := n\<rparr>) = safe_driver M H ic pc ok fresh good d"
  by (simp_all add: safe_driver_def)

lemma safe_driver_new:
  assumes "crypto_laws M H" and "ok t"
  shows "safe_driver M H ic pc ok fresh good (driver_new t ic pc p)"
proof -
  have "bound (swarm_new ic pc :: 'a swarm_core) = {}" "peers_known M H good (swarm_new ic pc)"
    by (auto simp: bound_def peers_known_def swarm_new_def)
  then show ?thesis
    using driver_ok_new [OF assms(1), of ic pc t p] assms(2)
    by (simp add: safe_driver_def joined_def driver_ok_def driver_new_def)
qed

lemma safe_driver_call:
  assumes "safe_driver M H ic pc ok fresh good d" and "calm ok fresh f"
  shows "safe_driver M H ic pc ok fresh good (d\<lparr>dv_transport := fst (f (dv_transport d))\<rparr>)"
  using assms joined_call [OF _ assms(2), of M H ic pc good d] unfolding safe_driver_def by simp

lemma safe_driver_dialed:
  "safe_driver M H ic pc ok fresh good d \<Longrightarrow> safe_driver M H ic pc ok fresh good (d\<lparr>dv_core := on_dialed c (dv_core d)\<rparr>)"
  by (simp add: on_dialed_def)

lemma feed_events_inputs:
  "feed_events M H now_ms events d = Some d' \<Longrightarrow>
     core_inputs M H (map (\<lambda>e. SiTransport e now_ms) events) (dv_core d) = Some (dv_core d')"
proof (induction events arbitrary: d)
  case (Cons e events)
  then obtain s where "swarm_handle_input M H (SiTransport e now_ms) (dv_core d) = Some s"
    "feed_events M H now_ms events (d\<lparr>dv_core := s\<rparr>) = Some d'"
    by (auto simp: bind_eq_Some_conv to_core_def simp del: swarm_handle_input.simps)
  then show ?case
    using Cons.IH [of "d\<lparr>dv_core := s\<rparr>"] by (simp del: swarm_handle_input.simps)
qed simp

locale calm_transport =
  fixes T :: "('t, 'mh::linorder) transport" and ok :: "'t \<Rightarrow> bool" and fresh :: "'t \<Rightarrow> connection_id set"
    and good :: "'mh peer_id \<Rightarrow> bool"
  assumes dial: "calm ok fresh (tr_dial T addr)"
    and listen: "calm ok fresh (tr_listen T a)"
    and open_stream: "calm ok fresh (tr_open_stream T c)"
    and send_stream: "calm ok fresh (tr_send_stream T c sid data)"
    and close_stream_write: "calm ok fresh (tr_close_stream_write T c sid)"
    and reset_stream: "calm ok fresh (tr_reset_stream T c sid)"
    and close: "calm ok fresh (tr_close T c)"
    and poll: "ok t \<Longrightarrow> ok (fst (tr_poll T t)) \<and>
      (case snd (tr_poll T t) of
         Inl _ \<Rightarrow> fresh (fst (tr_poll T t)) \<subseteq> fresh t
       | Inr events \<Rightarrow> trace (fresh t) events (fresh (fst (tr_poll T t))) \<and> list_all (names good) events)"
begin

lemma report_failure_joined:
  assumes "joined M H ic pc ok fresh good d" and "calm ok fresh f"
    and "report_failure M H c what (f (dv_transport d)) d = Some d'"
  shows "joined M H ic pc ok fresh good d'"
  using joined_call [OF assms(1,2)] assms(3)
  by (auto simp: report_failure_def Let_def intro: joined_input split: sum.splits)

lemma dispatch_joined:
  assumes "joined M H ic pc ok fresh good d" and "dispatch_action M H T clk a captured d = Some (d', cap)"
  shows "joined M H ic pc ok fresh good d'"
proof (cases a)
  case (SaOpenStream c token)
  obtain t r where t: "tr_open_stream T c (dv_transport d) = (t, r)" by force
  have j: "joined M H ic pc ok fresh good (d\<lparr>dv_transport := t, dv_readings := n\<rparr>)" for n
    using joined_call [OF assms(1) open_stream, of c] t by simp
  show ?thesis
    using assms(2) SaOpenStream t joined_input [OF j]
    by (cases r) (auto simp: driver_now_def Let_def)
qed (use assms(2) in \<open>auto intro: report_failure_joined [OF assms(1) send_stream]
      report_failure_joined [OF assms(1) close_stream_write] report_failure_joined [OF assms(1) reset_stream]
      report_failure_joined [OF assms(1) close]\<close>)

lemma loop_joined:
  assumes "joined M H ic pc ok fresh good d" and "driver_loop M H T clk captured events d = Some (d', r)"
  shows "joined M H ic pc ok fresh good d'"
  using assms
proof (induction "core_weight (dv_core d)" arbitrary: captured events d rule: less_induct)
  case less
  obtain out s where out: "swarm_poll_output (dv_core d) = (out, s)" by force
  note polled = joined_poll_output [OF less.prems(1) out]
  note run = less.prems(2) [unfolded driver_loop.simps [of M H T clk captured events d] out prod.case]
  show ?case
  proof (cases out)
    case None
    then show ?thesis using run polled by auto
  next
    case (Some x)
    show ?thesis
    proof (cases x)
      case (SwarmEvent e)
      then show ?thesis
        using run Some less.hyps [OF _ polled] swarm_poll_output_weight(2) [of "dv_core d" e s] out by simp
    next
      case (SwarmAction a)
      then obtain d1 cap1 where d1: "dispatch_action M H T clk a captured (d\<lparr>dv_core := s\<rparr>) = Some (d1, cap1)"
        "driver_loop M H T clk cap1 events d1 = Some (d', r)"
        using run Some by (auto simp: bind_eq_Some_conv)
      have "core_weight (dv_core d1) < core_weight (dv_core d)"
        using dispatch_action_weight [OF d1(1)] swarm_poll_output_weight(1) [of "dv_core d" a s] out Some SwarmAction by simp
      then show ?thesis
        using less.hyps [OF _ dispatch_joined [OF polled d1(1)] d1(2)] by blast
    qed
  qed
qed

lemma flush_joined:
  assumes "joined M H ic pc ok fresh good d" and "flush_actions M H T clk d = Some d'"
  shows "joined M H ic pc ok fresh good d'"
  using assms(2) loop_joined [OF assms(1)] by (auto simp: flush_actions_def bind_eq_Some_conv)

text \<open>Operations of the driver keep the joint state; polling stays within the contract of the core.\<close>

lemma request_safe:
  assumes "safe_driver M H ic pc ok fresh good d" and "request_ok req"
  shows "\<exists>d' res. driver_request M H T clk req d = Some (d', res) \<and> safe_driver M H ic pc ok fresh good d'"
proof -
  obtain d' res where run: "driver_request M H T clk req d = Some (d', res)" "driver_ok M H ic pc d'"
    using driver_request_returns [of M H ic pc d req T clk] assms unfolding safe_driver_def by blast
  obtain s res' where s: "serve_request M req (dv_core d) = Some (s, res')"
    using run(1) by (auto simp: driver_request_def bind_eq_Some_conv)
  have "joined M H ic pc ok fresh good (d\<lparr>dv_core := s\<rparr>)"
    using joined_request [OF _ assms(2) s] assms(1) unfolding safe_driver_def by blast
  then have "joined M H ic pc ok fresh good d'"
    using run(1) s by (cases res') (auto simp: driver_request_def intro: flush_joined)
  then show ?thesis using run unfolding safe_driver_def by blast
qed

lemma open_user_stream_safe:
  assumes "safe_driver M H ic pc ok fresh good d"
  shows "\<exists>d' res. driver_open_user_stream M H T clk p pid d = Some (d', res) \<and> safe_driver M H ic pc ok fresh good d'"
proof -
  obtain d' res where run: "driver_open_user_stream M H T clk p pid d = Some (d', res)" "driver_ok M H ic pc d'"
    using driver_open_user_stream_returns [of M H ic pc d T clk p pid] assms unfolding safe_driver_def by blast
  obtain s res' where s: "open_user_stream p pid (dv_core d) = Some (s, res')"
    using run(1) by (auto simp: driver_open_user_stream_def bind_eq_Some_conv)
  have j: "joined M H ic pc ok fresh good (d\<lparr>dv_core := s\<rparr>)"
    using joined_request [of M H ic pc ok fresh good d "RqOpenUserStream p pid" s res'] s assms unfolding safe_driver_def by simp
  show ?thesis
  proof (cases res')
    case (Inl e)
    then show ?thesis using run s j unfolding safe_driver_def by (auto simp: driver_open_user_stream_def)
  next
    case (Inr u)
    then obtain d1 cap evs where "driver_loop M H T clk None [] (d\<lparr>dv_core := s\<rparr>) = Some (d1, cap, evs)"
      "flush_actions M H T clk (d1\<lparr>dv_event_buffer := dv_event_buffer d1 @ evs\<rparr>) = Some d'"
      using run(1) s by (auto simp: driver_open_user_stream_def bind_eq_Some_conv)
    then have "joined M H ic pc ok fresh good d'"
      using loop_joined [OF j] flush_joined [of M H ic pc "d1\<lparr>dv_event_buffer := dv_event_buffer d1 @ evs\<rparr>"] by simp
    then show ?thesis using run unfolding safe_driver_def by blast
  qed
qed

lemma poll_accepted:
  assumes "safe_driver M H ic pc ok fresh good d"
  shows "poll_ok M H T clk d"
proof (cases "snd (tr_poll T (dv_transport d))")
  case (Inr events)
  let ?s = "set_local_addresses (tr_local_addresses T (dv_transport d)) (dv_core d)"
  have state: "crypto_laws M H" "swarm_reachable M H ic pc (dv_core d)" "ok (dv_transport d)"
    "bound (dv_core d) \<inter> fresh (dv_transport d) = {}"
    using assms unfolding safe_driver_def joined_def core_ready_def by blast+
  have "swarm_reachable M H ic pc ?s"
    using swarm_reachable.request [OF state(2), of "RqSetLocalAddresses (tr_local_addresses T (dv_transport d))"] by simp
  then show ?thesis
    using trace_accepted [OF _ state(1)] poll [OF state(3)] state(4) Inr by (auto simp: poll_ok_def)
qed (simp add: poll_ok_def)

lemma poll_safe:
  assumes "safe_driver M H ic pc ok fresh good d"
  shows "\<exists>d' res. driver_poll M H T clk d = Some (d', res) \<and> safe_driver M H ic pc ok fresh good d'"
proof -
  obtain d' res where run: "driver_poll M H T clk d = Some (d', res)" "driver_ok M H ic pc d'"
    using driver_poll_returns [OF _ poll_accepted [OF assms], of ic pc clk] assms unfolding safe_driver_def by blast
  obtain t r where t: "tr_poll T (dv_transport d) = (t, r)" by force
  let ?s = "set_local_addresses (tr_local_addresses T (dv_transport d)) (dv_core d)" and ?now = "clk (dv_readings d)"
  let ?e = "d\<lparr>dv_readings := dv_readings d + 1, dv_core := ?s, dv_transport := t\<rparr>"
  have state: "crypto_laws M H" "swarm_reachable M H ic pc (dv_core d)" "ok (dv_transport d)"
    "bound (dv_core d) \<inter> fresh (dv_transport d) = {}" "peers_known M H good (dv_core d)"
    using assms unfolding safe_driver_def joined_def core_ready_def by blast+
  have reach: "swarm_reachable M H ic pc ?s"
    using swarm_reachable.request [OF state(2), of "RqSetLocalAddresses (tr_local_addresses T (dv_transport d))"] by simp
  note polled = poll [OF state(3), unfolded t fst_conv snd_conv]
  have "joined M H ic pc ok fresh good d'"
  proof (cases r)
    case (Inl e)
    then have "bound (dv_core d) \<inter> fresh t = {}"
      using polled disjoint_mono [OF state(4)] by simp
    then show ?thesis
      using Inl run(1) t polled state reach by (simp add: driver_poll_def driver_now_def joined_def core_ready_def)
        (auto simp: joined_def core_ready_def)
  next
    case (Inr events)
    have tr: "trace (fresh (dv_transport d)) events (fresh t)" using polled Inr by simp
    have apart: "bound ?s \<inter> fresh (dv_transport d) = {}" using state(4) by simp
    note accepted = trace_accepted [OF tr state(1) reach apart, of ?now]
    have ready: "core_ready M H ic pc ?e" using state(1) reach by (simp add: core_ready_def)
    obtain s1 s where s: "feed_events M H ?now events ?e = Some (?e\<lparr>dv_core := s1\<rparr>)"
      "to_core M H (SiTick ?now) (?e\<lparr>dv_core := s1\<rparr>) = Some (?e\<lparr>dv_core := s\<rparr>)"
      using feed_and_tick [OF ready, of ?now events] accepted by (auto simp del: swarm_handle_input.simps)
    have "core_inputs M H (map (\<lambda>e. SiTransport e ?now) events) ?s = Some s1"
      using feed_events_inputs [OF s(1)] by simp
    then have "joined M H ic pc ok fresh good (?e\<lparr>dv_core := s1\<rparr>)"
      using accepted state(1,5) polled Inr by (simp add: joined_def core_ready_def)
    from joined_input [OF this s(2)] have j: "joined M H ic pc ok fresh good (?e\<lparr>dv_core := s\<rparr>)" by simp
    obtain d3 x where "flush_actions M H T clk (?e\<lparr>dv_core := s\<rparr>) = Some d3"
      "driver_loop M H T clk None (dv_event_buffer d3) (d3\<lparr>dv_event_buffer := []\<rparr>) = Some (d', x)"
      using run(1) t Inr s by (auto simp: driver_poll_def driver_now_def bind_eq_Some_conv)
    then show ?thesis
      using flush_joined [OF j, of clk d3] loop_joined [of M H ic pc "d3\<lparr>dv_event_buffer := []\<rparr>"] by simp
  qed
  then show ?thesis using run unfolding safe_driver_def by blast
qed

lemma dial_safe:
  assumes "safe_driver M H ic pc ok fresh good d" and "driver_dial T addr d = (d', res)"
  shows "safe_driver M H ic pc ok fresh good d'"
  using safe_driver_call [OF assms(1) dial, of addr] assms(2)
    safe_driver_dialed [of M H ic pc ok fresh good "d\<lparr>dv_transport := fst (tr_dial T addr (dv_transport d))\<rparr>"]
  by (auto simp: driver_dial_def split: prod.splits sum.splits)

lemma listen_safe:
  assumes "safe_driver M H ic pc ok fresh good d"
  shows "safe_driver M H ic pc ok fresh good (fst (driver_listen T a d))"
  using safe_driver_call [OF assms listen, of a] by (simp add: driver_listen_def split_def Let_def)

lemma listen_loop_safe:
  "safe_driver M H ic pc ok fresh good d \<Longrightarrow> safe_driver M H ic pc ok fresh good (fst (listen_addrs_loop T as resolved d))"
proof (induction as arbitrary: resolved d)
  case (Cons a as)
  obtain d1 r where d1: "driver_listen T a d = (d1, r)" by force
  then have "safe_driver M H ic pc ok fresh good d1" using listen_safe [OF Cons.prems, of a] by simp
  then show ?case
    using Cons.IH d1 by (auto split: sum.split)
qed simp

lemma listen_bound_safe:
  assumes "safe_driver M H ic pc ok fresh good d"
  shows "safe_driver M H ic pc ok fresh good (fst (listen_on_bound_addr T d))"
    and "safe_driver M H ic pc ok fresh good (fst (listen_on_bound_addrs T d))"
proof -
  show "safe_driver M H ic pc ok fresh good (fst (listen_on_bound_addrs T d))"
    using assms listen_loop_safe [OF assms] by (simp add: listen_on_bound_addrs_def Let_def)
  have "safe_driver M H ic pc ok fresh good d1" if "driver_listen T a d = (d1, r)" for a d1 r
    using listen_safe [OF assms, of a] that by simp
  then show "safe_driver M H ic pc ok fresh good (fst (listen_on_bound_addr T d))"
    using assms by (auto simp: listen_on_bound_addr_def split: list.split prod.split sum.split)
qed

lemma idle_rounds_safe:
  assumes "safe_driver M H ic pc ok fresh good d" and "idle_rounds M H T clk n d = Some d'"
  shows "safe_driver M H ic pc ok fresh good d'"
  using assms
proof (induction n arbitrary: d)
  case (Suc n)
  obtain d1 res where "driver_poll M H T clk d = Some (d1, res)" "safe_driver M H ic pc ok fresh good d1"
    using poll_safe [OF Suc.prems(1)] by blast
  then show ?case
    using Suc.IH [of "d1\<lparr>dv_readings := dv_readings d1 + 1\<rparr>"] Suc.prems(2) by (auto split: sum.splits list.splits)
qed simp

lemma poll_next_safe:
  assumes "safe_driver M H ic pc ok fresh good d" and "poll_next M H T clk late d = Some (d', res)"
  shows "safe_driver M H ic pc ok fresh good d'"
proof -
  let ?P = "\<lambda>M' H' T' clk' late' d x. M' = M \<longrightarrow> H' = H \<longrightarrow> T' = T \<longrightarrow> safe_driver M H ic pc ok fresh good d \<longrightarrow>
    safe_driver M H ic pc ok fresh good (fst x)"
  have "?P M H T clk late d (d', res)"
  proof (rule poll_next.raw_induct [of ?P, OF _ assms(2)])
    fix pn M' H' T' clk' late' d x
    assume ih: "\<And>M' H' T' clk' late' d x. pn M' H' T' clk' late' d = Some x \<Longrightarrow> ?P M' H' T' clk' late' d x"
      and step: "(case dv_event_buffer d of
          [] \<Rightarrow>
            Option.bind (driver_poll M' H' T' clk' d) (\<lambda>(d, res).
              case res of
                Inl e \<Rightarrow> Some (d, Err e)
              | Inr events \<Rightarrow>
                  (case dv_event_buffer d @ events of
                     [] \<Rightarrow>
                       let expired = late' (dv_readings d);
                           d = d\<lparr>dv_readings := dv_readings d + 1\<rparr>
                       in if expired then Some (d, Ok None) else pn M' H' T' clk' late' d
                   | ev # evs \<Rightarrow> Some (d\<lparr>dv_event_buffer := evs\<rparr>, Ok (Some ev))))
        | ev # evs \<Rightarrow> Some (d\<lparr>dv_event_buffer := evs\<rparr>, Ok (Some ev))) = Some x"
    show "?P M' H' T' clk' late' d x"
    proof (intro impI)
      assume eqs: "M' = M" "H' = H" "T' = T" and safe: "safe_driver M H ic pc ok fresh good d"
      obtain d1 res where "driver_poll M H T clk' d = Some (d1, res)" "safe_driver M H ic pc ok fresh good d1"
        using poll_safe [OF safe] by blast
      then show "safe_driver M H ic pc ok fresh good (fst x)"
        using step safe ih [of M H T clk' late' "d1\<lparr>dv_readings := dv_readings d1 + 1\<rparr>" x]
        by (auto simp: eqs Let_def split: list.splits sum.splits if_splits)
    qed
  qed
  then show ?thesis using assms(1) by simp
qed

lemma run_until_safe:
  assumes "safe_driver M H ic pc ok fresh good d" and "run_until M H T clk late wanted st d = Some (d', st', res)"
  shows "safe_driver M H ic pc ok fresh good d'"
proof -
  let ?P = "\<lambda>M' H' T' clk' late' wanted' st d x. M' = M \<longrightarrow> H' = H \<longrightarrow> T' = T \<longrightarrow> safe_driver M H ic pc ok fresh good d \<longrightarrow>
    safe_driver M H ic pc ok fresh good (fst x)"
  have "?P M H T clk late wanted st d (d', st', res)"
  proof (rule run_until.raw_induct [of ?P, OF _ assms(2)])
    fix ru M' H' T' clk' late' wanted' st d x
    assume ih: "\<And>M' H' T' clk' late' wanted' st d x. ru M' H' T' clk' late' wanted' st d = Some x \<Longrightarrow> ?P M' H' T' clk' late' wanted' st d x"
      and step: "Option.bind (poll_next M' H' T' clk' late' d) (\<lambda>(d, res).
          case res of
            Inl e \<Rightarrow> Some (d, st, Err e)
          | Inr None \<Rightarrow> Some (d, st, Ok None)
          | Inr (Some ev) \<Rightarrow>
              (case wanted' ev st of
                 (stop, st) \<Rightarrow> if stop then Some (d, st, Ok (Some ev)) else ru M' H' T' clk' late' wanted' st d)) = Some x"
    show "?P M' H' T' clk' late' wanted' st d x"
    proof (intro impI)
      assume eqs: "M' = M" "H' = H" "T' = T" and safe: "safe_driver M H ic pc ok fresh good d"
      obtain d1 res1 where p: "poll_next M H T clk' late' d = Some (d1, res1)"
        using step by (auto simp: eqs bind_eq_Some_conv)
      have "safe_driver M H ic pc ok fresh good d1" by (rule poll_next_safe [OF safe p])
      then show "safe_driver M H ic pc ok fresh good (fst x)"
        using step p ih [of M H T clk' late' wanted' _ d1 x]
        by (auto simp: eqs split: sum.splits option.splits prod.splits if_splits)
    qed
  qed
  then show ?thesis using assms(1) by simp
qed

lemma poll_next_waits:
  assumes "safe_driver M H ic pc ok fresh good d" and "\<exists>N. \<forall>m \<ge> N. late m"
  shows "\<exists>d' res. poll_next M H T clk late d = Some (d', res) \<and> safe_driver M H ic pc ok fresh good d'"
proof -
  obtain d' res where "poll_next M H T clk late d = Some (d', res)"
    using poll_next_returns_aux [of M H ic pc d T clk _ late] idle_rounds_safe [OF assms(1)] poll_accepted assms
    unfolding safe_driver_def by blast
  then show ?thesis using poll_next_safe [OF assms(1)] by blast
qed

end

end
