(* ===== verification/QuicCalm.thy ===== *)
theory QuicCalm
  imports QuicEndpointProps TransportContract
begin

text \<open>
  The QUIC transport keeps the contract of the driver: a connection is announced while its handshake is the
  last thing that happened to it, and its data and its identity are reported only afterwards.
\<close>

section \<open>Handshakes\<close>

text \<open>
  What the transport relies on: a handshake completes only in a packet that \<open>quiche\<close> takes without an error;
  a new connection is not established, and no other call establishes or breaks a connection.
\<close>

definition handshake_laws :: "('q, 's, 'mh) quic_env \<Rightarrow> bool" where
  "handshake_laws E \<longleftrightarrow>
     (\<forall>scid a b q. q_connect E scid a b = Ok q \<longrightarrow> \<not> q_is_established E q) \<and>
     (\<forall>scid a b q. q_accept E scid a b = Ok q \<longrightarrow> \<not> q_is_established E q) \<and>
     (\<forall>bs a b q q' e. q_recv E bs a b q = (q', Err (QError e)) \<longrightarrow> q_is_established E q' = q_is_established E q) \<and>
     (\<forall>n q. q_is_established E (fst (q_send E n q)) = q_is_established E q) \<and>
     (\<forall>b code reason q. q_is_established E (fst (q_close E b code reason q)) = q_is_established E q) \<and>
     (\<forall>raw bs fin q. q_is_established E (fst (q_stream_send E raw bs fin q)) = q_is_established E q) \<and>
     (\<forall>raw n q. q_is_established E (fst (q_stream_recv E raw n q)) = q_is_established E q) \<and>
     (\<forall>raw s code q. q_is_established E (fst (q_stream_shutdown E raw s code q)) = q_is_established E q)"

lemma handshake_lawsD:
  assumes "handshake_laws E"
  shows "q_send E n q = (q', r1) \<Longrightarrow> q_is_established E q' = q_is_established E q"
    and "q_close E b code reason q = (q', r2) \<Longrightarrow> q_is_established E q' = q_is_established E q"
    and "q_stream_send E raw bs fin q = (q', r3) \<Longrightarrow> q_is_established E q' = q_is_established E q"
    and "q_stream_recv E raw n q = (q', r4) \<Longrightarrow> q_is_established E q' = q_is_established E q"
    and "q_stream_shutdown E raw sh code q = (q', r5) \<Longrightarrow> q_is_established E q' = q_is_established E q"
    and "q_recv E bs a1 a2 q = (q', Err (QError e)) \<Longrightarrow> q_is_established E q' = q_is_established E q"
    and "q_connect E scid a1 a2 = Ok q \<Longrightarrow> \<not> q_is_established E q"
    and "q_accept E scid a1 a2 = Ok q \<Longrightarrow> \<not> q_is_established E q"
  using assms unfolding handshake_laws_def by (metis fst_conv)+

text \<open>A connection whose handshake runs is not established.\<close>

definition conn_calm :: "('q, 's, 'mh) quic_env \<Rightarrow> ('q, 'mh) quic_connection \<Rightarrow> bool" where
  "conn_calm E c \<longleftrightarrow> (qc_state c = CsConnecting \<longrightarrow> \<not> q_is_established E (qc_conn c))"

text \<open>Work on a connection that leaves its state and whether it is established.\<close>

definition handshake_kept :: "('q, 's, 'mh) quic_env \<Rightarrow> ('q, 's, 'mh) conn_io \<Rightarrow> ('q, 's, 'mh) conn_io \<Rightarrow> bool" where
  "handshake_kept E st st' \<longleftrightarrow>
     (case (st, st') of ((c, k, events), (c', k', events')) \<Rightarrow>
        qc_state c' = qc_state c \<and> qc_id c' = qc_id c \<and> qc_endpoint c' = qc_endpoint c \<and>
        q_is_established E (qc_conn c') = q_is_established E (qc_conn c) \<and>
        (\<exists>new. events' = events @ new \<and> list_all quiet new))"

lemma handshake_kept_refl [simp]: "handshake_kept E st st"
  by (simp add: handshake_kept_def split: prod.split)

lemma handshake_kept_trans [trans]: "handshake_kept E st st' \<Longrightarrow> handshake_kept E st' st'' \<Longrightarrow> handshake_kept E st st''"
  by (auto simp: handshake_kept_def split: prod.splits)

definition keeps_handshake :: "('q, 's, 'mh) quic_env \<Rightarrow> (('q, 's, 'mh) conn_io, 'a) io \<Rightarrow> bool" where
  "keeps_handshake E m \<longleftrightarrow> (\<forall>st st' r. m st = Some (st', r) \<longrightarrow> handshake_kept E st st')"

lemma keeps_handshakeD: "keeps_handshake E m \<Longrightarrow> m st = Some (st', r) \<Longrightarrow> handshake_kept E st st'"
  unfolding keeps_handshake_def by blast

lemma keeps_handshake_bind:
  assumes "keeps_handshake E m" and "\<And>a. keeps_handshake E (f a)"
  shows "keeps_handshake E (io_bind m f)"
  unfolding keeps_handshake_def
  using keeps_handshakeD [OF assms(1)] keeps_handshakeD [OF assms(2)] handshake_kept_trans by (fastforce simp: io_bind_Some)

lemma send_packets_handshake:
  assumes "handshake_laws E" and "send_packets E qe ue q k = Some (q', k', r)"
  shows "q_is_established E q' = q_is_established E q"
proof -
  have "case x of (q', _) \<Rightarrow> q_is_established E q' = q_is_established E q" if "send_packets E qe ue q k = Some x" for q k x
  proof (rule send_packets.raw_induct [of "\<lambda>E' qe ue q k x. E' = E \<longrightarrow> (case x of (q', _) \<Rightarrow> q_is_established E q' = q_is_established E q)",
        OF _ that, THEN mp, OF _ refl])
    fix sp E' qe ue q k x
    assume ih: "\<And>E' qe ue q k x. sp E' qe ue q k = Some x \<Longrightarrow> E' = E \<longrightarrow> (case x of (q', _) \<Rightarrow> q_is_established E q' = q_is_established E q)"
      and step: "(case q_send E' SEND_BUF_SIZE q of
        (q, Inl err) \<Rightarrow> (case err of QDone \<Rightarrow> Some (q, k, Ok ()) | QError e \<Rightarrow> Some (q, k, Err (qe e)))
      | (q, Inr packet) \<Rightarrow>
          (case udp_send_to E' (fst packet) (snd packet) k of
             (k, Inl e) \<Rightarrow> Some (q, k, Err (ue e))
           | (k, Inr _) \<Rightarrow> sp E' qe ue q k)) = Some x"
    show "E' = E \<longrightarrow> (case x of (q', _) \<Rightarrow> q_is_established E q' = q_is_established E q)"
    proof
      assume eq: "E' = E"
      obtain q1 r1 where q1: "q_send E SEND_BUF_SIZE q = (q1, r1)" by force
      show "case x of (q', _) \<Rightarrow> q_is_established E q' = q_is_established E q"
        using step ih [of E qe ue q1 _ x] handshake_lawsD(1) [OF assms(1) q1] q1
        by (auto simp: eq split: sum.splits quiche_error.splits prod.splits)
    qed
  qed
  from this [OF assms(2)] show ?thesis by simp
qed

lemma flush_handshake: "handshake_laws E \<Longrightarrow> keeps_handshake E (qc_flush E)"
  unfolding keeps_handshake_def qc_flush_def handshake_kept_def by (auto dest: send_packets_handshake)

lemma note_closed_quiet: "\<exists>new. snd (note_closed c sid x) = snd x @ new \<and> list_all quiet new"
  by (auto simp: note_closed_def split: prod.split)

lemma drain_stream_handshake:
  assumes "handshake_laws E" and "drain_stream E c raw q x = (q', x', r)"
  shows "q_is_established E q' = q_is_established E q \<and> (\<exists>new. snd x' = snd x @ new \<and> list_all quiet new)"
  using assms
proof (induction E c raw q x rule: drain_stream.induct)
  case (1 E c raw q x)
  show ?case
  proof (cases "pending_writes (fst x)")
    case Nil
    then show ?thesis
      using "1.prems"(2) by (subst (asm) drain_stream.simps) auto
  next
    case (Cons w ws)
    let ?payload = "drop (pw_offset w) (pw_bytes w)"
    obtain q1 r1 where q1: "q_stream_send E raw ?payload (pw_fin w \<and> ?payload = []) q = (q1, r1)" by force
    note est = handshake_lawsD(3) [OF "1.prems"(1) q1]
    note step = "1.prems"(2) [unfolded drain_stream.simps [of E c raw q x] Cons list.case Let_def q1 prod.case]
    show ?thesis
    proof (cases r1)
      case (Inl err)
      then show ?thesis using step est by (cases err) auto
    next
      case (Inr n)
      let ?x = "note_closed c (StreamId raw) ((fst x)\<lparr>pending_writes := write_done n w ws\<rparr>, snd x)"
      show ?thesis
      proof (cases "\<not> (pw_fin w \<and> pw_bytes w = []) \<and> n = 0")
        case True
        then show ?thesis using step Inr est by auto
      next
        case False
        then have "drain_stream E c raw q1 ?x = (q', x', r)" using step Inr by auto
        with "1.IH" [OF Cons refl refl q1 [symmetric] _ False] Inr "1.prems"(1)
        have ih: "q_is_established E q' = q_is_established E q1" "\<exists>new. snd x' = snd ?x @ new \<and> list_all quiet new" by auto
        obtain new where "snd ?x = snd x @ new" "list_all quiet new"
          using note_closed_quiet [of c "StreamId raw" "((fst x)\<lparr>pending_writes := write_done n w ws\<rparr>, snd x)"] by auto
        then show ?thesis using ih est by auto
      qed
    qed
  qed
qed

lemma drain_streams_handshake:
  assumes "handshake_laws E"
  shows "keeps_handshake E (drain_streams E raws)"
proof (induction raws)
  case Nil
  then show ?case by (simp add: keeps_handshake_def)
next
  case (Cons raw raws)
  show ?case
  proof (unfold keeps_handshake_def, intro allI impI)
    fix st st' r
    assume run: "drain_streams E (raw # raws) st = Some (st', r)"
    obtain c k events where st: "st = (c, k, events)" by (cases st)
    show "handshake_kept E st st'"
    proof (cases "bm_get (qc_streams c) raw")
      case None
      then show ?thesis using run st keeps_handshakeD [OF Cons.IH] by simp
    next
      case (Some stream)
      obtain q1 stream1 events1 r1 where d: "drain_stream E (qc_id c) raw (qc_conn c) (stream, events) = (q1, (stream1, events1), r1)"
        by (metis prod.exhaust)
      let ?st = "(c\<lparr>qc_conn := q1, qc_streams := bm_insert raw stream1 (qc_streams c)\<rparr>, k, events1)"
      have "handshake_kept E st ?st"
        using drain_stream_handshake [OF assms d] st by (simp add: handshake_kept_def)
      moreover have "handshake_kept E ?st st'"
        using run st Some d keeps_handshakeD [OF Cons.IH, of ?st] by (cases r1) auto
      ultimately show ?thesis by (rule handshake_kept_trans)
    qed
  qed
qed

lemma drain_and_flush_handshake: "handshake_laws E \<Longrightarrow> keeps_handshake E (drain_and_flush E)"
  unfolding drain_and_flush_def drain_send_queue_def
  using keeps_handshakeD [OF drain_streams_handshake]
  by (intro keeps_handshake_bind flush_handshake) (auto simp: keeps_handshake_def)

section \<open>Reading\<close>

lemma mark_remote_closed_conn [simp]: "qc_conn (mark_remote_closed raw c) = qc_conn c"
  by (simp add: mark_remote_closed_def put_stream_def split: option.split)

lemma note_stream_closed_conn [simp]: "qc_conn (fst (note_stream_closed_if_finished sid (c, events))) = qc_conn c"
  by (auto simp: note_stream_closed_if_finished_def put_stream_def split: option.split prod.split)

lemma read_stream_handshake:
  assumes "handshake_laws E" and "read_stream E sid c events = Some (c', events')"
  shows "q_is_established E (qc_conn c') = q_is_established E (qc_conn c)"
proof -
  have "q_is_established E (qc_conn (fst x)) = q_is_established E (qc_conn c)" if "read_stream E sid c events = Some x" for c events x
  proof (rule read_stream.raw_induct [of "\<lambda>E' sid c events x. E' = E \<longrightarrow>
        q_is_established E (qc_conn (fst x)) = q_is_established E (qc_conn c)", OF _ that, THEN mp, OF _ refl])
    fix rs E' sid and c :: "('a, 'c) quic_connection" and events x
    assume ih: "\<And>E' sid c events x. rs E' sid c events = Some x \<Longrightarrow> E' = E \<longrightarrow>
        q_is_established E (qc_conn (fst x)) = q_is_established E (qc_conn c)"
      and step: "(case q_stream_recv E' (stream_u64 sid) RECV_BUF_SIZE (qc_conn c) of
        (q, Inl err) \<Rightarrow>
          (case err of
             QDone \<Rightarrow> Some (c\<lparr>qc_conn := q\<rparr>, events)
           | QError e \<Rightarrow> Some (c\<lparr>qc_conn := q\<rparr>,
               events @ [TeError (qc_id c) (lit ''stream_recv error on '' @ show_stream_id sid @ lit '': '' @ e)]))
      | (q, Inr got) \<Rightarrow>
          let c = c\<lparr>qc_conn := q\<rparr>;
              events = (if fst got \<noteq> [] then events @ [TeStreamData (qc_id c) sid (fst got)] else events)
          in if snd got
             then Some (note_stream_closed_if_finished sid
                    (mark_remote_closed (stream_u64 sid) c, events @ [TeStreamRemoteWriteClosed (qc_id c) sid]))
             else rs E' sid c events) = Some x"
    show "E' = E \<longrightarrow> q_is_established E (qc_conn (fst x)) = q_is_established E (qc_conn c)"
    proof
      assume eq: "E' = E"
      obtain q1 r1 where q1: "q_stream_recv E (stream_u64 sid) RECV_BUF_SIZE (qc_conn c) = (q1, r1)" by force
      show "q_is_established E (qc_conn (fst x)) = q_is_established E (qc_conn c)"
        using step ih [of E sid "c\<lparr>qc_conn := q1\<rparr>" _ x] handshake_lawsD(4) [OF assms(1) q1] q1
        by (auto simp: eq Let_def split: sum.splits quiche_error.splits prod.splits if_splits)
    qed
  qed
  from this [OF assms(2)] show ?thesis by simp
qed

lemma discovered_conn [simp]: "qc_conn (fst (ensure_stream_discovered E sid (c, events))) = qc_conn c"
  by (simp add: ensure_stream_discovered_def put_stream_def Let_def)

lemma read_streams_handshake:
  assumes "handshake_laws E" and "read_streams E raws (c, events) = Some (c', events')"
  shows "q_is_established E (qc_conn c') = q_is_established E (qc_conn c)"
  using assms(2)
proof (induction raws arbitrary: c events)
  case (Cons raw raws)
  obtain c1 events1 where d: "ensure_stream_discovered E (StreamId raw) (c, events) = (c1, events1)" by force
  obtain c2 events2 where r: "read_stream E (StreamId raw) c1 events1 = Some (c2, events2)"
    "read_streams E raws (c2, events2) = Some (c', events')"
    using Cons.prems d by (auto simp: bind_eq_Some_conv)
  have "qc_conn c1 = qc_conn c" using discovered_conn [of E "StreamId raw" c events] d by simp
  then show ?case using Cons.IH [OF r(2)] read_stream_handshake [OF assms(1) r(1)] by simp
qed simp

lemma poll_streams_handshake:
  assumes "handshake_laws E" and "poll_streams E (c, k, events) = Some ((c', k', events'), r)"
  shows "q_is_established E (qc_conn c') = q_is_established E (qc_conn c) \<and>
    (\<not> q_is_established E (qc_conn c) \<longrightarrow> c' = c \<and> events' = events)"
proof (cases "q_is_established E (qc_conn c)")
  case True
  then obtain c1 events1 where r: "read_streams E (q_readable E (qc_conn c)) (c, events) = Some (c1, events1)"
    "io_bind (drain_and_flush E) (\<lambda>_. update_conn gc_closed_streams) (c1, k, events1) = Some ((c', k', events'), r)"
    using assms(2) by (auto simp: poll_streams_def bind_eq_Some_conv)
  have "keeps_handshake E (update_conn gc_closed_streams)"
    by (auto simp: keeps_handshake_def handshake_kept_def update_conn_def gc_closed_streams_def)
  with drain_and_flush_handshake [OF assms(1)]
  have "keeps_handshake E (io_bind (drain_and_flush E) (\<lambda>_. update_conn gc_closed_streams))" by (rule keeps_handshake_bind)
  from keeps_handshakeD [OF this r(2)] show ?thesis
    using read_streams_handshake [OF assms(1) r(1)] True by (simp add: handshake_kept_def)
qed (use assms(2) in \<open>auto simp: poll_streams_def\<close>)

section \<open>Operations on a connection\<close>

text \<open>What an operation of the host may do: it starts no handshake and emits quiet events.\<close>

definition op_calm :: "('q, 's, 'mh) quic_env \<Rightarrow> ('q, 's, 'mh) conn_io \<Rightarrow> ('q, 's, 'mh) conn_io \<Rightarrow> bool" where
  "op_calm E st st' \<longleftrightarrow>
     (case (st, st') of ((c, k, events), (c', k', events')) \<Rightarrow>
        (conn_calm E c \<longrightarrow> conn_calm E c') \<and> (qc_state c' = CsConnecting \<longrightarrow> qc_state c = CsConnecting) \<and>
        (\<exists>new. events' = events @ new \<and> list_all quiet new))"

lemma op_calm_kept: "handshake_kept E st st' \<Longrightarrow> op_calm E st st'"
  by (auto simp: op_calm_def handshake_kept_def conn_calm_def split: prod.splits)

lemma op_calm_put_stream: "op_calm E (put_stream raw st c, k, events) st' = op_calm E (c, k, events) st'"
  by (simp add: op_calm_def conn_calm_def put_stream_def split: prod.split)

lemma op_calm_refl [simp]: "op_calm E st st"
  by (simp add: op_calm_kept)

text \<open>A write that was queued goes on to the drain of the queue.\<close>

lemma queued_calm:
  assumes "handshake_laws E" and "drain_and_flush E (put_stream raw st c, k, events) = Some (st', r)"
  shows "op_calm E (c, k, events) st'"
  using op_calm_kept [OF keeps_handshakeD [OF drain_and_flush_handshake [OF assms(1)] assms(2)]]
  by (simp add: op_calm_put_stream)

lemma send_stream_calm:
  assumes "handshake_laws E" and "qc_send_stream E sid data st = Some (st', r)"
  shows "op_calm E st st'"
  using assms(2) by (cases st) (auto simp: qc_send_stream_def split: if_splits sum.splits intro: queued_calm [OF assms(1)])

lemma close_stream_write_calm:
  assumes "handshake_laws E" and "qc_close_stream_write E sid st = Some (st', r)"
  shows "op_calm E st st'"
  using assms(2)
  by (cases st) (auto simp: qc_close_stream_write_def Let_def split: if_splits sum.splits intro: queued_calm [OF assms(1)])

lemma reset_stream_calm:
  assumes "handshake_laws E" and "qc_reset_stream E sid st = Some (st', r)"
  shows "op_calm E st st'"
proof (cases st)
  case (fields c k events)
  obtain q1 r1 where q1: "q_stream_shutdown E (stream_u64 sid) ShutdownWrite 0 (qc_conn c) = (q1, r1)" by force
  obtain q2 r2 where q2: "q_stream_shutdown E (stream_u64 sid) ShutdownRead 0 q1 = (q2, r2)" by force
  note est = handshake_lawsD(5) [OF assms(1) q1] handshake_lawsD(5) [OF assms(1) q2]
  have calm: "op_calm E (c, k, events) (c', k', events @ new)"
    if "qc_state c' = qc_state c" "qc_conn c' \<in> {q1, q2}" "list_all quiet new" for c' k' new
    using that est by (auto simp: op_calm_def conn_calm_def)
  show ?thesis
  proof (cases "bm_get (qc_streams c) (stream_u64 sid)")
    case None
    then show ?thesis using assms(2) by (simp add: fields qc_reset_stream_def)
  next
    case (Some stream)
    obtain stream' events' where n: "note_closed (qc_id c) sid
        (stream\<lparr>local_write_closed := True, remote_write_closed := True\<rparr>, events) = (stream', events')" by force
    obtain new where "events' = events @ new" "list_all quiet new"
      using note_closed_quiet [of "qc_id c" sid "(stream\<lparr>local_write_closed := True, remote_write_closed := True\<rparr>, events)"] n by auto
    then show ?thesis
      using assms(2) Some q1 q2 n calm [of "c\<lparr>qc_conn := q1\<rparr>" "[]"] calm [of "c\<lparr>qc_conn := q2\<rparr>" "[]"]
        calm [of "put_stream (stream_u64 sid) stream' (c\<lparr>qc_conn := q2\<rparr>)" new]
      by (cases r1; cases r2) (auto simp: fields qc_reset_stream_def put_stream_def)
  qed
qed

lemma close_calm:
  assumes "handshake_laws E" and "qc_close E st = Some (st', r)"
  shows "op_calm E st st'"
proof (cases st)
  case (fields c k events)
  obtain q1 r1 where q1: "q_close E True 0 (lit ''bye'') (qc_conn c) = (q1, r1)" by force
  note est = handshake_lawsD(2) [OF assms(1) q1]
  note drained = keeps_handshakeD [OF drain_and_flush_handshake [OF assms(1)], of "(c\<lparr>qc_conn := q1, qc_state := CsClosing\<rparr>, k, [])"]
  consider e where "r1 = Err (QError e)" | "\<forall>e. r1 \<noteq> Err (QError e)" by blast
  then show ?thesis
  proof cases
    case 1
    then show ?thesis
      using assms(2) est q1 by (auto simp: fields qc_close_def op_calm_def conn_calm_def)
  next
    case 2
    then obtain c' k' events' where "st' = (c', k', events)"
      "drain_and_flush E (c\<lparr>qc_conn := q1, qc_state := CsClosing\<rparr>, k, []) = Some ((c', k', events'), r)"
      using assms(2) q1 by (auto simp: fields qc_close_def split: sum.splits quiche_error.splits)
    then show ?thesis
      using drained by (auto simp: fields op_calm_def conn_calm_def handshake_kept_def)
  qed
qed

section \<open>Packets\<close>

text \<open>A packet leaves the endpoint and emits quiet events, or ends a handshake and announces the connection.\<close>

definition packet_calm :: "('q, 'mh) quic_connection \<Rightarrow> ('q, 'mh) quic_connection \<Rightarrow> 'mh transport_event list \<Rightarrow> bool" where
  "packet_calm c c' new \<longleftrightarrow>
     list_all quiet new \<and> qc_endpoint c' = qc_endpoint c \<and> (qc_state c' = CsConnecting \<longrightarrow> qc_state c = CsConnecting) \<or>
     qc_state c = CsConnecting \<and> qc_state c' \<noteq> CsConnecting \<and>
     (\<exists>before. new = before @ [TeConnected (qc_id c) (qc_endpoint c')] \<and> list_all quiet before)"

lemma reject_calm:
  assumes "handshake_laws E" and "reject_connection E message code reason (c, k, events) = Some ((c', k', events'), r)"
  shows "qc_state c' = CsClosing \<and> qc_endpoint c' = qc_endpoint c \<and> (\<exists>new. events' = events @ new \<and> list_all quiet new)"
  using assms(2) keeps_handshakeD [OF flush_handshake [OF assms(1)]]
  by (fastforce simp: reject_connection_def handshake_kept_def)

lemma verify_remote_calm:
  assumes "handshake_laws E" and "verify_remote M E (c, k, events) = Some ((c', k', events'), r)" and "qc_state c = CsConnected"
  shows "qc_state c' \<noteq> CsConnecting \<and> (\<exists>new. events' = events @ new \<and>
    (list_all quiet new \<and> qc_endpoint c' = qc_endpoint c \<or> new = [TeConnected (qc_id c) (qc_endpoint c')]))"
proof -
  have rej: ?thesis if "reject_connection E message code reason (c, k, events) = Some ((c', k', events'), r)" for message code reason
    using reject_calm [OF assms(1) that] by auto
  show ?thesis
  proof (cases "q_peer_cert E (qc_conn c)")
    case None
    then show ?thesis using assms(2) rej by (simp add: verify_remote_def)
  next
    case (Some cert)
    show ?thesis
    proof (cases "verify_certificate E cert")
      case (Inl e)
      then show ?thesis using assms(2) Some rej by (simp add: verify_remote_def)
    next
      case (Inr p)
      then show ?thesis
        using assms(2,3) Some rej by (cases "ep_peer_id (qc_endpoint c)") (auto simp: verify_remote_def Let_def split: if_splits)
    qed
  qed
qed

lemma recv_packet_calm:
  assumes "handshake_laws E" and "recv_packet M E buf from local_addr (c, k, events) = Some ((c', k', events'), r)" and "conn_calm E c"
  shows "conn_calm E c' \<and> (\<exists>new. events' = events @ new \<and> packet_calm c c' new)"
proof -
  obtain q1 r1 where q1: "q_recv E buf from local_addr (qc_conn c) = (q1, r1)" by force
  note drain = keeps_handshakeD [OF drain_and_flush_handshake [OF assms(1)]]
  have rest: "recv_packet M E buf from local_addr (c, k, events) =
      (if qc_state c = CsConnecting \<and> q_is_established E q1
       then io_bind (drain_and_flush E) (\<lambda>_. verify_remote M E) (c\<lparr>qc_conn := q1, qc_state := CsConnected\<rparr>, k, events)
       else drain_and_flush E (c\<lparr>qc_conn := q1\<rparr>, k, events))" if "\<forall>e. r1 \<noteq> Err (QError e)"
    using that q1 by (cases r1) (simp_all add: recv_packet_def Let_def split: quiche_error.split)
  consider (err) e where "r1 = Err (QError e)" | (up) "\<forall>e. r1 \<noteq> Err (QError e)" "qc_state c = CsConnecting" "q_is_established E q1"
    | (other) "\<forall>e. r1 \<noteq> Err (QError e)" "\<not> (qc_state c = CsConnecting \<and> q_is_established E q1)" by blast
  then show ?thesis
  proof cases
    case err
    then have "q_is_established E q1 = q_is_established E (qc_conn c)"
      using handshake_lawsD(6) [OF assms(1)] q1 by blast
    then show ?thesis
      using assms(2,3) q1 err by (auto simp: recv_packet_def conn_calm_def packet_calm_def)
  next
    case other
    then have "drain_and_flush E (c\<lparr>qc_conn := q1\<rparr>, k, events) = Some ((c', k', events'), r)"
      using assms(2) rest by auto
    from drain [OF this] show ?thesis
      using other(2) by (auto simp: handshake_kept_def conn_calm_def packet_calm_def)
  next
    case up
    then have run: "io_bind (drain_and_flush E) (\<lambda>_. verify_remote M E) (c\<lparr>qc_conn := q1, qc_state := CsConnected\<rparr>, k, events) =
        Some ((c', k', events'), r)"
      using assms(2) rest by auto
    then consider (step) c1 k1 events1 where
        "drain_and_flush E (c\<lparr>qc_conn := q1, qc_state := CsConnected\<rparr>, k, events) = Some ((c1, k1, events1), Ok ())"
        "verify_remote M E (c1, k1, events1) = Some ((c', k', events'), r)"
      | (fail) e where "drain_and_flush E (c\<lparr>qc_conn := q1, qc_state := CsConnected\<rparr>, k, events) = Some ((c', k', events'), Err e)"
      by (auto simp: io_bind_Some)
    then show ?thesis
    proof cases
      case step
      note d = drain [OF step(1), unfolded handshake_kept_def prod.case]
      obtain new1 where new1: "events1 = events @ new1" "list_all quiet new1" using d by blast
      have "qc_state c1 = CsConnected" using d by simp
      from verify_remote_calm [OF assms(1) step(2) this] obtain new2 where
        new2: "qc_state c' \<noteq> CsConnecting" "events' = events1 @ new2"
        "list_all quiet new2 \<and> qc_endpoint c' = qc_endpoint c1 \<or> new2 = [TeConnected (qc_id c1) (qc_endpoint c')]" by blast
      have "packet_calm c c' (new1 @ new2)"
        using new1 new2 up d by (auto simp: packet_calm_def)
      then show ?thesis using new1 new2 by (auto simp: conn_calm_def)
    next
      case fail
      from drain [OF fail] show ?thesis
        by (auto simp: handshake_kept_def conn_calm_def packet_calm_def)
    qed
  qed
qed

section \<open>Tables of connections\<close>

text \<open>The fresh connections of a transport, and that none of them is established.\<close>

definition fresh_in :: "('q, 's, 'mh) quic_transport \<Rightarrow> connection_id set" where
  "fresh_in t = {c. case bm_get (qt_connections t) c of None \<Rightarrow> True | Some conn \<Rightarrow> qc_state conn = CsConnecting}"

definition conns_calm :: "('q, 's, 'mh) quic_env \<Rightarrow> ('q, 's, 'mh) quic_transport \<Rightarrow> bool" where
  "conns_calm E t \<longleftrightarrow> quic_ok t \<and> (\<forall>c conn. bm_get (qt_connections t) c = Some conn \<longrightarrow> conn_calm E conn)"

lemma fresh_in_eqI: "qt_connections t' = qt_connections t \<Longrightarrow> fresh_in t' = fresh_in t"
  by (simp add: fresh_in_def)

lemma fresh_in_frame [simp]:
  "fresh_in (t\<lparr>qt_listen_addr := la\<rparr>) = fresh_in t" "fresh_in (t\<lparr>qt_socket := k\<rparr>) = fresh_in t" "fresh_in (t\<lparr>qt_pending := evs\<rparr>) = fresh_in t"
  "fresh_in (t\<lparr>qt_cids := m\<rparr>) = fresh_in t" "fresh_in (index_peer_connection p c t) = fresh_in t"
  "fresh_in (remove_peer_connection p c t) = fresh_in t"
  by (simp_all add: fresh_in_def)

lemma fresh_in_replace:
  assumes "bm_get (qt_connections t) c = Some conn"
  shows "fresh_in (t\<lparr>qt_connections := bm_insert c conn' (qt_connections t)\<rparr>) =
    (if qc_state conn' = CsConnecting then insert c (fresh_in t) else fresh_in t - {c})"
  using assms by (auto simp: fresh_in_def split: if_splits)

lemma conns_calm_replace:
  assumes "conns_calm E t" and "quic_ok t'" and "conn_calm E conn'"
    and "qt_connections t' = bm_insert c conn' (qt_connections t)"
  shows "conns_calm E t'"
  using assms by (auto simp: conns_calm_def)

text \<open>A step of a poll.\<close>

definition calm_step :: "('q, 's, 'mh) quic_env \<Rightarrow> ('q, 's, 'mh) poll_io \<Rightarrow> ('q, 's, 'mh) poll_io \<Rightarrow> bool" where
  "calm_step E st st' \<longleftrightarrow> conns_calm E (fst st') \<and> fresh_in (fst st') \<subseteq> fresh_in (fst st) \<and>
     (\<exists>new. snd st' = snd st @ new \<and> trace (fresh_in (fst st)) new (fresh_in (fst st')))"

lemma calm_step_refl: "conns_calm E (fst st) \<Longrightarrow> calm_step E st st"
  by (auto simp: calm_step_def)

lemma calm_step_trans: "calm_step E st st' \<Longrightarrow> calm_step E st' st'' \<Longrightarrow> calm_step E st st''"
  unfolding calm_step_def by (auto dest: trace_append)

definition polls_calm :: "('q, 's, 'mh) quic_env \<Rightarrow> (('q, 's, 'mh) poll_io, 'a) io \<Rightarrow> bool" where
  "polls_calm E m \<longleftrightarrow> (\<forall>st st' r. conns_calm E (fst st) \<longrightarrow> m st = Some (st', r) \<longrightarrow> calm_step E st st')"

lemma polls_calmD: "polls_calm E m \<Longrightarrow> conns_calm E (fst st) \<Longrightarrow> m st = Some (st', r) \<Longrightarrow> calm_step E st st'"
  unfolding polls_calm_def by blast

lemma polls_calm_bind:
  assumes "polls_calm E m" and "\<And>a. polls_calm E (f a)"
  shows "polls_calm E (io_bind m f)"
proof (unfold polls_calm_def, intro allI impI)
  fix st st' r
  assume calm: "conns_calm E (fst st)" and "io_bind m f st = Some (st', r)"
  then consider st1 a where "m st = Some (st1, Ok a)" "f a st1 = Some (st', r)" | e where "m st = Some (st', Err e)"
    by (auto simp: io_bind_Some)
  then show "calm_step E st st'"
  proof cases
    case 1
    have step: "calm_step E st st1" by (rule polls_calmD [OF assms(1) calm 1(1)])
    then have "conns_calm E (fst st1)" by (simp add: calm_step_def)
    from polls_calmD [OF assms(2) this 1(2)] show ?thesis by (rule calm_step_trans [OF step])
  next
    case 2
    then show ?thesis by (rule polls_calmD [OF assms(1) calm])
  qed
qed

lemma poll_op_ok: "poll_op E backlog m \<Longrightarrow> quic_ok (fst st) \<Longrightarrow> m st = Some (st', r) \<Longrightarrow> quic_ok (fst st')"
  by (erule poll_opD) auto

lemma trace_stream_events: "c \<notin> U \<Longrightarrow> list_all (stream_event c) es \<Longrightarrow> trace U es U"
proof (induction es)
  case (Cons e es)
  then have "may_come e U" "after_event e U = U" by (cases e; auto)+
  then show ?case using Cons trace.event [of e U es U] by simp
qed simp

lemma trace_quiet_subset: "list_all quiet es \<Longrightarrow> V \<subseteq> U \<Longrightarrow> trace U es V"
  by (rule trace_shrink_end [OF trace_quiet])

text \<open>A connection after a packet.\<close>

lemma packet_fresh:
  assumes "packet_calm conn conn' new" and "bm_get (qt_connections t) c = Some conn"
  shows "fresh_in (t\<lparr>qt_connections := bm_insert c conn' (qt_connections t)\<rparr>) \<subseteq> fresh_in t"
  using assms by (auto simp: packet_calm_def fresh_in_def split: if_splits)

lemma trace_packet:
  assumes "packet_calm conn conn' new" and "bm_get (qt_connections t) c = Some conn" and "qc_id conn = c"
  shows "trace (fresh_in t) new (fresh_in (t\<lparr>qt_connections := bm_insert c conn' (qt_connections t)\<rparr>))"
  using assms(1) unfolding packet_calm_def
proof
  assume quiet: "list_all quiet new \<and> qc_endpoint conn' = qc_endpoint conn \<and> (qc_state conn' = CsConnecting \<longrightarrow> qc_state conn = CsConnecting)"
  then show ?thesis by (intro trace_quiet_subset packet_fresh [OF assms(1,2)]) simp
next
  assume up: "qc_state conn = CsConnecting \<and> qc_state conn' \<noteq> CsConnecting \<and>
    (\<exists>before. new = before @ [TeConnected (qc_id conn) (qc_endpoint conn')] \<and> list_all quiet before)"
  then obtain before where before: "new = before @ [TeConnected c (qc_endpoint conn')]" "list_all quiet before"
    using assms(3) by auto
  have c: "c \<in> fresh_in t" using up assms(2) by (simp add: fresh_in_def)
  have "trace (fresh_in t) [TeConnected c (qc_endpoint conn')] (fresh_in t - {c})"
    using c by (intro trace.event) simp_all
  then have "trace (fresh_in t) new (fresh_in t - {c})"
    unfolding before(1) by (rule trace_append [OF trace_quiet [OF before(2)]])
  then show ?thesis using up assms(2) by (simp add: fresh_in_replace)
qed

section \<open>The transport\<close>

locale quic_laws =
  fixes E :: "('q, 's, 'mh::linorder) quic_env" and packets unread :: "'q \<Rightarrow> nat" and backlog :: "'s \<Rightarrow> nat"
    and sent :: "'q \<Rightarrow> u64 \<Rightarrow> bytes"
  assumes loop: "loop_laws E packets unread backlog"
    and send: "send_laws E sent"
    and order: "order_laws E"
    and handshake: "handshake_laws E"
begin

lemma deliver_calm: "polls_calm E (deliver_packet M E packet from local_addr c)"
proof (unfold polls_calm_def, intro allI impI)
  fix st st' r
  assume calm: "conns_calm E (fst st)" and run: "deliver_packet M E packet from local_addr c st = Some (st', r)"
  obtain t events where st: "st = (t, events)" by force
  have ok: "quic_ok (fst st')"
    using poll_op_ok [OF deliver_packet_op [OF loop send] _ run] calm by (simp add: conns_calm_def)
  show "calm_step E st st'"
  proof (cases "bm_get (qt_connections t) c")
    case None
    then show ?thesis using run calm by (auto simp: st deliver_packet_def calm_step_refl)
  next
    case (Some conn)
    have id: "qc_id conn = c" and cc: "conn_calm E conn"
      using calm Some quic_okD(1) [of t c conn] by (auto simp: conns_calm_def st)
    obtain conn' k events' res where recv: "recv_packet M E packet from local_addr (conn, qt_socket t, events) = Some ((conn', k, events'), res)"
      using run Some by (auto simp: st deliver_packet_def)
    obtain new where new: "conn_calm E conn'" "events' = events @ new" "packet_calm conn conn' new"
      using recv_packet_calm [OF handshake recv cc] by blast
    let ?t = "t\<lparr>qt_connections := bm_insert c conn' (qt_connections t)\<rparr>"
    note tr = trace_packet [OF new(3) Some id]
    have conns: "qt_connections (fst st') = bm_insert c conn' (qt_connections t)"
      using run Some recv by (auto simp: st deliver_packet_def Let_def split: sum.splits if_splits option.splits)
    have fresh: "fresh_in (fst st') = fresh_in ?t"
      using conns by (simp add: fresh_in_def)
    have "snd st' = events @ new \<or>
        snd st' = events @ new @ [TePeerIdentityVerified c (qc_endpoint conn') (ep_peer_id (qc_endpoint conn))] \<and> qc_endpoint conn' \<noteq> qc_endpoint conn"
      using run Some recv new(2) by (auto simp: st deliver_packet_def Let_def split: sum.splits if_splits)
    moreover have "trace (fresh_in ?t) [TePeerIdentityVerified c ep prev] (fresh_in ?t)" if "qc_endpoint conn' \<noteq> qc_endpoint conn" for ep prev
      using that new(3) by (intro trace.event) (auto simp: packet_calm_def fresh_in_def)
    ultimately have "\<exists>new. snd st' = events @ new \<and> trace (fresh_in t) new (fresh_in ?t)"
      using tr trace_append [OF tr] by blast
    moreover have "conns_calm E (fst st')"
      using conns_calm_replace [OF _ ok new(1)] calm conns by (simp add: st)
    ultimately show ?thesis using packet_fresh [OF new(3) Some] by (simp add: calm_step_def st fresh)
  qed
qed

end

context quic_laws
begin

text \<open>A step that replaces no connection keeps the fresh ones.\<close>

lemma calm_step_same:
  assumes "conns_calm E t" and "quic_ok t'" and "qt_connections t' = qt_connections t" and "list_all quiet new"
  shows "calm_step E (t, events) (t', events @ new)"
  using assms fresh_in_eqI [OF assms(3)] trace_quiet [OF assms(4)] by (auto simp: calm_step_def conns_calm_def)

lemma accept_calm: "polls_calm E (accept_connection E local_addr from)"
proof (unfold polls_calm_def, intro allI impI)
  fix st st' r
  assume calm: "conns_calm E (fst st)" and run: "accept_connection E local_addr from st = Some (st', r)"
  obtain t events where st: "st = (t, events)" by force
  have ok: "quic_ok (fst st')"
    using poll_op_ok [OF accept_connection_op [OF loop send] _ run] calm by (simp add: conns_calm_def)
  note same = calm_step_same [OF _ ok, of t "[]" events]
  show "calm_step E st st'"
  proof (cases "qt_connections (fst st') = qt_connections t \<and> snd st' = events")
    case True
    then show ?thesis using same calm by (cases st') (simp add: st)
  next
    case False
    obtain k scid q where q: "q_accept E scid local_addr from = Ok q" "generate_scid E (qt_socket t) = (k, Ok scid)"
      using run False by (auto simp: st accept_connection_def split: prod.splits sum.splits)
    obtain q' k' r' where s: "send_packets E (\<lambda>e. TrPollError (lit ''accept send error: '' @ e))
        (\<lambda>e. TrPollError (lit ''udp send error: '' @ e)) q k = Some (q', k', r')"
      using run q by (auto simp: st accept_connection_def)
    have send: "r' = Ok ()"
      using run False q s by (cases r') (auto simp: st accept_connection_def)
    obtain t2 r2 where a: "allocate_connection_id (t\<lparr>qt_socket := k'\<rparr>) = (t2, r2)" by force
    have "qt_connections t2 = qt_connections t"
      using a by (auto simp: allocate_connection_id_def split: prod.splits)
    then obtain c where c: "r2 = Ok c"
      using run False q s send a by (cases r2) (auto simp: st accept_connection_def)
    note fresh = allocate_fresh [OF a [unfolded c]]
    have st': "st' = (add_connection E (quic_connection_new E c q' from (endpoint_new (socket_addr_to_multiaddr from))) t2,
        events @ [TeIncomingConnection c (endpoint_new (socket_addr_to_multiaddr from))])"
      using run q s send a c fresh by (simp add: st accept_connection_def Let_def)
    have "\<not> q_is_established E q'"
      using send_packets_handshake [OF handshake s] handshake_lawsD(8) [OF handshake q(1)] by simp
    then have "conn_calm E (quic_connection_new E c q' from ep)" for ep
      by (simp add: conn_calm_def quic_connection_new_def)
    moreover have conns: "qt_connections (fst st') = bm_insert c (quic_connection_new E c q' from (endpoint_new (socket_addr_to_multiaddr from))) (qt_connections t)"
      using fresh by (simp add: st' add_connection_def)
    ultimately have "conns_calm E (fst st')"
      using conns_calm_replace [OF _ ok] calm unfolding st fst_conv by blast
    moreover have "fresh_in (fst st') \<subseteq> fresh_in t"
      using fresh by (auto simp: fresh_in_def conns)
    ultimately show ?thesis
      using trace_quiet_subset [of "[TeIncomingConnection c (endpoint_new (socket_addr_to_multiaddr from))]"] by (auto simp: calm_step_def st st')
  qed
qed

lemma datagram_calm: "polls_calm E (handle_datagram M E packet from)"
proof (unfold polls_calm_def, intro allI impI)
  fix st st' r
  assume calm: "conns_calm E (fst st)" and run: "handle_datagram M E packet from st = Some (st', r)"
  note accept = polls_calm_bind [OF accept_calm deliver_calm]
  show "calm_step E st st'"
    using run calm polls_calmD [OF deliver_calm calm] polls_calmD [OF accept calm]
    by (cases st) (auto simp: handle_datagram_def Let_def calm_step_refl split: sum.splits option.splits if_splits)
qed

lemma receive_calm: "polls_calm E (receive_datagrams M E)"
proof -
  have "calm_step E st (fst x)" if "receive_datagrams M E st = Some x" and "conns_calm E (fst st)" for st x
  proof (rule receive_datagrams.raw_induct [of "\<lambda>M' E' st x. E' = E \<longrightarrow> conns_calm E (fst st) \<longrightarrow> calm_step E st (fst x)",
        OF _ that(1), THEN mp, THEN mp, OF _ refl that(2)])
    fix rd M' E' and st :: "('q, 's, 'mh) poll_io" and x
    assume ih: "\<And>M' E' st x. rd M' E' st = Some x \<Longrightarrow> E' = E \<longrightarrow> conns_calm E (fst st) \<longrightarrow> calm_step E st (fst x)"
      and step: "(case udp_recv_from E' RECV_BUF_SIZE (qt_socket (fst st)) of
        (k, Inl err) \<Rightarrow>
          (case err of
             WouldBlock \<Rightarrow> Some (((fst st)\<lparr>qt_socket := k\<rparr>, snd st), Ok ())
           | IoError e \<Rightarrow> Some (((fst st)\<lparr>qt_socket := k\<rparr>, snd st), Err (TrPollError (lit ''udp recv error: '' @ e))))
      | (k, Inr datagram) \<Rightarrow>
          Option.bind (handle_datagram M' E' (fst datagram) (snd datagram) ((fst st)\<lparr>qt_socket := k\<rparr>, snd st)) (\<lambda>(st, res).
            case res of
              Inl e \<Rightarrow> Some (st, Err e)
            | Inr _ \<Rightarrow> rd M' E' st)) = Some x"
    show "E' = E \<longrightarrow> conns_calm E (fst st) \<longrightarrow> calm_step E st (fst x)"
    proof (intro impI)
      assume eq: "E' = E" and calm: "conns_calm E (fst st)"
      obtain k res where k: "udp_recv_from E RECV_BUF_SIZE (qt_socket (fst st)) = (k, res)" by force
      let ?st = "((fst st)\<lparr>qt_socket := k\<rparr>, snd st)"
      have "conns_calm E (fst ?st)" using calm by (simp add: conns_calm_def)
      note socket = calm_step_same [OF calm, of "fst ?st" "[]" "snd st", simplified]
      have sock: "calm_step E st ?st" using socket calm by (cases st) (simp add: conns_calm_def)
      show "calm_step E st (fst x)"
      proof (cases res)
        case (Inl err)
        then show ?thesis using step k sock by (cases err) (auto simp: eq)
      next
        case (Inr d)
        obtain st1 r1 where h: "handle_datagram M' E (fst d) (snd d) ?st = Some (st1, r1)"
          using step k Inr by (auto simp: eq bind_eq_Some_conv)
        have st1: "calm_step E st st1"
          using polls_calmD [OF datagram_calm _ h] \<open>conns_calm E (fst ?st)\<close> calm_step_trans [OF sock] by blast
        show ?thesis
        proof (cases r1)
          case (Inl e)
          then show ?thesis using step k Inr h st1 by (auto simp: eq)
        next
          case u: (Inr u)
          then have "rd M' E st1 = Some x" using step k Inr h by (simp add: eq)
          moreover have "conns_calm E (fst st1)" using st1 by (simp add: calm_step_def)
          ultimately have "calm_step E st1 (fst x)" using ih by blast
          then show ?thesis by (rule calm_step_trans [OF st1])
        qed
      qed
    qed
  qed
  then show ?thesis unfolding polls_calm_def by fastforce
qed

lemma poll_connections_calm: "polls_calm E (poll_connections E cs)"
proof (unfold polls_calm_def, intro allI impI)
  fix st st' r
  assume "conns_calm E (fst st)" and "poll_connections E cs st = Some (st', r)"
  then show "calm_step E st st'"
  proof (induction cs arbitrary: st)
    case Nil
    then show ?case by (simp add: calm_step_refl)
  next
    case (Cons c cs)
    obtain t events where st: "st = (t, events)" by force
    show ?case
    proof (cases "bm_get (qt_connections t) c")
      case None
      then show ?thesis using Cons by (simp add: st)
    next
      case (Some conn)
      obtain conn' k events' res where s: "poll_streams E (conn, qt_socket t, events) = Some ((conn', k, events'), res)"
        using Cons.prems(2) Some by (cases "poll_streams E (conn, qt_socket t, events)") (auto simp: st)
      have "\<exists>st'' r. poll_streams E (conn, qt_socket t, events) = Some (st'', r) \<and> conn_keeps sent backlog (conn, qt_socket t, events) st''"
        using poll_streams_returns [OF loop send] unfolding returns_keeping_def by blast
      then have kept: "conn_keeps sent backlog (conn, qt_socket t, events) (conn', k, events')" using s by simp
      have ok: "quic_ok t" and cc: "conn_calm E conn"
        using Cons.prems(1) Some unfolding conns_calm_def st fst_conv by blast+
      note id = quic_okD(1) [OF ok Some] and streams = quic_okD(2) [OF ok Some]
      have est: "q_is_established E (qc_conn conn') = q_is_established E (qc_conn conn)"
        and quietly: "\<not> q_is_established E (qc_conn conn) \<Longrightarrow> events' = events"
        using poll_streams_handshake [OF handshake s] by blast+
      have state: "qc_state conn' = qc_state conn" "qc_id conn' = qc_id conn" "ep_peer_id (qc_endpoint conn') = ep_peer_id (qc_endpoint conn)"
        "bm_ok (qc_streams conn')"
        using kept streams by (simp_all add: conn_keeps_def)
      obtain new where new: "events' = events @ new" "list_all (stream_event c) new"
        using kept id by (auto simp: conn_keeps_def)
      let ?t = "t\<lparr>qt_connections := bm_insert c conn' (qt_connections t), qt_socket := k\<rparr>"
      have "quic_ok ?t"
        using quic_ok_replace [OF ok Some, of conn'] state id by simp
      moreover have "conn_calm E conn'" using est cc state by (simp add: conn_calm_def)
      ultimately have calm: "conns_calm E ?t"
        using Cons.prems(1) conns_calm_replace [of E t ?t conn' c] by (simp add: st)
      have fresh: "fresh_in ?t = fresh_in t"
        using Some state(1) by (auto simp: fresh_in_def)
      have "trace (fresh_in t) new (fresh_in t)"
      proof (cases "q_is_established E (qc_conn conn)")
        case True
        then have "c \<notin> fresh_in t" using cc Some by (auto simp: conn_calm_def fresh_in_def)
        then show ?thesis using new(2) by (rule trace_stream_events)
      next
        case False
        then have "new = []" using quietly new(1) by simp
        then show ?thesis by simp
      qed
      then have step: "calm_step E st (?t, events')"
        using calm unfolding calm_step_def st fst_conv snd_conv fresh new(1) by blast
      show ?thesis
      proof (cases res)
        case (Inl e)
        then show ?thesis using Cons.prems(2) Some s step by (simp add: st Let_def)
      next
        case (Inr u)
        then have "poll_connections E cs (?t, events') = Some (st', r)"
          using Cons.prems(2) Some s by (simp add: st Let_def)
        with Cons.IH [of "(?t, events')"] calm have "calm_step E (?t, events') st'" by simp
        then show ?thesis by (rule calm_step_trans [OF step])
      qed
    qed
  qed
qed

end

section \<open>Calls of the transport\<close>

definition transport_calm :: "('q, 's, 'mh) quic_env \<Rightarrow> ('q, 's, 'mh) quic_transport \<Rightarrow> bool" where
  "transport_calm E t \<longleftrightarrow> conns_calm E t \<and> list_all quiet (qt_pending t)"

lemma transport_calm_ok: "transport_calm E t \<Longrightarrow> quic_ok t"
  by (simp add: transport_calm_def conns_calm_def)

lemma transport_calm_new: "transport_calm E (quic_transport_new k p)"
  using quic_ok_new [of k p] by (simp add: transport_calm_def conns_calm_def quic_transport_new_def)

text \<open>A call that returns, and makes no connection fresh.\<close>

definition io_calm :: "('q, 's, 'mh) quic_env \<Rightarrow> (('q, 's, 'mh) quic_transport, 'a) io \<Rightarrow> bool" where
  "io_calm E m \<longleftrightarrow>
     (\<forall>t t' r. transport_calm E t \<longrightarrow> m t = Some (t', r) \<longrightarrow> transport_calm E t' \<and> fresh_in t' \<subseteq> fresh_in t)"

lemma io_calm_bind:
  assumes "io_calm E m" and "\<And>a. io_calm E (f a)"
  shows "io_calm E (io_bind m f)"
  unfolding io_calm_def
proof (intro allI impI)
  fix t t' r
  assume calm: "transport_calm E t" and "io_bind m f t = Some (t', r)"
  then consider t1 a where "m t = Some (t1, Ok a)" "f a t1 = Some (t', r)" | e where "m t = Some (t', Err e)"
    by (auto simp: io_bind_Some)
  then show "transport_calm E t' \<and> fresh_in t' \<subseteq> fresh_in t"
    using assms calm unfolding io_calm_def by cases blast+
qed

lemma io_calm_ok: "io_calm E (io_ok a)"
  by (simp add: io_calm_def)

lemma on_connection_calm:
  assumes "\<And>st st' r. m st = Some (st', r) \<Longrightarrow> op_calm E st st'" and "keeps_tables quic_ok (on_connection c m)"
  shows "io_calm E (on_connection c m)"
proof (unfold io_calm_def, intro allI impI)
  fix t t' r
  assume calm: "transport_calm E t" and run: "on_connection c m t = Some (t', r)"
  have ok: "quic_ok t'"
    using assms(2) run transport_calm_ok [OF calm] unfolding keeps_tables_def by fastforce
  show "transport_calm E t' \<and> fresh_in t' \<subseteq> fresh_in t"
  proof (cases "bm_get (qt_connections t) c")
    case None
    then show ?thesis using run calm by (simp add: on_connection_def)
  next
    case (Some conn)
    then obtain conn' k events where m: "m (conn, qt_socket t, qt_pending t) = Some ((conn', k, events), r)"
      and t': "t' = t\<lparr>qt_connections := bm_insert c conn' (qt_connections t), qt_socket := k, qt_pending := events\<rparr>"
      using run by (auto simp: on_connection_def)
    obtain new where op: "conn_calm E conn \<longrightarrow> conn_calm E conn'" "qc_state conn' = CsConnecting \<longrightarrow> qc_state conn = CsConnecting"
      "events = qt_pending t @ new" "list_all quiet new"
      using assms(1) [OF m] by (auto simp: op_calm_def)
    have "conn_calm E conn'" using op(1) calm Some unfolding transport_calm_def conns_calm_def by blast
    then have "conns_calm E t'"
      using conns_calm_replace [OF _ ok, of E t conn' c] calm by (simp add: transport_calm_def t')
    moreover have "fresh_in t' \<subseteq> fresh_in t"
      using op(2) Some by (auto simp: fresh_in_def t' split: if_splits)
    ultimately show ?thesis using op(3,4) calm by (simp add: transport_calm_def t')
  qed
qed

context quic_laws
begin

lemma allocate_calm:
  assumes "transport_calm E t" and "allocate_connection_id t = (t', r)"
  shows "transport_calm E t'" and "qt_connections t' = qt_connections t"
  using assms quic_ok_allocate [of t]
  by (auto simp: transport_calm_def conns_calm_def allocate_connection_id_def split: prod.splits)

lemma dial_calm: "io_calm E (qt_dial E addr)"
proof (unfold io_calm_def, intro allI impI)
  fix t t' r
  assume calm: "transport_calm E t" and run: "qt_dial E addr t = Some (t', r)"
  have ok: "quic_ok t'"
    using transport_calls_keep(1) [OF loop send order, of addr] run transport_calm_ok [OF calm] unfolding keeps_tables_def by fastforce
  obtain t1 r1 where t1: "allocate_connection_id t = (t1, r1)" by force
  note calm1 = allocate_calm [OF calm t1]
  have same: "transport_calm E t' \<and> fresh_in t' \<subseteq> fresh_in t" if "t' = t1\<lparr>qt_socket := k\<rparr>" for k
    using that calm1 fresh_in_eqI [OF calm1(2)] by (simp add: transport_calm_def conns_calm_def)
  have unchanged: "transport_calm E t' \<and> fresh_in t' \<subseteq> fresh_in t" if "t' = t1"
    using that calm1 fresh_in_eqI [OF calm1(2)] by simp
  show "transport_calm E t' \<and> fresh_in t' \<subseteq> fresh_in t"
  proof (cases "t' = t1 \<or> (\<exists>k. t' = t1\<lparr>qt_socket := k\<rparr>)")
    case True
    then show ?thesis using same unchanged by blast
  next
    case False
    then obtain c peer_socket local_socket where c: "r1 = Ok c" "connect_to E c addr peer_socket local_socket t1 = Some (t', r)"
      using run t1 by (auto simp: qt_dial_def split: sum.splits)
    obtain k scid q where q: "q_connect E scid local_socket peer_socket = Ok q" "generate_scid E (qt_socket t1) = (k, Ok scid)"
      using c(2) False by (auto simp: connect_to_def split: prod.splits sum.splits)
    obtain q' k' res where s: "send_packets E (\<lambda>e. TrDialFailed c (lit ''initial send error: '' @ e))
        (\<lambda>e. TrDialFailed c (lit ''udp send error: '' @ e)) q k = Some (q', k', res)"
      using c(2) q by (auto simp: connect_to_def)
    let ?conn = "quic_connection_new E c q' peer_socket (endpoint_from_peer_addr addr)"
    have "res = Ok ()" using c(2) q s False by (cases res) (auto simp: connect_to_def)
    then have t': "t' = index_peer_connection (pa_peer_id addr) c (add_connection E ?conn (t1\<lparr>qt_socket := k'\<rparr>))"
      using c(2) q s by (simp add: connect_to_def)
    have "\<not> q_is_established E q'"
      using send_packets_handshake [OF handshake s] handshake_lawsD(7) [OF handshake q(1)] by simp
    then have cc: "conn_calm E ?conn" by (simp add: conn_calm_def quic_connection_new_def)
    have conns: "qt_connections t' = bm_insert c ?conn (qt_connections t)"
      using calm1(2) by (simp add: t' add_connection_def)
    have "conns_calm E t'"
      using conns_calm_replace [OF _ ok cc conns] calm by (simp add: transport_calm_def)
    moreover have "fresh_in t' \<subseteq> fresh_in t"
      using allocate_fresh [OF t1 [unfolded c(1)]] by (auto simp: fresh_in_def conns)
    ultimately show ?thesis
      using calm1(1) by (simp add: transport_calm_def t' add_connection_def)
  qed
qed

lemma listen_calm: "io_calm E (io_of (qt_listen E a))"
  by (auto simp: io_calm_def io_of_def qt_listen_def transport_calm_def conns_calm_def Let_def split: sum.splits)

lemma open_stream_calm: "io_calm E (io_of (qt_open_stream c))"
proof (unfold io_calm_def, intro allI impI)
  fix t t' r
  assume calm: "transport_calm E t" and run: "io_of (qt_open_stream c) t = Some (t', r)"
  have ok: "quic_ok t'"
    using quic_ok_open [OF transport_calm_ok [OF calm], of c] run by (simp add: io_of_def)
  show "transport_calm E t' \<and> fresh_in t' \<subseteq> fresh_in t"
  proof (cases "bm_get (qt_connections t) c")
    case None
    then show ?thesis using run calm by (simp add: io_of_def qt_open_stream_def)
  next
    case (Some conn)
    obtain conn' res where o: "qc_open_stream conn = (conn', res)" by force
    have same: "qc_state conn' = qc_state conn" "qc_conn conn' = qc_conn conn"
      using o by (auto simp: qc_open_stream_def put_stream_def Let_def split: if_splits)
    have conns: "qt_connections t' = bm_insert c conn' (qt_connections t)"
      and pending: "\<exists>new. qt_pending t' = qt_pending t @ new \<and> list_all quiet new"
      using run Some o by (auto simp: io_of_def qt_open_stream_def Let_def split: sum.splits)
    have "conn_calm E conn'"
      using calm Some same by (auto simp: transport_calm_def conns_calm_def conn_calm_def)
    then have "conns_calm E t'"
      using conns_calm_replace [OF _ ok _ conns] calm by (simp add: transport_calm_def)
    moreover have "fresh_in t' \<subseteq> fresh_in t"
      using Some same by (auto simp: fresh_in_def conns split: if_splits)
    ultimately show ?thesis using pending calm by (auto simp: transport_calm_def)
  qed
qed

lemma stream_calls_calm:
  "io_calm E (qt_send_stream E c sid data)" "io_calm E (qt_close_stream_write E c sid)"
  "io_calm E (qt_reset_stream E c sid)" "io_calm E (qt_close E c)"
proof -
  note keep = transport_calls_keep(2-5) [OF loop send order,
      unfolded qt_send_stream_def qt_close_stream_write_def qt_reset_stream_def qt_close_def]
  show "io_calm E (qt_send_stream E c sid data)"
    unfolding qt_send_stream_def by (rule on_connection_calm [OF send_stream_calm [OF handshake] keep(1)])
  show "io_calm E (qt_close_stream_write E c sid)"
    unfolding qt_close_stream_write_def by (rule on_connection_calm [OF close_stream_write_calm [OF handshake] keep(2)])
  show "io_calm E (qt_reset_stream E c sid)"
    unfolding qt_reset_stream_def by (rule on_connection_calm [OF reset_stream_calm [OF handshake] keep(3)])
  show "io_calm E (qt_close E c)"
    unfolding qt_close_def by (rule on_connection_calm [OF close_calm [OF handshake] keep(4)])
qed

lemma poll_calm:
  assumes "transport_calm E t" and "qt_poll M E t = Some (t', r)"
  shows "transport_calm E t' \<and> (case r of Inl _ \<Rightarrow> fresh_in t' \<subseteq> fresh_in t | Inr events \<Rightarrow> trace (fresh_in t) events (fresh_in t'))"
proof -
  let ?st = "(t\<lparr>qt_pending := []\<rparr>, qt_pending t)"
  have calm: "conns_calm E (fst ?st)" using assms(1) by (simp add: transport_calm_def conns_calm_def)
  have finished: "transport_calm E (fst st)" if "calm_step E ?st st" "qt_pending (fst st) = []" for st
    using that by (simp add: calm_step_def transport_calm_def)
  obtain st1 r1 where st1: "receive_datagrams M E ?st = Some (st1, r1)"
    using assms(2) by (auto simp: qt_poll_def bind_eq_Some_conv)
  note step1 = polls_calmD [OF receive_calm calm st1]
  have pending1: "qt_pending (fst st1) = []"
    using receive_datagrams_op [OF loop send, of M] st1 calm unfolding poll_op_def conns_calm_def
    by (fastforce simp: poll_keeps_def)
  show ?thesis
  proof (cases r1)
    case (Inl e)
    then show ?thesis
      using assms(2) st1 finished [OF step1 pending1] step1 by (auto simp: qt_poll_def calm_step_def)
  next
    case (Inr u)
    let ?cs = "conn_order E (bm_keys (qt_connections (fst st1)))"
    obtain st2 r2 where st2: "poll_connections E ?cs st1 = Some (st2, r2)"
      using assms(2) st1 Inr by (auto simp: qt_poll_def Let_def bind_eq_Some_conv)
    have calm1: "conns_calm E (fst st1)" using step1 by (simp add: calm_step_def)
    note step2 = calm_step_trans [OF step1 polls_calmD [OF poll_connections_calm calm1 st2]]
    have pending2: "qt_pending (fst st2) = []"
      using poll_connections_op [OF loop send, of ?cs] st2 calm1 pending1 unfolding poll_op_def conns_calm_def
      by (fastforce simp: poll_keeps_def)
    show ?thesis
    proof (cases r2)
      case (Inl e)
      then show ?thesis
        using assms(2) st1 \<open>r1 = Ok u\<close> st2 finished [OF step2 pending2] step2 by (auto simp: qt_poll_def Let_def calm_step_def)
    next
      case ok2: (Inr u2)
      let ?u = "update_cids E ?cs (fst st2)"
      let ?closed = "filter (\<lambda>c. case bm_get (qt_connections ?u) c of None \<Rightarrow> False | Some conn \<Rightarrow> q_is_closed E (qc_conn conn)) ?cs"
      let ?out = "fold remove_closed ?closed (?u, snd st2)"
      have out: "t' = fst ?out" "r = Ok (snd ?out)"
        using assms(2) st1 Inr st2 ok2 by (simp_all add: qt_poll_def Let_def)
      have calm2: "conns_calm E (fst st2)" using step2 by (simp add: calm_step_def)
      have u: "quic_ok ?u" "qt_connections ?u = qt_connections (fst st2)" "qt_pending ?u = []"
        using update_cids_step [of "fst st2" E ?cs] calm2 pending2 by (simp_all add: conns_calm_def)
      note rem = remove_closed_fold [OF u(1), of ?closed "snd st2"]
      have calm': "transport_calm E t'"
        using rem u calm2 by (auto simp: out transport_calm_def conns_calm_def split: if_splits)
      obtain new where new: "snd st2 = qt_pending t @ new" "trace (fresh_in t) new (fresh_in (fst st2))"
        using step2 by (auto simp: calm_step_def)
      have pend: "trace (fresh_in t) (qt_pending t) (fresh_in t)"
        using assms(1) by (simp add: transport_calm_def trace_quiet)
      have "fresh_in t' \<subseteq> fresh_in (fst st2) \<union> set ?closed"
        using rem u(2) by (auto simp: out fresh_in_def split: if_splits)
      then have "trace (fresh_in t) ((qt_pending t @ new) @ map TeClosed ?closed) (fresh_in t')"
        using trace_append [OF trace_append [OF pend new(2)] trace_closed [of "fresh_in (fst st2)" ?closed]]
        by (blast intro: trace_shrink_end)
      moreover have "r = Ok ((qt_pending t @ new) @ map TeClosed ?closed)"
        using out rem new by simp
      ultimately show ?thesis using calm' by simp
    qed
  qed
qed

end

section \<open>The endpoint as a transport of the driver\<close>

text \<open>
  An endpoint with one socket.  (With two sockets the ids of the connections are doubled with saturation, and
  different connections may get the same id once \<open>2^63\<close> were allocated.)
\<close>

fun endpoint_calm :: "('q, 's, 'mh) quic_env \<Rightarrow> ('q, 's, 'mh) quic_endpoint \<Rightarrow> bool" where
  "endpoint_calm E (Single t) = transport_calm E t"
| "endpoint_calm E (Dual d) = False"

fun endpoint_fresh :: "('q, 's, 'mh) quic_endpoint \<Rightarrow> connection_id set" where
  "endpoint_fresh (Single t) = fresh_in t"
| "endpoint_fresh (Dual d) = {}"

text \<open>A peer id that the certificate of some QUIC connection proves.\<close>

definition proven :: "('q, 's, 'mh) quic_env \<Rightarrow> 'mh peer_id \<Rightarrow> bool" where
  "proven E p \<longleftrightarrow> (\<exists>q cert. q_peer_cert E q = Some cert \<and> verify_certificate E cert = Ok p)"

lemma certified_proven: "certified E ep \<Longrightarrow> pred_option (proven E) (ep_peer_id ep)"
  unfolding certified_def proven_def by auto blast

lemma quiet_names: "quiet e \<Longrightarrow> names good e"
  by (cases e) simp_all

lemma endpoint_call_calm:
  assumes "io_calm E single" and "keeps_tables quic_ok single"
  shows "calm (endpoint_calm E) endpoint_fresh (returned (by_endpoint single dual))"
  unfolding calm_def
proof (intro allI impI)
  fix e
  assume "endpoint_calm E e"
  then obtain t where t: "e = Single t" "transport_calm E t" by (cases e) simp_all
  obtain t' r where "single t = Some (t', r)"
    using assms(2) transport_calm_ok [OF t(2)] unfolding keeps_tables_def by blast
  then show "endpoint_calm E (fst (returned (by_endpoint single dual) e)) \<and>
      endpoint_fresh (fst (returned (by_endpoint single dual) e)) \<subseteq> endpoint_fresh e"
    using assms(1) t unfolding io_calm_def by (auto simp: returned_def)
qed

context quic_laws
begin

lemma dial_family_calm: "io_calm E (single_dial_family E addr f)"
  using dial_calm by (auto simp: io_calm_def single_dial_family_def split: sum.splits if_splits)

lemma dial_family_keeps: "keeps_tables quic_ok (single_dial_family E addr f)"
  using transport_calls_keep(1) [OF loop send order]
  by (auto simp: keeps_tables_def single_dial_family_def split: sum.split)

lemma dials_calm:
  "calm (endpoint_calm E) endpoint_fresh (returned (qe_dial_all E addr))"
  "calm (endpoint_calm E) endpoint_fresh (returned (qe_dial_ip4 E addr))"
  "calm (endpoint_calm E) endpoint_fresh (returned (qe_dial_ip6 E addr))"
proof -
  show "calm (endpoint_calm E) endpoint_fresh (returned (qe_dial_all E addr))"
    unfolding qe_dial_all_def
    by (intro endpoint_call_calm io_calm_bind keeps_tables_bind dial_calm io_calm_ok keeps_tables_ok
        transport_calls_keep(1) [OF loop send order])
  show "calm (endpoint_calm E) endpoint_fresh (returned (qe_dial_ip4 E addr))"
    "calm (endpoint_calm E) endpoint_fresh (returned (qe_dial_ip6 E addr))"
    unfolding qe_dial_ip4_def qe_dial_ip6_def
    by (intro endpoint_call_calm dial_family_calm dial_family_keeps)+
qed

lemma poll_names:
  assumes "transport_calm E t" and "qt_poll M E t = Some (t', Ok events)"
  shows "list_all (names (proven E)) events"
proof -
  obtain new closed where events: "events = qt_pending t @ new @ map TeClosed closed" "announces E (peer_of t) new"
    using poll_returns [OF loop send order transport_calm_ok [OF assms(1)], of M] assms(2) by (auto simp: poll_outcome_def)
  have "list_all (names (proven E)) (qt_pending t)"
    using assms(1) quiet_names by (auto simp: transport_calm_def list_all_iff)
  moreover have "names (proven E) e" if "announced E (peer_of t) e" for e
    using that by (cases e) (auto intro: certified_proven)
  then have "list_all (names (proven E)) new"
    using events(2) by (auto simp: announces_def list_all_iff)
  ultimately show ?thesis
    by (auto simp: events(1) list_all_iff)
qed

end

sublocale quic_laws \<subseteq> quic: calm_transport "quic_endpoint_transport M E" "endpoint_calm E" endpoint_fresh "proven E" for M
proof unfold_locales
  note keeps = transport_calls_keep [OF loop send order]
  show "calm (endpoint_calm E) endpoint_fresh (tr_dial (quic_endpoint_transport M E) addr)" for addr
    unfolding quic_endpoint_transport_def by (simp add: qe_dial_def endpoint_call_calm dial_calm keeps)
  show "calm (endpoint_calm E) endpoint_fresh (tr_listen (quic_endpoint_transport M E) a)" for a
    unfolding quic_endpoint_transport_def by (simp add: qe_listen_def endpoint_call_calm listen_calm keeps)
  show "calm (endpoint_calm E) endpoint_fresh (tr_open_stream (quic_endpoint_transport M E) c)" for c
    unfolding quic_endpoint_transport_def by (simp add: qe_open_stream_def endpoint_call_calm open_stream_calm keeps)
  show "calm (endpoint_calm E) endpoint_fresh (tr_send_stream (quic_endpoint_transport M E) c sid data)" for c sid data
    unfolding quic_endpoint_transport_def by (simp add: qe_send_stream_def endpoint_call_calm stream_calls_calm keeps)
  show "calm (endpoint_calm E) endpoint_fresh (tr_close_stream_write (quic_endpoint_transport M E) c sid)" for c sid
    unfolding quic_endpoint_transport_def by (simp add: qe_close_stream_write_def endpoint_call_calm stream_calls_calm keeps)
  show "calm (endpoint_calm E) endpoint_fresh (tr_reset_stream (quic_endpoint_transport M E) c sid)" for c sid
    unfolding quic_endpoint_transport_def by (simp add: qe_reset_stream_def endpoint_call_calm stream_calls_calm keeps)
  show "calm (endpoint_calm E) endpoint_fresh (tr_close (quic_endpoint_transport M E) c)" for c
    unfolding quic_endpoint_transport_def by (simp add: qe_close_def endpoint_call_calm stream_calls_calm keeps)
  fix e :: "('q, 's, 'mh) quic_endpoint"
  assume "endpoint_calm E e"
  then obtain t where t: "e = Single t" "transport_calm E t" by (cases e) simp_all
  obtain t' r where run: "qt_poll M E t = Some (t', r)"
    using keeps(6) [of M] transport_calm_ok [OF t(2)] unfolding keeps_tables_def by blast
  then have "tr_poll (quic_endpoint_transport M E) e = (Single t', r)"
    by (simp add: quic_endpoint_transport_def qe_poll_def returned_def t(1))
  then show "endpoint_calm E (fst (tr_poll (quic_endpoint_transport M E) e)) \<and>
      (case snd (tr_poll (quic_endpoint_transport M E) e) of
         Inl _ \<Rightarrow> endpoint_fresh (fst (tr_poll (quic_endpoint_transport M E) e)) \<subseteq> endpoint_fresh e
       | Inr events \<Rightarrow> trace (endpoint_fresh e) events (endpoint_fresh (fst (tr_poll (quic_endpoint_transport M E) e))) \<and>
           list_all (names (proven E)) events)"
    using poll_calm [OF t(2) run] poll_names [OF t(2)] run t(1) by (cases r) auto
qed

interpretation mini_quic: quic_laws "mini_quic_env verify" mq_packets "\<lambda>_. 0" "\<lambda>k. length (mo_inbox k)" mq_sent for verify
proof
  show "handshake_laws (mini_quic_env verify)"
    by (auto simp: handshake_laws_def mini_quic_env_def mini_start_def split: nat.split)
qed (rule mini_quic_laws)+

end
