(* ===== verification/TlsProps.thy ===== *)
theory TlsProps
  imports Tls
begin

text \<open>
  A certificate that is made for a key pair verifies to the peer id of the key pair; a certificate that
  verifies was signed with the host key it names.  The base-64 encoder agrees with a bitwise reference.
\<close>

section \<open>Hypotheses on the libraries\<close>

text \<open>The length of a DER value in its definite form.\<close>

definition der_length :: "nat \<Rightarrow> bytes" where
  "der_length n =
     (if n < 128 then [of_nat n]
      else if n < 2 ^ 8 then [0x81, of_nat n]
      else [0x82, of_nat (n div 2 ^ 8), of_nat (n mod 2 ^ 8)])"

text \<open>
  Of \<open>der\<close>: short inputs can be read, a SEQUENCE of up to \<open>2^16\<close> bytes and an OCTET STRING are read back with
  what follows them, a reader is finished exactly when nothing is left.
\<close>

definition der_laws :: "der_api \<Rightarrow> bool" where
  "der_laws R \<longleftrightarrow>
     (\<forall>bs. length bs < 2 ^ 17 \<longrightarrow> dr_new R bs = Ok ()) \<and>
     (\<forall>contents rest. length contents < 2 ^ 16 \<longrightarrow>
        dr_sequence R (0x30 # der_length (length contents) @ contents @ rest) = Ok (contents, rest)) \<and>
     (\<forall>bs rest. length bs < 2 ^ 15 \<longrightarrow> dr_octets R (dr_octet_encode R bs @ rest) = Ok (bs, rest)) \<and>
     (\<forall>bs. length bs < 2 ^ 15 \<longrightarrow>
        dr_octet_new R bs = Ok () \<and> dr_octet_len R bs = Ok (length (dr_octet_encode R bs)) \<and>
        length (dr_octet_encode R bs) \<le> length bs + 6) \<and>
     (\<forall>a b. a + b < 2 ^ 17 \<longrightarrow> dr_len_add R a b = Ok (a + b)) \<and>
     dr_finish R [] = Ok ()"

text \<open>
  Of \<open>x509-cert\<close> and \<open>p256\<close>: the encoding of a built certificate starts with two headers, the second that of
  the part that is signed; it parses to a certificate with the algorithm, the extension and the key it was
  built with, whose signature verifies under that key; and a key has one encoding.
\<close>

definition built_as :: "der_api \<Rightarrow> ('sk, 'b, 'cert, 'v, 'r) x509_api \<Rightarrow> bytes \<Rightarrow> rstr \<Rightarrow> bytes \<Rightarrow> bytes \<Rightarrow> bool" where
  "built_as R X spki oid value der \<longleftrightarrow>
     (\<exists>cert. x5_parse X der = Ok cert \<and> x5_sig_alg X cert = ECDSA_SHA256_OID \<and> x5_tbs_sig_alg X cert = ECDSA_SHA256_OID \<and>
        x5_extensions X cert = Some [(oid, value)] \<and> x5_spki X cert = Ok spki \<and>
        p256_key X (x5_key X cert) \<and> p256_sig X (x5_signature X cert) \<and>
        (\<exists>outer header contents rest n. der = outer @ header @ contents @ rest \<and> dr_new R der = Ok () \<and>
           dr_header R der = Ok (n, header @ contents @ rest) \<and>
           dr_header R (header @ contents @ rest) = Ok (length contents, contents @ rest) \<and>
           p256_verify X (x5_key X cert) (header @ contents) (x5_signature X cert)))"

definition x509_laws :: "der_api \<Rightarrow> ('sk, 'b, 'cert, 'v, 'r) x509_api \<Rightarrow> bool" where
  "x509_laws R X \<longleftrightarrow>
     (\<forall>subject serial validity spki oid value sk b b' cert der.
        p256_spki_owned X sk = Ok spki \<longrightarrow> x5_builder_new X subject serial validity spki = Ok b \<longrightarrow>
        x5_add_extension X oid False value b = Ok b' \<longrightarrow> x5_build X sk b' = Ok cert \<longrightarrow> x5_to_der X cert = Ok der \<longrightarrow>
        built_as R X spki oid value der) \<and>
     (\<forall>sk spki. p256_public_key_der X sk = Ok spki \<longrightarrow> p256_spki_owned X sk = Ok spki)"

section \<open>The signed key\<close>

lemma sequence_header_der: "sequence_header n = 0x30 # der_length n"
  by (simp add: sequence_header_def der_length_def)

text \<open>The hand-written header is right for contents below \<open>2^16\<close> bytes.\<close>

lemma signed_key_roundtrip:
  assumes "der_laws R" and "length public_key < 2 ^ 15 - 6" and "length signature < 2 ^ 15 - 6"
  shows "\<exists>signed_key. encode_signed_key R public_key signature = Ok signed_key \<and>
    decode_signed_key R signed_key = Ok (public_key, signature)"
proof -
  let ?pk = "dr_octet_encode R public_key" and ?sig = "dr_octet_encode R signature"
  note laws = assms(1) [unfolded der_laws_def]
  have octets: "dr_octet_new R public_key = Ok ()" "dr_octet_new R signature = Ok ()"
    "dr_octet_len R public_key = Ok (length ?pk)" "dr_octet_len R signature = Ok (length ?sig)"
    "length ?pk \<le> length public_key + 6" "length ?sig \<le> length signature + 6"
    using laws assms(2,3) by auto
  then have short: "length (?pk @ ?sig) < 2 ^ 16" using assms(2,3) by simp
  have add: "dr_len_add R (length ?pk) (length ?sig) = Ok (length (?pk @ ?sig))"
    using laws short by simp
  let ?der = "0x30 # der_length (length (?pk @ ?sig)) @ (?pk @ ?sig)"
  have "encode_signed_key R public_key signature = Ok ?der"
    using octets add by (simp add: encode_signed_key_def sequence_header_der)
  moreover have "length ?der < 2 ^ 17"
    using short by (simp add: der_length_def)
  then have "dr_new R ?der = Ok ()" using laws by blast
  moreover have "dr_sequence R ?der = Ok (?pk @ ?sig, [])"
    using laws short by (metis append_Nil2)
  moreover have "dr_octets R (dr_octet_encode R bs @ rest) = Ok (bs, rest)" if "length bs < 2 ^ 15" for bs rest
    using laws that by blast
  from this [of public_key ?sig] this [of signature "[]"]
  have "dr_octets R (?pk @ ?sig) = Ok (public_key, ?sig)" "dr_octets R ?sig = Ok (signature, [])"
    using assms(2,3) by simp_all
  moreover have "dr_finish R [] = Ok ()"
    using laws by blast
  ultimately show ?thesis
    by (simp add: decode_signed_key_def)
qed

section \<open>The part that is signed\<close>

lemma extract_tbs:
  assumes "der = outer @ header @ contents @ rest" and "dr_new R der = Ok ()" and "dr_header R der = Ok (n, header @ contents @ rest)"
    and "dr_header R (header @ contents @ rest) = Ok (length contents, contents @ rest)"
  shows "extract_tbs_der R der = Ok (header @ contents)"
  using assms by (simp add: extract_tbs_der_def Let_def)

text \<open>What is extracted is always a part of the certificate.\<close>

lemma extract_tbs_part: "extract_tbs_der R der = Ok tbs \<Longrightarrow> \<exists>before after. der = before @ tbs @ after"
proof -
  assume "extract_tbs_der R der = Ok tbs"
  then obtain m n where "tbs = drop m (take n der)"
    by (auto simp: extract_tbs_der_def and_then_eq_Inr Let_def split: if_splits prod.splits)
  then have "der = take m (take n der) @ tbs @ drop n der"
    by (metis append_assoc append_take_drop_id)
  then show ?thesis by blast
qed

section \<open>Properties\<close>

lemma encode_protobuf_short: "length (key_data k) = 32 \<Longrightarrow> length (encode_protobuf k) < 100"
  by (cases "key_type k") (simp_all add: encode_protobuf_eq uvarint_rec)

text \<open>What a certificate that verifies contains.\<close>

lemma verified_key_sound:
  assumes "verified_key D R X cert_der = Ok k"
  shows "\<exists>cert tbs before after value key_bytes spki signature.
    x5_parse X cert_der = Ok cert \<and> cert_der = before @ tbs @ after \<and> p256_verify X (x5_key X cert) tbs (x5_signature X cert) \<and>
    x5_spki X cert = Ok spki \<and> (LIBP2P_EXTENSION_OID, value) \<in> set (the (x5_extensions X cert)) \<and>
    decode_signed_key R value = Ok (key_bytes, signature) \<and> decode_protobuf key_bytes = Ok k \<and>
    key_type k = Ed25519 \<and> length (key_data k) = 32 \<and> length signature = 64 \<and>
    ed_verify_strict D (key_data k) (SIGNATURE_PREFIX @ spki) signature"
proof -
  obtain cert exts oid signed_key key_bytes signature spki where steps:
    "x5_parse X cert_der = Ok cert" "verify_self_signature R X cert_der cert = Ok ()" "x5_extensions X cert = Some exts"
    "find (\<lambda>(oid, _). oid = LIBP2P_EXTENSION_OID) exts = Some (oid, signed_key)" "decode_signed_key R signed_key = Ok (key_bytes, signature)"
    "decode_protobuf key_bytes = Ok k" "x5_spki X cert = Ok spki"
    "verify_host_signature D k (SIGNATURE_PREFIX @ spki) signature = Ok ()"
    using assms by (auto simp: verified_key_def and_then_eq_Inr)
  obtain tbs where tbs: "extract_tbs_der R cert_der = Ok tbs" "p256_verify X (x5_key X cert) tbs (x5_signature X cert)"
    using steps(2) by (auto simp: verify_self_signature_def and_then_eq_Inr split: if_splits)
  obtain before after where part: "cert_der = before @ tbs @ after"
    using extract_tbs_part [OF tbs(1)] by blast
  have ext: "(LIBP2P_EXTENSION_OID, signed_key) \<in> set (the (x5_extensions X cert))"
    using steps(3,4) by (auto simp: find_Some_iff dest: nth_mem)
  have "key_type k = Ed25519 \<and> length signature = 64 \<and> pk_verify D k (SIGNATURE_PREFIX @ spki) signature = Ok ()"
    using steps(8) by (auto simp: verify_host_signature_def split: key_type.splits if_splits)
  then show ?thesis
    using steps tbs part ext unfolding pk_verify_Ok by blast
qed

lemma generated_key:
  fixes X :: "('sk, 'b, 'cert, 'v, 'r) x509_api"
  assumes "ed25519_laws D" and "der_laws R" and "x509_laws R X" and "keypair_ok D kp"
    and "generate_certificate_with_rng D R X kp validity rng = (rng', Ok (cert_der, key_der))"
  shows "verified_key D R X cert_der = Ok (keypair_public_key kp)"
proof -
  let ?k = "keypair_public_key kp"
  obtain sk spki signed_key serial b b' built where steps: "p256_public_key_der X sk = Ok spki"
    "encode_signed_key R (encode_protobuf ?k) (keypair_sign D kp (SIGNATURE_PREFIX @ spki)) = Ok signed_key"
    "x5_builder_new X SUBJECT serial validity spki = Ok b" "x5_add_extension X LIBP2P_EXTENSION_OID False signed_key b = Ok b'"
    "x5_build X sk b' = Ok built" "x5_to_der X built = Ok cert_der"
    using assms(5) assms(3) [unfolded x509_laws_def, THEN conjunct2]
    by (auto simp: generate_certificate_with_rng_def and_then_eq_Inr Let_def split: prod.splits)
  have "built_as R X spki LIBP2P_EXTENSION_OID signed_key cert_der"
    using assms(3) steps unfolding x509_laws_def by blast
  then obtain cert outer header contents rest n where cert:
    "x5_parse X cert_der = Ok cert" "x5_sig_alg X cert = ECDSA_SHA256_OID" "x5_tbs_sig_alg X cert = ECDSA_SHA256_OID"
    "x5_extensions X cert = Some [(LIBP2P_EXTENSION_OID, signed_key)]" "x5_spki X cert = Ok spki"
    "p256_key X (x5_key X cert)" "p256_sig X (x5_signature X cert)"
    "p256_verify X (x5_key X cert) (header @ contents) (x5_signature X cert)"
    and tbs: "extract_tbs_der R cert_der = Ok (header @ contents)"
    unfolding built_as_def using extract_tbs by blast
  note keys = keypair_sign_verifies(1,2) [OF assms(1,4), of "SIGNATURE_PREFIX @ spki"] keypair_sign_verifies(3) [OF assms(1,4)]
  have short: "length (encode_protobuf ?k) < 100"
    using keys(3) by (intro encode_protobuf_short) (simp add: keypair_public_key_def)
  then have "decode_signed_key R signed_key = Ok (encode_protobuf ?k, keypair_sign D kp (SIGNATURE_PREFIX @ spki))"
    using signed_key_roundtrip [OF assms(2), of "encode_protobuf ?k" "keypair_sign D kp (SIGNATURE_PREFIX @ spki)"] keys(2) steps(2) by auto
  moreover have "decode_protobuf (encode_protobuf ?k) = Ok ?k"
    using short by (intro decode_encode_protobuf) (simp add: vec_ok_def)
  moreover have "key_type ?k = Ed25519" by (simp add: keypair_public_key_def)
  moreover have "verify_host_signature D ?k (SIGNATURE_PREFIX @ spki) (keypair_sign D kp (SIGNATURE_PREFIX @ spki)) = Ok ()"
    using keys(1,2) by (simp add: verify_host_signature_def keypair_public_key_def)
  moreover have "verify_self_signature R X cert_der cert = Ok ()"
    using cert tbs by (simp add: verify_self_signature_def)
  ultimately show ?thesis
    using cert by (simp add: verified_key_def)
qed

section \<open>Base 64\<close>

lemma or_disjoint: "x AND y = 0 \<Longrightarrow> (x :: u32) OR y = x + y"
  by (metis add_0 word_plus_and_or)

lemma unat_triple:
  fixes b0 b1 b2 :: byte
  shows "unat (push_bit 16 (ucast b0) OR push_bit 8 (ucast b1) OR ucast b2 :: u32) = unat b0 * 65536 + unat b1 * 256 + unat b2"
proof -
  have b: "unat b0 < 256" "unat b1 < 256" "unat b2 < 256"
    using unsigned_less [where 'b = 8 and 'a = nat] by simp_all
  have small: "bit b n \<Longrightarrow> n < 8" for b :: byte and n
    using bit_imp_le_length by fastforce
  have "push_bit 16 (ucast b0) AND push_bit 8 (ucast b1) = (0 :: u32)" "(push_bit 16 (ucast b0) OR push_bit 8 (ucast b1)) AND ucast b2 = (0 :: u32)"
    using small by (fastforce intro!: bit_word_eqI simp: bit_simps)+
  then have "(push_bit 16 (ucast b0) OR push_bit 8 (ucast b1) OR ucast b2 :: u32) = push_bit 16 (ucast b0) + push_bit 8 (ucast b1) + ucast b2"
    by (simp add: or_disjoint flip: or.assoc)
  also have "\<dots> = word_of_nat (unat b0 * 65536 + unat b1 * 256 + unat b2)"
    by (simp add: push_bit_eq_mult)
  finally have sum: "(push_bit 16 (ucast b0) OR push_bit 8 (ucast b1) OR ucast b2 :: u32) = word_of_nat (unat b0 * 65536 + unat b1 * 256 + unat b2)" .
  show ?thesis
    unfolding sum unsigned_of_nat using b by (simp add: take_bit_nat_eq_self)
qed

lemma unat_digit: "unat (drop_bit n w AND 0x3f :: u32) = unat w div 2 ^ n mod 64"
proof -
  have "drop_bit n w AND 0x3f = take_bit 6 (drop_bit n w)"
    by (simp add: take_bit_eq_mask mask_eq_exp_minus_1)
  moreover have bound: "unat w < 2 ^ LENGTH(32)" by (rule unsigned_less)
  have "unat (take_bit 6 (drop_bit n w)) = take_bit 6 (drop_bit n (unat w))"
    using bound by (simp only: unsigned_take_bit_eq unsigned_drop_bit_eq) (simp add: take_bit_nat_eq_self)
  ultimately show ?thesis
    by (simp only: drop_bit_eq_div take_bit_eq_mod) simp
qed

text \<open>The reader of RFC 4648: four characters are three bytes, fewer when padded.\<close>

definition base64_value :: "byte \<Rightarrow> nat option" where
  "base64_value c = list_position (\<lambda>v. v = c) BASE64_ALPHABET"

fun base64_quad :: "nat \<Rightarrow> nat \<Rightarrow> nat \<Rightarrow> nat \<Rightarrow> bytes" where
  "base64_quad i j k l = [of_nat (i * 4 + j div 16), of_nat ((j mod 16) * 16 + k div 4), of_nat ((k mod 4) * 64 + l)]"

fun base64_decode :: "rstr \<Rightarrow> bytes option" where
  "base64_decode [] = Some []"
| "base64_decode (a # b # c # d # rest) =
     (case (base64_value a, base64_value b, base64_value c, base64_value d) of
        (Some i, Some j, Some k, Some l) \<Rightarrow> map_option (\<lambda>bs. base64_quad i j k l @ bs) (base64_decode rest)
      | (Some i, Some j, Some k, None) \<Rightarrow> if rest = [] \<and> d = 0x3d then Some (take 2 (base64_quad i j k 0)) else None
      | (Some i, Some j, None, None) \<Rightarrow> if rest = [] \<and> c = 0x3d \<and> d = 0x3d then Some (take 1 (base64_quad i j 0 0)) else None
      | _ \<Rightarrow> None)"
| "base64_decode _ = None"

lemma base64_alphabet: "distinct BASE64_ALPHABET" "length BASE64_ALPHABET = 64" "0x3d \<notin> set BASE64_ALPHABET" "ascii BASE64_ALPHABET"
  by (simp_all add: BASE64_ALPHABET_def lit_def ascii_def)

lemma base64_value_digit: "n < 64 \<Longrightarrow> base64_value (BASE64_ALPHABET ! n) = Some n"
  using list_position_distinct [OF base64_alphabet(1), of n] base64_alphabet(2) by (simp add: base64_value_def)

lemma base64_value_pad: "base64_value 0x3d = None"
  by code_simp

lemma base64_digit_eq: "base64_digit w shift = BASE64_ALPHABET ! (unat w div 2 ^ shift mod 64)"
  unfolding base64_digit_def unat_digit ..

lemma base64_chunk_digits:
  fixes b0 :: byte and b1 b2 :: "byte option"
  defines "n \<equiv> unat b0 * 65536 + unat (case b1 of None \<Rightarrow> 0 | Some b \<Rightarrow> b) * 256 + unat (case b2 of None \<Rightarrow> 0 | Some b \<Rightarrow> b)"
  shows "base64_chunk b0 b1 b2 =
    [BASE64_ALPHABET ! (n div 2 ^ 18 mod 64), BASE64_ALPHABET ! (n div 2 ^ 12 mod 64),
     (if b1 \<noteq> None then BASE64_ALPHABET ! (n div 2 ^ 6 mod 64) else 0x3d),
     (if b2 \<noteq> None then BASE64_ALPHABET ! (n mod 64) else 0x3d)]"
proof -
  have "push_bit 16 (ucast b0) OR push_bit 8 (case b1 of None \<Rightarrow> 0 | Some b \<Rightarrow> ucast b) OR (case b2 of None \<Rightarrow> 0 | Some b \<Rightarrow> ucast b) =
    (push_bit 16 (ucast b0) OR push_bit 8 (ucast (case b1 of None \<Rightarrow> 0 | Some b \<Rightarrow> b)) OR ucast (case b2 of None \<Rightarrow> 0 | Some b \<Rightarrow> b) :: u32)"
    by (cases b1; cases b2) simp_all
  then have "unat (push_bit 16 (ucast b0) OR push_bit 8 (case b1 of None \<Rightarrow> 0 | Some b \<Rightarrow> ucast b) OR
      (case b2 of None \<Rightarrow> 0 | Some b \<Rightarrow> ucast b) :: u32) = n"
    by (simp only: unat_triple n_def)
  note triple = this
  show ?thesis
    unfolding base64_chunk_def Let_def base64_digit_eq triple by simp
qed

text \<open>Reading the digits of three bytes back.\<close>

lemma quad_low: "t < 4 \<Longrightarrow> (w * 4 + t) mod 64 = 4 * (w mod 16) + t" for w t :: nat
  using mod_mult2_eq [of "w * 4 + t" 4 16] by simp

lemma quad_arith:
  fixes x y z :: nat
  assumes "x < 256" and "y < 256" and "z < 256"
  shows "(x * 256 + y) div 16 mod 64 = 16 * (x mod 4) + y div 16"
    and "((x * 256 + y) * 4 + z div 64) mod 64 = 4 * (y mod 16) + z div 64"
proof -
  have "(x * 256 + y) div 16 = x * 16 + y div 16" by simp
  moreover have "y div 16 < 16" using assms(2) by simp
  ultimately show "(x * 256 + y) div 16 mod 64 = 16 * (x mod 4) + y div 16"
    using mod_mult2_eq [of "x * 16 + y div 16" 16 4] by simp
  have "z div 64 < 4" using assms(3) by simp
  moreover have "(x * 256 + y) mod 16 = y mod 16"
    using mod_mult_self3 [of "x * 16" 16 y] by (simp add: ac_simps)
  ultimately show "((x * 256 + y) * 4 + z div 64) mod 64 = 4 * (y mod 16) + z div 64"
    using quad_low [of "z div 64" "x * 256 + y"] by (simp only:)
qed

lemma base64_quad_digits:
  fixes b0 b1 b2 :: byte
  defines "n \<equiv> unat b0 * 65536 + unat b1 * 256 + unat b2"
  shows "base64_quad (n div 2 ^ 18 mod 64) (n div 2 ^ 12 mod 64) (n div 2 ^ 6 mod 64) (n mod 64) = [b0, b1, b2]"
proof -
  have b: "unat b0 < 256" "unat b1 < 256" "unat b2 < 256"
    using unsigned_less [where 'b = 8 and 'a = nat] by simp_all
  have eq: "n = (unat b0 * 256 + unat b1) * 256 + unat b2"
    unfolding n_def by simp
  have "n mod 256 = unat b2"
    unfolding eq using b(3) by (simp only: mod_mult_self3 mod_less)
  moreover have "n div 65536 = unat b0" "n div 256 = unat b0 * 256 + unat b1"
    using b unfolding n_def by simp_all
  ultimately have n: "n div 65536 = unat b0" "n div 256 = unat b0 * 256 + unat b1" "n mod 256 = unat b2"
    by simp_all
  have "n div 2 ^ 18 = n div 65536 div 4" "n div 2 ^ 12 = n div 256 div 16" "n div 2 ^ 6 = n div 64" "n mod 64 = n mod 256 mod 64"
    by (simp_all add: div_mult2_eq [symmetric] mod_mod_cancel)
  note n' = this [unfolded n]
  have third: "n div 64 = (unat b0 * 256 + unat b1) * 4 + unat b2 div 64"
    unfolding n_def by simp
  have "unat b0 div 4 mod 64 * 4 + (unat b0 * 256 + unat b1) div 16 mod 64 div 16 = unat b0"
    "(unat b0 * 256 + unat b1) div 16 mod 64 mod 16 * 16 + ((unat b0 * 256 + unat b1) * 4 + unat b2 div 64) mod 64 div 4 = unat b1"
    "((unat b0 * 256 + unat b1) * 4 + unat b2 div 64) mod 64 mod 4 * 64 + unat b2 mod 64 = unat b2"
    unfolding quad_arith [OF b] using b by simp_all
  then have "n div 2 ^ 18 mod 64 * 4 + n div 2 ^ 12 mod 64 div 16 = unat b0"
    "n div 2 ^ 12 mod 64 mod 16 * 16 + n div 2 ^ 6 mod 64 div 4 = unat b1"
    "n div 2 ^ 6 mod 64 mod 4 * 64 + n mod 64 = unat b2"
    unfolding n' third by simp_all
  then show ?thesis by (simp del: of_nat_add of_nat_mult)
qed

lemma base64_roundtrip: "base64_decode (base64_encode bs) = Some bs"
proof (induction bs rule: base64_encode.induct)
  case (2 b0)
  then show ?case
    using base64_quad_digits [of b0 0 0] by (simp add: base64_chunk_digits base64_value_digit base64_value_pad)
next
  case (3 b0 b1)
  then show ?case
    using base64_quad_digits [of b0 b1 0] by (simp add: base64_chunk_digits base64_value_digit base64_value_pad)
next
  case (4 b0 b1 b2 rest)
  then show ?case
    using base64_quad_digits [of b0 b1 b2] by (simp add: base64_chunk_digits base64_value_digit del: base64_quad.simps)
qed simp

lemma base64_chars: "set (base64_encode bs) \<subseteq> insert 0x3d (set BASE64_ALPHABET)"
proof -
  have "BASE64_ALPHABET ! (n mod 64) \<in> set BASE64_ALPHABET" for n
    using base64_alphabet(2) by simp
  then have "set (base64_chunk b0 b1 b2) \<subseteq> insert 0x3d (set BASE64_ALPHABET)" for b0 b1 b2
    by (simp add: base64_chunk_digits)
  then show ?thesis
    by (induction bs rule: base64_encode.induct) simp_all
qed

lemma ascii_base64: "ascii (base64_encode bs)"
  using base64_chars [of bs] base64_alphabet(4) by (auto simp: ascii_def)

lemma pem_lines_split:
  "ascii s \<Longrightarrow> \<exists>lines. pem_lines s = concat (map (\<lambda>l. l @ [0x0a]) lines) \<and> concat lines = s \<and>
     list_all (\<lambda>l. 0 < length l \<and> length l \<le> 64) lines"
proof (induction s rule: pem_lines.induct)
  case (1 s)
  show ?case
  proof (cases "s = []")
    case True
    then show ?thesis by (intro exI [of _ "[]"]) (simp add: pem_lines.simps)
  next
    case False
    have parts: "ascii (take 64 s)" "ascii (drop 64 s)"
      using "1.prems" by (auto simp: ascii_def dest: in_set_takeD in_set_dropD)
    obtain lines where lines: "pem_lines (drop 64 s) = concat (map (\<lambda>l. l @ [0x0a]) lines)" "concat lines = drop 64 s"
      "list_all (\<lambda>l. 0 < length l \<and> length l \<le> 64) lines"
      using "1.IH" [OF False parts(2)] by blast
    have "from_utf8 (take 64 s) = Ok (take 64 s)"
      using utf8_ok_ascii [OF parts(1)] by (rule from_utf8_ok)
    then show ?thesis
      using lines False by (intro exI [of _ "take 64 s # lines"]) (simp add: pem_lines.simps [of s] del: from_utf8_eq_Ok)
  qed
qed

text \<open>
  The PEM text of a key or certificate reads back: between the header and the footer stand lines of 1 to
  64 characters, and the reader of RFC 4648 decodes what they make up to the bytes that were encoded.
\<close>

theorem manual_pem_roundtrip:
  "\<exists>lines. manual_pem label der =
       lit ''-----BEGIN '' @ lit label @ lit ''-----'' @ [0x0a] @ concat (map (\<lambda>l. l @ [0x0a]) lines) @
       lit ''-----END '' @ lit label @ lit ''-----'' @ [0x0a] \<and>
     list_all (\<lambda>l. 0 < length l \<and> length l \<le> 64) lines \<and> base64_decode (concat lines) = Some der"
  using pem_lines_split [OF ascii_base64, of der] base64_roundtrip [of der] unfolding manual_pem_def by auto

section \<open>Certificates\<close>

text \<open>Libraries to compute with, which satisfy the laws.\<close>

definition mini_ed :: "unit ed25519_api" where
  "mini_ed =
     \<lparr>ed_verifying_key = (\<lambda>secret. secret), ed_generate = (\<lambda>r. (r, replicate 32 7)),
      ed_sign = (\<lambda>_ msg. replicate 64 (of_nat (length msg))), ed_key_from_bytes = (\<lambda>_. True),
      ed_verify_strict = (\<lambda>_ msg sig. sig = replicate 64 (of_nat (length msg)))\<rparr>"

fun read_der_length :: "bytes \<Rightarrow> (nat \<times> bytes) option" where
  "read_der_length [] = None"
| "read_der_length (b # bs) =
     (if unat b < 128 then Some (unat b, bs)
      else if b = 0x81 then (case bs of [] \<Rightarrow> None | c # cs \<Rightarrow> Some (unat c, cs))
      else (case bs of c # d # ds \<Rightarrow> Some (unat c * 256 + unat d, ds) | _ \<Rightarrow> None))"

definition mini_der :: der_api where
  "mini_der =
     \<lparr>dr_new = (\<lambda>_. Ok ()), dr_header = (\<lambda>bs. case bs of [] \<Rightarrow> Err [] | b # rest \<Rightarrow> Ok (unat b, rest)),
      dr_sequence = (\<lambda>bs. case read_der_length (tl bs) of None \<Rightarrow> Err [] | Some (n, rest) \<Rightarrow> Ok (take n rest, drop n rest)),
      dr_octets = (\<lambda>bs. case bs of a # b # rest \<Rightarrow> Ok (take (unat a * 256 + unat b) rest, drop (unat a * 256 + unat b) rest) | _ \<Rightarrow> Err []),
      dr_finish = (\<lambda>bs. if bs = [] then Ok () else Err []), dr_octet_new = (\<lambda>_. Ok ()),
      dr_octet_len = (\<lambda>bs. Ok (length bs + 2)), dr_len_add = (\<lambda>a b. Ok (a + b)),
      dr_octet_encode = (\<lambda>bs. of_nat (length bs div 256) # of_nat (length bs mod 256) # bs), dr_overlength = []\<rparr>"

definition mini_x509 :: "(unit, bytes, bytes, unit, unit) x509_api" where
  "mini_x509 =
     \<lparr>x5_parse = (\<lambda>der. Ok (drop 2 der)), x5_sig_alg = (\<lambda>_. ECDSA_SHA256_OID), x5_tbs_sig_alg = (\<lambda>_. ECDSA_SHA256_OID),
      x5_extensions = (\<lambda>cert. Some [(LIBP2P_EXTENSION_OID, cert)]), x5_spki = (\<lambda>_. Ok [5]), x5_key = (\<lambda>_. []),
      x5_signature = (\<lambda>_. []), p256_key = (\<lambda>_. True), p256_sig = (\<lambda>_. True), p256_verify = (\<lambda>_ _ _. True),
      p256_generate = (\<lambda>r. (r, ())), p256_public_key_der = (\<lambda>_. Ok [5]), p256_spki_owned = (\<lambda>_. Ok [5]),
      p256_pkcs8 = (\<lambda>_. Ok [6]), x5_serial = (\<lambda>bs. Ok bs), x5_builder_new = (\<lambda>_ _ _ _. Ok []),
      x5_add_extension = (\<lambda>oid _ ext _. if oid = LIBP2P_EXTENSION_OID then Ok ext else Err []),
      x5_build = (\<lambda>_ b. Ok b), x5_to_der = (\<lambda>cert. Ok (0 # 0 # cert)), x5_to_pem = (\<lambda>_. Err []),
      x5_validity_from_now = (\<lambda>_. Ok ())\<rparr>"

lemma unat_of_nat_byte: "n < 256 \<Longrightarrow> unat (of_nat n :: byte) = n"
  by (simp add: unsigned_of_nat take_bit_nat_eq_self)

lemma mini_ed_laws: "ed25519_laws mini_ed"
  by (simp add: ed25519_laws_def mini_ed_def ED25519_SECRET_KEY_LENGTH_def ED25519_PUBLIC_KEY_LENGTH_def ED25519_SIGNATURE_LENGTH_def)

lemma read_der_length: "n < 2 ^ 16 \<Longrightarrow> read_der_length (der_length n @ rest) = Some (n, rest)"
  by (auto simp: der_length_def unat_of_nat_byte)

lemma mini_der_laws: "der_laws mini_der"
proof -
  have "dr_sequence mini_der (0x30 # der_length (length contents) @ contents @ rest) = Ok (contents, rest)"
    if "length contents < 2 ^ 16" for contents rest
    using read_der_length [OF that, of "contents @ rest"] by (simp add: mini_der_def)
  moreover have "dr_octets mini_der (dr_octet_encode mini_der bs @ rest) = Ok (bs, rest)" if "length bs < 2 ^ 15" for bs rest
    using that by (simp add: mini_der_def unat_of_nat_byte)
  ultimately show ?thesis
    unfolding der_laws_def by (auto simp: mini_der_def)
qed

lemma mini_x509_laws: "x509_laws mini_der mini_x509"
proof -
  have "built_as mini_der mini_x509 [5] LIBP2P_EXTENSION_OID ext (0 # 0 # ext)" for ext
    unfolding built_as_def
    by (intro exI [of _ ext] conjI exI [of _ "[0]"] exI [of _ "[]"] exI [of _ 0]) (simp_all add: mini_x509_def mini_der_def)
  then show ?thesis
    by (auto simp: x509_laws_def mini_x509_def split: if_splits)
qed

text \<open>
  C20. A certificate made for a key pair verifies, and to the peer id of that key pair: whatever the random
  source gives, whenever generation succeeds.  Generation and verification agree on the signed message, on
  the DER of the extension, on the protobuf of the key and on where the signed part of the certificate lies.
\<close>

theorem tls_certificate_roundtrip:
  assumes "multihash_laws M" and "\<forall>x. length (sha256 x) = 32" and "ed25519_laws D" and "der_laws R" and "x509_laws R X"
    and "keypair_ok D kp"
    and "generate_certificate_with_rng D R X kp validity rng = (rng', Ok (cert_der, key_der))"
  shows "\<exists>p. verify_libp2p_certificate M sha256 D R X cert_der = Some (Ok p) \<and> keypair_peer_id M sha256 kp = Some p"
proof -
  obtain p where "from_public_key M sha256 (keypair_public_key kp) = Some p"
    using from_public_key_Some [of M sha256] assms(1,2) by metis
  then show ?thesis
    using generated_key [OF assms(3-7)] by (simp add: verify_libp2p_certificate_def keypair_peer_id_def)
qed

theorem tls_certificate_roundtrip_witness:
  "\<exists>cert_der key_der p.
     generate_certificate_with_rng mini_ed mini_der mini_x509 (from_secret_key_bytes mini_ed (replicate 32 7)) () () =
       ((), Ok (cert_der, key_der)) \<and>
     verify_libp2p_certificate mh64_api (\<lambda>x. replicate 32 (of_nat (length x))) mini_ed mini_der mini_x509 cert_der = Some (Ok p)"
proof -
  let ?kp = "from_secret_key_bytes mini_ed (replicate 32 7)"
  have kp: "keypair_ok mini_ed ?kp"
    by (intro keypair_ok_from_secret) (simp add: ED25519_SECRET_KEY_LENGTH_def)
  obtain cert_der key_der where run:
    "generate_certificate_with_rng mini_ed mini_der mini_x509 ?kp () () = ((), Ok (cert_der, key_der))"
    by (simp add: generate_certificate_with_rng_def mini_x509_def mini_der_def encode_signed_key_def Let_def)
  show ?thesis
    using tls_certificate_roundtrip [OF mh64_laws _ mini_ed_laws mini_der_laws mini_x509_laws kp run,
        of "\<lambda>x. replicate 32 (of_nat (length x))"] run by auto
qed

end
