(* ===== verification/FacadeProps.thy ===== *)
theory FacadeProps
  imports Facade QuicCalm TlsProps
begin

text \<open>
  What an application gets: no call of an endpoint panics, an endpoint is known by the peer id of its key
  pair, and the peers it reports have proved theirs.
\<close>

section \<open>The operations of an endpoint\<close>

definition facade_ok ::
  "'mh::linorder multihash_api \<Rightarrow> (bytes \<Rightarrow> bytes) \<Rightarrow> identify_config \<Rightarrow> ping_config \<Rightarrow> ('q, 's, 'mh) quic_env \<Rightarrow>
     ('q, 's, 'mh) endpoint \<Rightarrow> bool" where
  "facade_ok M H ic pc E d \<longleftrightarrow> safe_driver M H ic pc (endpoint_calm E) endpoint_fresh (proven E) d"

lemma fold_on_dialed: "fold on_dialed ids s = s"
  by (induction ids arbitrary: s) (simp_all add: on_dialed_def)

lemma rand_ping_payload_length: "length (rand_ping_payload None seed) = PING_PAYLOAD_LEN"
  by (simp add: rand_ping_payload_def)

context quic_laws
begin

lemma facade_dial_ok:
  assumes "facade_ok M H ic pc E d"
  shows "facade_ok M H ic pc E (fst (facade_dial E addr d))" and "facade_ok M H ic pc E (fst (facade_dial_ip4 E addr d))"
    and "facade_ok M H ic pc E (fst (facade_dial_ip6 E addr d))"
proof -
  have one: "facade_ok M H ic pc E (d\<lparr>dv_transport := t\<rparr>)"
    if "calm (endpoint_calm E) endpoint_fresh m" and "m (dv_transport d) = (t, r)"
    for m :: "('q, 's, 'mh) quic_endpoint \<Rightarrow> ('q, 's, 'mh) quic_endpoint \<times> 'r" and t r
    using safe_driver_call [OF assms [unfolded facade_ok_def] that(1)] that(2) by (simp add: facade_ok_def)
  show "facade_ok M H ic pc E (fst (facade_dial E addr d))" "facade_ok M H ic pc E (fst (facade_dial_ip4 E addr d))"
    "facade_ok M H ic pc E (fst (facade_dial_ip6 E addr d))"
    using one [OF dials_calm(1)] one [OF dials_calm(2)] one [OF dials_calm(3)]
    by (auto simp: facade_dial_def facade_dial_ip4_def facade_dial_ip6_def facade_dial_one_def on_dialed_def fold_on_dialed
        split: prod.split sum.split)
qed

lemma facade_listen_ok:
  assumes "facade_ok M H ic pc E d"
  shows "facade_ok M H ic pc E (fst (facade_listen M E d))" and "facade_ok M H ic pc E (fst (facade_listen_all M E d))"
  using quic.listen_bound_safe [OF assms [unfolded facade_ok_def]]
  by (simp_all add: facade_ok_def facade_listen_def facade_listen_all_def)

lemma facade_ping_ok:
  assumes "facade_ok M H ic pc E d" and "\<forall>payload. entropy = Some payload \<longrightarrow> length payload = PING_PAYLOAD_LEN"
  shows "\<exists>d' res. facade_ping M H E clk entropy seed p d = Some (d', res) \<and> facade_ok M H ic pc E d'"
proof -
  have "request_ok (RqPing p (rand_ping_payload entropy seed) now_ms)" for now_ms
    using assms(2) rand_ping_payload_length by (cases entropy) (simp_all add: rand_ping_payload_def)
  then show ?thesis
    using quic.request_safe [of M H ic pc "d\<lparr>dv_readings := dv_readings d + 1\<rparr>"] assms(1)
    by (simp add: facade_ok_def facade_ping_def driver_ping_def driver_now_def)
qed

lemma facade_poll_ok:
  "facade_ok M H ic pc E d \<Longrightarrow> \<exists>d' res. facade_poll M H E clk d = Some (d', res) \<and> facade_ok M H ic pc E d'"
  using quic.poll_safe unfolding facade_ok_def facade_poll_def by blast

lemma facade_request_ok:
  assumes "facade_ok M H ic pc E d" and "request_ok req"
  shows "\<exists>d' res. driver_request M H (quic_endpoint_transport M E) clk req d = Some (d', res) \<and> facade_ok M H ic pc E d'"
  using assms quic.request_safe unfolding facade_ok_def by blast

lemma facade_open_ok:
  assumes "facade_ok M H ic pc E d"
  shows "\<exists>d' res. driver_open_user_stream M H (quic_endpoint_transport M E) clk p pid d = Some (d', res) \<and>
    facade_ok M H ic pc E d'"
  using assms quic.open_user_stream_safe unfolding facade_ok_def by blast

lemma facade_next_ok:
  assumes "facade_ok M H ic pc E d" and "\<exists>N. \<forall>m \<ge> N. late m"
  shows "\<exists>d' res. next_event M H E clk late d = Some (d', res) \<and> facade_ok M H ic pc E d'"
  using assms quic.poll_next_waits unfolding facade_ok_def next_event_def by blast

lemma facade_wait_ok:
  assumes "facade_ok M H ic pc E d" and "wait_for M H E clk late wanted d = Some (d', res)"
  shows "facade_ok M H ic pc E d'"
  using assms quic.run_until_safe [OF assms(1) [unfolded facade_ok_def]]
  by (auto simp: facade_ok_def wait_for_def)

end

lemma facade_ok_new: "crypto_laws M H \<Longrightarrow> facade_ok M H ic pc E (driver_new (Single (quic_transport_new k p)) ic pc p)"
  unfolding facade_ok_def by (intro safe_driver_new) (simp_all add: transport_calm_new)


text \<open>A new endpoint over the small QUIC, with the certificates of \<open>tls\<close> and a datagram waiting.\<close>

definition demo_tls_env :: "(mini_quic, mini_os, mh64) quic_env" where
  "demo_tls_env = tls_env mh64_api demo_crypto mini_ed mini_der mini_x509 (mini_quic_env (\<lambda>_. Err []))"

definition demo_endpoint :: "(mini_quic, mini_os, mh64) endpoint" where
  "demo_endpoint = driver_new (Single (quic_transport_new \<lparr>mo_inbox = [([0], mini_addr)], mo_broken = False\<rparr> demo_peer))
     demo_identify \<lparr>request_timeout_ms = 1000\<rparr> demo_peer"

lemma tls_env_mini:
  "tls_env M H D R X (mini_quic_env verify) =
     mini_quic_env (\<lambda>cert. map_err show_tls_error (the (verify_libp2p_certificate M H D R X cert)))"
  by (simp add: tls_env_def mini_quic_env_def)

lemmas demo_tls_laws = mini_quic_laws [where verify = "\<lambda>cert. map_err show_tls_error
    (the (verify_libp2p_certificate mh64_api demo_crypto mini_ed mini_der mini_x509 cert))", folded tls_env_mini [where verify = "\<lambda>_. Err []"]]
  mini_quic.handshake [where verify = "\<lambda>cert. map_err show_tls_error
    (the (verify_libp2p_certificate mh64_api demo_crypto mini_ed mini_der mini_x509 cert))", folded tls_env_mini [where verify = "\<lambda>_. Err []"]]

interpretation demo_quic: quic_laws demo_tls_env mq_packets "\<lambda>_. 0" "\<lambda>k. length (mo_inbox k)" mq_sent
  unfolding demo_tls_env_def by unfold_locales (rule demo_tls_laws)+


section \<open>The peers of an endpoint\<close>

text \<open>A peer id that the libp2p extension of a certificate proves.\<close>

definition signed_by ::
  "'mh multihash_api \<Rightarrow> (bytes \<Rightarrow> bytes) \<Rightarrow> 'd ed25519_api \<Rightarrow> der_api \<Rightarrow> ('sk, 'b, 'cert, 'v, 'r) x509_api \<Rightarrow> bytes \<Rightarrow>
     'mh peer_id \<Rightarrow> bool" where
  "signed_by M H D R X cert_der p \<longleftrightarrow>
     (\<exists>cert value key_bytes signature spki k.
        x5_parse X cert_der = Ok cert \<and> x5_spki X cert = Ok spki \<and>
        (LIBP2P_EXTENSION_OID, value) \<in> set (the (x5_extensions X cert)) \<and>
        decode_signed_key R value = Ok (key_bytes, signature) \<and> decode_protobuf key_bytes = Ok k \<and> key_type k = Ed25519 \<and>
        ed_verify_strict D (key_data k) (SIGNATURE_PREFIX @ spki) signature \<and> from_public_key M H k = Some p)"

lemma proven_tls:
  assumes "crypto_laws M H" and "proven (tls_env M H D R X E) p"
  shows "\<exists>q cert_der. q_peer_cert E q = Some cert_der \<and> signed_by M H D R X cert_der p"
proof -
  obtain q cert_der where cert: "q_peer_cert E q = Some cert_der"
    "map_err show_tls_error (the (verify_libp2p_certificate M H D R X cert_der)) = Ok p"
    using assms(2) by (auto simp: proven_def tls_env_def)
  have total: "\<exists>p'. from_public_key M H k = Some p'" for k
    using assms(1) from_public_key_Some [of M H k] unfolding crypto_laws_def by metis
  obtain k where k: "verified_key D R X cert_der = Ok k"
    using cert(2) by (cases "verified_key D R X cert_der") (simp_all add: verify_libp2p_certificate_def)
  then have p: "from_public_key M H k = Some p"
    using cert(2) total [of k] by (auto simp: verify_libp2p_certificate_def)
  show ?thesis
    using cert(1) verified_key_sound [OF k] p unfolding signed_by_def by blast
qed



section \<open>Binding\<close>

text \<open>
  An endpoint as it is after binding: new, with the transport \<open>t\<close>, known by the peer id of the key pair, which
  it announces in Identify with the agent version.
\<close>

definition freshly_bound ::
  "'mh multihash_api \<Rightarrow> (bytes \<Rightarrow> bytes) \<Rightarrow> ed25519_keypair \<Rightarrow> rstr \<Rightarrow> ('q, 's, 'mh) quic_endpoint \<Rightarrow> 'mh peer_id \<Rightarrow>
     ('q, 's, 'mh) endpoint \<Rightarrow> bool" where
  "freshly_bound M H kp agent t p d \<longleftrightarrow>
     keypair_peer_id M H kp = Some p \<and> facade_peer_id d = p \<and>
     d = driver_new t \<lparr>ic_protocol_version = DEFAULT_PROTOCOL_VERSION, ic_agent_version = agent,
           ic_protocols = [IDENTIFY_PROTOCOL_ID, PING_PROTOCOL_ID], ic_public_key = encode_protobuf (keypair_public_key kp)\<rparr>
         \<lparr>request_timeout_ms = 10000\<rparr> p"

text \<open>A context of TLS that holds a certificate which others verify to the peer id.\<close>

definition presents ::
  "'mh multihash_api \<Rightarrow> (bytes \<Rightarrow> bytes) \<Rightarrow> 'd ed25519_api \<Rightarrow> der_api \<Rightarrow> ('sk, 'b, 'cert, 'v, 'r) x509_api \<Rightarrow>
     ('s, 'c, 'x, 'p, 'k) bind_env \<Rightarrow> 'mh peer_id \<Rightarrow> bool" where
  "presents M H D R X B p \<longleftrightarrow>
     (\<exists>cert_der key_der ctx. verify_libp2p_certificate M H D R X cert_der = Some (Ok p) \<and>
        ssl_context B = Ok ctx \<and> load_certificate B cert_der key_der (ssl_accept_any_peer_cert B ctx) \<in> range Inr)"

definition identity_laws ::
  "'mh multihash_api \<Rightarrow> (bytes \<Rightarrow> bytes) \<Rightarrow> 'd ed25519_api \<Rightarrow> der_api \<Rightarrow> ('sk, 'b, 'cert, 'v, 'r) x509_api \<Rightarrow> bool" where
  "identity_laws M H D R X \<longleftrightarrow> crypto_laws M H \<and> ed25519_laws D \<and> der_laws R \<and> x509_laws R X"

lemma keypair_peer_id_Some:
  assumes "crypto_laws M H"
  obtains p where "keypair_peer_id M H kp = Some p"
  using assms from_public_key_Some [of M H "keypair_public_key kp"] unfolding crypto_laws_def keypair_peer_id_def by metis

lemma build_quiche_config_presents:
  assumes "identity_laws M H D R X" and "keypair_ok D (nc_keypair config)"
    and "build_quiche_config D R X B config rng = (rng', Ok qc)" and "node_config_peer_id M H config = Some p"
  shows "presents M H D R X B p"
proof -
  obtain ctx rng'' cert_der key_der ctx' where steps: "ssl_context B = Ok ctx"
    "generate_certificate D R X (nc_keypair config) rng = (rng'', Ok (cert_der, key_der))"
    "load_certificate B cert_der key_der (ssl_accept_any_peer_cert B ctx) = Ok ctx'"
    using assms(3) by (auto simp: build_quiche_config_def and_then_eq_Inr split: sum.splits prod.splits)
  then obtain validity where "generate_certificate_with_rng D R X (nc_keypair config) validity rng = (rng'', Ok (cert_der, key_der))"
    by (auto simp: generate_certificate_def split: sum.splits)
  then have "verified_key D R X cert_der = Ok (keypair_public_key (nc_keypair config))"
    using generated_key [of D R X] assms(1,2) unfolding identity_laws_def by blast
  then have "verify_libp2p_certificate M H D R X cert_der = Some (Ok p)"
    using assms(4) by (simp add: verify_libp2p_certificate_def node_config_peer_id_def keypair_peer_id_def)
  then show ?thesis
    using steps unfolding presents_def by blast
qed

lemma quic_new_returns:
  assumes "identity_laws M H D R X" and "keypair_ok D (nc_keypair config)" and "node_config_peer_id M H config = Some p"
  shows "\<exists>rng' res. quic_new M H D R X B config bind_addr rng = Some (rng', res) \<and>
    (case res of Inl e \<Rightarrow> True | Inr (qc, t) \<Rightarrow> (\<exists>socket. t = quic_transport_new socket p) \<and> presents M H D R X B p)"
proof -
  obtain rng' r where run: "build_quiche_config D R X B config rng = (rng', r)" by force
  have "presents M H D R X B p" if "r = Ok qc" for qc
    by (rule build_quiche_config_presents [OF assms(1,2) run [unfolded that] assms(3)])
  then show ?thesis
    using assms(3) run by (cases r) (auto simp: quic_new_def split: sum.split)
qed

text \<open>What the three calls that make a transport return.\<close>

definition makes_transport ::
  "'mh multihash_api \<Rightarrow> (bytes \<Rightarrow> bytes) \<Rightarrow> 'd ed25519_api \<Rightarrow> der_api \<Rightarrow> ('sk, 'b, 'cert, 'v, 'r) x509_api \<Rightarrow>
     ('s, 'c, 'x, 'p, 'k) bind_env \<Rightarrow> (('q, 's, 'mh) quic_endpoint \<Rightarrow> 'mh peer_id \<Rightarrow> bool) \<Rightarrow>
     (quic_node_config \<Rightarrow> 'r \<Rightarrow> ('r \<times> (transport_error + ('q, 's, 'mh) quic_endpoint)) option) \<Rightarrow> bool" where
  "makes_transport M H D R X B fresh mk \<longleftrightarrow>
     (\<forall>config rng p. keypair_ok D (nc_keypair config) \<longrightarrow> node_config_peer_id M H config = Some p \<longrightarrow>
        (\<exists>rng' res. mk config rng = Some (rng', res) \<and>
           (case res of Inl e \<Rightarrow> True | Inr t \<Rightarrow> fresh t p \<and> presents M H D R X B p)))"

definition one_socket :: "('q, 's, 'mh) quic_endpoint \<Rightarrow> 'mh peer_id \<Rightarrow> bool" where
  "one_socket t p \<longleftrightarrow> (\<exists>socket. t = Single (quic_transport_new socket p))"

definition two_sockets :: "('q, 's, 'mh) quic_endpoint \<Rightarrow> 'mh peer_id \<Rightarrow> bool" where
  "two_sockets t p \<longleftrightarrow> (\<exists>ipv4 ipv6. t = Dual \<lparr>dq_ipv4 = quic_transport_new ipv4 p, dq_ipv6 = quic_transport_new ipv6 p\<rparr>)"

lemma qe_bind_makes:
  assumes "identity_laws M H D R X"
  shows "makes_transport M H D R X B (one_socket :: ('q, 's, 'mh) quic_endpoint \<Rightarrow> _) (\<lambda>config. qe_bind M H D R X B config bind_addr)"
  unfolding makes_transport_def
proof (intro allI impI)
  fix config :: quic_node_config and rng p
  assume ok: "keypair_ok D (nc_keypair config)" "node_config_peer_id M H config = Some p"
  from quic_new_returns [OF assms ok] obtain rng' and res :: "_ + _ \<times> ('q, 's, 'mh) quic_transport" where
    "quic_new M H D R X B config bind_addr rng = Some (rng', res)"
    "case res of Inl e \<Rightarrow> True | Inr (qc, t) \<Rightarrow> (\<exists>socket. t = quic_transport_new socket p) \<and> presents M H D R X B p" by blast
  then show "\<exists>rng' res. qe_bind M H D R X B config bind_addr rng = Some (rng', res) \<and>
      (case res of Inl e \<Rightarrow> True | Inr t \<Rightarrow> one_socket (t :: ('q, 's, 'mh) quic_endpoint) p \<and> presents M H D R X B p)"
    by (cases res) (auto simp: qe_bind_def one_socket_def)
qed

lemma qe_bind_multiaddr_makes:
  assumes "identity_laws M H D R X"
  shows "makes_transport M H D R X B one_socket (\<lambda>config. qe_bind_multiaddr M H D R X B config addr)"
  using qe_bind_makes [OF assms] unfolding makes_transport_def qe_bind_multiaddr_def
  by (cases "extract_listen_socket_addr addr (lit ''bind address'')") simp_all

lemma qe_dual_stack_makes:
  assumes "identity_laws M H D R X"
  shows "makes_transport M H D R X B (two_sockets :: ('q, 's, 'mh) quic_endpoint \<Rightarrow> _) (qe_dual_stack M H D R X B)"
  unfolding makes_transport_def
proof (intro allI impI)
  fix config :: quic_node_config and rng p
  assume ok: "keypair_ok D (nc_keypair config)" "node_config_peer_id M H config = Some p"
  from quic_new_returns [OF assms ok] obtain rng1 and res1 :: "_ + _ \<times> ('q, 's, 'mh) quic_transport" where new1:
    "quic_new M H D R X B config DEFAULT_IPV4_BIND rng = Some (rng1, res1)"
    "case res1 of Inl e \<Rightarrow> True | Inr (qc, t) \<Rightarrow> (\<exists>socket. t = quic_transport_new socket p) \<and> presents M H D R X B p" by blast
  from quic_new_returns [OF assms ok] obtain rng2 and res2 :: "_ + _ \<times> ('q, 's, 'mh) quic_transport" where new2:
    "quic_new M H D R X B config DEFAULT_IPV6_BIND rng1 = Some (rng2, res2)"
    "case res2 of Inl e \<Rightarrow> True | Inr (qc, t) \<Rightarrow> (\<exists>socket. t = quic_transport_new socket p) \<and> presents M H D R X B p" by blast
  show "\<exists>rng' res. qe_dual_stack M H D R X B config rng = Some (rng', res) \<and>
      (case res of Inl e \<Rightarrow> True | Inr t \<Rightarrow> two_sockets (t :: ('q, 's, 'mh) quic_endpoint) p \<and> presents M H D R X B p)"
    using new1 new2 by (cases res1; cases res2) (auto simp: qe_dual_stack_def dual_new_def two_sockets_def)
qed

text \<open>What binding returns: an error, or an endpoint of the key pair that was given or generated.\<close>

definition binds ::
  "'mh multihash_api \<Rightarrow> (bytes \<Rightarrow> bytes) \<Rightarrow> 'd ed25519_api \<Rightarrow> der_api \<Rightarrow> ('sk, 'b, 'cert, 'v, 'r) x509_api \<Rightarrow>
     ('s, 'c, 'x, 'p, 'k) bind_env \<Rightarrow> (('q, 's, 'mh) quic_endpoint \<Rightarrow> 'mh peer_id \<Rightarrow> bool) \<Rightarrow> endpoint_builder \<Rightarrow>
     (('d \<times> 'r) \<times> (transport_error + ('q, 's, 'mh) endpoint)) option \<Rightarrow> bool" where
  "binds M H D R X B fresh b result \<longleftrightarrow>
     (\<exists>rngs' res. result = Some (rngs', res) \<and>
        (\<forall>d. res = Ok d \<longrightarrow> (\<exists>kp t p. pred_option (\<lambda>given. given = kp) (eb_keypair b) \<and> keypair_ok D kp \<and> fresh t p \<and>
           freshly_bound M H kp (eb_agent_version b) t p d \<and> presents M H D R X B p)))"

lemma bind_with_binds:
  assumes "identity_laws M H D R X" and "makes_transport M H D R X B fresh mk" and "pred_option (keypair_ok D) (eb_keypair b)"
  shows "binds M H D R X B fresh b (bind_with M H D mk b rngs)"
proof -
  obtain rng kp agent where parts: "into_parts D (fst rngs) b = (rng, kp, agent)" by (rule prod_cases3)
  have kp: "keypair_ok D kp" "agent = eb_agent_version b" "pred_option (\<lambda>given. given = kp) (eb_keypair b)"
    using assms(1,3) parts keypair_ok_generate [of D "fst rngs"]
    by (auto simp: into_parts_def identity_laws_def split: option.splits prod.splits)
  obtain p where p: "keypair_peer_id M H kp = Some p"
    using keypair_peer_id_Some assms(1) unfolding identity_laws_def by blast
  obtain rng' res where mk: "mk (node_config_new kp) (snd rngs) = Some (rng', res)"
    "case res of Inl e \<Rightarrow> True | Inr t \<Rightarrow> fresh t p \<and> presents M H D R X B p"
    using assms(2) [unfolded makes_transport_def, rule_format, of "node_config_new kp" p "snd rngs"] kp(1) p
    by (auto simp: node_config_new_def node_config_peer_id_def)
  show ?thesis
  proof (cases res)
    case (Inl e)
    then show ?thesis using parts mk(1) by (simp add: bind_with_def binds_def)
  next
    case (Inr t)
    then have made: "fresh t p" "presents M H D R X B p" using mk(2) by simp_all
    obtain d where d: "build_endpoint M H kp agent t = Some d" "freshly_bound M H kp agent t p d"
      using p by (simp add: build_endpoint_def builder_new_def keypair_peer_id_def keypair_public_key_def freshly_bound_def
          builder_build_def builder_agent_version_def into_identify_config_def facade_peer_id_def driver_new_def)
    then have "bind_with M H D mk b rngs = Some ((rng, rng'), Ok d)"
      using parts mk(1) Inr by (simp add: bind_with_def)
    then show ?thesis using kp made d unfolding binds_def by blast
  qed
qed


text \<open>A TLS library that takes every certificate, and sockets that always bind.\<close>

definition mini_bind :: "(mini_os, unit, unit, unit, unit) bind_env" where
  "mini_bind =
     \<lparr>os_bind = (\<lambda>_. Ok \<lparr>mo_inbox = [], mo_broken = False\<rparr>), os_set_nonblocking = Ok, ssl_context = Ok (),
      ssl_accept_any_peer_cert = (\<lambda>c. c), ssl_x509 = (\<lambda>_. Ok ()), ssl_set_certificate = (\<lambda>_. Ok), ssl_private_key = (\<lambda>_. Ok ()),
      ssl_set_private_key = (\<lambda>_. Ok), ssl_check_private_key = (\<lambda>_. Ok ()), q_config = (\<lambda>_. Ok ()),
      q_set_application_protos = (\<lambda>_. Ok), q_set_limits = (\<lambda>_ k. k)\<rparr>"

lemma demo_identity_laws: "identity_laws mh64_api demo_crypto mini_ed mini_der mini_x509"
  by (simp add: identity_laws_def demo_crypto_laws mini_ed_laws mini_der_laws mini_x509_laws)


end
