(* ===== verification/Cli.thy ===== *)
theory Cli
  imports MultiaddrText Swarm
begin

text \<open>
  The command line of the example program, \<open>examples/peer/src/cli.rs\<close>: the hand-written parser of its
  arguments and the lines it prints for events.  A \<open>PathBuf\<close> is the string it was made from, a \<open>CliError\<close> its
  message.
\<close>

section \<open>Modes\<close>

record 'mh run_options =
  ro_key_path :: "rstr option"
  ro_listen_addr :: "'mh multiaddr option"
  ro_external_addrs :: "'mh multiaddr list"
  ro_autonat :: "'mh peer_addr option"

definition run_options_default :: "'mh run_options" where
  "run_options_default = \<lparr>ro_key_path = None, ro_listen_addr = None, ro_external_addrs = [], ro_autonat = None\<rparr>"

datatype 'mh mode =
    DirectListen "'mh run_options"
  | DirectDial "'mh peer_addr" "'mh run_options"
  | RelayListen "'mh peer_addr" "'mh run_options"
  | RelayDial "'mh peer_addr" "'mh peer_id" "'mh run_options"
  | AutoNatServer "'mh run_options"

definition newline :: rstr where
  "newline = [0x0a]"

definition usage :: rstr where
  "usage = concat (map (\<lambda>line. lit line @ newline)
     [''minip2p-peer -- demo CLI for the full minip2p stack.'',
      '''',
      ''USAGE:'',
      ''    minip2p-peer listen [--key <path>] [--listen <quic-multiaddr>]'',
      ''    minip2p-peer dial   <peer-addr> [--key <path>] [--listen <quic-multiaddr>]'',
      ''    minip2p-peer autonat [--key <path>] [--listen <quic-multiaddr>]'',
      ''    minip2p-peer listen --relay <relay-peer-addr> [--autonat <peer-addr>] [--key <path>] [--listen <quic-multiaddr>] [--external-addr <quic-multiaddr>]...'',
      ''    minip2p-peer dial   --relay <relay-peer-addr> --target <peer-id> [--autonat <peer-addr>] [--key <path>] [--listen <quic-multiaddr>] [--external-addr <quic-multiaddr>]...'',
      '''',
      ''NOTES:'',
      ''    <peer-addr>        full libp2p-style address ending in /p2p/<peer-id>'',
      ''                       (e.g. /ip4/127.0.0.1/udp/4001/quic-v1/p2p/12D3...)'',
      ''    <relay-peer-addr>  same format, pointing at the relay server'',
      ''    <peer-id>          bare libp2p PeerId (12D3... or Qm...)'',
      ''    --key              persistent Ed25519 raw-secret file (hex)'',
      ''    --listen           bind multiaddr; default is 127.0.0.1:0'',
      ''    --external-addr    repeatable relay-mode DCUtR candidate'',
      ''    --autonat          relay-mode public AutoNAT service for dialability checks'',
      '''']) @ lit ''    See examples/peer/README.md for full usage examples.''"

section \<open>Flags\<close>

record 'mh cli_flags =
  cf_relay :: "'mh peer_addr option"
  cf_target :: "'mh peer_id option"
  cf_options :: "'mh run_options"

definition has_relay_mode_only_flags :: "'mh run_options \<Rightarrow> bool" where
  "has_relay_mode_only_flags opts \<longleftrightarrow> ro_external_addrs opts \<noteq> [] \<or> ro_autonat opts \<noteq> None"

definition parse_quic_multiaddr :: "'mh multihash_api \<Rightarrow> rstr \<Rightarrow> rstr \<Rightarrow> rstr + 'mh multiaddr" where
  "parse_quic_multiaddr M flag raw =
     and_then (map_err (\<lambda>e. lit ''invalid '' @ flag @ lit '' '' @ quoted raw @ lit '': '' @ show_multiaddr_error e)
       (parse_multiaddr M raw)) (\<lambda>addr.
     if \<not> is_quic_transport addr
     then Err (flag @ lit '' must be /ip4|ip6|dns|dns4|dns6/<host>/udp/<port>/quic-v1, got '' @ quoted raw)
     else Ok addr)"

fun is_ip_host :: "'mh protocol list \<Rightarrow> bool" where
  "is_ip_host (Ip4 _ # _) = True"
| "is_ip_host (Ip6 _ # _) = True"
| "is_ip_host _ = False"

text \<open>One flag with its value; each flag but \<open>--external-addr\<close> may occur once.\<close>

definition once :: "string \<Rightarrow> 'a option \<Rightarrow> rstr + unit" where
  "once flag previous = (case previous of None \<Rightarrow> Ok () | Some _ \<Rightarrow> Err (lit flag @ lit '' specified twice''))"

definition set_flag :: "'mh multihash_api \<Rightarrow> rstr \<Rightarrow> rstr \<Rightarrow> 'mh cli_flags \<Rightarrow> rstr + 'mh cli_flags" where
  "set_flag M key raw f =
     (let opts = cf_options f
      in if key = lit ''--relay''
         then and_then (once ''--relay'' (cf_relay f)) (\<lambda>_.
              and_then (map_err (\<lambda>e. lit ''invalid --relay '' @ quoted raw @ lit '': '' @ show_peer_addr_error e)
                (parse_peer_addr M raw)) (\<lambda>relay. Ok (f\<lparr>cf_relay := Some relay\<rparr>)))
         else if key = lit ''--target''
         then and_then (once ''--target'' (cf_target f)) (\<lambda>_.
              and_then (map_err (\<lambda>e. lit ''invalid --target peer id '' @ quoted raw @ lit '': '' @ show_peer_id_error e)
                (peer_id_from_str M raw)) (\<lambda>target. Ok (f\<lparr>cf_target := Some target\<rparr>)))
         else if key = lit ''--key''
         then and_then (once ''--key'' (ro_key_path opts)) (\<lambda>_.
              Ok (f\<lparr>cf_options := opts\<lparr>ro_key_path := Some raw\<rparr>\<rparr>))
         else if key = lit ''--listen''
         then and_then (once ''--listen'' (ro_listen_addr opts)) (\<lambda>_.
              and_then (parse_quic_multiaddr M (lit ''--listen'') raw) (\<lambda>addr.
              if \<not> is_ip_host (protocols addr)
              then Err (lit ''--listen requires /ip4 or /ip6 host, got '' @ quoted raw)
              else Ok (f\<lparr>cf_options := opts\<lparr>ro_listen_addr := Some addr\<rparr>\<rparr>)))
         else if key = lit ''--external-addr''
         then and_then (parse_quic_multiaddr M (lit ''--external-addr'') raw) (\<lambda>addr.
              Ok (f\<lparr>cf_options := opts\<lparr>ro_external_addrs := ro_external_addrs opts @ [addr]\<rparr>\<rparr>))
         else and_then (once ''--autonat'' (ro_autonat opts)) (\<lambda>_.
              and_then (map_err (\<lambda>e. lit ''invalid --autonat peer-addr '' @ quoted raw @ lit '': '' @ show_peer_addr_error e)
                (parse_peer_addr M raw)) (\<lambda>service. Ok (f\<lparr>cf_options := opts\<lparr>ro_autonat := Some service\<rparr>\<rparr>))))"

definition flag_names :: "rstr list" where
  "flag_names = map lit [''--relay'', ''--target'', ''--key'', ''--listen'', ''--external-addr'', ''--autonat'']"

definition requires_value :: "rstr \<Rightarrow> rstr" where
  "requires_value key = lit ''flag '' @ quoted key @ lit '' requires a value''"

fun flags_loop :: "'mh multihash_api \<Rightarrow> rstr list \<Rightarrow> 'mh cli_flags \<Rightarrow> rstr + 'mh cli_flags" where
  "flags_loop M [] f = Ok f"
| "flags_loop M [key] f = Err (if key \<in> set flag_names then requires_value key else lit ''unknown flag '' @ quoted key)"
| "flags_loop M (key # raw # args) f =
     (if key \<in> set flag_names then and_then (set_flag M key raw f) (flags_loop M args)
      else Err (lit ''unknown flag '' @ quoted key))"

definition flags_from :: "'mh multihash_api \<Rightarrow> rstr list \<Rightarrow> rstr + 'mh cli_flags" where
  "flags_from M args = flags_loop M args \<lparr>cf_relay = None, cf_target = None, cf_options = run_options_default\<rparr>"

section \<open>Subcommands\<close>

definition relay_only :: rstr where
  "relay_only = lit ''--autonat and --external-addr are only valid with relay modes''"

definition parse_listen :: "'mh multihash_api \<Rightarrow> rstr list \<Rightarrow> rstr + 'mh mode" where
  "parse_listen M args =
     and_then (flags_from M args) (\<lambda>f.
       if cf_target f \<noteq> None then Err (lit ''--target is only valid with `dial --relay`'')
       else if cf_relay f = None \<and> has_relay_mode_only_flags (cf_options f) then Err relay_only
       else case cf_relay f of None \<Rightarrow> Ok (DirectListen (cf_options f)) | Some relay \<Rightarrow> Ok (RelayListen relay (cf_options f)))"

text \<open>The first pass of \<open>dial\<close>: positional arguments, and flags with their values.\<close>

fun split_positional :: "rstr list \<Rightarrow> rstr list \<Rightarrow> rstr list \<Rightarrow> rstr + rstr list \<times> rstr list" where
  "split_positional [] positional rest = Ok (positional, rest)"
| "split_positional (arg # args) positional rest =
     (if starts_with arg (lit ''--'')
      then (case args of
              [] \<Rightarrow> Err (requires_value arg)
            | raw # args \<Rightarrow> split_positional args positional (rest @ [arg, raw]))
      else split_positional args (positional @ [arg]) rest)"

definition dial_mode :: "'mh multihash_api \<Rightarrow> rstr list \<Rightarrow> 'mh cli_flags \<Rightarrow> rstr + 'mh mode" where
  "dial_mode M positional f =
     (case (positional, cf_relay f, cf_target f) of
        ([raw], None, None) \<Rightarrow>
          if has_relay_mode_only_flags (cf_options f) then Err relay_only
          else and_then (map_err (\<lambda>e. lit ''invalid peer-addr '' @ quoted raw @ lit '': '' @ show_peer_addr_error e)
                 (parse_peer_addr M raw)) (\<lambda>target. Ok (DirectDial target (cf_options f)))
      | ([], Some relay, Some target) \<Rightarrow> Ok (RelayDial relay target (cf_options f))
      | ([], Some _, None) \<Rightarrow> Err (lit ''`dial --relay <addr>` requires `--target <peer-id>`'')
      | ([], None, Some _) \<Rightarrow> Err (lit ''`--target` requires `--relay <relay-peer-addr>`'')
      | _ \<Rightarrow>
          if 1 < length positional
          then Err (lit ''expected exactly one positional <peer-addr>, got '' @ show_nat (length positional))
          else Err usage)"

definition parse_dial :: "'mh multihash_api \<Rightarrow> rstr list \<Rightarrow> rstr + 'mh mode" where
  "parse_dial M args =
     and_then (split_positional args [] []) (\<lambda>(positional, rest). and_then (flags_from M rest) (dial_mode M positional))"

definition parse_autonat :: "'mh multihash_api \<Rightarrow> rstr list \<Rightarrow> rstr + 'mh mode" where
  "parse_autonat M args =
     and_then (flags_from M args) (\<lambda>f.
       if cf_relay f \<noteq> None \<or> cf_target f \<noteq> None \<or> has_relay_mode_only_flags (cf_options f)
       then Err (lit ''`autonat` accepts only --key and --listen'')
       else Ok (AutoNatServer (cf_options f)))"

definition parse :: "'mh multihash_api \<Rightarrow> rstr list \<Rightarrow> rstr + 'mh mode" where
  "parse M args =
     (case args of
        [] \<Rightarrow> Err usage
      | subcommand # args \<Rightarrow>
          if subcommand = lit ''listen'' then parse_listen M args
          else if subcommand = lit ''dial'' then parse_dial M args
          else if subcommand = lit ''autonat'' then parse_autonat M args
          else if subcommand = lit ''-h'' \<or> subcommand = lit ''--help'' \<or> subcommand = lit ''help'' then Err usage
          else Err (lit ''unknown subcommand '' @ quoted subcommand @ newline @ newline @ usage))"

section \<open>Lines for events\<close>

datatype output_line = Stdout rstr | Stderr rstr

fun join_with :: "rstr \<Rightarrow> rstr list \<Rightarrow> rstr" where
  "join_with sep [] = []"
| "join_with sep [x] = x"
| "join_with sep (x # y # xs) = x @ sep @ join_with sep (y # xs)"

definition format_protocols :: "rstr list \<Rightarrow> rstr" where
  "format_protocols = join_with (lit '','')"

definition tagged :: "rstr \<Rightarrow> rstr \<Rightarrow> rstr" where
  "tagged role line = lit ''['' @ role @ lit ''] '' @ line"

definition observed_text :: "'mh multihash_api \<Rightarrow> identify_message \<Rightarrow> rstr" where
  "observed_text M info =
     (case Option.bind (im_observed_addr info) (\<lambda>raw. result_ok (multiaddr_from_bytes M raw)) of
        Some addr \<Rightarrow> show_multiaddr M addr | None \<Rightarrow> lit ''?'')"

text \<open>\<open>dbg\<close> is the derived \<open>Debug\<close> of the kind of an error.\<close>

fun print_event :: "'mh multihash_api \<Rightarrow> (swarm_error_kind \<Rightarrow> rstr) \<Rightarrow> rstr \<Rightarrow> 'mh swarm_event \<Rightarrow> output_line" where
  "print_event M dbg role (SwConnectionEstablished p) = Stdout (tagged role (lit ''connected peer='' @ to_base58 M p))"
| "print_event M dbg role (SwConnectionClosed p) = Stdout (tagged role (lit ''disconnected peer='' @ to_base58 M p))"
| "print_event M dbg role (SwIdentifyReceived p info) =
     Stdout (tagged role (lit ''identify peer='' @ to_base58 M p @
       lit '' agent='' @ (case im_agent_version info of Some agent \<Rightarrow> agent | None \<Rightarrow> lit ''?'') @
       lit '' protocols='' @ show_nat (length (im_protocols info)) @ lit '' list=['' @ format_protocols (im_protocols info) @
       lit ''] observed='' @ observed_text M info))"
| "print_event M dbg role (SwPeerReady p ps) =
     Stdout (tagged role (lit ''peer-ready peer='' @ to_base58 M p @ lit '' protocols='' @ show_nat (length ps) @
       lit '' list=['' @ format_protocols ps @ lit '']''))"
| "print_event M dbg role (SwPingRttMeasured p rtt_ms) =
     Stdout (tagged role (lit ''ping peer='' @ to_base58 M p @ lit '' rtt='' @ show_nat (unat rtt_ms) @ lit ''ms''))"
| "print_event M dbg role (SwPingTimeout p) = Stdout (tagged role (lit ''ping-timeout peer='' @ to_base58 M p))"
| "print_event M dbg role (SwUserStreamReady p sid pid initiated_locally) =
     Stdout (tagged role (lit ''user-stream-ready peer='' @ to_base58 M p @ lit '' stream='' @ show_stream_id sid @
       lit '' protocol='' @ pid @ lit '' dir='' @ (if initiated_locally then lit ''outbound'' else lit ''inbound'')))"
| "print_event M dbg role (SwUserStreamData p sid data) =
     Stdout (tagged role (lit ''user-stream-data peer='' @ to_base58 M p @ lit '' stream='' @ show_stream_id sid @
       lit '' bytes='' @ show_nat (length data)))"
| "print_event M dbg role (SwUserStreamRemoteWriteClosed p sid) =
     Stdout (tagged role (lit ''user-stream-remote-write-closed peer='' @ to_base58 M p @ lit '' stream='' @ show_stream_id sid))"
| "print_event M dbg role (SwUserStreamClosed p sid) =
     Stdout (tagged role (lit ''user-stream-closed peer='' @ to_base58 M p @ lit '' stream='' @ show_stream_id sid))"
| "print_event M dbg role (SwError e) = Stderr (tagged role (lit ''error '' @ dbg (se_kind e) @ lit '': '' @ se_detail e))"

section \<open>What the parser accepts\<close>

text \<open>The modes that a command line can mean.\<close>

definition options_ok :: "'mh run_options \<Rightarrow> bool" where
  "options_ok opts \<longleftrightarrow>
     pred_option (\<lambda>a. is_quic_transport a \<and> is_ip_host (protocols a)) (ro_listen_addr opts) \<and>
     list_all is_quic_transport (ro_external_addrs opts)"

fun mode_ok :: "'mh mode \<Rightarrow> bool" where
  "mode_ok (DirectListen opts) \<longleftrightarrow> options_ok opts \<and> \<not> has_relay_mode_only_flags opts"
| "mode_ok (DirectDial _ opts) \<longleftrightarrow> options_ok opts \<and> \<not> has_relay_mode_only_flags opts"
| "mode_ok (RelayListen _ opts) \<longleftrightarrow> options_ok opts"
| "mode_ok (RelayDial _ _ opts) \<longleftrightarrow> options_ok opts"
| "mode_ok (AutoNatServer opts) \<longleftrightarrow> options_ok opts \<and> \<not> has_relay_mode_only_flags opts"

lemma parse_quic_multiaddr_ok: "parse_quic_multiaddr M flag raw = Ok a \<Longrightarrow> is_quic_transport a"
  by (auto simp: parse_quic_multiaddr_def and_then_eq_Inr split: if_splits)

lemma set_flag_ok: "set_flag M key raw f = Ok f' \<Longrightarrow> options_ok (cf_options f) \<Longrightarrow> options_ok (cf_options f')"
  by (auto simp: set_flag_def Let_def options_ok_def and_then_eq_Inr dest: parse_quic_multiaddr_ok split: if_splits)

lemma flags_loop_ok: "flags_loop M args f = Ok f' \<Longrightarrow> options_ok (cf_options f) \<Longrightarrow> options_ok (cf_options f')"
  by (induction M args f rule: flags_loop.induct) (auto simp: and_then_eq_Inr dest: set_flag_ok split: if_splits)

lemma flags_from_ok: "flags_from M args = Ok f \<Longrightarrow> options_ok (cf_options f)"
  unfolding flags_from_def by (drule flags_loop_ok) (simp_all add: options_ok_def run_options_default_def)

lemma dial_mode_ok:
  assumes "options_ok (cf_options f)" and "dial_mode M positional f = Ok m"
  shows "mode_ok m"
proof (cases positional)
  case Nil
  then show ?thesis
    using assms by (cases "cf_relay f"; cases "cf_target f") (auto simp: dial_mode_def)
next
  case (Cons raw more)
  then show ?thesis
    using assms by (cases more; cases "cf_relay f"; cases "cf_target f") (auto simp: dial_mode_def and_then_eq_Inr split: if_splits)
qed

lemma parse_ok: "parse M args = Ok m \<Longrightarrow> mode_ok m"
  by (auto simp: parse_def parse_listen_def parse_dial_def parse_autonat_def and_then_eq_Inr
      dest: flags_from_ok dial_mode_ok [rotated] split: list.splits if_splits option.splits)

text \<open>The arguments that mean a mode.\<close>

definition flag_args :: "string \<Rightarrow> ('a \<Rightarrow> rstr) \<Rightarrow> 'a option \<Rightarrow> rstr list" where
  "flag_args flag render x = (case x of None \<Rightarrow> [] | Some v \<Rightarrow> [lit flag, render v])"

definition option_args :: "'mh multihash_api \<Rightarrow> 'mh run_options \<Rightarrow> rstr list" where
  "option_args M opts =
     flag_args ''--key'' (\<lambda>path. path) (ro_key_path opts) @ flag_args ''--listen'' (show_multiaddr M) (ro_listen_addr opts) @
     concat (map (\<lambda>a. [lit ''--external-addr'', show_multiaddr M a]) (ro_external_addrs opts)) @
     flag_args ''--autonat'' (show_peer_addr M) (ro_autonat opts)"

fun mode_args :: "'mh multihash_api \<Rightarrow> 'mh mode \<Rightarrow> rstr list" where
  "mode_args M (DirectListen opts) = lit ''listen'' # option_args M opts"
| "mode_args M (DirectDial target opts) = lit ''dial'' # show_peer_addr M target # option_args M opts"
| "mode_args M (RelayListen relay opts) = lit ''listen'' # lit ''--relay'' # show_peer_addr M relay # option_args M opts"
| "mode_args M (RelayDial relay target opts) =
     lit ''dial'' # lit ''--relay'' # show_peer_addr M relay # lit ''--target'' # to_base58 M target # option_args M opts"
| "mode_args M (AutoNatServer opts) = lit ''autonat'' # option_args M opts"

text \<open>Addresses and peer ids whose text form reads back.\<close>

definition addr_text_ok :: "'mh multihash_api \<Rightarrow> 'mh multiaddr \<Rightarrow> bool" where
  "addr_text_ok M a \<longleftrightarrow> protocols a \<noteq> [] \<and> list_all (protocol_text_ok M) (protocols a)"

definition peer_addr_text_ok :: "'mh multihash_api \<Rightarrow> 'mh peer_addr \<Rightarrow> bool" where
  "peer_addr_text_ok M a \<longleftrightarrow>
     addr_text_ok M (pa_transport a) \<and> \<not> list_ex is_p2p (protocols (pa_transport a)) \<and> peer_id_text_ok M (pa_peer_id a)"

definition options_text_ok :: "'mh multihash_api \<Rightarrow> 'mh run_options \<Rightarrow> bool" where
  "options_text_ok M opts \<longleftrightarrow>
     pred_option (addr_text_ok M) (ro_listen_addr opts) \<and> list_all (addr_text_ok M) (ro_external_addrs opts) \<and>
     pred_option (peer_addr_text_ok M) (ro_autonat opts)"

fun mode_text_ok :: "'mh multihash_api \<Rightarrow> 'mh mode \<Rightarrow> bool" where
  "mode_text_ok M (DirectListen opts) \<longleftrightarrow> options_text_ok M opts"
| "mode_text_ok M (DirectDial target opts) \<longleftrightarrow> peer_addr_text_ok M target \<and> options_text_ok M opts"
| "mode_text_ok M (RelayListen relay opts) \<longleftrightarrow> peer_addr_text_ok M relay \<and> options_text_ok M opts"
| "mode_text_ok M (RelayDial relay target opts) \<longleftrightarrow>
     peer_addr_text_ok M relay \<and> peer_id_text_ok M target \<and> options_text_ok M opts"
| "mode_text_ok M (AutoNatServer opts) \<longleftrightarrow> options_text_ok M opts"

section \<open>Reading arguments back\<close>

lemma flag_names_distinct:
  "key \<in> set flag_names \<longleftrightarrow> key = lit ''--relay'' \<or> key = lit ''--target'' \<or> key = lit ''--key'' \<or> key = lit ''--listen'' \<or>
     key = lit ''--external-addr'' \<or> key = lit ''--autonat''"
  by (auto simp: flag_names_def)

lemma set_flag_simps [simp]:
  "set_flag M (lit ''--key'') raw f =
     and_then (once ''--key'' (ro_key_path (cf_options f))) (\<lambda>_. Ok (f\<lparr>cf_options := (cf_options f)\<lparr>ro_key_path := Some raw\<rparr>\<rparr>))"
  "set_flag M (lit ''--external-addr'') raw f =
     and_then (parse_quic_multiaddr M (lit ''--external-addr'') raw) (\<lambda>addr.
       Ok (f\<lparr>cf_options := (cf_options f)\<lparr>ro_external_addrs := ro_external_addrs (cf_options f) @ [addr]\<rparr>\<rparr>))"
  by (simp_all add: set_flag_def Let_def lit_def)

lemma parse_quic_text:
  assumes "multihash_laws M" and "addr_text_ok M a" and "is_quic_transport a"
  shows "parse_quic_multiaddr M flag (show_multiaddr M a) = Ok a"
  using parse_show_multiaddr [OF assms(1), of "protocols a"] assms(2,3)
  by (cases a) (simp add: parse_quic_multiaddr_def addr_text_ok_def)

lemma parse_peer_addr_text:
  assumes "multihash_laws M" and "peer_addr_text_ok M a"
  shows "parse_peer_addr M (show_peer_addr M a) = Ok a"
  using assms by (intro parse_show_peer_addr) (simp_all add: peer_addr_text_ok_def addr_text_ok_def)

text \<open>A pair of a flag and its value is consumed.\<close>

lemma flags_loop_flag:
  assumes "key \<in> set flag_names" and "set_flag M key raw f = Ok f'"
  shows "flags_loop M (key # raw # args) f = flags_loop M args f'"
  using assms by simp

lemma set_flag_text:
  assumes "multihash_laws M"
  shows "cf_relay f = None \<Longrightarrow> peer_addr_text_ok M a \<Longrightarrow>
      set_flag M (lit ''--relay'') (show_peer_addr M a) f = Ok (f\<lparr>cf_relay := Some a\<rparr>)"
    and "cf_target f = None \<Longrightarrow> peer_id_text_ok M p \<Longrightarrow>
      set_flag M (lit ''--target'') (to_base58 M p) f = Ok (f\<lparr>cf_target := Some p\<rparr>)"
    and "ro_listen_addr (cf_options f) = None \<Longrightarrow> addr_text_ok M b \<Longrightarrow> is_quic_transport b \<Longrightarrow> is_ip_host (protocols b) \<Longrightarrow>
      set_flag M (lit ''--listen'') (show_multiaddr M b) f = Ok (f\<lparr>cf_options := (cf_options f)\<lparr>ro_listen_addr := Some b\<rparr>\<rparr>)"
    and "ro_autonat (cf_options f) = None \<Longrightarrow> peer_addr_text_ok M a \<Longrightarrow>
      set_flag M (lit ''--autonat'') (show_peer_addr M a) f = Ok (f\<lparr>cf_options := (cf_options f)\<lparr>ro_autonat := Some a\<rparr>\<rparr>)"
  using parse_peer_addr_text [OF assms] parse_quic_text [OF assms] from_str_to_base58 [OF assms] assms
  by (simp_all add: set_flag_def once_def Let_def lit_def peer_id_text_ok_def)

lemma external_args:
  assumes "multihash_laws M" and "list_all is_quic_transport as" and "list_all (addr_text_ok M) as"
  shows "flags_loop M (concat (map (\<lambda>a. [lit ''--external-addr'', show_multiaddr M a]) as) @ rest) f =
    flags_loop M rest (f\<lparr>cf_options := (cf_options f)\<lparr>ro_external_addrs := ro_external_addrs (cf_options f) @ as\<rparr>\<rparr>)"
  using assms(2,3)
proof (induction as arbitrary: f)
  case (Cons a as)
  then show ?case
    using parse_quic_text [OF assms(1)] by (simp add: flag_names_distinct)
qed simp

lemma option_args_read:
  assumes "multihash_laws M" and "options_ok opts" and "options_text_ok M opts"
  shows "flags_loop M (option_args M opts) \<lparr>cf_relay = relay, cf_target = target, cf_options = run_options_default\<rparr> =
    Ok \<lparr>cf_relay = relay, cf_target = target, cf_options = opts\<rparr>"
proof -
  let ?f = "\<lambda>opts. \<lparr>cf_relay = relay, cf_target = target, cf_options = opts\<rparr>"
  let ?o = "\<lambda>key listen ext autonat. \<lparr>ro_key_path = key, ro_listen_addr = listen, ro_external_addrs = ext, ro_autonat = autonat\<rparr>"
  obtain key listen ext autonat where opts: "opts = ?o key listen ext autonat" by (cases opts)
  have ok: "pred_option (\<lambda>a. is_quic_transport a \<and> is_ip_host (protocols a)) listen" "list_all is_quic_transport ext"
    "pred_option (addr_text_ok M) listen" "list_all (addr_text_ok M) ext" "pred_option (peer_addr_text_ok M) autonat"
    using assms(2,3) by (simp_all add: options_ok_def options_text_ok_def opts)
  have key: "flags_loop M (flag_args ''--key'' (\<lambda>path. path) key @ args) (?f (?o None None [] None)) =
      flags_loop M args (?f (?o key None [] None))" for args
    by (cases key) (simp_all add: flag_args_def once_def flag_names_distinct)
  have listen: "flags_loop M (flag_args ''--listen'' (show_multiaddr M) listen @ args) (?f (?o key None [] None)) =
      flags_loop M args (?f (?o key listen [] None))" for args
    using ok(1,3) by (cases listen) (simp_all add: flag_args_def flag_names_distinct set_flag_text [OF assms(1)])
  have autonat: "flags_loop M (flag_args ''--autonat'' (show_peer_addr M) autonat) (?f (?o key listen ext None)) = Ok (?f opts)"
    using ok(5) by (cases autonat) (simp_all add: flag_args_def flag_names_distinct set_flag_text [OF assms(1)] opts)
  show ?thesis
    using autonat by (simp add: option_args_def run_options_default_def opts key listen external_args [OF assms(1) ok(2,4)])
qed

lemma split_flag: "starts_with arg (lit ''--'') \<Longrightarrow> split_positional (arg # raw # args) pos rest = split_positional args pos (rest @ [arg, raw])"
  by simp

lemma split_option_args: "split_positional (option_args M opts) pos rest = Ok (pos, rest @ option_args M opts)"
proof -
  have flag: "split_positional (flag_args flag render x @ args) pos rest = split_positional args pos (rest @ flag_args flag render x)"
    if "starts_with (lit flag) (lit ''--'')" for flag render x args rest
    using that by (cases x) (simp_all add: flag_args_def)
  have ext: "split_positional (concat (map (\<lambda>a. [lit ''--external-addr'', show_multiaddr M a]) as) @ args) pos rest =
      split_positional args pos (rest @ concat (map (\<lambda>a. [lit ''--external-addr'', show_multiaddr M a]) as))" for as args rest
    by (induction as arbitrary: rest) (simp_all add: starts_with_def lit_def)
  have "starts_with (lit ''--key'') (lit ''--'')" "starts_with (lit ''--listen'') (lit ''--'')" "starts_with (lit ''--autonat'') (lit ''--'')"
    by (simp_all add: starts_with_def lit_def)
  then show ?thesis
    using flag [of "''--autonat''" "show_peer_addr M" "ro_autonat opts" "[]"] by (simp add: option_args_def flag ext)
qed

lemma relay_args_read:
  assumes "multihash_laws M" and "peer_addr_text_ok M relay"
  shows "flags_loop M (lit ''--relay'' # show_peer_addr M relay # args) \<lparr>cf_relay = None, cf_target = None, cf_options = opts\<rparr> =
    flags_loop M args \<lparr>cf_relay = Some relay, cf_target = None, cf_options = opts\<rparr>"
  using assms by (simp add: flag_names_distinct set_flag_text [OF assms(1)])

lemma target_args_read:
  assumes "multihash_laws M" and "peer_id_text_ok M target"
  shows "flags_loop M (lit ''--target'' # to_base58 M target # args) \<lparr>cf_relay = relay, cf_target = None, cf_options = opts\<rparr> =
    flags_loop M args \<lparr>cf_relay = relay, cf_target = Some target, cf_options = opts\<rparr>"
  using assms by (simp add: flag_names_distinct set_flag_text [OF assms(1)])

lemma show_peer_addr_positional:
  assumes "peer_addr_text_ok M a"
  shows "\<not> starts_with (show_peer_addr M a) (lit ''--'')"
proof -
  obtain q qs where "protocols (pa_transport a) = q # qs"
    using assms by (cases "protocols (pa_transport a)") (simp_all add: peer_addr_text_ok_def addr_text_ok_def)
  then show ?thesis
    by (cases q) (auto simp: show_peer_addr_def show_multiaddr_def peer_addr_to_multiaddr_def starts_with_def lit_def)
qed

text \<open>
  C37. The command line of the example program means what its usage says.  Every accepted list of arguments
  gives a valid mode: bind addresses are QUIC addresses with an IP host, external addresses are QUIC
  addresses, and modes without a relay have neither external addresses nor an AutoNAT service.  Conversely
  every valid mode whose addresses have a text form is what its arguments are parsed to.
\<close>

theorem cli_parse_modes:
  assumes "multihash_laws M"
  shows "(\<forall>args m. parse M args = Ok m \<longrightarrow> mode_ok m) \<and>
    (\<forall>m. mode_ok m \<and> mode_text_ok M m \<longrightarrow> parse M (mode_args M m) = Ok m)"
proof (intro conjI allI impI)
  fix m :: "'a mode"
  assume m: "mode_ok m \<and> mode_text_ok M m"
  note read = option_args_read [OF assms] relay_args_read [OF assms] target_args_read [OF assms]
  have names: "lit ''dial'' \<noteq> lit ''listen''" "lit ''autonat'' \<noteq> lit ''listen''" "lit ''autonat'' \<noteq> lit ''dial''"
    "starts_with (lit ''--relay'') (lit ''--'')" "starts_with (lit ''--target'') (lit ''--'')"
    by (simp_all add: starts_with_def lit_def)
  show "parse M (mode_args M m) = Ok m"
  proof (cases m)
    case (DirectListen opts)
    then show ?thesis using m read by (simp add: parse_def parse_listen_def flags_from_def)
  next
    case (DirectDial target opts)
    then show ?thesis
      using m read names show_peer_addr_positional [of M target] parse_peer_addr_text [OF assms, of target]
      by (simp add: parse_def parse_dial_def flags_from_def split_option_args dial_mode_def)
  next
    case (RelayListen relay opts)
    then show ?thesis using m read by (simp add: parse_def parse_listen_def flags_from_def del: flags_loop.simps)
  next
    case (RelayDial relay target opts)
    then show ?thesis
      using m read names
      by (simp add: parse_def parse_dial_def flags_from_def split_flag split_option_args dial_mode_def
          del: flags_loop.simps split_positional.simps)
  next
    case (AutoNatServer opts)
    then show ?thesis using m read names by (simp add: parse_def parse_autonat_def flags_from_def)
  qed
qed (rule parse_ok)

definition demo_mode :: "mh64 mode" where
  "demo_mode = DirectListen \<lparr>ro_key_path = Some (lit ''./peer.key''),
     ro_listen_addr = Some (Multiaddr [Ip4 [0, 0, 0, 0], Udp 0, QuicV1]), ro_external_addrs = [], ro_autonat = None\<rparr>"

theorem cli_parse_modes_witness:
  "mode_args mh64_api demo_mode =
     [lit ''listen'', lit ''--key'', lit ''./peer.key'', lit ''--listen'', lit ''/ip4/0.0.0.0/udp/0/quic-v1''] \<and>
   parse mh64_api (mode_args mh64_api demo_mode) = Ok demo_mode"
proof -
  have "mode_ok demo_mode \<and> mode_text_ok mh64_api demo_mode"
    by (simp add: demo_mode_def options_ok_def has_relay_mode_only_flags_def is_quic_transport_def is_quic_transport_slice_def
        options_text_ok_def addr_text_ok_def)
  moreover have "mode_args mh64_api demo_mode =
     [lit ''listen'', lit ''--key'', lit ''./peer.key'', lit ''--listen'', lit ''/ip4/0.0.0.0/udp/0/quic-v1'']"
    by (simp add: demo_mode_def option_args_def flag_args_def show_multiaddr_def show_ip4_def show_nat.simps lit_def)
  ultimately show ?thesis
    using cli_parse_modes [OF mh64_laws] by blast
qed

end
