(* ===== verification/PeerRuntime.thy ===== *)
theory PeerRuntime
  imports FacadeProps Cli
begin

text \<open>
  The runtime of the example program, \<open>examples/peer/src/runtime.rs\<close>: key files and binding.  The modes are
  scripts that print lines, end with an error message or panic; the file system is a parameter.
\<close>

section \<open>Scripts\<close>

text \<open>\<open>None\<close> is a script that does not return; \<open>Failed\<close> is a \<open>Box<dyn Error>\<close> with its message.\<close>

datatype 'a outcome = Done 'a | Failed rstr | Panicked

type_synonym ('w, 'a) script = "'w \<Rightarrow> ('w \<times> 'a outcome) option"

definition finish :: "'a \<Rightarrow> ('w, 'a) script" where
  "finish x = (\<lambda>w. Some (w, Done x))"

definition fail :: "rstr \<Rightarrow> ('w, 'a) script" where
  "fail message = (\<lambda>w. Some (w, Failed message))"

definition panic :: "('w, 'a) script" where
  "panic = (\<lambda>w. Some (w, Panicked))"

definition and_next :: "('w, 'a) script \<Rightarrow> ('a \<Rightarrow> ('w, 'b) script) \<Rightarrow> ('w, 'b) script" where
  "and_next m f = (\<lambda>w.
     case m w of
       None \<Rightarrow> None
     | Some (w, Done x) \<Rightarrow> f x w
     | Some (w, Failed message) \<Rightarrow> Some (w, Failed message)
     | Some (w, Panicked) \<Rightarrow> Some (w, Panicked))"

definition lift_result :: "('e \<Rightarrow> rstr) \<Rightarrow> 'e + 'a \<Rightarrow> ('w, 'a) script" where
  "lift_result show_error r = (case r of Inl e \<Rightarrow> fail (show_error e) | Inr x \<Rightarrow> finish x)"

section \<open>Key files\<close>

record 'f fs_api =
  fs_exists :: "rstr \<Rightarrow> 'f \<Rightarrow> bool"
  fs_read :: "rstr \<Rightarrow> 'f \<Rightarrow> rstr + rstr"
  fs_parent :: "rstr \<Rightarrow> rstr option"
  fs_create_dir_all :: "rstr \<Rightarrow> 'f \<Rightarrow> 'f \<times> (rstr + unit)"
  fs_write :: "rstr \<Rightarrow> bytes \<Rightarrow> 'f \<Rightarrow> 'f \<times> (rstr + unit)"
  fs_chmod :: "rstr \<Rightarrow> nat \<Rightarrow> 'f \<Rightarrow> 'f \<times> (rstr + unit)"

text \<open>\<open>str::trim\<close>.\<close>

definition trim :: "rstr \<Rightarrow> rstr" where
  "trim s = concat (map encode_utf8 (rev (dropWhile is_whitespace (rev (dropWhile is_whitespace (chars s))))))"

definition HEX :: bytes where
  "HEX = lit ''0123456789abcdef''"

definition encode_hex :: "bytes \<Rightarrow> rstr" where
  "encode_hex bs = concat (map (\<lambda>b. [HEX ! unat (drop_bit 4 b), HEX ! unat (b AND 0x0f)]) bs)"

definition hex_value :: "byte \<Rightarrow> rstr + byte" where
  "hex_value b =
     (if 0x30 \<le> b \<and> b \<le> 0x39 then Ok (b - 0x30)
      else if 0x61 \<le> b \<and> b \<le> 0x66 then Ok (b - 0x61 + 10)
      else if 0x41 \<le> b \<and> b \<le> 0x46 then Ok (b - 0x41 + 10)
      else Err (lit ''non-hex byte 0x'' @ (if b < 16 then lit ''0'' else []) @ show_hex (unat b)))"

fun decode_pairs :: "bytes \<Rightarrow> rstr + bytes" where
  "decode_pairs (a # b # rest) =
     and_then (hex_value a) (\<lambda>hi. and_then (hex_value b) (\<lambda>lo.
       and_then (decode_pairs rest) (\<lambda>out. Ok ((push_bit 4 hi OR lo) # out))))"
| "decode_pairs _ = Ok []"

definition decode_secret :: "rstr \<Rightarrow> rstr + bytes" where
  "decode_secret input =
     (if length input \<noteq> ED25519_SECRET_KEY_LENGTH * 2
      then Err (lit ''expected '' @ show_nat (ED25519_SECRET_KEY_LENGTH * 2) @ lit '' hex chars, got '' @ show_nat (length input))
      else decode_pairs input)"

text \<open>The host of a script: its files, random numbers for keys (\<open>'d\<close>) and certificates (\<open>'r\<close>), and what was printed.\<close>

record ('f, 'd, 'r) host =
  ho_files :: 'f
  ho_key_rng :: 'd
  ho_cert_rng :: 'r
  ho_out :: "output_line list"

definition host_print :: "rstr \<Rightarrow> rstr \<Rightarrow> (('f, 'd, 'r) host, unit) script" where
  "host_print role line = (\<lambda>h. finish () (h\<lparr>ho_out := ho_out h @ [Stdout (tagged role line)]\<rparr>))"

definition on_files :: "('f \<Rightarrow> 'f \<times> (rstr + 'a)) \<Rightarrow> rstr \<Rightarrow> (('f, 'd, 'r) host, 'a) script" where
  "on_files call message = (\<lambda>h.
     case call (ho_files h) of (files, res) \<Rightarrow> lift_result (\<lambda>e. message @ e) res (h\<lparr>ho_files := files\<rparr>))"

definition write_secret :: "'f fs_api \<Rightarrow> rstr \<Rightarrow> bytes \<Rightarrow> (('f, 'd, 'r) host, unit) script" where
  "write_secret F path secret =
     and_next
       (case fs_parent F path of
          Some parent \<Rightarrow>
            if parent \<noteq> []
            then on_files (fs_create_dir_all F parent) (lit ''failed to create key directory '' @ parent @ lit '': '')
            else finish ()
        | None \<Rightarrow> finish ())
       (\<lambda>_. and_next (on_files (fs_write F path (encode_hex secret @ newline)) (lit ''failed to write key file '' @ path @ lit '': ''))
       (\<lambda>_. on_files (fs_chmod F path 384) (lit ''failed to chmod key file '' @ path @ lit '': '')))"

text \<open>\<open>None\<close> of \<open>keypair_peer_id\<close> is a panic.\<close>

definition announce_key ::
  "'mh multihash_api \<Rightarrow> (bytes \<Rightarrow> bytes) \<Rightarrow> rstr \<Rightarrow> rstr \<Rightarrow> ed25519_keypair \<Rightarrow> (('f, 'd, 'r) host, ed25519_keypair) script" where
  "announce_key M H role origin keypair =
     (case keypair_peer_id M H keypair of
        None \<Rightarrow> panic
      | Some p \<Rightarrow> and_next (host_print role (lit ''peer='' @ to_base58 M p @ lit '' identity='' @ origin)) (\<lambda>_. finish keypair))"

definition generate_key :: "'d ed25519_api \<Rightarrow> (('f, 'd, 'r) host, ed25519_keypair) script" where
  "generate_key D = (\<lambda>h. case generate_with_rng D (ho_key_rng h) of (rng, keypair) \<Rightarrow> finish keypair (h\<lparr>ho_key_rng := rng\<rparr>))"

definition load_keypair ::
  "'mh multihash_api \<Rightarrow> (bytes \<Rightarrow> bytes) \<Rightarrow> 'd ed25519_api \<Rightarrow> 'f fs_api \<Rightarrow> 'mh run_options \<Rightarrow> rstr \<Rightarrow>
     (('f, 'd, 'r) host, ed25519_keypair) script" where
  "load_keypair M H D F opts role =
     (case ro_key_path opts of
        None \<Rightarrow> and_next (generate_key D) (announce_key M H role (lit ''ephemeral''))
      | Some path \<Rightarrow> (\<lambda>h.
          if fs_exists F path (ho_files h)
          then and_next (on_files (\<lambda>files. (files, fs_read F path files)) (lit ''failed to read key file '' @ path @ lit '': ''))
                 (\<lambda>raw. and_next (lift_result (\<lambda>e. lit ''invalid key file '' @ path @ lit '': '' @ e) (decode_secret (trim raw)))
                 (\<lambda>secret. announce_key M H role (path @ lit '' persisted=loaded'') (from_secret_key_bytes D secret))) h
          else and_next (generate_key D)
                 (\<lambda>keypair. and_next (write_secret F path (secret_key keypair))
                 (\<lambda>_. announce_key M H role (path @ lit '' persisted=created'') keypair)) h))"

section \<open>Binding\<close>

text \<open>Running a constructor of the transport with the random numbers of the host.\<close>

definition on_binding ::
  "('r \<Rightarrow> ('r \<times> (transport_error + 'a)) option) \<Rightarrow> rstr \<Rightarrow> (('f, 'd, 'r) host, 'a) script" where
  "on_binding call message = (\<lambda>h.
     case call (ho_cert_rng h) of
       None \<Rightarrow> panic h
     | Some (rng, res) \<Rightarrow> lift_result (\<lambda>e. message @ show_transport_error e) res (h\<lparr>ho_cert_rng := rng\<rparr>))"

definition build_peer_transport ::
  "'mh multihash_api \<Rightarrow> (bytes \<Rightarrow> bytes) \<Rightarrow> 'd ed25519_api \<Rightarrow> der_api \<Rightarrow> ('sk, 'b, 'cert, 'v, 'r) x509_api \<Rightarrow>
     ('s, 'c, 'x, 'p, 'k) bind_env \<Rightarrow> 'mh run_options \<Rightarrow> ed25519_keypair \<Rightarrow>
     (('f, 'd, 'r) host, ('q, 's, 'mh) quic_endpoint) script" where
  "build_peer_transport M H D R X B opts keypair =
     (let config = node_config_new keypair
      in case ro_listen_addr opts of
           Some addr \<Rightarrow>
             on_binding (qe_bind_multiaddr M H D R X B config addr) (lit ''quic bind '' @ show_multiaddr M addr @ lit '': '')
         | None \<Rightarrow> on_binding (qe_dual_stack M H D R X B config) (lit ''quic dual-stack bind: ''))"

section \<open>Hexadecimal\<close>

lemma HEX_digits:
  assumes "n < 16"
  shows "hex_value (HEX ! n) = Ok (of_nat n) \<and> HEX ! n < 0x80 \<and> \<not> is_whitespace (unat (HEX ! n))"
proof -
  have "list_all (\<lambda>n. hex_value (HEX ! n) = Ok (of_nat n) \<and> HEX ! n < 0x80 \<and> \<not> is_whitespace (unat (HEX ! n))) [0..<16]"
    by (simp add: upt_rec HEX_def lit_def hex_value_def is_whitespace_def)
  then show ?thesis using assms by (simp add: list_all_iff)
qed

lemma nibbles:
  fixes b :: byte
  shows "unat (drop_bit 4 b) < 16" "unat (b AND 0x0f) < 16" "push_bit 4 (drop_bit 4 b) OR (b AND 0x0f) = b"
proof -
  have low: "b AND 0x0f = take_bit 4 b"
    by (simp add: take_bit_eq_mask mask_eq_exp_minus_1)
  have bound: "unat b < 256" using unsigned_less [where 'b = 8 and 'a = nat] by simp
  have "unat (drop_bit 4 b) = unat b div 16"
    by (simp only: unsigned_drop_bit_eq) (simp add: drop_bit_eq_div take_bit_nat_eq_self bound)
  then show "unat (drop_bit 4 b) < 16" using bound by simp
  show "unat (b AND 0x0f) < 16"
    unfolding low by (simp only: unsigned_take_bit_eq) (simp add: take_bit_eq_mod)
  show "push_bit 4 (drop_bit 4 b) OR (b AND 0x0f) = b"
    unfolding low by (rule bit_word_eqI) (auto simp: bit_simps)
qed

lemma decode_encode_hex: "decode_pairs (encode_hex bs) = Ok bs"
proof (induction bs)
  case (Cons b bs)
  then show ?case
    using HEX_digits [OF nibbles(1), of b] HEX_digits [OF nibbles(2), of b] nibbles(3) [of b] by (simp add: encode_hex_def)
qed (simp add: encode_hex_def)

lemma length_encode_hex: "length (encode_hex bs) = 2 * length bs"
  by (induction bs) (simp_all add: encode_hex_def)

lemma encode_hex_chars: "c \<in> set (encode_hex bs) \<Longrightarrow> c < 0x80 \<and> \<not> is_whitespace (unat c)"
  using HEX_digits nibbles by (auto simp: encode_hex_def)

lemma decode_secret_encode: "length secret = ED25519_SECRET_KEY_LENGTH \<Longrightarrow> decode_secret (encode_hex secret) = Ok secret"
  by (simp add: decode_secret_def length_encode_hex decode_encode_hex)

lemma encode_utf8_ascii: "c < 0x80 \<Longrightarrow> encode_utf8 (unat c) = [c]" for c :: byte
  by (simp add: encode_utf8_def word_less_nat_alt)

text \<open>Text in ASCII without blanks is what \<open>trim\<close> leaves of it and a following newline.\<close>

lemma trim_line:
  assumes "\<And>c. c \<in> set s \<Longrightarrow> c < 0x80 \<and> \<not> is_whitespace (unat c)"
  shows "trim (s @ newline) = s"
proof -
  have "chars (s @ newline) = map unat s @ [10]"
    using assms chars_ascii [of "s @ newline"] by (simp add: newline_def ascii_def)
  moreover have "dropWhile is_whitespace (map unat s @ [10]) = (if s = [] then [] else map unat s @ [10])"
    using assms by (cases s) (auto simp: is_whitespace_def)
  moreover have "dropWhile is_whitespace (rev (map unat s @ [10])) = rev (map unat s)"
    using assms by (cases s rule: rev_cases) (auto simp: is_whitespace_def)
  moreover have "concat (map encode_utf8 (map unat s)) = s"
    using assms by (induction s) (simp_all add: encode_utf8_ascii)
  ultimately show ?thesis
    by (cases "s = []") (simp_all add: trim_def)
qed

section \<open>Properties\<close>

text \<open>Of the file system: what was written is there and reads back, and changing the mode of a file keeps it.\<close>

definition fs_laws :: "'f fs_api \<Rightarrow> bool" where
  "fs_laws F \<longleftrightarrow>
     (\<forall>path data files files'. fs_write F path data files = (files', Ok ()) \<longrightarrow>
        fs_exists F path files' \<and> (utf8_ok data \<longrightarrow> fs_read F path files' = Ok data)) \<and>
     (\<forall>path mode files files' r. fs_chmod F path mode files = (files', r) \<longrightarrow>
        fs_exists F path files' = fs_exists F path files \<and> fs_read F path files' = fs_read F path files)"

lemma and_next_Done:
  "and_next m f w = Some (w', Done y) \<longleftrightarrow> (\<exists>w1 x. m w = Some (w1, Done x) \<and> f x w1 = Some (w', Done y))"
  by (auto simp: and_next_def split: option.splits outcome.splits)

lemma on_files_Done:
  "on_files call message h = Some (h', Done x) \<longleftrightarrow> (\<exists>files. call (ho_files h) = (files, Ok x) \<and> h' = h\<lparr>ho_files := files\<rparr>)"
  by (auto simp: on_files_def lift_result_def fail_def finish_def split: prod.splits sum.splits)

lemma announce_key_Done:
  "announce_key M H role origin kp h = Some (h', Done kp') \<longleftrightarrow>
     kp' = kp \<and> (\<exists>p. keypair_peer_id M H kp = Some p \<and>
       h' = h\<lparr>ho_out := ho_out h @ [Stdout (tagged role (lit ''peer='' @ to_base58 M p @ lit '' identity='' @ origin))]\<rparr>)"
  by (auto simp: announce_key_def and_next_Done host_print_def finish_def panic_def split: option.splits)

lemma write_secret_Done:
  assumes "fs_laws F" and "write_secret F path secret h = Some (h', Done ())"
  shows "fs_exists F path (ho_files h') \<and> fs_read F path (ho_files h') = Ok (encode_hex secret @ newline)"
proof -
  obtain files0 files where w: "fs_write F path (encode_hex secret @ newline) files0 = (files, Ok ())"
    "fs_chmod F path 384 files = (ho_files h', Ok ())"
    using assms(2) by (auto simp: write_secret_def and_next_Done on_files_Done)
  have "utf8_ok (encode_hex secret @ newline)"
    using encode_hex_chars [of _ secret] by (intro utf8_ok_ascii) (auto simp: ascii_def newline_def)
  then show ?thesis
    using assms(1) w unfolding fs_laws_def by metis
qed


text \<open>A file system with one file.\<close>

definition mini_fs :: "bytes option fs_api" where
  "mini_fs =
     \<lparr>fs_exists = (\<lambda>_ files. files \<noteq> None), fs_read = (\<lambda>_ files. case files of None \<Rightarrow> Err [] | Some data \<Rightarrow> Ok data),
      fs_parent = (\<lambda>_. None), fs_create_dir_all = (\<lambda>_ files. (files, Ok ())), fs_write = (\<lambda>_ data _. (Some data, Ok ())),
      fs_chmod = (\<lambda>_ _ files. (files, Ok ()))\<rparr>"


end
