(* ===== verification/PeerDirect.thy ===== *)
theory PeerDirect
  imports PeerRuntime
begin

text \<open>
  The direct modes of the example program, \<open>examples/peer/src/direct.rs\<close>, and its dispatch in \<open>main.rs\<close>.  A mode
  first builds its endpoint, then runs a session over it: the driver and the lines that were printed.
\<close>

section \<open>Sessions\<close>

record ('q, 's, 'mh) session =
  ss_swarm :: "('q, 's, 'mh) endpoint"
  ss_out :: "output_line list"

text \<open>
  What a session reads: the instant and the random bytes at each reading of the clock, beside what the
  endpoint uses.  Instants are in milliseconds.
\<close>

record ('q, 's, 'mh) run_env =
  rv_mh :: "'mh multihash_api"
  rv_sha :: "bytes \<Rightarrow> bytes"
  rv_quic :: "('q, 's, 'mh) quic_env"
  rv_clk :: "nat \<Rightarrow> u64"
  rv_inst :: "nat \<Rightarrow> nat"
  rv_entropy :: "nat \<Rightarrow> bytes option"
  rv_seed :: "nat \<Rightarrow> u64"
  rv_dbg :: "swarm_error_kind \<Rightarrow> rstr"

definition say :: "output_line \<Rightarrow> (('q, 's, 'mh) session, unit) script" where
  "say line = (\<lambda>w. finish () (w\<lparr>ss_out := ss_out w @ [line]\<rparr>))"

definition say_out :: "rstr \<Rightarrow> rstr \<Rightarrow> (('q, 's, 'mh) session, unit) script" where
  "say_out role line = say (Stdout (tagged role line))"

definition say_err :: "rstr \<Rightarrow> rstr \<Rightarrow> (('q, 's, 'mh) session, unit) script" where
  "say_err role line = say (Stderr (tagged role line))"

definition instant_now :: "('q, 's, 'mh) run_env \<Rightarrow> (('q, 's, 'mh) session, nat) script" where
  "instant_now V = (\<lambda>w.
     finish (rv_inst V (dv_readings (ss_swarm w))) (w\<lparr>ss_swarm := (ss_swarm w)\<lparr>dv_readings := dv_readings (ss_swarm w) + 1\<rparr>\<rparr>))"

text \<open>A call of the endpoint, and one that may panic; an error becomes a message.\<close>

definition on_swarm ::
  "rstr \<Rightarrow> (('q, 's, 'mh) endpoint \<Rightarrow> ('q, 's, 'mh) endpoint \<times> (transport_error + 'a)) \<Rightarrow> (('q, 's, 'mh) session, 'a) script" where
  "on_swarm message call = (\<lambda>w.
     case call (ss_swarm w) of
       (d, res) \<Rightarrow> lift_result (\<lambda>e. message @ show_transport_error e) res (w\<lparr>ss_swarm := d\<rparr>))"

definition try_swarm ::
  "rstr \<Rightarrow> (('q, 's, 'mh) endpoint \<Rightarrow> (('q, 's, 'mh) endpoint \<times> (transport_error + 'a)) option) \<Rightarrow> (('q, 's, 'mh) session, 'a) script" where
  "try_swarm message call = (\<lambda>w.
     case call (ss_swarm w) of
       None \<Rightarrow> panic w
     | Some (d, res) \<Rightarrow> lift_result (\<lambda>e. message @ show_transport_error e) res (w\<lparr>ss_swarm := d\<rparr>))"

text \<open>\<open>run_until\<close> with a predicate that prints lines for every event and tests it; mostly it prints the event.\<close>

definition wait_printing ::
  "('q, 's, 'mh::linorder) run_env \<Rightarrow> ('mh swarm_event \<Rightarrow> output_line list) \<Rightarrow> rstr \<Rightarrow> nat \<Rightarrow> ('mh swarm_event \<Rightarrow> bool) \<Rightarrow>
     (('q, 's, 'mh) session, 'mh swarm_event option) script" where
  "wait_printing V lines message deadline wanted = (\<lambda>w.
     case run_until (rv_mh V) (rv_sha V) (quic_endpoint_transport (rv_mh V) (rv_quic V)) (rv_clk V)
            (\<lambda>n. deadline \<le> rv_inst V n) (\<lambda>ev out. (wanted ev, out @ lines ev)) (ss_out w) (ss_swarm w) of
       None \<Rightarrow> None
     | Some (d, out, res) \<Rightarrow>
         lift_result (\<lambda>e. message @ show_transport_error e) res \<lparr>ss_swarm = d, ss_out = out\<rparr>)"

definition wait_until ::
  "('q, 's, 'mh::linorder) run_env \<Rightarrow> rstr \<Rightarrow> rstr \<Rightarrow> nat \<Rightarrow> ('mh swarm_event \<Rightarrow> bool) \<Rightarrow>
     (('q, 's, 'mh) session, 'mh swarm_event option) script" where
  "wait_until V role = wait_printing V (\<lambda>ev. [print_event (rv_mh V) (rv_dbg V) role ev])"

definition or_fail :: "rstr \<Rightarrow> 'a option \<Rightarrow> ('w, 'a) script" where
  "or_fail message x = (case x of None \<Rightarrow> fail message | Some y \<Rightarrow> finish y)"

definition session_ping :: "('q, 's, 'mh::linorder) run_env \<Rightarrow> rstr \<Rightarrow> 'mh peer_id \<Rightarrow> (('q, 's, 'mh) session, unit) script" where
  "session_ping V message p = (\<lambda>w.
     try_swarm message
       (facade_ping (rv_mh V) (rv_sha V) (rv_quic V) (rv_clk V) (rv_entropy V (dv_readings (ss_swarm w)))
          (rv_seed V (dv_readings (ss_swarm w))) p) w)"

text \<open>A mode builds its endpoint on the host and then runs the session.\<close>

definition in_session ::
  "(('q, 's, 'mh) session, 'a) script \<Rightarrow> ('q, 's, 'mh) endpoint \<Rightarrow> (('f, 'd, 'r) host, 'a) script" where
  "in_session m d = (\<lambda>h.
     case m \<lparr>ss_swarm = d, ss_out = ho_out h\<rparr> of
       None \<Rightarrow> None
     | Some (w, res) \<Rightarrow> Some (h\<lparr>ho_out := ss_out w\<rparr>, res))"

section \<open>Direct modes\<close>

definition AGENT :: rstr where
  "AGENT = lit ''minip2p-peer/0.1.0''"

definition LISTEN_FOREVER :: nat where
  "LISTEN_FOREVER = 60 * 60 * 24 * 365 * 1000"

definition DIAL_DEADLINE :: nat where
  "DIAL_DEADLINE = 10 * 1000"

definition local_dialable_peer_addr :: "'mh peer_addr \<Rightarrow> 'mh peer_addr" where
  "local_dialable_peer_addr addr =
     (case protocols (pa_transport addr) of
        [] \<Rightarrow> addr
      | first # rest \<Rightarrow>
          (case (case first of
                   Ip4 bs \<Rightarrow> if bs = [0, 0, 0, 0] then Some (Ip4 [127, 0, 0, 1]) else None
                 | Ip6 bs \<Rightarrow> if bs = replicate 16 0 then Some (Ip6 (replicate 15 0 @ [1])) else None
                 | _ \<Rightarrow> None) of
             None \<Rightarrow> addr
           | Some replacement \<Rightarrow>
               (case peer_addr_new (Multiaddr (replacement # rest)) (pa_peer_id addr) of
                  Inl _ \<Rightarrow> addr | Inr rewritten \<Rightarrow> rewritten)))"

definition bind_on_host ::
  "('d \<times> 'r \<Rightarrow> (('d \<times> 'r) \<times> (transport_error + 'a)) option) \<Rightarrow> rstr \<Rightarrow> (('f, 'd, 'r) host, 'a) script" where
  "bind_on_host call message = (\<lambda>h.
     case call (ho_key_rng h, ho_cert_rng h) of
       None \<Rightarrow> panic h
     | Some ((rng, rng'), res) \<Rightarrow>
         lift_result (\<lambda>e. message @ show_transport_error e) res (h\<lparr>ho_key_rng := rng, ho_cert_rng := rng'\<rparr>))"

definition direct_build_endpoint ::
  "'mh multihash_api \<Rightarrow> (bytes \<Rightarrow> bytes) \<Rightarrow> 'd ed25519_api \<Rightarrow> der_api \<Rightarrow> ('sk, 'b, 'cert, 'v, 'r) x509_api \<Rightarrow>
     ('s, 'c, 'x, 'p, 'k) bind_env \<Rightarrow> 'f fs_api \<Rightarrow> 'mh run_options \<Rightarrow> rstr \<Rightarrow>
     (('f, 'd, 'r) host, ('q, 's, 'mh) endpoint) script" where
  "direct_build_endpoint M H D R X B F opts role =
     and_next (load_keypair M H D F opts role) (\<lambda>keypair.
       let builder = eb_set_agent_version AGENT (eb_identity keypair endpoint_builder_default)
       in case ro_listen_addr opts of
            Some addr \<Rightarrow>
              bind_on_host (bind_quic_multiaddr M H D R X B addr builder) (lit ''quic bind '' @ show_multiaddr M addr @ lit '': '')
          | None \<Rightarrow> bind_on_host (bind_quic_dual_stack M H D R X B builder) (lit ''quic dual-stack bind: ''))"

fun say_all :: "rstr \<Rightarrow> rstr list \<Rightarrow> (('q, 's, 'mh) session, unit) script" where
  "say_all role [] = finish ()"
| "say_all role (line # lines) = and_next (say_out role line) (\<lambda>_. say_all role lines)"

text \<open>The loop of the listener: it goes on while an event was returned.\<close>

partial_function (option) listen_loop ::
  "('q, 's, 'mh::linorder) run_env \<Rightarrow> nat \<Rightarrow> ('q, 's, 'mh) session \<Rightarrow> (('q, 's, 'mh) session \<times> unit outcome) option" where
  "listen_loop V deadline w =
     Option.bind (wait_until V (lit ''listen'') (lit ''swarm run_until: '') deadline (\<lambda>_. False) w) (\<lambda>(w, res).
       case res of
         Done None \<Rightarrow> Some (w, Done ())
       | Done (Some _) \<Rightarrow> listen_loop V deadline w
       | Failed message \<Rightarrow> Some (w, Failed message)
       | Panicked \<Rightarrow> Some (w, Panicked))"

definition direct_listen_session :: "('q, 's, 'mh::linorder) run_env \<Rightarrow> (('q, 's, 'mh) session, unit) script" where
  "direct_listen_session V =
     and_next (on_swarm (lit ''listen failed: '') (facade_listen_all (rv_mh V) (rv_quic V))) (\<lambda>addrs.
       case addrs of
         [] \<Rightarrow> fail (lit ''listen completed without any bound peer addresses'')
       | first # _ \<Rightarrow>
           and_next (say_out (lit ''listen'') (lit ''bound='' @ show_peer_addr (rv_mh V) (local_dialable_peer_addr first))) (\<lambda>_.
           and_next (say_all (lit ''listen'') (map (\<lambda>a. lit ''listen-addr='' @ show_peer_addr (rv_mh V) a) addrs)) (\<lambda>_.
           and_next (say_err (lit ''listen'') (lit ''waiting for dialers (Ctrl-C to stop)'')) (\<lambda>_.
           and_next (instant_now V) (\<lambda>now. listen_loop V (now + LISTEN_FOREVER))))))"

definition direct_dial_session :: "('q, 's, 'mh::linorder) run_env \<Rightarrow> 'mh peer_addr \<Rightarrow> (('q, 's, 'mh) session, unit) script" where
  "direct_dial_session V target =
     and_next (on_swarm (lit ''dial failed: '') (facade_dial (rv_quic V) target)) (\<lambda>_.
     and_next (say_out (lit ''dial'') (lit ''dialing '' @ show_peer_addr (rv_mh V) target)) (\<lambda>_.
     and_next (instant_now V) (\<lambda>now.
     and_next (wait_until V (lit ''dial'') (lit ''waiting for peer ready: '') (now + DIAL_DEADLINE) (is_ready_event (pa_peer_id target))) (\<lambda>ready.
     and_next (or_fail (lit ''deadline exceeded before peer became ready'') ready) (\<lambda>_.
     and_next (session_ping V (lit ''ping failed: '') (pa_peer_id target)) (\<lambda>_.
     and_next (wait_until V (lit ''dial'') (lit ''waiting for ping rtt: '') (now + DIAL_DEADLINE) (is_rtt_event (pa_peer_id target))) (\<lambda>rtt.
     and_next (or_fail (lit ''deadline exceeded before ping rtt arrived'') rtt) (\<lambda>_. finish ()))))))))"

definition direct_run_listen where
  "direct_run_listen V D R X B F opts =
     and_next (direct_build_endpoint (rv_mh V) (rv_sha V) D R X B F opts (lit ''listen'')) (in_session (direct_listen_session V))"

definition direct_run_dial where
  "direct_run_dial V D R X B F target opts =
     and_next (direct_build_endpoint (rv_mh V) (rv_sha V) D R X B F opts (lit ''dial'')) (in_session (direct_dial_session V target))"

section \<open>Scripts that keep a session\<close>

text \<open>The events a wait has printed: it stops at the first one that is wanted.\<close>

lemma run_until_prints:
  assumes "run_until M H T clk late (\<lambda>ev out. (wanted ev, out @ print ev)) out d = Some (d', out', res)"
  shows "\<exists>evs. out' = out @ concat (map print evs) \<and> (\<forall>ev. res = Ok (Some ev) \<longrightarrow> wanted ev \<and> evs \<noteq> [] \<and> last evs = ev)"
proof -
  let ?stop = "\<lambda>ev out. (wanted ev, out @ print ev)"
  let ?P = "\<lambda>M' H' T' clk' late' stop out d x. stop = ?stop \<longrightarrow>
    (\<exists>evs. fst (snd x) = out @ concat (map print evs) \<and> (\<forall>ev. snd (snd x) = Ok (Some ev) \<longrightarrow> wanted ev \<and> evs \<noteq> [] \<and> last evs = ev))"
  have "?P M H T clk late ?stop out d (d', out', res)"
  proof (rule run_until.raw_induct [of ?P, OF _ assms])
    fix ru M' H' T' clk' late' stop out d x
    assume ih: "\<And>M' H' T' clk' late' stop out d x. ru M' H' T' clk' late' stop out d = Some x \<Longrightarrow> ?P M' H' T' clk' late' stop out d x"
      and step: "Option.bind (poll_next M' H' T' clk' late' d) (\<lambda>(d, res).
          case res of
            Inl e \<Rightarrow> Some (d, out, Err e)
          | Inr None \<Rightarrow> Some (d, out, Ok None)
          | Inr (Some ev) \<Rightarrow>
              (case stop ev out of
                 (stopped, out) \<Rightarrow> if stopped then Some (d, out, Ok (Some ev)) else ru M' H' T' clk' late' stop out d)) = Some x"
    show "?P M' H' T' clk' late' stop out d x"
    proof
      assume stop: "stop = ?stop"
      obtain d1 res1 where p: "poll_next M' H' T' clk' late' d = Some (d1, res1)"
        using step by (auto simp: bind_eq_Some_conv)
      show "\<exists>evs. fst (snd x) = out @ concat (map print evs) \<and> (\<forall>ev. snd (snd x) = Ok (Some ev) \<longrightarrow> wanted ev \<and> evs \<noteq> [] \<and> last evs = ev)"
      proof (cases "\<exists>ev. res1 = Ok (Some ev) \<and> \<not> wanted ev")
        case True
        then obtain ev where ev: "res1 = Ok (Some ev)" "\<not> wanted ev" by blast
        then have "ru M' H' T' clk' late' stop (out @ print ev) d1 = Some x"
          using step p stop by simp
        from ih [OF this] obtain evs where "fst (snd x) = out @ concat (map print (ev # evs))"
          "\<forall>e. snd (snd x) = Ok (Some e) \<longrightarrow> wanted e \<and> evs \<noteq> [] \<and> last evs = e" using stop by auto
        then show ?thesis by (intro exI [of _ "ev # evs"]) auto
      next
        case False
        then have "x = (d1, (case res1 of Inr (Some ev) \<Rightarrow> out @ print ev | _ \<Rightarrow> out), res1)"
          using step p stop by (auto split: sum.splits option.splits)
        then show ?thesis
          using False by (intro exI [of _ "case res1 of Inr (Some ev) \<Rightarrow> [ev] | _ \<Rightarrow> []"]) (auto split: sum.splits option.splits)
      qed
    qed
  qed
  then show ?thesis by simp
qed

definition app_ok :: "('q, 's, 'mh::linorder) run_env \<Rightarrow> identify_config \<Rightarrow> ping_config \<Rightarrow> ('q, 's, 'mh) session \<Rightarrow> bool" where
  "app_ok V ic pc w \<longleftrightarrow> facade_ok (rv_mh V) (rv_sha V) ic pc (rv_quic V) (ss_swarm w)"

text \<open>
  A script that keeps an invariant and only adds lines to the output; it panics only if it is a \<open>bad\<close> one.  For
  a session the invariant is that of its endpoint.
\<close>

definition keeping :: "('w \<Rightarrow> bool) \<Rightarrow> ('w \<Rightarrow> output_line list) \<Rightarrow> bool \<Rightarrow> ('w, 'a) script \<Rightarrow> bool" where
  "keeping I out bad m \<longleftrightarrow>
     (\<forall>w w' r. I w \<longrightarrow> m w = Some (w', r) \<longrightarrow> I w' \<and> (r = Panicked \<longrightarrow> bad) \<and> (\<exists>lines. out w' = out w @ lines))"

abbreviation steady ::
  "('q, 's, 'mh::linorder) run_env \<Rightarrow> identify_config \<Rightarrow> ping_config \<Rightarrow> bool \<Rightarrow> (('q, 's, 'mh) session, 'a) script \<Rightarrow> bool" where
  "steady V ic pc \<equiv> keeping (app_ok V ic pc) ss_out"

lemma steadyD:
  "keeping I out bad m \<Longrightarrow> I w \<Longrightarrow> m w = Some (w', r) \<Longrightarrow>
     I w' \<and> (r = Panicked \<longrightarrow> bad) \<and> (\<exists>lines. out w' = out w @ lines)"
  by (simp add: keeping_def)

lemma steady_finish [intro]: "keeping I out bad (finish x)"
  by (simp add: keeping_def finish_def)

lemma steady_fail [intro]: "keeping I out bad (fail message)"
  by (simp add: keeping_def fail_def)

lemma steady_or_fail [intro]: "keeping I out bad (or_fail message x)"
  by (cases x) (auto simp: or_fail_def)

lemma steady_and_next [intro]:
  assumes "keeping I out bad m" and "\<And>x. keeping I out bad (f x)"
  shows "keeping I out bad (and_next m f)"
  unfolding keeping_def
proof (intro allI impI)
  fix w w' r
  assume ok: "I w" and run: "and_next m f w = Some (w', r)"
  then obtain w1 r1 where m: "m w = Some (w1, r1)" by (cases "m w") (auto simp: and_next_def)
  note first = assms(1) [unfolded keeping_def, rule_format, OF ok m]
  then obtain lines where lines: "out w1 = out w @ lines" by blast
  show "I w' \<and> (r = Panicked \<longrightarrow> bad) \<and> (\<exists>lines. out w' = out w @ lines)"
  proof (cases r1)
    case (Done x)
    then have "f x w1 = Some (w', r)" using run m by (simp add: and_next_def)
    then show ?thesis
      using assms(2) [unfolded keeping_def, rule_format, of w1 x w' r] first lines by auto
  qed (use run m first lines in \<open>auto simp: and_next_def\<close>)
qed

lemma steady_case_list:
  "keeping I out bad a \<Longrightarrow> (\<And>y ys. keeping I out bad (f y ys)) \<Longrightarrow> keeping I out bad (case xs of [] \<Rightarrow> a | y # ys \<Rightarrow> f y ys)"
  by (cases xs) auto

lemma steady_case_option:
  "keeping I out bad a \<Longrightarrow> (\<And>y. keeping I out bad (f y)) \<Longrightarrow> keeping I out bad (case x of None \<Rightarrow> a | Some y \<Rightarrow> f y)"
  by (cases x) auto

lemma steady_if: "keeping I out bad a \<Longrightarrow> keeping I out bad b \<Longrightarrow> keeping I out bad (if c then a else b)"
  by auto

lemma steady_lift [intro]: "keeping I out bad (lift_result show_error r)"
  by (cases r) (auto simp: lift_result_def)

lemma steady_say [intro]: "steady V ic pc bad (say line)" "steady V ic pc bad (say_out role content)" "steady V ic pc bad (say_err role content)"
  by (auto simp: keeping_def say_def say_out_def say_err_def finish_def app_ok_def)

lemma steady_say_all [intro]: "steady V ic pc bad (say_all role lines)"
  by (induction lines) (auto intro!: steady_and_next)

lemma steady_instant [intro]: "steady V ic pc bad (instant_now V')"
  by (auto simp: keeping_def instant_now_def finish_def app_ok_def facade_ok_def)

lemma steady_on_swarm:
  assumes "\<And>d. facade_ok (rv_mh V) (rv_sha V) ic pc (rv_quic V) d \<Longrightarrow> facade_ok (rv_mh V) (rv_sha V) ic pc (rv_quic V) (fst (call d))"
  shows "steady V ic pc bad (on_swarm message call)"
  unfolding keeping_def
proof (intro allI impI)
  fix w w' r
  assume ok: "app_ok V ic pc w" and run: "on_swarm message call w = Some (w', r)"
  obtain d res where call: "call (ss_swarm w) = (d, res)" by force
  then have "facade_ok (rv_mh V) (rv_sha V) ic pc (rv_quic V) d"
    using assms [of "ss_swarm w"] ok by (simp add: app_ok_def)
  then show "app_ok V ic pc w' \<and> (r = Panicked \<longrightarrow> bad) \<and> (\<exists>lines. ss_out w' = ss_out w @ lines)"
    using run call by (cases res) (auto simp: on_swarm_def lift_result_def fail_def finish_def app_ok_def)
qed

lemma steady_try_swarm:
  assumes "\<And>d. facade_ok (rv_mh V) (rv_sha V) ic pc (rv_quic V) d \<Longrightarrow>
    \<exists>d' res. call d = Some (d', res) \<and> facade_ok (rv_mh V) (rv_sha V) ic pc (rv_quic V) d'"
  shows "steady V ic pc bad (try_swarm message call)"
  unfolding keeping_def
proof (intro allI impI)
  fix w w' r
  assume ok: "app_ok V ic pc w" and run: "try_swarm message call w = Some (w', r)"
  obtain d res where "call (ss_swarm w) = Some (d, res)" "facade_ok (rv_mh V) (rv_sha V) ic pc (rv_quic V) d"
    using assms ok unfolding app_ok_def by blast
  then show "app_ok V ic pc w' \<and> (r = Panicked \<longrightarrow> bad) \<and> (\<exists>lines. ss_out w' = ss_out w @ lines)"
    using run by (cases res) (auto simp: try_swarm_def lift_result_def fail_def finish_def app_ok_def)
qed

text \<open>What a session needs of its environment: the laws of the QUIC transport, and full payloads of random bytes.\<close>

locale session_laws = quic_laws "rv_quic V" packets unread backlog sent
  for V :: "('q, 's, 'mh::linorder) run_env" and packets unread backlog sent +
  assumes crypto: "crypto_laws (rv_mh V) (rv_sha V)"
    and entropy: "rv_entropy V n = Some payload \<Longrightarrow> length payload = PING_PAYLOAD_LEN"
begin

lemma wait_printing_returns:
  assumes "app_ok V ic pc w" and "wait_printing V lines message deadline wanted w = Some (w', r)"
  shows "app_ok V ic pc w' \<and> r \<noteq> Panicked \<and> (\<exists>evs. ss_out w' = ss_out w @ concat (map lines evs) \<and>
    (\<forall>ev. r = Done (Some ev) \<longrightarrow> wanted ev \<and> evs \<noteq> [] \<and> last evs = ev))"
proof -
  obtain d out res where run: "run_until (rv_mh V) (rv_sha V) (quic_endpoint_transport (rv_mh V) (rv_quic V)) (rv_clk V)
      (\<lambda>n. deadline \<le> rv_inst V n) (\<lambda>ev out. (wanted ev, out @ lines ev)) (ss_out w) (ss_swarm w) = Some (d, out, res)"
    using assms(2) by (auto simp: wait_printing_def split: option.splits)
  have "facade_ok (rv_mh V) (rv_sha V) ic pc (rv_quic V) d"
    using quic.run_until_safe [OF _ run] assms(1) unfolding app_ok_def facade_ok_def by blast
  then show ?thesis
    using assms(2) run run_until_prints [OF run]
    by (cases res) (auto simp: wait_printing_def lift_result_def fail_def finish_def app_ok_def)
qed

lemma wait_until_returns:
  assumes "app_ok V ic pc w" and "wait_until V role message deadline wanted w = Some (w', r)"
  shows "app_ok V ic pc w' \<and> r \<noteq> Panicked \<and> (\<exists>evs. ss_out w' = ss_out w @ map (print_event (rv_mh V) (rv_dbg V) role) evs \<and>
    (\<forall>ev. r = Done (Some ev) \<longrightarrow> wanted ev \<and> evs \<noteq> [] \<and> last evs = ev))"
  using wait_printing_returns [OF assms(1) assms(2) [unfolded wait_until_def]] by simp

lemma steady_wait_printing [intro]: "steady V ic pc bad (wait_printing V lines message deadline wanted)"
  unfolding keeping_def using wait_printing_returns by blast

lemma steady_wait [intro]: "steady V ic pc bad (wait_until V role message deadline wanted)"
  unfolding keeping_def using wait_until_returns by blast

lemma steady_ping [intro]: "steady V ic pc bad (session_ping V message p)"
  unfolding keeping_def
proof (intro allI impI)
  fix w w' r
  assume ok: "app_ok V ic pc w" and run: "session_ping V message p w = Some (w', r)"
  let ?n = "dv_readings (ss_swarm w)"
  have "steady V ic pc bad (try_swarm message
      (facade_ping (rv_mh V) (rv_sha V) (rv_quic V) (rv_clk V) (rv_entropy V ?n) (rv_seed V ?n) p))"
    using entropy by (intro steady_try_swarm facade_ping_ok) auto
  then show "app_ok V ic pc w' \<and> (r = Panicked \<longrightarrow> bad) \<and> (\<exists>lines. ss_out w' = ss_out w @ lines)"
    using ok run unfolding keeping_def session_ping_def by blast
qed

lemma steady_dial [intro]: "steady V ic pc bad (on_swarm message (facade_dial (rv_quic V) target))"
  by (intro steady_on_swarm facade_dial_ok)

lemma steady_listen_all [intro]: "steady V ic pc bad (on_swarm message (facade_listen_all (rv_mh V) (rv_quic V)))"
  by (intro steady_on_swarm facade_listen_ok)

lemma wait_never_found:
  assumes "wait_until V role message deadline (\<lambda>_. False) w = Some (w', r)" and "app_ok V ic pc w"
  shows "r = Done None \<or> (\<exists>e. r = Failed e)"
proof (cases r)
  case (Done x)
  then show ?thesis using wait_until_returns [OF assms(2,1)] by (cases x) auto
qed (use wait_until_returns [OF assms(2,1)] in auto)

lemma steady_listen_loop [intro]: "steady V ic pc bad (listen_loop V deadline)"
  unfolding keeping_def
proof (intro allI impI)
  fix w w' r
  assume ok: "app_ok V ic pc w" and run: "listen_loop V deadline w = Some (w', r)"
  then obtain w1 r1 where step: "wait_until V (lit ''listen'') (lit ''swarm run_until: '') deadline (\<lambda>_. False) w = Some (w1, r1)"
    by (subst (asm) listen_loop.simps) (auto simp: bind_eq_Some_conv)
  have "w' = w1 \<and> r \<noteq> Panicked"
    using run step wait_never_found [OF step ok] by (subst (asm) listen_loop.simps) auto
  then show "app_ok V ic pc w' \<and> (r = Panicked \<longrightarrow> bad) \<and> (\<exists>lines. ss_out w' = ss_out w @ lines)"
    using wait_until_returns [OF ok step] by auto
qed

lemma steady_direct:
  "steady V ic pc bad (direct_listen_session V)" "steady V ic pc bad (direct_dial_session V target)"
  unfolding direct_listen_session_def direct_dial_session_def
  by (intro steady_and_next steady_case_list; auto)+

lemma wait_found:
  assumes "app_ok V ic pc w" and "wait_until V role message deadline wanted w = Some (w', Done (Some ev))"
  shows "wanted ev \<and> (\<exists>lines. ss_out w' = ss_out w @ lines @ [print_event (rv_mh V) (rv_dbg V) role ev])"
proof -
  obtain evs where evs: "ss_out w' = ss_out w @ map (print_event (rv_mh V) (rv_dbg V) role) evs" "wanted ev" "evs \<noteq> []" "last evs = ev"
    using wait_until_returns [OF assms] by blast
  then obtain before where "evs = before @ [ev]" by (cases evs rule: rev_cases) auto
  then show ?thesis
    using evs(1,2) by auto
qed

lemma direct_dial_prints:
  assumes "app_ok V ic pc w" and "direct_dial_session V target w = Some (w', Done ())"
  shows "\<exists>before ps between rtt. ss_out w' = ss_out w @
    before @ [print_event (rv_mh V) (rv_dbg V) (lit ''dial'') (SwPeerReady (pa_peer_id target) ps)] @
    between @ [print_event (rv_mh V) (rv_dbg V) (lit ''dial'') (SwPingRttMeasured (pa_peer_id target) rtt)]"
proof -
  let ?p = "pa_peer_id target"
  let ?ready = "\<lambda>now. wait_until V (lit ''dial'') (lit ''waiting for peer ready: '') (now + DIAL_DEADLINE) (is_ready_event ?p)"
  let ?rtt = "\<lambda>now. wait_until V (lit ''dial'') (lit ''waiting for ping rtt: '') (now + DIAL_DEADLINE) (is_rtt_event ?p)"
  let ?print = "print_event (rv_mh V) (rv_dbg V) (lit ''dial'')"
  obtain w1 w2 w3 w4 w5 now ready rtt ids where run:
    "on_swarm (lit ''dial failed: '') (facade_dial (rv_quic V) target) w = Some (w1, Done ids)"
    "say_out (lit ''dial'') (lit ''dialing '' @ show_peer_addr (rv_mh V) target) w1 = Some (w2, Done ())"
    "instant_now V w2 = Some (w3, Done now)" "?ready now w3 = Some (w4, Done (Some ready))"
    "session_ping V (lit ''ping failed: '') ?p w4 = Some (w5, Done ())" "?rtt now w5 = Some (w', Done (Some rtt))"
    using assms(2) unfolding direct_dial_session_def
    by (auto simp: and_next_Done or_fail_def fail_def finish_def split: option.splits)
  have ok3: "app_ok V ic pc w3" "\<exists>lines. ss_out w3 = ss_out w @ lines"
    using steadyD [OF steady_dial assms(1) run(1)] steadyD [OF steady_say(2) _ run(2), of V ic pc]
      steadyD [OF steady_instant _ run(3), of V ic pc] by auto
  obtain ps lines where ready: "ready = SwPeerReady ?p ps" "ss_out w4 = ss_out w3 @ lines @ [?print ready]"
    using wait_found [OF ok3(1) run(4)] by (cases ready) auto
  have ok5: "app_ok V ic pc w5" "\<exists>lines. ss_out w5 = ss_out w4 @ lines"
    using steadyD [OF steady_wait ok3(1) run(4)] steadyD [OF steady_ping _ run(5)] by auto
  obtain ms lines' where rtt: "rtt = SwPingRttMeasured ?p ms" "ss_out w' = ss_out w5 @ lines' @ [?print rtt]"
    using wait_found [OF ok5(1) run(6)] by (cases rtt) auto
  obtain lines3 lines5 where "ss_out w3 = ss_out w @ lines3" "ss_out w5 = ss_out w4 @ lines5"
    using ok3(2) ok5(2) by blast
  then have "ss_out w' = ss_out w @ (lines3 @ lines) @ [?print ready] @ (lines5 @ lines') @ [?print rtt]"
    using ready(2) rtt(2) by (simp del: print_event.simps)
  then show ?thesis unfolding ready(1) rtt(1) by blast
qed

end


text \<open>A session over the small QUIC whose deadlines pass after a while.\<close>

definition demo_run_env :: "(mini_quic, mini_os, mh64) run_env" where
  "demo_run_env = \<lparr>rv_mh = mh64_api, rv_sha = demo_crypto, rv_quic = demo_tls_env, rv_clk = (\<lambda>_. 0), rv_inst = (\<lambda>n. 1000 * n),
     rv_entropy = (\<lambda>_. None), rv_seed = (\<lambda>_. 7), rv_dbg = (\<lambda>_. [])\<rparr>"

interpretation demo_session: session_laws demo_run_env mq_packets "\<lambda>_. 0" "\<lambda>k. length (mo_inbox k)" mq_sent
  by unfold_locales
    (simp_all add: demo_run_env_def demo_quic.loop demo_quic.send demo_quic.order demo_quic.handshake demo_crypto_laws)

definition demo_app :: "(mini_quic, mini_os, mh64) session" where
  "demo_app = \<lparr>ss_swarm = demo_endpoint, ss_out = []\<rparr>"

lemma demo_app_ok: "app_ok demo_run_env demo_identify \<lparr>request_timeout_ms = 1000\<rparr> demo_app"
  unfolding app_ok_def demo_run_env_def demo_app_def demo_endpoint_def
  by (simp add: facade_ok_new demo_crypto_laws)


end
