(* ===== verification/PeerCandidates.thy ===== *)
theory PeerCandidates
  imports PeerDirect
begin

text \<open>
  The addresses that the relay modes of the example program, \<open>examples/peer/src/relay.rs\<close>, advertise and
  compare: the candidates for a direct connection, the order after a reachability check, and the sources of
  inbound connections.
\<close>

section \<open>Candidates\<close>

fun source_as_str :: "direct_candidate_source \<Rightarrow> rstr" where
  "source_as_str Manual = lit ''manual''"
| "source_as_str IdentifyObserved = lit ''identify-observed''"
| "source_as_str Listen = lit ''listen''"

fun reason_as_str :: "direct_candidate_reject_reason \<Rightarrow> rstr" where
  "reason_as_str WildcardBindAddress = lit ''wildcard-bind-address''"
| "reason_as_str NotQuicV1Transport = lit ''not-quic-v1-transport''"
| "reason_as_str Duplicate = lit ''duplicate''"

text \<open>One turn of the loop over the bound addresses: each is selected alone and then joined.\<close>

definition add_bound_addr :: "'mh direct_candidate_selection \<Rightarrow> 'mh multiaddr \<Rightarrow> 'mh direct_candidate_selection" where
  "add_bound_addr selection bound_addr =
     (let bound_selection = select_direct_candidates [] None (Some bound_addr);
          selection = foldl (\<lambda>s candidate.
            if list_ex (\<lambda>a. dc_addr a = dc_addr candidate) (accepted s)
            then s\<lparr>rejected := rejected s @
                   [\<lparr>dr_source = dc_source candidate, dr_addr = dc_addr candidate, dr_reason = Duplicate\<rparr>]\<rparr>
            else s\<lparr>accepted := accepted s @ [candidate]\<rparr>) selection (accepted bound_selection)
      in selection\<lparr>rejected := rejected selection @ rejected bound_selection\<rparr>)"

definition select_all_candidates ::
  "'mh multiaddr list \<Rightarrow> 'mh multiaddr list \<Rightarrow> 'mh multiaddr option \<Rightarrow> 'mh direct_candidate_selection" where
  "select_all_candidates bound_addrs external_addrs observed_addr =
     foldl add_bound_addr (select_direct_candidates external_addrs observed_addr None) bound_addrs"

definition candidate_addrs ::
  "'mh multihash_api \<Rightarrow> rstr \<Rightarrow> 'mh multiaddr list \<Rightarrow> 'mh multiaddr list \<Rightarrow> 'mh multiaddr option \<Rightarrow>
     (('q, 's, 'mh) session, 'mh multiaddr list) script" where
  "candidate_addrs M role bound_addrs external_addrs observed_addr =
     (let selection = select_all_candidates bound_addrs external_addrs observed_addr
      in and_next (say_all role (map (\<lambda>c. lit ''candidate-added source='' @ source_as_str (dc_source c) @
           lit '' addr='' @ show_multiaddr M (dc_addr c)) (accepted selection))) (\<lambda>_.
         and_next (say_all role (map (\<lambda>r. lit ''candidate-skipped source='' @ source_as_str (dr_source r) @
           lit '' addr='' @ show_multiaddr M (dr_addr r) @ lit '' reason='' @ reason_as_str (dr_reason r)) (rejected selection))) (\<lambda>_.
         and_next (if accepted selection = []
           then say_err role (lit ''no-dialable-dcutr-candidates; add --external-addr or bind a non-wildcard address'')
           else finish ()) (\<lambda>_.
         finish (into_addrs selection)))))"

definition relay_observed_addr ::
  "'mh multihash_api \<Rightarrow> 'mh peer_id \<Rightarrow> rstr \<Rightarrow> (('q, 's, 'mh) session, 'mh multiaddr option) script" where
  "relay_observed_addr M relay_peer_id role = (\<lambda>w.
     case driver_peer_info relay_peer_id (ss_swarm w) of
       None \<Rightarrow> finish None w
     | Some info \<Rightarrow>
         (case im_observed_addr info of
            None \<Rightarrow> finish None w
          | Some raw \<Rightarrow>
              (case multiaddr_from_bytes M raw of
                 Inr addr \<Rightarrow> finish (Some addr) w
               | Inl e \<Rightarrow>
                   and_next (say_err role (lit ''candidate-skipped source=identify-observed reason=parse-failed error='' @
                     show_multiaddr_error e)) (\<lambda>_. finish None) w)))"

fun successful_candidates_in_original_order :: "'mh multiaddr list \<Rightarrow> 'mh multiaddr list \<Rightarrow> 'mh multiaddr list" where
  "successful_candidates_in_original_order [] successful = []"
| "successful_candidates_in_original_order (candidate # candidates) successful =
     (if list_ex (\<lambda>addr. addr = candidate) successful
      then candidate # successful_candidates_in_original_order candidates successful
      else successful_candidates_in_original_order candidates successful)"

definition push_unique :: "'mh multiaddr list \<Rightarrow> 'mh multiaddr \<Rightarrow> 'mh multiaddr list" where
  "push_unique addrs addr = (if \<not> list_ex (\<lambda>existing. existing = addr) addrs then addrs @ [addr] else addrs)"

definition print_candidates :: "'mh multihash_api \<Rightarrow> rstr \<Rightarrow> 'mh multiaddr list \<Rightarrow> (('q, 's, 'mh) session, unit) script" where
  "print_candidates M role candidates =
     say_out role (lit ''dcutr-candidates ['' @ join_with (lit '','') (map (show_multiaddr M) candidates) @ lit '']'')"

definition print_remote_candidates ::
  "'mh multihash_api \<Rightarrow> rstr \<Rightarrow> 'mh multiaddr list \<Rightarrow> (('q, 's, 'mh) session, unit) script" where
  "print_remote_candidates M role candidates =
     say_out role (lit ''remote-dcutr-candidates ['' @ join_with (lit '','') (map (show_multiaddr M) candidates) @ lit '']'')"

section \<open>Inbound connections\<close>

text \<open>The host and the port of an address with an IP or DNS host and UDP.\<close>

definition extract_ip_port :: "'mh multiaddr \<Rightarrow> (rstr \<times> u16) option" where
  "extract_ip_port addr =
     (case protocols addr of
        p0 # p1 # _ \<Rightarrow>
          Option.bind
            (case p0 of
               Ip4 b \<Rightarrow> Some (show_ip4 b)
             | Ip6 b \<Rightarrow> Some (show_ipv6 b)
             | Dns v \<Rightarrow> Some v
             | Dns4 v \<Rightarrow> Some v
             | Dns6 v \<Rightarrow> Some v
             | _ \<Rightarrow> None) (\<lambda>host.
          case p1 of Udp p \<Rightarrow> Some (host, p) | _ \<Rightarrow> None)
      | _ \<Rightarrow> None)"

definition any_source_matches :: "'mh multiaddr list \<Rightarrow> (rstr \<times> u16) list \<Rightarrow> bool" where
  "any_source_matches sources targets \<longleftrightarrow>
     (if targets = [] then False
      else list_ex (\<lambda>src. list_ex (\<lambda>tgt. src = tgt) targets) (List.map_filter extract_ip_port sources))"

section \<open>What is advertised\<close>

lemma add_bound_addr_push: "add_bound_addr s a = push_candidate s Listen a"
  by (auto simp: add_bound_addr_def select_direct_candidates_def push_candidate_def reject_candidate_def Let_def)

text \<open>All candidates in the order in which they are considered.\<close>

definition offered ::
  "'mh multiaddr list \<Rightarrow> 'mh multiaddr list \<Rightarrow> 'mh multiaddr option \<Rightarrow> (direct_candidate_source \<times> 'mh multiaddr) list" where
  "offered bound_addrs external_addrs observed_addr =
     candidate_inputs external_addrs observed_addr None @ map (Pair Listen) bound_addrs"

lemma select_all_candidates_foldl:
  "select_all_candidates bound_addrs external_addrs observed_addr =
     foldl (\<lambda>s (src, a). push_candidate s src a) \<lparr>accepted = [], rejected = []\<rparr> (offered bound_addrs external_addrs observed_addr)"
  by (simp add: select_all_candidates_def offered_def select_foldl add_bound_addr_push [abs_def] foldl_map)

lemma say_all_Done: "say_all role lines w = Some (w\<lparr>ss_out := ss_out w @ map (\<lambda>l. Stdout (tagged role l)) lines\<rparr>, Done ())"
  by (induction lines arbitrary: w) (simp_all add: finish_def and_next_def say_out_def say_def)

lemma candidate_addrs_Done:
  "\<exists>lines. candidate_addrs M role bound_addrs external_addrs observed_addr w =
     Some (w\<lparr>ss_out := ss_out w @ lines\<rparr>, Done (into_addrs (select_all_candidates bound_addrs external_addrs observed_addr))) \<and>
     length lines = length (accepted (select_all_candidates bound_addrs external_addrs observed_addr)) +
       length (rejected (select_all_candidates bound_addrs external_addrs observed_addr)) +
       (if accepted (select_all_candidates bound_addrs external_addrs observed_addr) = [] then 1 else 0)"
  by (auto simp: candidate_addrs_def Let_def and_next_def say_all_Done finish_def say_err_def say_def)

lemma successful_filter: "successful_candidates_in_original_order candidates successful = filter (\<lambda>a. a \<in> set successful) candidates"
  by (induction candidates) (auto simp: list_ex_iff)

lemma push_unique_fold: "foldl push_unique [] as = rev (remdups (rev as))"
proof (induction as rule: rev_induct)
  case (snoc a as)
  have "set (rev (remdups (rev as))) = set as" by simp
  then show ?case using snoc by (simp add: push_unique_def list_ex_iff)
qed simp

text \<open>
  C35. What a node offers for direct connections is exactly the dialable addresses among those given on the
  command line, the one the relay has observed and those it is bound to, in this order, each once; a line is
  printed for every address that was considered, and a warning when none is left.  After a successful check
  with AutoNAT it offers those the service has reached, in the same order.
\<close>

theorem relay_candidates:
  "(\<exists>lines. candidate_addrs M role bound_addrs external_addrs observed_addr w =
     Some (w\<lparr>ss_out := ss_out w @ lines\<rparr>,
       Done (rev (remdups (rev (filter dialable (map snd (offered bound_addrs external_addrs observed_addr))))))) \<and>
     length lines = length (offered bound_addrs external_addrs observed_addr) +
       (if filter dialable (map snd (offered bound_addrs external_addrs observed_addr)) = [] then 1 else 0)) \<and>
   successful_candidates_in_original_order candidates reached = filter (\<lambda>a. a \<in> set reached) candidates"
proof -
  let ?cs = "offered bound_addrs external_addrs observed_addr"
  let ?sel = "select_all_candidates bound_addrs external_addrs observed_addr"
  have addrs: "into_addrs ?sel = rev (remdups (rev (filter dialable (map snd ?cs))))"
    unfolding select_all_candidates_foldl push_candidates_addrs by (simp add: into_addrs_def)
  have count: "length (accepted ?sel) + length (rejected ?sel) = length ?cs"
    unfolding select_all_candidates_foldl push_candidates_accounted by simp
  have "accepted ?sel = [] \<longleftrightarrow> into_addrs ?sel = []" by (simp add: into_addrs_def)
  then have none: "accepted ?sel = [] \<longleftrightarrow> filter dialable (map snd ?cs) = []" unfolding addrs by simp
  obtain lines where "candidate_addrs M role bound_addrs external_addrs observed_addr w =
      Some (w\<lparr>ss_out := ss_out w @ lines\<rparr>, Done (into_addrs ?sel))"
    "length lines = length (accepted ?sel) + length (rejected ?sel) + (if accepted ?sel = [] then 1 else 0)"
    using candidate_addrs_Done by blast
  then show ?thesis
    unfolding addrs count none by (auto simp: successful_filter)
qed

end
