(* ===== verification/PeerFlows.thy ===== *)
theory PeerFlows
  imports PeerCandidates Relay Dcutr AutoNat
begin

text \<open>
  The small helpers of \<open>examples/peer/src/relay.rs\<close>: the calls of the relay, DCUtR and AutoNAT machines, and the
  waits for events of the swarm.  A machine that panics makes the script panic.
\<close>

section \<open>Text of errors\<close>

fun show_relay_error :: "relay_error \<Rightarrow> rstr" where
  "show_relay_error (RelayMessageTooLarge len) =
     lit ''relay message exceeds maximum size ('' @ show_nat len @ lit '' > '' @ show_nat RELAY_MAX_MESSAGE_SIZE @ lit '')''"
| "show_relay_error (RelayMalformed e) = lit ''malformed relay message: '' @ show_relay_message_error e"
| "show_relay_error (RelayUnexpectedMessage reason) = lit ''unexpected message: '' @ reason"

fun show_dcutr_message_error :: "dcutr_message_error \<Rightarrow> rstr" where
  "show_dcutr_message_error (DmVarint e) = lit ''varint error: '' @ show_varint_error e"
| "show_dcutr_message_error (DmFieldOverflow offset len remaining) =
     lit ''field at offset '' @ show_nat offset @ lit '' claims length '' @ show_nat len @
     lit '' but only '' @ show_nat remaining @ lit '' bytes remain''"
| "show_dcutr_message_error (DmUnsupportedWireType wt offset) =
     lit ''unsupported wire type '' @ show_nat (unat wt) @ lit '' at offset '' @ show_nat offset"
| "show_dcutr_message_error DmMissingType = lit ''required `type` field missing''"
| "show_dcutr_message_error (DmInvalidType v) = lit ''invalid HolePunch type value: '' @ show_nat (unat v)"

fun show_dcutr_error :: "dcutr_error \<Rightarrow> rstr" where
  "show_dcutr_error (DcutrMessageTooLarge len) =
     lit ''DCUtR message exceeds maximum size ('' @ show_nat len @ lit '' > '' @ show_nat DCUTR_MAX_MESSAGE_SIZE @ lit '')''"
| "show_dcutr_error (DcutrMalformed e) = lit ''malformed DCUtR message: '' @ show_dcutr_message_error e"
| "show_dcutr_error (DcutrUnexpectedMessage reason) = lit ''unexpected message: '' @ reason"

fun show_autonat_error :: "autonat_error \<Rightarrow> rstr" where
  "show_autonat_error (AnMessageTooLarge len) =
     lit ''AutoNAT message exceeds maximum size ('' @ show_nat len @ lit '' > '' @ show_nat AUTONAT_MAX_MESSAGE_SIZE @ lit '')''"
| "show_autonat_error (AnFrameTooLarge len) =
     lit ''AutoNAT frame length exceeds maximum size ('' @ show_nat len @ lit '' > '' @ show_nat AUTONAT_MAX_MESSAGE_SIZE @ lit '')''"
| "show_autonat_error (AnVarint e) = lit ''varint error: '' @ show_varint_error e"
| "show_autonat_error (AnFieldOverflow offset len remaining) =
     lit ''field at offset '' @ show_nat offset @ lit '' claims length '' @ show_nat len @
     lit '' but only '' @ show_nat remaining @ lit '' bytes remain''"
| "show_autonat_error (AnUnsupportedWireType wt offset) =
     lit ''unsupported wire type '' @ show_nat (unat wt) @ lit '' at offset '' @ show_nat offset"
| "show_autonat_error AnMissingType = lit ''required `type` field missing''"
| "show_autonat_error (AnInvalidMessageType v) = lit ''invalid message type value: '' @ show_nat (unat v)"
| "show_autonat_error (AnMissingField field) = lit ''required field missing: '' @ field"
| "show_autonat_error (AnUnexpectedMessage reason) = lit ''unexpected message: '' @ reason"
| "show_autonat_error (AnInvalidPeerId reason) = lit ''invalid peer id in AutoNAT message: '' @ reason"

fun debug_relay_status :: "relay_status \<Rightarrow> rstr" where
  "debug_relay_status StUnused = lit ''Unused''"
| "debug_relay_status StOk = lit ''Ok''"
| "debug_relay_status StReservationRefused = lit ''ReservationRefused''"
| "debug_relay_status StResourceLimitExceeded = lit ''ResourceLimitExceeded''"
| "debug_relay_status StPermissionDenied = lit ''PermissionDenied''"
| "debug_relay_status StConnectionFailed = lit ''ConnectionFailed''"
| "debug_relay_status StNoReservation = lit ''NoReservation''"
| "debug_relay_status StMalformedMessage = lit ''MalformedMessage''"
| "debug_relay_status StUnexpectedMessage = lit ''UnexpectedMessage''"

fun debug_response_status :: "response_status \<Rightarrow> rstr" where
  "debug_response_status RsOk = lit ''Ok''"
| "debug_response_status RsDialError = lit ''DialError''"
| "debug_response_status RsDialRefused = lit ''DialRefused''"
| "debug_response_status RsBadRequest = lit ''BadRequest''"
| "debug_response_status RsInternalError = lit ''InternalError''"

section \<open>Calls of the machines\<close>

text \<open>
  A call gives the machine one input and takes one output: \<open>machine_flush\<close> ignores an error of the input,
  \<open>machine_feed\<close> ends with its message.
\<close>

definition machine_flush ::
  "('m \<times> ('e + unit)) option \<Rightarrow> ('m \<Rightarrow> 'o option \<times> 'm) \<Rightarrow> ('o option \<Rightarrow> 'x) \<Rightarrow> ('w, 'm \<times> 'x) script" where
  "machine_flush handled poll pick =
     (case handled of
        None \<Rightarrow> panic
      | Some (m, _) \<Rightarrow> (case poll m of (output, m) \<Rightarrow> finish (m, pick output)))"

definition machine_feed ::
  "('e \<Rightarrow> rstr) \<Rightarrow> ('m \<times> ('e + unit)) option \<Rightarrow> ('m \<Rightarrow> 'o option \<times> 'm) \<Rightarrow> ('o option \<Rightarrow> 'x) \<Rightarrow> ('w, 'm \<times> 'x) script" where
  "machine_feed message handled poll pick =
     (case handled of
        None \<Rightarrow> panic
      | Some (_, Inl e) \<Rightarrow> fail (message e)
      | Some (m, Inr _) \<Rightarrow> (case poll m of (output, m) \<Rightarrow> finish (m, pick output)))"

definition relay_reservation_flush :: "hop_reservation \<Rightarrow> ('w, hop_reservation \<times> bytes) script" where
  "relay_reservation_flush flow =
     machine_flush (hr_handle_input HrFlush flow) hr_poll_output (\<lambda>output. case output of Some (HrOutbound bs) \<Rightarrow> bs | _ \<Rightarrow> [])"

definition relay_reservation_feed ::
  "hop_reservation \<Rightarrow> bytes \<Rightarrow> ('w, hop_reservation \<times> reservation_outcome option) script" where
  "relay_reservation_feed flow data =
     machine_feed (\<lambda>e. lit ''HOP decode: '' @ show_relay_error e) (hr_handle_input (HrData data) flow) hr_poll_output
       (\<lambda>output. case output of Some (HrOutcome x) \<Rightarrow> Some x | _ \<Rightarrow> None)"

definition hop_connect_flush :: "hop_connect \<Rightarrow> ('w, hop_connect \<times> bytes) script" where
  "hop_connect_flush flow =
     machine_flush (hc_handle_input HcFlush flow) hc_poll_output (\<lambda>output. case output of Some (HcOutbound bs) \<Rightarrow> bs | _ \<Rightarrow> [])"

definition hop_connect_feed :: "hop_connect \<Rightarrow> bytes \<Rightarrow> ('w, hop_connect \<times> connect_outcome option) script" where
  "hop_connect_feed flow data =
     machine_feed (\<lambda>e. lit ''HOP decode: '' @ show_relay_error e) (hc_handle_input (HcData data) flow) hc_poll_output
       (\<lambda>output. case output of Some (HcOutcome x) \<Rightarrow> Some x | _ \<Rightarrow> None)"

definition hop_connect_bridge_bytes :: "hop_connect \<Rightarrow> hop_connect \<times> bytes" where
  "hop_connect_bridge_bytes flow =
     (case hc_poll_output flow of (output, flow) \<Rightarrow> (flow, case output of Some (HcBridgeData bs) \<Rightarrow> bs | _ \<Rightarrow> []))"

definition stop_feed :: "stop_responder \<Rightarrow> bytes \<Rightarrow> ('w, stop_responder \<times> stop_connect_request option) script" where
  "stop_feed flow data =
     machine_feed (\<lambda>e. lit ''STOP decode: '' @ show_relay_error e) (sr_handle_input (SrData data) flow) sr_poll_output
       (\<lambda>output. case output of Some (SrRequest request) \<Rightarrow> Some request | _ \<Rightarrow> None)"

definition stop_accept_flush :: "stop_responder \<Rightarrow> ('w, stop_responder \<times> bytes) script" where
  "stop_accept_flush flow =
     machine_feed (\<lambda>e. lit ''STOP accept: '' @ show_relay_error e) (sr_handle_input SrAccept flow) sr_poll_output
       (\<lambda>output. case output of Some (SrOutbound bs) \<Rightarrow> bs | _ \<Rightarrow> [])"

definition stop_bridge_bytes :: "stop_responder \<Rightarrow> stop_responder \<times> bytes" where
  "stop_bridge_bytes flow =
     (case sr_poll_output flow of (output, flow) \<Rightarrow> (flow, case output of Some (SrBridgeData bs) \<Rightarrow> bs | _ \<Rightarrow> []))"

definition dcutr_responder_feed ::
  "'mh multihash_api \<Rightarrow> 'mh dcutr_responder \<Rightarrow> bytes \<Rightarrow> ('w, 'mh dcutr_responder) script" where
  "dcutr_responder_feed M flow data =
     (case dr_handle_input M (DrData data) flow of
        None \<Rightarrow> panic
      | Some (_, Inl e) \<Rightarrow> fail (lit ''DCUtR decode: '' @ show_dcutr_error e)
      | Some (flow, Inr _) \<Rightarrow> finish flow)"

definition dcutr_initiator_flush ::
  "'mh multihash_api \<Rightarrow> 'mh dcutr_initiator \<Rightarrow> ('w, 'mh dcutr_initiator \<times> bytes) script" where
  "dcutr_initiator_flush M flow =
     machine_flush (di_handle_input M DiFlush flow) di_poll_output (\<lambda>output. case output of Some (DiOutbound bs) \<Rightarrow> bs | _ \<Rightarrow> [])"

definition dcutr_initiator_feed ::
  "'mh multihash_api \<Rightarrow> 'mh dcutr_initiator \<Rightarrow> bytes \<Rightarrow> u64 \<Rightarrow> ('w, 'mh dcutr_initiator \<times> 'mh initiator_outcome option) script" where
  "dcutr_initiator_feed M flow data rtt_ms =
     machine_feed (\<lambda>e. lit ''DCUtR decode: '' @ show_dcutr_error e) (di_handle_input M (DiData data rtt_ms) flow) di_poll_output
       (\<lambda>output. case output of Some (DiOutcome x) \<Rightarrow> Some x | _ \<Rightarrow> None)"

definition dcutr_initiator_send_sync_flush ::
  "'mh multihash_api \<Rightarrow> 'mh dcutr_initiator \<Rightarrow> ('w, 'mh dcutr_initiator \<times> bytes) script" where
  "dcutr_initiator_send_sync_flush M flow =
     (case di_handle_input M DiSendSync flow of
        None \<Rightarrow> panic
      | Some (_, Inl e) \<Rightarrow> fail (lit ''DCUtR send_sync: '' @ show_dcutr_error e)
      | Some (flow, Inr _) \<Rightarrow> dcutr_initiator_flush M flow)"

definition autonat_client_flush ::
  "'mh multihash_api \<Rightarrow> 'mh autonat_client \<Rightarrow> ('w, 'mh autonat_client \<times> bytes) script" where
  "autonat_client_flush M flow =
     machine_flush (ac_handle_input M AcFlush flow) ac_poll_output (\<lambda>output. case output of Some (AcOutbound bs) \<Rightarrow> bs | _ \<Rightarrow> [])"

definition autonat_client_feed ::
  "'mh multihash_api \<Rightarrow> 'mh autonat_client \<Rightarrow> bytes \<Rightarrow> ('w, 'mh autonat_client \<times> 'mh reachability option) script" where
  "autonat_client_feed M flow data =
     machine_feed (\<lambda>e. lit ''AutoNAT decode: '' @ show_autonat_error e) (ac_handle_input M (AcData data) flow) ac_poll_output
       (\<lambda>output. case output of Some (AcOutcome x) \<Rightarrow> Some x | _ \<Rightarrow> None)"

definition autonat_server_feed ::
  "'mh multihash_api \<Rightarrow> 'mh autonat_server \<Rightarrow> bytes \<Rightarrow> ('w, 'mh autonat_server \<times> 'mh autonat_request option) script" where
  "autonat_server_feed M flow data =
     machine_feed (\<lambda>e. lit ''AutoNAT decode: '' @ show_autonat_error e) (av_handle_input M (AsData data) flow) av_poll_output
       (\<lambda>output. case output of Some (AsRequest request) \<Rightarrow> Some request | _ \<Rightarrow> None)"

definition autonat_server_flush ::
  "'mh multihash_api \<Rightarrow> 'mh autonat_server \<Rightarrow> ('w, 'mh autonat_server \<times> bytes) script" where
  "autonat_server_flush M flow =
     machine_flush (av_handle_input M AsFlush flow) av_poll_output (\<lambda>output. case output of Some (AsOutbound bs) \<Rightarrow> bs | _ \<Rightarrow> [])"

section \<open>Waiting for events\<close>

definition HOP_PROTOCOL_ID :: rstr where
  "HOP_PROTOCOL_ID = lit ''/libp2p/circuit/relay/0.2.0/hop''"

definition STOP_PROTOCOL_ID :: rstr where
  "STOP_PROTOCOL_ID = lit ''/libp2p/circuit/relay/0.2.0/stop''"

definition DCUTR_PROTOCOL_ID :: rstr where
  "DCUTR_PROTOCOL_ID = lit ''/libp2p/dcutr''"

definition AUTONAT_PROTOCOL_ID :: rstr where
  "AUTONAT_PROTOCOL_ID = lit ''/libp2p/autonat/1.0.0''"

definition earlier_deadline :: "nat \<Rightarrow> nat \<Rightarrow> nat" where
  "earlier_deadline a b = (if a \<le> b then a else b)"

fun is_connected_event :: "'mh peer_id \<Rightarrow> 'mh swarm_event \<Rightarrow> bool" where
  "is_connected_event p (SwConnectionEstablished q) = (q = p)"
| "is_connected_event p _ = False"

fun is_data_event :: "stream_id \<Rightarrow> 'mh swarm_event \<Rightarrow> bool" where
  "is_data_event sid (SwUserStreamData _ s _) = (s = sid)"
| "is_data_event sid _ = False"

fun is_stream_closed_event :: "stream_id \<Rightarrow> 'mh swarm_event \<Rightarrow> bool" where
  "is_stream_closed_event sid (SwUserStreamClosed _ s) = (s = sid)"
| "is_stream_closed_event sid _ = False"

fun is_outbound_ready_event :: "stream_id \<Rightarrow> 'mh swarm_event \<Rightarrow> bool" where
  "is_outbound_ready_event sid (SwUserStreamReady _ s _ initiated_locally) = (initiated_locally \<and> s = sid)"
| "is_outbound_ready_event sid _ = False"

fun is_inbound_ready_event :: "('mh peer_id \<Rightarrow> bool) \<Rightarrow> rstr \<Rightarrow> 'mh swarm_event \<Rightarrow> bool" where
  "is_inbound_ready_event who pid (SwUserStreamReady p _ q initiated_locally) = (\<not> initiated_locally \<and> who p \<and> q = pid)"
| "is_inbound_ready_event who pid _ = False"

text \<open>\<open>str::contains\<close>.\<close>

fun is_stream_error_event :: "stream_id \<Rightarrow> 'mh swarm_event \<Rightarrow> bool" where
  "is_stream_error_event sid (SwError e) = sublist (lit ''stream '' @ show_stream_id sid) (se_detail e)"
| "is_stream_error_event sid _ = False"

fun is_benign_retry_close_error :: "'mh swarm_event \<Rightarrow> bool" where
  "is_benign_retry_close_error (SwError e) \<longleftrightarrow>
     sublist (lit ''close on connection'') (se_detail e) \<and> sublist (lit ''close error: Done'') (se_detail e)"
| "is_benign_retry_close_error _ \<longleftrightarrow> False"

fun is_bridge_closed_event :: "stream_id \<Rightarrow> 'mh swarm_event \<Rightarrow> bool" where
  "is_bridge_closed_event sid (SwUserStreamRemoteWriteClosed _ s) = (s = sid)"
| "is_bridge_closed_event sid (SwUserStreamClosed _ s) = (s = sid)"
| "is_bridge_closed_event sid _ = False"

fun is_protocols_event :: "'mh peer_id \<Rightarrow> 'mh swarm_event \<Rightarrow> bool" where
  "is_protocols_event p (SwIdentifyReceived q _) = (q = p)"
| "is_protocols_event p (SwPeerReady q _) = (q = p)"
| "is_protocols_event p _ = False"

definition wait_connected ::
  "('q, 's, 'mh::linorder) run_env \<Rightarrow> rstr \<Rightarrow> 'mh peer_id \<Rightarrow> nat \<Rightarrow> (('q, 's, 'mh) session, unit) script" where
  "wait_connected V role p deadline =
     and_next (wait_until V role (lit ''wait-connected: '') deadline (is_connected_event p)) (\<lambda>found.
       or_fail (lit ''deadline exceeded before connection to '' @ to_base58 (rv_mh V) p) (map_option (\<lambda>_. ()) found))"

definition wait_user_stream_ready ::
  "('q, 's, 'mh::linorder) run_env \<Rightarrow> rstr \<Rightarrow> stream_id \<Rightarrow> nat \<Rightarrow> (('q, 's, 'mh) session, unit) script" where
  "wait_user_stream_ready V role sid deadline =
     and_next (wait_until V role (lit ''wait-user-stream-ready: '') deadline
         (\<lambda>ev. is_outbound_ready_event sid ev \<or> is_stream_closed_event sid ev \<or> is_stream_error_event sid ev)) (\<lambda>found.
       case found of
         Some (SwUserStreamReady _ _ _ _) \<Rightarrow> finish ()
       | Some (SwUserStreamClosed _ _) \<Rightarrow> fail (lit ''stream '' @ show_stream_id sid @ lit '' closed before becoming ready'')
       | Some (SwError e) \<Rightarrow>
           fail (lit ''stream '' @ show_stream_id sid @ lit '' failed before becoming ready: '' @ rv_dbg V (se_kind e) @
             lit '': '' @ se_detail e)
       | Some _ \<Rightarrow> panic
       | None \<Rightarrow> fail (lit ''deadline exceeded before stream '' @ show_stream_id sid @ lit '' ready''))"

definition wait_inbound_stream ::
  "('q, 's, 'mh::linorder) run_env \<Rightarrow> rstr \<Rightarrow> 'mh peer_id \<Rightarrow> rstr \<Rightarrow> nat \<Rightarrow> (('q, 's, 'mh) session, stream_id) script" where
  "wait_inbound_stream V role p pid deadline =
     and_next (wait_until V role (lit ''wait-inbound-stream: '') deadline (is_inbound_ready_event (\<lambda>q. q = p) pid)) (\<lambda>found.
     and_next (or_fail (lit ''deadline exceeded before inbound '' @ pid) found) (\<lambda>ev.
       case ev of SwUserStreamReady _ sid _ _ \<Rightarrow> finish sid | _ \<Rightarrow> panic))"

definition wait_user_stream_data ::
  "('q, 's, 'mh::linorder) run_env \<Rightarrow> rstr \<Rightarrow> stream_id \<Rightarrow> nat \<Rightarrow> (('q, 's, 'mh) session, bytes) script" where
  "wait_user_stream_data V role sid deadline =
     and_next (wait_until V role (lit ''wait-user-stream-data: '') deadline (is_data_event sid)) (\<lambda>found.
     and_next (or_fail (lit ''deadline exceeded before data on stream '' @ show_stream_id sid) found) (\<lambda>ev.
       case ev of SwUserStreamData _ _ data \<Rightarrow> finish data | _ \<Rightarrow> panic))"

section \<open>Calls of the swarm\<close>

abbreviation session_transport :: "('q, 's, 'mh) run_env \<Rightarrow> (('q, 's, 'mh) quic_endpoint, 'mh) transport" where
  "session_transport V \<equiv> quic_endpoint_transport (rv_mh V) (rv_quic V)"

text \<open>A call whose error the script looks at itself.\<close>

definition look_at ::
  "(('q, 's, 'mh) endpoint \<Rightarrow> (('q, 's, 'mh) endpoint \<times> (transport_error + 'a)) option) \<Rightarrow>
     (('q, 's, 'mh) session, transport_error + 'a) script" where
  "look_at call = (\<lambda>w.
     case call (ss_swarm w) of
       None \<Rightarrow> panic w
     | Some (d, res) \<Rightarrow> finish res (w\<lparr>ss_swarm := d\<rparr>))"

definition session_dial :: "('q, 's, 'mh) run_env \<Rightarrow> rstr \<Rightarrow> 'mh peer_addr \<Rightarrow> (('q, 's, 'mh) session, connection_id) script" where
  "session_dial V message addr = on_swarm message (driver_dial (session_transport V) addr)"

definition session_open_stream ::
  "('q, 's, 'mh::linorder) run_env \<Rightarrow> rstr \<Rightarrow> 'mh peer_id \<Rightarrow> rstr \<Rightarrow> (('q, 's, 'mh) session, stream_id) script" where
  "session_open_stream V message p pid =
     try_swarm message (driver_open_user_stream (rv_mh V) (rv_sha V) (session_transport V) (rv_clk V) p pid)"

definition session_poll :: "('q, 's, 'mh::linorder) run_env \<Rightarrow> rstr \<Rightarrow> (('q, 's, 'mh) session, 'mh swarm_event list) script" where
  "session_poll V message = try_swarm message (driver_poll (rv_mh V) (rv_sha V) (session_transport V) (rv_clk V))"

text \<open>\<open>send\<close>: nothing is sent when there are no bytes.\<close>

definition send_data ::
  "('q, 's, 'mh::linorder) run_env \<Rightarrow> 'mh peer_id \<Rightarrow> stream_id \<Rightarrow> bytes \<Rightarrow> (('q, 's, 'mh) session, unit) script" where
  "send_data V p sid data =
     (if data = [] then finish ()
      else try_swarm (lit ''send_user_stream: '')
        (driver_send_user_stream (rv_mh V) (rv_sha V) (session_transport V) (rv_clk V) p sid data))"

definition random_bytes :: "('q, 's, 'mh) run_env \<Rightarrow> nat \<Rightarrow> (('q, 's, 'mh) session, bytes) script" where
  "random_bytes V len = (\<lambda>w.
     finish (case rv_entropy V (dv_readings (ss_swarm w)) of Some bs \<Rightarrow> bs | None \<Rightarrow> replicate len 0) w)"

section \<open>Loops\<close>

text \<open>\<open>loop\<close> with the variables it changes; \<open>Inr\<close> is a \<open>break\<close> with a value.\<close>

partial_function (option) repeat_until :: "('a \<Rightarrow> ('w, 'a + 'b) script) \<Rightarrow> 'a \<Rightarrow> ('w, 'b) script" where
  "repeat_until body st w =
     Option.bind (body st w) (\<lambda>(w, res).
       case res of
         Done next_st \<Rightarrow> (case next_st of Inl st \<Rightarrow> repeat_until body st w | Inr x \<Rightarrow> Some (w, Done x))
       | Failed message \<Rightarrow> Some (w, Failed message)
       | Panicked \<Rightarrow> Some (w, Panicked))"

text \<open>The loop around a machine: data of a stream is fed until the machine has an answer.\<close>

definition feed_until ::
  "('q, 's, 'mh::linorder) run_env \<Rightarrow> rstr \<Rightarrow> stream_id \<Rightarrow> nat \<Rightarrow>
     ('m \<Rightarrow> bytes \<Rightarrow> (('q, 's, 'mh) session, 'm \<times> 'x option) script) \<Rightarrow> 'm \<Rightarrow> (('q, 's, 'mh) session, 'm \<times> 'x) script" where
  "feed_until V role sid deadline feeding =
     repeat_until (\<lambda>flow.
       and_next (wait_user_stream_data V role sid deadline) (\<lambda>data.
       and_next (feeding flow data) (\<lambda>(flow, answer).
         finish (case answer of Some x \<Rightarrow> Inr (flow, x) | None \<Rightarrow> Inl flow))))"

end
