(* ===== verification/PeerRelay.thy ===== *)
theory PeerRelay
  imports PeerFlows
begin

text \<open>
  The relay modes of the example program, \<open>examples/peer/src/relay.rs\<close>: both sides of a connection that is
  arranged over a relay.  The listener reserves a slot and answers, the dialer asks the relay for a bridge;
  then both learn the addresses of the other with DCUtR, try to connect directly and fall back to the bridge.
\<close>

section \<open>Constants\<close>

text \<open>Durations in milliseconds.\<close>

definition LISTEN_DEADLINE :: nat where
  "LISTEN_DEADLINE = 60 * 1000"

definition HOLEPUNCH_DEADLINE :: nat where
  "HOLEPUNCH_DEADLINE = 3 * 1000"

definition HOLEPUNCH_INTERVAL :: nat where
  "HOLEPUNCH_INTERVAL = 100"

definition RESPONDER_SYNC_DELAY :: nat where
  "RESPONDER_SYNC_DELAY = 50"

definition RELAY_PING_LEN :: nat where
  "RELAY_PING_LEN = 32"

definition AUTONAT_CLIENT_DEADLINE :: nat where
  "AUTONAT_CLIENT_DEADLINE = 20 * 1000"

definition RELAY_READY_ATTEMPTS :: nat where
  "RELAY_READY_ATTEMPTS = 3"

definition RELAY_READY_ATTEMPT_DEADLINE :: nat where
  "RELAY_READY_ATTEMPT_DEADLINE = 12 * 1000"

definition RELAY_READY_RETRY_BACKOFF :: nat where
  "RELAY_READY_RETRY_BACKOFF = 500"

section \<open>Reaching the relay\<close>

definition relay_listen_on_bound_addrs ::
  "('q, 's, 'mh::linorder) run_env \<Rightarrow> rstr \<Rightarrow> (('q, 's, 'mh) session, 'mh peer_addr list) script" where
  "relay_listen_on_bound_addrs V role =
     and_next (on_swarm (lit ''listen failed: '') (listen_on_bound_addrs (session_transport V))) (\<lambda>addrs.
       if addrs = [] then fail (lit ''listen completed without any bound peer addresses'')
       else and_next (say_all role (map (\<lambda>a. lit ''listen-addr='' @ show_peer_addr (rv_mh V) a) addrs)) (\<lambda>_. finish addrs))"

text \<open>What the two waits for the relay print: not the errors of a close that was already done.\<close>

definition unless_benign :: "('q, 's, 'mh) run_env \<Rightarrow> rstr \<Rightarrow> 'mh swarm_event \<Rightarrow> output_line list" where
  "unless_benign V role ev = (if \<not> is_benign_retry_close_error ev then [print_event (rv_mh V) (rv_dbg V) role ev] else [])"

definition wait_relay_protocols_after_dial ::
  "('q, 's, 'mh::linorder) run_env \<Rightarrow> rstr \<Rightarrow> 'mh peer_id \<Rightarrow> nat \<Rightarrow> (('q, 's, 'mh) session, rstr list) script" where
  "wait_relay_protocols_after_dial V role p deadline =
     and_next (wait_printing V (unless_benign V role) (lit ''wait-relay-protocols: '') deadline (is_protocols_event p)) (\<lambda>found.
     and_next (or_fail (lit ''deadline exceeded before relay peer '' @ to_base58 (rv_mh V) p @ lit '' advertised protocols'') found) (\<lambda>ev.
       case ev of
         SwIdentifyReceived _ info \<Rightarrow> finish (im_protocols info)
       | SwPeerReady _ ps \<Rightarrow> finish ps
       | _ \<Rightarrow> panic))"

definition retry_relay_connection ::
  "('q, 's, 'mh::linorder) run_env \<Rightarrow> rstr \<Rightarrow> 'mh peer_id \<Rightarrow> (('q, 's, 'mh) session, unit) script" where
  "retry_relay_connection V role relay_peer_id =
     and_next (look_at (driver_disconnect (rv_mh V) (rv_sha V) (session_transport V) (rv_clk V) relay_peer_id)) (\<lambda>res.
     and_next (case res of
         Inl e \<Rightarrow> say_err role (lit ''relay-disconnect-for-retry failed: '' @ show_transport_error e)
       | Inr _ \<Rightarrow> finish ()) (\<lambda>_.
     and_next (instant_now V) (\<lambda>now.
     and_next (wait_printing V (unless_benign V role) (lit ''relay retry drain: '') (now + RELAY_READY_RETRY_BACKOFF) (\<lambda>_. False)) (\<lambda>_.
     finish ()))))"

fun prepare_relay_attempts ::
  "('q, 's, 'mh::linorder) run_env \<Rightarrow> rstr \<Rightarrow> 'mh peer_addr \<Rightarrow> 'mh peer_id \<Rightarrow> nat \<Rightarrow> nat list \<Rightarrow> rstr list \<Rightarrow>
     (('q, 's, 'mh) session, unit) script" where
  "prepare_relay_attempts V role relay_addr relay_peer_id deadline [] last_protocols =
     fail (lit ''relay did not advertise '' @ HOP_PROTOCOL_ID @ lit '' after '' @ show_nat RELAY_READY_ATTEMPTS @
       lit '' attempts; advertised=['' @ format_protocols last_protocols @ lit '']'')"
| "prepare_relay_attempts V role relay_addr relay_peer_id deadline (attempt # attempts) last_protocols =
     and_next (session_dial V (lit ''dial relay attempt '' @ show_nat attempt @ lit '': '') relay_addr) (\<lambda>_.
     and_next (say_out role (lit ''dialing-relay attempt='' @ show_nat attempt @ lit '' '' @ show_peer_addr (rv_mh V) relay_addr)) (\<lambda>_.
     and_next (instant_now V) (\<lambda>now.
     and_next (wait_relay_protocols_after_dial V role relay_peer_id
         (earlier_deadline (now + RELAY_READY_ATTEMPT_DEADLINE) deadline)) (\<lambda>ps.
     let has_hop = list_ex (\<lambda>p. p = HOP_PROTOCOL_ID) ps
     in and_next (say_out role (lit ''relay-ready attempt='' @ show_nat attempt @ lit '' hop='' @
            (if has_hop then lit ''true'' else lit ''false'') @ lit '' protocols=['' @ format_protocols ps @ lit '']'')) (\<lambda>_.
        if has_hop then finish ()
        else and_next (say_err role (lit ''relay-hop-not-advertised attempt='' @ show_nat attempt @
               lit ''; retrying after relay readiness backoff'')) (\<lambda>_.
             and_next (retry_relay_connection V role relay_peer_id) (\<lambda>_.
             prepare_relay_attempts V role relay_addr relay_peer_id deadline attempts ps)))))))"

definition prepare_relay ::
  "('q, 's, 'mh::linorder) run_env \<Rightarrow> rstr \<Rightarrow> 'mh peer_addr \<Rightarrow> 'mh peer_id \<Rightarrow> nat \<Rightarrow> (('q, 's, 'mh) session, unit) script" where
  "prepare_relay V role relay_addr relay_peer_id deadline =
     prepare_relay_attempts V role relay_addr relay_peer_id deadline [1..<Suc RELAY_READY_ATTEMPTS] []"

section \<open>Checking the own candidates\<close>

fun autonat_verdict ::
  "('q, 's, 'mh::linorder) run_env \<Rightarrow> rstr \<Rightarrow> 'mh multiaddr list \<Rightarrow> 'mh reachability \<Rightarrow> (('q, 's, 'mh) session, 'mh multiaddr list) script" where
  "autonat_verdict V role candidates (RcPublic addrs raw_addrs) =
     and_next (if length addrs < length raw_addrs
       then say_err role (lit ''autonat-public: '' @ show_nat (length addrs) @ lit '' of '' @ show_nat (length raw_addrs) @
         lit '' addrs parsed; unsupported addrs ignored'')
       else finish ()) (\<lambda>_.
     and_next (say_out role (lit ''autonat-public addrs='' @ show_nat (length addrs))) (\<lambda>_.
     finish (successful_candidates_in_original_order candidates addrs)))"
| "autonat_verdict V role candidates (RcPrivate status reason) =
     and_next (say_out role (lit ''autonat-private status='' @ debug_response_status status @ lit '' reason='' @ reason)) (\<lambda>_.
     finish candidates)"
| "autonat_verdict V role candidates (RcUnknown status reason) =
     and_next (say_out role (lit ''autonat-unknown status='' @ debug_response_status status @ lit '' reason='' @ reason)) (\<lambda>_.
     finish candidates)"

definition session_peer_id :: "(('q, 's, 'mh) session, 'mh peer_id) script" where
  "session_peer_id = (\<lambda>w. finish (dv_local_peer_id (ss_swarm w)) w)"

definition validate_candidates_with_autonat ::
  "('q, 's, 'mh::linorder) run_env \<Rightarrow> rstr \<Rightarrow> 'mh run_options \<Rightarrow> 'mh multiaddr list \<Rightarrow> nat \<Rightarrow>
     (('q, 's, 'mh) session, 'mh multiaddr list) script" where
  "validate_candidates_with_autonat V role opts candidates deadline =
     (case ro_autonat opts of
        None \<Rightarrow> finish candidates
      | Some service \<Rightarrow>
          let service_peer = pa_peer_id service
          in and_next (session_dial V (lit ''dial AutoNAT service: '') service) (\<lambda>_.
             and_next (say_out role (lit ''autonat-dialing '' @ show_peer_addr (rv_mh V) service)) (\<lambda>_.
             and_next (wait_connected V role service_peer deadline) (\<lambda>_.
             and_next (session_open_stream V (lit ''open AutoNAT stream: '') service_peer AUTONAT_PROTOCOL_ID) (\<lambda>sid.
             and_next (wait_user_stream_ready V role sid deadline) (\<lambda>_.
             and_next session_peer_id (\<lambda>local_peer.
             and_next (autonat_client_flush (rv_mh V) (autonat_client_new (rv_mh V) local_peer candidates)) (\<lambda>(client, bs).
             and_next (send_data V service_peer sid bs) (\<lambda>_.
             and_next (feed_until V role sid deadline (autonat_client_feed (rv_mh V)) client) (\<lambda>(_, verdict).
             autonat_verdict V role candidates verdict))))))))))"

section \<open>Direct connections\<close>

text \<open>Trying every address of the other side; failures are only printed.\<close>

fun dial_direct_candidates ::
  "('q, 's, 'mh::linorder) run_env \<Rightarrow> rstr \<Rightarrow> 'mh peer_id \<Rightarrow> 'mh multiaddr list \<Rightarrow> (('q, 's, 'mh) session, unit) script" where
  "dial_direct_candidates V role p [] = finish ()"
| "dial_direct_candidates V role p (addr # addrs) =
     and_next
       (case peer_addr_new addr p of
          Inr peer_addr \<Rightarrow>
            and_next (look_at (\<lambda>d. Some (driver_dial (session_transport V) peer_addr d))) (\<lambda>res.
              case res of
                Inr _ \<Rightarrow> say_out role (lit ''direct-dial-attempt '' @ show_peer_addr (rv_mh V) peer_addr)
              | Inl e \<Rightarrow> say_err role (lit ''direct-dial-failed addr='' @ show_peer_addr (rv_mh V) peer_addr @ lit '' reason='' @
                  show_transport_error e))
        | Inl e \<Rightarrow> say_err role (lit ''bad PeerAddr for '' @ show_multiaddr (rv_mh V) addr @ lit '': '' @ show_peer_addr_error e))
       (\<lambda>_. dial_direct_candidates V role p addrs)"

definition session_send_udp ::
  "('q, 's, 'mh) run_env \<Rightarrow> 'mh multiaddr \<Rightarrow> bytes \<Rightarrow> ('q, 's, 'mh) endpoint \<Rightarrow>
     (('q, 's, 'mh) endpoint \<times> (transport_error + unit)) option" where
  "session_send_udp V addr payload d =
     (case returned (qe_send_raw_udp (rv_quic V) addr payload) (dv_transport d) of (t, res) \<Rightarrow> Some (d\<lparr>dv_transport := t\<rparr>, res))"

fun blast_addrs ::
  "('q, 's, 'mh::linorder) run_env \<Rightarrow> rstr \<Rightarrow> bytes \<Rightarrow> 'mh multiaddr list \<Rightarrow> (('q, 's, 'mh) session, unit) script" where
  "blast_addrs V role payload [] = finish ()"
| "blast_addrs V role payload (addr # addrs) =
     and_next (look_at (session_send_udp V addr payload)) (\<lambda>res.
     and_next (case res of
         Inl e \<Rightarrow> say_err role (lit ''udp-blast '' @ show_multiaddr (rv_mh V) addr @ lit '' failed: '' @ show_transport_error e)
       | Inr _ \<Rightarrow> finish ()) (\<lambda>_.
     blast_addrs V role payload addrs))"

definition blast_remote_addrs ::
  "('q, 's, 'mh::linorder) run_env \<Rightarrow> 'mh multiaddr list \<Rightarrow> rstr \<Rightarrow> (('q, 's, 'mh) session, unit) script" where
  "blast_remote_addrs V addrs role =
     and_next (random_bytes V RELAY_PING_LEN) (\<lambda>payload. blast_addrs V role payload addrs)"

definition inbound_sources :: "('q, 's, 'mh) run_env \<Rightarrow> (('q, 's, 'mh) session, 'mh multiaddr list) script" where
  "inbound_sources V = (\<lambda>w. finish (qe_active_inbound_connection_sources (rv_quic V) (dv_transport (ss_swarm w))) w)"

datatype 'mh hole_punch_outcome =
    DirectConnected "'mh peer_id"
  | InboundConnectionSeen
  | BridgeClosed
  | HolePunchTimeout

text \<open>The events of one poll, up to the first that ends the attempt.\<close>

fun scan_events ::
  "('q, 's, 'mh::linorder) run_env \<Rightarrow> rstr \<Rightarrow> 'mh peer_id \<Rightarrow> stream_id \<Rightarrow> 'mh swarm_event list \<Rightarrow>
     (('q, 's, 'mh) session, 'mh hole_punch_outcome option) script" where
  "scan_events V role remote bridge_stream [] = finish None"
| "scan_events V role remote bridge_stream (ev # evs) =
     and_next (say (print_event (rv_mh V) (rv_dbg V) role ev)) (\<lambda>_.
       if is_connected_event remote ev then finish (Some (DirectConnected remote))
       else if is_bridge_closed_event bridge_stream ev then finish (Some BridgeClosed)
       else scan_events V role remote bridge_stream evs)"

text \<open>One turn of the loop; its variables are the time of the next packets and whether a matching source was seen.\<close>

definition hole_punch_turn ::
  "('q, 's, 'mh::linorder) run_env \<Rightarrow> rstr \<Rightarrow> 'mh peer_id \<Rightarrow> 'mh multiaddr list \<Rightarrow> stream_id \<Rightarrow> nat \<Rightarrow> nat \<times> bool \<Rightarrow>
     (('q, 's, 'mh) session, (nat \<times> bool) + 'mh hole_punch_outcome) script" where
  "hole_punch_turn V role remote remote_addrs bridge_stream punch_deadline = (\<lambda>(next_blast, saw_inbound_conn).
     and_next (instant_now V) (\<lambda>now.
       if punch_deadline \<le> now then finish (Inr HolePunchTimeout)
       else
         and_next (if next_blast \<le> now
           then and_next (blast_remote_addrs V remote_addrs role) (\<lambda>_. finish (now + HOLEPUNCH_INTERVAL))
           else finish next_blast) (\<lambda>next_blast.
         and_next (session_poll V (lit ''holepunch poll: '')) (\<lambda>events.
         and_next (scan_events V role remote bridge_stream events) (\<lambda>seen.
           case seen of
             Some x \<Rightarrow> finish (Inr x)
           | None \<Rightarrow>
               and_next (inbound_sources V) (\<lambda>sources.
                 let saw_inbound_conn =
                   (if any_source_matches sources (List.map_filter extract_ip_port remote_addrs) then True else saw_inbound_conn)
                 in finish (if saw_inbound_conn then Inr InboundConnectionSeen else Inl (next_blast, saw_inbound_conn))))))))"

definition hole_punch_listener ::
  "('q, 's, 'mh::linorder) run_env \<Rightarrow> rstr \<Rightarrow> 'mh peer_id \<Rightarrow> 'mh multiaddr list \<Rightarrow> stream_id \<Rightarrow>
     (('q, 's, 'mh) session, 'mh hole_punch_outcome) script" where
  "hole_punch_listener V role remote remote_addrs bridge_stream =
     and_next (say_out role (lit ''dcutr-sync-received -> holepunching'')) (\<lambda>_.
     and_next (print_remote_candidates (rv_mh V) role remote_addrs) (\<lambda>_.
     and_next (dial_direct_candidates V role remote remote_addrs) (\<lambda>_.
     and_next (instant_now V) (\<lambda>punch_start.
     and_next (inbound_sources V) (\<lambda>sources.
     repeat_until (hole_punch_turn V role remote remote_addrs bridge_stream (punch_start + HOLEPUNCH_DEADLINE))
       (punch_start + RESPONDER_SYNC_DELAY, any_source_matches sources (List.map_filter extract_ip_port remote_addrs)))))))"

section \<open>Ending\<close>

text \<open>The events after the close of the bridge, up to the one that confirms it.\<close>

fun scan_bridge_close ::
  "('q, 's, 'mh::linorder) run_env \<Rightarrow> rstr \<Rightarrow> stream_id \<Rightarrow> 'mh swarm_event list \<Rightarrow> (('q, 's, 'mh) session, bool) script" where
  "scan_bridge_close V role bridge_stream [] = finish False"
| "scan_bridge_close V role bridge_stream (ev # evs) =
     and_next (say (print_event (rv_mh V) (rv_dbg V) role ev)) (\<lambda>_.
       if is_bridge_closed_event bridge_stream ev then finish True else scan_bridge_close V role bridge_stream evs)"

definition drain_bridge_close ::
  "('q, 's, 'mh::linorder) run_env \<Rightarrow> rstr \<Rightarrow> stream_id \<Rightarrow> nat \<Rightarrow> (('q, 's, 'mh) session, unit) script" where
  "drain_bridge_close V role bridge_stream drain_deadline =
     repeat_until (\<lambda>_.
       and_next (instant_now V) (\<lambda>now.
         if now < drain_deadline
         then and_next (session_poll V (lit ''bridge close poll: '')) (\<lambda>events.
                if events = [] then finish (Inr ())
                else and_next (scan_bridge_close V role bridge_stream events) (\<lambda>closed.
                  finish (if closed then Inr () else Inl ())))
         else finish (Inr ()))) ()"

definition close_relay_bridge_after_direct_success ::
  "('q, 's, 'mh::linorder) run_env \<Rightarrow> rstr \<Rightarrow> 'mh peer_id \<Rightarrow> stream_id \<Rightarrow> (('q, 's, 'mh) session, unit) script" where
  "close_relay_bridge_after_direct_success V role relay_peer_id bridge_stream =
     and_next (say_out role (lit ''bridge-close stream='' @ show_stream_id bridge_stream @ lit '' reason=direct-path-ready'')) (\<lambda>_.
     and_next (look_at (driver_close_user_stream_write (rv_mh V) (rv_sha V) (session_transport V) (rv_clk V) relay_peer_id bridge_stream)) (\<lambda>res.
       case res of
         Inl e \<Rightarrow> say_out role (lit ''bridge-close-skipped stream='' @ show_stream_id bridge_stream @ lit '' reason='' @ show_transport_error e)
       | Inr _ \<Rightarrow> and_next (instant_now V) (\<lambda>now. drain_bridge_close V role bridge_stream (now + 200))))"

definition ping_and_exit ::
  "('q, 's, 'mh::linorder) run_env \<Rightarrow> rstr \<Rightarrow> 'mh peer_id \<Rightarrow> 'mh peer_id \<Rightarrow> stream_id \<Rightarrow> nat \<Rightarrow> (('q, 's, 'mh) session, unit) script" where
  "ping_and_exit V role p relay_peer_id bridge_stream deadline =
     and_next (session_ping V (lit ''ping: '') p) (\<lambda>_.
     and_next (wait_until V role (lit ''wait-rtt: '') deadline (is_rtt_event p)) (\<lambda>found.
     and_next (or_fail (lit ''deadline exceeded before ping rtt arrived'') found) (\<lambda>ev.
       case ev of
         SwPingRttMeasured _ rtt_ms \<Rightarrow>
           let line = lit ''ping-direct peer='' @ to_base58 (rv_mh V) p @ lit '' rtt='' @ show_nat (unat rtt_ms) @ lit ''ms''
           in and_next (say_out role line) (\<lambda>_.
              and_next (close_relay_bridge_after_direct_success V role relay_peer_id bridge_stream) (\<lambda>_.
              say_out role (line @ lit '' -- done'')))
       | _ \<Rightarrow> panic)))"

definition relay_ping_fallback ::
  "('q, 's, 'mh::linorder) run_env \<Rightarrow> rstr \<Rightarrow> 'mh peer_id \<Rightarrow> stream_id \<Rightarrow> (('q, 's, 'mh) session, unit) script" where
  "relay_ping_fallback V role relay_peer_id bridge_stream =
     and_next (instant_now V) (\<lambda>now.
     and_next (wait_until V role (lit ''fallback poll: '') (now + 15 * 1000)
         (\<lambda>ev. is_data_event bridge_stream ev \<or> is_bridge_closed_event bridge_stream ev)) (\<lambda>found.
       case found of
         Some (SwUserStreamData _ _ data) \<Rightarrow>
           and_next (send_data V relay_peer_id bridge_stream data) (\<lambda>_. say_out role (lit ''relay-ping-echoed -- done''))
       | Some _ \<Rightarrow> say_out role (lit ''bridge-closed during fallback -- done'')
       | None \<Rightarrow> fail (lit ''fallback deadline exceeded before any bridge activity'')))"

section \<open>The listener\<close>

text \<open>What both roles do first: they listen, reach the relay and check their own candidates.\<close>

definition relay_start ::
  "('q, 's, 'mh::linorder) run_env \<Rightarrow> rstr \<Rightarrow> 'mh peer_addr \<Rightarrow> 'mh run_options \<Rightarrow> rstr list \<Rightarrow>
     (('q, 's, 'mh) session, 'mh multiaddr list \<times> nat) script" where
  "relay_start V role relay_addr opts more_lines =
     and_next (relay_listen_on_bound_addrs V role) (\<lambda>our_addrs.
     and_next session_peer_id (\<lambda>us.
     and_next (say_all role ((lit ''us='' @ to_base58 (rv_mh V) us) # more_lines)) (\<lambda>_.
     and_next (instant_now V) (\<lambda>started.
     let deadline = started + LISTEN_DEADLINE
     in and_next (prepare_relay V role relay_addr (pa_peer_id relay_addr) deadline) (\<lambda>_.
        and_next (relay_observed_addr (rv_mh V) (pa_peer_id relay_addr) role) (\<lambda>observed.
        and_next (candidate_addrs (rv_mh V) role (map pa_transport our_addrs) (ro_external_addrs opts) observed) (\<lambda>initial_candidates.
        and_next (instant_now V) (\<lambda>now.
        and_next (validate_candidates_with_autonat V role opts initial_candidates (now + AUTONAT_CLIENT_DEADLINE)) (\<lambda>our_observed.
        and_next (print_candidates (rv_mh V) role our_observed) (\<lambda>_.
        finish (our_observed, deadline)))))))))))"

definition reserve_slot ::
  "('q, 's, 'mh::linorder) run_env \<Rightarrow> rstr \<Rightarrow> 'mh peer_id \<Rightarrow> nat \<Rightarrow> (('q, 's, 'mh) session, unit) script" where
  "reserve_slot V role relay_peer_id deadline =
     and_next (session_open_stream V (lit ''open HOP: '') relay_peer_id HOP_PROTOCOL_ID) (\<lambda>hop_stream.
     and_next (wait_user_stream_ready V role hop_stream deadline) (\<lambda>_.
     and_next (relay_reservation_flush hop_reservation_new) (\<lambda>(flow, bs).
     and_next (send_data V relay_peer_id hop_stream bs) (\<lambda>_.
     and_next (feed_until V role hop_stream deadline relay_reservation_feed flow) (\<lambda>(_, answer).
       case answer of
         ReservationAccepted _ _ \<Rightarrow> say_out role (lit ''reserved-on-relay'')
       | ReservationRefused status reason \<Rightarrow>
           fail (lit ''relay refused reservation: status='' @ debug_relay_status status @ lit '' reason='' @ reason))))))"

text \<open>The peer that asked for the circuit, and the bytes that came behind its request.\<close>

definition accept_circuit ::
  "('q, 's, 'mh::linorder) run_env \<Rightarrow> rstr \<Rightarrow> 'mh peer_id \<Rightarrow> stream_id \<Rightarrow> nat \<Rightarrow> (('q, 's, 'mh) session, 'mh peer_id \<times> bytes) script" where
  "accept_circuit V role relay_peer_id bridge_stream deadline =
     and_next (feed_until V role bridge_stream deadline stop_feed stop_responder_new) (\<lambda>(flow, request).
     and_next (lift_result (\<lambda>e. lit ''bad STOP source peer id: '' @ show_peer_id_error e)
         (peer_id_from_bytes (rv_mh V) (source_peer_id request))) (\<lambda>remote_peer_id.
     and_next (say_out role (lit ''stop-connect-from peer='' @ to_base58 (rv_mh V) remote_peer_id)) (\<lambda>_.
     and_next (stop_accept_flush flow) (\<lambda>(flow, bs).
     and_next (send_data V relay_peer_id bridge_stream bs) (\<lambda>_.
     finish (remote_peer_id, snd (stop_bridge_bytes flow)))))))"

fun handle_dcutr_responder_event ::
  "rstr \<Rightarrow> 'mh responder_event \<Rightarrow> 'mh multiaddr list option \<Rightarrow> (('q, 's, 'mh) session, 'mh multiaddr list option) script" where
  "handle_dcutr_responder_event role (ConnectReceived remote_addrs remote_addr_bytes) captured =
     and_next (if length remote_addrs < length remote_addr_bytes
       then say_err role (lit ''dcutr-connect-received: '' @ show_nat (length remote_addr_bytes - length remote_addrs) @ lit '' of '' @
         show_nat (length remote_addr_bytes) @ lit '' remote addrs failed to parse and were ignored'')
       else finish ()) (\<lambda>_.
     and_next (say_out role (lit ''dcutr-connect-received addrs='' @ show_nat (length remote_addrs))) (\<lambda>_.
     finish (Some remote_addrs)))"
| "handle_dcutr_responder_event role SyncReceived captured = finish captured"

function drain_responder ::
  "rstr \<Rightarrow> 'mh dcutr_responder \<Rightarrow> 'mh multiaddr list option \<Rightarrow> bytes \<Rightarrow>
     (('q, 's, 'mh) session, 'mh dcutr_responder \<times> 'mh multiaddr list option \<times> bytes) script" where
  "drain_responder role flow captured outbound =
     (case dr_poll_output flow of
        (None, flow) \<Rightarrow> finish (flow, captured, outbound)
      | (Some (DrOutbound bs), flow) \<Rightarrow> drain_responder role flow captured (outbound @ bs)
      | (Some (DrEvent ev), flow) \<Rightarrow>
          and_next (handle_dcutr_responder_event role ev captured) (\<lambda>captured. drain_responder role flow captured outbound))"
  by pat_completeness auto
termination
  by (relation "measure (\<lambda>(_, flow, _). length (dr_outbound flow) + length (dr_events flow))")
    (auto simp: dr_poll_output_def Let_def split: if_splits list.splits)

declare drain_responder.simps [simp del]

definition drain_dcutr_responder_outputs ::
  "'mh multihash_api \<Rightarrow> rstr \<Rightarrow> 'mh dcutr_responder \<Rightarrow> 'mh multiaddr list option \<Rightarrow>
     (('q, 's, 'mh) session, 'mh dcutr_responder \<times> 'mh multiaddr list option \<times> bytes) script" where
  "drain_dcutr_responder_outputs M role flow captured =
     (case dr_handle_input M DrFlush flow of
        None \<Rightarrow> panic
      | Some (flow, _) \<Rightarrow> drain_responder role flow captured [])"

text \<open>One round: the outputs of the responder are drained and sent.\<close>

definition respond_round ::
  "('q, 's, 'mh::linorder) run_env \<Rightarrow> rstr \<Rightarrow> 'mh peer_id \<Rightarrow> stream_id \<Rightarrow> 'mh dcutr_responder \<Rightarrow> 'mh multiaddr list option \<Rightarrow>
     (('q, 's, 'mh) session, 'mh dcutr_responder \<times> 'mh multiaddr list option) script" where
  "respond_round V role relay_peer_id bridge_stream flow captured =
     and_next (drain_dcutr_responder_outputs (rv_mh V) role flow captured) (\<lambda>(flow, captured, outbound).
     and_next (send_data V relay_peer_id bridge_stream outbound) (\<lambda>_. finish (flow, captured)))"

definition respond_dcutr ::
  "('q, 's, 'mh::linorder) run_env \<Rightarrow> rstr \<Rightarrow> 'mh peer_id \<Rightarrow> stream_id \<Rightarrow> nat \<Rightarrow> 'mh multiaddr list \<Rightarrow> bytes \<Rightarrow>
     (('q, 's, 'mh) session, 'mh multiaddr list) script" where
  "respond_dcutr V role relay_peer_id bridge_stream deadline our_observed bridge_bytes =
     (let flow = dcutr_responder_new (rv_mh V) our_observed;
          taken = (\<lambda>captured. case captured of Some addrs \<Rightarrow> addrs | None \<Rightarrow> [])
      in and_next (if bridge_bytes \<noteq> [] then dcutr_responder_feed (rv_mh V) flow bridge_bytes else finish flow) (\<lambda>flow.
         and_next (respond_round V role relay_peer_id bridge_stream flow None) (\<lambda>state.
         repeat_until (\<lambda>(flow, captured).
           if dr_is_done flow then finish (Inr (taken captured))
           else
             and_next (wait_user_stream_data V role bridge_stream deadline) (\<lambda>data.
             and_next (dcutr_responder_feed (rv_mh V) flow data) (\<lambda>flow.
             and_next (respond_round V role relay_peer_id bridge_stream flow captured) (\<lambda>(flow, captured).
             finish (if dr_is_done flow then Inr (taken captured) else Inl (flow, captured)))))) state)))"

definition after_hole_punch ::
  "('q, 's, 'mh::linorder) run_env \<Rightarrow> rstr \<Rightarrow> 'mh peer_id \<Rightarrow> 'mh peer_id \<Rightarrow> stream_id \<Rightarrow> nat \<Rightarrow> 'mh hole_punch_outcome \<Rightarrow>
     (('q, 's, 'mh) session, unit) script" where
  "after_hole_punch V role relay_peer_id remote_peer_id bridge_stream deadline punched =
     (case punched of
        DirectConnected p \<Rightarrow>
          and_next (say_out role (lit ''direct-connected peer='' @ to_base58 (rv_mh V) p @ lit '' (hole-punch success)'')) (\<lambda>_.
          ping_and_exit V role p relay_peer_id bridge_stream deadline)
      | InboundConnectionSeen \<Rightarrow>
          and_next (say_out role (lit ''inbound-direct-connection detected (hole-punch success; waiting for verified mTLS identity)'')) (\<lambda>_.
          and_next (instant_now V) (\<lambda>now.
          and_next (wait_until V role (lit ''grace poll: '') (now + 2 * 1000) (is_connected_event remote_peer_id)) (\<lambda>verified.
            case verified of
              Some (SwConnectionEstablished p) \<Rightarrow>
                and_next (say_out role (lit ''direct-connected peer='' @ to_base58 (rv_mh V) p @ lit '' (mTLS verified)'')) (\<lambda>_.
                ping_and_exit V role p relay_peer_id bridge_stream deadline)
            | _ \<Rightarrow>
                and_next (say_out role (lit ''grace-elapsed before mTLS identity -> relay-ping fallback'')) (\<lambda>_.
                relay_ping_fallback V role relay_peer_id bridge_stream))))
      | BridgeClosed \<Rightarrow>
          say_out role (lit ''bridge-closed (remote likely completed via direct path; relay no longer needed) -- done'')
      | HolePunchTimeout \<Rightarrow>
          and_next (say_out role (lit ''hole-punch-timeout reason=deadline elapsed -> relay-ping fallback'')) (\<lambda>_.
          relay_ping_fallback V role relay_peer_id bridge_stream))"

definition relay_listen_session ::
  "('q, 's, 'mh::linorder) run_env \<Rightarrow> 'mh peer_addr \<Rightarrow> 'mh run_options \<Rightarrow> (('q, 's, 'mh) session, unit) script" where
  "relay_listen_session V relay_addr opts =
     (let role = lit ''relay-listen''; relay_peer_id = pa_peer_id relay_addr
      in and_next (relay_start V role relay_addr opts []) (\<lambda>(our_observed, deadline).
         and_next (reserve_slot V role relay_peer_id deadline) (\<lambda>_.
         and_next (wait_inbound_stream V role relay_peer_id STOP_PROTOCOL_ID deadline) (\<lambda>bridge_stream.
         and_next (say_out role (lit ''incoming-circuit via-relay stream='' @ show_stream_id bridge_stream)) (\<lambda>_.
         and_next (accept_circuit V role relay_peer_id bridge_stream deadline) (\<lambda>(remote_peer_id, bridge_bytes).
         and_next (respond_dcutr V role relay_peer_id bridge_stream deadline our_observed bridge_bytes) (\<lambda>remote_addrs.
         and_next (hole_punch_listener V role remote_peer_id remote_addrs bridge_stream) (\<lambda>punched.
         after_hole_punch V role relay_peer_id remote_peer_id bridge_stream deadline punched))))))))"

section \<open>The dialer\<close>

text \<open>The bytes that came behind the answer of the relay are the first of the bridge.\<close>

definition connect_through_relay ::
  "('q, 's, 'mh::linorder) run_env \<Rightarrow> rstr \<Rightarrow> 'mh peer_id \<Rightarrow> 'mh peer_id \<Rightarrow> nat \<Rightarrow> (('q, 's, 'mh) session, stream_id \<times> bytes) script" where
  "connect_through_relay V role relay_peer_id target deadline =
     and_next (session_open_stream V (lit ''open HOP: '') relay_peer_id HOP_PROTOCOL_ID) (\<lambda>hop_stream.
     and_next (wait_user_stream_ready V role hop_stream deadline) (\<lambda>_.
     and_next (hop_connect_flush (hop_connect_new (peer_id_to_bytes (rv_mh V) target))) (\<lambda>(flow, bs).
     and_next (send_data V relay_peer_id hop_stream bs) (\<lambda>_.
     and_next (feed_until V role hop_stream deadline hop_connect_feed flow) (\<lambda>(flow, answer).
     and_next (case answer of
         ConnectBridged _ \<Rightarrow> say_out role (lit ''bridge-established via-relay'')
       | ConnectRefused status reason \<Rightarrow>
           fail (lit ''relay refused CONNECT: status='' @ debug_relay_status status @ lit '' reason='' @ reason)) (\<lambda>_.
     finish (hop_stream, snd (hop_connect_bridge_bytes flow))))))))"

text \<open>The initiator, until it has the addresses of the other side and the round-trip time.\<close>

definition initiate_turn ::
  "('q, 's, 'mh::linorder) run_env \<Rightarrow> rstr \<Rightarrow> stream_id \<Rightarrow> nat \<Rightarrow> nat \<Rightarrow> 'mh dcutr_initiator \<times> 'mh initiator_outcome option \<Rightarrow>
     (('q, 's, 'mh) session,
      ('mh dcutr_initiator \<times> 'mh initiator_outcome option) + 'mh dcutr_initiator \<times> 'mh multiaddr list \<times> u64) script" where
  "initiate_turn V role bridge_stream deadline dcutr_sent_at = (\<lambda>(flow, pending_dialnow).
     and_next
       (case pending_dialnow of
          Some x \<Rightarrow> finish (flow, Some x)
        | None \<Rightarrow>
            and_next (wait_user_stream_data V role bridge_stream deadline) (\<lambda>data.
            and_next (instant_now V) (\<lambda>now.
            dcutr_initiator_feed (rv_mh V) flow data (of_nat (now - dcutr_sent_at)))))
       (\<lambda>(flow, answer).
          case answer of
            None \<Rightarrow> finish (Inl (flow, None))
          | Some (DialNow remote_addrs remote_addr_bytes rtt_ms) \<Rightarrow>
              and_next (if length remote_addrs < length remote_addr_bytes
                then say_err role (lit ''dcutr-reply: '' @ show_nat (length remote_addr_bytes - length remote_addrs) @ lit '' of '' @
                  show_nat (length remote_addr_bytes) @ lit '' addrs unparsable, ignoring'')
                else finish ()) (\<lambda>_.
              finish (Inr (flow, remote_addrs, rtt_ms)))))"

definition initiate_dcutr ::
  "('q, 's, 'mh::linorder) run_env \<Rightarrow> rstr \<Rightarrow> 'mh peer_id \<Rightarrow> stream_id \<Rightarrow> nat \<Rightarrow> 'mh multiaddr list \<Rightarrow> bytes \<Rightarrow>
     (('q, 's, 'mh) session, 'mh multiaddr list) script" where
  "initiate_dcutr V role relay_peer_id bridge_stream deadline our_observed bridge_bytes =
     and_next (instant_now V) (\<lambda>dcutr_sent_at.
     and_next (dcutr_initiator_flush (rv_mh V) (dcutr_initiator_new (rv_mh V) our_observed)) (\<lambda>(flow, bs).
     and_next (send_data V relay_peer_id bridge_stream bs) (\<lambda>_.
     and_next (if bridge_bytes \<noteq> [] then dcutr_initiator_feed (rv_mh V) flow bridge_bytes 0 else finish (flow, None)) (\<lambda>state.
     and_next (repeat_until (initiate_turn V role bridge_stream deadline dcutr_sent_at) state) (\<lambda>(flow, remote_addrs, rtt_ms).
     and_next (say_out role (lit ''dcutr-dialnow addrs='' @ show_nat (length remote_addrs) @ lit '' rtt='' @ show_nat (unat rtt_ms) @ lit ''ms'')) (\<lambda>_.
     and_next (print_remote_candidates (rv_mh V) role remote_addrs) (\<lambda>_.
     and_next (dcutr_initiator_send_sync_flush (rv_mh V) flow) (\<lambda>(_, bs).
     and_next (send_data V relay_peer_id bridge_stream bs) (\<lambda>_.
     finish remote_addrs)))))))))"

text \<open>A payload is sent over the bridge until it comes back as it was.\<close>

definition ping_via_relay ::
  "('q, 's, 'mh::linorder) run_env \<Rightarrow> rstr \<Rightarrow> 'mh peer_id \<Rightarrow> 'mh peer_id \<Rightarrow> stream_id \<Rightarrow> nat \<Rightarrow> (('q, 's, 'mh) session, unit) script" where
  "ping_via_relay V role target relay_peer_id bridge_stream deadline =
     and_next (random_bytes V RELAY_PING_LEN) (\<lambda>payload.
     and_next (instant_now V) (\<lambda>sent_at.
     and_next (send_data V relay_peer_id bridge_stream payload) (\<lambda>_.
     repeat_until (\<lambda>_.
       and_next (wait_user_stream_data V role bridge_stream deadline) (\<lambda>data.
         if data = payload
         then and_next (instant_now V) (\<lambda>now.
              and_next (say_out role (lit ''ping-via-relay peer='' @ to_base58 (rv_mh V) target @ lit '' rtt='' @
                show_nat (now - sent_at) @ lit ''ms -- done'')) (\<lambda>_.
              finish (Inr ())))
         else finish (Inl ()))) ())))"

definition relay_dial_session ::
  "('q, 's, 'mh::linorder) run_env \<Rightarrow> 'mh peer_addr \<Rightarrow> 'mh peer_id \<Rightarrow> 'mh run_options \<Rightarrow> (('q, 's, 'mh) session, unit) script" where
  "relay_dial_session V relay_addr target opts =
     (let role = lit ''relay-dial''; relay_peer_id = pa_peer_id relay_addr
      in and_next (relay_start V role relay_addr opts [lit ''target='' @ to_base58 (rv_mh V) target]) (\<lambda>(our_observed, deadline).
         and_next (connect_through_relay V role relay_peer_id target deadline) (\<lambda>(bridge_stream, bridge_bytes).
         and_next (initiate_dcutr V role relay_peer_id bridge_stream deadline our_observed bridge_bytes) (\<lambda>remote_addrs.
         and_next (dial_direct_candidates V role target remote_addrs) (\<lambda>_.
         and_next (instant_now V) (\<lambda>now.
         and_next (wait_until V role (lit ''holepunch poll: '') (now + HOLEPUNCH_DEADLINE) (is_connected_event target)) (\<lambda>punched.
           if punched \<noteq> None
           then and_next (say_out role (lit ''direct-connected peer='' @ to_base58 (rv_mh V) target @ lit '' (hole-punch success)'')) (\<lambda>_.
                ping_and_exit V role target relay_peer_id bridge_stream deadline)
           else and_next (say_out role (lit ''hole-punch-timeout reason=deadline elapsed -> relay-ping fallback'')) (\<lambda>_.
                ping_via_relay V role target relay_peer_id bridge_stream deadline))))))))"

section \<open>Building the swarm\<close>

text \<open>\<open>None\<close> of \<open>build_endpoint\<close> is a panic of the builder.\<close>

definition swarm_on_host ::
  "'mh multihash_api \<Rightarrow> (bytes \<Rightarrow> bytes) \<Rightarrow> rstr list \<Rightarrow> ed25519_keypair \<Rightarrow> ('q, 's, 'mh) quic_endpoint \<Rightarrow>
     ('w, ('q, 's, 'mh) endpoint) script" where
  "swarm_on_host M H pids keypair t =
     (case build_endpoint M H keypair AGENT t of
        None \<Rightarrow> panic
      | Some d \<Rightarrow> finish (foldl (\<lambda>d pid. driver_add_user_protocol pid d) d pids))"

definition build_swarm_with_relay_protocols ::
  "'mh multihash_api \<Rightarrow> (bytes \<Rightarrow> bytes) \<Rightarrow> 'd ed25519_api \<Rightarrow> der_api \<Rightarrow> ('sk, 'b, 'cert, 'v, 'r) x509_api \<Rightarrow>
     ('s, 'c, 'x, 'p, 'k) bind_env \<Rightarrow> 'f fs_api \<Rightarrow> 'mh run_options \<Rightarrow> rstr \<Rightarrow>
     (('f, 'd, 'r) host, ('q, 's, 'mh) endpoint) script" where
  "build_swarm_with_relay_protocols M H D R X B F opts role =
     and_next (load_keypair M H D F opts role) (\<lambda>keypair.
     and_next (build_peer_transport M H D R X B opts keypair) (\<lambda>t.
     swarm_on_host M H [HOP_PROTOCOL_ID, STOP_PROTOCOL_ID, DCUTR_PROTOCOL_ID, AUTONAT_PROTOCOL_ID] keypair t))"

definition relay_run_listen where
  "relay_run_listen V D R X B F relay_addr opts =
     and_next (build_swarm_with_relay_protocols (rv_mh V) (rv_sha V) D R X B F opts (lit ''relay-listen''))
       (in_session (relay_listen_session V relay_addr opts))"

definition relay_run_dial where
  "relay_run_dial V D R X B F relay_addr target opts =
     and_next (build_swarm_with_relay_protocols (rv_mh V) (rv_sha V) D R X B F opts (lit ''relay-dial''))
       (in_session (relay_dial_session V relay_addr target opts))"

end
