(* ===== verification/PeerService.thy ===== *)
theory PeerService
  imports PeerRelay
begin

text \<open>
  The AutoNAT service of the example program, \<open>examples/peer/src/relay.rs\<close>, which dials the addresses of a
  requester back over sockets of its own, and the dispatch of \<open>main.rs\<close>.
\<close>

section \<open>Dialing back\<close>

definition AUTONAT_REQUEST_DEADLINE :: nat where
  "AUTONAT_REQUEST_DEADLINE = 5 * 1000"

definition AUTONAT_DIALBACK_DEADLINE :: nat where
  "AUTONAT_DIALBACK_DEADLINE = 5 * 1000"

text \<open>The service beside its swarm: the random numbers for the keys and certificates of its probes.\<close>

type_synonym ('q, 's, 'mh, 'd, 'r) service = "('q, 's, 'mh) session \<times> 'd \<times> 'r"

definition in_app :: "(('q, 's, 'mh) session, 'a) script \<Rightarrow> (('q, 's, 'mh, 'd, 'r) service, 'a) script" where
  "in_app m = (\<lambda>(w, rngs). map_option (\<lambda>(w, res). ((w, rngs), res)) (m w))"

text \<open>The result of a script as a value.\<close>

definition caught :: "('w, 'a) script \<Rightarrow> ('w, rstr + 'a) script" where
  "caught m = (\<lambda>w.
     case m w of
       None \<Rightarrow> None
     | Some (w, Done x) \<Rightarrow> finish (Inr x) w
     | Some (w, Failed message) \<Rightarrow> finish (Inl message) w
     | Some (w, Panicked) \<Rightarrow> panic w)"

definition dialback_bind_addrs :: "'mh multiaddr \<Rightarrow> rstr list" where
  "dialback_bind_addrs addr =
     (case protocols addr of
        Ip6 _ # _ \<Rightarrow> [lit ''[::]:0'']
      | Dns6 _ # _ \<Rightarrow> [lit ''[::]:0'']
      | Dns _ # _ \<Rightarrow> [lit ''[::]:0'', lit ''0.0.0.0:0'']
      | _ \<Rightarrow> [lit ''0.0.0.0:0''])"

text \<open>The results are computed one by one: after a success no further one is.\<close>

fun merge_dialback_results :: "('w, rstr + bool) script list \<Rightarrow> rstr option \<Rightarrow> bool \<Rightarrow> ('w, bool) script" where
  "merge_dialback_results [] last_error saw_completion =
     (if saw_completion then finish False
      else case last_error of Some e \<Rightarrow> fail e | None \<Rightarrow> finish False)"
| "merge_dialback_results (result # results) last_error saw_completion =
     and_next result (\<lambda>r.
       case r of
         Inr reached \<Rightarrow> if reached then finish True else merge_dialback_results results last_error True
       | Inl e \<Rightarrow> merge_dialback_results results (Some e) saw_completion)"

text \<open>A probe is a swarm of its own that dials one address and waits for the connection; it prints nothing.\<close>

definition probe_session ::
  "('q, 's, 'mh::linorder) run_env \<Rightarrow> 'mh peer_id \<Rightarrow> 'mh multiaddr \<Rightarrow> nat \<Rightarrow> (('q, 's, 'mh) session, bool) script" where
  "probe_session V p addr timeout =
     and_next (lift_result (\<lambda>e. lit ''bad dialback peer addr '' @ show_multiaddr (rv_mh V) addr @ lit '': '' @ show_peer_addr_error e)
       (peer_addr_new addr p)) (\<lambda>peer_addr.
     and_next (session_dial V (lit ''dialback start '' @ show_peer_addr (rv_mh V) peer_addr @ lit '': '') peer_addr) (\<lambda>_.
     and_next (instant_now V) (\<lambda>now.
     and_next (wait_printing V (\<lambda>_. []) (lit ''dialback poll '' @ show_peer_addr (rv_mh V) peer_addr @ lit '': '') (now + timeout)
       (is_connected_event p)) (\<lambda>found.
     finish (found \<noteq> None)))))"

text \<open>The probe goes on with the readings of the clock, and counts its own time from its start.\<close>

definition probe_env :: "('q, 's, 'mh) run_env \<Rightarrow> nat \<Rightarrow> ('q, 's, 'mh) run_env" where
  "probe_env V n = V\<lparr>rv_clk := (\<lambda>k. of_nat (rv_inst V k - rv_inst V n))\<rparr>"

definition in_probe ::
  "(('q, 's, 'mh) session, 'a) script \<Rightarrow> ('q, 's, 'mh) endpoint \<Rightarrow> (('q, 's, 'mh) session, 'a) script" where
  "in_probe m d = (\<lambda>w.
     case m \<lparr>ss_swarm = d\<lparr>dv_readings := dv_readings (ss_swarm w)\<rparr>, ss_out = ss_out w\<rparr> of
       None \<Rightarrow> None
     | Some (probe, res) \<Rightarrow>
         Some (\<lparr>ss_swarm = (ss_swarm w)\<lparr>dv_readings := dv_readings (ss_swarm probe)\<rparr>, ss_out = ss_out probe\<rparr>, res))"

text \<open>\<open>B\<close> has what the system does when a socket is bound, for each reading of the clock.\<close>

definition dialback_candidate_with_bind ::
  "('q, 's, 'mh::linorder) run_env \<Rightarrow> 'd ed25519_api \<Rightarrow> der_api \<Rightarrow> ('sk, 'b, 'cert, 'v, 'r) x509_api \<Rightarrow>
     (nat \<Rightarrow> ('s, 'c, 'x, 'p, 'k) bind_env) \<Rightarrow> 'mh peer_id \<Rightarrow> 'mh multiaddr \<Rightarrow> nat \<Rightarrow> rstr \<Rightarrow>
     (('q, 's, 'mh, 'd, 'r) service, bool) script" where
  "dialback_candidate_with_bind V D R X B p addr timeout bind_addr = (\<lambda>(w, rng, cert_rng).
     let n = dv_readings (ss_swarm w); (rng, keypair) = generate_with_rng D rng
     in case qe_bind (rv_mh V) (rv_sha V) D R X (B n) (node_config_new keypair) bind_addr cert_rng of
          None \<Rightarrow> panic (w, rng, cert_rng)
        | Some (cert_rng, Inl e) \<Rightarrow>
            fail (lit ''dialback bind '' @ bind_addr @ lit '': '' @ show_transport_error e) (w, rng, cert_rng)
        | Some (cert_rng, Inr t) \<Rightarrow>
            (case build_endpoint (rv_mh V) (rv_sha V) keypair AGENT t of
               None \<Rightarrow> panic (w, rng, cert_rng)
             | Some d \<Rightarrow> in_app (in_probe (probe_session (probe_env V n) p addr timeout) d) (w, rng, cert_rng)))"

definition dialback_candidate ::
  "('q, 's, 'mh::linorder) run_env \<Rightarrow> 'd ed25519_api \<Rightarrow> der_api \<Rightarrow> ('sk, 'b, 'cert, 'v, 'r) x509_api \<Rightarrow>
     (nat \<Rightarrow> ('s, 'c, 'x, 'p, 'k) bind_env) \<Rightarrow> 'mh peer_id \<Rightarrow> 'mh multiaddr \<Rightarrow> nat \<Rightarrow>
     (('q, 's, 'mh, 'd, 'r) service, bool) script" where
  "dialback_candidate V D R X B p addr timeout =
     merge_dialback_results
       (map (\<lambda>bind_addr. caught (dialback_candidate_with_bind V D R X B p addr timeout bind_addr)) (dialback_bind_addrs addr)) None False"

section \<open>Requests\<close>

text \<open>The loop over the addresses of a request; \<open>dialback\<close> is the call for one address.\<close>

fun dialback_loop ::
  "'mh multihash_api \<Rightarrow> rstr \<Rightarrow> ('mh multiaddr \<Rightarrow> (('q, 's, 'mh, 'd, 'r) service, bool) script) \<Rightarrow> 'mh multiaddr list \<Rightarrow>
     'mh multiaddr list \<Rightarrow> (('q, 's, 'mh, 'd, 'r) service, 'mh multiaddr list) script" where
  "dialback_loop M role dialback [] reached = finish reached"
| "dialback_loop M role dialback (addr # addrs) reached =
     and_next (caught (dialback addr)) (\<lambda>r.
       case r of
         Inr True \<Rightarrow>
           and_next (in_app (say_out role (lit ''dialback-success addr='' @ show_multiaddr M addr))) (\<lambda>_.
           dialback_loop M role dialback addrs (push_unique reached addr))
       | Inr False \<Rightarrow>
           and_next (in_app (say_out role (lit ''dialback-timeout addr='' @ show_multiaddr M addr))) (\<lambda>_.
           dialback_loop M role dialback addrs reached)
       | Inl e \<Rightarrow>
           and_next (in_app (say_err role (lit ''dialback-bad-addr addr='' @ show_multiaddr M addr @ lit '' reason='' @ e))) (\<lambda>_.
           dialback_loop M role dialback addrs reached))"

definition autonat_respond ::
  "'mh multihash_api \<Rightarrow> 'mh autonat_server \<Rightarrow> 'mh autonat_server_input \<Rightarrow> ('w, 'mh autonat_server) script" where
  "autonat_respond M server i =
     (case av_handle_input M i server of
        None \<Rightarrow> panic
      | Some (_, Inl e) \<Rightarrow> fail (lit ''AutoNAT respond: '' @ show_autonat_error e)
      | Some (server, Inr _) \<Rightarrow> finish server)"

definition reject_probe ::
  "('q, 's, 'mh::linorder) run_env \<Rightarrow> rstr \<Rightarrow> 'mh peer_id \<Rightarrow> stream_id \<Rightarrow> 'mh autonat_server \<Rightarrow> (('q, 's, 'mh) session, unit) script" where
  "reject_probe V role requester sid server =
     and_next (autonat_respond (rv_mh V) server
       (AsRespondError RsBadRequest (lit ''AutoNAT request peer id did not match stream peer''))) (\<lambda>server.
     and_next (autonat_server_flush (rv_mh V) server) (\<lambda>(_, bs).
     and_next (send_data V requester sid bs) (\<lambda>_.
     say_out role (lit ''probe-rejected reason=peer-id-mismatch''))))"

definition answer_probe ::
  "('q, 's, 'mh::linorder) run_env \<Rightarrow> rstr \<Rightarrow> 'mh peer_id \<Rightarrow> stream_id \<Rightarrow> 'mh autonat_server \<Rightarrow> 'mh multiaddr list \<Rightarrow>
     (('q, 's, 'mh) session, unit) script" where
  "answer_probe V role requester sid server reached =
     and_next
       (if reached \<noteq> []
        then and_next (autonat_respond (rv_mh V) server (AsRespondPublic reached)) (\<lambda>server.
             and_next (say_out role (lit ''probe-public peer='' @ to_base58 (rv_mh V) requester @ lit '' addrs='' @ show_nat (length reached))) (\<lambda>_.
             finish server))
        else and_next (autonat_respond (rv_mh V) server (AsRespondError RsDialError (lit ''dialback deadline elapsed''))) (\<lambda>server.
             and_next (say_out role (lit ''probe-private peer='' @ to_base58 (rv_mh V) requester @ lit '' reason=timeout'')) (\<lambda>_.
             finish server)))
       (\<lambda>server.
     and_next (autonat_server_flush (rv_mh V) server) (\<lambda>(_, bs).
     send_data V requester sid bs))"

definition read_autonat_request ::
  "('q, 's, 'mh::linorder) run_env \<Rightarrow> rstr \<Rightarrow> stream_id \<Rightarrow> (('q, 's, 'mh) session, 'mh autonat_server \<times> 'mh autonat_request) script" where
  "read_autonat_request V role sid =
     and_next (instant_now V) (\<lambda>now.
     and_next (feed_until V role sid (now + AUTONAT_REQUEST_DEADLINE) (autonat_server_feed (rv_mh V)) autonat_server_new) (\<lambda>(server, request).
     and_next (say_out role (lit ''probe-request peer='' @ to_base58 (rv_mh V) (aq_peer_id request) @ lit '' addrs='' @
       show_nat (length (aq_addrs request)))) (\<lambda>_.
     and_next (if length (aq_addrs request) < length (aq_raw_addrs request)
       then say_err role (lit ''probe-request: '' @ show_nat (length (aq_addrs request)) @ lit '' of '' @
         show_nat (length (aq_raw_addrs request)) @ lit '' addrs parsed; unsupported addrs ignored'')
       else finish ()) (\<lambda>_.
     finish (server, request)))))"

definition handle_autonat_request ::
  "('q, 's, 'mh::linorder) run_env \<Rightarrow> 'd ed25519_api \<Rightarrow> der_api \<Rightarrow> ('sk, 'b, 'cert, 'v, 'r) x509_api \<Rightarrow>
     (nat \<Rightarrow> ('s, 'c, 'x, 'p, 'k) bind_env) \<Rightarrow> rstr \<Rightarrow> 'mh peer_id \<Rightarrow> stream_id \<Rightarrow>
     (('q, 's, 'mh, 'd, 'r) service, unit) script" where
  "handle_autonat_request V D R X B role requester sid =
     and_next (in_app (read_autonat_request V role sid)) (\<lambda>(server, request).
       if aq_peer_id request \<noteq> requester then in_app (reject_probe V role requester sid server)
       else
         and_next (dialback_loop (rv_mh V) role
             (\<lambda>addr. dialback_candidate V D R X B (aq_peer_id request) addr AUTONAT_DIALBACK_DEADLINE) (aq_addrs request) []) (\<lambda>reached.
         in_app (answer_probe V role requester sid server reached)))"

text \<open>The service: one request after the other; a request that fails is only printed.\<close>

definition service_turn ::
  "('q, 's, 'mh::linorder) run_env \<Rightarrow> 'd ed25519_api \<Rightarrow> der_api \<Rightarrow> ('sk, 'b, 'cert, 'v, 'r) x509_api \<Rightarrow>
     (nat \<Rightarrow> ('s, 'c, 'x, 'p, 'k) bind_env) \<Rightarrow> rstr \<Rightarrow> nat \<Rightarrow> (('q, 's, 'mh, 'd, 'r) service, unit + unit) script" where
  "service_turn V D R X B role deadline =
     and_next (in_app (instant_now V)) (\<lambda>now.
       if now < deadline
       then and_next (in_app (wait_until V role (lit ''autonat wait stream: '') deadline
                (is_inbound_ready_event (\<lambda>_. True) AUTONAT_PROTOCOL_ID))) (\<lambda>ev.
              case ev of
                Some (SwUserStreamReady p sid _ _) \<Rightarrow>
                  and_next (caught (handle_autonat_request V D R X B role p sid)) (\<lambda>r.
                  and_next (case r of
                      Inl e \<Rightarrow> in_app (say_err role (lit ''request-failed stream='' @ show_stream_id sid @ lit '' reason='' @ e))
                    | Inr _ \<Rightarrow> finish ()) (\<lambda>_.
                  finish (Inl ())))
              | _ \<Rightarrow> finish (Inr ()))
       else finish (Inr ()))"

definition autonat_service ::
  "('q, 's, 'mh::linorder) run_env \<Rightarrow> 'd ed25519_api \<Rightarrow> der_api \<Rightarrow> ('sk, 'b, 'cert, 'v, 'r) x509_api \<Rightarrow>
     (nat \<Rightarrow> ('s, 'c, 'x, 'p, 'k) bind_env) \<Rightarrow> (('q, 's, 'mh, 'd, 'r) service, unit) script" where
  "autonat_service V D R X B =
     (let role = lit ''autonat''
      in and_next (in_app (relay_listen_on_bound_addrs V role)) (\<lambda>_.
         and_next (in_app session_peer_id) (\<lambda>us.
         and_next (in_app (say_out role (lit ''us='' @ to_base58 (rv_mh V) us))) (\<lambda>_.
         and_next (in_app (say_err role (lit ''waiting for AutoNAT probes (Ctrl-C to stop)''))) (\<lambda>_.
         and_next (in_app (instant_now V)) (\<lambda>now.
         repeat_until (\<lambda>_. service_turn V D R X B role (now + LISTEN_FOREVER)) ()))))))"

section \<open>The program\<close>

definition in_service ::
  "(('q, 's, 'mh, 'd, 'r) service, 'a) script \<Rightarrow> ('q, 's, 'mh) endpoint \<Rightarrow> (('f, 'd, 'r) host, 'a) script" where
  "in_service m d = (\<lambda>h.
     case m (\<lparr>ss_swarm = d, ss_out = ho_out h\<rparr>, ho_key_rng h, ho_cert_rng h) of
       None \<Rightarrow> None
     | Some ((w, rng, cert_rng), res) \<Rightarrow> Some (h\<lparr>ho_out := ss_out w, ho_key_rng := rng, ho_cert_rng := cert_rng\<rparr>, res))"

definition run_autonat_server where
  "run_autonat_server V D R X B BP F opts =
     and_next (load_keypair (rv_mh V) (rv_sha V) D F opts (lit ''autonat'')) (\<lambda>keypair.
     and_next (build_peer_transport (rv_mh V) (rv_sha V) D R X B opts keypair) (\<lambda>t.
     and_next (swarm_on_host (rv_mh V) (rv_sha V) [AUTONAT_PROTOCOL_ID] keypair t)
       (in_service (autonat_service V D R X BP))))"

text \<open>\<open>BP\<close> is for the sockets of probes, \<open>B\<close> for the one the program binds first.\<close>

definition run_mode ::
  "('q, 's, 'mh::linorder) run_env \<Rightarrow> 'd ed25519_api \<Rightarrow> der_api \<Rightarrow> ('sk, 'b, 'cert, 'v, 'r) x509_api \<Rightarrow>
     ('s, 'c, 'x, 'p, 'k) bind_env \<Rightarrow> (nat \<Rightarrow> ('s, 'c, 'x, 'p, 'k) bind_env) \<Rightarrow> 'f fs_api \<Rightarrow> 'mh mode \<Rightarrow>
     (('f, 'd, 'r) host, unit) script" where
  "run_mode V D R X B BP F mode =
     (case mode of
        DirectListen opts \<Rightarrow> direct_run_listen V D R X B F opts
      | DirectDial target opts \<Rightarrow> direct_run_dial V D R X B F target opts
      | RelayListen relay opts \<Rightarrow> relay_run_listen V D R X B F relay opts
      | RelayDial relay target opts \<Rightarrow> relay_run_dial V D R X B F relay target opts
      | AutoNatServer opts \<Rightarrow> run_autonat_server V D R X B BP F opts)"

text \<open>The host at the end and the exit status; a panic of the main thread exits with 101.\<close>

definition main_program ::
  "('q, 's, 'mh::linorder) run_env \<Rightarrow> 'd ed25519_api \<Rightarrow> der_api \<Rightarrow> ('sk, 'b, 'cert, 'v, 'r) x509_api \<Rightarrow>
     ('s, 'c, 'x, 'p, 'k) bind_env \<Rightarrow> (nat \<Rightarrow> ('s, 'c, 'x, 'p, 'k) bind_env) \<Rightarrow> 'f fs_api \<Rightarrow> rstr list \<Rightarrow>
     ('f, 'd, 'r) host \<Rightarrow> (('f, 'd, 'r) host \<times> nat) option" where
  "main_program V D R X B BP F args h =
     (case parse (rv_mh V) args of
        Inl message \<Rightarrow> Some (h\<lparr>ho_out := ho_out h @ [Stderr message]\<rparr>, 2)
      | Inr mode \<Rightarrow>
          (case run_mode V D R X B BP F mode h of
             None \<Rightarrow> None
           | Some (h, Done _) \<Rightarrow> Some (h, 0)
           | Some (h, Failed e) \<Rightarrow> Some (h\<lparr>ho_out := ho_out h @ [Stderr (lit ''error: '' @ e)]\<rparr>, 1)
           | Some (h, Panicked) \<Rightarrow> Some (h, 101)))"

end
