(* ===== verification/PeerRelayProps.thy ===== *)
theory PeerRelayProps
  imports PeerService
begin

text \<open>
  What the relay modes and the AutoNAT service of the example program guarantee: they keep the invariant of
  their endpoint, they report success only after the exchange that proves it, and the service calls an address
  public only when a connection to it was made.
\<close>

section \<open>Scripts that keep a session\<close>

lemma and_next_laws [simp]:
  "and_next (finish x) f = f x" "and_next (fail message) f = fail message" "and_next panic f = panic"
  by (auto simp: and_next_def finish_def fail_def panic_def)

lemma or_fail_simps [simp]: "or_fail message None = fail message" "or_fail message (Some x) = finish x"
  by (simp_all add: or_fail_def)

lemma steady_case_prod: "(\<And>a b. keeping I out bad (f a b)) \<Longrightarrow> keeping I out bad (case x of (a, b) \<Rightarrow> f a b)"
  by (cases x) simp

lemma steady_case_sum:
  "(\<And>e. keeping I out bad (f e)) \<Longrightarrow> (\<And>y. keeping I out bad (g y)) \<Longrightarrow> keeping I out bad (case r of Inl e \<Rightarrow> f e | Inr y \<Rightarrow> g y)"
  by (cases r) simp_all

lemma steady_panic [intro]: "keeping I out True panic"
  by (simp add: keeping_def panic_def)

lemma steady_machine_flush:
  assumes "handled = None \<Longrightarrow> bad"
  shows "keeping I out bad (machine_flush handled poll pick)"
  using assms by (auto simp: keeping_def machine_flush_def panic_def finish_def split: option.splits prod.splits)

lemma steady_machine_feed:
  assumes "handled = None \<Longrightarrow> bad"
  shows "keeping I out bad (machine_feed message handled poll pick)"
  using assms by (auto simp: keeping_def machine_feed_def panic_def finish_def fail_def split: option.splits prod.splits sum.splits)

lemmas machine_calls = relay_reservation_flush_def relay_reservation_feed_def hop_connect_flush_def hop_connect_feed_def
  stop_feed_def stop_accept_flush_def dcutr_initiator_flush_def dcutr_initiator_feed_def autonat_client_flush_def
  autonat_client_feed_def autonat_server_feed_def autonat_server_flush_def

text \<open>The machines of the relay and of DCUtR panic on some inputs; those of AutoNAT do not.\<close>

lemma steady_machines [intro]:
  "keeping I out True (relay_reservation_flush hr)" "keeping I out True (relay_reservation_feed hr data)"
  "keeping I out True (hop_connect_flush hc)" "keeping I out True (hop_connect_feed hc data)"
  "keeping I out True (stop_feed sr data)" "keeping I out True (stop_accept_flush sr)"
  "keeping I out True (dcutr_initiator_flush M di)" "keeping I out True (dcutr_initiator_feed M di data rtt_ms)"
  "keeping I out True (dcutr_initiator_send_sync_flush M di)" "keeping I out True (dcutr_responder_feed M dr data)"
  by (auto simp: machine_calls dcutr_initiator_send_sync_flush_def dcutr_responder_feed_def
      intro!: steady_machine_flush steady_machine_feed split: option.splits prod.splits sum.splits)

lemma steady_autonat_machines [intro]:
  "keeping I out bad (autonat_client_flush M ac)" "keeping I out bad (autonat_client_feed M ac data)"
  "keeping I out bad (autonat_server_feed M av data)" "keeping I out bad (autonat_server_flush M av)"
  by (auto simp: machine_calls intro!: steady_machine_flush steady_machine_feed)

lemma steady_repeat:
  assumes body: "\<And>st. keeping I out bad (body st)"
  shows "keeping I out bad (repeat_until body st)"
  unfolding keeping_def
proof (intro allI impI)
  fix w w' r
  assume ok: "I w" and run: "repeat_until body st w = Some (w', r)"
  let ?P = "\<lambda>b st w x. b = body \<longrightarrow> I w \<longrightarrow>
    I (fst x) \<and> (snd x = Panicked \<longrightarrow> bad) \<and> (\<exists>lines. out (fst x) = out w @ lines)"
  have "?P body st w (w', r)"
  proof (rule repeat_until.raw_induct [of ?P, OF _ run])
    fix rep b st w x
    assume ih: "\<And>b st w x. rep b st w = Some x \<Longrightarrow> ?P b st w x"
      and step: "Option.bind (b st w) (\<lambda>(w, res).
          case res of
            Done next_st \<Rightarrow> (case next_st of Inl st \<Rightarrow> rep b st w | Inr x \<Rightarrow> Some (w, Done x))
          | Failed message \<Rightarrow> Some (w, Failed message)
          | Panicked \<Rightarrow> Some (w, Panicked)) = Some x"
    show "?P b st w x"
    proof (intro impI)
      assume b: "b = body" and ok: "I w"
      obtain w1 res where one: "body st w = Some (w1, res)" using step b by (auto simp: bind_eq_Some_conv)
      note first = steadyD [OF body ok one]
      show "I (fst x) \<and> (snd x = Panicked \<longrightarrow> bad) \<and> (\<exists>lines. out (fst x) = out w @ lines)"
      proof (cases "\<exists>st'. res = Done (Inl st')")
        case True
        then obtain st' where "rep body st' w1 = Some x" using step one b by auto
        from ih [OF this] show ?thesis using first by auto
      next
        case False
        then show ?thesis using step one b first by (cases res) (auto split: sum.splits)
      qed
    qed
  qed
  then show "I w' \<and> (r = Panicked \<longrightarrow> bad) \<and> (\<exists>lines. out w' = out w @ lines)"
    using ok by simp
qed

lemma steady_look_at:
  assumes "\<And>d. facade_ok (rv_mh V) (rv_sha V) ic pc (rv_quic V) d \<Longrightarrow>
    \<exists>d' res. call d = Some (d', res) \<and> facade_ok (rv_mh V) (rv_sha V) ic pc (rv_quic V) d'"
  shows "steady V ic pc bad (look_at call)"
  using assms by (fastforce simp: keeping_def look_at_def finish_def app_ok_def)

lemma steady_reads [intro]:
  "steady V ic pc bad session_peer_id" "steady V ic pc bad (random_bytes V' len)" "steady V ic pc bad (inbound_sources V')"
  by (auto simp: keeping_def session_peer_id_def random_bytes_def inbound_sources_def finish_def)

lemma steady_candidates [intro]:
  "steady V ic pc bad (candidate_addrs M role bound_addrs external_addrs observed_addr)"
  "steady V ic pc bad (relay_observed_addr M p role)"
  "steady V ic pc bad (print_candidates M role cs)" "steady V ic pc bad (print_remote_candidates M role cs)"
proof -
  show "steady V ic pc bad (relay_observed_addr M p role)"
    by (auto simp: keeping_def relay_observed_addr_def finish_def and_next_def say_err_def say_def app_ok_def
        split: option.splits sum.splits)
qed (auto simp: candidate_addrs_def Let_def print_candidates_def print_remote_candidates_def intro!: steady_and_next steady_if)

context session_laws
begin

text \<open>Calls of the swarm; the waits never meet an event they did not ask for.\<close>

lemma steady_swarm_calls [intro]:
  "steady V ic pc bad (session_dial V message addr)" "steady V ic pc bad (session_open_stream V message p pid)"
  "steady V ic pc bad (session_poll V message)" "steady V ic pc bad (send_data V p sid data)"
  "steady V ic pc bad (on_swarm message (listen_on_bound_addrs (session_transport V)))"
proof -
  show "steady V ic pc bad (session_dial V message addr)"
    unfolding session_dial_def
    by (intro steady_on_swarm) (metis facade_ok_def prod.collapse quic.dial_safe)
  show "steady V ic pc bad (session_open_stream V message p pid)"
    unfolding session_open_stream_def by (intro steady_try_swarm facade_open_ok)
  show "steady V ic pc bad (session_poll V message)"
    unfolding session_poll_def using facade_poll_ok by (intro steady_try_swarm) (simp add: facade_poll_def)
  show "steady V ic pc bad (send_data V p sid data)"
    unfolding send_data_def driver_send_user_stream_def
    by (intro steady_if steady_finish steady_try_swarm facade_request_ok) auto
  show "steady V ic pc bad (on_swarm message (listen_on_bound_addrs (session_transport V)))"
    using steady_listen_all by (simp add: facade_listen_all_def [abs_def])
qed

lemma raw_udp_calm: "calm (endpoint_calm (rv_quic V)) endpoint_fresh (returned (qe_send_raw_udp (rv_quic V) a payload))"
  unfolding qe_send_raw_udp_def
proof (rule endpoint_call_calm)
  show "io_calm (rv_quic V) (io_of (send_raw_udp (rv_quic V) a payload))"
    by (auto simp: io_calm_def io_of_def send_raw_udp_def transport_calm_def conns_calm_def fresh_in_def split: sum.splits prod.splits)
  show "keeps_tables quic_ok (io_of (send_raw_udp (rv_quic V) a payload))"
    using transport_calls_keep [OF loop send order] by blast
qed

lemma steady_looks [intro]:
  "steady V ic pc bad (look_at (driver_disconnect (rv_mh V) (rv_sha V) (session_transport V) (rv_clk V) p))"
  "steady V ic pc bad (look_at (driver_close_user_stream_write (rv_mh V) (rv_sha V) (session_transport V) (rv_clk V) p sid))"
  "steady V ic pc bad (look_at (\<lambda>d. Some (driver_dial (session_transport V) addr d)))"
  "steady V ic pc bad (look_at (session_send_udp V a payload))"
proof -
  let ?E = "rv_quic V" and ?M = "rv_mh V" and ?H = "rv_sha V"
  show "steady V ic pc bad (look_at (driver_disconnect ?M ?H (session_transport V) (rv_clk V) p))"
    "steady V ic pc bad (look_at (driver_close_user_stream_write ?M ?H (session_transport V) (rv_clk V) p sid))"
    unfolding driver_disconnect_def driver_close_user_stream_write_def
    by (intro steady_look_at facade_request_ok; simp)+
  show "steady V ic pc bad (look_at (\<lambda>d. Some (driver_dial (session_transport V) addr d)))"
    by (intro steady_look_at) (metis facade_ok_def prod.collapse quic.dial_safe)
  have "facade_ok ?M ?H ic pc ?E (d\<lparr>dv_transport := t\<rparr>)"
    if "facade_ok ?M ?H ic pc ?E d" and "returned (qe_send_raw_udp ?E a payload) (dv_transport d) = (t, res)" for d t res
    using safe_driver_call [OF that(1) [unfolded facade_ok_def] raw_udp_calm, of a payload] that(2) by (simp add: facade_ok_def)
  then show "steady V ic pc bad (look_at (session_send_udp V a payload))"
    by (intro steady_look_at) (fastforce simp: session_send_udp_def split: prod.splits)
qed

lemma steady_found:
  assumes "\<And>ev. wanted ev \<Longrightarrow> steady V ic pc bad (f (Some ev))" and "steady V ic pc bad (f None)"
  shows "steady V ic pc bad (and_next (wait_printing V lines message deadline wanted) f)"
  unfolding keeping_def
proof (intro allI impI)
  fix w w' r
  assume ok: "app_ok V ic pc w" and run: "and_next (wait_printing V lines message deadline wanted) f w = Some (w', r)"
  obtain w1 r1 where one: "wait_printing V lines message deadline wanted w = Some (w1, r1)"
    using run by (auto simp: and_next_def split: option.splits)
  note first = wait_printing_returns [OF ok one]
  show "app_ok V ic pc w' \<and> (r = Panicked \<longrightarrow> bad) \<and> (\<exists>lines. ss_out w' = ss_out w @ lines)"
  proof (cases r1)
    case (Done found)
    then have rest: "f found w1 = Some (w', r)" using run one by (simp add: and_next_def)
    have "steady V ic pc bad (f found)"
      using assms first Done by (cases found) auto
    from steadyD [OF this _ rest] show ?thesis using first by auto
  qed (use run one first in \<open>auto simp: and_next_def\<close>)
qed

lemma steady_found_or:
  assumes "\<And>ev. wanted ev \<Longrightarrow> steady V ic pc bad (f ev)"
  shows "steady V ic pc bad (and_next (wait_printing V lines message deadline wanted) (\<lambda>found. and_next (or_fail message' found) f))"
    and "steady V ic pc bad (and_next (wait_until V role message deadline wanted) (\<lambda>found. and_next (or_fail message' found) f))"
  using assms by (auto simp: wait_until_def intro!: steady_found)

lemma steady_waits [intro]:
  "steady V ic pc bad (wait_connected V role p deadline)" "steady V ic pc bad (wait_user_stream_ready V role sid deadline)"
  "steady V ic pc bad (wait_inbound_stream V role p pid deadline)" "steady V ic pc bad (wait_user_stream_data V role sid deadline)"
  "steady V ic pc bad (wait_relay_protocols_after_dial V role p deadline)"
proof -
  show "steady V ic pc bad (wait_connected V role p deadline)"
    unfolding wait_connected_def by (auto intro!: steady_and_next)
  show "steady V ic pc bad (wait_user_stream_ready V role sid deadline)"
    unfolding wait_user_stream_ready_def wait_until_def
    by (rule steady_found) (auto split: swarm_event.split)
  show "steady V ic pc bad (wait_inbound_stream V role p pid deadline)"
    unfolding wait_inbound_stream_def by (rule steady_found_or) (auto elim!: is_inbound_ready_event.elims)
  show "steady V ic pc bad (wait_user_stream_data V role sid deadline)"
    unfolding wait_user_stream_data_def by (rule steady_found_or) (auto elim!: is_data_event.elims)
  show "steady V ic pc bad (wait_relay_protocols_after_dial V role p deadline)"
    unfolding wait_relay_protocols_after_dial_def by (rule steady_found_or) (auto elim!: is_protocols_event.elims)
qed

lemma steady_listen_bound [intro]: "steady V ic pc bad (relay_listen_on_bound_addrs V role)"
  unfolding relay_listen_on_bound_addrs_def by (intro steady_and_next steady_if) auto

lemma steady_retry [intro]: "steady V ic pc bad (retry_relay_connection V role p)"
  unfolding retry_relay_connection_def by (intro steady_and_next steady_case_sum) auto

lemma steady_attempts: "steady V ic pc bad (prepare_relay_attempts V role addr p deadline attempts last_protocols)"
  by (induction attempts arbitrary: last_protocols) (auto simp: Let_def intro!: steady_and_next steady_if)

lemma steady_prepare [intro]: "steady V ic pc bad (prepare_relay V role addr p deadline)"
  unfolding prepare_relay_def by (rule steady_attempts)

lemma steady_feed_until:
  assumes "\<And>m data. steady V ic pc bad (feeding m data)"
  shows "steady V ic pc bad (feed_until V role sid deadline feeding m)"
  unfolding feed_until_def by (intro steady_repeat steady_and_next assms steady_case_prod) auto

lemma steady_verdict [intro]: "steady V ic pc bad (autonat_verdict V role candidates reach)"
  by (cases reach) (auto intro!: steady_and_next steady_if)

lemma steady_validate [intro]: "steady V ic pc bad (validate_candidates_with_autonat V role opts candidates deadline)"
  unfolding validate_candidates_with_autonat_def Let_def
  by (intro steady_case_option steady_and_next steady_case_prod steady_feed_until) auto

lemma steady_dial_direct [intro]: "steady V ic pc bad (dial_direct_candidates V role p addrs)"
  by (induction addrs) (auto intro!: steady_and_next steady_case_sum)

lemma steady_blast [intro]: "steady V ic pc bad (blast_remote_addrs V addrs role)"
proof -
  have "steady V ic pc bad (blast_addrs V role payload addrs)" for payload
    by (induction addrs) (auto intro!: steady_and_next steady_case_sum)
  then show ?thesis unfolding blast_remote_addrs_def by (intro steady_and_next) auto
qed

lemma steady_scan [intro]:
  "steady V ic pc bad (scan_events V role remote sid evs)" "steady V ic pc bad (scan_bridge_close V role sid evs)"
  by (induction evs) (auto intro!: steady_and_next steady_if)

lemma steady_hole_punch_turn: "steady V ic pc bad (hole_punch_turn V role remote remote_addrs sid deadline st)"
  unfolding hole_punch_turn_def Let_def by (intro steady_case_prod steady_and_next steady_if steady_case_option) auto

lemma steady_hole_punch [intro]: "steady V ic pc bad (hole_punch_listener V role remote remote_addrs sid)"
  unfolding hole_punch_listener_def by (intro steady_and_next steady_repeat steady_hole_punch_turn) auto

lemma steady_close_bridge [intro]: "steady V ic pc bad (close_relay_bridge_after_direct_success V role p sid)"
  unfolding close_relay_bridge_after_direct_success_def drain_bridge_close_def
  by (intro steady_and_next steady_case_sum steady_repeat steady_if) auto

lemma steady_ping_exit [intro]: "steady V ic pc bad (ping_and_exit V role p relay sid deadline)"
  unfolding ping_and_exit_def Let_def
  by (intro steady_and_next [OF steady_ping] steady_found_or)
    (auto elim!: is_rtt_event.elims intro!: steady_and_next)

lemma steady_fallback [intro]: "steady V ic pc bad (relay_ping_fallback V role p sid)"
proof -
  have "steady V ic pc bad (case found of
      Some (SwUserStreamData _ _ data) \<Rightarrow> and_next (send_data V p sid data) (\<lambda>_. say_out role (lit ''relay-ping-echoed -- done''))
    | Some _ \<Rightarrow> say_out role (lit ''bridge-closed during fallback -- done'')
    | None \<Rightarrow> fail (lit ''fallback deadline exceeded before any bridge activity''))" for found
    by (auto split: option.split swarm_event.split intro!: steady_and_next)
  then show ?thesis unfolding relay_ping_fallback_def by (intro steady_and_next) auto
qed

lemma steady_after_hole_punch [intro]: "steady V ic pc bad (after_hole_punch V role relay remote sid deadline punched)"
proof -
  have "steady V ic pc bad (case found of
      Some (SwConnectionEstablished p) \<Rightarrow>
        and_next (say_out role (lit ''direct-connected peer='' @ to_base58 (rv_mh V) p @ lit '' (mTLS verified)''))
          (\<lambda>_. ping_and_exit V role p relay sid deadline)
    | _ \<Rightarrow>
        and_next (say_out role (lit ''grace-elapsed before mTLS identity -> relay-ping fallback''))
          (\<lambda>_. relay_ping_fallback V role relay sid))" for found
    by (auto split: option.split swarm_event.split intro!: steady_and_next)
  then show ?thesis
    unfolding after_hole_punch_def by (cases punched) (auto intro!: steady_and_next)
qed

lemma steady_start [intro]: "steady V ic pc bad (relay_start V role addr opts extra)"
  unfolding relay_start_def Let_def by (intro steady_and_next) auto

lemma steady_reserve [intro]: "steady V ic pc True (reserve_slot V role p deadline)"
proof -
  have "steady V ic pc True (case answer of
      ReservationAccepted _ _ \<Rightarrow> say_out role (lit ''reserved-on-relay'')
    | ReservationRefused status reason \<Rightarrow> fail (message status reason))" for answer message
    by (cases answer) auto
  then show ?thesis
    unfolding reserve_slot_def by (intro steady_and_next steady_case_prod steady_feed_until) auto
qed

lemma steady_accept [intro]: "steady V ic pc True (accept_circuit V role p sid deadline)"
  unfolding accept_circuit_def by (intro steady_and_next steady_case_prod steady_feed_until) auto

lemma steady_responder_event [intro]: "steady V ic pc bad (handle_dcutr_responder_event role ev captured)"
  by (cases ev) (auto intro!: steady_and_next steady_if)

lemma steady_drain [intro]: "steady V ic pc bad (drain_responder role flow captured outbound)"
proof (induction role flow captured outbound rule: drain_responder.induct)
  case (1 role flow captured outbound)
  then show ?case
    by (subst drain_responder.simps) (auto split: prod.split option.split dcutr_responder_output.split intro!: steady_and_next)
qed

lemma steady_respond_round [intro]: "steady V ic pc bad (respond_round V role p sid flow captured)"
  unfolding respond_round_def drain_dcutr_responder_outputs_def by (auto intro!: steady_and_next steady_case_prod)

lemma steady_respond [intro]: "steady V ic pc True (respond_dcutr V role p sid deadline addrs bs)"
  unfolding respond_dcutr_def Let_def by (intro steady_and_next steady_if steady_repeat steady_case_prod) auto

lemma steady_connect [intro]: "steady V ic pc True (connect_through_relay V role p target deadline)"
proof -
  have "steady V ic pc True (case answer of
      ConnectBridged _ \<Rightarrow> say_out role (lit ''bridge-established via-relay'')
    | ConnectRefused status reason \<Rightarrow> fail (message status reason))" for answer message
    by (cases answer) auto
  then show ?thesis
    unfolding connect_through_relay_def by (intro steady_and_next steady_case_prod steady_feed_until) auto
qed

lemma steady_initiate [intro]: "steady V ic pc True (initiate_dcutr V role p sid deadline addrs bs)"
proof -
  have "steady V ic pc True (initiate_turn V role sid deadline sent st)" for sent st
    unfolding initiate_turn_def
    by (auto split: option.split initiator_outcome.split intro!: steady_case_prod steady_and_next steady_if)
  then show ?thesis
    unfolding initiate_dcutr_def by (intro steady_and_next steady_case_prod steady_if steady_repeat) auto
qed

lemma steady_via_relay [intro]: "steady V ic pc bad (ping_via_relay V role target p sid deadline)"
  unfolding ping_via_relay_def by (intro steady_and_next steady_repeat steady_if) auto

lemma steady_relay_sessions:
  "steady V ic pc True (relay_listen_session V addr opts)" "steady V ic pc True (relay_dial_session V addr target opts)"
  unfolding relay_listen_session_def relay_dial_session_def Let_def
  by (intro steady_and_next steady_case_prod steady_if; auto)+

end

section \<open>What was printed when a script ends well\<close>

definition concludes ::
  "('q, 's, 'mh::linorder) run_env \<Rightarrow> identify_config \<Rightarrow> ping_config \<Rightarrow> (('q, 's, 'mh) session, 'a) script \<Rightarrow>
     ('a \<Rightarrow> output_line list \<Rightarrow> bool) \<Rightarrow> bool" where
  "concludes V ic pc m Q \<longleftrightarrow>
     (\<forall>w w' x. app_ok V ic pc w \<longrightarrow> m w = Some (w', Done x) \<longrightarrow> (\<exists>lines. ss_out w' = ss_out w @ lines \<and> Q x lines))"

lemma concludesD:
  assumes "concludes V ic pc m Q" and "app_ok V ic pc w" and "m w = Some (w', Done x)"
  obtains lines where "ss_out w' = ss_out w @ lines" "Q x lines"
  using assms unfolding concludes_def by blast

lemma concludes_simple [simp]:
  "concludes V ic pc (fail message) Q" "concludes V ic pc panic Q" "concludes V ic pc (finish x) Q \<longleftrightarrow> Q x [] \<or> (\<forall>w. \<not> app_ok V ic pc w)"
  "concludes V ic pc (say line) R \<longleftrightarrow> R () [line] \<or> (\<forall>w. \<not> app_ok V ic pc w)"
  by (auto simp: concludes_def fail_def panic_def finish_def say_def)

lemma concludes_seq:
  assumes "steady V ic pc bad m" and "concludes V ic pc m P" and "\<And>x. concludes V ic pc (f x) (R x)"
    and "\<And>x y l1 l2. P x l1 \<Longrightarrow> R x y l2 \<Longrightarrow> Q y (l1 @ l2)"
  shows "concludes V ic pc (and_next m f) Q"
  unfolding concludes_def
proof (intro allI impI)
  fix w w' y
  assume ok: "app_ok V ic pc w" and run: "and_next m f w = Some (w', Done y)"
  then obtain w1 x where one: "m w = Some (w1, Done x)" "f x w1 = Some (w', Done y)" by (auto simp: and_next_Done)
  obtain l1 where l1: "ss_out w1 = ss_out w @ l1" "P x l1" by (rule concludesD [OF assms(2) ok one(1)])
  have "app_ok V ic pc w1" using steadyD [OF assms(1) ok one(1)] by blast
  then obtain l2 where l2: "ss_out w' = ss_out w1 @ l2" "R x y l2" by (rule concludesD [OF assms(3) _ one(2)])
  then show "\<exists>lines. ss_out w' = ss_out w @ lines \<and> Q y lines"
    using l1 assms(4) by (intro exI [of _ "l1 @ l2"]) simp
qed

lemma concludes_case_prod: "(\<And>a b. concludes V ic pc (f a b) Q) \<Longrightarrow> concludes V ic pc (case x of (a, b) \<Rightarrow> f a b) Q"
  by (cases x) simp

lemma concludes_if: "concludes V ic pc m Q \<Longrightarrow> concludes V ic pc m' Q \<Longrightarrow> concludes V ic pc (if c then m else m') Q"
  by simp

lemma concludes_steady: "steady V ic pc bad m \<Longrightarrow> concludes V ic pc m (\<lambda>_ _. True)"
  unfolding concludes_def keeping_def by blast

text \<open>Lines that end in a certain way, whatever was before.\<close>

definition ends_in :: "(output_line list \<Rightarrow> bool) \<Rightarrow> output_line list \<Rightarrow> bool" where
  "ends_in T lines \<longleftrightarrow> (\<exists>before tail. lines = before @ tail \<and> T tail)"

lemma ends_in_append: "ends_in T lines \<Longrightarrow> ends_in T (earlier @ lines)"
  unfolding ends_in_def by (metis append.assoc)

lemma ends_inI: "T lines \<Longrightarrow> ends_in T lines"
  unfolding ends_in_def by (metis append_Nil)

lemma concludes_next:
  assumes "steady V ic pc bad m" and "\<And>x. concludes V ic pc (f x) (\<lambda>y. ends_in (T y))"
  shows "concludes V ic pc (and_next m f) (\<lambda>y. ends_in (T y))"
  by (rule concludes_seq [OF assms(1) concludes_steady [OF assms(1)] assms(2)]) (rule ends_in_append)

lemma ends_in_True [simp]: "ends_in (\<lambda>_. True) lines"
  by (rule ends_inI) simp

lemma ends_in_last: "ends_in (\<lambda>tail. tail = [x]) lines \<longleftrightarrow> (\<exists>before. lines = before @ [x])"
  by (simp add: ends_in_def)

lemma ends_in_Cons: "ends_in T (x # lines) \<Longrightarrow> ends_in (\<lambda>tail. tail = [x]) l1 \<Longrightarrow> ends_in T (l1 @ lines)"
  using ends_in_append [of T "x # lines"] by (auto simp: ends_in_last)

lemma concludes_mono: "concludes V ic pc m Q \<Longrightarrow> (\<And>x lines. Q x lines \<Longrightarrow> R x lines) \<Longrightarrow> concludes V ic pc m R"
  unfolding concludes_def by blast

lemma ends_in_mono: "ends_in T lines \<Longrightarrow> (\<And>tail. T tail \<Longrightarrow> U tail) \<Longrightarrow> ends_in U lines"
  unfolding ends_in_def by blast

text \<open>The end of a loop is the end of its last turn.\<close>

lemma concludes_repeat:
  assumes body: "\<And>st. steady V ic pc bad (body st)"
    and turn: "\<And>st. concludes V ic pc (body st) (\<lambda>res. ends_in (case_sum (\<lambda>_ _. True) T res))"
  shows "concludes V ic pc (repeat_until body st) (\<lambda>x. ends_in (T x))"
  unfolding concludes_def
proof (intro allI impI)
  fix w w' y
  assume ok: "app_ok V ic pc w" and run: "repeat_until body st w = Some (w', Done y)"
  let ?P = "\<lambda>b st w x. b = body \<longrightarrow> app_ok V ic pc w \<longrightarrow>
    (\<forall>y. snd x = Done y \<longrightarrow> (\<exists>lines. ss_out (fst x) = ss_out w @ lines \<and> ends_in (T y) lines))"
  have "?P body st w (w', Done y)"
  proof (rule repeat_until.raw_induct [of ?P, OF _ run])
    fix rep b st w x
    assume ih: "\<And>b st w x. rep b st w = Some x \<Longrightarrow> ?P b st w x"
      and step: "Option.bind (b st w) (\<lambda>(w, res).
          case res of
            Done next_st \<Rightarrow> (case next_st of Inl st \<Rightarrow> rep b st w | Inr x \<Rightarrow> Some (w, Done x))
          | Failed message \<Rightarrow> Some (w, Failed message)
          | Panicked \<Rightarrow> Some (w, Panicked)) = Some x"
    show "?P b st w x"
    proof (intro impI allI)
      fix y
      assume b: "b = body" and ok: "app_ok V ic pc w" and y: "snd x = Done y"
      obtain w1 r1 where "body st w = Some (w1, r1)" using step b by (auto simp: bind_eq_Some_conv)
      then obtain res where one: "body st w = Some (w1, Done res)" using step b y by (cases r1) auto
      obtain l1 where l1: "ss_out w1 = ss_out w @ l1" "ends_in (case_sum (\<lambda>_ _. True) T res) l1"
        by (rule concludesD [OF turn ok one])
      show "\<exists>lines. ss_out (fst x) = ss_out w @ lines \<and> ends_in (T y) lines"
      proof (cases res)
        case (Inl st')
        then have "rep body st' w1 = Some x" using step one b by simp
        from ih [OF this] obtain l2 where "ss_out (fst x) = ss_out w1 @ l2" "ends_in (T y) l2"
          using steadyD [OF body ok one] y by blast
        then show ?thesis using l1(1) ends_in_append by auto
      next
        case (Inr z)
        then show ?thesis using step one b y l1 by auto
      qed
    qed
  qed
  then show "\<exists>lines. ss_out w' = ss_out w @ lines \<and> ends_in (T y) lines" using ok by simp
qed

section \<open>How the relay modes end\<close>

declare print_event.simps [simp del]

abbreviation shown :: "('q, 's, 'mh) run_env \<Rightarrow> rstr \<Rightarrow> 'mh swarm_event \<Rightarrow> output_line" where
  "shown V role \<equiv> print_event (rv_mh V) (rv_dbg V) role"

text \<open>A round-trip time was measured, and at the end it was reported.\<close>

definition ends_direct :: "('q, 's, 'mh) run_env \<Rightarrow> rstr \<Rightarrow> 'mh peer_id \<Rightarrow> output_line list \<Rightarrow> bool" where
  "ends_direct V role p tail \<longleftrightarrow>
     (\<exists>rtt_ms after. tail = [shown V role (SwPingRttMeasured p rtt_ms)] @ after @
        [Stdout (tagged role (lit ''ping-direct peer='' @ to_base58 (rv_mh V) p @ lit '' rtt='' @ show_nat (unat rtt_ms) @ lit ''ms -- done''))])"

text \<open>The swarm reported a connection with the peer before.\<close>

definition ends_connected :: "('q, 's, 'mh) run_env \<Rightarrow> rstr \<Rightarrow> 'mh peer_id \<Rightarrow> output_line list \<Rightarrow> bool" where
  "ends_connected V role p tail \<longleftrightarrow>
     (\<exists>mid. tail = shown V role (SwConnectionEstablished p) # mid \<and> ends_in (ends_direct V role p) mid)"

text \<open>Data of the length of the payload came back over the bridge.\<close>

definition ends_relayed :: "('q, 's, 'mh) run_env \<Rightarrow> rstr \<Rightarrow> 'mh peer_id \<Rightarrow> output_line list \<Rightarrow> bool" where
  "ends_relayed V role target tail \<longleftrightarrow>
     (\<exists>p sid data rtt after. length data = RELAY_PING_LEN \<and>
        tail = shown V role (SwUserStreamData p sid data) # after @
          [Stdout (tagged role (lit ''ping-via-relay peer='' @ to_base58 (rv_mh V) target @ lit '' rtt='' @ show_nat rtt @ lit ''ms -- done''))])"

text \<open>The bridge was used or closed at the end.\<close>

definition ends_bridge :: "('q, 's, 'mh) run_env \<Rightarrow> rstr \<Rightarrow> stream_id \<Rightarrow> output_line list \<Rightarrow> bool" where
  "ends_bridge V role sid tail \<longleftrightarrow>
     (\<exists>ev after final. tail = shown V role ev # after @ [Stdout (tagged role final)] \<and>
        (is_data_event sid ev \<and> final = lit ''relay-ping-echoed -- done'' \<or>
         is_bridge_closed_event sid ev \<and>
         (final = lit ''bridge-closed during fallback -- done'' \<or>
          final = lit ''bridge-closed (remote likely completed via direct path; relay no longer needed) -- done'')))"

text \<open>The listener names the peer that asked for the circuit, and is then connected with it or has used the bridge.\<close>

definition ends_listening :: "('q, 's, 'mh) run_env \<Rightarrow> rstr \<Rightarrow> output_line list \<Rightarrow> bool" where
  "ends_listening V role tail \<longleftrightarrow>
     (\<exists>remote sid mid. tail = Stdout (tagged role (lit ''stop-connect-from peer='' @ to_base58 (rv_mh V) remote)) # mid \<and>
        ends_in (\<lambda>t. ends_connected V role remote t \<or> ends_bridge V role sid t) mid)"

text \<open>What the hole punching of the listener saw last.\<close>

fun punched_by :: "('q, 's, 'mh) run_env \<Rightarrow> rstr \<Rightarrow> 'mh peer_id \<Rightarrow> stream_id \<Rightarrow> 'mh hole_punch_outcome \<Rightarrow> output_line list \<Rightarrow> bool" where
  "punched_by V role remote sid (DirectConnected p) tail \<longleftrightarrow> p = remote \<and> tail = [shown V role (SwConnectionEstablished remote)]"
| "punched_by V role remote sid BridgeClosed tail \<longleftrightarrow> (\<exists>ev. is_bridge_closed_event sid ev \<and> tail = [shown V role ev])"
| "punched_by V role remote sid _ tail \<longleftrightarrow> True"

context session_laws
begin

lemma concludes_wait:
  "concludes V ic pc (wait_until V role message deadline wanted)
     (\<lambda>found lines. \<forall>ev. found = Some ev \<longrightarrow> wanted ev \<and> (\<exists>before. lines = before @ [shown V role ev]))"
  unfolding concludes_def
proof (intro allI impI)
  fix w w' found
  assume ok: "app_ok V ic pc w" and run: "wait_until V role message deadline wanted w = Some (w', Done found)"
  show "\<exists>lines. ss_out w' = ss_out w @ lines \<and> (\<forall>ev. found = Some ev \<longrightarrow> wanted ev \<and> (\<exists>before. lines = before @ [shown V role ev]))"
  proof (cases found)
    case None
    then show ?thesis using wait_until_returns [OF ok run] by auto
  next
    case (Some ev)
    then show ?thesis using wait_found [OF ok run [unfolded Some]] by auto
  qed
qed

lemma concludes_found:
  assumes "\<And>ev. wanted ev \<Longrightarrow> concludes V ic pc (f (Some ev)) (\<lambda>y lines. ends_in (T y) (shown V role ev # lines))"
    and "concludes V ic pc (f None) (\<lambda>y. ends_in (T y))"
  shows "concludes V ic pc (and_next (wait_until V role message deadline wanted) f) (\<lambda>y. ends_in (T y))"
  unfolding concludes_def
proof (intro allI impI)
  fix w w' y
  assume ok: "app_ok V ic pc w" and run: "and_next (wait_until V role message deadline wanted) f w = Some (w', Done y)"
  then obtain w1 found where one: "wait_until V role message deadline wanted w = Some (w1, Done found)" "f found w1 = Some (w', Done y)"
    by (auto simp: and_next_Done)
  obtain l1 where l1: "ss_out w1 = ss_out w @ l1"
    "\<forall>ev. found = Some ev \<longrightarrow> wanted ev \<and> (\<exists>before. l1 = before @ [shown V role ev])"
    by (rule concludesD [OF concludes_wait ok one(1)])
  have ok1: "app_ok V ic pc w1" using steadyD [OF steady_wait ok one(1)] by blast
  show "\<exists>lines. ss_out w' = ss_out w @ lines \<and> ends_in (T y) lines"
  proof (cases found)
    case None
    then obtain l2 where "ss_out w' = ss_out w1 @ l2" "ends_in (T y) l2"
      using concludesD [OF assms(2) ok1, of w' y] one(2) by auto
    then show ?thesis using l1 ends_in_append by auto
  next
    case (Some ev)
    then obtain before where before: "l1 = before @ [shown V role ev]" "wanted ev" using l1(2) by blast
    obtain l2 where "ss_out w' = ss_out w1 @ l2" "ends_in (T y) (shown V role ev # l2)"
      by (rule concludesD [OF assms(1) [OF before(2)] ok1 one(2) [unfolded Some]])
    with before(1) show ?thesis using l1(1) ends_in_append by auto
  qed
qed

lemma concludes_data:
  assumes "\<And>p data. concludes V ic pc (f data) (\<lambda>y lines. ends_in (T y) (shown V role (SwUserStreamData p sid data) # lines))"
  shows "concludes V ic pc (and_next (wait_user_stream_data V role sid deadline) f) (\<lambda>y. ends_in (T y))"
proof -
  have chain: "and_next (wait_user_stream_data V role sid deadline) f =
    and_next (wait_until V role (lit ''wait-user-stream-data: '') deadline (is_data_event sid)) (\<lambda>found.
      case found of
        None \<Rightarrow> fail (lit ''deadline exceeded before data on stream '' @ show_stream_id sid)
      | Some ev \<Rightarrow> (case ev of SwUserStreamData _ _ data \<Rightarrow> f data | _ \<Rightarrow> panic))"
    unfolding wait_user_stream_data_def
    by (rule ext) (auto simp: and_next_def or_fail_def finish_def fail_def panic_def split: option.split outcome.split swarm_event.split)
  show ?thesis
    unfolding chain by (rule concludes_found) (auto elim!: is_data_event.elims intro: assms)
qed

lemma concludes_say_out: "concludes V ic pc (say_out role line) (\<lambda>_ lines. lines = [Stdout (tagged role line)])"
  by (simp add: say_out_def concludes_def say_def finish_def)

lemma ping_and_exit_concludes:
  "concludes V ic pc (ping_and_exit V role p relay sid deadline) (\<lambda>_. ends_in (ends_direct V role p))"
proof -
  let ?line = "\<lambda>rtt_ms. lit ''ping-direct peer='' @ to_base58 (rv_mh V) p @ lit '' rtt='' @ show_nat (unat rtt_ms) @ lit ''ms''"
  let ?rest = "\<lambda>rtt_ms. and_next (say_out role (?line rtt_ms)) (\<lambda>_.
    and_next (close_relay_bridge_after_direct_success V role relay sid) (\<lambda>_. say_out role (?line rtt_ms @ lit '' -- done'')))"
  have lit: "lit ''ms'' @ lit '' -- done'' = lit ''ms -- done''" by (simp add: lit_def)
  have "concludes V ic pc (?rest rtt_ms) (\<lambda>_. ends_in (\<lambda>tail. tail = [Stdout (tagged role (?line rtt_ms @ lit '' -- done''))]))" for rtt_ms
    by (intro concludes_next [OF steady_say(2)] concludes_next [OF steady_close_bridge])
      (rule concludes_mono [OF concludes_say_out], simp add: ends_inI)
  then have "concludes V ic pc (?rest rtt_ms) (\<lambda>_ lines. ends_in (ends_direct V role p) (shown V role (SwPingRttMeasured p rtt_ms) # lines))" for rtt_ms
    by (rule concludes_mono, intro ends_inI) (auto simp: ends_in_def ends_direct_def lit)
  then show ?thesis
    unfolding ping_and_exit_def Let_def
    by (intro concludes_next [OF steady_ping] concludes_found) (auto elim!: is_rtt_event.elims)
qed

lemma concludes_last:
  "concludes V ic pc (say_out role line) (\<lambda>_. ends_in (\<lambda>tail. tail = [Stdout (tagged role line)]))"
  by (rule concludes_mono [OF concludes_say_out]) (rule ends_inI)

lemma concludes_exit:
  assumes "concludes V ic pc m (\<lambda>_. ends_in (\<lambda>tail. tail = [x]))" and "\<And>after y. T y (first # after @ [x])"
  shows "concludes V ic pc m (\<lambda>y lines. ends_in (T y) (first # lines))"
  using assms by (auto intro!: concludes_mono [OF assms(1)] ends_inI simp: ends_in_last)

lemma ping_via_relay_concludes:
  "concludes V ic pc (ping_via_relay V role target p sid deadline) (\<lambda>_. ends_in (ends_relayed V role target))"
proof -
  let ?line = "\<lambda>rtt. lit ''ping-via-relay peer='' @ to_base58 (rv_mh V) target @ lit '' rtt='' @ show_nat rtt @ lit ''ms -- done''"
  let ?reply = "\<lambda>payload sent_at data.
    if data = payload
    then and_next (instant_now V) (\<lambda>now. and_next (say_out role (?line (now - sent_at))) (\<lambda>_. finish (Inr ())))
    else finish (Inl ())"
  let ?finish = "case_sum (\<lambda>_ _. True) (\<lambda>_. ends_relayed V role target) :: unit + unit \<Rightarrow> output_line list \<Rightarrow> bool"
  have reply: "concludes V ic pc (?reply payload sent_at data) (\<lambda>res lines. ends_in (?finish res) (shown V role (SwUserStreamData q sid data) # lines))"
    if "length payload = RELAY_PING_LEN" for payload sent_at data q
    using that by (auto simp: concludes_def instant_now_def and_next_def finish_def say_out_def say_def ends_relayed_def intro!: ends_inI; blast)
  have size: "concludes V ic pc (random_bytes V RELAY_PING_LEN) (\<lambda>payload lines. length payload = RELAY_PING_LEN)"
    using entropy by (auto simp: concludes_def random_bytes_def finish_def RELAY_PING_LEN_def PING_PAYLOAD_LEN_def split: option.split)
  have chain: "concludes V ic pc (and_next (instant_now V) (\<lambda>sent_at. and_next (send_data V p sid payload) (\<lambda>_.
      repeat_until (\<lambda>_. and_next (wait_user_stream_data V role sid deadline) (?reply payload sent_at)) ())))
      (\<lambda>_. ends_in (\<lambda>tail. length payload = RELAY_PING_LEN \<longrightarrow> ends_relayed V role target tail))" for payload
  proof (cases "length payload = RELAY_PING_LEN")
    case True
    then show ?thesis
      by simp (intro concludes_next [OF steady_instant] concludes_next [OF steady_swarm_calls(4)] concludes_repeat steady_and_next
          steady_waits steady_if concludes_data reply, auto intro!: steady_and_next)
  next
    case False
    then show ?thesis
      by simp (rule concludes_mono [OF concludes_steady [where bad = True]], intro steady_and_next steady_repeat steady_if, auto)
  qed
  show ?thesis
    unfolding ping_via_relay_def by (rule concludes_seq [OF steady_reads(2) size chain]) (auto intro: ends_in_append)
qed

lemma concludes_connected:
  assumes "concludes V ic pc m (\<lambda>_. ends_in (ends_direct V role p))"
  shows "concludes V ic pc m (\<lambda>y lines. ends_in (ends_connected V role p) (shown V role (SwConnectionEstablished p) # lines))"
  by (rule concludes_mono [OF assms]) (auto simp: ends_connected_def intro!: ends_inI)

lemma relay_dial_concludes:
  "concludes V ic pc (relay_dial_session V addr target opts)
     (\<lambda>_. ends_in (\<lambda>tail. ends_connected V (lit ''relay-dial'') target tail \<or> ends_relayed V (lit ''relay-dial'') target tail))"
proof -
  let ?role = "lit ''relay-dial''"
  let ?T = "\<lambda>tail. ends_connected V ?role target tail \<or> ends_relayed V ?role target tail"
  let ?direct = "\<lambda>sid deadline. and_next (say_out ?role (lit ''direct-connected peer='' @ to_base58 (rv_mh V) target @ lit '' (hole-punch success)''))
    (\<lambda>_. ping_and_exit V ?role target (pa_peer_id addr) sid deadline)"
  let ?relayed = "\<lambda>sid deadline. and_next (say_out ?role (lit ''hole-punch-timeout reason=deadline elapsed -> relay-ping fallback''))
    (\<lambda>_. ping_via_relay V ?role target (pa_peer_id addr) sid deadline)"
  have direct: "concludes V ic pc (?direct sid deadline)
      (\<lambda>y lines. ends_in ?T (shown V ?role (SwConnectionEstablished target) # lines))" for sid deadline
    by (rule concludes_mono [OF concludes_connected [OF concludes_next [OF steady_say(2) ping_and_exit_concludes]]])
      (auto elim: ends_in_mono)
  have relayed: "concludes V ic pc (?relayed sid deadline) (\<lambda>_. ends_in ?T)" for sid deadline
    by (rule concludes_mono [OF concludes_next [OF steady_say(2) ping_via_relay_concludes]]) (auto elim: ends_in_mono)
  have last: "concludes V ic pc (and_next (wait_until V ?role (lit ''holepunch poll: '') until (is_connected_event target)) (\<lambda>punched.
      if punched \<noteq> None then ?direct sid deadline else ?relayed sid deadline)) (\<lambda>_. ends_in ?T)" for until sid deadline
    using direct relayed by (intro concludes_found) (auto elim!: is_connected_event.elims)
  show ?thesis
    unfolding relay_dial_session_def Let_def
    by (intro concludes_next [OF steady_start] concludes_next [OF steady_connect] concludes_next [OF steady_initiate]
        concludes_next [OF steady_dial_direct] concludes_next [OF steady_instant] concludes_case_prod last)
qed

lemma fallback_concludes: "concludes V ic pc (relay_ping_fallback V role p sid) (\<lambda>_. ends_in (ends_bridge V role sid))"
proof -
  let ?next = "\<lambda>found. case found of
      Some (SwUserStreamData _ _ data) \<Rightarrow> and_next (send_data V p sid data) (\<lambda>_. say_out role (lit ''relay-ping-echoed -- done''))
    | Some _ \<Rightarrow> say_out role (lit ''bridge-closed during fallback -- done'')
    | None \<Rightarrow> fail (lit ''fallback deadline exceeded before any bridge activity'')"
  have "concludes V ic pc (?next (Some ev)) (\<lambda>_ lines. ends_in (ends_bridge V role sid) (shown V role ev # lines))"
    if "is_data_event sid ev \<or> is_bridge_closed_event sid ev" for ev
  proof -
    have closed: "concludes V ic pc (say_out role (lit ''bridge-closed during fallback -- done''))
        (\<lambda>_ lines. ends_in (ends_bridge V role sid) (shown V role ev # lines))" if "is_bridge_closed_event sid ev"
      using that by (intro concludes_exit [OF concludes_last]) (auto simp: ends_bridge_def)
    have echoed: "concludes V ic pc (and_next (send_data V p sid data) (\<lambda>_. say_out role (lit ''relay-ping-echoed -- done'')))
        (\<lambda>_ lines. ends_in (ends_bridge V role sid) (shown V role ev # lines))" if "is_data_event sid ev" for data
      using that by (intro concludes_exit [OF concludes_next [OF steady_swarm_calls(4) concludes_last]]) (auto simp: ends_bridge_def)
    show ?thesis using that closed echoed by (cases ev) auto
  qed
  then show ?thesis
    unfolding relay_ping_fallback_def by (intro concludes_next [OF steady_instant] concludes_found) auto
qed

lemma scan_events_conclude:
  "concludes V ic pc (scan_events V role remote sid evs)
     (\<lambda>seen. ends_in (case seen of None \<Rightarrow> \<lambda>_. True | Some x \<Rightarrow> punched_by V role remote sid x))"
proof (induction evs)
  case (Cons ev evs)
  have rest: "concludes V ic pc (scan_events V role remote sid evs) (\<lambda>seen lines.
      ends_in (case seen of None \<Rightarrow> \<lambda>_. True | Some x \<Rightarrow> punched_by V role remote sid x) (shown V role ev # lines))"
    by (rule concludes_mono [OF Cons.IH]) (use ends_in_append [of _ _ "[shown V role ev]"] in simp)
  have conn: "ev = SwConnectionEstablished remote" if "is_connected_event remote ev" using that by (cases ev) auto
  show ?case
    unfolding scan_events.simps
  proof (rule concludes_seq [where P = "\<lambda>_ l. l = [shown V role ev]" and R = "\<lambda>_ seen lines.
      ends_in (case seen of None \<Rightarrow> \<lambda>_. True | Some x \<Rightarrow> punched_by V role remote sid x) (shown V role ev # lines)", OF steady_say(1)])
    show "concludes V ic pc (say (shown V role ev)) (\<lambda>_ l. l = [shown V role ev])" by simp
    show "concludes V ic pc (if is_connected_event remote ev then finish (Some (DirectConnected remote))
        else if is_bridge_closed_event sid ev then finish (Some BridgeClosed) else scan_events V role remote sid evs)
        (\<lambda>seen lines. ends_in (case seen of None \<Rightarrow> \<lambda>_. True | Some x \<Rightarrow> punched_by V role remote sid x) (shown V role ev # lines))"
      using rest conn by (auto intro!: ends_inI)
  qed auto
qed (simp add: concludes_def finish_def)

lemma hole_punch_concludes:
  "concludes V ic pc (hole_punch_listener V role remote remote_addrs sid) (\<lambda>x. ends_in (punched_by V role remote sid x))"
proof -
  let ?finish = "case_sum (\<lambda>_ _. True) (punched_by V role remote sid) :: (nat \<times> bool) + 'mh hole_punch_outcome \<Rightarrow> output_line list \<Rightarrow> bool"
  have seen: "concludes V ic pc (and_next (scan_events V role remote sid evs) (\<lambda>seen.
      case seen of Some x \<Rightarrow> finish (Inr x) | None \<Rightarrow> and_next (inbound_sources V) (\<lambda>sources.
        finish (if f sources then Inr InboundConnectionSeen else Inl (g sources))))) (\<lambda>res. ends_in (?finish res))" for evs f g
  proof (rule concludes_seq [OF steady_scan(1) scan_events_conclude])
    show "concludes V ic pc (case seen of Some x \<Rightarrow> finish (Inr x) | None \<Rightarrow> and_next (inbound_sources V) (\<lambda>sources.
        finish (if f sources then Inr InboundConnectionSeen else Inl (g sources))))
        (\<lambda>res l2. l2 = [] \<and> (case seen of Some x \<Rightarrow> res = Inr x | None \<Rightarrow> res = Inr InboundConnectionSeen \<or> (\<exists>st. res = Inl st)))" for seen
      by (cases seen) (auto simp: concludes_def finish_def inbound_sources_def and_next_def)
  qed (auto split: option.splits intro!: ends_inI)
  have "concludes V ic pc (hole_punch_turn V role remote remote_addrs sid deadline st) (\<lambda>res. ends_in (?finish res))" for deadline st
  proof -
    have blast: "steady V ic pc True (if b \<le> now then and_next (blast_remote_addrs V remote_addrs role) (\<lambda>_. finish (now + HOLEPUNCH_INTERVAL))
        else finish b)" for b now
      by (auto intro!: steady_and_next)
    show ?thesis
      unfolding hole_punch_turn_def Let_def
      by (intro concludes_case_prod concludes_if concludes_next [OF steady_instant] concludes_next [OF blast]
          concludes_next [OF steady_swarm_calls(3)] seen) (simp add: ends_inI)
  qed
  then show ?thesis
    unfolding hole_punch_listener_def
    by (intro concludes_next [OF steady_say(2)] concludes_next [OF steady_candidates(4)] concludes_next [OF steady_dial_direct]
        concludes_next [OF steady_instant] concludes_next [OF steady_reads(3)] concludes_repeat [OF steady_hole_punch_turn])
qed

lemma after_hole_punch_concludes:
  "concludes V ic pc (after_hole_punch V role relay remote sid deadline punched) (\<lambda>_ lines.
     \<forall>l1. ends_in (punched_by V role remote sid punched) l1 \<longrightarrow>
       ends_in (\<lambda>tail. ends_connected V role remote tail \<or> ends_bridge V role sid tail) (l1 @ lines))"
proof -
  let ?T = "\<lambda>tail. ends_connected V role remote tail \<or> ends_bridge V role sid tail"
  have direct: "concludes V ic pc (and_next (say_out role line) (\<lambda>_. ping_and_exit V role remote relay sid deadline))
      (\<lambda>_ lines. ends_in ?T (shown V role (SwConnectionEstablished remote) # lines))" for line
    by (rule concludes_mono [OF concludes_connected [OF concludes_next [OF steady_say(2) ping_and_exit_concludes]]])
      (auto elim: ends_in_mono)
  have fallback: "concludes V ic pc (and_next (say_out role line) (\<lambda>_. relay_ping_fallback V role relay sid)) (\<lambda>_. ends_in ?T)" for line
    by (rule concludes_mono [OF concludes_next [OF steady_say(2) fallback_concludes]]) (auto elim: ends_in_mono)
  show ?thesis
  proof (cases punched)
    case (DirectConnected p)
    show ?thesis
    proof (cases "p = remote")
      case True
      then have last: "ends_in (punched_by V role remote sid punched) l1 \<longleftrightarrow> ends_in (\<lambda>tail. tail = [shown V role (SwConnectionEstablished remote)]) l1" for l1
        using DirectConnected by (simp add: ends_in_def)
      show ?thesis
        unfolding last unfolding after_hole_punch_def DirectConnected True hole_punch_outcome.case
        by (rule concludes_mono [OF direct]) (blast intro: ends_in_Cons)
    next
      case False
      then show ?thesis
        using concludes_mono [OF concludes_steady [OF steady_after_hole_punch [where bad = True]]]
        by (auto simp: DirectConnected ends_in_def)
    qed
  next
    case InboundConnectionSeen
    have "concludes V ic pc (and_next (wait_until V role message until (is_connected_event remote)) (\<lambda>verified.
        case verified of
          Some (SwConnectionEstablished p) \<Rightarrow> and_next (say_out role (line p)) (\<lambda>_. ping_and_exit V role p relay sid deadline)
        | _ \<Rightarrow> and_next (say_out role line') (\<lambda>_. relay_ping_fallback V role relay sid))) (\<lambda>_. ends_in ?T)" for message until line line'
      using direct fallback by (intro concludes_found) (auto elim!: is_connected_event.elims)
    then show ?thesis
      using InboundConnectionSeen unfolding after_hole_punch_def
      by (auto intro!: concludes_mono [OF concludes_next [OF steady_say(2) concludes_next [OF steady_instant]]] ends_in_append)
  next
    case BridgeClosed
    have closed: "ends_bridge V role sid [shown V role ev, Stdout (tagged role (lit ''bridge-closed (remote likely completed via direct path; relay no longer needed) -- done''))]"
      if "is_bridge_closed_event sid ev" for ev
      using that by (auto simp: ends_bridge_def)
    show ?thesis
      unfolding after_hole_punch_def BridgeClosed hole_punch_outcome.case
      by (rule concludes_mono [OF concludes_say_out]) (auto simp: ends_in_def [of "\<lambda>tail. punched_by V role remote sid BridgeClosed tail"]
          intro!: ends_in_append [OF ends_inI, of _ "[a, b]" for a b] closed)
  next
    case HolePunchTimeout
    then show ?thesis
      unfolding after_hole_punch_def by (auto intro!: concludes_mono [OF fallback] ends_in_append)
  qed
qed

lemma accept_concludes:
  "concludes V ic pc (accept_circuit V role relay sid deadline) (\<lambda>(remote, _) lines.
     \<exists>before after. lines = before @ Stdout (tagged role (lit ''stop-connect-from peer='' @ to_base58 (rv_mh V) remote)) # after)"
proof -
  let ?said = "\<lambda>remote. Stdout (tagged role (lit ''stop-connect-from peer='' @ to_base58 (rv_mh V) remote))"
  let ?tail = "\<lambda>flow remote. and_next (say_out role (lit ''stop-connect-from peer='' @ to_base58 (rv_mh V) remote)) (\<lambda>_.
    and_next (stop_accept_flush flow) (\<lambda>(flow, bs). and_next (send_data V relay sid bs) (\<lambda>_. finish (remote, snd (stop_bridge_bytes flow)))))"
  have rest: "concludes V ic pc (and_next (stop_accept_flush flow) (\<lambda>(flow, bs). and_next (send_data V relay sid bs) (\<lambda>_.
      finish (remote, snd (stop_bridge_bytes flow))))) (\<lambda>x lines. fst x = remote)" for flow remote
    by (rule concludes_seq [OF steady_machines(6) concludes_steady [OF steady_machines(6)], where R = "\<lambda>_ x _. fst x = remote"])
      (auto intro!: concludes_case_prod concludes_seq [OF steady_swarm_calls(4) concludes_steady [OF steady_swarm_calls(4)], where R = "\<lambda>_ x _. fst x = remote"])
  have tail: "concludes V ic pc (?tail flow remote) (\<lambda>x. ends_in (\<lambda>t. \<exists>after. t = ?said (fst x) # after))" for flow remote
    by (rule concludes_seq [OF steady_say(2) concludes_say_out rest]) (auto intro!: ends_inI)
  have "concludes V ic pc (accept_circuit V role relay sid deadline) (\<lambda>x. ends_in (\<lambda>t. \<exists>after. t = ?said (fst x) # after))"
    unfolding accept_circuit_def
    by (intro concludes_next [OF steady_feed_until [OF steady_machines(5)]] concludes_next [OF steady_lift] concludes_case_prod tail)
  then show ?thesis
    by (rule concludes_mono) (fastforce simp: ends_in_def)
qed

lemma relay_listen_concludes:
  "concludes V ic pc (relay_listen_session V addr opts) (\<lambda>_. ends_in (ends_listening V (lit ''relay-listen'')))"
proof -
  let ?role = "lit ''relay-listen''"
  let ?T = "\<lambda>remote sid t. ends_connected V ?role remote t \<or> ends_bridge V ?role sid t"
  have punch: "concludes V ic pc (and_next (hole_punch_listener V ?role remote addrs sid) (after_hole_punch V ?role relay remote sid deadline))
      (\<lambda>_. ends_in (?T remote sid))" for remote addrs sid relay deadline
    by (rule concludes_seq [OF steady_hole_punch hole_punch_concludes after_hole_punch_concludes]) blast
  have circuit: "concludes V ic pc (and_next (accept_circuit V ?role relay sid deadline) (\<lambda>(remote, bs).
      and_next (respond_dcutr V ?role relay sid deadline addrs bs) (\<lambda>remote_addrs.
      and_next (hole_punch_listener V ?role remote remote_addrs sid) (after_hole_punch V ?role relay remote sid deadline))))
      (\<lambda>_. ends_in (ends_listening V ?role))" for relay sid deadline addrs
  proof (rule concludes_seq [OF steady_accept accept_concludes])
    show "concludes V ic pc (case x of (remote, bs) \<Rightarrow> and_next (respond_dcutr V ?role relay sid deadline addrs bs) (\<lambda>remote_addrs.
        and_next (hole_punch_listener V ?role remote remote_addrs sid) (after_hole_punch V ?role relay remote sid deadline)))
        (\<lambda>_. ends_in (?T (fst x) sid))" for x
      by (cases x) (auto intro!: concludes_next [OF steady_respond] punch)
    fix x y l1 l2
    assume l1: "(case x of (remote, _) \<Rightarrow> \<lambda>lines.
        \<exists>before after. lines = before @ Stdout (tagged ?role (lit ''stop-connect-from peer='' @ to_base58 (rv_mh V) remote)) # after) l1"
      and l2: "ends_in (?T (fst x) sid) l2"
    then obtain before after where
      "l1 = before @ Stdout (tagged ?role (lit ''stop-connect-from peer='' @ to_base58 (rv_mh V) (fst x))) # after" by (cases x) auto
    moreover have "ends_listening V ?role (Stdout (tagged ?role (lit ''stop-connect-from peer='' @ to_base58 (rv_mh V) (fst x))) # after @ l2)"
      using ends_in_append [OF l2, of after] unfolding ends_listening_def by blast
    ultimately show "ends_in (ends_listening V ?role) (l1 @ l2)"
      using ends_in_append [OF ends_inI] by simp
  qed
  show ?thesis
    unfolding relay_listen_session_def Let_def
    by (intro concludes_next [OF steady_start] concludes_next [OF steady_reserve] concludes_next [OF steady_waits(3)]
        concludes_next [OF steady_say(2)] concludes_case_prod circuit)
qed

end


section \<open>A run\<close>

text \<open>A script that returns an error from every session that keeps the invariant.\<close>

definition gives_up :: "('q, 's, 'mh::linorder) run_env \<Rightarrow> identify_config \<Rightarrow> ping_config \<Rightarrow> (('q, 's, 'mh) session, 'a) script \<Rightarrow> bool" where
  "gives_up V ic pc m \<longleftrightarrow> (\<forall>w. app_ok V ic pc w \<longrightarrow> (\<exists>w' message. m w = Some (w', Failed message)))"

lemma gives_up_first: "gives_up V ic pc m \<Longrightarrow> gives_up V ic pc (and_next m f)"
  unfolding gives_up_def and_next_def by fastforce

lemma gives_up_next:
  assumes "steady V ic pc False m" and "\<And>w. m w \<noteq> None" and "\<And>x. gives_up V ic pc (f x)"
  shows "gives_up V ic pc (and_next m f)"
  unfolding gives_up_def
proof (intro allI impI)
  fix w
  assume ok: "app_ok V ic pc w"
  obtain w1 r where run: "m w = Some (w1, r)" using assms(2) by fastforce
  show "\<exists>w' message. and_next m f w = Some (w', Failed message)"
    using steadyD [OF assms(1) ok run] assms(3) run by (cases r) (auto simp: and_next_def gives_up_def)
qed

lemma say_all_returns: "say_all role lines w \<noteq> None"
  by (induction lines arbitrary: w) (simp_all add: finish_def and_next_def say_out_def say_def)

lemma relay_listen_returns: "relay_listen_on_bound_addrs V role w \<noteq> None"
  by (auto simp: relay_listen_on_bound_addrs_def and_next_def on_swarm_def lift_result_def fail_def finish_def say_all_returns
      split: prod.splits sum.splits outcome.splits option.splits)

lemma dial_nowhere: "gives_up demo_run_env ic pc (session_dial demo_run_env message \<lparr>pa_transport = Multiaddr [], pa_peer_id = p\<rparr>)"
  unfolding gives_up_def
proof (intro allI impI)
  fix w
  assume "app_ok demo_run_env ic pc w"
  then obtain t where t: "dv_transport (ss_swarm w) = Single t"
    by (cases "dv_transport (ss_swarm w)") (auto simp: app_ok_def facade_ok_def safe_driver_def joined_def)
  have "\<exists>t' e. qt_dial (rv_quic demo_run_env) \<lparr>pa_transport = Multiaddr [], pa_peer_id = p\<rparr> t = Some (t', Err e)"
    by (cases "allocate_connection_id t"; cases "snd (allocate_connection_id t)")
      (auto simp: io_bind_def qt_dial_def resolve_dial_socket_addr_def resolve_dial_socket_addrs_def extract_quic_host_and_port_def
        is_quic_transport_def is_quic_transport_slice_def)
  then show "\<exists>w' e. session_dial demo_run_env message \<lparr>pa_transport = Multiaddr [], pa_peer_id = p\<rparr> w = Some (w', Failed e)"
    using t by (auto simp: session_dial_def on_swarm_def driver_dial_def quic_endpoint_transport_def returned_def
        qe_dial_def lift_result_def fail_def)
qed


end
