(* ===== verification/PeerServiceProps.thy ===== *)
theory PeerServiceProps
  imports PeerRelayProps
begin

text \<open>
  What the AutoNAT service of the example program guarantees: it does not panic, and it calls an address public
  only when an endpoint of its own reached the requester there.
\<close>

section \<open>Scripts of the service\<close>

abbreviation serving ::
  "('q, 's, 'mh::linorder) run_env \<Rightarrow> identify_config \<Rightarrow> ping_config \<Rightarrow> (('q, 's, 'mh, 'd, 'r) service, 'a) script \<Rightarrow> bool" where
  "serving V ic pc \<equiv> keeping (\<lambda>s. app_ok V ic pc (fst s)) (\<lambda>s. ss_out (fst s)) False"

lemma serving_in_app: "steady V ic pc False m \<Longrightarrow> serving V ic pc (in_app m)"
  unfolding keeping_def in_app_def by (fastforce split: prod.splits)

lemma keeping_caught: "keeping I out bad m \<Longrightarrow> keeping I out bad (caught m)"
  unfolding keeping_def caught_def finish_def panic_def by (fastforce split: option.splits prod.splits outcome.splits)

lemma keeping_merge:
  "(\<And>m. m \<in> set ms \<Longrightarrow> keeping I out bad m) \<Longrightarrow> keeping I out bad (merge_dialback_results ms last_error saw_completion)"
proof (induction ms arbitrary: last_error saw_completion)
  case Nil
  then show ?case by (auto split: option.split)
next
  case (Cons m ms)
  then show ?case by (auto intro!: steady_and_next steady_case_sum)
qed

lemma keeping_dialback_loop:
  assumes "\<And>addr. serving V ic pc (dialback addr)"
  shows "serving V ic pc (dialback_loop M role dialback addrs reached)"
proof (induction addrs arbitrary: reached)
  case (Cons addr addrs)
  then show ?case
    by (auto intro!: steady_and_next keeping_caught assms serving_in_app split: sum.split bool.split)
qed auto

lemma caught_eq: "caught m s = Some (s', Done x) \<longleftrightarrow>
    (case x of Inr y \<Rightarrow> m s = Some (s', Done y) | Inl message \<Rightarrow> m s = Some (s', Failed message))"
  by (auto simp: caught_def finish_def panic_def split: option.splits prod.splits outcome.splits sum.splits)

lemma in_app_eq: "in_app m s = Some (s', r) \<longleftrightarrow> (\<exists>w'. m (fst s) = Some (w', r) \<and> s' = (w', snd s))"
  by (cases s) (auto simp: in_app_def)

section \<open>Probes\<close>

text \<open>
  An endpoint with a new key and one socket dialed the address of the peer, and its swarm then reported a
  connection with the peer.
\<close>

definition probe_reached :: "('q, 's, 'mh::linorder) run_env \<Rightarrow> 'mh peer_id \<Rightarrow> 'mh multiaddr \<Rightarrow> bool" where
  "probe_reached V p addr \<longleftrightarrow>
     (\<exists>n kp self t d addr' out c message message' deadline w1 w2 w3.
        freshly_bound (rv_mh V) (rv_sha V) kp AGENT t self d \<and> one_socket t self \<and> peer_addr_new addr p = Ok addr' \<and>
        session_dial (probe_env V n) message addr' \<lparr>ss_swarm = d\<lparr>dv_readings := n\<rparr>, ss_out = out\<rparr> = Some (w1, Done c) \<and>
        instant_now (probe_env V n) w1 = Some (w2, Done (deadline - AUTONAT_DIALBACK_DEADLINE)) \<and>
        wait_printing (probe_env V n) (\<lambda>_. []) message' deadline (is_connected_event p) w2 =
          Some (w3, Done (Some (SwConnectionEstablished p))))"

locale service_laws = session_laws V packets unread backlog sent
  for V :: "('q, 's, 'mh::linorder) run_env" and packets unread backlog sent +
  fixes D :: "'d ed25519_api" and R :: der_api and X :: "('sk, 'b, 'cert, 'v, 'r) x509_api"
  assumes identity: "identity_laws (rv_mh V) (rv_sha V) D R X"
begin

lemma probe_laws: "session_laws (probe_env V n) packets unread backlog sent"
  using loop send order handshake crypto entropy by unfold_locales (auto simp: probe_env_def)

lemma steady_probe: "steady (probe_env V n) ic pc bad (probe_session (probe_env V n) p addr timeout)"
  unfolding probe_session_def
  by (intro steady_and_next steady_lift session_laws.steady_swarm_calls [OF probe_laws] steady_instant steady_finish
      session_laws.steady_wait_printing [OF probe_laws])

text \<open>The endpoint of a probe is a new one with one socket.\<close>

lemma probe_endpoint:
  assumes "generate_with_rng D rng = (rng', kp)"
  shows "\<exists>cert_rng' res. qe_bind (rv_mh V) (rv_sha V) D R X B (node_config_new kp) bind_addr cert_rng = Some (cert_rng', res) \<and>
    (\<forall>t. res = Ok t \<longrightarrow> (\<exists>self d. build_endpoint (rv_mh V) (rv_sha V) kp AGENT (t :: ('q, 's, 'mh) quic_endpoint) = Some d \<and>
      freshly_bound (rv_mh V) (rv_sha V) kp AGENT t self d \<and> one_socket t self))"
proof -
  let ?M = "rv_mh V" and ?H = "rv_sha V"
  have kp: "keypair_ok D kp"
    using keypair_ok_generate [of D rng] identity assms by (simp add: identity_laws_def)
  obtain self where self: "keypair_peer_id ?M ?H kp = Some self" using keypair_peer_id_Some [OF crypto] .
  obtain cert_rng' and res :: "_ + ('q, 's, 'mh) quic_endpoint" where
    bind: "qe_bind ?M ?H D R X B (node_config_new kp) bind_addr cert_rng = Some (cert_rng', res)"
    "case res of Inl e \<Rightarrow> True | Inr t \<Rightarrow> one_socket t self \<and> presents ?M ?H D R X B self"
    using qe_bind_makes [OF identity, of B bind_addr, unfolded makes_transport_def, rule_format, of "node_config_new kp" self cert_rng] kp self
    by (auto simp: node_config_new_def node_config_peer_id_def)
  have "\<exists>d. build_endpoint ?M ?H kp AGENT t = Some d \<and> freshly_bound ?M ?H kp AGENT t self d" for t :: "('q, 's, 'mh) quic_endpoint"
    using self by (simp add: build_endpoint_def builder_new_def keypair_peer_id_def keypair_public_key_def freshly_bound_def
        builder_build_def builder_agent_version_def into_identify_config_def facade_peer_id_def driver_new_def)
  then show ?thesis using bind by (cases res) (auto, blast)
qed

lemma probe_done:
  assumes "probe_session (probe_env V n) p addr AUTONAT_DIALBACK_DEADLINE \<lparr>ss_swarm = d\<lparr>dv_readings := n\<rparr>, ss_out = out\<rparr> = Some (w, Done True)"
    and "freshly_bound (rv_mh V) (rv_sha V) kp AGENT t self d" and "one_socket t self"
    and "app_ok (probe_env V n) ic pc \<lparr>ss_swarm = d\<lparr>dv_readings := n\<rparr>, ss_out = out\<rparr>"
  shows "probe_reached V p addr"
proof -
  let ?w = "\<lparr>ss_swarm = d\<lparr>dv_readings := n\<rparr>, ss_out = out\<rparr>" and ?V = "probe_env V n"
  obtain addr' c message message' now w1 w2 w3 ev where run: "peer_addr_new addr p = Ok addr'"
    "session_dial ?V message addr' ?w = Some (w1, Done c)" "instant_now ?V w1 = Some (w2, Done now)"
    "wait_printing ?V (\<lambda>_. []) message' (now + AUTONAT_DIALBACK_DEADLINE) (is_connected_event p) w2 = Some (w3, Done (Some ev))"
    using assms(1) unfolding probe_session_def by (auto simp: and_next_Done lift_result_def fail_def finish_def split: sum.splits)
  have "app_ok ?V ic pc w2"
    using steadyD [OF session_laws.steady_swarm_calls(1) [OF probe_laws] assms(4) run(2)] steadyD [OF steady_instant _ run(3)] by blast
  from session_laws.wait_printing_returns [OF probe_laws this run(4)]
  have "is_connected_event p ev" by blast
  then have "ev = SwConnectionEstablished p" by (cases ev) auto
  then show ?thesis
    unfolding probe_reached_def using assms(2,3) run
    by (metis (no_types, lifting) add_diff_cancel_right')
qed

lemma dialback_bind:
  "serving V ic pc (dialback_candidate_with_bind V D R X B p addr AUTONAT_DIALBACK_DEADLINE bind_addr)"
  "dialback_candidate_with_bind V D R X B p addr AUTONAT_DIALBACK_DEADLINE bind_addr s = Some (s', Done True) \<Longrightarrow> probe_reached V p addr"
proof -
  let ?call = "dialback_candidate_with_bind V D R X B p addr AUTONAT_DIALBACK_DEADLINE bind_addr"
  have *: "(app_ok V ic pc (fst s) \<longrightarrow> app_ok V ic pc (fst s') \<and> r \<noteq> Panicked \<and> (\<exists>lines. ss_out (fst s') = ss_out (fst s) @ lines)) \<and>
      (r = Done True \<longrightarrow> probe_reached V p addr)" if run: "?call s = Some (s', r)" for s s' r ic pc
  proof -
    obtain w rng cert_rng where s: "s = (w, rng, cert_rng)" by (rule prod_cases3)
    obtain rng' kp where kp: "generate_with_rng D rng = (rng', kp)" by force
    let ?n = "dv_readings (ss_swarm w)"
    obtain cert_rng' and res :: "_ + ('q, 's, 'mh) quic_endpoint" where
      bind: "qe_bind (rv_mh V) (rv_sha V) D R X (B ?n) (node_config_new kp) bind_addr cert_rng = Some (cert_rng', res)"
      "\<forall>t. res = Ok t \<longrightarrow> (\<exists>self d. build_endpoint (rv_mh V) (rv_sha V) kp AGENT t = Some d \<and>
        freshly_bound (rv_mh V) (rv_sha V) kp AGENT t self d \<and> one_socket t self)"
      using probe_endpoint [OF kp, of "B ?n" bind_addr cert_rng] by blast
    show ?thesis
    proof (cases res)
      case (Inl e)
      then show ?thesis
        using run s kp bind(1) by (auto simp: dialback_candidate_with_bind_def fail_def)
    next
      case (Inr t)
      then obtain self d where d: "build_endpoint (rv_mh V) (rv_sha V) kp AGENT t = Some d"
        "freshly_bound (rv_mh V) (rv_sha V) kp AGENT t self d" "one_socket t self" using bind(2) by blast
      let ?w = "\<lparr>ss_swarm = d\<lparr>dv_readings := ?n\<rparr>, ss_out = ss_out w\<rparr>" and ?V = "probe_env V ?n"
      obtain w1 where w1: "probe_session ?V p addr AUTONAT_DIALBACK_DEADLINE ?w = Some (w1, r)"
        "fst s' = \<lparr>ss_swarm = (ss_swarm w)\<lparr>dv_readings := dv_readings (ss_swarm w1)\<rparr>, ss_out = ss_out w1\<rparr>"
        using run s kp bind(1) Inr d(1)
        by (auto simp: dialback_candidate_with_bind_def in_app_eq in_probe_def split: option.splits)
      obtain ic' pc' where "facade_ok (rv_mh V) (rv_sha V) ic' pc' (rv_quic V) d"
        using d(2,3) facade_ok_new [OF crypto, where E = "rv_quic V"] unfolding freshly_bound_def one_socket_def by metis
      then have ok: "app_ok ?V ic' pc' ?w" by (simp add: app_ok_def probe_env_def facade_ok_def)
      note kept = steadyD [OF steady_probe [where bad = False] ok w1(1)]
      have "app_ok V ic pc (fst s')" if "app_ok V ic pc w"
        using that w1(2) by (simp add: app_ok_def facade_ok_def)
      then show ?thesis
        using kept w1(2) s probe_done [OF _ d(2,3) ok] w1(1) by auto
    qed
  qed
  show "serving V ic pc ?call" unfolding keeping_def using * by blast
  show "?call s = Some (s', Done True) \<Longrightarrow> probe_reached V p addr" using * by blast
qed

lemma merge_reached:
  "merge_dialback_results ms last_error saw_completion s = Some (s', Done True) \<Longrightarrow> \<exists>m \<in> set ms. \<exists>s1 s2. m s1 = Some (s2, Done (Inr True))"
proof (induction ms arbitrary: last_error saw_completion s)
  case Nil
  then show ?case by (auto simp: fail_def finish_def split: if_splits option.splits)
next
  case (Cons m ms)
  then obtain s1 x where one: "m s = Some (s1, Done x)"
    "(case x of Inr reached \<Rightarrow> if reached then finish True else merge_dialback_results ms last_error True
      | Inl e \<Rightarrow> merge_dialback_results ms (Some e) saw_completion) s1 = Some (s', Done True)"
    by (auto simp: and_next_Done)
  show ?case
  proof (cases "x = Inr True")
    case True
    then show ?thesis using one(1) by auto
  next
    case False
    then show ?thesis using one(2) Cons.IH by (cases x) (fastforce split: if_splits)+
  qed
qed

lemma dialback:
  "serving V ic pc (dialback_candidate V D R X B p addr AUTONAT_DIALBACK_DEADLINE)"
  "dialback_candidate V D R X B p addr AUTONAT_DIALBACK_DEADLINE s = Some (s', Done True) \<Longrightarrow> probe_reached V p addr"
proof -
  show "serving V ic pc (dialback_candidate V D R X B p addr AUTONAT_DIALBACK_DEADLINE)"
    unfolding dialback_candidate_def by (intro keeping_merge) (auto intro!: keeping_caught dialback_bind(1))
  show "probe_reached V p addr" if "dialback_candidate V D R X B p addr AUTONAT_DIALBACK_DEADLINE s = Some (s', Done True)"
    using merge_reached [OF that [unfolded dialback_candidate_def]] dialback_bind(2) by (auto simp: caught_eq)
qed

end

text \<open>The addresses the loop returns are those whose call returned \<open>True\<close>, without repetition.\<close>

definition dialback_says :: "('w, bool) script \<Rightarrow> bool \<Rightarrow> bool" where
  "dialback_says call reached \<longleftrightarrow> (\<exists>s s' r. call s = Some (s', r) \<and> (r = Done True) = reached)"

lemma dialback_loop_reached:
  assumes "dialback_loop M role call addrs reached s = Some (s', Done result)" and "distinct reached"
  shows "distinct result \<and> set reached \<subseteq> set result \<and> set result \<subseteq> set reached \<union> set addrs \<and>
    (\<forall>a \<in> set result - set reached. dialback_says (call a) True) \<and>
    (\<forall>a \<in> set addrs - set result. dialback_says (call a) False)"
  using assms
proof (induction addrs arbitrary: reached s)
  case (Cons a addrs)
  obtain s1 x where one: "caught (call a) s = Some (s1, Done x)" using Cons.prems(1) by (auto simp: and_next_Done)
  obtain s2 where rest: "dialback_loop M role call addrs (if x = Inr True then push_unique reached a else reached) s2 = Some (s', Done result)"
    using Cons.prems(1) one by (cases x) (auto simp: and_next_Done split: bool.splits if_splits)
  have "distinct (push_unique reached a)" "set (push_unique reached a) = insert a (set reached)"
    using Cons.prems(2) by (auto simp: push_unique_def list_ex_iff)
  moreover have "\<exists>r. call a s = Some (s1, r) \<and> (r = Done True) = (x = Inr True)"
    using one by (cases x) (auto simp: caught_eq)
  then have "dialback_says (call a) (x = Inr True)" unfolding dialback_says_def by blast
  ultimately show ?case
    using Cons.IH [OF rest] Cons.prems(2) by (cases "x = Inr True") auto
qed (auto simp: finish_def)

section \<open>Requests\<close>

text \<open>The answer went to the requester on its stream; at most lines were printed after that.\<close>

definition answered ::
  "('q, 's, 'mh::linorder) run_env \<Rightarrow> 'mh peer_id \<Rightarrow> stream_id \<Rightarrow> autonat_message \<Rightarrow> ('q, 's, 'mh) session \<Rightarrow> bool" where
  "answered V requester sid message w \<longleftrightarrow>
     (\<exists>w1 w2 lines. send_data V requester sid (autonat_wire message) w1 = Some (w2, Done ()) \<and> w = w2\<lparr>ss_out := ss_out w2 @ lines\<rparr>)"

lemma answer_flush:
  assumes "av_emitted server" and "probe_answer M i = Some (message, result)"
    and "autonat_respond M server i w = Some (w', Done server')" and "autonat_server_flush M server' w2 = Some (w3, Done (server'', bs))"
  shows "bs = autonat_wire message"
  using av_answer [OF assms(2,1)] assms(3,4)
  by (auto simp: autonat_respond_def autonat_server_flush_def machine_flush_def finish_def)

lemma reject_probe_answers:
  assumes "av_emitted server" and "reject_probe V role requester sid server w = Some (w', Done ())"
  shows "answered V requester sid (dial_answer (rv_mh V) RsBadRequest (Some (lit ''AutoNAT request peer id did not match stream peer'')) []) w'"
proof -
  let ?i = "AsRespondError RsBadRequest (lit ''AutoNAT request peer id did not match stream peer'')"
  obtain w1 server' w2 server'' bs w3 where run: "autonat_respond (rv_mh V) server ?i w = Some (w1, Done server')"
    "autonat_server_flush (rv_mh V) server' w1 = Some (w2, Done (server'', bs))" "send_data V requester sid bs w2 = Some (w3, Done ())"
    "w' = w3\<lparr>ss_out := ss_out w3 @ [Stdout (tagged role (lit ''probe-rejected reason=peer-id-mismatch''))]\<rparr>"
    using assms(2) by (auto simp: reject_probe_def and_next_Done say_out_def say_def finish_def)
  show ?thesis
    unfolding answered_def using answer_flush [OF assms(1) _ run(1,2)] run(3,4) by fastforce
qed

lemma answer_probe_answers:
  assumes "av_emitted server" and "answer_probe V role requester sid server reached w = Some (w', Done ())"
  shows "answered V requester sid
    (if reached = [] then dial_answer (rv_mh V) RsDialError (Some (lit ''dialback deadline elapsed'')) []
     else dial_answer (rv_mh V) RsOk None reached) w'"
proof -
  let ?i = "if reached = [] then AsRespondError RsDialError (lit ''dialback deadline elapsed'') else AsRespondPublic reached"
  obtain w1 server' w2 w3 server'' bs where run: "autonat_respond (rv_mh V) server ?i w = Some (w1, Done server')"
    "autonat_server_flush (rv_mh V) server' w2 = Some (w3, Done (server'', bs))" "send_data V requester sid bs w3 = Some (w', Done ())"
    using assms(2) by (cases "reached = []") (auto simp: answer_probe_def and_next_Done finish_def)
  have "bs = autonat_wire (if reached = [] then dial_answer (rv_mh V) RsDialError (Some (lit ''dialback deadline elapsed'')) []
     else dial_answer (rv_mh V) RsOk None reached)"
    using answer_flush [OF assms(1) _ run(1,2)] by (cases "reached = []") auto
  then show ?thesis
    using run(3) unfolding answered_def by (intro exI [of _ w3] exI [of _ w'] exI [of _ "[]"]) simp
qed

context service_laws
begin

lemma steady_respond_probe: "steady V ic pc bad (autonat_respond (rv_mh V) server i)"
  by (cases i) (auto simp: autonat_respond_def split: sum.split prod.split)

lemma serving_request: "serving V ic pc (handle_autonat_request V D R X B role requester sid)"
  unfolding handle_autonat_request_def read_autonat_request_def reject_probe_def answer_probe_def
  by (intro steady_and_next serving_in_app steady_case_prod steady_if keeping_dialback_loop dialback(1) steady_feed_until steady_respond_probe) auto

lemma read_request_emitted:
  assumes "app_ok V ic pc w" and "read_autonat_request V role sid w = Some (w', Done (server, request))"
  shows "av_emitted server"
proof -
  let ?T = "\<lambda>x _. av_emitted (fst x)"
  have feeding: "concludes V ic pc (autonat_server_feed (rv_mh V) av data) (\<lambda>x _. snd x \<noteq> None \<longrightarrow> av_emitted (fst x))" for av data
    by (auto simp: concludes_def autonat_server_feed_def machine_feed_def fail_def finish_def av_poll_output_def Let_def
        split: sum.splits prod.splits option.splits if_splits)
  have turn: "concludes V ic pc (and_next (autonat_server_feed (rv_mh V) av data) (\<lambda>(flow, answer).
      finish (case answer of Some x \<Rightarrow> Inr (flow, x) | None \<Rightarrow> Inl flow))) (\<lambda>res. ends_in (case_sum (\<lambda>_ _. True) ?T res))" for av data
  proof (rule concludes_seq [OF steady_autonat_machines(3) feeding, where R = "\<lambda>x res _. res = (case snd x of Some y \<Rightarrow> Inr (fst x, y) | None \<Rightarrow> Inl (fst x))"])
  qed (auto simp: concludes_def finish_def ends_in_def split: option.splits)
  have "concludes V ic pc (feed_until V role sid deadline (autonat_server_feed (rv_mh V)) av) (\<lambda>x. ends_in (?T x))" for deadline av
    unfolding feed_until_def
    by (intro concludes_repeat concludes_next [OF steady_waits(4)] turn steady_and_next steady_waits(4) steady_autonat_machines(3)
        steady_case_prod steady_finish)
  moreover obtain w1 now w2 where run: "instant_now V w = Some (w1, Done now)"
    "feed_until V role sid (now + AUTONAT_REQUEST_DEADLINE) (autonat_server_feed (rv_mh V)) autonat_server_new w1 = Some (w2, Done (server, request))"
    using assms(2) by (auto simp: read_autonat_request_def and_next_Done finish_def)
  moreover have "app_ok V ic pc w1" using steadyD [OF steady_instant assms(1) run(1)] by blast
  ultimately show ?thesis by (fastforce simp: concludes_def ends_in_def)
qed

text \<open>A request that was served.\<close>

lemma request_answered:
  assumes ok: "app_ok V ic pc w" and run: "handle_autonat_request V D R X B role requester sid (w, rngs) = Some ((w', rngs'), Done ())"
  shows "\<exists>w1 server request. read_autonat_request V role sid w = Some (w1, Done (server, request)) \<and>
    (if aq_peer_id request \<noteq> requester
     then rngs' = rngs \<and> answered V requester sid
       (dial_answer (rv_mh V) RsBadRequest (Some (lit ''AutoNAT request peer id did not match stream peer'')) []) w'
     else \<exists>reached. distinct reached \<and> set reached \<subseteq> set (aq_addrs request) \<and> (\<forall>a \<in> set reached. probe_reached V requester a) \<and>
       (\<forall>a \<in> set (aq_addrs request) - set reached.
          dialback_says (dialback_candidate V D R X B requester a AUTONAT_DIALBACK_DEADLINE) False) \<and>
       answered V requester sid (if reached = [] then dial_answer (rv_mh V) RsDialError (Some (lit ''dialback deadline elapsed'')) []
         else dial_answer (rv_mh V) RsOk None reached) w')"
proof -
  obtain w1 server request where read: "read_autonat_request V role sid w = Some (w1, Done (server, request))"
    and rest: "(if aq_peer_id request \<noteq> requester then in_app (reject_probe V role requester sid server)
      else and_next (dialback_loop (rv_mh V) role (\<lambda>addr. dialback_candidate V D R X B (aq_peer_id request) addr AUTONAT_DIALBACK_DEADLINE)
          (aq_addrs request) []) (\<lambda>reached. in_app (answer_probe V role requester sid server reached))) (w1, rngs) = Some ((w', rngs'), Done ())"
    using run by (auto simp: handle_autonat_request_def and_next_Done in_app_eq)
  note emitted = read_request_emitted [OF ok read]
  show ?thesis
  proof (cases "aq_peer_id request = requester")
    case False
    then have "reject_probe V role requester sid server w1 = Some (w', Done ())" "rngs' = rngs" using rest by (auto simp: in_app_eq)
    then show ?thesis using read False reject_probe_answers [OF emitted] by auto
  next
    case True
    then obtain s2 reached where loop: "dialback_loop (rv_mh V) role (\<lambda>addr. dialback_candidate V D R X B requester addr AUTONAT_DIALBACK_DEADLINE)
        (aq_addrs request) [] (w1, rngs) = Some (s2, Done reached)" "answer_probe V role requester sid server reached (fst s2) = Some (w', Done ())"
      using rest by (auto simp: and_next_Done in_app_eq)
    have "probe_reached V requester a" if "dialback_says (dialback_candidate V D R X B requester a AUTONAT_DIALBACK_DEADLINE) True" for a
      using that dialback(2) unfolding dialback_says_def by blast
    then show ?thesis
      using read True dialback_loop_reached [OF loop(1)] answer_probe_answers [OF emitted loop(2)]
      by (intro exI [of _ w1] exI [of _ server] exI [of _ request]) (auto intro!: exI [of _ reached])
  qed
qed

lemma serving_service: "serving V ic pc (autonat_service V D R X B)"
proof -
  have "serving V ic pc (case ev of
      Some (SwUserStreamReady p sid _ _) \<Rightarrow> and_next (caught (handle_autonat_request V D R X B role p sid)) (\<lambda>r.
        and_next (case r of Inl e \<Rightarrow> in_app (say_err role (line sid e)) | Inr _ \<Rightarrow> finish ()) (\<lambda>_. finish (Inl ())))
    | _ \<Rightarrow> finish (Inr ()))" for ev role line
    by (auto intro!: steady_and_next steady_case_sum keeping_caught serving_request serving_in_app split: option.split swarm_event.split)
  then have "serving V ic pc (service_turn V D R X B role deadline)" for role deadline
    unfolding service_turn_def by (intro steady_and_next steady_if serving_in_app) auto
  then show ?thesis
    unfolding autonat_service_def Let_def by (intro steady_and_next steady_repeat serving_in_app) auto
qed

end

interpretation demo_service: service_laws demo_run_env mq_packets "\<lambda>_. 0" "\<lambda>k. length (mo_inbox k)" mq_sent mini_ed mini_der mini_x509
  by unfold_locales (simp add: demo_run_env_def demo_identity_laws)


text \<open>A request without a type fails.\<close>

definition demo_request_app :: "(mini_quic, mini_os, mh64) session" where
  "demo_request_app = \<lparr>ss_swarm = demo_endpoint\<lparr>dv_event_buffer := [SwUserStreamData demo_peer (StreamId 0) [0]]\<rparr>, ss_out = []\<rparr>"

lemma demo_request_app_ok: "app_ok demo_run_env demo_identify \<lparr>request_timeout_ms = 1000\<rparr> demo_request_app"
  using demo_app_ok by (simp add: app_ok_def demo_app_def demo_request_app_def facade_ok_def)

lemma untyped_request: "autonat_server_feed M autonat_server_new [0] w = Some (w, Failed (lit ''AutoNAT decode: '' @ show_autonat_error AnMissingType))"
proof -
  have "read_uvarint [0] = Ok (0, 1)" by code_simp
  then have "autonat_next_frame [0] = Ok (Some ([], 1))"
    by (simp add: autonat_next_frame_def autonat_enforce_max_size_def autonat_decode_frame_def AUTONAT_MAX_MESSAGE_SIZE_def)
  moreover have "autonat_message_decode [] = Err AnMissingType"
    by (simp add: autonat_message_decode_def wire_loop.simps)
  ultimately show ?thesis
    by (simp add: autonat_server_feed_def machine_feed_def av_on_data_def autonat_server_new_def av_try_decode_request_def fail_def)
qed

lemma demo_request_fails:
  "\<exists>w' message. read_autonat_request demo_run_env role (StreamId 0) demo_request_app = Some (w', Failed message)"
proof -
  obtain w now where now: "instant_now demo_run_env demo_request_app = Some (w, Done now)"
    and w: "dv_event_buffer (ss_swarm w) = [SwUserStreamData demo_peer (StreamId 0) [0]]"
    by (simp add: instant_now_def finish_def demo_request_app_def)
  obtain w' where "wait_user_stream_data demo_run_env role (StreamId 0) deadline w = Some (w', Done [0])" for deadline
    using w by (simp add: wait_user_stream_data_def wait_until_def wait_printing_def run_until.simps poll_next.simps lift_result_def or_fail_def
        and_next_def finish_def)
  then have "feed_until demo_run_env role (StreamId 0) deadline (autonat_server_feed (rv_mh demo_run_env)) autonat_server_new w =
      Some (w', Failed (lit ''AutoNAT decode: '' @ show_autonat_error AnMissingType))" for deadline
    unfolding feed_until_def by (subst repeat_until.simps) (simp add: and_next_def untyped_request)
  then show ?thesis
    using now by (simp add: read_autonat_request_def and_next_def)
qed


end
