(* ===== verification/Spec2Isabelle.thy ===== *)
theory Spec2Isabelle
  imports OrderedMap SansIo Multiaddr Negotiation Ping Identify Relay Dcutr AutoNat SwarmProps PeerServiceProps
begin

text \<open>
  A verification of minip2p, a small libp2p stack in Rust.

  \<^bold>\<open>The program.\<close>  Every protocol of minip2p is a \<^emph>\<open>sans-I/O\<close> state machine: it is fed inputs
  (bytes from a stream, requests of the host, ticks), queues outputs (bytes to send, events) and
  never performs I/O itself.  A driver moves bytes between the machines and a transport.  Under the
  machines lie the identity types (peer ids, keys, varints, base encodings), the addresses
  (multiaddrs) and small hand-written protobuf codecs.

  \<^bold>\<open>Theories and sources\<close> (paths under \<open>src/crates\<close>).

    \<^item> \<open>Prelude\<close>: results as sums (\<open>Ok\<close>, \<open>Err\<close>, \<open>and_then\<close> for \<open>?\<close>), bytes and strings as byte
      lists, \<open>vec_ok\<close> (a \<open>Vec\<close> never exceeds \<open>isize::MAX\<close> bytes), list and word lemmas, the
      collections \<open>codec\<close> and \<open>advance\<close>.
    \<^item> \<open>OrderedMap\<close>: \<open>BTreeMap\<close> and \<open>BTreeSet\<close> as sorted association lists, with their laws as the
      locale \<open>ordered_map\<close>.
    \<^item> \<open>SansIo\<close>: the trait \<open>SansIoProtocol\<close> of \<open>core/src/sans_io.rs\<close> as the locale
      \<open>sans_io_protocol\<close>; draining the outputs returns and leaves an idle machine.
    \<^item> \<open>Varint\<close>, \<open>Utf8\<close>, \<open>BaseEnc\<close>, \<open>PeerId\<close>: \<open>identity/src/peer_id.rs\<close> and \<open>identity/src/key.rs\<close>.
    \<^item> \<open>Multiaddr\<close>: \<open>core/src/{protocol,multiaddr,peer_addr,candidates}.rs\<close>; \<open>MultiaddrText\<close> has the text
      form, over \<open>IpText\<close>, which models the integer and IPv6 parsers and printers of the standard library.
    \<^item> \<open>Ids\<close>: \<open>transport/src/{stream_id,connection_id}.rs\<close> and the orders of the identifiers.
    \<^item> \<open>Multistream\<close>, \<open>Negotiation\<close>: \<open>multistream-select/src/lib.rs\<close>, first one machine, then a dialer
      and a listener joined by a byte stream.
    \<^item> \<open>Ping\<close>: \<open>ping/src/lib.rs\<close>.
    \<^item> \<open>Proto\<close>: the protobuf and framing layer that \<open>identify\<close>, \<open>relay\<close> and \<open>dcutr\<close> each carry a copy
      of, with the decoding loop, the locale \<open>wire_message\<close> (decoding inverts encoding field by
      field) and the locale \<open>framing\<close>.
    \<^item> \<open>Identify\<close>: \<open>identify/src/{message,lib}.rs\<close>.
    \<^item> \<open>RelayMsg\<close>, \<open>Relay\<close>: \<open>relay/src/{message,lib}.rs\<close>.
    \<^item> \<open>Dcutr\<close>: \<open>dcutr/src/{message,lib}.rs\<close>.
    \<^item> \<open>AutoNat\<close>: \<open>autonat/src/lib.rs\<close>.
    \<^item> \<open>Transport\<close>: \<open>transport/src\<close>, the events, errors and actions of a transport, and the methods of
      the trait as a record of functions.
    \<^item> \<open>Swarm\<close>: \<open>swarm/src/{events,core}.rs\<close>, every operation of \<open>SwarmCore\<close>.  \<open>SwarmInv\<close> and
      \<open>SwarmStreams\<close> state its invariant and prove that every operation keeps it and does not panic;
      \<open>SwarmTable\<close> proves that its connection tables refine an abstract one; \<open>SwarmUser\<close> follows the
      bytes of a stream through negotiation to the application; \<open>SwarmProps\<close> states the properties.
    \<^item> \<open>Driver\<close>: \<open>swarm/src/{driver,builder}.rs\<close>, over any transport and any clock; \<open>DriverProps\<close> its
      properties.
    \<^item> \<open>QuicConn\<close>, \<open>QuicAddr\<close>, \<open>Quic\<close>, \<open>QuicDual\<close>: \<open>src/transports/quic/src/{connection,lib}.rs\<close>, one
      connection, its addresses, the transport over one socket, and the endpoint over one or two;
      \<open>QuicConnProps\<close>, \<open>QuicProps\<close> and \<open>QuicEndpointProps\<close> their properties.  \<open>QuicNew\<close>: the constructors of
      \<open>lib.rs\<close> and \<open>config.rs\<close>.
    \<^item> \<open>Keys\<close>: \<open>identity/src/{ed25519,signed}.rs\<close> and the signatures of \<open>key.rs\<close>.  \<open>Tls\<close>, \<open>TlsProps\<close>: \<open>tls/src\<close>, making
      and verifying certificates, the signed key in them, and PEM.
    \<^item> \<open>Facade\<close>: \<open>minip2p/src/lib.rs\<close>, the endpoint of the application: the driver over a QUIC endpoint with
      the verification of \<open>tls\<close>; \<open>FacadeProps\<close> its properties, which rest on all the others.
    \<^item> \<open>Cli\<close>, \<open>PeerRuntime\<close>, \<open>PeerDirect\<close>: \<open>src/examples/peer/src/{cli,runtime,direct}.rs\<close>, the command line, the key
      files and the direct modes of the example program, as scripts over the facade.
    \<^item> \<open>PeerCandidates\<close>, \<open>PeerFlows\<close>, \<open>PeerRelay\<close>, \<open>PeerService\<close>: \<open>src/examples/peer/src/{relay,main}.rs\<close>, in this
      order the addresses a node offers for direct connections, the calls of the relay, DCUtR and AutoNAT machines
      with the waits for events, the relay listener and dialer, and the AutoNAT service with the dispatch of \<open>main\<close>;
      \<open>PeerRelayProps\<close> and \<open>PeerServiceProps\<close> their properties.
    \<^item> \<open>TransportContract\<close>: what the driver needs of a transport, as the locale \<open>calm_transport\<close>; \<open>QuicCalm\<close> proves
      that the QUIC endpoint is one.

  \<^bold>\<open>How code becomes definitions.\<close>  A struct is a record, an enum a datatype, \<open>u8\<close> \<dots> \<open>u64\<close> are words,
  \<open>usize\<close> is \<open>nat\<close> with the wrap-around written out where a sum may overflow.  A method on \<open>&mut self\<close>
  takes the state and returns it; \<open>handle_input\<close> returns the state also on an error, because the
  sources mutate before they fail, and \<open>None\<close> is a panic (an \<open>expect\<close>, an unreachable branch, an
  overflowing sum before a slice).  Loops over a buffer are recursive functions with a termination
  proof; no model needs fuel except the drain loop of the trait, whose fuel is one more than the number
  of queued outputs.  The two loops of the driver that wait for events, \<open>poll_next\<close> and \<open>run_until\<close>, may
  run forever; they are partial functions whose value is then \<open>None\<close>.  The multihash container
  and SHA-256, which are third-party code, are parameters
  (\<open>multihash_api\<close>) with their documented laws (\<open>multihash_laws\<close>); \<open>mh64_api\<close> shows that the laws can
  hold.

  \<^bold>\<open>What is proved.\<close>  For the codecs: decoding inverts encoding with any continuation, prefixes are
  reported as incomplete, and for varints and keys nothing but an encoding is accepted.  For each
  machine: an invariant that every input keeps, that no input panics (except the frame decoder, for
  which the exact panicking inputs are given), that its outputs can be drained, and its functional
  behaviour on byte streams cut into arbitrary pieces.  For multistream-select moreover that a dialer
  and a listener agree under every interleaving, and that every run ends.

  The swarm connects the parts: its invariant rests on those of ping, identify and the negotiator,
  and the end-to-end property of application streams on the runs of a dialer and a listener.  What the
  swarm needs from a transport is one hypothesis, \<open>input_ok\<close>: a connection bound to a peer is not
  announced as connected to another one.

  The driver joins the core to a transport: executing the outputs of the core ends for every
  transport (each output weighs more than what executing it can add), every operation returns to an
  idle core, no event is lost or reordered, and waiting for an event ends when the deadline is over
  unless events keep coming.

  The QUIC transport is modelled over what it calls: \<open>quiche\<close>, the socket, the random source, name
  resolution, the certificate check and the order in which a hash map lists its keys are the fields of
  the record \<open>quic_env\<close>.  What is relied on of them is stated as \<open>loop_laws\<close> (only finitely many packets,
  bytes and datagrams wait), \<open>send_laws\<close> (QUIC appends what it accepts of a write) and \<open>order_laws\<close> (each key
  is listed once); \<open>mini_env\<close> shows that they can hold.  A loop over these that would not end has the value
  \<open>None\<close>; the laws are used to prove that every call returns.  Then nothing written to a stream is lost or
  reordered, the tables of the endpoint agree after every call, and a connection is announced only with a
  peer its certificate proved; one path that leaves a connection in use without verification is shown as an
  error.

  Keys and certificates are modelled over what they call: \<open>ed25519-dalek\<close> (\<open>ed25519_api\<close>), the DER reader and
  writer (\<open>der_api\<close>), X.509 and P-256 (\<open>x509_api\<close>), and for construction the sockets, BoringSSL and the
  configuration of \<open>quiche\<close> (\<open>bind_env\<close>).  \<open>ed25519_laws\<close>, \<open>der_laws\<close> and \<open>x509_laws\<close> state that what was signed
  verifies and what was written reads back; \<open>mini_ed\<close>, \<open>mini_der\<close> and \<open>mini_x509\<close> show that they can hold.  A
  certificate made for a key pair then verifies to its peer id, and an endpoint presents such a certificate.

  The layers meet in \<open>FacadeProps\<close>.  A connection of the transport is fresh while it is absent or in its
  handshake; the transport announces only fresh connections and the core binds peers only to others, so that
  \<open>input_ok\<close> is not a hypothesis there but proved: no call of an endpoint with one socket panics, and the peers
  it reports have signed the key of a certificate.  What this adds to the laws is \<open>handshake_laws\<close>: \<open>quiche\<close> ends a
  handshake only while it takes in a datagram without an error.  An endpoint with two sockets doubles the ids of
  its connections with saturation, so that two connections may share an id once \<open>2^63\<close> were allocated; for it the
  tables are proved to agree, but not this composition.

  The example program is a set of scripts over the facade: a script takes a session (the endpoint and the lines
  printed so far) and returns it with a result, an error message or a panic; \<open>None\<close> is a wait that does not end.
  The clock, the random source, the file system and the texts of \<open>Debug\<close> are fields of \<open>run_env\<close> and \<open>fs_api\<close>.
  Each combinator of scripts has one lemma that it keeps the invariant of the endpoint (\<open>keeping\<close>) and one about
  the lines at the end (\<open>concludes\<close>), so that the properties of a mode follow its structure.  The direct modes and
  the AutoNAT service do not panic.  For the relay modes only the invariant and what a successful end means are
  shown: the frame decoder of relay and DCUtR can panic on the bytes of a peer, and the scripts call it.  The
  AutoNAT service calls an address reachable only if a probe, an endpoint with one socket and a new key that
  shares the clock of the program, was connected there with the requester.

  \<^bold>\<open>Not modelled.\<close>  Tests, benchmarks and the build files.  That a thread sleeps is not a step of its own: the
  clock is an arbitrary sequence of readings.
\<close>

end
